(* ===== verification/Prelude.thy ===== *)
theory Prelude
  imports Main "HOL-Library.AList"
begin

section \<open>Prelude: errors as values, Python dictionaries and list lemmas\<close>

text \<open>
  The notions every component of the development shares.

  \<^item> \<open>py_error\<close> is the type of the exceptions the modelled code raises; a fallible
    routine returns \<open>'a result\<close>, a sum whose left part is the exception. What the
    store looks like after an exception is not modelled: every caller in the modelled
    code lets it propagate.
  \<^item> \<open>rbind\<close>, \<open>raise_if\<close>, \<open>rforeach\<close> and \<open>rfold\<close> are Python's sequencing,
    \<open>if ...: raise\<close>, and the two kinds of \<open>for\<close> loops (checks only, and state
    passing).
  \<^item> \<open>show_int\<close> is the decimal text of an integer.
  \<^item> Python dictionaries are insertion-ordered association lists: \<open>AList.update\<close>
    overwrites in place or appends, as \<open>d[k] = v\<close> does, and \<open>map_of\<close> is the lookup.
  \<^item> The collection \<open>check_iff\<close> holds the equivalences that turn "this check passed"
    into the statement it checks; the component theories add their own.
\<close>

named_theorems check_iff "characterisations of a check that passed"
named_theorems frame_simps "what an operation on the store leaves unchanged"

subsection \<open>Exceptions and results\<close>

datatype py_error =
    AssertionError string
  | KeyError
  | IndexError
  | ValueError string
  | TypeError
  | AttributeError
  | ZeroDivisionError
  | SchedulingError string
  | ConsistencyError string
  | OtherError string

type_synonym 'a result = "py_error + 'a"

definition rbind :: "'a result \<Rightarrow> ('a \<Rightarrow> 'b result) \<Rightarrow> 'b result" where
  "rbind r f = (case r of Inl e \<Rightarrow> Inl e | Inr x \<Rightarrow> f x)"

lemma rbind_simps [simp]:
  "rbind (Inl e) f = Inl e"
  "rbind (Inr x) f = f x"
  by (simp_all add: rbind_def)

lemma rbind_Inr_iff [check_iff]: "rbind r f = Inr y \<longleftrightarrow> (\<exists>x. r = Inr x \<and> f x = Inr y)"
  by (cases r) (auto simp: rbind_def)

lemma rbind_InrE:
  assumes "rbind r f = Inr y"
  obtains x where "r = Inr x" and "f x = Inr y"
  using assms by (auto simp: rbind_Inr_iff)

lemma rbind_assoc: "rbind (rbind r f) g = rbind r (\<lambda>x. rbind (f x) g)"
  by (cases r) auto

lemma rbind_cong [fundef_cong]:
  "r = r' \<Longrightarrow> (\<And>x. r' = Inr x \<Longrightarrow> f x = g x) \<Longrightarrow> rbind r f = rbind r' g"
  by (cases r') (auto simp: rbind_def)

definition raise_if :: "bool \<Rightarrow> py_error \<Rightarrow> unit result" where
  "raise_if c e = (if c then Inl e else Inr ())"

lemma raise_if_Inr_iff [check_iff]: "raise_if c e = Inr u \<longleftrightarrow> \<not> c"
  by (simp add: raise_if_def)

lemma raise_if_simps [simp]: "raise_if True e = Inl e" "raise_if False e = Inr ()"
  by (simp_all add: raise_if_def)

fun rforeach :: "('a \<Rightarrow> unit result) \<Rightarrow> 'a list \<Rightarrow> unit result" where
  "rforeach f [] = Inr ()"
| "rforeach f (x # xs) = rbind (f x) (\<lambda>_. rforeach f xs)"

lemma rforeach_Inr_iff [check_iff]: "rforeach f xs = Inr u \<longleftrightarrow> (\<forall>x\<in>set xs. f x = Inr ())"
  by (induction xs) (auto simp: rbind_Inr_iff)

fun rfold :: "('s \<Rightarrow> 'a \<Rightarrow> 's result) \<Rightarrow> 's \<Rightarrow> 'a list \<Rightarrow> 's result" where
  "rfold f s [] = Inr s"
| "rfold f s (x # xs) = rbind (f s x) (\<lambda>s'. rfold f s' xs)"

lemma rfold_append: "rfold f s (xs @ ys) = rbind (rfold f s xs) (\<lambda>s'. rfold f s' ys)"
  by (induction xs arbitrary: s) (auto simp: rbind_assoc)

lemma rfold_invariant:
  assumes "rfold f s xs = Inr t" and "P s"
    and "\<And>s x t. x \<in> set xs \<Longrightarrow> P s \<Longrightarrow> f s x = Inr t \<Longrightarrow> P t"
  shows "P t"
  using assms
proof (induction xs arbitrary: s)
  case Nil
  then show ?case by simp
next
  case (Cons x xs)
  from Cons.prems(1) obtain s' where "f s x = Inr s'" and "rfold f s' xs = Inr t"
    by (auto simp: rbind_Inr_iff)
  with Cons show ?case by (metis list.set_intros(1,2))
qed

fun rmap :: "('a \<Rightarrow> 'b result) \<Rightarrow> 'a list \<Rightarrow> 'b list result" where
  "rmap f [] = Inr []"
| "rmap f (x # xs) = rbind (f x) (\<lambda>y. rbind (rmap f xs) (\<lambda>ys. Inr (y # ys)))"

lemma rmap_map: "(\<And>x. x \<in> set xs \<Longrightarrow> f x = Inr (g x)) \<Longrightarrow> rmap f xs = Inr (map g xs)"
  by (induction xs) auto

lemma rmap_length: "rmap f xs = Inr ys \<Longrightarrow> length ys = length xs"
  by (induction xs arbitrary: ys) (auto simp: rbind_Inr_iff)

lemma rfold_fold: "(\<And>s x. x \<in> set xs \<Longrightarrow> f s x = Inr (g x s)) \<Longrightarrow> rfold f s xs = Inr (fold g xs s)"
  by (induction xs arbitrary: s) auto

text \<open>Python's \<open>xs[i]\<close> for a non-negative index, \<open>xs[0]\<close> and \<open>xs[-1]\<close>.\<close>

definition py_nth :: "'a list \<Rightarrow> nat \<Rightarrow> 'a result" where
  "py_nth xs i = (if i < length xs then Inr (xs ! i) else Inl IndexError)"

definition py_first :: "'a list \<Rightarrow> 'a result" where
  "py_first xs = (case xs of [] \<Rightarrow> Inl IndexError | x # _ \<Rightarrow> Inr x)"

definition py_last :: "'a list \<Rightarrow> 'a result" where
  "py_last xs = (if xs = [] then Inl IndexError else Inr (last xs))"

lemma py_first_Inr_iff [check_iff]: "py_first xs = Inr x \<longleftrightarrow> xs \<noteq> [] \<and> x = hd xs"
  by (cases xs) (auto simp: py_first_def)

lemma py_last_Inr_iff [check_iff]: "py_last xs = Inr x \<longleftrightarrow> xs \<noteq> [] \<and> x = last xs"
  by (auto simp: py_last_def)

lemma py_first_simps [simp]: "py_first [] = Inl IndexError" "py_first (x # xs) = Inr x"
  by (simp_all add: py_first_def)

lemma py_last_simps [simp]: "py_last [] = Inl IndexError" "xs \<noteq> [] \<Longrightarrow> py_last xs = Inr (last xs)"
  by (simp_all add: py_last_def)

lemma py_first_hd: "xs \<noteq> [] \<Longrightarrow> py_first xs = Inr (hd xs)"
  by (cases xs) auto

subsection \<open>Dictionaries\<close>

type_synonym ('k, 'v) dict = "('k \<times> 'v) list"

definition dict_get :: "('k, 'v) dict \<Rightarrow> 'k \<Rightarrow> 'v result" where
  "dict_get d k = (case map_of d k of None \<Rightarrow> Inl KeyError | Some v \<Rightarrow> Inr v)"

definition dict_has :: "('k, 'v) dict \<Rightarrow> 'k \<Rightarrow> bool" where
  "dict_has d k = (map_of d k \<noteq> None)"

definition dict_values :: "('k, 'v) dict \<Rightarrow> 'v list" where
  "dict_values d = map snd d"

definition dict_keys :: "('k, 'v) dict \<Rightarrow> 'k list" where
  "dict_keys d = map fst d"

text \<open>A dictionary comprehension: later entries overwrite earlier ones in place.\<close>

definition dict_of :: "('k \<times> 'v) list \<Rightarrow> ('k, 'v) dict" where
  "dict_of kvs = fold (\<lambda>(k, v) d. AList.update k v d) kvs []"

text \<open>\<open>d[k].append(x)\<close>, and a dictionary with an empty list for each key.\<close>

definition append_to :: "('k, 'v list) dict \<Rightarrow> 'k \<Rightarrow> 'v \<Rightarrow> ('k, 'v list) dict result" where
  "append_to d k x = rbind (dict_get d k) (\<lambda>xs. Inr (AList.update k (xs @ [x]) d))"

definition empty_lists :: "'k list \<Rightarrow> ('k, 'v list) dict" where
  "empty_lists ks = dict_of (map (\<lambda>k. (k, [])) ks)"

lemma dict_get_Inr_iff [check_iff]: "dict_get d k = Inr v \<longleftrightarrow> map_of d k = Some v"
  by (simp add: dict_get_def split: option.splits)

lemma dict_has_iff: "dict_has d k \<longleftrightarrow> k \<in> fst ` set d"
  by (metis dict_has_def map_of_eq_None_iff)

lemma distinct_keys_fold_update:
  "distinct (map fst d) \<Longrightarrow> distinct (map fst (fold (\<lambda>(k, v) d. AList.update k v d) kvs d))"
proof (induction kvs arbitrary: d)
  case (Cons kv kvs)
  then show ?case by (cases kv) (simp add: distinct_update)
qed simp

lemma distinct_keys_dict_of [simp]: "distinct (map fst (dict_of kvs))"
  unfolding dict_of_def by (rule distinct_keys_fold_update) simp

lemma map_of_fold_update:
  "map_of (fold (\<lambda>(k, v) d. AList.update k v d) kvs d) = map_of d ++ map_of (rev kvs)"
proof (induction kvs arbitrary: d)
  case (Cons kv kvs)
  obtain k v where "kv = (k, v)" by (cases kv)
  with Cons show ?case
    by (simp add: update_conv' map_add_upd_left fun_eq_iff map_add_def
        split: option.splits)
qed simp

lemma map_of_dict_of: "map_of (dict_of kvs) = map_of (rev kvs)"
  unfolding dict_of_def by (simp add: map_of_fold_update)

lemma map_of_update_eq: "map_of (AList.update k v d) k' = (if k' = k then Some v else map_of d k')"
  by (simp add: update_conv')

lemma append_to_Inr_iff [check_iff]:
  "append_to d k x = Inr d' \<longleftrightarrow> (\<exists>xs. map_of d k = Some xs \<and> d' = AList.update k (xs @ [x]) d)"
  by (auto simp: append_to_def check_iff)

lemma update_twice: "AList.update k v (AList.update k w d) = AList.update k v d"
  by (induction d) auto

lemma update_same: "map_of d k = Some v \<Longrightarrow> AList.update k v d = d"
  by (induction d) auto

lemma fst_set_update: "fst ` set (AList.update k v d) = insert k (fst ` set d)"
  by (induction d) auto

lemma values_in_dict: "map_of d k = Some v \<Longrightarrow> v \<in> set (dict_values d)"
  by (force simp: dict_values_def dest: map_of_SomeD)

lemma dict_values_map_of:
  "distinct (map fst d) \<Longrightarrow> set (dict_values d) = {v. \<exists>k. map_of d k = Some v}"
  by (force simp: dict_values_def)

subsection \<open>bisect\<close>

text \<open>
  \<open>bisect_left\<close>: binary search for the first position in \<open>lo..hi\<close> whose element is not
  \<open>< x\<close>; \<open>below\<close> is the test \<open>a[mid] < x\<close>.
\<close>

function bisect_left :: "('a \<Rightarrow> bool) \<Rightarrow> 'a list \<Rightarrow> nat \<Rightarrow> nat \<Rightarrow> nat" where
  "bisect_left below xs lo hi =
     (if lo < hi then
        let mid = (lo + hi) div 2 in
        if below (xs ! mid) then bisect_left below xs (mid + 1) hi
        else bisect_left below xs lo mid
      else lo)"
  by pat_completeness auto
termination
  by (relation "measure (\<lambda>(below, xs, lo, hi). hi - lo)") auto

declare bisect_left.simps [simp del]

definition insort_left :: "('a \<Rightarrow> bool) \<Rightarrow> 'a \<Rightarrow> 'a list \<Rightarrow> 'a list" where
  "insort_left below x xs =
     (let i = bisect_left below xs 0 (length xs) in take i xs @ x # drop i xs)"

lemma bisect_left_spec:
  assumes "lo \<le> hi" and "hi \<le> length xs"
    and "\<forall>i j. i \<le> j \<longrightarrow> j < length xs \<longrightarrow> below (xs ! j) \<longrightarrow> below (xs ! i)"
    and "\<forall>i<lo. below (xs ! i)" and "\<forall>i. hi \<le> i \<longrightarrow> i < length xs \<longrightarrow> \<not> below (xs ! i)"
  shows "(\<forall>i < bisect_left below xs lo hi. below (xs ! i)) \<and>
         (\<forall>i. bisect_left below xs lo hi \<le> i \<longrightarrow> i < length xs \<longrightarrow> \<not> below (xs ! i)) \<and>
         bisect_left below xs lo hi \<le> length xs"
  using assms
proof (induction below xs lo hi rule: bisect_left.induct)
  case (1 below xs lo hi)
  show ?case
  proof (cases "lo < hi")
    case False
    with "1.prems" show ?thesis by (subst (1 2 3) bisect_left.simps) (auto simp: Let_def)
  next
    case True
    define mid where "mid = (lo + hi) div 2"
    have mid: "lo \<le> mid" "mid < hi" using True by (auto simp: mid_def)
    show ?thesis
    proof (cases "below (xs ! mid)")
      case B: True
      have "\<forall>i<mid + 1. below (xs ! i)"
        using B mid "1.prems" by (metis Suc_eq_plus1 less_Suc_eq_le order_less_le_trans)
      with "1.IH"(1) [OF True mid_def B] B mid "1.prems" True show ?thesis
        by (subst (1 2 3) bisect_left.simps) (simp add: mid_def [symmetric])
    next
      case B: False
      have "\<forall>i. mid \<le> i \<longrightarrow> i < length xs \<longrightarrow> \<not> below (xs ! i)"
        using B "1.prems"(3) by blast
      with "1.IH"(2) [OF True mid_def B] B mid "1.prems" True show ?thesis
        by (subst (1 2 3) bisect_left.simps) (simp add: mid_def [symmetric])
    qed
  qed
qed

lemma mset_insort_left: "set (insort_left below x xs) = insert x (set xs)"
  by (simp add: insort_left_def Let_def) (metis append_take_drop_id set_append)

subsection \<open>Numbers as text\<close>

definition digit :: "nat \<Rightarrow> char" where
  "digit n = char_of (48 + n)"

fun show_nat :: "nat \<Rightarrow> string" where
  "show_nat n = (if n < 10 then [digit n] else show_nat (n div 10) @ [digit (n mod 10)])"

declare show_nat.simps [simp del]

definition show_int :: "int \<Rightarrow> string" where
  "show_int i = (if i < 0 then CHR ''-'' # show_nat (nat (- i)) else show_nat (nat i))"

end
