(* ===== verification/Datetime.thy ===== *)
theory Datetime
  imports Prelude "HOL-Library.Product_Lexorder" Complex_Main
begin

section \<open>Naive datetimes and the autoscheduler's utility functions\<close>

text \<open>
  The site runs with \<open>USE_TZ = False\<close>, so the timestamps of the scheduler are naive
  Python \<open>datetime\<close> values: a civil date and time with microseconds. Comparison is
  lexicographic on the fields, subtraction goes through the proleptic Gregorian ordinal
  (both as in CPython). \<open>dt_less_iff_us\<close> shows that the two agree on valid values.

  The second half models \<open>autoscheduler/util.py\<close>: \<open>hours_difference\<close>,
  \<open>contiguous\<close>, \<open>get_min_id\<close>, \<open>override\<close>, and the JSON dump of a
  datetime; the instrumentation \<open>Timer\<close> is left out. Hours are exact rationals: the rounding of Python floats is
  not modelled. \<open>DELTA_TIME\<close> is the tolerance of \<open>config.py\<close>.
\<close>

subsection \<open>The datetime type\<close>

datatype datetime = Datetime
  (dt_year: int) (dt_month: int) (dt_day: int)
  (dt_hour: int) (dt_minute: int) (dt_second: int) (dt_microsecond: int)

definition dt_tuple :: "datetime \<Rightarrow> int \<times> int \<times> int \<times> int \<times> int \<times> int \<times> int" where
  "dt_tuple d = (dt_year d, dt_month d, dt_day d, dt_hour d, dt_minute d, dt_second d,
                 dt_microsecond d)"

lemma dt_tuple_inject [simp]: "dt_tuple x = dt_tuple y \<longleftrightarrow> x = y"
  by (cases x; cases y) (simp add: dt_tuple_def)

instantiation datetime :: linorder
begin

definition less_eq_datetime :: "datetime \<Rightarrow> datetime \<Rightarrow> bool" where
  "less_eq_datetime x y = (dt_tuple x \<le> dt_tuple y)"

definition less_datetime :: "datetime \<Rightarrow> datetime \<Rightarrow> bool" where
  "less_datetime x y = (dt_tuple x < dt_tuple y)"

instance
proof
  fix x y z :: datetime
  show "x < y \<longleftrightarrow> x \<le> y \<and> \<not> y \<le> x"
    by (simp add: less_eq_datetime_def less_datetime_def less_le_not_le)
  show "x \<le> x" by (simp add: less_eq_datetime_def)
  show "x \<le> y \<Longrightarrow> y \<le> z \<Longrightarrow> x \<le> z"
    unfolding less_eq_datetime_def by (rule order_trans)
  show "x \<le> y \<Longrightarrow> y \<le> x \<Longrightarrow> x = y"
    unfolding less_eq_datetime_def by (metis antisym dt_tuple_inject)
  show "x \<le> y \<or> y \<le> x"
    unfolding less_eq_datetime_def by (rule linear)
qed

end

definition date_of :: "datetime \<Rightarrow> int \<times> int \<times> int" where
  "date_of d = (dt_year d, dt_month d, dt_day d)"

subsection \<open>Ordinals and elapsed time\<close>

definition is_leap :: "int \<Rightarrow> bool" where
  "is_leap y \<longleftrightarrow> y mod 4 = 0 \<and> (y mod 100 \<noteq> 0 \<or> y mod 400 = 0)"

definition days_before_year :: "int \<Rightarrow> int" where
  "days_before_year y = (let p = y - 1 in p * 365 + p div 4 - p div 100 + p div 400)"

definition days_before_month :: "int \<Rightarrow> int \<Rightarrow> int" where
  "days_before_month y m =
     (if m \<le> 1 then 0 else if m = 2 then 31 else
      (if is_leap y then 1 else 0) +
      (if m = 3 then 59 else if m = 4 then 90 else if m = 5 then 120 else if m = 6 then 151
       else if m = 7 then 181 else if m = 8 then 212 else if m = 9 then 243
       else if m = 10 then 273 else if m = 11 then 304 else 334))"

definition days_in_month :: "int \<Rightarrow> int \<Rightarrow> int" where
  "days_in_month y m =
     (if m = 2 then (if is_leap y then 29 else 28)
      else if m = 4 \<or> m = 6 \<or> m = 9 \<or> m = 11 then 30 else 31)"

definition toordinal :: "datetime \<Rightarrow> int" where
  "toordinal d =
     days_before_year (dt_year d) + days_before_month (dt_year d) (dt_month d) + dt_day d"

definition dt_us :: "datetime \<Rightarrow> int" where
  "dt_us d = (((toordinal d * 24 + dt_hour d) * 60 + dt_minute d) * 60 + dt_second d) * 1000000
             + dt_microsecond d"

definition valid_datetime :: "datetime \<Rightarrow> bool" where
  "valid_datetime d \<longleftrightarrow>
     1 \<le> dt_year d \<and> dt_year d \<le> 9999 \<and> 1 \<le> dt_month d \<and> dt_month d \<le> 12 \<and>
     1 \<le> dt_day d \<and> dt_day d \<le> days_in_month (dt_year d) (dt_month d) \<and>
     0 \<le> dt_hour d \<and> dt_hour d < 24 \<and> 0 \<le> dt_minute d \<and> dt_minute d < 60 \<and>
     0 \<le> dt_second d \<and> dt_second d < 60 \<and>
     0 \<le> dt_microsecond d \<and> dt_microsecond d < 1000000"

lemma div_pred_step:
  fixes y n :: int
  assumes "0 < n"
  shows "y div n = (y - 1) div n + (if y mod n = 0 then 1 else 0)"
proof -
  have r: "0 \<le> y mod n" "y mod n < n" "n * (y div n) + y mod n = y"
    using assms by simp_all
  show ?thesis
  proof (cases "y mod n = 0")
    case True
    have "(y - 1) div n = y div n - 1"
      using assms r True by (intro int_div_pos_eq [where r = "n - 1"]) (auto simp: algebra_simps)
    with True show ?thesis by simp
  next
    case False
    have "(y - 1) div n = y div n"
      using assms r False by (intro int_div_pos_eq [where r = "y mod n - 1"]) auto
    with False show ?thesis by simp
  qed
qed

lemma days_before_year_Suc:
  "days_before_year (y + 1) = days_before_year y + 365 + (if is_leap y then 1 else 0)"
proof -
  have lin: "y * 365 + a - b + c = ((y - 1) * 365 + a' - b' + c') + 365 + (u - v + w)"
    if "a = a' + u" "b = b' + v" "c = c' + w" for a b c a' b' c' u v w :: int
    using that by (simp add: algebra_simps)
  have bools: "(if p then 1 else 0) - (if q then 1 else 0) + (if r then 1 else 0)
      = (if p \<and> (\<not> q \<or> r) then 1 else 0 :: int)" if "r \<Longrightarrow> q" "q \<Longrightarrow> p" for p q r
    using that by (cases p; cases q; cases r) simp_all
  have imp: "y mod 400 = 0 \<Longrightarrow> y mod 100 = 0" "y mod 100 = 0 \<Longrightarrow> y mod 4 = 0"
    using dvd_trans [of 100 400 y] dvd_trans [of 4 100 y] by (simp_all add: mod_eq_0_iff_dvd)
  have "days_before_year (y + 1) = days_before_year y + 365
      + ((if y mod 4 = 0 then 1 else 0) - (if y mod 100 = 0 then 1 else 0)
         + (if y mod 400 = 0 then 1 else 0))"
    unfolding days_before_year_def Let_def add_diff_cancel_right'
    by (rule lin; rule div_pred_step; rule zero_less_numeral)
  moreover have "(if y mod 4 = 0 then 1 else 0) - (if y mod 100 = 0 then 1 else 0)
      + (if y mod 400 = 0 then 1 else 0) = (if is_leap y then 1 else 0 :: int)"
    unfolding is_leap_def using imp
    by (rule bools)
  ultimately show ?thesis by (simp only:)
qed

lemma days_before_year_mono: "y \<le> y' \<Longrightarrow> days_before_year y \<le> days_before_year y'"
proof (induction y' rule: int_ge_induct)
  case (step i)
  then show ?case by (simp add: days_before_year_Suc)
qed simp

lemma days_before_month_Suc:
  assumes "1 \<le> m" and "m < 12"
  shows "days_before_month y (m + 1) = days_before_month y m + days_in_month y m"
proof -
  from assms have "m = 1 \<or> m = 2 \<or> m = 3 \<or> m = 4 \<or> m = 5 \<or> m = 6 \<or> m = 7 \<or>
      m = 8 \<or> m = 9 \<or> m = 10 \<or> m = 11" by presburger
  then show ?thesis by (elim disjE) (simp_all add: days_before_month_def days_in_month_def)
qed

lemma days_before_month_mono:
  assumes "1 \<le> m" and "m < m'" and "m' \<le> 12"
  shows "days_before_month y m + days_in_month y m \<le> days_before_month y m'"
proof -
  from assms(2) have "m + 1 \<le> m'" by simp
  then show ?thesis using assms(3)
  proof (induction m' rule: int_ge_induct)
    case base
    with assms(1) show ?case by (simp add: days_before_month_Suc)
  next
    case (step i)
    with assms(1) days_before_month_Suc [of i y] show ?case
      by (auto simp: days_in_month_def)
  qed
qed

lemma days_in_year:
  "1 \<le> m \<Longrightarrow> m \<le> 12 \<Longrightarrow>
   days_before_month y m + days_in_month y m \<le> 365 + (if is_leap y then 1 else 0)"
  by (auto simp: days_before_month_def days_in_month_def)

lemma days_before_month_nonneg: "0 \<le> days_before_month y m"
  by (simp add: days_before_month_def)

lemma toordinal_less_day:
  "date_of x = date_of y \<Longrightarrow> toordinal x = toordinal y"
  by (simp add: date_of_def toordinal_def)

lemma toordinal_less:
  assumes "valid_datetime x" and "valid_datetime y" and "date_of x < date_of y"
  shows "toordinal x < toordinal y"
proof -
  note v = assms(1,2) [unfolded valid_datetime_def]
  from assms(3) consider
      (year) "dt_year x < dt_year y"
    | (month) "dt_year x = dt_year y" "dt_month x < dt_month y"
    | (day) "dt_year x = dt_year y" "dt_month x = dt_month y" "dt_day x < dt_day y"
    by (force simp: date_of_def le_less)
  then show ?thesis
  proof cases
    case year
    then have "days_before_year (dt_year x + 1) \<le> days_before_year (dt_year y)"
      by (intro days_before_year_mono) simp
    with v days_in_year [of "dt_month x" "dt_year x"]
      days_before_month_nonneg [of "dt_year y" "dt_month y"]
    show ?thesis by (simp add: toordinal_def days_before_year_Suc)
  next
    case month
    with v days_before_month_mono [of "dt_month x" "dt_month y" "dt_year x"]
    show ?thesis by (simp add: toordinal_def)
  next
    case day
    then show ?thesis by (simp add: toordinal_def)
  qed
qed

lemma dt_less_date:
  "x < y \<longleftrightarrow> date_of x < date_of y \<or> date_of x = date_of y \<and>
     (dt_hour x, dt_minute x, dt_second x, dt_microsecond x)
     < (dt_hour y, dt_minute y, dt_second y, dt_microsecond y)"
  by (auto simp: less_datetime_def dt_tuple_def date_of_def)

lemma dt_less_us:
  assumes "valid_datetime x" and "valid_datetime y" and "x < y"
  shows "dt_us x < dt_us y"
proof (cases "date_of x < date_of y")
  case True
  with assms toordinal_less have "toordinal x + 1 \<le> toordinal y" by force
  with assms(1,2) show ?thesis by (simp add: dt_us_def valid_datetime_def)
next
  case False
  with assms(3) have "date_of x = date_of y"
    "(dt_hour x, dt_minute x, dt_second x, dt_microsecond x)
     < (dt_hour y, dt_minute y, dt_second y, dt_microsecond y)"
    by (auto simp: dt_less_date)
  with assms(1,2) toordinal_less_day [of x y] show ?thesis
    by (auto simp: dt_us_def valid_datetime_def)
qed

text \<open>On valid values, lexicographic comparison is comparison of elapsed time.\<close>

lemma dt_less_iff_us:
  assumes "valid_datetime x" and "valid_datetime y"
  shows "x < y \<longleftrightarrow> dt_us x < dt_us y"
  using assms dt_less_us [of x y] dt_less_us [of y x]
  by (metis less_irrefl linorder_cases order_less_asym)

lemma dt_le_iff_us:
  assumes "valid_datetime x" and "valid_datetime y"
  shows "x \<le> y \<longleftrightarrow> dt_us x \<le> dt_us y"
  using dt_less_iff_us [OF assms(2,1)] by (metis not_less)

subsection \<open>Hours, tolerance, contiguity\<close>

definition DELTA_TIME :: rat where
  "DELTA_TIME = 34 / 100"

definition hours_difference :: "datetime \<Rightarrow> datetime \<Rightarrow> rat" where
  "hours_difference datetime1 datetime2 = of_int (dt_us datetime2 - dt_us datetime1) / 3600000000"

lemma hours_difference_add:
  "hours_difference a b + hours_difference b c = hours_difference a c"
  by (simp add: hours_difference_def flip: add_divide_distrib of_int_add)

lemma hours_difference_mono:
  "valid_datetime b \<Longrightarrow> valid_datetime c \<Longrightarrow> b \<le> c \<Longrightarrow>
   hours_difference a b \<le> hours_difference a c"
  by (simp add: hours_difference_def dt_le_iff_us divide_right_mono)

text \<open>Arguments: end of the first slot, start of the second. The tolerance is 20 minutes.\<close>

definition contiguous_times :: "datetime \<Rightarrow> datetime \<Rightarrow> bool" where
  "contiguous_times end1 start2 =
     (if start2 < end1 then False else dt_us start2 - dt_us end1 < 20 * 60 * 1000000)"

subsection \<open>Other helpers of util.py\<close>

definition get_min_id :: "int list \<Rightarrow> int result" where
  "get_min_id ids = (if ids = [] then Inl (ValueError ''min() arg is an empty sequence'')
                     else Inr (Min (set ids)))"

definition override :: "('k, 'v) dict list \<Rightarrow> ('k, 'v) dict" where
  "override dicts = fold (\<lambda>d output. fold (\<lambda>(k, v) out. AList.update k v out) d output) dicts []"

lemma override_snoc_lookup:
  "map_of (override (ds @ [d])) = map_of (override ds) ++ map_of (rev d)"
  by (simp add: override_def map_of_fold_update)

definition datetimedump :: "datetime \<Rightarrow> int list" where
  "datetimedump dt =
     [dt_year dt, dt_month dt, dt_day dt, dt_hour dt, dt_minute dt, dt_second dt]"

text \<open>\<open>datetime(*dt_tuple)\<close>: the constructor checks the ranges of its arguments.\<close>

definition datetimeloads :: "int list \<Rightarrow> datetime result" where
  "datetimeloads tup =
     (case tup of
        [y, mo, d] \<Rightarrow> (let r = Datetime y mo d 0 0 0 0 in
          if valid_datetime r then Inr r else Inl (ValueError ''out of range''))
      | [y, mo, d, h] \<Rightarrow> (let r = Datetime y mo d h 0 0 0 in
          if valid_datetime r then Inr r else Inl (ValueError ''out of range''))
      | [y, mo, d, h, mi] \<Rightarrow> (let r = Datetime y mo d h mi 0 0 in
          if valid_datetime r then Inr r else Inl (ValueError ''out of range''))
      | [y, mo, d, h, mi, s] \<Rightarrow> (let r = Datetime y mo d h mi s 0 in
          if valid_datetime r then Inr r else Inl (ValueError ''out of range''))
      | [y, mo, d, h, mi, s, us] \<Rightarrow> (let r = Datetime y mo d h mi s us in
          if valid_datetime r then Inr r else Inl (ValueError ''out of range''))
      | _ \<Rightarrow> Inl TypeError)"

text \<open>A dumped datetime loads back exactly when it carries no microseconds.\<close>

lemma datetimeloads_dump:
  assumes "valid_datetime d"
  shows "datetimeloads (datetimedump d) = Inr d \<longleftrightarrow> dt_microsecond d = 0"
proof (cases d)
  case (Datetime y mo da h mi s us)
  with assms show ?thesis
    by (auto simp: datetimedump_def datetimeloads_def Let_def valid_datetime_def)
qed

lemma datetimedump_inject:
  "dt_microsecond x = dt_microsecond y \<Longrightarrow> datetimedump x = datetimedump y \<Longrightarrow> x = y"
  by (cases x; cases y) (simp add: datetimedump_def)

end
