(* ===== verification/Data_Model.thy ===== *)
theory Data_Model
  imports Datetime "HOL-Library.List_Lexorder" "HOL-Library.Char_ord"
begin

section \<open>The in-memory schedule (autoscheduler/data\_model.py)\<close>

text \<open>
  The classes of \<open>data_model.py\<close> refer to each other in cycles (a roomslot knows its
  section, the section its roomslots, a timeslot the roomslots during it, a teacher the
  sections taught), and the scheduler mutates them through these references. The model
  therefore keeps an explicit store, \<open>heap\<close>, with one record per object; a reference is
  an address. Python's \<open>is\<close>, and \<open>==\<close> on classes without \<open>__eq__\<close>, is equality of
  addresses; \<open>AS_Timeslot\<close> defines \<open>__eq__\<close> and \<open>__lt__\<close> on its start and end, which
  are \<open>ts_key\<close> here.
\<close>

type_synonym tsref = nat
type_synonym rsref = nat
type_synonym secref = nat
type_synonym tref = nat
type_synonym roomref = nat
type_synonym times = "datetime \<times> datetime"

record as_restype =
  rt_id :: int
  rt_name :: string
  rt_value :: string

record as_timeslot =
  ts_id :: int
  ts_start :: datetime
  ts_end :: datetime
  ts_duration :: rat
  ts_roomslots :: "rsref set"

record as_roomslot =
  rs_timeslot :: tsref
  rs_room :: roomref
  rs_section :: "secref option"
  rs_next_is_cached :: bool
  rs_next :: "rsref option"
  rs_index :: "nat option"

record as_section =
  sec_id :: int
  sec_parent :: int
  sec_duration :: rat
  sec_teachers :: "tref list"
  sec_capacity :: int
  sec_grade_min :: int
  sec_grade_max :: int
  sec_category :: int
  sec_roomslots :: "rsref list"
  sec_requests :: "(string, as_restype) dict"
  sec_initial_state :: "(string \<times> string) list \<times> string list"

record as_teacher =
  t_id :: int
  t_availability :: "tsref list"
  t_taught :: "(int, secref) dict"
  t_is_admin :: bool
  t_avail_dict :: "(times, tsref) dict"

record as_classroom =
  room_name :: string
  room_capacity :: int
  room_availability :: "rsref list"
  room_furnishings :: "(string, as_restype) dict"
  room_avail_dict :: "(times, rsref) dict"

record heap =
  hp_ts :: "tsref \<Rightarrow> as_timeslot"
  hp_rs :: "rsref \<Rightarrow> as_roomslot"
  hp_sec :: "secref \<Rightarrow> as_section"
  hp_teacher :: "tref \<Rightarrow> as_teacher"
  hp_room :: "roomref \<Rightarrow> as_classroom"
  hp_fresh :: nat

text \<open>The schedule object. Its \<open>constraints\<close> are of a type fixed in theory Schedule.\<close>

record 'c as_schedule =
  sch_timeslots :: "tsref list"
  sch_timeslot_dict :: "(times, tsref) dict"
  sch_sections :: "(int, secref) dict"
  sch_teachers :: "(int, tref) dict"
  sch_classrooms :: "(string, roomref) dict"
  sch_lunch :: "(int \<times> int \<times> int, tsref list) dict"
  sch_constraints :: 'c
  sch_exclude_locked :: bool

subsection \<open>Timeslots\<close>

definition ts_key :: "heap \<Rightarrow> tsref \<Rightarrow> times" where
  "ts_key h t = (ts_start (hp_ts h t), ts_end (hp_ts h t))"

definition ts_eq :: "heap \<Rightarrow> tsref \<Rightarrow> tsref \<Rightarrow> bool" where
  "ts_eq h a b \<longleftrightarrow> ts_start (hp_ts h a) = ts_start (hp_ts h b) \<and> ts_end (hp_ts h a) = ts_end (hp_ts h b)"

definition ts_lt :: "heap \<Rightarrow> tsref \<Rightarrow> tsref \<Rightarrow> bool" where
  "ts_lt h a b \<longleftrightarrow> ts_key h a < ts_key h b"

definition overlaps :: "heap \<Rightarrow> tsref \<Rightarrow> tsref \<Rightarrow> bool" where
  "overlaps h timeslot1 timeslot2 \<longleftrightarrow>
     ts_start (hp_ts h timeslot1) < ts_end (hp_ts h timeslot2) \<and>
     ts_start (hp_ts h timeslot2) < ts_end (hp_ts h timeslot1)"

definition contiguous :: "heap \<Rightarrow> tsref \<Rightarrow> tsref \<Rightarrow> bool" where
  "contiguous h timeslot1 timeslot2 =
     contiguous_times (ts_end (hp_ts h timeslot1)) (ts_start (hp_ts h timeslot2))"

definition AS_Timeslot_init ::
  "heap \<Rightarrow> datetime \<Rightarrow> datetime \<Rightarrow> int \<Rightarrow> (tsref \<times> heap) result" where
  "AS_Timeslot_init h start end event_id =
     (let t = hp_fresh h; d = hours_difference start end in
      if d < DELTA_TIME then Inl (SchedulingError ''Timeslot duration is too short'')
      else Inr (t, h\<lparr>hp_ts := (hp_ts h)(t := \<lparr>ts_id = event_id, ts_start = start, ts_end = end,
                                          ts_duration = d, ts_roomslots = {}\<rparr>),
                     hp_fresh := Suc t\<rparr>))"

subsection \<open>Roomslots\<close>

definition rs_key :: "heap \<Rightarrow> rsref \<Rightarrow> times" where
  "rs_key h r = ts_key h (rs_timeslot (hp_rs h r))"

definition AS_RoomSlot_init :: "heap \<Rightarrow> tsref \<Rightarrow> roomref \<Rightarrow> rsref \<times> heap" where
  "AS_RoomSlot_init h timeslot room =
     (let r = hp_fresh h in
      (r, h\<lparr>hp_rs := (hp_rs h)(r := \<lparr>rs_timeslot = timeslot, rs_room = room, rs_section = None,
                                     rs_next_is_cached = False, rs_next = None, rs_index = None\<rparr>),
            hp_ts := (hp_ts h)(timeslot := (hp_ts h timeslot)
                       \<lparr>ts_roomslots := insert r (ts_roomslots (hp_ts h timeslot))\<rparr>),
            hp_fresh := Suc r\<rparr>))"

text \<open>\<open>list.index\<close>: the first position, or a \<open>ValueError\<close>.\<close>

fun list_index :: "'a \<Rightarrow> 'a list \<Rightarrow> nat option" where
  "list_index x [] = None"
| "list_index x (y # ys) = (if x = y then Some 0 else map_option Suc (list_index x ys))"

text \<open>
  \<open>index\<close> and \<open>next\<close> cache their answers in the roomslot. \<open>roomslot_index\<close> is the
  value \<open>index()\<close> returns (the cached one if there is one), \<open>index_load\<close> the call with
  its effect on the cache; likewise \<open>roomslot_next\<close> and \<open>next_load\<close>. The callers below
  use the values: loading a cache changes nothing else (lemma \<open>index_load_frame\<close>) and
  never changes what a later call returns (\<open>index_load_index\<close>).
\<close>

definition roomslot_index :: "heap \<Rightarrow> rsref \<Rightarrow> nat result" where
  "roomslot_index h r =
     (case rs_index (hp_rs h r) of
        Some i \<Rightarrow> Inr i
      | None \<Rightarrow> (case list_index r (room_availability (hp_room h (rs_room (hp_rs h r)))) of
                   Some i \<Rightarrow> Inr i
                 | None \<Rightarrow> Inl (ValueError ''x is not in list'')))"

definition index_load :: "heap \<Rightarrow> rsref \<Rightarrow> (nat \<times> heap) result" where
  "index_load h r = rbind (roomslot_index h r) (\<lambda>i.
     Inr (i, h\<lparr>hp_rs := (hp_rs h)(r := (hp_rs h r)\<lparr>rs_index := Some i\<rparr>)\<rparr>))"

definition roomslot_next :: "heap \<Rightarrow> rsref \<Rightarrow> rsref option result" where
  "roomslot_next h r =
     (if rs_next_is_cached (hp_rs h r) then Inr (rs_next (hp_rs h r))
      else rbind (roomslot_index h r) (\<lambda>idx.
        let av = room_availability (hp_room h (rs_room (hp_rs h r))) in
        if int idx = int (length av) - 1 then Inr None
        else rbind (py_nth av (idx + 1)) (\<lambda>n. Inr (Some n))))"

definition next_load :: "heap \<Rightarrow> rsref \<Rightarrow> (rsref option \<times> heap) result" where
  "next_load h r =
     (if rs_next_is_cached (hp_rs h r) then Inr (rs_next (hp_rs h r), h)
      else rbind (index_load h r) (\<lambda>(idx, h1).
        let av = room_availability (hp_room h1 (rs_room (hp_rs h1 r))) in
        rbind (if int idx = int (length av) - 1 then Inr None
               else rbind (py_nth av (idx + 1)) (\<lambda>n. Inr (Some n))) (\<lambda>nx.
        Inr (nx, h1\<lparr>hp_rs := (hp_rs h1)(r := (hp_rs h1 r)\<lparr>rs_next := nx, rs_next_is_cached := True\<rparr>)\<rparr>))))"

definition flush_cache :: "heap \<Rightarrow> rsref \<Rightarrow> heap" where
  "flush_cache h r =
     h\<lparr>hp_rs := (hp_rs h)(r := (hp_rs h r)\<lparr>rs_index := None, rs_next_is_cached := False\<rparr>)\<rparr>"

subsection \<open>Classrooms\<close>

fun create_roomslots :: "heap \<Rightarrow> roomref \<Rightarrow> tsref list \<Rightarrow> rsref list \<times> heap" where
  "create_roomslots h room [] = ([], h)"
| "create_roomslots h room (t # ts) =
     (let (r, h1) = AS_RoomSlot_init h t room; (rs, h2) = create_roomslots h1 room ts
      in (r # rs, h2))"

definition AS_Classroom_init ::
  "heap \<Rightarrow> string \<Rightarrow> int \<Rightarrow> tsref list \<Rightarrow> (string, as_restype) dict \<Rightarrow> (roomref \<times> heap) result" where
  "AS_Classroom_init h name capacity available_timeslots furnishings =
     (let room = hp_fresh h;
          h0 = h\<lparr>hp_room := (hp_room h)(room := \<lparr>room_name = name, room_capacity = capacity,
                   room_availability = [], room_furnishings = [], room_avail_dict = []\<rparr>),
                 hp_fresh := Suc room\<rparr>;
          (av, h1) = create_roomslots h0 room (sort_key (ts_key h) available_timeslots);
          d = dict_of (map (\<lambda>r. (rs_key h1 r, r)) av);
          h2 = h1\<lparr>hp_room := (hp_room h1)(room := (hp_room h1 room)
                 \<lparr>room_availability := av, room_furnishings := furnishings, room_avail_dict := d\<rparr>)\<rparr>
      in if length d \<noteq> length av then Inl (SchedulingError ''Room {name} has duplicate resources'')
         else Inr (room, h2))"

text \<open>
  The loop of \<open>get_roomslots_by_duration\<close>: take further roomslots of the room, in order,
  until what they span is within \<open>DELTA_TIME\<close> of the duration or there are none left.
  The method is memoised on its arguments; the availability it reads is fixed once the
  schedule is built, so the model computes it afresh.
\<close>

function grs_loop ::
  "heap \<Rightarrow> rsref list \<Rightarrow> rat \<Rightarrow> datetime \<Rightarrow> nat \<Rightarrow> datetime \<Rightarrow> rsref list \<Rightarrow> rsref list" where
  "grs_loop h av duration start_time idx end_time acc =
     (if duration - hours_difference start_time end_time > DELTA_TIME then
        (if idx + 1 \<ge> length av then acc
         else let cur = av ! (idx + 1) in
              grs_loop h av duration start_time (idx + 1)
                (ts_end (hp_ts h (rs_timeslot (hp_rs h cur)))) (acc @ [cur]))
      else acc)"
  by pat_completeness auto
termination
  by (relation "measure (\<lambda>(h, av, d, st, idx, en, acc). length av - idx)") auto

declare grs_loop.simps [simp del]

definition get_roomslots_by_duration :: "heap \<Rightarrow> rsref \<Rightarrow> rat \<Rightarrow> rsref list" where
  "get_roomslots_by_duration h start_roomslot duration =
     (let r = hp_rs h start_roomslot; av = room_availability (hp_room h (rs_room r)) in
      if start_roomslot \<notin> set av then []
      else case roomslot_index h start_roomslot of
             Inl e \<Rightarrow> []
           | Inr i \<Rightarrow> grs_loop h av duration (ts_start (hp_ts h (rs_timeslot r))) i
                       (ts_end (hp_ts h (rs_timeslot r))) [start_roomslot])"

definition load_roomslot_caches :: "heap \<Rightarrow> roomref \<Rightarrow> heap result" where
  "load_roomslot_caches h room =
     rfold (\<lambda>h r. rbind (index_load h r) (\<lambda>(_, h1). rbind (next_load h1 r) (\<lambda>(_, h2). Inr h2)))
       h (room_availability (hp_room h room))"

definition flush_roomslot_caches :: "heap \<Rightarrow> roomref \<Rightarrow> heap" where
  "flush_roomslot_caches h room =
     fold (\<lambda>r h. flush_cache h r) (room_availability (hp_room h room)) h"

subsection \<open>Teachers\<close>

definition AS_Teacher_init :: "heap \<Rightarrow> tsref list \<Rightarrow> int \<Rightarrow> bool \<Rightarrow> tref \<times> heap" where
  "AS_Teacher_init h availability teacher_id is_admin =
     (let t = hp_fresh h in
      (t, h\<lparr>hp_teacher := (hp_teacher h)(t := \<lparr>t_id = teacher_id, t_availability = availability,
              t_taught = [], t_is_admin = is_admin,
              t_avail_dict = dict_of (map (\<lambda>s. (ts_key h s, s)) availability)\<rparr>),
            hp_fresh := Suc t\<rparr>))"

definition add_availability :: "heap \<Rightarrow> tref \<Rightarrow> tsref \<Rightarrow> heap" where
  "add_availability h teacher timeslot =
     (let t = hp_teacher h teacher in
      if \<not> dict_has (t_avail_dict t) (ts_key h timeslot) then
        h\<lparr>hp_teacher := (hp_teacher h)(teacher := t
            \<lparr>t_availability := insort_left (\<lambda>a. ts_lt h a timeslot) timeslot (t_availability t),
             t_avail_dict := AList.update (ts_key h timeslot) timeslot (t_avail_dict t)\<rparr>)\<rparr>
      else h)"

subsection \<open>Class sections\<close>

definition set_assigned_section :: "heap \<Rightarrow> rsref \<Rightarrow> secref option \<Rightarrow> heap" where
  "set_assigned_section h r x = h\<lparr>hp_rs := (hp_rs h)(r := (hp_rs h r)\<lparr>rs_section := x\<rparr>)\<rparr>"

definition set_roomslots :: "heap \<Rightarrow> secref \<Rightarrow> rsref list \<Rightarrow> heap" where
  "set_roomslots h s rs = h\<lparr>hp_sec := (hp_sec h)(s := (hp_sec h s)\<lparr>sec_roomslots := rs\<rparr>)\<rparr>"

definition is_scheduled :: "heap \<Rightarrow> secref \<Rightarrow> bool" where
  "is_scheduled h s \<longleftrightarrow> length (sec_roomslots (hp_sec h s)) > 0"

definition clear_roomslots :: "heap \<Rightarrow> secref \<Rightarrow> heap" where
  "clear_roomslots h s =
     set_roomslots (fold (\<lambda>r h. set_assigned_section h r None) (sec_roomslots (hp_sec h s)) h) s []"

fun occupy :: "heap \<Rightarrow> secref \<Rightarrow> rsref list \<Rightarrow> heap result" where
  "occupy h s [] = Inr h"
| "occupy h s (r # rs) =
     (if rs_section (hp_rs h r) \<noteq> None then Inl (AssertionError ''Roomslot is occupied'')
      else occupy (set_assigned_section h r (Some s)) s rs)"

definition assign_roomslots :: "heap \<Rightarrow> secref \<Rightarrow> rsref list \<Rightarrow> bool \<Rightarrow> heap result" where
  "assign_roomslots h s roomslots clear_existing =
     (if \<not> clear_existing \<and> sec_roomslots (hp_sec h s) \<noteq> []
      then Inl (AssertionError ''Already assigned to roomslots'')
      else let h0 = (if clear_existing then clear_roomslots h s else h);
               rs = sort_key (rs_key h0) roomslots
           in occupy (set_roomslots h0 s rs) s rs)"

definition register_teachers :: "heap \<Rightarrow> secref \<Rightarrow> heap" where
  "register_teachers h s =
     fold (\<lambda>t h. h\<lparr>hp_teacher := (hp_teacher h)(t := (hp_teacher h t)
             \<lparr>t_taught := AList.update (sec_id (hp_sec h s)) s (t_taught (hp_teacher h t))\<rparr>)\<rparr>)
       (sec_teachers (hp_sec h s)) h"

text \<open>
  \<open>str\<close> of a datetime, and the scheduling hash. The code serialises the pair with
  \<open>json.dumps\<close> and only ever compares the results for equality; the model keeps the pair.
\<close>

fun nat_digits :: "nat \<Rightarrow> nat \<Rightarrow> string" where
  "nat_digits 0 n = []"
| "nat_digits (Suc k) n = nat_digits k (n div 10) @ [char_of (48 + n mod 10)]"

definition pad :: "nat \<Rightarrow> int \<Rightarrow> string" where
  "pad w n = nat_digits w (nat n)"

definition dt_str :: "datetime \<Rightarrow> string" where
  "dt_str d = pad 4 (dt_year d) @ ''-'' @ pad 2 (dt_month d) @ ''-'' @ pad 2 (dt_day d) @ '' '' @
     pad 2 (dt_hour d) @ '':'' @ pad 2 (dt_minute d) @ '':'' @ pad 2 (dt_second d) @
     (if dt_microsecond d = 0 then [] else ''.'' @ pad 6 (dt_microsecond d))"

definition scheduling_hash :: "heap \<Rightarrow> secref \<Rightarrow> (string \<times> string) list \<times> string list" where
  "scheduling_hash h s =
     (let rs = sec_roomslots (hp_sec h s);
          meeting_times = sort (map (\<lambda>r. (dt_str (fst (rs_key h r)), dt_str (snd (rs_key h r)))) rs);
          rooms = sort (remdups (map (\<lambda>r. room_name (hp_room h (rs_room (hp_rs h r)))) rs))
      in (meeting_times, rooms))"

definition recompute_hash :: "heap \<Rightarrow> secref \<Rightarrow> heap" where
  "recompute_hash h s =
     h\<lparr>hp_sec := (hp_sec h)(s := (hp_sec h s)\<lparr>sec_initial_state := scheduling_hash h s\<rparr>)\<rparr>"

definition AS_ClassSection_init ::
  "heap \<Rightarrow> tref list \<Rightarrow> rat \<Rightarrow> int \<Rightarrow> int \<Rightarrow> rsref list \<Rightarrow> int \<Rightarrow> int \<Rightarrow> int \<Rightarrow> int \<Rightarrow>
   (string, as_restype) dict \<Rightarrow> secref \<times> heap" where
  "AS_ClassSection_init h teachers duration capacity category assigned section_id parent
      grade_min grade_max requests =
     (let s = hp_fresh h;
          h0 = h\<lparr>hp_sec := (hp_sec h)(s := \<lparr>sec_id = section_id, sec_parent = parent,
                   sec_duration = duration, sec_teachers = teachers, sec_capacity = capacity,
                   sec_grade_min = grade_min, sec_grade_max = grade_max, sec_category = category,
                   sec_roomslots = assigned, sec_requests = requests, sec_initial_state = ([], [])\<rparr>),
                 hp_fresh := Suc s\<rparr>;
          h1 = fold (\<lambda>r h. fold (\<lambda>t h. add_availability h t (rs_timeslot (hp_rs h r))) teachers
                             (set_assigned_section h r (Some s))) assigned h0
      in (s, register_teachers (recompute_hash h1 s) s))"

end
