(* ===== verification/Placement.thy ===== *)
theory Placement
  imports Data_Model
begin

section \<open>Placements: what assigning and clearing roomslots does to the store\<close>

text \<open>
  Every manipulation of a schedule goes through \<open>assign_roomslots\<close> and
  \<open>clear_roomslots\<close>, which write two fields only: the roomslots of a section and the
  section of a roomslot. \<open>same_static\<close> says that two stores agree on everything else;
  under it all the reading routines of the data model agree. \<open>mark\<close> is the closed form of
  the loops over roomslots. The last part is about the caches of \<open>index\<close> and \<open>next\<close>,
  about \<open>get_roomslots_by_duration\<close> and about \<open>add_availability\<close>.
\<close>

subsection \<open>Stores that differ in placements only\<close>

definition same_static :: "heap \<Rightarrow> heap \<Rightarrow> bool" where
  "same_static h h' \<longleftrightarrow>
     hp_ts h' = hp_ts h \<and> hp_teacher h' = hp_teacher h \<and> hp_room h' = hp_room h \<and>
     hp_fresh h' = hp_fresh h \<and>
     (\<forall>r. rs_timeslot (hp_rs h' r) = rs_timeslot (hp_rs h r) \<and>
          rs_room (hp_rs h' r) = rs_room (hp_rs h r) \<and>
          rs_index (hp_rs h' r) = rs_index (hp_rs h r) \<and>
          rs_next (hp_rs h' r) = rs_next (hp_rs h r) \<and>
          rs_next_is_cached (hp_rs h' r) = rs_next_is_cached (hp_rs h r)) \<and>
     (\<forall>s. sec_id (hp_sec h' s) = sec_id (hp_sec h s) \<and>
          sec_parent (hp_sec h' s) = sec_parent (hp_sec h s) \<and>
          sec_duration (hp_sec h' s) = sec_duration (hp_sec h s) \<and>
          sec_teachers (hp_sec h' s) = sec_teachers (hp_sec h s) \<and>
          sec_capacity (hp_sec h' s) = sec_capacity (hp_sec h s) \<and>
          sec_grade_min (hp_sec h' s) = sec_grade_min (hp_sec h s) \<and>
          sec_grade_max (hp_sec h' s) = sec_grade_max (hp_sec h s) \<and>
          sec_category (hp_sec h' s) = sec_category (hp_sec h s) \<and>
          sec_requests (hp_sec h' s) = sec_requests (hp_sec h s) \<and>
          sec_initial_state (hp_sec h' s) = sec_initial_state (hp_sec h s))"

lemma same_static_refl [simp, intro]: "same_static h h"
  by (simp add: same_static_def)

lemma same_static_sym: "same_static h h' \<Longrightarrow> same_static h' h"
  by (simp add: same_static_def)

lemma same_static_trans [trans]: "same_static h h' \<Longrightarrow> same_static h' h'' \<Longrightarrow> same_static h h''"
  by (simp add: same_static_def)

lemma same_staticD:
  assumes "same_static h h'"
  shows "hp_ts h' = hp_ts h" "hp_teacher h' = hp_teacher h" "hp_room h' = hp_room h"
    "rs_timeslot (hp_rs h' r) = rs_timeslot (hp_rs h r)"
    "rs_room (hp_rs h' r) = rs_room (hp_rs h r)"
    "rs_index (hp_rs h' r) = rs_index (hp_rs h r)"
    "rs_next (hp_rs h' r) = rs_next (hp_rs h r)"
    "rs_next_is_cached (hp_rs h' r) = rs_next_is_cached (hp_rs h r)"
    "sec_id (hp_sec h' s) = sec_id (hp_sec h s)"
    "sec_parent (hp_sec h' s) = sec_parent (hp_sec h s)"
    "sec_duration (hp_sec h' s) = sec_duration (hp_sec h s)"
    "sec_teachers (hp_sec h' s) = sec_teachers (hp_sec h s)"
    "sec_capacity (hp_sec h' s) = sec_capacity (hp_sec h s)"
    "sec_category (hp_sec h' s) = sec_category (hp_sec h s)"
    "sec_requests (hp_sec h' s) = sec_requests (hp_sec h s)"
  using assms by (simp_all add: same_static_def)

lemma same_static_ts:
  assumes "same_static h h'"
  shows "ts_key h' = ts_key h" "ts_eq h' = ts_eq h" "ts_lt h' = ts_lt h" "contiguous h' = contiguous h"
    "rs_key h' = rs_key h"
  using same_staticD [OF assms]
  by (simp_all add: ts_key_def ts_eq_def ts_lt_def contiguous_def rs_key_def fun_eq_iff)

lemma same_static_index:
  assumes "same_static h h'"
  shows "roomslot_index h' = roomslot_index h" "roomslot_next h' = roomslot_next h"
proof -
  show eq: "roomslot_index h' = roomslot_index h"
    using same_staticD [OF assms] by (simp add: roomslot_index_def fun_eq_iff split: option.split)
  show "roomslot_next h' = roomslot_next h"
    using same_staticD [OF assms] by (simp add: roomslot_next_def fun_eq_iff eq)
qed

lemma same_static_grs_loop:
  "same_static h h' \<Longrightarrow> grs_loop h' av d st idx en acc = grs_loop h av d st idx en acc"
proof (induction h av d st idx en acc rule: grs_loop.induct)
  case (1 h av d st idx en acc)
  note eq = same_staticD [OF "1.prems"]
  show ?case
    by (subst (1 2) grs_loop.simps) (use 1 in \<open>auto simp: Let_def eq\<close>)
qed

lemma same_static_grs:
  assumes "same_static h h'"
  shows "get_roomslots_by_duration h' = get_roomslots_by_duration h"
  using same_staticD [OF assms]
  by (auto simp: get_roomslots_by_duration_def fun_eq_iff Let_def same_static_index [OF assms]
      same_static_grs_loop [OF assms] split: sum.splits)

subsection \<open>Marking roomslots\<close>

definition mark :: "heap \<Rightarrow> rsref list \<Rightarrow> secref option \<Rightarrow> heap" where
  "mark h rs x = h\<lparr>hp_rs := (\<lambda>r. if r \<in> set rs then (hp_rs h r)\<lparr>rs_section := x\<rparr> else hp_rs h r)\<rparr>"

lemma mark_Nil [simp]: "mark h [] x = h"
  by (simp add: mark_def)

lemma mark_sel [simp]:
  "hp_ts (mark h rs x) = hp_ts h" "hp_teacher (mark h rs x) = hp_teacher h"
  "hp_room (mark h rs x) = hp_room h" "hp_sec (mark h rs x) = hp_sec h"
  "hp_fresh (mark h rs x) = hp_fresh h"
  "rs_section (hp_rs (mark h rs x) r) = (if r \<in> set rs then x else rs_section (hp_rs h r))"
  by (simp_all add: mark_def)

lemma same_static_mark [simp, intro]: "same_static h (mark h rs x)"
  by (simp add: same_static_def mark_def)

lemma mark_Cons: "mark (set_assigned_section h r x) rs x = mark h (r # rs) x"
  by (auto simp: mark_def set_assigned_section_def fun_eq_iff intro!: heap.equality)

lemma fold_set_assigned: "fold (\<lambda>r h. set_assigned_section h r x) rs h = mark h rs x"
proof (induction rs arbitrary: h)
  case (Cons r rs)
  then show ?case by (simp add: mark_Cons)
qed simp

lemma set_roomslots_sel [simp]:
  "hp_ts (set_roomslots h s rs) = hp_ts h" "hp_teacher (set_roomslots h s rs) = hp_teacher h"
  "hp_room (set_roomslots h s rs) = hp_room h" "hp_rs (set_roomslots h s rs) = hp_rs h"
  "sec_roomslots (hp_sec (set_roomslots h s rs) s') =
     (if s' = s then rs else sec_roomslots (hp_sec h s'))"
  by (simp_all add: set_roomslots_def)

lemma same_static_set_roomslots [simp, intro]: "same_static h (set_roomslots h s rs)"
  by (simp add: same_static_def set_roomslots_def)

lemma clear_roomslots_eq:
  "clear_roomslots h s = set_roomslots (mark h (sec_roomslots (hp_sec h s)) None) s []"
  by (simp add: clear_roomslots_def fold_set_assigned)

lemma occupy_iff:
  "occupy h s rs = Inr h' \<longleftrightarrow>
     distinct rs \<and> (\<forall>r\<in>set rs. rs_section (hp_rs h r) = None) \<and> h' = mark h rs (Some s)"
proof (induction rs arbitrary: h)
  case Nil
  show ?case by auto
next
  case (Cons r rs)
  have sel: "rs_section (hp_rs (set_assigned_section h r (Some s)) r') =
      (if r' = r then Some s else rs_section (hp_rs h r'))" for r'
    by (simp add: set_assigned_section_def)
  show ?case
    by (auto simp: Cons.IH mark_Cons sel)
qed

lemma occupy_no_other_error:
  "occupy h s rs = Inl e \<Longrightarrow> e = AssertionError ''Roomslot is occupied''"
  by (induction rs arbitrary: h) (auto split: if_splits)

subsection \<open>Assigning and clearing\<close>

lemma assign_roomslots_iff:
  "assign_roomslots h s rs False = Inr h' \<longleftrightarrow>
     sec_roomslots (hp_sec h s) = [] \<and> distinct rs \<and>
     (\<forall>r\<in>set rs. rs_section (hp_rs h r) = None) \<and>
     h' = mark (set_roomslots h s (sort_key (rs_key h) rs)) (sort_key (rs_key h) rs) (Some s)"
  by (auto simp: assign_roomslots_def occupy_iff Let_def)

lemma assign_roomslots_clear_iff:
  "assign_roomslots h s rs True = assign_roomslots (clear_roomslots h s) s rs False"
  by (simp add: assign_roomslots_def Let_def clear_roomslots_eq)

lemma same_static_clear [simp, intro]: "same_static h (clear_roomslots h s)"
  unfolding clear_roomslots_eq
  by (rule same_static_trans [OF same_static_mark same_static_set_roomslots])

lemma same_static_assign:
  assumes "assign_roomslots h s rs b = Inr h'"
  shows "same_static h h'"
proof -
  have *: "assign_roomslots h s rs False = Inr h' \<Longrightarrow> same_static h h'" for h
    unfolding assign_roomslots_iff
    by (auto intro: same_static_trans [OF same_static_set_roomslots same_static_mark])
  show ?thesis
  proof (cases b)
    case True
    with assms * [of "clear_roomslots h s"] show ?thesis
      using same_static_trans [OF same_static_clear] by (simp add: assign_roomslots_clear_iff)
  qed (use assms * in simp)
qed

lemma clear_roomslots_sel [simp]:
  "sec_roomslots (hp_sec (clear_roomslots h s) s') =
     (if s' = s then [] else sec_roomslots (hp_sec h s'))"
  "rs_section (hp_rs (clear_roomslots h s) r) =
     (if r \<in> set (sec_roomslots (hp_sec h s)) then None else rs_section (hp_rs h r))"
  by (simp_all add: clear_roomslots_eq)

lemma assign_roomslots_sel:
  assumes "assign_roomslots h s rs False = Inr h'"
  shows "sec_roomslots (hp_sec h' s') =
      (if s' = s then sort_key (rs_key h) rs else sec_roomslots (hp_sec h s'))"
    and "rs_section (hp_rs h' r) = (if r \<in> set rs then Some s else rs_section (hp_rs h r))"
  using assms by (auto simp: assign_roomslots_iff)

subsection \<open>Caches\<close>

lemma list_index_Some:
  "list_index x xs = Some i \<Longrightarrow> i < length xs \<and> xs ! i = x"
  by (induction xs arbitrary: i) (auto split: if_splits)

lemma list_index_nth: "distinct xs \<Longrightarrow> i < length xs \<Longrightarrow> list_index (xs ! i) xs = Some i"
proof (induction xs arbitrary: i)
  case (Cons x xs)
  then show ?case by (cases i) (auto dest: nth_mem)
qed simp

lemma list_index_None: "list_index x xs = None \<longleftrightarrow> x \<notin> set xs"
  by (induction xs) auto

text \<open>Two stores that agree but for the caches.\<close>

definition same_but_caches :: "heap \<Rightarrow> heap \<Rightarrow> bool" where
  "same_but_caches h h' \<longleftrightarrow>
     hp_ts h' = hp_ts h \<and> hp_teacher h' = hp_teacher h \<and> hp_room h' = hp_room h \<and>
     hp_sec h' = hp_sec h \<and> hp_fresh h' = hp_fresh h \<and>
     (\<forall>r. rs_timeslot (hp_rs h' r) = rs_timeslot (hp_rs h r) \<and>
          rs_room (hp_rs h' r) = rs_room (hp_rs h r) \<and>
          rs_section (hp_rs h' r) = rs_section (hp_rs h r))"

lemma same_but_caches_refl [simp, intro]: "same_but_caches h h"
  by (simp add: same_but_caches_def)

lemma same_but_caches_trans [trans]:
  "same_but_caches h h' \<Longrightarrow> same_but_caches h' h'' \<Longrightarrow> same_but_caches h h''"
  by (simp add: same_but_caches_def)

lemma roomslot_index_cong:
  assumes "rs_index (hp_rs h' r) = rs_index (hp_rs h r)"
    and "rs_room (hp_rs h' r) = rs_room (hp_rs h r)" and "hp_room h' = hp_room h"
  shows "roomslot_index h' r = roomslot_index h r"
  using assms by (simp add: roomslot_index_def split: option.split)

lemma roomslot_next_cong:
  assumes "rs_next_is_cached (hp_rs h' r) = rs_next_is_cached (hp_rs h r)"
    and "rs_next (hp_rs h' r) = rs_next (hp_rs h r)"
    and "rs_room (hp_rs h' r) = rs_room (hp_rs h r)" and "hp_room h' = hp_room h"
    and "roomslot_index h' r = roomslot_index h r"
  shows "roomslot_next h' r = roomslot_next h r"
  using assms by (simp add: roomslot_next_def)

lemma index_load_frame:
  assumes "index_load h r = Inr (i, h')"
  shows "same_but_caches h h'" and "roomslot_index h r = Inr i"
  using assms by (auto simp: index_load_def rbind_Inr_iff same_but_caches_def)

lemma index_loadE:
  assumes "index_load h r = Inr (i, h')"
  obtains "roomslot_index h r = Inr i"
    and "h' = h\<lparr>hp_rs := (hp_rs h)(r := (hp_rs h r)\<lparr>rs_index := Some i\<rparr>)\<rparr>"
  using assms by (auto simp: index_load_def rbind_Inr_iff)

lemma index_load_index:
  assumes "index_load h r = Inr (i, h')"
  shows "roomslot_index h' r' = roomslot_index h r'"
proof (cases "r' = r")
  case True
  with assms show ?thesis by (auto elim!: index_loadE) (simp add: roomslot_index_def)
next
  case False
  with assms show ?thesis by (auto elim!: index_loadE intro: roomslot_index_cong)
qed

lemma index_load_next:
  assumes "index_load h r = Inr (i, h')"
  shows "roomslot_next h' r' = roomslot_next h r'"
proof (rule roomslot_next_cong)
  from assms show "rs_next_is_cached (hp_rs h' r') = rs_next_is_cached (hp_rs h r')"
    "rs_next (hp_rs h' r') = rs_next (hp_rs h r')" "rs_room (hp_rs h' r') = rs_room (hp_rs h r')"
    "hp_room h' = hp_room h"
    by (auto elim!: index_loadE split: if_splits)
qed (rule index_load_index [OF assms])

lemma next_load_frame:
  assumes "next_load h r = Inr (n, h')"
  shows "same_but_caches h h'" and "roomslot_next h r = Inr n"
proof -
  show "same_but_caches h h'"
    using assms
    by (auto simp: next_load_def rbind_Inr_iff Let_def same_but_caches_def index_load_def
        split: if_splits)
  show "roomslot_next h r = Inr n"
    using assms
    by (auto simp: next_load_def rbind_Inr_iff Let_def roomslot_next_def index_load_def
        split: if_splits)
qed

lemma next_load_index:
  assumes "next_load h r = Inr (n, h')"
  shows "roomslot_index h' r' = roomslot_index h r'"
proof (cases "rs_next_is_cached (hp_rs h r)")
  case True
  with assms show ?thesis by (simp add: next_load_def)
next
  case False
  with assms obtain i h1 where 1: "index_load h r = Inr (i, h1)"
    and h': "h' = h1\<lparr>hp_rs := (hp_rs h1)(r := (hp_rs h1 r)\<lparr>rs_next := n, rs_next_is_cached := True\<rparr>)\<rparr>"
    by (auto simp: next_load_def rbind_Inr_iff Let_def split: if_splits)
  have "roomslot_index h' r' = roomslot_index h1 r'"
    by (rule roomslot_index_cong) (simp_all add: h')
  with index_load_index [OF 1] show ?thesis by simp
qed

lemma next_load_next:
  assumes "next_load h r = Inr (n, h')"
  shows "roomslot_next h' r' = roomslot_next h r'"
proof (cases "rs_next_is_cached (hp_rs h r)")
  case True
  with assms show ?thesis by (simp add: next_load_def)
next
  case False
  with assms obtain i h1 where 1: "index_load h r = Inr (i, h1)"
    and h': "h' = h1\<lparr>hp_rs := (hp_rs h1)(r := (hp_rs h1 r)\<lparr>rs_next := n, rs_next_is_cached := True\<rparr>)\<rparr>"
    by (auto simp: next_load_def rbind_Inr_iff Let_def split: if_splits)
  have "roomslot_index h' r' = roomslot_index h1 r'" for r'
    by (rule roomslot_index_cong) (simp_all add: h')
  moreover have "roomslot_next h r = Inr n"
    by (rule next_load_frame(2) [OF assms])
  ultimately have "roomslot_next h' r' = (if r' = r then roomslot_next h r else roomslot_next h1 r')"
    by (simp add: h' roomslot_next_def)
  with index_load_next [OF 1] show ?thesis by simp
qed

subsection \<open>Getting roomslots by duration\<close>

definition rs_end :: "heap \<Rightarrow> rsref \<Rightarrow> datetime" where
  "rs_end h r = snd (rs_key h r)"

definition rs_start :: "heap \<Rightarrow> rsref \<Rightarrow> datetime" where
  "rs_start h r = fst (rs_key h r)"

definition room_av :: "heap \<Rightarrow> rsref \<Rightarrow> rsref list" where
  "room_av h r = room_availability (hp_room h (rs_room (hp_rs h r)))"

lemma ts_start_rs [simp]:
  "ts_start (hp_ts h (rs_timeslot (hp_rs h r))) = rs_start h r"
  "ts_end (hp_ts h (rs_timeslot (hp_rs h r))) = rs_end h r"
  by (simp_all add: rs_start_def rs_end_def rs_key_def ts_key_def)

lemma grs_loop_spec:
  assumes "idx < length av" and "en = rs_end h (av ! idx)"
  shows "\<exists>m. idx \<le> m \<and> m < length av \<and>
     grs_loop h av d st idx en acc = acc @ map ((!) av) [Suc idx..<Suc m] \<and>
     (\<forall>j. idx \<le> j \<longrightarrow> j < m \<longrightarrow> d - hours_difference st (rs_end h (av ! j)) > DELTA_TIME) \<and>
     (d - hours_difference st (rs_end h (av ! m)) \<le> DELTA_TIME \<or> Suc m = length av)"
  using assms
proof (induction h av d st idx en acc rule: grs_loop.induct)
  case (1 h av d st idx en acc)
  show ?case
  proof (cases "d - hours_difference st en > DELTA_TIME")
    case False
    with "1.prems" show ?thesis
      by (intro exI [of _ idx]) (subst grs_loop.simps, auto)
  next
    case big: True
    show ?thesis
    proof (cases "idx + 1 \<ge> length av")
      case True
      with big "1.prems" show ?thesis
        by (intro exI [of _ idx]) (subst grs_loop.simps, auto)
    next
      case False
      then have len: "idx + 1 < length av" by simp
      from "1.IH" [OF big False refl len] obtain m where m: "idx + 1 \<le> m" "m < length av"
        "grs_loop h av d st (idx + 1) (rs_end h (av ! (idx + 1))) (acc @ [av ! (idx + 1)]) =
           (acc @ [av ! (idx + 1)]) @ map ((!) av) [Suc (idx + 1)..<Suc m]"
        "\<forall>j. idx + 1 \<le> j \<longrightarrow> j < m \<longrightarrow> d - hours_difference st (rs_end h (av ! j)) > DELTA_TIME"
        "d - hours_difference st (rs_end h (av ! m)) \<le> DELTA_TIME \<or> Suc m = length av"
        by auto
      have "grs_loop h av d st idx en acc = acc @ map ((!) av) [Suc idx..<Suc m]"
        using big False m(1,3)
        by (subst grs_loop.simps) (simp add: Let_def upt_conv_Cons del: upt_Suc)
      moreover have "\<forall>j. idx \<le> j \<longrightarrow> j < m \<longrightarrow>
          d - hours_difference st (rs_end h (av ! j)) > DELTA_TIME"
        using m(4) big "1.prems" by (metis Suc_eq_plus1 le_less_Suc_eq not_le)
      ultimately show ?thesis using m by (intro exI [of _ m]) simp
    qed
  qed
qed

text \<open>The index of a roomslot is right: what \<open>check_roomslot_next_and_index_consistency\<close> checks.\<close>

definition index_ok :: "heap \<Rightarrow> rsref \<Rightarrow> bool" where
  "index_ok h r \<longleftrightarrow> (\<exists>i < length (room_av h r). room_av h r ! i = r \<and> roomslot_index h r = Inr i)"

lemma index_ok_mem: "index_ok h r \<Longrightarrow> r \<in> set (room_av h r)"
  unfolding index_ok_def by (metis nth_mem)

lemma grs_spec:
  assumes "index_ok h r"
  shows "\<exists>i m. i \<le> m \<and> m < length (room_av h r) \<and> room_av h r ! i = r \<and>
     get_roomslots_by_duration h r d = map ((!) (room_av h r)) [i..<Suc m] \<and>
     (\<forall>j. i \<le> j \<longrightarrow> j < m \<longrightarrow>
        d - hours_difference (rs_start h r) (rs_end h (room_av h r ! j)) > DELTA_TIME) \<and>
     (d - hours_difference (rs_start h r) (rs_end h (room_av h r ! m)) \<le> DELTA_TIME \<or>
      Suc m = length (room_av h r))"
proof -
  from assms obtain i where i: "i < length (room_av h r)" "room_av h r ! i = r"
    "roomslot_index h r = Inr i" by (auto simp: index_ok_def)
  have "rs_end h r = rs_end h (room_av h r ! i)" by (simp add: i)
  from grs_loop_spec [OF i(1) this, of d "rs_start h r" "[r]"] obtain m where
    m: "i \<le> m" "m < length (room_av h r)"
      "grs_loop h (room_av h r) d (rs_start h r) i (rs_end h r) [r] =
         [r] @ map ((!) (room_av h r)) [Suc i..<Suc m]"
      "\<forall>j. i \<le> j \<longrightarrow> j < m \<longrightarrow>
        d - hours_difference (rs_start h r) (rs_end h (room_av h r ! j)) > DELTA_TIME"
      "d - hours_difference (rs_start h r) (rs_end h (room_av h r ! m)) \<le> DELTA_TIME \<or>
       Suc m = length (room_av h r)"
    by blast
  have "get_roomslots_by_duration h r d = map ((!) (room_av h r)) [i..<Suc m]"
    using m(1,3) i index_ok_mem [OF assms]
    by (simp add: get_roomslots_by_duration_def room_av_def Let_def upt_conv_Cons del: upt_Suc)
  with m i show ?thesis by blast
qed

lemma grs_basic:
  assumes "index_ok h r"
  shows "get_roomslots_by_duration h r d \<noteq> []" "hd (get_roomslots_by_duration h r d) = r"
    "set (get_roomslots_by_duration h r d) \<subseteq> set (room_av h r)"
proof -
  from grs_spec [OF assms, of d] obtain i m where
    "i \<le> m" "m < length (room_av h r)" "room_av h r ! i = r"
    "get_roomslots_by_duration h r d = map ((!) (room_av h r)) [i..<Suc m]" by blast
  then show "get_roomslots_by_duration h r d \<noteq> []" "hd (get_roomslots_by_duration h r d) = r"
    "set (get_roomslots_by_duration h r d) \<subseteq> set (room_av h r)"
    by (auto simp: upt_conv_Cons index_ok_mem [OF assms] simp del: upt_Suc)
qed

lemma sorted_wrt_map_nth:
  assumes "sorted_wrt P xs" and "m \<le> length xs"
  shows "sorted_wrt P (map ((!) xs) [i..<m])"
  using assms by (auto simp: sorted_wrt_map sorted_wrt_iff_nth_less)

lemma grs_sorted:
  assumes "index_ok h r" and "sorted_wrt P (room_av h r)"
  shows "sorted_wrt P (get_roomslots_by_duration h r d)"
proof -
  from grs_spec [OF assms(1), of d] obtain i m where
    "m < length (room_av h r)"
    "get_roomslots_by_duration h r d = map ((!) (room_av h r)) [i..<Suc m]" by blast
  with assms(2) show ?thesis by (simp add: sorted_wrt_map_nth del: upt_Suc)
qed

lemma grs_not_available:
  "r \<notin> set (room_av h r) \<Longrightarrow> get_roomslots_by_duration h r d = []"
  by (simp add: get_roomslots_by_duration_def room_av_def Let_def)

lemma sort_key_sorted_wrt:
  assumes "sorted_wrt (\<lambda>a b. f a < f b) xs"
  shows "sort_key f xs = xs"
proof (rule sort_key_id_if_sorted)
  show "sorted (map f xs)"
    unfolding sorted_wrt_map by (rule sorted_wrt_mono_rel [OF _ assms]) simp
qed

end
