(* ===== verification/Resource_Checker.thy ===== *)
theory Resource_Checker
  imports Placement "HOL-Library.Sublist"
begin

section \<open>Resource criteria (autoscheduler/resource\_checker.py)\<close>

text \<open>
  The specification language for special resource constraints: parsing a criterion with
  the fixed regular expressions of the source, printing it back, and checking it against a
  section and a room. The fixed expressions are translated into string functions with
  Python's semantics (greedy and lazy groups, a dot that does not match a line feed, a
  dollar sign that also matches before a final line feed). The expressions that users
  write inside a specification are opaque strings: whether one matches at the start of a
  value is the parameter \<open>re_match\<close>, which stands for \<open>re.match(p, s) is not None\<close>.
\<close>

datatype section_matcher =
    TrivialSectionMatcher
  | NegatingSectionMatcher section_matcher
  | ResourceRequestMatcher (req_res_type: string) (req_value_regex: string)

datatype classroom_matcher =
    NegatingClassroomMatcher classroom_matcher
  | ResourceClassroomMatcher (cls_res_type: string) (cls_value_regex: string)
  | ClassroomNameMatcher (cls_name_regex: string)

datatype clause_matcher = SectionClause section_matcher | ClassroomClause classroom_matcher

record criterion =
  crit_section :: section_matcher
  crit_classroom :: classroom_matcher
  crit_on_section :: bool
  crit_name :: string

subsection \<open>Matching\<close>

fun section_matches :: "(string \<Rightarrow> string \<Rightarrow> bool) \<Rightarrow> section_matcher \<Rightarrow> heap \<Rightarrow> secref \<Rightarrow> bool" where
  "section_matches re_match TrivialSectionMatcher h s = True"
| "section_matches re_match (NegatingSectionMatcher m) h s = (\<not> section_matches re_match m h s)"
| "section_matches re_match (ResourceRequestMatcher res_type regex) h s =
     (case map_of (sec_requests (hp_sec h s)) res_type of
        None \<Rightarrow> False
      | Some rt \<Rightarrow> re_match regex (rt_value rt))"

fun room_matches :: "(string \<Rightarrow> string \<Rightarrow> bool) \<Rightarrow> classroom_matcher \<Rightarrow> heap \<Rightarrow> roomref \<Rightarrow> bool" where
  "room_matches re_match (NegatingClassroomMatcher m) h r = (\<not> room_matches re_match m h r)"
| "room_matches re_match (ResourceClassroomMatcher res_type regex) h r =
     (case map_of (room_furnishings (hp_room h r)) res_type of
        None \<Rightarrow> False
      | Some rt \<Rightarrow> re_match regex (rt_value rt))"
| "room_matches re_match (ClassroomNameMatcher regex) h r = re_match regex (room_name (hp_room h r))"

definition check_match ::
  "(string \<Rightarrow> string \<Rightarrow> bool) \<Rightarrow> criterion \<Rightarrow> heap \<Rightarrow> secref \<Rightarrow> roomref \<Rightarrow> bool" where
  "check_match re_match c h s r =
     (if crit_on_section c
      then room_matches re_match (crit_classroom c) h r \<or> \<not> section_matches re_match (crit_section c) h s
      else \<not> room_matches re_match (crit_classroom c) h r \<or> section_matches re_match (crit_section c) h s)"

subsection \<open>Printing\<close>

abbreviation any_regex :: string where "any_regex \<equiv> ''.*''"

fun section_matcher_str :: "section_matcher \<Rightarrow> string" where
  "section_matcher_str TrivialSectionMatcher = ''any section''"
| "section_matcher_str (NegatingSectionMatcher m) = ''not '' @ section_matcher_str m"
| "section_matcher_str (ResourceRequestMatcher res_type regex) =
     ''section requests '' @ res_type @ (if regex \<noteq> any_regex then '' with '' @ regex else [])"

fun classroom_matcher_str :: "classroom_matcher \<Rightarrow> string" where
  "classroom_matcher_str (NegatingClassroomMatcher m) = ''not '' @ classroom_matcher_str m"
| "classroom_matcher_str (ResourceClassroomMatcher res_type regex) =
     ''classroom has '' @ res_type @ (if regex \<noteq> any_regex then '' with '' @ regex else [])"
| "classroom_matcher_str (ClassroomNameMatcher regex) = ''classroom matches '' @ regex"

definition criterion_spec :: "criterion \<Rightarrow> string" where
  "criterion_spec c =
     (if crit_on_section c
      then ''if '' @ section_matcher_str (crit_section c) @ '' then '' @ classroom_matcher_str (crit_classroom c)
      else ''if '' @ classroom_matcher_str (crit_classroom c) @ '' then '' @ section_matcher_str (crit_section c))"

definition criterion_str :: "criterion \<Rightarrow> string" where
  "criterion_str c = crit_name c @ '': '' @ criterion_spec c"

subsection \<open>Parsing\<close>

abbreviation newline :: char where "newline \<equiv> CHR 0x0A"

definition strip_prefix :: "string \<Rightarrow> string \<Rightarrow> string option" where
  "strip_prefix p s = (if prefix p s then Some (drop (length p) s) else None)"

definition at_end :: "string \<Rightarrow> bool" where
  "at_end s \<longleftrightarrow> s = [] \<or> s = [newline]"

text \<open>\<open>(.+)$\<close>\<close>

definition rest_of_line :: "string \<Rightarrow> string option" where
  "rest_of_line s =
     (let l = takeWhile (\<lambda>c. c \<noteq> newline) s in
      if l \<noteq> [] \<and> at_end (drop (length l) s) then Some l else None)"

text \<open>\<open>( with (.+))?$\<close>\<close>

definition with_clause :: "string \<Rightarrow> string option option" where
  "with_clause s =
     (case Option.bind (strip_prefix '' with '' s) rest_of_line of
        Some v \<Rightarrow> Some (Some v)
      | None \<Rightarrow> if at_end s then Some None else None)"

text \<open>\<open>(.+?)( with (.+))?$\<close>: the shortest non-empty name after which the rest matches.\<close>

fun parse_resource :: "string \<Rightarrow> string \<Rightarrow> (string \<times> string option) option" where
  "parse_resource acc s =
     (case (if acc = [] then None else with_clause s) of
        Some v \<Rightarrow> Some (acc, v)
      | None \<Rightarrow> (case s of [] \<Rightarrow> None
                 | c # cs \<Rightarrow> if c = newline then None else parse_resource (acc @ [c]) cs))"

declare parse_resource.simps [simp del]

definition strip_not :: "string \<Rightarrow> bool \<times> string" where
  "strip_not g = (case strip_prefix ''not '' g of Some g' \<Rightarrow> (True, g') | None \<Rightarrow> (False, g))"

definition create_match_from_clause :: "string \<Rightarrow> string list \<Rightarrow> clause_matcher result" where
  "create_match_from_clause clause valid_res_types =
     (let (neg, body) = strip_not clause in
      case Option.bind (strip_prefix ''section requests '' body) (parse_resource []) of
        Some (res_type, value_regex) \<Rightarrow>
          if res_type \<notin> set valid_res_types then Inl (ValueError ''Resource type doesn't exist'')
          else let m = ResourceRequestMatcher res_type (case value_regex of None \<Rightarrow> any_regex | Some v \<Rightarrow> v)
               in Inr (SectionClause (if neg then NegatingSectionMatcher m else m))
      | None \<Rightarrow>
     (case Option.bind (strip_prefix ''classroom has '' body) (parse_resource []) of
        Some (res_type, value_regex) \<Rightarrow>
          let m = ResourceClassroomMatcher res_type (case value_regex of None \<Rightarrow> any_regex | Some v \<Rightarrow> v)
          in Inr (ClassroomClause (if neg then NegatingClassroomMatcher m else m))
      | None \<Rightarrow>
     (case Option.bind (strip_prefix ''classroom matches '' body) rest_of_line of
        Some name_regex \<Rightarrow>
          let m = ClassroomNameMatcher name_regex
          in Inr (ClassroomClause (if neg then NegatingClassroomMatcher m else m))
      | None \<Rightarrow>
        if clause = ''any section'' then Inr (SectionClause TrivialSectionMatcher)
        else Inl (ValueError ''Clause doesn't match a valid pattern.''))))"

text \<open>\<open>^if (.+) then (.+)$\<close>: the first group is greedy, so the last \<open> then \<close> splits.\<close>

definition split_spec :: "string \<Rightarrow> (string \<times> string) option" where
  "split_spec spec =
     Option.bind (Option.bind (strip_prefix ''if '' spec) rest_of_line) (\<lambda>line.
       map_option (\<lambda>n. (take n line, drop (n + 6) line))
         (find (\<lambda>n. prefix '' then '' (drop n line) \<and> n + 6 < length line) (rev [1..<length line])))"

definition create_from_specification :: "string \<Rightarrow> string \<Rightarrow> string list \<Rightarrow> criterion result" where
  "create_from_specification spec name valid_res_types =
     (case split_spec spec of
        None \<Rightarrow> Inl (ValueError ''ResourceCriteron spec must match 'if PREMISE then CONCLUSION'')
      | Some (g1, g2) \<Rightarrow>
          rbind (create_match_from_clause g1 valid_res_types) (\<lambda>m1.
          rbind (create_match_from_clause g2 valid_res_types) (\<lambda>m2.
            case m1 of
              SectionClause sm \<Rightarrow>
                (case m2 of SectionClause _ \<Rightarrow> Inl (ValueError ''Cannot specify two section matchers'')
                 | ClassroomClause cm \<Rightarrow>
                     Inr \<lparr>crit_section = sm, crit_classroom = cm, crit_on_section = True, crit_name = name\<rparr>)
            | ClassroomClause cm \<Rightarrow>
                (case m2 of ClassroomClause _ \<Rightarrow> Inl (ValueError ''Cannot specify two classroom matchers'')
                 | SectionClause sm \<Rightarrow>
                     Inr \<lparr>crit_section = sm, crit_classroom = cm, crit_on_section = False, crit_name = name\<rparr>))))"

text \<open>
  \<open>create_resource_criteria\<close>: later dictionaries override earlier ones, and a
  specification that is \<open>None\<close> or the string \<open>None\<close> deletes the criterion. The two
  definitions are the two branches of \<open>use_weights\<close>.
\<close>

definition spec_dropped :: "string option \<Rightarrow> bool" where
  "spec_dropped spec \<longleftrightarrow> spec = Some ''None'' \<or> spec = None"

definition create_resource_criteria ::
  "(string, string option) dict list \<Rightarrow> string list \<Rightarrow> criterion list result" where
  "create_resource_criteria specification_dicts valid_res_types =
     rmap (\<lambda>(name, spec). create_from_specification (the spec) name valid_res_types)
       (filter (\<lambda>(name, spec). \<not> spec_dropped spec) (override specification_dicts))"

definition create_weighted_criteria ::
  "(string, string option \<times> rat) dict list \<Rightarrow> string list \<Rightarrow> (criterion \<times> rat) list result" where
  "create_weighted_criteria specification_dicts valid_res_types =
     rmap (\<lambda>(name, spec, weight).
             rbind (create_from_specification (the spec) name valid_res_types) (\<lambda>c. Inr (c, weight)))
       (filter (\<lambda>(name, spec, weight). \<not> spec_dropped spec) (override specification_dicts))"

subsection \<open>Printing and parsing are inverse\<close>

text \<open>
  The texts for which they are: no line feed, a resource type that is not empty and does
  not contain \<open> with\<close>, a regular expression that is not empty; at most one negation, and
  not of \<open>any section\<close>.
\<close>

definition plain :: "string \<Rightarrow> bool" where
  "plain s \<longleftrightarrow> s \<noteq> [] \<and> newline \<notin> set s"

definition plain_type :: "string \<Rightarrow> bool" where
  "plain_type s \<longleftrightarrow> plain s \<and> \<not> sublist '' with'' s"

fun printable_section :: "section_matcher \<Rightarrow> bool" where
  "printable_section TrivialSectionMatcher = True"
| "printable_section (NegatingSectionMatcher (ResourceRequestMatcher t v)) = (plain_type t \<and> plain v)"
| "printable_section (NegatingSectionMatcher _) = False"
| "printable_section (ResourceRequestMatcher t v) = (plain_type t \<and> plain v)"

fun printable_classroom :: "classroom_matcher \<Rightarrow> bool" where
  "printable_classroom (NegatingClassroomMatcher (ResourceClassroomMatcher t v)) = (plain_type t \<and> plain v)"
| "printable_classroom (NegatingClassroomMatcher (ClassroomNameMatcher v)) = plain v"
| "printable_classroom (NegatingClassroomMatcher _) = False"
| "printable_classroom (ResourceClassroomMatcher t v) = (plain_type t \<and> plain v)"
| "printable_classroom (ClassroomNameMatcher v) = plain v"

fun matcher_types :: "section_matcher \<Rightarrow> string set" where
  "matcher_types TrivialSectionMatcher = {}"
| "matcher_types (NegatingSectionMatcher m) = matcher_types m"
| "matcher_types (ResourceRequestMatcher t v) = {t}"

lemma takeWhile_plain: "newline \<notin> set s \<Longrightarrow> takeWhile (\<lambda>c. c \<noteq> newline) s = s"
  by (induction s) auto

lemma rest_of_line_plain: "plain s \<Longrightarrow> rest_of_line s = Some s"
  by (simp add: rest_of_line_def plain_def takeWhile_plain at_end_def Let_def)

lemma with_clause_Nil [simp]: "with_clause [] = Some None"
  by (simp add: with_clause_def strip_prefix_def at_end_def)

lemma with_clause_plain: "plain v \<Longrightarrow> with_clause ('' with '' @ v) = Some (Some v)"
  by (simp add: with_clause_def strip_prefix_def rest_of_line_plain)

text \<open>
  Inside the name no \<open>with\<close> clause starts: at a proper suffix \<open>x # xs\<close> of the name the
  rest of the clause does not begin with \<open> with \<close>.
\<close>

lemma no_early_with:
  assumes "\<not> sublist '' with'' (y @ xs)" and "xs \<noteq> []"
    and "rest = [] \<or> (\<exists>v. rest = '' with '' @ v)"
  shows "\<not> prefix '' with '' (xs @ rest)"
proof
  assume p: "prefix '' with '' (xs @ rest)"
  have no: "\<not> prefix '' with'' xs"
    using assms(1) by (metis prefix_imp_sublist sublist_append_leftI sublist_order.order_trans)
  have five: "prefix '' with'' (xs @ rest)"
    using p by (auto simp: prefix_def)
  consider (long) "5 \<le> length xs" | (short) "length xs < 5" by linarith
  then show False
  proof cases
    case long
    then have "prefix '' with'' xs"
      using prefix_length_prefix [OF five, of xs] by simp
    with no show False by simp
  next
    case short
    with assms(2,3) p show False
      by (auto simp: prefix_def append_eq_Cons_conv neq_Nil_conv)
  qed
qed

lemma with_clause_early:
  assumes "\<not> prefix '' with '' s" and "s \<noteq> []" and "newline \<notin> set s"
  shows "with_clause s = None"
  using assms by (auto simp: with_clause_def strip_prefix_def at_end_def)

lemma parse_resource_plain:
  assumes "acc @ xs \<noteq> []" and "\<not> sublist '' with'' (acc @ xs)"
    and "newline \<notin> set (xs @ rest)" and "rest = [] \<or> (\<exists>v. rest = '' with '' @ v)"
    and "with_clause rest = Some w"
  shows "parse_resource acc (xs @ rest) = Some (acc @ xs, w)"
  using assms
proof (induction xs arbitrary: acc)
  case Nil
  then show ?case by (subst parse_resource.simps) simp
next
  case (Cons x xs)
  have "with_clause ((x # xs) @ rest) = None"
    using Cons.prems by (intro with_clause_early no_early_with [of acc]) auto
  then have "parse_resource acc (x # (xs @ rest)) = parse_resource (acc @ [x]) (xs @ rest)"
    using Cons.prems by (subst parse_resource.simps) auto
  moreover have "parse_resource (acc @ [x]) (xs @ rest) = Some ((acc @ [x]) @ xs, w)"
    using Cons.prems by (intro Cons.IH) auto
  ultimately show ?case by simp
qed

lemma parse_resource_type:
  assumes "plain_type t" and "plain v"
  shows "parse_resource [] (t @ (if v \<noteq> any_regex then '' with '' @ v else [])) =
     Some (t, if v \<noteq> any_regex then Some v else None)"
  using assms parse_resource_plain [of "[]" t "'' with '' @ v" "Some v"]
    parse_resource_plain [of "[]" t "[]" None] with_clause_plain [of v]
  by (auto simp: plain_type_def plain_def)

lemma strip_not_simps [simp]:
  "strip_not (CHR ''n'' # CHR ''o'' # CHR ''t'' # CHR '' '' # s) = (True, s)"
  "strip_not (CHR ''s'' # s) = (False, CHR ''s'' # s)"
  "strip_not (CHR ''c'' # s) = (False, CHR ''c'' # s)"
  "strip_not (CHR ''a'' # s) = (False, CHR ''a'' # s)"
  by (simp_all add: strip_not_def strip_prefix_def)

lemma section_clause_roundtrip:
  assumes "printable_section m" and "matcher_types m \<subseteq> set valid_res_types"
  shows "create_match_from_clause (section_matcher_str m) valid_res_types = Inr (SectionClause m)"
  using assms
  by (induction m rule: printable_section.induct)
     (auto simp: create_match_from_clause_def parse_resource_type strip_prefix_def Let_def)

lemma classroom_clause_roundtrip:
  assumes "printable_classroom m"
  shows "create_match_from_clause (classroom_matcher_str m) valid_res_types = Inr (ClassroomClause m)"
  using assms
  by (induction m rule: printable_classroom.induct)
     (auto simp: create_match_from_clause_def parse_resource_type strip_prefix_def Let_def
        rest_of_line_plain)

lemma plain_section_str: "printable_section m \<Longrightarrow> plain (section_matcher_str m)"
  by (induction m rule: printable_section.induct) (auto simp: plain_def plain_type_def)

lemma plain_classroom_str: "printable_classroom m \<Longrightarrow> plain (classroom_matcher_str m)"
  by (induction m rule: printable_classroom.induct) (auto simp: plain_def plain_type_def)

lemma find_rev_upt:
  assumes "1 \<le> n" and "n < k" and "Q n" and "\<And>j. n < j \<Longrightarrow> j < k \<Longrightarrow> \<not> Q j"
  shows "find Q (rev [1..<k]) = Some n"
  using assms
proof (induction k)
  case (Suc k)
  show ?case
  proof (cases "n = k")
    case True
    with Suc.prems show ?thesis by simp
  next
    case False
    with Suc.prems have "find Q (rev [1..<k]) = Some n" by (intro Suc.IH) auto
    with False Suc.prems show ?thesis by auto
  qed
qed simp

lemma no_later_then:
  assumes "\<not> sublist ''then '' C" and "0 < j"
  shows "\<not> prefix '' then '' (drop j ('' then '' @ C))"
proof -
  have no: "\<not> prefix '' then '' (drop k C)" "\<not> prefix ''then '' (drop k C)" for k
  proof -
    have "sublist (drop k C) C" by (rule suffix_imp_sublist) (rule suffix_drop)
    with assms(1) show "\<not> prefix ''then '' (drop k C)"
      by (metis prefix_imp_sublist sublist_order.order_trans)
    show "\<not> prefix '' then '' (drop k C)"
    proof
      assume "prefix '' then '' (drop k C)"
      then obtain r where "drop k C = '' then '' @ r" by (auto simp: prefix_def)
      then have "C = (take k C @ '' '') @ ''then '' @ r" by (metis Cons_eq_appendI append.assoc
            append_Nil append_take_drop_id)
      then have "sublist ''then '' C" by (metis sublist_appendI append.assoc)
      with assms(1) show False by simp
    qed
  qed
  consider "j = 1" | "j = 2" | "j = 3" | "j = 4" | "j = 5" | "6 \<le> j"
    using assms(2) by linarith
  then show ?thesis
  proof cases
    assume j: "6 \<le> j"
    then have "drop j ('' then '' @ C) = drop (j - 6) C"
      unfolding drop_append by (simp add: eval_nat_numeral)
    then show ?thesis using no(1) [of "j - 6"] by (simp only:) simp
  qed (use no(2) [of 0] in \<open>simp_all add: eval_nat_numeral\<close>)
qed

lemma split_spec_eq:
  assumes "plain P" and "plain C" and "\<not> sublist ''then '' C"
  shows "split_spec (''if '' @ P @ '' then '' @ C) = Some (P, C)"
proof -
  let ?line = "P @ '' then '' @ C"
  have "plain ?line" using assms(1,2) by (auto simp: plain_def)
  then have line: "Option.bind (strip_prefix ''if '' (''if '' @ ?line)) rest_of_line = Some ?line"
    by (simp add: strip_prefix_def rest_of_line_plain del: append_assoc)
  let ?Q = "\<lambda>n. prefix '' then '' (drop n ?line) \<and> n + 6 < length ?line"
  have "find ?Q (rev [1..<length ?line]) = Some (length P)"
  proof (rule find_rev_upt)
    show "1 \<le> length P" using assms(1) by (cases P) (auto simp: plain_def)
    show "?Q (length P)" using assms(2) by (cases C) (auto simp: plain_def)
    show "\<not> ?Q j" if "length P < j" "j < length ?line" for j
      using no_later_then [OF assms(3), of "j - length P"] that by simp
  qed simp
  with line show ?thesis by (simp add: split_spec_def)
qed

lemma criterion_roundtrip:
  assumes "printable_section (crit_section c)" and "printable_classroom (crit_classroom c)"
    and "matcher_types (crit_section c) \<subseteq> set valid_res_types"
    and "\<not> sublist ''then '' (if crit_on_section c then classroom_matcher_str (crit_classroom c)
                          else section_matcher_str (crit_section c))"
  shows "create_from_specification (criterion_spec c) (crit_name c) valid_res_types = Inr c"
proof (cases "crit_on_section c")
  case True
  with assms split_spec_eq [OF plain_section_str plain_classroom_str, of "crit_section c" "crit_classroom c"]
  show ?thesis
    by (simp add: create_from_specification_def criterion_spec_def section_clause_roundtrip
        classroom_clause_roundtrip)
next
  case False
  with assms split_spec_eq [OF plain_classroom_str plain_section_str, of "crit_classroom c" "crit_section c"]
  show ?thesis
    by (simp add: create_from_specification_def criterion_spec_def section_clause_roundtrip
        classroom_clause_roundtrip)
qed

text \<open>Meaning: a criterion is the implication from its premise to its conclusion.\<close>

lemma check_match_iff:
  "check_match re_match c h s r \<longleftrightarrow>
     (if crit_on_section c
      then section_matches re_match (crit_section c) h s \<longrightarrow> room_matches re_match (crit_classroom c) h r
      else room_matches re_match (crit_classroom c) h r \<longrightarrow> section_matches re_match (crit_section c) h s)"
  by (auto simp: check_match_def)

lemma same_static_check_match:
  assumes "same_static h h'"
  shows "check_match re_match c h' s r = check_match re_match c h s r"
proof -
  have "section_matches re_match m h' s = section_matches re_match m h s" for m
    using same_staticD [OF assms] by (induction m) auto
  moreover have "room_matches re_match m h' r = room_matches re_match m h r" for m
    using same_staticD [OF assms] by (induction m) auto
  ultimately show ?thesis by (simp add: check_match_def)
qed

end
