(* ===== verification/Constraints.thy ===== *)
theory Constraints
  imports Resource_Checker
begin

section \<open>Constraints on schedules (autoscheduler/constraints.py)\<close>

text \<open>
  One definition per method of each constraint class. A check answers with a violation,
  with none, or raises. A violation carries the class name and the format string of its
  reason; the values interpolated into the string are left out.

  \<open>CompositeConstraint\<close> iterates over a Python set of names, so the order of its checks
  is arbitrary; it is a list here, and \<open>composite_set\<close> shows that the order does not decide
  whether a manipulation is accepted.
\<close>

datatype violation = ConstraintViolation (constraint_name: string) (reason: string)

type_synonym check_result = "violation option result"

definition violated :: "string \<Rightarrow> string \<Rightarrow> check_result" where
  "violated name r = Inr (Some (ConstraintViolation name r))"

definition ok :: check_result where
  "ok = Inr None"

definition cthen :: "check_result \<Rightarrow> check_result \<Rightarrow> check_result" where
  "cthen a b = (case a of Inl e \<Rightarrow> Inl e | Inr (Some v) \<Rightarrow> Inr (Some v) | Inr None \<Rightarrow> b)"

fun first_violation :: "('a \<Rightarrow> check_result) \<Rightarrow> 'a list \<Rightarrow> check_result" where
  "first_violation f [] = ok"
| "first_violation f (x # xs) = cthen (f x) (first_violation f xs)"

datatype constraint =
    ContiguousConstraint
  | LunchConstraint
  | PreconditionConstraint
  | ResourceCriteriaConstraint "criterion list"
  | RoomAvailabilityConstraint
  | RoomConcurrencyConstraint
  | SectionDurationConstraint
  | TeacherAvailabilityConstraint
  | TeacherConcurrencyConstraint

subsection \<open>ContiguousConstraint\<close>

fun contiguous_run :: "heap \<Rightarrow> string \<Rightarrow> tsref \<Rightarrow> rsref list \<Rightarrow> check_result" where
  "contiguous_run h section_room prev [] = ok"
| "contiguous_run h section_room prev (r # rs) =
     (if \<not> contiguous h prev (rs_timeslot (hp_rs h r))
      then violated ''ContiguousConstraint'' ''Section id {section.id} had noncontiguous rooms''
      else if room_name (hp_room h (rs_room (hp_rs h r))) \<noteq> section_room
      then violated ''ContiguousConstraint'' ''Section id {section.id} is in 2 different rooms''
      else contiguous_run h section_room (rs_timeslot (hp_rs h r)) rs)"

definition contiguous_check_schedule :: "heap \<Rightarrow> 'c as_schedule \<Rightarrow> check_result" where
  "contiguous_check_schedule h sch =
     first_violation (\<lambda>s. case sec_roomslots (hp_sec h s) of
         [] \<Rightarrow> ok
       | r # rs \<Rightarrow> (if rs = [] then ok
           else contiguous_run h (room_name (hp_room h (rs_room (hp_rs h r)))) (rs_timeslot (hp_rs h r)) rs))
       (dict_values (sch_sections sch))"

fun contiguous_slots :: "heap \<Rightarrow> tsref \<Rightarrow> rsref list \<Rightarrow> check_result" where
  "contiguous_slots h prev [] = ok"
| "contiguous_slots h prev (r # rs) =
     (if \<not> contiguous h prev (rs_timeslot (hp_rs h r))
      then violated ''ContiguousConstraint'' ''Insufficiently many contiguous timeslots to schedule''
      else contiguous_slots h (rs_timeslot (hp_rs h r)) rs)"

definition contiguous_check_schedule_section :: "heap \<Rightarrow> secref \<Rightarrow> rsref \<Rightarrow> check_result" where
  "contiguous_check_schedule_section h s start_roomslot =
     (case get_roomslots_by_duration h start_roomslot (sec_duration (hp_sec h s)) of
        [] \<Rightarrow> violated ''ContiguousConstraint'' ''Section won't be assigned any roomslots''
      | r # rs \<Rightarrow> (if rs = [] then ok
                  else contiguous_slots h (rs_timeslot (hp_rs h start_roomslot)) rs))"

subsection \<open>LunchConstraint\<close>

text \<open>
  \<open>check_schedule\<close> iterates over \<open>schedule.class_sections\<close> itself, that is over the
  dictionary's integer keys, and asks each for its roomslots: with a lunch period and a
  section there is always an \<open>AttributeError\<close>.
\<close>

definition lunch_check_schedule :: "heap \<Rightarrow> 'c as_schedule \<Rightarrow> check_result" where
  "lunch_check_schedule h sch =
     first_violation (\<lambda>l. rbind (py_first l) (\<lambda>_. rbind (py_last l) (\<lambda>_.
         if sch_sections sch \<noteq> [] then Inl AttributeError else ok)))
       (dict_values (sch_lunch sch))"

definition lunch_check_schedule_section ::
  "heap \<Rightarrow> 'c as_schedule \<Rightarrow> secref \<Rightarrow> rsref \<Rightarrow> check_result" where
  "lunch_check_schedule_section h sch s start_roomslot =
     first_violation (\<lambda>l.
         rbind (py_first l) (\<lambda>l0. rbind (py_last l) (\<lambda>l1.
         let roomslots = get_roomslots_by_duration h start_roomslot (sec_duration (hp_sec h s)) in
         rbind (py_first roomslots) (\<lambda>r0. rbind (py_last roomslots) (\<lambda>r1.
           if fst (rs_key h r0) \<le> ts_start (hp_ts h l0) \<and> snd (rs_key h r1) \<ge> ts_end (hp_ts h l1)
           then violated ''LunchConstraint'' ''Section would be scheduled over lunch''
           else ok)))))
       (dict_values (sch_lunch sch))"

subsection \<open>PreconditionConstraint\<close>

definition precondition_check_schedule_section :: "heap \<Rightarrow> secref \<Rightarrow> check_result" where
  "precondition_check_schedule_section h s =
     (if sec_roomslots (hp_sec h s) \<noteq> []
      then violated ''PreconditionConstraint'' ''Section is already scheduled.'' else ok)"

definition precondition_check_move_section :: "heap \<Rightarrow> secref \<Rightarrow> check_result" where
  "precondition_check_move_section h s =
     (if sec_roomslots (hp_sec h s) = []
      then violated ''PreconditionConstraint'' ''Section isn't scheduled'' else ok)"

definition precondition_check_unschedule_section :: "heap \<Rightarrow> secref \<Rightarrow> check_result" where
  "precondition_check_unschedule_section h s =
     (if sec_roomslots (hp_sec h s) = []
      then violated ''PreconditionConstraint'' ''Section isn't scheduled'' else ok)"

definition precondition_check_swap_sections :: "heap \<Rightarrow> secref \<Rightarrow> secref \<Rightarrow> check_result" where
  "precondition_check_swap_sections h s1 s2 =
     (if length (sec_roomslots (hp_sec h s1)) \<noteq> length (sec_roomslots (hp_sec h s2))
      then violated ''PreconditionConstraint'' ''Sections aren't assigned to the same number of roomslots''
      else if sec_roomslots (hp_sec h s1) = []
      then violated ''PreconditionConstraint'' ''Sections aren't scheduled'' else ok)"

subsection \<open>ResourceCriteriaConstraint\<close>

definition criteria_check_schedule_section ::
  "(string \<Rightarrow> string \<Rightarrow> bool) \<Rightarrow> criterion list \<Rightarrow> heap \<Rightarrow> secref \<Rightarrow> rsref \<Rightarrow> check_result" where
  "criteria_check_schedule_section re_match criteria h s start_roomslot =
     first_violation (\<lambda>c. if \<not> check_match re_match c h s (rs_room (hp_rs h start_roomslot))
         then violated ''ResourceCriteriaConstraint'' ''Violates resource criterion''
         else ok) criteria"

text \<open>
  \<open>check_swap_sections\<close> calls \<open>check_schedule_section\<close> without its \<open>schedule\<close>
  argument, so once its own argument is evaluated the call is a \<open>TypeError\<close>.
\<close>

definition criteria_check_swap_sections :: "heap \<Rightarrow> secref \<Rightarrow> secref \<Rightarrow> check_result" where
  "criteria_check_swap_sections h s1 s2 =
     rbind (py_first (sec_roomslots (hp_sec h s2))) (\<lambda>_. Inl TypeError)"

subsection \<open>RoomConcurrencyConstraint\<close>

definition room_concurrency_check_schedule_section :: "heap \<Rightarrow> secref \<Rightarrow> rsref \<Rightarrow> check_result" where
  "room_concurrency_check_schedule_section h s start_roomslot =
     (let rs = get_roomslots_by_duration h start_roomslot (sec_duration (hp_sec h s)) in
      if length rs = 0
      then violated ''RoomConcurrencyConstraint'' ''Section wouldn't be assigned any roomslots''
      else first_violation (\<lambda>r. if rs_section (hp_rs h r) \<noteq> None
             then violated ''RoomConcurrencyConstraint'' ''Room would be double-booked'' else ok) rs)"

definition room_concurrency_check_move_section :: "heap \<Rightarrow> secref \<Rightarrow> rsref \<Rightarrow> check_result" where
  "room_concurrency_check_move_section h s start_roomslot =
     (let rs = get_roomslots_by_duration h start_roomslot (sec_duration (hp_sec h s)) in
      if length rs = 0
      then violated ''RoomConcurrencyConstraint'' ''Section wouldn't be assigned any roomslots''
      else first_violation (\<lambda>r. if \<not> (rs_section (hp_rs h r) = None \<or> rs_section (hp_rs h r) = Some s)
             then violated ''RoomConcurrencyConstraint'' ''Room would be double-booked'' else ok) rs)"

subsection \<open>SectionDurationConstraint\<close>

definition duration_check_schedule :: "heap \<Rightarrow> 'c as_schedule \<Rightarrow> check_result" where
  "duration_check_schedule h sch =
     first_violation (\<lambda>s.
         let rs = sec_roomslots (hp_sec h s) in
         if length rs \<noteq> 0 \<and>
            \<bar>hours_difference (fst (rs_key h (hd rs))) (snd (rs_key h (last rs)))
              - sec_duration (hp_sec h s)\<bar> > DELTA_TIME
         then violated ''SectionDurationConstraint''
                ''Section {section.id} is scheduled for {scheduled_duration} hours but should be scheduled for {section.duration} hours''
         else ok)
       (dict_values (sch_sections sch))"

definition duration_check_schedule_section :: "heap \<Rightarrow> secref \<Rightarrow> rsref \<Rightarrow> check_result" where
  "duration_check_schedule_section h s start_roomslot =
     (let rs = get_roomslots_by_duration h start_roomslot (sec_duration (hp_sec h s)) in
      if length rs = 0
      then violated ''SectionDurationConstraint'' ''Section wouldn't receive any roomslots''
      else if \<bar>hours_difference (fst (rs_key h (hd rs))) (snd (rs_key h (last rs)))
                - sec_duration (hp_sec h s)\<bar> > DELTA_TIME
      then violated ''SectionDurationConstraint''
             ''Section would be scheduled for {scheduled_duration} hours instead of {section.duration}''
      else ok)"

subsection \<open>TeacherAvailabilityConstraint\<close>

definition available :: "heap \<Rightarrow> tref \<Rightarrow> times \<Rightarrow> bool" where
  "available h t tm = dict_has (t_avail_dict (hp_teacher h t)) tm"

definition availability_check_schedule :: "heap \<Rightarrow> 'c as_schedule \<Rightarrow> check_result" where
  "availability_check_schedule h sch =
     first_violation (\<lambda>t. first_violation (\<lambda>s. first_violation (\<lambda>r.
         if \<not> available h t (rs_key h r)
         then violated ''TeacherAvailabilityConstraint''
                ''User {teacher.id} is teaching from {start_time} to {end_time} but isn't available''
         else ok)
         (sec_roomslots (hp_sec h s)))
       (dict_values (t_taught (hp_teacher h t))))
       (dict_values (sch_teachers sch))"

definition availability_check_schedule_section :: "heap \<Rightarrow> secref \<Rightarrow> rsref \<Rightarrow> check_result" where
  "availability_check_schedule_section h s start_roomslot =
     (let rs = get_roomslots_by_duration h start_roomslot (sec_duration (hp_sec h s)) in
      first_violation (\<lambda>t. first_violation (\<lambda>r.
         if \<not> available h t (rs_key h r)
         then violated ''TeacherAvailabilityConstraint'' ''Teacher isn't available'' else ok) rs)
       (sec_teachers (hp_sec h s)))"

definition availability_check_move_section :: "heap \<Rightarrow> secref \<Rightarrow> rsref \<Rightarrow> check_result" where
  "availability_check_move_section h s start_roomslot =
     (let rs = get_roomslots_by_duration h start_roomslot (sec_duration (hp_sec h s));
          existing = rs_key h ` set (sec_roomslots (hp_sec h s)) in
      first_violation (\<lambda>t. first_violation (\<lambda>r.
         if \<not> available h t (rs_key h r) \<and> rs_key h r \<notin> existing
         then violated ''TeacherAvailabilityConstraint'' ''Teacher isn't available'' else ok) rs)
       (sec_teachers (hp_sec h s)))"

definition availability_check_swap_sections :: "heap \<Rightarrow> secref \<Rightarrow> secref \<Rightarrow> check_result" where
  "availability_check_swap_sections h s1 s2 =
     (let rs1 = sec_roomslots (hp_sec h s1); rs2 = sec_roomslots (hp_sec h s2);
          ts1 = rs_key h ` set rs1; ts2 = rs_key h ` set rs2 in
      cthen
        (first_violation (\<lambda>t. first_violation (\<lambda>r.
           if \<not> available h t (rs_key h r) \<and> rs_key h r \<notin> ts1
           then violated ''TeacherAvailabilityConstraint'' ''Teacher from first section won't be available''
           else ok) rs2) (sec_teachers (hp_sec h s1)))
        (first_violation (\<lambda>t. first_violation (\<lambda>r.
           if \<not> available h t (rs_key h r) \<and> rs_key h r \<notin> ts2
           then violated ''TeacherAvailabilityConstraint'' ''Teacher from second section won't be available''
           else ok) rs1) (sec_teachers (hp_sec h s2))))"

subsection \<open>TeacherConcurrencyConstraint\<close>

text \<open>The roomslots of all sections a teacher teaches, in the order the code visits them.\<close>

definition taught_roomslots :: "heap \<Rightarrow> tref \<Rightarrow> rsref list" where
  "taught_roomslots h t =
     concat (map (\<lambda>s. sec_roomslots (hp_sec h s)) (dict_values (t_taught (hp_teacher h t))))"

definition get_already_teaching_set :: "heap \<Rightarrow> tref \<Rightarrow> times set" where
  "get_already_teaching_set h t = rs_key h ` set (taught_roomslots h t)"

fun teaching_scan :: "times set \<Rightarrow> times list \<Rightarrow> check_result" where
  "teaching_scan already [] = ok"
| "teaching_scan already (tm # tms) =
     (if tm \<in> already
      then violated ''TeacherConcurrencyConstraint'' ''Teacher id {teacher.id} is teaching twice at once''
      else teaching_scan (insert tm already) tms)"

definition concurrency_check_schedule :: "heap \<Rightarrow> 'c as_schedule \<Rightarrow> check_result" where
  "concurrency_check_schedule h sch =
     first_violation (\<lambda>t. teaching_scan {} (map (rs_key h) (taught_roomslots h t)))
       (dict_values (sch_teachers sch))"

definition concurrency_check_schedule_section :: "heap \<Rightarrow> secref \<Rightarrow> rsref \<Rightarrow> check_result" where
  "concurrency_check_schedule_section h s start_roomslot =
     first_violation (\<lambda>t.
         let already_teaching = get_already_teaching_set h t in
         first_violation (\<lambda>r. if rs_key h r \<in> already_teaching
           then violated ''TeacherConcurrencyConstraint'' ''Teacher is already teaching'' else ok)
         (get_roomslots_by_duration h start_roomslot (sec_duration (hp_sec h s))))
       (sec_teachers (hp_sec h s))"

text \<open>\<open>set.remove\<close> raises when the element is not there.\<close>

fun remove_times :: "times set \<Rightarrow> times list \<Rightarrow> times set result" where
  "remove_times ts [] = Inr ts"
| "remove_times ts (tm # tms) = (if tm \<in> ts then remove_times (ts - {tm}) tms else Inl KeyError)"

definition concurrency_check_move_section :: "heap \<Rightarrow> secref \<Rightarrow> rsref \<Rightarrow> check_result" where
  "concurrency_check_move_section h s start_roomslot =
     first_violation (\<lambda>t.
         rbind (remove_times (get_already_teaching_set h t) (map (rs_key h) (sec_roomslots (hp_sec h s))))
         (\<lambda>already_teaching. first_violation (\<lambda>r. if rs_key h r \<in> already_teaching
           then violated ''TeacherConcurrencyConstraint'' ''Teacher is already teaching'' else ok)
         (get_roomslots_by_duration h start_roomslot (sec_duration (hp_sec h s)))))
       (sec_teachers (hp_sec h s))"

definition concurrency_check_swap_sections :: "heap \<Rightarrow> secref \<Rightarrow> secref \<Rightarrow> check_result" where
  "concurrency_check_swap_sections h s1 s2 =
     (let rs1 = sec_roomslots (hp_sec h s1); rs2 = sec_roomslots (hp_sec h s2);
          ts1 = rs_key h ` set rs1; ts2 = rs_key h ` set rs2 in
      cthen
        (first_violation (\<lambda>t. first_violation (\<lambda>r.
           if rs_key h r \<in> get_already_teaching_set h t \<and> rs_key h r \<notin> ts1
           then violated ''TeacherConcurrencyConstraint'' ''Teacher in first section is already teaching''
           else ok) rs2) (sec_teachers (hp_sec h s1)))
        (first_violation (\<lambda>t. first_violation (\<lambda>r.
           if rs_key h r \<in> get_already_teaching_set h t \<and> rs_key h r \<notin> ts2
           then violated ''TeacherConcurrencyConstraint'' ''Teacher in second section is already teaching''
           else ok) rs1) (sec_teachers (hp_sec h s2))))"

subsection \<open>Dispatch\<close>

fun check_schedule :: "constraint \<Rightarrow> heap \<Rightarrow> 'c as_schedule \<Rightarrow> check_result" where
  "check_schedule ContiguousConstraint h sch = contiguous_check_schedule h sch"
| "check_schedule LunchConstraint h sch = lunch_check_schedule h sch"
| "check_schedule PreconditionConstraint h sch = ok"
| "check_schedule (ResourceCriteriaConstraint cs) h sch = ok"
| "check_schedule RoomAvailabilityConstraint h sch = ok"
| "check_schedule RoomConcurrencyConstraint h sch = ok"
| "check_schedule SectionDurationConstraint h sch = duration_check_schedule h sch"
| "check_schedule TeacherAvailabilityConstraint h sch = availability_check_schedule h sch"
| "check_schedule TeacherConcurrencyConstraint h sch = concurrency_check_schedule h sch"

fun check_schedule_section ::
  "(string \<Rightarrow> string \<Rightarrow> bool) \<Rightarrow> constraint \<Rightarrow> heap \<Rightarrow> 'c as_schedule \<Rightarrow> secref \<Rightarrow> rsref \<Rightarrow> check_result" where
  "check_schedule_section re_match ContiguousConstraint h sch s r = contiguous_check_schedule_section h s r"
| "check_schedule_section re_match LunchConstraint h sch s r = lunch_check_schedule_section h sch s r"
| "check_schedule_section re_match PreconditionConstraint h sch s r = precondition_check_schedule_section h s"
| "check_schedule_section re_match (ResourceCriteriaConstraint cs) h sch s r =
     criteria_check_schedule_section re_match cs h s r"
| "check_schedule_section re_match RoomAvailabilityConstraint h sch s r = ok"
| "check_schedule_section re_match RoomConcurrencyConstraint h sch s r =
     room_concurrency_check_schedule_section h s r"
| "check_schedule_section re_match SectionDurationConstraint h sch s r = duration_check_schedule_section h s r"
| "check_schedule_section re_match TeacherAvailabilityConstraint h sch s r =
     availability_check_schedule_section h s r"
| "check_schedule_section re_match TeacherConcurrencyConstraint h sch s r =
     concurrency_check_schedule_section h s r"

fun check_move_section ::
  "(string \<Rightarrow> string \<Rightarrow> bool) \<Rightarrow> constraint \<Rightarrow> heap \<Rightarrow> 'c as_schedule \<Rightarrow> secref \<Rightarrow> rsref \<Rightarrow> check_result" where
  "check_move_section re_match ContiguousConstraint h sch s r = contiguous_check_schedule_section h s r"
| "check_move_section re_match LunchConstraint h sch s r = lunch_check_schedule_section h sch s r"
| "check_move_section re_match PreconditionConstraint h sch s r = precondition_check_move_section h s"
| "check_move_section re_match (ResourceCriteriaConstraint cs) h sch s r =
     criteria_check_schedule_section re_match cs h s r"
| "check_move_section re_match RoomAvailabilityConstraint h sch s r = ok"
| "check_move_section re_match RoomConcurrencyConstraint h sch s r = room_concurrency_check_move_section h s r"
| "check_move_section re_match SectionDurationConstraint h sch s r = duration_check_schedule_section h s r"
| "check_move_section re_match TeacherAvailabilityConstraint h sch s r = availability_check_move_section h s r"
| "check_move_section re_match TeacherConcurrencyConstraint h sch s r = concurrency_check_move_section h s r"

fun check_unschedule_section :: "constraint \<Rightarrow> heap \<Rightarrow> 'c as_schedule \<Rightarrow> secref \<Rightarrow> check_result" where
  "check_unschedule_section PreconditionConstraint h sch s = precondition_check_unschedule_section h s"
| "check_unschedule_section _ h sch s = ok"

fun check_swap_sections :: "constraint \<Rightarrow> heap \<Rightarrow> 'c as_schedule \<Rightarrow> secref \<Rightarrow> secref \<Rightarrow> check_result" where
  "check_swap_sections PreconditionConstraint h sch s1 s2 = precondition_check_swap_sections h s1 s2"
| "check_swap_sections (ResourceCriteriaConstraint cs) h sch s1 s2 = criteria_check_swap_sections h s1 s2"
| "check_swap_sections TeacherAvailabilityConstraint h sch s1 s2 = availability_check_swap_sections h s1 s2"
| "check_swap_sections TeacherConcurrencyConstraint h sch s1 s2 = concurrency_check_swap_sections h s1 s2"
| "check_swap_sections _ h sch s1 s2 = ok"

subsection \<open>CompositeConstraint\<close>

definition all_constraint_classes :: "criterion list \<Rightarrow> (string \<times> constraint) list" where
  "all_constraint_classes resource_criteria =
     [(''ContiguousConstraint'', ContiguousConstraint),
      (''LunchConstraint'', LunchConstraint),
      (''PreconditionConstraint'', PreconditionConstraint),
      (''ResourceCriteriaConstraint'', ResourceCriteriaConstraint resource_criteria),
      (''RoomAvailabilityConstraint'', RoomAvailabilityConstraint),
      (''RoomConcurrencyConstraint'', RoomConcurrencyConstraint),
      (''SectionDurationConstraint'', SectionDurationConstraint),
      (''TeacherAvailabilityConstraint'', TeacherAvailabilityConstraint),
      (''TeacherConcurrencyConstraint'', TeacherConcurrencyConstraint)]"

fun required :: "constraint \<Rightarrow> bool" where
  "required LunchConstraint = False"
| "required (ResourceCriteriaConstraint _) = False"
| "required _ = True"

definition get_required_constraint_names :: "string list" where
  "get_required_constraint_names = map fst (filter (\<lambda>(n, c). required c) (all_constraint_classes []))"

definition get_optional_constraint_names :: "string list" where
  "get_optional_constraint_names = map fst (filter (\<lambda>(n, c). \<not> required c) (all_constraint_classes []))"

datatype constraint_names = AllConstraints | ConstraintNames "string list"

definition CompositeConstraint_init :: "constraint_names \<Rightarrow> criterion list \<Rightarrow> constraint list result" where
  "CompositeConstraint_init names resource_criteria =
     (let available_constraints = all_constraint_classes resource_criteria;
          constraints_to_use = (case names of
              AllConstraints \<Rightarrow> map fst available_constraints
            | ConstraintNames ns \<Rightarrow> remdups (ns @ get_required_constraint_names))
      in rmap (dict_get available_constraints) constraints_to_use)"

definition composite_check_schedule :: "constraint list \<Rightarrow> heap \<Rightarrow> 'c as_schedule \<Rightarrow> check_result" where
  "composite_check_schedule cs h sch = first_violation (\<lambda>c. check_schedule c h sch) cs"

definition composite_check_schedule_section ::
  "(string \<Rightarrow> string \<Rightarrow> bool) \<Rightarrow> constraint list \<Rightarrow> heap \<Rightarrow> 'c as_schedule \<Rightarrow> secref \<Rightarrow> rsref \<Rightarrow> check_result" where
  "composite_check_schedule_section re_match cs h sch s r =
     first_violation (\<lambda>c. check_schedule_section re_match c h sch s r) cs"

definition composite_check_move_section ::
  "(string \<Rightarrow> string \<Rightarrow> bool) \<Rightarrow> constraint list \<Rightarrow> heap \<Rightarrow> 'c as_schedule \<Rightarrow> secref \<Rightarrow> rsref \<Rightarrow> check_result" where
  "composite_check_move_section re_match cs h sch s r =
     first_violation (\<lambda>c. check_move_section re_match c h sch s r) cs"

definition composite_check_unschedule_section ::
  "constraint list \<Rightarrow> heap \<Rightarrow> 'c as_schedule \<Rightarrow> secref \<Rightarrow> check_result" where
  "composite_check_unschedule_section cs h sch s =
     first_violation (\<lambda>c. check_unschedule_section c h sch s) cs"

definition composite_check_swap_sections ::
  "constraint list \<Rightarrow> heap \<Rightarrow> 'c as_schedule \<Rightarrow> secref \<Rightarrow> secref \<Rightarrow> check_result" where
  "composite_check_swap_sections cs h sch s1 s2 =
     first_violation (\<lambda>c. check_swap_sections c h sch s1 s2) cs"

subsection \<open>When a check passes\<close>

lemma violated_neq_ok [simp]: "violated n r \<noteq> ok" "violated n r \<noteq> Inr None" "ok \<noteq> violated n r"
  by (simp_all add: violated_def ok_def)

lemma ok_iff [simp]: "(ok = Inr None) = True"
  by (simp add: ok_def)

lemma cthen_ok_iff [check_iff]: "cthen a b = ok \<longleftrightarrow> a = ok \<and> b = ok"
  by (auto simp: cthen_def ok_def split: sum.splits option.splits)

lemma first_violation_ok_iff [check_iff]: "first_violation f xs = ok \<longleftrightarrow> (\<forall>x\<in>set xs. f x = ok)"
  by (induction xs) (auto simp: cthen_ok_iff)

lemma if_violated_ok_iff [check_iff]: "(if c then violated n r else x) = ok \<longleftrightarrow> \<not> c \<and> x = ok"
  by auto

text \<open>The order of the constraints does not decide whether all of them are satisfied.\<close>

lemma composite_set:
  "composite_check_schedule cs h sch = ok \<longleftrightarrow> (\<forall>c\<in>set cs. check_schedule c h sch = ok)"
  "composite_check_schedule_section re_match cs h sch s r = ok \<longleftrightarrow>
     (\<forall>c\<in>set cs. check_schedule_section re_match c h sch s r = ok)"
  "composite_check_move_section re_match cs h sch s r = ok \<longleftrightarrow>
     (\<forall>c\<in>set cs. check_move_section re_match c h sch s r = ok)"
  "composite_check_unschedule_section cs h sch s = ok \<longleftrightarrow>
     (\<forall>c\<in>set cs. check_unschedule_section c h sch s = ok)"
  "composite_check_swap_sections cs h sch s s2 = ok \<longleftrightarrow>
     (\<forall>c\<in>set cs. check_swap_sections c h sch s s2 = ok)"
  by (simp_all add: composite_check_schedule_def composite_check_schedule_section_def
      composite_check_move_section_def composite_check_unschedule_section_def
      composite_check_swap_sections_def first_violation_ok_iff)

text \<open>Every composite constraint holds all required ones.\<close>

lemma required_names:
  "get_required_constraint_names =
     [''ContiguousConstraint'', ''PreconditionConstraint'', ''RoomAvailabilityConstraint'',
      ''RoomConcurrencyConstraint'', ''SectionDurationConstraint'',
      ''TeacherAvailabilityConstraint'', ''TeacherConcurrencyConstraint'']"
  by (simp add: get_required_constraint_names_def all_constraint_classes_def)

lemma rmap_Inr_set: "rmap f xs = Inr ys \<Longrightarrow> set ys = {y. \<exists>x\<in>set xs. f x = Inr y}"
  by (induction xs arbitrary: ys) (auto simp: rbind_Inr_iff)

lemma composite_required:
  assumes "CompositeConstraint_init names criteria = Inr cs" and "required c"
  shows "c \<in> set cs"
proof -
  define ns where "ns = (case names of AllConstraints \<Rightarrow> map fst (all_constraint_classes criteria)
      | ConstraintNames ns \<Rightarrow> remdups (ns @ get_required_constraint_names))"
  have cs: "rmap (dict_get (all_constraint_classes criteria)) ns = Inr cs"
    using assms(1) by (simp add: CompositeConstraint_init_def ns_def Let_def)
  have "set get_required_constraint_names \<subseteq> set ns"
    by (cases names) (auto simp: ns_def required_names all_constraint_classes_def)
  moreover have "\<exists>n\<in>set get_required_constraint_names. dict_get (all_constraint_classes criteria) n = Inr c"
    using assms(2)
    by (cases c) (simp_all add: required_names all_constraint_classes_def dict_get_def)
  ultimately show ?thesis using rmap_Inr_set [OF cs] by blast
qed

lemma composite_names_total:
  "set ns \<subseteq> set (map fst (all_constraint_classes criteria)) \<Longrightarrow>
   \<exists>cs. CompositeConstraint_init (ConstraintNames ns) criteria = Inr cs"
proof -
  assume a: "set ns \<subseteq> set (map fst (all_constraint_classes criteria))"
  have "\<exists>cs. rmap (dict_get d) ks = Inr cs" if "set ks \<subseteq> fst ` set d" for ks :: "string list" and d :: "(string, constraint) dict"
    using that
  proof (induction ks)
    case (Cons k ks)
    then obtain v where "map_of d k = Some v" by (metis domIff dom_map_of_conv_image_fst
          insert_subset list.simps(15) not_Some_eq)
    with Cons show ?case by (auto simp: dict_get_def)
  qed simp
  moreover have "set (remdups (ns @ get_required_constraint_names)) \<subseteq> fst ` set (all_constraint_classes criteria)"
    using a by (auto simp: required_names all_constraint_classes_def)
  ultimately show ?thesis by (simp add: CompositeConstraint_init_def Let_def)
qed

end
