(* ===== verification/Consistency.thy ===== *)
theory Consistency
  imports Placement
begin

section \<open>Consistency checks (autoscheduler/consistency\_checks.py)\<close>

text \<open>
  The twelve checks of \<open>ConsistencyChecker\<close>, in the alphabetical order in which
  \<open>run_all_consistency_checks\<close> runs them, each followed by the equivalence (in
  \<open>check_iff\<close>) between passing and what it checks. One of them calls \<open>index\<close> and
  \<open>next\<close> and so fills their caches; it returns the store. The checks that go through a
  Python set test its members all at once: which of several errors is raised depends on
  the iteration order of the set and is not modelled.
\<close>

definition adjacent :: "'a list \<Rightarrow> ('a \<times> 'a) list" where
  "adjacent xs = zip xs (tl xs)"

lemma adjacent_simps [simp]:
  "adjacent [] = []" "adjacent [x] = []" "adjacent (x # y # ys) = (x, y) # adjacent (y # ys)"
  by (simp_all add: adjacent_def)

lemma adjacent_sorted_wrt:
  assumes "transp P"
  shows "(\<forall>(x, y)\<in>set (adjacent xs). P x y) \<longleftrightarrow> sorted_wrt P xs"
proof (induction xs rule: induct_list012)
  case (3 x y ys)
  have "sorted_wrt P (x # y # ys) \<longleftrightarrow> P x y \<and> sorted_wrt P (y # ys)"
    using assms by (rule sorted_wrt2)
  with 3 show ?case by simp
qed simp_all

definition cerror :: "bool \<Rightarrow> string \<Rightarrow> unit result" where
  "cerror c msg = raise_if c (ConsistencyError msg)"

lemma cerror_iff [check_iff]: "cerror c msg = Inr u \<longleftrightarrow> \<not> c"
  by (simp add: cerror_def check_iff)

definition ts_gt :: "heap \<Rightarrow> tsref \<Rightarrow> tsref \<Rightarrow> bool" where
  "ts_gt h a b \<longleftrightarrow> \<not> ts_lt h a b \<and> \<not> ts_eq h a b"

text \<open>
  \<open>t in timeslots and t is timeslots[timeslots.index(t)]\<close>: the first timeslot equal to
  \<open>t\<close> is \<open>t\<close> itself.
\<close>

definition registered :: "heap \<Rightarrow> 'c as_schedule \<Rightarrow> tsref \<Rightarrow> bool" where
  "registered h sch t = (find (ts_eq h t) (sch_timeslots sch) = Some t)"

subsection \<open>The checks\<close>

definition check_availability_dict_consistency :: "heap \<Rightarrow> 'c as_schedule \<Rightarrow> unit result" where
  "check_availability_dict_consistency h sch =
     rbind (rforeach (\<lambda>room.
         rbind (rforeach (\<lambda>(time, roomslot).
             cerror (time \<noteq> rs_key h roomslot) ''Room availability dict key/value mismatch for room {room.name}'')
           (room_avail_dict (hp_room h room))) (\<lambda>_.
         cerror (set (room_availability (hp_room h room)) \<noteq> set (dict_values (room_avail_dict (hp_room h room))))
           ''Room {room.name} availability list and dict don't match''))
       (dict_values (sch_classrooms sch))) (\<lambda>_.
     rforeach (\<lambda>teacher.
         rbind (rforeach (\<lambda>(time, timeslot).
             cerror (time \<noteq> ts_key h timeslot) ''Teacher availability dict key/value mismatch for teacher {teacher.id}'')
           (t_avail_dict (hp_teacher h teacher))) (\<lambda>_.
         cerror (set (map (\<lambda>t. ts_id (hp_ts h t)) (t_availability (hp_teacher h teacher)))
                 \<noteq> set (map (\<lambda>t. ts_id (hp_ts h t)) (dict_values (t_avail_dict (hp_teacher h teacher)))))
           ''Teacher {teacher.id} availability list and dict don't match''))
       (dict_values (sch_teachers sch)))"

definition check_lunch_consistency :: "heap \<Rightarrow> 'c as_schedule \<Rightarrow> unit result" where
  "check_lunch_consistency h sch =
     rforeach (\<lambda>(day, slots).
         rbind (rforeach (\<lambda>(timeslot1, timeslot2).
             rbind (cerror (ts_eq h timeslot1 timeslot2) ''Duplicate lunch timeslots detected.'') (\<lambda>_.
             rbind (cerror (ts_gt h timeslot1 timeslot2) ''Lunch timeslots weren't sorted.'') (\<lambda>_.
             cerror (ts_end (hp_ts h timeslot1) > ts_start (hp_ts h timeslot2)) ''Lunch timeslots are overlapping.'')))
           (adjacent slots)) (\<lambda>_.
         rforeach (\<lambda>timeslot.
             rbind (cerror (date_of (ts_start (hp_ts h timeslot)) \<noteq> day) ''Incorrect mapping of slots in lunch.'') (\<lambda>_.
             cerror (\<not> registered h sch timeslot) ''Lunch timeslot isn't registered''))
           slots))
       (sch_lunch sch)"

definition check_resource_dict_consistency :: "heap \<Rightarrow> 'c as_schedule \<Rightarrow> unit result" where
  "check_resource_dict_consistency h sch =
     rbind (rforeach (\<lambda>section. rforeach (\<lambda>(restype_name, request).
             cerror (rt_name request \<noteq> restype_name)
               ''Section {section.id} had request {request.name} listed under name {restype_name}'')
           (sec_requests (hp_sec h section)))
       (dict_values (sch_sections sch))) (\<lambda>_.
     rforeach (\<lambda>room. rforeach (\<lambda>(restype_name, furnishing).
             cerror (rt_name furnishing \<noteq> restype_name)
               ''Room {room.name} had furnishing {furnishing.name} listed under name {restype_name}'')
           (room_furnishings (hp_room h room)))
       (dict_values (sch_classrooms sch)))"

definition check_next_and_index_step ::
  "rsref list \<Rightarrow> heap \<Rightarrow> nat \<times> rsref \<Rightarrow> heap result" where
  "check_next_and_index_step av = (\<lambda>h (i, roomslot).
     rbind (index_load h roomslot) (\<lambda>(idx, h1).
     rbind (cerror (i \<noteq> idx) ''Roomslot index for room {room.name} was wrong'') (\<lambda>_.
     rbind (next_load h1 roomslot) (\<lambda>(nx, h2).
     rbind (if int i < int (length av) - 1
            then cerror (nx \<noteq> Some (av ! (i + 1))) ''Roomslot next for room {room.name} was wrong.''
            else cerror (nx \<noteq> None) ''Last roomslot next for room {room.name} was not None.'')
     (\<lambda>_. Inr h2)))))"

definition check_roomslot_next_and_index_consistency :: "heap \<Rightarrow> 'c as_schedule \<Rightarrow> heap result" where
  "check_roomslot_next_and_index_consistency h sch =
     rfold (\<lambda>h room.
         let av = room_availability (hp_room h room)
         in rfold (check_next_and_index_step av) h (enumerate 0 av))
       h (dict_values (sch_classrooms sch))"

definition existing_roomslots :: "heap \<Rightarrow> 'c as_schedule \<Rightarrow> rsref set" where
  "existing_roomslots h sch =
     (\<Union>room\<in>set (dict_values (sch_classrooms sch)). set (room_availability (hp_room h room))) \<union>
     (\<Union>section\<in>set (dict_values (sch_sections sch)). set (sec_roomslots (hp_sec h section))) \<union>
     (\<Union>timeslot\<in>set (sch_timeslots sch). ts_roomslots (hp_ts h timeslot))"

definition check_roomslots_consistency :: "heap \<Rightarrow> 'c as_schedule \<Rightarrow> unit result" where
  "check_roomslots_consistency h sch =
     rbind (rforeach (\<lambda>room. rforeach (\<lambda>roomslot.
             cerror (rs_room (hp_rs h roomslot) \<noteq> room) ''Room and roomslot were inconsistent'')
           (room_availability (hp_room h room)))
       (dict_values (sch_classrooms sch))) (\<lambda>_.
     rbind (rforeach (\<lambda>section. rforeach (\<lambda>roomslot.
             cerror (rs_section (hp_rs h roomslot) \<noteq> Some section) ''Section and roomslot were inconsistent'')
           (sec_roomslots (hp_sec h section)))
       (dict_values (sch_sections sch))) (\<lambda>_.
     rbind (rforeach (\<lambda>timeslot.
             cerror (\<exists>roomslot\<in>ts_roomslots (hp_ts h timeslot). rs_timeslot (hp_rs h roomslot) \<noteq> timeslot)
               ''Timeslot and roomslot were inconsistent'')
       (sch_timeslots sch)) (\<lambda>_.
     let existing = existing_roomslots h sch in
     rbind (cerror (\<exists>r\<in>existing. \<not> registered h sch (rs_timeslot (hp_rs h r)))
       ''Event's timeslot wasn't registered'') (\<lambda>_.
     rbind (cerror (\<exists>r\<in>existing. r \<notin> ts_roomslots (hp_ts h (rs_timeslot (hp_rs h r))))
       ''Event wasn't in timeslots's associated roomslots'') (\<lambda>_.
     rbind (cerror (\<exists>r\<in>existing. \<not> dict_has (sch_classrooms sch) (room_name (hp_room h (rs_room (hp_rs h r)))))
       ''Event's room wasn't registered'') (\<lambda>_.
     rbind (cerror (\<exists>r\<in>existing. r \<notin> set (room_availability (hp_room h (rs_room (hp_rs h r)))))
       ''Event wasn't in room's availability'') (\<lambda>_.
     rbind (cerror (\<exists>r\<in>existing. case rs_section (hp_rs h r) of None \<Rightarrow> False
                      | Some s \<Rightarrow> \<not> dict_has (sch_sections sch) (sec_id (hp_sec h s)))
       ''Event had an unregistered section'') (\<lambda>_.
     cerror (\<exists>r\<in>existing. case rs_section (hp_rs h r) of None \<Rightarrow> False
               | Some s \<Rightarrow> r \<notin> set (sec_roomslots (hp_sec h s)))
       ''Event wasn't in section's assigned roomslots''))))))))"

definition roomslot_sorting_helper :: "heap \<Rightarrow> rsref list \<Rightarrow> bool" where
  "roomslot_sorting_helper h roomslots =
     list_all (\<lambda>(rs1, rs2). ts_lt h (rs_timeslot (hp_rs h rs1)) (rs_timeslot (hp_rs h rs2)))
       (adjacent roomslots)"

definition check_schedule_dicts_consistency :: "heap \<Rightarrow> 'c as_schedule \<Rightarrow> unit result" where
  "check_schedule_dicts_consistency h sch =
     rbind (rforeach (\<lambda>(section_id, section).
         cerror (sec_id (hp_sec h section) \<noteq> section_id) ''Section {section.id} was listed under id {section_id}'')
       (sch_sections sch)) (\<lambda>_.
     rbind (rforeach (\<lambda>(teacher_id, teacher).
         cerror (t_id (hp_teacher h teacher) \<noteq> teacher_id) ''Teacher {teacher.id} was listed under id {teacher_id}'')
       (sch_teachers sch)) (\<lambda>_.
     rforeach (\<lambda>(name, room).
         cerror (room_name (hp_room h room) \<noteq> name) ''Room {room.name} was listed under name {room_name}'')
       (sch_classrooms sch)))"

definition check_sorting_consistency :: "heap \<Rightarrow> 'c as_schedule \<Rightarrow> unit result" where
  "check_sorting_consistency h sch =
     rbind (rforeach (\<lambda>section.
         cerror (\<not> roomslot_sorting_helper h (sec_roomslots (hp_sec h section)))
           ''Section assigned roomslots weren't sorted.'')
       (dict_values (sch_sections sch))) (\<lambda>_.
     rbind (rforeach (\<lambda>room.
         cerror (\<not> roomslot_sorting_helper h (room_availability (hp_room h room)))
           ''Classroom availability wasn't sorted.'')
       (dict_values (sch_classrooms sch))) (\<lambda>_.
     rforeach (\<lambda>teacher.
         cerror (\<not> list_all (\<lambda>(t1, t2). ts_lt h t1 t2) (adjacent (t_availability (hp_teacher h teacher))))
           ''Teacher availability wasn't sorted.'')
       (dict_values (sch_teachers sch))))"

definition check_teacher_taught_sections_consistency :: "heap \<Rightarrow> 'c as_schedule \<Rightarrow> unit result" where
  "check_teacher_taught_sections_consistency h sch =
     rbind (rforeach (\<lambda>teacher. rforeach (\<lambda>(section_id, section).
             rbind (cerror (section_id \<noteq> sec_id (hp_sec h section))
               ''Teacher {teacher.id} taught_sections had key/value mismatch'') (\<lambda>_.
             cerror (teacher \<notin> set (sec_teachers (hp_sec h section)))
               ''Teacher {teacher.id} taught_sections listed a section the teacher wasn't teaching''))
           (t_taught (hp_teacher h teacher)))
       (dict_values (sch_teachers sch))) (\<lambda>_.
     rforeach (\<lambda>section. rforeach (\<lambda>teacher.
             cerror (\<not> dict_has (t_taught (hp_teacher h teacher)) (sec_id (hp_sec h section)))
               ''Teacher {teacher.id} is teaching section {section.id} but didn't know it'')
           (sec_teachers (hp_sec h section)))
       (dict_values (sch_sections sch)))"

definition check_timeslot_consistency :: "heap \<Rightarrow> 'c as_schedule \<Rightarrow> unit result" where
  "check_timeslot_consistency h sch =
     rforeach (\<lambda>(timeslot1, timeslot2).
         rbind (cerror (ts_eq h timeslot1 timeslot2) ''Duplicate timeslots detected.'') (\<lambda>_.
         rbind (cerror (ts_gt h timeslot1 timeslot2) ''Timeslots weren't sorted.'') (\<lambda>_.
         cerror (ts_end (hp_ts h timeslot1) > ts_start (hp_ts h timeslot2)) ''Timeslots are overlapping.'')))
       (adjacent (sch_timeslots sch))"

definition check_timeslot_duration_consistency :: "heap \<Rightarrow> 'c as_schedule \<Rightarrow> unit result" where
  "check_timeslot_duration_consistency h sch =
     rforeach (\<lambda>timeslot.
         let actual_duration = hours_difference (ts_start (hp_ts h timeslot)) (ts_end (hp_ts h timeslot)) in
         cerror (\<bar>ts_duration (hp_ts h timeslot) - actual_duration\<bar> > 1 / 10000)
           ''Timeslot actual duration {actual_duration} didn't match advertised {timeslot.duration}'')
       (sch_timeslots sch)"

definition check_timeslot_span_consistency :: "heap \<Rightarrow> 'c as_schedule \<Rightarrow> unit result" where
  "check_timeslot_span_consistency h sch =
     rforeach (\<lambda>timeslot.
         cerror (date_of (ts_start (hp_ts h timeslot)) \<noteq> date_of (ts_end (hp_ts h timeslot)))
           ''Timeslot ({start}, {end}) spans multiple days'')
       (sch_timeslots sch)"

definition check_timeslots_list_and_dict_consistency :: "heap \<Rightarrow> 'c as_schedule \<Rightarrow> unit result" where
  "check_timeslots_list_and_dict_consistency h sch =
     rbind (rfold (\<lambda>visited timeslot.
         rbind (cerror (\<not> dict_has (sch_timeslot_dict sch) (ts_key h timeslot)) ''Timeslot in list was missing from dict'')
         (\<lambda>_. Inr (AList.update (ts_key h timeslot) True visited)))
       (map (\<lambda>times. (times, False)) (dict_keys (sch_timeslot_dict sch))) (sch_timeslots sch)) (\<lambda>visited.
     rforeach (\<lambda>times.
         rbind (dict_get visited times) (\<lambda>v.
         rbind (cerror (\<not> v) ''Timeslot in dict was missing from list'') (\<lambda>_.
         rbind (dict_get (sch_timeslot_dict sch) times) (\<lambda>timeslot.
         cerror (ts_key h timeslot \<noteq> times) ''Timeslot didn't match key in dict''))))
       (dict_keys (sch_timeslot_dict sch)))"

definition run_all_consistency_checks :: "heap \<Rightarrow> 'c as_schedule \<Rightarrow> heap result" where
  "run_all_consistency_checks h sch =
     rbind (check_availability_dict_consistency h sch) (\<lambda>_.
     rbind (check_lunch_consistency h sch) (\<lambda>_.
     rbind (check_resource_dict_consistency h sch) (\<lambda>_.
     rbind (check_roomslot_next_and_index_consistency h sch) (\<lambda>h1.
     rbind (check_roomslots_consistency h1 sch) (\<lambda>_.
     rbind (check_schedule_dicts_consistency h1 sch) (\<lambda>_.
     rbind (check_sorting_consistency h1 sch) (\<lambda>_.
     rbind (check_teacher_taught_sections_consistency h1 sch) (\<lambda>_.
     rbind (check_timeslot_consistency h1 sch) (\<lambda>_.
     rbind (check_timeslot_duration_consistency h1 sch) (\<lambda>_.
     rbind (check_timeslot_span_consistency h1 sch) (\<lambda>_.
     rbind (check_timeslots_list_and_dict_consistency h1 sch) (\<lambda>_.
     Inr h1))))))))))))"

subsection \<open>Loading the caches changes no answer\<close>

definition cache_equiv :: "heap \<Rightarrow> heap \<Rightarrow> bool" where
  "cache_equiv h h' \<longleftrightarrow>
     same_but_caches h h' \<and> roomslot_index h' = roomslot_index h \<and> roomslot_next h' = roomslot_next h"

lemma cache_equiv_refl [simp, intro]: "cache_equiv h h"
  by (simp add: cache_equiv_def)

lemma cache_equiv_trans [trans]: "cache_equiv h h' \<Longrightarrow> cache_equiv h' h'' \<Longrightarrow> cache_equiv h h''"
  by (auto simp: cache_equiv_def intro: same_but_caches_trans)

lemma index_load_equiv: "index_load h r = Inr (i, h') \<Longrightarrow> cache_equiv h h'"
  by (simp add: cache_equiv_def fun_eq_iff index_load_frame index_load_index index_load_next)

lemma next_load_equiv: "next_load h r = Inr (n, h') \<Longrightarrow> cache_equiv h h'"
  by (simp add: cache_equiv_def fun_eq_iff next_load_frame next_load_index next_load_next)

lemma index_load_total: "roomslot_index h r = Inr i \<Longrightarrow> \<exists>h'. index_load h r = Inr (i, h')"
  by (simp add: index_load_def)

lemma next_load_total:
  assumes "roomslot_next h r = Inr n"
  shows "\<exists>h'. next_load h r = Inr (n, h')"
  using assms
  by (auto simp: roomslot_next_def next_load_def rbind_Inr_iff index_load_def Let_def split: if_splits)

lemma rfold_read_only:
  assumes step: "\<And>s x. (\<exists>t. f s x = Inr t) \<longleftrightarrow> Q s x"
    and rel: "\<And>s x t. f s x = Inr t \<Longrightarrow> R s t"
    and inv: "\<And>s t x. R s t \<Longrightarrow> Q t x = Q s x"
    and refl: "\<And>s. R s s" and trans: "\<And>s t u. R s t \<Longrightarrow> R t u \<Longrightarrow> R s u"
  shows "(\<exists>t. rfold f s xs = Inr t) \<longleftrightarrow> (\<forall>x\<in>set xs. Q s x)"
    and "rfold f s xs = Inr t \<Longrightarrow> R s t"
proof -
  show "rfold f s xs = Inr t \<Longrightarrow> R s t"
  proof (induction xs arbitrary: s)
    case (Cons x xs)
    then obtain u where "f s x = Inr u" "rfold f u xs = Inr t" by (auto simp: rbind_Inr_iff)
    with Cons.IH rel trans show ?case by blast
  qed (simp add: refl)
  show "(\<exists>t. rfold f s xs = Inr t) \<longleftrightarrow> (\<forall>x\<in>set xs. Q s x)"
  proof (induction xs arbitrary: s)
    case (Cons x xs)
    show ?case
    proof (cases "f s x")
      case (Inr u)
      then have "Q s x" using step by blast
      with Inr Cons.IH [of u] inv [OF rel [OF Inr]] show ?thesis by simp
    next
      case (Inl e)
      then have "\<not> Q s x" by (metis Inl_Inr_False step)
      with Inl show ?thesis by simp
    qed
  qed simp
qed

definition next_index_ok :: "heap \<Rightarrow> rsref list \<Rightarrow> nat \<times> rsref \<Rightarrow> bool" where
  "next_index_ok h av = (\<lambda>(i, r). roomslot_index h r = Inr i \<and>
     roomslot_next h r = Inr (if Suc i < length av then Some (av ! Suc i) else None))"

lemma next_and_index_step_equiv: "check_next_and_index_step av h p = Inr h' \<Longrightarrow> cache_equiv h h'"
  by (auto simp: check_next_and_index_step_def rbind_Inr_iff split: prod.splits
      dest!: index_load_equiv next_load_equiv intro: cache_equiv_trans)

lemma next_and_index_step_iff:
  "(\<exists>h'. check_next_and_index_step av h p = Inr h') \<longleftrightarrow> next_index_ok h av p"
proof -
  obtain i r where p: "p = (i, r)" by (cases p)
  have len: "int i < int (length av) - 1 \<longleftrightarrow> Suc i < length av" by linarith
  show ?thesis
  proof
    assume "\<exists>h'. check_next_and_index_step av h p = Inr h'"
    then obtain h1 n h2 where "index_load h r = Inr (i, h1)" "next_load h1 r = Inr (n, h2)"
      "n = (if Suc i < length av then Some (av ! Suc i) else None)"
      by (auto simp: check_next_and_index_step_def p check_iff len split: if_splits)
    then show "next_index_ok h av p"
      using next_load_frame(2) index_load_next index_load_frame(2)
      by (fastforce simp: next_index_ok_def p)
  next
    assume ok: "next_index_ok h av p"
    then obtain h1 where 1: "index_load h r = Inr (i, h1)"
      using index_load_total by (force simp: next_index_ok_def p)
    moreover have "roomslot_next h1 r = Inr (if Suc i < length av then Some (av ! Suc i) else None)"
      using ok index_load_next [OF 1] by (simp add: next_index_ok_def p)
    then obtain h2 where
      "next_load h1 r = Inr (if Suc i < length av then Some (av ! Suc i) else None, h2)"
      using next_load_total by blast
    ultimately show "\<exists>h'. check_next_and_index_step av h p = Inr h'"
      by (auto simp: check_next_and_index_step_def p check_iff len)
  qed
qed

lemma next_index_ok_equiv: "cache_equiv h h' \<Longrightarrow> next_index_ok h' av p = next_index_ok h av p"
  by (auto simp: next_index_ok_def cache_equiv_def)

lemmas next_and_index_fold = rfold_read_only [where R = cache_equiv,
    OF next_and_index_step_iff next_and_index_step_equiv next_index_ok_equiv
      cache_equiv_refl cache_equiv_trans]

lemma next_and_index_room_iff:
  "(\<exists>h'. rfold (check_next_and_index_step av) h ps = Inr h') \<longleftrightarrow> (\<forall>p\<in>set ps. next_index_ok h av p)"
  by (rule next_and_index_fold(1))

lemma next_and_index_room_equiv:
  "rfold (check_next_and_index_step av) h ps = Inr h' \<Longrightarrow> cache_equiv h h'"
  by (rule next_and_index_fold(2))

definition room_next_index_ok :: "heap \<Rightarrow> roomref \<Rightarrow> bool" where
  "room_next_index_ok h room \<longleftrightarrow>
     (\<forall>p\<in>set (enumerate 0 (room_availability (hp_room h room))).
        next_index_ok h (room_availability (hp_room h room)) p)"

lemma room_next_index_ok_equiv: "cache_equiv h h' \<Longrightarrow> room_next_index_ok h' r = room_next_index_ok h r"
  by (simp add: room_next_index_ok_def next_index_ok_equiv) (simp add: cache_equiv_def same_but_caches_def)

lemma check_roomslot_next_and_index_consistency_iff:
  "(\<exists>h'. check_roomslot_next_and_index_consistency h sch = Inr h') \<longleftrightarrow>
     (\<forall>room\<in>set (dict_values (sch_classrooms sch)). room_next_index_ok h room)"
  unfolding check_roomslot_next_and_index_consistency_def Let_def
  by (rule rfold_read_only(1) [where R = cache_equiv, OF _ _ room_next_index_ok_equiv
      cache_equiv_refl cache_equiv_trans])
    (simp_all add: room_next_index_ok_def next_and_index_room_iff next_and_index_room_equiv)

lemma check_roomslot_next_and_index_consistency_equiv:
  "check_roomslot_next_and_index_consistency h sch = Inr h' \<Longrightarrow> cache_equiv h h'"
  unfolding check_roomslot_next_and_index_consistency_def Let_def
  by (rule rfold_read_only(2) [where R = cache_equiv, OF _ _ room_next_index_ok_equiv
      cache_equiv_refl cache_equiv_trans])
    (simp_all add: room_next_index_ok_def next_and_index_room_iff next_and_index_room_equiv)

subsection \<open>What a consistent schedule is\<close>

text \<open>
  The declarative reading of the checks. \<open>consistent\<close> is the invariant of the schedule:
  it is what \<open>run_all_consistency_checks\<close> decides (lemma \<open>run_all_iff\<close>), and the
  manipulations of theory Manipulator keep it.
\<close>

abbreviation rooms_of :: "'c as_schedule \<Rightarrow> roomref set" where
  "rooms_of sch \<equiv> set (dict_values (sch_classrooms sch))"

abbreviation sections_of :: "'c as_schedule \<Rightarrow> secref set" where
  "sections_of sch \<equiv> set (dict_values (sch_sections sch))"

abbreviation teachers_of :: "'c as_schedule \<Rightarrow> tref set" where
  "teachers_of sch \<equiv> set (dict_values (sch_teachers sch))"

definition room_dict_ok :: "heap \<Rightarrow> roomref \<Rightarrow> bool" where
  "room_dict_ok h room \<longleftrightarrow>
     (\<forall>(time, r)\<in>set (room_avail_dict (hp_room h room)). time = rs_key h r) \<and>
     set (room_availability (hp_room h room)) = set (dict_values (room_avail_dict (hp_room h room)))"

definition teacher_dict_ok :: "heap \<Rightarrow> tref \<Rightarrow> bool" where
  "teacher_dict_ok h t \<longleftrightarrow>
     (\<forall>(time, ts)\<in>set (t_avail_dict (hp_teacher h t)). time = ts_key h ts) \<and>
     (\<lambda>t. ts_id (hp_ts h t)) ` set (t_availability (hp_teacher h t)) =
     (\<lambda>t. ts_id (hp_ts h t)) ` set (dict_values (t_avail_dict (hp_teacher h t)))"

definition before :: "heap \<Rightarrow> tsref \<Rightarrow> tsref \<Rightarrow> bool" where
  "before h a b \<longleftrightarrow> ts_lt h a b \<and> ts_end (hp_ts h a) \<le> ts_start (hp_ts h b)"

definition lunch_ok :: "heap \<Rightarrow> 'c as_schedule \<Rightarrow> bool" where
  "lunch_ok h sch \<longleftrightarrow>
     (\<forall>(day, slots)\<in>set (sch_lunch sch).
        (\<forall>(a, b)\<in>set (adjacent slots). before h a b) \<and>
        (\<forall>t\<in>set slots. date_of (ts_start (hp_ts h t)) = day \<and> registered h sch t))"

definition resources_ok :: "heap \<Rightarrow> 'c as_schedule \<Rightarrow> bool" where
  "resources_ok h sch \<longleftrightarrow>
     (\<forall>s\<in>sections_of sch. \<forall>(n, rt)\<in>set (sec_requests (hp_sec h s)). rt_name rt = n) \<and>
     (\<forall>room\<in>rooms_of sch. \<forall>(n, rt)\<in>set (room_furnishings (hp_room h room)). rt_name rt = n)"

definition roomslot_ok :: "heap \<Rightarrow> 'c as_schedule \<Rightarrow> rsref \<Rightarrow> bool" where
  "roomslot_ok h sch r \<longleftrightarrow>
     registered h sch (rs_timeslot (hp_rs h r)) \<and>
     r \<in> ts_roomslots (hp_ts h (rs_timeslot (hp_rs h r))) \<and>
     dict_has (sch_classrooms sch) (room_name (hp_room h (rs_room (hp_rs h r)))) \<and>
     r \<in> set (room_av h r) \<and>
     (\<forall>s. rs_section (hp_rs h r) = Some s \<longrightarrow>
        dict_has (sch_sections sch) (sec_id (hp_sec h s)) \<and> r \<in> set (sec_roomslots (hp_sec h s)))"

definition links_ok :: "heap \<Rightarrow> 'c as_schedule \<Rightarrow> bool" where
  "links_ok h sch \<longleftrightarrow>
     (\<forall>room\<in>rooms_of sch. \<forall>r\<in>set (room_availability (hp_room h room)). rs_room (hp_rs h r) = room) \<and>
     (\<forall>s\<in>sections_of sch. \<forall>r\<in>set (sec_roomslots (hp_sec h s)). rs_section (hp_rs h r) = Some s) \<and>
     (\<forall>t\<in>set (sch_timeslots sch). \<forall>r\<in>ts_roomslots (hp_ts h t). rs_timeslot (hp_rs h r) = t) \<and>
     (\<forall>r\<in>existing_roomslots h sch. roomslot_ok h sch r)"

definition dicts_ok :: "heap \<Rightarrow> 'c as_schedule \<Rightarrow> bool" where
  "dicts_ok h sch \<longleftrightarrow>
     (\<forall>(k, s)\<in>set (sch_sections sch). sec_id (hp_sec h s) = k) \<and>
     (\<forall>(k, t)\<in>set (sch_teachers sch). t_id (hp_teacher h t) = k) \<and>
     (\<forall>(k, r)\<in>set (sch_classrooms sch). room_name (hp_room h r) = k)"

definition roomslots_sorted :: "heap \<Rightarrow> rsref list \<Rightarrow> bool" where
  "roomslots_sorted h rs = sorted_wrt (\<lambda>a b. rs_key h a < rs_key h b) rs"

definition sorting_ok :: "heap \<Rightarrow> 'c as_schedule \<Rightarrow> bool" where
  "sorting_ok h sch \<longleftrightarrow>
     (\<forall>s\<in>sections_of sch. roomslots_sorted h (sec_roomslots (hp_sec h s))) \<and>
     (\<forall>room\<in>rooms_of sch. roomslots_sorted h (room_availability (hp_room h room))) \<and>
     (\<forall>t\<in>teachers_of sch. sorted_wrt (ts_lt h) (t_availability (hp_teacher h t)))"

definition taught_ok :: "heap \<Rightarrow> 'c as_schedule \<Rightarrow> bool" where
  "taught_ok h sch \<longleftrightarrow>
     (\<forall>t\<in>teachers_of sch. \<forall>(k, s)\<in>set (t_taught (hp_teacher h t)).
        k = sec_id (hp_sec h s) \<and> t \<in> set (sec_teachers (hp_sec h s))) \<and>
     (\<forall>s\<in>sections_of sch. \<forall>t\<in>set (sec_teachers (hp_sec h s)).
        dict_has (t_taught (hp_teacher h t)) (sec_id (hp_sec h s)))"

definition timeslots_ok :: "heap \<Rightarrow> 'c as_schedule \<Rightarrow> bool" where
  "timeslots_ok h sch \<longleftrightarrow>
     (\<forall>(a, b)\<in>set (adjacent (sch_timeslots sch)). before h a b) \<and>
     (\<forall>t\<in>set (sch_timeslots sch).
        \<bar>ts_duration (hp_ts h t) - hours_difference (ts_start (hp_ts h t)) (ts_end (hp_ts h t))\<bar> \<le> 1 / 10000 \<and>
        date_of (ts_start (hp_ts h t)) = date_of (ts_end (hp_ts h t))) \<and>
     (\<forall>t\<in>set (sch_timeslots sch). dict_has (sch_timeslot_dict sch) (ts_key h t)) \<and>
     (\<forall>k\<in>fst ` set (sch_timeslot_dict sch).
        k \<in> ts_key h ` set (sch_timeslots sch) \<and> map_option (ts_key h) (map_of (sch_timeslot_dict sch) k) = Some k)"

definition consistent :: "heap \<Rightarrow> 'c as_schedule \<Rightarrow> bool" where
  "consistent h sch \<longleftrightarrow>
     (\<forall>room\<in>rooms_of sch. room_dict_ok h room) \<and> (\<forall>t\<in>teachers_of sch. teacher_dict_ok h t) \<and>
     lunch_ok h sch \<and> resources_ok h sch \<and> (\<forall>room\<in>rooms_of sch. room_next_index_ok h room) \<and>
     links_ok h sch \<and> dicts_ok h sch \<and> sorting_ok h sch \<and> taught_ok h sch \<and> timeslots_ok h sch"

subsection \<open>The checks decide consistency\<close>

lemma availability_dict_iff [check_iff]:
  "check_availability_dict_consistency h sch = Inr u \<longleftrightarrow>
     (\<forall>room\<in>rooms_of sch. room_dict_ok h room) \<and> (\<forall>t\<in>teachers_of sch. teacher_dict_ok h t)"
  by (simp add: check_availability_dict_consistency_def check_iff room_dict_ok_def teacher_dict_ok_def
      split_beta)

lemma before_iff:
  "before h a b \<longleftrightarrow> \<not> ts_eq h a b \<and> \<not> ts_gt h a b \<and> \<not> ts_end (hp_ts h a) > ts_start (hp_ts h b)"
  by (auto simp: before_def ts_gt_def ts_eq_def ts_lt_def ts_key_def)

lemma lunch_iff [check_iff]: "check_lunch_consistency h sch = Inr u \<longleftrightarrow> lunch_ok h sch"
  by (simp add: check_lunch_consistency_def check_iff lunch_ok_def before_iff split_beta)

lemma resource_dict_iff [check_iff]: "check_resource_dict_consistency h sch = Inr u \<longleftrightarrow> resources_ok h sch"
  by (simp add: check_resource_dict_consistency_def check_iff resources_ok_def split_beta)

lemma roomslots_iff [check_iff]: "check_roomslots_consistency h sch = Inr u \<longleftrightarrow> links_ok h sch"
  unfolding check_roomslots_consistency_def Let_def check_iff links_ok_def roomslot_ok_def room_av_def
  by (auto split: option.splits)

lemma schedule_dicts_iff [check_iff]: "check_schedule_dicts_consistency h sch = Inr u \<longleftrightarrow> dicts_ok h sch"
  by (simp add: check_schedule_dicts_consistency_def check_iff dicts_ok_def split_beta)

lemma ts_lt_transp: "transp (ts_lt h)"
  by (auto simp: transp_def ts_lt_def)

lemma roomslot_sorting_iff: "roomslot_sorting_helper h rs \<longleftrightarrow> roomslots_sorted h rs"
proof -
  have "transp (\<lambda>a b. rs_key h a < rs_key h b)" by (auto simp: transp_def)
  from adjacent_sorted_wrt [OF this, of rs] show ?thesis
    by (simp add: roomslot_sorting_helper_def roomslots_sorted_def list_all_iff ts_lt_def rs_key_def)
qed

lemma sorting_iff [check_iff]: "check_sorting_consistency h sch = Inr u \<longleftrightarrow> sorting_ok h sch"
  by (simp add: check_sorting_consistency_def check_iff sorting_ok_def roomslot_sorting_iff
      list_all_iff adjacent_sorted_wrt [OF ts_lt_transp])

lemma taught_iff [check_iff]: "check_teacher_taught_sections_consistency h sch = Inr u \<longleftrightarrow> taught_ok h sch"
  by (simp add: check_teacher_taught_sections_consistency_def check_iff taught_ok_def split_beta)

lemma visited_fold:
  "rfold (\<lambda>visited t. rbind (cerror (\<not> dict_has d (ts_key h t)) msg)
      (\<lambda>_. Inr (AList.update (ts_key h t) True visited))) v ts = Inr v' \<longleftrightarrow>
   (\<forall>t\<in>set ts. dict_has d (ts_key h t)) \<and> v' = fold (\<lambda>t. AList.update (ts_key h t) True) ts v"
  by (induction ts arbitrary: v) (auto simp: cerror_def raise_if_def)

lemma visited_lookup:
  "map_of (fold (\<lambda>t. AList.update (ts_key h t) True) ts v) k =
     (if k \<in> ts_key h ` set ts then Some True else map_of v k)"
  by (induction ts arbitrary: v) (auto simp: update_conv')

lemma timeslots_list_and_dict_iff [check_iff]:
  "check_timeslots_list_and_dict_consistency h sch = Inr u \<longleftrightarrow>
     (\<forall>t\<in>set (sch_timeslots sch). dict_has (sch_timeslot_dict sch) (ts_key h t)) \<and>
     (\<forall>k\<in>fst ` set (sch_timeslot_dict sch).
        k \<in> ts_key h ` set (sch_timeslots sch) \<and> map_option (ts_key h) (map_of (sch_timeslot_dict sch) k) = Some k)"
proof -
  have lookup: "map_of (map (\<lambda>times. (times, False)) ks) k = (if k \<in> set ks then Some False else None)"
    for ks :: "times list" and k by (induction ks) auto
  have keys: "set (dict_keys (sch_timeslot_dict sch)) = fst ` set (sch_timeslot_dict sch)"
    by (simp add: dict_keys_def)
  show ?thesis
    unfolding check_timeslots_list_and_dict_consistency_def rbind_Inr_iff visited_fold
    by (simp only: check_iff keys) (auto simp: visited_lookup lookup keys split: if_splits)
qed

lemma static_checks_equiv:
  assumes "cache_equiv h h'"
  shows "links_ok h' sch = links_ok h sch" "dicts_ok h' sch = dicts_ok h sch"
    "sorting_ok h' sch = sorting_ok h sch" "taught_ok h' sch = taught_ok h sch"
    "timeslots_ok h' sch = timeslots_ok h sch" "lunch_ok h' sch = lunch_ok h sch"
    "resources_ok h' sch = resources_ok h sch" "room_dict_ok h' r = room_dict_ok h r"
    "teacher_dict_ok h' t = teacher_dict_ok h t"
proof -
  have eq: "hp_ts h' = hp_ts h" "hp_teacher h' = hp_teacher h" "hp_room h' = hp_room h"
    "hp_sec h' = hp_sec h" "\<And>r. rs_timeslot (hp_rs h' r) = rs_timeslot (hp_rs h r)"
    "\<And>r. rs_room (hp_rs h' r) = rs_room (hp_rs h r)"
    "\<And>r. rs_section (hp_rs h' r) = rs_section (hp_rs h r)"
    using assms by (simp_all add: cache_equiv_def same_but_caches_def)
  have keys: "ts_key h' = ts_key h" "ts_lt h' = ts_lt h" "ts_eq h' = ts_eq h" "rs_key h' = rs_key h"
    by (simp_all add: fun_eq_iff ts_key_def ts_lt_def ts_eq_def rs_key_def eq)
  show "links_ok h' sch = links_ok h sch" "dicts_ok h' sch = dicts_ok h sch"
    "sorting_ok h' sch = sorting_ok h sch" "taught_ok h' sch = taught_ok h sch"
    "timeslots_ok h' sch = timeslots_ok h sch" "lunch_ok h' sch = lunch_ok h sch"
    "resources_ok h' sch = resources_ok h sch" "room_dict_ok h' r = room_dict_ok h r"
    "teacher_dict_ok h' t = teacher_dict_ok h t"
    by (simp_all add: links_ok_def roomslot_ok_def existing_roomslots_def registered_def room_av_def
        dicts_ok_def sorting_ok_def roomslots_sorted_def taught_ok_def timeslots_ok_def before_def
        lunch_ok_def resources_ok_def room_dict_ok_def teacher_dict_ok_def eq keys)
qed

lemma consistent_equiv: "cache_equiv h h' \<Longrightarrow> consistent h' sch = consistent h sch"
  by (simp add: consistent_def static_checks_equiv room_next_index_ok_equiv)

lemma timeslot_checks_iff:
  "timeslots_ok h sch \<longleftrightarrow>
     check_timeslot_consistency h sch = Inr () \<and> check_timeslot_duration_consistency h sch = Inr () \<and>
     check_timeslot_span_consistency h sch = Inr () \<and>
     check_timeslots_list_and_dict_consistency h sch = Inr ()"
  by (auto simp: timeslots_ok_def check_timeslot_consistency_def check_timeslot_duration_consistency_def
      check_timeslot_span_consistency_def check_iff before_iff split_beta not_less)

lemma run_all_Inr_iff:
  "run_all_consistency_checks h sch = Inr h' \<longleftrightarrow>
     check_availability_dict_consistency h sch = Inr () \<and> check_lunch_consistency h sch = Inr () \<and>
     check_resource_dict_consistency h sch = Inr () \<and>
     check_roomslot_next_and_index_consistency h sch = Inr h' \<and>
     links_ok h' sch \<and> dicts_ok h' sch \<and> sorting_ok h' sch \<and> taught_ok h' sch \<and> timeslots_ok h' sch"
  unfolding run_all_consistency_checks_def rbind_Inr_iff timeslot_checks_iff
  by (auto simp: check_iff)

lemma run_all_equiv: "run_all_consistency_checks h sch = Inr h' \<Longrightarrow> cache_equiv h h'"
  unfolding run_all_Inr_iff by (elim conjE) (rule check_roomslot_next_and_index_consistency_equiv)

lemma run_all_iff: "(\<exists>h'. run_all_consistency_checks h sch = Inr h') \<longleftrightarrow> consistent h sch"
proof -
  have "run_all_consistency_checks h sch = Inr h' \<longleftrightarrow>
      check_roomslot_next_and_index_consistency h sch = Inr h' \<and>
      (\<forall>room\<in>rooms_of sch. room_dict_ok h room) \<and> (\<forall>t\<in>teachers_of sch. teacher_dict_ok h t) \<and>
      lunch_ok h sch \<and> resources_ok h sch \<and> links_ok h sch \<and> dicts_ok h sch \<and> sorting_ok h sch \<and>
      taught_ok h sch \<and> timeslots_ok h sch" for h'
  proof (cases "check_roomslot_next_and_index_consistency h sch = Inr h'")
    case True
    note eq = static_checks_equiv [OF check_roomslot_next_and_index_consistency_equiv [OF True]]
    show ?thesis
      by (simp only: run_all_Inr_iff eq availability_dict_iff lunch_iff resource_dict_iff True) blast
  qed (simp add: run_all_Inr_iff)
  then show ?thesis
    unfolding consistent_def using check_roomslot_next_and_index_consistency_iff [of h sch] by auto
qed

text \<open>
  The comment in \<open>check_timeslot_consistency\<close>: the overlap test is the only one needed.
  For timeslots that end after they start, adjacent tests order the whole list and no
  two timeslots overlap.
\<close>

lemma timeslots_disjoint:
  assumes "check_timeslot_consistency h sch = Inr ()"
    and "\<forall>t\<in>set (sch_timeslots sch). ts_start (hp_ts h t) < ts_end (hp_ts h t)"
  shows "sorted_wrt (\<lambda>a b. ts_end (hp_ts h a) \<le> ts_start (hp_ts h b)) (sch_timeslots sch)"
proof -
  have "\<forall>(a, b)\<in>set (adjacent (sch_timeslots sch)). ts_end (hp_ts h a) \<le> ts_start (hp_ts h b)"
    using assms(1)
    by (simp add: check_timeslot_consistency_def rforeach_Inr_iff rbind_Inr_iff cerror_iff split_beta not_less)
  moreover have "sorted_wrt (\<lambda>a b. ts_end (hp_ts h a) \<le> ts_start (hp_ts h b)) ts"
    if "\<forall>t\<in>set ts. ts_start (hp_ts h t) < ts_end (hp_ts h t)"
      "\<forall>(a, b)\<in>set (adjacent ts). ts_end (hp_ts h a) \<le> ts_start (hp_ts h b)" for ts
    using that
  proof (induction ts rule: induct_list012)
    case (3 x y ys)
    then have "sorted_wrt (\<lambda>a b. ts_end (hp_ts h a) \<le> ts_start (hp_ts h b)) (y # ys)" by simp
    with 3 show ?case by simp (meson less_imp_le order_trans)
  qed simp_all
  ultimately show ?thesis using assms(2) by blast
qed

end
