(* ===== verification/Schedule.thy ===== *)
theory Schedule
  imports Constraints Consistency
begin

section \<open>Building a schedule (AS\_Schedule in autoscheduler/data\_model.py)\<close>

text \<open>
  The constructor of \<open>AS_Schedule\<close>: the timeslot dictionary, the lunch timeslots by day,
  the consistency checks and the constraint checks. What follows is the invariant of the
  scheduler. \<open>consistent\<close> and \<open>legal\<close> (every required constraint is satisfied) are what the
  constructor checks; \<open>linked\<close> is what the loader in \<open>db_interface.py\<close> builds and nothing
  checks: dictionaries have distinct keys, timeslots have distinct ids, and sections, teachers and rooms refer to the
  objects registered in the schedule. \<open>consistent_split\<close> separates the part of
  consistency that placements can change (\<open>placed\<close>) from the part they cannot.
\<close>

type_synonym schedule = "constraint list as_schedule"

definition build_timeslot_dict :: "heap \<Rightarrow> tsref list \<Rightarrow> (times, tsref) dict" where
  "build_timeslot_dict h timeslots = dict_of (map (\<lambda>t. (ts_key h t, t)) timeslots)"

definition lunch_step ::
  "(times, tsref) dict \<Rightarrow> (int \<times> int \<times> int, tsref list) dict \<Rightarrow> times \<Rightarrow>
   (int \<times> int \<times> int, tsref list) dict result" where
  "lunch_step timeslot_dict by_day se =
     (case map_of timeslot_dict se of
        None \<Rightarrow> Inr by_day
      | Some t \<Rightarrow>
          let day = date_of (fst se);
              by_day' = (if \<not> dict_has by_day day then AList.update day [] by_day else by_day)
          in rbind (raise_if (date_of (snd se) \<noteq> day) (AssertionError ''Timeslot spans multiple days'')) (\<lambda>_.
             rbind (dict_get by_day' day) (\<lambda>slots. Inr (AList.update day (slots @ [t]) by_day'))))"

definition build_lunch_timeslots ::
  "(times, tsref) dict \<Rightarrow> times list \<Rightarrow> (int \<times> int \<times> int, tsref list) dict result" where
  "build_lunch_timeslots timeslot_dict lunch_timeslots =
     rfold (lunch_step timeslot_dict) [] (sort lunch_timeslots)"

definition run_constraint_checks :: "heap \<Rightarrow> schedule \<Rightarrow> unit result" where
  "run_constraint_checks h sch =
     rbind (composite_check_schedule (sch_constraints sch) h sch) (\<lambda>violation.
       raise_if (violation \<noteq> None) (SchedulingError ''Schedule violated constraints: {violation}.''))"

definition AS_Schedule_init ::
  "heap \<Rightarrow> tsref list \<Rightarrow> (int, secref) dict \<Rightarrow> (int, tref) dict \<Rightarrow> (string, roomref) dict \<Rightarrow>
   times list \<Rightarrow> constraint list option \<Rightarrow> bool \<Rightarrow> (schedule \<times> heap) result" where
  "AS_Schedule_init h timeslots class_sections teachers classrooms lunch_timeslots constraints exclude_locked =
     rbind (build_lunch_timeslots (build_timeslot_dict h timeslots) lunch_timeslots) (\<lambda>lunch.
     rbind (case constraints of Some cs \<Rightarrow> Inr cs
            | None \<Rightarrow> CompositeConstraint_init (ConstraintNames []) []) (\<lambda>cs.
     let sch = \<lparr>sch_timeslots = timeslots, sch_timeslot_dict = build_timeslot_dict h timeslots,
                sch_sections = class_sections, sch_teachers = teachers, sch_classrooms = classrooms,
                sch_lunch = lunch, sch_constraints = cs, sch_exclude_locked = exclude_locked\<rparr> in
     rbind (run_all_consistency_checks h sch) (\<lambda>h1.
     rbind (run_constraint_checks h1 sch) (\<lambda>_. Inr (sch, h1)))))"

subsection \<open>Legal schedules\<close>

definition legal :: "heap \<Rightarrow> 'c as_schedule \<Rightarrow> bool" where
  "legal h sch \<longleftrightarrow> (\<forall>c. required c \<longrightarrow> check_schedule c h sch = ok)"

text \<open>Consecutive roomslots are contiguous, and all are in the first one's room.\<close>

definition run_ok :: "heap \<Rightarrow> rsref list \<Rightarrow> bool" where
  "run_ok h rs \<longleftrightarrow>
     (\<forall>(a, b)\<in>set (adjacent rs). contiguous h (rs_timeslot (hp_rs h a)) (rs_timeslot (hp_rs h b))) \<and>
     (\<forall>r\<in>set rs. room_name (hp_room h (rs_room (hp_rs h r))) = room_name (hp_room h (rs_room (hp_rs h (hd rs)))))"

definition span_ok :: "heap \<Rightarrow> rat \<Rightarrow> rsref list \<Rightarrow> bool" where
  "span_ok h d rs \<longleftrightarrow>
     rs \<noteq> [] \<longrightarrow> \<bar>hours_difference (rs_start h (hd rs)) (rs_end h (last rs)) - d\<bar> \<le> DELTA_TIME"

definition available_at :: "heap \<Rightarrow> tref \<Rightarrow> rsref list \<Rightarrow> bool" where
  "available_at h t rs \<longleftrightarrow> (\<forall>r\<in>set rs. available h t (rs_key h r))"

definition one_place :: "heap \<Rightarrow> tref \<Rightarrow> bool" where
  "one_place h t = distinct (map (rs_key h) (taught_roomslots h t))"

lemma contiguous_run_iff:
  "contiguous_run h rm (rs_timeslot (hp_rs h a)) rs = ok \<longleftrightarrow>
     (\<forall>(a, b)\<in>set (adjacent (a # rs)). contiguous h (rs_timeslot (hp_rs h a)) (rs_timeslot (hp_rs h b))) \<and>
     (\<forall>r\<in>set rs. room_name (hp_room h (rs_room (hp_rs h r))) = rm)"
  by (induction rs arbitrary: a) (auto simp: check_iff)

lemma run_ok_Cons:
  "run_ok h (r # rs) \<longleftrightarrow>
     rs = [] \<or> contiguous_run h (room_name (hp_room h (rs_room (hp_rs h r)))) (rs_timeslot (hp_rs h r)) rs = ok"
  by (auto simp: contiguous_run_iff run_ok_def)

lemma contiguous_schedule_iff [check_iff]:
  "contiguous_check_schedule h sch = ok \<longleftrightarrow> (\<forall>s\<in>sections_of sch. run_ok h (sec_roomslots (hp_sec h s)))"
proof -
  have "(case rs of [] \<Rightarrow> ok | r # rs \<Rightarrow> if rs = [] then ok else
      contiguous_run h (room_name (hp_room h (rs_room (hp_rs h r)))) (rs_timeslot (hp_rs h r)) rs) = ok
      \<longleftrightarrow> run_ok h rs" for rs
    by (cases rs) (auto simp: run_ok_Cons, simp add: run_ok_def)
  then show ?thesis by (simp add: contiguous_check_schedule_def first_violation_ok_iff)
qed

lemma duration_schedule_iff [check_iff]:
  "duration_check_schedule h sch = ok \<longleftrightarrow>
     (\<forall>s\<in>sections_of sch. span_ok h (sec_duration (hp_sec h s)) (sec_roomslots (hp_sec h s)))"
  by (auto simp: duration_check_schedule_def first_violation_ok_iff span_ok_def Let_def if_violated_ok_iff
      rs_start_def rs_end_def not_less)

lemma availability_schedule_iff [check_iff]:
  "availability_check_schedule h sch = ok \<longleftrightarrow>
     (\<forall>t\<in>teachers_of sch. \<forall>s\<in>set (dict_values (t_taught (hp_teacher h t))).
        available_at h t (sec_roomslots (hp_sec h s)))"
  by (simp add: availability_check_schedule_def check_iff available_at_def)

lemma teaching_scan_iff: "teaching_scan A tms = ok \<longleftrightarrow> distinct tms \<and> set tms \<inter> A = {}"
  by (induction tms arbitrary: A) (auto simp: check_iff)

lemma concurrency_schedule_iff [check_iff]:
  "concurrency_check_schedule h sch = ok \<longleftrightarrow> (\<forall>t\<in>teachers_of sch. one_place h t)"
  by (simp add: concurrency_check_schedule_def check_iff teaching_scan_iff one_place_def)

lemma legal_iff:
  "legal h sch \<longleftrightarrow>
     (\<forall>s\<in>sections_of sch. run_ok h (sec_roomslots (hp_sec h s)) \<and>
        span_ok h (sec_duration (hp_sec h s)) (sec_roomslots (hp_sec h s))) \<and>
     (\<forall>t\<in>teachers_of sch. (\<forall>s\<in>set (dict_values (t_taught (hp_teacher h t))).
        available_at h t (sec_roomslots (hp_sec h s))) \<and> one_place h t)"
proof -
  have all: "(\<forall>c. P c) \<longleftrightarrow> P ContiguousConstraint \<and> P LunchConstraint \<and> P PreconditionConstraint \<and>
      (\<forall>cs. P (ResourceCriteriaConstraint cs)) \<and> P RoomAvailabilityConstraint \<and>
      P RoomConcurrencyConstraint \<and> P SectionDurationConstraint \<and> P TeacherAvailabilityConstraint \<and>
      P TeacherConcurrencyConstraint" for P
    by (metis constraint.exhaust)
  show ?thesis unfolding legal_def all by (auto simp: check_iff)
qed

subsection \<open>Linked schedules\<close>

definition linked :: "heap \<Rightarrow> 'c as_schedule \<Rightarrow> bool" where
  "linked h sch \<longleftrightarrow>
     distinct (map fst (sch_sections sch)) \<and> distinct (map fst (sch_teachers sch)) \<and>
     distinct (map fst (sch_classrooms sch)) \<and> distinct (map fst (sch_lunch sch)) \<and>
     distinct (map fst (sch_timeslot_dict sch)) \<and>
     distinct (map (\<lambda>t. ts_id (hp_ts h t)) (sch_timeslots sch)) \<and>
     (\<forall>s\<in>sections_of sch. \<forall>t\<in>set (sec_teachers (hp_sec h s)).
        t \<in> teachers_of sch \<and> map_of (t_taught (hp_teacher h t)) (sec_id (hp_sec h s)) = Some s) \<and>
     (\<forall>t\<in>teachers_of sch. distinct (map fst (t_taught (hp_teacher h t))) \<and>
        set (dict_values (t_taught (hp_teacher h t))) \<subseteq> sections_of sch) \<and>
     (\<forall>r. (\<exists>room\<in>rooms_of sch. r \<in> set (room_availability (hp_room h room))) \<or>
          (\<exists>t\<in>set (sch_timeslots sch). r \<in> ts_roomslots (hp_ts h t)) \<longrightarrow>
          rs_room (hp_rs h r) \<in> rooms_of sch)"

definition all_roomslots :: "heap \<Rightarrow> 'c as_schedule \<Rightarrow> rsref set" where
  "all_roomslots h sch = (\<Union>room\<in>rooms_of sch. set (room_availability (hp_room h room)))"

definition static_ok :: "heap \<Rightarrow> 'c as_schedule \<Rightarrow> bool" where
  "static_ok h sch \<longleftrightarrow>
     (\<forall>room\<in>rooms_of sch. room_dict_ok h room) \<and> (\<forall>t\<in>teachers_of sch. teacher_dict_ok h t) \<and>
     lunch_ok h sch \<and> resources_ok h sch \<and> (\<forall>room\<in>rooms_of sch. room_next_index_ok h room) \<and>
     dicts_ok h sch \<and> taught_ok h sch \<and> timeslots_ok h sch \<and>
     (\<forall>room\<in>rooms_of sch. roomslots_sorted h (room_availability (hp_room h room))) \<and>
     (\<forall>t\<in>teachers_of sch. sorted_wrt (ts_lt h) (t_availability (hp_teacher h t))) \<and>
     (\<forall>room\<in>rooms_of sch. \<forall>r\<in>set (room_availability (hp_room h room)). rs_room (hp_rs h r) = room) \<and>
     (\<forall>t\<in>set (sch_timeslots sch). \<forall>r\<in>ts_roomslots (hp_ts h t).
        rs_timeslot (hp_rs h r) = t \<and> r \<in> all_roomslots h sch) \<and>
     (\<forall>r\<in>all_roomslots h sch.
        registered h sch (rs_timeslot (hp_rs h r)) \<and> r \<in> ts_roomslots (hp_ts h (rs_timeslot (hp_rs h r))))"

definition placed :: "heap \<Rightarrow> 'c as_schedule \<Rightarrow> bool" where
  "placed h sch \<longleftrightarrow>
     (\<forall>s\<in>sections_of sch. set (sec_roomslots (hp_sec h s)) \<subseteq> all_roomslots h sch \<and>
        roomslots_sorted h (sec_roomslots (hp_sec h s)) \<and>
        (\<forall>r\<in>set (sec_roomslots (hp_sec h s)). rs_section (hp_rs h r) = Some s)) \<and>
     (\<forall>r\<in>all_roomslots h sch. \<forall>s. rs_section (hp_rs h r) = Some s \<longrightarrow>
        dict_has (sch_sections sch) (sec_id (hp_sec h s)) \<and> r \<in> set (sec_roomslots (hp_sec h s)))"

lemma registered_mem: "registered h sch t \<Longrightarrow> t \<in> set (sch_timeslots sch)"
  by (simp add: registered_def find_Some_iff) (metis nth_mem)

lemma dict_has_value: "map_of d k = Some v \<Longrightarrow> dict_has d k"
  by (simp add: dict_has_def)

lemma pair_in_values: "(k, v) \<in> set d \<Longrightarrow> v \<in> set (dict_values d)"
  by (force simp: dict_values_def)

lemma value_in_pairs: "v \<in> set (dict_values d) \<Longrightarrow> \<exists>k. (k, v) \<in> set d"
  by (force simp: dict_values_def)

lemma value_key_has:
  assumes "\<forall>(k, v)\<in>set d. f v = k" and "v \<in> set (dict_values d)"
  shows "dict_has d (f v)"
proof -
  from assms(2) obtain k where "(k, v) \<in> set d" using value_in_pairs by fast
  with assms(1) show ?thesis by (force simp: dict_has_iff)
qed

lemma registered_dict_has:
  assumes "dicts_ok h sch"
  shows "s \<in> sections_of sch \<Longrightarrow> dict_has (sch_sections sch) (sec_id (hp_sec h s))"
    and "room \<in> rooms_of sch \<Longrightarrow> dict_has (sch_classrooms sch) (room_name (hp_room h room))"
  using assms value_key_has [of "sch_sections sch" "\<lambda>s. sec_id (hp_sec h s)" s]
    value_key_has [of "sch_classrooms sch" "\<lambda>r. room_name (hp_room h r)" room]
  by (simp_all add: dicts_ok_def)

lemma consistent_split:
  assumes "linked h sch"
  shows "consistent h sch \<longleftrightarrow> static_ok h sch \<and> placed h sch"
proof
  assume c: "consistent h sch"
  then have links: "links_ok h sch" by (simp add: consistent_def)
  have all: "r \<in> all_roomslots h sch" if "r \<in> existing_roomslots h sch" for r
  proof -
    have ok: "roomslot_ok h sch r" using links that by (simp add: links_ok_def)
    then have "r \<in> ts_roomslots (hp_ts h (rs_timeslot (hp_rs h r)))"
      "rs_timeslot (hp_rs h r) \<in> set (sch_timeslots sch)" "r \<in> set (room_av h r)"
      unfolding roomslot_ok_def by (auto intro: registered_mem)
    moreover from this have "rs_room (hp_rs h r) \<in> rooms_of sch"
      using assms unfolding linked_def by blast
    ultimately show ?thesis by (auto simp: all_roomslots_def room_av_def)
  qed
  then have ex: "existing_roomslots h sch = all_roomslots h sch"
    by (auto simp: all_roomslots_def existing_roomslots_def)
  have sub: "s \<in> sections_of sch \<Longrightarrow> set (sec_roomslots (hp_sec h s)) \<subseteq> all_roomslots h sch"
    "t \<in> set (sch_timeslots sch) \<Longrightarrow> ts_roomslots (hp_ts h t) \<subseteq> all_roomslots h sch" for s t
    unfolding ex [symmetric] by (auto simp: existing_roomslots_def)
  have "\<forall>r\<in>all_roomslots h sch. roomslot_ok h sch r"
    using links by (simp add: links_ok_def ex)
  then have "registered h sch (rs_timeslot (hp_rs h r)) \<and> r \<in> ts_roomslots (hp_ts h (rs_timeslot (hp_rs h r)))"
    if "r \<in> all_roomslots h sch" for r using that by (simp add: roomslot_ok_def)
  moreover have "rs_timeslot (hp_rs h r) = t \<and> r \<in> all_roomslots h sch"
    if "t \<in> set (sch_timeslots sch)" "r \<in> ts_roomslots (hp_ts h t)" for t r
    using that sub(2) links unfolding links_ok_def by blast
  ultimately have "static_ok h sch"
    using c unfolding static_ok_def consistent_def sorting_ok_def links_ok_def by simp
  moreover have "placed h sch"
    using c sub(1) \<open>\<forall>r\<in>all_roomslots h sch. roomslot_ok h sch r\<close>
    unfolding placed_def consistent_def sorting_ok_def links_ok_def
    by (simp add: roomslot_ok_def)
  ultimately show "static_ok h sch \<and> placed h sch" ..
next
  assume sp: "static_ok h sch \<and> placed h sch"
  then have ex: "existing_roomslots h sch = all_roomslots h sch"
    by (auto simp: existing_roomslots_def static_ok_def placed_def all_roomslots_def)
  have "roomslot_ok h sch r" if r: "r \<in> all_roomslots h sch" for r
  proof -
    from r obtain room where room: "room \<in> rooms_of sch" "r \<in> set (room_availability (hp_room h room))"
      by (auto simp: all_roomslots_def)
    with sp have "rs_room (hp_rs h r) = room" "dicts_ok h sch" by (auto simp: static_ok_def)
    with room sp r show ?thesis
      by (simp add: roomslot_ok_def static_ok_def placed_def room_av_def registered_dict_has(2))
  qed
  with sp show "consistent h sch"
    by (auto simp: consistent_def static_ok_def placed_def sorting_ok_def links_ok_def ex)
qed

subsection \<open>What the constructor guarantees\<close>

lemma run_constraint_checks_iff:
  "run_constraint_checks h sch = Inr u \<longleftrightarrow> (\<forall>c\<in>set (sch_constraints sch). check_schedule c h sch = ok)"
  using composite_set(1) [of "sch_constraints sch" h sch]
  by (auto simp: run_constraint_checks_def check_iff ok_def)

lemma init_ok:
  assumes "AS_Schedule_init h timeslots secs teachers rooms lunch cs excl = Inr (sch, h')"
  shows "cache_equiv h h'" and "consistent h' sch"
    and "\<forall>c\<in>set (sch_constraints sch). check_schedule c h' sch = ok"
proof -
  from assms have run: "run_all_consistency_checks h sch = Inr h'"
    and chk: "run_constraint_checks h' sch = Inr ()"
    by (auto simp: AS_Schedule_init_def rbind_Inr_iff Let_def)
  from run show "cache_equiv h h'" by (rule run_all_equiv)
  with run show "consistent h' sch" using run_all_iff consistent_equiv by blast
  from chk show "\<forall>c\<in>set (sch_constraints sch). check_schedule c h' sch = ok"
    by (simp add: run_constraint_checks_iff)
qed

lemma init_legal:
  assumes "AS_Schedule_init h timeslots secs teachers rooms lunch cs excl = Inr (sch, h')"
    and "cs = None \<or> CompositeConstraint_init names criteria = Inr (the cs)"
  shows "legal h' sch"
proof -
  from assms(1) have "(case cs of Some cs \<Rightarrow> Inr cs
      | None \<Rightarrow> CompositeConstraint_init (ConstraintNames []) []) = Inr (sch_constraints sch)"
    by (auto simp: AS_Schedule_init_def rbind_Inr_iff Let_def)
  with assms(2) obtain ns crit where "CompositeConstraint_init ns crit = Inr (sch_constraints sch)"
    by (cases cs) auto
  with init_ok(3) [OF assms(1)] show ?thesis
    unfolding legal_def using composite_required by blast
qed

subsection \<open>Lunch timeslots by day\<close>

lemma lunch_step_spec:
  assumes "lunch_step d by_day se = Inr by_day'"
  shows "map_of by_day' day =
      (if map_of d se \<noteq> None \<and> date_of (fst se) = day
       then Some ((case map_of by_day day of None \<Rightarrow> [] | Some l \<Rightarrow> l) @ [the (map_of d se)])
       else map_of by_day day)"
  using assms
  by (auto simp: lunch_step_def Let_def dict_has_def check_iff update_conv' split: option.splits if_splits)

text \<open>A day's lunch timeslots are the registered ones of that day, in order of time.\<close>

lemma build_lunch_spec:
  assumes "build_lunch_timeslots d lunch = Inr by_day"
  shows "map_of by_day day =
    (let ts = map (\<lambda>se. the (map_of d se))
        (filter (\<lambda>se. map_of d se \<noteq> None \<and> date_of (fst se) = day) (sort lunch))
     in if ts = [] then None else Some ts)"
proof -
  have "map_of by_day day =
    (let ts = (case map_of acc day of None \<Rightarrow> [] | Some l \<Rightarrow> l) @ map (\<lambda>se. the (map_of d se))
        (filter (\<lambda>se. map_of d se \<noteq> None \<and> date_of (fst se) = day) ses)
     in if map_of acc day = None \<and> ts = [] then None else Some ts)"
    if "rfold (lunch_step d) acc ses = Inr by_day" for acc ses
    using that
  proof (induction ses arbitrary: acc)
    case Nil
    then show ?case by (auto simp: Let_def split: option.splits)
  next
    case (Cons se ses)
    then obtain acc' where 1: "lunch_step d acc se = Inr acc'" "rfold (lunch_step d) acc' ses = Inr by_day"
      by (auto simp: rbind_Inr_iff)
    from Cons.IH [OF 1(2)] lunch_step_spec [OF 1(1), of day] show ?case
      by (auto simp: Let_def split: option.splits)
  qed
  from this [of "[]"] assms show ?thesis by (simp add: build_lunch_timeslots_def Let_def)
qed

end
