(* ===== verification/Moves.thy ===== *)
theory Moves
  imports Schedule
begin

section \<open>What the manipulations do to a schedule\<close>

text \<open>
  The effects on the store of scheduling, moving, unscheduling and swapping sections, as
  the methods of \<open>ScheduleManipulator\<close> perform them once their checks have passed, and
  the invariant of the scheduler: \<open>valid\<close> schedules are linked, consistent and legal.
  Every effect is made of two primitives, clearing a section and putting it into free
  roomslots; \<open>clear_valid\<close> and \<open>put_valid\<close> show that these keep the invariant, and the
  section at the end derives the conditions of \<open>put_valid\<close> from the required
  constraints' checks: an accepted manipulation does not raise and keeps the schedule valid.
\<close>

subsection \<open>Effects\<close>

definition schedule_effect :: "heap \<Rightarrow> secref \<Rightarrow> rsref \<Rightarrow> heap result" where
  "schedule_effect h s start_roomslot =
     (let roomslots_to_use = get_roomslots_by_duration h start_roomslot (sec_duration (hp_sec h s))
      in assign_roomslots h s roomslots_to_use False)"

definition move_effect :: "heap \<Rightarrow> secref \<Rightarrow> rsref \<Rightarrow> heap result" where
  "move_effect h s start_roomslot =
     (let h1 = clear_roomslots h s;
          roomslots_to_use = get_roomslots_by_duration h1 start_roomslot (sec_duration (hp_sec h1 s))
      in assign_roomslots h1 s roomslots_to_use False)"

definition unschedule_effect :: "heap \<Rightarrow> secref \<Rightarrow> heap" where
  "unschedule_effect h s = clear_roomslots h s"

definition swap_effect :: "heap \<Rightarrow> secref \<Rightarrow> secref \<Rightarrow> heap result" where
  "swap_effect h section1 section2 =
     (let roomslots1 = sec_roomslots (hp_sec h section1);
          roomslots2 = sec_roomslots (hp_sec h section2);
          h1 = clear_roomslots h section1;
          h2 = clear_roomslots h1 section2
      in rbind (assign_roomslots h2 section1 roomslots2 False) (\<lambda>h3.
         assign_roomslots h3 section2 roomslots1 False))"

lemma move_effect_eq: "move_effect h s r = schedule_effect (clear_roomslots h s) s r"
  by (simp add: move_effect_def schedule_effect_def Let_def)

lemma same_static_effects:
  "schedule_effect h s r = Inr h' \<Longrightarrow> same_static h h'"
  "move_effect h s r = Inr h' \<Longrightarrow> same_static h h'"
  "same_static h (unschedule_effect h s)"
  "swap_effect h s s2 = Inr h' \<Longrightarrow> same_static h h'"
proof -
  show "schedule_effect h s r = Inr h' \<Longrightarrow> same_static h h'"
    by (auto simp: schedule_effect_def Let_def intro: same_static_assign)
  show "move_effect h s r = Inr h' \<Longrightarrow> same_static h h'"
    by (auto simp: move_effect_def Let_def
        intro: same_static_trans [OF same_static_clear] same_static_assign)
  show "same_static h (unschedule_effect h s)"
    by (simp add: unschedule_effect_def)
  show "swap_effect h s s2 = Inr h' \<Longrightarrow> same_static h h'"
    by (auto simp: swap_effect_def Let_def rbind_Inr_iff dest!: same_static_assign
        intro: same_static_trans [OF same_static_clear [THEN same_static_trans [OF same_static_clear]]]
          same_static_trans)
qed

subsection \<open>The invariant\<close>

definition valid :: "heap \<Rightarrow> 'c as_schedule \<Rightarrow> bool" where
  "valid h sch \<longleftrightarrow> linked h sch \<and> consistent h sch \<and> legal h sch"

lemma valid_split: "valid h sch \<longleftrightarrow> linked h sch \<and> static_ok h sch \<and> placed h sch \<and> legal h sch"
  by (auto simp: valid_def consistent_split)

lemma same_static_all_roomslots: "same_static h h' \<Longrightarrow> all_roomslots h' sch = all_roomslots h sch"
  by (simp add: all_roomslots_def same_staticD)

lemma same_static_linked: "same_static h h' \<Longrightarrow> linked h' sch = linked h sch"
  by (simp add: linked_def same_staticD)

lemma same_static_static_ok:
  assumes "same_static h h'"
  shows "static_ok h' sch = static_ok h sch"
  by (simp add: static_ok_def room_dict_ok_def teacher_dict_ok_def lunch_ok_def before_def registered_def
      resources_ok_def room_next_index_ok_def next_index_ok_def dicts_ok_def taught_ok_def timeslots_ok_def
      roomslots_sorted_def same_staticD [OF assms] same_static_ts [OF assms] same_static_index [OF assms]
      same_static_all_roomslots [OF assms])

lemma same_static_rs:
  assumes "same_static h h'"
  shows "rs_start h' r = rs_start h r" "rs_end h' r = rs_end h r" "room_av h' r = room_av h r"
  by (simp_all add: rs_start_def rs_end_def room_av_def same_staticD [OF assms] same_static_ts [OF assms])

lemma same_static_list_preds:
  assumes "same_static h h'"
  shows "run_ok h' rs = run_ok h rs" "span_ok h' d rs = span_ok h d rs"
    "available_at h' t rs = available_at h t rs" "roomslots_sorted h' rs = roomslots_sorted h rs"
  by (simp_all add: run_ok_def span_ok_def available_at_def available_def roomslots_sorted_def
      same_staticD [OF assms] same_static_ts [OF assms] same_static_rs [OF assms])

subsection \<open>Taught sections\<close>

lemma distinct_concat_map:
  assumes "distinct xs"
  shows "distinct (concat (map f xs)) \<longleftrightarrow>
     (\<forall>x\<in>set xs. distinct (f x)) \<and> (\<forall>x\<in>set xs. \<forall>y\<in>set xs. x \<noteq> y \<longrightarrow> set (f x) \<inter> set (f y) = {})"
  using assms by (induction xs) (auto, blast+)

lemma distinct_values:
  assumes "distinct (map fst d)" and "\<And>k v. (k, v) \<in> set d \<Longrightarrow> f v = k"
  shows "distinct (dict_values d)"
proof -
  have "map fst d = map f (dict_values d)"
    unfolding dict_values_def using assms(2) by force
  with assms(1) show ?thesis by (metis distinct_map)
qed

abbreviation taught_by :: "heap \<Rightarrow> tref \<Rightarrow> secref list" where
  "taught_by h t \<equiv> dict_values (t_taught (hp_teacher h t))"

lemma teaching_set_eq:
  "get_already_teaching_set h t = (\<Union>s\<in>set (taught_by h t). rs_key h ` set (sec_roomslots (hp_sec h s)))"
  by (auto simp: get_already_teaching_set_def taught_roomslots_def)

lemma teaches_iff:
  assumes "linked h sch" and "static_ok h sch" and "s \<in> sections_of sch" and "t \<in> teachers_of sch"
  shows "s \<in> set (taught_by h t) \<longleftrightarrow> t \<in> set (sec_teachers (hp_sec h s))"
proof
  assume "s \<in> set (taught_by h t)"
  with assms(2,4) show "t \<in> set (sec_teachers (hp_sec h s))"
    by (fastforce simp: static_ok_def taught_ok_def dest: value_in_pairs)
next
  assume "t \<in> set (sec_teachers (hp_sec h s))"
  with assms(1,3) show "s \<in> set (taught_by h t)"
    unfolding linked_def by (blast intro: values_in_dict)
qed

lemma distinct_taught:
  assumes "linked h sch" and "static_ok h sch" and "t \<in> teachers_of sch"
  shows "distinct (taught_by h t)"
proof (rule distinct_values)
  show "distinct (map fst (t_taught (hp_teacher h t)))" using assms(1,3) by (simp add: linked_def)
  show "sec_id (hp_sec h s) = k" if "(k, s) \<in> set (t_taught (hp_teacher h t))" for k s
    using assms(2,3) that by (fastforce simp: static_ok_def taught_ok_def)
qed

lemma one_place_iff:
  assumes "linked h sch" and "static_ok h sch" and "t \<in> teachers_of sch"
  shows "one_place h t \<longleftrightarrow>
     (\<forall>s\<in>set (taught_by h t). distinct (map (rs_key h) (sec_roomslots (hp_sec h s)))) \<and>
     (\<forall>s\<in>set (taught_by h t). \<forall>s'\<in>set (taught_by h t). s \<noteq> s' \<longrightarrow>
        rs_key h ` set (sec_roomslots (hp_sec h s)) \<inter> rs_key h ` set (sec_roomslots (hp_sec h s')) = {})"
  using distinct_concat_map [OF distinct_taught [OF assms], of "\<lambda>s. map (rs_key h) (sec_roomslots (hp_sec h s))"]
  by (simp add: one_place_def taught_roomslots_def map_concat comp_def)

lemma sorted_distinct_keys: "roomslots_sorted h rs \<Longrightarrow> distinct (map (rs_key h) rs)"
  unfolding roomslots_sorted_def by (induction rs) auto

text \<open>
  A change of placements that replaces the roomslots of one section keeps the
  teacher part of legality if the new roomslots suit the section's teachers.
\<close>

lemma legal_update:
  assumes "valid h sch" and "same_static h h'" and "s \<in> sections_of sch"
    and other: "\<And>x. x \<noteq> s \<Longrightarrow> sec_roomslots (hp_sec h' x) = sec_roomslots (hp_sec h x)"
    and new: "sec_roomslots (hp_sec h' s) = rs" and "roomslots_sorted h rs"
    and "run_ok h rs" and "span_ok h (sec_duration (hp_sec h s)) rs"
    and av: "\<And>t. t \<in> set (sec_teachers (hp_sec h s)) \<Longrightarrow> available_at h t rs"
    and free: "\<And>t x. t \<in> set (sec_teachers (hp_sec h s)) \<Longrightarrow> x \<in> set (taught_by h t) \<Longrightarrow> x \<noteq> s \<Longrightarrow>
        rs_key h ` set rs \<inter> rs_key h ` set (sec_roomslots (hp_sec h x)) = {}"
  shows "legal h' sch"
proof -
  note v = assms(1) [unfolded valid_split]
  note eq = same_staticD [OF assms(2)] same_static_ts [OF assms(2)] same_static_list_preds [OF assms(2)]
  have rs': "sec_roomslots (hp_sec h' x) = (if x = s then rs else sec_roomslots (hp_sec h x))" for x
    using other new by auto
  have one: "one_place h' t" if t: "t \<in> teachers_of sch" for t
  proof -
    have "linked h' sch" "static_ok h' sch"
      using v by (simp_all add: same_static_linked [OF assms(2)] same_static_static_ok [OF assms(2)])
    moreover have "one_place h t" using v t by (simp add: legal_iff)
    moreover have "t \<in> set (sec_teachers (hp_sec h s))" if "s \<in> set (taught_by h t)"
      using teaches_iff assms(3) v t that by blast
    ultimately show ?thesis
      using sorted_distinct_keys [OF assms(6)] free [of t]
      by (auto simp: one_place_iff [of _ sch] v t eq rs')
  qed
  moreover have "available_at h' t (sec_roomslots (hp_sec h' x))"
    if "t \<in> teachers_of sch" "x \<in> set (taught_by h t)" for t x
    using that v av [of t] teaches_iff [of h sch s t] assms(3) by (auto simp: legal_iff eq rs')
  ultimately show ?thesis
    using v assms(7,8) by (auto simp: legal_iff eq rs')
qed

lemma placed_update:
  assumes "valid h sch" and "same_static h h'" and "s \<in> sections_of sch"
    and other: "\<And>x. x \<noteq> s \<Longrightarrow> sec_roomslots (hp_sec h' x) = sec_roomslots (hp_sec h x)"
    and new: "sec_roomslots (hp_sec h' s) = rs" and "roomslots_sorted h rs" and "set rs \<subseteq> all_roomslots h sch"
    and "\<And>r. r \<in> all_roomslots h sch \<Longrightarrow> rs_section (hp_rs h' r) = Some s \<longleftrightarrow> r \<in> set rs"
    and "\<And>r x. r \<in> all_roomslots h sch \<Longrightarrow> x \<noteq> s \<Longrightarrow>
        rs_section (hp_rs h' r) = Some x \<longleftrightarrow> rs_section (hp_rs h r) = Some x"
  shows "placed h' sch"
proof -
  note v = assms(1) [unfolded valid_split]
  note eq = same_staticD [OF assms(2)] same_static_all_roomslots [OF assms(2)]
    same_static_list_preds [OF assms(2)]
  have rs': "sec_roomslots (hp_sec h' x) = (if x = s then rs else sec_roomslots (hp_sec h x))" for x
    using other new by auto
  have "dict_has (sch_sections sch) (sec_id (hp_sec h s))"
    using v assms(3) by (intro registered_dict_has(1)) (auto simp: static_ok_def)
  from v have p: "placed h sch" by simp
  have old: "rs_section (hp_rs h r) = Some x" "r \<in> all_roomslots h sch"
    if "x \<in> sections_of sch" "r \<in> set (sec_roomslots (hp_sec h x))" for r x
    using that p by (auto simp: placed_def)
  show ?thesis
    unfolding placed_def
  proof (intro conjI ballI allI impI)
    fix x assume x: "x \<in> sections_of sch"
    show "set (sec_roomslots (hp_sec h' x)) \<subseteq> all_roomslots h' sch"
      using assms(7) old(2) x by (auto simp: eq rs')
    show "roomslots_sorted h' (sec_roomslots (hp_sec h' x))"
      using p x assms(6) by (simp add: eq rs' placed_def)
    show "rs_section (hp_rs h' r) = Some x" if "r \<in> set (sec_roomslots (hp_sec h' x))" for r
    proof (cases "x = s")
      case True
      with that assms(7,8) show ?thesis by (auto simp: rs')
    next
      case False
      with that old [OF x, of r] assms(9) [of r x] show ?thesis by (simp add: rs')
    qed
  next
    fix r x assume r: "r \<in> all_roomslots h' sch" and x: "rs_section (hp_rs h' r) = Some x"
    have "dict_has (sch_sections sch) (sec_id (hp_sec h x)) \<and> r \<in> set (sec_roomslots (hp_sec h' x))"
    proof (cases "x = s")
      case True
      with r x assms(8) [of r] \<open>dict_has _ _\<close> show ?thesis by (simp add: eq rs')
    next
      case False
      with r x assms(9) [of r x] p show ?thesis by (simp add: eq rs' placed_def)
    qed
    then show "dict_has (sch_sections sch) (sec_id (hp_sec h' x))"
      "r \<in> set (sec_roomslots (hp_sec h' x))" by (simp_all add: eq)
  qed
qed

lemma clear_valid:
  assumes "valid h sch" and "s \<in> sections_of sch"
  shows "valid (clear_roomslots h s) sch"
proof -
  note ss = same_static_clear [of h s]
  note v = assms(1) [unfolded valid_split]
  have "legal (clear_roomslots h s) sch"
    by (rule legal_update [OF assms(1) ss assms(2), of "[]"])
      (simp_all add: roomslots_sorted_def run_ok_def span_ok_def available_at_def)
  moreover from v have p: "placed h sch" by simp
  have "placed (clear_roomslots h s) sch"
  proof (rule placed_update [OF assms(1) ss assms(2), of "[]"])
    fix r x assume "r \<in> all_roomslots h sch"
    with p show "rs_section (hp_rs (clear_roomslots h s) r) = Some s \<longleftrightarrow> r \<in> set []"
      unfolding placed_def by simp blast
    show "rs_section (hp_rs (clear_roomslots h s) r) = Some x \<longleftrightarrow> rs_section (hp_rs h r) = Some x"
      if "x \<noteq> s"
    proof (cases "r \<in> set (sec_roomslots (hp_sec h s))")
      case True
      with p assms(2) that show ?thesis by (simp add: placed_def)
    qed simp
  qed (simp_all add: roomslots_sorted_def)
  ultimately show ?thesis
    using v by (simp add: valid_split same_static_linked [OF ss] same_static_static_ok [OF ss])
qed

lemma put_valid:
  assumes "valid h sch" and "s \<in> sections_of sch" and "assign_roomslots h s rs False = Inr h'"
    and "set rs \<subseteq> all_roomslots h sch" and "roomslots_sorted h rs"
    and "run_ok h rs" and "span_ok h (sec_duration (hp_sec h s)) rs"
    and "\<And>t. t \<in> set (sec_teachers (hp_sec h s)) \<Longrightarrow> available_at h t rs"
    and "\<And>t. t \<in> set (sec_teachers (hp_sec h s)) \<Longrightarrow>
        rs_key h ` set rs \<inter> get_already_teaching_set h t = {}"
  shows "valid h' sch"
proof -
  note v = assms(1) [unfolded valid_split]
  note ss = same_static_assign [OF assms(3)]
  have sort: "sort_key (rs_key h) rs = rs"
    using assms(5) by (intro sort_key_sorted_wrt) (simp add: roomslots_sorted_def)
  note sel = assign_roomslots_sel [OF assms(3), unfolded sort]
  have empty: "sec_roomslots (hp_sec h s) = []" and unocc: "\<forall>r\<in>set rs. rs_section (hp_rs h r) = None"
    using assms(3) by (simp_all add: assign_roomslots_iff)
  have "legal h' sch"
    using assms(9) by (intro legal_update [OF assms(1) ss assms(2) _ _ assms(5-8)])
      (auto simp: sel teaching_set_eq)
  moreover have "placed h' sch"
  proof (rule placed_update [OF assms(1) ss assms(2) _ _ assms(5,4)])
    fix r x assume r: "r \<in> all_roomslots h sch"
    with v empty show "rs_section (hp_rs h' r) = Some s \<longleftrightarrow> r \<in> set rs"
      by (force simp: sel placed_def)
    show "rs_section (hp_rs h' r) = Some x \<longleftrightarrow> rs_section (hp_rs h r) = Some x" if "x \<noteq> s"
      using that unocc by (simp add: sel)
  qed (simp_all add: sel)
  ultimately show ?thesis
    using v by (simp add: valid_split same_static_linked [OF ss] same_static_static_ok [OF ss])
qed

subsection \<open>Roomslots a section fits into\<close>

definition fits :: "heap \<Rightarrow> 'c as_schedule \<Rightarrow> secref \<Rightarrow> rsref list \<Rightarrow> bool" where
  "fits h sch s rs \<longleftrightarrow>
     set rs \<subseteq> all_roomslots h sch \<and> roomslots_sorted h rs \<and> run_ok h rs \<and>
     span_ok h (sec_duration (hp_sec h s)) rs \<and>
     (\<forall>t\<in>set (sec_teachers (hp_sec h s)).
        available_at h t rs \<and> rs_key h ` set rs \<inter> get_already_teaching_set h t = {})"

lemma put_fits:
  assumes "valid h sch" and "s \<in> sections_of sch" and "sec_roomslots (hp_sec h s) = []"
    and "fits h sch s rs" and "\<forall>r\<in>set rs. rs_section (hp_rs h r) = None"
  shows "\<exists>h'. assign_roomslots h s rs False = Inr h' \<and> valid h' sch"
proof -
  have "distinct (map (rs_key h) rs)"
    using assms(4) by (simp add: fits_def sorted_distinct_keys)
  then have "distinct rs" by (simp add: distinct_map)
  with assms(3,5) obtain h' where h': "assign_roomslots h s rs False = Inr h'"
    using assign_roomslots_iff by blast
  moreover have "valid h' sch"
    using assms(4) by (intro put_valid [OF assms(1,2) h']) (simp_all add: fits_def)
  ultimately show ?thesis by blast
qed

lemma index_ok_registered:
  assumes "static_ok h sch" and "r \<in> all_roomslots h sch"
  shows "index_ok h r" and "roomslots_sorted h (room_av h r)" and "set (room_av h r) \<subseteq> all_roomslots h sch"
    and "\<forall>r'\<in>set (room_av h r). rs_room (hp_rs h r') = rs_room (hp_rs h r)"
proof -
  from assms(2) obtain room where room: "room \<in> rooms_of sch" "r \<in> set (room_availability (hp_room h room))"
    by (auto simp: all_roomslots_def)
  with assms(1) have eq: "rs_room (hp_rs h r) = room" by (auto simp: static_ok_def)
  from room(2) obtain i where i: "i < length (room_av h r)" "room_av h r ! i = r"
    unfolding room_av_def eq by (metis in_set_conv_nth)
  have "(i, r) \<in> set (enumerate 0 (room_av h r))" using i by (simp add: in_set_enumerate_eq)
  with assms(1) room(1) have "roomslot_index h r = Inr i"
    by (fastforce simp: static_ok_def room_next_index_ok_def next_index_ok_def room_av_def eq)
  with i show "index_ok h r" by (auto simp: index_ok_def)
  from assms(1) room(1) show "roomslots_sorted h (room_av h r)"
    "set (room_av h r) \<subseteq> all_roomslots h sch"
    "\<forall>r'\<in>set (room_av h r). rs_room (hp_rs h r') = rs_room (hp_rs h r)"
    by (auto simp: static_ok_def room_av_def eq all_roomslots_def)
qed

lemma grs_registered:
  assumes "static_ok h sch" and "r \<in> all_roomslots h sch"
  shows "get_roomslots_by_duration h r d \<noteq> []" "hd (get_roomslots_by_duration h r d) = r"
    "set (get_roomslots_by_duration h r d) \<subseteq> all_roomslots h sch"
    "roomslots_sorted h (get_roomslots_by_duration h r d)"
    "\<forall>r'\<in>set (get_roomslots_by_duration h r d). rs_room (hp_rs h r') = rs_room (hp_rs h r)"
  using index_ok_registered [OF assms] grs_basic [of h r d] grs_sorted [of h r _ d]
  by (auto simp: roomslots_sorted_def)

lemma contiguous_slots_iff:
  "contiguous_slots h (rs_timeslot (hp_rs h a)) rs = ok \<longleftrightarrow>
     (\<forall>(a, b)\<in>set (adjacent (a # rs)). contiguous h (rs_timeslot (hp_rs h a)) (rs_timeslot (hp_rs h b)))"
  by (induction rs arbitrary: a) (auto simp: check_iff)

lemma contiguous_section_iff:
  assumes "static_ok h sch" and "r \<in> all_roomslots h sch"
  shows "contiguous_check_schedule_section h s r = ok \<longleftrightarrow>
     run_ok h (get_roomslots_by_duration h r (sec_duration (hp_sec h s)))"
proof (cases "get_roomslots_by_duration h r (sec_duration (hp_sec h s))")
  case Nil
  with grs_registered(1) [OF assms] show ?thesis by simp
next
  case (Cons a rs)
  with grs_registered(2,5) [OF assms, of "sec_duration (hp_sec h s)"]
  have "a = r" "\<forall>r'\<in>set rs. rs_room (hp_rs h r') = rs_room (hp_rs h r)" by auto
  with Cons show ?thesis
    by (simp add: contiguous_check_schedule_section_def contiguous_slots_iff run_ok_def)
qed

lemma duration_section_iff:
  "duration_check_schedule_section h s r = ok \<longleftrightarrow>
     get_roomslots_by_duration h r (sec_duration (hp_sec h s)) \<noteq> [] \<and>
     span_ok h (sec_duration (hp_sec h s)) (get_roomslots_by_duration h r (sec_duration (hp_sec h s)))"
  by (auto simp: duration_check_schedule_section_def Let_def check_iff span_ok_def rs_start_def
      rs_end_def not_less)

lemma remove_times_Inr: "remove_times ts tms = Inr ts' \<Longrightarrow> ts' = ts - set tms"
  by (induction tms arbitrary: ts) (auto split: if_splits)

lemma rbind_ok_iff: "rbind r f = ok \<longleftrightarrow> (\<exists>x. r = Inr x \<and> f x = ok)"
  by (simp add: ok_def rbind_Inr_iff)

subsection \<open>Accepted manipulations\<close>

lemma schedule_accepted:
  assumes "valid h sch" and "s \<in> sections_of sch" and "r \<in> all_roomslots h sch"
    and chk: "\<And>c. required c \<Longrightarrow> check_schedule_section re_match c h sch s r = ok"
  shows "\<exists>h'. schedule_effect h s r = Inr h' \<and> valid h' sch"
proof -
  let ?rs = "get_roomslots_by_duration h r (sec_duration (hp_sec h s))"
  have static: "static_ok h sch" using assms(1) by (simp add: valid_split)
  note grs = grs_registered [OF static assms(3), of "sec_duration (hp_sec h s)"]
  have "sec_roomslots (hp_sec h s) = []"
    using chk [of PreconditionConstraint] by (simp add: precondition_check_schedule_section_def check_iff)
  moreover have "\<forall>r\<in>set ?rs. rs_section (hp_rs h r) = None"
    using chk [of RoomConcurrencyConstraint]
    by (simp add: room_concurrency_check_schedule_section_def Let_def check_iff)
  moreover have "fits h sch s ?rs"
    using chk [of ContiguousConstraint] chk [of SectionDurationConstraint]
      chk [of TeacherAvailabilityConstraint] chk [of TeacherConcurrencyConstraint] grs
    by (auto simp: fits_def contiguous_section_iff [OF static assms(3)] duration_section_iff
        availability_check_schedule_section_def concurrency_check_schedule_section_def Let_def
        first_violation_ok_iff if_violated_ok_iff available_at_def)
  ultimately show ?thesis
    using put_fits [OF assms(1,2)] by (simp add: schedule_effect_def)
qed

lemma taught_available:
  assumes "valid h sch" and "s \<in> sections_of sch" and "t \<in> set (sec_teachers (hp_sec h s))"
  shows "t \<in> teachers_of sch" and "s \<in> set (taught_by h t)"
    and "available_at h t (sec_roomslots (hp_sec h s))"
proof -
  show t: "t \<in> teachers_of sch" using assms by (simp add: valid_def linked_def)
  show "s \<in> set (taught_by h t)"
    using assms t teaches_iff by (auto simp: valid_split)
  with t show "available_at h t (sec_roomslots (hp_sec h s))"
    using assms(1) by (auto simp: valid_def legal_iff)
qed

text \<open>Two different sections of a teacher are never at the same time.\<close>

lemma taught_disjoint:
  assumes "valid h sch" and "t \<in> teachers_of sch" and "x \<in> set (taught_by h t)"
    and "y \<in> set (taught_by h t)" and "x \<noteq> y"
  shows "rs_key h ` set (sec_roomslots (hp_sec h x)) \<inter> rs_key h ` set (sec_roomslots (hp_sec h y)) = {}"
  using assms one_place_iff [of h sch t] by (simp add: valid_split legal_iff)

lemma UN_remove:
  assumes "\<And>x. x \<in> X \<Longrightarrow> s \<in> X \<Longrightarrow> x \<noteq> s \<Longrightarrow> K x \<inter> K s = {}"
  shows "(\<Union>x\<in>X - {s}. K x) = (\<Union>x\<in>X. K x) - (if s \<in> X then K s else {})"
  using assms by auto

text \<open>After clearing a section its teachers no longer teach at its times.\<close>

lemma clear_teaching_set:
  assumes "valid h sch" and "s \<in> sections_of sch" and "t \<in> teachers_of sch"
  shows "get_already_teaching_set (clear_roomslots h s) t =
     get_already_teaching_set h t -
       (if t \<in> set (sec_teachers (hp_sec h s)) then rs_key h ` set (sec_roomslots (hp_sec h s)) else {})"
proof -
  note v = assms(1) [unfolded valid_split]
  note eq = same_staticD [OF same_static_clear [of h s]] same_static_ts [OF same_static_clear [of h s]]
  have "get_already_teaching_set (clear_roomslots h s) t =
      (\<Union>x\<in>set (taught_by h t) - {s}. rs_key h ` set (sec_roomslots (hp_sec h x)))"
    unfolding teaching_set_eq eq clear_roomslots_sel by (force split: if_splits)
  also have "\<dots> = get_already_teaching_set h t -
      (if s \<in> set (taught_by h t) then rs_key h ` set (sec_roomslots (hp_sec h s)) else {})"
    unfolding teaching_set_eq by (rule UN_remove) (rule taught_disjoint [OF assms(1,3)])
  finally show ?thesis using v assms(2,3) teaches_iff [of h sch s t] by simp
qed

lemma move_accepted:
  assumes "valid h sch" and "s \<in> sections_of sch" and "r \<in> all_roomslots h sch"
    and chk: "\<And>c. required c \<Longrightarrow> check_move_section re_match c h sch s r = ok"
  shows "\<exists>h'. move_effect h s r = Inr h' \<and> valid h' sch"
proof -
  let ?rs = "get_roomslots_by_duration h r (sec_duration (hp_sec h s))"
  let ?h1 = "clear_roomslots h s"
  note ss = same_static_clear [of h s]
  note eq = same_staticD [OF ss] same_static_ts [OF ss] same_static_grs [OF ss]
    same_static_list_preds [OF ss] same_static_all_roomslots [OF ss]
  have static: "static_ok h sch" and p: "placed h sch" using assms(1) by (simp_all add: valid_split)
  note grs = grs_registered [OF static assms(3), of "sec_duration (hp_sec h s)"]
  have v1: "valid ?h1 sch" by (rule clear_valid [OF assms(1,2)])
  have "\<forall>r\<in>set ?rs. rs_section (hp_rs h r) = None \<or> rs_section (hp_rs h r) = Some s"
    using chk [of RoomConcurrencyConstraint]
    by (simp add: room_concurrency_check_move_section_def Let_def check_iff)
  then have free: "\<forall>r\<in>set ?rs. rs_section (hp_rs ?h1 r) = None"
    using p grs(3) by (auto simp: placed_def subset_iff)
  have teachers: "available_at h t ?rs \<and> rs_key h ` set ?rs \<inter> get_already_teaching_set ?h1 t = {}"
    if t: "t \<in> set (sec_teachers (hp_sec h s))" for t
  proof
    note tt = taught_available [OF assms(1,2) t]
    have "available h t (rs_key h r') \<or> rs_key h r' \<in> rs_key h ` set (sec_roomslots (hp_sec h s))"
      if "r' \<in> set ?rs" for r'
      using chk [of TeacherAvailabilityConstraint] t that
      by (auto simp: availability_check_move_section_def Let_def check_iff)
    with tt(3) show "available_at h t ?rs" by (fastforce simp: available_at_def)
    show "rs_key h ` set ?rs \<inter> get_already_teaching_set ?h1 t = {}"
      using chk [of TeacherConcurrencyConstraint] t
      by (auto simp: concurrency_check_move_section_def rbind_ok_iff first_violation_ok_iff
          if_violated_ok_iff clear_teaching_set [OF assms(1,2) tt(1)] dest!: remove_times_Inr)
  qed
  have "fits ?h1 sch s ?rs"
    using chk [of ContiguousConstraint] chk [of SectionDurationConstraint] grs teachers
    by (simp add: fits_def eq contiguous_section_iff [OF static assms(3)] duration_section_iff)
  with put_fits [OF v1 assms(2) _ _ free] show ?thesis
    by (simp add: move_effect_def Let_def eq)
qed

lemma unschedule_valid:
  "valid h sch \<Longrightarrow> s \<in> sections_of sch \<Longrightarrow> valid (unschedule_effect h s) sch"
  by (simp add: unschedule_effect_def clear_valid)

lemma section_fits:
  assumes "valid h sch" and "s \<in> sections_of sch"
  defines "rs \<equiv> sec_roomslots (hp_sec h s)"
  shows "set rs \<subseteq> all_roomslots h sch" "roomslots_sorted h rs" "run_ok h rs"
    "span_ok h (sec_duration (hp_sec h s)) rs" "\<forall>r\<in>set rs. rs_section (hp_rs h r) = Some s"
  using assms by (auto simp: valid_split placed_def legal_iff rs_def)

lemma put_teaching_set:
  assumes "assign_roomslots h s rs False = Inr h'" and "roomslots_sorted h rs"
  shows "get_already_teaching_set h' t \<subseteq> get_already_teaching_set h t \<union>
     (if s \<in> set (taught_by h t) then rs_key h ` set rs else {})"
proof -
  note ss = same_static_assign [OF assms(1)]
  have sort: "sort_key (rs_key h) rs = rs"
    using assms(2) by (intro sort_key_sorted_wrt) (simp add: roomslots_sorted_def)
  show ?thesis
    by (auto simp: teaching_set_eq same_staticD [OF ss] same_static_ts [OF ss]
        assign_roomslots_sel [OF assms(1), unfolded sort] split: if_splits)
qed

lemma swap_accepted:
  assumes "valid h sch" and s1: "s1 \<in> sections_of sch" and s2: "s2 \<in> sections_of sch" and "s1 \<noteq> s2"
    and dur: "sec_duration (hp_sec h s1) = sec_duration (hp_sec h s2)"
    and chk: "\<And>c. required c \<Longrightarrow> check_swap_sections c h sch s1 s2 = ok"
  shows "\<exists>h'. swap_effect h s1 s2 = Inr h' \<and> valid h' sch"
proof -
  let ?rs1 = "sec_roomslots (hp_sec h s1)" and ?rs2 = "sec_roomslots (hp_sec h s2)"
  let ?T = "get_already_teaching_set h"
  define h1 where "h1 = clear_roomslots h s1"
  define h2 where "h2 = clear_roomslots h1 s2"
  have ss2: "same_static h h2"
    unfolding h2_def h1_def by (rule same_static_trans [OF same_static_clear same_static_clear])
  note eq2 = same_staticD [OF ss2] same_static_ts [OF ss2] same_static_list_preds [OF ss2]
    same_static_all_roomslots [OF ss2]
  have v1: "valid h1 sch" unfolding h1_def by (rule clear_valid [OF assms(1) s1])
  have v2: "valid h2 sch" unfolding h2_def by (rule clear_valid [OF v1 s2])
  note f1 = section_fits [OF assms(1) s1] and f2 = section_fits [OF assms(1) s2]
  have T2: "get_already_teaching_set h2 t = ?T t -
      (if t \<in> set (sec_teachers (hp_sec h s1)) then rs_key h ` set ?rs1 else {}) -
      (if t \<in> set (sec_teachers (hp_sec h s2)) then rs_key h ` set ?rs2 else {})"
    if "t \<in> teachers_of sch" for t
    using that \<open>s1 \<noteq> s2\<close> unfolding h2_def clear_teaching_set [OF v1 s2 that]
    unfolding h1_def clear_teaching_set [OF assms(1) s1 that]
    by (simp add: same_staticD [OF same_static_clear] same_static_ts [OF same_static_clear])
  have busy: "\<forall>t\<in>set (sec_teachers (hp_sec h s1)). \<forall>r\<in>set ?rs2.
        rs_key h r \<in> ?T t \<longrightarrow> rs_key h r \<in> rs_key h ` set ?rs1"
      "\<forall>t\<in>set (sec_teachers (hp_sec h s2)). \<forall>r\<in>set ?rs1.
        rs_key h r \<in> ?T t \<longrightarrow> rs_key h r \<in> rs_key h ` set ?rs2"
    using chk [of TeacherConcurrencyConstraint]
    by (simp_all add: concurrency_check_swap_sections_def Let_def check_iff)
  have avail: "\<forall>t\<in>set (sec_teachers (hp_sec h s1)). \<forall>r\<in>set ?rs2.
        available h t (rs_key h r) \<or> rs_key h r \<in> rs_key h ` set ?rs1"
      "\<forall>t\<in>set (sec_teachers (hp_sec h s2)). \<forall>r\<in>set ?rs1.
        available h t (rs_key h r) \<or> rs_key h r \<in> rs_key h ` set ?rs2"
    using chk [of TeacherAvailabilityConstraint]
    by (simp_all add: availability_check_swap_sections_def Let_def check_iff)
  have fit1: "fits h2 sch s1 ?rs2"
  proof -
    have "available_at h t ?rs2 \<and> rs_key h ` set ?rs2 \<inter> get_already_teaching_set h2 t = {}"
      if t: "t \<in> set (sec_teachers (hp_sec h s1))" for t
      using avail(1) busy(1) t taught_available(3) [OF assms(1) s1 t] T2 [OF taught_available(1) [OF assms(1) s1 t]]
      by (fastforce simp: available_at_def)
    with f1 f2 dur show ?thesis by (simp add: fits_def eq2)
  qed
  have free: "sec_roomslots (hp_sec h2 s1) = []" "sec_roomslots (hp_sec h2 s2) = []"
    "\<forall>r\<in>set ?rs1 \<union> set ?rs2. rs_section (hp_rs h2 r) = None"
    using \<open>s1 \<noteq> s2\<close> by (auto simp: h2_def h1_def)
  from put_fits [OF v2 s1 free(1) fit1] free(3) obtain h3 where
    h3: "assign_roomslots h2 s1 ?rs2 False = Inr h3" and v3: "valid h3 sch" by auto
  note sel3 = assign_roomslots_sel [OF h3]
  have ss3: "same_static h h3" by (rule same_static_trans [OF ss2 same_static_assign [OF h3]])
  note eq3 = same_staticD [OF ss3] same_static_ts [OF ss3] same_static_list_preds [OF ss3]
    same_static_all_roomslots [OF ss3]
  have "set ?rs1 \<inter> set ?rs2 = {}" using f1(5) f2(5) \<open>s1 \<noteq> s2\<close> by fastforce
  with free(3) have free3: "\<forall>r\<in>set ?rs1. rs_section (hp_rs h3 r) = None"
    by (auto simp: sel3)
  have "fits h3 sch s2 ?rs1"
  proof -
    have "available_at h t ?rs1 \<and> rs_key h ` set ?rs1 \<inter> get_already_teaching_set h3 t = {}"
      if t: "t \<in> set (sec_teachers (hp_sec h s2))" for t
    proof
      note tt = taught_available [OF assms(1) s2 t]
      show "available_at h t ?rs1"
        using avail(2) t tt(3) by (fastforce simp: available_at_def)
      have "rs_key h ` set ?rs1 \<inter> get_already_teaching_set h2 t = {}"
        using busy(2) t T2 [OF tt(1)] by auto
      moreover have "rs_key h ` set ?rs1 \<inter> rs_key h ` set ?rs2 = {}" if "s1 \<in> set (taught_by h t)"
        using taught_disjoint [OF assms(1) tt(1) that tt(2) \<open>s1 \<noteq> s2\<close>] .
      ultimately show "rs_key h ` set ?rs1 \<inter> get_already_teaching_set h3 t = {}"
        using put_teaching_set [OF h3, of t] f2(2)
        by (cases "s1 \<in> set (taught_by h t)") (simp_all add: eq2, blast+)
    qed
    with f1 f2 dur show ?thesis by (simp add: fits_def eq3)
  qed
  with put_fits [OF v3 s2 _ _ free3] free(2) \<open>s1 \<noteq> s2\<close> obtain h4 where
    "assign_roomslots h3 s2 ?rs1 False = Inr h4" "valid h4 sch" by (auto simp: sel3)
  with h3 show ?thesis by (simp add: swap_effect_def Let_def h1_def h2_def)
qed

end
