(* ===== verification/Steps.thy ===== *)
theory Steps
  imports Moves
begin

section \<open>Manipulations as steps, and their inverses\<close>

text \<open>
  The transition relation of the scheduler. A schedule is \<open>settled\<close> when it is valid and
  every scheduled section occupies exactly the roomslots \<open>get_roomslots_by_duration\<close>
  gives for its first one, and only sections of the schedule occupy its roomslots; sections placed by the scheduler do, and undoing relies on it.
  \<open>manip_step\<close> relates the stores before and after a manipulation. An accepted
  manipulation is a step, steps keep the schedule settled, and each step has an inverse
  which restores the store exactly.
\<close>

definition canonical :: "heap \<Rightarrow> 'c as_schedule \<Rightarrow> bool" where
  "canonical h sch \<longleftrightarrow>
     (\<forall>s\<in>sections_of sch. sec_roomslots (hp_sec h s) \<noteq> [] \<longrightarrow>
        get_roomslots_by_duration h (hd (sec_roomslots (hp_sec h s))) (sec_duration (hp_sec h s))
        = sec_roomslots (hp_sec h s))"

definition owned :: "heap \<Rightarrow> 'c as_schedule \<Rightarrow> bool" where
  "owned h sch \<longleftrightarrow>
     (\<forall>r\<in>all_roomslots h sch. \<forall>s. rs_section (hp_rs h r) = Some s \<longrightarrow> s \<in> sections_of sch)"

definition settled :: "heap \<Rightarrow> 'c as_schedule \<Rightarrow> bool" where
  "settled h sch \<longleftrightarrow> valid h sch \<and> canonical h sch \<and> owned h sch"

datatype manip =
    Schedule secref rsref
  | Move secref rsref
  | Unschedule secref
  | Swap secref secref

fun effect :: "heap \<Rightarrow> manip \<Rightarrow> heap result" where
  "effect h (Schedule s r) = schedule_effect h s r"
| "effect h (Move s r) = move_effect h s r"
| "effect h (Unschedule s) = Inr (unschedule_effect h s)"
| "effect h (Swap s1 s2) = swap_effect h s1 s2"

inductive manip_step :: "'c as_schedule \<Rightarrow> heap \<Rightarrow> manip \<Rightarrow> heap \<Rightarrow> bool" for sch where
  step_schedule: "settled h sch \<Longrightarrow> s \<in> sections_of sch \<Longrightarrow> \<not> is_scheduled h s \<Longrightarrow>
    r \<in> all_roomslots h sch \<Longrightarrow> schedule_effect h s r = Inr h' \<Longrightarrow> settled h' sch \<Longrightarrow>
    manip_step sch h (Schedule s r) h'"
| step_move: "settled h sch \<Longrightarrow> s \<in> sections_of sch \<Longrightarrow> is_scheduled h s \<Longrightarrow>
    r \<in> all_roomslots h sch \<Longrightarrow> move_effect h s r = Inr h' \<Longrightarrow> settled h' sch \<Longrightarrow>
    manip_step sch h (Move s r) h'"
| step_unschedule: "settled h sch \<Longrightarrow> s \<in> sections_of sch \<Longrightarrow> is_scheduled h s \<Longrightarrow>
    manip_step sch h (Unschedule s) (unschedule_effect h s)"
| step_swap: "settled h sch \<Longrightarrow> s1 \<in> sections_of sch \<Longrightarrow> s2 \<in> sections_of sch \<Longrightarrow> s1 \<noteq> s2 \<Longrightarrow>
    is_scheduled h s1 \<Longrightarrow> is_scheduled h s2 \<Longrightarrow> sec_duration (hp_sec h s1) = sec_duration (hp_sec h s2) \<Longrightarrow>
    set (sec_teachers (hp_sec h s1)) \<inter> set (sec_teachers (hp_sec h s2)) = {} \<Longrightarrow>
    swap_effect h s1 s2 = Inr h' \<Longrightarrow> settled h' sch \<Longrightarrow> manip_step sch h (Swap s1 s2) h'"

inductive_cases scheduleE: "manip_step sch h (Schedule s r) h'"
inductive_cases moveE: "manip_step sch h (Move s r) h'"
inductive_cases unscheduleE: "manip_step sch h (Unschedule s) h'"
inductive_cases swapE: "manip_step sch h (Swap s1 s2) h'"

inductive manip_steps :: "'c as_schedule \<Rightarrow> heap \<Rightarrow> manip list \<Rightarrow> heap \<Rightarrow> bool" for sch where
  steps_refl: "manip_steps sch h [] h"
| steps_step: "manip_step sch h m h1 \<Longrightarrow> manip_steps sch h1 ms h' \<Longrightarrow> manip_steps sch h (m # ms) h'"

lemma is_scheduled_iff [simp]: "is_scheduled h s \<longleftrightarrow> sec_roomslots (hp_sec h s) \<noteq> []"
  by (simp add: is_scheduled_def)

lemma settledD:
  assumes "settled h sch"
  shows "valid h sch" "static_ok h sch" "placed h sch" "linked h sch" "legal h sch"
  using assms by (simp_all add: settled_def valid_split)

subsection \<open>The roomslots after a step\<close>

lemma sort_key_grs:
  assumes "static_ok h sch" and "r \<in> all_roomslots h sch"
  shows "sort_key (rs_key h) (get_roomslots_by_duration h r d) = get_roomslots_by_duration h r d"
  using grs_registered(4) [OF assms] by (intro sort_key_sorted_wrt) (simp add: roomslots_sorted_def)

lemma schedule_effect_sel:
  assumes "static_ok h sch" and "r \<in> all_roomslots h sch" and "schedule_effect h s r = Inr h'"
  defines "rs \<equiv> get_roomslots_by_duration h r (sec_duration (hp_sec h s))"
  shows "sec_roomslots (hp_sec h' x) = (if x = s then rs else sec_roomslots (hp_sec h x))"
    and "rs_section (hp_rs h' r') = (if r' \<in> set rs then Some s else rs_section (hp_rs h r'))"
    and "\<forall>r\<in>set rs. rs_section (hp_rs h r) = None"
proof -
  have a: "assign_roomslots h s rs False = Inr h'"
    using assms(3) by (simp add: schedule_effect_def rs_def)
  from assign_roomslots_sel [OF a] show
    "sec_roomslots (hp_sec h' x) = (if x = s then rs else sec_roomslots (hp_sec h x))"
    "rs_section (hp_rs h' r') = (if r' \<in> set rs then Some s else rs_section (hp_rs h r'))"
    by (simp_all add: rs_def sort_key_grs [OF assms(1,2)])
  from a show "\<forall>r\<in>set rs. rs_section (hp_rs h r) = None" by (simp add: assign_roomslots_iff)
qed

lemma move_effect_sel:
  assumes "static_ok h sch" and "r \<in> all_roomslots h sch" and "move_effect h s r = Inr h'"
  defines "rs \<equiv> get_roomslots_by_duration h r (sec_duration (hp_sec h s))"
  shows "sec_roomslots (hp_sec h' x) = (if x = s then rs else sec_roomslots (hp_sec h x))"
    and "rs_section (hp_rs h' r') = (if r' \<in> set rs then Some s
           else if r' \<in> set (sec_roomslots (hp_sec h s)) then None else rs_section (hp_rs h r'))"
    and "\<forall>r\<in>set rs. r \<notin> set (sec_roomslots (hp_sec h s)) \<longrightarrow> rs_section (hp_rs h r) = None"
proof -
  note ss = same_static_clear [of h s]
  have 1: "static_ok (clear_roomslots h s) sch" "r \<in> all_roomslots (clear_roomslots h s) sch"
    using assms(1,2) by (simp_all add: same_static_static_ok [OF ss] same_static_all_roomslots [OF ss])
  note sel = schedule_effect_sel [OF 1 assms(3) [unfolded move_effect_eq], unfolded same_static_grs [OF ss]
      same_staticD [OF ss], folded rs_def]
  from sel(1) show "sec_roomslots (hp_sec h' x) = (if x = s then rs else sec_roomslots (hp_sec h x))"
    by simp
  from sel(2) show "rs_section (hp_rs h' r') = (if r' \<in> set rs then Some s
      else if r' \<in> set (sec_roomslots (hp_sec h s)) then None else rs_section (hp_rs h r'))" by simp
  from sel(3) show "\<forall>r\<in>set rs. r \<notin> set (sec_roomslots (hp_sec h s)) \<longrightarrow> rs_section (hp_rs h r) = None"
    by auto
qed

lemma swap_effect_sel:
  assumes "valid h sch" and "s1 \<in> sections_of sch" and "s2 \<in> sections_of sch" and "s1 \<noteq> s2"
    and "swap_effect h s1 s2 = Inr h'"
  defines "rs1 \<equiv> sec_roomslots (hp_sec h s1)" and "rs2 \<equiv> sec_roomslots (hp_sec h s2)"
  shows "sec_roomslots (hp_sec h' x) = (if x = s1 then rs2 else if x = s2 then rs1 else sec_roomslots (hp_sec h x))"
    and "rs_section (hp_rs h' r) = (if r \<in> set rs2 then Some s1 else if r \<in> set rs1 then Some s2
           else rs_section (hp_rs h r))"
proof -
  define h2 where "h2 = clear_roomslots (clear_roomslots h s1) s2"
  note f1 = section_fits [OF assms(1,2), folded rs1_def] and f2 = section_fits [OF assms(1,3), folded rs2_def]
  from assms(5) \<open>s1 \<noteq> s2\<close> obtain h3 where h3: "assign_roomslots h2 s1 rs2 False = Inr h3"
    and h': "assign_roomslots h3 s2 rs1 False = Inr h'"
    by (auto simp: swap_effect_def Let_def rbind_Inr_iff h2_def rs1_def rs2_def)
  have ss2: "same_static h h2"
    unfolding h2_def by (rule same_static_trans [OF same_static_clear same_static_clear])
  have ss3: "same_static h h3" by (rule same_static_trans [OF ss2 same_static_assign [OF h3]])
  have sort: "sort_key (rs_key h) rs1 = rs1" "sort_key (rs_key h) rs2 = rs2"
    using f1(2) f2(2) by (auto intro!: sort_key_sorted_wrt simp: roomslots_sorted_def)
  note sel = assign_roomslots_sel [OF h3, unfolded same_static_ts [OF ss2] sort]
    assign_roomslots_sel [OF h', unfolded same_static_ts [OF ss3] sort]
  have "set rs1 \<inter> set rs2 = {}" using f1(5) f2(5) \<open>s1 \<noteq> s2\<close> by fastforce
  then show "rs_section (hp_rs h' r) = (if r \<in> set rs2 then Some s1 else if r \<in> set rs1 then Some s2
      else rs_section (hp_rs h r))"
    using \<open>s1 \<noteq> s2\<close> by (auto simp: sel h2_def rs1_def rs2_def)
  show "sec_roomslots (hp_sec h' x) = (if x = s1 then rs2 else if x = s2 then rs1 else sec_roomslots (hp_sec h x))"
    using \<open>s1 \<noteq> s2\<close> by (simp add: sel h2_def)
qed

subsection \<open>Accepted manipulations are steps\<close>

lemma canonical_update:
  assumes "settled h sch" and "same_static h h'"
    and "\<And>x. x \<in> sections_of sch \<Longrightarrow> sec_roomslots (hp_sec h' x) = sec_roomslots (hp_sec h x) \<or>
        sec_roomslots (hp_sec h' x) = [] \<or>
        (\<exists>r\<in>all_roomslots h sch.
           sec_roomslots (hp_sec h' x) = get_roomslots_by_duration h r (sec_duration (hp_sec h x)))"
  shows "canonical h' sch"
  unfolding canonical_def
proof (intro ballI impI)
  fix x assume x: "x \<in> sections_of sch" and ne: "sec_roomslots (hp_sec h' x) \<noteq> []"
  have c: "canonical h sch" using assms(1) by (simp add: settled_def)
  show "get_roomslots_by_duration h' (hd (sec_roomslots (hp_sec h' x))) (sec_duration (hp_sec h' x)) =
      sec_roomslots (hp_sec h' x)"
    using assms(3) [OF x]
  proof (elim disjE bexE)
    assume eq: "sec_roomslots (hp_sec h' x) = sec_roomslots (hp_sec h x)"
    with c x ne show ?thesis
      by (simp add: canonical_def same_static_grs [OF assms(2)] same_staticD [OF assms(2)])
  next
    fix r assume r: "r \<in> all_roomslots h sch"
      and eq: "sec_roomslots (hp_sec h' x) = get_roomslots_by_duration h r (sec_duration (hp_sec h x))"
    show ?thesis
      using grs_registered(2) [OF settledD(2) [OF assms(1)] r, of "sec_duration (hp_sec h x)"]
      by (simp add: eq same_static_grs [OF assms(2)] same_staticD [OF assms(2)])
  qed (use ne in simp)
qed

lemma owned_update:
  assumes "settled h sch" and "same_static h h'"
    and "\<And>r. rs_section (hp_rs h' r) = rs_section (hp_rs h r) \<or>
        (\<forall>x. rs_section (hp_rs h' r) = Some x \<longrightarrow> x \<in> sections_of sch)"
  shows "owned h' sch"
  using assms(1,3) unfolding settled_def owned_def same_static_all_roomslots [OF assms(2)] by metis

lemma placed_section:
  assumes "settled h sch" and "r \<in> all_roomslots h sch" and "rs_section (hp_rs h r) = Some s"
  shows "s \<in> sections_of sch" "r \<in> set (sec_roomslots (hp_sec h s))"
proof -
  have "owned h sch" using assms(1) by (simp add: settled_def)
  with assms(2,3) show "s \<in> sections_of sch" unfolding owned_def by blast
  show "r \<in> set (sec_roomslots (hp_sec h s))"
    using settledD(3) [OF assms(1)] assms(2,3) unfolding placed_def by blast
qed

lemma section_hd:
  assumes "settled h sch" and "s \<in> sections_of sch" and "sec_roomslots (hp_sec h s) \<noteq> []"
  shows "hd (sec_roomslots (hp_sec h s)) \<in> all_roomslots h sch"
    and "get_roomslots_by_duration h (hd (sec_roomslots (hp_sec h s))) (sec_duration (hp_sec h s))
         = sec_roomslots (hp_sec h s)"
proof -
  have "valid h sch" "canonical h sch" using assms(1) by (simp_all add: settled_def)
  with assms(2,3) section_fits(1) [of h sch s] hd_in_set [OF assms(3)] show
    "hd (sec_roomslots (hp_sec h s)) \<in> all_roomslots h sch"
    "get_roomslots_by_duration h (hd (sec_roomslots (hp_sec h s))) (sec_duration (hp_sec h s))
      = sec_roomslots (hp_sec h s)"
    unfolding canonical_def by blast+
qed

lemma schedule_step:
  assumes "settled h sch" and "s \<in> sections_of sch" and "r \<in> all_roomslots h sch"
    and chk: "\<And>c. required c \<Longrightarrow> check_schedule_section re_match c h sch s r = ok"
  shows "\<exists>h'. schedule_effect h s r = Inr h' \<and> manip_step sch h (Schedule s r) h'"
proof -
  from schedule_accepted [OF settledD(1) [OF assms(1)] assms(2,3) chk]
  obtain h' where h': "schedule_effect h s r = Inr h'" "valid h' sch" by auto
  have "canonical h' sch"
    using assms(3) schedule_effect_sel(1) [OF settledD(2) [OF assms(1)] assms(3) h'(1)]
    by (intro canonical_update [OF assms(1) same_static_effects(1) [OF h'(1)]]) auto
  moreover have "owned h' sch"
    using assms(2) schedule_effect_sel(2) [OF settledD(2) [OF assms(1)] assms(3) h'(1)]
    by (intro owned_update [OF assms(1) same_static_effects(1) [OF h'(1)]]) auto
  moreover have "\<not> is_scheduled h s"
    using chk [of PreconditionConstraint] by (simp add: precondition_check_schedule_section_def check_iff)
  ultimately show ?thesis
    using assms h' by (auto intro!: step_schedule simp: settled_def)
qed

lemma move_step:
  assumes "settled h sch" and "s \<in> sections_of sch" and "r \<in> all_roomslots h sch"
    and chk: "\<And>c. required c \<Longrightarrow> check_move_section re_match c h sch s r = ok"
  shows "\<exists>h'. move_effect h s r = Inr h' \<and> manip_step sch h (Move s r) h'"
proof -
  from move_accepted [OF settledD(1) [OF assms(1)] assms(2,3) chk]
  obtain h' where h': "move_effect h s r = Inr h'" "valid h' sch" by auto
  have "canonical h' sch"
    using assms(3) move_effect_sel(1) [OF settledD(2) [OF assms(1)] assms(3) h'(1)]
    by (intro canonical_update [OF assms(1) same_static_effects(2) [OF h'(1)]]) auto
  moreover have "owned h' sch"
    using assms(2) move_effect_sel(2) [OF settledD(2) [OF assms(1)] assms(3) h'(1)]
    by (intro owned_update [OF assms(1) same_static_effects(2) [OF h'(1)]]) auto
  moreover have "is_scheduled h s"
    using chk [of PreconditionConstraint] by (simp add: precondition_check_move_section_def check_iff)
  ultimately show ?thesis
    using assms h' by (auto intro!: step_move simp: settled_def)
qed

lemma unschedule_settled:
  assumes "settled h sch" and "s \<in> sections_of sch"
  shows "settled (unschedule_effect h s) sch"
proof -
  have "canonical (unschedule_effect h s) sch"
    by (rule canonical_update [OF assms(1) same_static_effects(3)]) (simp add: unschedule_effect_def)
  moreover have "owned (unschedule_effect h s) sch"
    by (rule owned_update [OF assms(1) same_static_effects(3)]) (simp add: unschedule_effect_def)
  ultimately show ?thesis using unschedule_valid [OF _ assms(2)] assms(1) by (simp add: settled_def)
qed

lemma swap_step:
  assumes "settled h sch" and "s1 \<in> sections_of sch" and "s2 \<in> sections_of sch" and "s1 \<noteq> s2"
    and dur: "sec_duration (hp_sec h s1) = sec_duration (hp_sec h s2)"
    and chk: "\<And>c. required c \<Longrightarrow> check_swap_sections c h sch s1 s2 = ok"
  shows "\<exists>h'. swap_effect h s1 s2 = Inr h' \<and> manip_step sch h (Swap s1 s2) h'"
proof -
  note v = settledD(1) [OF assms(1)]
  from swap_accepted [OF v assms(2-4) dur chk]
  obtain h' where h': "swap_effect h s1 s2 = Inr h'" "valid h' sch" by auto
  have len: "length (sec_roomslots (hp_sec h s1)) = length (sec_roomslots (hp_sec h s2))"
    "sec_roomslots (hp_sec h s1) \<noteq> []"
    using chk [of PreconditionConstraint] by (simp_all add: precondition_check_swap_sections_def check_iff)
  then have ne: "sec_roomslots (hp_sec h s2) \<noteq> []" by auto
  note hd1 = section_hd [OF assms(1,2) len(2)] and hd2 = section_hd [OF assms(1,3) ne]
  have "canonical h' sch"
  proof (rule canonical_update [OF assms(1) same_static_effects(4) [OF h'(1)]])
    fix x
    show "sec_roomslots (hp_sec h' x) = sec_roomslots (hp_sec h x) \<or> sec_roomslots (hp_sec h' x) = [] \<or>
        (\<exists>r\<in>all_roomslots h sch.
          sec_roomslots (hp_sec h' x) = get_roomslots_by_duration h r (sec_duration (hp_sec h x)))"
      unfolding swap_effect_sel(1) [OF v assms(2-4) h'(1)] using hd1 hd2 dur by metis
  qed
  moreover have "owned h' sch"
    using assms(2,3) swap_effect_sel(2) [OF v assms(2-4) h'(1)]
    by (intro owned_update [OF assms(1) same_static_effects(4) [OF h'(1)]]) auto
  moreover have "set (sec_teachers (hp_sec h s1)) \<inter> set (sec_teachers (hp_sec h s2)) = {}"
  proof (rule ccontr)
    assume "\<not> ?thesis"
    then obtain t where t: "t \<in> set (sec_teachers (hp_sec h s1))" "t \<in> set (sec_teachers (hp_sec h s2))"
      by blast
    note t1 = taught_available [OF v assms(2) t(1)] and t2 = taught_available [OF v assms(3) t(2)]
    let ?r = "hd (sec_roomslots (hp_sec h s2))"
    have r: "?r \<in> set (sec_roomslots (hp_sec h s2))" using ne by simp
    then have "rs_key h ?r \<in> get_already_teaching_set h t" using t2(2) by (auto simp: teaching_set_eq)
    with chk [of TeacherConcurrencyConstraint] t(1) r
    have "rs_key h ?r \<in> rs_key h ` set (sec_roomslots (hp_sec h s1))"
      by (auto simp: concurrency_check_swap_sections_def Let_def check_iff)
    with r taught_disjoint [OF v t1(1) t1(2) t2(2) \<open>s1 \<noteq> s2\<close>] show False by blast
  qed
  ultimately show ?thesis
    using assms h' len ne by (auto intro!: step_swap simp: settled_def)
qed

lemma step_settled:
  assumes "manip_step sch h m h'"
  shows "settled h sch" and "settled h' sch" and "same_static h h'" and "effect h m = Inr h'"
  using assms by (cases; simp add: unschedule_settled same_static_effects)+

lemma steps_settled: "manip_steps sch h ms h' \<Longrightarrow> settled h sch \<Longrightarrow> settled h' sch"
  by (induction rule: manip_steps.induct) (auto dest: step_settled)

subsection \<open>Inverses\<close>

text \<open>Placements are all that two stores with the same static part can differ in.\<close>

lemma heap_eqI:
  assumes "same_static h h'"
    and "\<And>s. sec_roomslots (hp_sec h' s) = sec_roomslots (hp_sec h s)"
    and "\<And>r. rs_section (hp_rs h' r) = rs_section (hp_rs h r)"
  shows "h' = h"
  using assms by (auto simp: same_static_def fun_eq_iff intro!: heap.equality as_section.equality
      as_roomslot.equality)

lemma placed_iff:
  assumes "settled h sch" and "s \<in> sections_of sch" and "r \<in> all_roomslots h sch"
  shows "rs_section (hp_rs h r) = Some s \<longleftrightarrow> r \<in> set (sec_roomslots (hp_sec h s))"
  using settledD(3) [OF assms(1)] assms(2,3) unfolding placed_def by blast

definition first_roomslot :: "heap \<Rightarrow> secref \<Rightarrow> rsref" where
  "first_roomslot h s = hd (sec_roomslots (hp_sec h s))"

lemma schedule_inverse:
  assumes "manip_step sch h (Schedule s r) h'"
  shows "manip_step sch h' (Unschedule s) h" and "unschedule_effect h' s = h"
proof -
  from assms have a: "settled h sch" "s \<in> sections_of sch" "\<not> is_scheduled h s" "r \<in> all_roomslots h sch"
    "schedule_effect h s r = Inr h'" "settled h' sch" by (auto elim: scheduleE)
  note ss = same_static_effects(1) [OF a(5)]
  note sel = schedule_effect_sel [OF settledD(2) [OF a(1)] a(4,5)]
  show eq: "unschedule_effect h' s = h"
  proof (rule heap_eqI)
    show "same_static h (unschedule_effect h' s)"
      by (rule same_static_trans [OF ss same_static_effects(3)])
  qed (use a(3) sel in \<open>auto simp: unschedule_effect_def\<close>)
  have "is_scheduled h' s"
    using grs_registered(1) [OF settledD(2) [OF a(1)] a(4)] by (simp add: sel)
  from step_unschedule [OF a(6) a(2) this] show "manip_step sch h' (Unschedule s) h" by (simp add: eq)
qed

lemma unschedule_inverse:
  assumes "manip_step sch h (Unschedule s) h'"
  shows "manip_step sch h' (Schedule s (first_roomslot h s)) h"
proof -
  from assms have a: "settled h sch" "s \<in> sections_of sch" "is_scheduled h s"
    and h': "h' = clear_roomslots h s" by (auto elim: unscheduleE simp: unschedule_effect_def)
  note hd = section_hd [OF a(1,2) a(3) [unfolded is_scheduled_iff]]
  note ss = same_static_clear [of h s, folded h']
  have rs: "get_roomslots_by_duration h' (first_roomslot h s) (sec_duration (hp_sec h' s)) =
      sec_roomslots (hp_sec h s)"
    using hd(2) by (simp add: first_roomslot_def same_static_grs [OF ss] same_staticD [OF ss])
  note fit = section_fits [OF settledD(1) [OF a(1)] a(2)]
  have "distinct (sec_roomslots (hp_sec h s))"
    using sorted_distinct_keys [OF fit(2)] by (simp add: distinct_map)
  then have "\<exists>h2. assign_roomslots h' s (sec_roomslots (hp_sec h s)) False = Inr h2"
    by (simp add: assign_roomslots_iff h')
  then obtain h2 where h2: "schedule_effect h' s (first_roomslot h s) = Inr h2"
    by (auto simp: schedule_effect_def rs)
  have s': "settled h' sch" using step_settled(2) [OF assms] .
  have av: "first_roomslot h s \<in> all_roomslots h' sch"
    using hd(1) by (simp add: first_roomslot_def same_static_all_roomslots [OF ss])
  note sel = schedule_effect_sel [OF settledD(2) [OF s'] av h2, unfolded rs]
  have "h2 = h"
  proof (rule heap_eqI)
    show "same_static h h2" by (rule same_static_trans [OF ss same_static_effects(1) [OF h2]])
  qed (use fit(5) in \<open>auto simp: sel h'\<close>)
  with h2 a s' av show ?thesis by (auto intro!: step_schedule simp: h')
qed

lemma move_inverse:
  assumes "manip_step sch h (Move s r) h'"
  shows "manip_step sch h' (Move s (first_roomslot h s)) h"
proof -
  from assms have a: "settled h sch" "s \<in> sections_of sch" "is_scheduled h s" "r \<in> all_roomslots h sch"
    "move_effect h s r = Inr h'" "settled h' sch" by (auto elim: moveE)
  note ss = same_static_effects(2) [OF a(5)]
  note sel = move_effect_sel [OF settledD(2) [OF a(1)] a(4,5)]
  note hd = section_hd [OF a(1,2) a(3) [unfolded is_scheduled_iff]]
  note fit = section_fits [OF settledD(1) [OF a(1)] a(2)]
  have rs: "get_roomslots_by_duration h' (first_roomslot h s) (sec_duration (hp_sec h' s)) =
      sec_roomslots (hp_sec h s)"
    using hd(2) by (simp add: first_roomslot_def same_static_grs [OF ss] same_staticD [OF ss])
  have av: "first_roomslot h s \<in> all_roomslots h' sch"
    using hd(1) by (simp add: first_roomslot_def same_static_all_roomslots [OF ss])
  have "distinct (sec_roomslots (hp_sec h s))"
    using sorted_distinct_keys [OF fit(2)] by (simp add: distinct_map)
  moreover note ssc = same_static_clear [of h' s]
  ultimately obtain h2 where h2: "move_effect h' s (first_roomslot h s) = Inr h2"
    using assign_roomslots_iff [of "clear_roomslots h' s" s "sec_roomslots (hp_sec h s)"] sel(2)
    by (auto simp: move_effect_def Let_def rs same_static_grs [OF ssc] same_staticD [OF ssc] sel(1))
  note sel2 = move_effect_sel [OF settledD(2) [OF a(6)] av h2, unfolded rs]
  have "h2 = h"
  proof (rule heap_eqI)
    show "same_static h h2" by (rule same_static_trans [OF ss same_static_effects(2) [OF h2]])
    show "rs_section (hp_rs h2 r') = rs_section (hp_rs h r')" for r'
      using fit(5) sel(3) by (auto simp: sel2 sel(1,2))
  qed (simp add: sel2 sel(1))
  moreover have "is_scheduled h' s"
    using grs_registered(1) [OF settledD(2) [OF a(1)] a(4)] by (simp add: sel)
  ultimately show ?thesis using step_move [OF a(6) a(2) _ av h2] a(1) by simp
qed

lemma swap_inverse:
  assumes "manip_step sch h (Swap s1 s2) h'"
  shows "manip_step sch h' (Swap s1 s2) h"
proof -
  from assms have a: "settled h sch" "s1 \<in> sections_of sch" "s2 \<in> sections_of sch" "s1 \<noteq> s2"
    "is_scheduled h s1" "is_scheduled h s2" "sec_duration (hp_sec h s1) = sec_duration (hp_sec h s2)"
    "set (sec_teachers (hp_sec h s1)) \<inter> set (sec_teachers (hp_sec h s2)) = {}"
    "swap_effect h s1 s2 = Inr h'" "settled h' sch" by (auto elim: swapE)
  note ss = same_static_effects(4) [OF a(9)]
  note sel = swap_effect_sel [OF settledD(1) [OF a(1)] a(2-4,9)]
  let ?rs1 = "sec_roomslots (hp_sec h s1)" and ?rs2 = "sec_roomslots (hp_sec h s2)"
  note f1 = section_fits [OF settledD(1) [OF a(1)] a(2)] and f2 = section_fits [OF settledD(1) [OF a(1)] a(3)]
  have d: "distinct ?rs1" "distinct ?rs2"
    using sorted_distinct_keys [OF f1(2)] sorted_distinct_keys [OF f2(2)] by (simp_all add: distinct_map)
  have disj: "set ?rs1 \<inter> set ?rs2 = {}" using f1(5) f2(5) a(4) by fastforce
  define k2 where "k2 = clear_roomslots (clear_roomslots h' s1) s2"
  have "\<forall>r\<in>set ?rs1 \<union> set ?rs2. rs_section (hp_rs k2 r) = None"
    "sec_roomslots (hp_sec k2 s1) = []" "sec_roomslots (hp_sec k2 s2) = []"
    using a(4) by (auto simp: k2_def sel(1))
  with d obtain k3 where k3: "assign_roomslots k2 s1 ?rs1 False = Inr k3"
    using assign_roomslots_iff [of k2 s1 ?rs1] by blast
  have "sec_roomslots (hp_sec k3 s2) = []" "\<forall>r\<in>set ?rs2. rs_section (hp_rs k3 r) = None"
    using \<open>\<forall>r\<in>_. rs_section (hp_rs k2 r) = None\<close> \<open>sec_roomslots (hp_sec k2 s2) = []\<close> a(4) disj
    by (auto simp: assign_roomslots_sel [OF k3])
  with d obtain h2 where "assign_roomslots k3 s2 ?rs2 False = Inr h2"
    using assign_roomslots_iff [of k3 s2 ?rs2] by blast
  with k3 a(4) have h2: "swap_effect h' s1 s2 = Inr h2"
    by (simp add: swap_effect_def Let_def sel(1) k2_def)
  note sel2 = swap_effect_sel [OF settledD(1) [OF a(10)] a(2-4) h2]
  have "h2 = h"
  proof (rule heap_eqI)
    show "same_static h h2" by (rule same_static_trans [OF ss same_static_effects(4) [OF h2]])
  qed (use a(4) f1(5) f2(5) in \<open>auto simp: sel2 sel\<close>)
  with h2 a show ?thesis
    by (auto intro!: step_swap simp: sel(1) same_staticD [OF ss])
qed

text \<open>The inverse of a manipulation performed in the store \<open>h\<close>.\<close>

fun inverse :: "heap \<Rightarrow> manip \<Rightarrow> manip" where
  "inverse h (Schedule s r) = Unschedule s"
| "inverse h (Move s r) = Move s (first_roomslot h s)"
| "inverse h (Unschedule s) = Schedule s (first_roomslot h s)"
| "inverse h (Swap s1 s2) = Swap s1 s2"

lemma step_inverse: "manip_step sch h m h' \<Longrightarrow> manip_step sch h' (inverse h m) h"
  by (cases m) (auto intro: schedule_inverse unschedule_inverse move_inverse swap_inverse)

end
