(* ===== verification/Scorer_Contract.thy ===== *)
theory Scorer_Contract
  imports Steps
begin

section \<open>What a scorer promises (BaseScorer in autoscheduler/scoring.py)\<close>

text \<open>
  A scorer keeps a state from which it computes a score. \<open>update_schedule\<close> computes the
  state from a whole schedule; the other updates adjust it to one manipulation, and are
  called before the manipulation is carried out. The promise, which is the locale
  \<open>incremental_scorer\<close>: after every manipulation the adjusted state is the one computed
  from scratch. Its client lemma is about any sequence of manipulations.

  Most scorers add up what each section contributes. \<open>section_sum\<close> is their interface: the
  state is a function of a part that no placement changes and of totals indexed by a key
  (a timeslot, a teacher, or just unit), and the updates subtract and add contributions.
  Such a scorer is an \<open>incremental_scorer\<close> (the sublocale below). \<open>default_section_sum\<close> is for the
  scorers that inherit the default \<open>update_move_section\<close> and \<open>update_swap_sections\<close>.
  The scorer theories interpret these locales on the definitions of the model.
\<close>

subsection \<open>Defaults of the base class, and arithmetic\<close>

definition default_move ::
  "(heap \<Rightarrow> 's \<Rightarrow> secref \<Rightarrow> 's result) \<Rightarrow> (heap \<Rightarrow> 's \<Rightarrow> secref \<Rightarrow> rsref \<Rightarrow> 's result) \<Rightarrow>
   heap \<Rightarrow> 's \<Rightarrow> secref \<Rightarrow> rsref \<Rightarrow> 's result" where
  "default_move update_unschedule_section update_schedule_section h st s start_roomslot =
     rbind (update_unschedule_section h st s) (\<lambda>st1. update_schedule_section h st1 s start_roomslot)"

definition default_swap ::
  "(heap \<Rightarrow> 's \<Rightarrow> secref \<Rightarrow> rsref \<Rightarrow> 's result) \<Rightarrow> heap \<Rightarrow> 's \<Rightarrow> secref \<Rightarrow> secref \<Rightarrow> 's result" where
  "default_swap update_move_section h st section1 section2 =
     rbind (py_first (sec_roomslots (hp_sec h section2))) (\<lambda>r2.
     rbind (update_move_section h st section1 r2) (\<lambda>st1.
     rbind (py_first (sec_roomslots (hp_sec h section1))) (\<lambda>r1.
     update_move_section h st1 section2 r1)))"

definition py_div :: "rat \<Rightarrow> rat \<Rightarrow> rat result" where
  "py_div a b = (if b = 0 then Inl ZeroDivisionError else Inr (a / b))"

lemma py_div_Inr_iff [check_iff]: "py_div a b = Inr q \<longleftrightarrow> b \<noteq> 0 \<and> q = a / b"
  by (auto simp: py_div_def)

definition dict_add :: "('k, 'v::plus) dict \<Rightarrow> 'k \<Rightarrow> 'v \<Rightarrow> ('k, 'v) dict result" where
  "dict_add d k x = rbind (dict_get d k) (\<lambda>v. Inr (AList.update k (v + x) d))"

definition section_list :: "'c as_schedule \<Rightarrow> secref list" where
  "section_list sch = dict_values (sch_sections sch)"

abbreviation roomslots_of :: "heap \<Rightarrow> secref \<Rightarrow> rsref list" where
  "roomslots_of h s \<equiv> sec_roomslots (hp_sec h s)"

abbreviation needed :: "heap \<Rightarrow> secref \<Rightarrow> rsref \<Rightarrow> rsref list" where
  "needed h s r \<equiv> get_roomslots_by_duration h r (sec_duration (hp_sec h s))"

lemma distinct_sections: "linked h sch \<Longrightarrow> static_ok h sch \<Longrightarrow> distinct (section_list sch)"
  unfolding section_list_def linked_def static_ok_def dicts_ok_def
  by (rule distinct_values [of _ "\<lambda>s. sec_id (hp_sec h s)"]) auto

lemma distinct_settled: "settled h sch \<Longrightarrow> distinct (section_list sch)"
  by (rule distinct_sections [OF settledD(4) settledD(2)])

subsection \<open>Dictionaries of totals\<close>

definition tab :: "'k list \<Rightarrow> ('k \<Rightarrow> 'v) \<Rightarrow> ('k, 'v) dict" where
  "tab keys f = map (\<lambda>k. (k, f k)) keys"

lemma map_of_tab: "map_of (tab keys f) k = (if k \<in> set keys then Some (f k) else None)"
  by (induction keys) (auto simp: tab_def)

lemma tab_keys [simp]: "dict_keys (tab keys f) = keys"
  by (simp add: tab_def dict_keys_def comp_def)

lemma tab_values [simp]: "dict_values (tab keys f) = map f keys"
  by (simp add: tab_def dict_values_def comp_def)

lemma update_tab: "distinct keys \<Longrightarrow> k \<in> set keys \<Longrightarrow> AList.update k v (tab keys f) = tab keys (f(k := v))"
  by (induction keys) (auto simp: tab_def)

lemma dict_add_tab:
  "distinct keys \<Longrightarrow> k \<in> set keys \<Longrightarrow> dict_add (tab keys f) k x = Inr (tab keys (f(k := f k + x)))"
  by (simp add: dict_add_def dict_get_def map_of_tab update_tab)

text \<open>A dictionary comprehension with a constant value; its keys.\<close>

definition dedup :: "'k list \<Rightarrow> 'k list" where
  "dedup ks = dict_keys (dict_of (map (\<lambda>k. (k, ())) ks))"

lemma dict_keys_update: "dict_keys (AList.update k v d) = dict_keys d @ (if k \<in> set (dict_keys d) then [] else [k])"
  by (induction d) (auto simp: dict_keys_def)

lemma dict_of_keys:
  "dict_keys (fold (\<lambda>(k, v) d. AList.update k v d) kvs d) =
   dict_keys (fold (\<lambda>(k, v) d. AList.update k v d) (map (\<lambda>(k, v). (k, ())) kvs) (map (\<lambda>(k, v). (k, ())) d))"
proof (induction kvs arbitrary: d)
  case Nil
  then show ?case by (simp add: dict_keys_def comp_def split_beta)
next
  case (Cons kv kvs)
  obtain k v where kv: "kv = (k, v)" by (cases kv)
  have "map (\<lambda>(k, v). (k, ())) (AList.update k v d) = AList.update k () (map (\<lambda>(k, v). (k, ())) d)"
    by (induction d) auto
  with Cons [of "AList.update k v d"] show ?case by (simp add: kv)
qed

lemma dict_of_const: "dict_of (map (\<lambda>x. (g x, c)) xs) = tab (dedup (map g xs)) (\<lambda>_. c)"
proof -
  let ?d = "dict_of (map (\<lambda>x. (g x, c)) xs)"
  have "dict_keys ?d = dedup (map g xs)"
    using dict_of_keys [of "map (\<lambda>x. (g x, c)) xs" "[]"] by (simp add: dict_of_def dedup_def comp_def)
  moreover have "snd ` set (fold (\<lambda>(k, v) d. AList.update k v d) (map (\<lambda>x. (g x, c)) xs) d) \<subseteq> {c}"
    if "snd ` set d \<subseteq> {c}" for d
    using that
  proof (induction xs arbitrary: d)
    case (Cons x xs)
    have "snd ` set (AList.update (g x) c d) \<subseteq> {c}"
      using Cons.prems by (induction d) auto
    with Cons.IH show ?case by simp
  qed simp
  from this [of "[]"] have "\<forall>kv\<in>set ?d. snd kv = c" by (auto simp: dict_of_def)
  then have "map (\<lambda>k. (k, c)) (map fst ?d) = ?d"
    by (induction ?d) (auto simp: comp_def map_idI prod_eq_iff intro!: map_idI)
  ultimately show ?thesis by (simp add: tab_def dict_keys_def)
qed

lemma fst_set_fold_update:
  "fst ` set (fold (\<lambda>(k, v) d. AList.update k v d) kvs d) = fst ` set kvs \<union> fst ` set d"
proof (induction kvs arbitrary: d)
  case (Cons kv kvs)
  then show ?case by (cases kv) (simp add: fst_set_update)
qed simp

lemma set_dedup [simp]: "set (dedup ks) = set ks"
  by (simp add: dedup_def dict_keys_def dict_of_def fst_set_fold_update image_image)

lemma distinct_dedup [simp]: "distinct (dedup ks)"
  by (simp add: dedup_def dict_keys_def)

subsection \<open>The contract\<close>

fun scorer_update ::
  "(heap \<Rightarrow> 's \<Rightarrow> secref \<Rightarrow> rsref \<Rightarrow> 's result) \<Rightarrow> (heap \<Rightarrow> 's \<Rightarrow> secref \<Rightarrow> rsref \<Rightarrow> 's result) \<Rightarrow>
   (heap \<Rightarrow> 's \<Rightarrow> secref \<Rightarrow> 's result) \<Rightarrow> (heap \<Rightarrow> 's \<Rightarrow> secref \<Rightarrow> secref \<Rightarrow> 's result) \<Rightarrow>
   heap \<Rightarrow> 's \<Rightarrow> manip \<Rightarrow> 's result" where
  "scorer_update us um uu uw h st (Schedule s r) = us h st s r"
| "scorer_update us um uu uw h st (Move s r) = um h st s r"
| "scorer_update us um uu uw h st (Unschedule s) = uu h st s"
| "scorer_update us um uu uw h st (Swap s1 s2) = uw h st s1 s2"

text \<open>Run a sequence of manipulations, updating the scorer before each.\<close>

fun run_scorer :: "(heap \<Rightarrow> 's \<Rightarrow> manip \<Rightarrow> 's result) \<Rightarrow> heap \<Rightarrow> 's \<Rightarrow> manip list \<Rightarrow> ('s \<times> heap) result" where
  "run_scorer u h st [] = Inr (st, h)"
| "run_scorer u h st (m # ms) =
     rbind (u h st m) (\<lambda>st1. rbind (effect h m) (\<lambda>h1. run_scorer u h1 st1 ms))"

locale incremental_scorer =
  fixes fresh :: "heap \<Rightarrow> schedule \<Rightarrow> 's result"
    and upd_schedule :: "heap \<Rightarrow> 's \<Rightarrow> secref \<Rightarrow> rsref \<Rightarrow> 's result"
    and upd_move :: "heap \<Rightarrow> 's \<Rightarrow> secref \<Rightarrow> rsref \<Rightarrow> 's result"
    and upd_unschedule :: "heap \<Rightarrow> 's \<Rightarrow> secref \<Rightarrow> 's result"
    and upd_swap :: "heap \<Rightarrow> 's \<Rightarrow> secref \<Rightarrow> secref \<Rightarrow> 's result"
  assumes step_fresh: "manip_step sch h m h' \<Longrightarrow> fresh h sch = Inr st \<Longrightarrow>
      scorer_update upd_schedule upd_move upd_unschedule upd_swap h st m = fresh h' sch"
    and step_total: "manip_step sch h m h' \<Longrightarrow> fresh h sch = Inr st \<Longrightarrow> \<exists>st'. fresh h' sch = Inr st'"
begin

lemma run_fresh:
  "manip_steps sch h ms h' \<Longrightarrow> fresh h sch = Inr st \<Longrightarrow>
   \<exists>st'. fresh h' sch = Inr st' \<and>
     run_scorer (scorer_update upd_schedule upd_move upd_unschedule upd_swap) h st ms = Inr (st', h')"
proof (induction arbitrary: st rule: manip_steps.induct)
  case (steps_step h m h1 ms h')
  from steps_step.hyps(1) steps_step.prems obtain st1 where "fresh h1 sch = Inr st1"
    using step_total by blast
  with step_fresh [OF steps_step.hyps(1) steps_step.prems] steps_step.IH step_settled(4) [OF steps_step.hyps(1)]
  show ?case by simp
qed simp

text \<open>A manipulation and its inverse leave the state as it was.\<close>

lemma update_inverse:
  assumes "manip_step sch h m h'" and "fresh h sch = Inr st"
    and "scorer_update upd_schedule upd_move upd_unschedule upd_swap h st m = Inr st'"
  shows "scorer_update upd_schedule upd_move upd_unschedule upd_swap h' st' (inverse h m) = Inr st"
  using step_fresh [OF assms(1,2)] step_fresh [OF step_inverse [OF assms(1)]] assms(2,3) by simp

end

subsection \<open>Sums over sections\<close>

definition section_total ::
  "(heap \<Rightarrow> 'p \<Rightarrow> secref \<Rightarrow> rsref list \<Rightarrow> 'k \<Rightarrow> 'v::ab_group_add) \<Rightarrow> heap \<Rightarrow> 'p \<Rightarrow>
   'c as_schedule \<Rightarrow> 'k \<Rightarrow> 'v" where
  "section_total contrib h p sch k = (\<Sum>s\<leftarrow>section_list sch. contrib h p s (roomslots_of h s) k)"

lemma sum_list_update:
  fixes f g :: "'a \<Rightarrow> 'v::ab_group_add"
  assumes "distinct xs" and "s \<in> set xs" and "\<And>x. x \<noteq> s \<Longrightarrow> g x = f x"
  shows "sum_list (map g xs) = sum_list (map f xs) - f s + g s"
  using assms
proof (induction xs)
  case (Cons x xs)
  show ?case
  proof (cases "x = s")
    case True
    with Cons.prems have "map g xs = map f xs" by (metis distinct.simps(2) map_cong)
    with True show ?thesis by (simp del: map_eq_conv)
  next
    case False
    with Cons show ?thesis by (simp add: algebra_simps)
  qed
qed simp

lemma section_total_update:
  assumes "settled h sch" and "s \<in> sections_of sch"
    and "\<And>x. x \<noteq> s \<Longrightarrow> roomslots_of h' x = roomslots_of h x" and "contrib h' p = contrib h p"
  shows "section_total contrib h' p sch =
    (\<lambda>k. section_total contrib h p sch k - contrib h p s (roomslots_of h s) k + contrib h p s (roomslots_of h' s) k)"
  unfolding section_total_def fun_eq_iff assms(4)
  using assms(2,3) distinct_settled [OF assms(1)]
  by (intro allI sum_list_update) (auto simp: section_list_def)

locale section_sum =
  fixes params :: "heap \<Rightarrow> schedule \<Rightarrow> 'p result"
    and mk :: "'p \<Rightarrow> ('k \<Rightarrow> 'v::ab_group_add) \<Rightarrow> 's"
    and contrib :: "heap \<Rightarrow> 'p \<Rightarrow> secref \<Rightarrow> rsref list \<Rightarrow> 'k \<Rightarrow> 'v"
    and fresh :: "heap \<Rightarrow> schedule \<Rightarrow> 's result"
    and upd_schedule :: "heap \<Rightarrow> 's \<Rightarrow> secref \<Rightarrow> rsref \<Rightarrow> 's result"
    and upd_move :: "heap \<Rightarrow> 's \<Rightarrow> secref \<Rightarrow> rsref \<Rightarrow> 's result"
    and upd_unschedule :: "heap \<Rightarrow> 's \<Rightarrow> secref \<Rightarrow> 's result"
    and upd_swap :: "heap \<Rightarrow> 's \<Rightarrow> secref \<Rightarrow> secref \<Rightarrow> 's result"
  assumes params_static: "same_static h h' \<Longrightarrow> params h' sch = params h sch"
    and contrib_static: "same_static h h' \<Longrightarrow> contrib h' p = contrib h p"
    and contrib_Nil: "contrib h p s [] k = 0"
    and fresh_eq: "settled h sch \<Longrightarrow>
      fresh h sch = rbind (params h sch) (\<lambda>p. Inr (mk p (section_total contrib h p sch)))"
    and schedule_eq: "manip_step sch h (Schedule s r) h' \<Longrightarrow> params h sch = Inr p \<Longrightarrow>
      upd_schedule h (mk p (section_total contrib h p sch)) s r =
        Inr (mk p (\<lambda>k. section_total contrib h p sch k + contrib h p s (needed h s r) k))"
    and move_eq: "manip_step sch h (Move s r) h' \<Longrightarrow> params h sch = Inr p \<Longrightarrow>
      upd_move h (mk p (section_total contrib h p sch)) s r =
        Inr (mk p (\<lambda>k. section_total contrib h p sch k - contrib h p s (roomslots_of h s) k
                         + contrib h p s (needed h s r) k))"
    and unschedule_eq: "manip_step sch h (Unschedule s) h' \<Longrightarrow> params h sch = Inr p \<Longrightarrow>
      upd_unschedule h (mk p (section_total contrib h p sch)) s =
        Inr (mk p (\<lambda>k. section_total contrib h p sch k - contrib h p s (roomslots_of h s) k))"
    and swap_eq: "manip_step sch h (Swap s s2) h' \<Longrightarrow> params h sch = Inr p \<Longrightarrow>
      upd_swap h (mk p (section_total contrib h p sch)) s s2 =
        Inr (mk p (\<lambda>k. section_total contrib h p sch k - contrib h p s (roomslots_of h s) k
                         + contrib h p s (roomslots_of h s2) k - contrib h p s2 (roomslots_of h s2) k
                         + contrib h p s2 (roomslots_of h s) k))"
begin

lemma total_step:
  assumes "manip_step sch h m h'"
  shows "section_total contrib h' p sch = (case m of
      Schedule s r \<Rightarrow> (\<lambda>k. section_total contrib h p sch k + contrib h p s (needed h s r) k)
    | Move s r \<Rightarrow> (\<lambda>k. section_total contrib h p sch k - contrib h p s (roomslots_of h s) k
                       + contrib h p s (needed h s r) k)
    | Unschedule s \<Rightarrow> (\<lambda>k. section_total contrib h p sch k - contrib h p s (roomslots_of h s) k)
    | Swap s s2 \<Rightarrow> (\<lambda>k. section_total contrib h p sch k - contrib h p s (roomslots_of h s) k
                       + contrib h p s (roomslots_of h s2) k - contrib h p s2 (roomslots_of h s2) k
                       + contrib h p s2 (roomslots_of h s) k))"
  using assms
proof cases
  case (step_schedule s r)
  note sel = schedule_effect_sel(1) [OF settledD(2) [OF step_schedule(2)] step_schedule(5,6)]
  show ?thesis
    using section_total_update [OF step_schedule(2,3), of h' contrib p]
      contrib_static [OF step_settled(3) [OF assms]] step_schedule(1,4)
    by (simp add: sel contrib_Nil)
next
  case (step_move s r)
  note sel = move_effect_sel(1) [OF settledD(2) [OF step_move(2)] step_move(5,6)]
  show ?thesis
    using section_total_update [OF step_move(2,3), of h' contrib p]
      contrib_static [OF step_settled(3) [OF assms]] step_move(1)
    by (simp add: sel)
next
  case (step_unschedule s)
  show ?thesis
    using section_total_update [OF step_unschedule(3,4), of h' contrib p]
      contrib_static [OF step_settled(3) [OF assms]] step_unschedule(1,2)
    by (simp add: unschedule_effect_def contrib_Nil)
next
  case (step_swap s1 s2)
  note sel = swap_effect_sel(1) [OF settledD(1) [OF step_swap(2)] step_swap(3-5,10)]
  define h1 where "h1 = set_roomslots h s1 (roomslots_of h s2)"
  have ss: "same_static h h1" by (simp add: h1_def)
  have 1: "section_total contrib h1 p sch = (\<lambda>k. section_total contrib h p sch k
      - contrib h p s1 (roomslots_of h s1) k + contrib h p s1 (roomslots_of h s2) k)"
    using section_total_update [OF step_swap(2,3), of h1 contrib p] contrib_static [OF ss]
    by (simp add: h1_def)
  have "section_total contrib h' p sch = (\<lambda>k. section_total contrib h1 p sch k
      - contrib h p s2 (roomslots_of h s2) k + contrib h p s2 (roomslots_of h s1) k)"
    unfolding section_total_def fun_eq_iff contrib_static [OF ss] contrib_static [OF step_settled(3) [OF assms]]
    using sum_list_update [OF distinct_settled [OF step_swap(2)], of s2
        "\<lambda>s. contrib h p s (roomslots_of h' s) k" "\<lambda>s. contrib h p s (roomslots_of h1 s) k" for k]
      step_swap(4,5) by (simp add: sel h1_def section_list_def)
  with 1 step_swap(1) show ?thesis by simp
qed

lemma step_update:
  assumes "manip_step sch h m h'" and "params h sch = Inr p"
  shows "scorer_update upd_schedule upd_move upd_unschedule upd_swap h
      (mk p (section_total contrib h p sch)) m = Inr (mk p (section_total contrib h' p sch))"
  using assms by (cases m) (simp_all add: total_step schedule_eq move_eq unschedule_eq swap_eq)

end

sublocale section_sum \<subseteq> incremental_scorer fresh upd_schedule upd_move upd_unschedule upd_swap
proof unfold_locales
  fix sch h m h' st
  assume step: "manip_step sch h m h'" and st: "fresh h sch = Inr st"
  from st fresh_eq [OF step_settled(1) [OF step]] obtain p where
    p: "params h sch = Inr p" "st = mk p (section_total contrib h p sch)"
    by (auto simp: rbind_Inr_iff)
  with fresh_eq [OF step_settled(2) [OF step]] params_static [OF step_settled(3) [OF step]]
  have "fresh h' sch = Inr (mk p (section_total contrib h' p sch))" by simp
  with step_update [OF step p(1)] p(2)
  show "scorer_update upd_schedule upd_move upd_unschedule upd_swap h st m = fresh h' sch"
    "\<exists>st'. fresh h' sch = Inr st'" by simp_all
qed

locale default_section_sum =
  fixes params :: "heap \<Rightarrow> schedule \<Rightarrow> 'p result"
    and mk :: "'p \<Rightarrow> ('k \<Rightarrow> 'v::ab_group_add) \<Rightarrow> 's"
    and contrib :: "heap \<Rightarrow> 'p \<Rightarrow> secref \<Rightarrow> rsref list \<Rightarrow> 'k \<Rightarrow> 'v"
    and fresh :: "heap \<Rightarrow> schedule \<Rightarrow> 's result"
    and upd_schedule :: "heap \<Rightarrow> 's \<Rightarrow> secref \<Rightarrow> rsref \<Rightarrow> 's result"
    and upd_unschedule :: "heap \<Rightarrow> 's \<Rightarrow> secref \<Rightarrow> 's result"
  assumes params_same: "same_static h h' \<Longrightarrow> params h' sch = params h sch"
    and contrib_same: "same_static h h' \<Longrightarrow> contrib h' p = contrib h p"
    and contrib_none: "contrib h p s [] k = 0"
    and fresh_sum: "settled h sch \<Longrightarrow>
      fresh h sch = rbind (params h sch) (\<lambda>p. Inr (mk p (section_total contrib h p sch)))"
    and schedule_any: "settled h sch \<Longrightarrow> params h sch = Inr p \<Longrightarrow> s \<in> sections_of sch \<Longrightarrow>
      r \<in> all_roomslots h sch \<Longrightarrow>
      upd_schedule h (mk p f) s r = Inr (mk p (\<lambda>k. f k + contrib h p s (needed h s r) k))"
    and unschedule_any: "settled h sch \<Longrightarrow> params h sch = Inr p \<Longrightarrow> s \<in> sections_of sch \<Longrightarrow>
      roomslots_of h s \<noteq> [] \<Longrightarrow>
      upd_unschedule h (mk p f) s = Inr (mk p (\<lambda>k. f k - contrib h p s (roomslots_of h s) k))"

sublocale default_section_sum \<subseteq>
  section_sum params mk contrib fresh upd_schedule "default_move upd_unschedule upd_schedule"
    upd_unschedule "default_swap (default_move upd_unschedule upd_schedule)"
proof unfold_locales
  fix sch h s r h' p
  assume step: "manip_step sch h (Swap s r) h'" and p: "params h sch = Inr p"
  from step have a: "settled h sch" "s \<in> sections_of sch" "r \<in> sections_of sch" "roomslots_of h s \<noteq> []"
    "roomslots_of h r \<noteq> []" "sec_duration (hp_sec h s) = sec_duration (hp_sec h r)"
    by (auto elim: swapE)
  note hd1 = section_hd [OF a(1,2,4)] and hd2 = section_hd [OF a(1,3,5)]
  show "default_swap (default_move upd_unschedule upd_schedule) h (mk p (section_total contrib h p sch)) s r =
    Inr (mk p (\<lambda>k. section_total contrib h p sch k - contrib h p s (roomslots_of h s) k
      + contrib h p s (roomslots_of h r) k - contrib h p r (roomslots_of h r) k
      + contrib h p r (roomslots_of h s) k))"
    using a hd1 hd2
    by (simp add: default_swap_def default_move_def py_first_hd unschedule_any [OF a(1) p]
        schedule_any [OF a(1) p])
qed (auto simp: params_same contrib_same contrib_none fresh_sum schedule_any unschedule_any default_move_def
      elim!: scheduleE moveE unscheduleE)

end
