(* ===== verification/Scorers_Sums.thy ===== *)
theory Scorers_Sums
  imports Scorer_Contract
begin

section \<open>Scorers that add up sections (autoscheduler/scoring.py)\<close>

text \<open>
  \<open>ResourceCriteriaScorer\<close>, \<open>ResourceMatchingScorer\<close>, \<open>ResourceValueMatchingScorer\<close>,
  \<open>RoomSizeMismatchScorer\<close>, \<open>StudentClassHoursScorer\<close> and
  \<open>LunchStudentClassHoursScorer\<close>: the state of each as a record, its methods, and the
  interpretation of \<open>default_section_sum\<close> which shows that its incremental updates compute
  what \<open>update_schedule\<close> computes. Floats are exact rationals.
\<close>

definition py_max :: "int list \<Rightarrow> int result" where
  "py_max xs = (if xs = [] then Inl (ValueError ''max() arg is an empty sequence'') else Inr (Max (set xs)))"

abbreviation room_of :: "heap \<Rightarrow> rsref \<Rightarrow> roomref" where
  "room_of h r \<equiv> rs_room (hp_rs h r)"

subsection \<open>ResourceCriteriaScorer\<close>

record criteria_state =
  rc_criteria :: "(criterion \<times> rat) list"
  rc_scaling :: rat
  rc_total_weight :: rat
  rc_num_sections :: rat
  rc_total_score :: rat

definition rc_process_section ::
  "(string \<Rightarrow> string \<Rightarrow> bool) \<Rightarrow> (criterion \<times> rat) list \<Rightarrow> heap \<Rightarrow> secref \<Rightarrow> roomref \<Rightarrow> rat" where
  "rc_process_section re_match criteria h s room =
     (\<Sum>(c, weight)\<leftarrow>criteria. if check_match re_match c h s room then weight else 0)"

definition rc_update_schedule ::
  "(string \<Rightarrow> string \<Rightarrow> bool) \<Rightarrow> heap \<Rightarrow> schedule \<Rightarrow> criteria_state \<Rightarrow> criteria_state result" where
  "rc_update_schedule re_match h sch st =
     (let total = (\<Sum>(c, weight)\<leftarrow>rc_criteria st. weight) in
      Inr (st\<lparr>rc_total_weight := (if total = 0 then 1 else total),
              rc_num_sections := of_nat (length (section_list sch)),
              rc_total_score := (\<Sum>s\<leftarrow>section_list sch. case roomslots_of h s of [] \<Rightarrow> 0
                 | r # _ \<Rightarrow> rc_process_section re_match (rc_criteria st) h s (room_of h r))\<rparr>))"

definition rc_init ::
  "(string \<Rightarrow> string \<Rightarrow> bool) \<Rightarrow> (criterion \<times> rat) list \<Rightarrow> heap \<Rightarrow> schedule \<Rightarrow> criteria_state result" where
  "rc_init re_match criteria h sch =
     rbind (rc_update_schedule re_match h sch \<lparr>rc_criteria = criteria, rc_scaling = 1,
        rc_total_weight = 0, rc_num_sections = 0, rc_total_score = 0\<rparr>) (\<lambda>st.
     if criteria = [] then Inr (st\<lparr>rc_scaling := 1\<rparr>)
     else rbind (py_div (rc_total_weight st) (Max (set (map snd criteria)))) (\<lambda>sc.
       Inr (st\<lparr>rc_scaling := sc\<rparr>)))"

definition rc_score_schedule :: "criteria_state \<Rightarrow> rat result" where
  "rc_score_schedule st = py_div (rc_total_score st) (rc_total_weight st * rc_num_sections st)"

definition rc_update_schedule_section ::
  "(string \<Rightarrow> string \<Rightarrow> bool) \<Rightarrow> heap \<Rightarrow> criteria_state \<Rightarrow> secref \<Rightarrow> rsref \<Rightarrow> criteria_state result" where
  "rc_update_schedule_section re_match h st s start_roomslot =
     Inr (st\<lparr>rc_total_score := rc_total_score st +
       rc_process_section re_match (rc_criteria st) h s (room_of h start_roomslot)\<rparr>)"

definition rc_update_unschedule_section ::
  "(string \<Rightarrow> string \<Rightarrow> bool) \<Rightarrow> heap \<Rightarrow> criteria_state \<Rightarrow> secref \<Rightarrow> criteria_state result" where
  "rc_update_unschedule_section re_match h st s =
     rbind (py_first (roomslots_of h s)) (\<lambda>r.
     Inr (st\<lparr>rc_total_score := rc_total_score st -
       rc_process_section re_match (rc_criteria st) h s (room_of h r)\<rparr>))"

subsection \<open>ResourceMatchingScorer\<close>

record matching_state =
  rm_num_sections :: rat
  rm_total_score :: rat

definition rm_process_section :: "heap \<Rightarrow> secref \<Rightarrow> roomref \<Rightarrow> rat" where
  "rm_process_section h s room =
     (let requests = sec_requests (hp_sec h s) in
      if length requests = 0 then 1
      else of_nat (length (filter (dict_has (room_furnishings (hp_room h room))) (dict_keys requests)))
           / of_nat (length requests))"

definition rm_update_schedule :: "heap \<Rightarrow> schedule \<Rightarrow> matching_state result" where
  "rm_update_schedule h sch =
     Inr \<lparr>rm_num_sections = of_nat (length (section_list sch)),
          rm_total_score = (\<Sum>s\<leftarrow>section_list sch. case roomslots_of h s of [] \<Rightarrow> 0
             | r # _ \<Rightarrow> rm_process_section h s (room_of h r))\<rparr>"

definition rm_score_schedule :: "matching_state \<Rightarrow> rat result" where
  "rm_score_schedule st = py_div (rm_total_score st) (rm_num_sections st)"

definition rm_update_schedule_section ::
  "heap \<Rightarrow> matching_state \<Rightarrow> secref \<Rightarrow> rsref \<Rightarrow> matching_state result" where
  "rm_update_schedule_section h st s start_roomslot =
     Inr (st\<lparr>rm_total_score := rm_total_score st + rm_process_section h s (room_of h start_roomslot)\<rparr>)"

definition rm_update_unschedule_section :: "heap \<Rightarrow> matching_state \<Rightarrow> secref \<Rightarrow> matching_state result" where
  "rm_update_unschedule_section h st s =
     rbind (py_first (roomslots_of h s)) (\<lambda>r.
     Inr (st\<lparr>rm_total_score := rm_total_score st - rm_process_section h s (room_of h r)\<rparr>))"

subsection \<open>ResourceValueMatchingScorer\<close>

record value_matching_state =
  rv_num_sections :: rat
  rv_requests_to_ignore :: "string set"
  rv_total_score :: rat

definition rv_furnishing_values :: "heap \<Rightarrow> schedule \<Rightarrow> (string, string set) dict" where
  "rv_furnishing_values h sch =
     fold (\<lambda>room d. fold (\<lambda>furnishing d.
         AList.update (rt_name furnishing)
           (insert (rt_value furnishing)
             (case map_of d (rt_name furnishing) of None \<Rightarrow> {} | Some vs \<Rightarrow> vs)) d)
         (dict_values (room_furnishings (hp_room h room))) d)
       (dict_values (sch_classrooms sch)) []"

definition rv_process_section :: "string set \<Rightarrow> heap \<Rightarrow> secref \<Rightarrow> roomref \<Rightarrow> rat" where
  "rv_process_section requests_to_ignore h s room =
     (let requested = filter (\<lambda>request. rt_name request \<notin> requests_to_ignore \<and> rt_value request \<noteq> [])
                        (dict_values (sec_requests (hp_sec h s)));
          met = filter (\<lambda>request. case map_of (room_furnishings (hp_room h room)) (rt_name request) of
                   None \<Rightarrow> False | Some f \<Rightarrow> rt_value f = rt_value request) requested
      in if requested = [] then 1 else of_nat (length met) / of_nat (length requested))"

definition rv_update_schedule :: "heap \<Rightarrow> schedule \<Rightarrow> value_matching_state result" where
  "rv_update_schedule h sch =
     (let ignore = set (map fst (filter (\<lambda>(name, values). card values = 1) (rv_furnishing_values h sch))) in
      Inr \<lparr>rv_num_sections = of_nat (length (section_list sch)), rv_requests_to_ignore = ignore,
           rv_total_score = (\<Sum>s\<leftarrow>section_list sch. case roomslots_of h s of [] \<Rightarrow> 0
             | r # _ \<Rightarrow> rv_process_section ignore h s (room_of h r))\<rparr>)"

definition rv_score_schedule :: "value_matching_state \<Rightarrow> rat result" where
  "rv_score_schedule st = py_div (rv_total_score st) (rv_num_sections st)"

definition rv_update_schedule_section ::
  "heap \<Rightarrow> value_matching_state \<Rightarrow> secref \<Rightarrow> rsref \<Rightarrow> value_matching_state result" where
  "rv_update_schedule_section h st s start_roomslot =
     Inr (st\<lparr>rv_total_score := rv_total_score st +
       rv_process_section (rv_requests_to_ignore st) h s (room_of h start_roomslot)\<rparr>)"

definition rv_update_unschedule_section ::
  "heap \<Rightarrow> value_matching_state \<Rightarrow> secref \<Rightarrow> value_matching_state result" where
  "rv_update_unschedule_section h st s =
     rbind (py_first (roomslots_of h s)) (\<lambda>r.
     Inr (st\<lparr>rv_total_score := rv_total_score st -
       rv_process_section (rv_requests_to_ignore st) h s (room_of h r)\<rparr>))"

subsection \<open>RoomSizeMismatchScorer\<close>

record size_state =
  sz_max_class_size :: int
  sz_max_room_size :: int
  sz_num_sections :: rat
  sz_total_penalty :: rat

definition sz_penalty :: "int \<Rightarrow> int \<Rightarrow> heap \<Rightarrow> secref \<Rightarrow> roomref \<Rightarrow> rat" where
  "sz_penalty max_class_size max_room_size h s room =
     (let section_capacity = min max_room_size (sec_capacity (hp_sec h s));
          room_cap = min max_class_size (room_capacity (hp_room h room));
          numerator = max section_capacity room_cap;
          denominator = min section_capacity room_cap
      in if denominator = 0 then 1
         else min 1 ((of_int numerator / of_int denominator - 1) ^ 2))"

definition sz_update_schedule :: "heap \<Rightarrow> schedule \<Rightarrow> size_state result" where
  "sz_update_schedule h sch =
     rbind (py_max (map (\<lambda>s. sec_capacity (hp_sec h s)) (section_list sch))) (\<lambda>max_class.
     rbind (py_max (map (\<lambda>r. room_capacity (hp_room h r)) (dict_values (sch_classrooms sch)))) (\<lambda>max_room.
     let n = of_nat (length (section_list sch)) in
     Inr \<lparr>sz_max_class_size = max_class, sz_max_room_size = max_room, sz_num_sections = n,
          sz_total_penalty = (\<Sum>s\<leftarrow>section_list sch. case roomslots_of h s of [] \<Rightarrow> 0
             | r # _ \<Rightarrow> sz_penalty max_class max_room h s (room_of h r) / n)\<rparr>))"

definition sz_score_schedule :: "size_state \<Rightarrow> rat result" where
  "sz_score_schedule st = Inr (1 - sz_total_penalty st)"

definition sz_update_schedule_section :: "heap \<Rightarrow> size_state \<Rightarrow> secref \<Rightarrow> rsref \<Rightarrow> size_state result" where
  "sz_update_schedule_section h st s start_roomslot =
     rbind (py_div (sz_penalty (sz_max_class_size st) (sz_max_room_size st) h s (room_of h start_roomslot))
        (sz_num_sections st)) (\<lambda>x.
     Inr (st\<lparr>sz_total_penalty := sz_total_penalty st + x\<rparr>))"

definition sz_update_unschedule_section :: "heap \<Rightarrow> size_state \<Rightarrow> secref \<Rightarrow> size_state result" where
  "sz_update_unschedule_section h st s =
     rbind (py_first (roomslots_of h s)) (\<lambda>r.
     rbind (py_div (sz_penalty (sz_max_class_size st) (sz_max_room_size st) h s (room_of h r))
        (sz_num_sections st)) (\<lambda>x.
     Inr (st\<lparr>sz_total_penalty := sz_total_penalty st - x\<rparr>)))"

subsection \<open>StudentClassHoursScorer\<close>

record hours_state =
  sh_total :: rat
  sh_scheduled :: rat

definition effective_hours :: "heap \<Rightarrow> secref \<Rightarrow> rsref \<Rightarrow> rat" where
  "effective_hours h s roomslot =
     (let actual_capacity = min (sec_capacity (hp_sec h s)) (room_capacity (hp_room h (room_of h roomslot)))
      in of_int actual_capacity * sec_duration (hp_sec h s))"

definition get_effective_student_class_hours :: "heap \<Rightarrow> secref \<Rightarrow> rsref option \<Rightarrow> rat" where
  "get_effective_student_class_hours h s roomslot =
     (case roomslot of
        Some r \<Rightarrow> effective_hours h s r
      | None \<Rightarrow> (case roomslots_of h s of [] \<Rightarrow> 0 | r # _ \<Rightarrow> effective_hours h s r))"

definition sh_update_schedule :: "heap \<Rightarrow> schedule \<Rightarrow> hours_state result" where
  "sh_update_schedule h sch =
     Inr \<lparr>sh_total = (\<Sum>s\<leftarrow>section_list sch. of_int (sec_capacity (hp_sec h s)) * sec_duration (hp_sec h s)),
          sh_scheduled = (\<Sum>s\<leftarrow>section_list sch. get_effective_student_class_hours h s None)\<rparr>"

definition sh_score_schedule :: "hours_state \<Rightarrow> rat result" where
  "sh_score_schedule st = py_div (sh_scheduled st) (sh_total st)"

definition sh_update_schedule_section :: "heap \<Rightarrow> hours_state \<Rightarrow> secref \<Rightarrow> rsref \<Rightarrow> hours_state result" where
  "sh_update_schedule_section h st s start_roomslot =
     Inr (st\<lparr>sh_scheduled := sh_scheduled st + get_effective_student_class_hours h s (Some start_roomslot)\<rparr>)"

definition sh_update_unschedule_section :: "heap \<Rightarrow> hours_state \<Rightarrow> secref \<Rightarrow> hours_state result" where
  "sh_update_unschedule_section h st s =
     Inr (st\<lparr>sh_scheduled := sh_scheduled st - get_effective_student_class_hours h s None\<rparr>)"

subsection \<open>LunchStudentClassHoursScorer\<close>

record lunch_hours_state =
  lh_lunch_timeslots :: "int set"
  lh_total :: rat
  lh_non_lunch :: rat

definition slot_id :: "heap \<Rightarrow> rsref \<Rightarrow> int" where
  "slot_id h r = ts_id (hp_ts h (rs_timeslot (hp_rs h r)))"

definition lh_slot_hours :: "int set \<Rightarrow> heap \<Rightarrow> secref \<Rightarrow> rsref \<Rightarrow> rat" where
  "lh_slot_hours lunch h s r =
     (let actual_capacity = min (sec_capacity (hp_sec h s)) (room_capacity (hp_room h (room_of h r)))
      in if slot_id h r \<notin> lunch
         then of_int actual_capacity * ts_duration (hp_ts h (rs_timeslot (hp_rs h r))) else 0)"

definition lh_update_schedule :: "heap \<Rightarrow> schedule \<Rightarrow> lunch_hours_state result" where
  "lh_update_schedule h sch =
     (let lunch = set (map (\<lambda>t. ts_id (hp_ts h t)) (concat (dict_values (sch_lunch sch)))) in
      Inr \<lparr>lh_lunch_timeslots = lunch,
           lh_total = (\<Sum>s\<leftarrow>section_list sch. of_int (sec_capacity (hp_sec h s)) * sec_duration (hp_sec h s)),
           lh_non_lunch = (\<Sum>s\<leftarrow>section_list sch. \<Sum>r\<leftarrow>roomslots_of h s. lh_slot_hours lunch h s r)\<rparr>)"

definition lh_score_schedule :: "lunch_hours_state \<Rightarrow> rat result" where
  "lh_score_schedule st = py_div (lh_non_lunch st) (lh_total st)"

definition lh_update_schedule_section ::
  "heap \<Rightarrow> lunch_hours_state \<Rightarrow> secref \<Rightarrow> rsref \<Rightarrow> lunch_hours_state result" where
  "lh_update_schedule_section h st s start_roomslot =
     Inr (st\<lparr>lh_non_lunch := lh_non_lunch st +
       (\<Sum>r\<leftarrow>needed h s start_roomslot. lh_slot_hours (lh_lunch_timeslots st) h s r)\<rparr>)"

definition lh_update_unschedule_section :: "heap \<Rightarrow> lunch_hours_state \<Rightarrow> secref \<Rightarrow> lunch_hours_state result" where
  "lh_update_unschedule_section h st s =
     Inr (st\<lparr>lh_non_lunch := lh_non_lunch st -
       (\<Sum>r\<leftarrow>roomslots_of h s. lh_slot_hours (lh_lunch_timeslots st) h s r)\<rparr>)"

subsection \<open>The updates are incremental\<close>

text \<open>What a section contributes when the score depends on the room of its first roomslot.\<close>

definition by_room :: "(heap \<Rightarrow> 'p \<Rightarrow> secref \<Rightarrow> rsref \<Rightarrow> rat) \<Rightarrow> heap \<Rightarrow> 'p \<Rightarrow> secref \<Rightarrow> rsref list \<Rightarrow> unit \<Rightarrow> rat" where
  "by_room f h p s rs u = (case rs of [] \<Rightarrow> 0 | r # _ \<Rightarrow> f h p s r)"

lemma by_room_simps [simp]: "by_room f h p s [] u = 0" "rs \<noteq> [] \<Longrightarrow> by_room f h p s rs u = f h p s (hd rs)"
  by (auto simp: by_room_def split: list.splits)

lemma by_room_total:
  "section_total (by_room f) h p sch () = (\<Sum>s\<leftarrow>section_list sch. case roomslots_of h s of [] \<Rightarrow> 0 | r # _ \<Rightarrow> f h p s r)"
  by (simp add: section_total_def by_room_def)

lemma by_room_needed:
  assumes "settled h sch" and "r \<in> all_roomslots h sch"
  shows "by_room f h p s (needed h s r) u = f h p s r"
  using grs_registered(1,2) [OF settledD(2) [OF assms(1)] assms(2), of "sec_duration (hp_sec h s)"] by simp

lemma by_room_cong: "f h' p = f h p \<Longrightarrow> by_room f h' p = by_room f h p"
  by (intro ext) (simp add: by_room_def split: list.split)

lemma section_list_pos: "s \<in> sections_of sch \<Longrightarrow> 0 < length (section_list sch)"
  by (auto simp: section_list_def)

text \<open>Each scorer's static part is its state with the total taken out.\<close>

definition rc_params where
  "rc_params re_match criteria h sch =
     rbind (rc_init re_match criteria h sch) (\<lambda>st. Inr (st\<lparr>rc_total_score := 0\<rparr>))"

definition rc_section where
  "rc_section re_match h p s r = rc_process_section re_match (rc_criteria p) h s (room_of h r)"

lemma rc_section_static:
  assumes "same_static h h'"
  shows "rc_section re_match h' p = rc_section re_match h p"
  by (simp add: rc_section_def rc_process_section_def fun_eq_iff same_static_check_match [OF assms] same_staticD [OF assms])

interpretation criteria_scorer:
  default_section_sum "rc_params re_match criteria" "\<lambda>p f. p\<lparr>rc_total_score := f ()\<rparr>"
    "by_room (rc_section re_match)" "rc_init re_match criteria" "rc_update_schedule_section re_match"
    "rc_update_unschedule_section re_match"
  for re_match criteria
proof (unfold_locales, goal_cases)
  case (1 h h' sch)
  show ?case by (simp add: rc_params_def rc_init_def rc_update_schedule_def Let_def rbind_assoc)
next
  case (2 h h' p)
  then show ?case by (rule by_room_cong [OF rc_section_static])
next
  case (4 h sch)
  show ?case
    by (auto simp: rc_params_def rc_init_def rc_update_schedule_def Let_def by_room_total rc_section_def
        rbind_def py_div_def split: sum.splits cong: list.case_cong)
next
  case (5 h sch p s r f)
  then show ?case
    by (simp add: rc_update_schedule_section_def by_room_needed rc_section_def)
next
  case (6 h sch p s f)
  then show ?case
    by (simp add: rc_update_unschedule_section_def py_first_hd rc_section_def)
qed simp

definition rm_section where
  "rm_section h (p :: matching_state) s r = rm_process_section h s (room_of h r)"

lemma rm_section_static:
  assumes "same_static h h'"
  shows "rm_section h' p = rm_section h p"
  by (simp add: Let_def rm_section_def rm_process_section_def fun_eq_iff same_staticD [OF assms])

interpretation matching_scorer:
  default_section_sum "\<lambda>h sch. rbind (rm_update_schedule h sch) (\<lambda>st. Inr (st\<lparr>rm_total_score := 0\<rparr>))"
    "\<lambda>p f. p\<lparr>rm_total_score := f ()\<rparr>" "by_room rm_section" rm_update_schedule
    rm_update_schedule_section rm_update_unschedule_section
proof (unfold_locales, goal_cases)
  case (2 h h' p)
  then show ?case by (rule by_room_cong [OF rm_section_static])
next
  case (5 h sch p s r f)
  then show ?case by (simp add: rm_update_schedule_section_def by_room_needed rm_section_def)
next
  case (6 h sch p s f)
  then show ?case by (simp add: rm_update_unschedule_section_def py_first_hd rm_section_def)
qed (simp_all add: rm_update_schedule_def by_room_total rm_section_def cong: list.case_cong)

definition rv_section where
  "rv_section h p s r = rv_process_section (rv_requests_to_ignore p) h s (room_of h r)"

lemma rv_section_static:
  assumes "same_static h h'"
  shows "rv_section h' p = rv_section h p"
  by (simp add: rv_section_def rv_process_section_def fun_eq_iff same_staticD [OF assms])

lemma rv_furnishing_static:
  assumes "same_static h h'"
  shows "rv_furnishing_values h' sch = rv_furnishing_values h sch"
  by (simp add: rv_furnishing_values_def same_staticD [OF assms])

interpretation value_matching_scorer:
  default_section_sum "\<lambda>h sch. rbind (rv_update_schedule h sch) (\<lambda>st. Inr (st\<lparr>rv_total_score := 0\<rparr>))"
    "\<lambda>p f. p\<lparr>rv_total_score := f ()\<rparr>" "by_room rv_section" rv_update_schedule
    rv_update_schedule_section rv_update_unschedule_section
proof (unfold_locales, goal_cases)
  case (1 h h' sch)
  show ?case by (simp add: rv_update_schedule_def Let_def rv_furnishing_static [OF 1])
next
  case (2 h h' p)
  then show ?case by (rule by_room_cong [OF rv_section_static])
next
  case (5 h sch p s r f)
  then show ?case by (simp add: rv_update_schedule_section_def by_room_needed rv_section_def)
next
  case (6 h sch p s f)
  then show ?case by (simp add: rv_update_unschedule_section_def py_first_hd rv_section_def)
qed (simp_all add: rv_update_schedule_def Let_def by_room_total rv_section_def cong: list.case_cong)

definition sz_section where
  "sz_section h p s r =
     sz_penalty (sz_max_class_size p) (sz_max_room_size p) h s (room_of h r) / sz_num_sections p"

lemma sz_section_static:
  assumes "same_static h h'"
  shows "sz_section h' p = sz_section h p"
  by (simp add: sz_section_def sz_penalty_def fun_eq_iff same_staticD [OF assms])

lemma sz_params_num:
  "rbind (sz_update_schedule h sch) (\<lambda>st. Inr (st\<lparr>sz_total_penalty := 0\<rparr>)) = Inr p \<Longrightarrow>
   s \<in> sections_of sch \<Longrightarrow> sz_num_sections p \<noteq> 0"
  using section_list_pos [of s sch] by (auto simp: sz_update_schedule_def rbind_Inr_iff Let_def)

interpretation size_scorer:
  default_section_sum "\<lambda>h sch. rbind (sz_update_schedule h sch) (\<lambda>st. Inr (st\<lparr>sz_total_penalty := 0\<rparr>))"
    "\<lambda>p f. p\<lparr>sz_total_penalty := f ()\<rparr>" "by_room sz_section" sz_update_schedule
    sz_update_schedule_section sz_update_unschedule_section
proof (unfold_locales, goal_cases)
  case (1 h h' sch)
  show ?case by (simp add: sz_update_schedule_def Let_def same_staticD [OF 1] rbind_assoc)
next
  case (2 h h' p)
  then show ?case by (rule by_room_cong [OF sz_section_static])
next
  case (4 h sch)
  show ?case
    by (simp add: sz_update_schedule_def Let_def rbind_assoc by_room_total sz_section_def
        cong: rbind_cong list.case_cong)
next
  case (5 h sch p s r f)
  then show ?case
    using sz_params_num [OF 5(2,3)]
    by (simp add: sz_update_schedule_section_def by_room_needed sz_section_def py_div_def)
next
  case (6 h sch p s f)
  then show ?case
    using sz_params_num [OF 6(2,3)]
    by (simp add: sz_update_unschedule_section_def py_first_hd sz_section_def py_div_def)
qed simp

definition sh_section where
  "sh_section h (p :: hours_state) s r = effective_hours h s r"

lemma sh_section_static:
  assumes "same_static h h'"
  shows "sh_section h' p = sh_section h p"
  by (simp add: sh_section_def effective_hours_def fun_eq_iff same_staticD [OF assms])

interpretation hours_scorer:
  default_section_sum "\<lambda>h sch. rbind (sh_update_schedule h sch) (\<lambda>st. Inr (st\<lparr>sh_scheduled := 0\<rparr>))"
    "\<lambda>p f. p\<lparr>sh_scheduled := f ()\<rparr>" "by_room sh_section" sh_update_schedule
    sh_update_schedule_section sh_update_unschedule_section
proof (unfold_locales, goal_cases)
  case (1 h h' sch)
  show ?case by (simp add: sh_update_schedule_def same_staticD [OF 1])
next
  case (2 h h' p)
  then show ?case by (rule by_room_cong [OF sh_section_static])
next
  case (5 h sch p s r f)
  then show ?case
    by (simp add: sh_update_schedule_section_def by_room_needed sh_section_def get_effective_student_class_hours_def)
next
  case (6 h sch p s f)
  then show ?case
    by (auto simp: sh_update_unschedule_section_def get_effective_student_class_hours_def sh_section_def
        split: list.splits)
qed (simp_all add: sh_update_schedule_def by_room_total sh_section_def
      get_effective_student_class_hours_def cong: list.case_cong)

definition lh_section where
  "lh_section h p s rs (u :: unit) = (\<Sum>r\<leftarrow>rs. lh_slot_hours (lh_lunch_timeslots p) h s r)"

lemma lh_section_static:
  assumes "same_static h h'"
  shows "lh_section h' p = lh_section h p"
  by (simp cong: if_cong add: lh_section_def lh_slot_hours_def slot_id_def fun_eq_iff same_staticD [OF assms])

interpretation lunch_hours_scorer:
  default_section_sum "\<lambda>h sch. rbind (lh_update_schedule h sch) (\<lambda>st. Inr (st\<lparr>lh_non_lunch := 0\<rparr>))"
    "\<lambda>p f. p\<lparr>lh_non_lunch := f ()\<rparr>" lh_section lh_update_schedule
    lh_update_schedule_section lh_update_unschedule_section
proof (unfold_locales, goal_cases)
  case (1 h h' sch)
  show ?case by (simp add: lh_update_schedule_def Let_def same_staticD [OF 1])
next
  case (2 h h' p)
  then show ?case by (rule lh_section_static)
qed (simp_all add: lh_update_schedule_def Let_def section_total_def lh_section_def
      lh_update_schedule_section_def lh_update_unschedule_section_def)

end
