(* ===== verification/Scorers_Counts.thy ===== *)
theory Scorers_Counts
  imports Scorer_Contract
begin

section \<open>Scorers that count sections, subjects and teachers (autoscheduler/scoring.py)\<close>

text \<open>
  \<open>NumSectionsScorer\<close>, \<open>NumSubjectsScorer\<close> and \<open>NumTeachersScorer\<close>. Their
  \<open>update_move_section\<close> and \<open>update_swap_sections\<close> do nothing, and unscheduling asserts
  that what it decrements is positive; the interpretations of \<open>section_sum\<close> show that these
  assertions never fail. Subjects are collected in a Python set; the model keeps them in the
  order of first occurrence.
\<close>

definition keep :: "heap \<Rightarrow> 's \<Rightarrow> 'a \<Rightarrow> 'b \<Rightarrow> 's result" where
  "keep h st a b = Inr st"

abbreviation scheduled_list :: "heap \<Rightarrow> schedule \<Rightarrow> secref list" where
  "scheduled_list h sch \<equiv> filter (is_scheduled h) (section_list sch)"

subsection \<open>NumSectionsScorer\<close>

record sections_state =
  nsec_total :: rat
  nsec_scheduled :: int

definition nsec_update_schedule :: "heap \<Rightarrow> schedule \<Rightarrow> sections_state result" where
  "nsec_update_schedule h sch =
     Inr \<lparr>nsec_total = of_nat (length (section_list sch)),
          nsec_scheduled = (\<Sum>s\<leftarrow>section_list sch. if is_scheduled h s then 1 else 0)\<rparr>"

definition nsec_score_schedule :: "sections_state \<Rightarrow> rat result" where
  "nsec_score_schedule st = py_div (of_int (nsec_scheduled st)) (nsec_total st)"

definition nsec_update_schedule_section ::
  "heap \<Rightarrow> sections_state \<Rightarrow> secref \<Rightarrow> rsref \<Rightarrow> sections_state result" where
  "nsec_update_schedule_section h st s start_roomslot =
     Inr (st\<lparr>nsec_scheduled := nsec_scheduled st + 1\<rparr>)"

definition nsec_update_unschedule_section :: "heap \<Rightarrow> sections_state \<Rightarrow> secref \<Rightarrow> sections_state result" where
  "nsec_update_unschedule_section h st s =
     rbind (raise_if (\<not> nsec_scheduled st > 0) (AssertionError [])) (\<lambda>_.
     Inr (st\<lparr>nsec_scheduled := nsec_scheduled st - 1\<rparr>))"

subsection \<open>NumSubjectsScorer\<close>

record subjects_state =
  nsub_total :: rat
  nsub_by_subject :: "(int, int) dict"
  nsub_scheduled :: int
  nsub_scaling :: rat

definition count_positive :: "('k, int) dict \<Rightarrow> int" where
  "count_positive d = (\<Sum>n\<leftarrow>dict_values d. if n > 0 then 1 else 0)"

definition nsub_update_schedule :: "heap \<Rightarrow> schedule \<Rightarrow> subjects_state result" where
  "nsub_update_schedule h sch =
     (let subjects = remdups (map (\<lambda>s. sec_parent (hp_sec h s)) (section_list sch));
          total = of_nat (length subjects) in
      rbind (rfold (\<lambda>d s. if is_scheduled h s then dict_add d (sec_parent (hp_sec h s)) 1 else Inr d)
        (map (\<lambda>s. (s, 0)) subjects) (section_list sch)) (\<lambda>d.
      rbind (py_div total (of_nat (length (section_list sch)))) (\<lambda>sc.
      Inr \<lparr>nsub_total = total, nsub_by_subject = d, nsub_scheduled = count_positive d, nsub_scaling = sc\<rparr>)))"

definition nsub_score_schedule :: "subjects_state \<Rightarrow> rat result" where
  "nsub_score_schedule st = py_div (of_int (nsub_scheduled st)) (nsub_total st)"

definition nsub_update_schedule_section ::
  "heap \<Rightarrow> subjects_state \<Rightarrow> secref \<Rightarrow> rsref \<Rightarrow> subjects_state result" where
  "nsub_update_schedule_section h st s start_roomslot =
     (let subject = sec_parent (hp_sec h s) in
      rbind (dict_add (nsub_by_subject st) subject 1) (\<lambda>d.
      rbind (dict_get d subject) (\<lambda>n.
      Inr (st\<lparr>nsub_by_subject := d,
              nsub_scheduled := (if n = 1 then nsub_scheduled st + 1 else nsub_scheduled st)\<rparr>))))"

definition nsub_update_unschedule_section :: "heap \<Rightarrow> subjects_state \<Rightarrow> secref \<Rightarrow> subjects_state result" where
  "nsub_update_unschedule_section h st s =
     (let subject = sec_parent (hp_sec h s) in
      rbind (dict_get (nsub_by_subject st) subject) (\<lambda>n0.
      rbind (raise_if (\<not> n0 > 0) (AssertionError [])) (\<lambda>_.
      rbind (dict_add (nsub_by_subject st) subject (-1)) (\<lambda>d.
      rbind (dict_get d subject) (\<lambda>n.
      Inr (st\<lparr>nsub_by_subject := d,
              nsub_scheduled := (if n = 0 then nsub_scheduled st - 1 else nsub_scheduled st)\<rparr>))))))"

subsection \<open>NumTeachersScorer\<close>

record teachers_state =
  ntea_total :: rat
  ntea_by_teacher :: "(int, int) dict"
  ntea_scheduled :: int
  ntea_scaling :: rat

definition ntea_update_schedule :: "heap \<Rightarrow> schedule \<Rightarrow> teachers_state result" where
  "ntea_update_schedule h sch =
     (let total = of_nat (length (sch_teachers sch)) in
      rbind (rfold (\<lambda>d s. if is_scheduled h s
          then rfold (\<lambda>d t. dict_add d (t_id (hp_teacher h t)) 1) d (sec_teachers (hp_sec h s)) else Inr d)
        (map (\<lambda>t. (t, 0)) (dict_keys (sch_teachers sch))) (section_list sch)) (\<lambda>d.
      rbind (py_div total (of_nat (length (section_list sch)))) (\<lambda>sc.
      Inr \<lparr>ntea_total = total, ntea_by_teacher = d, ntea_scheduled = count_positive d, ntea_scaling = sc\<rparr>)))"

definition ntea_score_schedule :: "teachers_state \<Rightarrow> rat result" where
  "ntea_score_schedule st = py_div (of_int (ntea_scheduled st)) (ntea_total st)"

definition ntea_update_schedule_section ::
  "heap \<Rightarrow> teachers_state \<Rightarrow> secref \<Rightarrow> rsref \<Rightarrow> teachers_state result" where
  "ntea_update_schedule_section h st s start_roomslot =
     rfold (\<lambda>st t.
         let i = t_id (hp_teacher h t) in
         rbind (dict_add (ntea_by_teacher st) i 1) (\<lambda>d.
         rbind (dict_get d i) (\<lambda>n.
         Inr (st\<lparr>ntea_by_teacher := d,
                 ntea_scheduled := (if n = 1 then ntea_scheduled st + 1 else ntea_scheduled st)\<rparr>))))
       st (sec_teachers (hp_sec h s))"

definition ntea_update_unschedule_section :: "heap \<Rightarrow> teachers_state \<Rightarrow> secref \<Rightarrow> teachers_state result" where
  "ntea_update_unschedule_section h st s =
     rfold (\<lambda>st t.
         let i = t_id (hp_teacher h t) in
         rbind (dict_get (ntea_by_teacher st) i) (\<lambda>n0.
         rbind (raise_if (\<not> n0 > 0) (AssertionError [])) (\<lambda>_.
         rbind (dict_add (ntea_by_teacher st) i (-1)) (\<lambda>d.
         rbind (dict_get d i) (\<lambda>n.
         Inr (st\<lparr>ntea_by_teacher := d,
                 ntea_scheduled := (if n = 0 then ntea_scheduled st - 1 else ntea_scheduled st)\<rparr>))))))
       st (sec_teachers (hp_sec h s))"

subsection \<open>Counting with dictionaries\<close>

lemma map_const_tab: "map (\<lambda>k. (k, c)) ks = tab ks (\<lambda>_. c)"
  by (simp add: tab_def)

lemma dict_get_tab [simp]: "k \<in> set keys \<Longrightarrow> dict_get (tab keys f) k = Inr (f k)"
  by (simp add: dict_get_def map_of_tab)

lemma count_positive_upd:
  assumes "distinct keys" and "k \<in> set keys"
  shows "count_positive (tab keys (f(k := v))) =
     count_positive (tab keys f) + (if v > 0 then 1 else 0) - (if f k > 0 then 1 else 0)"
  using assms
proof (induction keys)
  case (Cons x xs)
  show ?case
  proof (cases "x = k")
    case True
    with Cons.prems have "map (\<lambda>a. if (f(k := v)) a > 0 then 1 else 0 :: int) xs
        = map (\<lambda>a. if f a > 0 then 1 else 0) xs" by auto
    with True show ?thesis by (simp add: count_positive_def comp_def del: map_eq_conv fun_upd_apply) simp
  next
    case False
    with Cons show ?thesis by (simp add: count_positive_def comp_def)
  qed
qed simp

text \<open>Adding the keys of a list, one by one.\<close>

definition key_count :: "'k list \<Rightarrow> 'k \<Rightarrow> int" where
  "key_count ks k = int (length (filter ((=) k) ks))"

lemma key_count_simps [simp]:
  "key_count [] k = 0" "key_count (x # xs) k = (if k = x then 1 else 0) + key_count xs k"
  by (simp_all add: key_count_def)

lemma key_count_nonneg [simp]: "0 \<le> key_count ks k"
  by (simp add: key_count_def)

lemma add_keys_tab:
  fixes x :: "'v::ring_1"
  assumes "distinct keys" and "g ` set ts \<subseteq> set keys"
  shows "rfold (\<lambda>d t. dict_add d (g t) x) (tab keys f) ts =
     Inr (tab keys (\<lambda>k. f k + of_int (key_count (map g ts) k) * x))"
  using assms
proof (induction ts arbitrary: f)
  case (Cons t ts)
  have "rfold (\<lambda>d t. dict_add d (g t) x) (tab keys f) (t # ts) =
      rfold (\<lambda>d t. dict_add d (g t) x) (tab keys (f(g t := f (g t) + x))) ts"
    using Cons.prems by (simp add: dict_add_tab)
  also have "\<dots> = Inr (tab keys (\<lambda>k. (f(g t := f (g t) + x)) k + of_int (key_count (map g ts) k) * x))"
    using Cons.prems by (intro Cons.IH) auto
  finally show ?case by (simp add: tab_def algebra_simps)
qed simp

lemma add_sections_tab:
  assumes "distinct keys" and "\<And>s. s \<in> set ss \<Longrightarrow> P s \<Longrightarrow> set (g s) \<subseteq> set keys"
  shows "rfold (\<lambda>d s. if P s then rfold (\<lambda>d k. dict_add d k (1::int)) d (g s) else Inr d) (tab keys f) ss =
     Inr (tab keys (\<lambda>k. f k + (\<Sum>s\<leftarrow>ss. if P s then key_count (g s) k else 0)))"
  using assms(2)
proof (induction ss arbitrary: f)
  case (Cons s ss)
  have 1: "(if P s then rfold (\<lambda>d k. dict_add d k (1::int)) (tab keys f) (g s) else Inr (tab keys f)) =
      Inr (tab keys (\<lambda>k. f k + (if P s then key_count (g s) k else 0)))"
    using Cons.prems [of s] add_keys_tab [OF assms(1), where g = "\<lambda>k. k" and x = "1::int" and ts = "g s" and f = f]
    by simp
  show ?case
    using Cons.IH [of "\<lambda>k. f k + (if P s then key_count (g s) k else 0)"] Cons.prems
    by (simp only: rfold.simps 1 rbind_simps) (simp add: tab_def algebra_simps)
qed simp

lemma sum_list_ge_member:
  fixes f :: "'a \<Rightarrow> int"
  assumes "s \<in> set xs" and "\<And>x. 0 \<le> f x"
  shows "f s \<le> sum_list (map f xs)"
  using assms(1)
proof (induction xs)
  case (Cons x xs)
  have "0 \<le> sum_list (map f xs)" using assms(2) by (induction xs) (simp_all add: add_nonneg_nonneg)
  with Cons assms(2) [of x] show ?case by fastforce
qed simp

subsection \<open>The updates are incremental\<close>

text \<open>What a scheduled section contributes: one for each key in a list.\<close>

definition by_keys ::
  "(heap \<Rightarrow> secref \<Rightarrow> 'k list) \<Rightarrow> heap \<Rightarrow> 'p \<Rightarrow> secref \<Rightarrow> rsref list \<Rightarrow> 'k \<Rightarrow> int" where
  "by_keys g h p s rs k = (if rs = [] then 0 else key_count (g h s) k)"

lemma by_keys_simps [simp]: "by_keys g h p s [] k = 0" "rs \<noteq> [] \<Longrightarrow> by_keys g h p s rs k = key_count (g h s) k"
  by (simp_all add: by_keys_def)

lemma by_keys_cong: "g h' = g h \<Longrightarrow> by_keys g h' p = by_keys g h p"
  by (simp add: by_keys_def fun_eq_iff)

lemma by_keys_total:
  "section_total (by_keys g) h p sch =
     (\<lambda>k. \<Sum>s\<leftarrow>section_list sch. if is_scheduled h s then key_count (g h s) k else 0)"
proof -
  have "by_keys g h p s (roomslots_of h s) k = (if is_scheduled h s then key_count (g h s) k else 0)" for s k
    by (simp add: by_keys_def)
  then show ?thesis by (simp only: section_total_def fun_eq_iff) simp
qed

lemma by_keys_total_nonneg: "0 \<le> section_total (by_keys g) h p sch k"
proof -
  have "0 \<le> sum_list (map (\<lambda>s. by_keys g h p s (roomslots_of h s) k) xs)" for xs
    by (induction xs) (simp_all add: by_keys_def add_nonneg_nonneg)
  then show ?thesis by (simp add: section_total_def)
qed

lemma by_keys_total_ge:
  assumes "s \<in> sections_of sch" and "roomslots_of h s \<noteq> []"
  shows "key_count (g h s) k \<le> section_total (by_keys g) h p sch k"
  using sum_list_ge_member [of s "section_list sch" "\<lambda>s. by_keys g h p s (roomslots_of h s) k"] assms
  by (simp add: section_total_def section_list_def by_keys_def split: if_splits)

lemma needed_ne:
  assumes "settled h sch" and "r \<in> all_roomslots h sch"
  shows "needed h s r \<noteq> []"
  by (rule grs_registered(1) [OF settledD(2) [OF assms(1)] assms(2)])

lemma rbind_Inr_right [simp]: "rbind r Inr = r"
  by (cases r) simp_all

lemma count_inc:
  assumes "distinct keys" and "k \<in> set keys" and "0 \<le> f k"
  shows "(if f k + 1 = 1 then count_positive (tab keys f) + 1 else count_positive (tab keys f)) =
     count_positive (tab keys (f(k := f k + 1)))"
  using count_positive_upd [OF assms(1,2), of f "f k + 1"] assms(3) by simp

lemma count_dec:
  assumes "distinct keys" and "k \<in> set keys" and "0 < f k"
  shows "(if f k - 1 = 0 then count_positive (tab keys f) - 1 else count_positive (tab keys f)) =
     count_positive (tab keys (f(k := f k - 1)))"
  using count_positive_upd [OF assms(1,2), of f "f k - 1"] assms(3) by simp

interpretation sections_scorer:
  section_sum "\<lambda>h sch. Inr (of_nat (length (section_list sch)))"
    "\<lambda>p f. \<lparr>nsec_total = p, nsec_scheduled = f ()\<rparr>" "by_keys (\<lambda>h s. [()])" nsec_update_schedule
    nsec_update_schedule_section keep nsec_update_unschedule_section keep
proof (unfold_locales, goal_cases)
  case (2 h h' p)
  show ?case by (rule by_keys_cong) simp
next
  case (4 h sch)
  show ?case by (simp add: nsec_update_schedule_def by_keys_total cong: if_cong)
next
  case (5 sch h s r h' p)
  then show ?case
    by (auto elim!: scheduleE simp: nsec_update_schedule_section_def needed_ne)
next
  case (6 sch h s r h' p)
  then show ?case by (auto elim!: moveE simp: keep_def needed_ne fun_eq_iff)
next
  case (7 sch h s h' p)
  then have "s \<in> sections_of sch" "roomslots_of h s \<noteq> []" by (auto elim: unscheduleE)
  with by_keys_total_ge [OF this, of "\<lambda>h s. [()]" "()" p] show ?case
    by (simp add: nsec_update_unschedule_section_def)
next
  case (8 sch h s s2 h' p)
  then show ?case by (auto elim!: swapE simp: keep_def)
qed simp_all

definition nsub_keys :: "heap \<Rightarrow> secref \<Rightarrow> int list" where
  "nsub_keys h s = [sec_parent (hp_sec h s)]"

definition nsub_params :: "heap \<Rightarrow> schedule \<Rightarrow> subjects_state result" where
  "nsub_params h sch =
     (let subjects = remdups (map (\<lambda>s. sec_parent (hp_sec h s)) (section_list sch));
          total = of_nat (length subjects) in
      rbind (py_div total (of_nat (length (section_list sch)))) (\<lambda>sc.
      Inr \<lparr>nsub_total = total, nsub_by_subject = tab subjects (\<lambda>_. 0), nsub_scheduled = 0, nsub_scaling = sc\<rparr>))"

definition nsub_mk :: "subjects_state \<Rightarrow> (int \<Rightarrow> int) \<Rightarrow> subjects_state" where
  "nsub_mk p f = (let d = tab (dict_keys (nsub_by_subject p)) f in
     p\<lparr>nsub_by_subject := d, nsub_scheduled := count_positive d\<rparr>)"

lemma nsub_params_keys:
  assumes "nsub_params h sch = Inr p"
  shows "distinct (dict_keys (nsub_by_subject p))"
    and "s \<in> sections_of sch \<Longrightarrow> sec_parent (hp_sec h s) \<in> set (dict_keys (nsub_by_subject p))"
  using assms by (auto simp: nsub_params_def Let_def rbind_Inr_iff section_list_def)

lemma nsub_inc:
  fixes p :: subjects_state
  defines "ks \<equiv> dict_keys (nsub_by_subject p)"
  assumes "distinct ks" and k: "k \<in> set ks" and "0 \<le> f k"
  shows "rbind (dict_add (nsub_by_subject (nsub_mk p f)) k 1) (\<lambda>d. rbind (dict_get d k) (\<lambda>n.
      Inr (nsub_mk p f\<lparr>nsub_by_subject := d, nsub_scheduled :=
        (if n = 1 then nsub_scheduled (nsub_mk p f) + 1 else nsub_scheduled (nsub_mk p f))\<rparr>))) =
    Inr (nsub_mk p (f(k := f k + 1)))"
  using count_inc [of ks k f, OF assms(2-4)]
  by (simp add: nsub_mk_def Let_def ks_def [symmetric] dict_add_tab assms(2) k cong: if_cong)

lemma nsub_dec:
  fixes p :: subjects_state
  defines "ks \<equiv> dict_keys (nsub_by_subject p)"
  assumes "distinct ks" and k: "k \<in> set ks" and "0 < f k"
  shows "rbind (dict_add (nsub_by_subject (nsub_mk p f)) k (-1)) (\<lambda>d. rbind (dict_get d k) (\<lambda>n.
      Inr (nsub_mk p f\<lparr>nsub_by_subject := d, nsub_scheduled :=
        (if n = 0 then nsub_scheduled (nsub_mk p f) - 1 else nsub_scheduled (nsub_mk p f))\<rparr>))) =
    Inr (nsub_mk p (f(k := f k - 1)))"
  using count_dec [of ks k f, OF assms(2-4)]
  by (simp add: nsub_mk_def Let_def ks_def [symmetric] dict_add_tab assms(2) k cong: if_cong)

lemma nsub_mk_get:
  "k \<in> set (dict_keys (nsub_by_subject p)) \<Longrightarrow> dict_get (nsub_by_subject (nsub_mk p f)) k = Inr (f k)"
  by (simp add: nsub_mk_def Let_def)

lemma single_key_update:
  "f(k := f k + 1) = (\<lambda>k'. f k' + key_count [k] k')" "f(k := f k - 1) = (\<lambda>k'. f k' - key_count [k] k')"
  by (auto simp: fun_eq_iff)

interpretation subjects_scorer:
  section_sum nsub_params nsub_mk "by_keys nsub_keys" nsub_update_schedule
    nsub_update_schedule_section keep nsub_update_unschedule_section keep
proof (unfold_locales, goal_cases)
  case (1 h h' sch)
  show ?case by (simp add: nsub_params_def same_staticD [OF 1] Let_def)
next
  case (2 h h' p)
  show ?case by (rule by_keys_cong) (simp add: nsub_keys_def same_staticD [OF 2] fun_eq_iff)
next
  case (4 h sch)
  let ?ks = "remdups (map (\<lambda>s. sec_parent (hp_sec h s)) (section_list sch))"
  have "rfold (\<lambda>d s. if is_scheduled h s then dict_add d (sec_parent (hp_sec h s)) 1 else Inr d)
      (tab ?ks (\<lambda>_. 0)) (section_list sch) = Inr (tab ?ks
        (\<lambda>k. \<Sum>s\<leftarrow>section_list sch. if is_scheduled h s then key_count (nsub_keys h s) k else 0))"
    using add_sections_tab [of ?ks "section_list sch" "is_scheduled h" "nsub_keys h" "\<lambda>_. 0"]
    by (simp add: nsub_keys_def del: is_scheduled_iff cong: if_cong)
  then show ?case
    by (simp add: nsub_update_schedule_def nsub_params_def Let_def map_const_tab rbind_assoc nsub_mk_def
        by_keys_total del: is_scheduled_iff)
next
  case (5 sch h s r h' p)
  then have a: "settled h sch" "s \<in> sections_of sch" "r \<in> all_roomslots h sch" by (auto elim: scheduleE)
  note keys = nsub_params_keys [OF 5(2)]
  have nk: "nsub_keys h s = [sec_parent (hp_sec h s)]" by (simp add: nsub_keys_def)
  show ?case
    using nsub_inc [of p "sec_parent (hp_sec h s)" "section_total (by_keys nsub_keys) h p sch", OF keys(1) keys(2) [OF a(2)] by_keys_total_nonneg [of nsub_keys h p sch "sec_parent (hp_sec h s)"]] a
    unfolding single_key_update nk [symmetric]
    by (simp add: nsub_update_schedule_section_def Let_def needed_ne del: key_count_simps)
next
  case (6 sch h s r h' p)
  then show ?case by (auto elim!: moveE simp: keep_def needed_ne)
next
  case (7 sch h s h' p)
  then have a: "s \<in> sections_of sch" "roomslots_of h s \<noteq> []" by (auto elim: unscheduleE)
  note keys = nsub_params_keys [OF 7(2)]
  have nk: "nsub_keys h s = [sec_parent (hp_sec h s)]" by (simp add: nsub_keys_def)
  have pos: "0 < section_total (by_keys nsub_keys) h p sch (sec_parent (hp_sec h s))"
    using by_keys_total_ge [OF a, of nsub_keys "sec_parent (hp_sec h s)" p] by (simp add: nsub_keys_def)
  show ?case
    using nsub_dec [of p "sec_parent (hp_sec h s)" "section_total (by_keys nsub_keys) h p sch", OF keys(1) keys(2) [OF a(1)] pos] keys a pos
    unfolding single_key_update nk [symmetric]
    by (simp add: nsub_update_unschedule_section_def Let_def nsub_mk_get del: key_count_simps)
next
  case (8 sch h s s2 h' p)
  then show ?case by (auto elim!: swapE simp: keep_def)
qed simp

definition ntea_keys :: "heap \<Rightarrow> secref \<Rightarrow> int list" where
  "ntea_keys h s = map (\<lambda>t. t_id (hp_teacher h t)) (sec_teachers (hp_sec h s))"

definition ntea_params :: "heap \<Rightarrow> schedule \<Rightarrow> teachers_state result" where
  "ntea_params h sch =
     (let total = of_nat (length (sch_teachers sch)) in
      rbind (py_div total (of_nat (length (section_list sch)))) (\<lambda>sc.
      Inr \<lparr>ntea_total = total, ntea_by_teacher = tab (dict_keys (sch_teachers sch)) (\<lambda>_. 0),
           ntea_scheduled = 0, ntea_scaling = sc\<rparr>))"

definition ntea_mk :: "teachers_state \<Rightarrow> (int \<Rightarrow> int) \<Rightarrow> teachers_state" where
  "ntea_mk p f = (let d = tab (dict_keys (ntea_by_teacher p)) f in
     p\<lparr>ntea_by_teacher := d, ntea_scheduled := count_positive d\<rparr>)"

lemma ntea_keys_subset:
  assumes "settled h sch" and "s \<in> sections_of sch"
  shows "set (ntea_keys h s) \<subseteq> set (dict_keys (sch_teachers sch))"
proof
  fix k assume "k \<in> set (ntea_keys h s)"
  then obtain t where t: "t \<in> set (sec_teachers (hp_sec h s))" "k = t_id (hp_teacher h t)"
    by (auto simp: ntea_keys_def)
  with assms have "t \<in> teachers_of sch" by (auto simp: settled_def valid_def linked_def)
  then obtain k' where "(k', t) \<in> set (sch_teachers sch)" using value_in_pairs by fast
  moreover from this have "t_id (hp_teacher h t) = k'"
    using settledD(2) [OF assms(1)] by (fastforce simp: static_ok_def dicts_ok_def)
  ultimately show "k \<in> set (dict_keys (sch_teachers sch))" using t(2) by (force simp: dict_keys_def)
qed

lemma ntea_params_keys:
  assumes "ntea_params h sch = Inr p" and "settled h sch"
  shows "distinct (dict_keys (ntea_by_teacher p))"
    and "s \<in> sections_of sch \<Longrightarrow> set (ntea_keys h s) \<subseteq> set (dict_keys (ntea_by_teacher p))"
proof -
  have keys: "dict_keys (ntea_by_teacher p) = dict_keys (sch_teachers sch)"
    using assms(1) by (auto simp: ntea_params_def Let_def rbind_Inr_iff)
  have "distinct (map fst (sch_teachers sch))" using settledD(4) [OF assms(2)] by (simp add: linked_def)
  then show "distinct (dict_keys (ntea_by_teacher p))" unfolding keys by (simp add: dict_keys_def)
  show "s \<in> sections_of sch \<Longrightarrow> set (ntea_keys h s) \<subseteq> set (dict_keys (ntea_by_teacher p))"
    unfolding keys by (rule ntea_keys_subset [OF assms(2)])
qed

text \<open>The loops over the teachers of a section.\<close>

lemma ntea_inc:
  fixes p :: teachers_state
  defines "ks \<equiv> dict_keys (ntea_by_teacher p)"
  assumes "distinct ks" and k: "k \<in> set ks" and "0 \<le> f k"
  shows "rbind (dict_add (ntea_by_teacher (ntea_mk p f)) k 1) (\<lambda>d. rbind (dict_get d k) (\<lambda>n.
      Inr (ntea_mk p f\<lparr>ntea_by_teacher := d, ntea_scheduled :=
        (if n = 1 then ntea_scheduled (ntea_mk p f) + 1 else ntea_scheduled (ntea_mk p f))\<rparr>))) =
    Inr (ntea_mk p (f(k := f k + 1)))"
  using count_inc [of ks k f, OF assms(2-4)]
  by (simp add: ntea_mk_def Let_def ks_def [symmetric] dict_add_tab assms(2) k cong: if_cong)

lemma ntea_dec:
  fixes p :: teachers_state
  defines "ks \<equiv> dict_keys (ntea_by_teacher p)"
  assumes "distinct ks" and k: "k \<in> set ks" and pos: "0 < f k"
  shows "rbind (dict_get (ntea_by_teacher (ntea_mk p f)) k) (\<lambda>n0.
      rbind (raise_if (\<not> n0 > 0) (AssertionError [])) (\<lambda>_.
      rbind (dict_add (ntea_by_teacher (ntea_mk p f)) k (-1)) (\<lambda>d. rbind (dict_get d k) (\<lambda>n.
      Inr (ntea_mk p f\<lparr>ntea_by_teacher := d, ntea_scheduled :=
        (if n = 0 then ntea_scheduled (ntea_mk p f) - 1 else ntea_scheduled (ntea_mk p f))\<rparr>))))) =
    Inr (ntea_mk p (f(k := f k - 1)))"
  using count_dec [of ks k f, OF assms(2-4)] pos
  by (simp add: ntea_mk_def Let_def ks_def [symmetric] dict_add_tab assms(2) k cong: if_cong)

lemma ntea_inc_loop:
  fixes p :: teachers_state
  defines "ks \<equiv> dict_keys (ntea_by_teacher p)"
  assumes "distinct ks" and "g ` set ts \<subseteq> set ks" and "\<And>k. 0 \<le> f k"
  shows "rfold (\<lambda>st t. rbind (dict_add (ntea_by_teacher st) (g t) 1) (\<lambda>d.
         rbind (dict_get d (g t)) (\<lambda>n. Inr (st\<lparr>ntea_by_teacher := d,
           ntea_scheduled := (if n = 1 then ntea_scheduled st + 1 else ntea_scheduled st)\<rparr>))))
       (ntea_mk p f) ts = Inr (ntea_mk p (\<lambda>k. f k + key_count (map g ts) k))"
  using assms(3,4)
proof (induction ts arbitrary: f)
  case (Cons t ts)
  have k: "g t \<in> set (dict_keys (ntea_by_teacher p))" using Cons.prems(1) by (simp add: ks_def)
  note IH = Cons.IH [of "f(g t := f (g t) + 1)"]
  have "(\<lambda>k. (f(g t := f (g t) + 1)) k + key_count (map g ts) k) = (\<lambda>k. f k + key_count (map g (t # ts)) k)"
    by (simp add: fun_eq_iff)
  moreover have "0 \<le> (f(g t := f (g t) + 1)) k" for k
    using Cons.prems(2) [of k] Cons.prems(2) [of "g t"] by simp
  ultimately show ?case
    using IH Cons.prems(1)
    by (simp only: rfold.simps ntea_inc [of p "g t" f, OF assms(2) [unfolded ks_def] k Cons.prems(2)] rbind_simps)
      (simp add: fun_upd_def)
qed simp

lemma ntea_dec_loop:
  fixes p :: teachers_state
  defines "ks \<equiv> dict_keys (ntea_by_teacher p)"
  assumes "distinct ks" and "g ` set ts \<subseteq> set ks" and "\<And>k. key_count (map g ts) k \<le> f k"
  shows "rfold (\<lambda>st t. rbind (dict_get (ntea_by_teacher st) (g t)) (\<lambda>n0.
         rbind (raise_if (\<not> n0 > 0) (AssertionError [])) (\<lambda>_.
         rbind (dict_add (ntea_by_teacher st) (g t) (-1)) (\<lambda>d.
         rbind (dict_get d (g t)) (\<lambda>n. Inr (st\<lparr>ntea_by_teacher := d,
           ntea_scheduled := (if n = 0 then ntea_scheduled st - 1 else ntea_scheduled st)\<rparr>))))))
       (ntea_mk p f) ts = Inr (ntea_mk p (\<lambda>k. f k - key_count (map g ts) k))"
  using assms(3,4)
proof (induction ts arbitrary: f)
  case (Cons t ts)
  have k: "g t \<in> set (dict_keys (ntea_by_teacher p))" using Cons.prems(1) by (simp add: ks_def)
  have "1 + key_count (map g ts) (g t) \<le> f (g t)" using Cons.prems(2) [of "g t"] by simp
  moreover have "0 \<le> key_count (map g ts) (g t)" by simp
  ultimately have pos: "0 < f (g t)" by linarith
  note IH = Cons.IH [of "f(g t := f (g t) - 1)"]
  have "(\<lambda>k. (f(g t := f (g t) - 1)) k - key_count (map g ts) k) = (\<lambda>k. f k - key_count (map g (t # ts)) k)"
    by (simp add: fun_eq_iff)
  moreover have "key_count (map g ts) k \<le> (f(g t := f (g t) - 1)) k" for k
    using Cons.prems(2) [of k] by (simp split: if_splits)
  ultimately show ?case
    using IH Cons.prems(1)
    by (simp only: rfold.simps ntea_dec [of p "g t" f, OF assms(2) [unfolded ks_def] k pos] rbind_simps)
      (simp add: fun_upd_def)
qed simp

interpretation teachers_scorer:
  section_sum ntea_params ntea_mk "by_keys ntea_keys" ntea_update_schedule
    ntea_update_schedule_section keep ntea_update_unschedule_section keep
proof (unfold_locales, goal_cases)
  case (1 h h' sch)
  show ?case by (simp add: ntea_params_def)
next
  case (2 h h' p)
  show ?case by (rule by_keys_cong) (simp add: ntea_keys_def same_staticD [OF 2] fun_eq_iff)
next
  case (4 h sch)
  have "rfold (\<lambda>d s. if is_scheduled h s
        then rfold (\<lambda>d t. dict_add d (t_id (hp_teacher h t)) 1) d (sec_teachers (hp_sec h s)) else Inr d)
      (tab (dict_keys (sch_teachers sch)) (\<lambda>_. 0)) (section_list sch) =
      Inr (tab (dict_keys (sch_teachers sch))
        (\<lambda>k. \<Sum>s\<leftarrow>section_list sch. if is_scheduled h s then key_count (ntea_keys h s) k else 0))"
  proof -
    have "rfold (\<lambda>d t. dict_add d (g t) (1::int)) d ts = rfold (\<lambda>d k. dict_add d k 1) d (map g ts)"
      for g :: "tref \<Rightarrow> int" and d ts by (induction ts arbitrary: d) simp_all
    moreover have "distinct (dict_keys (sch_teachers sch))"
      using settledD(4) [OF 4] by (simp add: linked_def dict_keys_def)
    ultimately show ?thesis
      using add_sections_tab [of "dict_keys (sch_teachers sch)" "section_list sch" "is_scheduled h" "ntea_keys h" "\<lambda>_. 0"]
        ntea_keys_subset [OF 4]
      by (simp add: ntea_keys_def section_list_def del: is_scheduled_iff cong: if_cong)
  qed
  then show ?case
    by (simp add: ntea_update_schedule_def ntea_params_def Let_def map_const_tab rbind_assoc ntea_mk_def
        by_keys_total del: is_scheduled_iff)
next
  case (5 sch h s r h' p)
  then have a: "settled h sch" "s \<in> sections_of sch" "r \<in> all_roomslots h sch" by (auto elim: scheduleE)
  note keys = ntea_params_keys [OF 5(2) a(1)]
  show ?case
    using ntea_inc_loop [OF keys(1), of "\<lambda>t. t_id (hp_teacher h t)" "sec_teachers (hp_sec h s)"
        "section_total (by_keys ntea_keys) h p sch"] keys(2) [OF a(2)] a
    by (simp add: ntea_update_schedule_section_def Let_def ntea_keys_def by_keys_total_nonneg needed_ne)
next
  case (6 sch h s r h' p)
  then show ?case by (auto elim!: moveE simp: keep_def needed_ne)
next
  case (7 sch h s h' p)
  then have a: "s \<in> sections_of sch" "roomslots_of h s \<noteq> []" "settled h sch" by (auto elim: unscheduleE)
  note keys = ntea_params_keys [OF 7(2) a(3)]
  show ?case
    unfolding ntea_update_unschedule_section_def Let_def
    using keys(2) [OF a(1)] a(2) by_keys_total_ge [OF a(1,2), of ntea_keys]
    by (subst ntea_dec_loop [OF keys(1)]) (simp_all add: ntea_keys_def)
next
  case (8 sch h s s2 h' p)
  then show ?case by (auto elim!: swapE simp: keep_def)
qed simp

end
