(* ===== verification/Scorers_Distribution.thy ===== *)
theory Scorers_Distribution
  imports Scorers_Sums Scorers_Counts
begin

section \<open>Scorers of distributions over timeslots (autoscheduler/scoring.py)\<close>

text \<open>
  \<open>AdminDistributionScorer\<close>, \<open>CategoryBalanceScorer\<close> and \<open>HungryTeacherScorer\<close> keep
  dictionaries indexed by timeslot ids. The first two are instances of
  \<open>default_section_sum\<close>. The third keeps booleans, which stand for counts as long as no
  teacher teaches twice at once; that makes it a \<open>section_sum\<close> on settled schedules.
\<close>

subsection \<open>AdminDistributionScorer\<close>

record admin_state =
  ad_ideal :: "(int, rat) dict"
  ad_total :: rat
  ad_per_timeslot :: "(int, rat) dict"
  ad_scaling :: rat

fun ideal_rest :: "heap \<Rightarrow> tsref \<Rightarrow> tsref list \<Rightarrow> rat list" where
  "ideal_rest h prev [] = []"
| "ideal_rest h prev (t # ts) =
     (if dt_day (ts_start (hp_ts h t)) = dt_day (ts_start (hp_ts h prev)) then 1 / 3 else 0)
     # ideal_rest h t ts"

definition admins_of :: "heap \<Rightarrow> secref \<Rightarrow> tref list" where
  "admins_of h s = filter (\<lambda>t. t_is_admin (hp_teacher h t)) (sec_teachers (hp_sec h s))"

definition ad_add :: "heap \<Rightarrow> secref \<Rightarrow> rsref list \<Rightarrow> rat \<Rightarrow> (int, rat) dict \<Rightarrow> (int, rat) dict result" where
  "ad_add h s roomslots x per =
     rfold (\<lambda>d t. rfold (\<lambda>d r. dict_add d (slot_id h r) x) d roomslots) per (admins_of h s)"

definition ad_update_schedule :: "heap \<Rightarrow> schedule \<Rightarrow> admin_state result" where
  "ad_update_schedule h sch =
     rbind (py_first (sch_timeslots sch)) (\<lambda>t0.
     let ideal_distribution = 0 # ideal_rest h t0 (tl (sch_timeslots sch));
         ids = map (\<lambda>t. ts_id (hp_ts h t)) (sch_timeslots sch);
         ideal = dict_of (zip ids ideal_distribution);
         total = of_nat (length (filter (\<lambda>t. t_is_admin (hp_teacher h t)) (dict_values (sch_teachers sch))));
         num_sections = of_nat (length (section_list sch)) in
     rbind (rfold (\<lambda>d s. ad_add h s (roomslots_of h s) 1 d) (dict_of (map (\<lambda>i. (i, 0)) ids))
       (section_list sch)) (\<lambda>per.
     rbind (py_div (\<Sum>s\<leftarrow>section_list sch. sec_duration (hp_sec h s)) num_sections) (\<lambda>average_duration.
     rbind (py_div (\<Sum>s\<leftarrow>section_list sch. of_nat (length (sec_teachers (hp_sec h s)))) num_sections)
       (\<lambda>average_num_teachers.
     rbind (py_div total (average_duration * average_num_teachers * num_sections)) (\<lambda>sc.
     Inr \<lparr>ad_ideal = ideal, ad_total = total, ad_per_timeslot = per, ad_scaling = sc\<rparr>)))))"

definition ad_score_schedule :: "admin_state \<Rightarrow> rat result" where
  "ad_score_schedule st =
     rbind (rfold (\<lambda>penalty (t, ideal).
         rbind (dict_get (ad_per_timeslot st) t) (\<lambda>n.
         rbind (py_div n (ad_total st)) (\<lambda>actual.
         Inr (if actual > ideal then penalty + (actual - ideal) else penalty))))
       0 (ad_ideal st)) (\<lambda>penalty. Inr (max 0 (1 - penalty)))"

definition ad_update_schedule_section ::
  "heap \<Rightarrow> admin_state \<Rightarrow> secref \<Rightarrow> rsref \<Rightarrow> admin_state result" where
  "ad_update_schedule_section h st s start_roomslot =
     rbind (ad_add h s (needed h s start_roomslot) 1 (ad_per_timeslot st)) (\<lambda>per.
     Inr (st\<lparr>ad_per_timeslot := per\<rparr>))"

definition ad_update_unschedule_section :: "heap \<Rightarrow> admin_state \<Rightarrow> secref \<Rightarrow> admin_state result" where
  "ad_update_unschedule_section h st s =
     rbind (ad_add h s (roomslots_of h s) (-1) (ad_per_timeslot st)) (\<lambda>per.
     Inr (st\<lparr>ad_per_timeslot := per\<rparr>))"

subsection \<open>CategoryBalanceScorer\<close>

record category_state =
  cb_durations :: "(int, rat) dict"
  cb_hours :: "(int, rat) dict"
  cb_capacity :: "(int, (int, rat) dict) dict"

definition nested_add ::
  "(int, (int, rat) dict) dict \<Rightarrow> int \<Rightarrow> int \<Rightarrow> rat \<Rightarrow> (int, (int, rat) dict) dict result" where
  "nested_add d c k x =
     rbind (dict_get d c) (\<lambda>inner. rbind (dict_add inner k x) (\<lambda>inner'. Inr (AList.update c inner' d)))"

definition actual_capacity :: "heap \<Rightarrow> secref \<Rightarrow> rsref \<Rightarrow> rat" where
  "actual_capacity h s r = of_int (min (sec_capacity (hp_sec h s)) (room_capacity (hp_room h (room_of h r))))"

definition cb_hours_by_category :: "heap \<Rightarrow> schedule \<Rightarrow> (int, rat) dict" where
  "cb_hours_by_category h sch =
     fold (\<lambda>s d. let c = sec_category (hp_sec h s) in
         AList.update c ((case map_of d c of None \<Rightarrow> 0 | Some x \<Rightarrow> x)
           + of_int (sec_capacity (hp_sec h s)) * sec_duration (hp_sec h s)) d)
       (section_list sch) []"

definition cb_update_schedule :: "heap \<Rightarrow> schedule \<Rightarrow> category_state result" where
  "cb_update_schedule h sch =
     (let hours = cb_hours_by_category h sch;
          ids = map (\<lambda>t. ts_id (hp_ts h t)) (sch_timeslots sch);
          zero = map (\<lambda>c. (c, dict_of (map (\<lambda>i. (i, 0)) ids))) (dict_keys hours) in
      rbind (rfold (\<lambda>d s. rbind (dict_get d (sec_category (hp_sec h s))) (\<lambda>_.
          rfold (\<lambda>d r. nested_add d (sec_category (hp_sec h s)) (slot_id h r) (actual_capacity h s r))
            d (roomslots_of h s)))
        zero (section_list sch)) (\<lambda>cap.
      Inr \<lparr>cb_durations = dict_of (map (\<lambda>t. (ts_id (hp_ts h t), ts_duration (hp_ts h t))) (sch_timeslots sch)),
           cb_hours = hours, cb_capacity = cap\<rparr>))"

definition cb_score_schedule :: "category_state \<Rightarrow> rat result" where
  "cb_score_schedule st =
     rbind (rfold (\<lambda>total_penalty (category, student_class_hours).
         rbind (dict_get (cb_capacity st) category) (\<lambda>per_timeslot.
         rbind (py_div 1 (of_nat (length per_timeslot))) (\<lambda>leeway.
         rfold (\<lambda>penalty (timeslot, capacity).
             rbind (dict_get (cb_durations st) timeslot) (\<lambda>duration.
             rbind (py_div (capacity * duration) student_class_hours) (\<lambda>fractional_capacity.
             if fractional_capacity > leeway
             then Inr (penalty + (capacity / student_class_hours - leeway)) else Inr penalty)))
           total_penalty per_timeslot)))
       0 (cb_hours st)) (\<lambda>total_penalty.
     rbind (py_div total_penalty (of_nat (length (cb_hours st)))) (\<lambda>p. Inr (1 - p)))"

definition cb_update_schedule_section ::
  "heap \<Rightarrow> category_state \<Rightarrow> secref \<Rightarrow> rsref \<Rightarrow> category_state result" where
  "cb_update_schedule_section h st s start_roomslot =
     rbind (rfold (\<lambda>d r. nested_add d (sec_category (hp_sec h s)) (slot_id h r) (actual_capacity h s r))
       (cb_capacity st) (needed h s start_roomslot)) (\<lambda>cap. Inr (st\<lparr>cb_capacity := cap\<rparr>))"

definition cb_update_unschedule_section :: "heap \<Rightarrow> category_state \<Rightarrow> secref \<Rightarrow> category_state result" where
  "cb_update_unschedule_section h st s =
     rbind (rfold (\<lambda>d r. nested_add d (sec_category (hp_sec h s)) (slot_id h r) (- actual_capacity h s r))
       (cb_capacity st) (roomslots_of h s)) (\<lambda>cap. Inr (st\<lparr>cb_capacity := cap\<rparr>))"

subsection \<open>HungryTeacherScorer\<close>

record hungry_state =
  hg_total :: rat
  hg_lunch :: "(int \<times> int \<times> int, tsref list) dict"
  hg_by_teacher :: "(int, (int, bool) dict) dict"
  hg_hungry :: "int set"
  hg_scaling :: rat

fun some_lunch_full :: "heap \<Rightarrow> (int, bool) dict \<Rightarrow> tsref list list \<Rightarrow> bool result" where
  "some_lunch_full h teaching [] = Inr False"
| "some_lunch_full h teaching (timeslots # rest) =
     rbind (rmap (\<lambda>t. dict_get teaching (ts_id (hp_ts h t))) timeslots) (\<lambda>bs.
     if list_all id bs then Inr True else some_lunch_full h teaching rest)"

definition update_teacher_hungriness :: "heap \<Rightarrow> hungry_state \<Rightarrow> int \<Rightarrow> hungry_state result" where
  "update_teacher_hungriness h st teacher_id =
     rbind (dict_get (hg_by_teacher st) teacher_id) (\<lambda>teaching.
     rbind (some_lunch_full h teaching (dict_values (hg_lunch st))) (\<lambda>hungry.
     Inr (st\<lparr>hg_hungry := (if hungry then insert teacher_id (hg_hungry st) else hg_hungry st - {teacher_id})\<rparr>)))"

definition set_teaching ::
  "heap \<Rightarrow> rsref list \<Rightarrow> bool \<Rightarrow> (int, (int, bool) dict) dict \<Rightarrow> tref \<Rightarrow> (int, (int, bool) dict) dict result" where
  "set_teaching h roomslots b by_teacher t =
     rbind (dict_get by_teacher (t_id (hp_teacher h t))) (\<lambda>teaching.
     Inr (AList.update (t_id (hp_teacher h t))
       (fold (\<lambda>r d. if dict_has d (slot_id h r) then AList.update (slot_id h r) b d else d) roomslots teaching)
       by_teacher))"

definition hg_update_schedule :: "heap \<Rightarrow> schedule \<Rightarrow> hungry_state result" where
  "hg_update_schedule h sch =
     (let total = of_nat (length (sch_teachers sch));
          lunch_timeslots = concat (dict_values (sch_lunch sch));
          empty = map (\<lambda>i. (i, dict_of (map (\<lambda>t. (ts_id (hp_ts h t), False)) lunch_timeslots)))
                    (dict_keys (sch_teachers sch)) in
      rbind (rfold (\<lambda>d s. rfold (set_teaching h (roomslots_of h s) True) d (sec_teachers (hp_sec h s)))
        empty (section_list sch)) (\<lambda>by_teacher.
      rbind (rfold (update_teacher_hungriness h)
        \<lparr>hg_total = total, hg_lunch = sch_lunch sch, hg_by_teacher = by_teacher, hg_hungry = {}, hg_scaling = 1\<rparr>
        (dict_keys by_teacher)) (\<lambda>st.
      rbind (py_div total (\<Sum>s\<leftarrow>section_list sch. of_nat (length (sec_teachers (hp_sec h s))))) (\<lambda>sc.
      Inr (st\<lparr>hg_scaling := sc\<rparr>)))))"

definition hg_score_schedule :: "hungry_state \<Rightarrow> rat result" where
  "hg_score_schedule st =
     rbind (py_div (of_nat (card (hg_hungry st))) (hg_total st)) (\<lambda>x. Inr (1 - x))"

definition hg_set_section :: "heap \<Rightarrow> secref \<Rightarrow> rsref list \<Rightarrow> bool \<Rightarrow> hungry_state \<Rightarrow> hungry_state result" where
  "hg_set_section h s roomslots b st0 =
     rfold (\<lambda>st t.
         rbind (set_teaching h roomslots b (hg_by_teacher st) t) (\<lambda>by_teacher.
         update_teacher_hungriness h (st\<lparr>hg_by_teacher := by_teacher\<rparr>) (t_id (hp_teacher h t))))
       st0 (sec_teachers (hp_sec h s))"

definition hg_update_schedule_section ::
  "heap \<Rightarrow> hungry_state \<Rightarrow> secref \<Rightarrow> rsref \<Rightarrow> hungry_state result" where
  "hg_update_schedule_section h st s start_roomslot = hg_set_section h s (needed h s start_roomslot) True st"

definition hg_update_unschedule_section :: "heap \<Rightarrow> hungry_state \<Rightarrow> secref \<Rightarrow> hungry_state result" where
  "hg_update_unschedule_section h st s = hg_set_section h s (roomslots_of h s) False st"

subsection \<open>AdminDistributionScorer is incremental\<close>

lemma rfold_concat: "rfold f s (concat (map g xs)) = rfold (\<lambda>s x. rfold f s (g x)) s xs"
  by (induction xs arbitrary: s) (simp_all add: rfold_append)

lemma rfold_map: "rfold f s (map g xs) = rfold (\<lambda>s x. f s (g x)) s xs"
  by (induction xs arbitrary: s) simp_all

definition timeslot_ids :: "heap \<Rightarrow> schedule \<Rightarrow> int list" where
  "timeslot_ids h sch = map (\<lambda>t. ts_id (hp_ts h t)) (sch_timeslots sch)"

lemma slot_id_registered:
  assumes "settled h sch" and "r \<in> all_roomslots h sch"
  shows "slot_id h r \<in> set (timeslot_ids h sch)"
proof -
  have "registered h sch (rs_timeslot (hp_rs h r))"
    using settledD(2) [OF assms(1)] assms(2) by (auto simp: static_ok_def)
  then show ?thesis by (auto simp: timeslot_ids_def slot_id_def dest!: registered_mem)
qed

lemma slots_registered:
  assumes "settled h sch"
  shows "s \<in> sections_of sch \<Longrightarrow> slot_id h ` set (roomslots_of h s) \<subseteq> set (timeslot_ids h sch)"
    and "r \<in> all_roomslots h sch \<Longrightarrow> slot_id h ` set (needed h s r) \<subseteq> set (timeslot_ids h sch)"
  using slot_id_registered [OF assms] section_fits(1) [OF settledD(1) [OF assms]]
    grs_registered(3) [OF settledD(2) [OF assms]] by blast+

definition ad_keys :: "heap \<Rightarrow> secref \<Rightarrow> rsref list \<Rightarrow> int list" where
  "ad_keys h s rs = concat (map (\<lambda>t. map (slot_id h) rs) (admins_of h s))"

lemma ad_keys_Nil: "ad_keys h s [] = []"
  by (simp add: ad_keys_def)

lemma ad_add_tab:
  assumes "distinct keys" and "slot_id h ` set rs \<subseteq> set keys"
  shows "ad_add h s rs x (tab keys f) = Inr (tab keys (\<lambda>k. f k + of_int (key_count (ad_keys h s rs) k) * x))"
proof -
  have "ad_add h s rs x d = rfold (\<lambda>d k. dict_add d k x) d (ad_keys h s rs)" for d
    by (simp add: ad_add_def ad_keys_def rfold_concat rfold_map)
  moreover have "set (ad_keys h s rs) \<subseteq> set keys" using assms(2) by (auto simp: ad_keys_def)
  ultimately show ?thesis
    using add_keys_tab [OF assms(1), where g = "\<lambda>k. k" and ts = "ad_keys h s rs"] by simp
qed

definition ad_section :: "heap \<Rightarrow> admin_state \<Rightarrow> secref \<Rightarrow> rsref list \<Rightarrow> int \<Rightarrow> rat" where
  "ad_section h p s rs k = of_int (key_count (ad_keys h s rs) k)"

lemma ad_fresh_loop:
  assumes "distinct keys" and "\<And>s. s \<in> set ss \<Longrightarrow> slot_id h ` set (roomslots_of h s) \<subseteq> set keys"
  shows "rfold (\<lambda>d s. ad_add h s (roomslots_of h s) 1 d) (tab keys f) ss =
     Inr (tab keys (\<lambda>k. f k + (\<Sum>s\<leftarrow>ss. of_int (key_count (ad_keys h s (roomslots_of h s)) k))))"
  using assms(2)
proof (induction ss arbitrary: f)
  case (Cons s ss)
  then show ?case by (simp add: ad_add_tab [OF assms(1)]) (simp add: tab_def algebra_simps)
qed simp

definition ad_params :: "heap \<Rightarrow> schedule \<Rightarrow> admin_state result" where
  "ad_params h sch =
     rbind (py_first (sch_timeslots sch)) (\<lambda>t0.
     let num_sections = of_nat (length (section_list sch));
         total = of_nat (length (filter (\<lambda>t. t_is_admin (hp_teacher h t)) (dict_values (sch_teachers sch)))) in
     rbind (py_div (\<Sum>s\<leftarrow>section_list sch. sec_duration (hp_sec h s)) num_sections) (\<lambda>average_duration.
     rbind (py_div (\<Sum>s\<leftarrow>section_list sch. of_nat (length (sec_teachers (hp_sec h s)))) num_sections)
       (\<lambda>average_num_teachers.
     rbind (py_div total (average_duration * average_num_teachers * num_sections)) (\<lambda>sc.
     Inr \<lparr>ad_ideal = dict_of (zip (timeslot_ids h sch) (0 # ideal_rest h t0 (tl (sch_timeslots sch)))),
          ad_total = total, ad_per_timeslot = tab (dedup (timeslot_ids h sch)) (\<lambda>_. 0), ad_scaling = sc\<rparr>))))"

lemma ad_params_keys:
  "ad_params h sch = Inr p \<Longrightarrow> dict_keys (ad_per_timeslot p) = dedup (timeslot_ids h sch)"
  by (auto simp: ad_params_def Let_def rbind_Inr_iff)

lemma slot_id_static:
  assumes "same_static h h'"
  shows "slot_id h' = slot_id h"
  by (simp add: slot_id_def fun_eq_iff same_staticD [OF assms])

lemma ideal_rest_static: "same_static h h' \<Longrightarrow> ideal_rest h' t ts = ideal_rest h t ts"
  by (induction ts arbitrary: t) (simp_all add: same_staticD(1))

interpretation admin_scorer:
  default_section_sum ad_params "\<lambda>p f. p\<lparr>ad_per_timeslot := tab (dict_keys (ad_per_timeslot p)) f\<rparr>"
    ad_section ad_update_schedule ad_update_schedule_section ad_update_unschedule_section
proof (unfold_locales, goal_cases)
  case (1 h h' sch)
  show ?case
    by (simp add: ad_params_def timeslot_ids_def same_staticD [OF 1] ideal_rest_static [OF 1] Let_def)
next
  case (2 h h' p)
  show ?case
    by (intro ext) (simp add: ad_section_def ad_keys_def admins_of_def slot_id_static [OF 2] same_staticD [OF 2])
next
  case (4 h sch)
  let ?ids = "dedup (timeslot_ids h sch)"
  have "dict_of (map (\<lambda>i. (i, 0 :: rat)) (timeslot_ids h sch)) = tab ?ids (\<lambda>_. 0)"
    using dict_of_const [of "\<lambda>i. i" "0 :: rat" "timeslot_ids h sch"] by simp
  moreover have "rfold (\<lambda>d s. ad_add h s (roomslots_of h s) 1 d) (tab ?ids (\<lambda>_. 0)) (section_list sch) =
      Inr (tab ?ids (\<lambda>k. \<Sum>s\<leftarrow>section_list sch. of_int (key_count (ad_keys h s (roomslots_of h s)) k)))"
    using ad_fresh_loop [of ?ids "section_list sch" h "\<lambda>_. 0"] slots_registered(1) [OF 4]
    by (simp add: section_list_def)
  moreover have "section_total ad_section h p sch =
      (\<lambda>k. \<Sum>s\<leftarrow>section_list sch. of_int (key_count (ad_keys h s (roomslots_of h s)) k))" for p
    by (simp add: section_total_def ad_section_def fun_eq_iff)
  ultimately show ?case
    unfolding ad_update_schedule_def ad_params_def Let_def timeslot_ids_def [symmetric]
    by (simp add: rbind_assoc cong: rbind_cong)
next
  case (5 h sch p s r f)
  then show ?case
    using slots_registered(2) [OF 5(1,4)] ad_params_keys [OF 5(2)]
    by (simp add: ad_update_schedule_section_def ad_add_tab ad_section_def)
next
  case (6 h sch p s f)
  then show ?case
    using slots_registered(1) [OF 6(1,3)] ad_params_keys [OF 6(2)]
    by (simp add: ad_update_unschedule_section_def ad_add_tab ad_section_def)
qed (simp add: ad_section_def ad_keys_Nil)

subsection \<open>CategoryBalanceScorer is incremental\<close>

definition tab2 :: "int list \<Rightarrow> int list \<Rightarrow> (int \<times> int \<Rightarrow> rat) \<Rightarrow> (int, (int, rat) dict) dict" where
  "tab2 cs ks f = tab cs (\<lambda>c. tab ks (\<lambda>k. f (c, k)))"

lemma nested_add_tab2:
  assumes "distinct cs" and "distinct ks" and "c \<in> set cs" and "k \<in> set ks"
  shows "nested_add (tab2 cs ks f) c k x = Inr (tab2 cs ks (f((c, k) := f (c, k) + x)))"
proof -
  have "tab cs ((\<lambda>c. tab ks (\<lambda>k. f (c, k)))(c := tab ks ((\<lambda>k. f (c, k))(k := f (c, k) + x)))) =
      tab2 cs ks (f((c, k) := f (c, k) + x))"
    by (auto simp: tab2_def tab_def)
  with assms show ?thesis by (simp add: nested_add_def tab2_def dict_add_tab update_tab)
qed

lemma nested_add_loop:
  assumes "distinct cs" and "distinct ks" and "c \<in> set cs" and "g ` set rs \<subseteq> set ks"
  shows "rfold (\<lambda>d r. nested_add d c (g r) (w r)) (tab2 cs ks f) rs =
     Inr (tab2 cs ks (\<lambda>(c', k). f (c', k) + (\<Sum>r\<leftarrow>rs. if c' = c \<and> k = g r then w r else 0)))"
  using assms(4)
proof (induction rs arbitrary: f)
  case (Cons r rs)
  have "(\<lambda>(c', k). (f((c, g r) := f (c, g r) + w r)) (c', k) + (\<Sum>r\<leftarrow>rs. if c' = c \<and> k = g r then w r else 0)) =
      (\<lambda>(c', k). f (c', k) + (\<Sum>r\<leftarrow>r # rs. if c' = c \<and> k = g r then w r else 0))"
    by (auto simp: fun_eq_iff)
  with Cons show ?case by (simp add: nested_add_tab2 assms(1-3))
qed simp

definition cb_section :: "heap \<Rightarrow> category_state \<Rightarrow> secref \<Rightarrow> rsref list \<Rightarrow> int \<times> int \<Rightarrow> rat" where
  "cb_section h p s rs ck = (\<Sum>r\<leftarrow>rs. if fst ck = sec_category (hp_sec h s) \<and> snd ck = slot_id h r
                                   then actual_capacity h s r else 0)"

lemma actual_capacity_static:
  assumes "same_static h h'"
  shows "actual_capacity h' = actual_capacity h"
  by (simp add: actual_capacity_def fun_eq_iff same_staticD [OF assms])

definition cb_keys :: "category_state \<Rightarrow> int list \<times> int list" where
  "cb_keys p = (dict_keys (cb_hours p), dict_keys (cb_durations p))"

definition cb_mk :: "category_state \<Rightarrow> (int \<times> int \<Rightarrow> rat) \<Rightarrow> category_state" where
  "cb_mk p f = p\<lparr>cb_capacity := tab2 (fst (cb_keys p)) (snd (cb_keys p)) f\<rparr>"

definition cb_params :: "heap \<Rightarrow> schedule \<Rightarrow> category_state result" where
  "cb_params h sch =
     Inr \<lparr>cb_durations = dict_of (map (\<lambda>t. (ts_id (hp_ts h t), ts_duration (hp_ts h t))) (sch_timeslots sch)),
          cb_hours = cb_hours_by_category h sch, cb_capacity = []\<rparr>"

lemma cb_hours_keys:
  "set (dict_keys (cb_hours_by_category h sch)) = (\<lambda>s. sec_category (hp_sec h s)) ` set (section_list sch)"
  "distinct (dict_keys (cb_hours_by_category h sch))"
proof -
  have "fst ` set (fold (\<lambda>s d. AList.update (g s) (F s d) d) ss d) = g ` set ss \<union> fst ` set d"
    "distinct (map fst d) \<Longrightarrow> distinct (map fst (fold (\<lambda>s d. AList.update (g s) (F s d) d) ss d))"
    for g :: "secref \<Rightarrow> int" and F :: "secref \<Rightarrow> (int, rat) dict \<Rightarrow> rat" and ss d
    by (induction ss arbitrary: d) (auto simp: fst_set_update distinct_update)
  from this [where g = "\<lambda>s. sec_category (hp_sec h s)" and d = "[]"] show
    "set (dict_keys (cb_hours_by_category h sch)) = (\<lambda>s. sec_category (hp_sec h s)) ` set (section_list sch)"
    "distinct (dict_keys (cb_hours_by_category h sch))"
    by (simp_all add: cb_hours_by_category_def Let_def dict_keys_def)
qed

lemma dict_of_map_keys: "dict_keys (dict_of (map (\<lambda>x. (g x, F x)) xs)) = dedup (map g xs)"
  using dict_of_keys [of "map (\<lambda>x. (g x, F x)) xs" "[]"] by (simp add: dict_of_def dedup_def comp_def)

lemma cb_params_keys:
  assumes "cb_params h sch = Inr p"
  shows "distinct (fst (cb_keys p))" "distinct (snd (cb_keys p))"
    "s \<in> sections_of sch \<Longrightarrow> sec_category (hp_sec h s) \<in> set (fst (cb_keys p))"
    "snd (cb_keys p) = dedup (timeslot_ids h sch)"
  using assms
  by (auto simp: cb_params_def cb_keys_def cb_hours_keys dict_of_map_keys timeslot_ids_def section_list_def)

lemma cb_fresh_loop:
  assumes "distinct cs" and "distinct ks"
    and "\<And>s. s \<in> set ss \<Longrightarrow> sec_category (hp_sec h s) \<in> set cs \<and> slot_id h ` set (roomslots_of h s) \<subseteq> set ks"
  shows "rfold (\<lambda>d s. rbind (dict_get d (sec_category (hp_sec h s))) (\<lambda>_.
          rfold (\<lambda>d r. nested_add d (sec_category (hp_sec h s)) (slot_id h r) (actual_capacity h s r))
            d (roomslots_of h s))) (tab2 cs ks f) ss =
     Inr (tab2 cs ks (\<lambda>ck. f ck + (\<Sum>s\<leftarrow>ss. cb_section h p s (roomslots_of h s) ck)))"
  using assms(3)
proof (induction ss arbitrary: f)
  case (Cons s ss)
  have get: "dict_get (tab2 cs ks f) (sec_category (hp_sec h s)) = Inr (tab ks (\<lambda>k. f (sec_category (hp_sec h s), k)))"
    using Cons.prems [of s] by (simp add: tab2_def)
  have "(\<lambda>(c', k). f (c', k) + (\<Sum>r\<leftarrow>roomslots_of h s. if c' = sec_category (hp_sec h s) \<and> k = slot_id h r
        then actual_capacity h s r else 0)) = (\<lambda>ck. f ck + cb_section h p s (roomslots_of h s) ck)"
    by (simp add: cb_section_def fun_eq_iff)
  with Cons.IH [of "\<lambda>ck. f ck + cb_section h p s (roomslots_of h s) ck"] Cons.prems
    nested_add_loop [OF assms(1,2), of "sec_category (hp_sec h s)" "slot_id h" "roomslots_of h s"
      "actual_capacity h s" f]
  show ?case by (simp add: get add.assoc)
qed (simp add: tab2_def)

interpretation category_scorer:
  default_section_sum cb_params cb_mk cb_section cb_update_schedule
    cb_update_schedule_section cb_update_unschedule_section
proof (unfold_locales, goal_cases)
  case (1 h h' sch)
  show ?case by (simp add: cb_params_def cb_hours_by_category_def same_staticD [OF 1])
next
  case (2 h h' p)
  show ?case
    by (intro ext) (simp add: cb_section_def actual_capacity_static [OF 2] slot_id_static [OF 2] same_staticD [OF 2]
        cong: if_cong)
next
  case (4 h sch)
  obtain p where p: "cb_params h sch = Inr p" by (simp add: cb_params_def)
  note keys = cb_params_keys [OF p]
  have zero: "map (\<lambda>c. (c, dict_of (map (\<lambda>i. (i, 0)) (timeslot_ids h sch)))) (dict_keys (cb_hours_by_category h sch)) =
      tab2 (fst (cb_keys p)) (snd (cb_keys p)) (\<lambda>_. 0)"
    using p dict_of_const [of "\<lambda>i. i" 0 "timeslot_ids h sch"] keys(4)
    by (auto simp: tab2_def tab_def cb_params_def cb_keys_def)
  have "section_total cb_section h p sch = (\<lambda>ck. 0 + (\<Sum>s\<leftarrow>section_list sch. cb_section h p s (roomslots_of h s) ck))"
    by (simp add: section_total_def fun_eq_iff)
  moreover note cb_fresh_loop [OF keys(1,2), of "section_list sch" h "\<lambda>_. 0" p]
  ultimately show ?case
    unfolding cb_update_schedule_def Let_def timeslot_ids_def [symmetric] zero
    using p keys(3,4) slots_registered(1) [OF 4]
    by (simp add: section_list_def cb_mk_def) (auto simp: cb_params_def timeslot_ids_def)
next
  case (5 h sch p s r f)
  note keys = cb_params_keys [OF 5(2)]
  show ?case
    using slots_registered(2) [OF 5(1,4)] keys 5(3)
    by (simp add: cb_update_schedule_section_def cb_mk_def nested_add_loop cb_section_def cb_keys_def
        case_prod_beta')
next
  case (6 h sch p s f)
  note keys = cb_params_keys [OF 6(2)]
  have "(\<Sum>r\<leftarrow>rs. if P r then - w r else 0) = - (\<Sum>r\<leftarrow>rs. if P r then w r else 0)" for P and w :: "rsref \<Rightarrow> rat" and rs
    by (induction rs) simp_all
  with 6 keys slots_registered(1) [OF 6(1,3)] show ?case
    by (simp add: cb_update_unschedule_section_def cb_mk_def nested_add_loop cb_section_def cb_keys_def
        case_prod_beta')
qed (simp add: cb_section_def)

subsection \<open>HungryTeacherScorer is incremental\<close>

text \<open>
  A section contributes one at a teacher and a lunch timeslot when the teacher teaches it
  then; the scorer's boolean is whether the total is positive. No total exceeds one
  (\<open>hg_total_le\<close>), because a settled schedule has no teacher in two places at once.
\<close>

definition hg_section :: "heap \<Rightarrow> 'p \<Rightarrow> secref \<Rightarrow> rsref list \<Rightarrow> int \<times> int \<Rightarrow> int" where
  "hg_section h p s rs ik =
     (if fst ik \<in> (\<lambda>t. t_id (hp_teacher h t)) ` set (sec_teachers (hp_sec h s)) \<and> snd ik \<in> slot_id h ` set rs
      then 1 else 0)"

lemma hg_section_cases: "hg_section h p s rs ik = 0 \<or> hg_section h p s rs ik = 1"
  by (simp add: hg_section_def)

lemma teacher_id_inject:
  assumes "settled h sch" and "t \<in> teachers_of sch" and "t' \<in> teachers_of sch"
    and "t_id (hp_teacher h t) = t_id (hp_teacher h t')"
  shows "t = t'"
proof -
  from value_in_pairs [OF assms(2)] value_in_pairs [OF assms(3)] obtain k k' where
    k: "(k, t) \<in> set (sch_teachers sch)" "(k', t') \<in> set (sch_teachers sch)" by blast
  have "\<forall>(k, t)\<in>set (sch_teachers sch). t_id (hp_teacher h t) = k"
    using settledD(2) [OF assms(1)] by (simp add: static_ok_def dicts_ok_def)
  with k have "t_id (hp_teacher h t) = k" "t_id (hp_teacher h t') = k'" by auto
  with k assms(4) settledD(4) [OF assms(1)] show ?thesis
    by (auto simp: linked_def dest: eq_key_imp_eq_value)
qed

lemma slot_id_key:
  assumes "settled h sch" and "r \<in> all_roomslots h sch" and "r' \<in> all_roomslots h sch"
    and "slot_id h r = slot_id h r'"
  shows "rs_key h r = rs_key h r'"
proof -
  have "registered h sch (rs_timeslot (hp_rs h r))" "registered h sch (rs_timeslot (hp_rs h r'))"
    using settledD(2) [OF assms(1)] assms(2,3) by (simp_all add: static_ok_def)
  then have "rs_timeslot (hp_rs h r) \<in> set (sch_timeslots sch)" "rs_timeslot (hp_rs h r') \<in> set (sch_timeslots sch)"
    by (blast intro: registered_mem)+
  moreover have "inj_on (\<lambda>t. ts_id (hp_ts h t)) (set (sch_timeslots sch))"
    using settledD(4) [OF assms(1)] by (simp add: linked_def distinct_map)
  ultimately have "rs_timeslot (hp_rs h r) = rs_timeslot (hp_rs h r')"
    using assms(4) by (auto simp: slot_id_def dest: inj_onD)
  then show ?thesis by (simp add: rs_key_def)
qed

lemma hg_section_unique:
  assumes "settled h sch" and "s \<in> sections_of sch" and "s' \<in> sections_of sch" and "s \<noteq> s'"
    and "hg_section h p s (roomslots_of h s) ik = 1"
  shows "hg_section h p s' (roomslots_of h s') ik = 0"
proof (rule ccontr)
  assume "hg_section h p s' (roomslots_of h s') ik \<noteq> 0"
  then obtain t' r' where 2: "t' \<in> set (sec_teachers (hp_sec h s'))" "fst ik = t_id (hp_teacher h t')"
    "r' \<in> set (roomslots_of h s')" "snd ik = slot_id h r'"
    by (auto simp: hg_section_def split: if_splits)
  from assms(5) obtain t r where 1: "t \<in> set (sec_teachers (hp_sec h s))" "fst ik = t_id (hp_teacher h t)"
    "r \<in> set (roomslots_of h s)" "snd ik = slot_id h r"
    by (auto simp: hg_section_def split: if_splits)
  note v = settledD(1) [OF assms(1)]
  note t1 = taught_available [OF v assms(2) 1(1)] and t2 = taught_available [OF v assms(3) 2(1)]
  have "t = t'" using teacher_id_inject [OF assms(1) t1(1) t2(1)] 1(2) 2(2) by simp
  moreover have "rs_key h r = rs_key h r'"
    using slot_id_key [OF assms(1), of r r'] section_fits(1) [OF v] assms(2,3) 1(3,4) 2(3,4) by auto
  ultimately show False
    using taught_disjoint [OF v t1(1) t1(2) _ assms(4)] t2(2) 1(3) 2(3) by auto
qed

lemma sum_list_single:
  fixes f :: "'a \<Rightarrow> int"
  assumes "distinct xs" and "s \<in> set xs" and "\<And>x. x \<in> set xs \<Longrightarrow> x \<noteq> s \<Longrightarrow> f x = 0"
  shows "sum_list (map f xs) = f s"
  using assms by (simp add: sum_list_distinct_conv_sum_set sum.remove [of "set xs" s])

lemma hg_total_at:
  assumes "settled h sch" and "s \<in> sections_of sch" and "hg_section h p s (roomslots_of h s) ik = 1"
  shows "section_total hg_section h p sch ik = 1"
  unfolding section_total_def
proof (subst sum_list_single [OF distinct_settled [OF assms(1)], of s])
  show "s \<in> set (section_list sch)" using assms(2) by (simp add: section_list_def)
  show "hg_section h p x (roomslots_of h x) ik = 0" if "x \<in> set (section_list sch)" "x \<noteq> s" for x
    using hg_section_unique [OF assms(1,2) _ _ assms(3), of x] that by (auto simp: section_list_def)
qed (rule assms(3))

text \<open>The booleans of a section's teachers, and who is hungry.\<close>

definition hg_tab :: "int list \<Rightarrow> int list \<Rightarrow> (int \<times> int \<Rightarrow> bool) \<Rightarrow> (int, (int, bool) dict) dict" where
  "hg_tab ids ks F = tab ids (\<lambda>i. tab ks (\<lambda>k. F (i, k)))"

definition hungry_at :: "int list list \<Rightarrow> (int \<times> int \<Rightarrow> bool) \<Rightarrow> int \<Rightarrow> bool" where
  "hungry_at lunch F i \<longleftrightarrow> (\<exists>ks\<in>set lunch. \<forall>k\<in>set ks. F (i, k))"

lemma set_slots_tab:
  assumes "distinct ks"
  shows "fold (\<lambda>r d. if dict_has d (g r) then AList.update (g r) b d else d) rs (tab ks f) =
     tab ks (\<lambda>k. if k \<in> g ` set rs then b else f k)"
proof (induction rs arbitrary: f)
  case (Cons r rs)
  have "(if dict_has (tab ks f) (g r) then AList.update (g r) b (tab ks f) else tab ks f) =
      tab ks (f(g r := b))"
  proof (cases "g r \<in> set ks")
    case True
    with assms show ?thesis by (simp add: dict_has_def map_of_tab update_tab)
  next
    case False
    then have "tab ks (f(g r := b)) = tab ks f" by (auto simp: tab_def)
    with False show ?thesis by (simp add: dict_has_def map_of_tab)
  qed
  moreover have "(\<lambda>k. if k \<in> g ` set rs then b else (f(g r := b)) k) = (\<lambda>k. if k \<in> g ` set (r # rs) then b else f k)"
    by auto
  ultimately show ?case using Cons.IH [of "f(g r := b)"] by (simp only: fold.simps comp_def)
qed simp

lemma set_teaching_tab:
  assumes "distinct ids" and "distinct ks" and "t_id (hp_teacher h t) \<in> set ids"
  shows "set_teaching h rs b (hg_tab ids ks F) t =
     Inr (hg_tab ids ks (\<lambda>(i, k). if i = t_id (hp_teacher h t) \<and> k \<in> slot_id h ` set rs then b else F (i, k)))"
  using assms
  by (simp add: set_teaching_def hg_tab_def set_slots_tab update_tab) (auto simp: tab_def)

lemma some_lunch_full_tab:
  assumes "\<And>ts t. ts \<in> set l \<Longrightarrow> t \<in> set ts \<Longrightarrow> ts_id (hp_ts h t) \<in> set ks"
  shows "some_lunch_full h (tab ks f) l = Inr (\<exists>ts\<in>set l. \<forall>t\<in>set ts. f (ts_id (hp_ts h t)))"
  using assms
proof (induction l)
  case (Cons ts l)
  have "rmap (\<lambda>t. dict_get (tab ks f) (ts_id (hp_ts h t))) ts = Inr (map (\<lambda>t. f (ts_id (hp_ts h t))) ts)"
    using Cons.prems [of ts] by (intro rmap_map dict_get_tab) simp
  moreover have "list_all id (map (\<lambda>t. f (ts_id (hp_ts h t))) ts) \<longleftrightarrow> (\<forall>t\<in>set ts. f (ts_id (hp_ts h t)))"
    by (simp add: list_all_iff)
  moreover have "some_lunch_full h (tab ks f) l = Inr (\<exists>ts\<in>set l. \<forall>t\<in>set ts. f (ts_id (hp_ts h t)))"
    by (rule Cons.IH) (rule Cons.prems, simp_all)
  ultimately show ?case by auto
qed simp

text \<open>The static part: the state, the teacher ids, the lunch timeslot ids, and these by day.\<close>

type_synonym hungry_params = "hungry_state \<times> int list \<times> int list \<times> int list list"

definition hg_bool :: "hungry_params \<Rightarrow> (int \<times> int \<Rightarrow> bool) \<Rightarrow> hungry_state" where
  "hg_bool p F = (case p of (st, ids, ks, lunch) \<Rightarrow>
     st\<lparr>hg_by_teacher := hg_tab ids ks F, hg_hungry := {i \<in> set ids. hungry_at lunch F i}\<rparr>)"

definition hg_mk :: "hungry_params \<Rightarrow> (int \<times> int \<Rightarrow> int) \<Rightarrow> hungry_state" where
  "hg_mk p f = hg_bool p (\<lambda>ik. f ik > 0)"

definition lunch_ids :: "heap \<Rightarrow> (int \<times> int \<times> int, tsref list) dict \<Rightarrow> int list list" where
  "lunch_ids h lunch = map (map (\<lambda>t. ts_id (hp_ts h t))) (dict_values lunch)"

definition hg_params :: "heap \<Rightarrow> schedule \<Rightarrow> hungry_params result" where
  "hg_params h sch =
     (let total = of_nat (length (sch_teachers sch)) in
      rbind (py_div total (\<Sum>s\<leftarrow>section_list sch. of_nat (length (sec_teachers (hp_sec h s))))) (\<lambda>sc.
      Inr (\<lparr>hg_total = total, hg_lunch = sch_lunch sch, hg_by_teacher = [], hg_hungry = {}, hg_scaling = sc\<rparr>,
           dict_keys (sch_teachers sch), dedup (concat (lunch_ids h (sch_lunch sch))),
           lunch_ids h (sch_lunch sch))))"

definition hg_wf :: "heap \<Rightarrow> hungry_params \<Rightarrow> bool" where
  "hg_wf h p \<longleftrightarrow> (case p of (st, ids, ks, lunch) \<Rightarrow>
     distinct ids \<and> distinct ks \<and> lunch = lunch_ids h (hg_lunch st) \<and> set ks = set (concat lunch))"

lemma hungriness_tab:
  assumes "hg_wf h (st, ids, ks, lunch)" and "i \<in> set ids" and "hg_lunch st' = hg_lunch st"
    and "hg_by_teacher st' = hg_tab ids ks F"
  shows "update_teacher_hungriness h st' i =
     Inr (st'\<lparr>hg_hungry := (if hungry_at lunch F i then insert i (hg_hungry st') else hg_hungry st' - {i})\<rparr>)"
proof -
  have "some_lunch_full h (tab ks (\<lambda>k. F (i, k))) (dict_values (hg_lunch st)) =
      Inr (\<exists>ts\<in>set (dict_values (hg_lunch st)). \<forall>t\<in>set ts. F (i, ts_id (hp_ts h t)))"
    using assms(1) by (intro some_lunch_full_tab) (auto simp: hg_wf_def lunch_ids_def)
  moreover have "(\<exists>ts\<in>set (dict_values (hg_lunch st)). \<forall>t\<in>set ts. F (i, ts_id (hp_ts h t))) \<longleftrightarrow> hungry_at lunch F i"
    using assms(1) by (auto simp: hungry_at_def hg_wf_def lunch_ids_def)
  ultimately show ?thesis
    using assms(2-4) by (simp add: update_teacher_hungriness_def hg_tab_def)
qed

lemma hungry_set_update:
  assumes "j \<in> set ids" and "\<And>i. i \<noteq> j \<Longrightarrow> hungry_at l F1 i = hungry_at l F i"
  shows "(if hungry_at l F1 j then insert j {i \<in> set ids. hungry_at l F i}
      else {i \<in> set ids. hungry_at l F i} - {j}) = {i \<in> set ids. hungry_at l F1 i}"
proof (intro set_eqI)
  fix x
  show "x \<in> (if hungry_at l F1 j then insert j {i \<in> set ids. hungry_at l F i}
      else {i \<in> set ids. hungry_at l F i} - {j}) \<longleftrightarrow> x \<in> {i \<in> set ids. hungry_at l F1 i}"
    using assms(1) assms(2) [of x] by (cases "x = j") auto
qed

lemma hg_set_section_bool:
  assumes "hg_wf h p" and "(\<lambda>t. t_id (hp_teacher h t)) ` set (sec_teachers (hp_sec h s)) \<subseteq> set (fst (snd p))"
  shows "hg_set_section h s rs b (hg_bool p F) =
     Inr (hg_bool p (\<lambda>ik. if hg_section h () s rs ik = 1 then b else F ik))"
proof -
  obtain st ids ks lunch where p: "p = (st, ids, ks, lunch)" by (cases p)
  let ?G = "\<lambda>ts F. \<lambda>(i, k). if i \<in> (\<lambda>t. t_id (hp_teacher h t)) ` set ts \<and> k \<in> slot_id h ` set rs then b else F (i, k)"
  have "rfold (\<lambda>st t. rbind (set_teaching h rs b (hg_by_teacher st) t) (\<lambda>by_teacher.
         update_teacher_hungriness h (st\<lparr>hg_by_teacher := by_teacher\<rparr>) (t_id (hp_teacher h t))))
       (hg_bool p F) ts = Inr (hg_bool p (?G ts F))"
    if "(\<lambda>t. t_id (hp_teacher h t)) ` set ts \<subseteq> set ids" for ts
    using that
  proof (induction ts arbitrary: F)
    case Nil
    show ?case by (simp add: p hg_bool_def)
  next
    case (Cons t ts)
    let ?i = "t_id (hp_teacher h t)"
    have i: "?i \<in> set ids" using Cons.prems by simp
    have wf: "distinct ids" "distinct ks" using assms(1) by (simp_all add: p hg_wf_def)
    define F1 where "F1 = ?G [t] F"
    have G1: "F1 = (\<lambda>(i, k). if i = ?i \<and> k \<in> slot_id h ` set rs then b else F (i, k))"
      by (auto simp: F1_def)
    have other: "hungry_at lunch F1 i = hungry_at lunch F i" if "i \<noteq> ?i" for i
      using that by (simp add: hungry_at_def G1)
    note hun = hungry_set_update [of ?i ids lunch F1 F, OF i other]
    have 1: "set_teaching h rs b (hg_by_teacher (hg_bool p F)) t = Inr (hg_tab ids ks F1)"
      using set_teaching_tab [OF wf i, of rs b F] by (simp add: p hg_bool_def G1)
    have 2: "update_teacher_hungriness h (hg_bool p F\<lparr>hg_by_teacher := hg_tab ids ks F1\<rparr>) ?i = Inr (hg_bool p F1)"
      using hungriness_tab [OF assms(1) [unfolded p] i, of
          "hg_bool p F\<lparr>hg_by_teacher := hg_tab ids ks F1\<rparr>" F1] hun
      by (simp add: p hg_bool_def split: if_splits)
    have 3: "?G ts F1 = ?G (t # ts) F" by (auto simp: F1_def)
    have "rfold (\<lambda>st t. rbind (set_teaching h rs b (hg_by_teacher st) t) (\<lambda>by_teacher.
         update_teacher_hungriness h (st\<lparr>hg_by_teacher := by_teacher\<rparr>) (t_id (hp_teacher h t))))
       (hg_bool p F1) ts = Inr (hg_bool p (?G ts F1))"
      using Cons.prems by (intro Cons.IH) simp
    then show ?case unfolding 3 by (simp only: rfold.simps rbind_simps 1 2)
  qed
  moreover have "?G (sec_teachers (hp_sec h s)) F = (\<lambda>ik. if hg_section h () s rs ik = 1 then b else F ik)"
    by (auto simp: hg_section_def fun_eq_iff)
  ultimately show ?thesis using assms(2) by (simp add: hg_set_section_def p)
qed

lemma hg_params_wf:
  assumes "settled h sch" and "hg_params h sch = Inr p"
  shows "hg_wf h p"
    and "s \<in> sections_of sch \<Longrightarrow> (\<lambda>t. t_id (hp_teacher h t)) ` set (sec_teachers (hp_sec h s)) \<subseteq> set (fst (snd p))"
proof -
  have "distinct (dict_keys (sch_teachers sch))"
    using settledD(4) [OF assms(1)] by (simp add: linked_def dict_keys_def)
  then show "hg_wf h p" using assms(2) by (auto simp: hg_params_def hg_wf_def Let_def rbind_Inr_iff)
  show "(\<lambda>t. t_id (hp_teacher h t)) ` set (sec_teachers (hp_sec h s)) \<subseteq> set (fst (snd p))"
    if "s \<in> sections_of sch"
    using ntea_keys_subset [OF assms(1) that] assms(2)
    by (auto simp: hg_params_def Let_def rbind_Inr_iff ntea_keys_def)
qed

lemma hg_total_nonneg: "0 \<le> section_total hg_section h p sch ik"
proof -
  have "0 \<le> sum_list (map (\<lambda>s. hg_section h p s (roomslots_of h s) ik) xs)" for xs
    by (induction xs) (simp_all add: hg_section_def add_nonneg_nonneg)
  then show ?thesis by (simp add: section_total_def)
qed

lemma hg_fresh_loop:
  assumes "distinct ids" and "distinct ks"
    and "\<And>s. s \<in> set ss \<Longrightarrow> (\<lambda>t. t_id (hp_teacher h t)) ` set (sec_teachers (hp_sec h s)) \<subseteq> set ids"
  shows "rfold (\<lambda>d s. rfold (set_teaching h (roomslots_of h s) True) d (sec_teachers (hp_sec h s))) (hg_tab ids ks F) ss =
     Inr (hg_tab ids ks (\<lambda>ik. F ik \<or> (\<Sum>s\<leftarrow>ss. hg_section h p s (roomslots_of h s) ik) > 0))"
  using assms(3)
proof (induction ss arbitrary: F)
  case (Cons s ss)
  have "rfold (set_teaching h rs True) (hg_tab ids ks F) ts = Inr (hg_tab ids ks
      (\<lambda>(i, k). i \<in> (\<lambda>t. t_id (hp_teacher h t)) ` set ts \<and> k \<in> slot_id h ` set rs \<or> F (i, k)))"
    if "(\<lambda>t. t_id (hp_teacher h t)) ` set ts \<subseteq> set ids" for ts rs
    using that
  proof (induction ts arbitrary: F)
    case (Cons t ts)
    have "(\<lambda>(i, k). i \<in> (\<lambda>t. t_id (hp_teacher h t)) ` set ts \<and> k \<in> slot_id h ` set rs \<or>
        (if i = t_id (hp_teacher h t) \<and> k \<in> slot_id h ` set rs then True else F (i, k))) =
      (\<lambda>(i, k). i \<in> (\<lambda>t. t_id (hp_teacher h t)) ` set (t # ts) \<and> k \<in> slot_id h ` set rs \<or> F (i, k))"
      by auto
    with Cons show ?case by (simp add: set_teaching_tab [OF assms(1,2)])
  qed simp
  note loop = this
  have "(\<lambda>(i, k). i \<in> (\<lambda>t. t_id (hp_teacher h t)) ` set (sec_teachers (hp_sec h s)) \<and>
        k \<in> slot_id h ` set (roomslots_of h s) \<or> F (i, k)) =
      (\<lambda>ik. hg_section h p s (roomslots_of h s) ik > 0 \<or> F ik)"
    by (auto simp: hg_section_def fun_eq_iff)
  with loop [of "sec_teachers (hp_sec h s)" "roomslots_of h s"] Cons.prems
  have step: "rfold (set_teaching h (roomslots_of h s) True) (hg_tab ids ks F) (sec_teachers (hp_sec h s)) =
      Inr (hg_tab ids ks (\<lambda>ik. hg_section h p s (roomslots_of h s) ik > 0 \<or> F ik))"
    by simp
  have sum: "(0 < x + (\<Sum>s\<leftarrow>ss. hg_section h p s (roomslots_of h s) ik)) \<longleftrightarrow>
      0 < x \<or> 0 < (\<Sum>s\<leftarrow>ss. hg_section h p s (roomslots_of h s) ik)" if "0 \<le> x" for x ik
  proof -
    have "0 \<le> (\<Sum>s\<leftarrow>ss. hg_section h p s (roomslots_of h s) ik)"
      by (induction ss) (simp_all add: hg_section_def add_nonneg_nonneg)
    with that show ?thesis by auto
  qed
  have "0 \<le> hg_section h p s (roomslots_of h s) ik" for ik by (simp add: hg_section_def)
  note sum = sum [OF this]
  have "(\<lambda>ik. (hg_section h p s (roomslots_of h s) ik > 0 \<or> F ik) \<or> (\<Sum>s\<leftarrow>ss. hg_section h p s (roomslots_of h s) ik) > 0)
      = (\<lambda>ik. F ik \<or> (\<Sum>s\<leftarrow>s # ss. hg_section h p s (roomslots_of h s) ik) > 0)"
    using sum by auto
  with Cons.IH [of "\<lambda>ik. hg_section h p s (roomslots_of h s) ik > 0 \<or> F ik"] Cons.prems
  show ?case by (simp only: rfold.simps rbind_simps step) simp
qed simp

lemma hg_hungry_loop:
  assumes "hg_wf h (st, ids, ks, lunch)" and "hg_lunch st' = hg_lunch st"
    and "hg_by_teacher st' = hg_tab ids ks F" and "set is \<subseteq> set ids"
  shows "rfold (update_teacher_hungriness h) st' is =
     Inr (st'\<lparr>hg_hungry := {i \<in> set is. hungry_at lunch F i} \<union> (hg_hungry st' - set is)\<rparr>)"
  using assms(2-4)
proof (induction "is" arbitrary: st')
  case (Cons i "is")
  let ?st = "st'\<lparr>hg_hungry := (if hungry_at lunch F i then insert i (hg_hungry st') else hg_hungry st' - {i})\<rparr>"
  have 1: "update_teacher_hungriness h st' i = Inr ?st"
    using Cons.prems by (intro hungriness_tab [OF assms(1)]) auto
  have "rfold (update_teacher_hungriness h) ?st is =
     Inr (?st\<lparr>hg_hungry := {i \<in> set is. hungry_at lunch F i} \<union> (hg_hungry ?st - set is)\<rparr>)"
    using Cons.prems by (intro Cons.IH) auto
  with 1 show ?case by (auto simp: split: if_splits intro!: hungry_state.equality)
qed simp

lemma hg_section_static:
  assumes "same_static h h'"
  shows "hg_section h' p = hg_section h p"
  by (simp add: hg_section_def fun_eq_iff slot_id_static [OF assms] same_staticD [OF assms])

lemma hg_section_param: "hg_section h p = hg_section h ()"
  by (simp add: hg_section_def fun_eq_iff)

lemma hg_set_unschedule:
  assumes "settled h sch" and "hg_params h sch = Inr p" and "s \<in> sections_of sch"
  shows "hg_update_unschedule_section h (hg_mk p (section_total hg_section h p sch)) s =
     Inr (hg_mk p (\<lambda>ik. section_total hg_section h p sch ik - hg_section h p s (roomslots_of h s) ik))"
proof -
  note wf = hg_params_wf [OF assms(1,2)]
  have "(if hg_section h () s (roomslots_of h s) ik = 1 then False else section_total hg_section h p sch ik > 0) =
      (section_total hg_section h p sch ik - hg_section h p s (roomslots_of h s) ik > 0)" for ik
    using hg_total_at [OF assms(1,3), of p ik] hg_section_cases [of h p s "roomslots_of h s" ik]
    by (auto simp: hg_section_param [of h p])
  then show ?thesis
    by (simp add: hg_update_unschedule_section_def hg_mk_def hg_set_section_bool [OF wf(1) wf(2) [OF assms(3)]])
qed

lemma hg_set_schedule:
  assumes "settled h sch" and "hg_params h sch = Inr p" and "s \<in> sections_of sch" and "\<And>ik. 0 \<le> f ik"
  shows "hg_update_schedule_section h (hg_mk p f) s r =
     Inr (hg_mk p (\<lambda>ik. f ik + hg_section h p s (needed h s r) ik))"
proof -
  note wf = hg_params_wf [OF assms(1,2)]
  have "(if hg_section h () s (needed h s r) ik = 1 then True else f ik > 0) =
      (f ik + hg_section h p s (needed h s r) ik > 0)" for ik
    using hg_section_cases [of h p s "needed h s r" ik] assms(4) [of ik]
    by (auto simp: hg_section_param [of h p])
  then show ?thesis
    by (simp add: hg_update_schedule_section_def hg_mk_def hg_set_section_bool [OF wf(1) wf(2) [OF assms(3)]])
qed

lemma hg_rest_nonneg:
  assumes "settled h sch" and "s \<in> sections_of sch"
  shows "0 \<le> section_total hg_section h p sch ik - hg_section h p s (roomslots_of h s) ik"
  using hg_total_at [OF assms, of p ik] hg_section_cases [of h p s "roomslots_of h s" ik]
    hg_total_nonneg [of h p sch ik] by auto

lemma hg_move:
  assumes "settled h sch" and "hg_params h sch = Inr p" and "s \<in> sections_of sch"
  shows "default_move hg_update_unschedule_section hg_update_schedule_section h
       (hg_mk p (section_total hg_section h p sch)) s r =
     Inr (hg_mk p (\<lambda>ik. section_total hg_section h p sch ik - hg_section h p s (roomslots_of h s) ik
       + hg_section h p s (needed h s r) ik))"
  using hg_set_schedule [OF assms hg_rest_nonneg [OF assms(1,3)]]
  by (simp add: default_move_def hg_set_unschedule [OF assms])

text \<open>
  In a swap the second section's teachers are untouched by the first move, because the two
  sections share no teacher.
\<close>

lemma hg_swap:
  assumes "manip_step sch h (Swap s s2) h'" and p: "hg_params h sch = Inr p"
  shows "default_swap (default_move hg_update_unschedule_section hg_update_schedule_section) h
       (hg_mk p (section_total hg_section h p sch)) s s2 =
     Inr (hg_mk p (\<lambda>ik. section_total hg_section h p sch ik - hg_section h p s (roomslots_of h s) ik
       + hg_section h p s (roomslots_of h s2) ik - hg_section h p s2 (roomslots_of h s2) ik
       + hg_section h p s2 (roomslots_of h s) ik))"
proof -
  from assms(1) have a: "settled h sch" "s \<in> sections_of sch" "s2 \<in> sections_of sch" "s \<noteq> s2"
    "roomslots_of h s \<noteq> []" "roomslots_of h s2 \<noteq> []"
    "sec_duration (hp_sec h s) = sec_duration (hp_sec h s2)"
    "set (sec_teachers (hp_sec h s)) \<inter> set (sec_teachers (hp_sec h s2)) = {}" by (auto elim: swapE)
  note hd1 = section_hd [OF a(1,2,5)] and hd2 = section_hd [OF a(1,3,6)]
  note wf = hg_params_wf [OF a(1) p]
  let ?T = "section_total hg_section h p sch" and ?c = "hg_section h p"
  let ?f1 = "\<lambda>ik. ?T ik - ?c s (roomslots_of h s) ik + ?c s (roomslots_of h s2) ik"
  have move1: "default_move hg_update_unschedule_section hg_update_schedule_section h (hg_mk p ?T) s
      (hd (roomslots_of h s2)) = Inr (hg_mk p ?f1)"
    using hd2 a(7) by (simp add: hg_move [OF a(1) p a(2)])
  have f1: "0 \<le> ?f1 ik" for ik
    using hg_rest_nonneg [OF a(1,2), of p ik] hg_section_cases [of h p s "roomslots_of h s2" ik] by auto
  have at2: "?f1 ik = 1" if c2: "?c s2 (roomslots_of h s2) ik = 1" for ik
  proof -
    from c2 obtain t where t: "t \<in> set (sec_teachers (hp_sec h s2))" "fst ik = t_id (hp_teacher h t)"
      by (auto simp: hg_section_def split: if_splits)
    have "fst ik \<notin> (\<lambda>t. t_id (hp_teacher h t)) ` set (sec_teachers (hp_sec h s))"
    proof
      assume "fst ik \<in> (\<lambda>t. t_id (hp_teacher h t)) ` set (sec_teachers (hp_sec h s))"
      then obtain t' where t': "t' \<in> set (sec_teachers (hp_sec h s))" "fst ik = t_id (hp_teacher h t')" by auto
      have "t = t'"
        using teacher_id_inject [OF a(1) taught_available(1) [OF settledD(1) [OF a(1)] a(3) t(1)]
            taught_available(1) [OF settledD(1) [OF a(1)] a(2) t'(1)]] t(2) t'(2) by simp
      with t(1) t'(1) a(8) show False by blast
    qed
    then show ?thesis using hg_total_at [OF a(1,3) c2] by (simp add: hg_section_def)
  qed
  have "(if hg_section h () s2 (roomslots_of h s2) ik = 1 then False else ?f1 ik > 0) =
      (?f1 ik - ?c s2 (roomslots_of h s2) ik > 0)" for ik
    using at2 [of ik] hg_section_cases [of h p s2 "roomslots_of h s2" ik]
    by (auto simp: hg_section_param [of h p])
  then have un2: "hg_update_unschedule_section h (hg_mk p ?f1) s2 =
      Inr (hg_mk p (\<lambda>ik. ?f1 ik - ?c s2 (roomslots_of h s2) ik))"
    by (simp add: hg_update_unschedule_section_def hg_mk_def hg_set_section_bool [OF wf(1) wf(2) [OF a(3)]])
  have "0 \<le> ?f1 ik - ?c s2 (roomslots_of h s2) ik" for ik
    using f1 [of ik] at2 [of ik] hg_section_cases [of h p s2 "roomslots_of h s2" ik] by auto
  note sch2 = hg_set_schedule [OF a(1) p a(3), OF this]
  show ?thesis
    using a(5,6) hd1(2) a(7)
    by (simp add: default_swap_def py_first_hd move1) (simp add: default_move_def un2 sch2)
qed

interpretation hungry_scorer:
  section_sum hg_params hg_mk hg_section hg_update_schedule hg_update_schedule_section
    "default_move hg_update_unschedule_section hg_update_schedule_section" hg_update_unschedule_section
    "default_swap (default_move hg_update_unschedule_section hg_update_schedule_section)"
proof (unfold_locales, goal_cases)
  case (1 h h' sch)
  show ?case by (simp add: hg_params_def lunch_ids_def same_staticD [OF 1])
next
  case (2 h h' p)
  show ?case by (rule hg_section_static [OF 2])
next
  case (3 h p s k)
  show ?case by (simp add: hg_section_def)
next
  case (4 h sch)
  let ?ids = "dict_keys (sch_teachers sch)"
  let ?ks = "dedup (concat (lunch_ids h (sch_lunch sch)))"
  have ids: "distinct ?ids" using settledD(4) [OF 4] by (simp add: linked_def dict_keys_def)
  have const: "map (\<lambda>i. (i, dict_of (map (\<lambda>t. (ts_id (hp_ts h t), False)) (concat (dict_values (sch_lunch sch)))))) ?ids
      = hg_tab ?ids ?ks (\<lambda>_. False)"
    using dict_of_const [of "\<lambda>t. ts_id (hp_ts h t)" False "concat (dict_values (sch_lunch sch))"]
    by (simp add: hg_tab_def tab_def lunch_ids_def map_concat)
  have sec: "(\<lambda>t. t_id (hp_teacher h t)) ` set (sec_teachers (hp_sec h s)) \<subseteq> set ?ids"
    if "s \<in> set (section_list sch)" for s
    using ntea_keys_subset [OF 4, of s] that by (simp add: ntea_keys_def section_list_def)
  note loop1 = hg_fresh_loop [OF ids distinct_dedup [of "concat (lunch_ids h (sch_lunch sch))"] sec,
      where F = "\<lambda>_. False" and p = "()"]
  have loop2: "rfold (update_teacher_hungriness h) \<lparr>hg_total = tot, hg_lunch = sch_lunch sch,
        hg_by_teacher = hg_tab ?ids ?ks F, hg_hungry = {}, hg_scaling = 1\<rparr> ?ids =
      Inr \<lparr>hg_total = tot, hg_lunch = sch_lunch sch, hg_by_teacher = hg_tab ?ids ?ks F,
        hg_hungry = {i \<in> set ?ids. hungry_at (lunch_ids h (sch_lunch sch)) F i}, hg_scaling = 1\<rparr>" for tot F
    using hg_hungry_loop [of h "\<lparr>hg_total = tot, hg_lunch = sch_lunch sch, hg_by_teacher = [],
        hg_hungry = {}, hg_scaling = 1\<rparr>" ?ids ?ks "lunch_ids h (sch_lunch sch)"] ids
    by (simp add: hg_wf_def)
  have keys: "dict_keys (hg_tab ?ids ?ks F) = ?ids" for F by (simp add: hg_tab_def)
  have total: "section_total hg_section h p sch =
      (\<lambda>ik. \<Sum>s\<leftarrow>section_list sch. hg_section h () s (roomslots_of h s) ik)" for p
    by (simp add: section_total_def fun_eq_iff hg_section_param [of h p])
  show ?case
    unfolding hg_update_schedule_def Let_def const
    by (simp add: loop1 loop2 keys hg_params_def Let_def rbind_assoc hg_mk_def hg_bool_def total)
next
  case (5 sch h s r h' p)
  then show ?case by (auto elim!: scheduleE simp: hg_set_schedule hg_total_nonneg)
next
  case (6 sch h s r h' p)
  then show ?case by (auto elim!: moveE simp: hg_move)
next
  case (7 sch h s h' p)
  then show ?case by (auto elim!: unscheduleE simp: hg_set_unschedule)
next
  case (8 sch h s s2 h' p)
  then show ?case by (rule hg_swap)
qed

end
