(* ===== verification/Scorers_Adjacent.thy ===== *)
theory Scorers_Adjacent
  imports Scorers_Sums
begin

section \<open>Scorers of neighbouring sections (autoscheduler/scoring.py)\<close>

text \<open>
  \<open>RoomConsecutivityScorer\<close> counts the boundaries of sections that are complete;
  \<open>TeachersWhoLikeRunningScorer\<close> counts how often a teacher teaches in consecutive
  timeslots in different rooms. Both look at other sections, so neither is a sum over
  sections. The end of a section in \<open>running_process_section\<close> is its first roomslot, as in
  the source; theory Examples shows a schedule on which this makes the incremental count
  differ from the recomputed one.
\<close>

subsection \<open>RoomConsecutivityScorer\<close>

record consecutivity_state =
  co_num_sections :: rat
  co_boundaries :: rat

definition boundary_complete_before :: "heap \<Rightarrow> rsref \<Rightarrow> secref option \<Rightarrow> bool result" where
  "boundary_complete_before h roomslot ignore_section =
     rbind (roomslot_index h roomslot) (\<lambda>start_idx.
     if start_idx > 0 then
       rbind (py_nth (room_av h roomslot) (start_idx - 1)) (\<lambda>prev.
       Inr ((rs_section (hp_rs h prev) \<noteq> None \<and> rs_section (hp_rs h prev) \<noteq> ignore_section) \<or>
            \<not> contiguous h (rs_timeslot (hp_rs h prev)) (rs_timeslot (hp_rs h roomslot))))
     else Inr True)"

definition boundary_complete_after :: "heap \<Rightarrow> rsref \<Rightarrow> secref option \<Rightarrow> bool \<Rightarrow> bool result" where
  "boundary_complete_after h roomslot ignore_section avoid_doublecount =
     rbind (roomslot_next h roomslot) (\<lambda>next_roomslot. Inr (
       case next_roomslot of
         None \<Rightarrow> True
       | Some n \<Rightarrow>
           (\<not> avoid_doublecount \<and> rs_section (hp_rs h n) \<noteq> None \<and> rs_section (hp_rs h n) \<noteq> ignore_section) \<or>
           \<not> contiguous h (rs_timeslot (hp_rs h roomslot)) (rs_timeslot (hp_rs h n))))"

definition count_boundary :: "rat \<Rightarrow> bool result \<Rightarrow> consecutivity_state \<Rightarrow> consecutivity_state result" where
  "count_boundary x is_complete st =
     rbind is_complete (\<lambda>b. Inr (if b then st\<lparr>co_boundaries := co_boundaries st + x\<rparr> else st))"

definition co_update_schedule :: "heap \<Rightarrow> schedule \<Rightarrow> consecutivity_state result" where
  "co_update_schedule h sch =
     rfold (\<lambda>st s.
         if is_scheduled h s then
           rbind (py_first (roomslots_of h s)) (\<lambda>r0.
           rbind (count_boundary 1 (boundary_complete_before h r0 None) st) (\<lambda>st1.
           rbind (py_last (roomslots_of h s)) (\<lambda>r1.
           count_boundary 1 (boundary_complete_after h r1 None True) st1)))
         else Inr st)
       \<lparr>co_num_sections = of_nat (length (section_list sch)), co_boundaries = 0\<rparr> (section_list sch)"

definition co_score_schedule :: "consecutivity_state \<Rightarrow> rat result" where
  "co_score_schedule st = rbind (py_div (co_boundaries st) (co_num_sections st)) (\<lambda>x. Inr (x / 2))"

definition co_update_schedule_section ::
  "heap \<Rightarrow> consecutivity_state \<Rightarrow> secref \<Rightarrow> rsref \<Rightarrow> consecutivity_state result" where
  "co_update_schedule_section h st s start_roomslot =
     (let roomslots = needed h s start_roomslot in
      rbind (count_boundary 1 (boundary_complete_before h start_roomslot None) st) (\<lambda>st1.
      rbind (py_last roomslots) (\<lambda>r1.
      count_boundary 1 (boundary_complete_after h r1 None False) st1)))"

definition co_update_unschedule_section ::
  "heap \<Rightarrow> consecutivity_state \<Rightarrow> secref \<Rightarrow> consecutivity_state result" where
  "co_update_unschedule_section h st s =
     rbind (py_first (roomslots_of h s)) (\<lambda>r0.
     rbind (count_boundary (-1) (boundary_complete_before h r0 None) st) (\<lambda>st1.
     rbind (py_last (roomslots_of h s)) (\<lambda>r1.
     count_boundary (-1) (boundary_complete_after h r1 None False) st1)))"

definition co_update_move_section ::
  "heap \<Rightarrow> consecutivity_state \<Rightarrow> secref \<Rightarrow> rsref \<Rightarrow> consecutivity_state result" where
  "co_update_move_section h st s start_roomslot =
     rbind (py_first (roomslots_of h s)) (\<lambda>r0.
     rbind (count_boundary (-1) (boundary_complete_before h r0 None) st) (\<lambda>st1.
     rbind (py_last (roomslots_of h s)) (\<lambda>r1.
     rbind (count_boundary (-1) (boundary_complete_after h r1 None False) st1) (\<lambda>st2.
     let roomslots = needed h s start_roomslot in
     rbind (count_boundary 1 (boundary_complete_before h start_roomslot (Some s)) st2) (\<lambda>st3.
     rbind (py_last roomslots) (\<lambda>r2.
     count_boundary 1 (boundary_complete_after h r2 (Some s) False) st3))))))"

definition co_update_swap_sections ::
  "heap \<Rightarrow> consecutivity_state \<Rightarrow> secref \<Rightarrow> secref \<Rightarrow> consecutivity_state result" where
  "co_update_swap_sections h st section1 section2 = Inr st"

subsection \<open>TeachersWhoLikeRunningScorer\<close>

record running_state =
  rn_num_sections :: rat
  rn_indices :: "(int, nat) dict"
  rn_timeslots :: "tsref list"
  rn_teaching :: "(int, (int, rsref) dict) dict"
  rn_count :: rat

definition teach_slots ::
  "heap \<Rightarrow> secref \<Rightarrow> rsref list \<Rightarrow> (int, (int, rsref) dict) dict \<Rightarrow> (int, (int, rsref) dict) dict result" where
  "teach_slots h s roomslots teaching =
     rfold (\<lambda>d t. rbind (dict_get d (t_id (hp_teacher h t))) (\<lambda>by_slot.
         Inr (AList.update (t_id (hp_teacher h t))
           (fold (\<lambda>r by_slot. AList.update (slot_id h r) r by_slot) roomslots by_slot) d)))
       teaching (sec_teachers (hp_sec h s))"

definition running_pair :: "heap \<Rightarrow> (int, rsref) dict \<Rightarrow> tsref \<Rightarrow> tsref \<Rightarrow> rat" where
  "running_pair h by_slot t1 t2 =
     (case map_of by_slot (ts_id (hp_ts h t1)) of None \<Rightarrow> 0 | Some r1 \<Rightarrow>
      (case map_of by_slot (ts_id (hp_ts h t2)) of None \<Rightarrow> 0 | Some r2 \<Rightarrow>
       (if room_of h r1 \<noteq> room_of h r2 then 1 else 0)))"

definition rn_update_schedule :: "heap \<Rightarrow> schedule \<Rightarrow> running_state result" where
  "rn_update_schedule h sch =
     (let indices = dict_of (map (\<lambda>(i, t). (ts_id (hp_ts h t), i)) (enumerate 0 (sch_timeslots sch)));
          timeslots = sch_timeslots sch in
      rbind (rfold (\<lambda>d s. teach_slots h s (roomslots_of h s) d)
        (map (\<lambda>i. (i, [])) (dict_keys (sch_teachers sch))) (section_list sch)) (\<lambda>teaching.
      rbind (rfold (\<lambda>count (i, by_slot). rfold (\<lambda>count (timeslot_id, roomslot).
            rbind (dict_get indices timeslot_id) (\<lambda>idx.
            rbind (py_nth timeslots idx) (\<lambda>timeslot.
            if int idx < int (length timeslots) - 1 then
              rbind (py_nth timeslots (idx + 1)) (\<lambda>next_timeslot.
              Inr (case map_of by_slot (ts_id (hp_ts h next_timeslot)) of
                     None \<Rightarrow> count
                   | Some next_roomslot \<Rightarrow>
                       if contiguous h timeslot next_timeslot \<and> room_of h next_roomslot \<noteq> room_of h roomslot
                       then count + 1 else count))
            else Inr count))) count by_slot)
        0 teaching) (\<lambda>count.
      Inr \<lparr>rn_num_sections = of_nat (length (section_list sch)), rn_indices = indices,
           rn_timeslots = timeslots, rn_teaching = teaching, rn_count = count\<rparr>)))"

definition rn_score_schedule :: "running_state \<Rightarrow> rat result" where
  "rn_score_schedule st = rbind (py_div (rn_count st) (rn_num_sections st)) (\<lambda>x. Inr (1 - x))"

definition running_process_section :: "heap \<Rightarrow> running_state \<Rightarrow> secref \<Rightarrow> rsref list \<Rightarrow> rat result" where
  "running_process_section h st s roomslots =
     rbind (py_first roomslots) (\<lambda>start_roomslot.
     let start_timeslot = rs_timeslot (hp_rs h start_roomslot) in
     rbind (dict_get (rn_indices st) (ts_id (hp_ts h start_timeslot))) (\<lambda>start_idx.
     rbind (if start_idx > 0 then
              rbind (py_nth (rn_timeslots st) (start_idx - 1)) (\<lambda>prev.
              Inr (if contiguous h prev start_timeslot then [(prev, start_timeslot)] else []))
            else Inr []) (\<lambda>pairs1.
     rbind (py_first roomslots) (\<lambda>end_roomslot.
     let end_timeslot = rs_timeslot (hp_rs h end_roomslot) in
     rbind (dict_get (rn_indices st) (ts_id (hp_ts h end_timeslot))) (\<lambda>end_idx.
     rbind (if int end_idx < int (length (rn_timeslots st)) - 1 then
              rbind (py_nth (rn_timeslots st) (end_idx + 1)) (\<lambda>nxt.
              Inr (if contiguous h end_timeslot nxt then [(end_timeslot, nxt)] else []))
            else Inr []) (\<lambda>pairs2.
     rfold (\<lambda>count t.
         rbind (dict_get (rn_teaching st) (t_id (hp_teacher h t))) (\<lambda>by_slot.
         Inr (count + (\<Sum>(t1, t2)\<leftarrow>pairs1 @ pairs2. running_pair h by_slot t1 t2))))
       0 (sec_teachers (hp_sec h s))))))))"

definition rn_update_schedule_section ::
  "heap \<Rightarrow> running_state \<Rightarrow> secref \<Rightarrow> rsref \<Rightarrow> running_state result" where
  "rn_update_schedule_section h st s start_roomslot =
     (let roomslots = needed h s start_roomslot in
      rbind (teach_slots h s roomslots (rn_teaching st)) (\<lambda>teaching.
      let st1 = st\<lparr>rn_teaching := teaching\<rparr> in
      rbind (running_process_section h st1 s roomslots) (\<lambda>x.
      Inr (st1\<lparr>rn_count := rn_count st1 + x\<rparr>))))"

definition rn_update_unschedule_section :: "heap \<Rightarrow> running_state \<Rightarrow> secref \<Rightarrow> running_state result" where
  "rn_update_unschedule_section h st s =
     (let roomslots = roomslots_of h s in
      rbind (running_process_section h st s roomslots) (\<lambda>x.
      rbind (rfold (\<lambda>d t. rbind (dict_get d (t_id (hp_teacher h t))) (\<lambda>by_slot.
          rbind (rfold (\<lambda>by_slot r. if dict_has by_slot (slot_id h r) then Inr (AList.delete (slot_id h r) by_slot)
                                  else Inl KeyError) by_slot roomslots) (\<lambda>by_slot'.
          Inr (AList.update (t_id (hp_teacher h t)) by_slot' d))))
        (rn_teaching st) (sec_teachers (hp_sec h s))) (\<lambda>teaching.
      Inr (st\<lparr>rn_count := rn_count st - x, rn_teaching := teaching\<rparr>))))"

subsection \<open>Neighbouring roomslots\<close>

text \<open>\<open>follows sch h p q\<close>: \<open>q\<close> comes right after \<open>p\<close> in the availability of a registered room.\<close>

definition follows :: "schedule \<Rightarrow> heap \<Rightarrow> rsref \<Rightarrow> rsref \<Rightarrow> bool" where
  "follows sch h p q \<longleftrightarrow> (\<exists>room\<in>rooms_of sch. \<exists>i. Suc i < length (room_availability (hp_room h room)) \<and>
     room_availability (hp_room h room) ! i = p \<and> room_availability (hp_room h room) ! Suc i = q)"

lemma room_slots_distinct:
  assumes "static_ok h sch" and "room \<in> rooms_of sch"
  shows "distinct (room_availability (hp_room h room))"
  using assms sorted_distinct_keys [of h "room_availability (hp_room h room)"]
  by (simp add: static_ok_def distinct_map)

lemma roomslot_place:
  assumes "static_ok h sch" and "r \<in> all_roomslots h sch"
  obtains room i where "room \<in> rooms_of sch" "room_of h r = room" "room_av h r = room_availability (hp_room h room)"
    "i < length (room_availability (hp_room h room))" "room_availability (hp_room h room) ! i = r"
    "roomslot_index h r = Inr i"
    "roomslot_next h r = Inr (if Suc i < length (room_availability (hp_room h room))
       then Some (room_availability (hp_room h room) ! Suc i) else None)"
proof -
  from assms(2) obtain room where room: "room \<in> rooms_of sch" "r \<in> set (room_availability (hp_room h room))"
    by (auto simp: all_roomslots_def)
  with assms(1) have eq: "room_of h r = room" by (auto simp: static_ok_def)
  from room(2) obtain i where i: "i < length (room_availability (hp_room h room))"
    "room_availability (hp_room h room) ! i = r" by (metis in_set_conv_nth)
  then have "(i, r) \<in> set (enumerate 0 (room_availability (hp_room h room)))"
    by (simp add: in_set_enumerate_eq)
  moreover have "room_next_index_ok h room" using assms(1) room(1) by (simp add: static_ok_def)
  ultimately have "next_index_ok h (room_availability (hp_room h room)) (i, r)"
    unfolding room_next_index_ok_def by blast
  with that [of room i] room eq i show thesis by (simp add: next_index_ok_def room_av_def)
qed

lemma follows_iff:
  assumes "static_ok h sch" and "r \<in> all_roomslots h sch" and "roomslot_index h r = Inr i"
  shows "follows sch h r q \<longleftrightarrow> Suc i < length (room_av h r) \<and> q = room_av h r ! Suc i"
    and "follows sch h p r \<longleftrightarrow> 0 < i \<and> p = room_av h r ! (i - 1)"
proof -
  from roomslot_place [OF assms(1,2)] obtain room where room: "room \<in> rooms_of sch" "room_of h r = room"
    "room_av h r = room_availability (hp_room h room)" "i < length (room_av h r)" "room_av h r ! i = r"
    using assms(3) by (metis sum.inject(2))
  have uniq: "room' = room \<and> j = i" if "room' \<in> rooms_of sch" "j < length (room_availability (hp_room h room'))"
    "room_availability (hp_room h room') ! j = r" for room' j
  proof -
    have "r \<in> set (room_availability (hp_room h room'))" using that(2,3) by (metis nth_mem)
    with that(1) assms(1) room(2) have eq: "room' = room" by (auto simp: static_ok_def)
    moreover have "j = i"
      using nth_eq_iff_index_eq [OF room_slots_distinct [OF assms(1) room(1)], of j i] that(2,3) room(3,4,5) eq
      by simp
    ultimately show ?thesis by simp
  qed
  show "follows sch h r q \<longleftrightarrow> Suc i < length (room_av h r) \<and> q = room_av h r ! Suc i"
    unfolding follows_def using uniq room by (metis Suc_lessD)
  show "follows sch h p r \<longleftrightarrow> 0 < i \<and> p = room_av h r ! (i - 1)"
    unfolding follows_def using uniq room by (metis Suc_diff_1 Suc_eq_plus1 diff_Suc_1 zero_less_Suc)
qed

lemma follows_unique:
  assumes "static_ok h sch"
  shows "follows sch h p r \<Longrightarrow> follows sch h p' r \<Longrightarrow> p = p'"
    and "follows sch h r q \<Longrightarrow> follows sch h r q' \<Longrightarrow> q = q'"
    and "follows sch h p q \<Longrightarrow> p \<in> all_roomslots h sch \<and> q \<in> all_roomslots h sch"
proof -
  show mem: "follows sch h p q \<Longrightarrow> p \<in> all_roomslots h sch \<and> q \<in> all_roomslots h sch" for p q
    unfolding follows_def all_roomslots_def by (auto intro!: bexI nth_mem)
  show "follows sch h p r \<Longrightarrow> follows sch h p' r \<Longrightarrow> p = p'"
    using mem [of p r] follows_iff(2) [OF assms, of r] roomslot_place [OF assms, of r] by metis
  show "follows sch h r q \<Longrightarrow> follows sch h r q' \<Longrightarrow> q = q'"
    using mem [of r q] follows_iff(1) [OF assms, of r] roomslot_place [OF assms, of r] by metis
qed

definition occupied :: "heap \<Rightarrow> secref option \<Rightarrow> rsref \<Rightarrow> bool" where
  "occupied h ignore_section r \<longleftrightarrow> rs_section (hp_rs h r) \<noteq> None \<and> rs_section (hp_rs h r) \<noteq> ignore_section"

definition close :: "heap \<Rightarrow> rsref \<Rightarrow> rsref \<Rightarrow> bool" where
  "close h p q = contiguous h (rs_timeslot (hp_rs h p)) (rs_timeslot (hp_rs h q))"

definition before_done :: "schedule \<Rightarrow> heap \<Rightarrow> secref option \<Rightarrow> rsref \<Rightarrow> bool" where
  "before_done sch h ign r \<longleftrightarrow> (\<forall>p. follows sch h p r \<and> close h p r \<longrightarrow> occupied h ign p)"

definition after_done :: "schedule \<Rightarrow> heap \<Rightarrow> secref option \<Rightarrow> rsref \<Rightarrow> bool" where
  "after_done sch h ign r \<longleftrightarrow> (\<forall>n. follows sch h r n \<and> close h r n \<longrightarrow> occupied h ign n)"

definition at_end_of_block :: "schedule \<Rightarrow> heap \<Rightarrow> rsref \<Rightarrow> bool" where
  "at_end_of_block sch h r \<longleftrightarrow> (\<forall>n. follows sch h r n \<longrightarrow> \<not> close h r n)"

lemma boundary_before_eq:
  assumes "static_ok h sch" and "r \<in> all_roomslots h sch"
  shows "boundary_complete_before h r ign = Inr (before_done sch h ign r)"
proof -
  from roomslot_place [OF assms] obtain i where i: "roomslot_index h r = Inr i" "i < length (room_av h r)"
    by metis
  show ?thesis
    using i follows_iff(2) [OF assms i(1)]
    by (auto simp: boundary_complete_before_def before_done_def py_nth_def occupied_def close_def)
qed

lemma boundary_after_eq:
  assumes "static_ok h sch" and "r \<in> all_roomslots h sch"
  shows "boundary_complete_after h r ign False = Inr (after_done sch h ign r)"
    and "boundary_complete_after h r None True = Inr (at_end_of_block sch h r)"
proof -
  from roomslot_place [OF assms] obtain i where i: "roomslot_index h r = Inr i"
    "roomslot_next h r = Inr (if Suc i < length (room_av h r) then Some (room_av h r ! Suc i) else None)"
    by metis
  show "boundary_complete_after h r ign False = Inr (after_done sch h ign r)"
    "boundary_complete_after h r None True = Inr (at_end_of_block sch h r)"
    using i follows_iff(1) [OF assms i(1)]
    by (auto simp: boundary_complete_after_def after_done_def at_end_of_block_def occupied_def close_def)
qed

lemma same_static_follows:
  assumes "same_static h h'"
  shows "follows sch h' = follows sch h" "close h' = close h" "at_end_of_block sch h' = at_end_of_block sch h"
  by (simp_all add: follows_def close_def at_end_of_block_def fun_eq_iff same_staticD [OF assms]
      same_static_ts [OF assms])

text \<open>The roomslots a section is placed in follow each other.\<close>

lemma needed_block:
  assumes "static_ok h sch" and "r \<in> all_roomslots h sch"
  shows "q \<in> set (needed h s r) \<Longrightarrow> q \<noteq> r \<Longrightarrow> follows sch h p q \<Longrightarrow> p \<in> set (needed h s r)"
    and "p \<in> set (needed h s r) \<Longrightarrow> p \<noteq> last (needed h s r) \<Longrightarrow> follows sch h p q \<Longrightarrow> q \<in> set (needed h s r)"
    and "p \<in> set (needed h s r) \<Longrightarrow> \<not> follows sch h p r"
    and "q \<in> set (needed h s r) \<Longrightarrow> \<not> follows sch h (last (needed h s r)) q"
proof -
  from roomslot_place [OF assms] obtain room where room: "room \<in> rooms_of sch"
    "room_av h r = room_availability (hp_room h room)" by metis
  from grs_spec [OF index_ok_registered(1) [OF assms], of "sec_duration (hp_sec h s)"] obtain i m where
    im: "i \<le> m" "m < length (room_av h r)" "room_av h r ! i = r"
      "needed h s r = map ((!) (room_av h r)) [i..<Suc m]" by blast
  have place: "roomslot_index h (room_av h r ! j) = Inr j \<and> room_av h (room_av h r ! j) = room_av h r \<and>
      room_av h r ! j \<in> all_roomslots h sch" if "j < length (room_av h r)" for j
  proof -
    have mem: "room_av h r ! j \<in> all_roomslots h sch"
      unfolding all_roomslots_def using that room nth_mem [of j "room_av h r"] by (auto intro!: bexI)
    have "room_av h (room_av h r ! j) = room_av h r"
      using index_ok_registered(4) [OF assms] that by (simp add: room_av_def)
    moreover from roomslot_place [OF assms(1) mem] obtain k where
      "k < length (room_av h r)" "room_av h r ! k = room_av h r ! j" "roomslot_index h (room_av h r ! j) = Inr k"
      by (metis \<open>room_av h (room_av h r ! j) = room_av h r\<close>)
    moreover from this that have "k = j"
      using room_slots_distinct [OF assms(1) room(1)] room(2) by (simp add: nth_eq_iff_index_eq)
    ultimately show ?thesis using mem by simp
  qed
  have last: "last (needed h s r) = room_av h r ! m" using im(1,4) by (simp add: last_map)
  show "p \<in> set (needed h s r)" if "q \<in> set (needed h s r)" "q \<noteq> r" "follows sch h p q"
  proof -
    from that(1) im obtain j where j: "i \<le> j" "j \<le> m" "q = room_av h r ! j" by (auto simp: less_Suc_eq_le)
    then have jl: "j < length (room_av h r)" using im(2) by simp
    from that(3) follows_iff(2) [OF assms(1), of q j p] place [OF jl] j(3)
    have "0 < j" "p = room_av h r ! (j - 1)" by auto
    moreover have "i < j" using j that(2) im(3) by (cases "i = j") auto
    ultimately have "p = room_av h r ! (j - 1)" "j - 1 \<in> set [i..<Suc m]" using j(2) by auto
    then show ?thesis unfolding im(4) set_map by blast
  qed
  show "q \<in> set (needed h s r)" if "p \<in> set (needed h s r)" "p \<noteq> last (needed h s r)" "follows sch h p q"
  proof -
    from that(1) im obtain j where j: "i \<le> j" "j \<le> m" "p = room_av h r ! j" by (auto simp: less_Suc_eq_le)
    then have jl: "j < length (room_av h r)" using im(2) by simp
    from that(3) follows_iff(1) [OF assms(1), of p j q] place [OF jl] j(3)
    have "q = room_av h r ! Suc j" by auto
    moreover have "j < m" using j that(2) last by (cases "j = m") auto
    then have "Suc j \<in> set [i..<Suc m]" using j(1) by auto
    ultimately show ?thesis unfolding im(4) set_map by blast
  qed
  have idx: "k = j" if "j < length (room_av h r)" "k < length (room_av h r)" "room_av h r ! j = room_av h r ! k"
    for j k
    using nth_eq_iff_index_eq [OF room_slots_distinct [OF assms(1) room(1)], of j k] that room(2) by simp
  show "\<not> follows sch h p r" if p: "p \<in> set (needed h s r)"
  proof
    assume "follows sch h p r"
    with follows_iff(2) [OF assms(1), of r i p] place [of i] im(1-3) have "0 < i" "p = room_av h r ! (i - 1)"
      by auto
    moreover from p im obtain j where "i \<le> j" "j \<le> m" "p = room_av h r ! j" by (auto simp: less_Suc_eq_le)
    ultimately have "j < length (room_av h r)" "i - 1 < length (room_av h r)" "0 < i" "i \<le> j"
      "room_av h r ! j = room_av h r ! (i - 1)" using im(1,2) by auto
    then show False using idx [of j "i - 1"] by simp
  qed
  show "\<not> follows sch h (last (needed h s r)) q" if q: "q \<in> set (needed h s r)"
  proof
    assume "follows sch h (last (needed h s r)) q"
    with follows_iff(1) [OF assms(1), of "room_av h r ! m" m q] place [of m] im(1-3) last
    have "Suc m < length (room_av h r)" "q = room_av h r ! Suc m" by auto
    moreover from q im obtain j where "i \<le> j" "j \<le> m" "q = room_av h r ! j" by (auto simp: less_Suc_eq_le)
    ultimately have "j < length (room_av h r)" "Suc m < length (room_av h r)" "j \<le> m"
      "room_av h r ! j = room_av h r ! Suc m" by auto
    then show False using idx [of j "Suc m"] by simp
  qed
qed

subsection \<open>The number of boundaries after a manipulation\<close>

definition boundary_count :: "schedule \<Rightarrow> heap \<Rightarrow> rsref list \<Rightarrow> rat" where
  "boundary_count sch h rs =
     (if rs = [] then 0 else of_bool (before_done sch h None (hd rs)) + of_bool (at_end_of_block sch h (last rs)))"

definition boundaries :: "schedule \<Rightarrow> heap \<Rightarrow> rat" where
  "boundaries sch h = (\<Sum>s\<leftarrow>section_list sch. boundary_count sch h (roomslots_of h s))"

lemma section_ends:
  assumes "settled h sch" and "s \<in> sections_of sch" and "roomslots_of h s \<noteq> []"
  shows "hd (roomslots_of h s) \<in> all_roomslots h sch" "last (roomslots_of h s) \<in> all_roomslots h sch"
  using section_fits(1) [OF settledD(1) [OF assms(1)] assms(2)] assms(3) by auto

lemma count_boundary_eq [simp]:
  "count_boundary x (Inr b) st = Inr (st\<lparr>co_boundaries := co_boundaries st + x * of_bool b\<rparr>)"
  by (simp add: count_boundary_def)

lemma co_fresh:
  assumes "settled h sch"
  shows "co_update_schedule h sch =
    Inr \<lparr>co_num_sections = of_nat (length (section_list sch)), co_boundaries = boundaries sch h\<rparr>"
proof -
  have "rfold (\<lambda>st s.
         if is_scheduled h s then
           rbind (py_first (roomslots_of h s)) (\<lambda>r0.
           rbind (count_boundary 1 (boundary_complete_before h r0 None) st) (\<lambda>st1.
           rbind (py_last (roomslots_of h s)) (\<lambda>r1.
           count_boundary 1 (boundary_complete_after h r1 None True) st1)))
         else Inr st) st xs =
      Inr (st\<lparr>co_boundaries := co_boundaries st + (\<Sum>s\<leftarrow>xs. boundary_count sch h (roomslots_of h s))\<rparr>)"
    if "set xs \<subseteq> sections_of sch" for st xs
    using that
  proof (induction xs arbitrary: st)
    case (Cons s xs)
    show ?case
    proof (cases "roomslots_of h s = []")
      case False
      note ends = section_ends [OF assms _ False]
      show ?thesis
        using Cons False ends boundary_before_eq [OF settledD(2) [OF assms] ends(1)]
          boundary_after_eq(2) [OF settledD(2) [OF assms] ends(2)]
        by (simp add: py_first_hd py_last_def boundary_count_def algebra_simps)
    qed (use Cons in \<open>simp add: boundary_count_def\<close>)
  qed simp
  from this [of "section_list sch"] show ?thesis
    by (simp add: co_update_schedule_def boundaries_def section_list_def)
qed

lemma sum_list_of_bool:
  assumes "distinct xs" and "\<And>x y. P x \<Longrightarrow> P y \<Longrightarrow> x \<in> set xs \<Longrightarrow> y \<in> set xs \<Longrightarrow> x = y"
  shows "(\<Sum>x\<leftarrow>xs. of_bool (P x)) = (of_bool (\<exists>x\<in>set xs. P x) :: rat)"
  using assms
proof (induction xs)
  case (Cons x xs)
  then have IH: "(\<Sum>x\<leftarrow>xs. of_bool (P x)) = (of_bool (\<exists>x\<in>set xs. P x) :: rat)" by simp
  have "\<not> (\<exists>y\<in>set xs. P y)" if "P x"
  proof
    assume "\<exists>y\<in>set xs. P y"
    then obtain y where "y \<in> set xs" "P y" by blast
    with Cons.prems(2) [of x y] that Cons.prems(1) show False by auto
  qed
  with IH show ?case by auto
qed simp

lemma boundaries_schedule:
  assumes "manip_step sch h (Schedule s r) h'"
  shows "boundaries sch h' = boundaries sch h + of_bool (before_done sch h None r)
           + of_bool (after_done sch h None (last (needed h s r)))"
proof -
  from assms have a: "settled h sch" "s \<in> sections_of sch" "roomslots_of h s = []" "r \<in> all_roomslots h sch"
    "schedule_effect h s r = Inr h'" by (auto elim: scheduleE)
  note st = settledD(2) [OF a(1)]
  note fol = same_static_follows [OF step_settled(3) [OF assms]]
  define rs where "rs = needed h s r"
  define z where "z = last rs"
  note sel = schedule_effect_sel [OF st a(4,5), folded rs_def]
  note blk = needed_block [OF st a(4), of _ s, folded rs_def, folded z_def]
  have rs: "rs \<noteq> []" "hd rs = r" using grs_registered(1,2) [OF st a(4)] by (simp_all add: rs_def)
  have z: "z \<in> set rs" using rs by (simp add: z_def)
  define F where "F x \<longleftrightarrow> roomslots_of h x \<noteq> [] \<and> follows sch h z (hd (roomslots_of h x)) \<and>
    close h z (hd (roomslots_of h x))" for x
  have occ: "occupied h' None p \<longleftrightarrow> p \<in> set rs \<or> occupied h None p" for p
    by (auto simp: occupied_def sel(2))
  have free: "\<not> occupied h None p" if "p \<in> set rs" for p using sel(3) that by (simp add: occupied_def)
  have other: "boundary_count sch h' (roomslots_of h' x) =
      boundary_count sch h (roomslots_of h x) + of_bool (F x)" if x: "x \<in> sections_of sch" "x \<noteq> s" for x
  proof (cases "roomslots_of h x = []")
    case False
    define q where "q = hd (roomslots_of h x)"
    have "q \<in> set (roomslots_of h x)" using False by (simp add: q_def)
    then have "occupied h None q"
      using section_fits(5) [OF settledD(1) [OF a(1)] x(1)] by (simp add: occupied_def)
    then have "q \<notin> set rs" using free by blast
    then have "p \<in> set rs \<and> follows sch h p q \<longleftrightarrow> p = z \<and> follows sch h z q" for p
      using blk(2) [of p q] z by blast
    then have "before_done sch h' None q \<longleftrightarrow> before_done sch h None q \<or> (follows sch h z q \<and> close h z q)"
      and "follows sch h z q \<and> close h z q \<longrightarrow> \<not> before_done sch h None q"
      unfolding before_done_def fol occ using follows_unique(1) [OF st, of _ q] free [OF z] by blast+
    then show ?thesis
      using False x(2) by (simp add: boundary_count_def sel(1) fol F_def flip: q_def)
  qed (use x in \<open>simp add: boundary_count_def sel(1) F_def\<close>)
  have self: "boundary_count sch h' (roomslots_of h' s) =
      of_bool (before_done sch h None r) + of_bool (at_end_of_block sch h z)"
  proof -
    have "before_done sch h' None r = before_done sch h None r"
      unfolding before_done_def fol occ using blk(3) by blast
    then show ?thesis using rs by (simp add: boundary_count_def sel(1) fol z_def)
  qed
  have "boundaries sch h' = (\<Sum>x\<leftarrow>section_list sch. boundary_count sch h (roomslots_of h x) + of_bool (F x)
      + (if x = s then of_bool (before_done sch h None r) + of_bool (at_end_of_block sch h z) else 0))"
    unfolding boundaries_def
  proof (intro arg_cong [where f = sum_list] map_cong [OF refl])
    fix x assume "x \<in> set (section_list sch)"
    then have "x \<in> sections_of sch" by (simp add: section_list_def)
    then show "boundary_count sch h' (roomslots_of h' x) =
        boundary_count sch h (roomslots_of h x) + of_bool (F x)
        + (if x = s then of_bool (before_done sch h None r) + of_bool (at_end_of_block sch h z) else 0)"
      using other [of x] self a(3) by (cases "x = s") (simp_all add: F_def boundary_count_def)
  qed
  also have "\<dots> = boundaries sch h + (\<Sum>x\<leftarrow>section_list sch. of_bool (F x))
      + (of_bool (before_done sch h None r) + of_bool (at_end_of_block sch h z))"
    using distinct_settled [OF a(1)] a(2)
    by (simp add: sum_list_addf boundaries_def sum_list_distinct_conv_sum_set section_list_def)
  also have "(\<Sum>x\<leftarrow>section_list sch. of_bool (F x)) = (of_bool (\<exists>x\<in>sections_of sch. F x) :: rat)"
  proof (subst sum_list_of_bool [OF distinct_settled [OF a(1)]])
    fix x y assume xy: "F x" "F y" "x \<in> set (section_list sch)" "y \<in> set (section_list sch)"
    then have "hd (roomslots_of h x) = hd (roomslots_of h y)" "roomslots_of h x \<noteq> []" "roomslots_of h y \<noteq> []"
      using follows_unique(2) [OF st] by (auto simp: F_def)
    moreover have "\<forall>u\<in>{x, y}. \<forall>r\<in>set (roomslots_of h u). rs_section (hp_rs h r) = Some u"
      using section_fits(5) [OF settledD(1) [OF a(1)]] xy(3,4) by (simp add: section_list_def)
    ultimately show "x = y" by (metis hd_in_set insertCI option.inject)
  qed (simp add: section_list_def)
  also have "(\<exists>x\<in>sections_of sch. F x) \<longleftrightarrow> (\<exists>n. follows sch h z n \<and> close h z n \<and> occupied h None n)"
  proof
    assume "\<exists>x\<in>sections_of sch. F x"
    then obtain x where x: "x \<in> sections_of sch" "F x" by blast
    then have "rs_section (hp_rs h (hd (roomslots_of h x))) = Some x"
      using section_fits(5) [OF settledD(1) [OF a(1)] x(1)] by (simp add: F_def)
    with x show "\<exists>n. follows sch h z n \<and> close h z n \<and> occupied h None n"
      unfolding F_def occupied_def by (intro exI [of _ "hd (roomslots_of h x)"]) simp
  next
    assume "\<exists>n. follows sch h z n \<and> close h z n \<and> occupied h None n"
    then obtain n x where n: "follows sch h z n" "close h z n" "rs_section (hp_rs h n) = Some x"
      by (auto simp: occupied_def)
    have nall: "n \<in> all_roomslots h sch" using follows_unique(3) [OF st n(1)] by simp
    have x: "x \<in> sections_of sch" "n \<in> set (roomslots_of h x)"
      using placed_section [OF a(1) nall n(3)] by simp_all
    have ne: "roomslots_of h x \<noteq> []" using x(2) by auto
    note hd = section_hd [OF a(1) x(1) ne]
    have "n = hd (roomslots_of h x)"
    proof (rule ccontr)
      assume "n \<noteq> hd (roomslots_of h x)"
      with needed_block(1) [OF st hd(1), of n x z, unfolded hd(2)] x(2) n(1)
      have "z \<in> set (roomslots_of h x)" by blast
      then have "occupied h None z"
        using section_fits(5) [OF settledD(1) [OF a(1)] x(1)] by (simp add: occupied_def)
      with free [OF z] show False by blast
    qed
    with x n ne show "\<exists>x\<in>sections_of sch. F x" unfolding F_def by blast
  qed
  also have "of_bool (\<exists>n. follows sch h z n \<and> close h z n \<and> occupied h None n) =
      (of_bool (after_done sch h None z) - of_bool (at_end_of_block sch h z) :: rat)"
  proof -
    have "after_done sch h None z \<longleftrightarrow> at_end_of_block sch h z \<or>
        (\<exists>n. follows sch h z n \<and> close h z n \<and> occupied h None n)"
      and "\<exists>n. follows sch h z n \<and> close h z n \<and> occupied h None n \<Longrightarrow> \<not> at_end_of_block sch h z"
      unfolding after_done_def at_end_of_block_def using follows_unique(2) [OF st, of z] by blast+
    then show ?thesis by auto
  qed
  finally show ?thesis by (simp add: z_def rs_def)
qed

lemma done_away:
  assumes "static_ok h sch" and "r \<in> all_roomslots h sch" and "same_static h h'"
    and "\<And>p. p \<notin> set (needed h s r) \<Longrightarrow> occupied h' None p = occupied h ign p"
  shows "before_done sch h' None r = before_done sch h ign r"
    and "after_done sch h' None (last (needed h s r)) = after_done sch h ign (last (needed h s r))"
  unfolding before_done_def after_done_def same_static_follows [OF assms(3)]
  using needed_block(3,4) [OF assms(1,2), of _ s] assms(4) by blast+

lemma boundaries_unschedule:
  assumes "manip_step sch h (Unschedule s) h'"
  shows "boundaries sch h' = boundaries sch h - of_bool (before_done sch h None (hd (roomslots_of h s)))
           - of_bool (after_done sch h None (last (roomslots_of h s)))"
proof -
  from assms have a: "settled h sch" "s \<in> sections_of sch" "roomslots_of h s \<noteq> []"
    "h' = clear_roomslots h s" by (auto elim: unscheduleE simp: unschedule_effect_def)
  note hd = section_hd [OF a(1-3)] and ss = step_settled(3) [OF assms]
  have sched: "manip_step sch h' (Schedule s (hd (roomslots_of h s))) h"
    using step_inverse [OF assms] by (simp add: first_roomslot_def)
  have "occupied h' None p = occupied h None p" if "p \<notin> set (needed h s (hd (roomslots_of h s)))" for p
    using that by (simp add: hd(2) a(4) occupied_def)
  note away = done_away [OF settledD(2) [OF a(1)] hd(1) ss this, of s, unfolded hd(2)]
  have "needed h' s (hd (roomslots_of h s)) = roomslots_of h s"
    using hd(2) by (simp add: same_static_grs [OF ss] same_staticD [OF ss])
  with boundaries_schedule [OF sched] away show ?thesis by simp
qed

lemma boundaries_move:
  assumes "manip_step sch h (Move s r) h'"
  shows "boundaries sch h' = boundaries sch h - of_bool (before_done sch h None (hd (roomslots_of h s)))
           - of_bool (after_done sch h None (last (roomslots_of h s)))
           + of_bool (before_done sch h (Some s) r) + of_bool (after_done sch h (Some s) (last (needed h s r)))"
proof -
  from assms have a: "settled h sch" "s \<in> sections_of sch" "is_scheduled h s" "r \<in> all_roomslots h sch"
    "move_effect h s r = Inr h'" "settled h' sch" by (auto elim: moveE)
  define h0 where "h0 = clear_roomslots h s"
  have un: "manip_step sch h (Unschedule s) h0"
    using step_unschedule [OF a(1-3)] by (simp add: h0_def unschedule_effect_def)
  note ss = step_settled(3) [OF un]
  have sched: "manip_step sch h0 (Schedule s r) h'"
  proof (rule step_schedule [OF step_settled(2) [OF un] a(2) _ _ _ a(6)])
    show "r \<in> all_roomslots h0 sch" using a(4) by (simp add: same_static_all_roomslots [OF ss])
    show "schedule_effect h0 s r = Inr h'" using a(5) by (simp add: move_effect_eq h0_def)
  qed (simp add: h0_def)
  have occ: "occupied h0 None p = occupied h (Some s) p" if "p \<in> all_roomslots h sch" for p
    using placed_iff [OF a(1,2) that] by (auto simp: h0_def occupied_def)
  note fol = same_static_follows [OF ss]
  have "before_done sch h0 None r = before_done sch h (Some s) r"
    "after_done sch h0 None (last (needed h s r)) = after_done sch h (Some s) (last (needed h s r))"
    unfolding before_done_def after_done_def fol
    using occ follows_unique(3) [OF settledD(2) [OF a(1)]] by blast+
  moreover have "needed h0 s r = needed h s r"
    by (simp add: same_static_grs [OF ss] same_staticD [OF ss])
  ultimately show ?thesis using boundaries_schedule [OF sched] boundaries_unschedule [OF un] by simp
qed

lemma boundaries_swap:
  assumes "manip_step sch h (Swap s1 s2) h'"
  shows "boundaries sch h' = boundaries sch h"
proof -
  from assms have a: "settled h sch" "s1 \<in> sections_of sch" "s2 \<in> sections_of sch" "s1 \<noteq> s2"
    "swap_effect h s1 s2 = Inr h'" by (auto elim: swapE)
  note sel = swap_effect_sel [OF settledD(1) [OF a(1)] a(2-5)]
  note f1 = section_fits(5) [OF settledD(1) [OF a(1)] a(2)]
    and f2 = section_fits(5) [OF settledD(1) [OF a(1)] a(3)]
  have "occupied h' None p = occupied h None p" for p
    using f1 f2 by (auto simp: occupied_def sel(2))
  then have count: "boundary_count sch h' rs = boundary_count sch h rs" for rs
    unfolding boundary_count_def before_done_def same_static_follows [OF step_settled(3) [OF assms]]
    by simp
  let ?c = "\<lambda>s. boundary_count sch h (roomslots_of h s)"
  have "boundaries sch h' = (\<Sum>s\<leftarrow>section_list sch. boundary_count sch h (roomslots_of h' s))"
    by (simp add: boundaries_def count)
  also have "\<dots> = (\<Sum>s\<leftarrow>section_list sch. (?c(s1 := ?c s2)) s) - ?c s2 + ?c s1"
    using sum_list_update [OF distinct_settled [OF a(1)], of s2
      "\<lambda>s. boundary_count sch h (roomslots_of h' s)" "?c(s1 := ?c s2)"] a(3,4)
    by (simp add: sel(1) section_list_def fun_upd_def)
  also have "(\<Sum>s\<leftarrow>section_list sch. (?c(s1 := ?c s2)) s) = boundaries sch h - ?c s1 + ?c s2"
    using sum_list_update [OF distinct_settled [OF a(1)], of s1 "?c(s1 := ?c s2)" ?c] a(2)
    by (simp add: boundaries_def section_list_def fun_upd_def)
  finally show ?thesis by simp
qed

interpretation consecutivity_scorer: incremental_scorer co_update_schedule co_update_schedule_section
  co_update_move_section co_update_unschedule_section co_update_swap_sections
proof unfold_locales
  fix sch h m h' st
  assume step: "manip_step sch h m h'" and "co_update_schedule h sch = Inr st"
  with co_fresh [OF step_settled(1) [OF step]] have
    st: "st = \<lparr>co_num_sections = of_nat (length (section_list sch)), co_boundaries = boundaries sch h\<rparr>"
    by simp
  note fresh = co_fresh [OF step_settled(2) [OF step]]
  then show "\<exists>st'. co_update_schedule h' sch = Inr st'" by simp
  show "scorer_update co_update_schedule_section co_update_move_section co_update_unschedule_section
      co_update_swap_sections h st m = co_update_schedule h' sch"
  proof (cases m)
    case (Schedule s r)
    with step have a: "settled h sch" "r \<in> all_roomslots h sch" by (auto elim: scheduleE)
    note n = grs_registered(1,3) [OF settledD(2) [OF a(1)] a(2), of "sec_duration (hp_sec h s)"]
    have z: "last (needed h s r) \<in> all_roomslots h sch" using n by auto
    show ?thesis
      using Schedule step n(1) boundaries_schedule [of sch h s r h']
        boundary_before_eq [OF settledD(2) [OF a(1)] a(2)]
        boundary_after_eq(1) [OF settledD(2) [OF a(1)] z]
      by (simp add: co_update_schedule_section_def py_last_def fresh st)
  next
    case (Move s r)
    with step have a: "settled h sch" "s \<in> sections_of sch" "roomslots_of h s \<noteq> []"
      "r \<in> all_roomslots h sch" by (auto elim: moveE)
    note n = grs_registered(1,3) [OF settledD(2) [OF a(1)] a(4), of "sec_duration (hp_sec h s)"]
    have z: "last (needed h s r) \<in> all_roomslots h sch" using n by auto
    note ends = section_ends [OF a(1-3)]
    show ?thesis
      using Move step n(1) a(3) boundaries_move [of sch h s r h']
        boundary_before_eq [OF settledD(2) [OF a(1)] ends(1)]
        boundary_after_eq(1) [OF settledD(2) [OF a(1)] ends(2)]
        boundary_before_eq [OF settledD(2) [OF a(1)] a(4)]
        boundary_after_eq(1) [OF settledD(2) [OF a(1)] z]
      by (simp add: co_update_move_section_def py_first_hd py_last_def fresh st)
  next
    case (Unschedule s)
    with step have a: "settled h sch" "s \<in> sections_of sch" "roomslots_of h s \<noteq> []"
      by (auto elim: unscheduleE)
    note ends = section_ends [OF a]
    show ?thesis
      using Unschedule step a(3) boundaries_unschedule [of sch h s h']
        boundary_before_eq [OF settledD(2) [OF a(1)] ends(1)]
        boundary_after_eq(1) [OF settledD(2) [OF a(1)] ends(2)]
      by (simp add: co_update_unschedule_section_def py_first_hd py_last_def fresh st)
  next
    case (Swap s1 s2)
    with step boundaries_swap [of sch h s1 s2 h'] show ?thesis
      by (simp add: co_update_swap_sections_def fresh st)
  qed
qed

end
