(* ===== verification/Composite_Scorer.thy ===== *)
theory Composite_Scorer
  imports Scorers_Sums Scorers_Counts Scorers_Distribution Scorers_Adjacent
begin

section \<open>CompositeScorer (autoscheduler/scoring.py)\<close>

text \<open>
  The scorer the manipulator holds: a list of scorers with weights. A scorer object is one
  of fourteen states; \<open>new_scorer\<close> is the constructor of its class, the updates dispatch
  on the class. \<open>composite_incremental\<close> shows that a composite of all classes but
  \<open>TeachersWhoLikeRunningScorer\<close> keeps the promise of \<open>incremental_scorer\<close>, total weight
  included. Iterating a dictionary of names and weights is iterating an association list.
\<close>

datatype scorer_class =
    AdminDistributionScorer
  | CategoryBalanceScorer
  | LunchStudentClassHoursScorer
  | HungryTeacherScorer
  | NumSectionsScorer
  | NumSubjectsScorer
  | NumTeachersScorer
  | ResourceCriteriaScorer
  | ResourceMatchingScorer
  | ResourceValueMatchingScorer
  | RoomConsecutivityScorer
  | RoomSizeMismatchScorer
  | StudentClassHoursScorer
  | TeachersWhoLikeRunningScorer

datatype scorer =
    Admin admin_state
  | Category category_state
  | Lunch lunch_hours_state
  | Hungry hungry_state
  | Sections sections_state
  | Subjects subjects_state
  | Teachers teachers_state
  | Criteria criteria_state
  | Matching matching_state
  | Value_Matching value_matching_state
  | Consecutivity consecutivity_state
  | Room_Size size_state
  | Class_Hours hours_state
  | Running running_state

definition wrap :: "('s \<Rightarrow> scorer) \<Rightarrow> 's result \<Rightarrow> scorer result" where
  "wrap K r = rbind r (\<lambda>st. Inr (K st))"

lemma wrap_simps [simp]: "wrap K (Inr st) = Inr (K st)" "wrap K (Inl e) = Inl e"
  by (simp_all add: wrap_def)

lemma wrap_Inr_iff [check_iff]: "wrap K r = Inr sc \<longleftrightarrow> (\<exists>st. r = Inr st \<and> sc = K st)"
  by (auto simp: wrap_def rbind_Inr_iff)

subsection \<open>Scorer objects\<close>

fun new_scorer ::
  "(string \<Rightarrow> string \<Rightarrow> bool) \<Rightarrow> (criterion \<times> rat) list \<Rightarrow> scorer_class \<Rightarrow> heap \<Rightarrow> schedule \<Rightarrow> scorer result" where
  "new_scorer re_match criteria AdminDistributionScorer h sch = wrap Admin (ad_update_schedule h sch)"
| "new_scorer re_match criteria CategoryBalanceScorer h sch = wrap Category (cb_update_schedule h sch)"
| "new_scorer re_match criteria LunchStudentClassHoursScorer h sch = wrap Lunch (lh_update_schedule h sch)"
| "new_scorer re_match criteria HungryTeacherScorer h sch = wrap Hungry (hg_update_schedule h sch)"
| "new_scorer re_match criteria NumSectionsScorer h sch = wrap Sections (nsec_update_schedule h sch)"
| "new_scorer re_match criteria NumSubjectsScorer h sch = wrap Subjects (nsub_update_schedule h sch)"
| "new_scorer re_match criteria NumTeachersScorer h sch = wrap Teachers (ntea_update_schedule h sch)"
| "new_scorer re_match criteria ResourceCriteriaScorer h sch = wrap Criteria (rc_init re_match criteria h sch)"
| "new_scorer re_match criteria ResourceMatchingScorer h sch = wrap Matching (rm_update_schedule h sch)"
| "new_scorer re_match criteria ResourceValueMatchingScorer h sch = wrap Value_Matching (rv_update_schedule h sch)"
| "new_scorer re_match criteria RoomConsecutivityScorer h sch = wrap Consecutivity (co_update_schedule h sch)"
| "new_scorer re_match criteria RoomSizeMismatchScorer h sch = wrap Room_Size (sz_update_schedule h sch)"
| "new_scorer re_match criteria StudentClassHoursScorer h sch = wrap Class_Hours (sh_update_schedule h sch)"
| "new_scorer re_match criteria TeachersWhoLikeRunningScorer h sch = wrap Running (rn_update_schedule h sch)"

fun scaling :: "scorer \<Rightarrow> rat" where
  "scaling (Admin st) = ad_scaling st"
| "scaling (Hungry st) = hg_scaling st"
| "scaling (Subjects st) = nsub_scaling st"
| "scaling (Teachers st) = ntea_scaling st"
| "scaling (Criteria st) = rc_scaling st"
| "scaling _ = 1"

fun scorer_score :: "scorer \<Rightarrow> rat result" where
  "scorer_score (Admin st) = ad_score_schedule st"
| "scorer_score (Category st) = cb_score_schedule st"
| "scorer_score (Lunch st) = lh_score_schedule st"
| "scorer_score (Hungry st) = hg_score_schedule st"
| "scorer_score (Sections st) = nsec_score_schedule st"
| "scorer_score (Subjects st) = nsub_score_schedule st"
| "scorer_score (Teachers st) = ntea_score_schedule st"
| "scorer_score (Criteria st) = rc_score_schedule st"
| "scorer_score (Matching st) = rm_score_schedule st"
| "scorer_score (Value_Matching st) = rv_score_schedule st"
| "scorer_score (Consecutivity st) = co_score_schedule st"
| "scorer_score (Room_Size st) = sz_score_schedule st"
| "scorer_score (Class_Hours st) = sh_score_schedule st"
| "scorer_score (Running st) = rn_score_schedule st"

text \<open>\<open>update_schedule\<close> on an existing object; only \<open>ResourceCriteriaScorer\<close> keeps something.\<close>

fun scorer_reload ::
  "(string \<Rightarrow> string \<Rightarrow> bool) \<Rightarrow> heap \<Rightarrow> schedule \<Rightarrow> scorer \<Rightarrow> scorer result" where
  "scorer_reload re_match h sch (Admin st) = wrap Admin (ad_update_schedule h sch)"
| "scorer_reload re_match h sch (Category st) = wrap Category (cb_update_schedule h sch)"
| "scorer_reload re_match h sch (Lunch st) = wrap Lunch (lh_update_schedule h sch)"
| "scorer_reload re_match h sch (Hungry st) = wrap Hungry (hg_update_schedule h sch)"
| "scorer_reload re_match h sch (Sections st) = wrap Sections (nsec_update_schedule h sch)"
| "scorer_reload re_match h sch (Subjects st) = wrap Subjects (nsub_update_schedule h sch)"
| "scorer_reload re_match h sch (Teachers st) = wrap Teachers (ntea_update_schedule h sch)"
| "scorer_reload re_match h sch (Criteria st) = wrap Criteria (rc_update_schedule re_match h sch st)"
| "scorer_reload re_match h sch (Matching st) = wrap Matching (rm_update_schedule h sch)"
| "scorer_reload re_match h sch (Value_Matching st) = wrap Value_Matching (rv_update_schedule h sch)"
| "scorer_reload re_match h sch (Consecutivity st) = wrap Consecutivity (co_update_schedule h sch)"
| "scorer_reload re_match h sch (Room_Size st) = wrap Room_Size (sz_update_schedule h sch)"
| "scorer_reload re_match h sch (Class_Hours st) = wrap Class_Hours (sh_update_schedule h sch)"
| "scorer_reload re_match h sch (Running st) = wrap Running (rn_update_schedule h sch)"

fun scorer_schedule_section ::
  "(string \<Rightarrow> string \<Rightarrow> bool) \<Rightarrow> heap \<Rightarrow> scorer \<Rightarrow> secref \<Rightarrow> rsref \<Rightarrow> scorer result" where
  "scorer_schedule_section re_match h (Admin st) s r = wrap Admin (ad_update_schedule_section h st s r)"
| "scorer_schedule_section re_match h (Category st) s r = wrap Category (cb_update_schedule_section h st s r)"
| "scorer_schedule_section re_match h (Lunch st) s r = wrap Lunch (lh_update_schedule_section h st s r)"
| "scorer_schedule_section re_match h (Hungry st) s r = wrap Hungry (hg_update_schedule_section h st s r)"
| "scorer_schedule_section re_match h (Sections st) s r = wrap Sections (nsec_update_schedule_section h st s r)"
| "scorer_schedule_section re_match h (Subjects st) s r = wrap Subjects (nsub_update_schedule_section h st s r)"
| "scorer_schedule_section re_match h (Teachers st) s r = wrap Teachers (ntea_update_schedule_section h st s r)"
| "scorer_schedule_section re_match h (Criteria st) s r =
     wrap Criteria (rc_update_schedule_section re_match h st s r)"
| "scorer_schedule_section re_match h (Matching st) s r = wrap Matching (rm_update_schedule_section h st s r)"
| "scorer_schedule_section re_match h (Value_Matching st) s r =
     wrap Value_Matching (rv_update_schedule_section h st s r)"
| "scorer_schedule_section re_match h (Consecutivity st) s r =
     wrap Consecutivity (co_update_schedule_section h st s r)"
| "scorer_schedule_section re_match h (Room_Size st) s r = wrap Room_Size (sz_update_schedule_section h st s r)"
| "scorer_schedule_section re_match h (Class_Hours st) s r = wrap Class_Hours (sh_update_schedule_section h st s r)"
| "scorer_schedule_section re_match h (Running st) s r = wrap Running (rn_update_schedule_section h st s r)"

fun scorer_unschedule_section ::
  "(string \<Rightarrow> string \<Rightarrow> bool) \<Rightarrow> heap \<Rightarrow> scorer \<Rightarrow> secref \<Rightarrow> scorer result" where
  "scorer_unschedule_section re_match h (Admin st) s = wrap Admin (ad_update_unschedule_section h st s)"
| "scorer_unschedule_section re_match h (Category st) s = wrap Category (cb_update_unschedule_section h st s)"
| "scorer_unschedule_section re_match h (Lunch st) s = wrap Lunch (lh_update_unschedule_section h st s)"
| "scorer_unschedule_section re_match h (Hungry st) s = wrap Hungry (hg_update_unschedule_section h st s)"
| "scorer_unschedule_section re_match h (Sections st) s = wrap Sections (nsec_update_unschedule_section h st s)"
| "scorer_unschedule_section re_match h (Subjects st) s = wrap Subjects (nsub_update_unschedule_section h st s)"
| "scorer_unschedule_section re_match h (Teachers st) s = wrap Teachers (ntea_update_unschedule_section h st s)"
| "scorer_unschedule_section re_match h (Criteria st) s =
     wrap Criteria (rc_update_unschedule_section re_match h st s)"
| "scorer_unschedule_section re_match h (Matching st) s = wrap Matching (rm_update_unschedule_section h st s)"
| "scorer_unschedule_section re_match h (Value_Matching st) s =
     wrap Value_Matching (rv_update_unschedule_section h st s)"
| "scorer_unschedule_section re_match h (Consecutivity st) s =
     wrap Consecutivity (co_update_unschedule_section h st s)"
| "scorer_unschedule_section re_match h (Room_Size st) s = wrap Room_Size (sz_update_unschedule_section h st s)"
| "scorer_unschedule_section re_match h (Class_Hours st) s = wrap Class_Hours (sh_update_unschedule_section h st s)"
| "scorer_unschedule_section re_match h (Running st) s = wrap Running (rn_update_unschedule_section h st s)"

text \<open>Four classes override the default \<open>update_move_section\<close>.\<close>

definition default_scorer_move ::
  "(string \<Rightarrow> string \<Rightarrow> bool) \<Rightarrow> heap \<Rightarrow> scorer \<Rightarrow> secref \<Rightarrow> rsref \<Rightarrow> scorer result" where
  "default_scorer_move re_match =
     default_move (scorer_unschedule_section re_match) (scorer_schedule_section re_match)"

fun scorer_move_section ::
  "(string \<Rightarrow> string \<Rightarrow> bool) \<Rightarrow> heap \<Rightarrow> scorer \<Rightarrow> secref \<Rightarrow> rsref \<Rightarrow> scorer result" where
  "scorer_move_section re_match h (Sections st) s r = wrap Sections (keep h st s r)"
| "scorer_move_section re_match h (Subjects st) s r = wrap Subjects (keep h st s r)"
| "scorer_move_section re_match h (Teachers st) s r = wrap Teachers (keep h st s r)"
| "scorer_move_section re_match h (Consecutivity st) s r = wrap Consecutivity (co_update_move_section h st s r)"
| "scorer_move_section re_match h sc s r = default_scorer_move re_match h sc s r"

fun scorer_swap_sections ::
  "(string \<Rightarrow> string \<Rightarrow> bool) \<Rightarrow> heap \<Rightarrow> scorer \<Rightarrow> secref \<Rightarrow> secref \<Rightarrow> scorer result" where
  "scorer_swap_sections re_match h (Sections st) s1 s2 = wrap Sections (keep h st s1 s2)"
| "scorer_swap_sections re_match h (Subjects st) s1 s2 = wrap Subjects (keep h st s1 s2)"
| "scorer_swap_sections re_match h (Teachers st) s1 s2 = wrap Teachers (keep h st s1 s2)"
| "scorer_swap_sections re_match h (Consecutivity st) s1 s2 =
     wrap Consecutivity (co_update_swap_sections h st s1 s2)"
| "scorer_swap_sections re_match h sc s1 s2 = default_swap (scorer_move_section re_match) h sc s1 s2"

subsection \<open>The composite\<close>

record composite_scorer =
  cs_scorers :: "(scorer \<times> rat) list"
  cs_total_weight :: rat

fun class_name :: "scorer \<Rightarrow> string" where
  "class_name (Admin st) = ''AdminDistributionScorer''"
| "class_name (Category st) = ''CategoryBalanceScorer''"
| "class_name (Lunch st) = ''LunchStudentClassHoursScorer''"
| "class_name (Hungry st) = ''HungryTeacherScorer''"
| "class_name (Sections st) = ''NumSectionsScorer''"
| "class_name (Subjects st) = ''NumSubjectsScorer''"
| "class_name (Teachers st) = ''NumTeachersScorer''"
| "class_name (Criteria st) = ''ResourceCriteriaScorer''"
| "class_name (Matching st) = ''ResourceMatchingScorer''"
| "class_name (Value_Matching st) = ''ResourceValueMatchingScorer''"
| "class_name (Consecutivity st) = ''RoomConsecutivityScorer''"
| "class_name (Room_Size st) = ''RoomSizeMismatchScorer''"
| "class_name (Class_Hours st) = ''StudentClassHoursScorer''"
| "class_name (Running st) = ''TeachersWhoLikeRunningScorer''"

text \<open>\<open>globals()\<close> of scoring.py: the scorer classes, and names that are not scorer classes.\<close>

definition scorer_classes :: "(string, scorer_class) dict" where
  "scorer_classes = [
     (''AdminDistributionScorer'', AdminDistributionScorer), (''CategoryBalanceScorer'', CategoryBalanceScorer),
     (''LunchStudentClassHoursScorer'', LunchStudentClassHoursScorer),
     (''HungryTeacherScorer'', HungryTeacherScorer), (''NumSectionsScorer'', NumSectionsScorer),
     (''NumSubjectsScorer'', NumSubjectsScorer), (''NumTeachersScorer'', NumTeachersScorer),
     (''ResourceCriteriaScorer'', ResourceCriteriaScorer), (''ResourceMatchingScorer'', ResourceMatchingScorer),
     (''ResourceValueMatchingScorer'', ResourceValueMatchingScorer),
     (''RoomConsecutivityScorer'', RoomConsecutivityScorer), (''RoomSizeMismatchScorer'', RoomSizeMismatchScorer),
     (''StudentClassHoursScorer'', StudentClassHoursScorer),
     (''TeachersWhoLikeRunningScorer'', TeachersWhoLikeRunningScorer)]"

definition find_class :: "string \<Rightarrow> scorer_class result" where
  "find_class name =
     (if name = ''BaseScorer'' then Inl (OtherError ''NotImplementedError'')
      else if name \<in> {''CompositeScorer'', ''logging'', ''logger'', ''util''} then Inl TypeError
      else dict_get scorer_classes name)"

definition compute_total_weight :: "(scorer \<times> rat) list \<Rightarrow> rat" where
  "compute_total_weight scorers_and_weights =
     (let total = (\<Sum>(sc, weight)\<leftarrow>scorers_and_weights. scaling sc * weight) in if total = 0 then 1 else total)"

definition active :: "(string, rat option) dict \<Rightarrow> (string \<times> rat) list" where
  "active names_and_weights =
     concat (map (\<lambda>(name, weight). case weight of None \<Rightarrow> [] | Some w \<Rightarrow> if w = 0 then [] else [(name, w)])
       names_and_weights)"

definition load_scorer ::
  "(string \<Rightarrow> string \<Rightarrow> bool) \<Rightarrow> (criterion \<times> rat) list \<Rightarrow> heap \<Rightarrow> schedule \<Rightarrow> string \<times> rat \<Rightarrow>
   (scorer \<times> rat) result" where
  "load_scorer re_match criteria h sch = (\<lambda>(name, weight).
     rbind (raise_if (\<not> weight \<ge> 0) (AssertionError ''Scorer weights should be nonnegative'')) (\<lambda>_.
     rbind (find_class name) (\<lambda>cls.
     rbind (new_scorer re_match criteria cls h sch) (\<lambda>sc. Inr (sc, weight)))))"

definition CompositeScorer_init ::
  "(string \<Rightarrow> string \<Rightarrow> bool) \<Rightarrow> (string, rat option) dict \<Rightarrow> (criterion \<times> rat) list \<Rightarrow> heap \<Rightarrow> schedule \<Rightarrow>
   composite_scorer result" where
  "CompositeScorer_init re_match names_and_weights criteria h sch =
     rbind (rmap (load_scorer re_match criteria h sch) (active names_and_weights)) (\<lambda>scs.
     Inr \<lparr>cs_scorers = scs, cs_total_weight = compute_total_weight scs\<rparr>)"

definition composite_score :: "composite_scorer \<Rightarrow> rat result" where
  "composite_score cs =
     rbind (rfold (\<lambda>total (sc, weight).
         rbind (scorer_score sc) (\<lambda>score. Inr (total + score * weight * scaling sc)))
       0 (cs_scorers cs)) (\<lambda>total_score.
     py_div total_score (cs_total_weight cs))"

definition get_all_score_schedule :: "composite_scorer \<Rightarrow> ((string \<times> rat \<times> rat) list \<times> rat) result" where
  "get_all_score_schedule cs =
     rbind (rmap (\<lambda>(sc, weight). rbind (scorer_score sc) (\<lambda>x. Inr (class_name sc, weight, x)))
       (cs_scorers cs)) (\<lambda>scores.
     rbind (composite_score cs) (\<lambda>total. Inr (sort_key fst scores, total)))"

definition update_scorers ::
  "(scorer \<Rightarrow> scorer result) \<Rightarrow> composite_scorer \<Rightarrow> composite_scorer result" where
  "update_scorers f cs =
     rbind (rmap (\<lambda>(sc, weight). rbind (f sc) (\<lambda>sc'. Inr (sc', weight))) (cs_scorers cs)) (\<lambda>scs.
     Inr (cs\<lparr>cs_scorers := scs\<rparr>))"

definition composite_update_schedule ::
  "(string \<Rightarrow> string \<Rightarrow> bool) \<Rightarrow> heap \<Rightarrow> schedule \<Rightarrow> composite_scorer \<Rightarrow> composite_scorer result" where
  "composite_update_schedule re_match h sch cs =
     rbind (update_scorers (scorer_reload re_match h sch) cs) (\<lambda>cs1.
     Inr (cs1\<lparr>cs_total_weight := compute_total_weight (cs_scorers cs1)\<rparr>))"

definition composite_update_schedule_section ::
  "(string \<Rightarrow> string \<Rightarrow> bool) \<Rightarrow> heap \<Rightarrow> composite_scorer \<Rightarrow> secref \<Rightarrow> rsref \<Rightarrow> composite_scorer result" where
  "composite_update_schedule_section re_match h cs s r =
     update_scorers (\<lambda>sc. scorer_schedule_section re_match h sc s r) cs"

definition composite_update_move_section ::
  "(string \<Rightarrow> string \<Rightarrow> bool) \<Rightarrow> heap \<Rightarrow> composite_scorer \<Rightarrow> secref \<Rightarrow> rsref \<Rightarrow> composite_scorer result" where
  "composite_update_move_section re_match h cs s r =
     update_scorers (\<lambda>sc. scorer_move_section re_match h sc s r) cs"

definition composite_update_unschedule_section ::
  "(string \<Rightarrow> string \<Rightarrow> bool) \<Rightarrow> heap \<Rightarrow> composite_scorer \<Rightarrow> secref \<Rightarrow> composite_scorer result" where
  "composite_update_unschedule_section re_match h cs s =
     update_scorers (\<lambda>sc. scorer_unschedule_section re_match h sc s) cs"

definition composite_update_swap_sections ::
  "(string \<Rightarrow> string \<Rightarrow> bool) \<Rightarrow> heap \<Rightarrow> composite_scorer \<Rightarrow> secref \<Rightarrow> secref \<Rightarrow> composite_scorer result" where
  "composite_update_swap_sections re_match h cs s1 s2 =
     update_scorers (\<lambda>sc. scorer_swap_sections re_match h sc s1 s2) cs"

subsection \<open>Each class keeps the promise\<close>

abbreviation scorer_step ::
  "(string \<Rightarrow> string \<Rightarrow> bool) \<Rightarrow> heap \<Rightarrow> scorer \<Rightarrow> manip \<Rightarrow> scorer result" where
  "scorer_step re_match \<equiv> scorer_update (scorer_schedule_section re_match) (scorer_move_section re_match)
     (scorer_unschedule_section re_match) (scorer_swap_sections re_match)"

lemma default_move_wrap:
  assumes "\<And>st s. uu' h (K st) s = wrap K (uu h st s)" and "\<And>st s r. us' h (K st) s r = wrap K (us h st s r)"
  shows "default_move uu' us' h (K st) s r = wrap K (default_move uu us h st s r)"
  by (auto simp: default_move_def assms wrap_def rbind_def split: sum.splits)

lemma default_swap_wrap:
  assumes "\<And>st s r. um' h (K st) s r = wrap K (um h st s r)"
  shows "default_swap um' h (K st) s1 s2 = wrap K (default_swap um h st s1 s2)"
  by (auto simp: default_swap_def assms wrap_def rbind_def split: sum.splits)

lemma incremental_wrap:
  assumes "incremental_scorer fresh us um uu uw"
    and "\<And>st s r. us' h (K st) s r = wrap K (us h st s r)" and "\<And>st s r. um' h (K st) s r = wrap K (um h st s r)"
    and "\<And>st s. uu' h (K st) s = wrap K (uu h st s)" and "\<And>st s1 s2. uw' h (K st) s1 s2 = wrap K (uw h st s1 s2)"
    and "manip_step sch h m h'" and "wrap K (fresh h sch) = Inr sc"
  shows "\<exists>sc'. scorer_update us' um' uu' uw' h sc m = Inr sc' \<and> wrap K (fresh h' sch) = Inr sc'"
proof -
  from assms(7) obtain st where st: "fresh h sch = Inr st" "sc = K st" by (auto simp: check_iff)
  have "scorer_update us' um' uu' uw' h (K st) m = wrap K (scorer_update us um uu uw h st m)"
    by (cases m) (simp_all add: assms(2-5))
  with incremental_scorer.step_fresh [OF assms(1,6) st(1)] incremental_scorer.step_total [OF assms(1,6) st(1)] st(2)
  show ?thesis by auto
qed

lemma default_scorer_wrap:
  assumes "\<And>st. scorer_move_section re_match h (K st) = default_scorer_move re_match h (K st)"
    and "\<And>st s. scorer_unschedule_section re_match h (K st) s = wrap K (uu h st s)"
    and "\<And>st s r. scorer_schedule_section re_match h (K st) s r = wrap K (us h st s r)"
  shows "scorer_move_section re_match h (K st) s r = wrap K (default_move uu us h st s r)"
    and "default_swap (scorer_move_section re_match) h (K st) s1 s2 =
         wrap K (default_swap (default_move uu us) h st s1 s2)"
proof -
  show move: "scorer_move_section re_match h (K st) s r = wrap K (default_move uu us h st s r)" for st s r
    unfolding assms(1) default_scorer_move_def
    by (rule default_move_wrap [where K = K and st = st]) (simp_all add: assms(2,3))
  show "default_swap (scorer_move_section re_match) h (K st) s1 s2 =
      wrap K (default_swap (default_move uu us) h st s1 s2)"
    by (rule default_swap_wrap [where K = K and st = st]) (simp add: move)
qed

lemma default_step:
  assumes "incremental_scorer fresh us (default_move uu us) uu (default_swap (default_move uu us))"
    and "\<And>st. scorer_move_section re_match h (K st) = default_scorer_move re_match h (K st)"
    and "\<And>st. scorer_swap_sections re_match h (K st) = default_swap (scorer_move_section re_match) h (K st)"
    and "\<And>st s. scorer_unschedule_section re_match h (K st) s = wrap K (uu h st s)"
    and "\<And>st s r. scorer_schedule_section re_match h (K st) s r = wrap K (us h st s r)"
    and "manip_step sch h m h'" and "wrap K (fresh h sch) = Inr sc"
  shows "\<exists>sc'. scorer_step re_match h sc m = Inr sc' \<and> wrap K (fresh h' sch) = Inr sc'"
  using assms(4,5)
  by (intro incremental_wrap [where K = K, OF assms(1) _ _ _ _ assms(6,7)])
    (simp_all add: assms(3) default_scorer_wrap [where K = K and uu = uu and us = us, OF assms(2)])

lemma new_scorer_step:
  assumes "cls \<noteq> TeachersWhoLikeRunningScorer" and "manip_step sch h m h'"
    and "new_scorer re_match criteria cls h sch = Inr sc"
  shows "\<exists>sc'. scorer_step re_match h sc m = Inr sc' \<and> new_scorer re_match criteria cls h' sch = Inr sc'"
  using assms(3)
proof (cases cls)
  case AdminDistributionScorer
  show ?thesis
    unfolding AdminDistributionScorer new_scorer.simps
    by (rule default_step [OF admin_scorer.incremental_scorer_axioms _ _ _ _ assms(2)])
      (use assms(3) AdminDistributionScorer in \<open>simp_all add: fun_eq_iff\<close>)
next
  case CategoryBalanceScorer
  show ?thesis
    unfolding CategoryBalanceScorer new_scorer.simps
    by (rule default_step [OF category_scorer.incremental_scorer_axioms _ _ _ _ assms(2)])
      (use assms(3) CategoryBalanceScorer in \<open>simp_all add: fun_eq_iff\<close>)
next
  case LunchStudentClassHoursScorer
  show ?thesis
    unfolding LunchStudentClassHoursScorer new_scorer.simps
    by (rule default_step [OF lunch_hours_scorer.incremental_scorer_axioms _ _ _ _ assms(2)])
      (use assms(3) LunchStudentClassHoursScorer in \<open>simp_all add: fun_eq_iff\<close>)
next
  case HungryTeacherScorer
  show ?thesis
    unfolding HungryTeacherScorer new_scorer.simps
    by (rule default_step [OF hungry_scorer.incremental_scorer_axioms _ _ _ _ assms(2)])
      (use assms(3) HungryTeacherScorer in \<open>simp_all add: fun_eq_iff\<close>)
next
  case NumSectionsScorer
  show ?thesis
    unfolding NumSectionsScorer new_scorer.simps
    by (rule incremental_wrap [OF sections_scorer.incremental_scorer_axioms _ _ _ _ assms(2)])
      (use assms(3) NumSectionsScorer in simp_all)
next
  case NumSubjectsScorer
  show ?thesis
    unfolding NumSubjectsScorer new_scorer.simps
    by (rule incremental_wrap [OF subjects_scorer.incremental_scorer_axioms _ _ _ _ assms(2)])
      (use assms(3) NumSubjectsScorer in simp_all)
next
  case NumTeachersScorer
  show ?thesis
    unfolding NumTeachersScorer new_scorer.simps
    by (rule incremental_wrap [OF teachers_scorer.incremental_scorer_axioms _ _ _ _ assms(2)])
      (use assms(3) NumTeachersScorer in simp_all)
next
  case ResourceCriteriaScorer
  show ?thesis
    unfolding ResourceCriteriaScorer new_scorer.simps
    by (rule default_step [OF criteria_scorer.incremental_scorer_axioms _ _ _ _ assms(2)])
      (use assms(3) ResourceCriteriaScorer in \<open>simp_all add: fun_eq_iff\<close>)
next
  case ResourceMatchingScorer
  show ?thesis
    unfolding ResourceMatchingScorer new_scorer.simps
    by (rule default_step [OF matching_scorer.incremental_scorer_axioms _ _ _ _ assms(2)])
      (use assms(3) ResourceMatchingScorer in \<open>simp_all add: fun_eq_iff\<close>)
next
  case ResourceValueMatchingScorer
  show ?thesis
    unfolding ResourceValueMatchingScorer new_scorer.simps
    by (rule default_step [OF value_matching_scorer.incremental_scorer_axioms _ _ _ _ assms(2)])
      (use assms(3) ResourceValueMatchingScorer in \<open>simp_all add: fun_eq_iff\<close>)
next
  case RoomConsecutivityScorer
  show ?thesis
    unfolding RoomConsecutivityScorer new_scorer.simps
    by (rule incremental_wrap [OF consecutivity_scorer.incremental_scorer_axioms _ _ _ _ assms(2)])
      (use assms(3) RoomConsecutivityScorer in simp_all)
next
  case RoomSizeMismatchScorer
  show ?thesis
    unfolding RoomSizeMismatchScorer new_scorer.simps
    by (rule default_step [OF size_scorer.incremental_scorer_axioms _ _ _ _ assms(2)])
      (use assms(3) RoomSizeMismatchScorer in \<open>simp_all add: fun_eq_iff\<close>)
next
  case StudentClassHoursScorer
  show ?thesis
    unfolding StudentClassHoursScorer new_scorer.simps
    by (rule default_step [OF hours_scorer.incremental_scorer_axioms _ _ _ _ assms(2)])
      (use assms(3) StudentClassHoursScorer in \<open>simp_all add: fun_eq_iff\<close>)
qed (use assms(1) in simp)

subsection \<open>The composite keeps the promise\<close>

lemma scaling_static:
  assumes "same_static h h'" and "new_scorer re_match criteria cls h sch = Inr sc"
    and "new_scorer re_match criteria cls h' sch = Inr sc'"
  shows "scaling sc' = scaling sc"
  using assms(2,3)
proof (cases cls)
  case AdminDistributionScorer
  with assms(2,3) show ?thesis
    by (auto simp: check_iff ad_update_schedule_def Let_def same_staticD [OF assms(1)])
next
  case HungryTeacherScorer
  with assms(2,3) show ?thesis
    by (auto simp: check_iff hg_update_schedule_def Let_def same_staticD [OF assms(1)])
next
  case NumSubjectsScorer
  with assms(2,3) show ?thesis
    by (auto simp: check_iff nsub_update_schedule_def Let_def same_staticD [OF assms(1)])
next
  case NumTeachersScorer
  with assms(2,3) show ?thesis
    by (auto simp: check_iff ntea_update_schedule_def Let_def same_staticD [OF assms(1)])
next
  case ResourceCriteriaScorer
  with assms(2,3) show ?thesis
    by (auto simp: check_iff rc_init_def rc_update_schedule_def Let_def same_staticD [OF assms(1)] split: if_splits)
qed (auto simp: check_iff)

definition exact_names :: "(string, rat option) dict \<Rightarrow> bool" where
  "exact_names names_and_weights \<longleftrightarrow>
     (\<forall>(name, weight)\<in>set (active names_and_weights). name \<noteq> ''TeachersWhoLikeRunningScorer'')"

lemma find_class_name:
  "find_class name = Inr TeachersWhoLikeRunningScorer \<Longrightarrow> name = ''TeachersWhoLikeRunningScorer''"
  by (auto simp: find_class_def scorer_classes_def check_iff split: if_splits)

lemma load_scorers_step:
  assumes "\<forall>(name, weight)\<in>set nws. name \<noteq> ''TeachersWhoLikeRunningScorer''" and "manip_step sch h m h'"
    and "rmap (load_scorer re_match criteria h sch) nws = Inr scs"
  shows "\<exists>scs'. rmap (\<lambda>(sc, weight). rbind (scorer_step re_match h sc m) (\<lambda>sc'. Inr (sc', weight))) scs = Inr scs'
    \<and> rmap (load_scorer re_match criteria h' sch) nws = Inr scs'
    \<and> map (\<lambda>(sc, weight). scaling sc * weight) scs' = map (\<lambda>(sc, weight). scaling sc * weight) scs"
  using assms(1,3)
proof (induction nws arbitrary: scs)
  case (Cons nw nws)
  obtain name weight where nw: "nw = (name, weight)" by (cases nw)
  from Cons.prems(2) obtain cls sc rest where
    l: "weight \<ge> 0" "find_class name = Inr cls" "new_scorer re_match criteria cls h sch = Inr sc"
      "rmap (load_scorer re_match criteria h sch) nws = Inr rest" "scs = (sc, weight) # rest"
    by (auto simp: nw load_scorer_def check_iff)
  have "cls \<noteq> TeachersWhoLikeRunningScorer"
    using find_class_name [of name] l(2) Cons.prems(1) by (auto simp: nw)
  from new_scorer_step [OF this assms(2) l(3)] obtain sc' where
    sc': "scorer_step re_match h sc m = Inr sc'" "new_scorer re_match criteria cls h' sch = Inr sc'" by blast
  from Cons.IH [OF _ l(4)] Cons.prems(1) obtain rest' where rest':
    "rmap (\<lambda>(sc, weight). rbind (scorer_step re_match h sc m) (\<lambda>sc'. Inr (sc', weight))) rest = Inr rest'"
    "rmap (load_scorer re_match criteria h' sch) nws = Inr rest'"
    "map (\<lambda>(sc, weight). scaling sc * weight) rest' = map (\<lambda>(sc, weight). scaling sc * weight) rest" by auto
  have "load_scorer re_match criteria h' sch nw = Inr (sc', weight)"
    using l(1,2) sc'(2) by (simp add: nw load_scorer_def)
  with rest' sc'(1) scaling_static [OF step_settled(3) [OF assms(2)] l(3) sc'(2)] l(5) show ?case by simp
qed simp

abbreviation composite_step ::
  "(string \<Rightarrow> string \<Rightarrow> bool) \<Rightarrow> heap \<Rightarrow> composite_scorer \<Rightarrow> manip \<Rightarrow> composite_scorer result" where
  "composite_step re_match \<equiv> scorer_update (composite_update_schedule_section re_match)
     (composite_update_move_section re_match) (composite_update_unschedule_section re_match)
     (composite_update_swap_sections re_match)"

lemma composite_step_eq:
  "composite_step re_match h cs m = update_scorers (\<lambda>sc. scorer_step re_match h sc m) cs"
  by (cases m) (simp_all add: composite_update_schedule_section_def composite_update_move_section_def
      composite_update_unschedule_section_def composite_update_swap_sections_def)

lemma composite_incremental:
  assumes "exact_names nws"
  shows "incremental_scorer (CompositeScorer_init re_match nws criteria)
    (composite_update_schedule_section re_match) (composite_update_move_section re_match)
    (composite_update_unschedule_section re_match) (composite_update_swap_sections re_match)"
proof unfold_locales
  fix sch h m h' cs
  assume step: "manip_step sch h m h'" and "CompositeScorer_init re_match nws criteria h sch = Inr cs"
  then obtain scs where scs: "rmap (load_scorer re_match criteria h sch) (active nws) = Inr scs"
    and cs: "cs = \<lparr>cs_scorers = scs, cs_total_weight = compute_total_weight scs\<rparr>"
    by (auto simp: CompositeScorer_init_def check_iff)
  from load_scorers_step [OF _ step scs] assms obtain scs' where
    "rmap (\<lambda>(sc, weight). rbind (scorer_step re_match h sc m) (\<lambda>sc'. Inr (sc', weight))) scs = Inr scs'"
    "rmap (load_scorer re_match criteria h' sch) (active nws) = Inr scs'"
    "compute_total_weight scs' = compute_total_weight scs"
    by (auto simp: exact_names_def compute_total_weight_def)
  then show "composite_step re_match h cs m = CompositeScorer_init re_match nws criteria h' sch"
    "\<exists>cs'. CompositeScorer_init re_match nws criteria h' sch = Inr cs'"
    by (simp_all add: composite_step_eq update_scorers_def CompositeScorer_init_def cs)
qed

end
