(* ===== verification/Manipulator.thy ===== *)
theory Manipulator
  imports Composite_Scorer
begin

section \<open>ScheduleManipulator (autoscheduler/manipulator.py)\<close>

text \<open>
  The manipulator: a schedule, the constraints, the scorer and the history of actions with
  what undoing them needs. A history entry is a dictionary with optional keys; \<open>action\<close> has
  one field per key. Its operations return whether they succeeded, and the new state.

  \<open>managed\<close> is the invariant, whatever the scorers: the schedule is settled and every required
  constraint is among the constraints. \<open>tracked\<close> adds that the scorer is the one computed from
  scratch, for a choice of scorers without \<open>TeachersWhoLikeRunningScorer\<close>, whose updates drift.
  An accepted operation is a step (\<open>accepted_moved\<close>), a refused one changes nothing, and \<open>undo\<close>
  leads back (\<open>undo_moved\<close>; with the scorer: \<open>undo_performed\<close>). \<open>reachable\<close> and \<open>accepted_run\<close>
  are what accepted operations lead to. The last part is the JSON form of the history.
\<close>

record action =
  act_action :: string
  act_section :: "secref option"
  act_start :: "rsref option"
  act_prev :: "rsref option"
  act_sections :: "secref list option"
  act_original :: "rsref list option"

record manipulator =
  mp_heap :: heap
  mp_schedule :: schedule
  mp_constraints :: "constraint list"
  mp_scorer :: composite_scorer
  mp_history :: "action list"

definition ScheduleManipulator_init ::
  "(string \<Rightarrow> string \<Rightarrow> bool) \<Rightarrow> heap \<Rightarrow> schedule \<Rightarrow> constraint_names option \<Rightarrow> criterion list \<Rightarrow>
   (string, rat option) dict \<Rightarrow> (criterion \<times> rat) list \<Rightarrow> manipulator result" where
  "ScheduleManipulator_init re_match h sch names resource_criteria names_and_weights scorer_criteria =
     rbind (case names of Some ns \<Rightarrow> CompositeConstraint_init ns resource_criteria
            | None \<Rightarrow> Inr (sch_constraints sch)) (\<lambda>cs.
     rbind (CompositeScorer_init re_match names_and_weights scorer_criteria h sch) (\<lambda>sc.
     Inr \<lparr>mp_heap = h, mp_schedule = sch, mp_constraints = cs, mp_scorer = sc, mp_history = []\<rparr>))"

definition schedule_action :: "secref \<Rightarrow> rsref \<Rightarrow> action" where
  "schedule_action s r = \<lparr>act_action = ''schedule'', act_section = Some s, act_start = Some r, act_prev = None,
     act_sections = None, act_original = None\<rparr>"

definition move_action :: "secref \<Rightarrow> rsref \<Rightarrow> rsref \<Rightarrow> action" where
  "move_action s r p = \<lparr>act_action = ''move'', act_section = Some s, act_start = Some r, act_prev = Some p,
     act_sections = None, act_original = None\<rparr>"

definition unschedule_action :: "secref \<Rightarrow> rsref \<Rightarrow> action" where
  "unschedule_action s p = \<lparr>act_action = ''unschedule'', act_section = Some s, act_start = None,
     act_prev = Some p, act_sections = None, act_original = None\<rparr>"

definition swap_action :: "secref \<Rightarrow> secref \<Rightarrow> rsref \<Rightarrow> rsref \<Rightarrow> action" where
  "swap_action s1 s2 r1 r2 = \<lparr>act_action = ''swap'', act_section = None, act_start = None, act_prev = None,
     act_sections = Some [s1, s2], act_original = Some [r1, r2]\<rparr>"

subsection \<open>Operations\<close>

definition schedule_section ::
  "(string \<Rightarrow> string \<Rightarrow> bool) \<Rightarrow> manipulator \<Rightarrow> secref \<Rightarrow> rsref \<Rightarrow> bool \<Rightarrow> (bool \<times> manipulator) result" where
  "schedule_section re_match m s start_roomslot force =
     (let h = mp_heap m in
      if \<not> force \<and> is_scheduled h s then Inr (False, m)
      else rbind (if force then Inr None else
             composite_check_schedule_section re_match (mp_constraints m) h (mp_schedule m) s start_roomslot)
        (\<lambda>violation.
      if violation \<noteq> None then Inr (False, m)
      else let m1 = m\<lparr>mp_history := mp_history m @ [schedule_action s start_roomslot]\<rparr> in
        rbind (composite_update_schedule_section re_match h (mp_scorer m1) s start_roomslot) (\<lambda>sc.
        rbind (schedule_effect h s start_roomslot) (\<lambda>h'.
        Inr (True, m1\<lparr>mp_scorer := sc, mp_heap := h'\<rparr>)))))"

definition move_section ::
  "(string \<Rightarrow> string \<Rightarrow> bool) \<Rightarrow> manipulator \<Rightarrow> secref \<Rightarrow> rsref \<Rightarrow> bool \<Rightarrow> (bool \<times> manipulator) result" where
  "move_section re_match m s start_roomslot force =
     (let h = mp_heap m in
      if \<not> force \<and> \<not> is_scheduled h s then Inr (False, m)
      else rbind (if force then Inr None else
             composite_check_move_section re_match (mp_constraints m) h (mp_schedule m) s start_roomslot)
        (\<lambda>violation.
      if violation \<noteq> None then Inr (False, m)
      else rbind (py_first (roomslots_of h s)) (\<lambda>prev.
        let m1 = m\<lparr>mp_history := mp_history m @ [move_action s start_roomslot prev]\<rparr> in
        rbind (composite_update_move_section re_match h (mp_scorer m1) s start_roomslot) (\<lambda>sc.
        rbind (move_effect h s start_roomslot) (\<lambda>h'.
        Inr (True, m1\<lparr>mp_scorer := sc, mp_heap := h'\<rparr>))))))"

definition unschedule_section ::
  "(string \<Rightarrow> string \<Rightarrow> bool) \<Rightarrow> manipulator \<Rightarrow> secref \<Rightarrow> bool \<Rightarrow> (bool \<times> manipulator) result" where
  "unschedule_section re_match m s force =
     (let h = mp_heap m in
      if \<not> force \<and> \<not> is_scheduled h s then Inr (False, m)
      else rbind (if force then Inr None else
             composite_check_unschedule_section (mp_constraints m) h (mp_schedule m) s)
        (\<lambda>violation.
      if violation \<noteq> None then Inr (False, m)
      else rbind (py_first (roomslots_of h s)) (\<lambda>prev.
        let m1 = m\<lparr>mp_history := mp_history m @ [unschedule_action s prev]\<rparr> in
        rbind (composite_update_unschedule_section re_match h (mp_scorer m1) s) (\<lambda>sc.
        Inr (True, m1\<lparr>mp_scorer := sc, mp_heap := unschedule_effect h s\<rparr>)))))"

definition swap_sections ::
  "(string \<Rightarrow> string \<Rightarrow> bool) \<Rightarrow> manipulator \<Rightarrow> secref \<Rightarrow> secref \<Rightarrow> bool \<Rightarrow> (bool \<times> manipulator) result" where
  "swap_sections re_match m section1 section2 force =
     (let h = mp_heap m in
      if \<not> force \<and> \<not> (is_scheduled h section1 \<and> is_scheduled h section2) then Inr (False, m)
      else if \<not> force \<and> sec_duration (hp_sec h section1) \<noteq> sec_duration (hp_sec h section2) then Inr (False, m)
      else rbind (if force then Inr None else
             composite_check_swap_sections (mp_constraints m) h (mp_schedule m) section1 section2)
        (\<lambda>violation.
      if violation \<noteq> None then Inr (False, m)
      else rbind (py_first (roomslots_of h section1)) (\<lambda>r1.
        rbind (py_first (roomslots_of h section2)) (\<lambda>r2.
        let m1 = m\<lparr>mp_history := mp_history m @ [swap_action section1 section2 r1 r2]\<rparr> in
        rbind (composite_update_swap_sections re_match h (mp_scorer m1) section1 section2) (\<lambda>sc.
        rbind (swap_effect h section1 section2) (\<lambda>h'.
        Inr (True, m1\<lparr>mp_scorer := sc, mp_heap := h'\<rparr>)))))))"

text \<open>\<open>d[key]\<close> for a key that may be missing.\<close>

definition key :: "'a option \<Rightarrow> 'a result" where
  "key x = (case x of None \<Rightarrow> Inl KeyError | Some y \<Rightarrow> Inr y)"

lemma key_simps [simp]: "key (Some x) = Inr x" "key None = Inl KeyError"
  by (simp_all add: key_def)

text \<open>\<open>swap_sections(*sections, force=True)\<close>: exactly two positional arguments, since a third would be \<open>force\<close> again.\<close>

definition undo :: "(string \<Rightarrow> string \<Rightarrow> bool) \<Rightarrow> manipulator \<Rightarrow> (bool \<times> manipulator) result" where
  "undo re_match m =
     (if length (mp_history m) = 0 then Inr (False, m)
      else let last_action = last (mp_history m); m1 = m\<lparr>mp_history := butlast (mp_history m)\<rparr> in
        rbind (if act_action last_action = ''schedule'' then
                 rbind (key (act_section last_action)) (\<lambda>s. unschedule_section re_match m1 s True)
               else if act_action last_action = ''move'' then
                 rbind (key (act_section last_action)) (\<lambda>s.
                 rbind (key (act_prev last_action)) (\<lambda>prev. move_section re_match m1 s prev True))
               else if act_action last_action = ''unschedule'' then
                 rbind (key (act_section last_action)) (\<lambda>s.
                 rbind (key (act_prev last_action)) (\<lambda>prev. schedule_section re_match m1 s prev True))
               else if act_action last_action = ''swap'' then
                 rbind (key (act_sections last_action)) (\<lambda>ss.
                 case ss of [s1, s2] \<Rightarrow> swap_sections re_match m1 s1 s2 True | _ \<Rightarrow> Inl TypeError)
               else Inl (AssertionError ''Undo history had invalid action'')) (\<lambda>(success, m2).
        rbind (raise_if (\<not> success) (AssertionError ''Undo failed'')) (\<lambda>_.
        Inr (True, m2\<lparr>mp_history := butlast (mp_history m2)\<rparr>))))"

text \<open>An unknown action falls through and returns None, which is false. A third section
  would be the positional argument \<open>force\<close>, and a section object is true.\<close>

definition perform_action ::
  "(string \<Rightarrow> string \<Rightarrow> bool) \<Rightarrow> manipulator \<Rightarrow> action \<Rightarrow> (bool \<times> manipulator) result" where
  "perform_action re_match m action =
     (if act_action action = ''schedule'' then
        rbind (key (act_section action)) (\<lambda>s.
        rbind (key (act_start action)) (\<lambda>r. schedule_section re_match m s r False))
      else if act_action action = ''move'' then
        rbind (key (act_section action)) (\<lambda>s.
        rbind (key (act_start action)) (\<lambda>r. move_section re_match m s r False))
      else if act_action action = ''unschedule'' then
        rbind (key (act_section action)) (\<lambda>s. unschedule_section re_match m s False)
      else if act_action action = ''swap'' then
        rbind (key (act_sections action)) (\<lambda>ss.
        case ss of [s1, s2] \<Rightarrow> swap_sections re_match m s1 s2 False
          | [s1, s2, s3] \<Rightarrow> swap_sections re_match m s1 s2 True
          | _ \<Rightarrow> Inl TypeError)
      else Inr (False, m))"

subsection \<open>The history as JSON\<close>

type_synonym json_roomslot = "(int list \<times> int list) \<times> string"

record json_action =
  js_action :: string
  js_section :: "int option"
  js_start :: "json_roomslot option"
  js_prev :: "json_roomslot option"
  js_sections :: "int list option"
  js_original :: "json_roomslot list option"

definition jsonify_roomslot :: "heap \<Rightarrow> rsref \<Rightarrow> json_roomslot" where
  "jsonify_roomslot h r =
     ((datetimedump (fst (rs_key h r)), datetimedump (snd (rs_key h r))),
      room_name (hp_room h (rs_room (hp_rs h r))))"

text \<open>The key \<open>original_roomslots\<close> is read whenever \<open>sections\<close> is there.\<close>

definition jsonify_action :: "heap \<Rightarrow> action \<Rightarrow> json_action result" where
  "jsonify_action h action =
     rbind (if act_sections action = None then Inr None
            else rbind (key (act_original action)) (\<lambda>rs. Inr (Some (map (jsonify_roomslot h) rs)))) (\<lambda>original.
     Inr \<lparr>js_action = act_action action,
          js_section = map_option (\<lambda>s. sec_id (hp_sec h s)) (act_section action),
          js_start = map_option (jsonify_roomslot h) (act_start action),
          js_prev = map_option (jsonify_roomslot h) (act_prev action),
          js_sections = map_option (map (\<lambda>s. sec_id (hp_sec h s))) (act_sections action),
          js_original = original\<rparr>)"

definition dejsonify_roomslot :: "heap \<Rightarrow> schedule \<Rightarrow> json_roomslot \<Rightarrow> rsref result" where
  "dejsonify_roomslot h sch = (\<lambda>((start, end), name).
     rbind (datetimeloads start) (\<lambda>t1.
     rbind (datetimeloads end) (\<lambda>t2.
     rbind (dict_get (sch_classrooms sch) name) (\<lambda>room.
     dict_get (room_avail_dict (hp_room h room)) (t1, t2)))))"

fun roption :: "('a \<Rightarrow> 'b result) \<Rightarrow> 'a option \<Rightarrow> 'b option result" where
  "roption f None = Inr None"
| "roption f (Some x) = rbind (f x) (\<lambda>y. Inr (Some y))"

definition dejsonify_action :: "heap \<Rightarrow> schedule \<Rightarrow> json_action \<Rightarrow> action result" where
  "dejsonify_action h sch d =
     rbind (roption (dict_get (sch_sections sch)) (js_section d)) (\<lambda>s.
     rbind (roption (dejsonify_roomslot h sch) (js_start d)) (\<lambda>start.
     rbind (roption (dejsonify_roomslot h sch) (js_prev d)) (\<lambda>prev.
     rbind (roption (rmap (dict_get (sch_sections sch))) (js_sections d)) (\<lambda>ss.
     rbind (roption (rmap (dejsonify_roomslot h sch)) (js_original d)) (\<lambda>original.
     Inr \<lparr>act_action = js_action d, act_section = s, act_start = start, act_prev = prev,
          act_sections = ss, act_original = original\<rparr>)))))"

definition jsonify_history :: "manipulator \<Rightarrow> json_action list result" where
  "jsonify_history m = rmap (jsonify_action (mp_heap m)) (mp_history m)"

fun perform_all ::
  "(string \<Rightarrow> string \<Rightarrow> bool) \<Rightarrow> manipulator \<Rightarrow> action list \<Rightarrow> (bool \<times> manipulator) result" where
  "perform_all re_match m [] = Inr (True, m)"
| "perform_all re_match m (a # as) =
     rbind (perform_action re_match m a) (\<lambda>(success, m1).
     if \<not> success then Inr (False, m1) else perform_all re_match m1 as)"

definition load_history ::
  "(string \<Rightarrow> string \<Rightarrow> bool) \<Rightarrow> manipulator \<Rightarrow> json_action list \<Rightarrow> (bool \<times> manipulator) result" where
  "load_history re_match m jsonified_dicts =
     rbind (rmap (dejsonify_action (mp_heap m) (mp_schedule m)) jsonified_dicts) (\<lambda>actions.
     perform_all re_match m actions)"

subsection \<open>Operations as steps\<close>

fun operation ::
  "(string \<Rightarrow> string \<Rightarrow> bool) \<Rightarrow> manipulator \<Rightarrow> manip \<Rightarrow> bool \<Rightarrow> (bool \<times> manipulator) result" where
  "operation re_match m (Schedule s r) force = schedule_section re_match m s r force"
| "operation re_match m (Move s r) force = move_section re_match m s r force"
| "operation re_match m (Unschedule s) force = unschedule_section re_match m s force"
| "operation re_match m (Swap s1 s2) force = swap_sections re_match m s1 s2 force"

fun entry :: "heap \<Rightarrow> manip \<Rightarrow> action" where
  "entry h (Schedule s r) = schedule_action s r"
| "entry h (Move s r) = move_action s r (first_roomslot h s)"
| "entry h (Unschedule s) = unschedule_action s (first_roomslot h s)"
| "entry h (Swap s1 s2) = swap_action s1 s2 (first_roomslot h s1) (first_roomslot h s2)"

fun in_range :: "heap \<Rightarrow> 'c as_schedule \<Rightarrow> manip \<Rightarrow> bool" where
  "in_range h sch (Schedule s r) \<longleftrightarrow> s \<in> sections_of sch \<and> r \<in> all_roomslots h sch"
| "in_range h sch (Move s r) \<longleftrightarrow> s \<in> sections_of sch \<and> r \<in> all_roomslots h sch"
| "in_range h sch (Unschedule s) \<longleftrightarrow> s \<in> sections_of sch"
| "in_range h sch (Swap s1 s2) \<longleftrightarrow> s1 \<in> sections_of sch \<and> s2 \<in> sections_of sch"

fun checked :: "(string \<Rightarrow> string \<Rightarrow> bool) \<Rightarrow> manipulator \<Rightarrow> manip \<Rightarrow> check_result" where
  "checked re_match m (Schedule s r) =
     composite_check_schedule_section re_match (mp_constraints m) (mp_heap m) (mp_schedule m) s r"
| "checked re_match m (Move s r) =
     composite_check_move_section re_match (mp_constraints m) (mp_heap m) (mp_schedule m) s r"
| "checked re_match m (Unschedule s) =
     composite_check_unschedule_section (mp_constraints m) (mp_heap m) (mp_schedule m) s"
| "checked re_match m (Swap s1 s2) =
     composite_check_swap_sections (mp_constraints m) (mp_heap m) (mp_schedule m) s1 s2"

fun guard :: "heap \<Rightarrow> manip \<Rightarrow> bool" where
  "guard h (Schedule s r) \<longleftrightarrow> \<not> is_scheduled h s"
| "guard h (Move s r) \<longleftrightarrow> is_scheduled h s"
| "guard h (Unschedule s) \<longleftrightarrow> is_scheduled h s"
| "guard h (Swap s1 s2) \<longleftrightarrow> is_scheduled h s1 \<and> is_scheduled h s2 \<and>
     sec_duration (hp_sec h s1) = sec_duration (hp_sec h s2)"

lemma operation_unfold:
  "operation re_match m mm False =
     (if guard (mp_heap m) mm then
        (case checked re_match m mm of
           Inl e \<Rightarrow> Inl e
         | Inr (Some v) \<Rightarrow> Inr (False, m)
         | Inr None \<Rightarrow> operation re_match m mm True)
      else Inr (False, m))"
  by (cases mm) (auto simp: schedule_section_def move_section_def unschedule_section_def swap_sections_def
      Let_def split: sum.split option.split)

definition managed :: "manipulator \<Rightarrow> bool" where
  "managed m \<longleftrightarrow> settled (mp_heap m) (mp_schedule m) \<and> (\<forall>c. required c \<longrightarrow> c \<in> set (mp_constraints m))"

definition tracked ::
  "(string \<Rightarrow> string \<Rightarrow> bool) \<Rightarrow> (string, rat option) dict \<Rightarrow> (criterion \<times> rat) list \<Rightarrow> manipulator \<Rightarrow> bool" where
  "tracked re_match nws criteria m \<longleftrightarrow>
     settled (mp_heap m) (mp_schedule m) \<and> (\<forall>c. required c \<longrightarrow> c \<in> set (mp_constraints m)) \<and>
     exact_names nws \<and> CompositeScorer_init re_match nws criteria (mp_heap m) (mp_schedule m) = Inr (mp_scorer m)"

lemma tracked_managed: "tracked re_match nws criteria m \<Longrightarrow> managed m"
  by (simp add: tracked_def managed_def)

text \<open>\<open>moved\<close>: the store takes a step, the history grows by its entry, the scorer may be any; \<open>performed\<close>:
  the scorer is the updated one.\<close>

definition moved :: "manipulator \<Rightarrow> manip \<Rightarrow> manipulator \<Rightarrow> bool" where
  "moved m mm m' \<longleftrightarrow>
     manip_step (mp_schedule m) (mp_heap m) mm (mp_heap m') \<and>
     m' = m\<lparr>mp_heap := mp_heap m', mp_scorer := mp_scorer m',
            mp_history := mp_history m @ [entry (mp_heap m) mm]\<rparr>"

definition performed ::
  "(string \<Rightarrow> string \<Rightarrow> bool) \<Rightarrow> manipulator \<Rightarrow> manip \<Rightarrow> manipulator \<Rightarrow> bool" where
  "performed re_match m mm m' \<longleftrightarrow>
     manip_step (mp_schedule m) (mp_heap m) mm (mp_heap m') \<and>
     composite_step re_match (mp_heap m) (mp_scorer m) mm = Inr (mp_scorer m') \<and>
     m' = m\<lparr>mp_heap := mp_heap m', mp_scorer := mp_scorer m',
            mp_history := mp_history m @ [entry (mp_heap m) mm]\<rparr>"

lemma performed_iff:
  "performed re_match m mm m' \<longleftrightarrow>
     moved m mm m' \<and> composite_step re_match (mp_heap m) (mp_scorer m) mm = Inr (mp_scorer m')"
  by (auto simp: performed_def moved_def)

lemma moved_sel:
  assumes "moved m mm m'"
  shows "mp_schedule m' = mp_schedule m" "mp_constraints m' = mp_constraints m"
    "mp_history m' = mp_history m @ [entry (mp_heap m) mm]"
  using assms unfolding moved_def by (metis manipulator.select_convs manipulator.surjective manipulator.update_convs)+

lemma moved_step: "moved m mm m' \<Longrightarrow> manip_step (mp_schedule m) (mp_heap m) mm (mp_heap m')"
  by (simp add: moved_def)

lemma performed_moved: "performed re_match m mm m' \<Longrightarrow> moved m mm m'"
  by (simp add: performed_iff)

lemmas performed_sel = moved_sel [OF performed_moved]
lemmas performed_step = moved_step [OF performed_moved]

lemma moved_managed: "managed m \<Longrightarrow> moved m mm m' \<Longrightarrow> managed m'"
  using moved_sel [of m mm m'] step_settled(2) [OF moved_step, of m mm m'] by (simp add: managed_def)

lemma tracked_step:
  assumes "tracked re_match nws criteria m" and "manip_step (mp_schedule m) (mp_heap m) mm h'"
  shows "\<exists>sc'. composite_step re_match (mp_heap m) (mp_scorer m) mm = Inr sc' \<and>
    CompositeScorer_init re_match nws criteria h' (mp_schedule m) = Inr sc'"
proof -
  from assms(1) have inc: "incremental_scorer (CompositeScorer_init re_match nws criteria)
      (composite_update_schedule_section re_match) (composite_update_move_section re_match)
      (composite_update_unschedule_section re_match) (composite_update_swap_sections re_match)"
    and fresh: "CompositeScorer_init re_match nws criteria (mp_heap m) (mp_schedule m) = Inr (mp_scorer m)"
    by (simp_all add: tracked_def composite_incremental)
  from incremental_scorer.step_fresh [OF inc assms(2) fresh] incremental_scorer.step_total [OF inc assms(2) fresh]
  show ?thesis by auto
qed

lemma performed_tracked:
  assumes "tracked re_match nws criteria m" and "performed re_match m mm m'"
  shows "tracked re_match nws criteria m'"
proof -
  from assms(2) have step: "manip_step (mp_schedule m) (mp_heap m) mm (mp_heap m')"
    and sc: "composite_step re_match (mp_heap m) (mp_scorer m) mm = Inr (mp_scorer m')"
    by (simp_all add: performed_def)
  from tracked_step [OF assms(1) step] sc assms(1) step_settled(2) [OF step] performed_sel [OF assms(2)]
  show ?thesis by (simp add: tracked_def)
qed

lemma py_first_roomslot: "is_scheduled h s \<Longrightarrow> py_first (roomslots_of h s) = Inr (first_roomslot h s)"
  by (simp add: py_first_hd first_roomslot_def)

text \<open>On a step, a forced operation does to the store and the history what the step says and
  updates the scorer, which may raise.\<close>

lemma forced_operation:
  assumes "manip_step (mp_schedule m) (mp_heap m) mm h'"
  shows "operation re_match m mm True =
    rbind (composite_step re_match (mp_heap m) (mp_scorer m) mm) (\<lambda>sc.
      Inr (True, m\<lparr>mp_heap := h', mp_scorer := sc, mp_history := mp_history m @ [entry (mp_heap m) mm]\<rparr>))"
proof (cases mm)
  case (Schedule s r)
  with assms show ?thesis by (auto elim!: scheduleE simp: schedule_section_def Let_def rbind_def split: sum.split)
next
  case (Move s r)
  with assms show ?thesis by (auto elim!: moveE simp: move_section_def Let_def py_first_roomslot rbind_def split: sum.split)
next
  case (Unschedule s)
  with assms show ?thesis by (auto elim!: unscheduleE simp: unschedule_section_def Let_def py_first_roomslot rbind_def split: sum.split)
next
  case (Swap s1 s2)
  with assms show ?thesis by (auto elim!: swapE simp: swap_sections_def Let_def py_first_roomslot rbind_def split: sum.split)
qed

lemma forced_performed:
  assumes "manip_step (mp_schedule m) (mp_heap m) mm h'" and "operation re_match m mm True = Inr (b, m')"
  shows "performed re_match m mm m' \<and> mp_heap m' = h'"
  using assms by (auto simp: forced_operation [OF assms(1)] performed_def check_iff)

lemma force_step:
  assumes "tracked re_match nws criteria m" and "manip_step (mp_schedule m) (mp_heap m) mm h'"
  obtains m' where "operation re_match m mm True = Inr (True, m')" "performed re_match m mm m'" "mp_heap m' = h'"
proof -
  from tracked_step [OF assms] obtain sc' where
    "composite_step re_match (mp_heap m) (mp_scorer m) mm = Inr sc'" by blast
  then obtain m' where m': "operation re_match m mm True = Inr (True, m')"
    by (auto simp: forced_operation [OF assms(2)])
  from that [OF m'] forced_performed [OF assms(2) m'] show thesis by blast
qed

text \<open>A section swapped with itself: clearing and assigning the same roomslots twice raises.\<close>

lemma occupy_error: "occupy h s rs = Inl e \<Longrightarrow> \<exists>msg. e = AssertionError msg"
  by (induction h s rs rule: occupy.induct) (auto split: if_splits)

lemma assign_roomslots_error: "assign_roomslots h s rs clear = Inl e \<Longrightarrow> \<exists>msg. e = AssertionError msg"
  by (auto simp: assign_roomslots_def Let_def split: if_splits dest: occupy_error)

lemma occupy_roomslots: "occupy h s rs = Inr h' \<Longrightarrow> sec_roomslots (hp_sec h' x) = sec_roomslots (hp_sec h x)"
  by (induction h s rs rule: occupy.induct) (auto simp: set_assigned_section_def split: if_splits)

lemma swap_effect_self:
  assumes "is_scheduled h s"
  shows "\<exists>msg. swap_effect h s s = Inl (AssertionError msg)"
proof -
  define rs where "rs = sec_roomslots (hp_sec h s)"
  define h2 where "h2 = clear_roomslots (clear_roomslots h s) s"
  have eq: "swap_effect h s s =
      rbind (assign_roomslots h2 s rs False) (\<lambda>h3. assign_roomslots h3 s rs False)"
    by (simp add: swap_effect_def rs_def h2_def)
  show ?thesis
  proof (cases "assign_roomslots h2 s rs False")
    case (Inl e)
    with assign_roomslots_error eq show ?thesis by fastforce
  next
    case (Inr h3)
    then have "occupy (set_roomslots h2 s (sort_key (rs_key h2) rs)) s (sort_key (rs_key h2) rs) = Inr h3"
      by (auto simp: assign_roomslots_def Let_def split: if_splits)
    from occupy_roomslots [OF this, of s] have "sec_roomslots (hp_sec h3 s) = sort_key (rs_key h2) rs"
      by (simp add: set_roomslots_def)
    moreover have "sort_key (rs_key h2) rs \<noteq> []"
      using assms by (metis is_scheduled_def length_greater_0_conv length_sort rs_def)
    ultimately show ?thesis using Inr eq by (simp add: assign_roomslots_def)
  qed
qed

lemma swap_self:
  assumes "is_scheduled (mp_heap m) s"
  shows "operation re_match m (Swap s s) force \<noteq> Inr (True, m')"
proof -
  from swap_effect_self [OF assms] obtain msg where "swap_effect (mp_heap m) s s = Inl (AssertionError msg)" ..
  then show ?thesis
    by (auto simp: swap_sections_def Let_def check_iff split: if_splits)
qed

text \<open>What an operation that is not forced does.\<close>

lemma operation_refused: "operation re_match m mm False = Inr (False, m') \<Longrightarrow> m' = m"
  by (cases mm) (auto simp: schedule_section_def move_section_def unschedule_section_def swap_sections_def
      Let_def check_iff split: if_splits)

lemma forced_true: "operation re_match m mm True = Inr (b, m') \<Longrightarrow> b"
  by (cases mm) (auto simp: schedule_section_def move_section_def unschedule_section_def swap_sections_def
      Let_def check_iff)

lemma operation_accepted:
  assumes "operation re_match m mm False = Inr (True, m')"
  shows "guard (mp_heap m) mm" and "checked re_match m mm = ok" and "operation re_match m mm True = Inr (True, m')"
  using assms by (auto simp: operation_unfold ok_def split: if_splits sum.splits option.splits)

lemma checked_step:
  assumes "managed m" and "in_range (mp_heap m) (mp_schedule m) mm"
    and "guard (mp_heap m) mm" and "checked re_match m mm = ok" and "\<And>s. mm \<noteq> Swap s s"
  shows "\<exists>h'. manip_step (mp_schedule m) (mp_heap m) mm h'"
proof -
  from assms(1) have st: "settled (mp_heap m) (mp_schedule m)"
    and req: "\<And>c. required c \<Longrightarrow> c \<in> set (mp_constraints m)" by (simp_all add: managed_def)
  show ?thesis
  proof (cases mm)
    case (Schedule s r)
    with assms(2,4) req schedule_step [OF st, of s r re_match] show ?thesis by (auto simp: composite_set)
  next
    case (Move s r)
    with assms(2,4) req move_step [OF st, of s r re_match] show ?thesis by (auto simp: composite_set)
  next
    case (Unschedule s)
    with assms(2,3) step_unschedule [OF st, of s] show ?thesis by auto
  next
    case (Swap s1 s2)
    with assms(2-) req swap_step [OF st, of s1 s2] show ?thesis by (auto simp: composite_set)
  qed
qed

lemma accepted_no_self:
  assumes "operation re_match m mm False = Inr (True, m')"
  shows "mm \<noteq> Swap s s"
proof
  assume mm: "mm = Swap s s"
  with operation_accepted(1) [OF assms] have "is_scheduled (mp_heap m) s" by simp
  from swap_self [OF this, of re_match False m'] assms mm show False by simp
qed

lemma operation_performed:
  assumes "managed m" and "in_range (mp_heap m) (mp_schedule m) mm"
    and "operation re_match m mm False = Inr (True, m')"
  shows "performed re_match m mm m'"
proof -
  note acc = operation_accepted [OF assms(3)]
  from checked_step [OF assms(1,2) acc(1,2) accepted_no_self [OF assms(3)]] obtain h' where
    "manip_step (mp_schedule m) (mp_heap m) mm h'" ..
  from forced_performed [OF this acc(3)] show ?thesis by simp
qed

lemmas accepted_moved = performed_moved [OF operation_performed]

text \<open>What an operation raises comes from the checks, from the scorer, or from swapping a section with itself.\<close>

lemma operation_error:
  assumes "managed m" and "in_range (mp_heap m) (mp_schedule m) mm"
    and "operation re_match m mm False = Inl e"
  shows "guard (mp_heap m) mm \<and> (checked re_match m mm = Inl e \<or> checked re_match m mm = ok \<and>
    (composite_step re_match (mp_heap m) (mp_scorer m) mm = Inl e \<or>
     (\<exists>s. mm = Swap s s) \<and> effect (mp_heap m) mm = Inl e))"
proof -
  have g: "guard (mp_heap m) mm" using assms(3) by (auto simp: operation_unfold split: if_splits)
  show ?thesis
  proof (cases "checked re_match m mm = ok")
    case True
    with g assms(3) have f: "operation re_match m mm True = Inl e" by (simp add: operation_unfold ok_def)
    show ?thesis
    proof (cases "\<exists>s. mm = Swap s s")
      case True
      then obtain s where mm: "mm = Swap s s" by blast
      with g have "py_first (roomslots_of (mp_heap m) s) = Inr (first_roomslot (mp_heap m) s)"
        by (simp add: py_first_roomslot)
      with f mm have "composite_step re_match (mp_heap m) (mp_scorer m) mm = Inl e \<or> effect (mp_heap m) mm = Inl e"
        by (auto simp: swap_sections_def Let_def rbind_def split: sum.splits)
      with g True \<open>checked re_match m mm = ok\<close> show ?thesis by blast
    next
      case False
      with checked_step [OF assms(1,2) g True] obtain h' where "manip_step (mp_schedule m) (mp_heap m) mm h'" by blast
      from f [unfolded forced_operation [OF this]] have
        "composite_step re_match (mp_heap m) (mp_scorer m) mm = Inl e" by (auto simp: rbind_def split: sum.splits)
      with g True show ?thesis by blast
    qed
  qed (use g assms(3) in \<open>auto simp: operation_unfold ok_def split: sum.splits option.splits\<close>)
qed

lemma operation_ok:
  assumes "tracked re_match nws criteria m" and "in_range (mp_heap m) (mp_schedule m) mm"
    and "guard (mp_heap m) mm" and "checked re_match m mm = ok" and "\<And>s. mm \<noteq> Swap s s"
  obtains m' where "operation re_match m mm False = Inr (True, m')" "performed re_match m mm m'"
proof -
  from checked_step [OF tracked_managed [OF assms(1)] assms(2-)] obtain h' where
    "manip_step (mp_schedule m) (mp_heap m) mm h'" ..
  from force_step [OF assms(1) this] obtain m' where
    "operation re_match m mm True = Inr (True, m')" "performed re_match m mm m'" by blast
  with assms(3,4) that show thesis by (auto simp: operation_unfold ok_def)
qed

text \<open>With tracked scorers an operation raises only when the check of an optional constraint raises.\<close>

lemma operation_total:
  assumes "tracked re_match nws criteria m" and "in_range (mp_heap m) (mp_schedule m) mm"
    and "operation re_match m mm False = Inl e" and "\<And>s. mm \<noteq> Swap s s"
  shows "checked re_match m mm = Inl e"
proof -
  note err = operation_error [OF tracked_managed [OF assms(1)] assms(2,3)]
  have "checked re_match m mm \<noteq> ok"
  proof
    assume c: "checked re_match m mm = ok"
    from operation_ok [OF assms(1,2) _ c assms(4)] err assms(3) show False by auto
  qed
  with err show ?thesis by blast
qed

subsection \<open>Undo\<close>

lemma undo_performed:
  assumes "tracked re_match nws criteria m" and "performed re_match m mm m'"
  shows "undo re_match m' = Inr (True, m)"
proof -
  define m1 where "m1 = m'\<lparr>mp_history := mp_history m\<rparr>"
  note sel = performed_sel [OF assms(2)]
  have t1: "tracked re_match nws criteria m1"
    using performed_tracked [OF assms] by (simp add: tracked_def m1_def)
  from assms(2) have step: "manip_step (mp_schedule m) (mp_heap m) mm (mp_heap m')" by (simp add: performed_def)
  then have "manip_step (mp_schedule m1) (mp_heap m1) (inverse (mp_heap m) mm) (mp_heap m)"
    using step_inverse sel(1) by (simp add: m1_def)
  from force_step [OF t1 this] obtain m2 where
    m2: "operation re_match m1 (inverse (mp_heap m) mm) True = Inr (True, m2)"
      "performed re_match m1 (inverse (mp_heap m) mm) m2" "mp_heap m2 = mp_heap m" by blast
  have "mp_scorer m2 = mp_scorer m"
    using performed_tracked [OF t1 m2(2)] assms(1) m2(3) performed_sel(1) [OF m2(2)] sel(1)
    by (simp add: tracked_def m1_def)
  then have "m2\<lparr>mp_history := butlast (mp_history m2)\<rparr> = m"
    using performed_sel [OF m2(2)] sel m2(3) by (simp add: m1_def)
  moreover have "m'\<lparr>mp_history := butlast (mp_history m')\<rparr> = m1" by (simp add: m1_def sel(3))
  ultimately show ?thesis
    using m2(1) sel(3)
    by (cases mm) (simp_all add: undo_def Let_def schedule_action_def move_action_def
        unschedule_action_def swap_action_def)
qed

text \<open>The same for the store, the schedule and the history when nothing is known of the scorer.\<close>

lemma undo_moved:
  assumes "moved m mm m'" and "undo re_match m' = Inr (b, m1)"
  shows "b \<and> m1 = m\<lparr>mp_scorer := mp_scorer m1\<rparr>"
proof -
  define m2 where "m2 = m'\<lparr>mp_history := mp_history m\<rparr>"
  note sel = moved_sel [OF assms(1)]
  have rev: "manip_step (mp_schedule m2) (mp_heap m2) (inverse (mp_heap m) mm) (mp_heap m)"
    using step_inverse [OF moved_step [OF assms(1)]] sel(1) by (simp add: m2_def)
  have "butlast (mp_history m') = mp_history m" "last (mp_history m') = entry (mp_heap m) mm" "mp_history m' \<noteq> []"
    using sel(3) by simp_all
  with assms(2) obtain success m3 where
    m3: "operation re_match m2 (inverse (mp_heap m) mm) True = Inr (success, m3)"
      "b" "m1 = m3\<lparr>mp_history := butlast (mp_history m3)\<rparr>"
    by (cases mm) (auto simp: undo_def Let_def m2_def check_iff raise_if_def schedule_action_def move_action_def
        unschedule_action_def swap_action_def split: if_splits)
  from forced_performed [OF rev m3(1)] have "moved m2 (inverse (mp_heap m) mm) m3" "mp_heap m3 = mp_heap m"
    using performed_moved by blast+
  with m3(2,3) moved_sel [of m2 _ m3] sel show ?thesis
    by (intro conjI manipulator.equality) (simp_all add: m2_def)
qed

text \<open>The states that accepted operations lead to. In \<open>accepted_run\<close> the scorer is updated by them; in
  \<open>reachable\<close> it may be changed in any way in between, as happens when its updates drift, and each operation
  is a step of the transition relation (for a managed start that follows, \<open>accepted_moved\<close>).\<close>

inductive accepted_run :: "(string \<Rightarrow> string \<Rightarrow> bool) \<Rightarrow> manipulator \<Rightarrow> manipulator \<Rightarrow> bool" for re_match m0 where
  run_start: "accepted_run re_match m0 m0"
| run_step: "accepted_run re_match m0 m \<Longrightarrow> in_range (mp_heap m) (mp_schedule m) mm \<Longrightarrow>
    operation re_match m mm False = Inr (True, m') \<Longrightarrow> accepted_run re_match m0 m'"

inductive reachable :: "(string \<Rightarrow> string \<Rightarrow> bool) \<Rightarrow> manipulator \<Rightarrow> manipulator \<Rightarrow> bool" for re_match m0 where
  reach_start: "reachable re_match m0 m0"
| reach_step: "reachable re_match m0 m \<Longrightarrow> moved m mm m' \<Longrightarrow> in_range (mp_heap m) (mp_schedule m) mm \<Longrightarrow>
    operation re_match m mm False = Inr (True, m') \<Longrightarrow> reachable re_match m0 m'"
| reach_scorer: "reachable re_match m0 m \<Longrightarrow> reachable re_match m0 (m\<lparr>mp_scorer := sc\<rparr>)"

lemma reachable_managed:
  assumes "reachable re_match m0 m" and "managed m0"
  shows "managed m"
  using assms
proof (induction rule: reachable.induct)
  case (reach_step m mm m')
  from moved_managed [OF reach_step.IH [OF reach_step.prems] reach_step.hyps(2)] show ?case .
qed (simp_all add: managed_def)

lemma reachable_accepted:
  assumes "reachable re_match m0 m" and "managed m0" and "in_range (mp_heap m) (mp_schedule m) mm"
    and "operation re_match m mm False = Inr (True, m')"
  shows "reachable re_match m0 m'"
  by (rule reach_step [OF assms(1) accepted_moved [OF reachable_managed [OF assms(1,2)] assms(3,4)] assms(3,4)])

lemma reachable_sel:
  "reachable re_match m0 m \<Longrightarrow> mp_schedule m = mp_schedule m0 \<and> mp_constraints m = mp_constraints m0 \<and>
     same_static (mp_heap m0) (mp_heap m)"
proof (induction rule: reachable.induct)
  case (reach_step m mm m')
  from step_settled(3) [OF moved_step [OF reach_step.hyps(2)]] reach_step.IH moved_sel [OF reach_step.hyps(2)]
    same_static_trans show ?case by auto
qed simp_all

lemma reachable_last:
  assumes "reachable re_match m0 m" and "mp_history m0 = []" and "mp_history m \<noteq> []"
  shows "\<exists>m1 mm. reachable re_match m0 m1 \<and> moved m1 mm m"
  using assms
proof (induction rule: reachable.induct)
  case (reach_scorer m sc)
  then obtain m1 mm where m1: "reachable re_match m0 m1" "moved m1 mm m" by auto
  from moved_sel [OF m1(2)] m1(2) have "moved m1 mm (m\<lparr>mp_scorer := sc\<rparr>)"
    unfolding moved_def by (metis manipulator.select_convs manipulator.surjective manipulator.update_convs)
  with m1(1) show ?case by blast
qed auto

lemma reachable_undo:
  assumes "reachable re_match m0 m" and "mp_history m0 = []" and "undo re_match m = Inr (b, m1)"
  shows "reachable re_match m0 m1"
proof (cases "mp_history m = []")
  case True
  with assms(1,3) show ?thesis by (auto simp: undo_def)
next
  case False
  from reachable_last [OF assms(1,2) this] obtain m2 mm where "reachable re_match m0 m2" "moved m2 mm m" by blast
  with undo_moved [OF this(2) assms(3)] reach_scorer [of re_match m0 m2 "mp_scorer m1"] show ?thesis by simp
qed

lemma run_tracked:
  assumes "accepted_run re_match m0 m" and "tracked re_match nws criteria m0"
  shows "tracked re_match nws criteria m"
  using assms by (induction rule: accepted_run.induct) (auto intro: performed_tracked operation_performed tracked_managed)

lemma run_performed:
  assumes "accepted_run re_match m0 m" and "tracked re_match nws criteria m0"
    and "in_range (mp_heap m) (mp_schedule m) mm" and "operation re_match m mm False = Inr (True, m')"
  shows "performed re_match m mm m'"
  by (rule operation_performed [OF tracked_managed [OF run_tracked [OF assms(1,2)]] assms(3,4)])

lemma accepted_reachable:
  assumes "accepted_run re_match m0 m" and "managed m0"
  shows "reachable re_match m0 m"
  using assms by (induction rule: accepted_run.induct) (auto intro: reach_start reachable_accepted)

lemma run_undo:
  assumes "accepted_run re_match m0 m" and "tracked re_match nws criteria m0" and "mp_history m0 = []"
    and "mp_history m \<noteq> []"
  shows "\<exists>m1. undo re_match m = Inr (True, m1) \<and> accepted_run re_match m0 m1 \<and>
    mp_history m1 = butlast (mp_history m)"
  using assms
proof (cases rule: accepted_run.cases)
  case (run_step m1 mm)
  note perf = run_performed [OF run_step(1) assms(2) run_step(2,3)]
  show ?thesis
    using undo_performed [OF run_tracked [OF run_step(1) assms(2)] perf] performed_sel(3) [OF perf] run_step(1) by auto
qed simp

subsection \<open>Replaying a history that went through JSON\<close>

definition whole_second :: "datetime \<Rightarrow> bool" where
  "whole_second d \<longleftrightarrow> valid_datetime d \<and> dt_microsecond d = 0"

definition whole_times :: "heap \<Rightarrow> 'c as_schedule \<Rightarrow> bool" where
  "whole_times h sch \<longleftrightarrow>
     (\<forall>t\<in>set (sch_timeslots sch). whole_second (ts_start (hp_ts h t)) \<and> whole_second (ts_end (hp_ts h t)))"

lemma unique_value:
  assumes "(k, v) \<in> set d" and "\<And>k' v'. (k', v') \<in> set d \<Longrightarrow> k' = k \<Longrightarrow> v' = v"
  shows "dict_get d k = Inr v"
proof -
  have "map_of d k \<noteq> None" using assms(1) by (metis map_of_eq_None_iff fst_conv image_eqI)
  then obtain v' where "map_of d k = Some v'" by blast
  then have "v' = v" using assms(2) map_of_SomeD by fast
  with \<open>map_of d k = Some v'\<close> show ?thesis by (simp add: dict_get_def)
qed

lemma get_section:
  assumes "settled h sch" and "s \<in> sections_of sch"
  shows "dict_get (sch_sections sch) (sec_id (hp_sec h s)) = Inr s"
proof -
  have d: "\<forall>(k, s)\<in>set (sch_sections sch). sec_id (hp_sec h s) = k"
    using settledD(2) [OF assms(1)] by (simp add: static_ok_def dicts_ok_def)
  have dist: "distinct (map fst (sch_sections sch))"
    using settledD(4) [OF assms(1)] by (simp add: linked_def)
  from value_in_pairs [OF assms(2)] d have "(sec_id (hp_sec h s), s) \<in> set (sch_sections sch)" by auto
  with dist show ?thesis by (simp add: dict_get_def)
qed

lemma dejsonify_roomslot_inverse:
  assumes "settled h sch" and "whole_times h sch" and "r \<in> all_roomslots h sch"
  shows "dejsonify_roomslot h sch (jsonify_roomslot h r) = Inr r"
proof -
  note st = settledD(2) [OF assms(1)]
  from assms(3) obtain room where room: "room \<in> rooms_of sch" "r \<in> set (room_availability (hp_room h room))"
    by (auto simp: all_roomslots_def)
  with st have eq: "rs_room (hp_rs h r) = room" by (auto simp: static_ok_def)
  have "registered h sch (rs_timeslot (hp_rs h r))" using st assms(3) by (simp add: static_ok_def)
  then have "rs_timeslot (hp_rs h r) \<in> set (sch_timeslots sch)" by (rule registered_mem)
  with assms(2) have w: "whole_second (fst (rs_key h r))" "whole_second (snd (rs_key h r))"
    by (auto simp: whole_times_def rs_key_def ts_key_def)
  have "dict_get (sch_classrooms sch) (room_name (hp_room h room)) = Inr room"
  proof -
    have d: "\<forall>(k, room)\<in>set (sch_classrooms sch). room_name (hp_room h room) = k"
      using st by (simp add: static_ok_def dicts_ok_def)
    have dist: "distinct (map fst (sch_classrooms sch))"
      using settledD(4) [OF assms(1)] by (simp add: linked_def)
    from value_in_pairs [OF room(1)] d have "(room_name (hp_room h room), room) \<in> set (sch_classrooms sch)" by auto
    with dist show ?thesis by (simp add: dict_get_def)
  qed
  moreover have "dict_get (room_avail_dict (hp_room h room)) (rs_key h r) = Inr r"
  proof (rule unique_value)
    have rd: "room_dict_ok h room" using st room(1) by (simp add: static_ok_def)
    have dk: "distinct (map (rs_key h) (room_availability (hp_room h room)))"
      using st room(1) by (intro sorted_distinct_keys) (simp add: static_ok_def)
    have "r \<in> set (dict_values (room_avail_dict (hp_room h room)))"
      using rd room(2) by (simp add: room_dict_ok_def)
    from value_in_pairs [OF this] rd show "(rs_key h r, r) \<in> set (room_avail_dict (hp_room h room))"
      by (auto simp: room_dict_ok_def)
    fix k r' assume "(k, r') \<in> set (room_avail_dict (hp_room h room))" "k = rs_key h r"
    with rd pair_in_values [of k r'] have "rs_key h r' = rs_key h r"
      "r' \<in> set (room_availability (hp_room h room))" by (auto simp: room_dict_ok_def)
    with dk room(2) show "r' = r" by (auto simp: distinct_map dest: inj_onD)
  qed
  moreover have "datetimeloads (datetimedump d) = Inr d" if "whole_second d" for d
    using that datetimeloads_dump [of d] by (simp add: whole_second_def)
  ultimately show ?thesis
    using w eq by (simp add: dejsonify_roomslot_def jsonify_roomslot_def)
qed

lemma entry_roomslots:
  assumes "manip_step sch h mm h'"
  shows "set_option (act_section (entry h mm)) \<union> \<Union> (set ` set_option (act_sections (entry h mm))) \<subseteq> sections_of sch"
    and "set_option (act_start (entry h mm)) \<union> set_option (act_prev (entry h mm)) \<union>
      \<Union> (set ` set_option (act_original (entry h mm))) \<subseteq> all_roomslots h sch"
  using assms section_hd(1) [OF step_settled(1) [OF assms]]
  by (cases; auto simp: schedule_action_def move_action_def unschedule_action_def swap_action_def
      first_roomslot_def)+

lemma jsonify_inverse:
  assumes "settled h sch" and "whole_times h sch"
    and "set_option (act_section a) \<union> \<Union> (set ` set_option (act_sections a)) \<subseteq> sections_of sch"
    and "set_option (act_start a) \<union> set_option (act_prev a) \<union> \<Union> (set ` set_option (act_original a))
      \<subseteq> all_roomslots h sch"
    and "act_sections a = None \<longleftrightarrow> act_original a = None"
  shows "\<exists>d. jsonify_action h a = Inr d \<and> dejsonify_action h sch d = Inr a"
proof -
  have sec: "roption (dict_get (sch_sections sch)) (map_option (\<lambda>s. sec_id (hp_sec h s)) x) = Inr x"
    if "set_option x \<subseteq> sections_of sch" for x
    using that get_section [OF assms(1)] by (cases x) auto
  have rs: "roption (dejsonify_roomslot h sch) (map_option (jsonify_roomslot h) x) = Inr x"
    if "set_option x \<subseteq> all_roomslots h sch" for x
    using that dejsonify_roomslot_inverse [OF assms(1,2)] by (cases x) auto
  have rmap_inverse: "rmap f (map g xs) = Inr xs" if "\<And>x. x \<in> set xs \<Longrightarrow> f (g x) = Inr x"
    for f :: "'x \<Rightarrow> 'y result" and g xs
    using that by (induction xs) auto
  show ?thesis
  proof (cases "act_sections a")
    case None
    with assms(3-5) sec [of "act_section a"] rs [of "act_start a"] rs [of "act_prev a"] show ?thesis
      by (simp add: jsonify_action_def dejsonify_action_def)
  next
    case (Some ss)
    with assms(5) obtain os where os: "act_original a = Some os" by auto
    have "rmap (dict_get (sch_sections sch)) (map (\<lambda>s. sec_id (hp_sec h s)) ss) = Inr ss"
      using assms(3) Some get_section [OF assms(1)] by (intro rmap_inverse) auto
    moreover have "rmap (dejsonify_roomslot h sch) (map (jsonify_roomslot h) os) = Inr os"
      using assms(4) os dejsonify_roomslot_inverse [OF assms(1,2)] by (intro rmap_inverse) auto
    ultimately show ?thesis
      using Some os assms(3,4) sec [of "act_section a"] rs [of "act_start a"] rs [of "act_prev a"]
      by (simp add: jsonify_action_def dejsonify_action_def)
  qed
qed

lemma perform_entry: "perform_action re_match m (entry (mp_heap m) mm) = operation re_match m mm False"
  by (cases mm) (simp_all add: perform_action_def schedule_action_def move_action_def
      unschedule_action_def swap_action_def)

lemma perform_all_snoc:
  "perform_all re_match m (as @ [a]) = rbind (perform_all re_match m as)
     (\<lambda>(success, m1). if \<not> success then Inr (False, m1) else perform_action re_match m1 a)"
  by (induction as arbitrary: m) (auto simp: rbind_assoc rbind_def split: sum.splits prod.splits)

lemma perform_all_run:
  assumes "accepted_run re_match m0 m" and "tracked re_match nws criteria m0" and "mp_history m0 = []"
  shows "perform_all re_match m0 (mp_history m) = Inr (True, m)"
  using assms
proof (induction rule: accepted_run.induct)
  case (run_step m mm m')
  note h = performed_sel(3) [OF run_performed [OF run_step.hyps(1) run_step.prems(1) run_step.hyps(2,3)]]
  show ?case
    using run_step.IH [OF run_step.prems] run_step.hyps(3) by (simp add: h perform_all_snoc perform_entry)
qed simp

lemma jsonify_static:
  assumes "same_static h h'"
  shows "jsonify_action h' = jsonify_action h" "dejsonify_action h' sch = dejsonify_action h sch"
proof -
  have "jsonify_roomslot h' = jsonify_roomslot h"
    by (simp add: fun_eq_iff jsonify_roomslot_def same_staticD [OF assms] same_static_ts [OF assms])
  moreover have "(\<lambda>s. sec_id (hp_sec h' s)) = (\<lambda>s. sec_id (hp_sec h s))"
    by (simp add: fun_eq_iff same_staticD [OF assms])
  ultimately show "jsonify_action h' = jsonify_action h"
    by (intro ext) (simp only: jsonify_action_def)
  have "dejsonify_roomslot h' sch = dejsonify_roomslot h sch"
    by (simp add: fun_eq_iff dejsonify_roomslot_def same_staticD [OF assms])
  then show "dejsonify_action h' sch = dejsonify_action h sch"
    by (intro ext) (simp only: dejsonify_action_def)
qed

lemma same_static_whole: "same_static h h' \<Longrightarrow> whole_times h' sch = whole_times h sch"
  by (simp add: whole_times_def same_staticD)

lemma rmap_snoc: "rmap f (xs @ [x]) = rbind (rmap f xs) (\<lambda>ys. rbind (f x) (\<lambda>y. Inr (ys @ [y])))"
  by (induction xs) (auto simp: rbind_def split: sum.splits)

lemma json_history_inverse:
  assumes "reachable re_match m0 m" and "mp_history m0 = []" and "whole_times (mp_heap m0) (mp_schedule m0)"
  shows "\<exists>js. rmap (jsonify_action (mp_heap m0)) (mp_history m) = Inr js \<and>
    rmap (dejsonify_action (mp_heap m0) (mp_schedule m0)) js = Inr (mp_history m)"
  using assms
proof (induction rule: reachable.induct)
  case (reach_step m mm m')
  then obtain js where js: "rmap (jsonify_action (mp_heap m0)) (mp_history m) = Inr js"
    "rmap (dejsonify_action (mp_heap m0) (mp_schedule m0)) js = Inr (mp_history m)" by blast
  note sel = reachable_sel [OF reach_step.hyps(1)]
  have step: "manip_step (mp_schedule m) (mp_heap m) mm (mp_heap m')"
    by (rule moved_step [OF reach_step.hyps(2)])
  note ss = sel [THEN conjunct2, THEN conjunct2]
  have "act_sections (entry (mp_heap m) mm) = None \<longleftrightarrow> act_original (entry (mp_heap m) mm) = None"
    by (cases mm) (simp_all add: schedule_action_def move_action_def unschedule_action_def swap_action_def)
  with jsonify_inverse [OF step_settled(1) [OF step] _ entry_roomslots [OF step]] reach_step.prems(2) sel
  obtain d where "jsonify_action (mp_heap m0) (entry (mp_heap m) mm) = Inr d"
    "dejsonify_action (mp_heap m0) (mp_schedule m0) d = Inr (entry (mp_heap m) mm)"
    by (auto simp: same_static_whole jsonify_static)
  with js moved_sel(3) [OF reach_step.hyps(2)] show ?case by (simp add: rmap_snoc)
qed simp_all

lemma history_replay:
  assumes "accepted_run re_match m0 m" and "tracked re_match nws criteria m0" and "mp_history m0 = []"
    and "whole_times (mp_heap m0) (mp_schedule m0)"
  shows "\<exists>js. jsonify_history m = Inr js \<and> load_history re_match m0 js = Inr (True, m)"
proof -
  note r = accepted_reachable [OF assms(1) tracked_managed [OF assms(2)]]
  from json_history_inverse [OF r assms(3,4)] perform_all_run [OF assms(1-3)] reachable_sel [OF r]
  show ?thesis by (auto simp: jsonify_history_def load_history_def jsonify_static)
qed

end
