(* ===== verification/Search.thy ===== *)
theory Search
  imports Manipulator
begin

section \<open>SearchOptimizer (autoscheduler/search.py)\<close>

text \<open>
  The depth-limited search: try every roomslot for a section, evict what is in the way,
  optimise the evicted sections one level down, keep the best list of actions, undo
  everything and finally perform the best list. The clock is a parameter: \<open>now k\<close> is what the
  \<open>k\<close>-th call of \<open>datetime.datetime.now()\<close> returns, and the number of calls is part of the
  state. The inner \<open>continue\<close> of the code, which goes on with the next evicted section after
  everything has been undone, is kept.

  The locale \<open>search_invariant\<close> is what the search needs of a property of manipulators to keep it:
  operations and undoing keep it. It is interpreted twice, for accepted runs with tracked scorers, where
  undoing restores the scorer, and for \<open>reachable\<close> with any scorers. \<open>optimize_reachable\<close>: whatever the
  search does, it ends in a state that accepted operations lead to. \<open>optimize_total\<close>: it returns.
  \<open>optimize_depth_1\<close>: at depth 1 it ends in the best of the candidate states.
\<close>

type_synonym search_state = "manipulator \<times> nat"

definition SearchOptimizer_init :: "manipulator \<Rightarrow> rsref list" where
  "SearchOptimizer_init m =
     concat (map (\<lambda>room. room_availability (hp_room (mp_heap m) room)) (dict_values (sch_classrooms (mp_schedule m))))"

fun revert :: "(string \<Rightarrow> string \<Rightarrow> bool) \<Rightarrow> nat \<Rightarrow> manipulator \<Rightarrow> manipulator result" where
  "revert re_match 0 m = Inr m"
| "revert re_match (Suc n) m = rbind (undo re_match m) (\<lambda>(_, m1). revert re_match n m1)"

definition update_proposed_actions :: "manipulator \<Rightarrow> action list \<Rightarrow> action list result" where
  "update_proposed_actions m proposed_actions =
     rbind (py_last (mp_history m)) (\<lambda>a. Inr (proposed_actions @ [a]))"

text \<open>The loop that empties the needed roomslots; the flag says that it failed.\<close>

fun evict ::
  "(string \<Rightarrow> string \<Rightarrow> bool) \<Rightarrow> nat \<Rightarrow> manipulator \<Rightarrow> rsref list \<Rightarrow> secref list \<Rightarrow> action list \<Rightarrow>
   (bool \<times> manipulator \<times> secref list \<times> action list) result" where
  "evict re_match depth m [] others proposed = Inr (False, m, others, proposed)"
| "evict re_match depth m (r # rs) others proposed =
     (case rs_section (hp_rs (mp_heap m) r) of
        None \<Rightarrow> evict re_match depth m rs others proposed
      | Some other \<Rightarrow>
          if depth = 1 then Inr (True, m, others, proposed)
          else rbind (unschedule_section re_match m other False) (\<lambda>(success, m1).
            if \<not> success then
              rbind (revert re_match (length proposed) m1) (\<lambda>m2. Inr (True, m2, others @ [other], proposed))
            else rbind (update_proposed_actions m1 proposed) (\<lambda>proposed'.
              evict re_match depth m1 rs (others @ [other]) proposed')))"

text \<open>The loop over the evicted sections; \<open>rec\<close> is the search one level down.\<close>

fun replace_evicted ::
  "(string \<Rightarrow> string \<Rightarrow> bool) \<Rightarrow> (search_state \<Rightarrow> secref \<Rightarrow> (action list \<times> search_state) result) \<Rightarrow>
   search_state \<Rightarrow> secref list \<Rightarrow> action list \<Rightarrow> (search_state \<times> action list) result" where
  "replace_evicted re_match rec st [] proposed = Inr (st, proposed)"
| "replace_evicted re_match rec st (other # others) proposed =
     rbind (rec st other) (\<lambda>(acts, m1, k1).
       if \<not> is_scheduled (mp_heap m1) other then
         rbind (revert re_match (length (proposed @ acts)) m1) (\<lambda>m2.
           replace_evicted re_match rec (m2, k1) others (proposed @ acts))
       else replace_evicted re_match rec (m1, k1) others (proposed @ acts))"

definition place_section ::
  "(string \<Rightarrow> string \<Rightarrow> bool) \<Rightarrow> manipulator \<Rightarrow> secref \<Rightarrow> rsref \<Rightarrow> (bool \<times> manipulator) result" where
  "place_section re_match m s r =
     (if is_scheduled (mp_heap m) s then move_section re_match m s r False
      else schedule_section re_match m s r False)"

type_synonym best = "rat \<times> action list"

definition try_roomslot ::
  "(string \<Rightarrow> string \<Rightarrow> bool) \<Rightarrow> (search_state \<Rightarrow> secref \<Rightarrow> (action list \<times> search_state) result) \<Rightarrow> nat \<Rightarrow> secref \<Rightarrow>
   search_state \<times> best \<Rightarrow> rsref \<Rightarrow> (search_state \<times> best) result" where
  "try_roomslot re_match rec depth s = (\<lambda>((m, k), best_score, best_actions) r.
     let needed_slots = needed (mp_heap m) s r in
     rbind (evict re_match depth m needed_slots [] []) (\<lambda>(failed, m1, other_sections, proposed1).
     if failed then Inr ((m1, k), best_score, best_actions)
     else rbind (place_section re_match m1 s r) (\<lambda>(success, m2).
     if \<not> success then
       rbind (revert re_match (length proposed1) m2) (\<lambda>m3. Inr ((m3, k), best_score, best_actions))
     else
       rbind (update_proposed_actions m2 proposed1) (\<lambda>proposed2.
       rbind (replace_evicted re_match rec (m2, k) other_sections proposed2) (\<lambda>((m3, k3), proposed3).
       rbind (composite_score (mp_scorer m3)) (\<lambda>new_score.
       rbind (revert re_match (length proposed3) m3) (\<lambda>m4.
       Inr ((m4, k3), if new_score > best_score then (new_score, proposed3) else (best_score, best_actions)))))))))"

fun perform_each ::
  "(string \<Rightarrow> string \<Rightarrow> bool) \<Rightarrow> manipulator \<Rightarrow> action list \<Rightarrow> manipulator result" where
  "perform_each re_match m [] = Inr m"
| "perform_each re_match m (a # as) = rbind (perform_action re_match m a) (\<lambda>(_, m1). perform_each re_match m1 as)"

definition timed_out :: "(nat \<Rightarrow> datetime) \<Rightarrow> datetime option \<Rightarrow> nat \<Rightarrow> bool \<times> nat" where
  "timed_out now timeout k = (case timeout of None \<Rightarrow> (False, k) | Some t \<Rightarrow> (now k > t, Suc k))"

fun optimize_section ::
  "(string \<Rightarrow> string \<Rightarrow> bool) \<Rightarrow> (nat \<Rightarrow> datetime) \<Rightarrow> datetime option \<Rightarrow> rsref list \<Rightarrow> nat \<Rightarrow>
   search_state \<Rightarrow> secref \<Rightarrow> (action list \<times> search_state) result" where
  "optimize_section re_match now timeout roomslots 0 st s = Inr ([], st)"
| "optimize_section re_match now timeout roomslots (Suc depth) (m, k) s =
     (let (late, k0) = timed_out now timeout k in
      if late then Inr ([], (m, k0))
      else rbind (composite_score (mp_scorer m)) (\<lambda>best_score.
        rbind (rfold (try_roomslot re_match (\<lambda>st s. optimize_section re_match now timeout roomslots depth st s)
                (Suc depth) s) ((m, k0), best_score, []) roomslots)
          (\<lambda>((m1, k1), _, best_actions).
        rbind (perform_each re_match m1 best_actions) (\<lambda>m2. Inr (best_actions, (m2, k1))))))"

subsection \<open>The search stays within what manipulations can reach\<close>

text \<open>An action that \<open>perform_action\<close> turns into an operation on registered objects.\<close>

definition sound_action :: "heap \<Rightarrow> 'c as_schedule \<Rightarrow> action \<Rightarrow> bool" where
  "sound_action h sch a \<longleftrightarrow> (\<exists>mm h'. in_range h sch mm \<and> (\<forall>s1 s2. mm \<noteq> Swap s1 s2) \<and> a = entry h' mm)"

lemma entry_action: "perform_action re_match m (entry h' mm) = operation re_match m mm False"
  by (cases mm) (simp_all add: perform_action_def schedule_action_def move_action_def
      unschedule_action_def swap_action_def)

lemma in_range_static: "same_static h h' \<Longrightarrow> in_range h' sch mm = in_range h sch mm"
  by (cases mm) (simp_all add: same_static_all_roomslots)

lemma sound_static: "same_static h h' \<Longrightarrow> sound_action h' sch a = sound_action h sch a"
  by (simp add: sound_action_def in_range_static)

text \<open>\<open>post E P r\<close>: a result satisfies \<open>P\<close>, and it is an exception only if \<open>E\<close> allows it.\<close>

definition post :: "bool \<Rightarrow> ('a \<Rightarrow> bool) \<Rightarrow> 'a result \<Rightarrow> bool" where
  "post E P r = (case r of Inl e \<Rightarrow> E | Inr x \<Rightarrow> P x)"

lemma post_simps [simp]: "post E P (Inr x) = P x" "post E P (Inl e) = E"
  by (simp_all add: post_def)

lemma post_rbind:
  "post E P r \<Longrightarrow> (\<And>x. P x \<Longrightarrow> post E Q (f x)) \<Longrightarrow> post E Q (rbind r f)"
  by (cases r) simp_all

lemma post_mono: "post E P r \<Longrightarrow> (\<And>x. P x \<Longrightarrow> Q x) \<Longrightarrow> post E Q r"
  by (cases r) simp_all

lemma post_rfold:
  "I st \<Longrightarrow> (\<And>st x. I st \<Longrightarrow> x \<in> set xs \<Longrightarrow> post E I (f st x)) \<Longrightarrow> post E I (rfold f st xs)"
proof (induction xs arbitrary: st)
  case (Cons x xs)
  show ?case
    unfolding rfold.simps by (rule post_rbind [where P = I]) (use Cons in auto)
qed simp

text \<open>No check and no score raises in a state that accepted operations lead to.\<close>

definition never_raises :: "(string \<Rightarrow> string \<Rightarrow> bool) \<Rightarrow> manipulator \<Rightarrow> bool" where
  "never_raises re_match m0 \<longleftrightarrow>
     (\<forall>m. accepted_run re_match m0 m \<longrightarrow>
        (\<exists>x. composite_score (mp_scorer m) = Inr x) \<and>
        (\<forall>mm. in_range (mp_heap m) (mp_schedule m) mm \<longrightarrow> (\<forall>s1 s2. mm \<noteq> Swap s1 s2) \<longrightarrow>
           (\<exists>v. checked re_match m mm = Inr v)))"

definition searchable :: "bool \<Rightarrow> (string \<Rightarrow> string \<Rightarrow> bool) \<Rightarrow> manipulator \<Rightarrow> bool" where
  "searchable E re_match m0 \<longleftrightarrow>
     (\<exists>nws criteria. tracked re_match nws criteria m0) \<and> mp_history m0 = [] \<and> (E \<or> never_raises re_match m0)"

definition sections0 :: "manipulator \<Rightarrow> secref set" where
  "sections0 m0 = sections_of (mp_schedule m0)"

definition roomslots0 :: "manipulator \<Rightarrow> rsref set" where
  "roomslots0 m0 = all_roomslots (mp_heap m0) (mp_schedule m0)"

definition sound :: "manipulator \<Rightarrow> action list \<Rightarrow> bool" where
  "sound m0 acts \<longleftrightarrow> (\<forall>a\<in>set acts. sound_action (mp_heap m0) (mp_schedule m0) a)"

lemma sound_append [simp]: "sound m0 (as @ bs) \<longleftrightarrow> sound m0 as \<and> sound m0 bs" "sound m0 []"
  by (auto simp: sound_def)

definition placing :: "heap \<Rightarrow> secref \<Rightarrow> rsref \<Rightarrow> manip" where
  "placing h s r = (if is_scheduled h s then Move s r else Schedule s r)"

lemma place_section_eq: "place_section re_match m s r = operation re_match m (placing (mp_heap m) s r) False"
  by (simp add: place_section_def placing_def)

lemma placing_in_range:
  "s \<in> sections0 m0 \<Longrightarrow> r \<in> roomslots0 m0 \<Longrightarrow> in_range (mp_heap m0) (mp_schedule m0) (placing h s r)"
  by (simp add: placing_def sections0_def roomslots0_def)

lemma placing_no_swap: "placing h s r \<noteq> Swap s1 s2"
  by (simp add: placing_def)

lemma update_proposed_moved:
  assumes "moved m mm m1"
  shows "update_proposed_actions m1 proposed = Inr (proposed @ [entry (mp_heap m) mm])"
  by (simp add: update_proposed_actions_def moved_sel(3) [OF assms] py_last_def)

lemma sound_entry:
  "in_range (mp_heap m0) (mp_schedule m0) mm \<Longrightarrow> (\<And>s1 s2. mm \<noteq> Swap s1 s2) \<Longrightarrow> sound m0 [entry h mm]"
  by (auto simp: sound_def sound_action_def)

text \<open>What the search one level down is assumed to do, and the state of the loop over the roomslots.\<close>

definition searches ::
  "bool \<Rightarrow> (manipulator \<Rightarrow> bool) \<Rightarrow> manipulator \<Rightarrow>
   (search_state \<Rightarrow> secref \<Rightarrow> (action list \<times> search_state) result) \<Rightarrow> bool" where
  "searches E R m0 rec \<longleftrightarrow>
     (\<forall>m k s. R m \<longrightarrow> s \<in> sections0 m0 \<longrightarrow> post E (\<lambda>(acts, m', k'). R m' \<and> sound m0 acts) (rec (m, k) s))"

definition good_state :: "(manipulator \<Rightarrow> bool) \<Rightarrow> manipulator \<Rightarrow> search_state \<times> best \<Rightarrow> bool" where
  "good_state R m0 st \<longleftrightarrow> R (fst (fst st)) \<and> sound m0 (snd (snd st))"

lemma good_state_simps: "good_state R m0 ((m, k), x, acts) \<longleftrightarrow> R m \<and> sound m0 acts"
  by (simp add: good_state_def)

lemma init_roomslots: "set (SearchOptimizer_init m) = roomslots0 m"
  by (auto simp: SearchOptimizer_init_def roomslots0_def all_roomslots_def)

subsection \<open>What the search keeps\<close>

locale search_invariant =
  fixes re_match :: "string \<Rightarrow> string \<Rightarrow> bool" and m0 :: manipulator
    and R :: "manipulator \<Rightarrow> bool" and E :: bool
  assumes R_static: "R m \<Longrightarrow> mp_schedule m = mp_schedule m0 \<and> same_static (mp_heap m0) (mp_heap m)"
    and R_settled: "R m \<Longrightarrow> settled (mp_heap m) (mp_schedule m)"
    and R_operation: "R m \<Longrightarrow> in_range (mp_heap m) (mp_schedule m) mm \<Longrightarrow> (\<forall>s1 s2. mm \<noteq> Swap s1 s2) \<Longrightarrow>
      post E (\<lambda>(b, m'). R m' \<and> (b \<longrightarrow> moved m mm m')) (operation re_match m mm False)"
    and R_undo: "R m \<Longrightarrow> post E (\<lambda>(b, m'). R m') (undo re_match m)"
    and R_score: "R m \<Longrightarrow> post E (\<lambda>_. True) (composite_score (mp_scorer m))"
begin

lemma R_slots: "R m \<Longrightarrow> all_roomslots (mp_heap m) (mp_schedule m) = roomslots0 m0"
  using R_static [of m] same_static_all_roomslots [of "mp_heap m0" "mp_heap m" "mp_schedule m0"]
  by (simp add: roomslots0_def)

lemma R_sections: "R m \<Longrightarrow> sections_of (mp_schedule m) = sections0 m0"
  using R_static [of m] by (simp add: sections0_def)

lemma operation_post:
  assumes "R m" and "in_range (mp_heap m0) (mp_schedule m0) mm" and "\<forall>s1 s2. mm \<noteq> Swap s1 s2"
  shows "post E (\<lambda>(b, m'). R m' \<and> (b \<longrightarrow> moved m mm m')) (operation re_match m mm False)"
  by (rule R_operation [OF assms(1) _ assms(3)])
    (use assms(2) R_static [OF assms(1)] in \<open>simp add: in_range_static [of "mp_heap m0" "mp_heap m"]\<close>)

lemma revert_post: "R m \<Longrightarrow> post E R (revert re_match n m)"
proof (induction n arbitrary: m)
  case (Suc n)
  show ?case
    unfolding revert.simps by (rule post_rbind [OF R_undo [OF Suc.prems]]) (use Suc.IH in auto)
qed simp

lemma unschedule_post:
  assumes "R m" and "s \<in> sections0 m0"
  shows "post E (\<lambda>(b, m'). R m' \<and> (b \<longrightarrow> moved m (Unschedule s) m')) (unschedule_section re_match m s False)"
  using operation_post [OF assms(1), of "Unschedule s"] assms(2) by (simp add: sections0_def)

lemma occupant:
  assumes "R m" and "r \<in> roomslots0 m0" and "rs_section (hp_rs (mp_heap m) r) = Some s"
  shows "s \<in> sections0 m0"
  using placed_section(1) [OF R_settled [OF assms(1)] _ assms(3)] assms(2) R_slots [OF assms(1)]
    R_sections [OF assms(1)] by simp

lemma evict_post:
  assumes "R m" and "set rs \<subseteq> roomslots0 m0" and "set others \<subseteq> sections0 m0" and "sound m0 proposed"
  shows "post E (\<lambda>(failed, m', others', proposed'). R m' \<and> set others' \<subseteq> sections0 m0 \<and> sound m0 proposed')
    (evict re_match depth m rs others proposed)"
  using assms
proof (induction rs arbitrary: m others proposed)
  case (Cons r rs)
  show ?case
  proof (cases "rs_section (hp_rs (mp_heap m) r)")
    case (Some other)
    have other: "other \<in> sections0 m0" using occupant [OF Cons.prems(1) _ Some] Cons.prems(2) by simp
    show ?thesis
    proof (cases "depth = 1")
      case False
      have rest: "post E (\<lambda>(failed, m', others', proposed'). R m' \<and> set others' \<subseteq> sections0 m0 \<and> sound m0 proposed')
        (case bm of (success, m1) \<Rightarrow>
            if \<not> success then
              rbind (revert re_match (length proposed) m1) (\<lambda>m2. Inr (True, m2, others @ [other], proposed))
            else rbind (update_proposed_actions m1 proposed) (\<lambda>proposed'.
              evict re_match depth m1 rs (others @ [other]) proposed'))"
        if p: "case bm of (b, m') \<Rightarrow> R m' \<and> (b \<longrightarrow> moved m (Unschedule other) m')" for bm
      proof -
        obtain b m1 where bm: "bm = (b, m1)" by (cases bm)
        with p have r1: "R m1" by simp
        show ?thesis
        proof (cases b)
          case True
          with p bm have mv: "moved m (Unschedule other) m1" by simp
          have "sound m0 (proposed @ [entry (mp_heap m) (Unschedule other)])"
            using Cons.prems(4) other sound_entry [of m0 "Unschedule other"]
            by (simp add: sections0_def del: entry.simps)
          with Cons.IH [OF r1] Cons.prems(2,3) other True bm update_proposed_moved [OF mv] show ?thesis
            by (simp del: entry.simps)
        next
          case False
          with bm Cons.prems other show ?thesis by (auto intro!: post_rbind [OF revert_post [OF r1]])
        qed
      qed
      have "evict re_match depth m (r # rs) others proposed =
          rbind (unschedule_section re_match m other False) (\<lambda>bm. case bm of (success, m1) \<Rightarrow>
            if \<not> success then
              rbind (revert re_match (length proposed) m1) (\<lambda>m2. Inr (True, m2, others @ [other], proposed))
            else rbind (update_proposed_actions m1 proposed) (\<lambda>proposed'.
              evict re_match depth m1 rs (others @ [other]) proposed'))"
        using Some False by simp
      then show ?thesis
        using post_rbind [OF unschedule_post [OF Cons.prems(1) other] rest] by simp
    qed (use Some Cons.prems in simp)
  qed (use Cons in simp)
qed simp

lemma replace_post:
  assumes "searches E R m0 rec" and "R m" and "set others \<subseteq> sections0 m0" and "sound m0 proposed"
  shows "post E (\<lambda>((m', k'), proposed'). R m' \<and> sound m0 proposed')
    (replace_evicted re_match rec (m, k) others proposed)"
  using assms(2-)
proof (induction others arbitrary: m k proposed)
  case (Cons other others)
  have "post E (\<lambda>(acts, m', k'). R m' \<and> sound m0 acts) (rec (m, k) other)"
    using assms(1) Cons.prems unfolding searches_def by simp
  then show ?case
    unfolding replace_evicted.simps
    by (rule post_rbind) (use Cons in \<open>auto intro!: post_rbind [OF revert_post]\<close>)
qed simp

lemma place_post:
  assumes "R m" and "s \<in> sections0 m0" and "r \<in> roomslots0 m0"
  shows "post E (\<lambda>(b, m'). R m' \<and> (b \<longrightarrow> moved m (placing (mp_heap m) s r) m')) (place_section re_match m s r)"
  unfolding place_section_eq
  by (rule operation_post [OF assms(1) placing_in_range [OF assms(2,3)]]) (simp add: placing_no_swap)

lemma try_roomslot_post:
  assumes "searches E R m0 rec" and "R m" and "s \<in> sections0 m0" and "r \<in> roomslots0 m0" and "sound m0 best_actions"
  shows "post E (good_state R m0) (try_roomslot re_match rec depth s ((m, k), best_score, best_actions) r)"
proof -
  have needed: "set (needed (mp_heap m) s r) \<subseteq> roomslots0 m0"
    using grs_registered(3) [OF settledD(2) [OF R_settled [OF assms(2)]]] assms(4) R_slots [OF assms(2)] by simp
  have placed: "post E (good_state R m0)
      (rbind (update_proposed_actions m2 proposed1) (\<lambda>proposed2.
       rbind (replace_evicted re_match rec (m2, k) other_sections proposed2) (\<lambda>((m3, k3), proposed3).
       rbind (composite_score (mp_scorer m3)) (\<lambda>new_score.
       rbind (revert re_match (length proposed3) m3) (\<lambda>m4.
       Inr ((m4, k3), if new_score > best_score then (new_score, proposed3) else (best_score, best_actions)))))))"
    if r2: "R m2" and mv: "moved m1 (placing (mp_heap m1) s r) m2"
      and others: "set other_sections \<subseteq> sections0 m0" and snd: "sound m0 proposed1"
    for m1 m2 other_sections proposed1
  proof -
    have snd2: "sound m0 (proposed1 @ [entry (mp_heap m1) (placing (mp_heap m1) s r)])"
      using snd sound_entry [OF placing_in_range [OF assms(3,4)] placing_no_swap] by simp
    show ?thesis
      unfolding update_proposed_moved [OF mv] rbind_simps
      by (rule post_rbind [OF replace_post [OF assms(1) r2 others snd2]])
        (auto simp: assms(5) good_state_simps intro!: post_rbind [OF R_score] post_rbind [OF revert_post])
  qed
  show ?thesis
    unfolding try_roomslot_def Let_def prod.case
    by (rule post_rbind [OF evict_post [OF assms(2) needed]])
      (auto simp: assms(2,5) good_state_simps intro!: post_rbind [OF place_post [OF _ assms(3,4)]] placed
        post_rbind [OF revert_post])
qed

lemma perform_each_post:
  assumes "R m" and "sound m0 acts"
  shows "post E R (perform_each re_match m acts)"
  using assms
proof (induction acts arbitrary: m)
  case (Cons a acts)
  then obtain mm h' where a: "in_range (mp_heap m0) (mp_schedule m0) mm" "\<forall>s1 s2. mm \<noteq> Swap s1 s2" "a = entry h' mm"
    by (auto simp: sound_def sound_action_def)
  show ?case
    unfolding perform_each.simps a(3) entry_action
    by (rule post_rbind [OF operation_post [OF Cons.prems(1) a(1,2)]]) (use Cons in \<open>auto simp: sound_def\<close>)
qed simp

lemma optimize_searches:
  assumes "set roomslots \<subseteq> roomslots0 m0"
  shows "searches E R m0 (\<lambda>st s. optimize_section re_match now timeout roomslots depth st s)"
proof (induction depth)
  case 0
  then show ?case by (simp add: searches_def)
next
  case (Suc depth)
  show ?case
    unfolding searches_def
  proof (intro allI impI)
    fix m k s assume m: "R m" and s: "s \<in> sections0 m0"
    obtain late k0 where t: "timed_out now timeout k = (late, k0)" by fastforce
    have loop: "post E (good_state R m0)
        (rfold (try_roomslot re_match (\<lambda>st s. optimize_section re_match now timeout roomslots depth st s)
          (Suc depth) s) ((m, k0), x, []) roomslots)" for x
    proof (rule post_rfold)
      fix st r assume st: "good_state R m0 st" and r: "r \<in> set roomslots"
      obtain m1 k1 b acts where st': "st = ((m1, k1), b, acts)" by (metis surj_pair)
      show "post E (good_state R m0)
          (try_roomslot re_match (\<lambda>st s. optimize_section re_match now timeout roomslots depth st s) (Suc depth) s st r)"
        using try_roomslot_post [OF Suc, of m1 s r acts] st r s assms by (auto simp: st' good_state_simps)
    qed (simp add: good_state_simps m)
    show "post E (\<lambda>(acts, m', k'). R m' \<and> sound m0 acts)
        (optimize_section re_match now timeout roomslots (Suc depth) (m, k) s)"
      using m by (auto simp: t good_state_simps intro!: post_rbind [OF R_score] post_rbind [OF loop]
          post_rbind [OF perform_each_post])
  qed
qed

lemma optimize_post:
  assumes "R m0" and "s \<in> sections_of (mp_schedule m0)"
  shows "post E (\<lambda>(acts, m', k'). R m' \<and> sound m0 acts)
      (optimize_section re_match now timeout (SearchOptimizer_init m0) depth (m0, k) s)"
  using optimize_searches [of "SearchOptimizer_init m0" now timeout depth] assms
  by (simp add: searches_def init_roomslots sections0_def)

end

text \<open>With tracked scorers: accepted runs, which end in an exception only if \<open>E\<close> allows it.\<close>

lemma run_operation:
  assumes "searchable E re_match m0" and "accepted_run re_match m0 m"
    and "in_range (mp_heap m) (mp_schedule m) mm" and "\<forall>s1 s2. mm \<noteq> Swap s1 s2"
  shows "post E (\<lambda>(b, m'). accepted_run re_match m0 m' \<and> (b \<longrightarrow> moved m mm m')) (operation re_match m mm False)"
proof -
  obtain nws criteria where t0: "tracked re_match nws criteria m0"
    using assms(1) by (auto simp: searchable_def)
  note t = run_tracked [OF assms(2) t0]
  show ?thesis
  proof (cases "operation re_match m mm False")
    case (Inl e)
    from operation_total [OF t assms(3) Inl] assms(4) have "checked re_match m mm = Inl e" by simp
    then have "E" using assms unfolding searchable_def never_raises_def by fastforce
    with Inl show ?thesis by simp
  next
    case (Inr bm)
    obtain b m' where bm: "bm = (b, m')" by (cases bm)
    show ?thesis
    proof (cases b)
      case True
      with Inr bm have op: "operation re_match m mm False = Inr (True, m')" by simp
      from accepted_moved [OF tracked_managed [OF t] assms(3) op] run_step [OF assms(2,3) op] Inr bm
      show ?thesis by simp
    next
      case False
      with Inr bm have "operation re_match m mm False = Inr (False, m')" by simp
      from operation_refused [OF this] assms(2) Inr bm False show ?thesis by simp
    qed
  qed
qed

interpretation exact: search_invariant re_match m0 "\<lambda>m. searchable E re_match m0 \<and> accepted_run re_match m0 m" E
  for re_match m0 E
proof (unfold_locales, goal_cases)
  case (1 m)
  then have "managed m0" using tracked_managed by (auto simp: searchable_def)
  with 1 have "reachable re_match m0 m" by (simp add: accepted_reachable)
  with reachable_sel show ?case by blast
next
  case (2 m)
  then show ?case using run_tracked by (auto simp: searchable_def tracked_def)
next
  case (3 m mm)
  then show ?case by (auto intro: post_mono [OF run_operation])
next
  case (4 m)
  show ?case
  proof (cases "mp_history m = []")
    case True
    with 4 show ?thesis by (simp add: undo_def)
  next
    case False
    from 4 obtain nws criteria where "tracked re_match nws criteria m0" "mp_history m0 = []"
      by (auto simp: searchable_def)
    from run_undo [OF _ this False] 4 show ?thesis by auto
  qed
next
  case (5 m)
  then show ?case unfolding searchable_def never_raises_def by (cases E) (auto simp: post_def split: sum.split)
qed

text \<open>With any scorers: the states that accepted operations lead to, or an exception.\<close>

interpretation loose: search_invariant re_match m0
  "\<lambda>m. managed m0 \<and> mp_history m0 = [] \<and> reachable re_match m0 m" True for re_match m0
proof (unfold_locales, goal_cases)
  case (1 m)
  with reachable_sel [of re_match m0 m] show ?case by simp
next
  case (2 m)
  with reachable_managed [of re_match m0 m] show ?case by (simp add: managed_def)
next
  case (3 m mm)
  show ?case
  proof (cases "operation re_match m mm False")
    case (Inr bm)
    obtain b m' where bm: "bm = (b, m')" by (cases bm)
    have "managed m" using 3 reachable_managed by blast
    then show ?thesis
      using 3 reachable_accepted [of re_match m0 m mm m'] accepted_moved [of m mm re_match m']
        operation_refused [of re_match m mm m'] Inr bm by (cases b) auto
  qed simp
next
  case (4 m)
  then show ?case using reachable_undo [of re_match m0 m] by (auto simp: post_def split: sum.split)
next
  case (5 m)
  then show ?case by (simp add: post_def split: sum.split)
qed

lemma optimize_reachable:
  assumes "managed m0" and "mp_history m0 = []" and "s \<in> sections_of (mp_schedule m0)"
    and "optimize_section re_match now timeout (SearchOptimizer_init m0) depth (m0, k) s = Inr (acts, m', k')"
  shows "reachable re_match m0 m' \<and> managed m'"
  using loose.optimize_post [of m0 re_match s now timeout depth k] assms reach_start
    reachable_managed [of re_match m0 m'] by simp

lemma optimize_accepted:
  assumes "tracked re_match nws criteria m0" and "mp_history m0 = []" and "s \<in> sections_of (mp_schedule m0)"
    and "optimize_section re_match now timeout (SearchOptimizer_init m0) depth (m0, k) s = Inr (acts, m', k')"
  shows "accepted_run re_match m0 m' \<and> tracked re_match nws criteria m'"
proof -
  have "searchable True re_match m0" using assms(1,2) by (auto simp: searchable_def)
  with exact.optimize_post [of True re_match m0 s now timeout depth k] assms(3,4) run_start
  have "accepted_run re_match m0 m'" by simp
  with run_tracked [OF this assms(1)] show ?thesis by simp
qed

lemma optimize_total:
  assumes "tracked re_match nws criteria m0" and "mp_history m0 = []" and "s \<in> sections_of (mp_schedule m0)"
    and "never_raises re_match m0"
  shows "\<exists>acts m' k'. optimize_section re_match now timeout (SearchOptimizer_init m0) depth (m0, k) s = Inr (acts, m', k')"
proof -
  have "searchable False re_match m0" using assms(1,2,4) by (auto simp: searchable_def)
  with exact.optimize_post [of False re_match m0 s now timeout depth k] assms(3) run_start [of re_match m0] show ?thesis
    by (auto simp: post_def split: sum.splits)
qed

subsection \<open>At depth 1 the search finds the best candidate\<close>

text \<open>A candidate: a roomslot whose needed roomslots are free and where the section may go.\<close>

definition candidate :: "(string \<Rightarrow> string \<Rightarrow> bool) \<Rightarrow> manipulator \<Rightarrow> secref \<Rightarrow> rsref \<Rightarrow> manipulator \<Rightarrow> bool" where
  "candidate re_match m s r m' \<longleftrightarrow>
     (\<forall>r'\<in>set (needed (mp_heap m) s r). rs_section (hp_rs (mp_heap m) r') = None) \<and>
     place_section re_match m s r = Inr (True, m')"

lemma evict_depth_1:
  "evict re_match (Suc 0) m rs others proposed =
     Inr (\<exists>r\<in>set rs. rs_section (hp_rs (mp_heap m) r) \<noteq> None, m, others, proposed)"
  by (induction rs) (auto split: option.split)

definition best_of :: "(string \<Rightarrow> string \<Rightarrow> bool) \<Rightarrow> manipulator \<Rightarrow> secref \<Rightarrow> rsref set \<Rightarrow> rat \<Rightarrow> best \<Rightarrow> bool" where
  "best_of re_match m s rs base b \<longleftrightarrow>
     (b = (base, []) \<or> (\<exists>r\<in>rs. \<exists>m'. candidate re_match m s r m' \<and> composite_score (mp_scorer m') = Inr (fst b) \<and>
        snd b = [entry (mp_heap m) (placing (mp_heap m) s r)])) \<and>
     base \<le> fst b \<and>
     (\<forall>r\<in>rs. \<forall>m' x. candidate re_match m s r m' \<longrightarrow> composite_score (mp_scorer m') = Inr x \<longrightarrow> x \<le> fst b)"

lemma best_none:
  assumes "best_of re_match m s rs base b" and "\<And>m'. \<not> candidate re_match m s r m'"
  shows "best_of re_match m s (insert r rs) base b"
  using assms unfolding best_of_def by blast

lemma best_some:
  assumes "best_of re_match m s rs base b" and "\<And>m'. candidate re_match m s r m' \<longleftrightarrow> m' = m2"
    and "composite_score (mp_scorer m2) = Inr y"
  shows "best_of re_match m s (insert r rs) base
    (if y > fst b then (y, [entry (mp_heap m) (placing (mp_heap m) s r)]) else b)"
proof (cases "y > fst b")
  case True
  have "z \<le> y" if "ra \<in> rs" "candidate re_match m s ra m'" "composite_score (mp_scorer m') = Inr z" for ra m' z
    using assms(1) that True unfolding best_of_def by fastforce
  moreover have "base \<le> y" using assms(1) True unfolding best_of_def by simp
  ultimately show ?thesis using True assms(2,3) unfolding best_of_def by auto
next
  case False
  then have "z \<le> fst b" if "composite_score (mp_scorer m2) = Inr z" for z using that assms(3) by simp
  with False assms(1,2) show ?thesis unfolding best_of_def by auto
qed

lemma try_depth_1:
  assumes "tracked re_match nws criteria m" and "s \<in> sections_of (mp_schedule m)"
    and "r \<in> all_roomslots (mp_heap m) (mp_schedule m)"
    and "best_of re_match m s rs base b" and "try_roomslot re_match rec (Suc 0) s ((m, k), b) r = Inr (st, b')"
  shows "st = (m, k) \<and> best_of re_match m s (insert r rs) base b'"
proof -
  obtain x acts where b: "b = (x, acts)" by (cases b)
  show ?thesis
  proof (cases "\<exists>r'\<in>set (needed (mp_heap m) s r). rs_section (hp_rs (mp_heap m) r') \<noteq> None")
    case True
    then have "\<not> candidate re_match m s r m'" for m' by (auto simp: candidate_def)
    with best_none [OF assms(4)] True assms(5) b show ?thesis
      by (auto simp: try_roomslot_def evict_depth_1 Let_def)
  next
    case False
    then obtain ok m2 where p: "place_section re_match m s r = Inr (ok, m2)"
      using assms(5) b by (auto simp: try_roomslot_def evict_depth_1 Let_def rbind_Inr_iff)
    show ?thesis
    proof (cases ok)
      case True
      have perf: "performed re_match m (placing (mp_heap m) s r) m2"
        using operation_performed [OF tracked_managed [OF assms(1)], of "placing (mp_heap m) s r"] p True assms(2,3)
        by (auto simp: place_section_eq placing_def)
      have cand: "candidate re_match m s r m' \<longleftrightarrow> m' = m2" for m'
        using False p True by (auto simp: candidate_def)
      have undone: "revert re_match (Suc 0) m2 = Inr m" by (simp add: undo_performed [OF assms(1) perf])
      from assms(5) obtain y where y: "composite_score (mp_scorer m2) = Inr y" and
        res: "st = (m, k)" "b' = (if y > x then (y, [entry (mp_heap m) (placing (mp_heap m) s r)]) else b)"
        using False p True undone
        by (auto simp: b try_roomslot_def evict_depth_1 Let_def rbind_Inr_iff update_proposed_moved [OF performed_moved [OF perf]])
      show ?thesis
        using best_some [OF assms(4) cand y] res by (simp add: b)
    next
      case False
      have "m2 = m" using operation_refused [of re_match m "placing (mp_heap m) s r" m2] p False
        by (simp add: place_section_eq)
      moreover have "\<not> candidate re_match m s r m'" for m' using p False by (simp add: candidate_def)
      ultimately show ?thesis
        using best_none [OF assms(4), of r] assms(5) b p False \<open>\<not> (\<exists>r'\<in>_. _ \<noteq> None)\<close>
        by (auto simp: try_roomslot_def evict_depth_1 Let_def)
    qed
  qed
qed

lemma loop_depth_1:
  assumes "tracked re_match nws criteria m" and "s \<in> sections_of (mp_schedule m)"
    and "set roomslots \<subseteq> all_roomslots (mp_heap m) (mp_schedule m)"
    and "best_of re_match m s rs base b"
    and "rfold (try_roomslot re_match rec (Suc 0) s) ((m, k), b) roomslots = Inr (st, b')"
  shows "st = (m, k) \<and> best_of re_match m s (rs \<union> set roomslots) base b'"
  using assms(3-)
proof (induction roomslots arbitrary: rs b)
  case (Cons r roomslots)
  from Cons.prems(3) obtain st1 b1 where 1: "try_roomslot re_match rec (Suc 0) s ((m, k), b) r = Inr (st1, b1)"
    "rfold (try_roomslot re_match rec (Suc 0) s) (st1, b1) roomslots = Inr (st, b')"
    by (auto simp: rbind_Inr_iff)
  from try_depth_1 [OF assms(1,2) _ Cons.prems(2) 1(1)] Cons.prems(1) have
    "st1 = (m, k)" "best_of re_match m s (insert r rs) base b1" by auto
  with Cons.IH [of "insert r rs" b1] 1(2) Cons.prems(1) show ?case by simp
qed simp

lemma optimize_depth_1:
  assumes "tracked re_match nws criteria m" and "s \<in> sections_of (mp_schedule m)"
    and "optimize_section re_match now None (SearchOptimizer_init m) 1 (m, k) s = Inr (acts, m', k')"
  obtains base x where "composite_score (mp_scorer m) = Inr base" "composite_score (mp_scorer m') = Inr x"
    "base \<le> x" "m' = m \<or> (\<exists>r. candidate re_match m s r m')"
    "\<And>r m1 y. r \<in> all_roomslots (mp_heap m) (mp_schedule m) \<Longrightarrow> candidate re_match m s r m1 \<Longrightarrow>
       composite_score (mp_scorer m1) = Inr y \<Longrightarrow> y \<le> x"
proof -
  have slots: "set (SearchOptimizer_init m) = all_roomslots (mp_heap m) (mp_schedule m)"
    by (simp add: init_roomslots roomslots0_def)
  from assms(3) obtain base st b where
    base: "composite_score (mp_scorer m) = Inr base" and
    loop: "rfold (try_roomslot re_match (optimize_section re_match now None (SearchOptimizer_init m) 0) (Suc 0) s)
      ((m, k), base, []) (SearchOptimizer_init m) = Inr (st, b)" and
    fin: "perform_each re_match (fst st) (snd b) = Inr m'"
    by (force simp: timed_out_def rbind_Inr_iff)
  have "best_of re_match m s {} base (base, [])" by (simp add: best_of_def)
  from loop_depth_1 [OF assms(1,2) _ this loop] slots have
    st: "st = (m, k)" and best: "best_of re_match m s (all_roomslots (mp_heap m) (mp_schedule m)) base b" by auto
  have "\<exists>x. composite_score (mp_scorer m') = Inr x \<and> fst b = x \<and> (m' = m \<or> (\<exists>r. candidate re_match m s r m'))"
  proof (cases "b = (base, [])")
    case True
    with fin st base show ?thesis by simp
  next
    case False
    with best obtain r m1 where r: "candidate re_match m s r m1" "composite_score (mp_scorer m1) = Inr (fst b)"
      "snd b = [entry (mp_heap m) (placing (mp_heap m) s r)]" unfolding best_of_def by blast
    then have "operation re_match m (placing (mp_heap m) s r) False = Inr (True, m1)"
      by (simp add: candidate_def place_section_eq)
    with fin st r have "m' = m1" by (simp add: entry_action)
    with r show ?thesis by blast
  qed
  with that [of base "fst b"] base best show thesis unfolding best_of_def by blast
qed

end
