(* ===== verification/Totality.thy ===== *)
theory Totality
  imports Search
begin

section \<open>When checks and scores do not raise\<close>

text \<open>
  In a settled schedule the checks of every constraint but the swap check of
  \<open>ResourceCriteriaConstraint\<close> answer, provided that no day has an empty list of lunch
  timeslots (\<open>checks_answer\<close>); nine of the scorers never divide by zero when there are
  sections and teachers (\<open>score_answers\<close>). Together they give \<open>never_raises_composite\<close>, the
  hypothesis under which the search is shown to return.
\<close>

definition answers :: "check_result \<Rightarrow> bool" where
  "answers r \<longleftrightarrow> (\<exists>v. r = Inr v)"

lemma answers_simps [simp]: "answers ok" "answers (violated n r)" "answers (Inr v)" "\<not> answers (Inl e)"
  by (simp_all add: answers_def ok_def violated_def)

lemma answers_if [simp]: "answers (if c then a else b) \<longleftrightarrow> (if c then answers a else answers b)"
  by simp

lemma answers_cthen: "answers a \<Longrightarrow> answers b \<Longrightarrow> answers (cthen a b)"
  by (auto simp: answers_def cthen_def split: option.split)

lemma answers_first: "(\<And>x. x \<in> set xs \<Longrightarrow> answers (f x)) \<Longrightarrow> answers (first_violation f xs)"
  by (induction xs) (auto intro: answers_cthen)

lemma remove_times_total: "distinct tms \<Longrightarrow> set tms \<subseteq> ts \<Longrightarrow> \<exists>ts'. remove_times ts tms = Inr ts'"
proof (induction tms arbitrary: ts)
  case (Cons tm tms)
  then have "set tms \<subseteq> ts - {tm}" by auto
  with Cons show ?case by simp
qed simp

definition lunch_filled :: "'c as_schedule \<Rightarrow> bool" where
  "lunch_filled sch \<longleftrightarrow> [] \<notin> set (dict_values (sch_lunch sch))"

lemma lunch_answers:
  assumes "settled h sch" and "r \<in> all_roomslots h sch" and "lunch_filled sch"
  shows "answers (lunch_check_schedule_section h sch s r)"
  unfolding lunch_check_schedule_section_def
proof (rule answers_first)
  fix l assume "l \<in> set (dict_values (sch_lunch sch))"
  then have "l \<noteq> []" using assms(3) by (auto simp: lunch_filled_def)
  then show "answers (rbind (py_first l) (\<lambda>l0. rbind (py_last l) (\<lambda>l1.
      let roomslots = needed h s r in
      rbind (py_first roomslots) (\<lambda>r0. rbind (py_last roomslots) (\<lambda>r1.
        if fst (rs_key h r0) \<le> ts_start (hp_ts h l0) \<and> snd (rs_key h r1) \<ge> ts_end (hp_ts h l1)
        then violated ''LunchConstraint'' ''Section would be scheduled over lunch''
        else ok)))))"
    using grs_registered(1) [OF settledD(2) [OF assms(1)] assms(2)]
    by (simp add: py_first_hd py_last_def Let_def)
qed

lemma schedule_answers:
  assumes "settled h sch" and "r \<in> all_roomslots h sch" and "lunch_filled sch"
  shows "answers (check_schedule_section re_match c h sch s r)"
proof (cases c)
  case ContiguousConstraint
  have "answers (contiguous_slots h p rs)" for p rs by (induction rs arbitrary: p) auto
  with ContiguousConstraint show ?thesis by (simp add: contiguous_check_schedule_section_def split: list.split)
qed (use lunch_answers [OF assms] in \<open>auto intro!: answers_first simp: precondition_check_schedule_section_def
    criteria_check_schedule_section_def room_concurrency_check_schedule_section_def Let_def
    duration_check_schedule_section_def availability_check_schedule_section_def
    concurrency_check_schedule_section_def\<close>)

lemma teaching_removable:
  assumes "settled h sch" and "s \<in> sections_of sch" and "t \<in> set (sec_teachers (hp_sec h s))"
  shows "\<exists>ts. remove_times (get_already_teaching_set h t) (map (rs_key h) (roomslots_of h s)) = Inr ts"
proof (rule remove_times_total)
  show "distinct (map (rs_key h) (roomslots_of h s))"
    by (rule sorted_distinct_keys [OF section_fits(2) [OF settledD(1) [OF assms(1)] assms(2)]])
  have "s \<in> set (taught_by h t)" by (rule taught_available(2) [OF settledD(1) [OF assms(1)] assms(2,3)])
  then show "set (map (rs_key h) (roomslots_of h s)) \<subseteq> get_already_teaching_set h t"
    by (auto simp: teaching_set_eq)
qed

lemma move_answers:
  assumes "settled h sch" and "s \<in> sections_of sch" and "r \<in> all_roomslots h sch" and "lunch_filled sch"
  shows "answers (check_move_section re_match c h sch s r)"
proof (cases c)
  case TeacherConcurrencyConstraint
  have "answers (concurrency_check_move_section h s r)"
    unfolding concurrency_check_move_section_def
  proof (rule answers_first)
    fix t assume "t \<in> set (sec_teachers (hp_sec h s))"
    from teaching_removable [OF assms(1,2) this] show
      "answers (rbind (remove_times (get_already_teaching_set h t) (map (rs_key h) (roomslots_of h s)))
         (\<lambda>already_teaching. first_violation (\<lambda>r. if rs_key h r \<in> already_teaching
           then violated ''TeacherConcurrencyConstraint'' ''Teacher is already teaching'' else ok) (needed h s r)))"
      by (auto intro!: answers_first)
  qed
  with TeacherConcurrencyConstraint show ?thesis by simp
next
  case ContiguousConstraint
  with schedule_answers [OF assms(1,3,4), of re_match ContiguousConstraint s] show ?thesis by simp
qed (use lunch_answers [OF assms(1,3,4)] in \<open>auto intro!: answers_first simp: precondition_check_move_section_def
    criteria_check_schedule_section_def room_concurrency_check_move_section_def Let_def
    duration_check_schedule_section_def availability_check_move_section_def\<close>)

lemma unschedule_answers: "answers (check_unschedule_section c h sch s)"
  by (cases c) (simp_all add: precondition_check_unschedule_section_def)

lemma checks_answer:
  assumes "settled (mp_heap m) (mp_schedule m)" and "in_range (mp_heap m) (mp_schedule m) mm"
    and "\<And>s1 s2. mm \<noteq> Swap s1 s2" and "lunch_filled (mp_schedule m)"
  shows "\<exists>v. checked re_match m mm = Inr v"
proof -
  have "answers (checked re_match m mm)"
  proof (cases mm)
    case (Schedule s r)
    with assms(1,2,4) schedule_answers show ?thesis
      by (auto simp: composite_check_schedule_section_def intro!: answers_first)
  next
    case (Move s r)
    with assms(1,2,4) move_answers show ?thesis
      by (auto simp: composite_check_move_section_def intro!: answers_first)
  next
    case (Unschedule s)
    with unschedule_answers show ?thesis
      by (auto simp: composite_check_unschedule_section_def intro!: answers_first)
  qed (use assms(3) in simp)
  then show ?thesis by (simp add: answers_def)
qed

subsection \<open>Scores\<close>

definition safe_classes :: "scorer_class set" where
  "safe_classes = {HungryTeacherScorer, NumSectionsScorer, NumSubjectsScorer, NumTeachersScorer,
     ResourceCriteriaScorer, ResourceMatchingScorer, ResourceValueMatchingScorer, RoomConsecutivityScorer,
     RoomSizeMismatchScorer}"

lemma rfold_preserves:
  "rfold f st xs = Inr st' \<Longrightarrow> (\<And>st x st'. f st x = Inr st' \<Longrightarrow> g st' = g st) \<Longrightarrow> g st' = g st"
  by (induction xs arbitrary: st) (auto simp: rbind_Inr_iff)

lemma score_answers:
  assumes "cls \<in> safe_classes" and "section_list sch \<noteq> []" and "sch_teachers sch \<noteq> []"
    and "new_scorer re_match criteria cls h sch = Inr sc"
  shows "\<exists>x. scorer_score sc = Inr x"
proof (cases cls)
  case HungryTeacherScorer
  with assms(4) obtain st where st: "hg_update_schedule h sch = Inr st" "sc = Hungry st" by (auto simp: check_iff)
  have "hg_total st' = hg_total st0" if "rfold (update_teacher_hungriness h) st0 ids = Inr st'" for st0 st' ids
    by (rule rfold_preserves [where g = hg_total, OF that])
      (auto simp: update_teacher_hungriness_def check_iff)
  with st assms(3) have "hg_total st \<noteq> 0"
    by (fastforce simp: hg_update_schedule_def Let_def check_iff)
  with st show ?thesis by (simp add: hg_score_schedule_def py_div_def)
next
  case NumSubjectsScorer
  with assms(2,4) show ?thesis
    by (auto simp: check_iff nsub_update_schedule_def nsub_score_schedule_def py_div_def Let_def)
next
  case ResourceCriteriaScorer
  with assms(2,4) show ?thesis
    by (auto simp: check_iff rc_init_def rc_update_schedule_def rc_score_schedule_def py_div_def Let_def
        split: if_splits)
next
  case RoomConsecutivityScorer
  with assms(4) obtain st where st: "co_update_schedule h sch = Inr st" "sc = Consecutivity st" by (auto simp: check_iff)
  have "co_num_sections st = of_nat (length (section_list sch))"
    using st(1) unfolding co_update_schedule_def
    by (rule rfold_preserves [where g = co_num_sections, THEN trans])
      (auto simp: count_boundary_def rbind_Inr_iff split: if_splits)
  with assms(2) have "co_num_sections st \<noteq> 0" by simp
  then show ?thesis by (simp add: st(2) co_score_schedule_def py_div_def)
qed (use assms in \<open>auto simp: safe_classes_def check_iff nsec_update_schedule_def nsec_score_schedule_def
    ntea_update_schedule_def ntea_score_schedule_def rm_update_schedule_def rm_score_schedule_def
    rv_update_schedule_def rv_score_schedule_def
    sz_update_schedule_def sz_score_schedule_def py_div_def Let_def split: if_splits\<close>)

definition safe_names :: "(string, rat option) dict \<Rightarrow> bool" where
  "safe_names names_and_weights \<longleftrightarrow>
     (\<forall>(name, weight)\<in>set (active names_and_weights).
        name \<in> {''HungryTeacherScorer'', ''NumSectionsScorer'', ''NumSubjectsScorer'', ''NumTeachersScorer'',
          ''ResourceCriteriaScorer'', ''ResourceMatchingScorer'', ''ResourceValueMatchingScorer'',
          ''RoomConsecutivityScorer'', ''RoomSizeMismatchScorer''})"

lemma find_class_safe:
  assumes "safe_names nws" and "(name, weight) \<in> set (active nws)" and "find_class name = Inr cls"
  shows "cls \<in> safe_classes"
  using assms unfolding safe_names_def find_class_def scorer_classes_def safe_classes_def
  by (auto simp: check_iff split: if_splits)

lemma rmap_members: "rmap f xs = Inr ys \<Longrightarrow> y \<in> set ys \<Longrightarrow> \<exists>x\<in>set xs. f x = Inr y"
  by (induction xs arbitrary: ys) (auto simp: check_iff)

lemma total_weight_nonzero: "compute_total_weight scs \<noteq> 0"
  by (simp add: compute_total_weight_def Let_def)

lemma composite_answers:
  assumes "safe_names nws" and "section_list sch \<noteq> []" and "sch_teachers sch \<noteq> []"
    and "CompositeScorer_init re_match nws criteria h sch = Inr cs"
  shows "\<exists>x. composite_score cs = Inr x"
proof -
  from assms(4) obtain scs where scs: "rmap (load_scorer re_match criteria h sch) (active nws) = Inr scs"
    and cs: "cs = \<lparr>cs_scorers = scs, cs_total_weight = compute_total_weight scs\<rparr>"
    by (auto simp: CompositeScorer_init_def check_iff)
  have scored: "\<exists>x. scorer_score sc = Inr x" if "(sc, weight) \<in> set scs" for sc weight
  proof -
    from rmap_members [OF scs that] obtain name cls where
      "(name, weight) \<in> set (active nws)" "find_class name = Inr cls" "new_scorer re_match criteria cls h sch = Inr sc"
      by (auto simp: load_scorer_def check_iff split: prod.splits)
    with score_answers [OF find_class_safe [OF assms(1)] assms(2,3)] show ?thesis by blast
  qed
  have "\<exists>x. rfold (\<lambda>total (sc, weight). rbind (scorer_score sc) (\<lambda>score. Inr (total + score * weight * scaling sc)))
      total xs = Inr x" if "set xs \<subseteq> set scs" for total xs
    using that
  proof (induction xs arbitrary: total)
    case (Cons p xs)
    obtain sc weight where p: "p = (sc, weight)" by (cases p)
    from Cons.prems have "(sc, weight) \<in> set scs" by (simp add: p)
    from scored [OF this] obtain x where "scorer_score sc = Inr x" by blast
    with Cons p show ?case by simp
  qed simp
  from this [of scs 0] obtain x where
    "rfold (\<lambda>total (sc, weight). rbind (scorer_score sc) (\<lambda>score. Inr (total + score * weight * scaling sc))) 0 scs = Inr x"
    by blast
  then show ?thesis by (simp add: composite_score_def cs py_div_def total_weight_nonzero)
qed

theorem never_raises_composite:
  assumes "tracked re_match nws criteria m0" and "safe_names nws"
    and "section_list (mp_schedule m0) \<noteq> []" and "sch_teachers (mp_schedule m0) \<noteq> []"
    and "lunch_filled (mp_schedule m0)"
  shows "never_raises re_match m0"
  unfolding never_raises_def
proof (intro allI impI conjI)
  fix m assume r: "accepted_run re_match m0 m"
  from accepted_reachable [OF this tracked_managed [OF assms(1)]]
  have sch: "mp_schedule m = mp_schedule m0" using reachable_sel by blast
  from run_tracked [OF r assms(1)] have t: "settled (mp_heap m) (mp_schedule m)"
    "CompositeScorer_init re_match nws criteria (mp_heap m) (mp_schedule m) = Inr (mp_scorer m)"
    by (auto simp: tracked_def)
  show "\<exists>x. composite_score (mp_scorer m) = Inr x"
    by (rule composite_answers [OF assms(2) _ _ t(2)]) (use assms sch in simp_all)
  show "\<exists>v. checked re_match m mm = Inr v"
    if "in_range (mp_heap m) (mp_schedule m) mm" and "\<forall>s1 s2. mm \<noteq> Swap s1 s2" for mm
    by (rule checks_answer [OF t(1) that(1)]) (use that assms sch in simp_all)
qed

end
