(* ===== verification/History_Summary.thy ===== *)
theory History_Summary
  imports Manipulator
begin

section \<open>Summarising a history (simplify\_history in autoscheduler/controller.py)\<close>

text \<open>
  \<open>simplify_history\<close> maps each section that a history touches to the first roomslot before
  and after, and turns each pair into an action. For the history of a run,
  \<open>simplify_history_reachable\<close> shows that the two are the roomslots before and after the
  whole run, and that every section not mentioned has not moved. A section that the run
  schedules and unschedules again makes the assertion fail (\<open>simplify_history_idle\<close>).
\<close>

type_synonym changes = "(secref, rsref option \<times> rsref option) dict"

definition record_change ::
  "changes \<Rightarrow> secref \<Rightarrow> rsref option result \<Rightarrow> rsref option result \<Rightarrow> changes result" where
  "record_change sections section old new =
     (case map_of sections section of
        None \<Rightarrow> rbind old (\<lambda>o'. rbind new (\<lambda>n. Inr (AList.update section (o', n) sections)))
      | Some (o', _) \<Rightarrow> rbind new (\<lambda>n. Inr (AList.update section (o', n) sections)))"

definition slot :: "rsref option \<Rightarrow> rsref option result" where
  "slot x = rbind (key x) (\<lambda>r. Inr (Some r))"

definition note_action :: "changes \<Rightarrow> action \<Rightarrow> changes result" where
  "note_action sections a =
     (if act_action a = ''schedule'' then
        rbind (key (act_section a)) (\<lambda>s. record_change sections s (Inr None) (slot (act_start a)))
      else if act_action a = ''move'' then
        rbind (key (act_section a)) (\<lambda>s. record_change sections s (slot (act_prev a)) (slot (act_start a)))
      else if act_action a = ''unschedule'' then
        rbind (key (act_section a)) (\<lambda>s. record_change sections s (slot (act_prev a)) (Inr None))
      else if act_action a = ''swap'' then
        rbind (key (act_sections a)) (\<lambda>ss.
        rbind (key (act_original a)) (\<lambda>rs.
        rfold (\<lambda>d (s, old_r, new_r). record_change d s (Inr (Some old_r)) (Inr (Some new_r)))
          sections (zip ss (zip rs (rev rs)))))
      else Inr sections)"

definition net_action :: "secref \<times> rsref option \<times> rsref option \<Rightarrow> action result" where
  "net_action = (\<lambda>(section, old_r, new_r).
     case old_r of
       None \<Rightarrow> (case new_r of None \<Rightarrow> Inl (AssertionError ''Did nothing'')
                | Some n \<Rightarrow> Inr (schedule_action section n))
     | Some p \<Rightarrow> (case new_r of None \<Rightarrow> Inr (unschedule_action section p)
                | Some n \<Rightarrow> Inr (move_action section n p)))"

definition simplify_history :: "action list \<Rightarrow> action list result" where
  "simplify_history history = rbind (rfold note_action [] history) (rmap net_action)"

subsection \<open>What the dictionary says of a run\<close>

definition first_slot :: "heap \<Rightarrow> secref \<Rightarrow> rsref option" where
  "first_slot h s = (case roomslots_of h s of [] \<Rightarrow> None | r # _ \<Rightarrow> Some r)"

lemma first_slot_simps [simp]:
  "first_slot h s = None \<longleftrightarrow> roomslots_of h s = []"
  "first_slot h s = Some r \<longleftrightarrow> roomslots_of h s \<noteq> [] \<and> hd (roomslots_of h s) = r"
  "None = first_slot h s \<longleftrightarrow> roomslots_of h s = []"
  "Some r = first_slot h s \<longleftrightarrow> roomslots_of h s \<noteq> [] \<and> hd (roomslots_of h s) = r"
  by (auto simp: first_slot_def split: list.split)

text \<open>\<open>tells h0 h sections\<close>: the pairs are the first roomslots in \<open>h0\<close> and \<open>h\<close>, and the sections not
  listed have the same roomslots in both.\<close>

definition tells :: "heap \<Rightarrow> heap \<Rightarrow> changes \<Rightarrow> bool" where
  "tells h0 h sections \<longleftrightarrow>
     distinct (map fst sections) \<and>
     (\<forall>s a b. map_of sections s = Some (a, b) \<longrightarrow> a = first_slot h0 s \<and> b = first_slot h s) \<and>
     (\<forall>s. map_of sections s = None \<longrightarrow> roomslots_of h s = roomslots_of h0 s)"

lemma tells_refl: "tells h h []"
  by (simp add: tells_def)

lemma tells_record:
  assumes "tells h0 h sections" and "\<And>x. x \<noteq> s \<Longrightarrow> roomslots_of h' x = roomslots_of h x"
    and "old = Inr (first_slot h s)" and "new = Inr (first_slot h' s)"
  shows "\<exists>d. record_change sections s old new = Inr d \<and> tells h0 h' d"
proof -
  have fs: "first_slot h' x = first_slot h x" if "x \<noteq> s" for x
    using assms(2) [OF that] by (simp add: first_slot_def)
  let ?d = "AList.update s (first_slot h0 s, first_slot h' s) sections"
  have "record_change sections s old new = Inr ?d"
  proof (cases "map_of sections s")
    case None
    then have "first_slot h0 s = first_slot h s" using assms(1) by (simp add: tells_def first_slot_def)
    with None assms(3,4) show ?thesis by (simp add: record_change_def)
  next
    case (Some p)
    with assms(1) have "p = (first_slot h0 s, snd p)" unfolding tells_def by (metis prod.collapse)
    with Some assms(4) show ?thesis by (metis (no_types, lifting) case_prod_conv option.simps(5) rbind_simps(2) record_change_def)
  qed
  moreover have "tells h0 h' ?d"
    using assms(1,2) fs unfolding tells_def
    by (auto simp: map_of_update_eq distinct_update)
  ultimately show ?thesis by blast
qed

text \<open>The first roomslots before and after a step.\<close>

lemma step_slots:
  assumes "manip_step sch h mm h'"
  shows "case mm of
      Schedule s r \<Rightarrow> first_slot h s = None \<and> first_slot h' s = Some r \<and>
        (\<forall>x. x \<noteq> s \<longrightarrow> roomslots_of h' x = roomslots_of h x)
    | Move s r \<Rightarrow> first_slot h s = Some (hd (roomslots_of h s)) \<and> first_slot h' s = Some r \<and>
        (\<forall>x. x \<noteq> s \<longrightarrow> roomslots_of h' x = roomslots_of h x)
    | Unschedule s \<Rightarrow> first_slot h s = Some (hd (roomslots_of h s)) \<and> first_slot h' s = None \<and>
        (\<forall>x. x \<noteq> s \<longrightarrow> roomslots_of h' x = roomslots_of h x)
    | Swap s1 s2 \<Rightarrow> s1 \<noteq> s2 \<and> first_slot h s1 = Some (hd (roomslots_of h s1)) \<and>
        first_slot h s2 = Some (hd (roomslots_of h s2)) \<and> roomslots_of h' s1 = roomslots_of h s2 \<and>
        roomslots_of h' s2 = roomslots_of h s1 \<and>
        (\<forall>x. x \<noteq> s1 \<longrightarrow> x \<noteq> s2 \<longrightarrow> roomslots_of h' x = roomslots_of h x)"
  using assms
proof (cases rule: manip_step.cases)
  case (step_schedule s r)
  note st = settledD(2) [OF step_schedule(2)]
  from schedule_effect_sel(1) [OF st step_schedule(5,6)] grs_registered(1,2) [OF st step_schedule(5)] step_schedule
  show ?thesis by simp
next
  case (step_move s r)
  note st = settledD(2) [OF step_move(2)]
  from move_effect_sel(1) [OF st step_move(5,6)] grs_registered(1,2) [OF st step_move(5)] step_move
  show ?thesis by simp
next
  case (step_unschedule s)
  then show ?thesis by (simp add: unschedule_effect_def)
next
  case (step_swap s1 s2)
  from swap_effect_sel(1) [OF settledD(1) [OF step_swap(2)] step_swap(3,4,5,10)] step_swap
  show ?thesis by simp
qed

lemma note_entry:
  assumes "tells h0 h sections" and "manip_step sch h mm h'"
  shows "\<exists>d. note_action sections (entry h mm) = Inr d \<and> tells h0 h' d"
proof (cases mm)
  case (Swap s1 s2)
  with step_slots [OF assms(2)] have sw: "s1 \<noteq> s2" "first_slot h s1 = Some (hd (roomslots_of h s1))"
    "first_slot h s2 = Some (hd (roomslots_of h s2))" "roomslots_of h' s1 = roomslots_of h s2"
    "roomslots_of h' s2 = roomslots_of h s1" "\<And>x. x \<noteq> s1 \<Longrightarrow> x \<noteq> s2 \<Longrightarrow> roomslots_of h' x = roomslots_of h x"
    by auto
  define h1 where "h1 = set_roomslots h s1 (roomslots_of h s2)"
  have h1: "roomslots_of h1 x = (if x = s1 then roomslots_of h s2 else roomslots_of h x)" for x
    by (simp add: h1_def set_roomslots_def)
  have "\<exists>d. record_change sections s1 (Inr (first_slot h s1)) (Inr (first_slot h1 s1)) = Inr d \<and> tells h0 h1 d"
    by (rule tells_record [OF assms(1)]) (simp_all add: h1)
  then obtain d1 where d1: "record_change sections s1 (Inr (first_slot h s1)) (Inr (first_slot h1 s1)) = Inr d1"
    "tells h0 h1 d1" by blast
  have "\<exists>d. record_change d1 s2 (Inr (first_slot h1 s2)) (Inr (first_slot h' s2)) = Inr d \<and> tells h0 h' d"
    by (rule tells_record [OF d1(2)]) (use sw h1 in auto)
  then obtain d2 where d2: "record_change d1 s2 (Inr (first_slot h1 s2)) (Inr (first_slot h' s2)) = Inr d2"
    "tells h0 h' d2" by blast
  have slots: "first_slot h1 s1 = first_slot h s2" "first_slot h1 s2 = first_slot h s2" "first_slot h' s2 = first_slot h s1"
    using sw by (auto simp: first_slot_def h1)
  from d1(1) d2 show ?thesis
    by (simp add: Swap note_action_def swap_action_def slots sw(2,3) first_roomslot_def)
qed (use assms(1) step_slots [OF assms(2)] in \<open>auto simp: note_action_def schedule_action_def move_action_def
    unschedule_action_def slot_def first_roomslot_def intro!: tells_record\<close>)

subsection \<open>The summary of a run\<close>

definition mentions :: "action \<Rightarrow> secref set" where
  "mentions a = set_option (act_section a) \<union> \<Union> (set ` set_option (act_sections a))"

lemma record_change_keys:
  assumes "record_change d s old new = Inr d'"
  shows "set (dict_keys d') = insert s (set (dict_keys d))"
proof -
  from assms obtain v where "d' = AList.update s v d"
    by (auto simp: record_change_def check_iff split: option.splits)
  then show ?thesis by (auto simp: dict_keys_update)
qed

lemma note_entry_keys:
  "note_action d (entry h mm) = Inr d' \<Longrightarrow> set (dict_keys d') = mentions (entry h mm) \<union> set (dict_keys d)"
  by (cases mm) (auto simp: note_action_def schedule_action_def move_action_def unschedule_action_def
      swap_action_def mentions_def check_iff dest!: record_change_keys)

lemma reachable_tells:
  assumes "reachable re_match m0 m" and "mp_history m0 = []"
  shows "\<exists>d. rfold note_action [] (mp_history m) = Inr d \<and> tells (mp_heap m0) (mp_heap m) d \<and>
    set (dict_keys d) = \<Union> (mentions ` set (mp_history m))"
  using assms
proof (induction rule: reachable.induct)
  case (reach_step m mm m')
  then obtain d where d: "rfold note_action [] (mp_history m) = Inr d" "tells (mp_heap m0) (mp_heap m) d"
    "set (dict_keys d) = \<Union> (mentions ` set (mp_history m))" by blast
  from note_entry [OF d(2) moved_step [OF reach_step.hyps(2)]] obtain d' where
    d': "note_action d (entry (mp_heap m) mm) = Inr d'" "tells (mp_heap m0) (mp_heap m') d'" by blast
  with note_entry_keys [OF d'(1)] d moved_sel(3) [OF reach_step.hyps(2)] show ?case
    by (simp add: rfold_append)
qed (simp_all add: tells_refl dict_keys_def)

definition net_change :: "heap \<Rightarrow> heap \<Rightarrow> secref \<Rightarrow> action result" where
  "net_change h0 h s = net_action (s, first_slot h0 s, first_slot h s)"

lemma simplify_history_reachable:
  assumes "reachable re_match m0 m" and "mp_history m0 = []"
  shows "\<exists>touched. distinct touched \<and> set touched = \<Union> (mentions ` set (mp_history m)) \<and>
    (\<forall>s. s \<notin> set touched \<longrightarrow> roomslots_of (mp_heap m) s = roomslots_of (mp_heap m0) s) \<and>
    simplify_history (mp_history m) = rmap (net_change (mp_heap m0) (mp_heap m)) touched"
proof -
  from reachable_tells [OF assms] obtain d where d: "rfold note_action [] (mp_history m) = Inr d"
    "tells (mp_heap m0) (mp_heap m) d" "set (dict_keys d) = \<Union> (mentions ` set (mp_history m))" by blast
  have entry: "map_of d (fst p) = Some (snd p)" if "p \<in> set d" for p
    using d(2) that by (cases p) (simp add: tells_def)
  have "rmap net_action d' = rmap (net_change (mp_heap m0) (mp_heap m)) (map fst d')" if "set d' \<subseteq> set d" for d'
    using that
  proof (induction d')
    case (Cons p d')
    obtain s a b where p: "p = (s, a, b)" by (cases p)
    with Cons.prems entry [of p] have "map_of d s = Some (a, b)" by simp
    with d(2) have "a = first_slot (mp_heap m0) s" "b = first_slot (mp_heap m) s" by (simp_all add: tells_def)
    with Cons show ?case by (simp add: p net_change_def)
  qed simp
  then have "simplify_history (mp_history m) = rmap (net_change (mp_heap m0) (mp_heap m)) (map fst d)"
    by (simp add: simplify_history_def d(1))
  moreover have "map_of d s = None" if "s \<notin> set (map fst d)" for s
    using that by (simp add: map_of_eq_None_iff)
  ultimately show ?thesis
    using d(2,3) by (intro exI [of _ "map fst d"]) (simp add: tells_def dict_keys_def)
qed

lemma rmap_Inl_iff: "(\<exists>e. rmap f xs = Inl e) \<longleftrightarrow> (\<exists>x\<in>set xs. \<exists>e. f x = Inl e)"
proof (induction xs)
  case (Cons x xs)
  then show ?case by (cases "f x"; cases "rmap f xs") auto
qed simp

lemma net_change_error:
  "net_change h0 h s = Inl e \<longleftrightarrow>
     \<not> is_scheduled h0 s \<and> \<not> is_scheduled h s \<and> e = AssertionError ''Did nothing''"
  by (cases "roomslots_of h0 s"; cases "roomslots_of h s")
    (auto simp: net_change_def net_action_def first_slot_def)

lemma rmap_error_value:
  "rmap f xs = Inl e \<Longrightarrow> \<exists>x\<in>set xs. f x = Inl e"
proof (induction xs)
  case (Cons x xs)
  then show ?case by (cases "f x"; cases "rmap f xs") auto
qed simp

text \<open>The summary fails exactly when some section was put in and taken out again.\<close>

lemma simplify_history_idle:
  assumes "reachable re_match m0 m" and "mp_history m0 = []"
  shows "simplify_history (mp_history m) = Inl e \<longleftrightarrow>
    e = AssertionError ''Did nothing'' \<and>
    (\<exists>s\<in>\<Union> (mentions ` set (mp_history m)). \<not> is_scheduled (mp_heap m0) s \<and> \<not> is_scheduled (mp_heap m) s)"
proof -
  from simplify_history_reachable [OF assms] obtain touched where
    t: "set touched = \<Union> (mentions ` set (mp_history m))"
      "simplify_history (mp_history m) = rmap (net_change (mp_heap m0) (mp_heap m)) touched" by blast
  show ?thesis
    unfolding t(2) t(1) [symmetric]
    using rmap_Inl_iff [of "net_change (mp_heap m0) (mp_heap m)" touched]
      rmap_error_value [of "net_change (mp_heap m0) (mp_heap m)" touched]
    by (auto simp: net_change_error simp del: is_scheduled_iff)
qed

end
