(* ===== verification/Program_Settings.thy ===== *)
theory Program_Settings
  imports Constraints Resource_Checker
begin

section \<open>Settings of the autoscheduler (config.py, db\_interface.py, controller.py)\<close>

text \<open>
  The default settings of \<open>config.py\<close> and the functions that merge them with the program's
  tags and with the caller's overrides: \<open>load_constraints\<close>, \<open>load_scorers\<close>,
  \<open>load_resource_constraints\<close>, \<open>load_resource_scoring\<close> of \<open>db_interface.py\<close> and the option pages
  built on them in \<open>controller.py\<close>. The result of \<open>json.loads\<close> on a tag is an argument: None
  when the text is not JSON, which raises \<open>ValueError\<close> there. The numbers are exact.

  \<open>override_lookup\<close> is the law of the merge (the last dictionary with the key wins);
  \<open>load_all_lookup\<close> states what the criteria of a program are.
\<close>

datatype option_value = BoolOption bool | NumberOption rat | TextOption string | NoneOption

type_synonym options = "(string, option_value) dict"

subsection \<open>config.py\<close>

definition DEFAULT_CONSTRAINTS_ENABLED :: options where
  "DEFAULT_CONSTRAINTS_ENABLED =
     [(''LunchConstraint'', BoolOption True), (''ResourceCriteriaConstraint'', BoolOption True)]"

definition CONSTRAINT_DESCRIPTIONS :: "(string, string) dict" where
  "CONSTRAINT_DESCRIPTIONS =
     [(''ContiguousConstraint'', ''Schedule sections over contiguous timeblocks.''),
      (''LunchConstraint'', ''Don't schedule multi-hour sections over lunch.''),
      (''PreconditionConstraint'', ''Only unschedule already-scheduled classes, etc.''),
      (''ResourceCriteriaConstraint'', ''Specially specified resource criteria must be met.''),
      (''RoomAvailabilityConstraint'', ''Only schedule classes in rooms that we have reserved.''),
      (''RoomConcurrencyConstraint'', ''Don't double-book rooms.''),
      (''SectionDurationConstraint'', ''Schedule sections for their duration.''),
      (''TeacherAvailabilityConstraint'', ''Teachers can only teach when they're available.''),
      (''TeacherConcurrencyConstraint'', ''Teachers can't teach two classes at once.'')]"

definition DEFAULT_SCORER_WEIGHTS :: options where
  "DEFAULT_SCORER_WEIGHTS = map (\<lambda>(k, w). (k, NumberOption w))
     [(''AdminDistributionScorer'', 70), (''CategoryBalanceScorer'', 10),
      (''LunchStudentClassHoursScorer'', 20), (''HungryTeacherScorer'', 70),
      (''NumSectionsScorer'', 100), (''NumSubjectsScorer'', 60), (''NumTeachersScorer'', 50),
      (''ResourceCriteriaScorer'', 300), (''ResourceMatchingScorer'', 500),
      (''ResourceValueMatchingScorer'', 450), (''RoomConsecutivityScorer'', 10),
      (''RoomSizeMismatchScorer'', 350), (''StudentClassHoursScorer'', 50),
      (''TeachersWhoLikeRunningScorer'', 10)]"

definition SCORER_DESCRIPTIONS :: "(string, string) dict" where
  "SCORER_DESCRIPTIONS =
     [(''AdminDistributionScorer'', ''Schedule admin classes evenly and not in the morning.''),
      (''CategoryBalanceScorer'', ''Schedule each category's student-class-hours evenly.''),
      (''LunchStudentClassHoursScorer'', ''Prioritize scheduling classes away from lunchtime.''),
      (''HungryTeacherScorer'', ''Avoid teachers teaching both blocks of lunch.''),
      (''NumSectionsScorer'', ''Schedule as many class sections as possible.''),
      (''NumSubjectsScorer'', ''Schedule as many distinct classes as possible.''),
      (''NumTeachersScorer'', ''Schedule as many distinct teachers' classes as possible.''),
      (''ResourceCriteriaScorer'', ''If we have specially defined resource criteria, score them.''),
      (''ResourceMatchingScorer'', ''If a section requested a resource, give it to them.''),
      (''ResourceValueMatchingScorer'', ''If a section requested a resource and value, do it.''),
      (''RoomConsecutivityScorer'', ''Try to schedule classes consecutively in rooms.''),
      (''RoomSizeMismatchScorer'', ''Schedule classes in appropriately sized rooms.''),
      (''StudentClassHoursScorer'', ''Schedule as many student-class-hours as possible.''),
      (''TeachersWhoLikeRunningScorer'', ''Avoid teachers teaching back-to-back in different rooms.'')]"

text \<open>The pattern is the regular expression of a name that starts with a star; 92 is the backslash.\<close>

definition STAR_CLASSROOM_PATTERN :: string where
  "STAR_CLASSROOM_PATTERN = ''^'' @ [char_of (92 :: nat)] @ ''*.*$''"

definition DEFAULT_RESOURCE_CONSTRAINTS :: "(string, string option) dict" where
  "DEFAULT_RESOURCE_CONSTRAINTS =
     [(''restrict_star_classrooms'',
         Some (''if any section then not classroom matches '' @ STAR_CLASSROOM_PATTERN)),
      (''restrict_star_classrooms_comment'',
         Some ''Ignore all classrooms with names marked with a star, e.g. *16-628.'')]"

subsection \<open>Merging with the tags\<close>

text \<open>\<open>k in s\<close> for texts.\<close>

definition contains :: "string \<Rightarrow> string \<Rightarrow> bool" where
  "contains part s \<longleftrightarrow> (\<exists>i\<in>set [0..<Suc (length s)]. prefix part (drop i s))"

definition loaded_tag :: "string \<Rightarrow> 'a option \<Rightarrow> 'a result" where
  "loaded_tag msg tag = (case tag of None \<Rightarrow> Inl (SchedulingError msg) | Some d \<Rightarrow> Inr d)"

definition load_constraints :: "options option \<Rightarrow> options \<Rightarrow> options result" where
  "load_constraints tag constraints_overrides =
     rbind (loaded_tag ''Constraints Tag is malformatted with error {e}: {tag_value}'' tag) (\<lambda>tag_overrides.
     Inr (override [DEFAULT_CONSTRAINTS_ENABLED, tag_overrides, constraints_overrides]))"

definition load_scorers :: "options option \<Rightarrow> options \<Rightarrow> options result" where
  "load_scorers tag scorer_overrides =
     rbind (loaded_tag ''Scoring Tag is malformatted with error {e}: {tag_value}'' tag) (\<lambda>tag_overrides.
     Inr (override [DEFAULT_SCORER_WEIGHTS, tag_overrides, scorer_overrides]))"

definition drop_comments :: "(string, 'v) dict \<Rightarrow> (string, 'v) dict" where
  "drop_comments d = filter (\<lambda>(k, v). \<not> contains ''_comment'' k) d"

definition resource_constraint_specs ::
  "(string, string option) dict option \<Rightarrow> (string, string option) dict \<Rightarrow> bool \<Rightarrow>
   (string, string option) dict list result" where
  "resource_constraint_specs tag specification_overrides ignore_comments =
     rbind (loaded_tag ''Resource constraints Tag is malformatted with error {e}: {tag_value}'' tag) (\<lambda>d.
     Inr [DEFAULT_RESOURCE_CONSTRAINTS, if ignore_comments then drop_comments d else d, specification_overrides])"

text \<open>The two definitions are the two values of \<open>specs_only\<close>.\<close>

definition load_resource_constraints ::
  "(string, string option) dict option \<Rightarrow> (string, string option) dict \<Rightarrow> bool \<Rightarrow>
   (string, string option) dict result" where
  "load_resource_constraints tag specification_overrides ignore_comments =
     rbind (resource_constraint_specs tag specification_overrides ignore_comments) (\<lambda>specs.
     Inr (filter (\<lambda>(name, spec). \<not> spec_dropped spec) (override specs)))"

definition load_resource_constraint_criteria ::
  "(string, string option) dict option \<Rightarrow> (string, string option) dict \<Rightarrow> bool \<Rightarrow> string list \<Rightarrow>
   criterion list result" where
  "load_resource_constraint_criteria tag specification_overrides ignore_comments valid_res_types =
     rbind (resource_constraint_specs tag specification_overrides ignore_comments) (\<lambda>specs.
     create_resource_criteria specs valid_res_types)"

text \<open>
  An entry of the scoring tag is a list of a specification and a weight. A remark, which is
  a text, does not unpack into two values (the model leaves out texts of two characters,
  which do).
\<close>

datatype scoring_entry = Weighted "string option" rat | Remark string

fun unpack_entry :: "scoring_entry \<Rightarrow> (string option \<times> rat) result" where
  "unpack_entry (Weighted spec weight) = Inr (spec, weight)"
| "unpack_entry (Remark _) = Inl (ValueError ''too many values to unpack (expected 2)'')"

definition load_resource_scoring ::
  "(string, scoring_entry) dict option \<Rightarrow> (string, scoring_entry) dict \<Rightarrow> bool \<Rightarrow>
   (string, string option \<times> rat) dict result" where
  "load_resource_scoring tag specification_overrides ignore_comments =
     rbind (loaded_tag ''Resource scoring Tag is malformatted with error {e}: {tag_value}'' tag) (\<lambda>d.
     let specs = [[], if ignore_comments then drop_comments d else d, specification_overrides] in
     rbind (rmap (\<lambda>(name, e). rbind (unpack_entry e) (\<lambda>x. Inr (name, x))) (override specs)) (\<lambda>entries.
     Inr (filter (\<lambda>(name, spec, weight). \<not> spec_dropped spec) entries)))"

definition with_comments ::
  "(string, string option \<times> rat) dict \<Rightarrow> (string, string option \<times> rat) dict" where
  "with_comments resource_criteria =
     fold (\<lambda>k d. case map_of d (k @ ''_comment'') of
          None \<Rightarrow> d
        | Some (spec, _) \<Rightarrow> AList.update k (spec, snd (the (map_of d k))) d)
       (dict_keys resource_criteria) resource_criteria"

definition load_all_resource_criteria ::
  "(string, string option) dict option \<Rightarrow> (string, scoring_entry) dict option \<Rightarrow> bool \<Rightarrow>
   (string, string option \<times> rat) dict result" where
  "load_all_resource_criteria constraints_tag scoring_tag use_comments =
     rbind (load_resource_constraints constraints_tag [] (\<not> use_comments)) (\<lambda>resource_constraints.
     let overrides = map (\<lambda>(k, v). (k, Weighted v (-1))) resource_constraints in
     rbind (load_resource_scoring scoring_tag overrides (\<not> use_comments)) (\<lambda>resource_criteria.
     Inr (drop_comments (if use_comments then with_comments resource_criteria else resource_criteria))))"

subsection \<open>The option pages\<close>

definition describe :: "(string, string) dict \<Rightarrow> options \<Rightarrow> (string, option_value \<times> string) dict result" where
  "describe descriptions d = rmap (\<lambda>(k, v). rbind (dict_get descriptions k) (\<lambda>x. Inr (k, v, x))) d"

definition constraint_options :: "options option \<Rightarrow> (string, option_value \<times> string) dict result" where
  "constraint_options tag =
     rbind (load_constraints tag (map (\<lambda>c. (c, TextOption ''Required'')) get_required_constraint_names))
       (describe CONSTRAINT_DESCRIPTIONS)"

definition scorer_options :: "options option \<Rightarrow> (string, option_value \<times> string) dict result" where
  "scorer_options tag = rbind (load_scorers tag []) (describe SCORER_DESCRIPTIONS)"

definition resource_options ::
  "(string, string option) dict option \<Rightarrow> (string, scoring_entry) dict option \<Rightarrow>
   (string, rat \<times> string option) dict result" where
  "resource_options constraints_tag scoring_tag =
     rbind (load_all_resource_criteria constraints_tag scoring_tag True) (\<lambda>d.
     Inr (map (\<lambda>(k, spec, wt). (k, wt, spec)) d))"

text \<open>\<open>emailcode_of\<close> stands for the lookup of a section of the program by its id.\<close>

definition search_options ::
  "(int \<Rightarrow> string option) \<Rightarrow> int option \<Rightarrow> (string, option_value \<times> string) dict" where
  "search_options emailcode_of section_id =
     (let emailcode = (case Option.bind section_id emailcode_of of None \<Rightarrow> ''X1234s1'' | Some c \<Rightarrow> c) in
      [(''section_emailcode'', TextOption emailcode, ''Emailcode of the section to optimize.''),
       (''depth'', NumberOption 1, ''Depth to search. 1, 2, maybe 3 are okay, 4 is too slow.''),
       (''timeout'', NumberOption 10, ''Timeout in seconds for the search.''),
       (''require_approved'', BoolOption True, ''Only schedule approved classes.''),
       (''exclude_lunch'', BoolOption True, ''Don't schedule lunch classes.''),
       (''exclude_walkins'', BoolOption True, ''Don't schedule walk-ins.''),
       (''exclude_scheduled'', BoolOption False, ''Don't touch already-scheduled classes.''),
       (''exclude_locked'', BoolOption True, ''Don't touch classes locked on the AJAX scheduler'')])"

subsection \<open>Laws of the merge\<close>

lemma map_of_rev_distinct: "distinct (map fst d) \<Longrightarrow> map_of (rev d) = map_of d"
proof (induction d)
  case (Cons p d)
  obtain k v where p: "p = (k, v)" by (cases p)
  with Cons.prems have "map_of d k = None" by (simp add: map_of_eq_None_iff)
  with Cons show ?case by (auto simp: p map_add_def fun_eq_iff split: option.split)
qed simp

lemma override_Nil [simp]: "override [] = []"
  by (simp add: override_def)

lemma override3:
  assumes "distinct (map fst a)" "distinct (map fst b)" "distinct (map fst c)"
  shows "map_of (override [a, b, c]) = map_of a ++ map_of b ++ map_of c"
  using override_snoc_lookup [of "[a, b]" c] override_snoc_lookup [of "[a]" b] override_snoc_lookup [of "[]" a]
  by (simp add: map_of_rev_distinct [OF assms(1)] map_of_rev_distinct [OF assms(2)] map_of_rev_distinct [OF assms(3)])

lemma contains_iff: "contains part s \<longleftrightarrow> sublist part s"
proof
  assume "contains part s"
  then obtain i ys where "drop i s = part @ ys" by (auto simp: contains_def prefix_def)
  then have "s = take i s @ part @ ys" by (metis append_take_drop_id)
  then show "sublist part s" by (metis sublist_appendI)
next
  assume "sublist part s"
  then obtain xs ys where "s = xs @ part @ ys" by (auto simp: sublist_def)
  then show "contains part s" unfolding contains_def
    by (intro bexI [of _ "length xs"]) auto
qed

lemma distinct_override: "distinct (map fst (override ds))"
proof -
  have "distinct (map fst (fold (\<lambda>d output. fold (\<lambda>(k, v) out. AList.update k v out) d output) ds acc))"
    if "distinct (map fst acc)" for acc
    using that by (induction ds arbitrary: acc) (auto intro: distinct_keys_fold_update)
  then show ?thesis by (simp add: override_def)
qed

lemma map_of_filter_keys: "map_of (filter (\<lambda>(k, v). P k) d) k = (if P k then map_of d k else None)"
  by (induction d) auto

lemma map_of_filter_values:
  "distinct (map fst d) \<Longrightarrow>
   map_of (filter (\<lambda>(k, v). P v) d) k = (case map_of d k of None \<Rightarrow> None | Some v \<Rightarrow> if P v then Some v else None)"
proof (induction d)
  case (Cons p d)
  obtain k' v' where "p = (k', v')" by (cases p)
  with Cons show ?case by (auto simp: map_of_eq_None_iff split: option.split dest: map_of_SomeD)
qed simp

lemma distinct_filter_keys: "distinct (map fst d) \<Longrightarrow> distinct (map fst (filter P d))"
  by (simp add: distinct_map_filter)

lemma rmap_entries:
  assumes "rmap (\<lambda>(n, e). rbind (f e) (\<lambda>x. Inr (n, x))) d = Inr d'"
  shows "map fst d' = map fst d"
    and "map_of d' k = (case map_of d k of None \<Rightarrow> None | Some e \<Rightarrow> (case f e of Inl _ \<Rightarrow> None | Inr x \<Rightarrow> Some x))"
  using assms by (induction d arbitrary: d') (auto simp: check_iff)

subsection \<open>The criteria of a program\<close>

definition required_spec :: "(string, string option) dict \<Rightarrow> string \<Rightarrow> string option" where
  "required_spec tag k =
     (case map_of (override [DEFAULT_RESOURCE_CONSTRAINTS, drop_comments tag]) k of
        None \<Rightarrow> None | Some spec \<Rightarrow> if spec_dropped spec then None else spec)"

lemma distinct_drop_comments: "distinct (map fst d) \<Longrightarrow> distinct (map fst (drop_comments d))"
  by (simp add: drop_comments_def distinct_filter_keys)

lemma drop_comments_lookup: "map_of (drop_comments d) k = (if contains ''_comment'' k then None else map_of d k)"
  by (simp add: drop_comments_def map_of_filter_keys)

lemma override_snoc_Nil [simp]: "override [a, b, []] = override [a, b]"
  by (simp add: override_def)

lemma load_all_lookup:
  assumes "distinct (map fst ctag)" and "distinct (map fst stag)"
    and "load_all_resource_criteria (Some ctag) (Some stag) False = Inr d"
  shows "map_of d k =
    (if contains ''_comment'' k then None
     else case required_spec ctag k of
            Some spec \<Rightarrow> Some (Some spec, -1)
          | None \<Rightarrow> (case map_of stag k of
                Some (Weighted spec w) \<Rightarrow> if spec_dropped spec then None else Some (spec, w)
              | _ \<Rightarrow> None))"
proof -
  define rc where "rc = filter (\<lambda>(name, spec). \<not> spec_dropped spec)
      (override [DEFAULT_RESOURCE_CONSTRAINTS, drop_comments ctag])"
  define ov where "ov = map (\<lambda>(k, v). (k, Weighted v (-1))) rc"
  from assms(3) obtain entries where
    e: "rmap (\<lambda>(name, e). rbind (unpack_entry e) (\<lambda>x. Inr (name, x))) (override [[], drop_comments stag, ov]) = Inr entries"
    and d: "d = drop_comments (filter (\<lambda>(name, spec, weight). \<not> spec_dropped spec) entries)"
    by (auto simp: load_all_resource_criteria_def load_resource_constraints_def resource_constraint_specs_def
        loaded_tag_def load_resource_scoring_def Let_def check_iff rc_def ov_def)
  have drc: "distinct (map fst rc)" by (simp add: rc_def distinct_filter_keys distinct_override)
  have rc: "map_of rc k = (case required_spec ctag k of None \<Rightarrow> None | Some s \<Rightarrow> Some (Some s))"
    by (auto simp: rc_def map_of_filter_values [OF distinct_override] required_spec_def spec_dropped_def
        split: option.split)
  have ov: "map_of ov k = map_option (\<lambda>v. Weighted v (-1)) (map_of rc k)" "distinct (map fst ov)"
    using drc by (simp_all add: ov_def map_of_map comp_def split_beta)
  have look: "map_of (override [[], drop_comments stag, ov]) = map_of (drop_comments stag) ++ map_of ov"
    using override3 [of "[]", OF _ distinct_drop_comments [OF assms(2)] ov(2)] by simp
  have de: "distinct (map fst entries)" using rmap_entries(1) [OF e] distinct_override by metis
  have vals: "map_of (filter (\<lambda>(name, spec, weight). \<not> spec_dropped spec) entries) k =
      (case map_of entries k of None \<Rightarrow> None | Some (spec, w) \<Rightarrow> if spec_dropped spec then None else Some (spec, w))"
    using map_of_filter_values [OF de, of "\<lambda>(spec, weight). \<not> spec_dropped spec" k]
    by (simp split: option.split prod.split)
  show ?thesis
  proof (cases "contains ''_comment'' k")
    case True
    then show ?thesis by (simp add: d drop_comments_lookup)
  next
    case False
    have "map_of d k = (case map_of entries k of None \<Rightarrow> None
        | Some (spec, w) \<Rightarrow> if spec_dropped spec then None else Some (spec, w))"
      using False by (simp add: d drop_comments_lookup vals)
    moreover have "map_of entries k = (case (map_of (drop_comments stag) ++ map_of ov) k of None \<Rightarrow> None
        | Some e \<Rightarrow> (case unpack_entry e of Inl _ \<Rightarrow> None | Inr x \<Rightarrow> Some x))"
      using rmap_entries(2) [OF e, of k] by (simp add: look)
    moreover have "required_spec ctag k = Some s \<Longrightarrow> \<not> spec_dropped (Some s)" for s
      by (auto simp: required_spec_def split: option.splits if_splits)
    ultimately show ?thesis
      using False by (cases "required_spec ctag k"; cases "map_of stag k")
        (auto simp: map_add_def ov rc drop_comments_lookup split: scoring_entry.split)
  qed
qed

lemma default_comment_is_no_specification:
  "split_spec ''Ignore all classrooms with names marked with a star, e.g. *16-628.'' = None"
  by (simp add: split_spec_def strip_prefix_def)

lemma create_from_specification_error:
  "create_from_specification spec name types = Inl e \<Longrightarrow> \<exists>msg. e = ValueError msg"
proof -
  have clause: "create_match_from_clause c types = Inl e \<Longrightarrow> \<exists>msg. e = ValueError msg" for c e
    by (auto simp: create_match_from_clause_def Let_def split: prod.splits option.splits if_splits)
  assume "create_from_specification spec name types = Inl e"
  then show ?thesis
    by (auto simp: create_from_specification_def rbind_def split: option.splits sum.splits clause_matcher.splits
        dest: clause)
qed

lemma rmap_error:
  assumes "x \<in> set xs" and "f x = Inl e0" and "\<And>x e. f x = Inl e \<Longrightarrow> P e"
  shows "\<exists>e. rmap f xs = Inl e \<and> P e"
  using assms(1)
proof (induction xs)
  case (Cons y ys)
  show ?case
  proof (cases "f y")
    case (Inl e)
    with assms(3) show ?thesis by auto
  next
    case (Inr z)
    with Cons assms(2) show ?thesis by (auto simp: rbind_def)
  qed
qed simp

lemma default_constraints_unparsable:
  "\<exists>msg. load_resource_constraint_criteria (Some []) [] ignore_comments types = Inl (ValueError msg)"
proof -
  let ?f = "\<lambda>(name, spec). create_from_specification (the spec) name types"
  let ?c = "''restrict_star_classrooms_comment''"
  let ?t = "''Ignore all classrooms with names marked with a star, e.g. *16-628.''"
  let ?ds = "[DEFAULT_RESOURCE_CONSTRAINTS, [], []]"
  have "map_of (override ?ds) ?c = Some (Some ?t)"
    using override3 [of DEFAULT_RESOURCE_CONSTRAINTS "[]" "[]"] by (simp add: DEFAULT_RESOURCE_CONSTRAINTS_def)
  then have "(?c, Some ?t) \<in> set (filter (\<lambda>(name, spec). \<not> spec_dropped spec) (override ?ds))"
    by (auto dest: map_of_SomeD simp: spec_dropped_def)
  moreover have "?f (?c, Some ?t) = Inl (ValueError ''ResourceCriteron spec must match 'if PREMISE then CONCLUSION'')"
    by (simp add: create_from_specification_def default_comment_is_no_specification)
  ultimately have "\<exists>e. create_resource_criteria ?ds types = Inl e \<and> (\<exists>msg. e = ValueError msg)"
    unfolding create_resource_criteria_def
    by (rule rmap_error) (auto dest: create_from_specification_error)
  then show ?thesis
    by (auto simp: load_resource_constraint_criteria_def resource_constraint_specs_def loaded_tag_def drop_comments_def)
qed

end
