(* ===== verification/Controller.thy ===== *)
theory Controller
  imports Search History_Summary Program_Settings
begin

section \<open>AutoschedulerController (autoscheduler/controller.py)\<close>

text \<open>
  The controller: it splits its options by prefix, loads criteria and schedule, builds the
  manipulator, runs the search, and exports the history with a hash of each changed section,
  which a later controller checks before it replays the history.

  \<open>export_import\<close>: importing what was exported, into a controller of the same database,
  reproduces the schedule. \<open>import_moved\<close>: a changed hash is refused. \<open>export_swap\<close>: a
  history with a swap cannot be exported. Parameters: the loading of the schedule
  (theory Loading has its parts), the tags, the resource types and the emailcodes of the program's sections; the
  deadline of the search is what \<open>datetime.now() + timedelta(seconds=timeout)\<close> gives.
\<close>

record program_data =
  pd_constraints_tag :: "(string, string option) dict option"
  pd_scoring_tag :: "(string, scoring_entry) dict option"
  pd_res_types :: "string list"
  pd_emailcodes :: "(int \<times> string) list"
  pd_load :: "options \<Rightarrow> (heap \<times> schedule) result"

record controller =
  ctl_options :: options
  ctl_manipulator :: manipulator
  ctl_roomslots :: "rsref list"
  ctl_depth :: option_value
  ctl_section :: secref
  ctl_timeout :: option_value
  ctl_initial_scores :: "(string \<times> rat \<times> rat) list"
  ctl_initial_total :: rat

subsection \<open>Options\<close>

text \<open>\<open>k.split('_', 1)[1]\<close> for the keys that start with the prefix, which ends in the first underscore.\<close>

definition options_with_prefix :: "string \<Rightarrow> options \<Rightarrow> options" where
  "options_with_prefix p opts =
     dict_of (map (\<lambda>(k, v). (drop (length p) k, v)) (filter (\<lambda>(k, v). prefix p k) opts))"

fun truthy :: "option_value \<Rightarrow> bool" where
  "truthy (BoolOption b) = b"
| "truthy (NumberOption x) = (x \<noteq> 0)"
| "truthy (TextOption s) = (s \<noteq> [])"
| "truthy NoneOption = False"

fun weight_of :: "option_value \<Rightarrow> rat option result" where
  "weight_of (BoolOption b) = Inr (Some (of_bool b))"
| "weight_of (NumberOption x) = Inr (Some x)"
| "weight_of (TextOption s) = Inl TypeError"
| "weight_of NoneOption = Inr None"

definition split_criteria ::
  "options \<Rightarrow> (string, string option \<times> rat) dict \<Rightarrow>
   ((string, string option) dict \<times> (string, string option \<times> option_value) dict) result" where
  "split_criteria resource_opts resource_criteria =
     rbind (rmap (\<lambda>(k, spec, wt). rbind (dict_get resource_opts k) (\<lambda>v. Inr (k, spec, v))) resource_criteria)
       (\<lambda>entries.
     Inr (map (\<lambda>(k, spec, v). (k, spec)) (filter (\<lambda>(k, spec, v). v = NumberOption (-1)) entries),
          filter (\<lambda>(k, spec, v). v \<noteq> NumberOption (-1)) entries))"

fun get_section_by_emailcode :: "string \<Rightarrow> schedule \<Rightarrow> (int \<times> string) list \<Rightarrow> secref result" where
  "get_section_by_emailcode emailcode sch [] = Inl (SchedulingError ''Section not found.'')"
| "get_section_by_emailcode emailcode sch ((i, c) # sections) =
     (if c = emailcode then
        (case map_of (sch_sections sch) i of
           None \<Rightarrow> Inl (SchedulingError ''Scheduler can't handle this section. This may be because it's locked, unapproved, scheduled weirdly, or otherwise excluded from sections the assistant is allowed to touch.'')
         | Some s \<Rightarrow> Inr s)
      else get_section_by_emailcode emailcode sch sections)"

text \<open>A section emailcode that is not a text equals none. A weight that is a text
  raises \<open>TypeError\<close> when it is compared or added up; for the weight of a criterion the model raises it
  before the scorer is built.\<close>

definition numeric_weights :: "(string, option_value) dict \<Rightarrow> (string, rat option) dict result" where
  "numeric_weights d = rmap (\<lambda>(k, v). rbind (weight_of v) (\<lambda>w. Inr (k, w))) d"

definition weighted_specs :: "(string, string option \<times> option_value) dict \<Rightarrow>
  (string, string option \<times> rat) dict result" where
  "weighted_specs d = rmap (\<lambda>(k, spec, v). rbind (weight_of v) (\<lambda>w.
     case w of None \<Rightarrow> Inl TypeError | Some x \<Rightarrow> Inr (k, spec, x))) d"

definition AutoschedulerController_init ::
  "(string \<Rightarrow> string \<Rightarrow> bool) \<Rightarrow> program_data \<Rightarrow> options \<Rightarrow> controller result" where
  "AutoschedulerController_init re_match pd opts =
     (let constraint_opts = options_with_prefix ''constraints_'' opts;
          scoring_opts = options_with_prefix ''scorers_'' opts;
          resource_opts = options_with_prefix ''resources_'' opts;
          search_opts = options_with_prefix ''search_'' opts;
          constraint_names = map fst (filter (\<lambda>(k, v). truthy v) constraint_opts) in
      rbind (load_all_resource_criteria (pd_constraints_tag pd) (pd_scoring_tag pd) False) (\<lambda>resource_criteria.
      rbind (split_criteria resource_opts resource_criteria) (\<lambda>(required_specs, scored_specs).
      rbind (create_resource_criteria [required_specs] (pd_res_types pd)) (\<lambda>resource_constraints.
      rbind (weighted_specs scored_specs) (\<lambda>specs.
      rbind (create_weighted_criteria [specs] (pd_res_types pd)) (\<lambda>resource_scorers.
      rbind (pd_load pd search_opts) (\<lambda>(h, schedule).
      rbind (numeric_weights scoring_opts) (\<lambda>names_and_weights.
      rbind (ScheduleManipulator_init re_match h schedule (Some (ConstraintNames constraint_names))
          resource_constraints names_and_weights resource_scorers) (\<lambda>m.
      rbind (dict_get search_opts ''depth'') (\<lambda>depth.
      rbind (dict_get search_opts ''section_emailcode'') (\<lambda>emailcode.
      rbind (case emailcode of TextOption c \<Rightarrow> get_section_by_emailcode c schedule (pd_emailcodes pd)
             | _ \<Rightarrow> Inl (SchedulingError ''Section not found.'')) (\<lambda>section.
      rbind (dict_get search_opts ''timeout'') (\<lambda>timeout.
      rbind (get_all_score_schedule (mp_scorer m)) (\<lambda>(scores, total).
      Inr \<lparr>ctl_options = opts, ctl_manipulator = m, ctl_roomslots = SearchOptimizer_init m, ctl_depth = depth,
           ctl_section = section, ctl_timeout = timeout, ctl_initial_scores = scores,
           ctl_initial_total = total\<rparr>))))))))))))))"

subsection \<open>Running, exporting and importing\<close>

text \<open>\<open>depth\<close> is the depth as a natural number; one that is not never becomes 0, and the recursion then ends by the
  deadline alone, which is not modelled.\<close>

definition natural_depth :: "option_value \<Rightarrow> nat \<Rightarrow> bool" where
  "natural_depth v depth \<longleftrightarrow> v = NumberOption (of_nat depth)"

definition compute_assignments ::
  "(string \<Rightarrow> string \<Rightarrow> bool) \<Rightarrow> (nat \<Rightarrow> datetime) \<Rightarrow> datetime \<Rightarrow> nat \<Rightarrow> controller \<Rightarrow> controller result" where
  "compute_assignments re_match now deadline depth c =
     rbind (optimize_section re_match now (Some deadline) (ctl_roomslots c) depth
         (ctl_manipulator c, 0) (ctl_section c)) (\<lambda>(acts, m, k).
     Inr (c\<lparr>ctl_manipulator := m\<rparr>))"

type_synonym stored_hash = "(string \<times> string) list \<times> string list"

text \<open>The changed sections are a set in the code; the order in which their hashes are listed here is the order of the
  history, and nothing depends on it.\<close>

definition export_assignments ::
  "controller \<Rightarrow> ((json_action list \<times> (int, stored_hash) dict) \<times> options) result" where
  "export_assignments c =
     (let m = ctl_manipulator c in
      rbind (rmap (\<lambda>a. key (act_section a)) (mp_history m)) (\<lambda>changed.
      let scheduling_hashes = dict_of (map (\<lambda>s. (sec_id (hp_sec (mp_heap m) s),
            sec_initial_state (hp_sec (mp_heap m) s))) (remdups changed)) in
      rbind (jsonify_history m) (\<lambda>history. Inr ((history, scheduling_hashes), ctl_options c))))"

definition import_assignments ::
  "(string \<Rightarrow> string \<Rightarrow> bool) \<Rightarrow> controller \<Rightarrow> json_action list \<times> (int, stored_hash) dict \<Rightarrow> controller result" where
  "import_assignments re_match c = (\<lambda>(history, scheduling_hashes).
     let m = ctl_manipulator c in
     rbind (rforeach (\<lambda>(section, scheduling_hash).
         rbind (dict_get (sch_sections (mp_schedule m)) section) (\<lambda>s.
         raise_if (sec_initial_state (hp_sec (mp_heap m) s) \<noteq> scheduling_hash)
           (SchedulingError ''Section {emailcode} was moved.''))) scheduling_hashes) (\<lambda>_.
     rbind (load_history re_match m history) (\<lambda>(success, m1).
     if \<not> success then Inl (SchedulingError ''Unable to replay assignments.'')
     else Inr (c\<lparr>ctl_manipulator := m1\<rparr>))))"

subsection \<open>What the page shows\<close>

datatype info_line = ScoreLine string rat rat rat | Truncated nat | TotalChange rat
datatype info_row = ActionRow action | ScoreRow "info_line list"

text \<open>The texts about sections and roomslots are left out: a row keeps the action it describes.\<close>

definition action_row :: "action \<Rightarrow> info_row result" where
  "action_row a =
     (if act_action a = ''schedule'' then
        rbind (key (act_section a)) (\<lambda>_. rbind (key (act_start a)) (\<lambda>_. Inr (ActionRow a)))
      else if act_action a = ''move'' then
        rbind (key (act_section a)) (\<lambda>_. rbind (key (act_prev a)) (\<lambda>_. rbind (key (act_start a)) (\<lambda>_.
        Inr (ActionRow a))))
      else if act_action a = ''unschedule'' then
        rbind (key (act_section a)) (\<lambda>_. rbind (key (act_prev a)) (\<lambda>_. Inr (ActionRow a)))
      else if act_action a = ''swap'' then
        rbind (key (act_sections a)) (\<lambda>ss. rbind (key (act_original a)) (\<lambda>rs.
        if length ss = 2 \<and> length rs = 2 then Inr (ActionRow a)
        else Inl (ValueError ''wrong number of values to unpack'')))
      else Inl (SchedulingError ''History was broken.''))"

definition score_diff ::
  "rat \<Rightarrow> (string \<times> rat \<times> rat) \<times> (string \<times> rat \<times> rat) \<Rightarrow> (string \<times> rat \<times> rat) result" where
  "score_diff n = (\<lambda>((scorer, weight, old_score), (scorer2, weight2, new_score)).
     rbind (raise_if (scorer \<noteq> scorer2) (AssertionError ''Scorers changed'')) (\<lambda>_.
     rbind (raise_if (weight \<noteq> weight2) (AssertionError ''Weights changed'')) (\<lambda>_.
     Inr (scorer, weight, (new_score - old_score) * n))))"

definition format_row :: "rat \<Rightarrow> string \<times> rat \<times> rat \<Rightarrow> info_line result" where
  "format_row total_wt = (\<lambda>(scorer, weight, delta).
     rbind (py_div (weight * delta) total_wt) (\<lambda>x. Inr (ScoreLine scorer weight delta x)))"

definition score_lines ::
  "(string \<times> rat \<times> rat) list \<Rightarrow> rat \<Rightarrow> (string \<times> rat \<times> rat) list \<Rightarrow> rat \<Rightarrow> rat \<Rightarrow> info_line list result" where
  "score_lines initial_scores initial_total final_scores final_total n =
     rbind (rmap (score_diff n) (zip initial_scores final_scores)) (\<lambda>diffs.
     let total_wt = (\<Sum>(scorer, weight, delta)\<leftarrow>diffs. weight);
         sorted_diffs = sort_key (\<lambda>(scorer, weight, delta). - delta * weight) diffs;
         total_change = (final_total - initial_total) * n in
     if length sorted_diffs > 6 then
       rbind (rmap (format_row total_wt) (take 3 sorted_diffs)) (\<lambda>top.
       rbind (rmap (format_row total_wt) (drop (length sorted_diffs - 3) sorted_diffs)) (\<lambda>bottom.
       Inr (top @ [Truncated (length sorted_diffs - 6)] @ bottom @ [TotalChange total_change])))
     else rbind (rmap (format_row total_wt) sorted_diffs) (\<lambda>rows. Inr (rows @ [TotalChange total_change])))"

definition get_scheduling_info :: "controller \<Rightarrow> info_row list result" where
  "get_scheduling_info c =
     (let m = ctl_manipulator c in
      rbind (simplify_history (mp_history m)) (\<lambda>acts.
      rbind (rmap action_row acts) (\<lambda>rows.
      if length rows > 0 then
        rbind (get_all_score_schedule (mp_scorer m)) (\<lambda>(final_scores, final_total).
        rbind (score_lines (ctl_initial_scores c) (ctl_initial_total c) final_scores final_total
            (of_nat (length (sch_sections (mp_schedule m))))) (\<lambda>row.
        Inr (rows @ [ScoreRow row])))
      else Inr rows)))"

subsection \<open>Importing what was exported\<close>

lemma set_dict_of: "set (dict_of kvs) \<subseteq> set kvs"
proof -
  have upd: "set (AList.update k v d) \<subseteq> insert (k, v) (set d)" for k v and d :: "('a \<times> 'b) list"
    by (induction d) auto
  have "set (fold (\<lambda>(k, v) d. AList.update k v d) kvs d) \<subseteq> set kvs \<union> set d" for d
  proof (induction kvs arbitrary: d)
    case (Cons p kvs)
    obtain k v where p: "p = (k, v)" by (cases p)
    from Cons.IH [of "AList.update k v d"] upd [of k v d] show ?case by (auto simp: p)
  qed simp
  from this [of "[]"] show ?thesis by (simp add: dict_of_def)
qed

lemma initial_state_static:
  "same_static h h' \<Longrightarrow> sec_initial_state (hp_sec h' s) = sec_initial_state (hp_sec h s)"
  by (simp add: same_static_def)

lemma reachable_sections:
  assumes "reachable re_match m0 m" and "mp_history m0 = []" and "a \<in> set (mp_history m)"
  shows "mentions a \<subseteq> sections_of (mp_schedule m0)"
  using assms
proof (induction rule: reachable.induct)
  case (reach_step m mm m')
  have "mp_schedule m = mp_schedule m0" using reachable_sel [OF reach_step.hyps(1)] by simp
  with entry_roomslots(1) [OF moved_step [OF reach_step.hyps(2)]] reach_step
    moved_sel(3) [OF reach_step.hyps(2)] show ?case by (auto simp: mentions_def)
qed simp_all

lemma hashes_accepted:
  assumes "settled h0 sch" and "same_static h0 h" and "set changed \<subseteq> sections_of sch"
    and "(i, x) \<in> set (dict_of (map (\<lambda>s. (sec_id (hp_sec h s), sec_initial_state (hp_sec h s))) changed))"
  shows "\<exists>s. dict_get (sch_sections sch) i = Inr s \<and> sec_initial_state (hp_sec h0 s) = x"
proof -
  from assms(4) set_dict_of obtain s where s: "s \<in> set changed" "i = sec_id (hp_sec h s)" "x = sec_initial_state (hp_sec h s)"
    by fastforce
  with get_section [OF assms(1)] assms(3) same_staticD(9) [OF assms(2)] initial_state_static [OF assms(2)]
  show ?thesis by auto
qed

lemma rmap_key: "(\<And>a. a \<in> set as \<Longrightarrow> f a \<noteq> None) \<Longrightarrow> rmap (\<lambda>a. key (f a)) as = Inr (map (\<lambda>a. the (f a)) as)"
  by (rule rmap_map) (auto simp: key_def split: option.split)

lemma export_import:
  assumes "accepted_run re_match m0 m" and "tracked re_match nws criteria m0" and "mp_history m0 = []"
    and "whole_times (mp_heap m0) (mp_schedule m0)"
    and "\<And>a. a \<in> set (mp_history m) \<Longrightarrow> act_section a \<noteq> None"
    and "ctl_manipulator c = m" and "ctl_manipulator c0 = m0"
  shows "\<exists>data. export_assignments c = Inr (data, ctl_options c) \<and>
    import_assignments re_match c0 data = Inr (c0\<lparr>ctl_manipulator := m\<rparr>)"
proof -
  note r = accepted_reachable [OF assms(1) tracked_managed [OF assms(2)]]
  let ?ss = "map (\<lambda>a. the (act_section a)) (mp_history m)"
  let ?d = "dict_of (map (\<lambda>s. (sec_id (hp_sec (mp_heap m) s), sec_initial_state (hp_sec (mp_heap m) s))) (remdups ?ss))"
  from history_replay [OF assms(1-4)] obtain js where
    js: "jsonify_history m = Inr js" "load_history re_match m0 js = Inr (True, m)" by blast
  have "export_assignments c = Inr ((js, ?d), ctl_options c)"
    using rmap_key [of "mp_history m" act_section] assms(5,6) js(1) by (simp add: export_assignments_def Let_def)
  moreover have "settled (mp_heap m0) (mp_schedule m0)" using assms(2) by (simp add: tracked_def)
  moreover have "same_static (mp_heap m0) (mp_heap m)" using reachable_sel [OF r] by simp
  moreover have "set (remdups ?ss) \<subseteq> sections_of (mp_schedule m0)"
  proof
    fix s assume "s \<in> set (remdups ?ss)"
    then obtain a where a: "a \<in> set (mp_history m)" "s = the (act_section a)" by auto
    with assms(5) [OF a(1)] reachable_sections [OF r assms(3) a(1)] show "s \<in> sections_of (mp_schedule m0)"
      by (auto simp: mentions_def)
  qed
  ultimately have "\<forall>(i, x)\<in>set ?d. \<exists>s. dict_get (sch_sections (mp_schedule m0)) i = Inr s \<and>
      sec_initial_state (hp_sec (mp_heap m0) s) = x" and ex: "export_assignments c = Inr ((js, ?d), ctl_options c)"
    using hashes_accepted by blast+
  then have "rforeach (\<lambda>(section, scheduling_hash).
         rbind (dict_get (sch_sections (mp_schedule m0)) section) (\<lambda>s.
         raise_if (sec_initial_state (hp_sec (mp_heap m0) s) \<noteq> scheduling_hash)
           (SchedulingError ''Section {emailcode} was moved.''))) ?d = Inr ()"
    by (fastforce simp: rforeach_Inr_iff)
  then have "import_assignments re_match c0 (js, ?d) = Inr (c0\<lparr>ctl_manipulator := m\<rparr>)"
    using js(2) assms(7) by (simp add: import_assignments_def Let_def)
  with ex show ?thesis by blast
qed

text \<open>A section whose hash is not the one exported, or is not known any more, stops the import before anything is replayed.\<close>

lemma rforeach_Inl: "x \<in> set xs \<Longrightarrow> f x = Inl e \<Longrightarrow> \<exists>e'. rforeach f xs = Inl e' \<and> (\<exists>y\<in>set xs. f y = Inl e')"
proof (induction xs)
  case (Cons y ys)
  then show ?case by (cases "f y") auto
qed simp

lemma import_moved:
  assumes "(i, x) \<in> set hashes" and "map_of (sch_sections (mp_schedule (ctl_manipulator c))) i = Some s"
    and "sec_initial_state (hp_sec (mp_heap (ctl_manipulator c)) s) \<noteq> x"
  shows "import_assignments re_match c (history, hashes) \<in>
    {Inl (SchedulingError ''Section {emailcode} was moved.''), Inl KeyError}"
proof -
  define f where "f = (\<lambda>(section, scheduling_hash).
         rbind (dict_get (sch_sections (mp_schedule (ctl_manipulator c))) section) (\<lambda>s.
         raise_if (sec_initial_state (hp_sec (mp_heap (ctl_manipulator c)) s) \<noteq> scheduling_hash)
           (SchedulingError ''Section {emailcode} was moved.'')))"
  have "f (i, x) = Inl (SchedulingError ''Section {emailcode} was moved.'')"
    using assms(2,3) by (simp add: f_def dict_get_def)
  with rforeach_Inl [OF assms(1)] obtain e y where e: "rforeach f hashes = Inl e" "f y = Inl e" by blast
  from e(2) have "e = SchedulingError ''Section {emailcode} was moved.'' \<or> e = KeyError"
    by (cases y) (auto simp: f_def dict_get_def raise_if_def split: option.splits if_splits)
  moreover have "import_assignments re_match c (history, hashes) = Inl e"
    using e(1) by (simp add: import_assignments_def Let_def f_def)
  ultimately show ?thesis by auto
qed

lemma export_swap:
  assumes "a \<in> set (mp_history (ctl_manipulator c))" and "act_section a = None"
  shows "export_assignments c = Inl KeyError"
proof -
  have "rmap (\<lambda>a. key (act_section a)) as = Inl KeyError" if "a \<in> set as" for as
    using that assms(2)
  proof (induction as)
    case (Cons b bs)
    then show ?case by (cases "act_section b") auto
  qed simp
  with assms(1) show ?thesis by (simp add: export_assignments_def Let_def)
qed

subsection \<open>Running the search from the controller\<close>

lemma compute_assignments_reachable:
  assumes "tracked re_match nws criteria (ctl_manipulator c)" and "mp_history (ctl_manipulator c) = []"
    and "ctl_roomslots c = SearchOptimizer_init (ctl_manipulator c)"
    and "ctl_section c \<in> sections_of (mp_schedule (ctl_manipulator c))"
    and "compute_assignments re_match now deadline depth c = Inr c'"
  shows "accepted_run re_match (ctl_manipulator c) (ctl_manipulator c') \<and>
    tracked re_match nws criteria (ctl_manipulator c') \<and> c' = c\<lparr>ctl_manipulator := ctl_manipulator c'\<rparr>"
proof -
  from assms(5) obtain acts m k where m: "optimize_section re_match now (Some deadline) (SearchOptimizer_init (ctl_manipulator c))
      depth (ctl_manipulator c, 0) (ctl_section c) = Inr (acts, m, k)" "c' = c\<lparr>ctl_manipulator := m\<rparr>"
    by (auto simp: compute_assignments_def assms(3) check_iff)
  from optimize_accepted [OF assms(1,2,4) m(1)] m(2) show ?thesis by simp
qed

end
