(* ===== verification/Loading.thy ===== *)
theory Loading
  imports Schedule "HOL-Library.Multiset"
begin

section \<open>Loading a schedule (autoscheduler/db\_interface.py)\<close>

text \<open>
  The loading half of \<open>db_interface.py\<close>. The database is a record of the rows of the tables
  the module queries, for one program; a query is the filter its code states. Rows are in the
  order in which the database returns them. A class is taken to have at least one teacher
  (for one without, the join yields a teacher without id).

  \<open>load_consistent\<close>: a schedule that is loaded is consistent and satisfies every required
  constraint. \<open>satisfies_iff\<close> says what \<open>section_satisfies_constraints\<close> tests;
  \<open>never_double_booked\<close> shows that the dictionary of assignments keeps only the last one of a
  room and time, so that the error for a double-booked room is never raised.
\<close>

record event =
  ev_id :: int
  ev_start :: datetime
  ev_end :: datetime
  ev_program :: int

record resource =
  res_id :: int
  res_name :: string
  res_type :: string
  res_type_id :: int
  res_event :: event
  res_group :: "int option"
  res_num_students :: int
  res_value :: string

record resource_request =
  rr_target :: int
  rr_name :: string
  rr_type_id :: int
  rr_value :: string

record class_section =
  cs_id :: int
  cs_parent :: int
  cs_status :: int
  cs_category :: int
  cs_is_lunch :: bool
  cs_teachers :: "int list"
  cs_meeting_times :: "int list"
  cs_duration :: rat
  cs_max_capacity :: "int option"
  cs_size_max :: int
  cs_grade_min :: int
  cs_grade_max :: int

record database =
  db_program :: int
  db_timeslots :: "event list"
  db_lunch :: "event list"
  db_events :: "event list"
  db_sections :: "class_section list"
  db_open_registration :: bool
  db_open_category :: int
  db_locked :: "int list"
  db_availability_module :: bool
  db_availability :: "(int \<times> event) list"
  db_admins :: "int list"
  db_resources :: "resource list"
  db_classrooms :: "resource list"
  db_assignments :: "(int \<times> int) list"
  db_requests :: "resource_request list"

text \<open>\<open>cal.Event\<close> compares events, for equality too, by their start.\<close>

definition event_eq :: "event \<Rightarrow> event \<Rightarrow> bool" where
  "event_eq a b \<longleftrightarrow> ev_start a = ev_start b"

subsection \<open>Conversions\<close>

definition convert_event :: "heap \<Rightarrow> event \<Rightarrow> int \<Rightarrow> (tsref \<times> heap) result" where
  "convert_event h e program =
     rbind (raise_if (ev_program e \<noteq> program) (AssertionError ''Event parent program doesn't match'')) (\<lambda>_.
     rbind (raise_if (\<not> ev_start e < ev_end e) (AssertionError ''Timeslot doesn't end after start time'')) (\<lambda>_.
     AS_Timeslot_init h (ev_start e) (ev_end e) (ev_id e)))"

fun batch_convert_events :: "heap \<Rightarrow> event list \<Rightarrow> int \<Rightarrow> (tsref list \<times> heap) result" where
  "batch_convert_events h [] program = Inr ([], h)"
| "batch_convert_events h (e # es) program =
     rbind (convert_event h e program) (\<lambda>(t, h1).
     rbind (batch_convert_events h1 es program) (\<lambda>(ts, h2). Inr (t # ts, h2)))"

definition batch_find_events :: "heap \<Rightarrow> event list \<Rightarrow> (times, tsref) dict \<Rightarrow> tsref list result" where
  "batch_find_events h events timeslot_dict =
     rbind (rfold (\<lambda>ts e.
         case map_of timeslot_dict (ev_start e, ev_end e) of
           None \<Rightarrow> Inr ts
         | Some t \<Rightarrow> rbind (raise_if (ts_id (hp_ts h t) \<noteq> ev_id e) (AssertionError ''Timeslot and event ID didn't match''))
             (\<lambda>_. Inr (ts @ [t]))) [] events) (\<lambda>ts.
     Inr (sort_key (ts_key h) ts))"

fun batch_convert_roomslots ::
  "heap \<Rightarrow> event list \<Rightarrow> roomref \<Rightarrow> (times, tsref) dict \<Rightarrow> (rsref list \<times> heap) result" where
  "batch_convert_roomslots h [] room timeslot_dict = Inr ([], h)"
| "batch_convert_roomslots h (e # es) room timeslot_dict =
     rbind (dict_get timeslot_dict (ev_start e, ev_end e)) (\<lambda>t.
     let (r, h1) = AS_RoomSlot_init h t room in
     rbind (batch_convert_roomslots h1 es room timeslot_dict) (\<lambda>(rs, h2). Inr (r # rs, h2)))"

definition convert_restypes :: "string \<Rightarrow> int \<Rightarrow> string \<Rightarrow> as_restype" where
  "convert_restypes name i val = \<lparr>rt_id = i, rt_name = name, rt_value = val\<rparr>"

definition batch_convert_resource_requests :: "resource_request list \<Rightarrow> as_restype list" where
  "batch_convert_resource_requests res = map (\<lambda>r. convert_restypes (rr_name r) (rr_type_id r) (rr_value r)) res"

definition batch_convert_resources :: "resource list \<Rightarrow> as_restype list" where
  "batch_convert_resources res = map (\<lambda>r. convert_restypes (res_type r) (res_type_id r) (res_value r)) res"

subsection \<open>Assignments of sections\<close>

definition is_classroom :: "resource \<Rightarrow> bool" where
  "is_classroom r \<longleftrightarrow> res_type r = ''Classroom''"

definition load_section_assignments ::
  "database \<Rightarrow> int list \<Rightarrow>
   ((int, resource list) dict \<times> (int, event list) dict \<times> (int, resource_request list) dict) result" where
  "load_section_assignments db section_ids =
     (let resource_assignments = filter (\<lambda>(target, i). target \<in> set section_ids \<and>
            (\<exists>r\<in>set (db_resources db). res_id r = i \<and> is_classroom r)) (db_assignments db);
          sections_by_resource = dict_of (map (\<lambda>(target, i). (i, target)) resource_assignments);
          resources = filter (\<lambda>r. dict_has sections_by_resource (res_id r)) (db_resources db);
          meeting_times = concat (map (\<lambda>s. map (\<lambda>t. (cs_id s, t)) (cs_meeting_times s))
            (filter (\<lambda>s. cs_id s \<in> set section_ids) (db_sections db)));
          meeting_times_by_id = dict_of (map (\<lambda>e. (ev_id e, e))
            (filter (\<lambda>e. ev_id e \<in> snd ` set meeting_times) (db_events db)));
          requests = filter (\<lambda>r. rr_target r \<in> set section_ids) (db_requests db)
      in
      rbind (rfold (\<lambda>d r. rbind (dict_get sections_by_resource (res_id r)) (\<lambda>target. append_to d target r))
        (empty_lists section_ids) resources) (\<lambda>rooms_by_section.
      rbind (rfold (\<lambda>d (s, t). rbind (dict_get meeting_times_by_id t) (\<lambda>e. append_to d s e))
        (empty_lists section_ids) meeting_times) (\<lambda>meeting_times_by_section.
      rbind (rfold (\<lambda>d r. append_to d (rr_target r) r) (empty_lists section_ids) requests) (\<lambda>requests_by_section.
      Inr (rooms_by_section, meeting_times_by_section, requests_by_section)))))"

definition satisfies_constraints :: "rat \<Rightarrow> resource list \<Rightarrow> event list \<Rightarrow> bool" where
  "satisfies_constraints duration rooms meetings =
     (let classrooms = sort_key (\<lambda>c. ev_start (res_event c)) rooms;
          meeting_times = sort_key ev_start meetings in
      if length classrooms \<noteq> length meeting_times then False
      else if \<exists>((room1, time1), (room2, time2))\<in>set (zip (zip classrooms meeting_times)
                 (zip (tl classrooms) (tl meeting_times))).
          \<not> contiguous_times (ev_end time1) (ev_start time2) \<or>
          \<not> event_eq (res_event room1) time1 \<or> \<not> event_eq (res_event room2) time2 \<or>
          res_name room1 \<noteq> res_name room2
      then False
      else if length meeting_times > 0 then
        \<not> \<bar>hours_difference (ev_start (hd meeting_times)) (ev_end (last meeting_times)) - duration\<bar> > DELTA_TIME
      else True)"

definition section_satisfies_constraints ::
  "class_section \<Rightarrow> (int, resource list) dict \<Rightarrow> (int, event list) dict \<Rightarrow> bool result" where
  "section_satisfies_constraints section_obj rooms_by_section meeting_times_by_section =
     rbind (dict_get rooms_by_section (cs_id section_obj)) (\<lambda>rooms.
     rbind (dict_get meeting_times_by_section (cs_id section_obj)) (\<lambda>meetings.
     Inr (satisfies_constraints (cs_duration section_obj) rooms meetings)))"

definition hash_of :: "event list \<Rightarrow> string list \<Rightarrow> (string \<times> string) list \<times> string list" where
  "hash_of meeting_times rooms =
     (sort (map (\<lambda>e. (dt_str (ev_start e), dt_str (ev_end e))) meeting_times), sort (remdups rooms))"

definition scheduling_hash_of ::
  "class_section \<Rightarrow> (int, resource list) dict \<Rightarrow> (int, event list) dict \<Rightarrow>
   ((string \<times> string) list \<times> string list) result" where
  "scheduling_hash_of section rooms_by_section meeting_times_by_section =
     rbind (dict_get meeting_times_by_section (cs_id section)) (\<lambda>meeting_times.
     rbind (dict_get rooms_by_section (cs_id section)) (\<lambda>rooms.
     Inr (hash_of meeting_times (map res_name rooms))))"

definition get_section_capacity :: "class_section \<Rightarrow> int" where
  "get_section_capacity section =
     (case cs_max_capacity section of Some c \<Rightarrow> c | None \<Rightarrow> cs_size_max section)"

text \<open>The end of \<open>convert_classection_obj\<close>: the section is built and its hash compared.\<close>

definition checked_section ::
  "heap \<Rightarrow> class_section \<Rightarrow> tref list \<Rightarrow> (string, as_restype) dict \<Rightarrow> rsref list \<Rightarrow> (int, resource list) dict \<Rightarrow>
   (int, event list) dict \<Rightarrow> (secref option \<times> heap) result" where
  "checked_section h section teachers resource_requests roomslots rooms_by_section meeting_times_by_section =
     (let (s, h1) = AS_ClassSection_init h teachers (cs_duration section) (get_section_capacity section)
            (cs_category section) (sort_key (rs_key h) roomslots) (cs_id section) (cs_parent section)
            (cs_grade_min section) (cs_grade_max section) resource_requests in
      rbind (scheduling_hash_of section rooms_by_section meeting_times_by_section) (\<lambda>hash.
      rbind (raise_if (hash \<noteq> sec_initial_state (hp_sec h1 s))
        (AssertionError ''AS_ClassSection state doesn't match ClassSection state for section {section.emailcode()}''))
        (\<lambda>_. Inr (Some s, h1))))"

definition convert_classection_obj ::
  "heap \<Rightarrow> class_section \<Rightarrow> (int, tref list) dict \<Rightarrow> (string, roomref) dict \<Rightarrow> (int, resource list) dict \<Rightarrow>
   (int, event list) dict \<Rightarrow> (int, resource_request list) dict \<Rightarrow> (secref option \<times> heap) result" where
  "convert_classection_obj h section teachers_by_section rooms rooms_by_section meeting_times_by_section
     requests_by_section =
     rbind (section_satisfies_constraints section rooms_by_section meeting_times_by_section) (\<lambda>satisfied.
     if \<not> satisfied then Inr (None, h)
     else
       rbind (dict_get teachers_by_section (cs_id section)) (\<lambda>teachers.
       rbind (dict_get requests_by_section (cs_id section)) (\<lambda>requests.
       let resource_requests = dict_of (map (\<lambda>r. (rt_name r, r)) (batch_convert_resource_requests requests)) in
       rbind (dict_get rooms_by_section (cs_id section)) (\<lambda>classrooms.
       rbind (rmap (\<lambda>classroom. rbind (dict_get rooms (res_name classroom)) (\<lambda>room.
           dict_get (room_avail_dict (hp_room h room)) (ev_start (res_event classroom), ev_end (res_event classroom))))
         classrooms) (\<lambda>roomslots.
       checked_section h section teachers resource_requests roomslots rooms_by_section meeting_times_by_section)))))"

fun batch_convert_sections ::
  "heap \<Rightarrow> class_section list \<Rightarrow> (int, tref list) dict \<Rightarrow> (string, roomref) dict \<Rightarrow> (int, resource list) dict \<Rightarrow>
   (int, event list) dict \<Rightarrow> (int, resource_request list) dict \<Rightarrow> (secref list \<times> heap) result" where
  "batch_convert_sections h [] tbs rooms rbs mbs qbs = Inr ([], h)"
| "batch_convert_sections h (s # ss) tbs rooms rbs mbs qbs =
     rbind (convert_classection_obj h s tbs rooms rbs mbs qbs) (\<lambda>(x, h1).
     rbind (batch_convert_sections h1 ss tbs rooms rbs mbs qbs) (\<lambda>(xs, h2).
     Inr (case x of None \<Rightarrow> xs | Some s' \<Rightarrow> s' # xs, h2)))"

subsection \<open>Classrooms\<close>

text \<open>
  The dictionary of assignments has pairs of a room name and an event id as keys, and the code
  tests whether the room name is a key, which it never is: the list of the pair is reset each time.
\<close>

definition note_assignment ::
  "((string \<times> int), int list) dict \<Rightarrow> string \<times> int \<times> int \<Rightarrow> ((string \<times> int), int list) dict result" where
  "note_assignment assignments_dict = (\<lambda>(res, event, target).
     append_to (AList.update (res, event) [] assignments_dict) (res, event) target)"

definition room_assignments :: "database \<Rightarrow> resource list \<Rightarrow> (string \<times> int \<times> int) list" where
  "room_assignments db classrooms =
     concat (map (\<lambda>(target, i). map (\<lambda>r. (res_name r, ev_id (res_event r), target))
       (filter (\<lambda>r. res_id r = i) classrooms)) (db_assignments db))"

definition furnishings_by_group ::
  "database \<Rightarrow> resource list \<Rightarrow> (int, resource list) dict result" where
  "furnishings_by_group db classrooms =
     (let resource_groups = concat (map (\<lambda>r. case res_group r of None \<Rightarrow> [] | Some g \<Rightarrow> [g]) classrooms);
          all_furnishings = filter (\<lambda>r. \<not> is_classroom r \<and> (\<exists>g\<in>set resource_groups. res_group r = Some g))
            (db_resources db) in
      rfold (\<lambda>d r. case res_group r of None \<Rightarrow> Inl KeyError | Some g \<Rightarrow> append_to d g r)
        (empty_lists resource_groups) all_furnishings)"

definition room_unavailable ::
  "int list \<Rightarrow> (int, class_section) dict \<Rightarrow> (int, resource list) dict \<Rightarrow> (int, event list) dict \<Rightarrow> bool result" where
  "room_unavailable assignments known_sections rooms_by_section meeting_times_by_section =
     (if length assignments > 1 then
        rbind (raise_if (\<exists>target\<in>set assignments. dict_has known_sections target)
          (SchedulingError ''Room {classroom.name} is double-booked and has known section num {target}'')) (\<lambda>_.
        Inr True)
      else if length assignments = 1 then
        (case map_of known_sections (hd assignments) of
           None \<Rightarrow> Inr True
         | Some s \<Rightarrow> rbind (section_satisfies_constraints s rooms_by_section meeting_times_by_section) (\<lambda>satisfied.
             Inr (\<not> satisfied)))
      else Inr False)"

type_synonym classroom_info = "(string, tsref list \<times> int \<times> (string, as_restype) dict) dict"

definition add_classroom ::
  "((string \<times> int), int list) dict \<Rightarrow> (int, resource list) dict \<Rightarrow> (times, tsref) dict \<Rightarrow>
   (int, class_section) dict \<Rightarrow> (int, resource list) dict \<Rightarrow> (int, event list) dict \<Rightarrow>
   classroom_info \<Rightarrow> resource \<Rightarrow> classroom_info result" where
  "add_classroom assignments_dict by_group timeslot_dict known_sections rooms_by_section
     meeting_times_by_section info classroom =
     rbind (raise_if (\<not> is_classroom classroom) (AssertionError [])) (\<lambda>_.
     let assignments = (case map_of assignments_dict (res_name classroom, ev_id (res_event classroom)) of
           None \<Rightarrow> [] | Some ts \<Rightarrow> ts) in
     rbind (room_unavailable assignments known_sections rooms_by_section meeting_times_by_section) (\<lambda>unavailable.
     if unavailable then Inr info
     else
       rbind (if dict_has info (res_name classroom) then Inr info
              else rbind (case res_group classroom of None \<Rightarrow> Inr [] | Some g \<Rightarrow> dict_get by_group g) (\<lambda>furnishing_objs.
                Inr (AList.update (res_name classroom) ([], res_num_students classroom,
                  dict_of (map (\<lambda>r. (rt_name r, r)) (batch_convert_resources furnishing_objs))) info))) (\<lambda>info1.
       rbind (dict_get timeslot_dict (ev_start (res_event classroom), ev_end (res_event classroom))) (\<lambda>timeslot.
       rbind (dict_get info1 (res_name classroom)) (\<lambda>(timeslots, capacity, furnishings).
       Inr (AList.update (res_name classroom) (timeslots @ [timeslot], capacity, furnishings) info1))))))"

fun build_classrooms :: "heap \<Rightarrow> classroom_info \<Rightarrow> ((string, roomref) dict \<times> heap) result" where
  "build_classrooms h [] = Inr ([], h)"
| "build_classrooms h ((room, timeslots, capacity, furnishings) # info) =
     rbind (AS_Classroom_init h room capacity timeslots furnishings) (\<lambda>(r, h1).
     rbind (build_classrooms h1 info) (\<lambda>(d, h2). Inr ((room, r) # d, h2)))"

definition convert_classroom_resources ::
  "database \<Rightarrow> heap \<Rightarrow> resource list \<Rightarrow> (times, tsref) dict \<Rightarrow> (int, class_section) dict \<Rightarrow>
   (int, resource list) dict \<Rightarrow> (int, event list) dict \<Rightarrow> ((string, roomref) dict \<times> heap) result" where
  "convert_classroom_resources db h classrooms timeslot_dict known_sections rooms_by_section
     meeting_times_by_section =
     rbind (furnishings_by_group db classrooms) (\<lambda>by_group.
     rbind (rfold note_assignment [] (room_assignments db classrooms)) (\<lambda>assignments_dict.
     rbind (rfold (add_classroom assignments_dict by_group timeslot_dict known_sections rooms_by_section
         meeting_times_by_section) [] classrooms) (\<lambda>info.
     build_classrooms h info)))"

subsection \<open>Teachers, sections and the schedule\<close>

record load_flags =
  require_approved :: bool
  exclude_lunch :: bool
  exclude_walkins :: bool
  exclude_scheduled :: bool
  exclude_locked :: bool

definition ACCEPTED :: int where "ACCEPTED = 10"

definition selected_sections :: "database \<Rightarrow> load_flags \<Rightarrow> class_section list" where
  "selected_sections db flags =
     (let s0 = db_sections db;
          s1 = (if require_approved flags then filter (\<lambda>s. cs_status s = ACCEPTED) s0 else s0);
          s2 = (if exclude_scheduled flags then filter (\<lambda>s. length (cs_meeting_times s) = 0) s1 else s1);
          s3 = (if exclude_lunch flags then filter (\<lambda>s. \<not> cs_is_lunch s) s2 else s2);
          s4 = (if exclude_walkins flags \<and> db_open_registration db
                then filter (\<lambda>s. cs_category s \<noteq> db_open_category db) s3 else s3);
          s5 = (if exclude_locked flags then filter (\<lambda>s. cs_id s \<notin> set (db_locked db)) s4 else s4)
      in s5)"

definition teaching_times_of :: "database \<Rightarrow> int \<Rightarrow> int set" where
  "teaching_times_of db teacher =
     (\<Union>s\<in>set (db_sections db). if teacher \<in> set (cs_teachers s) then set (cs_meeting_times s) else {})"

text \<open>The timeslots of a teacher: those given, or all, less those in which the teacher teaches any section.\<close>

definition availability_of :: "database \<Rightarrow> heap \<Rightarrow> 'c as_schedule \<Rightarrow> int \<Rightarrow> tsref list" where
  "availability_of db h sch teacher =
     (let teaching = teaching_times_of db teacher in
      if db_availability_module db then
        concat (map (\<lambda>(user, e).
            if user = teacher \<and> ev_id e \<notin> teaching then
              (case map_of (sch_timeslot_dict sch) (ev_start e, ev_end e) of None \<Rightarrow> [] | Some t \<Rightarrow> [t])
            else []) (db_availability db))
      else filter (\<lambda>t. ts_id (hp_ts h t) \<notin> teaching) (sch_timeslots sch))"

fun create_teachers ::
  "database \<Rightarrow> 'c as_schedule \<Rightarrow> heap \<Rightarrow> int list \<Rightarrow> (int, tref) dict \<Rightarrow> (int, tref) dict \<times> heap" where
  "create_teachers db sch h [] d = (d, h)"
| "create_teachers db sch h (i # is) d =
     (let (t, h1) = AS_Teacher_init h (availability_of db h sch i) i (i \<in> set (db_admins db))
      in create_teachers db sch h1 is (AList.update i t d))"

definition load_sections_and_teachers_and_classrooms ::
  "database \<Rightarrow> heap \<Rightarrow> 'c as_schedule \<Rightarrow> load_flags \<Rightarrow>
   ((int, secref) dict \<times> (int, tref) dict \<times> (string, roomref) dict \<times> heap) result" where
  "load_sections_and_teachers_and_classrooms db h sch flags =
     (let sections = selected_sections db flags;
          teacher_ids = concat (map cs_teachers sections);
          (teachers, h1) = create_teachers db sch h teacher_ids [];
          known_sections = dict_of (map (\<lambda>s. (cs_id s, s)) sections) in
      rbind (load_section_assignments db (dict_keys known_sections))
        (\<lambda>(rooms_by_section, meeting_times_by_section, requests_by_section).
      rbind (convert_classroom_resources db h1 (db_classrooms db) (sch_timeslot_dict sch) known_sections
          rooms_by_section meeting_times_by_section) (\<lambda>(classrooms, h2).
      rbind (rfold (\<lambda>d (s, i). rbind (dict_get teachers i) (\<lambda>t. append_to d s t))
          (empty_lists (dict_keys known_sections))
          (concat (map (\<lambda>s. map (\<lambda>i. (cs_id s, i)) (cs_teachers s)) sections))) (\<lambda>teachers_by_section.
      rbind (batch_convert_sections h2 sections teachers_by_section classrooms rooms_by_section
          meeting_times_by_section requests_by_section) (\<lambda>(converted_sections, h3).
      Inr (dict_of (map (\<lambda>s. (sec_id (hp_sec h3 s), s)) converted_sections), teachers, classrooms, h3))))))"

definition load_schedule_from_db :: "database \<Rightarrow> heap \<Rightarrow> load_flags \<Rightarrow> (heap \<times> schedule) result" where
  "load_schedule_from_db db h flags =
     rbind (batch_convert_events h (db_timeslots db) (db_program db)) (\<lambda>(ts, h1).
     let timeslots = sort_key (ts_key h1) ts;
         lunch_timeslots = map (\<lambda>e. (ev_start e, ev_end e)) (db_lunch db) in
     rbind (AS_Schedule_init h1 timeslots [] [] [] lunch_timeslots None (exclude_locked flags)) (\<lambda>(sch, h2).
     rbind (load_sections_and_teachers_and_classrooms db h2 sch flags) (\<lambda>(sections, teachers, classrooms, h3).
     let sch' = sch\<lparr>sch_sections := sections, sch_teachers := teachers, sch_classrooms := classrooms\<rparr> in
     rbind (run_all_consistency_checks h3 sch') (\<lambda>h4.
     rbind (run_constraint_checks h4 sch') (\<lambda>_. Inr (h4, sch'))))))"

subsection \<open>What loading guarantees\<close>

lemma load_consistent:
  assumes "load_schedule_from_db db h flags = Inr (h', sch)"
  shows "consistent h' sch" and "legal h' sch"
proof -
  from assms obtain h1 ts sch0 h2 secs teachers rooms h3 where
    init: "AS_Schedule_init h1 ts [] [] [] (map (\<lambda>e. (ev_start e, ev_end e)) (db_lunch db)) None
      (exclude_locked flags) = Inr (sch0, h2)" and
    sch: "sch = sch0\<lparr>sch_sections := secs, sch_teachers := teachers, sch_classrooms := rooms\<rparr>" and
    run: "run_all_consistency_checks h3 sch = Inr h'" and chk: "run_constraint_checks h' sch = Inr ()"
    by (auto simp: load_schedule_from_db_def check_iff Let_def)
  show "consistent h' sch"
    using run_all_iff consistent_equiv run_all_equiv [OF run] run by blast
  from init have "CompositeConstraint_init (ConstraintNames []) [] = Inr (sch_constraints sch)"
    by (auto simp: AS_Schedule_init_def check_iff Let_def sch)
  with chk show "legal h' sch"
    unfolding legal_def run_constraint_checks_iff using composite_required by blast
qed

lemma note_assignment_single:
  assumes "rfold note_assignment d rows = Inr d'" and "\<forall>k ts. map_of d k = Some ts \<longrightarrow> length ts = 1"
  shows "\<forall>k ts. map_of d' k = Some ts \<longrightarrow> length ts = 1"
  using assms
proof (induction rows arbitrary: d)
  case (Cons row rows)
  then obtain d1 where d1: "note_assignment d row = Inr d1" "rfold note_assignment d1 rows = Inr d'"
    by (auto simp: check_iff)
  from d1(1) Cons.prems(2) have "\<forall>k ts. map_of d1 k = Some ts \<longrightarrow> length ts = 1"
    by (auto simp: note_assignment_def append_to_def check_iff map_of_update_eq split: prod.splits if_splits)
  with Cons.IH d1(2) show ?case by blast
qed simp

text \<open>Whatever the assignments are, a room and time is never seen as double-booked.\<close>

lemma never_double_booked:
  assumes "rfold note_assignment [] rows = Inr d" and "map_of d k = Some ts"
  shows "length ts = 1"
  using note_assignment_single [OF assms(1)] assms(2) by (cases k) simp

subsection \<open>Sections the loader can handle\<close>

lemma zip_tl: "zip (zip xs ys) (zip (tl xs) (tl ys)) = adjacent (zip xs ys)"
  by (cases xs; cases ys) (simp_all add: adjacent_def)

lemma satisfies_iff:
  "satisfies_constraints duration rooms meetings \<longleftrightarrow>
     (let cs = sort_key (\<lambda>c. ev_start (res_event c)) rooms; ms = sort_key ev_start meetings in
      length rooms = length meetings \<and>
      (\<forall>((room1, time1), (room2, time2))\<in>set (adjacent (zip cs ms)).
         contiguous_times (ev_end time1) (ev_start time2) \<and> event_eq (res_event room1) time1 \<and>
         event_eq (res_event room2) time2 \<and> res_name room1 = res_name room2) \<and>
      (meetings \<noteq> [] \<longrightarrow> \<bar>hours_difference (ev_start (hd ms)) (ev_end (last ms)) - duration\<bar> \<le> DELTA_TIME))"
  by (auto simp: satisfies_constraints_def Let_def zip_tl not_less)

lemma adjacent_all:
  assumes "\<forall>p\<in>set (adjacent xs). P (fst p) \<and> P (snd p)" and "length xs \<noteq> 1"
  shows "\<forall>x\<in>set xs. P x"
  using assms
proof (induction xs rule: induct_list012)
  case (3 x y zs)
  show ?case
  proof (cases zs)
    case (Cons z zs')
    with "3.IH"(2) "3.prems"(1) have "\<forall>x\<in>set (y # zs). P x" by simp
    with "3.prems"(1) show ?thesis by simp
  qed (use "3.prems" in simp)
qed simp_all

text \<open>With two or more meeting times, the rooms are booked at those times; with one, the time of the
  room is not looked at.\<close>

lemma satisfies_times:
  assumes "satisfies_constraints duration rooms meetings" and "length meetings \<noteq> 1"
  shows "map (\<lambda>c. ev_start (res_event c)) (sort_key (\<lambda>c. ev_start (res_event c)) rooms) =
    map ev_start (sort_key ev_start meetings)"
proof -
  define cs where "cs = sort_key (\<lambda>c. ev_start (res_event c)) rooms"
  define ms where "ms = sort_key ev_start meetings"
  let ?P = "\<lambda>q. event_eq (res_event (fst q)) (snd q)"
  from assms(1) have "length rooms = length meetings" and
    adj: "\<forall>((room1, time1), (room2, time2))\<in>set (adjacent (zip cs ms)).
       contiguous_times (ev_end time1) (ev_start time2) \<and> event_eq (res_event room1) time1 \<and>
       event_eq (res_event room2) time2 \<and> res_name room1 = res_name room2"
    unfolding satisfies_iff Let_def cs_def [symmetric] ms_def [symmetric] by blast+
  then have l: "length cs = length ms" by (simp add: cs_def ms_def)
  have "\<forall>p\<in>set (adjacent (zip cs ms)). ?P (fst p) \<and> ?P (snd p)"
    using adj by (simp add: split_beta)
  moreover have "length (zip cs ms) \<noteq> 1" using l assms(2) by (simp add: ms_def)
  ultimately have all: "\<forall>q\<in>set (zip cs ms). ?P q" by (rule adjacent_all)
  have "map (\<lambda>c. ev_start (res_event c)) cs = map ev_start ms"
  proof (rule nth_equalityI)
    fix i assume "i < length (map (\<lambda>c. ev_start (res_event c)) cs)"
    then have i: "i < length cs" by simp
    with l have "zip cs ms ! i \<in> set (zip cs ms)" by (intro nth_mem) simp
    with all have "?P (zip cs ms ! i)" by blast
    with i l show "map (\<lambda>c. ev_start (res_event c)) cs ! i = map ev_start ms ! i" by (simp add: event_eq_def)
  qed (simp add: l)
  then show ?thesis by (simp add: cs_def ms_def)
qed

lemma satisfies_single:
  "\<bar>hours_difference (ev_start e) (ev_end e) - duration\<bar> \<le> DELTA_TIME \<Longrightarrow>
   satisfies_constraints duration [room] [e]"
  by (simp add: satisfies_iff Let_def)

subsection \<open>A converted section\<close>

text \<open>What the constructor of a section does not touch, and the hash it computes.\<close>

definition frame :: "heap \<Rightarrow> heap \<Rightarrow> bool" where
  "frame h h' \<longleftrightarrow> hp_ts h' = hp_ts h \<and> hp_room h' = hp_room h \<and> hp_sec h' = hp_sec h \<and>
     (\<forall>r. rs_timeslot (hp_rs h' r) = rs_timeslot (hp_rs h r) \<and> rs_room (hp_rs h' r) = rs_room (hp_rs h r))"

lemma frame_refl: "frame h h" and frame_trans: "frame h1 h2 \<Longrightarrow> frame h2 h3 \<Longrightarrow> frame h1 h3"
  by (simp_all add: frame_def)

lemma frame_fold: "(\<And>x h. frame h (f x h)) \<Longrightarrow> frame h (fold f xs h)"
  by (induction xs arbitrary: h) (auto intro: frame_refl frame_trans)

lemma frame_steps:
  "frame h (add_availability h t ts)" "frame h (set_assigned_section h r x)" "frame h (register_teachers h s)"
  by (simp add: frame_def add_availability_def Let_def, simp add: frame_def set_assigned_section_def,
      unfold register_teachers_def, rule frame_fold, simp add: frame_def)

lemma init_section_sel:
  assumes "AS_ClassSection_init h teachers duration capacity category assigned i parent g1 g2 requests = (s, h1)"
  shows "sec_roomslots (hp_sec h1 s) = assigned"
    and "sec_initial_state (hp_sec h1 s) =
      (sort (map (\<lambda>r. (dt_str (fst (rs_key h r)), dt_str (snd (rs_key h r)))) assigned),
       sort (remdups (map (\<lambda>r. room_name (hp_room h (rs_room (hp_rs h r)))) assigned)))"
    and "sec_id (hp_sec h1 s) = i" and "sec_teachers (hp_sec h1 s) = teachers"
    and "sec_duration (hp_sec h1 s) = duration" and "rs_key h1 = rs_key h"
proof -
  let ?sec = "\<lparr>sec_id = i, sec_parent = parent, sec_duration = duration, sec_teachers = teachers,
    sec_capacity = capacity, sec_grade_min = g1, sec_grade_max = g2, sec_category = category,
    sec_roomslots = assigned, sec_requests = requests, sec_initial_state = ([], [])\<rparr>"
  define h0 where "h0 = h\<lparr>hp_sec := (hp_sec h)(hp_fresh h := ?sec), hp_fresh := Suc (hp_fresh h)\<rparr>"
  define h2 where "h2 = fold (\<lambda>r h. fold (\<lambda>t h. add_availability h t (rs_timeslot (hp_rs h r))) teachers
      (set_assigned_section h r (Some s))) assigned h0"
  from assms have s: "s = hp_fresh h" and h1: "h1 = register_teachers (recompute_hash h2 s) s"
    unfolding AS_ClassSection_init_def Let_def h0_def h2_def by auto
  have f2: "frame h0 h2"
    unfolding h2_def
  proof (rule frame_fold)
    fix r g
    show "frame g (fold (\<lambda>t h. add_availability h t (rs_timeslot (hp_rs h r))) teachers (set_assigned_section g r (Some s)))"
      by (rule frame_trans [OF frame_steps(2)], rule frame_fold, rule frame_steps(1))
  qed
  have f3: "frame (recompute_hash h2 s) h1" unfolding h1 by (rule frame_steps(3))
  have key: "rs_key h0 r = rs_key h r" "rs_key h2 r = rs_key h0 r" "rs_key (recompute_hash h2 s) r = rs_key h2 r"
    "rs_key h1 r = rs_key (recompute_hash h2 s) r" for r
    using f2 f3 by (simp_all add: frame_def rs_key_def ts_key_def h0_def recompute_hash_def)
  have sec: "hp_sec h2 s = ?sec" using f2 by (simp add: frame_def h0_def s)
  have room: "hp_room h2 = hp_room h" "rs_room (hp_rs h2 r) = rs_room (hp_rs h r)" for r
    using f2 by (simp_all add: frame_def h0_def)
  have hash: "scheduling_hash h2 s =
      (sort (map (\<lambda>r. (dt_str (fst (rs_key h r)), dt_str (snd (rs_key h r)))) assigned),
       sort (remdups (map (\<lambda>r. room_name (hp_room h (rs_room (hp_rs h r)))) assigned)))"
    by (simp add: scheduling_hash_def sec key room Let_def)
  have "hp_sec h1 s = ?sec\<lparr>sec_initial_state := scheduling_hash h2 s\<rparr>"
    using f3 by (simp add: frame_def recompute_hash_def sec)
  with hash show "sec_roomslots (hp_sec h1 s) = assigned" "sec_initial_state (hp_sec h1 s) =
      (sort (map (\<lambda>r. (dt_str (fst (rs_key h r)), dt_str (snd (rs_key h r)))) assigned),
       sort (remdups (map (\<lambda>r. room_name (hp_room h (rs_room (hp_rs h r)))) assigned)))"
    "sec_id (hp_sec h1 s) = i" "sec_teachers (hp_sec h1 s) = teachers" "sec_duration (hp_sec h1 s) = duration"
    by simp_all
  show "rs_key h1 = rs_key h" using key by (simp add: fun_eq_iff)
qed

lemma sort_eq_mset: "sort xs = sort ys \<Longrightarrow> mset xs = mset ys"
  by (metis mset_sort)

lemma checked_section_sel:
  assumes "checked_section h section teachers requests rs rbs mbs = Inr (Some s, h1)"
    and "map_of mbs (cs_id section) = Some meetings"
  shows "sec_id (hp_sec h1 s) = cs_id section"
    and "mset (map (\<lambda>r. (dt_str (fst (rs_key h1 r)), dt_str (snd (rs_key h1 r)))) (sec_roomslots (hp_sec h1 s))) =
      mset (map (\<lambda>e. (dt_str (ev_start e), dt_str (ev_end e))) meetings)"
    and "sorted (map (rs_key h1) (sec_roomslots (hp_sec h1 s)))"
proof -
  obtain s' h' where i: "AS_ClassSection_init h teachers (cs_duration section) (get_section_capacity section)
      (cs_category section) (sort_key (rs_key h) rs) (cs_id section) (cs_parent section)
      (cs_grade_min section) (cs_grade_max section) requests = (s', h')" by (metis surj_pair)
  note sel = init_section_sel [OF i]
  from assms i have s: "s' = s" "h' = h1"
    and hash: "\<exists>rooms. hash_of meetings rooms = sec_initial_state (hp_sec h1 s)"
    by (auto simp: checked_section_def check_iff scheduling_hash_of_def)
  note sel = init_section_sel [OF i, unfolded s]
  show "sec_id (hp_sec h1 s) = cs_id section" by (rule sel(3))
  show "sorted (map (rs_key h1) (sec_roomslots (hp_sec h1 s)))" by (simp add: sel(1,6))
  have "sort (map (\<lambda>e. (dt_str (ev_start e), dt_str (ev_end e))) meetings) =
      sort (map (\<lambda>r. (dt_str (fst (rs_key h r)), dt_str (snd (rs_key h r)))) (sort_key (rs_key h) rs))"
    using hash by (auto simp: sel(2) hash_of_def)
  from sort_eq_mset [OF this] show "mset (map (\<lambda>r. (dt_str (fst (rs_key h1 r)), dt_str (snd (rs_key h1 r))))
      (sec_roomslots (hp_sec h1 s))) = mset (map (\<lambda>e. (dt_str (ev_start e), dt_str (ev_end e))) meetings)"
    by (simp add: sel(1,6))
qed

text \<open>A section that is converted occupies roomslots at exactly its meeting times, in order.\<close>

lemma converted_section:
  assumes "convert_classection_obj h section tbs rooms rbs mbs qbs = Inr (Some s, h1)"
    and "map_of mbs (cs_id section) = Some meetings"
  shows "sec_id (hp_sec h1 s) = cs_id section"
    and "mset (map (\<lambda>r. (dt_str (fst (rs_key h1 r)), dt_str (snd (rs_key h1 r)))) (sec_roomslots (hp_sec h1 s))) =
      mset (map (\<lambda>e. (dt_str (ev_start e), dt_str (ev_end e))) meetings)"
    and "sorted (map (rs_key h1) (sec_roomslots (hp_sec h1 s)))"
proof -
  from assms(1) obtain teachers requests rs where
    c: "checked_section h section teachers requests rs rbs mbs = Inr (Some s, h1)"
    by (auto simp: convert_classection_obj_def check_iff Let_def split: if_splits)
  from checked_section_sel [OF c assms(2)] show "sec_id (hp_sec h1 s) = cs_id section"
    "mset (map (\<lambda>r. (dt_str (fst (rs_key h1 r)), dt_str (snd (rs_key h1 r)))) (sec_roomslots (hp_sec h1 s))) =
      mset (map (\<lambda>e. (dt_str (ev_start e), dt_str (ev_end e))) meetings)"
    "sorted (map (rs_key h1) (sec_roomslots (hp_sec h1 s)))" .
qed

text \<open>A section with one meeting time whose room is booked at another time is not skipped: the
  assertion about its state fails, and with it the loading of the whole program.\<close>

lemma mismatch_asserts:
  assumes "map_of mbs (cs_id section) = Some [e]" and "map_of rbs (cs_id section) = Some [c]"
    and "\<bar>hours_difference (ev_start e) (ev_end e) - cs_duration section\<bar> \<le> DELTA_TIME"
    and "map_of tbs (cs_id section) \<noteq> None" and "map_of qbs (cs_id section) \<noteq> None"
    and "map_of rooms (res_name c) = Some room"
    and "map_of (room_avail_dict (hp_room h room)) (ev_start (res_event c), ev_end (res_event c)) = Some r"
    and "rs_key h r = (ev_start (res_event c), ev_end (res_event c))"
    and "dt_str (ev_start (res_event c)) \<noteq> dt_str (ev_start e)"
  shows "convert_classection_obj h section tbs rooms rbs mbs qbs =
    Inl (AssertionError ''AS_ClassSection state doesn't match ClassSection state for section {section.emailcode()}'')"
proof -
  from assms(4,5) obtain teachers requests where tq: "map_of tbs (cs_id section) = Some teachers"
    "map_of qbs (cs_id section) = Some requests" by blast
  define rq where "rq = dict_of (map (\<lambda>r. (rt_name r, r)) (batch_convert_resource_requests requests))"
  obtain s h1 where i: "AS_ClassSection_init h teachers (cs_duration section) (get_section_capacity section)
      (cs_category section) [r] (cs_id section) (cs_parent section)
      (cs_grade_min section) (cs_grade_max section) rq = (s, h1)"
    by (metis surj_pair)
  have "fst (sec_initial_state (hp_sec h1 s)) =
      [(dt_str (ev_start (res_event c)), dt_str (ev_end (res_event c)))]"
    using init_section_sel(2) [OF i] assms(8) by simp
  then have "fst (hash_of [e] [res_name c]) \<noteq> fst (sec_initial_state (hp_sec h1 s))"
    using assms(9) by (simp add: hash_of_def)
  then have "hash_of [e] [res_name c] \<noteq> sec_initial_state (hp_sec h1 s)" by metis
  then show ?thesis
    using assms(1-3,6,7) tq i satisfies_single [OF assms(3), of c]
    by (simp add: convert_classection_obj_def section_satisfies_constraints_def scheduling_hash_of_def
        checked_section_def dict_get_def rq_def)
qed

end
