(* ===== verification/Saving.thy ===== *)
theory Saving
  imports Loading
begin

section \<open>Saving a schedule (autoscheduler/db\_interface.py)\<close>

text \<open>
  The saving half of \<open>db_interface.py\<close> with the methods of \<open>ClassSection\<close> and \<open>Resource\<close> it calls, on the
  rows of theory Loading. The state is the database and the change log of the scheduler; an exception rolls the
  transaction back. \<open>section_obj\<close>, the variable that the second loop of \<open>save\<close> still holds from the first
  one, is \<open>last section_objs\<close>.

  \<open>save_agrees\<close>: after a successful save every changed section is in the database where the schedule
  has it, and the other sections are not touched. \<open>stale_section_obj\<close>: because the stale variable is
  tested, a section cannot be unscheduled when the last of the changed sections had no meeting times.
\<close>

type_synonym change_log = "(int list \<times> string \<times> int) list"
type_synonym saved_state = "database \<times> change_log"

subsection \<open>Sections and rooms in the database\<close>

definition meeting_ids :: "database \<Rightarrow> int \<Rightarrow> int list" where
  "meeting_ids db i = (case filter (\<lambda>s. cs_id s = i) (db_sections db) of [] \<Rightarrow> [] | s # _ \<Rightarrow> cs_meeting_times s)"

definition meetings_of :: "database \<Rightarrow> int \<Rightarrow> event list" where
  "meetings_of db i = filter (\<lambda>e. ev_id e \<in> set (meeting_ids db i)) (db_events db)"

definition classrooms_of :: "database \<Rightarrow> int \<Rightarrow> resource list" where
  "classrooms_of db i = filter (\<lambda>r. is_classroom r \<and> (i, res_id r) \<in> set (db_assignments db)) (db_resources db)"

definition database_hash :: "database \<Rightarrow> int \<Rightarrow> (string \<times> string) list \<times> string list" where
  "database_hash db i = hash_of (meetings_of db i) (map res_name (classrooms_of db i))"

definition set_meeting_times :: "int \<Rightarrow> int list \<Rightarrow> database \<Rightarrow> database" where
  "set_meeting_times i ts db =
     db\<lparr>db_sections := map (\<lambda>s. if cs_id s = i then s\<lparr>cs_meeting_times := ts\<rparr> else s) (db_sections db)\<rparr>"

definition clear_meeting_times :: "int \<Rightarrow> database \<Rightarrow> database" where
  "clear_meeting_times i db = set_meeting_times i [] db"

definition assign_meeting_times :: "int \<Rightarrow> event list \<Rightarrow> database \<Rightarrow> database" where
  "assign_meeting_times i events db = set_meeting_times i (remdups (map ev_id events)) db"

definition is_room_id :: "database \<Rightarrow> int \<Rightarrow> bool" where
  "is_room_id db r \<longleftrightarrow> (\<exists>res\<in>set (db_resources db). res_id res = r \<and> is_classroom res)"

definition clearRooms :: "int \<Rightarrow> database \<Rightarrow> database" where
  "clearRooms i db = db\<lparr>db_assignments := filter (\<lambda>(target, r). \<not> (target = i \<and> is_room_id db r)) (db_assignments db)\<rparr>"

definition is_taken :: "database \<Rightarrow> resource \<Rightarrow> bool" where
  "is_taken db r \<longleftrightarrow> res_id r \<in> snd ` set (db_assignments db)"

definition grouped_resources :: "database \<Rightarrow> resource \<Rightarrow> resource list" where
  "grouped_resources db r =
     (if res_group r = None then [r] else filter (\<lambda>r'. res_group r' = res_group r) (db_resources db))"

definition clear_assignments_of :: "database \<Rightarrow> resource \<Rightarrow> database" where
  "clear_assignments_of db r =
     db\<lparr>db_assignments := filter (\<lambda>(target, i). i \<notin> res_id ` set (grouped_resources db r)) (db_assignments db)\<rparr>"

definition assignClassRoom :: "int \<Rightarrow> resource \<Rightarrow> database \<Rightarrow> bool \<times> database" where
  "assignClassRoom i classroom db =
     (if is_taken db classroom then (False, db)
      else (True, db\<lparr>db_assignments := db_assignments db @ [(i, res_id classroom)]\<rparr>))"

text \<open>One resource of the name for each meeting time, the one with the least id.\<close>

definition rooms_to_assign :: "database \<Rightarrow> string \<Rightarrow> int \<Rightarrow> resource list" where
  "rooms_to_assign db name i =
     (let candidates = sort_key res_id (filter (\<lambda>r. res_name r = name \<and> ev_id (res_event r) \<in> set (meeting_ids db i)) (db_resources db));
          firsts = fold (\<lambda>r d. if dict_has d (ev_id (res_event r)) then d else AList.update (ev_id (res_event r)) r d) candidates []
      in sort_key (\<lambda>r. ev_id (res_event r)) (map snd firsts))"

fun assign_each :: "int \<Rightarrow> resource list \<Rightarrow> resource list \<Rightarrow> database \<Rightarrow> bool \<times> database" where
  "assign_each i done [] db = (True, db)"
| "assign_each i done (r # rs) db =
     (let (result, db') = assignClassRoom i r db in
      if result then assign_each i (done @ [r]) rs db'
      else (False, fold (\<lambda>r2 db. clear_assignments_of db r2) done db'))"

definition assign_room :: "int \<Rightarrow> string \<Rightarrow> database \<Rightarrow> bool \<times> database" where
  "assign_room i name db =
     (let rooms = rooms_to_assign db name i in
      if length rooms \<noteq> length (remdups (meeting_ids db i)) then (False, db) else assign_each i [] rooms db)"

subsection \<open>Scheduling and unscheduling\<close>

fun db_unschedule_section :: "int \<Rightarrow> saved_state \<Rightarrow> saved_state" where
  "db_unschedule_section i (db, entries) = (clearRooms i (clear_meeting_times i db), entries @ [([], [], i)])"

fun db_schedule_section :: "int \<Rightarrow> event list \<Rightarrow> resource \<Rightarrow> saved_state \<Rightarrow> saved_state result" where
  "db_schedule_section i events room (db, entries) =
     (let (status, db') = assign_room i (res_name room) (assign_meeting_times i events db) in
      if \<not> status then Inl (SchedulingError ''Room assignment failed with errors'')
      else Inr (db', entries @ [(map ev_id events, res_name room, i)]))"

definition ensure_section_not_moved :: "heap \<Rightarrow> secref \<Rightarrow> int \<Rightarrow> database \<Rightarrow> unit result" where
  "ensure_section_not_moved h as_section i db =
     rbind (raise_if (sec_id (hp_sec h as_section) \<noteq> i) (AssertionError ''Unexpected ID mismatch'')) (\<lambda>_.
     raise_if (database_hash db i \<noteq> sec_initial_state (hp_sec h as_section)) (SchedulingError ''Section {emailcode} was moved.''))"

subsection \<open>Saving\<close>

record section_info =
  sif_section :: secref
  sif_id :: int
  sif_possible_conflicts :: "int list"
  sif_meeting_times :: "event list"
  sif_rooms :: "resource list"

text \<open>The ids of the other sections that a teacher of the section teaches, neither rejected nor a draft.\<close>

definition possible_conflicts :: "database \<Rightarrow> heap \<Rightarrow> secref \<Rightarrow> int list" where
  "possible_conflicts db h s =
     concat (map (\<lambda>t. map cs_id (filter (\<lambda>other. t_id (hp_teacher h t) \<in> set (cs_teachers other) \<and>
         cs_status other \<noteq> -10 \<and> cs_status other \<noteq> -5 \<and> cs_id other \<noteq> sec_id (hp_sec h s)) (db_sections db)))
       (sec_teachers (hp_sec h s)))"

definition section_info_of :: "database \<Rightarrow> heap \<Rightarrow> schedule \<Rightarrow> int \<Rightarrow> section_info result" where
  "section_info_of db h sch i =
     rbind (dict_get (sch_sections sch) i) (\<lambda>s.
     let roomslots = sec_roomslots (hp_sec h s); conflicts = possible_conflicts db h s in
     case roomslots of
       [] \<Rightarrow> Inr \<lparr>sif_section = s, sif_id = i, sif_possible_conflicts = conflicts, sif_meeting_times = [], sif_rooms = []\<rparr>
     | first # _ \<Rightarrow>
         let meeting_times = filter (\<lambda>e. ev_id e \<in> (\<lambda>r. ts_id (hp_ts h (rs_timeslot (hp_rs h r)))) ` set roomslots) (db_events db);
             initial_room = room_name (hp_room h (rs_room (hp_rs h first))) in
         rbind (raise_if (\<exists>r\<in>set roomslots. room_name (hp_room h (rs_room (hp_rs h r))) \<noteq> initial_room)
           (AssertionError ''Section was assigned to multiple rooms'')) (\<lambda>_.
         Inr \<lparr>sif_section = s, sif_id = i, sif_possible_conflicts = conflicts, sif_meeting_times = meeting_times,
           sif_rooms = filter (\<lambda>r. res_name r = initial_room \<and> is_classroom r \<and>
             ev_id (res_event r) \<in> ev_id ` set meeting_times) (db_resources db)\<rparr>))"

definition check_can_schedule_section :: "heap \<Rightarrow> database \<Rightarrow> section_info \<Rightarrow> unit result" where
  "check_can_schedule_section h db info =
     (let roomslots = sec_roomslots (hp_sec h (sif_section info)) in
      rbind (raise_if (sif_id info \<in> set (db_locked db)) (SchedulingError ''Section {emailcode} is locked!'')) (\<lambda>_.
      case roomslots of
        [] \<Rightarrow> Inr ()
      | first # _ \<Rightarrow>
          let start_time = ts_start (hp_ts h (rs_timeslot (hp_rs h first)));
              end_time = ts_end (hp_ts h (rs_timeslot (hp_rs h (last roomslots)))) in
          rbind (raise_if (\<exists>other\<in>set (sif_possible_conflicts info). \<exists>e\<in>set (meetings_of db other).
              \<not> (ev_start e \<ge> end_time \<or> ev_end e \<le> start_time))
            (SchedulingError ''Teacher is already teaching'')) (\<lambda>_.
          raise_if (\<exists>r\<in>set (sif_rooms info). is_taken db r \<and>
              (\<exists>(target, i)\<in>set (db_assignments db). i \<in> res_id ` set (grouped_resources db r) \<and> target \<noteq> sif_id info))
            (SchedulingError ''Destination room was already occupied''))))"

definition check_can_schedule_sections :: "heap \<Rightarrow> database \<Rightarrow> section_info list \<Rightarrow> unit result" where
  "check_can_schedule_sections h db infos = rforeach (check_can_schedule_section h db) infos"

definition changed_sections :: "heap \<Rightarrow> schedule \<Rightarrow> secref list" where
  "changed_sections h sch =
     filter (\<lambda>s. sec_initial_state (hp_sec h s) \<noteq> scheduling_hash h s) (dict_values (sch_sections sch))"

definition section_objs :: "database \<Rightarrow> heap \<Rightarrow> schedule \<Rightarrow> int list" where
  "section_objs db h sch =
     sort (map cs_id (filter (\<lambda>s. cs_id s \<in> (\<lambda>s. sec_id (hp_sec h s)) ` set (changed_sections h sch)) (db_sections db)))"

definition release_section :: "heap \<Rightarrow> schedule \<Rightarrow> int \<Rightarrow> saved_state \<Rightarrow> int \<Rightarrow> saved_state result" where
  "release_section h sch section_obj st so =
     rbind (dict_get (sch_sections sch) so) (\<lambda>s.
     rbind (ensure_section_not_moved h s so (fst st)) (\<lambda>_.
     Inr (if length (meetings_of (fst st) section_obj) > 0 then db_unschedule_section so st else st)))"

definition place_section_info :: "heap \<Rightarrow> saved_state \<Rightarrow> section_info \<Rightarrow> saved_state result" where
  "place_section_info h st info =
     (if sec_roomslots (hp_sec h (sif_section info)) \<noteq> [] then
        rbind (py_first (sif_rooms info)) (\<lambda>room. db_schedule_section (sif_id info) (sif_meeting_times info) room st)
      else Inr st)"

definition confirm_section :: "schedule \<Rightarrow> database \<Rightarrow> heap \<Rightarrow> int \<Rightarrow> heap result" where
  "confirm_section sch db h so =
     rbind (dict_get (sch_sections sch) so) (\<lambda>s.
     let h' = recompute_hash h s in
     rbind (ensure_section_not_moved h' s so db) (\<lambda>_. Inr h'))"

definition save_schedule :: "heap \<Rightarrow> schedule \<Rightarrow> bool \<Rightarrow> bool \<Rightarrow> saved_state \<Rightarrow> (heap \<times> saved_state) result" where
  "save_schedule h sch check_consistency check_constraints st =
     rbind (if check_consistency then run_all_consistency_checks h sch else Inr h) (\<lambda>h.
     rbind (if check_constraints then run_constraint_checks h sch else Inr ()) (\<lambda>_.
     let objs = section_objs (fst st) h sch in
     rbind (rmap (section_info_of (fst st) h sch) objs) (\<lambda>infos.
     rbind (rfold (release_section h sch (last objs)) st objs) (\<lambda>st1.
     rbind (check_can_schedule_sections h (fst st1) infos) (\<lambda>_.
     rbind (rfold (place_section_info h) st1 infos) (\<lambda>st2.
     rbind (rfold (confirm_section sch (fst st2)) h objs) (\<lambda>h'.
     rbind (check_can_schedule_sections h' (fst st2) infos) (\<lambda>_.
     Inr (h', st2)))))))))"

subsection \<open>Rows that a save leaves alone\<close>

definition untouched :: "int \<Rightarrow> database \<Rightarrow> database \<Rightarrow> bool" where
  "untouched i db db' \<longleftrightarrow>
     meeting_ids db' i = meeting_ids db i \<and> db_events db' = db_events db \<and> db_resources db' = db_resources db \<and>
     filter (\<lambda>(target, r). target = i) (db_assignments db') = filter (\<lambda>(target, r). target = i) (db_assignments db)"

lemma untouched_refl [simp, intro]: "untouched i db db"
  by (simp add: untouched_def)

lemma untouched_trans [trans]: "untouched i db db' \<Longrightarrow> untouched i db' db'' \<Longrightarrow> untouched i db db''"
  by (simp add: untouched_def)

lemma own_rows: "(i, r) \<in> set xs \<longleftrightarrow> (i, r) \<in> set (filter (\<lambda>(target, r). target = i) xs)"
  by auto

lemma untouched_hash:
  assumes "untouched i db db'"
  shows "database_hash db' i = database_hash db i"
proof -
  from assms have eqs: "meeting_ids db' i = meeting_ids db i" "db_events db' = db_events db"
    "db_resources db' = db_resources db"
    and rows: "filter (\<lambda>(target, r). target = i) (db_assignments db') = filter (\<lambda>(target, r). target = i) (db_assignments db)"
    by (simp_all only: untouched_def)
  have "(i, r) \<in> set (db_assignments db') \<longleftrightarrow> (i, r) \<in> set (db_assignments db)" for r
    unfolding own_rows [of i r "db_assignments db'"] own_rows [of i r "db_assignments db"] rows ..
  then show ?thesis
    unfolding database_hash_def meetings_of_def classrooms_of_def eqs by simp
qed

lemma same_section_rows:
  "j \<noteq> i \<Longrightarrow> filter (\<lambda>s. cs_id s = i) (map (\<lambda>s. if cs_id s = j then s\<lparr>cs_meeting_times := ts\<rparr> else s) xs) =
     filter (\<lambda>s. cs_id s = i) xs"
  by (induction xs) auto

lemma meeting_ids_set: "j \<noteq> i \<Longrightarrow> meeting_ids (set_meeting_times j ts db) i = meeting_ids db i"
  by (simp add: meeting_ids_def set_meeting_times_def same_section_rows)

lemma untouched_set_times: "j \<noteq> i \<Longrightarrow> untouched i db (set_meeting_times j ts db)"
  by (simp add: untouched_def meeting_ids_set) (simp add: set_meeting_times_def)

lemma untouched_clear_rooms: "j \<noteq> i \<Longrightarrow> untouched i db (clearRooms j db)"
  by (auto simp: untouched_def clearRooms_def meeting_ids_def intro!: filter_cong)

lemma untouched_unschedule: "j \<noteq> i \<Longrightarrow> untouched i (fst st) (fst (db_unschedule_section j st))"
  by (cases st) (auto simp: clear_meeting_times_def intro: untouched_trans untouched_set_times untouched_clear_rooms)

lemma untouched_assign_each: "j \<noteq> i \<Longrightarrow> fst (assign_each j done rs db) \<Longrightarrow> untouched i db (snd (assign_each j done rs db))"
proof (induction rs arbitrary: "done" db)
  case (Cons r rs)
  have one: "untouched i db (db\<lparr>db_assignments := db_assignments db @ [(j, res_id r)]\<rparr>)"
    using Cons.prems(1) by (simp add: untouched_def meeting_ids_def)
  show ?case
  proof (cases "is_taken db r")
    case True
    with Cons.prems(2) show ?thesis by (simp add: assignClassRoom_def)
  next
    case False
    with Cons.prems(2) have "fst (assign_each j (done @ [r]) rs (db\<lparr>db_assignments := db_assignments db @ [(j, res_id r)]\<rparr>))"
      by (simp add: assignClassRoom_def)
    from untouched_trans [OF one Cons.IH [OF Cons.prems(1) this]] False show ?thesis
      by (simp add: assignClassRoom_def)
  qed
qed simp

lemma untouched_schedule:
  assumes "j \<noteq> i" and "db_schedule_section j events room st = Inr st'"
  shows "untouched i (fst st) (fst st')"
proof -
  obtain db entries where st: "st = (db, entries)" by (cases st)
  define db1 where "db1 = assign_meeting_times j events db"
  have one: "untouched i db db1"
    unfolding db1_def assign_meeting_times_def by (rule untouched_set_times) (rule assms(1))
  from assms(2) have ok: "fst (assign_room j (res_name room) db1)" and st': "fst st' = snd (assign_room j (res_name room) db1)"
    by (auto simp: st db1_def Let_def split: prod.splits if_splits)
  from ok have "untouched i db1 (snd (assign_room j (res_name room) db1))"
    using untouched_assign_each [OF assms(1)] by (simp add: assign_room_def Let_def split: if_splits)
  with one show ?thesis unfolding st st' fst_conv by (rule untouched_trans)
qed

lemma untouched_release:
  assumes "release_section h sch last_obj st j = Inr st'" and "j \<noteq> i"
  shows "untouched i (fst st) (fst st')"
  using assms by (auto simp: release_section_def rbind_Inr_iff untouched_unschedule split: if_splits)

lemma untouched_place:
  assumes "place_section_info h st info = Inr st'" and "sif_id info \<noteq> i \<or> sec_roomslots (hp_sec h (sif_section info)) = []"
  shows "untouched i (fst st) (fst st')"
  using assms by (auto simp: place_section_info_def rbind_Inr_iff intro: untouched_schedule split: if_splits)

subsection \<open>What a save establishes\<close>

lemma save_schedule_unfold:
  assumes "save_schedule h sch cc ck st = Inr (h', st')"
  obtains h0 infos st1 where "cache_equiv h h0"
    and "rmap (section_info_of (fst st) h0 sch) (section_objs (fst st) h0 sch) = Inr infos"
    and "rfold (release_section h0 sch (last (section_objs (fst st) h0 sch))) st (section_objs (fst st) h0 sch) = Inr st1"
    and "check_can_schedule_sections h0 (fst st1) infos = Inr ()"
    and "rfold (place_section_info h0) st1 infos = Inr st'"
    and "rfold (confirm_section sch (fst st')) h0 (section_objs (fst st) h0 sch) = Inr h'"
    and "check_can_schedule_sections h' (fst st') infos = Inr ()"
proof -
  from assms obtain h0 where h0: "(if cc then run_all_consistency_checks h sch else Inr h) = Inr h0"
    and rest: "rbind (if ck then run_constraint_checks h0 sch else Inr ()) (\<lambda>_.
       let objs = section_objs (fst st) h0 sch in
       rbind (rmap (section_info_of (fst st) h0 sch) objs) (\<lambda>infos.
       rbind (rfold (release_section h0 sch (last objs)) st objs) (\<lambda>st1.
       rbind (check_can_schedule_sections h0 (fst st1) infos) (\<lambda>_.
       rbind (rfold (place_section_info h0) st1 infos) (\<lambda>st2.
       rbind (rfold (confirm_section sch (fst st2)) h0 objs) (\<lambda>h'.
       rbind (check_can_schedule_sections h' (fst st2) infos) (\<lambda>_.
       Inr (h', st2)))))))) = Inr (h', st')"
    unfolding save_schedule_def rbind_Inr_iff by blast
  from h0 have "cache_equiv h h0" by (auto split: if_splits intro: run_all_equiv)
  with rest show thesis unfolding Let_def rbind_Inr_iff by (auto intro: that)
qed

lemma equiv_hash: "cache_equiv h h' \<Longrightarrow> scheduling_hash h' s = scheduling_hash h s"
  by (simp add: scheduling_hash_def Let_def rs_key_def cache_equiv_def same_but_caches_def ts_key_def)

lemma equiv_objs: "cache_equiv h h' \<Longrightarrow> section_objs db h' sch = section_objs db h sch"
  by (simp add: section_objs_def changed_sections_def equiv_hash) (simp add: cache_equiv_def same_but_caches_def)

text \<open>Confirming only rewrites the remembered hashes of sections.\<close>

definition hashes_only :: "heap \<Rightarrow> heap \<Rightarrow> bool" where
  "hashes_only h h' \<longleftrightarrow> hp_rs h' = hp_rs h \<and> hp_ts h' = hp_ts h \<and> hp_room h' = hp_room h \<and>
     (\<forall>s. sec_roomslots (hp_sec h' s) = sec_roomslots (hp_sec h s) \<and> sec_id (hp_sec h' s) = sec_id (hp_sec h s))"

lemma hashes_only_hash: "hashes_only h h' \<Longrightarrow> scheduling_hash h' s = scheduling_hash h s"
  by (simp add: scheduling_hash_def Let_def rs_key_def ts_key_def hashes_only_def)

lemma confirm_section_E:
  assumes "confirm_section sch db h i = Inr h'"
  obtains s where "dict_get (sch_sections sch) i = Inr s" and "h' = recompute_hash h s"
    and "sec_id (hp_sec h s) = i" and "database_hash db i = scheduling_hash h s"
  using assms
  by (auto simp: confirm_section_def rbind_Inr_iff ensure_section_not_moved_def check_iff Let_def recompute_hash_def)

lemma recompute_only: "hashes_only h (recompute_hash h s)"
  by (simp add: hashes_only_def recompute_hash_def)

lemma confirmed:
  assumes "rfold (confirm_section sch db) h objs = Inr h'"
  shows "hashes_only h h' \<and> (\<forall>i\<in>set objs. \<exists>s. dict_get (sch_sections sch) i = Inr s \<and> sec_id (hp_sec h s) = i \<and>
     database_hash db i = scheduling_hash h s)"
  using assms
proof (induction objs arbitrary: h)
  case Nil
  then show ?case by (simp add: hashes_only_def)
next
  case (Cons i objs)
  then obtain h1 where one: "confirm_section sch db h i = Inr h1" and rest: "rfold (confirm_section sch db) h1 objs = Inr h'"
    by (auto simp: rbind_Inr_iff)
  from one obtain s where s: "dict_get (sch_sections sch) i = Inr s" "h1 = recompute_hash h s" "sec_id (hp_sec h s) = i"
    "database_hash db i = scheduling_hash h s"
    by (rule confirm_section_E)
  have only: "hashes_only h h1" unfolding s(2) by (rule recompute_only)
  have ids: "sec_id (hp_sec h1 s') = sec_id (hp_sec h s')" for s' using only by (simp add: hashes_only_def)
  note ih = Cons.IH [OF rest, unfolded hashes_only_hash [OF only] ids]
  from only ih have "hashes_only h h'" by (simp add: hashes_only_def)
  with ih s show ?case by simp
qed

lemma rmap_origin: "rmap f xs = Inr ys \<Longrightarrow> y \<in> set ys \<Longrightarrow> \<exists>x\<in>set xs. f x = Inr y"
  by (induction xs arbitrary: ys) (auto simp: rbind_Inr_iff)

lemma info_section:
  assumes "section_info_of db h sch i = Inr info"
  shows "sif_id info = i \<and> dict_get (sch_sections sch) i = Inr (sif_section info)"
proof -
  from assms obtain s where s: "dict_get (sch_sections sch) i = Inr s"
    by (auto simp: section_info_of_def rbind_Inr_iff)
  show ?thesis
    by (cases "sec_roomslots (hp_sec h s)")
      (use assms s in \<open>auto simp: section_info_of_def Let_def rbind_Inr_iff\<close>)
qed

text \<open>After a save the database has every changed section where the schedule has it; the others keep their rows.\<close>

lemma save_agrees:
  assumes "save_schedule h sch cc ck st = Inr (h', st')"
  shows "\<forall>i\<in>set (section_objs (fst st) h sch).
      \<exists>s. dict_get (sch_sections sch) i = Inr s \<and> database_hash (fst st') i = scheduling_hash h s"
    and "\<forall>i. i \<notin> set (section_objs (fst st) h sch) \<longrightarrow> untouched i (fst st) (fst st')"
proof -
  from assms obtain h0 infos st1 where eq: "cache_equiv h h0"
    and infos: "rmap (section_info_of (fst st) h0 sch) (section_objs (fst st) h0 sch) = Inr infos"
    and released: "rfold (release_section h0 sch (last (section_objs (fst st) h0 sch))) st (section_objs (fst st) h0 sch) = Inr st1"
    and placed: "rfold (place_section_info h0) st1 infos = Inr st'"
    and final: "rfold (confirm_section sch (fst st')) h0 (section_objs (fst st) h0 sch) = Inr h'"
    by (rule save_schedule_unfold)
  note objs = equiv_objs [OF eq]
  from confirmed [OF final] show "\<forall>i\<in>set (section_objs (fst st) h sch).
      \<exists>s. dict_get (sch_sections sch) i = Inr s \<and> database_hash (fst st') i = scheduling_hash h s"
    unfolding objs equiv_hash [OF eq] by blast
  show "\<forall>i. i \<notin> set (section_objs (fst st) h sch) \<longrightarrow> untouched i (fst st) (fst st')"
  proof (intro allI impI)
    fix i assume i: "i \<notin> set (section_objs (fst st) h sch)"
    have "untouched i (fst st) (fst st1)"
      by (rule rfold_invariant [OF released, where P = "\<lambda>st1. untouched i (fst st) (fst st1)"])
        (use i objs in \<open>auto intro: untouched_trans untouched_release\<close>)
    moreover have "sif_id info \<noteq> i" if "info \<in> set infos" for info
      using rmap_origin [OF infos that] info_section i objs by auto
    then have "untouched i (fst st1) (fst st')"
      by (intro rfold_invariant [OF placed, where P = "\<lambda>st'. untouched i (fst st1) (fst st')"])
        (auto intro: untouched_trans untouched_place)
    ultimately show "untouched i (fst st) (fst st')" by (rule untouched_trans)
  qed
qed

subsection \<open>The stale variable\<close>

text \<open>
  A section that the schedule no longer holds and the database still does is only released when the last changed
  section had meeting times. Otherwise its rows survive until the final comparison, which then fails.
\<close>

lemma stale_section_obj:
  assumes i: "i \<in> set (section_objs (fst st) h sch)" and s: "dict_get (sch_sections sch) i = Inr s"
    and unscheduled: "sec_roomslots (hp_sec h s) = []" and held: "meetings_of (fst st) i \<noteq> []"
    and last_free: "meetings_of (fst st) (last (section_objs (fst st) h sch)) = []"
  shows "save_schedule h sch cc ck st \<noteq> Inr (h', st')"
proof
  assume "save_schedule h sch cc ck st = Inr (h', st')"
  then obtain h0 infos st1 where eq: "cache_equiv h h0"
    and infos: "rmap (section_info_of (fst st) h0 sch) (section_objs (fst st) h0 sch) = Inr infos"
    and released: "rfold (release_section h0 sch (last (section_objs (fst st) h0 sch))) st (section_objs (fst st) h0 sch) = Inr st1"
    and placed: "rfold (place_section_info h0) st1 infos = Inr st'"
    and final: "rfold (confirm_section sch (fst st')) h0 (section_objs (fst st) h0 sch) = Inr h'"
    by (rule save_schedule_unfold)
  note objs = equiv_objs [OF eq]
  have st1: "st1 = st"
    by (rule rfold_invariant [OF released, where P = "\<lambda>st1. st1 = st"])
      (use last_free objs in \<open>auto simp: release_section_def rbind_Inr_iff\<close>)
  have empty: "sec_roomslots (hp_sec h0 s) = []"
    using unscheduled eq by (simp add: cache_equiv_def same_but_caches_def)
  have "sif_id info \<noteq> i \<or> sec_roomslots (hp_sec h0 (sif_section info)) = []" if "info \<in> set infos" for info
    using rmap_origin [OF infos that] info_section [of "fst st" h0 sch] s empty by fastforce
  then have "untouched i (fst st) (fst st')"
    by (intro rfold_invariant [OF placed [unfolded st1], where P = "\<lambda>st'. untouched i (fst st) (fst st')"])
      (auto intro: untouched_trans untouched_place)
  from untouched_hash [OF this] confirmed [OF final] i s
  have "database_hash (fst st) i = scheduling_hash h0 s" unfolding objs by auto
  then have "fst (database_hash (fst st) i) = []" by (simp add: scheduling_hash_def Let_def empty)
  then have "length (meetings_of (fst st) i) = 0"
    by (simp add: database_hash_def hash_of_def flip: length_0_conv)
  with held show False by simp
qed


end
