(* ===== verification/Controller_Saving.thy ===== *)
theory Controller_Saving
  imports Controller Saving
begin

section \<open>Saving what a controller imported\<close>

text \<open>
  \<open>AutoschedulerController.save\_assignments\<close> and the handler \<open>autoscheduler\_save\<close>
  (handlers/autoschedulerfrontendmodule.py): a controller is built, replays the exported history and saves the
  schedule. A \<open>SchedulingError\<close> becomes a message; any other exception is passed on.
  \<open>preview_is_saved\<close>: what the administrator has seen is what the database holds after a successful request.
\<close>

datatype save_response = Error_Msg string | Saved

definition controller_save_assignments :: "controller \<Rightarrow> saved_state \<Rightarrow> (controller \<times> saved_state) result" where
  "controller_save_assignments c st =
     (let m = ctl_manipulator c in
      rbind (save_schedule (mp_heap m) (mp_schedule m) True True st) (\<lambda>(h', st').
      Inr (c\<lparr>ctl_manipulator := m\<lparr>mp_heap := h'\<rparr>\<rparr>, st')))"

definition import_and_save ::
  "(string \<Rightarrow> string \<Rightarrow> bool) \<Rightarrow> controller result \<Rightarrow> json_action list \<times> (int, stored_hash) dict \<Rightarrow> saved_state \<Rightarrow>
   (controller \<times> saved_state) result" where
  "import_and_save re_match built data st =
     rbind built (\<lambda>c. rbind (import_assignments re_match c data) (\<lambda>c. controller_save_assignments c st))"

definition autoscheduler_save ::
  "(string \<Rightarrow> string \<Rightarrow> bool) \<Rightarrow> program_data \<Rightarrow> ((json_action list \<times> (int, stored_hash) dict) \<times> options) option \<Rightarrow>
   saved_state \<Rightarrow> (save_response \<times> saved_state) result" where
  "autoscheduler_save re_match pd autoscheduler_data st =
     (case autoscheduler_data of
        None \<Rightarrow> Inr (Error_Msg ''missing autoscheduler_data POST field'', st)
      | Some (data, options) \<Rightarrow>
          (case import_and_save re_match (AutoschedulerController_init re_match pd options) data st of
             Inr (c, st') \<Rightarrow> Inr (Saved, st')
           | Inl (SchedulingError msg) \<Rightarrow> Inr (Error_Msg msg, st)
           | Inl e \<Rightarrow> Inl e))"

lemma save_Saved:
  assumes "autoscheduler_save re_match pd (Some (data, opts)) st = Inr (Saved, st')"
  obtains c where "import_and_save re_match (AutoschedulerController_init re_match pd opts) data st = Inr (c, st')"
  using assms by (auto simp: autoscheduler_save_def split: sum.splits py_error.splits)

lemma preview_is_saved:
  assumes init: "AutoschedulerController_init re_match pd (ctl_options c) = Inr c0"
    and run: "accepted_run re_match (ctl_manipulator c0) (ctl_manipulator c)"
    and tracked: "tracked re_match nws criteria (ctl_manipulator c0)" and fresh: "mp_history (ctl_manipulator c0) = []"
    and whole: "whole_times (mp_heap (ctl_manipulator c0)) (mp_schedule (ctl_manipulator c0))"
    and no_swaps: "\<And>a. a \<in> set (mp_history (ctl_manipulator c)) \<Longrightarrow> act_section a \<noteq> None"
    and exported: "export_assignments c = Inr exported_data"
    and saved: "autoscheduler_save re_match pd (Some exported_data) st = Inr (Saved, st')"
  shows "\<forall>i\<in>set (section_objs (fst st) (mp_heap (ctl_manipulator c)) (mp_schedule (ctl_manipulator c))).
      \<exists>s. dict_get (sch_sections (mp_schedule (ctl_manipulator c))) i = Inr s \<and>
        database_hash (fst st') i = scheduling_hash (mp_heap (ctl_manipulator c)) s"
proof -
  obtain data where data: "export_assignments c = Inr (data, ctl_options c)"
    "import_assignments re_match c0 data = Inr (c0\<lparr>ctl_manipulator := ctl_manipulator c\<rparr>)"
    using export_import [OF run tracked fresh whole no_swaps refl refl] by blast
  with exported have "exported_data = (data, ctl_options c)" by simp
  with saved obtain c' where "import_and_save re_match (AutoschedulerController_init re_match pd (ctl_options c)) data st = Inr (c', st')"
    using save_Saved by metis
  then have "controller_save_assignments (c0\<lparr>ctl_manipulator := ctl_manipulator c\<rparr>) st = Inr (c', st')"
    by (simp add: import_and_save_def init data(2))
  then obtain h' where "save_schedule (mp_heap (ctl_manipulator c)) (mp_schedule (ctl_manipulator c)) True True st = Inr (h', st')"
    by (auto simp: controller_save_assignments_def Let_def rbind_Inr_iff)
  from save_agrees(1) [OF this] show ?thesis .
qed

end
