(* ===== verification/Examples.thy ===== *)
theory Examples
  imports History_Summary
begin

section \<open>A concrete program\<close>

text \<open>
  A small program: two rooms, three timeslots (the first two are contiguous), two teachers
  and three sections, the second of which takes two timeslots and is already placed. It is
  the input of the witnesses. References: timeslots 0 to 2, rooms 3 and 7 with roomslots 4
  to 6 and 8 to 9, teachers 10 and 11, sections 12 to 14.
\<close>

definition ex_day :: "int \<Rightarrow> datetime" where
  "ex_day hour = Datetime 2024 1 6 hour 0 0 0"

definition ex_span :: "int \<Rightarrow> times" where
  "ex_span hour = (ex_day hour, ex_day (hour + 1))"

definition ex_timeslot :: "int \<Rightarrow> int \<Rightarrow> rsref set \<Rightarrow> as_timeslot" where
  "ex_timeslot i hour rs =
     \<lparr>ts_id = i, ts_start = ex_day hour, ts_end = ex_day (hour + 1), ts_duration = 1, ts_roomslots = rs\<rparr>"

definition ex_roomslot :: "tsref \<Rightarrow> roomref \<Rightarrow> secref option \<Rightarrow> as_roomslot" where
  "ex_roomslot t room s =
     \<lparr>rs_timeslot = t, rs_room = room, rs_section = s, rs_next_is_cached = False, rs_next = None, rs_index = None\<rparr>"

definition ex_section :: "int \<Rightarrow> int \<Rightarrow> rat \<Rightarrow> tref list \<Rightarrow> int \<Rightarrow> int \<Rightarrow> rsref list \<Rightarrow> as_section" where
  "ex_section i parent duration teachers capacity category rs =
     \<lparr>sec_id = i, sec_parent = parent, sec_duration = duration, sec_teachers = teachers,
      sec_capacity = capacity, sec_grade_min = 7, sec_grade_max = 12, sec_category = category,
      sec_roomslots = rs, sec_requests = [], sec_initial_state = ([], [])\<rparr>"

definition ex_teacher :: "int \<Rightarrow> tsref list \<Rightarrow> (int, secref) dict \<Rightarrow> bool \<Rightarrow> (times, tsref) dict \<Rightarrow> as_teacher" where
  "ex_teacher i av taught admin d =
     \<lparr>t_id = i, t_availability = av, t_taught = taught, t_is_admin = admin, t_avail_dict = d\<rparr>"

definition ex_room :: "string \<Rightarrow> int \<Rightarrow> rsref list \<Rightarrow> (times, rsref) dict \<Rightarrow> as_classroom" where
  "ex_room name capacity av d =
     \<lparr>room_name = name, room_capacity = capacity, room_availability = av, room_furnishings = [],
      room_avail_dict = d\<rparr>"

definition ex_heap :: heap where
  "ex_heap = \<lparr>
     hp_ts = (\<lambda>_. ex_timeslot 103 13 {6})(0 := ex_timeslot 101 10 {4, 8}, 1 := ex_timeslot 102 11 {5, 9}),
     hp_rs = (\<lambda>_. ex_roomslot 0 3 None)(5 := ex_roomslot 1 3 None, 6 := ex_roomslot 2 3 None,
       8 := ex_roomslot 0 7 (Some 13), 9 := ex_roomslot 1 7 (Some 13)),
     hp_sec = (\<lambda>_. ex_section 31 41 1 [10] 10 1 [])(13 := ex_section 32 42 2 [11] 15 2 [8, 9],
       14 := ex_section 33 43 1 [10] 20 1 []),
     hp_teacher = (\<lambda>_. ex_teacher 21 [0, 1, 2] [(31, 12), (33, 14)] False
         [(ex_span 10, 0), (ex_span 11, 1), (ex_span 13, 2)])
       (11 := ex_teacher 22 [0, 1] [(32, 13)] True [(ex_span 10, 0), (ex_span 11, 1)]),
     hp_room = (\<lambda>_. ex_room ''A'' 30 [4, 5, 6] [(ex_span 10, 4), (ex_span 11, 5), (ex_span 13, 6)])
       (7 := ex_room ''B'' 20 [8, 9] [(ex_span 10, 8), (ex_span 11, 9)]),
     hp_fresh = 15\<rparr>"

definition ex_sch :: schedule where
  "ex_sch = \<lparr>
     sch_timeslots = [0, 1, 2], sch_timeslot_dict = [(ex_span 10, 0), (ex_span 11, 1), (ex_span 13, 2)],
     sch_sections = [(31, 12), (32, 13), (33, 14)], sch_teachers = [(21, 10), (22, 11)],
     sch_classrooms = [(''A'', 3), (''B'', 7)], sch_lunch = [((2024, 1, 6), [1])],
     sch_constraints = [ContiguousConstraint, PreconditionConstraint, RoomAvailabilityConstraint,
       RoomConcurrencyConstraint, SectionDurationConstraint, TeacherAvailabilityConstraint,
       TeacherConcurrencyConstraint],
     sch_exclude_locked = True\<rparr>"

lemma ex_day_simps [simp]:
  "ex_day a = ex_day b \<longleftrightarrow> a = b" "ex_day a < ex_day b \<longleftrightarrow> a < b" "ex_day a \<le> ex_day b \<longleftrightarrow> a \<le> b"
  "hours_difference (ex_day a) (ex_day b) = of_int (b - a)"
  "contiguous_times (ex_day a) (ex_day b) \<longleftrightarrow> a = b" "date_of (ex_day a) = (2024, 1, 6)"
  by (auto simp: ex_day_def less_datetime_def less_eq_datetime_def dt_tuple_def date_of_def
      hours_difference_def contiguous_times_def dt_us_def toordinal_def)

lemma ex_span_simps [simp]:
  "ex_span a = ex_span b \<longleftrightarrow> a = b" "ex_span a < ex_span b \<longleftrightarrow> a < b" "ex_span a \<le> ex_span b \<longleftrightarrow> a \<le> b"
  "fst (ex_span a) = ex_day a" "snd (ex_span a) = ex_day (a + 1)"
  by (auto simp: ex_span_def less_prod_def')

lemma ex_timeslots [simp]:
  "hp_ts ex_heap 0 = ex_timeslot 101 10 {4, 8}" "hp_ts ex_heap (Suc 0) = ex_timeslot 102 11 {5, 9}"
  "hp_ts ex_heap 2 = ex_timeslot 103 13 {6}"
  "ts_id (ex_timeslot i a rs) = i" "ts_start (ex_timeslot i a rs) = ex_day a"
  "ts_end (ex_timeslot i a rs) = ex_day (a + 1)" "ts_duration (ex_timeslot i a rs) = 1"
  "ts_roomslots (ex_timeslot i a rs) = rs"
  by (simp_all add: ex_heap_def ex_timeslot_def)

lemma ex_roomslots [simp]:
  "hp_rs ex_heap 4 = ex_roomslot 0 3 None" "hp_rs ex_heap 5 = ex_roomslot (Suc 0) 3 None"
  "hp_rs ex_heap 6 = ex_roomslot 2 3 None" "hp_rs ex_heap 8 = ex_roomslot 0 7 (Some 13)"
  "hp_rs ex_heap 9 = ex_roomslot (Suc 0) 7 (Some 13)"
  "rs_timeslot (ex_roomslot t room s) = t" "rs_room (ex_roomslot t room s) = room"
  "rs_section (ex_roomslot t room s) = s" "rs_next_is_cached (ex_roomslot t room s) = False"
  "rs_index (ex_roomslot t room s) = None"
  by (simp_all add: ex_heap_def ex_roomslot_def)

lemma ex_sections [simp]:
  "hp_sec ex_heap 12 = ex_section 31 41 1 [10] 10 1 []"
  "hp_sec ex_heap 13 = ex_section 32 42 2 [11] 15 2 [8, 9]"
  "hp_sec ex_heap 14 = ex_section 33 43 1 [10] 20 1 []"
  "sec_id (ex_section i pa d te cap cat rs) = i" "sec_parent (ex_section i pa d te cap cat rs) = pa"
  "sec_duration (ex_section i pa d te cap cat rs) = d" "sec_teachers (ex_section i pa d te cap cat rs) = te"
  "sec_capacity (ex_section i pa d te cap cat rs) = cap" "sec_category (ex_section i pa d te cap cat rs) = cat"
  "sec_roomslots (ex_section i pa d te cap cat rs) = rs" "sec_requests (ex_section i pa d te cap cat rs) = []"
  by (simp_all add: ex_heap_def ex_section_def)

lemma ex_teachers [simp]:
  "hp_teacher ex_heap 10 = ex_teacher 21 [0, Suc 0, 2] [(31, 12), (33, 14)] False
     [(ex_span 10, 0), (ex_span 11, Suc 0), (ex_span 13, 2)]"
  "hp_teacher ex_heap 11 = ex_teacher 22 [0, Suc 0] [(32, 13)] True [(ex_span 10, 0), (ex_span 11, Suc 0)]"
  "t_id (ex_teacher i av ta admin d) = i" "t_availability (ex_teacher i av ta admin d) = av"
  "t_taught (ex_teacher i av ta admin d) = ta" "t_is_admin (ex_teacher i av ta admin d) = admin"
  "t_avail_dict (ex_teacher i av ta admin d) = d"
  by (simp_all add: ex_heap_def ex_teacher_def)

lemma ex_rooms [simp]:
  "hp_room ex_heap 3 = ex_room ''A'' 30 [4, 5, 6] [(ex_span 10, 4), (ex_span 11, 5), (ex_span 13, 6)]"
  "hp_room ex_heap 7 = ex_room ''B'' 20 [8, 9] [(ex_span 10, 8), (ex_span 11, 9)]"
  "room_name (ex_room n c av d) = n" "room_capacity (ex_room n c av d) = c"
  "room_availability (ex_room n c av d) = av" "room_avail_dict (ex_room n c av d) = d"
  "room_furnishings (ex_room n c av d) = []"
  by (simp_all add: ex_heap_def ex_room_def)

lemma ex_schedule [simp]:
  "sch_timeslots ex_sch = [0, Suc 0, 2]"
  "sch_timeslot_dict ex_sch = [(ex_span 10, 0), (ex_span 11, Suc 0), (ex_span 13, 2)]"
  "sch_sections ex_sch = [(31, 12), (32, 13), (33, 14)]" "sch_teachers ex_sch = [(21, 10), (22, 11)]"
  "sch_classrooms ex_sch = [(''A'', 3), (''B'', 7)]" "sch_lunch ex_sch = [((2024, 1, 6), [Suc 0])]"
  by (simp_all add: ex_sch_def)

lemma ex_keys [simp]:
  "ts_key ex_heap 0 = ex_span 10" "ts_key ex_heap (Suc 0) = ex_span 11" "ts_key ex_heap 2 = ex_span 13"
  by (simp_all add: ts_key_def ex_span_def)

lemma ex_values [simp]: "dict_values [] = []" "dict_values (kv # d) = snd kv # dict_values d"
  by (simp_all add: dict_values_def)

lemma ex_all [simp]: "all_roomslots ex_heap ex_sch = {4, 5, 6, 8, 9}"
  by (auto simp: all_roomslots_def)

lemma ex_linked: "linked ex_heap ex_sch"
  unfolding linked_def by (intro conjI) (auto simp: dict_values_def)

lemma ex_registered: "registered ex_heap ex_sch 0" "registered ex_heap ex_sch (Suc 0)" "registered ex_heap ex_sch 2"
  by (simp_all add: registered_def ts_eq_def)

lemma ex_index [simp]:
  "roomslot_index ex_heap 4 = Inr 0" "roomslot_index ex_heap 5 = Inr 1" "roomslot_index ex_heap 6 = Inr 2"
  "roomslot_index ex_heap 8 = Inr 0" "roomslot_index ex_heap 9 = Inr 1"
  by (simp_all add: roomslot_index_def)

lemma ex_static: "static_ok ex_heap ex_sch"
  unfolding static_ok_def
proof (intro conjI)
  show "\<forall>room\<in>rooms_of ex_sch. room_dict_ok ex_heap room"
    by (simp add: room_dict_ok_def rs_key_def dict_values_def)
  show "\<forall>t\<in>teachers_of ex_sch. teacher_dict_ok ex_heap t"
    by (simp add: teacher_dict_ok_def dict_values_def)
  show "lunch_ok ex_heap ex_sch" by (simp add: lunch_ok_def ex_registered)
  show "resources_ok ex_heap ex_sch" by (simp add: resources_ok_def)
  show "\<forall>room\<in>rooms_of ex_sch. room_next_index_ok ex_heap room"
    by (simp add: room_next_index_ok_def next_index_ok_def roomslot_next_def py_nth_def Let_def)
  show "dicts_ok ex_heap ex_sch" by (simp add: dicts_ok_def)
  show "taught_ok ex_heap ex_sch" by (simp add: taught_ok_def dict_has_def)
  show "timeslots_ok ex_heap ex_sch" by (simp add: timeslots_ok_def before_def ts_lt_def dict_has_def)
qed (simp_all add: roomslots_sorted_def rs_key_def ts_lt_def ex_registered)

lemma ex_placed: "placed ex_heap ex_sch"
  by (auto simp: placed_def roomslots_sorted_def rs_key_def dict_has_def)

lemma ex_legal: "legal ex_heap ex_sch"
  by (simp add: legal_iff run_ok_def span_ok_def contiguous_def rs_start_def rs_end_def DELTA_TIME_def
      available_at_def available_def one_place_def taught_roomslots_def dict_values_def rs_key_def dict_has_def)

lemma ex_valid: "valid ex_heap ex_sch"
  using ex_linked ex_static ex_placed ex_legal by (simp add: valid_split)

lemma ex_needed [simp]:
  "get_roomslots_by_duration ex_heap 4 1 = [4]" "get_roomslots_by_duration ex_heap 4 2 = [4, 5]"
  "get_roomslots_by_duration ex_heap 6 1 = [6]" "get_roomslots_by_duration ex_heap 8 2 = [8, 9]"
  "get_roomslots_by_duration ex_heap 5 1 = [5]"
  by (simp_all add: get_roomslots_by_duration_def grs_loop.simps DELTA_TIME_def rs_end_def rs_key_def Let_def)

lemma ex_settled: "settled ex_heap ex_sch"
  using ex_valid by (simp add: settled_def canonical_def owned_def)

subsection \<open>A manipulator\<close>

definition ex_re :: "string \<Rightarrow> string \<Rightarrow> bool" where
  "ex_re regex value = (regex = ''.*'')"

definition ex_weights :: "(string, rat option) dict" where
  "ex_weights = [(''NumSectionsScorer'', Some 100), (''HungryTeacherScorer'', Some 70),
     (''RoomConsecutivityScorer'', Some 10), (''CategoryBalanceScorer'', None)]"

definition ex_init :: "manipulator result" where
  "ex_init = ScheduleManipulator_init ex_re ex_heap ex_sch None [] ex_weights []"

lemma ex_static_scores:
  "section_list ex_sch = [12, 13, 14]"
  by (simp add: section_list_def)

lemma ex_exact: "exact_names ex_weights"
  by (simp add: exact_names_def active_def ex_weights_def)

lemma ex_nsec: "nsec_update_schedule ex_heap ex_sch = Inr \<lparr>nsec_total = 3, nsec_scheduled = 1\<rparr>"
  by (simp add: nsec_update_schedule_def ex_static_scores)

lemma ex_consecutivity:
  "co_update_schedule ex_heap ex_sch = Inr \<lparr>co_num_sections = 3, co_boundaries = 2\<rparr>"
  by (simp add: co_update_schedule_def ex_static_scores py_first_def py_last_def boundary_complete_before_def
      boundary_complete_after_def roomslot_next_def Let_def count_boundary_def)

lemma ex_hungry:
  "hg_update_schedule ex_heap ex_sch = Inr \<lparr>hg_total = 2, hg_lunch = [((2024, 1, 6), [Suc 0])],
     hg_by_teacher = [(21, [(102, False)]), (22, [(102, True)])], hg_hungry = {22}, hg_scaling = 2 / 3\<rparr>"
  by (simp add: hg_update_schedule_def ex_static_scores set_teaching_def dict_of_def dict_keys_def
      update_teacher_hungriness_def dict_get_def dict_has_iff slot_id_def py_div_def Let_def)

definition ex_scorer :: composite_scorer where
  "ex_scorer = \<lparr>cs_scorers = [
       (Sections \<lparr>nsec_total = 3, nsec_scheduled = 1\<rparr>, 100),
       (Hungry \<lparr>hg_total = 2, hg_lunch = [((2024, 1, 6), [Suc 0])],
          hg_by_teacher = [(21, [(102, False)]), (22, [(102, True)])], hg_hungry = {22}, hg_scaling = 2 / 3\<rparr>, 70),
       (Consecutivity \<lparr>co_num_sections = 3, co_boundaries = 2\<rparr>, 10)],
     cs_total_weight = 470 / 3\<rparr>"

definition ex_manipulator :: manipulator where
  "ex_manipulator = \<lparr>mp_heap = ex_heap, mp_schedule = ex_sch, mp_constraints = sch_constraints ex_sch,
     mp_scorer = ex_scorer, mp_history = []\<rparr>"

lemma ex_scorer_init: "CompositeScorer_init ex_re ex_weights [] ex_heap ex_sch = Inr ex_scorer"
  by (simp add: CompositeScorer_init_def active_def ex_weights_def load_scorer_def find_class_def
      scorer_classes_def dict_get_def ex_nsec ex_consecutivity ex_hungry compute_total_weight_def ex_scorer_def)

lemma ex_init_eq: "ex_init = Inr ex_manipulator"
  by (simp add: ex_init_def ScheduleManipulator_init_def ex_scorer_init ex_manipulator_def)

lemma ex_required: "required c \<Longrightarrow> c \<in> set (sch_constraints ex_sch)"
  by (cases c) (simp_all add: ex_sch_def)

lemma ex_tracked: "tracked ex_re ex_weights [] ex_manipulator"
  using ex_settled ex_required ex_exact ex_scorer_init by (simp add: tracked_def ex_manipulator_def)

lemma ex_whole: "whole_times (mp_heap ex_manipulator) (mp_schedule ex_manipulator)"
  by (simp add: ex_manipulator_def whole_times_def whole_second_def valid_datetime_def ex_day_def
      days_in_month_def)

text \<open>Scheduling the first section at the first roomslot passes every check.\<close>

lemma ex_check: "c \<in> set (sch_constraints ex_sch) \<Longrightarrow> check_schedule_section ex_re c ex_heap ex_sch 12 4 = ok"
  by (auto simp: ex_sch_def contiguous_check_schedule_section_def precondition_check_schedule_section_def
      room_concurrency_check_schedule_section_def duration_check_schedule_section_def
      availability_check_schedule_section_def concurrency_check_schedule_section_def
      get_already_teaching_set_def taught_roomslots_def available_def rs_key_def DELTA_TIME_def check_iff
      dict_has_def Let_def rs_start_def rs_end_def contiguous_def)

lemma ex_schedule_ok:
  "guard (mp_heap ex_manipulator) (Schedule 12 4)" "checked ex_re ex_manipulator (Schedule 12 4) = ok"
  "in_range (mp_heap ex_manipulator) (mp_schedule ex_manipulator) (Schedule 12 4)"
  using ex_check by (simp_all add: ex_manipulator_def composite_set)

lemma ex_accepted:
  obtains m' where "operation ex_re ex_manipulator (Schedule 12 4) False = Inr (True, m')"
    "performed ex_re ex_manipulator (Schedule 12 4) m'"
proof -
  from operation_ok [OF ex_tracked ex_schedule_ok(3,1,2)] that show thesis by blast
qed

lemma ex_selectors [simp]:
  "mp_heap ex_manipulator = ex_heap" "mp_schedule ex_manipulator = ex_sch" "mp_history ex_manipulator = []"
  "mp_scorer ex_manipulator = ex_scorer" "mp_constraints ex_manipulator = sch_constraints ex_sch"
  by (simp_all add: ex_manipulator_def)

lemma ex_run:
  assumes "operation ex_re ex_manipulator (Schedule 12 4) False = Inr (True, m')"
  shows "accepted_run ex_re ex_manipulator m'"
  by (rule run_step [OF run_start ex_schedule_ok(3) assms])

subsection \<open>A section put in and taken out again\<close>

lemma ex_idle:
  obtains m where "reachable ex_re ex_manipulator m" "mentions (schedule_action 12 4) \<subseteq> \<Union> (mentions ` set (mp_history m))"
    "mp_heap m = ex_heap"
proof -
  obtain m1 where op1: "operation ex_re ex_manipulator (Schedule 12 4) False = Inr (True, m1)" and
    m1: "performed ex_re ex_manipulator (Schedule 12 4) m1" by (rule ex_accepted)
  note step = performed_step [OF m1, simplified]
  have rev_step: "manip_step ex_sch (mp_heap m1) (Unschedule 12) ex_heap" using step_inverse [OF step] by simp
  then have scheduled: "is_scheduled (mp_heap m1) 12" by (auto elim!: unscheduleE)
  have "check_unschedule_section c h sch 12 = ok" if "is_scheduled h 12" for c h and sch :: schedule
    using that by (cases c) (simp_all add: precondition_check_unschedule_section_def)
  with scheduled have checked: "checked ex_re m1 (Unschedule 12) = ok" by (simp add: composite_set)
  have range: "in_range (mp_heap m1) (mp_schedule m1) (Unschedule 12)" using ex_schedule_ok(3) performed_sel(1) [OF m1] by simp
  from operation_ok [OF performed_tracked [OF ex_tracked m1] range _ checked] scheduled obtain m2 where
    m2: "operation ex_re m1 (Unschedule 12) False = Inr (True, m2)" "performed ex_re m1 (Unschedule 12) m2" by auto
  show thesis
  proof (rule that)
    show "reachable ex_re ex_manipulator m2"
      by (rule accepted_reachable [OF run_step [OF ex_run [OF op1] range m2(1)] tracked_managed [OF ex_tracked]])
    show "mentions (schedule_action 12 4) \<subseteq> \<Union> (mentions ` set (mp_history m2))"
      using performed_sel(3) [OF m1] performed_sel(3) [OF m2(2)] by auto
    show "mp_heap m2 = ex_heap" using performed_step [OF m2(2)] rev_step by (auto elim!: unscheduleE)
  qed
qed

subsection \<open>TeachersWhoLikeRunningScorer drifts\<close>

text \<open>
  Three contiguous timeslots. Teacher 11 already teaches section 14 in room A in the third; section 13 is
  then placed in room B in the first two. Computed from scratch the scorer counts one change of rooms,
  updated it counts none: the update looks at the first roomslot where it means the last.
\<close>

definition running_heap :: "rsref list \<Rightarrow> heap" where
  "running_heap rs = ex_heap\<lparr>
     hp_ts := (hp_ts ex_heap)(2 := ex_timeslot 103 12 {6}),
     hp_sec := (hp_sec ex_heap)(13 := ex_section 32 42 2 [11] 15 2 rs, 14 := ex_section 33 43 1 [11] 20 1 [6])\<rparr>"

lemma running_simps [simp]:
  "hp_ts (running_heap rs) 0 = ex_timeslot 101 10 {4, 8}" "hp_ts (running_heap rs) (Suc 0) = ex_timeslot 102 11 {5, 9}"
  "hp_ts (running_heap rs) 2 = ex_timeslot 103 12 {6}" "hp_rs (running_heap rs) = hp_rs ex_heap"
  "hp_room (running_heap rs) = hp_room ex_heap" "hp_teacher (running_heap rs) = hp_teacher ex_heap"
  "hp_sec (running_heap rs) 12 = ex_section 31 41 1 [10] 10 1 []"
  "hp_sec (running_heap rs) 13 = ex_section 32 42 2 [11] 15 2 rs"
  "hp_sec (running_heap rs) 14 = ex_section 33 43 1 [11] 20 1 [6]"
  by (simp_all add: running_heap_def)

lemma running_needed: "get_roomslots_by_duration (running_heap rs) 8 2 = [8, 9]"
proof -
  have "roomslot_index (running_heap rs) 8 = Inr 0" by (simp add: roomslot_index_def)
  then show ?thesis
    by (simp add: get_roomslots_by_duration_def grs_loop.simps DELTA_TIME_def rs_end_def rs_key_def Let_def)
qed

definition running_teaching :: "(int, (int, rsref) dict) dict" where
  "running_teaching = [(21, []), (22, [(103, 6)])]"

lemma running_before:
  "rn_update_schedule (running_heap []) ex_sch = Inr \<lparr>rn_num_sections = 3,
     rn_indices = [(101, 0), (102, 1), (103, 2)], rn_timeslots = [0, 1, 2],
     rn_teaching = running_teaching, rn_count = 0\<rparr>"
  by (simp add: rn_update_schedule_def ex_static_scores teach_slots_def dict_get_def dict_of_def slot_id_def
      py_nth_def dict_keys_def Let_def running_teaching_def)

lemma running_updated:
  "\<exists>st st'. rn_update_schedule (running_heap []) ex_sch = Inr st \<and>
     rn_update_schedule_section (running_heap []) st 13 8 = Inr st' \<and> rn_count st' = 0"
  unfolding running_before
  by (simp add: rn_update_schedule_section_def running_needed teach_slots_def dict_get_def slot_id_def
      running_teaching_def running_process_section_def running_pair_def py_nth_def contiguous_def Let_def)

lemma running_afresh: "\<exists>st. rn_update_schedule (running_heap [8, 9]) ex_sch = Inr st \<and> rn_count st = 1"
  by (simp add: rn_update_schedule_def ex_static_scores teach_slots_def dict_get_def dict_of_def slot_id_def
      py_nth_def dict_keys_def contiguous_def Let_def)

end
