(* ===== verification/Loading_Examples.thy ===== *)
theory Loading_Examples
  imports Examples Loading
begin

section \<open>Concrete databases\<close>

text \<open>
  Inputs for the witnesses about loading: a database with two timeslots, one of them lunch, and rows
  for a section in room A of theory Examples, booked at its meeting time or at another one.
\<close>

definition ex_flags :: load_flags where
  "ex_flags = \<lparr>require_approved = True, exclude_lunch = True, exclude_walkins = True, exclude_scheduled = False,
     exclude_locked = True\<rparr>"

definition ex_event :: "int \<Rightarrow> int \<Rightarrow> event" where
  "ex_event i hour = \<lparr>ev_id = i, ev_start = ex_day hour, ev_end = ex_day (hour + 1), ev_program = 1\<rparr>"

definition ex_database :: database where
  "ex_database = \<lparr>db_program = 1, db_timeslots = [ex_event 101 10, ex_event 102 11], db_lunch = [ex_event 102 11],
     db_events = [], db_sections = [], db_open_registration = False, db_open_category = 0, db_locked = [],
     db_availability_module = True, db_availability = [], db_admins = [], db_resources = [], db_classrooms = [],
     db_assignments = [], db_requests = []\<rparr>"

lemma ex_event_simps [simp]:
  "ev_id (ex_event i hour) = i" "ev_start (ex_event i hour) = ex_day hour" "ev_end (ex_event i hour) = ex_day (hour + 1)"
  "ev_program (ex_event i hour) = 1"
  by (simp_all add: ex_event_def)

lemma ex_database_simps [simp]:
  "db_program ex_database = 1" "db_timeslots ex_database = [ex_event 101 10, ex_event 102 11]"
  "db_lunch ex_database = [ex_event 102 11]" "db_sections ex_database = []" "db_resources ex_database = []"
  "db_classrooms ex_database = []" "db_assignments ex_database = []" "db_requests ex_database = []"
  "exclude_locked ex_flags = True"
  by (simp_all add: ex_database_def ex_flags_def)

definition loaded_heap :: heap where
  "loaded_heap = ex_heap\<lparr>hp_ts := (hp_ts ex_heap)(15 := ex_timeslot 101 10 {}, 16 := ex_timeslot 102 11 {}), hp_fresh := 17\<rparr>"

definition loaded_schedule :: schedule where
  "loaded_schedule = \<lparr>sch_timeslots = [15, 16], sch_timeslot_dict = [(ex_span 10, 15), (ex_span 11, 16)],
     sch_sections = [], sch_teachers = [], sch_classrooms = [], sch_lunch = [((2024, 1, 6), [16])],
     sch_constraints = sch_constraints ex_sch, sch_exclude_locked = True\<rparr>"

lemma ex_fresh: "hp_fresh ex_heap = 15"
  by (simp add: ex_heap_def)

lemma loaded_simps [simp]:
  "hp_ts loaded_heap 15 = ex_timeslot 101 10 {}" "hp_ts loaded_heap 16 = ex_timeslot 102 11 {}"
  "ts_key loaded_heap 15 = ex_span 10" "ts_key loaded_heap 16 = ex_span 11"
  by (simp_all add: loaded_heap_def ts_key_def ex_span_def)

lemma loaded_timeslots: "batch_convert_events ex_heap (db_timeslots ex_database) (db_program ex_database) = Inr ([15, 16], loaded_heap)"
  by (simp add: convert_event_def AS_Timeslot_init_def Let_def DELTA_TIME_def ex_fresh loaded_heap_def ex_timeslot_def)

lemma loaded_consistent: "consistent loaded_heap loaded_schedule"
  by (simp add: consistent_def loaded_schedule_def lunch_ok_def registered_def ts_eq_def resources_ok_def links_ok_def
      existing_roomslots_def dicts_ok_def sorting_ok_def taught_ok_def timeslots_ok_def before_def ts_lt_def dict_has_def)

lemma loaded_checks: "run_all_consistency_checks loaded_heap loaded_schedule = Inr loaded_heap"
proof -
  obtain h' where h': "run_all_consistency_checks loaded_heap loaded_schedule = Inr h'"
    using run_all_iff loaded_consistent by blast
  then have "check_roomslot_next_and_index_consistency loaded_heap loaded_schedule = Inr h'"
    by (simp add: run_all_Inr_iff)
  with h' show ?thesis by (simp add: check_roomslot_next_and_index_consistency_def loaded_schedule_def)
qed

lemma loaded_constraints: "run_constraint_checks loaded_heap loaded_schedule = Inr ()"
proof -
  have "legal loaded_heap loaded_schedule" by (simp add: legal_iff loaded_schedule_def)
  moreover have "required c" if "c \<in> set (sch_constraints loaded_schedule)" for c
    using that by (auto simp: loaded_schedule_def ex_sch_def)
  ultimately show ?thesis by (auto simp: run_constraint_checks_iff legal_def)
qed

lemma ex_constraints: "CompositeConstraint_init (ConstraintNames []) [] = Inr (sch_constraints ex_sch)"
  by (simp add: CompositeConstraint_init_def get_required_constraint_names_def all_constraint_classes_def
      dict_get_def ex_sch_def)

lemma ex_timeslot_dict: "build_timeslot_dict loaded_heap [15, 16] = [(ex_span 10, 15), (ex_span 11, 16)]"
  by (simp add: build_timeslot_dict_def dict_of_def)

lemma ex_lunch:
  "build_lunch_timeslots [(ex_span 10, 15), (ex_span 11, 16)] [(ex_day 11, ex_day 12)] = Inr [((2024, 1, 6), [16])]"
  by (simp add: build_lunch_timeslots_def lunch_step_def ex_span_def Let_def dict_has_def dict_get_def)

lemma loaded_init:
  "AS_Schedule_init loaded_heap [15, 16] [] [] [] [(ex_day 11, ex_day 12)] None True = Inr (loaded_schedule, loaded_heap)"
  unfolding AS_Schedule_init_def ex_timeslot_dict ex_lunch
  using loaded_checks loaded_constraints ex_constraints
  by (simp add: Let_def loaded_schedule_def)

lemma loaded_rows:
  "load_sections_and_teachers_and_classrooms ex_database loaded_heap loaded_schedule ex_flags =
     Inr ([], [], [], loaded_heap)"
  by (simp add: load_sections_and_teachers_and_classrooms_def selected_sections_def load_section_assignments_def
      convert_classroom_resources_def furnishings_by_group_def room_assignments_def empty_lists_def dict_of_def
      dict_keys_def Let_def)

lemma loaded: "load_schedule_from_db ex_database ex_heap ex_flags = Inr (loaded_heap, loaded_schedule)"
proof -
  have "sort_key (ts_key loaded_heap) [15, 16] = [15, 16]" by simp
  moreover have "loaded_schedule\<lparr>sch_sections := [], sch_teachers := [], sch_classrooms := []\<rparr> = loaded_schedule"
    by (simp add: loaded_schedule_def)
  ultimately show ?thesis
    unfolding load_schedule_from_db_def loaded_timeslots
    using loaded_init loaded_rows loaded_checks loaded_constraints
    by (simp del: sort_key_simps)
qed

text \<open>A section that meets from 10 to 11, in room A, which is booked for it at a given hour.\<close>

definition ex_row :: class_section where
  "ex_row = \<lparr>cs_id = 31, cs_parent = 41, cs_status = 10, cs_category = 1, cs_is_lunch = False, cs_teachers = [21],
     cs_meeting_times = [101], cs_duration = 1, cs_max_capacity = Some 10, cs_size_max = 12, cs_grade_min = 7,
     cs_grade_max = 12\<rparr>"

definition ex_booking :: "int \<Rightarrow> resource" where
  "ex_booking hour = \<lparr>res_id = 51, res_name = ''A'', res_type = ''Classroom'', res_type_id = 1,
     res_event = ex_event 101 hour, res_group = None, res_num_students = 10, res_value = []\<rparr>"

definition ex_converted :: "int \<Rightarrow> (secref option \<times> heap) result" where
  "ex_converted hour = convert_classection_obj ex_heap ex_row [(31, [10])] [(''A'', 3)] [(31, [ex_booking hour])]
     [(31, [ex_event 101 10])] [(31, [])]"

lemma ex_row_simps [simp]:
  "cs_id ex_row = 31" "cs_duration ex_row = 1"
  "res_name (ex_booking hour) = ''A''" "res_event (ex_booking hour) = ex_event 101 hour"
  by (simp_all add: ex_row_def ex_booking_def)

lemma ex_slot: "map_of (room_avail_dict (hp_room ex_heap 3)) (ex_span 10) = Some 4"
    "rs_key ex_heap 4 = ex_span 10" "room_name (hp_room ex_heap (rs_room (hp_rs ex_heap 4))) = ''A''"
  by (simp_all add: rs_key_def ts_key_def ex_span_def)

lemma ex_row_loads:
  obtains s h1 where "ex_converted 10 = Inr (Some s, h1)"
proof -
  obtain s h1 where i: "AS_ClassSection_init ex_heap [10] 1 (get_section_capacity ex_row) (cs_category ex_row) [4] 31
      (cs_parent ex_row) (cs_grade_min ex_row) (cs_grade_max ex_row) [] = (s, h1)" by (metis surj_pair)
  have "sec_initial_state (hp_sec h1 s) = hash_of [ex_event 101 10] [''A'']"
    using init_section_sel(2) [OF i] ex_slot(2) by (simp add: hash_of_def ex_span_def)
  then have "ex_converted 10 = Inr (Some s, h1)"
    using i ex_slot satisfies_single [of "ex_event 101 10" 1 "ex_booking 10"]
    by (simp add: ex_converted_def convert_classection_obj_def section_satisfies_constraints_def DELTA_TIME_def
        dict_get_def scheduling_hash_of_def checked_section_def batch_convert_resource_requests_def dict_of_def
        ex_span_def)
  then show thesis by (rule that)
qed

lemma ex_row_fails:
  "map_of [(''A'', 3)] (res_name (ex_booking 11)) = Some 3"
  "map_of (room_avail_dict (hp_room ex_heap 3)) (ev_start (ex_event 101 11), ev_end (ex_event 101 11)) = Some 5"
  "rs_key ex_heap 5 = (ex_day 11, ex_day 12)" "dt_str (ex_day 11) \<noteq> dt_str (ex_day 10)"
  by (simp, simp add: ex_span_def, simp add: rs_key_def ts_key_def, simp add: dt_str_def ex_day_def pad_def numeral_2_eq_2 char_of_def)

end
