(* ===== verification/Error_Paths.thy ===== *)
theory Error_Paths
  imports Search Loading
begin

section \<open>Requests and inputs that fail\<close>

text \<open>
  Behaviour of the scheduler on inputs its checks do not foresee: swaps under \<open>ResourceCriteriaConstraint\<close> (\<open>swap_criteria\<close>),
  \<open>LunchConstraint\<close> on a schedule that has sections (\<open>lunch_attribute_error\<close>), and rooms that
  are booked twice in the database (\<open>double_booking_unnoticed\<close>).
\<close>

subsection \<open>Swaps that cannot succeed\<close>

lemma swap_criteria:
  assumes "ResourceCriteriaConstraint cs \<in> set (mp_constraints m)"
  shows "operation re_match m (Swap s1 s2) False \<noteq> Inr (True, m')"
proof
  assume "operation re_match m (Swap s1 s2) False = Inr (True, m')"
  then have "composite_check_swap_sections (mp_constraints m) (mp_heap m) (mp_schedule m) s1 s2 = ok"
    using operation_accepted [of re_match m "Swap s1 s2" m'] by simp
  with assms have "criteria_check_swap_sections (mp_heap m) s1 s2 = ok"
    by (force simp: composite_check_swap_sections_def first_violation_ok_iff)
  then show False by (auto simp: criteria_check_swap_sections_def ok_def check_iff)
qed

subsection \<open>LunchConstraint on a schedule\<close>

lemma lunch_attribute_error:
  assumes "sch_sections sch \<noteq> []" and "sch_lunch sch \<noteq> []" and "\<forall>ts\<in>set (dict_values (sch_lunch sch)). ts \<noteq> []"
  shows "check_schedule LunchConstraint h sch = Inl AttributeError"
proof -
  from assms(2) obtain l ls where l: "dict_values (sch_lunch sch) = l # ls"
    by (cases "sch_lunch sch") (auto simp: dict_values_def)
  with assms(3) have "l \<noteq> []" by simp
  then have "py_first l = Inr (hd l)" "py_last l = Inr (last l)"
    by (simp_all add: py_first_def py_last_def split: list.split)
  with l assms(1) show ?thesis by (simp add: lunch_check_schedule_def cthen_def)
qed

subsection \<open>Rooms that are booked twice\<close>

lemma room_unavailable_single:
  "length ts \<le> 1 \<Longrightarrow> room_unavailable ts known rbs mbs \<noteq> Inl (SchedulingError msg)"
  by (auto simp: room_unavailable_def section_satisfies_constraints_def dict_get_def check_iff rbind_def
      split: option.split sum.split)

definition double_booked :: string where
  "double_booked = ''Room {classroom.name} is double-booked and has known section num {target}''"

lemma rbind_error_iff: "rbind r f = Inl e \<longleftrightarrow> r = Inl e \<or> (\<exists>x. r = Inr x \<and> f x = Inl e)"
  by (cases r) auto

lemma rfold_error_source:
  "rfold f a xs = Inl e \<Longrightarrow> \<exists>a' x. f a' x = Inl e"
  by (induction xs arbitrary: a) (auto simp: rbind_def split: sum.splits)

lemma build_classrooms_error:
  "build_classrooms h info = Inl e \<Longrightarrow> e = SchedulingError ''Room {name} has duplicate resources''"
proof (induction h info rule: build_classrooms.induct)
  case (2 h room timeslots capacity furnishings info)
  then show ?case
    by (auto simp: rbind_def AS_Classroom_init_def Let_def split: sum.splits prod.splits if_splits)
qed simp

lemma double_booking_unnoticed:
  "convert_classroom_resources db h classrooms timeslot_dict known rbs mbs \<noteq> Inl (SchedulingError double_booked)"
proof
  assume e: "convert_classroom_resources db h classrooms timeslot_dict known rbs mbs = Inl (SchedulingError double_booked)"
  have append: "append_to d k x \<noteq> Inl (SchedulingError msg)" for d :: "('k, 'v list) dict" and k x msg
    by (auto simp: append_to_def dict_get_def rbind_def split: option.splits)
  have "furnishings_by_group db classrooms \<noteq> Inl (SchedulingError double_booked)"
    by (auto simp: furnishings_by_group_def Let_def append split: option.splits dest!: rfold_error_source)
  moreover have "rfold note_assignment [] rows \<noteq> Inl (SchedulingError double_booked)" for rows
    by (auto simp: note_assignment_def append split: prod.splits dest!: rfold_error_source)
  moreover have "build_classrooms h info \<noteq> Inl (SchedulingError double_booked)" for info
    by (auto simp: double_booked_def dest!: build_classrooms_error)
  moreover have "add_classroom d groups timeslot_dict known rbs mbs info c \<noteq> Inl (SchedulingError double_booked)"
    if "rfold note_assignment [] rows = Inr d" for rows d groups info c
  proof -
    have "room_unavailable (case map_of d k of None \<Rightarrow> [] | Some ts \<Rightarrow> ts) known rbs mbs \<noteq>
        Inl (SchedulingError double_booked)" for k
      using never_double_booked [OF that] by (intro room_unavailable_single) (simp split: option.split)
    then show ?thesis
      unfolding add_classroom_def Let_def rbind_error_iff
      by (auto simp: raise_if_def dict_get_def rbind_error_iff split: if_splits option.splits)
  qed
  ultimately show False
    using e by (auto simp: convert_classroom_resources_def rbind_def split: sum.splits dest!: rfold_error_source)
qed

end
