(* ===== verification/Boolean_Expressions.thy ===== *)
theory Boolean_Expressions
  imports Prelude "HOL-Library.Multiset"
begin

section \<open>Boolean expressions on a token stack (program/models/\_\_init\_\_.py)\<close>

text \<open>
  \<open>BooleanToken\<close> and \<open>BooleanExpression\<close>: a Boolean expression is stored as the rows of its
  tokens, ordered by their field \<open>seq\<close>, and evaluated from the last token down, operators first.
  \<open>evaluate\<close> is the recursive evaluator with its loop; a list of tokens is written with
  the top of the stack first, so that \<open>stack.pop()\<close> takes the head. A value that is missing
  is Python's \<open>None\<close>, on which \<open>and\<close>, \<open>or\<close> and \<open>not\<close> are defined too. The token
  tests (the subclasses of \<open>BooleanToken\<close>) are a parameter here; theory Schedule\_Constraints
  supplies them.

  \<open>evaluate_postfix\<close>: the evaluator computes the value of the expression tree whose
  postfix form is on the stack. \<open>evaluate_exhausted\<close>: it returns None only when it has used up the stack.
\<close>

record 'a token =
  tok_seq :: int
  tok_text :: string
  tok_test :: 'a

subsection \<open>Operators\<close>

text \<open>\<open>str.lower\<close> on ASCII letters.\<close>

definition lower :: "string \<Rightarrow> string" where
  "lower = map (\<lambda>c. if 65 \<le> (of_char c :: nat) \<and> (of_char c :: nat) \<le> 90 then char_of ((of_char c :: nat) + 32) else c)"

datatype operator = Or_Op | And_Op | Not_Op

definition operator_of :: "string \<Rightarrow> operator option" where
  "operator_of s =
     (if s = ''||'' \<or> lower s = ''or'' then Some Or_Op
      else if s = ''&&'' \<or> lower s = ''and'' then Some And_Op
      else if s = ''!'' \<or> s = ''~'' \<or> lower s = ''not'' then Some Not_Op
      else None)"

text \<open>\<open>boolean_value\<close> of a plain token.\<close>

definition literal_value :: "string \<Rightarrow> bool" where
  "literal_value s \<longleftrightarrow> s = ''1'' \<or> lower s = ''t'' \<or> lower s = ''true''"

text \<open>\<open>x or y\<close>, \<open>x and y\<close> and \<open>not x\<close> where a value is True, False or None.\<close>

definition py_or :: "bool option \<Rightarrow> bool option \<Rightarrow> bool option" where
  "py_or x y = (if x = Some True then x else y)"

definition py_and :: "bool option \<Rightarrow> bool option \<Rightarrow> bool option" where
  "py_and x y = (if x = Some True then y else x)"

definition py_not :: "bool option \<Rightarrow> bool option" where
  "py_not x = Some (x \<noteq> Some True)"

lemma py_ops [simp]:
  "py_or (Some a) (Some b) = Some (a \<or> b)" "py_and (Some a) (Some b) = Some (a \<and> b)" "py_not (Some a) = Some (\<not> a)"
  "py_or None y = y" "py_and None y = None" "py_not None = Some True"
  by (auto simp: py_or_def py_and_def py_not_def)

subsection \<open>Evaluation\<close>

type_synonym 'a stack = "'a token list"

function evaluate :: "('a token \<Rightarrow> bool result) \<Rightarrow> 'a stack \<Rightarrow> (bool option \<times> 'a stack) result" where
  "evaluate bv [] = Inr (None, [])"
| "evaluate bv (token # stack) =
     (let opr = operator_of (tok_text token) in
      rbind (if opr = Some Or_Op then
           rbind (evaluate bv stack) (\<lambda>p1. rbind (evaluate bv (snd p1)) (\<lambda>p2. Inr (py_or (fst p1) (fst p2), snd p2)))
         else if opr = Some And_Op then
           rbind (evaluate bv stack) (\<lambda>p1. rbind (evaluate bv (snd p1)) (\<lambda>p2. Inr (py_and (fst p1) (fst p2), snd p2)))
         else if opr = Some Not_Op then
           rbind (evaluate bv stack) (\<lambda>p1. Inr (py_not (fst p1), snd p1))
         else rbind (bv token) (\<lambda>b. Inr (Some b, stack)))
     (\<lambda>p. if fst p = None then evaluate bv (snd p) else Inr p))"
  by pat_completeness auto

text \<open>The recursive calls are nested: that a call does not return a longer stack than it was given is
  shown for the domain of the function before termination.\<close>

lemma evaluate_shorter:
  assumes "evaluate_dom (bv, stack)" and "evaluate bv stack = Inr (v, rest)"
  shows "length rest \<le> length stack \<and> (stack \<noteq> [] \<longrightarrow> length rest < length stack)"
  using assms
proof (induction bv stack arbitrary: v rest rule: evaluate.pinduct)
  case (2 bv token stack)
  define opr where "opr = operator_of (tok_text token)"
  note IH = "2.IH" [OF opr_def]
  note eq = "2.prems" [unfolded evaluate.psimps(2) [OF "2.hyps"] Let_def, folded opr_def]
  then obtain p where p: "(if opr = Some Or_Op then
           rbind (evaluate bv stack) (\<lambda>p1. rbind (evaluate bv (snd p1)) (\<lambda>p2. Inr (py_or (fst p1) (fst p2), snd p2)))
         else if opr = Some And_Op then
           rbind (evaluate bv stack) (\<lambda>p1. rbind (evaluate bv (snd p1)) (\<lambda>p2. Inr (py_and (fst p1) (fst p2), snd p2)))
         else if opr = Some Not_Op then
           rbind (evaluate bv stack) (\<lambda>p1. Inr (py_not (fst p1), snd p1))
         else rbind (bv token) (\<lambda>b. Inr (Some b, stack))) = Inr p"
    and q: "(if fst p = None then evaluate bv (snd p) else Inr p) = Inr (v, rest)"
    by (auto simp: rbind_Inr_iff)
  have "length (snd p) \<le> length stack"
    using p IH(1-5) by (fastforce simp: rbind_Inr_iff split: if_splits)
  moreover have "length rest \<le> length (snd p)"
    using q IH(6) [OF p] by (cases "fst p = None") auto
  ultimately show ?case by simp
qed (simp add: evaluate.psimps)

lemma evaluate_dom_length: "evaluate_dom (bv, s) \<Longrightarrow> evaluate bv s = Inr p \<Longrightarrow> length (snd p) \<le> length s"
  using evaluate_shorter [of bv s "fst p" "snd p"] by simp

termination evaluate
  apply (relation "measure (\<lambda>(bv, stack). length stack)")
        apply (simp_all only: in_measure prod.case list.size add_0_right add_Suc_right less_Suc_eq_le wf_measure
        evaluate_dom_length le_refl)
  subgoal premises prems for bv token stack opr p
  proof -
    consider "operator_of (tok_text token) \<in> {Some Or_Op, Some And_Op}" | "operator_of (tok_text token) = Some Not_Op"
      | "operator_of (tok_text token) \<notin> {Some Or_Op, Some And_Op, Some Not_Op}" by blast
    then show ?thesis
    proof cases
      case 1
      with prems(2) obtain p1 p2 where "evaluate bv stack = Inr p1" "evaluate bv (snd p1) = Inr p2" "snd p = snd p2"
        by (auto simp: rbind_Inr_iff)
      moreover from 1 this prems(4-8) have "evaluate_dom (bv, stack)" "evaluate_dom (bv, snd p1)" by (cases p1, auto)+
      ultimately show ?thesis
        using evaluate_dom_length [of bv stack p1] evaluate_dom_length [of bv "snd p1" p2] by simp
    next
      case 2
      with prems(2) obtain p1 where "evaluate bv stack = Inr p1" "snd p = snd p1" by (auto simp: rbind_Inr_iff)
      with 2 prems(4-8) show ?thesis using evaluate_dom_length [of bv stack p1] by simp
    next
      case 3
      with prems(2) show ?thesis by (auto simp: rbind_Inr_iff)
    qed
  qed
  done

declare evaluate.simps [simp del]

subsection \<open>Unfolding one token\<close>

lemma evaluate_Nil [simp]: "evaluate bv [] = Inr (None, [])"
  by (simp add: evaluate.simps)

text \<open>None is returned only when the stack is used up, so the loop is never repeated.\<close>

lemma evaluate_exhausted:
  assumes "evaluate bv stack = Inr (None, rest)"
  shows "rest = []"
  using assms
proof (induction bv stack arbitrary: rest rule: evaluate.induct)
  case (2 bv token stack)
  show ?case
    using "2.prems" "2.IH"(6) [OF refl]
    by (auto simp: evaluate.simps(2) Let_def rbind_Inr_iff split: if_splits)
qed simp

lemma evaluate_leaf:
  "operator_of (tok_text t) = None \<Longrightarrow> evaluate bv (t # s) = rbind (bv t) (\<lambda>b. Inr (Some b, s))"
  by (simp add: evaluate.simps(2) Let_def rbind_assoc)

lemma evaluate_or:
  assumes "operator_of (tok_text t) = Some Or_Op"
  shows "evaluate bv (t # s) =
    rbind (evaluate bv s) (\<lambda>(v1, s1). rbind (evaluate bv s1) (\<lambda>(v2, s2). Inr (py_or v1 v2, s2)))"
  using assms
  by (auto simp: evaluate.simps(2) Let_def rbind_assoc split_beta py_or_def intro!: rbind_cong)
    (frule evaluate_exhausted, simp)

lemma evaluate_and:
  assumes "operator_of (tok_text t) = Some And_Op"
  shows "evaluate bv (t # s) =
    rbind (evaluate bv s) (\<lambda>(v1, s1). rbind (evaluate bv s1) (\<lambda>(v2, s2). Inr (py_and v1 v2, s2)))"
proof -
  have "snd p2 = []" if "evaluate bv s = Inr p1" "evaluate bv (snd p1) = Inr p2" "py_and (fst p1) (fst p2) = None" for p1 p2
  proof (cases "fst p1")
    case None
    with that(1) have "snd p1 = []" using evaluate_exhausted by (metis prod.collapse)
    with that(2) show ?thesis by auto
  next
    case (Some b)
    with that(3) have "fst p2 = None" by (auto simp: py_and_def split: if_splits)
    with that(2) show ?thesis using evaluate_exhausted by (metis prod.collapse)
  qed
  moreover have "py_and v1 v2 = None \<Longrightarrow> (None, [] :: 'a stack) = (py_and v1 v2, [])" for v1 v2 by simp
  ultimately show ?thesis
    using assms
    by (auto simp: evaluate.simps(2) Let_def rbind_assoc split_beta intro!: rbind_cong)
qed

lemma evaluate_not:
  assumes "operator_of (tok_text t) = Some Not_Op"
  shows "evaluate bv (t # s) = rbind (evaluate bv s) (\<lambda>(v1, s1). Inr (py_not v1, s1))"
  using assms
  by (auto simp: evaluate.simps(2) Let_def rbind_assoc split_beta py_not_def intro!: rbind_cong)

subsection \<open>Expression trees\<close>

text \<open>A tree carries the tokens of its operators; \<open>postfix\<close> lists its tokens from the top of the stack.\<close>

datatype 'a tree = Leaf "'a token" | Unary "'a token" "'a tree" | Binary "'a token" "'a tree" "'a tree"

fun well_formed :: "'a tree \<Rightarrow> bool" where
  "well_formed (Leaf t) \<longleftrightarrow> operator_of (tok_text t) = None"
| "well_formed (Unary t e) \<longleftrightarrow> operator_of (tok_text t) = Some Not_Op \<and> well_formed e"
| "well_formed (Binary t d e) \<longleftrightarrow>
     operator_of (tok_text t) \<in> {Some Or_Op, Some And_Op} \<and> well_formed d \<and> well_formed e"

fun postfix :: "'a tree \<Rightarrow> 'a stack" where
  "postfix (Leaf t) = [t]"
| "postfix (Unary t e) = t # postfix e"
| "postfix (Binary t d e) = t # postfix d @ postfix e"

fun tree_value :: "('a token \<Rightarrow> bool result) \<Rightarrow> 'a tree \<Rightarrow> bool result" where
  "tree_value bv (Leaf t) = bv t"
| "tree_value bv (Unary t e) = rbind (tree_value bv e) (\<lambda>x. Inr (\<not> x))"
| "tree_value bv (Binary t d e) = rbind (tree_value bv d) (\<lambda>x. rbind (tree_value bv e) (\<lambda>y.
     Inr (if operator_of (tok_text t) = Some Or_Op then x \<or> y else x \<and> y)))"

lemma evaluate_postfix:
  assumes "well_formed e"
  shows "evaluate bv (postfix e @ rest) = rbind (tree_value bv e) (\<lambda>b. Inr (Some b, rest))"
  using assms
proof (induction e arbitrary: rest)
  case (Binary t d e)
  then show ?case
    by (auto simp: evaluate_or evaluate_and rbind_assoc intro!: rbind_cong)
qed (simp_all add: evaluate_leaf evaluate_not rbind_assoc)

subsection \<open>Expressions\<close>

text \<open>The rows of an expression, in the order in which they were saved.\<close>

type_synonym 'a expression = "'a token list"

definition get_stack :: "'a expression \<Rightarrow> 'a token list" where
  "get_stack expression = sort_key tok_seq expression"

definition evaluate_expression :: "('a token \<Rightarrow> bool result) \<Rightarrow> 'a expression \<Rightarrow> bool option result" where
  "evaluate_expression bv expression =
     rbind (evaluate bv (rev (get_stack expression))) (\<lambda>(value, post_stack). Inr value)"

datatype 'a token_or_value = Value string | Copy_Of "'a token"

text \<open>\<open>plain\<close> is the test of a plain \<open>BooleanToken\<close>. A token object is copied (\<open>duplicate=True\<close>, as in all calls).\<close>

definition new_token :: "'a \<Rightarrow> 'a token_or_value \<Rightarrow> int \<Rightarrow> 'a token" where
  "new_token plain tv seq = (case tv of
      Value text \<Rightarrow> \<lparr>tok_seq = seq, tok_text = text, tok_test = plain\<rparr>
    | Copy_Of token \<Rightarrow> token\<lparr>tok_seq := seq\<rparr>)"

definition next_seq :: "'a expression \<Rightarrow> int" where
  "next_seq expression =
     (let my_stack = get_stack expression in
      if length my_stack > 0 then tok_seq (last my_stack) + 10 else 0)"

definition add_token :: "'a \<Rightarrow> 'a expression \<Rightarrow> 'a token_or_value \<Rightarrow> int option \<Rightarrow> 'a expression" where
  "add_token plain expression token_or_value seq =
     expression @ [new_token plain token_or_value (case seq of None \<Rightarrow> next_seq expression | Some n \<Rightarrow> n)]"

lemma tok_seq_new [simp]: "tok_seq (new_token plain tv seq) = seq"
  by (cases tv) (simp_all add: new_token_def)

lemma next_seq_greater: "t \<in> set expression \<Longrightarrow> tok_seq t < next_seq expression"
proof -
  assume t: "t \<in> set expression"
  have "sorted (map tok_seq (get_stack expression))" by (simp add: get_stack_def)
  moreover from t have m: "t \<in> set (get_stack expression)" by (simp add: get_stack_def)
  ultimately have "tok_seq t \<le> tok_seq (last (get_stack expression))"
    by (cases "get_stack expression" rule: rev_cases) (auto simp: sorted_append)
  with m show ?thesis by (auto simp: next_seq_def Let_def)
qed

text \<open>A token added without a place of its own goes on top of the stack.\<close>

lemma get_stack_add:
  "get_stack (add_token plain expression tv None) = get_stack expression @ [new_token plain tv (next_seq expression)]"
  unfolding get_stack_def add_token_def option.case
proof (rule properties_for_sort_key)
  let ?t = "new_token plain tv (next_seq expression)"
  fix k
  show "filter (\<lambda>x. tok_seq k = tok_seq x) (sort_key tok_seq expression @ [?t]) =
      filter (\<lambda>x. tok_seq k = tok_seq x) (expression @ [?t])"
    using sort_key_stable [of tok_seq "tok_seq k" expression] by (simp add: eq_commute)
qed (auto simp: sorted_append dest: next_seq_greater intro: less_imp_le)

end
