(* ===== verification/Schedule_Constraints.thy ===== *)
theory Schedule_Constraints
  imports Boolean_Expressions Datetime
begin

section \<open>Schedule maps and scheduling constraints (program/models/\_\_init\_\_.py)\<close>

text \<open>
  A \<open>ScheduleMap\<close> maps the ids of a program's timeslots to the sections a student has then; a
  \<open>ScheduleConstraint\<close> is a pair of Boolean expressions whose tokens test such a map.
  Sections are compared as \<open>ClassSection.__eq__\<close> does, by the start of their first meeting
  and their title, so \<open>remove_section\<close> removes the first section of a timeslot that is equal in
  this sense. \<open>handle_failure\<close> no longer runs code: it returns a pair of None, and the
  second evaluation repeats the first.

  \<open>add_remove\<close>: a section that is added and removed again leaves the map as it was, if the map
  has no equal section at its times. \<open>evaluate_constraint_iff\<close>: what evaluating a constraint returns.
\<close>

record class_row =
  cl_id :: int
  cl_parent :: int
  cl_title :: string
  cl_start :: "datetime option"
  cl_category :: int
  cl_timeslots :: "int list"

definition section_eq :: "class_row \<Rightarrow> class_row \<Rightarrow> bool" where
  "section_eq a b \<longleftrightarrow> cl_start a = cl_start b \<and> cl_title a = cl_title b"

lemma section_eq_refl [simp]: "section_eq a a"
  by (simp add: section_eq_def)

type_synonym schedule_map = "(int, class_row list) dict"

subsection \<open>Schedule maps\<close>

definition populate :: "int list \<Rightarrow> class_row list \<Rightarrow> schedule_map result" where
  "populate timeslots enrolled =
     rfold (\<lambda>result (m, s). append_to result m s) (empty_lists timeslots)
       (concat (map (\<lambda>s. map (\<lambda>m. (m, s)) (cl_timeslots s)) enrolled))"

definition add_section :: "schedule_map \<Rightarrow> class_row \<Rightarrow> schedule_map result" where
  "add_section m sec = rfold (\<lambda>m t. append_to m t sec) m (cl_timeslots sec)"

fun remove_first :: "class_row \<Rightarrow> class_row list \<Rightarrow> class_row list" where
  "remove_first sec [] = []"
| "remove_first sec (x # xs) = (if section_eq x sec then xs else x # remove_first sec xs)"

definition remove_section :: "schedule_map \<Rightarrow> class_row \<Rightarrow> schedule_map result" where
  "remove_section m sec =
     rfold (\<lambda>m t. rbind (dict_get m t) (\<lambda>xs.
       Inr (if \<exists>x\<in>set xs. section_eq x sec then AList.update t (remove_first sec xs) m else m)))
     m (cl_timeslots sec)"

subsection \<open>Tests\<close>

text \<open>The subclasses of \<open>BooleanToken\<close>, with the id of their timeblock.\<close>

datatype test =
    Plain
  | Occupied int
  | Category int int
  | SectionList int string

text \<open>\<open>int\<close> of a text: spaces around it, a sign, and single underscores between digits.\<close>

definition is_space :: "char \<Rightarrow> bool" where
  "is_space c \<longleftrightarrow> of_char c \<in> ({9, 10, 11, 12, 13, 28, 29, 30, 31, 32} :: nat set)"

definition strip :: "string \<Rightarrow> string" where
  "strip s = rev (dropWhile is_space (rev (dropWhile is_space s)))"

definition is_digit :: "char \<Rightarrow> bool" where
  "is_digit c \<longleftrightarrow> 48 \<le> (of_char c :: nat) \<and> (of_char c :: nat) \<le> 57"

fun digits :: "bool \<Rightarrow> int \<Rightarrow> string \<Rightarrow> int option" where
  "digits ended n [] = (if ended then Some n else None)"
| "digits ended n (c # cs) =
     (if is_digit c then digits True (10 * n + (of_char c - 48)) cs
      else if c = CHR ''_'' \<and> ended then digits False n cs
      else None)"

definition parse_int :: "string \<Rightarrow> int result" where
  "parse_int s =
     (case strip s of
        [] \<Rightarrow> Inl (ValueError ''invalid literal for int()'')
      | c # cs \<Rightarrow>
          (case (if c = CHR ''-'' then map_option uminus (digits False 0 cs)
                 else if c = CHR ''+'' then digits False 0 cs
                 else digits False 0 (c # cs)) of
             None \<Rightarrow> Inl (ValueError ''invalid literal for int()'')
           | Some n \<Rightarrow> Inr n))"

fun split_at :: "char \<Rightarrow> string \<Rightarrow> string list" where
  "split_at d [] = [[]]"
| "split_at d (c # cs) =
     (if c = d then [] # split_at d cs
      else case split_at d cs of [] \<Rightarrow> [[c]] | w # ws \<Rightarrow> (c # w) # ws)"

definition at_time :: "schedule_map \<Rightarrow> int \<Rightarrow> class_row list" where
  "at_time m t = (case map_of m t of None \<Rightarrow> [] | Some xs \<Rightarrow> xs)"

definition boolean_value :: "schedule_map \<Rightarrow> test token \<Rightarrow> bool result" where
  "boolean_value m token =
     (case tok_test token of
        Plain \<Rightarrow> Inr (literal_value (tok_text token))
      | Occupied t \<Rightarrow> Inr (length (at_time m t) > 0)
      | Category t c \<Rightarrow> Inr (\<exists>sec\<in>set (at_time m t). cl_category sec = c)
      | SectionList t section_ids \<Rightarrow>
          rbind (rmap parse_int (split_at CHR '','' section_ids)) (\<lambda>section_id_list.
          Inr (\<exists>sec\<in>set (at_time m t). cl_id sec \<in> set section_id_list)))"

subsection \<open>Constraints\<close>

record schedule_constraint =
  sc_condition :: "test expression"
  sc_requirement :: "test expression"
  sc_label :: string

function evaluate_constraint :: "schedule_constraint \<Rightarrow> schedule_map \<Rightarrow> bool \<Rightarrow> bool result" where
  "evaluate_constraint c m recursive =
     rbind (evaluate_expression (boolean_value m) (sc_condition c)) (\<lambda>cond_state.
     if cond_state = Some True then
       rbind (evaluate_expression (boolean_value m) (sc_requirement c)) (\<lambda>result.
         if result = Some True then Inr True
         else if recursive then evaluate_constraint c m False
         else Inr False)
     else Inr True)"
  by pat_completeness auto
termination
  by (relation "measure (\<lambda>(c, m, recursive). of_bool recursive)") auto

declare evaluate_constraint.simps [simp del]

lemma evaluate_constraint_recursive: "evaluate_constraint c m recursive = evaluate_constraint c m False"
proof (cases recursive)
  case True
  then show ?thesis by (auto simp: evaluate_constraint.simps rbind_def split: sum.splits)
qed simp

lemma evaluate_constraint_iff:
  "evaluate_constraint c m recursive = Inr b \<longleftrightarrow>
     (\<exists>x. evaluate_expression (boolean_value m) (sc_condition c) = Inr x \<and>
       (if x = Some True
        then (\<exists>y. evaluate_expression (boolean_value m) (sc_requirement c) = Inr y \<and> b = (y = Some True))
        else b))"
  by (subst evaluate_constraint_recursive) (auto simp: evaluate_constraint.simps check_iff)

subsection \<open>Adding and removing a section\<close>

lemma remove_first_snoc: "\<forall>x\<in>set xs. \<not> section_eq x sec \<Longrightarrow> remove_first sec (xs @ [sec]) = xs"
  by (induction xs) auto

lemma add_section_lookup:
  assumes "add_section m sec = Inr m'" and "distinct (cl_timeslots sec)"
  shows "map_of m' t = (if t \<in> set (cl_timeslots sec) then Some (at_time m t @ [sec]) else map_of m t)"
    and "map fst m' = map fst m"
proof -
  have "map_of m' t = (if t \<in> set ts then Some (at_time m t @ [sec]) else map_of m t) \<and> map fst m' = map fst m"
    if "rfold (\<lambda>m t. append_to m t sec) m ts = Inr m'" "distinct ts" for ts m
    using that
  proof (induction ts arbitrary: m)
    case (Cons u us)
    then obtain xs where xs: "map_of m u = Some xs" "rfold (\<lambda>m t. append_to m t sec) (AList.update u (xs @ [sec]) m) us = Inr m'"
      by (auto simp: check_iff)
    have "u \<in> fst ` set m" using xs(1) by (metis domI dom_map_of_conv_image_fst)
    then have "map fst (AList.update u (xs @ [sec]) m) = map fst m" by (induction m) auto
    with Cons.IH [OF xs(2)] Cons.prems(2) xs(1) show ?case by (auto simp: at_time_def map_of_update_eq)
  qed simp
  with assms show "map_of m' t = (if t \<in> set (cl_timeslots sec) then Some (at_time m t @ [sec]) else map_of m t)"
    "map fst m' = map fst m" by (auto simp: add_section_def)
qed

lemma update_swap:
  "u \<noteq> t \<Longrightarrow> u \<in> fst ` set d \<Longrightarrow> t \<in> fst ` set d \<Longrightarrow>
   AList.update u v (AList.update t w d) = AList.update t w (AList.update u v d)"
proof (induction d)
  case (Cons kv d)

  show ?case
  proof (cases "fst kv = u \<or> fst kv = t")
    case False
    with Cons show ?thesis by (cases kv) auto
  qed (use Cons.prems(1) in \<open>cases kv; auto\<close>)
qed simp

lemma append_rest_swap:
  assumes "rfold (\<lambda>m t. append_to m t sec) m ts = Inr m'" and "u \<notin> set ts" and "u \<in> fst ` set m"
  shows "rfold (\<lambda>m t. append_to m t sec) (AList.update u v m) ts = Inr (AList.update u v m')"
  using assms
proof (induction ts arbitrary: m)
  case (Cons t ts)
  then obtain xs where xs: "map_of m t = Some xs"
    "rfold (\<lambda>m t. append_to m t sec) (AList.update t (xs @ [sec]) m) ts = Inr m'" by (auto simp: check_iff)
  have t: "t \<in> fst ` set m" using xs(1) by (metis domI dom_map_of_conv_image_fst)
  have "append_to (AList.update u v m) t sec = Inr (AList.update u v (AList.update t (xs @ [sec]) m))"
    using xs(1) Cons.prems(2,3) t by (auto simp: check_iff map_of_update_eq update_swap)
  moreover have "rfold (\<lambda>m t. append_to m t sec) (AList.update u v (AList.update t (xs @ [sec]) m)) ts = Inr (AList.update u v m')"
    using Cons.IH [OF xs(2)] Cons.prems(2,3) by (simp add: fst_set_update)
  ultimately show ?case by simp
qed simp

lemma add_remove:
  assumes "add_section m sec = Inr m'" and "distinct (cl_timeslots sec)"
    and "\<And>t x. t \<in> set (cl_timeslots sec) \<Longrightarrow> x \<in> set (at_time m t) \<Longrightarrow> \<not> section_eq x sec"
  shows "remove_section m' sec = Inr m"
proof -
  define rem :: "schedule_map \<Rightarrow> int \<Rightarrow> schedule_map result" where "rem = (\<lambda>m t. rbind (dict_get m t) (\<lambda>xs.
       Inr (if \<exists>x\<in>set xs. section_eq x sec then AList.update t (remove_first sec xs) m else m)))"
  have "rfold rem m' ts = Inr m"
    if "rfold (\<lambda>m t. append_to m t sec) m ts = Inr m'" "distinct ts"
      "\<And>t x. t \<in> set ts \<Longrightarrow> x \<in> set (at_time m t) \<Longrightarrow> \<not> section_eq x sec" for ts m'
    using that
  proof (induction ts arbitrary: m')
    case (Cons u us)
    then obtain xs where xs: "map_of m u = Some xs"
      "rfold (\<lambda>m t. append_to m t sec) (AList.update u (xs @ [sec]) m) us = Inr m'" by (auto simp: check_iff)
    have u: "u \<in> fst ` set m" using xs(1) by (metis domI dom_map_of_conv_image_fst)
    have keep: "map_of m'' u = map_of m1 u" if "rfold (\<lambda>m t. append_to m t sec) m1 us = Inr m''" "u \<notin> set us" for m1 m'' us
      using that by (induction us arbitrary: m1) (auto simp: check_iff map_of_update_eq)
    have mu: "map_of m' u = Some (xs @ [sec])"
      using keep [OF xs(2)] Cons.prems(2) by (simp add: map_of_update_eq)
    have "remove_first sec (xs @ [sec]) = xs"
      using Cons.prems(3) [of u] xs(1) by (intro remove_first_snoc) (auto simp: at_time_def)
    with mu have "rem m' u = Inr (AList.update u xs m')" by (auto simp: rem_def check_iff)
    moreover have "rfold (\<lambda>m t. append_to m t sec) m us = Inr (AList.update u xs m')"
      using append_rest_swap [OF xs(2), of u xs] Cons.prems(2) u
      by (simp add: update_twice update_same [OF xs(1)] fst_set_update)
    from Cons.IH [OF this] Cons.prems(2,3) have "rfold rem (AList.update u xs m') us = Inr m"
      by (meson distinct.simps(2) list.set_intros(2))
    ultimately show ?case by simp
  qed simp
  from this [OF assms(1) [unfolded add_section_def] assms(2,3)] show ?thesis
    by (simp add: remove_section_def rem_def)
qed

end
