(* ===== verification/Section_Capacity.thy ===== *)
theory Section_Capacity
  imports Schedule_Constraints
begin

section \<open>How many students a section holds (program/models/class\_.py)\<close>

text \<open>
  The rows of sections and classes as far as registration reads them, and \<open>_get_room_capacity\<close>,
  \<open>_get_capacity\<close> and \<open>isFull\<close>. A section row carries its class, the start of its first meeting
  for every classroom resource assigned to it the timeslot and the number of seats, and whether any
  resource is assigned to it.
  \<open>enrolled_students\<close> and \<open>attending_students\<close> are stored counts (\<open>DerivedField\<close>); when they are
  refreshed is the matter of the registration theory. Decimals are exact rationals, and \<open>int\<close> of a
  number cuts towards zero.

  \<open>capacity_within_rooms\<close>: without a capacity set by hand, no timeslot of a section has more places
  than its rooms seat, before or after the adjustment.
\<close>

subsection \<open>Rows and settings\<close>

record subject_row =
  sj_id :: int
  sj_program :: int
  sj_title :: string
  sj_start :: "datetime option"
  sj_status :: int
  sj_size_max :: "int option"
  sj_size_optimal :: "int option"
  sj_range_max :: "int list"
  sj_grade_min :: int
  sj_grade_max :: int

record section_row = class_row +
  sn_subject :: subject_row
  sn_status :: int
  sn_registration_status :: int
  sn_max_class_capacity :: "int option"
  sn_rooms :: "(int \<times> int) list"
  sn_assigned :: bool
  enrolled_students :: int
  attending_students :: int

record registration_settings =
  enforce_max :: bool
  class_cap_multiplier :: rat
  class_cap_offset :: int
  apply_multiplier_to_room_cap :: bool
  use_priority :: bool
  priority_limit :: int
  temporarily_full_text :: string
  switch_time_tag :: "string option"
  switch_lag_tag :: "string option"
  program_size_max :: "int option"
  size_by_grade_tag :: "(string \<times> int) list option"

subsection \<open>Numbers\<close>

text \<open>\<open>int(x)\<close>, the smallest of a non-empty list, and the smaller or larger of what is not \<open>None\<close>.\<close>

definition truncate :: "rat \<Rightarrow> int" where
  "truncate x = (if x \<ge> 0 then \<lfloor>x\<rfloor> else \<lceil>x\<rceil>)"

fun least :: "int list \<Rightarrow> int" where
  "least [] = 0"
| "least [x] = x"
| "least (x # y # xs) = min x (least (y # xs))"

fun greatest :: "int list \<Rightarrow> int" where
  "greatest [] = 0"
| "greatest [x] = x"
| "greatest (x # y # xs) = max x (greatest (y # xs))"

definition present :: "'a option list \<Rightarrow> 'a list" where
  "present vs = concat (map (\<lambda>v. case v of None \<Rightarrow> [] | Some x \<Rightarrow> [x]) vs)"

definition min_none_safe :: "int option list \<Rightarrow> int option" where
  "min_none_safe values = (if present values = [] then None else Some (least (present values)))"

definition max_none_safe :: "int option list \<Rightarrow> int option" where
  "max_none_safe values = (if present values = [] then None else Some (greatest (present values)))"

lemma truncate_int [simp]: "truncate (of_int n) = n"
  by (simp add: truncate_def)

lemma truncate_mono: "x \<le> y \<Longrightarrow> truncate x \<le> truncate y"
  unfolding truncate_def by (cases "0 \<le> x"; cases "0 \<le> y") (auto intro: floor_mono ceiling_mono order_trans [of _ 0])

lemma least_le: "x \<in> set xs \<Longrightarrow> least xs \<le> x"
  by (induction xs rule: least.induct) auto

lemma least_in: "xs \<noteq> [] \<Longrightarrow> least xs \<in> set xs"
  by (induction xs rule: least.induct) (auto simp: min_def)

lemma present_simps [simp]: "present [] = []" "present (None # vs) = present vs" "present (Some x # vs) = x # present vs"
  by (simp_all add: present_def)

lemma min_none_safe_pair [simp]: "min_none_safe [v, Some n] = Some (case v of None \<Rightarrow> n | Some m \<Rightarrow> min m n)"
  by (cases v) (simp_all add: min_none_safe_def)

subsection \<open>Capacity\<close>

text \<open>The seats of a timeslot are summed over its rooms, and the smallest sum counts.\<close>

definition seats_at :: "(int \<times> int) list \<Rightarrow> int \<Rightarrow> int" where
  "seats_at rooms event = sum_list (map snd (filter (\<lambda>r. fst r = event) rooms))"

definition get_room_capacity :: "registration_settings \<Rightarrow> (int \<times> int) list \<Rightarrow> bool \<Rightarrow> int" where
  "get_room_capacity options rooms ignore_changes =
     (let rc = least (map (seats_at rooms) (map fst rooms)) in
      if apply_multiplier_to_room_cap options \<and> \<not> ignore_changes
      then truncate (of_int rc * class_cap_multiplier options + of_int (class_cap_offset options))
      else rc)"

definition base_capacity :: "registration_settings \<Rightarrow> 'a section_row_scheme \<Rightarrow> bool \<Rightarrow> int option" where
  "base_capacity options s ignore_changes =
     (let parent = sn_subject s; rooms = sn_rooms s in
      case sn_max_class_capacity s of
        Some c \<Rightarrow> Some c
      | None \<Rightarrow>
          if length rooms = 0 then sj_size_max parent
          else min_none_safe [sj_size_max parent, Some (get_room_capacity options rooms ignore_changes)])"

definition fallback_capacity :: "registration_settings \<Rightarrow> 'a section_row_scheme \<Rightarrow> bool \<Rightarrow> int option" where
  "fallback_capacity options s ignore_changes =
     (let parent = sn_subject s; rooms = sn_rooms s; opt = sj_size_optimal parent;
          room_cap = get_room_capacity options rooms ignore_changes;
          has_optimal = opt \<noteq> None \<and> opt \<noteq> Some 0 in
      if sj_range_max parent \<noteq> [] \<and> length rooms \<noteq> 0 then
        min_none_safe [max_none_safe [Some (greatest (sj_range_max parent)), opt], Some room_cap]
      else if has_optimal \<and> length rooms \<noteq> 0 then min_none_safe [opt, Some room_cap]
      else if has_optimal then opt
      else if length rooms \<noteq> 0 then Some room_cap
      else Some 0)"

definition get_capacity :: "registration_settings \<Rightarrow> 'a section_row_scheme \<Rightarrow> bool \<Rightarrow> int" where
  "get_capacity options s ignore_changes =
     (let ans = base_capacity options s ignore_changes;
          ans = (if ans = None \<or> ans = Some 0 then fallback_capacity options s ignore_changes else ans);
          ans = (case ans of None \<Rightarrow> 0 | Some n \<Rightarrow> n) in
      if \<not> (ignore_changes \<or> apply_multiplier_to_room_cap options)
      then truncate (of_int ans * class_cap_multiplier options + of_int (class_cap_offset options))
      else truncate (of_int ans))"

subsection \<open>Fullness\<close>

text \<open>
  \<open>strptime\<close> with the format of the switch time, on today's date and the tag: one or two digits for the
  hour and for the minute, after optional blanks.
\<close>

definition clock_number :: "int \<Rightarrow> string \<Rightarrow> int option" where
  "clock_number limit s =
     (if length s \<in> {1, 2} \<and> list_all is_digit s
      then (case digits False 0 s of Some n \<Rightarrow> if n < limit then Some n else None | None \<Rightarrow> None)
      else None)"

definition parse_clock :: "datetime \<Rightarrow> string \<Rightarrow> datetime option" where
  "parse_clock now tag =
     (case split_at CHR '':'' (dropWhile is_space tag) of
        [h, m] \<Rightarrow>
          (case (clock_number 24 h, clock_number 60 m) of
             (Some hour, Some minute) \<Rightarrow> Some (Datetime (dt_year now) (dt_month now) (dt_day now) hour minute 0 0)
           | _ \<Rightarrow> None)
      | _ \<Rightarrow> None)"

definition tag_value :: "string option \<Rightarrow> string option" where
  "tag_value tag = (if tag = Some [] then None else tag)"

definition switch_time :: "registration_settings \<Rightarrow> datetime \<Rightarrow> datetime option" where
  "switch_time options now = (case tag_value (switch_time_tag options) of None \<Rightarrow> None | Some t \<Rightarrow> parse_clock now t)"

definition switch_lag :: "registration_settings \<Rightarrow> int option" where
  "switch_lag options =
     (case tag_value (switch_lag_tag options) of
        None \<Rightarrow> None
      | Some t \<Rightarrow> (case parse_int t of Inl e \<Rightarrow> None | Inr n \<Rightarrow> if n = 0 then None else Some n))"

definition past_lag :: "registration_settings \<Rightarrow> datetime \<Rightarrow> 'a section_row_scheme \<Rightarrow> bool" where
  "past_lag options now s =
     (case (switch_lag options, cl_start s) of
        (Some lag, Some start) \<Rightarrow> dt_us now \<ge> dt_us start + lag * 60 * 1000000
      | _ \<Rightarrow> False)"

text \<open>\<open>checked_in\<close> counts the students of the section, \<open>all_checked_in\<close> all those checked in to the program.\<close>

definition isFull ::
  "registration_settings \<Rightarrow> datetime \<Rightarrow> int \<Rightarrow> int \<Rightarrow> 'a section_row_scheme \<Rightarrow> bool \<Rightarrow> bool \<Rightarrow> bool" where
  "isFull options now checked_in all_checked_in s ignore_changes webapp =
     (if length (cl_timeslots s) = 0 then True
      else
        let num_students =
              (if webapp \<and> past_lag options now s \<and> attending_students s \<ge> 1 then attending_students s
               else if webapp \<and> (case switch_time options now of None \<Rightarrow> False | Some t \<Rightarrow> now \<ge> t) \<and> all_checked_in \<ge> 5
               then checked_in
               else enrolled_students s);
            capacity = get_capacity options s ignore_changes
        in if enrolled_students s = capacity \<and> capacity = 0 then False else num_students \<ge> capacity)"

subsection \<open>Capacity and rooms\<close>

lemma get_room_capacity_seats:
  assumes "(event, n) \<in> set rooms"
  shows "least (map (seats_at rooms) (map fst rooms)) \<le> seats_at rooms event"
  using assms by (intro least_le) force

text \<open>What the room capacity becomes under the multiplier and the offset of the program.\<close>

definition adjusted :: "registration_settings \<Rightarrow> int \<Rightarrow> int" where
  "adjusted options n = truncate (of_int n * class_cap_multiplier options + of_int (class_cap_offset options))"

lemma adjusted_mono: "class_cap_multiplier options \<ge> 0 \<Longrightarrow> m \<le> n \<Longrightarrow> adjusted options m \<le> adjusted options n"
  unfolding adjusted_def by (intro truncate_mono add_right_mono mult_right_mono) simp_all

lemma fallback_within_room:
  assumes "sn_rooms s \<noteq> []" and "fallback_capacity options s ignore = Some n"
  shows "n \<le> get_room_capacity options (sn_rooms s) ignore"
  using assms by (auto simp: fallback_capacity_def Let_def split: if_splits option.splits)

lemma base_within_room:
  assumes "sn_rooms s \<noteq> []" and "sn_max_class_capacity s = None" and "base_capacity options s ignore = Some n"
  shows "n \<le> get_room_capacity options (sn_rooms s) ignore"
  using assms by (auto simp: base_capacity_def Let_def split: option.splits)

lemma unadjusted_within_room:
  assumes "sn_rooms s \<noteq> []" and "sn_max_class_capacity s = None"
  shows "\<exists>n. get_capacity options s ignore =
     (if \<not> (ignore \<or> apply_multiplier_to_room_cap options) then adjusted options n else n) \<and>
     n \<le> get_room_capacity options (sn_rooms s) ignore"
proof -
  have fallback: "fallback_capacity options s ignore \<noteq> None"
    using assms(1) by (auto simp: fallback_capacity_def Let_def)
  let ?ans = "if base_capacity options s ignore = None \<or> base_capacity options s ignore = Some 0
              then fallback_capacity options s ignore else base_capacity options s ignore"
  obtain n where n: "?ans = Some n" using fallback by (cases ?ans) (auto split: if_splits)
  have "n \<le> get_room_capacity options (sn_rooms s) ignore"
    using n fallback_within_room [OF assms(1)] base_within_room [OF assms] by (auto split: if_splits)
  moreover have "get_capacity options s ignore =
     (if \<not> (ignore \<or> apply_multiplier_to_room_cap options) then adjusted options n else n)"
    unfolding get_capacity_def Let_def n by (simp add: adjusted_def)
  ultimately show ?thesis by blast
qed

lemma capacity_within_rooms:
  assumes "(event, seats) \<in> set (sn_rooms s)" and "sn_max_class_capacity s = None"
    and "class_cap_multiplier options \<ge> 0"
  shows "get_capacity options s True \<le> seats_at (sn_rooms s) event"
    and "get_capacity options s False \<le> adjusted options (seats_at (sn_rooms s) event)"
proof -
  have rooms: "sn_rooms s \<noteq> []" using assms(1) by auto
  note seats = get_room_capacity_seats [OF assms(1)]
  show "get_capacity options s True \<le> seats_at (sn_rooms s) event"
    using unadjusted_within_room [OF rooms assms(2), of options True] seats
    by (auto simp: get_room_capacity_def)
  from unadjusted_within_room [OF rooms assms(2), of options False] obtain n where
    n: "get_capacity options s False = (if \<not> apply_multiplier_to_room_cap options then adjusted options n else n)"
       "n \<le> get_room_capacity options (sn_rooms s) False" by auto
  show "get_capacity options s False \<le> adjusted options (seats_at (sn_rooms s) event)"
  proof (cases "apply_multiplier_to_room_cap options")
    case True
    then have "n \<le> adjusted options (least (map (seats_at (sn_rooms s)) (map fst (sn_rooms s))))"
      using n(2) by (simp add: get_room_capacity_def adjusted_def)
    with adjusted_mono [OF assms(3) seats] n(1) True show ?thesis by simp
  next
    case False
    then have "n \<le> seats_at (sn_rooms s) event" using n(2) seats by (simp add: get_room_capacity_def)
    with adjusted_mono [OF assms(3)] n(1) False show ?thesis by simp
  qed
qed

text \<open>Without class changes in progress, a section that is not full has a place, or no capacity at all.\<close>

lemma not_full_iff:
  "\<not> isFull options now c a s ignore False \<longleftrightarrow>
     cl_timeslots s \<noteq> [] \<and>
     (enrolled_students s < get_capacity options s ignore \<or> enrolled_students s = 0 \<and> get_capacity options s ignore = 0)"
  by (auto simp: isFull_def Let_def)

end
