(* ===== verification/Registrations.thy ===== *)
theory Registrations
  imports Section_Capacity
begin

section \<open>Registrations of students (program/models/class\_.py, utils/expirable\_model.py)\<close>

text \<open>
  The rows that say which student is in which section, with the interval in which each is valid, and
  the operations that add and end them: \<open>preregister_student\<close>, \<open>unpreregister_student\<close> and
  \<open>clearStudents\<close>. The database is that of one program. An operation reads the clock once, as \<open>now\<close>;
  \<open>later\<close> is the time at which its signals refresh the stored counts of a section. The caches of the site
  are taken to return what a recomputation would.

  A mailing list is a set of pairs of a list and a user. Sections carry their class (see
  \<open>Section_Capacity\<close>); an application form carries its questions and responses.
\<close>

subsection \<open>Rows\<close>

abbreviation row :: "section_row \<Rightarrow> class_row" where
  "row s \<equiv> class_row.truncate s"

record registration =
  sr_user :: int
  sr_section :: int
  sr_relationship :: string
  sr_start :: "datetime option"
  sr_end :: "datetime option"

record interest =
  si_user :: int
  si_subject :: int
  si_start :: "datetime option"
  si_end :: "datetime option"

record question =
  qu_id :: int
  qu_program :: bool
  qu_subject :: "int option"

record application =
  ap_user :: int
  ap_done :: bool
  ap_questions :: "int list"
  ap_responses :: "(int \<times> string) list"

record user_row =
  us_id :: int
  us_grade :: int
  us_student :: bool
  us_override_full :: bool
  us_grade_override :: bool

datatype mailing_list = Section_List int | Class_List int | Program_List

record registration_db =
  rd_timeslots :: "int list"
  rd_sections :: "section_row list"
  rd_registrations :: "registration list"
  rd_interests :: "interest list"
  rd_users :: "user_row list"
  rd_constraints :: "schedule_constraint list"
  rd_settings :: registration_settings
  rd_checked_in :: "int list"
  rd_lists :: "(mailing_list \<times> int) list"
  rd_questions :: "question list"
  rd_applications :: "application list"

subsection \<open>Expiry\<close>

definition is_valid :: "datetime option \<Rightarrow> datetime option \<Rightarrow> datetime \<Rightarrow> bool" where
  "is_valid start_date end_date when \<longleftrightarrow>
     (start_date = None \<or> the start_date \<le> when) \<and> (end_date = None \<or> the end_date \<ge> when)"

abbreviation valid_registration :: "datetime \<Rightarrow> registration \<Rightarrow> bool" where
  "valid_registration when r \<equiv> is_valid (sr_start r) (sr_end r) when"

definition expire :: "datetime \<Rightarrow> registration \<Rightarrow> registration" where
  "expire now r = r\<lparr>sr_end := Some now\<rparr>"

definition unexpire :: "datetime \<Rightarrow> registration \<Rightarrow> registration" where
  "unexpire now r =
     (let r = r\<lparr>sr_end := None\<rparr> in
      if sr_start r \<noteq> None \<and> the (sr_start r) > now then r\<lparr>sr_start := Some now\<rparr> else r)"

lemma unexpire_valid: "now \<le> when \<Longrightarrow> valid_registration when (unexpire now r)"
  by (auto simp: unexpire_def is_valid_def Let_def not_less intro: order_trans)

lemma expire_valid_iff: "valid_registration when (expire now r) \<longleftrightarrow> (sr_start r = None \<or> the (sr_start r) \<le> when) \<and> when \<le> now"
  by (auto simp: expire_def is_valid_def)

subsection \<open>Students of a section, sections of a student\<close>

definition students :: "registration_db \<Rightarrow> datetime \<Rightarrow> string list \<Rightarrow> int \<Rightarrow> int list" where
  "students db now verbs section_id =
     remdups (map sr_user (filter (\<lambda>r. valid_registration now r \<and> sr_section r = section_id \<and> sr_relationship r \<in> set verbs)
       (rd_registrations db)))"

definition count_enrolled_students :: "registration_db \<Rightarrow> datetime \<Rightarrow> int \<Rightarrow> int" where
  "count_enrolled_students db now section_id = int (length (students db now [''Enrolled''] section_id))"

definition count_attending_students :: "registration_db \<Rightarrow> datetime \<Rightarrow> int \<Rightarrow> int" where
  "count_attending_students db now section_id = int (length (students db now [''Attended''] section_id))"

definition num_students_checked_in :: "registration_db \<Rightarrow> datetime \<Rightarrow> int \<Rightarrow> int" where
  "num_students_checked_in db now section_id =
     int (length (filter (\<lambda>u. u \<in> set (rd_checked_in db)) (students db now [''Enrolled''] section_id)))"

definition students_dict :: "registration_db \<Rightarrow> datetime \<Rightarrow> string list \<Rightarrow> int \<Rightarrow> (string, int list) dict" where
  "students_dict db now names section_id =
     filter (\<lambda>(k, v). length v \<noteq> 0) (map (\<lambda>k. (k, students db now [k] section_id)) names)"

text \<open>\<open>getSections\<close>: all verbs when none is given; the rows come in the order of their ids.\<close>

definition getSections :: "registration_db \<Rightarrow> datetime \<Rightarrow> int \<Rightarrow> string list \<Rightarrow> section_row list" where
  "getSections db now user verbs =
     sort_key cl_id (filter (\<lambda>s. \<exists>r\<in>set (rd_registrations db). sr_user r = user \<and> sr_section r = cl_id s \<and>
       valid_registration now r \<and> (verbs = [] \<or> sr_relationship r \<in> set verbs)) (rd_sections db))"

definition getEnrolledSectionsFromProgram :: "registration_db \<Rightarrow> datetime \<Rightarrow> int \<Rightarrow> section_row list" where
  "getEnrolledSectionsFromProgram db now user = getSections db now user [''Enrolled'']"

definition isEnrolledInClass :: "registration_db \<Rightarrow> datetime \<Rightarrow> int \<Rightarrow> int \<Rightarrow> bool" where
  "isEnrolledInClass db now user section_id \<longleftrightarrow> user \<in> set (students db now [''Enrolled''] section_id)"

text \<open>The verbs of the registrations of a student for a section (\<open>distinct\<close> does not matter to the callers).\<close>

definition getRegVerbs :: "registration_db \<Rightarrow> datetime \<Rightarrow> int \<Rightarrow> int \<Rightarrow> string list" where
  "getRegVerbs db now section_id user =
     remdups (map sr_relationship (filter (\<lambda>r. valid_registration now r \<and> sr_section r = section_id \<and> sr_user r = user)
       (rd_registrations db)))"

subsection \<open>The signals of a registration\<close>

text \<open>Saving a registration recomputes the stored counts of its section.\<close>

definition refresh_counts :: "datetime \<Rightarrow> int \<Rightarrow> registration_db \<Rightarrow> registration_db" where
  "refresh_counts later section_id db =
     db\<lparr>rd_sections := map (\<lambda>s. if cl_id s = section_id
         then s\<lparr>enrolled_students := count_enrolled_students db later section_id,
                attending_students := count_attending_students db later section_id\<rparr>
         else s) (rd_sections db)\<rparr>"

definition add_list_member :: "mailing_list \<Rightarrow> int \<Rightarrow> registration_db \<Rightarrow> registration_db" where
  "add_list_member l user db =
     (if (l, user) \<in> set (rd_lists db) then db else db\<lparr>rd_lists := rd_lists db @ [(l, user)]\<rparr>)"

definition remove_list_member :: "mailing_list \<Rightarrow> int \<Rightarrow> registration_db \<Rightarrow> registration_db" where
  "remove_list_member l user db = db\<lparr>rd_lists := filter (\<lambda>m. m \<noteq> (l, user)) (rd_lists db)\<rparr>"

subsection \<open>Application questions\<close>

text \<open>\<open>getAppliedClasses\<close> through \<open>reg_verbs\<close>: the ids of the classes the student applied to.\<close>

definition reg_verbs :: "registration_settings \<Rightarrow> string list" where
  "reg_verbs scrmi =
     [''Enrolled''] @
     (if use_priority scrmi then map (\<lambda>i. ''Priority/'' @ show_int (int i + 1)) [0..<nat (priority_limit scrmi)] else []) @
     [''Applied'']"

definition getAppliedClasses :: "registration_db \<Rightarrow> datetime \<Rightarrow> int \<Rightarrow> int list" where
  "getAppliedClasses db now user =
     map (\<lambda>s. sj_id (sn_subject s)) (getSections db now user (reg_verbs (rd_settings db)))"

definition set_questions :: "registration_db \<Rightarrow> datetime \<Rightarrow> application \<Rightarrow> application" where
  "set_questions db now app =
     (let existing_list = ap_questions app;
          new_list = map qu_id (filter qu_program (rd_questions db)) @
            map qu_id (filter (\<lambda>q. case qu_subject q of None \<Rightarrow> False
                | Some j \<Rightarrow> j \<in> set (getAppliedClasses db now (ap_user app))) (rd_questions db));
          kept = filter (\<lambda>e. e \<in> set new_list) existing_list;
          to_add = remdups (filter (\<lambda>e. e \<notin> set existing_list) new_list)
      in app\<lparr>ap_questions := kept @ to_add\<rparr>)"

text \<open>The first application of the student is the one that counts.\<close>

fun update_application :: "int \<Rightarrow> (application \<Rightarrow> application) \<Rightarrow> application list \<Rightarrow> application list" where
  "update_application user f [] = []"
| "update_application user f (a # as) = (if ap_user a = user then f a # as else a # update_application user f as)"

definition clear_completion :: "datetime \<Rightarrow> int \<Rightarrow> registration_db \<Rightarrow> registration_db" where
  "clear_completion now user db =
     (if length (rd_questions db) = 0 then db
      else db\<lparr>rd_applications := update_application user
          (\<lambda>app. let app = set_questions db now app in
             if ap_questions app \<noteq> [] then app\<lparr>ap_done := False\<rparr> else app)
          (rd_applications db)\<rparr>)"

definition drop_blank_responses :: "int \<Rightarrow> int \<Rightarrow> registration_db \<Rightarrow> registration_db" where
  "drop_blank_responses user subject db =
     (let of_subject = (\<lambda>q. \<exists>qu\<in>set (rd_questions db). qu_id qu = q \<and> qu_subject qu = Some subject) in
      db\<lparr>rd_applications := update_application user
        (\<lambda>app. let blank = filter (\<lambda>(q, text). of_subject q \<and> text = []) (ap_responses app) in
           app\<lparr>ap_questions := filter (\<lambda>q. q \<notin> fst ` set blank) (ap_questions app),
               ap_responses := filter (\<lambda>x. x \<notin> set blank) (ap_responses app)\<rparr>)
        (rd_applications db)\<rparr>)"

subsection \<open>Ending registrations\<close>

text \<open>
  The rows found by the query get the end \<open>now\<close>. The query is asked again for the signals, and because its
  clock still stands at \<open>now\<close> it finds the same rows.
\<close>

definition found :: "datetime \<Rightarrow> int \<Rightarrow> (registration \<Rightarrow> bool) \<Rightarrow> registration \<Rightarrow> bool" where
  "found now section_id wanted r \<longleftrightarrow> valid_registration now r \<and> sr_section r = section_id \<and> wanted r"

definition end_row :: "datetime \<Rightarrow> int \<Rightarrow> (registration \<Rightarrow> bool) \<Rightarrow> registration \<Rightarrow> registration" where
  "end_row now section_id wanted r = (if found now section_id wanted r then r\<lparr>sr_end := Some now\<rparr> else r)"

definition end_registrations ::
  "datetime \<Rightarrow> datetime \<Rightarrow> int \<Rightarrow> (registration \<Rightarrow> bool) \<Rightarrow> registration_db \<Rightarrow> registration_db" where
  "end_registrations now later section_id wanted db =
     (let db = db\<lparr>rd_registrations := map (end_row now section_id wanted) (rd_registrations db)\<rparr>
      in if \<exists>r\<in>set (rd_registrations db). found now section_id wanted r then refresh_counts later section_id db else db)"

definition unpreregister_student ::
  "datetime \<Rightarrow> datetime \<Rightarrow> section_row \<Rightarrow> int \<Rightarrow> string list \<Rightarrow> registration_db \<Rightarrow> registration_db" where
  "unpreregister_student now later s user prereg_verbs db =
     (let db = end_registrations now later (cl_id s)
            (\<lambda>r. sr_user r = user \<and> (prereg_verbs = [] \<or> sr_relationship r \<in> set prereg_verbs)) db;
          db = drop_blank_responses user (sj_id (sn_subject s)) db;
          db = remove_list_member (Section_List (cl_id s)) user db;
          db = remove_list_member (Class_List (sj_id (sn_subject s))) user db
      in if \<not> (\<exists>r\<in>set (rd_registrations db). valid_registration now r \<and> sr_user r = user \<and> sr_relationship r = ''Enrolled'')
         then remove_list_member Program_List user db else db)"

definition section_is_cancelled :: "section_row \<Rightarrow> bool" where
  "section_is_cancelled s \<longleftrightarrow> sn_status s = -20"

definition clearStudents :: "datetime \<Rightarrow> datetime \<Rightarrow> section_row \<Rightarrow> registration_db \<Rightarrow> registration_db" where
  "clearStudents now later s db =
     (let db = end_registrations now later (cl_id s) (\<lambda>r. True) db;
          siblings = filter (\<lambda>t. sj_id (sn_subject t) = sj_id (sn_subject s)) (rd_sections db)
      in if \<forall>t\<in>set siblings. section_eq (row t) (row s) \<or> section_is_cancelled t
         then db\<lparr>rd_interests := map (\<lambda>i. if is_valid (si_start i) (si_end i) now \<and> si_subject i = sj_id (sn_subject s)
                then i\<lparr>si_end := Some now\<rparr> else i) (rd_interests db)\<rparr>
         else db)"

subsection \<open>Adding registrations\<close>

definition section_full :: "registration_db \<Rightarrow> datetime \<Rightarrow> section_row \<Rightarrow> bool \<Rightarrow> bool \<Rightarrow> bool" where
  "section_full db now s ignore_changes webapp =
     isFull (rd_settings db) now (num_students_checked_in db now (cl_id s)) (int (length (remdups (rd_checked_in db))))
       s ignore_changes webapp"

text \<open>\<open>select_for_update\<close>: the row of the section as it is in the database.\<close>

definition locked :: "registration_db \<Rightarrow> section_row \<Rightarrow> section_row result" where
  "locked db s = (case filter (\<lambda>t. cl_id t = cl_id s) (rd_sections db) of [] \<Rightarrow> Inl (OtherError ''DoesNotExist'') | t # _ \<Rightarrow> Inr t)"

definition new_registration :: "int \<Rightarrow> int \<Rightarrow> string \<Rightarrow> datetime \<Rightarrow> registration_db \<Rightarrow> registration_db" where
  "new_registration user section_id verb now db =
     refresh_counts now section_id (db\<lparr>rd_registrations := rd_registrations db @
       [\<lparr>sr_user = user, sr_section = section_id, sr_relationship = verb, sr_start = Some now, sr_end = None\<rparr>]\<rparr>)"

definition verb_of :: "registration_settings \<Rightarrow> int \<Rightarrow> string option \<Rightarrow> string" where
  "verb_of scrmi priority prereg_verb =
     (case prereg_verb of
        Some v \<Rightarrow> v
      | None \<Rightarrow> if use_priority scrmi then ''Priority/'' @ show_int priority else ''Enrolled'')"

definition holds_registration :: "registration_db \<Rightarrow> datetime \<Rightarrow> int \<Rightarrow> int \<Rightarrow> string \<Rightarrow> bool" where
  "holds_registration db now user section_id verb \<longleftrightarrow>
     (\<exists>r\<in>set (rd_registrations db). valid_registration now r \<and> sr_section r = section_id \<and> sr_user r = user \<and>
        sr_relationship r = verb)"

text \<open>\<open>morphed\<close>: an administrator acts as the student.\<close>

definition preregister_student ::
  "datetime \<Rightarrow> bool \<Rightarrow> section_row \<Rightarrow> int \<Rightarrow> bool \<Rightarrow> int \<Rightarrow> string option \<Rightarrow> bool \<Rightarrow> bool \<Rightarrow> registration_db \<Rightarrow>
   (bool \<times> registration_db) result" where
  "preregister_student now morphed s user overridefull priority prereg_verb fast_force_create webapp db =
     rbind (locked db s) (\<lambda>locked_section.
     if overridefull \<or> fast_force_create \<or> \<not> section_full db now locked_section False webapp then
       let verb = verb_of (rd_settings db) priority prereg_verb;
           fresh = (fast_force_create \<or> \<not> holds_registration db now user (cl_id locked_section) verb);
           db1 = (if fresh then new_registration user (cl_id locked_section) verb now db else db)
       in if fast_force_create then Inr (True, db1)
          else
            let db2 = (if fresh \<and> webapp then new_registration user (cl_id s) ''Onsite/Webapp'' now db1
                       else if fresh \<and> morphed then new_registration user (cl_id s) ''OnSite/ChangedClasses'' now db1
                       else db1);
                db3 = clear_completion now user db2;
                db4 = add_list_member (Section_List (cl_id s)) user db3;
                db5 = add_list_member (Class_List (sj_id (sn_subject s))) user db4
            in Inr (True, add_list_member Program_List user db5)
     else Inr (False, db))"

subsection \<open>Priorities\<close>

text \<open>
  \<open>v[9:]\<close> on a registration type raises \<open>TypeError\<close>, which the \<open>except\<close> clause turns into the
  priority 1; a registration type is not equal to a text, so \<open>v == 'Enrolled'\<close> is false.
\<close>

definition priority_of_verb :: "string \<Rightarrow> int list" where
  "priority_of_verb v = (if take 8 v = ''Priority'' then [1] else [])"

text \<open>\<open>while priority in all_priorities\<close>: the search ends because the list is finite.\<close>

function first_free :: "int list \<Rightarrow> int \<Rightarrow> int" where
  "first_free taken priority = (if priority \<in> set taken then first_free taken (priority + 1) else priority)"
  by pat_completeness auto
termination
proof (relation "measure (\<lambda>(taken, priority). card {p \<in> set taken. priority \<le> p})")
  fix taken :: "int list" and priority :: int
  assume "priority \<in> set taken"
  then have "priority \<in> {p \<in> set taken. priority \<le> p}" and "priority \<notin> {p \<in> set taken. priority + 1 \<le> p}"
    by simp_all
  moreover have "{p \<in> set taken. priority + 1 \<le> p} \<subseteq> {p \<in> set taken. priority \<le> p}" by auto
  ultimately have "{p \<in> set taken. priority + 1 \<le> p} \<subset> {p \<in> set taken. priority \<le> p}" by blast
  then show "((taken, priority + 1), taken, priority) \<in> measure (\<lambda>(taken, priority). card {p \<in> set taken. priority \<le> p})"
    by (simp add: psubset_card_mono)
qed simp

declare first_free.simps [simp del]

definition getRegistrationPriority :: "registration_db \<Rightarrow> datetime \<Rightarrow> int \<Rightarrow> int list \<Rightarrow> int" where
  "getRegistrationPriority db now user timeslots =
     (if length timeslots < 1 then 0
      else first_free
        (concat (map (\<lambda>sec. concat (map (\<lambda>t. if t \<in> set timeslots
              then concat (map priority_of_verb (getRegVerbs db now (cl_id sec) user)) else []) (cl_timeslots sec)))
          (getSections db now user [])))
        1)"

subsection \<open>Lookups\<close>

lemma is_valid_None [simp]: "is_valid (Some t) None when \<longleftrightarrow> t \<le> when"
  by (simp add: is_valid_def)

lemma students_iff:
  "user \<in> set (students db now verbs section_id) \<longleftrightarrow> (\<exists>v\<in>set verbs. holds_registration db now user section_id v)"
  by (auto simp: students_def holds_registration_def)

lemma distinct_students [simp]: "distinct (students db now verbs section_id)"
  by (simp add: students_def)

lemma enrolled_iff [simp]: "isEnrolledInClass db now user i \<longleftrightarrow> holds_registration db now user i ''Enrolled''"
  by (simp add: isEnrolledInClass_def students_iff)

lemma getSections_iff:
  "s \<in> set (getSections db now user verbs) \<longleftrightarrow>
     s \<in> set (rd_sections db) \<and> (\<exists>v. holds_registration db now user (cl_id s) v \<and> (verbs = [] \<or> v \<in> set verbs))"
  by (auto simp: getSections_def holds_registration_def)

lemma getEnrolledSections_iff:
  "s \<in> set (getEnrolledSectionsFromProgram db now user) \<longleftrightarrow>
     s \<in> set (rd_sections db) \<and> holds_registration db now user (cl_id s) ''Enrolled''"
  by (auto simp: getEnrolledSectionsFromProgram_def getSections_iff)

lemma locked_Inr_iff [check_iff]:
  assumes "distinct (map cl_id (rd_sections db))"
  shows "locked db s = Inr t \<longleftrightarrow> t \<in> set (rd_sections db) \<and> cl_id t = cl_id s"
proof
  assume "locked db s = Inr t"
  then obtain us where us: "filter (\<lambda>t. cl_id t = cl_id s) (rd_sections db) = t # us"
    by (auto simp: locked_def split: list.splits)
  have "t \<in> set (filter (\<lambda>t. cl_id t = cl_id s) (rd_sections db))" unfolding us by simp
  then show "t \<in> set (rd_sections db) \<and> cl_id t = cl_id s" by simp
next
  assume t: "t \<in> set (rd_sections db) \<and> cl_id t = cl_id s"
  then obtain u us where us: "filter (\<lambda>t. cl_id t = cl_id s) (rd_sections db) = u # us"
    by (cases "filter (\<lambda>t. cl_id t = cl_id s) (rd_sections db)") (auto simp: filter_empty_conv)
  then have "u \<in> set (filter (\<lambda>t. cl_id t = cl_id s) (rd_sections db))" by simp
  then have "u \<in> set (rd_sections db)" "cl_id u = cl_id t" using t by auto
  with t assms have "u = t" by (meson distinct_map inj_onD)
  with us show "locked db s = Inr t" by (simp add: locked_def)
qed

subsection \<open>What the operations leave unchanged\<close>

lemma refresh_frame [simp, frame_simps]:
  "rd_registrations (refresh_counts t i db) = rd_registrations db"
  "rd_timeslots (refresh_counts t i db) = rd_timeslots db"
  "rd_constraints (refresh_counts t i db) = rd_constraints db"
  "rd_settings (refresh_counts t i db) = rd_settings db"
  "rd_lists (refresh_counts t i db) = rd_lists db"
  "rd_checked_in (refresh_counts t i db) = rd_checked_in db"
  "map cl_id (rd_sections (refresh_counts t i db)) = map cl_id (rd_sections db)"
  by (simp_all add: refresh_counts_def)

lemma lists_frame [simp, frame_simps]:
  "rd_registrations (add_list_member l u db) = rd_registrations db"
  "rd_sections (add_list_member l u db) = rd_sections db"
  "rd_settings (add_list_member l u db) = rd_settings db"
  "rd_registrations (remove_list_member l u db) = rd_registrations db"
  "rd_sections (remove_list_member l u db) = rd_sections db"
  "rd_settings (remove_list_member l u db) = rd_settings db"
  by (simp_all add: add_list_member_def remove_list_member_def)

lemma application_frame [simp, frame_simps]:
  "rd_registrations (clear_completion t u db) = rd_registrations db"
  "rd_sections (clear_completion t u db) = rd_sections db"
  "rd_settings (clear_completion t u db) = rd_settings db"
  "rd_registrations (drop_blank_responses u j db) = rd_registrations db"
  "rd_sections (drop_blank_responses u j db) = rd_sections db"
  "rd_lists (drop_blank_responses u j db) = rd_lists db"
  "rd_settings (drop_blank_responses u j db) = rd_settings db"
  by (simp_all add: clear_completion_def drop_blank_responses_def Let_def)

lemma holds_registration_frame:
  "rd_registrations db = rd_registrations db' \<Longrightarrow> holds_registration db = holds_registration db'"
  by (simp add: holds_registration_def fun_eq_iff)

text \<open>The sections that differ in nothing but the stored counts.\<close>

definition same_section :: "section_row \<Rightarrow> section_row \<Rightarrow> bool" where
  "same_section s t \<longleftrightarrow> (\<exists>m n. s = t\<lparr>enrolled_students := m, attending_students := n\<rparr>)"

lemma same_section_refl [simp]: "same_section s s"
  unfolding same_section_def by (intro exI [of _ "enrolled_students s"] exI [of _ "attending_students s"]) simp

lemma same_section_update [simp]: "same_section (s\<lparr>enrolled_students := m, attending_students := n\<rparr>) s"
  by (auto simp: same_section_def)

lemma capacity_counts:
  fixes s :: section_row
  shows "base_capacity options (s\<lparr>enrolled_students := m, attending_students := n\<rparr>) = base_capacity options s"
    and "fallback_capacity options (s\<lparr>enrolled_students := m, attending_students := n\<rparr>) = fallback_capacity options s"
  by (simp_all add: base_capacity_def fallback_capacity_def fun_eq_iff)

lemma get_capacity_counts [simp]:
  fixes s :: section_row
  shows "get_capacity options (s\<lparr>enrolled_students := m, attending_students := n\<rparr>) = get_capacity options s"
  unfolding get_capacity_def capacity_counts by (rule refl)

lemma same_sectionD:
  assumes "same_section s t"
  shows "cl_id s = cl_id t" and "cl_timeslots s = cl_timeslots t" and "sn_subject s = sn_subject t"
    and "get_capacity options s = get_capacity options t"
  using assms by (auto simp: same_section_def)

lemma refresh_sections:
  "s \<in> set (rd_sections (refresh_counts t i db)) \<longleftrightarrow>
     (\<exists>s'\<in>set (rd_sections db). s = (if cl_id s' = i
        then s'\<lparr>enrolled_students := count_enrolled_students db t i, attending_students := count_attending_students db t i\<rparr>
        else s'))"
  by (auto simp: refresh_counts_def)

text \<open>
  Ending a registration does not take the student off the list of the program: the rows that were just
  ended are still valid at \<open>now\<close>, the instant for which the last query asks.
\<close>

lemma end_row_keeps [simp]:
  "sr_user (end_row now i wanted r) = sr_user r" "sr_section (end_row now i wanted r) = sr_section r"
  "sr_relationship (end_row now i wanted r) = sr_relationship r" "sr_start (end_row now i wanted r) = sr_start r"
  by (simp_all add: end_row_def)

lemma end_row_valid [simp]: "is_valid (sr_start r) (sr_end (end_row now i wanted r)) now = valid_registration now r"
  by (auto simp: end_row_def found_def is_valid_def)

lemma end_registrations_rows [simp]:
  "rd_registrations (end_registrations now later i wanted db) = map (end_row now i wanted) (rd_registrations db)"
  by (simp add: end_registrations_def Let_def)

lemma end_registrations_frame [simp]:
  "rd_lists (end_registrations now later i wanted db) = rd_lists db"
  "rd_settings (end_registrations now later i wanted db) = rd_settings db"
  "map cl_id (rd_sections (end_registrations now later i wanted db)) = map cl_id (rd_sections db)"
  by (simp_all add: end_registrations_def Let_def)

lemma still_enrolled:
  assumes "holds_registration db now user i ''Enrolled''"
  shows "\<exists>r\<in>set (rd_registrations (end_registrations now later j wanted db)).
    valid_registration now r \<and> sr_user r = user \<and> sr_relationship r = ''Enrolled''"
  using assms by (auto simp: holds_registration_def)

lemma unpreregister_keeps_program_list:
  assumes "holds_registration db now user i ''Enrolled''"
  shows "(Program_List, user) \<in> set (rd_lists (unpreregister_student now later s user verbs db)) \<longleftrightarrow>
         (Program_List, user) \<in> set (rd_lists db)"
proof -
  let ?db = "end_registrations now later (cl_id s)
    (\<lambda>r. sr_user r = user \<and> (verbs = [] \<or> sr_relationship r \<in> set verbs)) db"
  have "\<exists>r\<in>set (rd_registrations ?db). valid_registration now r \<and> sr_user r = user \<and> sr_relationship r = ''Enrolled''"
    by (rule still_enrolled [OF assms])
  then show ?thesis by (auto simp: unpreregister_student_def Let_def remove_list_member_def)
qed

end
