(* ===== verification/Class_Registration.thy ===== *)
theory Class_Registration
  imports Registrations
begin

section \<open>Adding and removing classes (class\_.py, program/models, studentclassregmodule.py)\<close>

text \<open>
  What a student may do: \<open>cannotAdd\<close> and \<open>cannotRemove\<close> of a section, \<open>cannotAdd\<close> of a class with the
  caps of the program (\<open>user_can_join\<close>), and the request handlers \<open>addclass_logic\<close>, \<open>addclass\<close> with
  \<open>force_replace\<close>, and \<open>clearslot_logic\<close>. The texts of the refusals are the constructors of
  \<open>refusal\<close>. A handler runs in a transaction: an exception leaves the database as it was.

  \<open>cannotAdd_allows\<close>: when a section may be added. \<open>addclass_full\<close>: a full section is never added to by
  a student, whether or not the program enforces capacities. \<open>registration_steps\<close>: as long as
  students add and are removed through these operations no section is overbooked, no schedule has a
  clash, and the stored counts are right.
\<close>

datatype refusal =
    Class_Full string
  | Requirement string string
  | Already_In_Class
  | Conflict_Other_Sections
  | Conflict_Class
  | Registration_Closed
  | Section_Cancelled
  | Too_Many_Choices int
  | Not_A_Student
  | Not_Accepted
  | Program_Full
  | Wrong_Grade

definition subject_eq :: "subject_row \<Rightarrow> subject_row \<Rightarrow> bool" where
  "subject_eq a b \<longleftrightarrow> sj_start a = sj_start b \<and> sj_title a = sj_title b"

definition ScheduleMap_init :: "registration_db \<Rightarrow> datetime \<Rightarrow> int \<Rightarrow> schedule_map result" where
  "ScheduleMap_init db now user =
     populate (rd_timeslots db) (map row (getEnrolledSectionsFromProgram db now user))"

text \<open>The first constraint that the schedule violates.\<close>

fun first_violated :: "bool \<Rightarrow> schedule_map \<Rightarrow> schedule_constraint list \<Rightarrow> schedule_constraint option result" where
  "first_violated recursive sm [] = Inr None"
| "first_violated recursive sm (c # cs) =
     rbind (evaluate_constraint c sm recursive) (\<lambda>ok. if \<not> ok then Inr (Some c) else first_violated recursive sm cs)"

lemma first_violated_None [check_iff]:
  "first_violated recursive sm cs = Inr None \<longleftrightarrow> (\<forall>c\<in>set cs. evaluate_constraint c sm recursive = Inr True)"
  by (induction cs) (auto simp: rbind_Inr_iff)

subsection \<open>Sections\<close>

definition cannotRemove :: "registration_db \<Rightarrow> datetime \<Rightarrow> section_row \<Rightarrow> int \<Rightarrow> refusal option result" where
  "cannotRemove db now s user =
     (if rd_constraints db = [] then Inr None
      else rbind (ScheduleMap_init db now user) (\<lambda>sm.
           rbind (remove_section sm (row s)) (\<lambda>sm.
           rbind (first_violated False sm (rd_constraints db)) (\<lambda>violated.
           Inr (map_option (\<lambda>c. Requirement [] (sc_label c)) violated)))))"

definition constraint_refusal ::
  "registration_db \<Rightarrow> datetime \<Rightarrow> section_row \<Rightarrow> int \<Rightarrow> bool \<Rightarrow> bool \<Rightarrow> refusal option result" where
  "constraint_refusal db now s user autocorrect_constraints ignore_constraints =
     (if ignore_constraints \<or> rd_constraints db = [] then Inr None
      else rbind (ScheduleMap_init db now user) (\<lambda>sm.
           rbind (add_section sm (row s)) (\<lambda>sm.
           rbind (first_violated autocorrect_constraints sm (rd_constraints db)) (\<lambda>violated.
           Inr (map_option (\<lambda>c. Requirement (sj_title (sn_subject s)) (sc_label c)) violated)))))"

definition has_other_sections :: "registration_db \<Rightarrow> section_row \<Rightarrow> bool" where
  "has_other_sections db s \<longleftrightarrow>
     (\<exists>t\<in>set (rd_sections db). sj_id (sn_subject t) = sj_id (sn_subject s) \<and> sn_assigned t \<and>
        cl_timeslots t \<noteq> [] \<and> sn_status t = 10 \<and> cl_id t \<noteq> cl_id s)"

fun schedule_conflict :: "registration_db \<Rightarrow> section_row \<Rightarrow> section_row list \<Rightarrow> refusal option" where
  "schedule_conflict db s [] = None"
| "schedule_conflict db s (sec # section_list) =
     (if subject_eq (sn_subject sec) (sn_subject s) then Some Already_In_Class
      else if \<exists>tid\<in>set (cl_timeslots sec). tid \<in> set (cl_timeslots s)
      then Some (if has_other_sections db s then Conflict_Other_Sections else Conflict_Class)
      else schedule_conflict db s section_list)"

definition section_cannotAdd ::
  "registration_db \<Rightarrow> datetime \<Rightarrow> section_row \<Rightarrow> int \<Rightarrow> bool \<Rightarrow> bool \<Rightarrow> bool \<Rightarrow> bool \<Rightarrow> refusal option result" where
  "section_cannotAdd db now s user checkFull autocorrect_constraints ignore_constraints webapp =
     (if checkFull \<and> section_full db now s False webapp
      then Inr (Some (Class_Full (temporarily_full_text (rd_settings db))))
      else rbind (constraint_refusal db now s user autocorrect_constraints ignore_constraints) (\<lambda>refused.
        if refused \<noteq> None then Inr refused
        else
          let conflict = schedule_conflict db s (getEnrolledSectionsFromProgram db now user) in
          if conflict \<noteq> None then Inr conflict
          else if sn_registration_status s \<noteq> 0 then Inr (Some Registration_Closed)
          else if section_is_cancelled s then Inr (Some Section_Cancelled)
          else if use_priority (rd_settings db) \<and>
                  getRegistrationPriority db now user (cl_timeslots s) > priority_limit (rd_settings db)
          then Inr (Some (Too_Many_Choices (priority_limit (rd_settings db))))
          else Inr None))"

definition get_conflicts :: "registration_db \<Rightarrow> datetime \<Rightarrow> section_row \<Rightarrow> int \<Rightarrow> section_row list" where
  "get_conflicts db now s user =
     filter (\<lambda>sec. subject_eq (sn_subject sec) (sn_subject s) \<or> set (cl_timeslots s) \<inter> set (cl_timeslots sec) \<noteq> {})
       (getEnrolledSectionsFromProgram db now user)"

subsection \<open>The caps of the program\<close>

text \<open>The tag \<open>program_size_by_grade\<close> is given as the dictionary that its JSON text denotes.\<close>

definition grade_range :: "string \<Rightarrow> int list result" where
  "grade_range k =
     (if CHR ''-'' \<in> set k then
        rbind (rmap parse_int (split_at CHR ''-'' k)) (\<lambda>ns.
          case ns of [low, high] \<Rightarrow> Inr [low..high] | _ \<Rightarrow> Inl (ValueError ''values to unpack''))
      else rbind (parse_int k) (\<lambda>n. Inr [n]))"

definition grade_caps :: "(string \<times> int) list option \<Rightarrow> (int list, int) dict result" where
  "grade_caps size_tag =
     rfold (\<lambda>size_dict (k, v). rbind (grade_range k) (\<lambda>grades. Inr (AList.update grades v size_dict))) []
       (case size_tag of None \<Rightarrow> [] | Some items \<Rightarrow> items)"

definition classreg_students :: "registration_db \<Rightarrow> datetime \<Rightarrow> int list" where
  "classreg_students db now =
     remdups (map sr_user (filter (valid_registration now) (rd_registrations db)) @
       map si_user (filter (\<lambda>i. is_valid (si_start i) (si_end i) now) (rd_interests db)))"

definition student_grade :: "registration_db \<Rightarrow> int \<Rightarrow> int" where
  "student_grade db user = (case filter (\<lambda>u. us_id u = user) (rd_users db) of [] \<Rightarrow> 0 | u # _ \<Rightarrow> us_grade u)"

definition user_can_join_by_grade :: "registration_db \<Rightarrow> datetime \<Rightarrow> user_row \<Rightarrow> bool result" where
  "user_can_join_by_grade db now user =
     (if us_override_full user \<or> us_id user \<in> set (classreg_students db now) then Inr True
      else rbind (grade_caps (size_by_grade_tag (rd_settings db))) (\<lambda>caps.
        Inr (\<forall>(grades, cap)\<in>set caps. \<not> (us_grade user \<in> set grades \<and>
          int (length (filter (\<lambda>u. student_grade db u \<in> set grades) (classreg_students db now))) \<ge> cap))))"

definition user_can_join :: "registration_db \<Rightarrow> datetime \<Rightarrow> user_row \<Rightarrow> bool result" where
  "user_can_join db now user =
     (if size_by_grade_tag (rd_settings db) \<noteq> None then user_can_join_by_grade db now user
      else case program_size_max (rd_settings db) of
        None \<Rightarrow> Inr True
      | Some size_max \<Rightarrow>
          if size_max = 0 then Inr True
          else Inr (us_override_full user \<or> us_id user \<in> set (classreg_students db now) \<or>
                    int (length (classreg_students db now)) < size_max))"

subsection \<open>Classes\<close>

definition sections_of_subject :: "registration_db \<Rightarrow> int \<Rightarrow> section_row list" where
  "sections_of_subject db subject = sort_key cl_id (filter (\<lambda>s. sj_id (sn_subject s) = subject) (rd_sections db))"

definition subject_full :: "registration_db \<Rightarrow> datetime \<Rightarrow> subject_row \<Rightarrow> bool \<Rightarrow> bool" where
  "subject_full db now j webapp =
     (\<forall>s\<in>set (sections_of_subject db (sj_id j)). section_full db now s False webapp)"

text \<open>The answer of the first section that can be added, or of the last one that cannot.\<close>

fun any_section ::
  "(section_row \<Rightarrow> refusal option result) \<Rightarrow> refusal option \<Rightarrow> section_row list \<Rightarrow> refusal option result" where
  "any_section answer res [] = (case res of None \<Rightarrow> Inl (OtherError ''UnboundLocalError'') | Some r \<Rightarrow> Inr (Some r))"
| "any_section answer res (s # ss) =
     rbind (answer s) (\<lambda>r. if r = None then Inr None else any_section answer r ss)"

definition subject_cannotAdd ::
  "registration_db \<Rightarrow> datetime \<Rightarrow> subject_row \<Rightarrow> user_row \<Rightarrow> bool \<Rightarrow> section_row option \<Rightarrow> bool \<Rightarrow> refusal option result" where
  "subject_cannotAdd db now j user checkFull which_section webapp =
     (if \<not> us_student user then Inr (Some Not_A_Student)
      else if \<not> sj_status j > 0 then Inr (Some Not_Accepted)
      else rbind (if checkFull then user_can_join db now user else Inr True) (\<lambda>joins.
        if \<not> joins then Inr (Some Program_Full)
        else if checkFull \<and> subject_full db now j webapp
        then Inr (Some (Class_Full (temporarily_full_text (rd_settings db))))
        else if (us_grade user < sj_grade_min j \<or> us_grade user > sj_grade_max j) \<and> \<not> us_grade_override user
        then Inr (Some Wrong_Grade)
        else if \<exists>s\<in>set (sections_of_subject db (sj_id j)). isEnrolledInClass db now (us_id user) (cl_id s)
        then Inr (Some Already_In_Class)
        else any_section (\<lambda>s. section_cannotAdd db now s (us_id user) checkFull False False webapp) None
          (case which_section of Some s \<Rightarrow> [s] | None \<Rightarrow> sections_of_subject db (sj_id j))))"

subsection \<open>Handlers\<close>

definition find_section :: "registration_db \<Rightarrow> int \<Rightarrow> int \<Rightarrow> section_row result" where
  "find_section db classid sectionid =
     (case filter (\<lambda>s. cl_id s = sectionid \<and> sj_id (sn_subject s) = classid) (rd_sections db) of
        [] \<Rightarrow> Inl (OtherError ''Http404'')
      | s # _ \<Rightarrow> Inr s)"

definition addclass_logic ::
  "datetime \<Rightarrow> bool \<Rightarrow> user_row \<Rightarrow> bool \<Rightarrow> int \<Rightarrow> int \<Rightarrow> bool \<Rightarrow> registration_db \<Rightarrow> registration_db result" where
  "addclass_logic now morphed user onsite_local classid sectionid webapp db =
     (let scrmi = rd_settings db in
      rbind (find_section db classid sectionid) (\<lambda>section.
      rbind (section_cannotAdd db now section (us_id user) (enforce_max scrmi) True False webapp) (\<lambda>section_error.
      rbind (if use_priority scrmi \<or> section_error = None
             then rbind (subject_cannotAdd db now (sn_subject section) user (enforce_max scrmi) None webapp) (\<lambda>cobj_error.
               Inr (if cobj_error \<noteq> None then cobj_error else section_error))
             else Inr section_error) (\<lambda>error.
      let priority = (if use_priority scrmi then getRegistrationPriority db now (us_id user) (cl_timeslots section) else 1) in
      if error \<noteq> None \<and> \<not> onsite_local then Inl (OtherError ''ESPError'')
      else rbind (preregister_student now morphed section (us_id user) onsite_local priority None False webapp db)
        (\<lambda>(registered, db'). if registered then Inr db' else Inl (OtherError ''ESPError''))))))"

text \<open>
  Several removals read the clock several times: after the reading \<open>now\<close> the next one is \<open>tick now\<close>. A handler
  passes the time on with the database.
\<close>

type_synonym registration_state = "datetime \<times> registration_db"

fun remove_conflict ::
  "(datetime \<Rightarrow> datetime) \<Rightarrow> int \<Rightarrow> bool \<Rightarrow> string list \<Rightarrow> registration_state \<Rightarrow> section_row \<Rightarrow> registration_state result" where
  "remove_conflict tick user onsite_local verbs (now, db) conflict =
     rbind (cannotRemove db now conflict user) (\<lambda>error.
       if error \<noteq> None \<and> \<not> onsite_local then Inl (OtherError ''ESPError'')
       else Inr (tick now, unpreregister_student now (tick now) conflict user verbs db))"

definition addclass_replacing ::
  "(datetime \<Rightarrow> datetime) \<Rightarrow> bool \<Rightarrow> user_row \<Rightarrow> bool \<Rightarrow> string list \<Rightarrow> int \<Rightarrow> int \<Rightarrow> registration_state \<Rightarrow>
   registration_state result" where
  "addclass_replacing tick morphed user onsite_local verbs classid sectionid st =
     rbind (case filter (\<lambda>s. cl_id s = sectionid) (rd_sections (snd st)) of
              [] \<Rightarrow> Inr st
            | section # _ \<Rightarrow> rfold (remove_conflict tick (us_id user) onsite_local verbs) st
                (get_conflicts (snd st) (fst st) section (us_id user)))
       (\<lambda>st'. rbind (addclass_logic (fst st') morphed user onsite_local classid sectionid False (snd st'))
         (\<lambda>db'. Inr (fst st', db')))"

text \<open>\<open>has_onsite_local\<close>: the attribute exists, whatever its value.\<close>

fun clear_sections ::
  "(datetime \<Rightarrow> datetime) \<Rightarrow> int \<Rightarrow> bool \<Rightarrow> string list \<Rightarrow> registration_state \<Rightarrow> section_row list \<Rightarrow>
   (refusal option \<times> registration_state) result" where
  "clear_sections tick user has_onsite_local verbs st [] = Inr (None, st)"
| "clear_sections tick user has_onsite_local verbs (now, db) (sec # oldclasses) =
     rbind (cannotRemove db now sec user) (\<lambda>result.
       if result \<noteq> None \<and> \<not> has_onsite_local then Inr (result, (now, db))
       else clear_sections tick user has_onsite_local verbs
         (tick now, unpreregister_student now (tick now) sec user verbs db) oldclasses)"

text \<open>The query is asked again for the answer, with its clock at the start.\<close>

definition clearslot_logic ::
  "(datetime \<Rightarrow> datetime) \<Rightarrow> int \<Rightarrow> bool \<Rightarrow> string list \<Rightarrow> int \<Rightarrow> int option \<Rightarrow> registration_state \<Rightarrow>
   ((refusal + int list) \<times> registration_state) result" where
  "clearslot_logic tick user has_onsite_local verbs slot_id sec_id st =
     (let oldclasses = (\<lambda>db. filter (\<lambda>s. slot_id \<in> set (cl_timeslots s) \<and> (sec_id = None \<or> sec_id = Some (cl_id s)))
            (getSections db (fst st) user [])) in
      rbind (clear_sections tick user has_onsite_local verbs st (oldclasses (snd st))) (\<lambda>(result, st').
      case result of
        Some r \<Rightarrow> Inr (Inl r, st')
      | None \<Rightarrow> Inr (Inr (map cl_id (oldclasses (snd st'))), st')))"

subsection \<open>What a permission to add means\<close>

lemma schedule_conflict_None [check_iff]:
  "schedule_conflict db s sections = None \<longleftrightarrow>
     (\<forall>sec\<in>set sections. \<not> subject_eq (sn_subject sec) (sn_subject s) \<and> set (cl_timeslots sec) \<inter> set (cl_timeslots s) = {})"
  by (induction sections) auto

lemma cannotAdd_allows:
  "section_cannotAdd db now s user checkFull autocorrect ignore webapp = Inr None \<longleftrightarrow>
     \<not> (checkFull \<and> section_full db now s False webapp) \<and>
     (ignore \<or> rd_constraints db = [] \<or>
        (\<exists>sm sm'. ScheduleMap_init db now user = Inr sm \<and> add_section sm (row s) = Inr sm' \<and>
           (\<forall>c\<in>set (rd_constraints db). evaluate_constraint c sm' False = Inr True))) \<and>
     (\<forall>sec\<in>set (getEnrolledSectionsFromProgram db now user).
        \<not> subject_eq (sn_subject sec) (sn_subject s) \<and> set (cl_timeslots sec) \<inter> set (cl_timeslots s) = {}) \<and>
     sn_registration_status s = 0 \<and> \<not> section_is_cancelled s \<and>
     (use_priority (rd_settings db) \<longrightarrow>
        getRegistrationPriority db now user (cl_timeslots s) \<le> priority_limit (rd_settings db))"
proof -
  have recursive: "evaluate_constraint c sm autocorrect = evaluate_constraint c sm False" for c sm
    by (rule evaluate_constraint_recursive)
  have constraints: "constraint_refusal db now s user autocorrect ignore = Inr None \<longleftrightarrow>
      ignore \<or> rd_constraints db = [] \<or>
        (\<exists>sm sm'. ScheduleMap_init db now user = Inr sm \<and> add_section sm (row s) = Inr sm' \<and>
           (\<forall>c\<in>set (rd_constraints db). evaluate_constraint c sm' False = Inr True))"
    by (simp add: constraint_refusal_def check_iff recursive)
  show ?thesis
    unfolding constraints [symmetric] schedule_conflict_None [of db, symmetric]
    by (cases "constraint_refusal db now s user autocorrect ignore";
        cases "schedule_conflict db s (getEnrolledSectionsFromProgram db now user)")
      (auto simp: section_cannotAdd_def rbind_def split: sum.splits option.splits)
qed

subsection \<open>Priorities\<close>

lemma first_free_not_taken: "1 \<notin> set taken \<Longrightarrow> first_free taken 1 = 1"
  by (simp add: first_free.simps)

lemma first_free_ones: "set taken = {1} \<Longrightarrow> first_free taken 1 = 2"
  by (simp add: first_free.simps [of taken 1] first_free.simps [of taken 2])

text \<open>Whatever choices a student has made, the next priority is the first or the second one.\<close>

lemma registration_priority_bound:
  "getRegistrationPriority db now user timeslots \<in> {0, 1, 2}"
proof -
  have "set (concat (map (\<lambda>sec. concat (map (\<lambda>t. if t \<in> set timeslots
              then concat (map priority_of_verb (getRegVerbs db now (cl_id sec) user)) else []) (cl_timeslots sec)))
          (getSections db now user []))) \<subseteq> {1}" (is "set ?taken \<subseteq> _")
    by (auto simp: priority_of_verb_def split: if_splits)
  then have "set ?taken = {} \<or> set ?taken = {1}" by (rule subset_singletonD)
  then have "first_free ?taken 1 \<in> {1, 2}"
    using first_free_not_taken [of ?taken] first_free_ones [of ?taken] by auto
  then show ?thesis by (simp add: getRegistrationPriority_def)
qed

subsection \<open>Registrations after an operation\<close>

text \<open>Rows that have begun and are not about to end: their validity does not depend on the time any more.\<close>

definition settled_rows :: "datetime \<Rightarrow> registration_db \<Rightarrow> bool" where
  "settled_rows t db \<longleftrightarrow> (\<forall>r\<in>set (rd_registrations db).
     (sr_start r = None \<or> the (sr_start r) \<le> t) \<and> (sr_end r = None \<or> the (sr_end r) < t))"

definition holds_now :: "registration_db \<Rightarrow> int \<Rightarrow> int \<Rightarrow> string \<Rightarrow> bool" where
  "holds_now db user section_id verb \<longleftrightarrow>
     (\<exists>r\<in>set (rd_registrations db). sr_end r = None \<and> sr_section r = section_id \<and> sr_user r = user \<and> sr_relationship r = verb)"

lemma settled_valid:
  assumes "settled_rows t db" and "t \<le> now" and "r \<in> set (rd_registrations db)"
  shows "valid_registration now r \<longleftrightarrow> sr_end r = None"
  using assms by (cases "sr_end r") (force simp: settled_rows_def is_valid_def)+

lemma settled_holds:
  assumes "settled_rows t db" and "t \<le> now"
  shows "holds_registration db now user i v = holds_now db user i v"
  unfolding holds_registration_def holds_now_def using settled_valid [OF assms] by blast

lemma settled_students:
  assumes "settled_rows t db" and "t \<le> now"
  shows "students db now verbs i =
    remdups (map sr_user (filter (\<lambda>r. sr_end r = None \<and> sr_section r = i \<and> sr_relationship r \<in> set verbs) (rd_registrations db)))"
proof -
  have "filter (\<lambda>r. valid_registration now r \<and> sr_section r = i \<and> sr_relationship r \<in> set verbs) (rd_registrations db) =
        filter (\<lambda>r. sr_end r = None \<and> sr_section r = i \<and> sr_relationship r \<in> set verbs) (rd_registrations db)"
    using settled_valid [OF assms] by (intro filter_cong) auto
  then show ?thesis by (simp add: students_def)
qed

lemma settled_later: "settled_rows t db \<Longrightarrow> t \<le> now \<Longrightarrow> settled_rows now db"
  by (force simp: settled_rows_def)

text \<open>The number of students of a section, once its rows are settled.\<close>

definition enrolled_users :: "registration_db \<Rightarrow> int \<Rightarrow> int set" where
  "enrolled_users db i = {u. holds_now db u i ''Enrolled''}"

lemma settled_count:
  assumes "settled_rows t db" and "t \<le> now"
  shows "count_enrolled_students db now i = int (card (enrolled_users db i))"
proof -
  have "set (students db now [''Enrolled''] i) = enrolled_users db i"
    using settled_holds [OF assms] by (auto simp: enrolled_users_def students_iff)
  then show ?thesis
    unfolding count_enrolled_students_def by (metis distinct_students distinct_card)
qed

lemma finite_enrolled [simp]: "finite (enrolled_users db i)"
proof -
  have "enrolled_users db i \<subseteq> sr_user ` set (rd_registrations db)" by (auto simp: enrolled_users_def holds_now_def)
  then show ?thesis by (rule finite_subset) simp
qed

subsection \<open>Good databases\<close>

definition clash_free :: "registration_db \<Rightarrow> bool" where
  "clash_free db \<longleftrightarrow> (\<forall>u. \<forall>s\<in>set (rd_sections db). \<forall>t\<in>set (rd_sections db).
     cl_id s \<noteq> cl_id t \<and> holds_now db u (cl_id s) ''Enrolled'' \<and> holds_now db u (cl_id t) ''Enrolled'' \<longrightarrow>
     \<not> subject_eq (sn_subject s) (sn_subject t) \<and> set (cl_timeslots s) \<inter> set (cl_timeslots t) = {})"

definition counts_right :: "registration_db \<Rightarrow> bool" where
  "counts_right db \<longleftrightarrow> (\<forall>s\<in>set (rd_sections db). enrolled_students s = int (card (enrolled_users db (cl_id s))))"

definition within_capacity :: "registration_db \<Rightarrow> bool" where
  "within_capacity db \<longleftrightarrow> (\<forall>s\<in>set (rd_sections db).
     int (card (enrolled_users db (cl_id s))) \<le> max 1 (get_capacity (rd_settings db) s False))"

definition good_db :: "datetime \<Rightarrow> registration_db \<Rightarrow> bool" where
  "good_db t db \<longleftrightarrow> distinct (map cl_id (rd_sections db)) \<and> settled_rows t db \<and> clash_free db \<and> counts_right db"

lemma good_db_frame:
  assumes "rd_registrations db' = rd_registrations db" and "rd_sections db' = rd_sections db"
  shows "good_db t db' = good_db t db"
    and "rd_settings db' = rd_settings db \<Longrightarrow> within_capacity db' = within_capacity db"
proof -
  have "holds_now db' = holds_now db" by (simp add: holds_now_def fun_eq_iff assms(1))
  then show "good_db t db' = good_db t db" and "rd_settings db' = rd_settings db \<Longrightarrow> within_capacity db' = within_capacity db"
    using assms
    by (simp_all add: good_db_def clash_free_def counts_right_def within_capacity_def settled_rows_def enrolled_users_def)
qed

lemma subject_eq_sym: "subject_eq a b = subject_eq b a"
  by (auto simp: subject_eq_def)

text \<open>What is left to show when the rows and the stored counts of one section change.\<close>

lemma refreshed_section:
  assumes "s \<in> set (rd_sections (refresh_counts t i db))"
  obtains s' where "s' \<in> set (rd_sections db)" and "same_section s s'"
    and "cl_id s = i \<Longrightarrow> enrolled_students s = count_enrolled_students db t i"
    and "cl_id s \<noteq> i \<Longrightarrow> s = s'"
proof -
  from assms obtain s' where "s' \<in> set (rd_sections db)" and "s = (if cl_id s' = i
      then s'\<lparr>enrolled_students := count_enrolled_students db t i, attending_students := count_attending_students db t i\<rparr>
      else s')"
    unfolding refresh_sections by blast
  then show thesis by (intro that [of s']) (simp_all split: if_splits)
qed

lemma good_refresh:
  assumes "distinct (map cl_id (rd_sections db))" and "settled_rows t db" and "clash_free db"
    and "\<forall>s\<in>set (rd_sections db). cl_id s \<noteq> i \<longrightarrow> enrolled_students s = int (card (enrolled_users db (cl_id s)))"
  shows "good_db t (refresh_counts t i db)"
proof -
  let ?db = "refresh_counts t i db"
  have act: "holds_now ?db = holds_now db" by (simp add: holds_now_def fun_eq_iff)
  have "clash_free ?db"
    unfolding clash_free_def act
  proof (intro allI ballI impI)
    fix u s1 s2
    assume s: "s1 \<in> set (rd_sections ?db)" "s2 \<in> set (rd_sections ?db)"
      and en: "cl_id s1 \<noteq> cl_id s2 \<and> holds_now db u (cl_id s1) ''Enrolled'' \<and> holds_now db u (cl_id s2) ''Enrolled''"
    obtain s1' where s1: "s1' \<in> set (rd_sections db)" "same_section s1 s1'" using refreshed_section [OF s(1)] .
    obtain s2' where s2: "s2' \<in> set (rd_sections db)" "same_section s2 s2'" using refreshed_section [OF s(2)] .
    show "\<not> subject_eq (sn_subject s1) (sn_subject s2) \<and> set (cl_timeslots s1) \<inter> set (cl_timeslots s2) = {}"
      using assms(3) s1(1) s2(1) en same_sectionD [OF s1(2)] same_sectionD [OF s2(2)]
      unfolding clash_free_def by (metis (no_types))
  qed
  moreover have "counts_right ?db"
    unfolding counts_right_def
  proof
    fix s assume s: "s \<in> set (rd_sections ?db)"
    obtain s' where s': "s' \<in> set (rd_sections db)" "same_section s s'"
      "cl_id s = i \<Longrightarrow> enrolled_students s = count_enrolled_students db t i" "cl_id s \<noteq> i \<Longrightarrow> s = s'"
      using refreshed_section [OF s] by blast
    have "enrolled_users ?db = enrolled_users db" by (simp add: enrolled_users_def act fun_eq_iff)
    then show "enrolled_students s = int (card (enrolled_users ?db (cl_id s)))"
      using s' assms(4) settled_count [OF assms(2) order_refl] by (cases "cl_id s = i") auto
  qed
  moreover have "settled_rows t ?db" using assms(2) by (simp add: settled_rows_def)
  ultimately show ?thesis using assms(1) by (simp add: good_db_def)
qed

lemma within_refresh: "within_capacity db \<Longrightarrow> within_capacity (refresh_counts t i db)"
  unfolding within_capacity_def
proof
  fix s assume w: "\<forall>s\<in>set (rd_sections db). int (card (enrolled_users db (cl_id s))) \<le> max 1 (get_capacity (rd_settings db) s False)"
    and s: "s \<in> set (rd_sections (refresh_counts t i db))"
  obtain s' where s': "s' \<in> set (rd_sections db)" "same_section s s'" using refreshed_section [OF s] .
  have "enrolled_users (refresh_counts t i db) = enrolled_users db" by (simp add: enrolled_users_def holds_now_def fun_eq_iff)
  then show "int (card (enrolled_users (refresh_counts t i db) (cl_id s)))
      \<le> max 1 (get_capacity (rd_settings (refresh_counts t i db)) s False)"
    using w s'(1) same_sectionD [OF s'(2)] by simp
qed

subsection \<open>Ending registrations\<close>

lemma end_row_active:
  assumes "settled_rows t db" and "t \<le> now"
  shows "holds_now (db\<lparr>rd_registrations := map (end_row now i wanted) (rd_registrations db)\<rparr>) u j v \<longleftrightarrow>
    (\<exists>r\<in>set (rd_registrations db). sr_end r = None \<and> sr_section r = j \<and> sr_user r = u \<and> sr_relationship r = v \<and>
       \<not> (sr_section r = i \<and> wanted r))"
  using settled_valid [OF assms] by (auto simp: holds_now_def end_row_def found_def)

lemma end_row_settled:
  assumes "settled_rows t db" and "t \<le> now" and "now < later"
  shows "settled_rows later (db\<lparr>rd_registrations := map (end_row now i wanted) (rd_registrations db)\<rparr>)"
  using assms by (force simp: settled_rows_def end_row_def)

lemma end_good:
  assumes "good_db t db" and "t \<le> now" and "now < later"
    and keep: "\<And>r. wanted (end_row now i wanted r) = wanted r"
  shows "good_db later (end_registrations now later i wanted db)"
    and "within_capacity db \<Longrightarrow> within_capacity (end_registrations now later i wanted db)"
proof -
  let ?db = "db\<lparr>rd_registrations := map (end_row now i wanted) (rd_registrations db)\<rparr>"
  have settled: "settled_rows t db" and later: "t \<le> later"
    using assms by (auto simp: good_db_def)
  note holds_now = end_row_active [OF settled assms(2)]
  have sub: "holds_now db u j v" if "holds_now ?db u j v" for u j v
    using that unfolding holds_now by (auto simp: holds_now_def)
  have other: "enrolled_users ?db j = enrolled_users db j" if "j \<noteq> i" for j
    unfolding enrolled_users_def holds_now using that by (auto simp: holds_now_def)
  have clash: "clash_free ?db"
    using assms(1) sub unfolding good_db_def clash_free_def by simp blast
  show "good_db later (end_registrations now later i wanted db)"
  proof (cases "\<exists>r\<in>set (rd_registrations ?db). found now i wanted r")
    case True
    have "good_db later (refresh_counts later i ?db)"
    proof (rule good_refresh)
      show "settled_rows later ?db" by (rule end_row_settled [OF settled assms(2,3)])
      show "\<forall>s\<in>set (rd_sections ?db). cl_id s \<noteq> i \<longrightarrow> enrolled_students s = int (card (enrolled_users ?db (cl_id s)))"
        using assms(1) other by (simp add: good_db_def counts_right_def)
    qed (use assms(1) clash in \<open>simp_all add: good_db_def\<close>)
    with True show ?thesis by (simp add: end_registrations_def Let_def)
  next
    case False
    have "found now i wanted (end_row now i wanted r) = found now i wanted r" for r
      by (simp add: found_def keep)
    with False have "\<not> found now i wanted r" if "r \<in> set (rd_registrations db)" for r
      using that by simp
    then have none: "end_row now i wanted r = r" if "r \<in> set (rd_registrations db)" for r
      using that by (simp add: end_row_def)
    have "map (end_row now i wanted) (rd_registrations db) = rd_registrations db"
      using none by (simp add: map_idI)
    with False have "end_registrations now later i wanted db = db"
      by (simp add: end_registrations_def Let_def)
    with assms(1) settled_later [OF settled later] show ?thesis by (simp add: good_db_def)
  qed
  have "enrolled_users ?db j \<subseteq> enrolled_users db j" for j
    using sub by (auto simp: enrolled_users_def)
  then have "card (enrolled_users ?db j) \<le> card (enrolled_users db j)" for j
    by (simp add: card_mono)
  then have "within_capacity db \<Longrightarrow> within_capacity ?db"
    unfolding within_capacity_def by simp (meson of_nat_mono order_trans)
  then show "within_capacity db \<Longrightarrow> within_capacity (end_registrations now later i wanted db)"
    using within_refresh [of ?db] by (simp add: end_registrations_def Let_def)
qed

subsection \<open>Adding a registration\<close>

lemma new_row_active:
  "holds_now (db\<lparr>rd_registrations := rd_registrations db @
      [\<lparr>sr_user = user, sr_section = i, sr_relationship = verb, sr_start = Some now, sr_end = None\<rparr>]\<rparr>) u j v \<longleftrightarrow>
   holds_now db u j v \<or> u = user \<and> j = i \<and> v = verb"
  by (auto simp: holds_now_def)

lemma new_good:
  assumes good: "good_db t db" and "t \<le> now"
    and free: "\<And>s s'. verb = ''Enrolled'' \<Longrightarrow> s \<in> set (rd_sections db) \<Longrightarrow> s' \<in> set (rd_sections db) \<Longrightarrow>
      cl_id s = i \<Longrightarrow> cl_id s' \<noteq> i \<Longrightarrow> holds_now db user (cl_id s') ''Enrolled'' \<Longrightarrow>
      \<not> subject_eq (sn_subject s') (sn_subject s) \<and> set (cl_timeslots s') \<inter> set (cl_timeslots s) = {}"
  shows "good_db now (new_registration user i verb now db)"
    and "within_capacity db \<Longrightarrow>
      (\<And>s. verb = ''Enrolled'' \<Longrightarrow> s \<in> set (rd_sections db) \<Longrightarrow> cl_id s = i \<Longrightarrow>
        int (card (enrolled_users db i)) < max 1 (get_capacity (rd_settings db) s False)) \<Longrightarrow>
      within_capacity (new_registration user i verb now db)"
proof -
  let ?db = "db\<lparr>rd_registrations := rd_registrations db @
      [\<lparr>sr_user = user, sr_section = i, sr_relationship = verb, sr_start = Some now, sr_end = None\<rparr>]\<rparr>"
  note holds_now = new_row_active [of db user i verb now]
  have users: "enrolled_users ?db j = (if j = i \<and> verb = ''Enrolled'' then insert user (enrolled_users db j) else enrolled_users db j)" for j
    unfolding enrolled_users_def holds_now by auto
  have clash: "clash_free ?db"
    unfolding clash_free_def holds_now
  proof (intro allI ballI impI)
    fix u s s'
    assume s: "s \<in> set (rd_sections ?db)" "s' \<in> set (rd_sections ?db)"
      and both: "cl_id s \<noteq> cl_id s' \<and>
         (holds_now db u (cl_id s) ''Enrolled'' \<or> u = user \<and> cl_id s = i \<and> ''Enrolled'' = verb) \<and>
         (holds_now db u (cl_id s') ''Enrolled'' \<or> u = user \<and> cl_id s' = i \<and> ''Enrolled'' = verb)"
    have sections: "s \<in> set (rd_sections db)" "s' \<in> set (rd_sections db)" using s by simp_all
    consider "holds_now db u (cl_id s) ''Enrolled''" "holds_now db u (cl_id s') ''Enrolled''"
      | "u = user" "cl_id s = i" "''Enrolled'' = verb" "holds_now db u (cl_id s') ''Enrolled''"
      | "u = user" "cl_id s' = i" "''Enrolled'' = verb" "holds_now db u (cl_id s) ''Enrolled''"
      using both by auto
    then show "\<not> subject_eq (sn_subject s) (sn_subject s') \<and> set (cl_timeslots s) \<inter> set (cl_timeslots s') = {}"
    proof cases
      case 1
      with good sections both show ?thesis unfolding good_db_def clash_free_def by blast
    next
      case 2
      with free [of s s'] sections both show ?thesis by (simp add: subject_eq_sym Int_commute)
    next
      case 3
      with free [of s' s] sections both show ?thesis by simp
    qed
  qed
  have "settled_rows now ?db"
    using settled_later [of t db now] assms(2) good unfolding good_db_def settled_rows_def by simp
  then show "good_db now (new_registration user i verb now db)"
    unfolding new_registration_def
    by (intro good_refresh) (use good clash users in \<open>simp_all add: good_db_def counts_right_def\<close>)
  assume within: "within_capacity db"
    and room: "\<And>s. verb = ''Enrolled'' \<Longrightarrow> s \<in> set (rd_sections db) \<Longrightarrow> cl_id s = i \<Longrightarrow>
        int (card (enrolled_users db i)) < max 1 (get_capacity (rd_settings db) s False)"
  have "within_capacity ?db"
    unfolding within_capacity_def
  proof
    fix s assume "s \<in> set (rd_sections ?db)"
    then have s: "s \<in> set (rd_sections db)" by simp
    show "int (card (enrolled_users ?db (cl_id s))) \<le> max 1 (get_capacity (rd_settings ?db) s False)"
    proof (cases "cl_id s = i \<and> verb = ''Enrolled''")
      case True
      have "card (insert user (enrolled_users db i)) \<le> Suc (card (enrolled_users db i))"
        by (simp add: card_insert_if)
      moreover have "int (card (enrolled_users db i)) < max 1 (get_capacity (rd_settings db) s False)"
        using room s True by simp
      moreover have "enrolled_users ?db (cl_id s) = insert user (enrolled_users db i)"
        unfolding users using True by simp
      ultimately show ?thesis by simp
    next
      case False
      then have "enrolled_users ?db (cl_id s) = enrolled_users db (cl_id s)" unfolding users by auto
      with within s show ?thesis by (simp add: within_capacity_def)
    qed
  qed
  then show "within_capacity (new_registration user i verb now db)"
    unfolding new_registration_def by (rule within_refresh)
qed

text \<open>The notes that a registration came from the web application or from an administrator.\<close>

lemma note_good:
  assumes "good_db t db" and "t \<le> now" and "verb \<noteq> ''Enrolled''"
  shows "good_db now (new_registration user i verb now db)"
    and "within_capacity db \<Longrightarrow> within_capacity (new_registration user i verb now db)"
  using new_good [OF assms(1,2), of verb i user] assms(3) by auto

lemma verb_of_None: "verb_of scrmi priority None = ''Enrolled'' \<longleftrightarrow> \<not> use_priority scrmi"
  by (simp add: verb_of_def)

lemma new_registration_settings [simp]: "rd_settings (new_registration user i verb now db) = rd_settings db"
  by (simp add: new_registration_def)

lemma preregister_good:
  assumes good: "good_db t db" and time: "t \<le> now"
    and result: "preregister_student now morphed s user False priority None False webapp db = Inr (True, db')"
    and free: "\<And>s' s''. \<not> use_priority (rd_settings db) \<Longrightarrow> s' \<in> set (rd_sections db) \<Longrightarrow> s'' \<in> set (rd_sections db) \<Longrightarrow>
      cl_id s' = cl_id s \<Longrightarrow> cl_id s'' \<noteq> cl_id s \<Longrightarrow> holds_now db user (cl_id s'') ''Enrolled'' \<Longrightarrow>
      \<not> subject_eq (sn_subject s'') (sn_subject s') \<and> set (cl_timeslots s'') \<inter> set (cl_timeslots s') = {}"
  shows "good_db now db'"
    and "within_capacity db \<Longrightarrow> \<not> webapp \<Longrightarrow> within_capacity db'"
proof -
  have distinct: "distinct (map cl_id (rd_sections db))" using good by (simp add: good_db_def)
  from result obtain l where l: "l \<in> set (rd_sections db)" "cl_id l = cl_id s" "\<not> section_full db now l False webapp"
    and db': "(let fresh = (\<not> holds_registration db now user (cl_id l) (verb_of (rd_settings db) priority None));
         db1 = (if fresh then new_registration user (cl_id l) (verb_of (rd_settings db) priority None) now db else db);
         db2 = (if fresh \<and> webapp then new_registration user (cl_id s) ''Onsite/Webapp'' now db1
                else if fresh \<and> morphed then new_registration user (cl_id s) ''OnSite/ChangedClasses'' now db1
                else db1)
       in add_list_member Program_List user (add_list_member (Class_List (sj_id (sn_subject s))) user
            (add_list_member (Section_List (cl_id s)) user (clear_completion now user db2)))) = db'"
    unfolding preregister_student_def rbind_Inr_iff locked_Inr_iff [OF distinct]
    by (auto simp: Let_def split: if_splits)
  define verb where "verb = verb_of (rd_settings db) priority None"
  define db1 where "db1 = (if \<not> holds_registration db now user (cl_id l) verb then new_registration user (cl_id l) verb now db else db)"
  have priority: "verb = ''Enrolled'' \<longleftrightarrow> \<not> use_priority (rd_settings db)" by (simp add: verb_def verb_of_None)
  have now: "good_db now db" using good time settled_later by (auto simp: good_db_def)
  have good1: "good_db now db1"
    unfolding db1_def using new_good(1) [OF good time, of verb "cl_id l" user] free l(2) priority now by simp
  have within1: "within_capacity db1" if "within_capacity db" "\<not> webapp"
  proof -
    have "int (card (enrolled_users db (cl_id l))) < max 1 (get_capacity (rd_settings db) s' False)"
      if "s' \<in> set (rd_sections db)" "cl_id s' = cl_id l" for s'
    proof -
      have "s' = l" using that l(1) distinct by (meson distinct_map inj_onD)
      moreover have "enrolled_students l = int (card (enrolled_users db (cl_id l)))"
        using good l(1) by (simp add: good_db_def counts_right_def)
      moreover have "enrolled_students l < get_capacity (rd_settings db) l False \<or>
          enrolled_students l = 0 \<and> get_capacity (rd_settings db) l False = 0"
        using l(3) \<open>\<not> webapp\<close> by (simp add: section_full_def not_full_iff)
      ultimately show ?thesis by auto
    qed
    then show ?thesis
      unfolding db1_def using new_good(2) [OF good time, of verb "cl_id l" user] free l(2) priority that(1) by simp
  qed
  obtain db2 where db2: "rd_registrations db' = rd_registrations db2" "rd_sections db' = rd_sections db2"
      "rd_settings db' = rd_settings db2"
    and step: "db2 = db1 \<or> db2 = new_registration user (cl_id s) ''Onsite/Webapp'' now db1 \<or>
       db2 = new_registration user (cl_id s) ''OnSite/ChangedClasses'' now db1"
    using db' unfolding Let_def verb_def [symmetric] db1_def [symmetric]
    by (intro that [of "if \<not> holds_registration db now user (cl_id l) verb \<and> webapp
          then new_registration user (cl_id s) ''Onsite/Webapp'' now db1
          else if \<not> holds_registration db now user (cl_id l) verb \<and> morphed
          then new_registration user (cl_id s) ''OnSite/ChangedClasses'' now db1 else db1"]) auto
  have "good_db now db2" using step good1 note_good(1) [OF good1 order_refl] by auto
  then show "good_db now db'" using good_db_frame(1) [OF db2(1,2)] by simp
  assume "within_capacity db" and "\<not> webapp"
  then have "within_capacity db2" using step within1 note_good(2) [OF good1 order_refl] by auto
  then show "within_capacity db'" using good_db_frame(2) [OF db2(1,2)] db2(3) by simp
qed

subsection \<open>Handlers\<close>

lemma addclass_Inr:
  assumes "addclass_logic now morphed user False classid sectionid webapp db = Inr db'"
  obtains s priority where "s \<in> set (rd_sections db)" and "cl_id s = sectionid"
    and "\<not> use_priority (rd_settings db) \<Longrightarrow>
      section_cannotAdd db now s (us_id user) (enforce_max (rd_settings db)) True False webapp = Inr None"
    and "preregister_student now morphed s (us_id user) False priority None False webapp db = Inr (True, db')"
proof -
  from assms obtain s section_error error where
    s: "find_section db classid sectionid = Inr s" and
    add: "section_cannotAdd db now s (us_id user) (enforce_max (rd_settings db)) True False webapp = Inr section_error" and
    error: "(if use_priority (rd_settings db) \<or> section_error = None
             then rbind (subject_cannotAdd db now (sn_subject s) user (enforce_max (rd_settings db)) None webapp) (\<lambda>cobj_error.
               Inr (if cobj_error \<noteq> None then cobj_error else section_error))
             else Inr section_error) = Inr error" and
    rest: "(let priority = (if use_priority (rd_settings db) then getRegistrationPriority db now (us_id user) (cl_timeslots s) else 1) in
      if error \<noteq> None \<and> \<not> False then Inl (OtherError ''ESPError'')
      else rbind (preregister_student now morphed s (us_id user) False priority None False webapp db)
        (\<lambda>(registered, db'). if registered then Inr db' else Inl (OtherError ''ESPError''))) = Inr db'"
    unfolding addclass_logic_def Let_def rbind_Inr_iff by blast
  have "s \<in> set (filter (\<lambda>s. cl_id s = sectionid \<and> sj_id (sn_subject s) = classid) (rd_sections db))"
    using s by (cases "filter (\<lambda>s. cl_id s = sectionid \<and> sj_id (sn_subject s) = classid) (rd_sections db)")
      (simp_all add: find_section_def)
  then have "s \<in> set (rd_sections db)" "cl_id s = sectionid" by simp_all
  moreover have "error = None" using rest by (auto simp: Let_def split: if_splits)
  then have "section_error = None" if "\<not> use_priority (rd_settings db)"
    using error that by (auto simp: rbind_Inr_iff split: if_splits)
  moreover from rest obtain priority where
    "preregister_student now morphed s (us_id user) False priority None False webapp db = Inr (True, db')"
    unfolding Let_def by (auto simp: rbind_Inr_iff split: if_splits)
  ultimately show thesis using that add by blast
qed

lemma addclass_good:
  assumes good: "good_db t db" and time: "t \<le> now"
    and result: "addclass_logic now morphed user False classid sectionid webapp db = Inr db'"
  shows "good_db now db'"
    and "within_capacity db \<Longrightarrow> \<not> webapp \<Longrightarrow> within_capacity db'"
proof -
  obtain s priority where s: "s \<in> set (rd_sections db)" "cl_id s = sectionid"
    and add: "\<not> use_priority (rd_settings db) \<Longrightarrow>
      section_cannotAdd db now s (us_id user) (enforce_max (rd_settings db)) True False webapp = Inr None"
    and pre: "preregister_student now morphed s (us_id user) False priority None False webapp db = Inr (True, db')"
    using addclass_Inr [OF result] by metis
  have distinct: "distinct (map cl_id (rd_sections db))" and settled: "settled_rows t db"
    using good by (simp_all add: good_db_def)
  have free: "\<not> subject_eq (sn_subject s'') (sn_subject s') \<and> set (cl_timeslots s'') \<inter> set (cl_timeslots s') = {}"
    if "\<not> use_priority (rd_settings db)" "s' \<in> set (rd_sections db)" "s'' \<in> set (rd_sections db)"
      "cl_id s' = cl_id s" "holds_now db (us_id user) (cl_id s'') ''Enrolled''" for s' s''
  proof -
    have "s' = s" using that(2,4) s(1) distinct by (meson distinct_map inj_onD)
    moreover have "s'' \<in> set (getEnrolledSectionsFromProgram db now (us_id user))"
      using that settled_holds [OF settled time] by (simp add: getEnrolledSections_iff)
    ultimately show ?thesis using add [OF that(1)] unfolding cannotAdd_allows by simp
  qed
  show "good_db now db'" and "within_capacity db \<Longrightarrow> \<not> webapp \<Longrightarrow> within_capacity db'"
    using preregister_good [OF good time pre] free by simp_all
qed

lemma unpreregister_good:
  assumes "good_db t db" and "t \<le> now" and "now < later"
  shows "good_db later (unpreregister_student now later s user verbs db)"
    and "within_capacity db \<Longrightarrow> within_capacity (unpreregister_student now later s user verbs db)"
proof -
  define db1 where "db1 = end_registrations now later (cl_id s)
    (\<lambda>r. sr_user r = user \<and> (verbs = [] \<or> sr_relationship r \<in> set verbs)) db"
  have "rd_registrations (unpreregister_student now later s user verbs db) = rd_registrations db1"
    "rd_sections (unpreregister_student now later s user verbs db) = rd_sections db1"
    "rd_settings (unpreregister_student now later s user verbs db) = rd_settings db1"
    by (simp_all add: unpreregister_student_def Let_def db1_def)
  note frame = good_db_frame [OF this(1,2)] and settings = this(3)
  show "good_db later (unpreregister_student now later s user verbs db)"
    unfolding frame(1) db1_def by (rule end_good(1) [OF assms]) simp
  show "within_capacity db \<Longrightarrow> within_capacity (unpreregister_student now later s user verbs db)"
    unfolding frame(2) [OF settings] db1_def by (rule end_good(2) [OF assms]) simp_all
qed

lemma clearStudents_good:
  assumes "good_db t db" and "t \<le> now" and "now < later"
  shows "good_db later (clearStudents now later s db)"
    and "within_capacity db \<Longrightarrow> within_capacity (clearStudents now later s db)"
proof -
  define db1 where "db1 = end_registrations now later (cl_id s) (\<lambda>r. True) db"
  have "rd_registrations (clearStudents now later s db) = rd_registrations db1"
    "rd_sections (clearStudents now later s db) = rd_sections db1"
    "rd_settings (clearStudents now later s db) = rd_settings db1"
    by (simp_all add: clearStudents_def Let_def db1_def)
  note frame = good_db_frame [OF this(1,2)] and settings = this(3)
  show "good_db later (clearStudents now later s db)"
    unfolding frame(1) db1_def by (rule end_good(1) [OF assms]) simp
  show "within_capacity db \<Longrightarrow> within_capacity (clearStudents now later s db)"
    unfolding frame(2) [OF settings] db1_def by (rule end_good(2) [OF assms]) simp_all
qed

text \<open>The option not to enforce capacities has no effect: \<open>preregister_student\<close> refuses a full section anyway.\<close>

lemma addclass_full:
  assumes "distinct (map cl_id (rd_sections db))" and "s \<in> set (rd_sections db)" and "cl_id s = sectionid"
    and "section_full db now s False webapp"
  shows "addclass_logic now morphed user False classid sectionid webapp db \<noteq> Inr db'"
proof
  assume "addclass_logic now morphed user False classid sectionid webapp db = Inr db'"
  then obtain s' priority where s': "cl_id s' = sectionid"
    and pre: "preregister_student now morphed s' (us_id user) False priority None False webapp db = Inr (True, db')"
    by (rule addclass_Inr)
  have "locked db s' = Inr s" using assms(1-3) s' by (simp add: locked_Inr_iff)
  with pre assms(4) show False by (simp add: preregister_student_def)
qed

subsection \<open>Registration as a transition system\<close>

text \<open>
  A state is a database with the time of its last change. Students add classes (with or without the web
  application), replace conflicting ones, are removed from a section, and sections are emptied.
\<close>

inductive registration_step :: "bool \<Rightarrow> registration_state \<Rightarrow> registration_state \<Rightarrow> bool" for webapp where
  add_class: "registration_step webapp (t, db) (now, db')"
    if "t \<le> now" and "addclass_logic now morphed user False classid sectionid webapp db = Inr db'"
| remove_student: "registration_step webapp (t, db) (later, unpreregister_student now later s user verbs db)"
    if "t \<le> now" and "now < later"
| clear_section: "registration_step webapp (t, db) (later, clearStudents now later s db)"
    if "t \<le> now" and "now < later"

inductive_cases registration_stepE: "registration_step webapp (t, db) st"

abbreviation registration_steps :: "bool \<Rightarrow> registration_state \<Rightarrow> registration_state \<Rightarrow> bool" where
  "registration_steps webapp \<equiv> (registration_step webapp)\<^sup>*\<^sup>*"

lemma registration_step_good:
  assumes "registration_step webapp (t, db) (t', db')" and "good_db t db"
  shows "good_db t' db'" and "within_capacity db \<Longrightarrow> \<not> webapp \<Longrightarrow> within_capacity db'"
  using assms addclass_good unpreregister_good clearStudents_good
  by (auto elim!: registration_stepE)

lemma registration_steps_good:
  assumes "registration_steps webapp (t, db) (t', db')" and "good_db t db"
  shows "good_db t' db' \<and> (within_capacity db \<and> \<not> webapp \<longrightarrow> within_capacity db')"
  using assms(1)
proof (induction "(t', db')" arbitrary: t' db' rule: rtranclp_induct)
  case (step y)
  obtain t1 db1 where y: "y = (t1, db1)" by (cases y)
  from step.hyps(3) [OF y] step.hyps(2) show ?case
    unfolding y using registration_step_good by blast
qed (use assms(2) in simp)

text \<open>The handlers that make several changes are sequences of such steps.\<close>

lemma remove_conflict_step:
  assumes "remove_conflict tick user False verbs (t, db) conflict = Inr st" and "\<And>t. t < tick t"
  shows "registration_step webapp (t, db) st"
  using assms by (auto simp: rbind_Inr_iff split: if_splits intro: registration_step.intros)

lemma replacing_steps:
  assumes "addclass_replacing tick morphed user False verbs classid sectionid (t, db) = Inr (t', db')"
    and tick: "\<And>t. t < tick t"
  shows "registration_steps False (t, db) (t', db')"
proof -
  let ?step = "registration_step False"
  from assms(1) obtain st where add: "addclass_logic (fst st) morphed user False classid sectionid False (snd st) = Inr db'"
    and t': "t' = fst st"
    and removing: "(case filter (\<lambda>s. cl_id s = sectionid) (rd_sections db) of
              [] \<Rightarrow> Inr (t, db)
            | section # _ \<Rightarrow> rfold (remove_conflict tick (us_id user) False verbs) (t, db)
                (get_conflicts db t section (us_id user))) = Inr st"
    unfolding addclass_replacing_def rbind_Inr_iff fst_conv snd_conv by blast
  have removed: "st = (t, db) \<or> (\<exists>conflicts. rfold (remove_conflict tick (us_id user) False verbs) (t, db) conflicts = Inr st)"
    using removing by (cases "filter (\<lambda>s. cl_id s = sectionid) (rd_sections db)") (simp_all, blast)
  have "?step\<^sup>*\<^sup>* (t, db) st"
    using removed
  proof
    assume "\<exists>conflicts. rfold (remove_conflict tick (us_id user) False verbs) (t, db) conflicts = Inr st"
    then obtain conflicts where fold: "rfold (remove_conflict tick (us_id user) False verbs) (t, db) conflicts = Inr st" by blast
    then show ?thesis
    proof (rule rfold_invariant [where P = "\<lambda>st. ?step\<^sup>*\<^sup>* (t, db) st"])
      fix s c u assume reached: "?step\<^sup>*\<^sup>* (t, db) s" and "remove_conflict tick (us_id user) False verbs s c = Inr u"
      then have "?step s u" using remove_conflict_step [OF _ tick] by (cases s) simp
      with reached show "?step\<^sup>*\<^sup>* (t, db) u" by (rule rtranclp.rtrancl_into_rtrancl)
    qed simp
  qed simp
  moreover have "?step (fst st, snd st) (t', db')"
    unfolding t' by (rule registration_step.add_class [OF order_refl add])
  then have "?step st (t', db')" by simp
  ultimately show ?thesis by (rule rtranclp.rtrancl_into_rtrancl)
qed

lemma clear_sections_steps:
  assumes "clear_sections tick user has verbs st secs = Inr (result, st')" and tick: "\<And>t. t < tick t"
  shows "registration_steps False st st'"
  using assms(1)
proof (induction secs arbitrary: st)
  case (Cons sec secs)
  obtain now db where st: "st = (now, db)" by (cases st)
  let ?st = "(tick now, unpreregister_student now (tick now) sec user verbs db)"
  from Cons.prems have "st' = st \<or> clear_sections tick user has verbs ?st secs = Inr (result, st')"
    unfolding st by (auto simp: rbind_Inr_iff split: if_splits)
  moreover have "registration_step False st ?st"
    unfolding st by (rule registration_step.remove_student [OF order_refl tick])
  ultimately show ?case using Cons.IH by (metis converse_rtranclp_into_rtranclp rtranclp.rtrancl_refl)
qed simp

end
