(* ===== verification/Freed_Places.thy ===== *)
theory Freed_Places
  imports Class_Registration
begin

section \<open>A place that is given up can be taken\<close>

text \<open>
  Liveness of registration: after \<open>unpreregister_student\<close> has taken a student out of a section that is not
  overbooked, \<open>preregister_student\<close> of any other student succeeds (\<open>freed_place\<close>). The stored counts matter here:
  a section whose count was not refreshed would stay full.
\<close>

lemma unpreregistered_users:
  assumes "good_db t db" and "t \<le> now"
  shows "enrolled_users (unpreregister_student now later s user [] db) (cl_id s) = enrolled_users db (cl_id s) - {user}"
proof -
  define wanted :: "registration \<Rightarrow> bool" where "wanted = (\<lambda>r. sr_user r = user \<and> (([] :: string list) = [] \<or> sr_relationship r \<in> set []))"
  have rows: "rd_registrations (unpreregister_student now later s user [] db) = map (end_row now (cl_id s) wanted) (rd_registrations db)"
    by (simp add: unpreregister_student_def Let_def wanted_def)
  have settled: "settled_rows t db" using assms(1) by (simp add: good_db_def)
  have "holds_now (unpreregister_student now later s user [] db) u (cl_id s) v \<longleftrightarrow>
      holds_now (db\<lparr>rd_registrations := map (end_row now (cl_id s) wanted) (rd_registrations db)\<rparr>) u (cl_id s) v" for u v
    by (simp add: holds_now_def rows)
  then show ?thesis
    unfolding enrolled_users_def end_row_active [OF settled assms(2)] by (auto simp: holds_now_def wanted_def)
qed

lemma refreshed_from:
  assumes "s \<in> set (rd_sections db)"
  shows "\<exists>s'\<in>set (rd_sections (refresh_counts later i db)). same_section s' s"
proof -
  define s' where "s' = (if cl_id s = i
    then s\<lparr>enrolled_students := count_enrolled_students db later i, attending_students := count_attending_students db later i\<rparr>
    else s)"
  have "same_section s' s" by (simp add: s'_def)
  moreover have "s' \<in> set (rd_sections (refresh_counts later i db))"
    unfolding refresh_sections using assms s'_def by blast
  ultimately show ?thesis by blast
qed

lemma end_registrations_sections:
  assumes "s \<in> set (rd_sections db)"
  shows "\<exists>s'\<in>set (rd_sections (end_registrations now later i wanted db)). same_section s' s"
proof -
  let ?db = "db\<lparr>rd_registrations := map (end_row now i wanted) (rd_registrations db)\<rparr>"
  have "s \<in> set (rd_sections ?db)" using assms by simp
  note refreshed = refreshed_from [OF this, of later i]
  show ?thesis
  proof (cases "\<exists>r\<in>set (rd_registrations ?db). found now i wanted r")
    case True
    with refreshed show ?thesis by (simp add: end_registrations_def Let_def)
  next
    case False
    then have "rd_sections (end_registrations now later i wanted db) = rd_sections db"
      by (simp add: end_registrations_def Let_def)
    with assms show ?thesis using same_section_refl by metis
  qed
qed

lemma freed_section:
  assumes "s \<in> set (rd_sections db)"
  obtains s' where "s' \<in> set (rd_sections (unpreregister_student now later s user verbs db))" and "same_section s' s"
proof -
  have "rd_sections (unpreregister_student now later s user verbs db) = rd_sections (end_registrations now later (cl_id s)
      (\<lambda>r. sr_user r = user \<and> (verbs = [] \<or> sr_relationship r \<in> set verbs)) db)"
    by (simp add: unpreregister_student_def Let_def)
  with end_registrations_sections [OF assms] that show thesis by metis
qed

lemma preregister_not_full:
  assumes distinct: "distinct (map cl_id (rd_sections db))" and s: "s' \<in> set (rd_sections db)" "cl_id s' = cl_id s"
    and room: "\<not> section_full db now s' False False" and enrol: "\<not> use_priority (rd_settings db)"
  shows "\<exists>db'. preregister_student now morphed s user False priority None False False db = Inr (True, db') \<and>
    user \<in> set (students db' now [''Enrolled''] (cl_id s))"
proof -
  have "locked db s = Inr s'" using locked_Inr_iff [OF distinct] s by simp
  moreover have "verb_of (rd_settings db) priority None = ''Enrolled''" using enrol by (simp add: verb_of_None)
  moreover have "holds_registration (new_registration user i verb now db) now user i verb" for i verb
    by (auto simp: holds_registration_def new_registration_def)
  moreover have "holds_registration (new_registration user i verb now db) now u j v" if "holds_registration db now u j v"
      for i u j verb v and db :: registration_db
    using that by (auto simp: holds_registration_def new_registration_def)
  ultimately show ?thesis
    using room s(2) by (auto simp: preregister_student_def Let_def students_iff holds_registration_frame [OF lists_frame(1)]
        holds_registration_frame [OF application_frame(1)])
qed

lemma freed_place_taken:
  assumes good: "good_db t db" and time: "t \<le> now" "now < later"
    and s: "s \<in> set (rd_sections db)" and meets: "cl_timeslots s \<noteq> []"
    and within: "int (card (enrolled_users db (cl_id s))) \<le> get_capacity (rd_settings db) s False"
    and enrolled: "user \<in> enrolled_users db (cl_id s)" and enrol: "\<not> use_priority (rd_settings db)"
  shows "\<exists>db'. preregister_student again morphed s other False priority None False False
      (unpreregister_student now later s user [] db) = Inr (True, db') \<and>
    other \<in> set (students db' again [''Enrolled''] (cl_id s))"
proof -
  let ?db = "unpreregister_student now later s user [] db"
  have good': "good_db later ?db" by (rule unpreregister_good(1) [OF good time])
  obtain s' where s': "s' \<in> set (rd_sections ?db)" "same_section s' s" using freed_section [OF s] .
  note same = same_sectionD [OF s'(2)]
  have settings: "rd_settings ?db = rd_settings db" by (simp add: unpreregister_student_def Let_def)
  have "card (enrolled_users ?db (cl_id s)) < card (enrolled_users db (cl_id s))"
    unfolding unpreregistered_users [OF good time(1)] using enrolled by (intro card_Diff1_less finite_enrolled)
  moreover have "enrolled_students s' = int (card (enrolled_users ?db (cl_id s)))"
    using good' s'(1) same(1) by (simp add: good_db_def counts_right_def)
  ultimately have "enrolled_students s' < get_capacity (rd_settings db) s False" using within by simp
  then have "\<not> section_full ?db again s' False False"
    using meets same by (simp add: section_full_def not_full_iff settings)
  then show ?thesis
    using preregister_not_full [of ?db s' s again] good' s'(1) same(1) enrol by (simp add: good_db_def settings)
qed

end
