(* ===== verification/Registration_Examples.thy ===== *)
theory Registration_Examples
  imports Freed_Places
begin

section \<open>A small program with registrations\<close>

text \<open>
  Two sections of one place each, at different times; student 1 is in the first one and student 2 in none.
  The instants of the examples are \<open>moment n\<close>, the minutes of a morning.
\<close>

definition moment :: "int \<Rightarrow> datetime" where
  "moment n = Datetime 2025 11 1 9 n 0 0"

lemma moment_less [simp]: "moment m < moment n \<longleftrightarrow> m < n" "moment m \<le> moment n \<longleftrightarrow> m \<le> n"
  by (auto simp: moment_def less_datetime_def less_eq_datetime_def dt_tuple_def)

definition ex_subject :: "int \<Rightarrow> string \<Rightarrow> subject_row" where
  "ex_subject i title = \<lparr>sj_id = i, sj_program = 1, sj_title = title, sj_start = None, sj_status = 10, sj_size_max = Some 20,
     sj_size_optimal = None, sj_range_max = [], sj_grade_min = 7, sj_grade_max = 12\<rparr>"

definition ex_section_row :: "int \<Rightarrow> int list \<Rightarrow> string \<Rightarrow> int \<Rightarrow> section_row" where
  "ex_section_row i slots title n = \<lparr>cl_id = i, cl_parent = i + 10, cl_title = title, cl_start = None, cl_category = 3,
     cl_timeslots = slots, sn_subject = ex_subject (i + 10) title, sn_status = 10, sn_registration_status = 0,
     sn_max_class_capacity = Some 1, sn_rooms = [], sn_assigned = True, enrolled_students = n, attending_students = 0\<rparr>"

definition ex_settings :: registration_settings where
  "ex_settings = \<lparr>enforce_max = True, class_cap_multiplier = 1, class_cap_offset = 0, apply_multiplier_to_room_cap = False,
     use_priority = False, priority_limit = 3, temporarily_full_text = ''full'', switch_time_tag = None, switch_lag_tag = None,
     program_size_max = None, size_by_grade_tag = None\<rparr>"

definition ex_user :: "int \<Rightarrow> user_row" where
  "ex_user i = \<lparr>us_id = i, us_grade = 9, us_student = True, us_override_full = False, us_grade_override = False\<rparr>"

definition ex_enrolment :: registration where
  "ex_enrolment = \<lparr>sr_user = 1, sr_section = 31, sr_relationship = ''Enrolled'', sr_start = Some (moment 0), sr_end = None\<rparr>"

definition ex_db :: registration_db where
  "ex_db = \<lparr>rd_timeslots = [1, 2], rd_sections = [ex_section_row 31 [1] ''Algebra'' 1, ex_section_row 32 [2] ''Botany'' 0],
     rd_registrations = [ex_enrolment], rd_interests = [], rd_users = [ex_user 1, ex_user 2], rd_constraints = [],
     rd_settings = ex_settings, rd_checked_in = [], rd_lists = [(Program_List, 1)], rd_questions = [], rd_applications = []\<rparr>"

lemma ex_holds_now: "holds_now ex_db u i v \<longleftrightarrow> u = 1 \<and> i = 31 \<and> v = ''Enrolled''"
  by (auto simp: holds_now_def ex_db_def ex_enrolment_def)

lemma ex_enrolled_users: "enrolled_users ex_db i = (if i = 31 then {1} else {})"
  by (auto simp: enrolled_users_def ex_holds_now)

lemma ex_db_good: "good_db (moment 5) ex_db"
proof -
  have "settled_rows (moment 5) ex_db" by (simp add: settled_rows_def ex_db_def ex_enrolment_def)
  moreover have "clash_free ex_db" by (auto simp: clash_free_def ex_holds_now)
  moreover have "counts_right ex_db"
    unfolding counts_right_def ex_enrolled_users by (simp add: ex_db_def ex_section_row_def)
  moreover have "distinct (map cl_id (rd_sections ex_db))" by (simp add: ex_db_def ex_section_row_def)
  ultimately show ?thesis by (simp add: good_db_def)
qed

lemma ex_section_capacity [simp]: "get_capacity ex_settings (ex_section_row i slots title n) ignore = 1"
  using truncate_int [of 1] by (simp add: get_capacity_def base_capacity_def ex_section_row_def ex_settings_def)

lemma ex_db_within: "within_capacity ex_db"
  unfolding within_capacity_def ex_enrolled_users by (simp add: ex_db_def)

text \<open>The first student is taken out, and the second one adds the class.\<close>

definition ex_freed :: registration_db where
  "ex_freed = unpreregister_student (moment 6) (moment 7) (ex_section_row 31 [1] ''Algebra'' 1) 1 [] ex_db"

lemma ex_added: "\<exists>db'. addclass_logic (moment 8) False (ex_user 2) False 41 31 False ex_freed = Inr db'"
proof -
  have "case addclass_logic (moment 8) False (ex_user 2) False 41 31 False ex_freed of Inr db' \<Rightarrow> True | Inl e \<Rightarrow> False"
    by code_simp
  then show ?thesis by (auto split: sum.splits)
qed

lemma ex_registration_steps:
  obtains db' where "registration_steps False (moment 5, ex_db) (moment 8, db')"
    and "addclass_logic (moment 8) False (ex_user 2) False 41 31 False ex_freed = Inr db'"
proof -
  obtain db' where db': "addclass_logic (moment 8) False (ex_user 2) False 41 31 False ex_freed = Inr db'"
    using ex_added by blast
  have "registration_step False (moment 5, ex_db) (moment 7, ex_freed)"
    unfolding ex_freed_def by (rule registration_step.remove_student) simp_all
  moreover have "registration_step False (moment 7, ex_freed) (moment 8, db')"
    by (rule registration_step.add_class [OF _ db']) simp
  ultimately have "registration_steps False (moment 5, ex_db) (moment 8, db')"
    by (meson converse_rtranclp_into_rtranclp rtranclp.rtrancl_refl)
  then show thesis by (rule that) (rule db')
qed

end
