(* ===== verification/Lottery.thy ===== *)
theory Lottery
  imports Prelude "HOL-Library.Multiset" Complex_Main
begin

section \<open>The class lottery (program/controllers/lottery.py)\<close>

text \<open>
  \<open>LotteryAssignmentController\<close> after \<open>initialize\<close>: students, sections and timeslots are indices, the
  preferences and schedules are matrices, here functions on indices of which only those below the
  dimensions are read. The state is what \<open>clear_assignments\<close> resets. Weights and utilities are exact
  rationals.

  The random draws of numpy are a parameter, a \<open>random_source\<close>; each of its functions is given the number
  of draws made so far, so that equal arguments may give different results. \<open>argsort\<close> is one of them,
  because its order of ties is not specified. \<open>random_laws\<close> states what the documentation promises: what is
  drawn, not with what probability.
\<close>

subsection \<open>Data\<close>

type_synonym matrix = "nat \<Rightarrow> nat \<Rightarrow> bool"

record lottery_options =
  Kp :: rat
  Ki :: rat
  check_grade :: bool
  use_student_apps :: bool
  max_timeslots :: int
  max_sections :: int
  assign_lunches_option :: bool

record lottery =
  num_students :: nat
  num_sections :: nat
  num_timeslots :: nat
  lt_options :: lottery_options
  lt_program_size_max :: int
  priority :: "nat \<Rightarrow> matrix"
  lt_interest :: matrix
  ranks :: "nat \<Rightarrow> nat \<Rightarrow> int"
  effective_priority_limit :: nat
  grade_range_exceptions :: bool
  section_schedules :: matrix
  section_capacities :: "nat \<Rightarrow> int"
  section_overlap :: matrix
  section_grade_min :: "nat \<Rightarrow> int"
  section_grade_max :: "nat \<Rightarrow> int"
  student_grades :: "nat \<Rightarrow> int"
  lunch_schedule :: "nat \<Rightarrow> bool"
  lunch_timeslot_indices :: "nat list list"
  lunch_sections_by_timeslot :: "(nat, nat list) dict"
  section_ids :: "nat \<Rightarrow> int"

record lottery_state =
  student_schedules :: matrix
  student_enrollments :: "nat \<Rightarrow> nat \<Rightarrow> int"
  student_sections :: matrix
  student_weights :: "nat \<Rightarrow> rat"
  student_utilities :: "nat \<Rightarrow> rat"
  draws :: nat

datatype ratio = Finite rat | Infinite | Not_A_Number

record random_source =
  rs_weighted :: "nat \<Rightarrow> nat list \<Rightarrow> nat \<Rightarrow> (nat \<Rightarrow> rat) \<Rightarrow> nat list"
  rs_sample :: "nat \<Rightarrow> nat list \<Rightarrow> nat \<Rightarrow> nat list"
  rs_pick :: "nat \<Rightarrow> nat list \<Rightarrow> nat"
  rs_shuffle :: "nat \<Rightarrow> nat list \<Rightarrow> nat list"
  rs_argsort :: "(nat \<Rightarrow> ratio) \<Rightarrow> nat list \<Rightarrow> nat list"

definition random_laws :: "random_source \<Rightarrow> bool" where
  "random_laws rnd \<longleftrightarrow>
     (\<forall>n xs k w. distinct xs \<longrightarrow> k \<le> length (filter (\<lambda>x. w x > 0) xs) \<longrightarrow>
        length (rs_weighted rnd n xs k w) = k \<and> distinct (rs_weighted rnd n xs k w) \<and>
        set (rs_weighted rnd n xs k w) \<subseteq> {x \<in> set xs. w x > 0}) \<and>
     (\<forall>n xs k. distinct xs \<longrightarrow> k \<le> length xs \<longrightarrow>
        length (rs_sample rnd n xs k) = k \<and> distinct (rs_sample rnd n xs k) \<and> set (rs_sample rnd n xs k) \<subseteq> set xs) \<and>
     (\<forall>n xs. xs \<noteq> [] \<longrightarrow> rs_pick rnd n xs \<in> set xs) \<and>
     (\<forall>n xs. mset (rs_shuffle rnd n xs) = mset xs) \<and>
     (\<forall>f xs. mset (rs_argsort rnd f xs) = mset xs)"

text \<open>\<open>numpy.nonzero\<close> and \<open>numpy.sum\<close> of a row of booleans.\<close>

definition nonzero :: "nat \<Rightarrow> (nat \<Rightarrow> bool) \<Rightarrow> nat list" where
  "nonzero n p = filter p [0..<n]"

definition total :: "nat \<Rightarrow> (nat \<Rightarrow> bool) \<Rightarrow> int" where
  "total n p = int (length (nonzero n p))"

definition clear_assignments :: "nat \<Rightarrow> lottery_state" where
  "clear_assignments n = \<lparr>student_schedules = (\<lambda>i t. False), student_enrollments = (\<lambda>i t. 0),
     student_sections = (\<lambda>i s. False), student_weights = (\<lambda>i. 1), student_utilities = (\<lambda>i. 0), draws = n\<rparr>"

subsection \<open>Filling a section\<close>

definition enrolled_in :: "lottery \<Rightarrow> lottery_state \<Rightarrow> nat \<Rightarrow> int" where
  "enrolled_in L st si = total (num_students L) (\<lambda>i. student_sections st i si)"

definition attending :: "lottery \<Rightarrow> lottery_state \<Rightarrow> int" where
  "attending L st = total (num_students L) (\<lambda>i. total (num_timeslots L) (student_schedules st i) > 0)"

definition timeslots_of :: "lottery \<Rightarrow> nat \<Rightarrow> nat list" where
  "timeslots_of L si = nonzero (num_timeslots L) (section_schedules L si)"

text \<open>\<open>None\<close>: the program or the section is already full.\<close>

definition num_spaces :: "lottery \<Rightarrow> lottery_state \<Rightarrow> nat \<Rightarrow> int option" where
  "num_spaces L st si =
     (let spaces = section_capacities L si - enrolled_in L st si;
          remaining = lt_program_size_max L - attending L st in
      if lt_program_size_max L \<noteq> 0 \<and> remaining = 0 then None
      else let spaces = (if lt_program_size_max L \<noteq> 0 then min spaces remaining else spaces)
           in if spaces = 0 then None else Some spaces)"

definition covers_lunch :: "lottery \<Rightarrow> nat \<Rightarrow> bool" where
  "covers_lunch L si \<longleftrightarrow> (\<exists>day\<in>set (lunch_timeslot_indices L). length day \<noteq> 0 \<and>
     length (filter (\<lambda>t. lunch_schedule L t \<and> section_schedules L si t) day) \<ge> length day)"

text \<open>\<open>level = 0\<close> stands for \<open>priority=False\<close>.\<close>

definition possible_student :: "lottery \<Rightarrow> lottery_state \<Rightarrow> nat \<Rightarrow> nat \<Rightarrow> int \<Rightarrow> nat \<Rightarrow> bool" where
  "possible_student L st si level rank i \<longleftrightarrow>
     (if level \<noteq> 0 then priority L level i si else lt_interest L i si) \<and>
     (check_grade (lt_options L) \<and> \<not> (level = effective_priority_limit L \<and> grade_range_exceptions L) \<longrightarrow>
        section_grade_min L si \<le> student_grades L i \<and> student_grades L i \<le> section_grade_max L si) \<and>
     (use_student_apps (lt_options L) \<longrightarrow> ranks L i si = rank) \<and>
     (max_sections (lt_options L) \<noteq> 0 \<longrightarrow> total (num_sections L) (student_sections st i) < max_sections (lt_options L)) \<and>
     (max_timeslots (lt_options L) \<noteq> 0 \<longrightarrow> total (num_timeslots L) (student_schedules st i) < max_timeslots (lt_options L)) \<and>
     (\<forall>t\<in>set (timeslots_of L si). \<not> student_schedules st i t) \<and>
     (\<forall>sec\<in>set (nonzero (num_sections L) (\<lambda>sec. section_overlap L sec si)). \<not> student_sections st i sec) \<and>
     (\<forall>t\<in>set (timeslots_of L si). \<forall>day\<in>set (lunch_timeslot_indices L). t \<in> set day \<longrightarrow>
        (\<forall>t'\<in>set day. t' \<noteq> t \<longrightarrow> \<not> student_schedules st i t'))"

text \<open>Who gets a place: everybody, a weighted draw, or all with a positive weight and a draw among the rest.\<close>

definition select_students :: "random_source \<Rightarrow> lottery_state \<Rightarrow> nat list \<Rightarrow> nat \<Rightarrow> nat list" where
  "select_students rnd st candidates spaces =
     (if length candidates \<le> spaces then candidates
      else
        let positive = filter (\<lambda>i. student_weights st i > 0) candidates in
        if length positive \<ge> spaces then
          let weights_sum = sum_list (map (student_weights st) candidates)
          in rs_weighted rnd (draws st) candidates spaces (\<lambda>i. student_weights st i / weights_sum)
        else positive @ rs_sample rnd (draws st) (filter (\<lambda>i. \<not> student_weights st i > 0) candidates) (spaces - length positive))"

definition take_timeslot :: "lottery \<Rightarrow> nat \<Rightarrow> nat \<Rightarrow> nat list \<Rightarrow> lottery_state \<Rightarrow> nat \<Rightarrow> lottery_state result" where
  "take_timeslot L si level selected st t =
     rbind (raise_if (\<exists>i\<in>set selected. student_schedules st i t) (AssertionError [])) (\<lambda>_.
     Inr (st\<lparr>student_schedules := (\<lambda>i t'. i \<in> set selected \<and> t' = t \<or> student_schedules st i t'),
         student_enrollments := (\<lambda>i t'. if i \<in> set selected \<and> t' = t then section_ids L si else student_enrollments st i t'),
         student_utilities := (\<lambda>i. if i \<in> set selected then student_utilities st i + (if level \<noteq> 0 then 3 / 2 else 1)
            else student_utilities st i)\<rparr>))"

definition fill_section ::
  "lottery \<Rightarrow> random_source \<Rightarrow> nat \<Rightarrow> int \<Rightarrow> lottery_state \<Rightarrow> nat \<Rightarrow> (bool \<times> lottery_state) result" where
  "fill_section L rnd level rank st si =
     (case num_spaces L st si of
        None \<Rightarrow> Inr (True, st)
      | Some spaces \<Rightarrow>
          rbind (raise_if (\<not> spaces > 0) (AssertionError [])) (\<lambda>_.
          if timeslots_of L si = [] then Inr (False, st)
          else if covers_lunch L si then Inr (False, st)
          else
            let candidates = nonzero (num_students L) (possible_student L st si level rank);
                selected = select_students rnd st candidates (nat spaces);
                weight_factor = (if level \<noteq> 0 then Kp (lt_options L) else Ki (lt_options L)) in
            rbind (raise_if (\<exists>i\<in>set selected. student_sections st i si) (AssertionError [])) (\<lambda>_.
            rbind (rfold (take_timeslot L si level selected)
              (st\<lparr>student_sections := (\<lambda>i s. i \<in> set selected \<and> s = si \<or> student_sections st i s)\<rparr>)
              (timeslots_of L si)) (\<lambda>st'.
            Inr (length candidates > nat spaces,
              st'\<lparr>student_weights := (\<lambda>i. if i \<in> set selected then student_weights st' i / weight_factor else student_weights st' i),
                  draws := draws st' + 1\<rparr>)))))"

subsection \<open>Assigning lunches\<close>

type_synonym lunch_state = "lottery_state \<times> (nat \<Rightarrow> int)"

definition lunch_sections_at :: "lottery \<Rightarrow> nat \<Rightarrow> nat list" where
  "lunch_sections_at L t = (case map_of (lunch_sections_by_timeslot L) t of None \<Rightarrow> [] | Some secs \<Rightarrow> secs)"

definition period_size :: "lottery \<Rightarrow> (nat \<Rightarrow> int) \<Rightarrow> nat \<Rightarrow> int" where
  "period_size L enrollments t = sum_list (map enrollments (lunch_sections_at L t))"

definition lunch_options :: "lottery \<Rightarrow> nat list \<Rightarrow> lunch_state \<Rightarrow> nat \<Rightarrow> (nat \<times> nat list) list" where
  "lunch_options L day ls i =
     filter (\<lambda>(t, secs). secs \<noteq> [])
       (map (\<lambda>t. (t, filter (\<lambda>sec. snd ls sec < section_capacities L sec) (lunch_sections_at L t)))
         (filter (\<lambda>t. \<not> student_schedules (fst ls) i t) day))"

definition smallest :: "int list \<Rightarrow> int" where
  "smallest xs = foldr min xs (hd xs)"

definition enrol_in_lunch :: "lottery \<Rightarrow> nat \<Rightarrow> nat \<Rightarrow> lunch_state \<Rightarrow> lunch_state" where
  "enrol_in_lunch L i sec ls =
     (let (st, enrollments) = ls in
      (st\<lparr>student_sections := (\<lambda>i' s. i' = i \<and> s = sec \<or> student_sections st i' s),
          student_schedules := (\<lambda>i' t. i' = i \<and> t \<in> set (timeslots_of L sec) \<or> student_schedules st i' t),
          student_enrollments := (\<lambda>i' t. if i' = i \<and> t \<in> set (timeslots_of L sec) then section_ids L sec
             else student_enrollments st i' t),
          draws := draws st + 2\<rparr>,
       enrollments(sec := enrollments sec + 1)))"

definition give_lunch :: "lottery \<Rightarrow> random_source \<Rightarrow> nat list \<Rightarrow> lunch_state \<Rightarrow> nat \<Rightarrow> lunch_state" where
  "give_lunch L rnd day ls i =
     (let st = fst ls; enrollments = snd ls in
      if \<exists>t\<in>set day. \<exists>sec\<in>set (lunch_sections_at L t). student_sections st i sec then ls
      else
        let options = lunch_options L day ls i in
        if options = [] then ls
        else
          let min_period_size = smallest (map (period_size L enrollments \<circ> fst) options);
              choice = rs_pick rnd (draws st)
                (filter (\<lambda>k. period_size L enrollments (fst (options ! k)) = min_period_size) [0..<length options]);
              open_sections = snd (options ! choice);
              min_enrollment = smallest (map enrollments open_sections);
              sec = rs_pick rnd (draws st + 1) (filter (\<lambda>sec. enrollments sec = min_enrollment) open_sections)
          in enrol_in_lunch L i sec ls)"

definition lunch_day :: "lottery \<Rightarrow> random_source \<Rightarrow> nat list \<Rightarrow> lunch_state \<Rightarrow> nat list \<Rightarrow> lunch_state" where
  "lunch_day L rnd attendees ls day_lunch_indices =
     (let day = filter (\<lambda>t. dict_has (lunch_sections_by_timeslot L) t) day_lunch_indices in
      if day = [] then ls
      else
        let st = fst ls;
            student_order = sort_key (\<lambda>i. length (filter (\<lambda>t. \<not> student_schedules st i t) day))
              (rs_shuffle rnd (draws st) attendees)
        in foldl (give_lunch L rnd day) (st\<lparr>draws := draws st + 1\<rparr>, snd ls) student_order)"

definition assign_lunches :: "lottery \<Rightarrow> random_source \<Rightarrow> lottery_state \<Rightarrow> lottery_state" where
  "assign_lunches L rnd st =
     (if lunch_sections_by_timeslot L = [] then st
      else
        let attendees = nonzero (num_students L) (\<lambda>i. total (num_sections L) (student_sections st i) > 0)
        in fst (foldl (lunch_day L rnd attendees) (st, enrolled_in L st) (lunch_timeslot_indices L)))"

subsection \<open>The whole lottery\<close>

definition check_assignments :: "lottery \<Rightarrow> lottery_state \<Rightarrow> unit result" where
  "check_assignments L st =
     rbind (raise_if (\<exists>si\<in>set [0..<num_sections L]. enrolled_in L st si > section_capacities L si) (AssertionError [])) (\<lambda>_.
     rbind (rforeach (\<lambda>day. if length day = 0 then Inr () else
         raise_if (\<exists>i\<in>set [0..<num_students L].
           length (filter (\<lambda>t. student_schedules st i t \<and>
              \<not> (\<exists>sec\<in>set (lunch_sections_at L t). student_sections st i sec)) day) > length day - 1) (AssertionError []))
       (lunch_timeslot_indices L)) (\<lambda>_.
     rforeach (\<lambda>i. raise_if (\<exists>t\<in>set [0..<num_timeslots L].
         of_bool (student_schedules st i t) \<noteq>
         total (num_sections L) (\<lambda>si. student_sections st i si \<and> section_schedules L si t)) (AssertionError []))
       [0..<num_students L]))"

definition fill_in_order :: "lottery \<Rightarrow> random_source \<Rightarrow> nat \<Rightarrow> int \<Rightarrow> lottery_state \<Rightarrow> nat list \<Rightarrow> lottery_state result" where
  "fill_in_order L rnd level rank st sections =
     rfold (\<lambda>st si. rbind (fill_section L rnd level rank st si) (\<lambda>(filled, st'). Inr st')) st sections"

definition fill_length :: "lottery \<Rightarrow> random_source \<Rightarrow> nat \<Rightarrow> int \<Rightarrow> lottery_state \<Rightarrow> nat \<Rightarrow> lottery_state result" where
  "fill_length L rnd level rank st len =
     fill_in_order L rnd level rank (st\<lparr>draws := draws st + 1\<rparr>)
       (rs_shuffle rnd (draws st) (nonzero (num_sections L) (\<lambda>si. length (timeslots_of L si) = len)))"

definition fill_priority :: "lottery \<Rightarrow> random_source \<Rightarrow> int \<Rightarrow> lottery_state \<Rightarrow> nat \<Rightarrow> lottery_state result" where
  "fill_priority L rnd rank st level =
     rfold (fill_length L rnd level rank) st (rev [1..<num_timeslots L + 1])"

definition demand :: "lottery \<Rightarrow> nat \<Rightarrow> ratio" where
  "demand L si =
     (let interested = total (num_students L) (\<lambda>i. lt_interest L i si) in
      if section_capacities L si = 0 then (if interested = 0 then Not_A_Number else Infinite)
      else Finite (of_int interested / of_int (section_capacities L si)))"

definition fill_rank :: "lottery \<Rightarrow> random_source \<Rightarrow> lottery_state \<Rightarrow> int \<Rightarrow> lottery_state result" where
  "fill_rank L rnd st rank =
     rbind (rfold (fill_priority L rnd rank) st [1..<effective_priority_limit L + 1]) (\<lambda>st'.
     fill_in_order L rnd 0 rank st' (rs_argsort rnd (demand L) [0..<num_sections L]))"

definition lottery_compute_assignments :: "lottery \<Rightarrow> random_source \<Rightarrow> nat \<Rightarrow> bool \<Rightarrow> lottery_state result" where
  "lottery_compute_assignments L rnd n check_result =
     rbind (rfold (fill_rank L rnd) (clear_assignments n) (if use_student_apps (lt_options L) then [10, 5] else [10])) (\<lambda>st.
     let st' = (if assign_lunches_option (lt_options L) then assign_lunches L rnd st else st) in
     rbind (if check_result then check_assignments L st' else Inr ()) (\<lambda>_. Inr st'))"

end
