(* ===== verification/Lottery_Correct.thy ===== *)
theory Lottery_Correct
  imports Lottery
begin

section \<open>The lottery keeps its promises\<close>

text \<open>
  \<open>fill_inv\<close> is what holds after every section that is filled: no section and no program is
  overfull, the schedules are those of the assigned sections, which never overlap, and every student keeps a
  lunch period free on every day. \<open>lunch_inv\<close> is the same for the second phase, in which a lunch
  section may take the free period. \<open>wf_lottery\<close> collects what \<open>initialize\<close> establishes.

  \<open>lottery_succeeds\<close>: no assertion of the lottery fails, the checks of \<open>check_assignments\<close> included.
\<close>

subsection \<open>Counting\<close>

lemma nonzero_set [simp]: "set (nonzero n p) = {i. i < n \<and> p i}"
  by (auto simp: nonzero_def)

lemma nonzero_distinct [simp]: "distinct (nonzero n p)"
  by (simp add: nonzero_def)

lemma total_card: "total n p = int (card {i. i < n \<and> p i})"
  by (metis total_def distinct_card nonzero_distinct nonzero_set)

lemma total_nonneg [simp]: "0 \<le> total n p"
  by (simp add: total_def)

lemma total_pos_iff: "total n p > 0 \<longleftrightarrow> (\<exists>i<n. p i)"
proof -
  have "total n p > 0 \<longleftrightarrow> {i. i < n \<and> p i} \<noteq> {}"
    by (simp add: total_card card_gt_0_iff)
  then show ?thesis by auto
qed

lemma total_cong: "(\<And>i. i < n \<Longrightarrow> p i = q i) \<Longrightarrow> total n p = total n q"
  by (simp add: total_card) (metis (mono_tags, lifting) Collect_cong)

lemma total_or_le: "total n (\<lambda>i. i \<in> set xs \<or> p i) \<le> total n p + int (length xs)"
proof -
  have "card {i. i < n \<and> (i \<in> set xs \<or> p i)} \<le> card ({i. i < n \<and> p i} \<union> set xs)"
    by (rule card_mono) auto
  also have "\<dots> \<le> card {i. i < n \<and> p i} + card (set xs)" by (rule card_Un_le)
  also have "card (set xs) \<le> length xs" by (rule card_length)
  finally show ?thesis by (simp add: total_card)
qed

lemma total_mono: "(\<And>i. i < n \<Longrightarrow> p i \<Longrightarrow> q i) \<Longrightarrow> total n p \<le> total n q"
  unfolding total_card by (simp add: card_mono Collect_mono_iff)

lemma total_insert: "j < n \<Longrightarrow> \<not> p j \<Longrightarrow> total n (\<lambda>i. i = j \<or> p i) = total n p + 1"
proof -
  assume "j < n" "\<not> p j"
  then have "{i. i < n \<and> (i = j \<or> p i)} = insert j {i. i < n \<and> p i}" "j \<notin> {i. i < n \<and> p i}" by auto
  then show ?thesis by (simp add: total_card)
qed

lemma timeslots_of_iff [simp]: "t \<in> set (timeslots_of L si) \<longleftrightarrow> t < num_timeslots L \<and> section_schedules L si t"
  by (simp add: timeslots_of_def)

lemma timeslots_of_distinct [simp]: "distinct (timeslots_of L si)"
  by (simp add: timeslots_of_def)

subsection \<open>Well-formed input and the invariant\<close>

definition wf_lottery :: "lottery \<Rightarrow> bool" where
  "wf_lottery L \<longleftrightarrow>
     (\<forall>si<num_sections L. 0 \<le> section_capacities L si \<and> section_overlap L si si) \<and>
     (\<forall>si sj. section_overlap L si sj = section_overlap L sj si) \<and>
     0 \<le> lt_program_size_max L \<and> 0 < Kp (lt_options L) \<and> 0 < Ki (lt_options L) \<and>
     (\<forall>day\<in>set (lunch_timeslot_indices L). \<forall>t\<in>set day. t < num_timeslots L \<and> lunch_schedule L t) \<and>
     (\<forall>t. \<forall>sec\<in>set (lunch_sections_at L t). sec < num_sections L \<and> timeslots_of L sec = [t])"

definition exact_schedules :: "lottery \<Rightarrow> lottery_state \<Rightarrow> bool" where
  "exact_schedules L st \<longleftrightarrow> (\<forall>i<num_students L. \<forall>t<num_timeslots L.
     of_bool (student_schedules st i t) = total (num_sections L) (\<lambda>si. student_sections st i si \<and> section_schedules L si t))"

definition not_overfull :: "lottery \<Rightarrow> lottery_state \<Rightarrow> bool" where
  "not_overfull L st \<longleftrightarrow>
     (\<forall>si<num_sections L. enrolled_in L st si \<le> section_capacities L si) \<and>
     (lt_program_size_max L \<noteq> 0 \<longrightarrow> attending L st \<le> lt_program_size_max L)"

definition lunch_free :: "lottery \<Rightarrow> lottery_state \<Rightarrow> bool" where
  "lunch_free L st \<longleftrightarrow> (\<forall>day\<in>set (lunch_timeslot_indices L). day \<noteq> [] \<longrightarrow> (\<forall>i<num_students L.
     length (filter (student_schedules st i) day) < length day))"

text \<open>A student is given what the student asked for, within the grade limits of the section.\<close>

definition wished :: "lottery \<Rightarrow> nat \<Rightarrow> nat \<Rightarrow> bool" where
  "wished L i si \<longleftrightarrow>
     (lt_interest L i si \<or> (\<exists>level. 1 \<le> level \<and> level \<le> effective_priority_limit L \<and> priority L level i si)) \<and>
     (check_grade (lt_options L) \<and> \<not> grade_range_exceptions L \<longrightarrow>
        section_grade_min L si \<le> student_grades L i \<and> student_grades L i \<le> section_grade_max L si)"

definition granted_wishes :: "lottery \<Rightarrow> lottery_state \<Rightarrow> bool" where
  "granted_wishes L st \<longleftrightarrow> (\<forall>i<num_students L. \<forall>si<num_sections L. student_sections st i si \<longrightarrow>
     wished L i si \<and> timeslots_of L si \<noteq> [])"

definition one_per_class :: "lottery \<Rightarrow> lottery_state \<Rightarrow> bool" where
  "one_per_class L st \<longleftrightarrow> (\<forall>i<num_students L. \<forall>si<num_sections L. \<forall>sj<num_sections L.
     student_sections st i si \<and> student_sections st i sj \<and> section_overlap L si sj \<longrightarrow> si = sj)"

definition within_max_sections :: "lottery \<Rightarrow> lottery_state \<Rightarrow> bool" where
  "within_max_sections L st \<longleftrightarrow> (max_sections (lt_options L) > 0 \<longrightarrow> (\<forall>i<num_students L.
     total (num_sections L) (student_sections st i) \<le> max_sections (lt_options L)))"

definition fill_inv :: "lottery \<Rightarrow> lottery_state \<Rightarrow> bool" where
  "fill_inv L st \<longleftrightarrow> (\<forall>i. student_weights st i > 0) \<and> exact_schedules L st \<and> not_overfull L st \<and> lunch_free L st \<and>
     granted_wishes L st \<and> one_per_class L st \<and> within_max_sections L st"

subsection \<open>Drawing students\<close>

lemma random_weighted:
  assumes "random_laws rnd" and "distinct xs" and "k \<le> length (filter (\<lambda>x. w x > 0) xs)"
  shows "length (rs_weighted rnd n xs k w) = k" and "distinct (rs_weighted rnd n xs k w)"
    and "set (rs_weighted rnd n xs k w) \<subseteq> {x \<in> set xs. w x > 0}"
  using assms by (simp_all add: random_laws_def)

lemma random_pick: "random_laws rnd \<Longrightarrow> xs \<noteq> [] \<Longrightarrow> rs_pick rnd n xs \<in> set xs"
  by (simp add: random_laws_def)

lemma random_orders:
  assumes "random_laws rnd"
  shows "mset (rs_shuffle rnd n xs) = mset xs" and "mset (rs_argsort rnd f xs) = mset xs"
  using assms by (simp_all add: random_laws_def)

lemma select_students_spec:
  assumes "random_laws rnd" and "distinct candidates" and "\<forall>i. student_weights st i > 0"
  shows "set (select_students rnd st candidates k) \<subseteq> set candidates"
    and "distinct (select_students rnd st candidates k)"
    and "length (select_students rnd st candidates k) \<le> k"
proof -
  let ?sel = "select_students rnd st candidates k"
  have "set ?sel \<subseteq> set candidates \<and> distinct ?sel \<and> length ?sel \<le> k"
  proof (cases "length candidates \<le> k")
    case True
    with assms(2) show ?thesis by (simp add: select_students_def)
  next
    case False
    let ?sum = "sum_list (map (student_weights st) candidates)"
    let ?w = "\<lambda>i. student_weights st i / ?sum"
    from False obtain c cs where c: "candidates = c # cs" by (cases candidates) auto
    have "0 \<le> sum_list (map (student_weights st) cs)"
      using assms(3) by (intro sum_list_nonneg) (auto intro: less_imp_le)
    then have sum: "?sum > 0" using assms(3) by (simp add: c add_pos_nonneg)
    have all: "filter (\<lambda>i. student_weights st i > 0) candidates = candidates"
      "filter (\<lambda>i. ?w i > 0) candidates = candidates"
      using assms(3) sum by simp_all
    have "?sel = rs_weighted rnd (draws st) candidates k ?w"
      using False all(1) by (simp add: select_students_def)
    moreover have "k \<le> length (filter (\<lambda>i. ?w i > 0) candidates)" using False all(2) by simp
    note random_weighted [OF assms(1,2) this, of "draws st"]
    ultimately show ?thesis by auto
  qed
  then show "set ?sel \<subseteq> set candidates" "distinct ?sel" "length ?sel \<le> k" by blast+
qed

subsection \<open>Filling one section\<close>

lemma take_timeslot_all:
  assumes "distinct ts" and "\<forall>i\<in>set selected. \<forall>t\<in>set ts. \<not> student_schedules st i t"
  obtains st' where "rfold (take_timeslot L si level selected) st ts = Inr st'"
    and "student_schedules st' = (\<lambda>i t. i \<in> set selected \<and> t \<in> set ts \<or> student_schedules st i t)"
    and "student_sections st' = student_sections st" and "student_weights st' = student_weights st"
proof -
  have "\<exists>st'. rfold (take_timeslot L si level selected) st ts = Inr st' \<and>
    student_schedules st' = (\<lambda>i t. i \<in> set selected \<and> t \<in> set ts \<or> student_schedules st i t) \<and>
    student_sections st' = student_sections st \<and> student_weights st' = student_weights st"
    using assms
  proof (induction ts arbitrary: st)
    case Nil
    then show ?case by simp
  next
    case (Cons t ts)
    let ?st = "st\<lparr>student_schedules := (\<lambda>i t'. i \<in> set selected \<and> t' = t \<or> student_schedules st i t'),
         student_enrollments := (\<lambda>i t'. if i \<in> set selected \<and> t' = t then section_ids L si else student_enrollments st i t'),
         student_utilities := (\<lambda>i. if i \<in> set selected then student_utilities st i + (if level \<noteq> 0 then 3 / 2 else 1)
            else student_utilities st i)\<rparr>"
    have step: "take_timeslot L si level selected st t = Inr ?st"
      using Cons.prems by (simp add: take_timeslot_def raise_if_def)
    have "\<forall>i\<in>set selected. \<forall>t'\<in>set ts. \<not> student_schedules ?st i t'"
      using Cons.prems by auto
    then obtain st' where st': "rfold (take_timeslot L si level selected) ?st ts = Inr st'"
      "student_schedules st' = (\<lambda>i t. i \<in> set selected \<and> t \<in> set ts \<or> student_schedules ?st i t)"
      "student_sections st' = student_sections ?st" "student_weights st' = student_weights ?st"
      using Cons.IH [of ?st] Cons.prems(1) by auto
    have "student_schedules st' = (\<lambda>i t'. i \<in> set selected \<and> t' \<in> set (t # ts) \<or> student_schedules st i t')"
      unfolding st'(2) by (auto simp: fun_eq_iff)
    with st' step show ?case by simp
  qed
  then show thesis using that by blast
qed

text \<open>The students \<open>selected\<close> get a place in the section \<open>si\<close>.\<close>

definition grants :: "lottery \<Rightarrow> nat \<Rightarrow> nat \<Rightarrow> int \<Rightarrow> nat list \<Rightarrow> lottery_state \<Rightarrow> lottery_state \<Rightarrow> bool" where
  "grants L si level rank selected st st' \<longleftrightarrow>
     (\<forall>i\<in>set selected. i < num_students L \<and> possible_student L st si level rank i) \<and>
     student_sections st' = (\<lambda>i s. i \<in> set selected \<and> s = si \<or> student_sections st i s) \<and>
     student_schedules st' = (\<lambda>i t. i \<in> set selected \<and> t \<in> set (timeslots_of L si) \<or> student_schedules st i t)"

lemma possibleD:
  assumes "possible_student L st si level rank i"
  shows "\<And>t. t < num_timeslots L \<Longrightarrow> section_schedules L si t \<Longrightarrow> \<not> student_schedules st i t"
    and "\<And>sec. sec < num_sections L \<Longrightarrow> section_overlap L sec si \<Longrightarrow> \<not> student_sections st i sec"
    and "\<And>t day t'. t < num_timeslots L \<Longrightarrow> section_schedules L si t \<Longrightarrow> day \<in> set (lunch_timeslot_indices L) \<Longrightarrow>
      t \<in> set day \<Longrightarrow> t' \<in> set day \<Longrightarrow> t' \<noteq> t \<Longrightarrow> \<not> student_schedules st i t'"
    and "max_sections (lt_options L) > 0 \<Longrightarrow> total (num_sections L) (student_sections st i) < max_sections (lt_options L)"
  using assms by (auto simp: possible_student_def)

lemma grants_exact:
  assumes "grants L si level rank selected st st'" and "exact_schedules L st" and "si < num_sections L" and "wf_lottery L"
  shows "exact_schedules L st'"
  unfolding exact_schedules_def
proof (intro allI impI)
  fix i t assume i: "i < num_students L" and t: "t < num_timeslots L"
  have old: "of_bool (student_schedules st i t) = total (num_sections L) (\<lambda>s. student_sections st i s \<and> section_schedules L s t)"
    using assms(2) i t by (simp add: exact_schedules_def)
  have overlap: "section_overlap L si si" using assms(3,4) by (simp add: wf_lottery_def)
  show "of_bool (student_schedules st' i t) = total (num_sections L) (\<lambda>s. student_sections st' i s \<and> section_schedules L s t)"
  proof (cases "i \<in> set selected \<and> section_schedules L si t")
    case False
    then have "total (num_sections L) (\<lambda>s. student_sections st' i s \<and> section_schedules L s t) =
        total (num_sections L) (\<lambda>s. student_sections st i s \<and> section_schedules L s t)"
      using assms(1) by (intro total_cong) (auto simp: grants_def)
    moreover have "student_schedules st' i t = student_schedules st i t" using False assms(1) by (auto simp: grants_def)
    ultimately show ?thesis using old by simp
  next
    case True
    then have possible: "possible_student L st si level rank i" using assms(1) by (simp add: grants_def)
    have "\<not> student_schedules st i t" using possibleD(1) [OF possible t] True by simp
    moreover have "\<not> student_sections st i si" using possibleD(2) [OF possible assms(3) overlap] .
    then have "total (num_sections L) (\<lambda>s. s = si \<or> student_sections st i s \<and> section_schedules L s t) =
        total (num_sections L) (\<lambda>s. student_sections st i s \<and> section_schedules L s t) + 1"
      by (intro total_insert) (use assms(3) in auto)
    moreover have "total (num_sections L) (\<lambda>s. student_sections st' i s \<and> section_schedules L s t) =
        total (num_sections L) (\<lambda>s. s = si \<or> student_sections st i s \<and> section_schedules L s t)"
      using assms(1) True by (intro total_cong) (auto simp: grants_def)
    moreover have "student_schedules st' i t" using assms(1) True t by (simp add: grants_def)
    ultimately show ?thesis using old by simp
  qed
qed

lemma grants_enrolled:
  assumes "grants L si level rank selected st st'"
  shows "enrolled_in L st' si \<le> enrolled_in L st si + int (length selected)"
    and "s \<noteq> si \<Longrightarrow> enrolled_in L st' s = enrolled_in L st s"
    and "attending L st' \<le> attending L st + int (length selected)"
proof -
  have "enrolled_in L st' si = total (num_students L) (\<lambda>i. i \<in> set selected \<or> student_sections st i si)"
    using assms unfolding enrolled_in_def by (intro total_cong) (auto simp: grants_def)
  then show "enrolled_in L st' si \<le> enrolled_in L st si + int (length selected)"
    using total_or_le by (simp add: enrolled_in_def)
  show "s \<noteq> si \<Longrightarrow> enrolled_in L st' s = enrolled_in L st s"
    using assms unfolding enrolled_in_def by (intro total_cong) (auto simp: grants_def)
  have "attending L st' \<le> total (num_students L) (\<lambda>i. i \<in> set selected \<or> total (num_timeslots L) (student_schedules st i) > 0)"
    unfolding attending_def using assms by (intro total_mono) (auto simp: grants_def total_pos_iff)
  then show "attending L st' \<le> attending L st + int (length selected)"
    using total_or_le [of "num_students L" selected] by (simp add: attending_def) (meson order_trans)
qed

lemma num_spaces_bound:
  assumes "num_spaces L st si = Some spaces"
  shows "enrolled_in L st si + spaces \<le> section_capacities L si"
    and "lt_program_size_max L \<noteq> 0 \<Longrightarrow> attending L st + spaces \<le> lt_program_size_max L"
  using assms by (auto simp: num_spaces_def Let_def split: if_splits)

lemma num_spaces_pos:
  assumes "num_spaces L st si = Some spaces" and "not_overfull L st" and "si < num_sections L"
  shows "0 < spaces"
  using assms by (auto simp: num_spaces_def not_overfull_def Let_def split: if_splits)

lemma grants_not_overfull:
  assumes "grants L si level rank selected st st'" and "not_overfull L st"
    and "num_spaces L st si = Some spaces" and "int (length selected) \<le> spaces"
  shows "not_overfull L st'"
  unfolding not_overfull_def
proof (intro conjI allI impI)
  fix s assume "s < num_sections L"
  then show "enrolled_in L st' s \<le> section_capacities L s"
    using grants_enrolled(1,2) [OF assms(1)] num_spaces_bound(1) [OF assms(3)] assms(2,4)
    by (cases "s = si") (auto simp: not_overfull_def)
next
  assume "lt_program_size_max L \<noteq> 0"
  then show "attending L st' \<le> lt_program_size_max L"
    using grants_enrolled(3) [OF assms(1)] num_spaces_bound(2) [OF assms(3)] assms(4) by simp
qed

lemma grants_lunch:
  assumes "grants L si level rank selected st st'" and "lunch_free L st" and "\<not> covers_lunch L si" and "wf_lottery L"
  shows "lunch_free L st'"
  unfolding lunch_free_def
proof (intro ballI impI allI)
  fix day i assume day: "day \<in> set (lunch_timeslot_indices L)" "day \<noteq> []" and i: "i < num_students L"
  show "length (filter (student_schedules st' i) day) < length day"
  proof (cases "i \<in> set selected \<and> (\<exists>t\<in>set day. section_schedules L si t)")
    case False
    then have "filter (student_schedules st' i) day = filter (student_schedules st i) day"
      using assms(1) by (intro filter_cong) (auto simp: grants_def)
    with assms(2) day i show ?thesis by (simp add: lunch_free_def)
  next
    case True
    then obtain t where t: "t \<in> set day" "section_schedules L si t" by blast
    have slots: "t < num_timeslots L \<and> lunch_schedule L t" if "t \<in> set day" for t
      using assms(4) day(1) that by (auto simp: wf_lottery_def)
    have possible: "possible_student L st si level rank i" using True assms(1) by (simp add: grants_def)
    have "\<not> student_schedules st i t'" if "t' \<in> set day" for t'
      using possibleD(1) [OF possible] possibleD(3) [OF possible _ t(2) day(1) t(1) that] slots t that by blast
    then have "filter (student_schedules st' i) day = filter (\<lambda>t. lunch_schedule L t \<and> section_schedules L si t) day"
      using assms(1) True slots by (intro filter_cong) (auto simp: grants_def)
    with assms(3) day show ?thesis by (auto simp: covers_lunch_def not_le)
  qed
qed

lemma possible_wished:
  assumes "possible_student L st si level rank i" and "level \<le> effective_priority_limit L"
  shows "wished L i si"
  using assms by (auto simp: possible_student_def wished_def split: if_splits)

lemma grants_wishes:
  assumes "grants L si level rank selected st st'" and "granted_wishes L st" and "timeslots_of L si \<noteq> []"
    and "level \<le> effective_priority_limit L"
  shows "granted_wishes L st'"
  using assms possible_wished unfolding granted_wishes_def grants_def by (metis (no_types, lifting))

lemma grants_one_per_class:
  assumes "grants L si level rank selected st st'" and "one_per_class L st" and "si < num_sections L"
    and wf: "wf_lottery L"
  shows "one_per_class L st'"
proof -
  have sym: "\<And>i j. section_overlap L i j = section_overlap L j i" using wf by (simp add: wf_lottery_def)
  show ?thesis
    using assms(1-3) sym possibleD(2) unfolding one_per_class_def grants_def by (metis (no_types, lifting))
qed

lemma grants_max_sections:
  assumes "grants L si level rank selected st st'" and "within_max_sections L st"
  shows "within_max_sections L st'"
  unfolding within_max_sections_def
proof (intro impI allI)
  fix i assume limit: "max_sections (lt_options L) > 0" and i: "i < num_students L"
  have old: "total (num_sections L) (student_sections st i) \<le> max_sections (lt_options L)"
    using assms(2) limit i by (simp add: within_max_sections_def)
  show "total (num_sections L) (student_sections st' i) \<le> max_sections (lt_options L)"
  proof (cases "i \<in> set selected")
    case True
    then have "total (num_sections L) (student_sections st i) < max_sections (lt_options L)"
      using assms(1) possibleD(4) limit by (auto simp: grants_def)
    moreover have "total (num_sections L) (student_sections st' i) \<le> total (num_sections L) (student_sections st i) + 1"
      using total_or_le [of "num_sections L" "[si]" "student_sections st i"] assms(1) True by (simp add: grants_def)
    ultimately show ?thesis by simp
  next
    case False
    then have "student_sections st' i = student_sections st i" using assms(1) by (simp add: grants_def fun_eq_iff)
    with old show ?thesis by simp
  qed
qed

lemma fill_section_inv:
  assumes inv: "fill_inv L st" and wf: "wf_lottery L" and rnd: "random_laws rnd" and si: "si < num_sections L"
    and level: "level \<le> effective_priority_limit L"
  obtains filled st' where "fill_section L rnd level rank st si = Inr (filled, st')" and "fill_inv L st'"
proof (cases "num_spaces L st si")
  case None
  then show thesis using that inv by (simp add: fill_section_def)
next
  case (Some spaces)
  have pos: "spaces > 0" using num_spaces_pos [OF Some _ si] inv by (simp add: fill_inv_def)
  show thesis
  proof (cases "timeslots_of L si = [] \<or> covers_lunch L si")
    case True
    then have "fill_section L rnd level rank st si = Inr (False, st)"
      using Some pos by (cases "timeslots_of L si = []") (simp_all add: fill_section_def)
    then show thesis using that inv by blast
  next
    case False
    define candidates where "candidates = nonzero (num_students L) (possible_student L st si level rank)"
    define selected where "selected = select_students rnd st candidates (nat spaces)"
    define weight_factor where "weight_factor = (if level \<noteq> 0 then Kp (lt_options L) else Ki (lt_options L))"
    have weights: "\<forall>i. student_weights st i > 0" using inv by (simp add: fill_inv_def)
    have sel: "set selected \<subseteq> set candidates" "length selected \<le> nat spaces"
      using select_students_spec [OF rnd _ weights, of candidates "nat spaces"]
      by (simp_all add: selected_def candidates_def)
    have possible: "i < num_students L \<and> possible_student L st si level rank i" if "i \<in> set selected" for i
      using sel(1) that by (auto simp: candidates_def)
    have overlap: "section_overlap L si si" using wf si by (simp add: wf_lottery_def)
    have fresh: "\<not> student_sections st i si" if "i \<in> set selected" for i
      using possibleD(2) [OF conjunct2 [OF possible [OF that]] si overlap] .
    let ?st = "st\<lparr>student_sections := (\<lambda>i s. i \<in> set selected \<and> s = si \<or> student_sections st i s)\<rparr>"
    have free: "\<forall>i\<in>set selected. \<forall>t\<in>set (timeslots_of L si). \<not> student_schedules ?st i t"
      using possible possibleD(1) by fastforce
    obtain st1 where st1: "rfold (take_timeslot L si level selected) ?st (timeslots_of L si) = Inr st1"
      "student_schedules st1 = (\<lambda>i t. i \<in> set selected \<and> t \<in> set (timeslots_of L si) \<or> student_schedules ?st i t)"
      "student_sections st1 = student_sections ?st" "student_weights st1 = student_weights ?st"
      using take_timeslot_all [OF timeslots_of_distinct free] .
    define st' where "st' = st1\<lparr>student_weights := (\<lambda>i. if i \<in> set selected then student_weights st1 i / weight_factor
        else student_weights st1 i), draws := draws st1 + 1\<rparr>"
    have "fill_section L rnd level rank st si = Inr (length candidates > nat spaces, st')"
      using Some pos False fresh st1(1) unfolding st'_def weight_factor_def
      by (simp add: fill_section_def Let_def candidates_def [symmetric] selected_def [symmetric]
          raise_if_def)
    moreover have "grants L si level rank selected st st'"
      using possible st1 by (auto simp: grants_def st'_def)
    then have "fill_inv L st'"
      unfolding fill_inv_def
    proof (intro conjI)
      show "\<forall>i. 0 < student_weights st' i"
        using weights wf st1(4) by (simp add: st'_def weight_factor_def wf_lottery_def)
    qed (use grants_exact grants_not_overfull grants_lunch grants_wishes grants_one_per_class grants_max_sections
         inv wf si False level Some sel(2) pos in \<open>auto simp: fill_inv_def\<close>)
    ultimately show thesis by (rule that)
  qed
qed

subsection \<open>Filling all sections\<close>

lemma rfold_total:
  assumes "P s" and "\<And>s x. x \<in> set xs \<Longrightarrow> P s \<Longrightarrow> \<exists>t. f s x = Inr t \<and> P t"
  shows "\<exists>t. rfold f s xs = Inr t \<and> P t"
  using assms
proof (induction xs arbitrary: s)
  case (Cons x xs)
  obtain t where "f s x = Inr t" "P t" using Cons.prems by (metis list.set_intros(1))
  with Cons show ?case by simp
qed simp

lemma fill_inv_draws [simp]: "fill_inv L (st\<lparr>draws := n\<rparr>) = fill_inv L st"
  by (simp add: fill_inv_def exact_schedules_def not_overfull_def lunch_free_def granted_wishes_def one_per_class_def
      within_max_sections_def enrolled_in_def attending_def)

lemma fill_in_order_inv:
  assumes "fill_inv L st" and "wf_lottery L" and "random_laws rnd" and "\<forall>si\<in>set sections. si < num_sections L"
    and "level \<le> effective_priority_limit L"
  shows "\<exists>st'. fill_in_order L rnd level rank st sections = Inr st' \<and> fill_inv L st'"
  unfolding fill_in_order_def
proof (rule rfold_total)
  fix s si assume "si \<in> set sections" and "fill_inv L s"
  then obtain filled t where "fill_section L rnd level rank s si = Inr (filled, t)" "fill_inv L t"
    using fill_section_inv assms(2-5) by metis
  then show "\<exists>t. rbind (fill_section L rnd level rank s si) (\<lambda>(filled, st'). Inr st') = Inr t \<and> fill_inv L t"
    by simp
qed (rule assms(1))

lemma fill_length_inv:
  assumes "fill_inv L st" and "wf_lottery L" and rnd: "random_laws rnd" and "level \<le> effective_priority_limit L"
  shows "\<exists>st'. fill_length L rnd level rank st len = Inr st' \<and> fill_inv L st'"
proof -
  have "set (rs_shuffle rnd n xs) = set xs" for n xs using random_orders(1) [OF rnd] by (metis set_mset_mset)
  then show ?thesis
    unfolding fill_length_def by (intro fill_in_order_inv) (use assms in simp_all)
qed

lemma fill_rank_inv:
  assumes inv: "fill_inv L st" and wf: "wf_lottery L" and rnd: "random_laws rnd"
  shows "\<exists>st'. fill_rank L rnd st rank = Inr st' \<and> fill_inv L st'"
proof -
  have "\<exists>st'. rfold (fill_priority L rnd rank) st [1..<effective_priority_limit L + 1] = Inr st' \<and> fill_inv L st'"
  proof (rule rfold_total [where P = "fill_inv L"])
    show "fill_inv L st" by (rule inv)
  next
    fix s level assume level: "level \<in> set [1..<effective_priority_limit L + 1]" and "fill_inv L s"
    then show "\<exists>t. fill_priority L rnd rank s level = Inr t \<and> fill_inv L t"
      unfolding fill_priority_def by (intro rfold_total) (use fill_length_inv wf rnd level in auto)
  qed
  then obtain st' where st': "rfold (fill_priority L rnd rank) st [1..<effective_priority_limit L + 1] = Inr st'" "fill_inv L st'"
    by blast
  have "set (rs_argsort rnd f xs) = set xs" for f xs using random_orders(2) [OF rnd] by (metis set_mset_mset)
  then show ?thesis
    unfolding fill_rank_def st' rbind_simps by (intro fill_in_order_inv) (use st'(2) wf rnd in simp_all)
qed

lemma clear_inv:
  assumes "wf_lottery L"
  shows "fill_inv L (clear_assignments n)"
  using assms
  by (auto simp: fill_inv_def clear_assignments_def exact_schedules_def not_overfull_def lunch_free_def granted_wishes_def
      one_per_class_def within_max_sections_def enrolled_in_def attending_def total_card wf_lottery_def)

subsection \<open>Lunch\<close>

text \<open>A lunch period is lost only to a class, not to lunch itself.\<close>

definition lunch_or_free :: "lottery \<Rightarrow> lottery_state \<Rightarrow> bool" where
  "lunch_or_free L st \<longleftrightarrow> (\<forall>day\<in>set (lunch_timeslot_indices L). day \<noteq> [] \<longrightarrow> (\<forall>i<num_students L.
     length (filter (\<lambda>t. student_schedules st i t \<and> \<not> (\<exists>sec\<in>set (lunch_sections_at L t). student_sections st i sec)) day)
       < length day))"

definition wish_or_lunch :: "lottery \<Rightarrow> lottery_state \<Rightarrow> bool" where
  "wish_or_lunch L st \<longleftrightarrow> (\<forall>i<num_students L. \<forall>si<num_sections L. student_sections st i si \<longrightarrow>
     timeslots_of L si \<noteq> [] \<and> (wished L i si \<or> (\<exists>t. si \<in> set (lunch_sections_at L t))))"

definition lunch_inv :: "lottery \<Rightarrow> lottery_state \<Rightarrow> bool" where
  "lunch_inv L st \<longleftrightarrow> exact_schedules L st \<and> not_overfull L st \<and> lunch_or_free L st \<and> wish_or_lunch L st"

lemma fill_lunch_inv: "fill_inv L st \<Longrightarrow> lunch_inv L st"
proof -
  assume inv: "fill_inv L st"
  have "lunch_or_free L st"
    unfolding lunch_or_free_def
  proof (intro ballI impI allI)
    fix day i assume day: "day \<in> set (lunch_timeslot_indices L)" "day \<noteq> []" and i: "i < num_students L"
    let ?p = "\<lambda>t. student_schedules st i t \<and> \<not> (\<exists>sec\<in>set (lunch_sections_at L t). student_sections st i sec)"
    have "length (filter ?p day) \<le> length (filter (student_schedules st i) day)"
      by (induction day) auto
    also have "\<dots> < length day" using inv day i by (simp add: fill_inv_def lunch_free_def)
    finally show "length (filter ?p day) < length day" .
  qed
  with inv show ?thesis by (auto simp: fill_inv_def lunch_inv_def granted_wishes_def wish_or_lunch_def)
qed

text \<open>A free student takes an open lunch section.\<close>

lemma enrol_fields:
  "student_sections (fst (enrol_in_lunch L i sec ls)) = (\<lambda>i' s. i' = i \<and> s = sec \<or> student_sections (fst ls) i' s)"
  "student_schedules (fst (enrol_in_lunch L i sec ls)) =
     (\<lambda>i' t. i' = i \<and> t \<in> set (timeslots_of L sec) \<or> student_schedules (fst ls) i' t)"
  "snd (enrol_in_lunch L i sec ls) = (snd ls)(sec := snd ls sec + 1)"
  by (simp_all add: enrol_in_lunch_def Let_def split: prod.split)

lemma enrol_lunch_inv:
  assumes wf: "wf_lottery L" and inv: "lunch_inv L (fst ls)" and i: "i < num_students L"
    and sec: "sec \<in> set (lunch_sections_at L t)" and free: "\<not> student_schedules (fst ls) i t"
    and t: "t < num_timeslots L" and room: "enrolled_in L (fst ls) sec < section_capacities L sec"
    and comes: "\<exists>t<num_timeslots L. student_schedules (fst ls) i t"
  shows "lunch_inv L (fst (enrol_in_lunch L i sec ls))"
    and "s < num_sections L \<Longrightarrow> enrolled_in L (fst (enrol_in_lunch L i sec ls)) s =
      (if s = sec then enrolled_in L (fst ls) s + 1 else enrolled_in L (fst ls) s)"
proof -
  define st where "st = fst ls"
  define st' where "st' = fst (enrol_in_lunch L i sec ls)"
  have times: "timeslots_of L sec = [t]" and range: "sec < num_sections L"
    using wf sec by (simp_all add: wf_lottery_def)
  have sections: "student_sections st' = (\<lambda>i' s. i' = i \<and> s = sec \<or> student_sections st i' s)"
    and schedules: "student_schedules st' = (\<lambda>i' t'. i' = i \<and> t' = t \<or> student_schedules st i' t')"
    by (simp_all add: st_def st'_def enrol_fields times)
  have at: "section_schedules L sec t' \<longleftrightarrow> t' = t" if "t' < num_timeslots L" for t'
    using times that by (metis empty_iff empty_set insert_iff list.simps(15) timeslots_of_iff)
  have exact: "exact_schedules L st" using inv by (simp add: lunch_inv_def st_def)
  have sum0: "total (num_sections L) (\<lambda>si. student_sections st i si \<and> section_schedules L si t) = 0"
  proof -
    have "of_bool (student_schedules st i t) = total (num_sections L) (\<lambda>si. student_sections st i si \<and> section_schedules L si t)"
      using exact i t unfolding exact_schedules_def by blast
    with free show ?thesis by (simp add: st_def)
  qed
  then have none: "\<not> (student_sections st i si \<and> section_schedules L si t)" if "si < num_sections L" for si
    using that total_pos_iff [of "num_sections L" "\<lambda>si. student_sections st i si \<and> section_schedules L si t"] by auto
  then have fresh: "\<not> student_sections st i sec" using range at [OF t] by blast
  have exact': "exact_schedules L st'"
    unfolding exact_schedules_def
  proof (intro allI impI)
    fix i' t' assume i': "i' < num_students L" and t': "t' < num_timeslots L"
    have old: "of_bool (student_schedules st i' t') =
        total (num_sections L) (\<lambda>si. student_sections st i' si \<and> section_schedules L si t')"
      using exact i' t' by (simp add: exact_schedules_def)
    show "of_bool (student_schedules st' i' t') =
        total (num_sections L) (\<lambda>si. student_sections st' i' si \<and> section_schedules L si t')"
    proof (cases "i' = i \<and> t' = t")
      case True
      have "total (num_sections L) (\<lambda>si. student_sections st' i si \<and> section_schedules L si t) =
          total (num_sections L) (\<lambda>si. si = sec \<or> student_sections st i si \<and> section_schedules L si t)"
        using at [OF t] by (intro total_cong) (auto simp: sections)
      also have "\<dots> = total (num_sections L) (\<lambda>si. student_sections st i si \<and> section_schedules L si t) + 1"
        using fresh by (intro total_insert [OF range]) simp
      finally show ?thesis using True sum0 by (simp add: schedules)
    next
      case False
      then have "total (num_sections L) (\<lambda>si. student_sections st' i' si \<and> section_schedules L si t') =
          total (num_sections L) (\<lambda>si. student_sections st i' si \<and> section_schedules L si t')"
        using at [OF t'] by (intro total_cong) (auto simp: sections)
      with old False show ?thesis by (auto simp: schedules)
    qed
  qed
  have enrolled: "enrolled_in L st' s = (if s = sec then enrolled_in L st s + 1 else enrolled_in L st s)" for s
  proof (cases "s = sec")
    case True
    have "enrolled_in L st' sec = total (num_students L) (\<lambda>i'. i' = i \<or> student_sections st i' sec)"
      unfolding enrolled_in_def by (intro total_cong) (simp add: sections)
    also have "\<dots> = enrolled_in L st sec + 1"
      unfolding enrolled_in_def using fresh by (intro total_insert [OF i]) simp
    finally show ?thesis using True by simp
  next
    case False
    then show ?thesis unfolding enrolled_in_def by (simp add: sections)
  qed
  have "attending L st' = attending L st"
    unfolding attending_def
    using comes t by (intro total_cong) (auto simp: schedules total_pos_iff st_def)
  then have overfull: "not_overfull L st'"
    using inv enrolled room by (simp add: lunch_inv_def not_overfull_def st_def)
  have lunch: "lunch_or_free L st'"
    unfolding lunch_or_free_def
  proof (intro ballI impI allI)
    fix day i' assume day: "day \<in> set (lunch_timeslot_indices L)" "day \<noteq> []" and i': "i' < num_students L"
    have "filter (\<lambda>t. student_schedules st' i' t \<and> \<not> (\<exists>sec\<in>set (lunch_sections_at L t). student_sections st' i' sec)) day =
          filter (\<lambda>t. student_schedules st i' t \<and> \<not> (\<exists>sec\<in>set (lunch_sections_at L t). student_sections st i' sec)) day"
    proof (rule filter_cong [OF refl])
      fix t' assume "t' \<in> set day"
      have only: "t' = t" if "sec \<in> set (lunch_sections_at L t')"
        using wf that times unfolding wf_lottery_def by (metis list.inject)
      show "(student_schedules st' i' t' \<and> \<not> (\<exists>sec\<in>set (lunch_sections_at L t'). student_sections st' i' sec)) =
            (student_schedules st i' t' \<and> \<not> (\<exists>sec\<in>set (lunch_sections_at L t'). student_sections st i' sec))"
        using only sec free by (auto simp: sections schedules st_def)
    qed
    with inv day i' show "length (filter (\<lambda>t. student_schedules st' i' t \<and>
        \<not> (\<exists>sec\<in>set (lunch_sections_at L t). student_sections st' i' sec)) day) < length day"
      by (simp add: lunch_inv_def lunch_or_free_def st_def)
  qed
  have "wish_or_lunch L st'"
    using inv sec times by (auto simp: lunch_inv_def wish_or_lunch_def sections st_def)
  with exact' overfull lunch show "lunch_inv L (fst (enrol_in_lunch L i sec ls))"
    by (simp add: lunch_inv_def st'_def)
  show "s < num_sections L \<Longrightarrow> enrolled_in L (fst (enrol_in_lunch L i sec ls)) s =
      (if s = sec then enrolled_in L (fst ls) s + 1 else enrolled_in L (fst ls) s)"
    using enrolled by (simp add: st_def st'_def)
qed

lemma smallest_in:
  assumes "xs \<noteq> []"
  shows "smallest xs \<in> set xs"
proof -
  have "foldr min ys a \<in> insert a (set ys)" for ys and a :: int
    by (induction ys) (auto simp: min_def)
  from this [of xs "hd xs"] assms show ?thesis by (auto simp: smallest_def)
qed

definition serving :: "lottery \<Rightarrow> nat list \<Rightarrow> lunch_state \<Rightarrow> bool" where
  "serving L attendees ls \<longleftrightarrow> lunch_inv L (fst ls) \<and>
     (\<forall>s<num_sections L. snd ls s = enrolled_in L (fst ls) s) \<and>
     (\<forall>i\<in>set attendees. i < num_students L \<and> (\<exists>t<num_timeslots L. student_schedules (fst ls) i t))"

lemma serving_draws: "serving L attendees (st\<lparr>draws := n\<rparr>, e) = serving L attendees (st, e)"
  by (simp add: serving_def lunch_inv_def exact_schedules_def not_overfull_def lunch_or_free_def wish_or_lunch_def
      enrolled_in_def attending_def)

lemma give_lunch_serving:
  assumes wf: "wf_lottery L" and rnd: "random_laws rnd" and serving: "serving L attendees ls"
    and i: "i \<in> set attendees" and day: "\<forall>t\<in>set day. t < num_timeslots L"
  shows "serving L attendees (give_lunch L rnd day ls i)"
proof -
  define options where "options = lunch_options L day ls i"
  show ?thesis
  proof (cases "(\<exists>t\<in>set day. \<exists>sec\<in>set (lunch_sections_at L t). student_sections (fst ls) i sec) \<or> options = []")
    case True
    then have "give_lunch L rnd day ls i = ls" by (auto simp: give_lunch_def Let_def options_def)
    with serving show ?thesis by simp
  next
    case False
    define choice where "choice = rs_pick rnd (draws (fst ls)) (filter (\<lambda>k. period_size L (snd ls) (fst (options ! k)) =
        smallest (map (period_size L (snd ls) \<circ> fst) options)) [0..<length options])"
    define open_sections where "open_sections = snd (options ! choice)"
    define sec where "sec = rs_pick rnd (draws (fst ls) + 1) (filter (\<lambda>sec. snd ls sec = smallest (map (snd ls) open_sections)) open_sections)"
    have give: "give_lunch L rnd day ls i = enrol_in_lunch L i sec ls"
      using False unfolding sec_def open_sections_def choice_def options_def by (simp add: give_lunch_def Let_def)
    have "smallest (map (period_size L (snd ls) \<circ> fst) options) \<in> set (map (period_size L (snd ls) \<circ> fst) options)"
      using False by (intro smallest_in) simp
    then obtain k where "k < length options"
        "period_size L (snd ls) (fst (options ! k)) = smallest (map (period_size L (snd ls) \<circ> fst) options)"
      by (auto simp: in_set_conv_nth)
    then have "filter (\<lambda>k. period_size L (snd ls) (fst (options ! k)) =
        smallest (map (period_size L (snd ls) \<circ> fst) options)) [0..<length options] \<noteq> []"
      by (auto simp: filter_empty_conv)
    from random_pick [OF rnd this] have "choice < length options" by (simp add: choice_def)
    then have "options ! choice \<in> set options" by simp
    then obtain t where t: "t \<in> set day" "\<not> student_schedules (fst ls) i t" "open_sections \<noteq> []"
      "open_sections = filter (\<lambda>sec. snd ls sec < section_capacities L sec) (lunch_sections_at L t)"
      unfolding open_sections_def options_def lunch_options_def by auto
    have "smallest (map (snd ls) open_sections) \<in> set (map (snd ls) open_sections)"
      using t(3) by (intro smallest_in) simp
    then have "filter (\<lambda>sec. snd ls sec = smallest (map (snd ls) open_sections)) open_sections \<noteq> []"
      by (auto simp: filter_empty_conv)
    from random_pick [OF rnd this] have "sec \<in> set open_sections" by (simp add: sec_def)
    then have sec: "sec \<in> set (lunch_sections_at L t)" "snd ls sec < section_capacities L sec"
      using t(4) by simp_all
    have range: "sec < num_sections L" using wf sec(1) by (simp add: wf_lottery_def)
    have room: "enrolled_in L (fst ls) sec < section_capacities L sec"
      using serving sec(2) range by (simp add: serving_def)
    have inv: "lunch_inv L (fst ls)" and student: "i < num_students L"
      and comes: "\<exists>t<num_timeslots L. student_schedules (fst ls) i t"
      using serving i by (auto simp: serving_def)
    have slot: "t < num_timeslots L" using day t(1) by blast
    note enrol = enrol_lunch_inv [OF wf inv student sec(1) t(2) slot room comes]
    show ?thesis
      unfolding give serving_def
    proof (intro conjI ballI allI impI)
      show "lunch_inv L (fst (enrol_in_lunch L i sec ls))" by (rule enrol(1))
      fix s assume "s < num_sections L"
      then show "snd (enrol_in_lunch L i sec ls) s = enrolled_in L (fst (enrol_in_lunch L i sec ls)) s"
        using enrol(2) serving by (auto simp: enrol_fields serving_def)
    next
      fix j assume "j \<in> set attendees"
      then show "j < num_students L" and "\<exists>t<num_timeslots L. student_schedules (fst (enrol_in_lunch L i sec ls)) j t"
        using serving by (auto simp: serving_def enrol_fields)
    qed
  qed
qed

lemma foldl_keeps: "P s \<Longrightarrow> (\<And>s x. x \<in> set xs \<Longrightarrow> P s \<Longrightarrow> P (f s x)) \<Longrightarrow> P (foldl f s xs)"
  by (induction xs arbitrary: s) auto

lemma lunch_day_serving:
  assumes wf: "wf_lottery L" and rnd: "random_laws rnd" and serving: "serving L attendees ls"
    and day: "day \<in> set (lunch_timeslot_indices L)"
  shows "serving L attendees (lunch_day L rnd attendees ls day)"
proof (cases "filter (\<lambda>t. dict_has (lunch_sections_by_timeslot L) t) day = []")
  case True
  with serving show ?thesis by (simp add: lunch_day_def)
next
  case False
  define slots where "slots = filter (\<lambda>t. dict_has (lunch_sections_by_timeslot L) t) day"
  define order where "order = sort_key (\<lambda>i. length (filter (\<lambda>t. \<not> student_schedules (fst ls) i t) slots))
      (rs_shuffle rnd (draws (fst ls)) attendees)"
  have order: "set order = set attendees"
    using random_orders(1) [OF rnd] unfolding order_def by (metis set_mset_mset set_sort)
  have "\<forall>t\<in>set slots. t < num_timeslots L"
    using wf day by (auto simp: slots_def wf_lottery_def)
  note give = give_lunch_serving [OF wf rnd _ _ this]
  have "serving L attendees (foldl (give_lunch L rnd slots) ((fst ls)\<lparr>draws := draws (fst ls) + 1\<rparr>, snd ls) order)"
  proof (rule foldl_keeps [where P = "serving L attendees"])
    show "serving L attendees ((fst ls)\<lparr>draws := draws (fst ls) + 1\<rparr>, snd ls)"
      using serving by (simp add: serving_draws)
  qed (use give order in blast)
  with False show ?thesis
    by (simp add: lunch_day_def Let_def slots_def [symmetric] order_def [symmetric])
qed

lemma assign_lunches_inv:
  assumes wf: "wf_lottery L" and rnd: "random_laws rnd" and inv: "lunch_inv L st"
  shows "lunch_inv L (assign_lunches L rnd st)"
proof (cases "lunch_sections_by_timeslot L = []")
  case True
  with inv show ?thesis by (simp add: assign_lunches_def)
next
  case False
  define attendees where "attendees = nonzero (num_students L) (\<lambda>i. total (num_sections L) (student_sections st i) > 0)"
  have "\<exists>t<num_timeslots L. student_schedules st i t" if "i \<in> set attendees" for i
  proof -
    from that obtain si where i: "i < num_students L" and si: "si < num_sections L" "student_sections st i si"
      by (auto simp: attendees_def total_pos_iff)
    then have "timeslots_of L si \<noteq> []" using inv by (auto simp: lunch_inv_def wish_or_lunch_def)
    then have "hd (timeslots_of L si) \<in> set (timeslots_of L si)" by (rule list.set_sel(1))
    then obtain t where t: "t < num_timeslots L" "section_schedules L si t" unfolding timeslots_of_iff by blast
    have "total (num_sections L) (\<lambda>si. student_sections st i si \<and> section_schedules L si t) > 0"
      using si t by (auto simp: total_pos_iff)
    moreover have "of_bool (student_schedules st i t) = total (num_sections L) (\<lambda>si. student_sections st i si \<and> section_schedules L si t)"
      using inv i t(1) unfolding lunch_inv_def exact_schedules_def by blast
    ultimately have "student_schedules st i t" by (cases "student_schedules st i t") auto
    with t show ?thesis by blast
  qed
  then have "serving L attendees (st, enrolled_in L st)"
    using inv by (auto simp: serving_def attendees_def)
  then have "serving L attendees (foldl (lunch_day L rnd attendees) (st, enrolled_in L st) (lunch_timeslot_indices L))"
    by (rule foldl_keeps [where P = "serving L attendees"]) (rule lunch_day_serving [OF wf rnd])
  with False show ?thesis
    by (simp add: assign_lunches_def attendees_def [symmetric] serving_def)
qed

subsection \<open>The result\<close>

lemma check_assignments_passes:
  assumes "lunch_inv L st"
  shows "check_assignments L st = Inr ()"
proof -
  have schedules: "\<not> (\<exists>t\<in>set [0..<num_timeslots L]. of_bool (student_schedules st i t) \<noteq>
      total (num_sections L) (\<lambda>si. student_sections st i si \<and> section_schedules L si t))" if "i < num_students L" for i
    using assms that unfolding lunch_inv_def exact_schedules_def by auto
  have lunches: "\<not> (\<exists>i\<in>set [0..<num_students L]. length (filter (\<lambda>t. student_schedules st i t \<and>
      \<not> (\<exists>sec\<in>set (lunch_sections_at L t). student_sections st i sec)) day) > length day - 1)"
    if "day \<in> set (lunch_timeslot_indices L)" "day \<noteq> []" for day
  proof
    assume "\<exists>i\<in>set [0..<num_students L]. length (filter (\<lambda>t. student_schedules st i t \<and>
      \<not> (\<exists>sec\<in>set (lunch_sections_at L t). student_sections st i sec)) day) > length day - 1"
    then obtain i where i: "i < num_students L" and many: "length (filter (\<lambda>t. student_schedules st i t \<and>
      \<not> (\<exists>sec\<in>set (lunch_sections_at L t). student_sections st i sec)) day) > length day - 1"
      by auto
    have "length (filter (\<lambda>t. student_schedules st i t \<and>
      \<not> (\<exists>sec\<in>set (lunch_sections_at L t). student_sections st i sec)) day) < length day"
      using assms that i unfolding lunch_inv_def lunch_or_free_def by blast
    with many show False by linarith
  qed
  have full: "\<not> (\<exists>si\<in>set [0..<num_sections L]. enrolled_in L st si > section_capacities L si)"
    using assms unfolding lunch_inv_def not_overfull_def by force
  have "rforeach (\<lambda>day. if length day = 0 then Inr () else
         raise_if (\<exists>i\<in>set [0..<num_students L].
           length (filter (\<lambda>t. student_schedules st i t \<and>
              \<not> (\<exists>sec\<in>set (lunch_sections_at L t). student_sections st i sec)) day) > length day - 1) (AssertionError []))
       (lunch_timeslot_indices L) = Inr ()"
    unfolding rforeach_Inr_iff raise_if_def using lunches by auto
  moreover have "rforeach (\<lambda>i. raise_if (\<exists>t\<in>set [0..<num_timeslots L].
         of_bool (student_schedules st i t) \<noteq>
         total (num_sections L) (\<lambda>si. student_sections st i si \<and> section_schedules L si t)) (AssertionError []))
       [0..<num_students L] = Inr ()"
    unfolding rforeach_Inr_iff raise_if_def using schedules by auto
  ultimately show ?thesis
    unfolding check_assignments_def using full by (simp only: raise_if_def if_False rbind_simps)
qed

lemma lottery_succeeds:
  assumes wf: "wf_lottery L" and rnd: "random_laws rnd"
  obtains st where "lottery_compute_assignments L rnd n check_result = Inr st" and "lunch_inv L st"
    and "\<not> assign_lunches_option (lt_options L) \<Longrightarrow> fill_inv L st"
proof -
  have "\<exists>st. rfold (fill_rank L rnd) (clear_assignments n) (if use_student_apps (lt_options L) then [10, 5] else [10]) = Inr st \<and>
      fill_inv L st"
    by (rule rfold_total [where P = "fill_inv L"]) (use clear_inv fill_rank_inv wf rnd in blast)+
  then obtain st where st: "rfold (fill_rank L rnd) (clear_assignments n)
      (if use_student_apps (lt_options L) then [10, 5] else [10]) = Inr st" "fill_inv L st" by blast
  define st' where "st' = (if assign_lunches_option (lt_options L) then assign_lunches L rnd st else st)"
  have inv: "lunch_inv L st'"
    using assign_lunches_inv [OF wf rnd fill_lunch_inv [OF st(2)]] fill_lunch_inv [OF st(2)] by (simp add: st'_def)
  then have "lottery_compute_assignments L rnd n check_result = Inr st'"
    by (simp add: lottery_compute_assignments_def st(1) Let_def st'_def [symmetric] check_assignments_passes)
  with inv st(2) show thesis using that by (simp add: st'_def)
qed


end
