(* ===== verification/Lottery_Setup.thy ===== *)
theory Lottery_Setup
  imports Lottery_Correct Datetime
begin

section \<open>Setting up the lottery\<close>

text \<open>
  \<open>initialize\<close>: from the rows of the database to the matrices. Ids are turned into indices by lookup tables
  (\<open>get_index_array\<close>) that hold \<open>-1\<close> for the ids that do not occur; reading a table past its end raises
  \<open>IndexError\<close>, and writing a matrix at the index \<open>-1\<close> writes its last column, as numpy does. The rows that
  the queries select are the input. The filling up of low priorities (\<open>fill_low_priorities\<close>, off by
  default) and the matrix of starting times, which only it reads, are not modelled; nor is the query for
  the graduation years, whose result, the grades, is given. The ranks of \<open>use_student_apps\<close> are read from the
  sum of two query sets, which Django does not have: the addition raises \<open>TypeError\<close>.

  \<open>initialize_well_formed\<close>: with sections that meet in the program's timeslots and lunch sections of one
  timeslot, the result satisfies the assumptions of the lottery. \<open>foreign_timeslot\<close>: a section that meets
  in a timeslot which is none of the program's is taken to meet in the last one.
\<close>

record lottery_section =
  lsec_id :: nat
  lsec_parent :: nat
  lsec_times :: "nat list"
  lsec_capacity :: int
  lsec_grade_min :: int
  lsec_grade_max :: int
  lsec_is_lunch :: bool

text \<open>What \<open>put_prefs_in_array\<close> looks at to explain an unknown section.\<close>

record section_state =
  ss_id :: nat
  ss_status :: int
  ss_registration_status :: int
  ss_scheduled :: bool
  ss_class_status :: int
  ss_own_program :: bool

record lottery_input =
  li_students :: "nat list"
  li_grades :: "nat \<Rightarrow> int"
  li_sections :: "lottery_section list"
  li_all_sections :: "section_state list"
  li_timeslots :: "(nat \<times> (int \<times> int \<times> int)) list"
  li_lunch_timeslots :: "(nat \<times> (int \<times> int \<times> int)) list"
  li_interest :: "(nat \<times> nat) list"
  li_subject_interest :: "(nat \<times> nat) list"
  li_priority :: "nat \<Rightarrow> (nat \<times> nat) list"
  li_exceptions :: "(nat \<times> nat) list"
  li_priority_limit :: nat
  li_use_exceptions :: bool
  li_size_max :: int
  li_options :: lottery_options

subsection \<open>Lookup tables\<close>

definition get_index_array :: "nat list \<Rightarrow> int list result" where
  "get_index_array arr =
     (if arr = [] then Inl (ValueError ''zero-size array to reduction operation maximum'')
      else Inr (fold (\<lambda>i index_arr. index_arr[arr ! i := int i]) [0..<length arr] (replicate (foldr max arr 0 + 1) (-1))))"

definition table_at :: "int list \<Rightarrow> nat \<Rightarrow> int result" where
  "table_at table i = (if i < length table then Inr (table ! i) else Inl IndexError)"

text \<open>\<open>get_timeslot_index\<close> and \<open>get_section_index\<close>.\<close>

definition index_or_minus_one :: "int list \<Rightarrow> nat \<Rightarrow> int" where
  "index_or_minus_one table i = (if i < length table then table ! i else -1)"

text \<open>The position that an index of an axis of length \<open>n\<close> denotes.\<close>

definition np_position :: "nat \<Rightarrow> int \<Rightarrow> nat" where
  "np_position n i = nat (if i < 0 then int n + i else i)"

lemma foldr_max_ge: "x \<in> set xs \<Longrightarrow> x \<le> foldr max xs (0 :: nat)"
  by (induction xs) auto

definition table_of :: "nat list \<Rightarrow> nat \<Rightarrow> nat \<Rightarrow> int list" where
  "table_of arr n k = fold (\<lambda>i index_arr. index_arr[arr ! i := int i]) [0..<k] (replicate n (-1))"

lemma length_table_of [simp]: "length (table_of arr n k) = n"
  by (induction k) (simp_all add: table_of_def)

lemma table_of_Suc: "table_of arr n (Suc k) = (table_of arr n k)[arr ! k := int k]"
  by (simp add: table_of_def)

lemma table_of_hit:
  assumes "distinct arr" and "set arr \<subseteq> {..<n}" and "k \<le> length arr" and "i < k"
  shows "table_of arr n k ! (arr ! i) = int i"
  using assms(3,4)
proof (induction k)
  case (Suc k)
  have range: "arr ! k < n" using assms(2) Suc.prems(1) by (metis Suc_le_eq lessThan_iff nth_mem subsetD)
  show ?case
  proof (cases "i = k")
    case True
    with range show ?thesis by (simp add: table_of_Suc)
  next
    case False
    then have "arr ! i \<noteq> arr ! k" using Suc.prems assms(1) by (simp add: nth_eq_iff_index_eq)
    with False Suc show ?thesis by (simp add: table_of_Suc)
  qed
qed simp

lemma table_of_miss:
  assumes "k \<le> length arr" and "x \<notin> set arr" and "x < n"
  shows "table_of arr n k ! x = -1"
  using assms(1)
proof (induction k)
  case 0
  with assms(3) show ?case by (simp add: table_of_def)
next
  case (Suc k)
  then have "arr ! k \<noteq> x" using assms(2) by (metis Suc_le_eq nth_mem)
  with Suc show ?case by (simp add: table_of_Suc)
qed

text \<open>What the table holds: the position of an id, or \<open>-1\<close>.\<close>

lemma get_index_array_spec:
  assumes "get_index_array arr = Inr table" and "distinct arr"
  shows "i < length arr \<Longrightarrow> table_at table (arr ! i) = Inr (int i)"
    and "i < length arr \<Longrightarrow> index_or_minus_one table (arr ! i) = int i"
    and "x \<notin> set arr \<Longrightarrow> index_or_minus_one table x = -1"
proof -
  let ?n = "foldr max arr 0 + 1"
  have table: "table = table_of arr ?n (length arr)"
    using assms(1) by (auto simp: get_index_array_def table_of_def split: if_splits)
  have range: "set arr \<subseteq> {..<?n}" using foldr_max_ge by fastforce
  have bound: "arr ! i < ?n" if "i < length arr" for i
    using range that by (metis lessThan_iff nth_mem subsetD)
  show "i < length arr \<Longrightarrow> table_at table (arr ! i) = Inr (int i)"
    and "i < length arr \<Longrightarrow> index_or_minus_one table (arr ! i) = int i"
    using table_of_hit [OF assms(2) range order_refl] bound
    by (simp_all add: table_at_def index_or_minus_one_def table)
  show "x \<notin> set arr \<Longrightarrow> index_or_minus_one table x = -1"
    using table_of_miss [OF order_refl] by (simp add: index_or_minus_one_def table)
qed

subsection \<open>Preferences\<close>

definition explain_section :: "section_state list \<Rightarrow> nat \<Rightarrow> py_error" where
  "explain_section all_sections bad_section_id =
     (case filter (\<lambda>s. ss_id s = bad_section_id) all_sections of
        [] \<Rightarrow> OtherError ''DoesNotExist''
      | s # _ \<Rightarrow>
          if ss_status s \<le> 0 then OtherError ''LotterySectionException: is not approved.''
          else if ss_registration_status s \<noteq> 0 then OtherError ''LotterySectionException: is not open to registration.''
          else if \<not> ss_scheduled s then OtherError ''LotterySectionException: is not scheduled.''
          else if ss_class_status s \<le> 0 then OtherError ''LotterySubjectException: is not approved.''
          else if \<not> ss_own_program s then OtherError ''LotterySubjectException: does not belong to the right program.''
          else OtherError ''LotterySectionException: is not associated with the lottery (unknown reason).'')"

text \<open>The matrix is the list of the pairs of indices that are set.\<close>

definition put_prefs_in_array ::
  "section_state list \<Rightarrow> int list \<Rightarrow> int list \<Rightarrow> (nat \<times> nat) list \<Rightarrow> (nat \<times> nat) list \<Rightarrow> (nat \<times> nat) list result" where
  "put_prefs_in_array all_sections student_indices section_indices prefs array =
     (if prefs = [] then Inr array
      else
        rbind (rmap (table_at student_indices \<circ> fst) prefs) (\<lambda>student_ixs.
        rbind (rmap (table_at section_indices \<circ> snd) prefs) (\<lambda>section_ixs.
        rbind (raise_if (\<exists>i\<in>set student_ixs. i < 0) (AssertionError ''Got a preference for a student who does not exist'')) (\<lambda>_.
        case filter (\<lambda>(pref, ix). ix < 0) (zip prefs section_ixs) of
          bad # _ \<Rightarrow> Inl (explain_section all_sections (snd (fst bad)))
        | [] \<Rightarrow> Inr (array @ map (\<lambda>(i, s). (nat i, nat s)) (zip student_ixs section_ixs))))))"

subsection \<open>Lunch\<close>

definition dates_of :: "(nat \<times> 'd) list \<Rightarrow> 'd list" where
  "dates_of timeslots = rev (foldl (\<lambda>result (i, d). if d \<in> set result then result else d # result) [] timeslots)"

text \<open>The lunch timeslots of the program's days, by day.\<close>

definition lunch_days :: "int list \<Rightarrow> 'd list \<Rightarrow> (nat \<times> 'd) list \<Rightarrow> nat list list" where
  "lunch_days timeslot_indices dates lunches =
     map (\<lambda>date. map (\<lambda>(i, d). nat (index_or_minus_one timeslot_indices i))
         (filter (\<lambda>(i, d). d = date \<and> \<not> index_or_minus_one timeslot_indices i < 0) lunches)) dates"

definition note_lunch_section :: "int list \<Rightarrow> int list \<Rightarrow> (nat, nat list) dict \<Rightarrow> nat \<times> nat \<Rightarrow> (nat, nat list) dict" where
  "note_lunch_section section_indices timeslot_indices by_timeslot pair =
     (let sec_index = index_or_minus_one section_indices (fst pair);
          ts_index = index_or_minus_one timeslot_indices (snd pair) in
      if sec_index < 0 \<or> ts_index < 0 then by_timeslot
      else let key = nat ts_index;
               secs = (case map_of by_timeslot key of None \<Rightarrow> [] | Some secs \<Rightarrow> secs)
           in AList.update key (secs @ [nat sec_index]) by_timeslot)"

definition meeting_pairs :: "lottery_section list \<Rightarrow> (nat \<times> nat) list" where
  "meeting_pairs sections = concat (map (\<lambda>s. map (\<lambda>t. (lsec_id s, t)) (lsec_times s)) sections)"

definition lunch_section_table :: "int list \<Rightarrow> int list \<Rightarrow> lottery_section list \<Rightarrow> (nat, nat list) dict" where
  "lunch_section_table section_indices timeslot_indices sections =
     foldl (note_lunch_section section_indices timeslot_indices) [] (meeting_pairs (filter lsec_is_lunch sections))"

subsection \<open>The lottery\<close>

definition ordered_sections :: "lottery_input \<Rightarrow> lottery_section list" where
  "ordered_sections inp = sort_key lsec_id (li_sections inp)"

definition ordered_timeslots :: "lottery_input \<Rightarrow> nat list" where
  "ordered_timeslots inp = sort (map fst (li_timeslots inp))"

definition priority_levels :: "lottery_input \<Rightarrow> nat" where
  "priority_levels inp = (if li_use_exceptions inp then li_priority_limit inp + 1 else li_priority_limit inp)"

text \<open>The preferences are lists of pairs of indices, the meetings pairs of a section and a timeslot.\<close>

definition lottery_of ::
  "lottery_input \<Rightarrow> int list \<Rightarrow> int list \<Rightarrow> (nat \<times> nat) list \<Rightarrow> (nat \<times> nat) list list \<Rightarrow> (nat \<times> nat) list \<Rightarrow> lottery" where
  "lottery_of inp section_indices timeslot_indices interested priorities meetings =
     (let sections = ordered_sections inp;
          lunches = lunch_days timeslot_indices (dates_of (li_timeslots inp)) (li_lunch_timeslots inp) in
      \<lparr>num_students = length (li_students inp),
       num_sections = length sections,
       num_timeslots = length (ordered_timeslots inp),
       lt_options = li_options inp,
       lt_program_size_max = li_size_max inp,
       priority = (\<lambda>level i si. 1 \<le> level \<and> level \<le> priority_levels inp \<and> (i, si) \<in> set (priorities ! (level - 1))),
       lt_interest = (\<lambda>i si. (i, si) \<in> set interested),
       ranks = (\<lambda>i si. 10),
       effective_priority_limit = priority_levels inp,
       grade_range_exceptions = li_use_exceptions inp,
       section_schedules = (\<lambda>si t. (si, t) \<in> set meetings),
       section_capacities = (\<lambda>si. lsec_capacity (sections ! si)),
       section_overlap = (\<lambda>si sj. lsec_parent (sections ! si) = lsec_parent (sections ! sj)),
       section_grade_min = (\<lambda>si. lsec_grade_min (sections ! si)),
       section_grade_max = (\<lambda>si. lsec_grade_max (sections ! si)),
       student_grades = (\<lambda>i. li_grades inp (li_students inp ! i)),
       lunch_schedule = (\<lambda>t. \<exists>day\<in>set lunches. t \<in> set day),
       lunch_timeslot_indices = lunches,
       lunch_sections_by_timeslot = lunch_section_table section_indices timeslot_indices sections,
       section_ids = (\<lambda>si. int (lsec_id (sections ! si)))\<rparr>)"

definition meeting_indices :: "lottery_input \<Rightarrow> int list \<Rightarrow> int list \<Rightarrow> (nat \<times> nat) list result" where
  "meeting_indices inp section_indices timeslot_indices =
     rmap (\<lambda>(sec, t). rbind (table_at section_indices sec) (\<lambda>si. rbind (table_at timeslot_indices t) (\<lambda>ti.
       Inr (np_position (length (ordered_sections inp)) si, np_position (length (ordered_timeslots inp)) ti))))
     (meeting_pairs (ordered_sections inp))"

definition initialize :: "lottery_input \<Rightarrow> lottery result" where
  "initialize inp =
     rbind (get_index_array (li_students inp)) (\<lambda>student_indices.
     rbind (get_index_array (map lsec_id (ordered_sections inp))) (\<lambda>section_indices.
     rbind (get_index_array (ordered_timeslots inp)) (\<lambda>timeslot_indices.
     let put = put_prefs_in_array (li_all_sections inp) student_indices section_indices in
     rbind (put (li_interest inp) []) (\<lambda>interested.
     rbind (put (li_subject_interest inp) interested) (\<lambda>interested.
     rbind (rmap (\<lambda>i. put (if i = li_priority_limit inp + 1 then li_exceptions inp else li_priority inp i) [])
       [1..<priority_levels inp + 1]) (\<lambda>priorities.
     rbind (raise_if (use_student_apps (li_options inp)) TypeError) (\<lambda>_.
     rbind (meeting_indices inp section_indices timeslot_indices) (\<lambda>meetings.
     rbind (raise_if (\<exists>s\<in>set (ordered_sections inp). lsec_capacity s < 0) (OtherError ''OverflowError'')) (\<lambda>_.
     Inr (lottery_of inp section_indices timeslot_indices interested priorities meetings))))))))))"

subsection \<open>Sound input gives a well-formed lottery\<close>

lemma rmap_set: "rmap f xs = Inr ys \<Longrightarrow> y \<in> set ys \<longleftrightarrow> (\<exists>x\<in>set xs. f x = Inr y)"
  by (induction xs arbitrary: ys) (auto simp: rbind_Inr_iff)

lemma index_cases:
  assumes "get_index_array arr = Inr table" and "distinct arr"
  obtains "index_or_minus_one table x = -1" | i where "i < length arr" and "arr ! i = x" and "index_or_minus_one table x = int i"
proof (cases "x \<in> set arr")
  case True
  then obtain i where "i < length arr" "arr ! i = x" by (auto simp: in_set_conv_nth)
  with get_index_array_spec(2) [OF assms] that(2) show thesis by blast
qed (use get_index_array_spec(3) [OF assms] that(1) in blast)

definition sound_input :: "lottery_input \<Rightarrow> bool" where
  "sound_input inp \<longleftrightarrow>
     distinct (map lsec_id (li_sections inp)) \<and> distinct (map fst (li_timeslots inp)) \<and>
     (\<forall>s\<in>set (li_sections inp). set (lsec_times s) \<subseteq> fst ` set (li_timeslots inp) \<and>
        (lsec_is_lunch s \<longrightarrow> length (lsec_times s) = 1)) \<and>
     0 \<le> li_size_max inp \<and> 0 < Kp (li_options inp) \<and> 0 < Ki (li_options inp)"

lemma lunch_section_table_sound:
  assumes "map_of (lunch_section_table section_indices timeslot_indices sections) t = Some secs" and "sec \<in> set secs"
  shows "\<exists>s\<in>set sections. lsec_is_lunch s \<and> (\<exists>ts\<in>set (lsec_times s).
     index_or_minus_one section_indices (lsec_id s) = int sec \<and> index_or_minus_one timeslot_indices ts = int t)"
proof -
  let ?pairs = "meeting_pairs (filter lsec_is_lunch sections)"
  let ?ok = "\<lambda>t sec. \<exists>p\<in>set ?pairs. index_or_minus_one section_indices (fst p) = int sec \<and>
      index_or_minus_one timeslot_indices (snd p) = int t"
  have step: "\<forall>t secs. map_of (note_lunch_section section_indices timeslot_indices d p) t = Some secs \<longrightarrow> (\<forall>sec\<in>set secs. ?ok t sec)"
    if d: "\<forall>t secs. map_of d t = Some secs \<longrightarrow> (\<forall>sec\<in>set secs. ?ok t sec)" and p: "p \<in> set ?pairs" for d p
  proof (intro allI impI ballI)
    fix t secs sec
    assume map: "map_of (note_lunch_section section_indices timeslot_indices d p) t = Some secs" and sec: "sec \<in> set secs"
    show "?ok t sec"
    proof (cases "index_or_minus_one section_indices (fst p) < 0 \<or> index_or_minus_one timeslot_indices (snd p) < 0")
      case True
      then have "map_of d t = Some secs" using map by (auto simp: note_lunch_section_def Let_def)
      with d sec show ?thesis by blast
    next
      case False
      define key where "key = nat (index_or_minus_one timeslot_indices (snd p))"
      define new where "new = nat (index_or_minus_one section_indices (fst p))"
      define old where "old = (case map_of d key of None \<Rightarrow> [] | Some secs \<Rightarrow> secs)"
      have "map_of (AList.update key (old @ [new]) d) t = Some secs"
        using map False by (simp add: note_lunch_section_def Let_def key_def new_def old_def)
      then have "map_of d t = Some secs \<or> t = key \<and> secs = old @ [new]"
        by (auto simp: map_of_update_eq split: if_splits)
      then consider "map_of d t = Some secs" | "t = key" "sec \<in> set old" | "t = key" "sec = new"
        using sec by auto
      then show ?thesis
      proof cases
        case 2
        then have "map_of d t = Some old" by (cases "map_of d key") (simp_all add: old_def)
        with d 2 show ?thesis by blast
      next
        case 3
        with False p show ?thesis by (intro bexI [of _ p]) (simp_all add: key_def new_def)
      qed (use d sec in blast)
    qed
  qed
  have "\<forall>t secs. map_of (lunch_section_table section_indices timeslot_indices sections) t = Some secs \<longrightarrow> (\<forall>sec\<in>set secs. ?ok t sec)"
    unfolding lunch_section_table_def
    by (rule foldl_keeps [where P = "\<lambda>d. \<forall>t secs. map_of d t = Some secs \<longrightarrow> (\<forall>sec\<in>set secs. ?ok t sec)"])
      (use step in simp_all)
  with assms have "?ok t sec" by blast
  then show ?thesis by (auto simp: meeting_pairs_def)
qed

lemma singleton_list:
  assumes "set xs = {x}" and "distinct xs"
  shows "xs = [x]"
proof -
  have "length xs = 1" using assms distinct_card [of xs] by simp
  with assms(1) show ?thesis by (cases xs) auto
qed

text \<open>The parts of a successful initialization.\<close>

lemma initialize_parts:
  assumes "initialize inp = Inr L"
  obtains section_indices timeslot_indices interested priorities meetings where
    "get_index_array (map lsec_id (ordered_sections inp)) = Inr section_indices"
    "get_index_array (ordered_timeslots inp) = Inr timeslot_indices"
    "meeting_indices inp section_indices timeslot_indices = Inr meetings"
    "\<not> (\<exists>s\<in>set (ordered_sections inp). lsec_capacity s < 0)"
    "\<not> use_student_apps (li_options inp)"
    "L = lottery_of inp section_indices timeslot_indices interested priorities meetings"
  using assms unfolding initialize_def Let_def rbind_Inr_iff raise_if_Inr_iff sum.inject by blast

lemma initialize_well_formed:
  assumes result: "initialize inp = Inr L" and sound: "sound_input inp"
  shows "wf_lottery L"
proof -
  obtain section_indices timeslot_indices interested priorities meetings where
    sec_ix: "get_index_array (map lsec_id (ordered_sections inp)) = Inr section_indices" and
    ts_ix: "get_index_array (ordered_timeslots inp) = Inr timeslot_indices" and
    meet: "meeting_indices inp section_indices timeslot_indices = Inr meetings" and
    cap: "\<not> (\<exists>s\<in>set (ordered_sections inp). lsec_capacity s < 0)" and
    L: "L = lottery_of inp section_indices timeslot_indices interested priorities meetings"
    by (rule initialize_parts [OF result])
  have fields: "num_sections L = length (ordered_sections inp)" "num_timeslots L = length (ordered_timeslots inp)"
    "lt_options L = li_options inp" "lt_program_size_max L = li_size_max inp"
    "section_schedules L = (\<lambda>si t. (si, t) \<in> set meetings)"
    "section_capacities L = (\<lambda>si. lsec_capacity (ordered_sections inp ! si))"
    "section_overlap L = (\<lambda>si sj. lsec_parent (ordered_sections inp ! si) = lsec_parent (ordered_sections inp ! sj))"
    "lunch_timeslot_indices L = lunch_days timeslot_indices (dates_of (li_timeslots inp)) (li_lunch_timeslots inp)"
    "lunch_schedule L = (\<lambda>t. \<exists>day\<in>set (lunch_timeslot_indices L). t \<in> set day)"
    "lunch_sections_by_timeslot L = lunch_section_table section_indices timeslot_indices (ordered_sections inp)"
    by (simp_all add: L lottery_of_def Let_def)
  have ids: "distinct (map lsec_id (ordered_sections inp))" and times: "distinct (ordered_timeslots inp)"
    using sound by (simp_all add: sound_input_def ordered_sections_def ordered_timeslots_def distinct_map)
  have capacities: "0 \<le> section_capacities L si \<and> section_overlap L si si" if "si < num_sections L" for si
    using cap that by (auto simp: fields not_less)
  have lunch: "t < num_timeslots L" if "day \<in> set (lunch_timeslot_indices L)" "t \<in> set day" for day t
  proof -
    from that obtain x where x: "\<not> index_or_minus_one timeslot_indices x < 0" "t = nat (index_or_minus_one timeslot_indices x)"
      by (auto simp: fields lunch_days_def)
    show ?thesis by (rule index_cases [OF ts_ix times, of x]) (use x in \<open>simp_all add: fields\<close>)
  qed
  have lunch_section: "sec < num_sections L \<and> timeslots_of L sec = [t]" if "sec \<in> set (lunch_sections_at L t)" for t sec
  proof -
    from that obtain secs where "map_of (lunch_section_table section_indices timeslot_indices (ordered_sections inp)) t = Some secs"
        "sec \<in> set secs"
      by (cases "map_of (lunch_section_table section_indices timeslot_indices (ordered_sections inp)) t")
        (simp_all add: lunch_sections_at_def fields)
    then obtain s ts where s: "s \<in> set (ordered_sections inp)" "lsec_is_lunch s" "ts \<in> set (lsec_times s)"
      "index_or_minus_one section_indices (lsec_id s) = int sec" "index_or_minus_one timeslot_indices ts = int t"
      using lunch_section_table_sound by blast
    have member: "s \<in> set (li_sections inp)" using s(1) by (simp add: ordered_sections_def)
    then have "length (lsec_times s) = 1" using sound s(2) by (simp add: sound_input_def)
    then have only: "lsec_times s = [ts]" using s(3) by (cases "lsec_times s") auto
    have sec: "sec < length (ordered_sections inp) \<and> lsec_id (ordered_sections inp ! sec) = lsec_id s"
      by (rule index_cases [OF sec_ix ids, of "lsec_id s"]) (use s(4) in auto)
    have t: "t < length (ordered_timeslots inp) \<and> ordered_timeslots inp ! t = ts"
      by (rule index_cases [OF ts_ix times, of ts]) (use s(5) in auto)
    have same: "s' = s" if "s' \<in> set (ordered_sections inp)" "lsec_id s' = lsec_id s" for s'
      using ids that s(1) by (meson distinct_map inj_onD)
    have "(sec, t') \<in> set meetings \<longleftrightarrow> t' = t" for t'
    proof -
      have "(sec, t') \<in> set meetings \<longleftrightarrow> (\<exists>s'\<in>set (ordered_sections inp). \<exists>ts'\<in>set (lsec_times s').
          rbind (table_at section_indices (lsec_id s')) (\<lambda>si. rbind (table_at timeslot_indices ts') (\<lambda>ti.
            Inr (np_position (length (ordered_sections inp)) si, np_position (length (ordered_timeslots inp)) ti))) = Inr (sec, t'))"
        unfolding rmap_set [OF meet [unfolded meeting_indices_def]] by (auto simp: meeting_pairs_def)
      also have "\<dots> \<longleftrightarrow> (\<exists>s'\<in>set (ordered_sections inp). \<exists>ts'\<in>set (lsec_times s'). s' = s \<and> t' = t)"
      proof (intro bex_cong refl)
        fix s' ts' assume s': "s' \<in> set (ordered_sections inp)" and ts': "ts' \<in> set (lsec_times s')"
        have "s' \<in> set (li_sections inp)" using s' by (simp add: ordered_sections_def)
        then have "ts' \<in> set (ordered_timeslots inp)" using sound ts' by (auto simp: sound_input_def ordered_timeslots_def)
        then obtain k where k: "k < length (ordered_timeslots inp)" "ordered_timeslots inp ! k = ts'" by (auto simp: in_set_conv_nth)
        from s' obtain j where j: "j < length (ordered_sections inp)" "ordered_sections inp ! j = s'" by (auto simp: in_set_conv_nth)
        have tables: "table_at section_indices (lsec_id s') = Inr (int j)" "table_at timeslot_indices ts' = Inr (int k)"
          using get_index_array_spec(1) [OF sec_ix ids, of j] get_index_array_spec(1) [OF ts_ix times, of k] j k by simp_all
        have "j = sec \<longleftrightarrow> s' = s"
          using same [OF s'] sec j ids by (metis length_map nth_eq_iff_index_eq nth_map)
        moreover have "k = t" if "s' = s" using that only ts' k t times by (metis nth_eq_iff_index_eq empty_iff empty_set insert_iff list.simps(15))
        ultimately show "rbind (table_at section_indices (lsec_id s')) (\<lambda>si. rbind (table_at timeslot_indices ts') (\<lambda>ti.
            Inr (np_position (length (ordered_sections inp)) si, np_position (length (ordered_timeslots inp)) ti))) = Inr (sec, t')
          \<longleftrightarrow> s' = s \<and> t' = t"
          by (auto simp: tables np_position_def)
      qed
      also have "\<dots> \<longleftrightarrow> t' = t" using s(1,3) by blast
      finally show ?thesis .
    qed
    then have "set (timeslots_of L sec) = {t}"
      using t unfolding set_eq_iff timeslots_of_iff fields(2,5) by auto
    then have "timeslots_of L sec = [t]" by (rule singleton_list [OF _ timeslots_of_distinct])
    with sec show ?thesis by (simp add: fields(1))
  qed
  have "\<forall>si<num_sections L. 0 \<le> section_capacities L si \<and> section_overlap L si si"
    using capacities by blast
  moreover have "\<forall>si sj. section_overlap L si sj = section_overlap L sj si"
    unfolding fields(7) by auto
  moreover have "0 \<le> lt_program_size_max L" "0 < Kp (lt_options L)" "0 < Ki (lt_options L)"
    using sound by (simp_all add: fields(3,4) sound_input_def)
  moreover have "\<forall>day\<in>set (lunch_timeslot_indices L). \<forall>t\<in>set day. t < num_timeslots L \<and> lunch_schedule L t"
    unfolding fields(9) using lunch by blast
  moreover have "\<forall>t. \<forall>sec\<in>set (lunch_sections_at L t). sec < num_sections L \<and> timeslots_of L sec = [t]"
    using lunch_section by blast
  ultimately show ?thesis unfolding wf_lottery_def by (intro conjI)
qed

text \<open>With student applications the lottery cannot be set up at all.\<close>

lemma student_apps_fail: "initialize inp = Inr L \<Longrightarrow> \<not> use_student_apps (li_options inp)"
  by (erule initialize_parts)

text \<open>The index \<open>-1\<close> of a timeslot that is not the program's marks the last column of the matrix.\<close>

lemma table_at_index: "table_at table x = Inr v \<Longrightarrow> v = index_or_minus_one table x"
  by (auto simp: table_at_def index_or_minus_one_def split: if_splits)

lemma foreign_timeslot:
  assumes result: "initialize inp = Inr L" and ids: "distinct (map lsec_id (ordered_sections inp))"
    and times: "distinct (ordered_timeslots inp)" and some: "ordered_timeslots inp \<noteq> []"
    and si: "si < num_sections L" and t: "t \<in> set (lsec_times (ordered_sections inp ! si))"
    and foreign: "t \<notin> set (ordered_timeslots inp)"
  shows "section_schedules L si (num_timeslots L - 1)"
proof -
  obtain section_indices timeslot_indices interested priorities meetings where
    sec_ix: "get_index_array (map lsec_id (ordered_sections inp)) = Inr section_indices" and
    ts_ix: "get_index_array (ordered_timeslots inp) = Inr timeslot_indices" and
    meet: "meeting_indices inp section_indices timeslot_indices = Inr meetings" and
    L: "L = lottery_of inp section_indices timeslot_indices interested priorities meetings"
    by (rule initialize_parts [OF result])
  let ?n = "length (ordered_sections inp)" and ?m = "length (ordered_timeslots inp)"
  have fields: "num_sections L = ?n" "num_timeslots L = ?m" "section_schedules L = (\<lambda>si t. (si, t) \<in> set meetings)"
    by (simp_all add: L lottery_of_def Let_def)
  have pair: "(lsec_id (ordered_sections inp ! si), t) \<in> set (meeting_pairs (ordered_sections inp))"
    using t si by (force simp: meeting_pairs_def fields(1))
  have all: "\<exists>y. f x = Inr y" if "rmap f xs = Inr ys" "x \<in> set xs" for f :: "nat \<times> nat \<Rightarrow> (nat \<times> nat) result" and xs ys x
    using that by (induction xs arbitrary: ys) (auto simp: rbind_Inr_iff)
  from all [OF meet [unfolded meeting_indices_def] pair] obtain a b where
    ab: "table_at section_indices (lsec_id (ordered_sections inp ! si)) = Inr a" "table_at timeslot_indices t = Inr b"
    by (auto simp: rbind_Inr_iff)
  have a: "a = int si" and b: "b = -1"
    using table_at_index [OF ab(1)] table_at_index [OF ab(2)] get_index_array_spec(2) [OF sec_ix ids, of si]
      get_index_array_spec(3) [OF ts_ix times foreign] si by (simp_all add: fields(1))
  have "(np_position ?n a, np_position ?m b) \<in> set meetings"
    unfolding rmap_set [OF meet [unfolded meeting_indices_def]]
    by (rule bexI [OF _ pair]) (simp add: ab)
  moreover have "np_position ?m b = ?m - 1"
    using some by (cases "ordered_timeslots inp") (simp_all add: np_position_def b)
  ultimately show ?thesis by (simp add: fields a np_position_def)
qed


end
