(* ===== verification/Lottery_Saving.thy ===== *)
theory Lottery_Saving
  imports Lottery_Setup Class_Registration
begin

section \<open>Statistics and results of the lottery\<close>

text \<open>
  \<open>compute_stats\<close> counts what was requested and what was assigned; the utilities, which take square roots,
  and the histograms are left out. \<open>save_assignments\<close> ends all enrolments of the program and creates those
  of the lottery, and \<open>update_mailman_lists\<close> rewrites the mailing lists.

  \<open>ratios_bounded\<close>: the ratios of the statistics lie between 0 and 1. \<open>saved_enrolments\<close>: after saving, the
  students are enrolled in exactly what was assigned. \<open>stale_counts\<close>: a section that gets nobody keeps its old
  count of students, because ending the registrations sends no signals. \<open>class_list_of_last_section\<close>: the
  list of a class with several sections ends up with the students of its last section only.
\<close>

subsection \<open>Statistics\<close>

record lottery_stats =
  overall_priority_ratios :: "rat option list"
  overall_interest_ratio :: "rat option"
  section_enrollments :: "int list"
  num_registrations :: int
  num_empty_classes :: int
  num_enrolled_classes :: int
  num_full_classes :: int
  total_spaces :: int
  overall_capacity_ratio :: "rat option"
  num_enrolled_students :: int
  timeslots_filled :: "int list"

definition sum_over :: "nat \<Rightarrow> (nat \<Rightarrow> int) \<Rightarrow> int" where
  "sum_over n f = sum_list (map f [0..<n])"

text \<open>\<open>None\<close> stands for the text \<open>NA\<close>.\<close>

definition ratio_of :: "int \<Rightarrow> int \<Rightarrow> rat option" where
  "ratio_of assigned requested = (if requested > 0 then Some (of_int assigned / of_int requested) else None)"

definition requested :: "lottery \<Rightarrow> matrix \<Rightarrow> int" where
  "requested L wishes = sum_over (num_students L) (\<lambda>i. total (num_sections L) (wishes i))"

definition assigned :: "lottery \<Rightarrow> lottery_state \<Rightarrow> matrix \<Rightarrow> int" where
  "assigned L st wishes =
     sum_over (num_students L) (\<lambda>i. total (num_sections L) (\<lambda>si. student_sections st i si \<and> wishes i si))"

definition compute_stats :: "lottery \<Rightarrow> lottery_state \<Rightarrow> lottery_stats" where
  "compute_stats L st =
     (let registrations = sum_over (num_students L) (\<lambda>i. total (num_sections L) (student_sections st i));
          spaces = sum_over (num_sections L) (section_capacities L) in
      \<lparr>overall_priority_ratios =
         map (\<lambda>level. ratio_of (assigned L st (priority L level)) (requested L (priority L level)))
           [1..<effective_priority_limit L + 1],
       overall_interest_ratio = ratio_of (assigned L st (lt_interest L)) (requested L (lt_interest L)),
       section_enrollments = map (enrolled_in L st) [0..<num_sections L],
       num_registrations = registrations,
       num_empty_classes = total (num_sections L) (\<lambda>si. enrolled_in L st si = 0),
       num_enrolled_classes = total (num_sections L) (\<lambda>si. enrolled_in L st si > 0),
       num_full_classes = total (num_sections L) (\<lambda>si. section_capacities L si > 0 \<and> enrolled_in L st si \<ge> section_capacities L si),
       total_spaces = spaces,
       overall_capacity_ratio = ratio_of registrations spaces,
       num_enrolled_students = attending L st,
       timeslots_filled = map (\<lambda>i. total (num_timeslots L) (student_schedules st i)) [0..<num_students L]\<rparr>)"

definition within_unit :: "rat option \<Rightarrow> bool" where
  "within_unit r \<longleftrightarrow> (case r of None \<Rightarrow> True | Some q \<Rightarrow> 0 \<le> q \<and> q \<le> 1)"

lemma sum_over_mono: "(\<And>i. i < n \<Longrightarrow> f i \<le> g i) \<Longrightarrow> sum_over n f \<le> sum_over n g"
  unfolding sum_over_def by (rule sum_list_mono) simp

lemma sum_over_nonneg: "(\<And>i. i < n \<Longrightarrow> 0 \<le> f i) \<Longrightarrow> 0 \<le> sum_over n f"
  unfolding sum_over_def by (rule sum_list_nonneg) auto

lemma ratio_unit: "0 \<le> a \<Longrightarrow> a \<le> r \<Longrightarrow> within_unit (ratio_of a r)"
  by (simp add: within_unit_def ratio_of_def)

lemma assigned_unit: "within_unit (ratio_of (assigned L st wishes) (requested L wishes))"
  unfolding assigned_def requested_def
  by (intro ratio_unit sum_over_nonneg sum_over_mono total_mono) simp_all

text \<open>Counting the places taken by students or by sections.\<close>

lemma total_sum: "total n p = (\<Sum>i<n. of_bool (p i))"
proof -
  have "{i. i < n \<and> p i} = {..<n} \<inter> {i. p i}" by auto
  then show ?thesis by (simp add: total_card)
qed

lemma sum_over_sum: "sum_over n f = (\<Sum>i<n. f i)"
  unfolding sum_over_def by (simp add: interv_sum_list_conv_sum_set_nat atLeast0LessThan)

lemma registrations_by_section:
  "sum_over (num_students L) (\<lambda>i. total (num_sections L) (student_sections st i)) = sum_over (num_sections L) (enrolled_in L st)"
  unfolding sum_over_sum total_sum enrolled_in_def by (rule sum.swap)

lemma ratios_bounded:
  assumes "not_overfull L st"
  shows "\<forall>r\<in>set (overall_priority_ratios (compute_stats L st)). within_unit r"
    and "within_unit (overall_interest_ratio (compute_stats L st))"
    and "within_unit (overall_capacity_ratio (compute_stats L st))"
    and "num_empty_classes (compute_stats L st) + num_enrolled_classes (compute_stats L st) = int (num_sections L)"
proof -
  show "\<forall>r\<in>set (overall_priority_ratios (compute_stats L st)). within_unit r"
    and "within_unit (overall_interest_ratio (compute_stats L st))"
    by (auto simp: compute_stats_def Let_def assigned_unit)
  have "sum_over (num_sections L) (enrolled_in L st) \<le> sum_over (num_sections L) (section_capacities L)"
    using assms by (intro sum_over_mono) (simp add: not_overfull_def)
  then show "within_unit (overall_capacity_ratio (compute_stats L st))"
    unfolding compute_stats_def Let_def registrations_by_section
    by (simp add: ratio_unit sum_over_nonneg enrolled_in_def)
  have "total (num_sections L) (\<lambda>si. enrolled_in L st si = 0) + total (num_sections L) (\<lambda>si. enrolled_in L st si > 0) =
      (\<Sum>si<num_sections L. of_bool (enrolled_in L st si = 0) + of_bool (enrolled_in L st si > 0))"
    by (simp add: total_sum sum.distrib)
  also have "\<dots> = (\<Sum>si<num_sections L. 1)"
  proof (rule sum.cong [OF refl])
    fix si
    have "0 \<le> enrolled_in L st si" by (simp add: enrolled_in_def)
    then show "of_bool (enrolled_in L st si = 0) + of_bool (enrolled_in L st si > 0) = (1 :: int)" by auto
  qed
  finally show "num_empty_classes (compute_stats L st) + num_enrolled_classes (compute_stats L st) = int (num_sections L)"
    by (simp add: compute_stats_def Let_def)
qed

subsection \<open>Saving\<close>

definition clear_saved_assignments :: "datetime \<Rightarrow> bool \<Rightarrow> registration_db \<Rightarrow> registration_db" where
  "clear_saved_assignments now delete db =
     (if delete then db\<lparr>rd_registrations := filter (\<lambda>r. sr_relationship r \<noteq> ''Enrolled'') (rd_registrations db)\<rparr>
      else db\<lparr>rd_registrations := map (\<lambda>r. if sr_relationship r = ''Enrolled'' \<and> valid_registration now r
          then r\<lparr>sr_end := Some now\<rparr> else r) (rd_registrations db)\<rparr>)"

text \<open>\<open>numpy.nonzero(student_sections)\<close>, as ids of students and sections.\<close>

definition assignments_of :: "lottery \<Rightarrow> int list \<Rightarrow> lottery_state \<Rightarrow> (int \<times> int) list" where
  "assignments_of L student_ids st =
     concat (map (\<lambda>i. map (\<lambda>si. (student_ids ! i, section_ids L si)) (nonzero (num_sections L) (student_sections st i)))
       [0..<num_students L])"

fun new_enrolment :: "datetime \<Rightarrow> int \<times> int \<Rightarrow> registration" where
  "new_enrolment start (user, i) =
     \<lparr>sr_user = user, sr_section = i, sr_relationship = ''Enrolled'', sr_start = Some start, sr_end = None\<rparr>"

definition save_assignments :: "datetime \<Rightarrow> datetime \<Rightarrow> (int \<times> int) list \<Rightarrow> registration_db \<Rightarrow> registration_db" where
  "save_assignments now start assignments db =
     (let db = clear_saved_assignments now False db;
          db = db\<lparr>rd_registrations := rd_registrations db @
            map (new_enrolment start) assignments\<rparr>
      in foldl (\<lambda>db (user, i). refresh_counts start i db) db assignments)"

lemma refresh_all_frame [simp]:
  "rd_registrations (foldl (\<lambda>db (user, i). refresh_counts t i db) db as) = rd_registrations db"
  by (induction as arbitrary: db) auto

lemma refresh_other:
  assumes "s \<in> set (rd_sections db)" and "cl_id s \<notin> snd ` set as"
  shows "s \<in> set (rd_sections (foldl (\<lambda>db (user, i). refresh_counts t i db) db as))"
  using assms
proof (induction as arbitrary: db)
  case (Cons a as)
  obtain user i where a: "a = (user, i)" by (cases a)
  have "s \<in> set (rd_sections (refresh_counts t i db))"
    using Cons.prems by (auto simp: a refresh_sections intro!: bexI [of _ s])
  with Cons show ?case by (simp add: a)
qed simp

lemma saved_rows:
  "rd_registrations (save_assignments now start as db) =
     map (\<lambda>r. if sr_relationship r = ''Enrolled'' \<and> valid_registration now r then r\<lparr>sr_end := Some now\<rparr> else r) (rd_registrations db) @
     map (new_enrolment start) as"
  by (simp add: save_assignments_def clear_saved_assignments_def Let_def)

lemma saved_enrolments:
  assumes settled: "settled_rows t db" and "t \<le> now" and "now < start" and "start \<le> when"
  shows "holds_registration (save_assignments now start as db) when user i ''Enrolled'' \<longleftrightarrow> (user, i) \<in> set as"
proof -
  have old: "\<not> valid_registration when (if sr_relationship r = ''Enrolled'' \<and> valid_registration now r then r\<lparr>sr_end := Some now\<rparr> else r)"
    if "r \<in> set (rd_registrations db)" "sr_relationship r = ''Enrolled''" for r
  proof (cases "valid_registration now r")
    case True
    with that assms(3,4) show ?thesis by (auto simp: is_valid_def)
  next
    case False
    then have "sr_end r \<noteq> None" using settled_valid [OF settled assms(2) that(1)] by blast
    then have "the (sr_end r) < t" using settled that(1) by (auto simp: settled_rows_def)
    with assms(2-4) have "the (sr_end r) < when" by order
    with False \<open>sr_end r \<noteq> None\<close> show ?thesis by (auto simp: is_valid_def)
  qed
  show ?thesis
  proof
    assume "holds_registration (save_assignments now start as db) when user i ''Enrolled''"
    then obtain r where r: "r \<in> set (rd_registrations (save_assignments now start as db))" "valid_registration when r"
      "sr_section r = i" "sr_user r = user" "sr_relationship r = ''Enrolled''"
      unfolding holds_registration_def by blast
    from r(1) consider r' where "r' \<in> set (rd_registrations db)"
        "r = (if sr_relationship r' = ''Enrolled'' \<and> valid_registration now r' then r'\<lparr>sr_end := Some now\<rparr> else r')"
      | a where "a \<in> set as" "r = new_enrolment start a"
      unfolding saved_rows set_append set_map by blast
    then show "(user, i) \<in> set as"
    proof cases
      case 1
      then have "sr_relationship r' = ''Enrolled''" using r(5) by (auto split: if_splits)
      with old [OF 1(1)] 1(2) r(2) show ?thesis by blast
    next
      case 2
      obtain u j where a: "a = (u, j)" by (cases a)
      with 2 r(3,4) show ?thesis by simp
    qed
  next
    assume "(user, i) \<in> set as"
    then have "new_enrolment start (user, i) \<in> set (rd_registrations (save_assignments now start as db))"
      unfolding saved_rows set_append set_map by blast
    then show "holds_registration (save_assignments now start as db) when user i ''Enrolled''"
      unfolding holds_registration_def by (intro bexI) (use assms(4) in simp_all)
  qed
qed

text \<open>What the lottery computed is what the database counts.\<close>

lemma assignments_iff:
  "(user, j) \<in> set (assignments_of L student_ids st) \<longleftrightarrow>
     (\<exists>i<num_students L. \<exists>si<num_sections L. student_sections st i si \<and> user = student_ids ! i \<and> j = section_ids L si)"
  by (auto simp: assignments_of_def)

lemma saved_count:
  assumes settled: "settled_rows t db" and time: "t \<le> now" "now < start" "start \<le> when"
    and ids: "distinct student_ids" "length student_ids = num_students L"
    and sections: "inj_on (section_ids L) {..<num_sections L}" and si: "si < num_sections L"
  shows "count_enrolled_students (save_assignments now start (assignments_of L student_ids st) db) when (section_ids L si) =
    enrolled_in L st si"
proof -
  let ?db = "save_assignments now start (assignments_of L student_ids st) db"
  have "set (students ?db when [''Enrolled''] (section_ids L si)) = (!) student_ids ` {i. i < num_students L \<and> student_sections st i si}"
  proof (rule set_eqI)
    fix u
    have "u \<in> set (students ?db when [''Enrolled''] (section_ids L si)) \<longleftrightarrow>
        (u, section_ids L si) \<in> set (assignments_of L student_ids st)"
      using saved_enrolments [OF settled time] by (simp add: students_iff)
    also have "\<dots> \<longleftrightarrow> u \<in> (!) student_ids ` {i. i < num_students L \<and> student_sections st i si}"
      unfolding assignments_iff using sections si by (auto dest: inj_onD)
    finally show "u \<in> set (students ?db when [''Enrolled''] (section_ids L si)) \<longleftrightarrow> \<dots>" .
  qed
  moreover have "inj_on ((!) student_ids) {i. i < num_students L \<and> student_sections st i si}"
    using ids by (auto simp: inj_on_def nth_eq_iff_index_eq)
  ultimately have "card (set (students ?db when [''Enrolled''] (section_ids L si))) = card {i. i < num_students L \<and> student_sections st i si}"
    by (simp add: card_image)
  then show ?thesis
    by (simp add: count_enrolled_students_def enrolled_in_def total_card flip: distinct_card)
qed

text \<open>The sections without an assignment are not touched, although nobody is enrolled in them any more.\<close>

lemma stale_counts:
  assumes settled: "settled_rows t db" and "t \<le> now" and "now < start" and "start \<le> when"
    and s: "s \<in> set (rd_sections db)" and none: "cl_id s \<notin> snd ` set as"
  shows "s \<in> set (rd_sections (save_assignments now start as db))"
    and "count_enrolled_students (save_assignments now start as db) when (cl_id s) = 0"
proof -
  show "s \<in> set (rd_sections (save_assignments now start as db))"
    unfolding save_assignments_def Let_def by (rule refresh_other [OF _ none]) (simp add: clear_saved_assignments_def s)
  have "set (students (save_assignments now start as db) when [''Enrolled''] (cl_id s)) = {}"
  proof -
    have "u \<notin> set (students (save_assignments now start as db) when [''Enrolled''] (cl_id s))" for u
      using saved_enrolments [OF assms(1-4), of as u "cl_id s"] none by (force simp: students_iff)
    then show ?thesis by (intro equals0I) blast
  qed
  then show "count_enrolled_students (save_assignments now start as db) when (cl_id s) = 0"
    by (simp add: count_enrolled_students_def)
qed

subsection \<open>Mailing lists\<close>

definition clear_mailman_list :: "mailing_list \<Rightarrow> registration_db \<Rightarrow> registration_db" where
  "clear_mailman_list l db = db\<lparr>rd_lists := filter (\<lambda>m. fst m \<noteq> l) (rd_lists db)\<rparr>"

definition add_list_members :: "mailing_list \<Rightarrow> int list \<Rightarrow> registration_db \<Rightarrow> registration_db" where
  "add_list_members l users db = foldl (\<lambda>db u. add_list_member l u db) db users"

fun rewrite_lists :: "registration_db \<Rightarrow> section_row \<times> int list \<Rightarrow> registration_db" where
  "rewrite_lists db (s, users) =
     foldl (\<lambda>db l. add_list_members l users (clear_mailman_list l db)) db
       [Section_List (cl_id s), Class_List (sj_id (sn_subject s))]"

definition update_mailman_lists :: "int list \<Rightarrow> (section_row \<times> int list) list \<Rightarrow> registration_db \<Rightarrow> registration_db" where
  "update_mailman_lists student_ids sections db =
     foldl rewrite_lists (add_list_members Program_List student_ids (clear_mailman_list Program_List db)) sections"

lemma add_list_members_set:
  "set (rd_lists (add_list_members l users db)) = set (rd_lists db) \<union> Pair l ` set users"
  unfolding add_list_members_def
  by (induction users arbitrary: db) (auto simp: add_list_member_def)

lemma rewrite_lists_set:
  "set (rd_lists (rewrite_lists db (s, users))) =
     {m \<in> set (rd_lists db). fst m \<noteq> Section_List (cl_id s) \<and> fst m \<noteq> Class_List (sj_id (sn_subject s))} \<union>
     Pair (Section_List (cl_id s)) ` set users \<union> Pair (Class_List (sj_id (sn_subject s))) ` set users"
  by (auto simp: add_list_members_set clear_mailman_list_def)

lemma class_list_of_last_section:
  assumes "\<forall>p\<in>set later. sj_id (sn_subject (fst p)) \<noteq> sj_id (sn_subject s)"
  shows "(Class_List (sj_id (sn_subject s)), u) \<in> set (rd_lists (update_mailman_lists student_ids (earlier @ (s, users) # later) db))
    \<longleftrightarrow> u \<in> set users"
proof -
  let ?l = "Class_List (sj_id (sn_subject s))"
  have other: "(?l, u) \<in> set (rd_lists (foldl rewrite_lists db later)) \<longleftrightarrow> (?l, u) \<in> set (rd_lists db)" for db
    using assms
  proof (induction later arbitrary: db)
    case (Cons p later)
    obtain s' users' where p: "p = (s', users')" by (cases p)
    have "(?l, u) \<in> set (rd_lists (rewrite_lists db (s', users'))) \<longleftrightarrow> (?l, u) \<in> set (rd_lists db)"
      using Cons.prems by (auto simp: rewrite_lists_set p simp del: rewrite_lists.simps)
    with Cons show ?case by (simp add: p del: rewrite_lists.simps)
  qed simp
  show ?thesis
    unfolding update_mailman_lists_def foldl_append foldl_Cons other rewrite_lists_set by auto
qed


end
