(* ===== verification/Lottery_Examples.thy ===== *)
theory Lottery_Examples
  imports Lottery_Saving
begin

section \<open>A small lottery\<close>

text \<open>
  Two students, three sections and a lunch on one day of four timeslots, and a source of random numbers that
  always takes what comes first. The numbers of the timeslots and sections are ids, not positions.
\<close>

definition first_come :: random_source where
  "first_come = \<lparr>rs_weighted = (\<lambda>n xs k w. take k (filter (\<lambda>x. w x > 0) xs)), rs_sample = (\<lambda>n xs k. take k xs),
     rs_pick = (\<lambda>n xs. hd xs), rs_shuffle = (\<lambda>n xs. xs), rs_argsort = (\<lambda>f xs. xs)\<rparr>"

lemma first_come_laws: "random_laws first_come"
proof -
  have "set (take k (filter (\<lambda>x. w x > 0) xs)) \<subseteq> {x \<in> set xs. w x > 0}" for k and w :: "nat \<Rightarrow> rat" and xs :: "nat list"
    using set_take_subset [of k "filter (\<lambda>x. w x > 0) xs"] by auto
  moreover have "distinct (take k (filter (\<lambda>x. w x > 0) xs))" if "distinct xs" for k and w :: "nat \<Rightarrow> rat" and xs :: "nat list"
    using that by simp
  ultimately show ?thesis
    by (simp add: random_laws_def first_come_def set_take_subset)
qed

definition ex_options :: lottery_options where
  "ex_options = \<lparr>Kp = 6 / 5, Ki = 11 / 10, check_grade = True, use_student_apps = False, max_timeslots = 2, max_sections = 0,
     assign_lunches_option = True\<rparr>"

text \<open>Section 21 meets once, section 22 twice, section 23 in the last timeslot; section 24 is lunch.\<close>

definition ex_lottery_section :: "nat \<Rightarrow> nat list \<Rightarrow> bool \<Rightarrow> lottery_section" where
  "ex_lottery_section i slots is_lunch = \<lparr>lsec_id = i, lsec_parent = i + 100, lsec_times = slots, lsec_capacity = 1,
     lsec_grade_min = 7, lsec_grade_max = 12, lsec_is_lunch = is_lunch\<rparr>"

definition ex_input :: "lottery_section list \<Rightarrow> lottery_input" where
  "ex_input sections = \<lparr>li_students = [2, 5], li_grades = (\<lambda>u. 9), li_sections = sections, li_all_sections = [],
     li_timeslots = [(1, (2025, 11, 22)), (2, (2025, 11, 22)), (4, (2025, 11, 22)), (6, (2025, 11, 22))],
     li_lunch_timeslots = [(4, (2025, 11, 22)), (6, (2025, 11, 22))],
     li_interest = [(5, 21)], li_subject_interest = [], li_priority = (\<lambda>i. if i = 1 then [(2, 21), (5, 21)] else [(2, 22)]),
     li_exceptions = [], li_priority_limit = 2, li_use_exceptions = False, li_size_max = 0, li_options = ex_options\<rparr>"

definition ex_sections :: "lottery_section list" where
  "ex_sections = [ex_lottery_section 21 [1] False, ex_lottery_section 22 [2, 4] False, ex_lottery_section 24 [6] True]"

lemma ex_input_sound: "sound_input (ex_input ex_sections)"
  by (simp add: sound_input_def ex_input_def ex_sections_def ex_lottery_section_def ex_options_def)

definition ex_lottery :: lottery where
  "ex_lottery = (case initialize (ex_input ex_sections) of Inr L \<Rightarrow> L | Inl e \<Rightarrow> undefined)"

lemma ex_initialized: "\<exists>L. initialize (ex_input ex_sections) = Inr L"
proof -
  have "case initialize (ex_input ex_sections) of Inr L \<Rightarrow> True | Inl e \<Rightarrow> False" by code_simp
  then show ?thesis by (cases "initialize (ex_input ex_sections)") auto
qed

lemma ex_lottery_initial: "initialize (ex_input ex_sections) = Inr ex_lottery"
  using ex_initialized by (auto simp: ex_lottery_def)

text \<open>
  The limit on timeslots is only compared with what the student already has: the student gets the first section and
  then, with one timeslot of at most two, the second section, which takes two more.
\<close>

definition limited_lottery :: lottery where
  "limited_lottery = \<lparr>num_students = 1, num_sections = 2, num_timeslots = 3, lt_options = ex_options, lt_program_size_max = 0,
     priority = (\<lambda>level i si. level = si + 1), lt_interest = (\<lambda>i si. False), ranks = (\<lambda>i si. 10),
     effective_priority_limit = 2, grade_range_exceptions = False,
     section_schedules = (\<lambda>si t. (si = 0) = (t = 0)), section_capacities = (\<lambda>si. 5),
     section_overlap = (\<lambda>si sj. si = sj), section_grade_min = (\<lambda>si. 7), section_grade_max = (\<lambda>si. 12),
     student_grades = (\<lambda>i. 9), lunch_schedule = (\<lambda>t. False), lunch_timeslot_indices = [],
     lunch_sections_by_timeslot = [], section_ids = (\<lambda>si. int si + 21)\<rparr>"

lemma limited_lottery_result:
  "case lottery_compute_assignments limited_lottery first_come 0 True of
     Inl e \<Rightarrow> False
   | Inr st \<Rightarrow> total 3 (student_schedules st 0) > max_timeslots ex_options"
  by code_simp

lemma ex_lottery_wf: "wf_lottery ex_lottery"
  by (rule initialize_well_formed [OF ex_lottery_initial ex_input_sound])

lemma ex_lottery_sizes:
  "num_students ex_lottery = 2" "num_sections ex_lottery = 3" "inj_on (section_ids ex_lottery) {..<num_sections ex_lottery}"
proof -
  have "case initialize (ex_input ex_sections) of Inl e \<Rightarrow> False
     | Inr L \<Rightarrow> num_students L = 2 \<and> num_sections L = 3 \<and> distinct (map (section_ids L) [0..<3])"
    by code_simp
  then show sizes: "num_students ex_lottery = 2" "num_sections ex_lottery = 3"
    and "inj_on (section_ids ex_lottery) {..<num_sections ex_lottery}"
    by (simp_all add: ex_lottery_initial distinct_map lessThan_atLeast0 flip: atLeastLessThan_upt)
qed

text \<open>A section that meets at timeslot 3, which is none of the program's.\<close>

definition ex_foreign :: "lottery_section list" where
  "ex_foreign = [ex_lottery_section 21 [1] False, ex_lottery_section 22 [3] False]"

lemma ex_foreign_initialized: "\<exists>L. initialize (ex_input ex_foreign) = Inr L \<and> num_sections L = 2"
proof -
  have "case initialize (ex_input ex_foreign) of Inr L \<Rightarrow> num_sections L = 2 | Inl e \<Rightarrow> False" by code_simp
  then show ?thesis by (cases "initialize (ex_input ex_foreign)") auto
qed


end
