(* ===== verification/Saving_Examples.thy ===== *)
theory Saving_Examples
  imports Saving Loading_Examples
begin

section \<open>Concrete saves\<close>

text \<open>
  The database holds section 31 in room A; the schedule does not hold it any more. In the larger schedule
  section 32, which the database does not hold, has moved to room A.
\<close>

definition held_db :: database where
  "held_db = ex_database\<lparr>db_events := [ex_event 101 10],
     db_sections := [ex_row, ex_row\<lparr>cs_id := 32, cs_meeting_times := []\<rparr>],
     db_resources := [ex_booking 10], db_assignments := [(31, 51)]\<rparr>"

lemma held_db_simps [simp]:
  "db_events held_db = [ex_event 101 10]" "db_sections held_db = [ex_row, ex_row\<lparr>cs_id := 32, cs_meeting_times := []\<rparr>]"
  "db_resources held_db = [ex_booking 10]" "db_assignments held_db = [(31, 51)]" "db_locked held_db = []"
  by (simp_all add: held_db_def ex_database_def)

lemma held_rows [simp]:
  "meetings_of held_db 31 = [ex_event 101 10]" "meetings_of held_db 32 = []"
  "classrooms_of held_db 31 = [ex_booking 10]"
  by (simp_all add: meetings_of_def meeting_ids_def classrooms_of_def is_classroom_def ex_booking_def)
    (simp_all add: ex_row_def)

definition held_section :: as_section where
  "held_section = \<lparr>sec_id = 31, sec_parent = 41, sec_duration = 1, sec_teachers = [], sec_capacity = 10, sec_grade_min = 7,
     sec_grade_max = 12, sec_category = 1, sec_roomslots = [], sec_requests = [],
     sec_initial_state = database_hash held_db 31\<rparr>"

definition held_heap :: heap where
  "held_heap = ex_heap\<lparr>hp_sec := (hp_sec ex_heap)(30 := held_section,
     29 := held_section\<lparr>sec_id := 32, sec_roomslots := [4], sec_initial_state := ([], [])\<rparr>)\<rparr>"

definition held_schedule :: "(int, secref) dict \<Rightarrow> schedule" where
  "held_schedule sections = loaded_schedule\<lparr>sch_sections := sections\<rparr>"

lemma held_simps [simp]:
  "hp_sec held_heap 30 = held_section"
  "hp_sec held_heap 29 = held_section\<lparr>sec_id := 32, sec_roomslots := [4], sec_initial_state := ([], [])\<rparr>"
  "sch_sections (held_schedule sections) = sections"
  by (simp_all add: held_heap_def held_schedule_def)

lemma held_hash: "scheduling_hash held_heap 30 = ([], [])" "database_hash held_db 31 \<noteq> ([], [])"
  by (simp_all add: scheduling_hash_def Let_def held_section_def database_hash_def hash_of_def)

lemma held_objs [simp]: "section_objs held_db held_heap (held_schedule [(31, 30)]) = [31]"
  by (simp add: section_objs_def changed_sections_def dict_values_def held_hash held_section_def)

lemma held_objs_two: "section_objs held_db held_heap (held_schedule [(31, 30), (32, 29)]) = [31, 32]"
proof -
  have "scheduling_hash held_heap 29 \<noteq> ([], [])" by (simp add: scheduling_hash_def Let_def held_section_def)
  then show ?thesis
    by (simp add: section_objs_def changed_sections_def dict_values_def held_hash held_section_def)
qed

definition released_db :: database where
  "released_db = clearRooms 31 (clear_meeting_times 31 held_db)"

lemma released_hash: "database_hash released_db 31 = ([], [])"
  by (simp add: released_db_def database_hash_def hash_of_def meetings_of_def meeting_ids_def classrooms_of_def
      clearRooms_def clear_meeting_times_def set_meeting_times_def is_room_id_def is_classroom_def)

lemma released: "save_schedule held_heap (held_schedule [(31, 30)]) False False (held_db, []) =
    Inr (recompute_hash held_heap 30, (released_db, [([], [], 31)]))"
proof -
  have slots: "sec_roomslots (hp_sec held_heap 30) = []" "sec_id (hp_sec held_heap 30) = 31"
      "sec_teachers (hp_sec held_heap 30) = []" "sec_initial_state (hp_sec held_heap 30) = database_hash held_db 31"
    by (simp_all add: held_section_def)
  let ?info = "\<lparr>sif_section = 30, sif_id = 31, sif_possible_conflicts = [], sif_meeting_times = [], sif_rooms = []\<rparr>"
  have info: "section_info_of held_db held_heap (held_schedule [(31, 30)]) 31 = Inr ?info"
    by (simp add: section_info_of_def dict_get_def slots possible_conflicts_def del: held_simps(1))
  have free: "check_can_schedule_sections h db [?info] = Inr ()"
    if "sec_roomslots (hp_sec h 30) = []" "db_locked db = []" for h db
    using that by (simp add: check_can_schedule_sections_def check_can_schedule_section_def)
  have release: "release_section held_heap (held_schedule [(31, 30)]) 31 (held_db, []) 31 = Inr (released_db, [([], [], 31)])"
    by (simp add: release_section_def dict_get_def ensure_section_not_moved_def slots released_db_def del: held_simps(1))
  have confirm: "confirm_section (held_schedule [(31, 30)]) released_db held_heap 31 = Inr (recompute_hash held_heap 30)"
    by (simp add: confirm_section_def dict_get_def ensure_section_not_moved_def recompute_hash_def released_hash held_hash
        slots del: held_simps(1))
  have locked: "db_locked released_db = []"
    by (simp add: released_db_def clearRooms_def clear_meeting_times_def set_meeting_times_def)
  have after: "sec_roomslots (hp_sec (recompute_hash held_heap 30) 30) = []"
    by (simp add: recompute_hash_def held_section_def)
  show ?thesis
    by (simp add: save_schedule_def info release confirm free slots locked after place_section_info_def del: held_simps(1))
qed

end
