(* ===== verification/Lunch_Constraints.thy ===== *)
theory Lunch_Constraints
  imports Schedule_Constraints
begin

section \<open>Generating lunch constraints (program/controllers/lunch\_constraints.py)\<close>

text \<open>
  \<open>LunchConstraintGenerator\<close> sorts the timeslots of each day into those before, during and after
  lunch, keeps one lunch class per day with a section in every lunch timeslot, and builds a constraint
  per day: a student with a class before and one after lunch needs a lunch period. The
  expressions are built token by token, with \<open>apply_binary_op_to_list\<close> halving the list of tests.

  \<open>apply_or_value\<close>: the tokens it adds compute the disjunction of the tests.
  \<open>generated_constraint\<close>: what the constraint of a day demands, including days without timeslots
  before or after lunch, where the token \<open>AND\<close> finds too few operands. \<open>lunch_sections_exist\<close>: after
  generation every lunch timeslot has an accepted section. The messages and the code texts
  stored in \<open>on_failure\<close>, which are never run, are left out.
\<close>

record timeslot_row =
  tr_id :: int
  tr_start :: datetime

record day_slots =
  ds_before :: "timeslot_row list"
  ds_lunch :: "timeslot_row list"
  ds_after :: "timeslot_row list"

type_synonym date = "int \<times> int \<times> int"

subsection \<open>The timeslots of a day\<close>

definition no_slots :: day_slots where
  "no_slots = \<lparr>ds_before = [], ds_lunch = [], ds_after = []\<rparr>"

fun sort_timeslot ::
  "timeslot_row list \<Rightarrow> (date, day_slots) dict \<times> bool \<Rightarrow> timeslot_row \<Rightarrow> (date, day_slots) dict \<times> bool" where
  "sort_timeslot lunch_timeslots (days, past_lunch) timeslot =
     (let day = date_of (tr_start timeslot);
         past_lunch = (if dict_has days day then past_lunch else False);
         days = (if dict_has days day then days else AList.update day no_slots days);
         slots = (case map_of days day of Some d \<Rightarrow> d | None \<Rightarrow> no_slots) in
     if \<exists>l\<in>set lunch_timeslots. tr_start l = tr_start timeslot
     then (AList.update day (slots\<lparr>ds_lunch := ds_lunch slots @ [timeslot]\<rparr>) days, True)
     else if past_lunch
     then (AList.update day (slots\<lparr>ds_after := ds_after slots @ [timeslot]\<rparr>) days, past_lunch)
     else (AList.update day (slots\<lparr>ds_before := ds_before slots @ [timeslot]\<rparr>) days, past_lunch))"

definition LunchConstraintGenerator_init ::
  "timeslot_row list \<Rightarrow> timeslot_row list \<Rightarrow> (date, day_slots) dict" where
  "LunchConstraintGenerator_init all_timeslots lunch_timeslots =
     fst (foldl (sort_timeslot (sort_key tr_start lunch_timeslots)) ([], False) all_timeslots)"

subsection \<open>Constraints\<close>

abbreviation test_token :: "test \<Rightarrow> test token" where
  "test_token t \<equiv> \<lparr>tok_seq = 0, tok_text = [], tok_test = t\<rparr>"

abbreviation add :: "test expression \<Rightarrow> test token_or_value \<Rightarrow> test expression" where
  "add expression tv \<equiv> add_token Plain expression tv None"

lemma halves_shorter:
  assumes "length xs \<noteq> 0" and "length xs \<noteq> 1"
  shows "length xs div 2 < length xs" and "length xs - length xs div 2 < length xs"
  using assms by (cases xs; cases "tl xs"; simp)+

function apply_binary_op_to_list ::
  "test expression \<Rightarrow> string \<Rightarrow> string \<Rightarrow> test token list \<Rightarrow> test expression" where
  "apply_binary_op_to_list expression operator_text identity_value tokens =
     (if length tokens = 0 then expression
      else if length tokens = 1 then
        add (add (add expression (Copy_Of (last tokens))) (Value identity_value)) (Value operator_text)
      else if length tokens = 2 then
        add (add (add expression (Copy_Of (last tokens))) (Copy_Of (last (butlast tokens)))) (Value operator_text)
      else
        let midpoint = length tokens div 2;
            expression1 = apply_binary_op_to_list expression operator_text identity_value (take midpoint tokens);
            expression2 = apply_binary_op_to_list expression1 operator_text identity_value (drop midpoint tokens)
        in add expression2 (Value operator_text))"
  by pat_completeness auto
termination
  by (relation "measure (\<lambda>(e, opr, i, tokens). length tokens)") (use halves_shorter in auto)

declare apply_binary_op_to_list.simps [simp del]

definition generate_constraint :: "bool \<Rightarrow> int \<Rightarrow> day_slots \<Rightarrow> schedule_constraint" where
  "generate_constraint include_conditions lunch_category slots =
     (let lunch_tests = map (\<lambda>t. test_token (Category (tr_id t) lunch_category)) (ds_lunch slots);
          exp_requirement = apply_binary_op_to_list [] ''OR'' ''0'' lunch_tests;
          morning_tests = map (\<lambda>t. test_token (Occupied (tr_id t))) (ds_before slots);
          afternoon_tests = map (\<lambda>t. test_token (Occupied (tr_id t))) (ds_after slots);
          exp_check = (if include_conditions
            then add (apply_binary_op_to_list (apply_binary_op_to_list [] ''OR'' ''0'' morning_tests)
                   ''OR'' ''0'' afternoon_tests) (Value ''AND'')
            else add [] (Value ''1''))
      in \<lparr>sc_condition = exp_check, sc_requirement = exp_requirement,
          sc_label = ''choose a lunch period on {day}''\<rparr>)"

subsection \<open>Lunch classes\<close>

record lunch_section =
  ls_id :: int
  ls_times :: "int list"
  ls_status :: int
  ls_students :: int

record lunch_subject =
  lj_day :: date
  lj_sections :: "lunch_section list"

record lunch_db =
  ld_subjects :: "lunch_subject list"
  ld_next :: int
  ld_constraints :: "schedule_constraint list"

text \<open>A section with students is not deleted but reported.\<close>

definition clear_existing_constraints :: "int list \<Rightarrow> lunch_db \<Rightarrow> lunch_db \<times> lunch_section list" where
  "clear_existing_constraints lunch_ids db =
     (let unwanted = (\<lambda>s. set (ls_times s) \<inter> set lunch_ids = {});
          undeleted = concat (map (\<lambda>j. filter (\<lambda>s. unwanted s \<and> ls_students s > 0) (lj_sections j)) (ld_subjects db));
          subjects = map (\<lambda>j. j\<lparr>lj_sections := filter (\<lambda>s. \<not> unwanted s \<or> ls_students s > 0) (lj_sections j)\<rparr>)
            (ld_subjects db)
      in (db\<lparr>ld_subjects := filter (\<lambda>j. lj_sections j \<noteq> []) subjects, ld_constraints := []\<rparr>, undeleted))"

definition get_lunch_subject :: "date \<Rightarrow> lunch_db \<Rightarrow> lunch_db" where
  "get_lunch_subject day db =
     (if \<exists>j\<in>set (ld_subjects db). lj_day j = day then db
      else db\<lparr>ld_subjects := ld_subjects db @ [\<lparr>lj_day = day, lj_sections = []\<rparr>]\<rparr>)"

fun update_first :: "('a \<Rightarrow> bool) \<Rightarrow> ('a \<Rightarrow> 'a) \<Rightarrow> 'a list \<Rightarrow> 'a list" where
  "update_first P f [] = []"
| "update_first P f (x # xs) = (if P x then f x # xs else x # update_first P f xs)"

definition ACCEPTED_STATUS :: int where "ACCEPTED_STATUS = 10"

definition add_lunch_section :: "int \<Rightarrow> int \<Rightarrow> lunch_subject \<Rightarrow> lunch_subject" where
  "add_lunch_section new_id timeslot j =
     (if \<exists>s\<in>set (lj_sections j). timeslot \<in> set (ls_times s)
      then j\<lparr>lj_sections := map (\<lambda>s. if timeslot \<in> set (ls_times s) then s\<lparr>ls_status := ACCEPTED_STATUS\<rparr> else s)
          (lj_sections j)\<rparr>
      else j\<lparr>lj_sections := lj_sections j @
          [\<lparr>ls_id = new_id, ls_times = [timeslot], ls_status = ACCEPTED_STATUS, ls_students = 0\<rparr>]\<rparr>)"

definition get_lunch_sections :: "date \<Rightarrow> timeslot_row list \<Rightarrow> lunch_db \<Rightarrow> lunch_db" where
  "get_lunch_sections day lunch db =
     foldl (\<lambda>db t. db\<lparr>ld_subjects := update_first (\<lambda>j. lj_day j = day) (add_lunch_section (ld_next db) (tr_id t))
           (ld_subjects db), ld_next := ld_next db + 1\<rparr>)
       (get_lunch_subject day db) lunch"

definition generate_all_constraints ::
  "bool \<Rightarrow> bool \<Rightarrow> int \<Rightarrow> timeslot_row list \<Rightarrow> timeslot_row list \<Rightarrow> lunch_db \<Rightarrow> lunch_db \<times> lunch_section list" where
  "generate_all_constraints constraints include_conditions lunch_category all_timeslots lunch_timeslots db =
     (let days = LunchConstraintGenerator_init all_timeslots lunch_timeslots;
          (db0, undeleted) = clear_existing_constraints (map tr_id lunch_timeslots) db
      in (foldl (\<lambda>db (day, slots).
            if ds_lunch slots = [] then db
            else let db1 = get_lunch_sections day (ds_lunch slots) (get_lunch_subject day db) in
              if constraints
              then db1\<lparr>ld_constraints := ld_constraints db1 @ [generate_constraint include_conditions lunch_category slots]\<rparr>
              else db1) db0 days, undeleted))"

subsection \<open>The value of the generated expressions\<close>

lemma operator_texts [simp]:
  "operator_of ''OR'' = Some Or_Op" "operator_of ''AND'' = Some And_Op" "operator_of ''0'' = None"
  "operator_of ''1'' = None" "operator_of [] = None" "literal_value ''0'' = False" "literal_value ''1'' = True"
  by code_simp+

lemma boolean_value_new [simp]:
  "boolean_value m (new_token Plain (Value s) n) = Inr (literal_value s)"
  "boolean_value m (new_token Plain (Copy_Of t) n) = boolean_value m t"
  "tok_text (new_token Plain (Value s) n) = s" "tok_text (new_token Plain (Copy_Of t) n) = tok_text t"
  by (simp_all add: boolean_value_def new_token_def split: test.split)

abbreviation top_down :: "test expression \<Rightarrow> test token list" where
  "top_down e \<equiv> rev (get_stack e)"

lemma top_down_add: "top_down (add e tv) = new_token Plain tv (next_seq e) # top_down e"
  by (simp add: get_stack_add)

text \<open>\<open>v\<close> gives the values of tests that do not raise.\<close>

lemma apply_or_value:
  assumes "\<And>t. t \<in> set ts \<Longrightarrow> tok_text t = [] \<and> boolean_value m t = Inr (v t)" and "ts \<noteq> []"
  shows "evaluate (boolean_value m) (top_down (apply_binary_op_to_list e ''OR'' ''0'' ts)) =
    Inr (Some (\<exists>t\<in>set ts. v t), top_down e)"
  using assms
proof (induction e "''OR'' :: string" "''0'' :: string" ts rule: apply_binary_op_to_list.induct)
  case (1 e ts)
  consider (one) t where "ts = [t]" | (two) t u where "ts = [t, u]" | (more) "length ts > 2"
    using "1.prems"(2) by (cases ts; cases "tl ts"; cases "tl (tl ts)") auto
  then show ?case
  proof cases
    case one
    then show ?thesis using "1.prems"(1)
      by (simp add: apply_binary_op_to_list.simps [of e] top_down_add evaluate_or evaluate_leaf)
  next
    case two
    then show ?thesis using "1.prems"(1)
      by (auto simp add: apply_binary_op_to_list.simps [of e] top_down_add evaluate_or evaluate_leaf)
  next
    case more
    define k where "k = length ts div 2"
    define e1 where "e1 = apply_binary_op_to_list e ''OR'' ''0'' (take k ts)"
    have k: "0 < k" "k < length ts" using more by (simp_all add: k_def)
    have sub: "t \<in> set (take k ts) \<or> t \<in> set (drop k ts) \<Longrightarrow> tok_text t = [] \<and> boolean_value m t = Inr (v t)" for t
      using "1.prems"(1) by (metis in_set_dropD in_set_takeD)
    have first: "evaluate (boolean_value m) (top_down e1) = Inr (Some (\<exists>t\<in>set (take k ts). v t), top_down e)"
      unfolding e1_def k_def by (rule "1.hyps"(1)) (use more k sub in \<open>auto simp: k_def\<close>)
    have second: "evaluate (boolean_value m) (top_down (apply_binary_op_to_list e1 ''OR'' ''0'' (drop k ts))) =
        Inr (Some (\<exists>t\<in>set (drop k ts). v t), top_down e1)"
      unfolding e1_def k_def by (rule "1.hyps"(2)) (use more k sub in \<open>auto simp: k_def\<close>)
    have "set ts = set (take k ts) \<union> set (drop k ts)" by (metis append_take_drop_id set_append)
    then have "(\<exists>t\<in>set ts. v t) \<longleftrightarrow> (\<exists>t\<in>set (drop k ts). v t) \<or> (\<exists>t\<in>set (take k ts). v t)" by auto
    moreover have "apply_binary_op_to_list e ''OR'' ''0'' ts = add (apply_binary_op_to_list e1 ''OR'' ''0'' (drop k ts)) (Value ''OR'')"
      using more by (subst apply_binary_op_to_list.simps) (auto simp: k_def e1_def Let_def)
    ultimately show ?thesis using first second by (simp add: top_down_add evaluate_or)
  qed
qed

lemma apply_or_empty [simp]: "apply_binary_op_to_list e opr i [] = e"
  by (simp add: apply_binary_op_to_list.simps)

lemma top_down_Nil [simp]: "top_down [] = []"
  by (simp add: get_stack_def)

text \<open>The condition: with no tests on one side the operator lacks an operand and the value is None or False.\<close>

lemma check_value:
  assumes "\<And>t. t \<in> set before \<union> set after \<Longrightarrow> tok_text t = [] \<and> boolean_value m t = Inr (v t)"
  shows "\<exists>x. evaluate_expression (boolean_value m)
      (add (apply_binary_op_to_list (apply_binary_op_to_list [] ''OR'' ''0'' before) ''OR'' ''0'' after) (Value ''AND'')) = Inr x \<and>
    (x = Some True \<longleftrightarrow> (\<exists>t\<in>set before. v t) \<and> (\<exists>t\<in>set after. v t))"
proof -
  let ?e1 = "apply_binary_op_to_list [] ''OR'' ''0'' before"
  let ?e2 = "apply_binary_op_to_list ?e1 ''OR'' ''0'' after"
  have e1: "before \<noteq> [] \<Longrightarrow> evaluate (boolean_value m) (top_down ?e1) = Inr (Some (\<exists>t\<in>set before. v t), [])"
    using apply_or_value [of before m v "[]"] assms by simp
  have e2: "after \<noteq> [] \<Longrightarrow> evaluate (boolean_value m) (top_down ?e2) = Inr (Some (\<exists>t\<in>set after. v t), top_down ?e1)"
    using apply_or_value [of after m v ?e1] assms by simp
  show ?thesis
    unfolding evaluate_expression_def top_down_add
    using e1 e2 by (cases "before = []"; cases "after = []") (auto simp: evaluate_and py_and_def)
qed

definition has_class :: "schedule_map \<Rightarrow> timeslot_row list \<Rightarrow> bool" where
  "has_class m ts \<longleftrightarrow> (\<exists>t\<in>set ts. at_time m (tr_id t) \<noteq> [])"

definition has_lunch :: "int \<Rightarrow> schedule_map \<Rightarrow> timeslot_row list \<Rightarrow> bool" where
  "has_lunch category m ts \<longleftrightarrow> (\<exists>t\<in>set ts. \<exists>sec\<in>set (at_time m (tr_id t)). cl_category sec = category)"

lemma boolean_value_tests [simp]:
  "boolean_value m (test_token (Occupied t)) = Inr (at_time m t \<noteq> [])"
  "boolean_value m (test_token (Category t c)) = Inr (\<exists>sec\<in>set (at_time m t). cl_category sec = c)"
  by (simp_all add: boolean_value_def)

definition test_holds :: "schedule_map \<Rightarrow> test token \<Rightarrow> bool" where
  "test_holds m t = (case boolean_value m t of Inr b \<Rightarrow> b | Inl _ \<Rightarrow> False)"

lemma generated_constraint:
  assumes "ds_lunch slots \<noteq> []"
  shows "evaluate_constraint (generate_constraint include_conditions category slots) m recursive =
    Inr ((include_conditions \<longrightarrow> has_class m (ds_before slots) \<and> has_class m (ds_after slots)) \<longrightarrow>
      has_lunch category m (ds_lunch slots))"
proof -
  let ?c = "generate_constraint include_conditions category slots"
  let ?lunch = "map (\<lambda>t. test_token (Category (tr_id t) category)) (ds_lunch slots)"
  let ?before = "map (\<lambda>t. test_token (Occupied (tr_id t))) (ds_before slots)"
  let ?after = "map (\<lambda>t. test_token (Occupied (tr_id t))) (ds_after slots)"
  have total: "tok_text t = [] \<and> boolean_value m t = Inr (test_holds m t)"
    if "t \<in> set ?lunch \<union> set ?before \<union> set ?after" for t
    using that by (auto simp: test_holds_def)
  have "evaluate (boolean_value m) (top_down (apply_binary_op_to_list [] ''OR'' ''0'' ?lunch)) =
      Inr (Some (\<exists>t\<in>set ?lunch. test_holds m t), top_down [])"
  proof (rule apply_or_value)
    fix t assume "t \<in> set ?lunch"
    then show "tok_text t = [] \<and> boolean_value m t = Inr (test_holds m t)" by (intro total) blast
  qed (use assms in simp)
  then have req: "evaluate_expression (boolean_value m) (sc_requirement ?c) = Inr (Some (has_lunch category m (ds_lunch slots)))"
    by (simp add: evaluate_expression_def generate_constraint_def Let_def has_lunch_def test_holds_def)
  obtain x where cond: "evaluate_expression (boolean_value m) (sc_condition ?c) = Inr x"
    "x = Some True \<longleftrightarrow> (include_conditions \<longrightarrow> has_class m (ds_before slots) \<and> has_class m (ds_after slots))"
  proof (cases include_conditions)
    case True
    have "\<exists>x. evaluate_expression (boolean_value m) (sc_condition ?c) = Inr x \<and>
        (x = Some True \<longleftrightarrow> (\<exists>t\<in>set ?before. test_holds m t) \<and> (\<exists>t\<in>set ?after. test_holds m t))"
    proof -
      have eq: "sc_condition ?c = add (apply_binary_op_to_list (apply_binary_op_to_list [] ''OR'' ''0'' ?before) ''OR'' ''0'' ?after)
          (Value ''AND'')" using True by (simp add: generate_constraint_def Let_def)
      show ?thesis unfolding eq
      proof (rule check_value)
        fix t assume "t \<in> set ?before \<union> set ?after"
        then show "tok_text t = [] \<and> boolean_value m t = Inr (test_holds m t)" by (intro total) blast
      qed
    qed
    with that True show thesis by (auto simp: has_class_def test_holds_def)
  next
    case False
    with that [of "Some True"] show thesis
      by (simp add: evaluate_expression_def generate_constraint_def Let_def top_down_add evaluate_leaf)
  qed
  show ?thesis
    by (subst evaluate_constraint_recursive) (auto simp: evaluate_constraint.simps cond req)
qed

subsection \<open>The timeslots before, during and after lunch\<close>

lemma date_of_mono: "x \<le> y \<Longrightarrow> date_of x \<le> date_of y"
  by (auto simp: less_eq_datetime_def dt_tuple_def date_of_def)

lemma sort_timeslots:
  fixes all lunch :: "timeslot_row list"
  defines "is_lunch \<equiv> \<lambda>t. \<exists>l\<in>set lunch. tr_start l = tr_start t"
  defines "day \<equiv> \<lambda>t. date_of (tr_start t)"
  assumes "sorted (map tr_start all)"
  shows "map_of (LunchConstraintGenerator_init all lunch) d =
    (if \<exists>t\<in>set all. day t = d then Some \<lparr>
       ds_before = filter (\<lambda>t. day t = d \<and> \<not> is_lunch t \<and>
         (\<forall>l\<in>set all. is_lunch l \<and> day l = d \<longrightarrow> tr_start t < tr_start l)) all,
       ds_lunch = filter (\<lambda>t. day t = d \<and> is_lunch t) all,
       ds_after = filter (\<lambda>t. day t = d \<and> \<not> is_lunch t \<and>
         (\<exists>l\<in>set all. is_lunch l \<and> day l = d \<and> tr_start l < tr_start t)) all\<rparr> else None)"
proof -
  define spec where "spec = (\<lambda>xs d. \<lparr>
       ds_before = filter (\<lambda>t. day t = d \<and> \<not> is_lunch t \<and>
         (\<forall>l\<in>set xs. is_lunch l \<and> day l = d \<longrightarrow> tr_start t < tr_start l)) xs,
       ds_lunch = filter (\<lambda>t. day t = d \<and> is_lunch t) xs,
       ds_after = filter (\<lambda>t. day t = d \<and> \<not> is_lunch t \<and>
         (\<exists>l\<in>set xs. is_lunch l \<and> day l = d \<and> tr_start l < tr_start t)) xs\<rparr>)"
  have "(\<forall>d. map_of (fst (foldl (sort_timeslot (sort_key tr_start lunch)) ([], False) xs)) d =
      (if \<exists>t\<in>set xs. day t = d then Some (spec xs d) else None)) \<and>
    (xs \<noteq> [] \<longrightarrow> snd (foldl (sort_timeslot (sort_key tr_start lunch)) ([], False) xs) =
      (\<exists>l\<in>set xs. is_lunch l \<and> day l = day (last xs)))"
    if "sorted (map tr_start xs)" for xs
    using that
  proof (induction xs rule: rev_induct)
    case (snoc t xs)
    obtain days past where dp: "foldl (sort_timeslot (sort_key tr_start lunch)) ([], False) xs = (days, past)"
      by (metis surj_pair)
    have le: "tr_start u \<le> tr_start t" if "u \<in> set xs" for u
      using snoc.prems that by (auto simp: sorted_append)
    have IH: "\<And>d. map_of days d = (if \<exists>t\<in>set xs. day t = d then Some (spec xs d) else None)"
      "xs \<noteq> [] \<Longrightarrow> past = (\<exists>l\<in>set xs. is_lunch l \<and> day l = day (last xs))"
      using snoc dp by (auto simp: sorted_append)
    have same: "day (last xs) = day t" if "u \<in> set xs" "day u = day t" for u
    proof -
      have l: "last xs \<in> set xs" using that(1) by (cases xs) auto
      have "tr_start u \<le> tr_start (last xs)"
        using snoc.prems that(1) by (cases xs rule: rev_cases) (auto simp: sorted_append)
      then have "day u \<le> day (last xs)" "day (last xs) \<le> day t"
        using date_of_mono le [OF l] by (auto simp: day_def)
      with that(2) show ?thesis by simp
    qed
    define past' where "past' = (if dict_has days (day t) then past else False)"
    have past': "past' \<longleftrightarrow> (\<exists>l\<in>set xs. is_lunch l \<and> day l = day t)"
      using IH same by (cases "xs = []") (auto simp: past'_def dict_has_def)
    have lunch_eq: "tr_start u \<noteq> tr_start t" if "is_lunch t \<noteq> is_lunch u" for u
      using that by (auto simp: is_lunch_def)
    have strict: "tr_start u < tr_start t" if "u \<in> set xs" "is_lunch t \<noteq> is_lunch u" for u
      using le [OF that(1)] lunch_eq [OF that(2)] by simp
    have old: "spec xs (day t) = (case map_of days (day t) of Some s \<Rightarrow> s | None \<Rightarrow> no_slots)"
      using IH(1) [of "day t"] by (auto simp: spec_def no_slots_def)
    have other: "spec (xs @ [t]) d = spec xs d" if "day t \<noteq> d" for d
      using that by (auto simp: spec_def)
    have new: "spec (xs @ [t]) (day t) =
      (let s = spec xs (day t) in
       if is_lunch t then s\<lparr>ds_lunch := ds_lunch s @ [t]\<rparr>
       else if past' then s\<lparr>ds_after := ds_after s @ [t]\<rparr> else s\<lparr>ds_before := ds_before s @ [t]\<rparr>)"
      unfolding past' Let_def spec_def using le strict
      by (auto intro!: filter_cong simp: not_less dest: leD)
    have step: "foldl (sort_timeslot (sort_key tr_start lunch)) ([], False) (xs @ [t]) =
      (AList.update (day t) (spec (xs @ [t]) (day t)) (if dict_has days (day t) then days else AList.update (day t) no_slots days),
       is_lunch t \<or> past')"
    proof -
      define base where "base = (if dict_has days (day t) then days else AList.update (day t) no_slots days)"
      have slots: "(case map_of base (day t) of Some s \<Rightarrow> s | None \<Rightarrow> no_slots) = spec xs (day t)"
        unfolding old by (auto simp: base_def dict_has_def map_of_update_eq split: option.splits)
      have d: "date_of (tr_start t) = day t" and l: "(\<exists>l\<in>set (sort_key tr_start lunch). tr_start l = tr_start t) = is_lunch t"
        by (simp_all add: day_def is_lunch_def)
      have "sort_timeslot (sort_key tr_start lunch) (days, past) t =
          (let s = spec xs (day t) in
           if is_lunch t then (AList.update (day t) (s\<lparr>ds_lunch := ds_lunch s @ [t]\<rparr>) base, True)
           else if past' then (AList.update (day t) (s\<lparr>ds_after := ds_after s @ [t]\<rparr>) base, past')
           else (AList.update (day t) (s\<lparr>ds_before := ds_before s @ [t]\<rparr>) base, past'))"
        unfolding sort_timeslot.simps Let_def d l base_def [symmetric] past'_def [symmetric] slots ..
      then show ?thesis unfolding new base_def [symmetric] by (simp add: Let_def dp)
    qed
    show ?case
      unfolding step using IH(1) other past' by (auto simp: map_of_update_eq)
  qed simp
  from this [OF assms(3)] have "map_of (LunchConstraintGenerator_init all lunch) d =
      (if \<exists>t\<in>set all. day t = d then Some (spec all d) else None)"
    unfolding LunchConstraintGenerator_init_def by blast
  then show ?thesis by (simp only: spec_def)
qed

subsection \<open>The lunch sections\<close>

definition served :: "lunch_db \<Rightarrow> date \<Rightarrow> int \<Rightarrow> bool" where
  "served db day t \<longleftrightarrow> (\<exists>j\<in>set (ld_subjects db). lj_day j = day \<and>
     (\<exists>s\<in>set (lj_sections j). t \<in> set (ls_times s) \<and> ls_status s = ACCEPTED_STATUS))"

definition provides :: "date \<Rightarrow> int \<Rightarrow> lunch_subject \<Rightarrow> bool" where
  "provides day t j \<longleftrightarrow> lj_day j = day \<and> (\<exists>s\<in>set (lj_sections j). t \<in> set (ls_times s) \<and> ls_status s = ACCEPTED_STATUS)"

lemma served_iff: "served db day t \<longleftrightarrow> (\<exists>j\<in>set (ld_subjects db). provides day t j)"
  by (simp add: served_def provides_def)

lemma add_lunch_section_day [simp]: "lj_day (add_lunch_section i u j) = lj_day j"
  by (simp add: add_lunch_section_def)

lemma add_lunch_section_keeps:
  assumes "provides day t j"
  shows "provides day t (add_lunch_section i u j)"
proof -
  from assms obtain s where s: "lj_day j = day" "s \<in> set (lj_sections j)" "t \<in> set (ls_times s)"
      "ls_status s = ACCEPTED_STATUS"
    by (auto simp: provides_def)
  let ?f = "\<lambda>s. if u \<in> set (ls_times s) then s\<lparr>ls_status := ACCEPTED_STATUS\<rparr> else s"
  have "?f s \<in> ?f ` set (lj_sections j)" using s(2) by (rule imageI)
  moreover have "t \<in> set (ls_times (?f s))" "ls_status (?f s) = ACCEPTED_STATUS" using s by simp_all
  ultimately have "\<exists>s\<in>?f ` set (lj_sections j). t \<in> set (ls_times s) \<and> ls_status s = ACCEPTED_STATUS" by blast
  with s show ?thesis by (auto simp: provides_def add_lunch_section_def)
qed

lemma add_lunch_section_gives:
  assumes "lj_day j = day"
  shows "provides day u (add_lunch_section i u j)"
proof (cases "\<exists>s\<in>set (lj_sections j). u \<in> set (ls_times s)")
  case True
  then obtain s where s: "s \<in> set (lj_sections j)" "u \<in> set (ls_times s)" by blast
  let ?f = "\<lambda>s. if u \<in> set (ls_times s) then s\<lparr>ls_status := ACCEPTED_STATUS\<rparr> else s"
  have "?f s \<in> ?f ` set (lj_sections j)" using s(1) by (rule imageI)
  moreover have "u \<in> set (ls_times (?f s))" "ls_status (?f s) = ACCEPTED_STATUS" using s by simp_all
  ultimately have "\<exists>s\<in>?f ` set (lj_sections j). u \<in> set (ls_times s) \<and> ls_status s = ACCEPTED_STATUS" by blast
  with True assms show ?thesis by (simp add: provides_def add_lunch_section_def)
qed (use assms in \<open>simp add: provides_def add_lunch_section_def\<close>)

lemma update_first_keeps: "(\<And>x. Q x \<Longrightarrow> Q (f x)) \<Longrightarrow> \<exists>x\<in>set xs. Q x \<Longrightarrow> \<exists>x\<in>set (update_first P f xs). Q x"
  by (induction xs) auto

lemma update_first_gives: "\<exists>x\<in>set xs. P x \<Longrightarrow> (\<And>x. P x \<Longrightarrow> Q (f x)) \<Longrightarrow> \<exists>x\<in>set (update_first P f xs). Q x"
  by (induction xs) auto

lemma get_lunch_sections_served:
  shows "served db d t \<Longrightarrow> served (get_lunch_sections day lunch db) d t"
    and "u \<in> set lunch \<Longrightarrow> served (get_lunch_sections day lunch db) day (tr_id u)"
proof -
  define step :: "lunch_db \<Rightarrow> timeslot_row \<Rightarrow> lunch_db" where "step = (\<lambda>db t. db\<lparr>ld_subjects := update_first (\<lambda>j. lj_day j = day) (add_lunch_section (ld_next db) (tr_id t))
           (ld_subjects db), ld_next := ld_next db + 1\<rparr>)"
  have keep: "served (step db u) d t" if "served db d t" for db u d t
    unfolding served_iff step_def using that
    by (simp add: served_iff [symmetric]) (rule update_first_keeps, rule add_lunch_section_keeps, assumption, simp add: served_iff)
  have keeps: "served (foldl step db us) d t" if "served db d t" for db us d t
    using that by (induction us arbitrary: db) (auto intro: keep)
  have present: "\<exists>j\<in>set (ld_subjects (step db u)). lj_day j = day" if "\<exists>j\<in>set (ld_subjects db). lj_day j = day" for db u
    unfolding step_def using that
    by simp (rule update_first_keeps, simp)
  have gives: "served (foldl step db us) day (tr_id u)"
    if "u \<in> set us" "\<exists>j\<in>set (ld_subjects db). lj_day j = day" for db us u
    using that
  proof (induction us arbitrary: db)
    case (Cons x xs)
    show ?case
    proof (cases "u = x")
      case True
      have "served (step db x) day (tr_id x)"
        unfolding served_iff step_def using Cons.prems(2)
        by simp (rule update_first_gives, assumption, rule add_lunch_section_gives)
      with keeps True show ?thesis by simp
    next
      case False
      with Cons present show ?thesis by simp
    qed
  qed simp
  have "served (get_lunch_subject day db) d t" if "served db d t"
    using that by (auto simp: served_def get_lunch_subject_def)
  with keeps show "served db d t \<Longrightarrow> served (get_lunch_sections day lunch db) d t"
    by (simp add: get_lunch_sections_def step_def)
  have "\<exists>j\<in>set (ld_subjects (get_lunch_subject day db)). lj_day j = day"
    by (auto simp: get_lunch_subject_def)
  with gives show "u \<in> set lunch \<Longrightarrow> served (get_lunch_sections day lunch db) day (tr_id u)"
    by (simp add: get_lunch_sections_def step_def)
qed

lemma lunch_sections_exist:
  assumes "generate_all_constraints constraints conditions category all lunch db = (db', undeleted)"
    and "(day, slots) \<in> set (LunchConstraintGenerator_init all lunch)" and "u \<in> set (ds_lunch slots)"
  shows "served db' day (tr_id u)"
proof -
  define step :: "lunch_db \<Rightarrow> date \<times> day_slots \<Rightarrow> lunch_db" where "step = (\<lambda>db (day, slots). if ds_lunch slots = [] then db
            else let db1 = get_lunch_sections day (ds_lunch slots) (get_lunch_subject day db) in
              if constraints
              then db1\<lparr>ld_constraints := ld_constraints db1 @ [generate_constraint conditions category slots]\<rparr>
              else db1)"
  have keep: "served (step db p) d t" if "served db d t" for db p d t
  proof -
    have "served (get_lunch_subject day db) d t" for day
      using that by (auto simp: served_def get_lunch_subject_def)
    then have "served (get_lunch_sections day l (get_lunch_subject day db)) d t" for day l
      by (rule get_lunch_sections_served(1))
    with that show ?thesis by (auto simp: step_def Let_def served_def split: prod.split)
  qed
  have keeps: "served (foldl step db ps) d t" if "served db d t" for db ps d t
    using that by (induction ps arbitrary: db) (auto intro: keep)
  have "served (foldl step db ps) day (tr_id u)" if "(day, slots) \<in> set ps" for db ps
    using that
  proof (induction ps arbitrary: db)
    case (Cons p ps)
    show ?case
    proof (cases "p = (day, slots)")
      case True
      have "served (step db p) day (tr_id u)"
        using get_lunch_sections_served(2) [OF assms(3), of day "get_lunch_subject day db"] assms(3)
        by (auto simp: True step_def Let_def served_def)
      with keeps show ?thesis by simp
    qed (use Cons in auto)
  qed simp
  with assms(1,2) show ?thesis
    by (auto simp: generate_all_constraints_def step_def [symmetric] Let_def split: prod.splits)
qed

text \<open>A lunch section that has students is never deleted.\<close>

lemma students_keep_sections:
  assumes "clear_existing_constraints ids db = (db', undeleted)" and "j \<in> set (ld_subjects db)"
    and "s \<in> set (lj_sections j)" and "ls_students s > 0"
  shows "\<exists>j'\<in>set (ld_subjects db'). lj_day j' = lj_day j \<and> s \<in> set (lj_sections j')"
    and "s \<in> set undeleted \<or> set (ls_times s) \<inter> set ids \<noteq> {}"
proof -
  let ?keep = "\<lambda>s. set (ls_times s) \<inter> set ids \<noteq> {} \<or> ls_students s > 0"
  let ?j = "j\<lparr>lj_sections := filter ?keep (lj_sections j)\<rparr>"
  have "s \<in> set (lj_sections ?j)" using assms(3,4) by simp
  moreover have "?j \<in> set (ld_subjects db')"
    using assms by (auto simp: clear_existing_constraints_def Let_def filter_empty_conv)
  ultimately show "\<exists>j'\<in>set (ld_subjects db'). lj_day j' = lj_day j \<and> s \<in> set (lj_sections j')"
    by (intro bexI [of _ ?j]) simp_all
  show "s \<in> set undeleted \<or> set (ls_times s) \<inter> set ids \<noteq> {}"
    using assms by (auto simp: clear_existing_constraints_def Let_def)
qed

end
