(* ===== verification/Site_Properties.thy ===== *)
theory Site_Properties
  imports Registration_Examples Lottery_Examples Saving_Examples Lunch_Constraints
begin

section \<open>Properties of registration, the lottery and saving\<close>

text \<open>
  The properties of the parts of the website around the autoscheduler: registration of students, the
  class lottery, lunch constraints and the saving of a schedule; each with a witness on the examples.
\<close>

subsection \<open>Registration\<close>

text \<open>C2: Students adding classes, being taken out of sections and sections being emptied, in any order and number,
  keep a good database good: the stored counts are the numbers of enrolled students, and nobody is in two sections of a class
  or of one time. Without the web application, and where it was so before, no section has more students than its capacity,
  or than one student where the capacity is 0: \<open>isFull\<close> takes an empty section for one with a place.\<close>

theorem registrations_stay_good:
  assumes "registration_steps webapp (t, db) (t', db')" and "good_db t db"
  shows "good_db t' db' \<and> (within_capacity db \<and> \<not> webapp \<longrightarrow> within_capacity db')"
  by (rule registration_steps_good [OF assms])

theorem registrations_stay_good_witness:
  "\<exists>db'. registration_steps False (moment 5, ex_db) (moment 8, db') \<and> good_db (moment 8) db' \<and> within_capacity db'"
proof -
  obtain db' where "registration_steps False (moment 5, ex_db) (moment 8, db')" by (rule ex_registration_steps)
  with registrations_stay_good [OF this ex_db_good] ex_db_within show ?thesis by blast
qed

text \<open>C13: A place that a student gives up can be taken. In a good database without priority registration, let somebody be
  enrolled in a section that has meeting times and no more students than its capacity: after \<open>unpreregister_student\<close> of that
  student, \<open>preregister_student\<close> of anybody else succeeds, at whatever later time, and enrols that other student.\<close>

theorem freed_place:
  assumes "good_db t db" and "t \<le> now" and "now < later" and "s \<in> set (rd_sections db)" and "cl_timeslots s \<noteq> []"
    and "int (card (enrolled_users db (cl_id s))) \<le> get_capacity (rd_settings db) s False"
    and "user \<in> enrolled_users db (cl_id s)" and "\<not> use_priority (rd_settings db)"
  shows "\<exists>db'. preregister_student again morphed s other False level None False False
      (unpreregister_student now later s user [] db) = Inr (True, db') \<and>
    other \<in> set (students db' again [''Enrolled''] (cl_id s))"
  by (rule freed_place_taken [OF assms])

theorem freed_place_witness:
  "\<exists>db'. preregister_student (moment 9) False (ex_section_row 31 [1] ''Algebra'' 1) 2 False 1 None False False ex_freed =
     Inr (True, db') \<and> 2 \<in> set (students db' (moment 9) [''Enrolled''] 31)"
proof -
  let ?s = "ex_section_row 31 [1] ''Algebra'' 1"
  have "?s \<in> set (rd_sections ex_db)" "cl_timeslots ?s \<noteq> []" "cl_id ?s = 31" "rd_settings ex_db = ex_settings"
    by (simp_all add: ex_db_def ex_section_row_def)
  with freed_place [of "moment 5" ex_db "moment 6" "moment 7" ?s 1 "moment 9" False 2 1] ex_db_good show ?thesis
    by (simp add: ex_enrolled_users ex_freed_def) (simp add: ex_settings_def)
qed

text \<open>C25: When \<open>cannotAdd\<close> of a section lets a student add it: exactly when it is not full (if that is asked), the schedule
  with the section satisfies every schedule constraint (unless they are ignored), the student is in no section of the same
  class or at one of its times, registration for it is open, it is not cancelled, and the priorities are not used up.\<close>

theorem permission_to_add:
  "section_cannotAdd db now s user checkFull autocorrect ignore webapp = Inr None \<longleftrightarrow>
     \<not> (checkFull \<and> section_full db now s False webapp) \<and>
     (ignore \<or> rd_constraints db = [] \<or>
        (\<exists>sm sm'. ScheduleMap_init db now user = Inr sm \<and> add_section sm (row s) = Inr sm' \<and>
           (\<forall>c\<in>set (rd_constraints db). evaluate_constraint c sm' False = Inr True))) \<and>
     (\<forall>sec\<in>set (getEnrolledSectionsFromProgram db now user).
        \<not> subject_eq (sn_subject sec) (sn_subject s) \<and> set (cl_timeslots sec) \<inter> set (cl_timeslots s) = {}) \<and>
     sn_registration_status s = 0 \<and> \<not> section_is_cancelled s \<and>
     (use_priority (rd_settings db) \<longrightarrow>
        getRegistrationPriority db now user (cl_timeslots s) \<le> priority_limit (rd_settings db))"
  by (rule cannotAdd_allows)

theorem permission_to_add_witness:
  "section_cannotAdd ex_db (moment 6) (ex_section_row 32 [2] ''Botany'' 0) 2 True False False False = Inr None"
proof -
  have "\<not> section_full ex_db (moment 6) (ex_section_row 32 [2] ''Botany'' 0) False False"
    by (simp add: section_full_def not_full_iff ex_db_def) (simp add: ex_section_row_def)
  moreover have "getEnrolledSectionsFromProgram ex_db (moment 6) 2 = []"
    by (simp add: getEnrolledSectionsFromProgram_def getSections_def ex_db_def ex_enrolment_def)
  ultimately show ?thesis
    unfolding permission_to_add by (simp add: ex_db_def ex_section_row_def section_is_cancelled_def ex_settings_def)
qed

text \<open>The next priority of a student (\<open>getRegistrationPriority\<close>) is 0, 1 or 2, whatever the student has chosen
  before: the stored priorities are never read, so the configured limit is never reached.\<close>

theorem registration_priority:
  "getRegistrationPriority db now user timeslots \<in> {0, 1, 2}"
  by (rule registration_priority_bound)

text \<open>Without a capacity set by hand, the capacity of a section is within the seats of its rooms at each of its
  meeting times: the plain one as it is, the adjusted one up to the multiplier and the offset of the program.\<close>

theorem section_capacity_bound:
  assumes "(event, seats) \<in> set (sn_rooms s)" and "sn_max_class_capacity s = None" and "class_cap_multiplier options \<ge> 0"
  shows "get_capacity options s True \<le> seats_at (sn_rooms s) event \<and>
    get_capacity options s False \<le> adjusted options (seats_at (sn_rooms s) event)"
  using capacity_within_rooms [OF assms] by blast

theorem section_capacity_bound_witness:
  "get_capacity ex_settings (ex_section_row 31 [1] ''Algebra'' 1\<lparr>sn_max_class_capacity := None, sn_rooms := [(1, 12), (1, 3), (2, 18)]\<rparr>) True
     \<le> 15"
  using section_capacity_bound [of 1 12 "ex_section_row 31 [1] ''Algebra'' 1\<lparr>sn_max_class_capacity := None, sn_rooms := [(1, 12), (1, 3), (2, 18)]\<rparr>" ex_settings]
  by (simp add: ex_settings_def seats_at_def)

subsection \<open>The lottery\<close>

text \<open>C4: On well-formed input, and with any source of random numbers that returns what numpy promises, the lottery
  succeeds, its own checks included: schedules agree with sections, no section or program is overfull, everybody keeps a lunch
  period that no class takes, and nobody gets a section that is neither wished for (within its grades) nor lunch.\<close>

theorem lottery_assigns:
  assumes "wf_lottery L" and "random_laws rnd"
  shows "\<exists>st. lottery_compute_assignments L rnd n check_result = Inr st \<and> exact_schedules L st \<and> not_overfull L st \<and>
    lunch_or_free L st \<and> wish_or_lunch L st"
  using lottery_succeeds [OF assms] by (metis lunch_inv_def)

theorem lottery_assigns_witness:
  "\<exists>st. lottery_compute_assignments ex_lottery first_come 0 True = Inr st \<and> exact_schedules ex_lottery st \<and>
    not_overfull ex_lottery st \<and> lunch_or_free ex_lottery st \<and> wish_or_lunch ex_lottery st"
  by (rule lottery_assigns [OF ex_lottery_wf first_come_laws])

text \<open>Without the lunch assignment, the lottery also gives nobody two sections of a class or more sections than the
  configured maximum, every place to somebody who wished for it, and keeps a lunch period of everybody entirely free.\<close>

theorem lottery_grants_wishes:
  assumes "wf_lottery L" and "random_laws rnd" and "\<not> assign_lunches_option (lt_options L)"
  shows "\<exists>st. lottery_compute_assignments L rnd n check_result = Inr st \<and> granted_wishes L st \<and> one_per_class L st \<and>
    within_max_sections L st \<and> lunch_free L st"
  using lottery_succeeds [OF assms(1,2)] assms(3) by (metis fill_inv_def)

theorem lottery_grants_wishes_witness:
  "\<exists>st. lottery_compute_assignments (ex_lottery\<lparr>lt_options := ex_options\<lparr>assign_lunches_option := False\<rparr>\<rparr>) first_come 0 True = Inr st \<and>
    one_per_class (ex_lottery\<lparr>lt_options := ex_options\<lparr>assign_lunches_option := False\<rparr>\<rparr>) st"
proof -
  have "wf_lottery (ex_lottery\<lparr>lt_options := ex_options\<lparr>assign_lunches_option := False\<rparr>\<rparr>)"
    using ex_lottery_wf by (simp add: wf_lottery_def lunch_sections_at_def timeslots_of_def ex_options_def)
  from lottery_grants_wishes [OF this first_come_laws] show ?thesis by auto
qed

text \<open>C39: What \<open>initialize\<close> reads from sound rows (sections that meet in the program's timeslots, lunch sections of one
  timeslot, distinct ids) is a well-formed lottery.\<close>

theorem lottery_set_up:
  assumes "initialize inp = Inr L" and "sound_input inp"
  shows "wf_lottery L"
  by (rule initialize_well_formed [OF assms])

theorem lottery_set_up_witness:
  "\<exists>L. initialize (ex_input ex_sections) = Inr L \<and> wf_lottery L"
  using lottery_set_up [OF ex_lottery_initial ex_input_sound] ex_lottery_initial by blast

text \<open>The index \<open>-1\<close> of an unknown timeslot is used like any other: a section that meets outside of the
  program's timeslots is taken to meet in the last one.\<close>

theorem unknown_timeslot:
  assumes "initialize inp = Inr L" and "distinct (map lsec_id (ordered_sections inp))" and "distinct (ordered_timeslots inp)"
    and "ordered_timeslots inp \<noteq> []" and "si < num_sections L" and "t \<in> set (lsec_times (ordered_sections inp ! si))"
    and "t \<notin> set (ordered_timeslots inp)"
  shows "section_schedules L si (num_timeslots L - 1)"
  by (rule foreign_timeslot [OF assms])

theorem unknown_timeslot_witness:
  "\<exists>L. initialize (ex_input ex_foreign) = Inr L \<and> section_schedules L 1 (num_timeslots L - 1)"
proof -
  obtain L where L: "initialize (ex_input ex_foreign) = Inr L" "num_sections L = 2" using ex_foreign_initialized by blast
  have "ordered_sections (ex_input ex_foreign) = ex_foreign" "ordered_timeslots (ex_input ex_foreign) = [1, 2, 4, 6]"
    by (simp_all add: ordered_sections_def ordered_timeslots_def ex_input_def ex_foreign_def ex_lottery_section_def)
  with unknown_timeslot [OF L(1), of 1 3] L show ?thesis by (simp add: ex_foreign_def ex_lottery_section_def)
qed

text \<open>C8: A computed lottery, saved to the database, enrols in each section as many students as the lottery gave it,
  hence no more than its capacity, at every later time at which nothing else has happened.\<close>

theorem lottery_never_overbooks:
  assumes "wf_lottery L" and "random_laws rnd" and "lottery_compute_assignments L rnd n check_result = Inr st"
    and "settled_rows t db" and "t \<le> now" and "now < start" and "start \<le> when"
    and "distinct student_ids" and "length student_ids = num_students L"
    and "inj_on (section_ids L) {..<num_sections L}" and "si < num_sections L"
  shows "count_enrolled_students (save_assignments now start (assignments_of L student_ids st) db) when (section_ids L si) =
      enrolled_in L st si \<and> enrolled_in L st si \<le> section_capacities L si"
proof -
  obtain st' where "lottery_compute_assignments L rnd n check_result = Inr st'" "lunch_inv L st'"
    using lottery_succeeds [OF assms(1,2)] .
  with assms(3) have "enrolled_in L st si \<le> section_capacities L si"
    using assms(11) by (simp add: lunch_inv_def not_overfull_def)
  with saved_count [OF assms(4-11)] show ?thesis by blast
qed

theorem lottery_never_overbooks_witness:
  "\<exists>st. lottery_compute_assignments ex_lottery first_come 0 True = Inr st \<and>
     count_enrolled_students (save_assignments (moment 6) (moment 7) (assignments_of ex_lottery [2, 5] st) ex_db) (moment 8)
       (section_ids ex_lottery 0) = enrolled_in ex_lottery st 0"
proof -
  obtain st where st: "lottery_compute_assignments ex_lottery first_come 0 True = Inr st"
    using lottery_succeeds [OF ex_lottery_wf first_come_laws] .
  have "settled_rows (moment 5) ex_db" using ex_db_good by (simp add: good_db_def)
  with lottery_never_overbooks [OF ex_lottery_wf first_come_laws st this, of "moment 6" "moment 7" "moment 8" "[2, 5]" 0]
  show ?thesis using st ex_lottery_sizes by simp
qed

text \<open>Saving a lottery ends the old enrolments without telling the sections: a section without an assignment keeps
  its stored count of students, although nobody is enrolled in it any more.\<close>

theorem saved_counts_stale:
  assumes "settled_rows t db" and "t \<le> now" and "now < start" and "start \<le> when" and "s \<in> set (rd_sections db)"
    and "cl_id s \<notin> snd ` set assignments"
  shows "s \<in> set (rd_sections (save_assignments now start assignments db)) \<and>
    count_enrolled_students (save_assignments now start assignments db) when (cl_id s) = 0"
  using stale_counts [OF assms] by blast

theorem saved_counts_stale_witness:
  "\<exists>s\<in>set (rd_sections (save_assignments (moment 6) (moment 7) [(2, 32)] ex_db)). enrolled_students s = 1 \<and>
     count_enrolled_students (save_assignments (moment 6) (moment 7) [(2, 32)] ex_db) (moment 8) (cl_id s) = 0"
proof -
  have "ex_section_row 31 [1] ''Algebra'' 1 \<in> set (rd_sections ex_db)" by (simp add: ex_db_def)
  with saved_counts_stale [of "moment 5" ex_db "moment 6" "moment 7" "moment 8" "ex_section_row 31 [1] ''Algebra'' 1" "[(2, 32)]"]
    ex_db_good show ?thesis
    by (auto simp: good_db_def ex_section_row_def intro!: bexI)
qed

text \<open>The ratios in the statistics of a lottery (granted among the wishes of each priority level, among the
  interests, and enrolments among the places) are between 0 and 1.\<close>

theorem lottery_ratios:
  assumes "wf_lottery L" and "random_laws rnd" and "lottery_compute_assignments L rnd n check_result = Inr st"
  shows "(\<forall>r\<in>set (overall_priority_ratios (compute_stats L st)). within_unit r) \<and>
    within_unit (overall_interest_ratio (compute_stats L st)) \<and> within_unit (overall_capacity_ratio (compute_stats L st))"
proof -
  obtain st' where "lottery_compute_assignments L rnd n check_result = Inr st'" "lunch_inv L st'"
    using lottery_succeeds [OF assms(1,2)] .
  with assms(3) have "not_overfull L st" by (simp add: lunch_inv_def)
  from ratios_bounded(1-3) [OF this] show ?thesis by blast
qed

theorem lottery_ratios_witness:
  "\<exists>st. lottery_compute_assignments ex_lottery first_come 0 True = Inr st \<and>
     within_unit (overall_capacity_ratio (compute_stats ex_lottery st))"
proof -
  obtain st where st: "lottery_compute_assignments ex_lottery first_come 0 True = Inr st"
    using lottery_succeeds [OF ex_lottery_wf first_come_laws] .
  with lottery_ratios [OF ex_lottery_wf first_come_laws st] show ?thesis by blast
qed

subsection \<open>Lunch and logical expressions\<close>

text \<open>C31: With a generated lunch constraint among those of the program, a student who may add a section has a lunch
  period in the resulting schedule, if the schedule has a class before and one after lunch that day (or always, when the
  constraint is generated without conditions).\<close>

theorem lunch_is_kept:
  assumes "section_cannotAdd db now s user checkFull autocorrect False webapp = Inr None"
    and "generate_constraint conditions category slots \<in> set (rd_constraints db)" and "ds_lunch slots \<noteq> []"
  shows "\<exists>sm sm'. ScheduleMap_init db now user = Inr sm \<and> add_section sm (row s) = Inr sm' \<and>
    (\<not> conditions \<or> has_class sm' (ds_before slots) \<and> has_class sm' (ds_after slots) \<longrightarrow>
      has_lunch category sm' (ds_lunch slots))"
proof -
  from assms(1,2) obtain sm sm' where sm: "ScheduleMap_init db now user = Inr sm" "add_section sm (row s) = Inr sm'"
    and holds: "evaluate_constraint (generate_constraint conditions category slots) sm' False = Inr True"
    unfolding cannotAdd_allows by auto
  from holds sm show ?thesis unfolding generated_constraint [OF assms(3)] by blast
qed

definition ex_day_slots :: day_slots where
  "ex_day_slots = \<lparr>ds_before = [\<lparr>tr_id = 1, tr_start = moment 0\<rparr>], ds_lunch = [\<lparr>tr_id = 2, tr_start = moment 10\<rparr>],
     ds_after = [\<lparr>tr_id = 3, tr_start = moment 20\<rparr>]\<rparr>"

definition ex_lunch_db :: registration_db where
  "ex_lunch_db = ex_db\<lparr>rd_timeslots := [1, 2, 3], rd_constraints := [generate_constraint True 3 ex_day_slots],
     rd_sections := [ex_section_row 31 [1, 3] ''Algebra'' 1, ex_section_row 32 [2] ''Lunch Period'' 0]\<rparr>"

theorem lunch_is_kept_witness:
  "section_cannotAdd ex_lunch_db (moment 6) (ex_section_row 32 [2] ''Lunch Period'' 0) 1 True True False False = Inr None \<and>
   (\<exists>sm sm'. ScheduleMap_init ex_lunch_db (moment 6) 1 = Inr sm \<and>
     add_section sm (row (ex_section_row 32 [2] ''Lunch Period'' 0)) = Inr sm')"
proof -
  have "(case section_cannotAdd ex_lunch_db (moment 6) (ex_section_row 32 [2] ''Lunch Period'' 0) 1 True True False False of
      Inr None \<Rightarrow> True | _ \<Rightarrow> False)"
    by code_simp
  then have allowed: "section_cannotAdd ex_lunch_db (moment 6) (ex_section_row 32 [2] ''Lunch Period'' 0) 1 True True False False = Inr None"
    by (auto split: sum.splits option.splits)
  have "generate_constraint True 3 ex_day_slots \<in> set (rd_constraints ex_lunch_db)" "ds_lunch ex_day_slots \<noteq> []"
    by (simp_all add: ex_lunch_db_def ex_day_slots_def)
  from lunch_is_kept [OF allowed this] allowed show ?thesis by blast
qed

text \<open>C33: An expression whose tokens are, from the bottom of the stack, the reverse Polish form of a formula evaluates
  to the value of the formula; tests that raise make it raise.\<close>

theorem expression_value:
  assumes "get_stack expression = rev (postfix e)" and "well_formed e"
  shows "evaluate_expression bv expression = rbind (tree_value bv e) (\<lambda>b. Inr (Some b))"
  using evaluate_postfix [OF assms(2), of bv "[]"] by (simp add: evaluate_expression_def assms(1) rbind_assoc)

definition ex_token :: "int \<Rightarrow> string \<Rightarrow> bool token" where
  "ex_token i text = \<lparr>tok_seq = i, tok_text = text, tok_test = (text = ''1'')\<rparr>"

theorem expression_value_witness:
  "evaluate_expression (Inr \<circ> tok_test) [ex_token 0 ''0'', ex_token 20 ''or'', ex_token 10 ''1''] = Inr (Some True)"
proof -
  let ?e = "Binary (ex_token 20 ''or'') (Leaf (ex_token 10 ''1'')) (Leaf (ex_token 0 ''0''))"
  have "well_formed ?e" by code_simp
  moreover have "get_stack [ex_token 0 ''0'', ex_token 20 ''or'', ex_token 10 ''1''] = rev (postfix ?e)"
    by (simp add: get_stack_def ex_token_def)
  moreover have "(case tree_value (Inr \<circ> tok_test) ?e of Inr True \<Rightarrow> True | _ \<Rightarrow> False)" by code_simp
  ultimately show ?thesis
    using expression_value [of _ ?e "Inr \<circ> tok_test"] by (auto split: sum.splits bool.splits)
qed

subsection \<open>Saving a schedule\<close>

text \<open>C20: After a successful save the database has every section that had changed exactly where the schedule has
  it, and the rows of every other section are as before.\<close>

theorem saved_schedule:
  assumes "save_schedule h sch check_consistency check_constraints st = Inr (h', st')"
  shows "(\<forall>i\<in>set (section_objs (fst st) h sch).
      \<exists>s. dict_get (sch_sections sch) i = Inr s \<and> database_hash (fst st') i = scheduling_hash h s) \<and>
    (\<forall>i. i \<notin> set (section_objs (fst st) h sch) \<longrightarrow> untouched i (fst st) (fst st'))"
  using save_agrees [OF assms] by blast

theorem saved_schedule_witness:
  "database_hash released_db 31 = scheduling_hash held_heap 30 \<and> untouched 32 held_db released_db"
  using saved_schedule [OF released] by (simp add: dict_get_def)

text \<open>\<open>save\<close> tests a stale variable: when the last of the changed sections has no meeting times in the
  database, a section that the schedule has given up and the database still holds cannot be saved.\<close>

theorem save_tests_stale_variable:
  assumes "i \<in> set (section_objs (fst st) h sch)" and "dict_get (sch_sections sch) i = Inr s"
    and "sec_roomslots (hp_sec h s) = []" and "meetings_of (fst st) i \<noteq> []"
    and "meetings_of (fst st) (last (section_objs (fst st) h sch)) = []"
  shows "save_schedule h sch check_consistency check_constraints st \<noteq> Inr (h', st')"
  by (rule stale_section_obj [OF assms])

theorem save_tests_stale_variable_witness:
  "\<not> (\<exists>r. save_schedule held_heap (held_schedule [(31, 30), (32, 29)]) False False (held_db, []) = Inr r)"
  using save_tests_stale_variable [of 31 "(held_db, [])" held_heap "held_schedule [(31, 30), (32, 29)]" 30 False False]
  by (auto simp: held_objs_two dict_get_def held_section_def)


end
