(* ===== verification/Money.thy ===== *)
theory Money
  imports Prelude Schedule_Constraints "HOL-Library.Log_Nat"
begin

section \<open>Amounts of money\<close>

text \<open>
  Amounts are stored as decimals with two places, here as integers of cents, but on their way they become
  Python's floats: \<open>float_of\<close> is the double nearest to a rational number (ties to even), \<open>to_cents\<close> the
  correctly rounded conversion that \<open>'%.2f'\<close> makes of it. Overflow and subnormal numbers do not occur for amounts
  that fit their column.

  \<open>cents_roundtrip\<close>: an amount below ten million survives the way through a float. \<open>float_exact\<close>: multiples of
  a quarter are exact as floats; other amounts are not, which matters where they are added up.
\<close>

subsection \<open>Rounding\<close>

definition round_half_even :: "rat \<Rightarrow> int" where
  "round_half_even x =
     (let n = \<lfloor>x\<rfloor>; f = x - of_int n in
      if f < 1 / 2 then n else if f > 1 / 2 then n + 1 else if even n then n else n + 1)"

text \<open>\<open>ROUND_HALF_UP\<close> of the decimal module: ties away from zero.\<close>

definition round_half_up :: "rat \<Rightarrow> int" where
  "round_half_up x = (if x \<ge> 0 then \<lfloor>x + 1 / 2\<rfloor> else - \<lfloor>- x + 1 / 2\<rfloor>)"

lemma round_half_even_error: "\<bar>of_int (round_half_even x) - x\<bar> \<le> 1 / 2"
proof -
  define n where "n = \<lfloor>x\<rfloor>"
  have "of_int n \<le> x" "x < of_int n + 1" unfolding n_def by linarith+
  then show ?thesis by (auto simp: round_half_even_def Let_def n_def [symmetric] abs_if)
qed

lemma round_half_even_near:
  assumes "\<bar>x - of_int n\<bar> < 1 / 2"
  shows "round_half_even x = n"
proof -
  have "\<bar>of_int (round_half_even x) - of_int n\<bar> < (1 :: rat)"
    using round_half_even_error [of x] assms by linarith
  then show ?thesis by linarith
qed

lemma round_half_even_int [simp]: "round_half_even (of_int n) = n"
  by (rule round_half_even_near) simp

lemma round_half_up_int [simp]: "round_half_up (of_int n) = n"
proof (cases "n \<ge> 0")
  case True
  then show ?thesis by (simp add: round_half_up_def) linarith
next
  case False
  then have "(of_int n :: rat) < 0" by simp
  then show ?thesis by (simp add: round_half_up_def) linarith
qed

lemma round_half_up_mono: "x \<le> y \<Longrightarrow> round_half_up x \<le> round_half_up y"
proof -
  assume le: "x \<le> y"
  show ?thesis
  proof (cases "x \<ge> 0")
    case True
    then show ?thesis using le by (auto simp: round_half_up_def intro: floor_mono)
  next
    case False
    show ?thesis
    proof (cases "y \<ge> 0")
      case True
      have "0 \<le> \<lfloor>- x + 1 / 2\<rfloor>" "0 \<le> \<lfloor>y + 1 / 2\<rfloor>" using False True by (simp_all add: le_floor_iff)
      then have "- \<lfloor>- x + 1 / 2\<rfloor> \<le> \<lfloor>y + 1 / 2\<rfloor>" by linarith
      with False True show ?thesis unfolding round_half_up_def by simp
    next
      case False
      with \<open>\<not> x \<ge> 0\<close> le show ?thesis by (auto simp: round_half_up_def intro: floor_mono)
    qed
  qed
qed

subsection \<open>Floats\<close>

definition pow2 :: "int \<Rightarrow> rat" where
  "pow2 e = (if e \<ge> 0 then 2 ^ nat e else 1 / 2 ^ nat (- e))"

text \<open>The exponent of the leading bit of a positive number.\<close>

definition exponent_of :: "rat \<Rightarrow> int" where
  "exponent_of x =
     (let (p, q) = quotient_of x; e = bitlen p - bitlen q in if pow2 e \<le> x then e else e - 1)"

definition float_of :: "rat \<Rightarrow> rat" where
  "float_of x =
     (if x = 0 then 0
      else let u = pow2 (exponent_of \<bar>x\<bar> - 52) in of_int (round_half_even (x / u)) * u)"

definition float_add :: "rat \<Rightarrow> rat \<Rightarrow> rat" where
  "float_add x y = float_of (x + y)"

definition to_cents :: "rat \<Rightarrow> int" where
  "to_cents x = round_half_even (100 * x)"

definition dollars :: "int \<Rightarrow> rat" where
  "dollars c = of_int c / 100"

lemma pow2_pos [simp]: "pow2 e > 0"
  by (simp add: pow2_def)

lemma pow2_powi: "pow2 e = 2 powi e"
  by (simp add: pow2_def power_int_def power_one_over inverse_eq_divide)

lemma pow2_nonzero [simp]: "pow2 e \<noteq> 0"
  using pow2_pos [of e] by (metis less_irrefl)

lemma pow2_add: "pow2 (a + b) = pow2 a * pow2 b"
  by (simp add: pow2_powi power_int_add)

lemma pow2_mono: "a \<le> b \<Longrightarrow> pow2 a \<le> pow2 b"
  unfolding pow2_powi by (rule power_int_increasing) simp_all

lemma bitlen_pow2:
  assumes "p > 0"
  shows "pow2 (bitlen p - 1) \<le> of_int p" and "of_int p < pow2 (bitlen p)"
proof -
  have bounds: "2 ^ nat (bitlen p - 1) \<le> p" "p < 2 ^ nat (bitlen p)" using bitlen_bounds [OF assms] by blast+
  have len: "bitlen p \<ge> 1" using assms by (simp add: bitlen_def floorlog_def)
  have "pow2 (bitlen p - 1) = of_int (2 ^ nat (bitlen p - 1))" "pow2 (bitlen p) = of_int (2 ^ nat (bitlen p))"
    using len by (simp_all add: pow2_def)
  then show "pow2 (bitlen p - 1) \<le> of_int p" and "of_int p < pow2 (bitlen p)"
    using bounds by (simp_all only: of_int_le_iff of_int_less_iff)
qed

lemma exponent_bounds:
  assumes "x > 0"
  shows "pow2 (exponent_of x) \<le> x" and "x < pow2 (exponent_of x + 1)"
proof -
  obtain p q where pq: "quotient_of x = (p, q)" by (cases "quotient_of x")
  have q: "q > 0" using quotient_of_denom_pos [OF pq] .
  have x: "x = of_int p / of_int q" using quotient_of_div [OF pq] .
  have p: "p > 0" using assms q by (simp add: x zero_less_divide_iff)
  let ?e = "bitlen p - bitlen q"
  have bits: "pow2 (bitlen p - 1) \<le> of_int p" "of_int p < pow2 (bitlen p)"
    "pow2 (bitlen q - 1) \<le> of_int q" "of_int q < pow2 (bitlen q)"
    using bitlen_pow2 p q by blast+
  have half: "pow2 (a - 1) = pow2 a / 2" for a using pow2_add [of "a - 1" 1] by (simp add: pow2_def)
  have e: "pow2 ?e = pow2 (bitlen p) / pow2 (bitlen q)"
    using pow2_add [of ?e "bitlen q"] by (simp add: field_simps)
  have lower: "pow2 (?e - 1) \<le> x"
  proof -
    have "pow2 (bitlen p) * of_int q \<le> (2 * of_int p) * of_int q"
      using bits(1) q by (intro mult_right_mono) (simp_all add: half)
    also have "\<dots> \<le> (2 * of_int p) * pow2 (bitlen q)"
      using bits(4) p by (intro mult_left_mono) simp_all
    finally show ?thesis using q unfolding x half e by (simp add: field_simps)
  qed
  have upper: "x < pow2 (?e + 1)"
  proof -
    have "of_int p * pow2 (bitlen q) \<le> of_int p * (2 * of_int q)"
      using bits(3) p by (intro mult_left_mono) (simp_all add: half)
    also have "\<dots> < pow2 (bitlen p) * (2 * of_int q)"
      using bits(2) q by (intro mult_strict_right_mono) simp_all
    finally show ?thesis using q unfolding x pow2_add e by (simp add: pow2_def [of 1] field_simps)
  qed
  show "pow2 (exponent_of x) \<le> x" using lower by (simp add: exponent_of_def pq Let_def)
  show "x < pow2 (exponent_of x + 1)" using upper by (auto simp: exponent_of_def pq Let_def not_le)
qed

lemma float_error: "\<bar>float_of x - x\<bar> \<le> \<bar>x\<bar> / 2 ^ 53"
proof (cases "x = 0")
  case False
  define e where "e = exponent_of \<bar>x\<bar>"
  define u where "u = pow2 (e - 52)"
  have u: "u > 0" by (simp add: u_def)
  have "float_of x - x = (of_int (round_half_even (x / u)) - x / u) * u"
    using False u by (simp add: float_of_def Let_def e_def [symmetric] u_def [symmetric] left_diff_distrib)
  then have "\<bar>float_of x - x\<bar> = \<bar>of_int (round_half_even (x / u)) - x / u\<bar> * u"
    using u by (simp add: abs_mult)
  also have "\<dots> \<le> 1 / 2 * u" using round_half_even_error u by (intro mult_right_mono) simp_all
  also have "1 / 2 * u = pow2 e / 2 ^ 53"
    using pow2_add [of e "- 52"] by (simp add: u_def pow2_def [of "- 52"])
  also have "pow2 e \<le> \<bar>x\<bar>" using exponent_bounds(1) [of "\<bar>x\<bar>"] False by (simp add: e_def)
  finally show ?thesis by (simp add: divide_right_mono)
qed (simp add: float_of_def)

text \<open>Multiples of a quarter are exact.\<close>

lemma float_exact:
  assumes "\<bar>n\<bar> < 2 ^ 52"
  shows "float_of (of_int n / 4) = of_int n / 4"
proof (cases "n = 0")
  case False
  let ?x = "of_int n / 4 :: rat"
  define e where "e = exponent_of \<bar>?x\<bar>"
  have "\<bar>?x\<bar> < pow2 50"
  proof -
    have "\<bar>of_int n :: rat\<bar> < 2 ^ 52"
      using assms by (metis of_int_abs of_int_less_iff of_int_numeral of_int_power)
    then show ?thesis by (simp add: pow2_def)
  qed
  moreover have "pow2 e \<le> \<bar>?x\<bar>" using exponent_bounds(1) [of "\<bar>?x\<bar>"] False by (simp add: e_def)
  ultimately have "pow2 e < pow2 50" by linarith
  then have "e < 50" using pow2_mono [of 50 e] by (meson not_less)
  then have k: "pow2 (e - 52) * of_int (2 ^ nat (50 - e)) = 1 / 4"
    using pow2_add [of "e - 52" "50 - e"] by (simp add: pow2_def [of "50 - e"] pow2_def [of "- 2"])
  have "?x / pow2 (e - 52) = of_int (n * 2 ^ nat (50 - e))"
    using k by (simp add: field_simps)
  then have "float_of ?x = of_int (n * 2 ^ nat (50 - e)) * pow2 (e - 52)"
    using False by (simp only: float_of_def Let_def e_def [symmetric] round_half_even_int) simp
  also have "\<dots> = ?x" using k by (simp add: field_simps)
  finally show ?thesis .
qed (simp add: float_of_def)

text \<open>An amount that fits its column survives the way through a float.\<close>

definition fits :: "int \<Rightarrow> bool" where
  "fits c \<longleftrightarrow> \<bar>c\<bar> < 1000000000"

lemma cents_roundtrip:
  assumes "fits c"
  shows "to_cents (float_of (dollars c)) = c"
  unfolding to_cents_def
proof (rule round_half_even_near)
  have c: "\<bar>of_int c :: rat\<bar> < 1000000000" using assms by (simp add: fits_def flip: of_int_abs)
  have "\<bar>100 * float_of (dollars c) - of_int c\<bar> = 100 * \<bar>float_of (dollars c) - dollars c\<bar>"
    by (simp add: dollars_def abs_if field_simps)
  also have "\<dots> \<le> 100 * (\<bar>dollars c\<bar> / 2 ^ 53)" by (intro mult_left_mono float_error) simp
  also have "\<dots> = \<bar>of_int c\<bar> / 2 ^ 53" by (simp add: dollars_def)
  also have "\<dots> < 1000000000 / 2 ^ 53" by (intro divide_strict_right_mono c) simp
  also have "\<dots> < (1 / 2 :: rat)" by simp
  finally show "\<bar>100 * float_of (dollars c) - of_int c\<bar> < 1 / 2" .
qed

end
