(* ===== verification/Accounting.thy ===== *)
theory Accounting
  imports Money "HOL-Library.List_Lexorder"
begin

section \<open>Accounts, line items and transfers (accounting/models.py, accounting/controllers.py)\<close>

text \<open>
  The tables of the accounting of a site (\<open>books\<close>), and the operations of the base and program controllers:
  the default accounts and line items, the query \<open>get_lineitemtypes\<close>, the set-up of a program and its summaries.

  Amounts are cents. An operation takes the books and returns a result with the new books, or the exception.
  The ids of all tables come from one counter; each table's own sequence increases in the same way. A query
  without an order returns the rows in the order of the list. A controller is its program (and user), which the
  operations take as arguments. The settings of the two modules that may offer donations are data of the
  program, and so is the discount for siblings, which the site keeps as a tag.
\<close>

subsection \<open>Rows\<close>

record line_item_type =
  lit_id :: int
  lit_text :: string
  lit_amount :: int
  lit_program :: int
  lit_required :: bool
  lit_max_quantity :: int
  lit_for_payments :: bool
  lit_for_finaid :: bool

record line_item_option =
  lio_id :: int
  lio_type :: int
  lio_description :: string
  lio_amount :: "int option"
  lio_custom :: bool

record account =
  ac_id :: int
  ac_name :: string
  ac_description :: string
  ac_program :: "int option"

record transfer =
  tf_id :: int
  tf_source :: "int option"
  tf_destination :: "int option"
  tf_user :: "int option"
  tf_item :: int
  tf_option :: "int option"
  tf_amount :: int
  tf_transaction :: string
  tf_paid_in :: "int option"

record aid_request =
  fr_id :: int
  fr_user :: int
  fr_program :: int
  fr_explanation :: "string option"
  fr_done :: bool

record aid_grant =
  gr_id :: int
  gr_request :: int
  gr_amount_max :: "int option"
  gr_percent :: "int option"
  gr_finalized :: bool

record splash_info =
  spi_id :: int
  spi_student :: int
  spi_program :: int
  spi_siblingdiscount :: bool

text \<open>
  A program with the modules \<open>CreditCardModule_Stripe\<close> and \<open>DonationModule\<close>, those of them that it has,
  in this order: whether they offer donations and the text of the donation.
\<close>

record program_row =
  pr_id :: int
  pr_name :: string
  pr_sibling_discount :: int
  pr_donations :: "(bool \<times> string) list"

record books =
  bk_next :: int
  bk_collation :: "string \<Rightarrow> string"
  bk_users :: "int list"
  bk_programs :: "program_row list"
  bk_accounts :: "account list"
  bk_items :: "line_item_type list"
  bk_options :: "line_item_option list"
  bk_transfers :: "transfer list"
  bk_requests :: "aid_request list"
  bk_grants :: "aid_grant list"
  bk_splash :: "splash_info list"

subsection \<open>Queries of the database\<close>

abbreviation does_not_exist :: py_error where
  "does_not_exist \<equiv> OtherError ''DoesNotExist''"

abbreviation multiple_objects :: py_error where
  "multiple_objects \<equiv> OtherError ''MultipleObjectsReturned''"

abbreviation integrity_error :: py_error where
  "integrity_error \<equiv> OtherError ''IntegrityError''"

abbreviation data_error :: py_error where
  "data_error \<equiv> OtherError ''DataError''"

abbreviation protected_error :: py_error where
  "protected_error \<equiv> OtherError ''ProtectedError''"

text \<open>\<open>get\<close>, and the first half of \<open>get_or_create\<close>.\<close>

definition fetch :: "('a \<Rightarrow> bool) \<Rightarrow> 'a list \<Rightarrow> 'a option result" where
  "fetch p xs =
     (case filter p xs of [] \<Rightarrow> Inr None | [x] \<Rightarrow> Inr (Some x) | _ \<Rightarrow> Inl multiple_objects)"

definition get_row :: "('a \<Rightarrow> bool) \<Rightarrow> 'a list \<Rightarrow> 'a result" where
  "get_row p xs =
     rbind (fetch p xs) (\<lambda>r. case r of None \<Rightarrow> Inl does_not_exist | Some x \<Rightarrow> Inr x)"

text \<open>The row with the greatest key: the first one of \<open>order_by\<close> with a minus.\<close>

fun greatest_by :: "('a \<Rightarrow> int) \<Rightarrow> 'a list \<Rightarrow> 'a option" where
  "greatest_by k [] = None"
| "greatest_by k (x # xs) =
     (case greatest_by k xs of None \<Rightarrow> Some x | Some y \<Rightarrow> Some (if k y > k x then y else x))"

definition sum_amounts :: "transfer list \<Rightarrow> int" where
  "sum_amounts ts = sum_list (map tf_amount ts)"

definition item_of :: "books \<Rightarrow> transfer \<Rightarrow> line_item_type option" where
  "item_of b t = find (\<lambda>l. lit_id l = tf_item t) (bk_items b)"

definition item_satisfies :: "books \<Rightarrow> (line_item_type \<Rightarrow> bool) \<Rightarrow> transfer \<Rightarrow> bool" where
  "item_satisfies b p t = (case item_of b t of None \<Rightarrow> False | Some l \<Rightarrow> p l)"

text \<open>\<open>line_item=l\<close> in a filter, where \<open>l\<close> may be \<open>None\<close>: no row is without a line item.\<close>

definition has_item :: "line_item_type option \<Rightarrow> transfer \<Rightarrow> bool" where
  "has_item l t = (map_option lit_id l = Some (tf_item t))"

subsection \<open>Changes of the tables\<close>

definition create_transfer ::
  "transfer \<Rightarrow> books \<Rightarrow> (transfer \<times> books) result" where
  "create_transfer t b =
     (if fits (tf_amount t)
      then let t' = t\<lparr>tf_id := bk_next b\<rparr> in
        Inr (t', b\<lparr>bk_transfers := bk_transfers b @ [t'], bk_next := bk_next b + 1\<rparr>)
      else Inl data_error)"

text \<open>A new transfer, whose line item may be \<open>None\<close>.\<close>

definition transfer_for ::
  "int option \<Rightarrow> int option \<Rightarrow> int \<Rightarrow> line_item_type option \<Rightarrow> int \<Rightarrow> transfer result" where
  "transfer_for source destination user line_item amount =
     (case line_item of
        None \<Rightarrow> Inl integrity_error
      | Some l \<Rightarrow> Inr \<lparr>tf_id = 0, tf_source = source, tf_destination = destination, tf_user = Some user,
          tf_item = lit_id l, tf_option = None, tf_amount = amount, tf_transaction = [], tf_paid_in = None\<rparr>)"

definition save_transfer :: "transfer \<Rightarrow> books \<Rightarrow> books result" where
  "save_transfer t b =
     (if fits (tf_amount t)
      then Inr (b\<lparr>bk_transfers := map (\<lambda>r. if tf_id r = tf_id t then t else r) (bk_transfers b)\<rparr>)
      else Inl data_error)"

text \<open>A transfer to which another one refers as its payment is protected.\<close>

definition delete_transfers :: "(transfer \<Rightarrow> bool) \<Rightarrow> books \<Rightarrow> books result" where
  "delete_transfers p b =
     (let gone = map tf_id (filter p (bk_transfers b)) in
      if list_ex (\<lambda>t. case tf_paid_in t of None \<Rightarrow> False | Some i \<Rightarrow> i \<in> set gone) (bk_transfers b)
      then Inl protected_error
      else Inr (b\<lparr>bk_transfers := filter (\<lambda>t. \<not> p t) (bk_transfers b)\<rparr>))"

definition get_or_create_transfer :: "transfer \<Rightarrow> books \<Rightarrow> (transfer \<times> books) result" where
  "get_or_create_transfer t b =
     rbind (fetch (\<lambda>r. tf_source r = tf_source t \<and> tf_destination r = tf_destination t \<and>
         tf_user r = tf_user t \<and> tf_item r = tf_item t \<and> tf_amount r = tf_amount t) (bk_transfers b)) (\<lambda>found.
     case found of Some r \<Rightarrow> Inr (r, b) | None \<Rightarrow> create_transfer t b)"

text \<open>\<open>get_or_create\<close> of line item types: \<open>p\<close> are the fields that are looked up, \<open>l\<close> is the row otherwise.\<close>

definition get_or_create_item ::
  "(line_item_type \<Rightarrow> bool) \<Rightarrow> line_item_type \<Rightarrow> books \<Rightarrow> (line_item_type \<times> books) result" where
  "get_or_create_item p l b =
     rbind (fetch p (bk_items b)) (\<lambda>found.
     case found of
       Some r \<Rightarrow> Inr (r, b)
     | None \<Rightarrow>
         if fits (lit_amount l)
         then let l' = l\<lparr>lit_id := bk_next b\<rparr> in
           Inr (l', b\<lparr>bk_items := bk_items b @ [l'], bk_next := bk_next b + 1\<rparr>)
         else Inl data_error)"

text \<open>A line item type with the defaults of the model.\<close>

definition new_item :: "int \<Rightarrow> string \<Rightarrow> line_item_type" where
  "new_item program text =
     \<lparr>lit_id = 0, lit_text = text, lit_amount = 0, lit_program = program, lit_required = False,
      lit_max_quantity = 1, lit_for_payments = False, lit_for_finaid = False\<rparr>"

text \<open>\<open>get_or_create\<close> by program and text.\<close>

definition item_with_text :: "program_row \<Rightarrow> string \<Rightarrow> books \<Rightarrow> (line_item_type \<times> books) result" where
  "item_with_text program text b =
     get_or_create_item (\<lambda>l. lit_program l = pr_id program \<and> lit_text l = text) (new_item (pr_id program) text) b"

text \<open>The names of accounts are unique.\<close>

definition get_or_create_account :: "account \<Rightarrow> books \<Rightarrow> (account \<times> books) result" where
  "get_or_create_account a b =
     rbind (fetch (\<lambda>r. ac_name r = ac_name a \<and> ac_description r = ac_description a \<and>
         (ac_program a = None \<or> ac_program r = ac_program a)) (bk_accounts b)) (\<lambda>found.
     case found of
       Some r \<Rightarrow> Inr (r, b)
     | None \<Rightarrow>
         if ac_name a \<in> ac_name ` set (bk_accounts b) then Inl integrity_error
         else let a' = a\<lparr>ac_id := bk_next b\<rparr> in
           Inr (a', b\<lparr>bk_accounts := bk_accounts b @ [a'], bk_next := bk_next b + 1\<rparr>))"

subsection \<open>The base controller\<close>

definition default_source_account :: "books \<Rightarrow> account result" where
  "default_source_account b = get_row (\<lambda>a. ac_name a = ''receivable'') (bk_accounts b)"

definition default_finaid_account :: "books \<Rightarrow> account result" where
  "default_finaid_account b = get_row (\<lambda>a. ac_name a = ''grants'') (bk_accounts b)"

definition default_payable_account :: "books \<Rightarrow> account result" where
  "default_payable_account b = get_row (\<lambda>a. ac_name a = ''payable'') (bk_accounts b)"

subsection \<open>The global controller\<close>

definition default_accounts :: "(string \<times> string) list" where
  "default_accounts =
     [(''receivable'', ''Accounts Receivable'' @ CHR 0x0A #
         ''All money coming from the outside is routed through here''),
      (''payable'', ''Accounts Payable'' @ CHR 0x0A #
         ''All money leaving the organization is routed through here''),
      (''grants'', ''Financial Aid Grants'' @ CHR 0x0A #
         ''This account is the source of financial aid transfers'')]"

definition setup_default_accounts :: "books \<Rightarrow> (account list \<times> books) result" where
  "setup_default_accounts b =
     rfold (\<lambda>(result, b) (name, description).
       rbind (get_or_create_account
         \<lparr>ac_id = 0, ac_name = name, ac_description = description, ac_program = None\<rparr> b) (\<lambda>(account, b').
       Inr (result @ [account], b'))) ([], b) default_accounts"

text \<open>The text of the donation that a program offers: the first module that offers one.\<close>

definition donation_text :: "program_row \<Rightarrow> string option" where
  "donation_text program = map_option snd (find fst (pr_donations program))"

definition global_donation_line_item :: "books \<Rightarrow> line_item_type list" where
  "global_donation_line_item b =
     filter (\<lambda>l. Some (lit_text l) \<in> donation_text ` set (bk_programs b)) (bk_items b)"

definition global_donation_summary :: "books \<Rightarrow> nat \<times> int" where
  "global_donation_summary b =
     (let payments = filter (\<lambda>t. tf_item t \<in> lit_id ` set (global_donation_line_item b) \<and> tf_paid_in t \<noteq> None)
        (bk_transfers b)
      in (length payments, sum_amounts payments))"

subsection \<open>The program controller\<close>

abbreviation finaid_items :: "string list" where
  "finaid_items \<equiv> [''Financial aid grant'', ''Sibling discount'']"

abbreviation refund_items :: "string list" where
  "refund_items \<equiv> [''Student refund'']"

abbreviation admission_items :: "string list" where
  "admission_items \<equiv> [''Program admission'', ''Student payment'']"

definition default_program_account :: "program_row \<Rightarrow> books \<Rightarrow> account option" where
  "default_program_account program b =
     greatest_by (\<lambda>a. - ac_id a) (filter (\<lambda>a. ac_program a = Some (pr_id program)) (bk_accounts b))"

definition default_payments_lineitemtype :: "program_row \<Rightarrow> books \<Rightarrow> line_item_type option" where
  "default_payments_lineitemtype program b =
     greatest_by lit_id (filter (\<lambda>l. lit_program l = pr_id program \<and> lit_for_payments l) (bk_items b))"

definition latest_with_text :: "string \<Rightarrow> program_row \<Rightarrow> books \<Rightarrow> line_item_type option" where
  "latest_with_text text program b =
     greatest_by lit_id (filter (\<lambda>l. lit_program l = pr_id program \<and> lit_text l = text) (bk_items b))"

abbreviation default_finaid_lineitemtype :: "program_row \<Rightarrow> books \<Rightarrow> line_item_type option" where
  "default_finaid_lineitemtype \<equiv> latest_with_text ''Financial aid grant''"

abbreviation default_siblingdiscount_lineitemtype :: "program_row \<Rightarrow> books \<Rightarrow> line_item_type option" where
  "default_siblingdiscount_lineitemtype \<equiv> latest_with_text ''Sibling discount''"

abbreviation default_admission_lineitemtype :: "program_row \<Rightarrow> books \<Rightarrow> line_item_type option" where
  "default_admission_lineitemtype \<equiv> latest_with_text ''Program admission''"

definition default_refund_lineitemtype :: "program_row \<Rightarrow> books \<Rightarrow> (line_item_type \<times> books) result" where
  "default_refund_lineitemtype program b = item_with_text program ''Student refund'' b"

definition donation_lineitemtype ::
  "program_row \<Rightarrow> books \<Rightarrow> (line_item_type option \<times> books) result" where
  "donation_lineitemtype program b =
     (case donation_text program of
        None \<Rightarrow> Inr (None, b)
      | Some text \<Rightarrow> rbind (item_with_text program text b) (\<lambda>(l, b'). Inr (Some l, b')))"

text \<open>The arguments of \<open>get_lineitemtypes\<close>.\<close>

record item_filter =
  if_donations :: bool
  if_required_only :: bool
  if_optional_only :: bool
  if_payment_only :: bool
  if_id :: "int option"

definition every_item :: item_filter where
  "every_item = \<lparr>if_donations = True, if_required_only = False, if_optional_only = False,
     if_payment_only = False, if_id = None\<rparr>"

definition lineitemtypes_Q :: "program_row \<Rightarrow> item_filter \<Rightarrow> line_item_type \<Rightarrow> bool" where
  "lineitemtypes_Q program f l =
     (case if_id f of
        Some i \<Rightarrow> lit_id l = i
      | None \<Rightarrow>
          lit_program l = pr_id program \<and> lit_text l \<notin> set finaid_items \<and> lit_text l \<notin> set refund_items \<and>
          (if_donations f \<or> list_all (\<lambda>(offer, text). offer \<longrightarrow> lit_text l \<noteq> text) (pr_donations program)) \<and>
          (if if_required_only f then lit_required l \<and> \<not> lit_for_payments l
           else if if_optional_only f then \<not> lit_required l \<and> \<not> lit_for_payments l
           else if if_payment_only f then \<not> lit_required l \<and> lit_for_payments l
           else True))"

text \<open>Of the line items with the same text, the one with the greatest id; sorted as the database sorts texts.\<close>

definition get_lineitemtypes :: "program_row \<Rightarrow> item_filter \<Rightarrow> books \<Rightarrow> line_item_type list" where
  "get_lineitemtypes program f b =
     (let ls = filter (lineitemtypes_Q program f) (bk_items b) in
      sort_key (\<lambda>l. map of_char (bk_collation b (lit_text l)) :: nat list)
        (filter (\<lambda>l. list_all (\<lambda>l'. lit_text l' = lit_text l \<longrightarrow> lit_id l' \<le> lit_id l) ls) ls))"

definition all_transfers :: "program_row \<Rightarrow> item_filter \<Rightarrow> books \<Rightarrow> transfer list" where
  "all_transfers program f b = filter (item_satisfies b (lineitemtypes_Q program f)) (bk_transfers b)"

definition all_accounts :: "program_row \<Rightarrow> books \<Rightarrow> account list" where
  "all_accounts program b = filter (\<lambda>a. ac_program a = Some (pr_id program)) (bk_accounts b)"

text \<open>The name is the slug of the name of the program.\<close>

definition setup_accounts ::
  "(string \<Rightarrow> string) \<Rightarrow> program_row \<Rightarrow> books \<Rightarrow> (account \<times> books) result" where
  "setup_accounts slugify program b =
     get_or_create_account \<lparr>ac_id = 0, ac_name = slugify (pr_name program), ac_description = ''Main account'',
       ac_program = Some (pr_id program)\<rparr> b"

text \<open>\<open>base_cost\<close> and the costs of optional items are formatted by \<open>'%.2f'\<close>.\<close>

definition add_optional_item ::
  "program_row \<Rightarrow> string \<times> rat \<times> int \<Rightarrow> books \<Rightarrow> (line_item_type \<times> books) result" where
  "add_optional_item program = (\<lambda>(name, cost, quantity) b.
     let l = (new_item (pr_id program) name)\<lparr>lit_amount := to_cents (float_of cost), lit_max_quantity := quantity\<rparr> in
     get_or_create_item (\<lambda>r. lit_text r = name \<and> lit_amount r = lit_amount l \<and> \<not> lit_required r \<and>
       lit_max_quantity r = quantity \<and> lit_program r = pr_id program \<and> \<not> lit_for_payments r) l b)"

definition add_item_option :: "line_item_type \<Rightarrow> string \<times> int \<Rightarrow> books \<Rightarrow> books result" where
  "add_item_option l = (\<lambda>(description, cost) b.
     rbind (fetch (\<lambda>r. lio_type r = lit_id l \<and> lio_description r = description \<and> lio_amount r = Some cost)
       (bk_options b)) (\<lambda>found.
     case found of
       Some _ \<Rightarrow> Inr b
     | None \<Rightarrow>
         if fits cost
         then Inr (b\<lparr>bk_options := bk_options b @ [\<lparr>lio_id = bk_next b, lio_type = lit_id l,
           lio_description = description, lio_amount = Some cost, lio_custom = False\<rparr>], bk_next := bk_next b + 1\<rparr>)
         else Inl data_error))"

definition add_select_item ::
  "program_row \<Rightarrow> string \<times> (string \<times> int) list \<Rightarrow> books \<Rightarrow> (line_item_type \<times> books) result" where
  "add_select_item program = (\<lambda>(name, choices) b.
     rbind (get_or_create_item (\<lambda>r. lit_text r = name \<and> \<not> lit_required r \<and> lit_max_quantity r = 1 \<and>
       lit_program r = pr_id program) (new_item (pr_id program) name) b) (\<lambda>(l, b').
     rbind (rfold (\<lambda>b choice. add_item_option l choice b) b' choices) (\<lambda>b''. Inr (l, b''))))"

text \<open>A list of rows that are got or created one after the other.\<close>

definition add_all ::
  "('a \<Rightarrow> books \<Rightarrow> (line_item_type \<times> books) result) \<Rightarrow> 'a list \<Rightarrow>
   line_item_type list \<times> books \<Rightarrow> (line_item_type list \<times> books) result" where
  "add_all f xs start =
     rfold (\<lambda>(result, b) x. rbind (f x b) (\<lambda>(l, b'). Inr (result @ [l], b'))) start xs"

definition admission_item :: "program_row \<Rightarrow> rat \<Rightarrow> books \<Rightarrow> (line_item_type \<times> books) result" where
  "admission_item program base_cost b =
     (let l = (new_item (pr_id program) ''Program admission'')
        \<lparr>lit_amount := to_cents (float_of base_cost), lit_required := True, lit_for_finaid := True\<rparr> in
      get_or_create_item (\<lambda>r. r\<lparr>lit_id := 0\<rparr> = l) l b)"

definition payment_item :: "program_row \<Rightarrow> books \<Rightarrow> (line_item_type \<times> books) result" where
  "payment_item program b =
     get_or_create_item (\<lambda>r. lit_text r = ''Student payment'' \<and> lit_program r = pr_id program \<and> lit_for_payments r)
       ((new_item (pr_id program) ''Student payment'')\<lparr>lit_for_payments := True\<rparr>) b"

definition setup_lineitemtypes ::
  "program_row \<Rightarrow> rat \<Rightarrow> (string \<times> rat \<times> int) list \<Rightarrow> (string \<times> (string \<times> int) list) list \<Rightarrow> books \<Rightarrow>
   (line_item_type list \<times> books) result" where
  "setup_lineitemtypes program base_cost optional_items select_items b =
     rbind (admission_item program base_cost b) (\<lambda>(lit_required, b).
     rbind (payment_item program b) (\<lambda>(lit_payments, b).
     rbind (item_with_text program ''Financial aid grant'' b) (\<lambda>(lit_finaid, b).
     rbind (add_all (add_optional_item program) optional_items ([lit_required, lit_payments, lit_finaid], b)) (\<lambda>r.
     add_all (add_select_item program) select_items r))))"

text \<open>\<open>Program.sibling\_discount\<close>, its assignment.\<close>

definition set_sibling_discount :: "int option \<Rightarrow> program_row \<Rightarrow> books \<Rightarrow> (program_row \<times> books) result" where
  "set_sibling_discount amount program b =
     (let value = (case amount of None \<Rightarrow> 0 | Some c \<Rightarrow> c);
          program' = program\<lparr>pr_sibling_discount := value\<rparr>;
          b' = b\<lparr>bk_programs := map (\<lambda>p. if pr_id p = pr_id program then p\<lparr>pr_sibling_discount := value\<rparr> else p)
            (bk_programs b)\<rparr> in
      rbind (get_or_create_item (\<lambda>r. lit_text r = ''Sibling discount'' \<and> lit_program r = pr_id program \<and>
          lit_amount r = value) ((new_item (pr_id program) ''Sibling discount'')\<lparr>lit_amount := value\<rparr>) b') (\<lambda>(_, b'').
      Inr (program', b'')))"

definition base_cost :: "program_row \<Rightarrow> books \<Rightarrow> int" where
  "base_cost program b =
     (case default_admission_lineitemtype program b of None \<Rightarrow> 0 | Some l \<Rightarrow> lit_amount l)"

text \<open>Deleting line item types deletes their options and their transfers, deleting accounts their transfers.\<close>

definition delete_items :: "int list \<Rightarrow> books \<Rightarrow> books result" where
  "delete_items ids b =
     (let options = map lio_id (filter (\<lambda>r. lio_type r \<in> set ids) (bk_options b)) in
      rbind (delete_transfers (\<lambda>t. tf_item t \<in> set ids \<or> (\<exists>i\<in>set options. tf_option t = Some i)) b) (\<lambda>b'.
      Inr (b'\<lparr>bk_items := filter (\<lambda>l. lit_id l \<notin> set ids) (bk_items b'),
        bk_options := filter (\<lambda>r. lio_type r \<notin> set ids) (bk_options b')\<rparr>)))"

definition delete_accounts :: "int list \<Rightarrow> books \<Rightarrow> books result" where
  "delete_accounts ids b =
     rbind (delete_transfers (\<lambda>t. \<exists>i\<in>set ids. tf_source t = Some i \<or> tf_destination t = Some i) b) (\<lambda>b'.
     Inr (b'\<lparr>bk_accounts := filter (\<lambda>a. ac_id a \<notin> set ids) (bk_accounts b')\<rparr>))"

definition grants_for :: "(aid_request \<Rightarrow> bool) \<Rightarrow> books \<Rightarrow> aid_grant \<Rightarrow> bool" where
  "grants_for p b g = list_ex (\<lambda>r. fr_id r = gr_request g \<and> p r) (bk_requests b)"

definition clear_all_data :: "program_row \<Rightarrow> books \<Rightarrow> books result" where
  "clear_all_data program b =
     (let b1 = b\<lparr>bk_grants := filter (\<lambda>g. \<not> grants_for (\<lambda>r. fr_program r = pr_id program) b g) (bk_grants b)\<rparr> in
      rbind (delete_transfers (item_satisfies b (lineitemtypes_Q program every_item)) b1) (\<lambda>b2.
      rbind (delete_items (map lit_id (get_lineitemtypes program every_item b2)) b2) (\<lambda>b3.
      delete_accounts (map ac_id (all_accounts program b3)) b3)))"

subsection \<open>Summaries\<close>

text \<open>The total of no rows is \<open>None\<close>.\<close>

definition payments_summary :: "program_row \<Rightarrow> books \<Rightarrow> nat \<times> int option" where
  "payments_summary program b =
     (let payments = filter (has_item (default_payments_lineitemtype program b)) (bk_transfers b) in
      (length payments, if payments = [] then None else Some (sum_amounts payments)))"

definition program_accounting_summary :: "line_item_type option \<Rightarrow> books \<Rightarrow> nat \<times> int" where
  "program_accounting_summary line_item b =
     (case line_item of
        None \<Rightarrow> (0, 0)
      | Some l \<Rightarrow>
          let payments = filter (\<lambda>t. tf_item t = lit_id l \<and> tf_paid_in t \<noteq> None) (bk_transfers b) in
          (length payments, sum_amounts payments))"

definition donation_summary :: "program_row \<Rightarrow> books \<Rightarrow> ((nat \<times> int) \<times> books) result" where
  "donation_summary program b =
     rbind (donation_lineitemtype program b) (\<lambda>(l, b'). Inr (program_accounting_summary l b', b'))"

definition admission_summary :: "program_row \<Rightarrow> books \<Rightarrow> nat \<times> int" where
  "admission_summary program b = program_accounting_summary (default_admission_lineitemtype program b) b"

datatype transfer_class =
    Payment_Transfer
  | Refund_Transfer
  | Finaid_Transfer
  | Sibling_Transfer
  | Cost_Transfer bool
  | Unrelated_Transfer

definition classify_transfer ::
  "program_row \<Rightarrow> transfer \<Rightarrow> books \<Rightarrow> (transfer_class \<times> books) result" where
  "classify_transfer program t b =
     (if has_item (default_payments_lineitemtype program b) t then Inr (Payment_Transfer, b)
      else rbind (default_refund_lineitemtype program b) (\<lambda>(refund, b).
        if has_item (Some refund) t then Inr (Refund_Transfer, b)
        else if has_item (default_finaid_lineitemtype program b) t then Inr (Finaid_Transfer, b)
        else if has_item (default_siblingdiscount_lineitemtype program b) t then Inr (Sibling_Transfer, b)
        else if tf_destination t = map_option ac_id (default_program_account program b)
        then Inr (Cost_Transfer (item_satisfies b lit_required t), b)
        else Inr (Unrelated_Transfer, b)))"

subsection \<open>Accounts\<close>

definition balance :: "account \<Rightarrow> books \<Rightarrow> int" where
  "balance a b =
     (let outgoing = filter (\<lambda>t. tf_source t = Some (ac_id a)) (bk_transfers b);
          incoming = filter (\<lambda>t. tf_destination t = Some (ac_id a)) (bk_transfers b) in
      (if outgoing \<noteq> [] then - sum_amounts outgoing else 0) + (if incoming \<noteq> [] then sum_amounts incoming else 0))"

definition amount_dec_inherited :: "line_item_option \<Rightarrow> books \<Rightarrow> int result" where
  "amount_dec_inherited r b =
     (case lio_amount r of
        Some c \<Rightarrow> Inr c
      | None \<Rightarrow> rbind (get_row (\<lambda>l. lit_id l = lio_type r) (bk_items b)) (\<lambda>l. Inr (lit_amount l)))"

end
