(* ===== verification/Payments.thy ===== *)
theory Payments
  imports Accounting
begin

section \<open>What a user owes and pays (accounting/controllers.py, class IndividualAccountingController)\<close>

text \<open>
  The operations of the controller of one user in one program: the transfers for required and optional items,
  the amounts (requested, financial aid, discount for siblings, paid, refunded, due), payments, refunds and the
  links from transfers to the payments that settle them; and, with them, \<open>SplashInfo\<close>, the requests and grants
  of financial aid, and the change of the costs of a program.

  An amount given as an argument is the number that it stands for; it is formatted with two digits by
  \<open>'%.2f'\<close>, which reads it as a float (\<open>as_cents\<close>). Amounts of preferences have two digits.
\<close>

definition as_cents :: "rat \<Rightarrow> int" where
  "as_cents amount = to_cents (float_of amount)"

definition account_id :: "account option \<Rightarrow> int option" where
  "account_id = map_option ac_id"

definition transfers_of :: "int \<Rightarrow> books \<Rightarrow> transfer list" where
  "transfers_of user b = filter (\<lambda>t. tf_user t = Some user) (bk_transfers b)"

definition transfers_to_program_exist :: "program_row \<Rightarrow> int \<Rightarrow> books \<Rightarrow> bool" where
  "transfers_to_program_exist program user b \<longleftrightarrow>
     list_ex (\<lambda>t. tf_destination t = account_id (default_program_account program b)) (transfers_of user b)"

subsection \<open>Required items\<close>

text \<open>The transfer of a line item: of several, the last one.\<close>

definition existing_transfer :: "int \<Rightarrow> line_item_type \<Rightarrow> books \<Rightarrow> transfer option" where
  "existing_transfer user item b = find (\<lambda>t. tf_item t = lit_id item) (rev (transfers_of user b))"

definition ensure_item ::
  "account \<Rightarrow> account option \<Rightarrow> int \<Rightarrow> books \<Rightarrow> books \<Rightarrow> line_item_type \<Rightarrow> books result" where
  "ensure_item source destination user start b item =
     (case existing_transfer user item start of
        None \<Rightarrow>
          rbind (transfer_for (Some (ac_id source)) (account_id destination) user (Some item) (lit_amount item)) (\<lambda>t.
          rbind (create_transfer t b) (\<lambda>(_, b'). Inr b'))
      | Some t \<Rightarrow>
          if tf_paid_in t \<noteq> None then Inr b
          else if tf_amount t = lit_amount item then Inr b
          else save_transfer (t\<lparr>tf_amount := lit_amount item\<rparr>) b)"

definition required_items :: "program_row \<Rightarrow> books \<Rightarrow> line_item_type list" where
  "required_items program b = get_lineitemtypes program (every_item\<lparr>if_required_only := True\<rparr>) b"

definition ensure_required_transfers :: "program_row \<Rightarrow> int \<Rightarrow> books \<Rightarrow> books result" where
  "ensure_required_transfers program user b =
     rbind (default_source_account b) (\<lambda>source.
     rfold (ensure_item source (default_program_account program b) user b) b (required_items program b))"

subsection \<open>Preferences\<close>

definition get_transfers_in :: "int \<Rightarrow> line_item_type list \<Rightarrow> books \<Rightarrow> transfer list result" where
  "get_transfers_in user line_items b =
     rbind (default_source_account b) (\<lambda>_.
     Inr (sort_key tf_id (filter (\<lambda>t. tf_item t \<in> lit_id ` set line_items) (transfers_of user b))))"

definition get_transfers :: "program_row \<Rightarrow> int \<Rightarrow> item_filter \<Rightarrow> books \<Rightarrow> transfer list result" where
  "get_transfers program user f b = get_transfers_in user (get_lineitemtypes program f b) b"

text \<open>The identical transfers that a preference replaces.\<close>

definition matches_preference ::
  "int \<Rightarrow> line_item_type \<Rightarrow> int option \<Rightarrow> int option \<Rightarrow> transfer \<Rightarrow> bool" where
  "matches_preference user line_item amount option_id t \<longleftrightarrow>
     tf_user t = Some user \<and> tf_item t = lit_id line_item \<and>
     (amount = None \<or> amount = Some (tf_amount t)) \<and> (option_id = None \<or> option_id = tf_option t)"

fun create_copies :: "nat \<Rightarrow> transfer \<Rightarrow> books \<Rightarrow> (transfer list \<times> books) result" where
  "create_copies 0 t b = Inr ([], b)"
| "create_copies (Suc n) t b =
     rbind (create_transfer t b) (\<lambda>(t', b').
     rbind (create_copies n t b') (\<lambda>(ts, b''). Inr (t' # ts, b'')))"

definition preference_amount ::
  "line_item_type \<Rightarrow> int option \<Rightarrow> line_item_option option \<Rightarrow> books \<Rightarrow> int result" where
  "preference_amount line_item amount opt b =
     (case amount of
        Some c \<Rightarrow> Inr c
      | None \<Rightarrow> (case opt of Some r \<Rightarrow> amount_dec_inherited r b | None \<Rightarrow> Inr (lit_amount line_item)))"

definition set_preference ::
  "program_row \<Rightarrow> int \<Rightarrow> string \<Rightarrow> int \<Rightarrow> int option \<Rightarrow> int option \<Rightarrow> books \<Rightarrow> (transfer list \<times> books) result" where
  "set_preference program user lineitem_name quantity amount option_id b =
     rbind (get_row (\<lambda>l. lit_text l = lineitem_name) (get_lineitemtypes program every_item b)) (\<lambda>line_item.
     rbind (default_source_account b) (\<lambda>source.
     rbind (delete_transfers (matches_preference user line_item amount option_id) b) (\<lambda>b'.
     rbind (case option_id of
         None \<Rightarrow> Inr None
       | Some i \<Rightarrow> rbind (get_row (\<lambda>r. lio_id r = i) (bk_options b')) (\<lambda>r. Inr (Some r))) (\<lambda>opt.
     rbind (preference_amount line_item amount opt b') (\<lambda>amount.
     create_copies (nat quantity)
       \<lparr>tf_id = 0, tf_source = Some (ac_id source), tf_destination = account_id (default_program_account program b'),
        tf_user = Some user, tf_item = lit_id line_item, tf_option = map_option lio_id opt, tf_amount = amount,
        tf_transaction = [], tf_paid_in = None\<rparr> b')))))"

text \<open>A preference is the name of the item, a quantity, an amount and the id of an option.\<close>

type_synonym preference = "string \<times> int option \<times> int option \<times> int option"

definition optional_line_items :: "program_row \<Rightarrow> books \<Rightarrow> line_item_type list" where
  "optional_line_items program b =
     filter (\<lambda>l. lit_text l \<notin> set admission_items) (get_lineitemtypes program (every_item\<lparr>if_donations := False\<rparr>) b)"

definition add_preference ::
  "program_row \<Rightarrow> int \<Rightarrow> transfer list \<times> books \<Rightarrow> preference \<Rightarrow> (transfer list \<times> books) result" where
  "add_preference program user = (\<lambda>(result, b) (name, quantity, cost, option_id).
     rbind (set_preference program user name (case quantity of None \<Rightarrow> 0 | Some q \<Rightarrow> q) cost option_id b) (\<lambda>(ts, b').
     Inr (result @ ts, b')))"

definition set_preferences ::
  "program_row \<Rightarrow> int \<Rightarrow> preference list \<Rightarrow> books \<Rightarrow> (transfer list \<times> books) result" where
  "set_preferences program user optional_items b = rfold (add_preference program user) ([], b) optional_items"

definition apply_preferences ::
  "program_row \<Rightarrow> int \<Rightarrow> preference list \<Rightarrow> books \<Rightarrow> (transfer list \<times> books) result" where
  "apply_preferences program user optional_items b =
     rbind (delete_transfers (\<lambda>t. tf_user t = Some user \<and>
       tf_item t \<in> lit_id ` set (optional_line_items program b)) b) (\<lambda>b'.
     set_preferences program user optional_items b')"

definition count_preference ::
  "books \<Rightarrow> (string \<times> int \<times> int option, nat) dict \<Rightarrow> transfer \<Rightarrow> (string \<times> int \<times> int option, nat) dict" where
  "count_preference b counts t =
     (let key = (case item_of b t of None \<Rightarrow> [] | Some l \<Rightarrow> lit_text l, tf_amount t, tf_option t) in
      AList.update key ((case map_of counts key of None \<Rightarrow> 0 | Some n \<Rightarrow> n) + 1) counts)"

definition as_preference :: "(string \<times> int \<times> int option) \<times> nat \<Rightarrow> string \<times> nat \<times> int \<times> int option" where
  "as_preference = (\<lambda>((name, amount, option_id), quantity). (name, quantity, amount, option_id))"

definition preferences_of :: "books \<Rightarrow> transfer list \<Rightarrow> (string \<times> nat \<times> int \<times> int option) list" where
  "preferences_of b ts =
     map as_preference (foldl (count_preference b) [] ts)"

definition get_preferences ::
  "program_row \<Rightarrow> int \<Rightarrow> line_item_type list option \<Rightarrow> books \<Rightarrow> (string \<times> nat \<times> int \<times> int option) list result" where
  "get_preferences program user line_items b =
     rbind (case line_items of
         None \<Rightarrow> get_transfers program user every_item b
       | Some ls \<Rightarrow> get_transfers_in user ls b) (\<lambda>ts.
     Inr (preferences_of b ts))"

subsection \<open>Sibling discount (program/models/\_\_init\_\_.py, class SplashInfo)\<close>

definition execute_sibling_discount ::
  "program_row \<Rightarrow> splash_info \<Rightarrow> books \<Rightarrow> (transfer option \<times> books) result" where
  "execute_sibling_discount program s b =
     (let line_item = default_siblingdiscount_lineitemtype program b in
      rbind (default_finaid_account b) (\<lambda>source.
      rbind (default_source_account b) (\<lambda>dest.
      if spi_siblingdiscount s
      then rbind (transfer_for (Some (ac_id source)) (Some (ac_id dest)) (spi_student s) line_item
             (pr_sibling_discount program)) (\<lambda>t.
           rbind (get_or_create_transfer t b) (\<lambda>(t', b'). Inr (Some t', b')))
      else rbind (delete_transfers (\<lambda>t. tf_source t = Some (ac_id source) \<and> tf_destination t = Some (ac_id dest) \<and>
             tf_user t = Some (spi_student s) \<and> has_item line_item t) b) (\<lambda>b'.
           Inr (None, b')))))"

definition save_splash :: "program_row \<Rightarrow> splash_info \<Rightarrow> books \<Rightarrow> books result" where
  "save_splash program s b =
     rbind (execute_sibling_discount program s
       (b\<lparr>bk_splash := map (\<lambda>r. if spi_id r = spi_id s then s else r) (bk_splash b)\<rparr>)) (\<lambda>(_, b').
     Inr b')"

definition splash_for_user :: "program_row \<Rightarrow> int \<Rightarrow> books \<Rightarrow> (splash_info \<times> books) result" where
  "splash_for_user program user b =
     (case find (\<lambda>s. spi_student s = user \<and> spi_program s = pr_id program) (bk_splash b) of
        Some s \<Rightarrow> Inr (s, b)
      | None \<Rightarrow>
          let n = \<lparr>spi_id = bk_next b, spi_student = user, spi_program = pr_id program, spi_siblingdiscount = False\<rparr> in
          rbind (execute_sibling_discount program n
            (b\<lparr>bk_splash := bk_splash b @ [n], bk_next := bk_next b + 1\<rparr>)) (\<lambda>(_, b').
          Inr (n, b')))"

definition amount_siblingdiscount :: "program_row \<Rightarrow> int \<Rightarrow> books \<Rightarrow> (int \<times> books) result" where
  "amount_siblingdiscount program user b =
     (if pr_sibling_discount program = 0 then Inr (0, b)
      else rbind (splash_for_user program user b) (\<lambda>(s, b').
        Inr (if spi_siblingdiscount s then pr_sibling_discount program else 0, b')))"

subsection \<open>Amounts\<close>

definition requested_transfers ::
  "program_row \<Rightarrow> int \<Rightarrow> bool \<Rightarrow> bool \<Rightarrow> books \<Rightarrow> (transfer list \<times> books) result" where
  "requested_transfers program user ensure_required for_finaid_only b =
     rbind (if ensure_required then ensure_required_transfers program user b else Inr b) (\<lambda>b'.
     Inr (filter (\<lambda>t. tf_destination t = account_id (default_program_account program b') \<and>
         (for_finaid_only \<longrightarrow> item_satisfies b' lit_for_finaid t)) (transfers_of user b'), b'))"

definition amount_requested ::
  "program_row \<Rightarrow> int \<Rightarrow> bool \<Rightarrow> bool \<Rightarrow> books \<Rightarrow> (int \<times> books) result" where
  "amount_requested program user ensure_required for_finaid_only b =
     rbind (requested_transfers program user ensure_required for_finaid_only b) (\<lambda>(ts, b').
     Inr (sum_amounts ts, b'))"

definition latest_finaid_grant :: "program_row \<Rightarrow> int \<Rightarrow> books \<Rightarrow> aid_grant option" where
  "latest_finaid_grant program user b =
     greatest_by gr_request
       (filter (grants_for (\<lambda>r. fr_user r = user \<and> fr_program r = pr_id program) b) (bk_grants b))"

text \<open>The aid of a grant for a remaining cost, in cents.\<close>

definition aid_amount :: "aid_grant \<Rightarrow> int \<Rightarrow> int" where
  "aid_amount g cost =
     (let aid = (case gr_amount_max g of None \<Rightarrow> 0 | Some m \<Rightarrow> if cost > m then m else cost);
          discount = (case gr_percent g of None \<Rightarrow> 0 | Some p \<Rightarrow> of_int p / 100 * of_int (cost - aid)) in
      round_half_up (of_int aid + discount :: rat))"

definition amount_finaid :: "program_row \<Rightarrow> int \<Rightarrow> int option \<Rightarrow> books \<Rightarrow> (int \<times> books) result" where
  "amount_finaid program user siblingdiscount b =
     rbind (amount_requested program user True True b) (\<lambda>(requested, b).
     rbind (case siblingdiscount of
         None \<Rightarrow> amount_siblingdiscount program user b
       | Some c \<Rightarrow> Inr (c, b)) (\<lambda>(sibling, b).
     Inr (case latest_finaid_grant program user b of
         None \<Rightarrow> 0
       | Some g \<Rightarrow> aid_amount g (requested - sibling), b)))"

definition amount_donation :: "program_row \<Rightarrow> int \<Rightarrow> books \<Rightarrow> (int \<times> books) result" where
  "amount_donation program user b =
     rbind (donation_lineitemtype program b) (\<lambda>(lit, b').
     Inr (case lit of
         None \<Rightarrow> 0
       | Some l \<Rightarrow> sum_amounts (filter (\<lambda>t. tf_item t = lit_id l) (transfers_of user b')), b'))"

definition amount_paid :: "program_row \<Rightarrow> int \<Rightarrow> books \<Rightarrow> int" where
  "amount_paid program user b =
     sum_amounts (filter (\<lambda>t. has_item (default_payments_lineitemtype program b) t \<and> tf_source t = None)
       (transfers_of user b))"

definition amount_refunded :: "program_row \<Rightarrow> int \<Rightarrow> books \<Rightarrow> (int \<times> books) result" where
  "amount_refunded program user b =
     rbind (default_refund_lineitemtype program b) (\<lambda>(refund, b').
     rbind (default_payable_account b') (\<lambda>payable.
     Inr (sum_amounts (filter (\<lambda>t. tf_item t = lit_id refund \<and> tf_source t = Some (ac_id payable) \<and>
       tf_destination t = None) (transfers_of user b')), b')))"

definition amount_due :: "program_row \<Rightarrow> int \<Rightarrow> books \<Rightarrow> (int \<times> books) result" where
  "amount_due program user b =
     rbind (amount_requested program user True False b) (\<lambda>(request, b).
     rbind (amount_siblingdiscount program user b) (\<lambda>(sibling, b).
     rbind (amount_finaid program user (Some sibling) b) (\<lambda>(finaid, b).
     rbind (Inr (amount_paid program user b)) (\<lambda>paid.
     rbind (amount_refunded program user b) (\<lambda>(refunded, b).
     Inr (request - finaid - sibling - paid + refunded, b))))))"

definition has_paid :: "program_row \<Rightarrow> int \<Rightarrow> bool \<Rightarrow> books \<Rightarrow> (bool \<times> books) result" where
  "has_paid program user in_full b =
     (if in_full \<and> amount_paid program user b > 0
      then rbind (amount_due program user b) (\<lambda>(due, b'). Inr (due \<le> 0, b'))
      else Inr (amount_paid program user b > 0, b))"

subsection \<open>Payments\<close>

text \<open>
  The total of the loop is a float: it starts as \<open>0\<close>, and floats are added to it. It is compared with a decimal
  number, which Python does exactly.
\<close>

fun link_loop :: "int \<Rightarrow> rat \<Rightarrow> rat \<Rightarrow> transfer list \<Rightarrow> books \<Rightarrow> (rat \<times> books) result" where
  "link_loop payment target acc [] b = Inr (acc, b)"
| "link_loop payment target acc (t # ts) b =
     (let acc' = float_add acc (float_of (dollars (tf_amount t))) in
      rbind (if tf_paid_in t = None then save_transfer (t\<lparr>tf_paid_in := Some payment\<rparr>) b else Inr b) (\<lambda>b'.
      if acc' \<ge> target then Inr (acc', b') else link_loop payment target acc' ts b'))"

text \<open>The transfers are read when the loop starts, after the amounts of the target have been computed.\<close>

definition linkable :: "program_row \<Rightarrow> int \<Rightarrow> books \<Rightarrow> transfer list" where
  "linkable program user b =
     filter (item_satisfies b (\<lambda>l. \<not> lit_for_payments l \<and> lit_text l \<notin> set finaid_items))
       (sort_key tf_id (filter (\<lambda>t. tf_item t \<in> lit_id ` set (get_lineitemtypes program every_item b))
         (transfers_of user b)))"

definition link_paid_transfers :: "program_row \<Rightarrow> int \<Rightarrow> transfer \<Rightarrow> books \<Rightarrow> books result" where
  "link_paid_transfers program user payment b =
     rbind (default_source_account b) (\<lambda>_.
     rbind (Inr (amount_paid program user b)) (\<lambda>paid.
     rbind (amount_siblingdiscount program user b) (\<lambda>(sibling, b).
     rbind (amount_finaid program user None b) (\<lambda>(finaid, b).
     rbind (amount_refunded program user b) (\<lambda>(refunded, b).
     let target = dollars (paid + sibling + finaid - refunded) in
     rbind (link_loop (tf_id payment) target 0 (linkable program user b) b) (\<lambda>(reached, b).
     if reached \<noteq> target then Inl (ValueError ''Transfers do not sum to target'') else Inr b))))))"

definition create_payment ::
  "program_row \<Rightarrow> int \<Rightarrow> rat \<Rightarrow> string \<Rightarrow> books \<Rightarrow> (transfer \<times> books) result" where
  "create_payment program user amount transaction_id b =
     rbind (default_source_account b) (\<lambda>target.
     rbind (transfer_for None (Some (ac_id target)) user (default_payments_lineitemtype program b)
       (as_cents amount)) (\<lambda>t.
     create_transfer (t\<lparr>tf_transaction := transaction_id\<rparr>) b))"

definition submit_payment ::
  "program_row \<Rightarrow> int \<Rightarrow> rat \<Rightarrow> string \<Rightarrow> bool \<Rightarrow> books \<Rightarrow> (transfer \<times> books) result" where
  "submit_payment program user amount transaction_id link_transfers b =
     rbind (create_payment program user amount transaction_id b) (\<lambda>(payment, b).
     if link_transfers
     then rbind (link_paid_transfers program user payment b) (\<lambda>b. Inr (payment, b))
     else Inr (payment, b))"

definition record_refund ::
  "program_row \<Rightarrow> int \<Rightarrow> rat \<Rightarrow> string \<Rightarrow> books \<Rightarrow> ((transfer \<times> transfer) \<times> books) result" where
  "record_refund program user amount transaction_id b =
     rbind (default_refund_lineitemtype program b) (\<lambda>(line_item, b).
     rbind (default_payable_account b) (\<lambda>payable.
     rbind (transfer_for (Some (ac_id payable)) None user (Some line_item) (as_cents amount)) (\<lambda>outgoing.
     rbind (create_transfer (outgoing\<lparr>tf_transaction := transaction_id\<rparr>) b) (\<lambda>(outgoing, b').
     rbind (transfer_for (account_id (default_program_account program b)) (Some (ac_id payable)) user (Some line_item)
       (as_cents amount)) (\<lambda>internal.
     rbind (create_transfer (internal\<lparr>tf_transaction := transaction_id\<rparr>) b') (\<lambda>(internal, b'').
     Inr ((outgoing, internal), b'')))))))"

definition updatePaid :: "program_row \<Rightarrow> int \<Rightarrow> bool \<Rightarrow> bool \<Rightarrow> books \<Rightarrow> books result" where
  "updatePaid program user paid in_full b =
     rbind (has_paid program user in_full b) (\<lambda>(settled, b).
     if settled then Inr b
     else rbind (ensure_required_transfers program user b) (\<lambda>b.
       if paid
       then rbind (amount_due program user b) (\<lambda>(due, b).
         rbind (submit_payment program user (dollars due) [] True b) (\<lambda>(_, b). Inr b))
       else Inr b))"

subsection \<open>Financial aid\<close>

definition requests_of :: "program_row \<Rightarrow> int \<Rightarrow> books \<Rightarrow> aid_request list" where
  "requests_of program user b = filter (\<lambda>r. fr_user r = user \<and> fr_program r = pr_id program) (bk_requests b)"

definition request_for :: "program_row \<Rightarrow> int \<Rightarrow> books \<Rightarrow> aid_request \<times> books" where
  "request_for program user b =
     (case greatest_by fr_id (requests_of program user b) of
        Some r \<Rightarrow> (r, b)
      | None \<Rightarrow>
          let r = \<lparr>fr_id = bk_next b, fr_user = user, fr_program = pr_id program,
                fr_explanation = Some ''Request automatically generated by accounting system'', fr_done = False\<rparr> in
          (r, b\<lparr>bk_requests := bk_requests b @ [r], bk_next := bk_next b + 1\<rparr>))"

definition grant_for_request :: "aid_request \<Rightarrow> books \<Rightarrow> (aid_grant \<times> books) result" where
  "grant_for_request r b =
     rbind (fetch (\<lambda>g. gr_request g = fr_id r) (bk_grants b)) (\<lambda>found.
     case found of
       Some g \<Rightarrow> Inr (g, b)
     | None \<Rightarrow>
         let g = \<lparr>gr_id = bk_next b, gr_request = fr_id r, gr_amount_max = None, gr_percent = None,
               gr_finalized = False\<rparr> in
         Inr (g, b\<lparr>bk_grants := bk_grants b @ [g], bk_next := bk_next b + 1\<rparr>))"

text \<open>A grant with id \<open>0\<close> has not been saved yet. A request has at most one grant.\<close>

definition save_grant :: "aid_grant \<Rightarrow> books \<Rightarrow> books result" where
  "save_grant g b =
     (if \<not> (case gr_amount_max g of None \<Rightarrow> True | Some c \<Rightarrow> fits c) then Inl data_error
      else if gr_id g = 0
      then if gr_request g \<in> gr_request ` set (bk_grants b) then Inl integrity_error
        else Inr (b\<lparr>bk_grants := bk_grants b @ [g\<lparr>gr_id := bk_next b\<rparr>], bk_next := bk_next b + 1\<rparr>)
      else Inr (b\<lparr>bk_grants := map (\<lambda>r. if gr_id r = gr_id g then g else r) (bk_grants b)\<rparr>))"

definition set_finaid_params ::
  "program_row \<Rightarrow> int \<Rightarrow> rat option \<Rightarrow> int option \<Rightarrow> books \<Rightarrow> books result" where
  "set_finaid_params program user dollar_amount discount_percent b =
     (let (r, b) = request_for program user b in
      rbind (grant_for_request r b) (\<lambda>(g, b).
      let g = (case dollar_amount of
          None \<Rightarrow> g
        | Some x \<Rightarrow> if x = 0 then g else g\<lparr>gr_amount_max := Some (as_cents x)\<rparr>) in
      save_grant (g\<lparr>gr_percent := discount_percent\<rparr>) b))"

definition grant_full_financial_aid :: "program_row \<Rightarrow> int \<Rightarrow> books \<Rightarrow> books result" where
  "grant_full_financial_aid program user = set_finaid_params program user None (Some 100)"

definition revoke_financial_aid :: "program_row \<Rightarrow> int \<Rightarrow> books \<Rightarrow> books" where
  "revoke_financial_aid program user b =
     b\<lparr>bk_grants := filter (\<lambda>g. \<not> grants_for (\<lambda>r. fr_user r = user \<and> fr_program r = pr_id program) b g) (bk_grants b)\<rparr>"

definition finalize_grant ::
  "program_row \<Rightarrow> int \<Rightarrow> aid_grant \<Rightarrow> books \<Rightarrow> (transfer option \<times> books) result" where
  "finalize_grant program user g b =
     (if gr_finalized g then Inr (None, b)
      else rbind (default_finaid_account b) (\<lambda>source.
        rbind (default_source_account b) (\<lambda>dest.
        let line_item = default_finaid_lineitemtype program b in
        rbind (amount_finaid program user None b) (\<lambda>(amount, b).
        rbind (transfer_for (Some (ac_id source)) (Some (ac_id dest)) user line_item amount) (\<lambda>t.
        rbind (get_or_create_transfer t b) (\<lambda>(t, b).
        rbind (save_grant (g\<lparr>gr_finalized := True\<rparr>) b) (\<lambda>b.
        Inr (Some t, b))))))))"

text \<open>\<open>FinancialAidRequest.approve\<close>: its grant is new, and saved by \<open>finalize\<close>.\<close>

definition approve ::
  "program_row \<Rightarrow> aid_request \<Rightarrow> int option \<Rightarrow> int option \<Rightarrow> books \<Rightarrow> books result" where
  "approve program r dollar_amount discount_percent b =
     (if list_ex (\<lambda>g. gr_request g = fr_id r) (bk_grants b) then Inr b
      else if dollar_amount \<in> {None, Some 0} \<and> discount_percent \<in> {None, Some 0}
      then Inl (OtherError ''ESPError: Need to supply at least one of dollar_amount and discount_percent'')
      else rbind (finalize_grant program (fr_user r) \<lparr>gr_id = 0, gr_request = fr_id r, gr_amount_max = dollar_amount,
          gr_percent = discount_percent, gr_finalized = False\<rparr> b) (\<lambda>(_, b).
        Inr (b\<lparr>bk_requests := map (\<lambda>q. if fr_id q = fr_id r then q\<lparr>fr_done := True\<rparr> else q) (bk_requests b)\<rparr>)))"

subsection \<open>Changing the costs of a program (program/modules/handlers/admincore.py)\<close>

text \<open>What the settings page does with the costs once its form is valid; \<open>slugify\<close> names the account.\<close>

definition change_costs ::
  "(string \<Rightarrow> string) \<Rightarrow> program_row \<Rightarrow> rat \<Rightarrow> int option \<Rightarrow> books \<Rightarrow> (program_row \<times> books) result" where
  "change_costs slugify program cost sibling_discount b =
     (case default_admission_lineitemtype program b of
        None \<Rightarrow> Inl AttributeError
      | Some l \<Rightarrow>
          let c = as_cents cost in
          rbind (raise_if (\<not> fits c) data_error) (\<lambda>_.
          let b = b\<lparr>bk_items := map (\<lambda>r. if lit_id r = lit_id l then r\<lparr>lit_amount := c\<rparr> else r) (bk_items b),
                bk_transfers := map (\<lambda>t. if tf_item t = lit_id l then t\<lparr>tf_amount := c\<rparr> else t) (bk_transfers b)\<rparr> in
          case default_program_account program b of
            None \<Rightarrow> Inl AttributeError
          | Some a \<Rightarrow>
              rbind (raise_if (slugify (pr_name program) \<in> ac_name ` set (filter (\<lambda>r. ac_id r \<noteq> ac_id a) (bk_accounts b)))
                integrity_error) (\<lambda>_.
              set_sibling_discount sibling_discount program
                (b\<lparr>bk_accounts := map (\<lambda>r. if ac_id r = ac_id a then r\<lparr>ac_name := slugify (pr_name program)\<rparr> else r)
                  (bk_accounts b)\<rparr>))))"

end
