(* ===== verification/Reconciliation.thy ===== *)
theory Reconciliation
  imports Payments
begin

section \<open>Identifiers of payments and their reconciliation (accounting/controllers.py)\<close>

text \<open>
  \<open>get_identifier\<close> writes down what a user is about to pay for, and \<open>record_payment_from_identifier\<close> takes this
  text back with the payment and links the transfers it names to the payment.

  A text is read by Python's \<open>split\<close>, \<open>int\<close> and \<open>float\<close>. The lists of unpaid transfers by line item, from which
  the loop takes one transfer for each entry, are kept as one list, of which \<open>unpaid\_transfers.get(i, [])\<close> is the
  part for the line item \<open>i\<close>. The row of the user is locked meanwhile, so no other operation intervenes.
\<close>

subsection \<open>Numbers as text\<close>

text \<open>\<open>'%.2f'\<close> of the number that stands for so many cents.\<close>

definition show_cents :: "int \<Rightarrow> string" where
  "show_cents c =
     (let n = nat \<bar>c\<bar> in
      (if c < 0 then [CHR ''-''] else []) @
      show_nat (n div 100) @ CHR ''.'' # [digit (n div 10 mod 10), digit (n mod 10)])"

text \<open>
  A text read as a number, as \<open>float\<close> does before it rounds; \<open>None\<close> where it raises an error. \<open>Decimal\<close> reads the
  same texts, and others with more underscores.
\<close>

datatype number =
    Finite rat
  | Infinite
  | Minus_Infinite
  | Not_A_Number

fun negated :: "number \<Rightarrow> number" where
  "negated (Finite x) = Finite (- x)"
| "negated Infinite = Minus_Infinite"
| "negated Minus_Infinite = Infinite"
| "negated Not_A_Number = Not_A_Number"

text \<open>A run of digits with single underscores between them, with its value and length; \<open>None\<close> if malformed.\<close>

definition digit_run :: "string \<Rightarrow> (int \<times> nat) option" where
  "digit_run s =
     (if s = [] then Some (0, 0) else map_option (\<lambda>n. (n, length (filter is_digit s))) (digits False 0 s))"

definition power10 :: "int \<Rightarrow> rat" where
  "power10 e = (if e \<ge> 0 then 10 ^ nat e else 1 / 10 ^ nat (- e))"

definition parse_exponent :: "string \<Rightarrow> int option" where
  "parse_exponent s =
     (case s of
        [] \<Rightarrow> None
      | c # cs \<Rightarrow>
          if c = CHR ''-'' then map_option uminus (digits False 0 cs)
          else if c = CHR ''+'' then digits False 0 cs
          else digits False 0 (c # cs))"

definition parse_mantissa :: "string \<Rightarrow> rat option" where
  "parse_mantissa s =
     (case split_at CHR ''.'' s of
        [whole] \<Rightarrow> map_option of_int (digits False 0 whole)
      | [whole, fraction] \<Rightarrow>
          (case (digit_run whole, digit_run fraction) of
             (Some (n, k), Some (m, l)) \<Rightarrow>
               if k = 0 \<and> l = 0 then None else Some (of_int n + of_int m * power10 (- int l))
           | _ \<Rightarrow> None)
      | _ \<Rightarrow> None)"

definition parse_unsigned :: "string \<Rightarrow> number option" where
  "parse_unsigned s =
     (let l = lower s in
      if l \<in> {''inf'', ''infinity''} then Some Infinite
      else if l = ''nan'' then Some Not_A_Number
      else case split_at CHR ''e'' l of
        [m] \<Rightarrow> map_option Finite (parse_mantissa m)
      | [m, e] \<Rightarrow>
          (case (parse_mantissa m, parse_exponent e) of
             (Some x, Some n) \<Rightarrow> Some (Finite (x * power10 n))
           | _ \<Rightarrow> None)
      | _ \<Rightarrow> None)"

definition parse_number :: "string \<Rightarrow> number option" where
  "parse_number s =
     (case strip s of
        [] \<Rightarrow> None
      | c # cs \<Rightarrow>
          if c = CHR ''-'' then map_option negated (parse_unsigned cs)
          else if c = CHR ''+'' then parse_unsigned cs
          else parse_unsigned (c # cs))"

definition parse_decimal :: "string \<Rightarrow> number option" where
  "parse_decimal s = parse_number (filter (\<lambda>c. c \<noteq> CHR ''_'') s)"

text \<open>Numbers beyond the range of floats become infinite.\<close>

definition parse_float :: "string \<Rightarrow> rat option result" where
  "parse_float s =
     (case parse_number s of
        None \<Rightarrow> Inl (ValueError ''could not convert string to float'')
      | Some (Finite x) \<Rightarrow> Inr (if \<bar>x\<bar> \<ge> 2 ^ 1024 - 2 ^ 970 then None else Some x)
      | Some _ \<Rightarrow> Inr None)"

subsection \<open>Identifiers\<close>

fun join_with :: "char \<Rightarrow> string list \<Rightarrow> string" where
  "join_with d [] = []"
| "join_with d [x] = x"
| "join_with d (x # y # ys) = x @ d # join_with d (y # ys)"

definition get_id :: "program_row \<Rightarrow> int \<Rightarrow> string" where
  "get_id program user = show_int (pr_id program) @ CHR ''/'' # show_int user"

text \<open>The amount of a transfer is read as a float and formatted.\<close>

definition formatted_amount :: "transfer \<Rightarrow> string" where
  "formatted_amount t = show_cents (as_cents (dollars (tf_amount t)))"

definition entry_of :: "transfer \<Rightarrow> string" where
  "entry_of t = show_int (tf_item t) @ CHR '','' # formatted_amount t"

definition get_identifier :: "program_row \<Rightarrow> int \<Rightarrow> books \<Rightarrow> string result" where
  "get_identifier program user b =
     rbind (get_transfers program user every_item b) (\<lambda>ts.
     Inr (get_id program user @ CHR '':'' # join_with CHR '';'' (List.map entry_of ts)))"

definition from_id :: "string \<Rightarrow> books \<Rightarrow> (program_row \<times> int) result" where
  "from_id i b =
     (let sections = split_at CHR ''/'' i in
      rbind (py_nth sections 0) (\<lambda>p.
      rbind (parse_int p) (\<lambda>program_id.
      rbind (get_row (\<lambda>r. pr_id r = program_id) (bk_programs b)) (\<lambda>program.
      rbind (py_nth sections 1) (\<lambda>u.
      rbind (parse_int u) (\<lambda>user_id.
      rbind (get_row (\<lambda>r. r = user_id) (bk_users b)) (\<lambda>user.
      Inr (program, user))))))))"

definition program_from_identifier :: "string \<Rightarrow> books \<Rightarrow> program_row result" where
  "program_from_identifier identifier b =
     rbind (py_nth (split_at CHR ''/'' identifier) 0) (\<lambda>id_str.
     rbind (parse_int id_str) (\<lambda>i.
     get_row (\<lambda>r. pr_id r = i) (bk_programs b)))"

text \<open>The two parts of a text that is split at a character, as in an assignment to a pair.\<close>

definition split_pair :: "char \<Rightarrow> string \<Rightarrow> (string \<times> string) result" where
  "split_pair d s =
     (case split_at d s of [a, b] \<Rightarrow> Inr (a, b) | _ \<Rightarrow> Inl (ValueError ''unpack''))"

definition parse_entry :: "string \<Rightarrow> (int \<times> string) result" where
  "parse_entry item =
     rbind (split_pair CHR '','' item) (\<lambda>(line_item_id, saved_amount).
     rbind (parse_int line_item_id) (\<lambda>i. Inr (i, saved_amount)))"

subsection \<open>Reconciliation\<close>

abbreviation duplicate_payment :: py_error where
  "duplicate_payment \<equiv> OtherError ''DuplicatePaymentError''"

abbreviation reconciliation_error :: py_error where
  "reconciliation_error \<equiv> OtherError ''ReconciliationError''"

text \<open>A non-empty transaction id of an earlier payment of this user in this program.\<close>

definition already_recorded :: "program_row \<Rightarrow> int \<Rightarrow> string \<Rightarrow> books \<Rightarrow> bool" where
  "already_recorded program user transaction_id b \<longleftrightarrow>
     transaction_id \<noteq> [] \<and>
     list_ex (\<lambda>t. item_satisfies b (\<lambda>l. lit_program l = pr_id program \<and> lit_for_payments l) t \<and>
       tf_transaction t = transaction_id) (transfers_of user b)"

definition candidates :: "int \<Rightarrow> int list \<Rightarrow> transfer \<Rightarrow> books \<Rightarrow> transfer list" where
  "candidates user ids payment b =
     sort_key tf_id (filter (\<lambda>t. tf_item t \<in> set ids \<and> tf_id t \<noteq> tf_id payment) (transfers_of user b))"

text \<open>\<open>Transfer.set\_amount\<close>\<close>

definition set_amount :: "rat option \<Rightarrow> transfer \<Rightarrow> transfer result" where
  "set_amount amount t =
     rbind (raise_if (tf_paid_in t \<noteq> None)
       (OtherError ''Cannot change the amount of this transfer since it was already paid'')) (\<lambda>_.
     case amount of
       None \<Rightarrow> Inl (OtherError ''ValidationError'')
     | Some x \<Rightarrow> Inr (t\<lparr>tf_amount := as_cents x\<rparr>))"

text \<open>One entry: the unpaid transfers left, the total and the books.\<close>

definition reconcile_entry ::
  "program_row \<Rightarrow> transfer \<Rightarrow> bool \<Rightarrow> int set \<Rightarrow> transfer list \<times> int \<times> books \<Rightarrow> int \<times> string \<Rightarrow>
   (transfer list \<times> int \<times> books) result" where
  "reconcile_entry program payment trusted paid_line_item_ids = (\<lambda>(unpaid, transfer_total, b) (line_item_id, saved_amount).
     case filter (\<lambda>t. tf_item t = line_item_id) unpaid of
       [] \<Rightarrow> Inl (if line_item_id \<in> paid_line_item_ids then duplicate_payment else reconciliation_error)
     | first # _ \<Rightarrow>
         let t = (case find (\<lambda>t. tf_item t = line_item_id \<and> formatted_amount t = saved_amount) unpaid of
             Some t \<Rightarrow> t | None \<Rightarrow> first);
             unpaid' = remove1 t unpaid in
         rbind (raise_if (\<not> item_satisfies b (\<lambda>l. lit_program l = pr_id program) t) reconciliation_error) (\<lambda>_.
         rbind (if formatted_amount t \<noteq> saved_amount
             then if trusted then rbind (parse_float saved_amount) (\<lambda>x. set_amount x t)
               else Inl reconciliation_error
             else Inr t) (\<lambda>t.
         rbind (save_transfer (t\<lparr>tf_paid_in := Some (tf_id payment)\<rparr>) b) (\<lambda>b'.
         Inr (unpaid', transfer_total + tf_amount t, b')))))"

definition reconcile ::
  "program_row \<Rightarrow> int \<Rightarrow> transfer \<Rightarrow> bool \<Rightarrow> (int \<times> string) list \<Rightarrow> books \<Rightarrow> books result" where
  "reconcile program user payment trusted parsed_items b =
     (let found = candidates user (List.map fst parsed_items) payment b in
      rbind (rfold (reconcile_entry program payment trusted
          (tf_item ` set (filter (\<lambda>t. tf_paid_in t \<noteq> None) found)))
        (filter (\<lambda>t. tf_paid_in t = None) found, 0, b) parsed_items) (\<lambda>(_, transfer_total, b').
      if transfer_total \<noteq> tf_amount payment then Inl reconciliation_error else Inr b'))"

definition record_payment_from_identifier ::
  "string \<Rightarrow> rat \<Rightarrow> string \<Rightarrow> bool \<Rightarrow> books \<Rightarrow> (transfer \<times> books) result" where
  "record_payment_from_identifier identifier amount transaction_id trusted b =
     rbind (split_pair CHR '':'' identifier) (\<lambda>(id_str, transfer_list).
     rbind (from_id id_str b) (\<lambda>(program, user).
     rbind (raise_if (already_recorded program user transaction_id b) duplicate_payment) (\<lambda>_.
     rbind (submit_payment program user amount transaction_id False b) (\<lambda>(payment, b).
     rbind (rmap parse_entry (split_at CHR '';'' transfer_list)) (\<lambda>parsed_items.
     rbind (reconcile program user payment trusted parsed_items b) (\<lambda>b.
     Inr (payment, b)))))))"

end
