(* ===== verification/Ledger.thy ===== *)
theory Ledger
  imports Reconciliation
begin

section \<open>The ledger: elementary changes and what they keep\<close>

text \<open>
  \<open>sound\<close> is what the database guarantees of the books: ids identify rows, references point to rows, amounts fit
  their columns. \<open>ledger_step user\<close> is the abstract machine behind the controller of a user: it enters an unpaid
  transfer of the user, changes the amount of an unpaid one, links one to a payment, removes transfers that no
  transfer refers to, or adds rows to other tables. \<open>Ledger_Operations\<close> shows that every operation of the
  controller is a sequence of such steps.

  What the steps keep is stated with the locale \<open>kept_by_steps\<close>, for a reflexive and transitive relation of books:
  soundness (\<open>sound_kept\<close>), the transfers of other users (\<open>others_kept\<close>), and the amount and the payment of what has
  been paid (\<open>paid_kept\<close>).
\<close>

subsection \<open>Sound books\<close>

definition transfer_ids :: "books \<Rightarrow> int set" where
  "transfer_ids b = tf_id ` set (bk_transfers b)"

definition item_ids :: "books \<Rightarrow> int set" where
  "item_ids b = lit_id ` set (bk_items b)"

definition account_ids :: "books \<Rightarrow> int set" where
  "account_ids b = ac_id ` set (bk_accounts b)"

text \<open>The references of a transfer, other than to its payment, and its amount.\<close>

definition valid_transfer :: "books \<Rightarrow> transfer \<Rightarrow> bool" where
  "valid_transfer b t \<longleftrightarrow>
     tf_item t \<in> item_ids b \<and> set_option (tf_source t) \<subseteq> account_ids b \<and>
     set_option (tf_destination t) \<subseteq> account_ids b \<and> set_option (tf_option t) \<subseteq> lio_id ` set (bk_options b) \<and>
     fits (tf_amount t)"

definition sound_transfers :: "books \<Rightarrow> bool" where
  "sound_transfers b \<longleftrightarrow>
     distinct (map tf_id (bk_transfers b)) \<and>
     (\<forall>t\<in>set (bk_transfers b). tf_id t < bk_next b \<and> valid_transfer b t \<and>
       set_option (tf_paid_in t) \<subseteq> transfer_ids b)"

definition sound_items :: "books \<Rightarrow> bool" where
  "sound_items b \<longleftrightarrow>
     distinct (map lit_id (bk_items b)) \<and> (\<forall>l\<in>set (bk_items b). lit_id l < bk_next b \<and> fits (lit_amount l))"

definition sound_accounts :: "books \<Rightarrow> bool" where
  "sound_accounts b \<longleftrightarrow>
     distinct (map ac_id (bk_accounts b)) \<and> distinct (map ac_name (bk_accounts b)) \<and>
     (\<forall>a\<in>set (bk_accounts b). ac_id a < bk_next b)"

definition sound :: "books \<Rightarrow> bool" where
  "sound b \<longleftrightarrow> sound_transfers b \<and> sound_items b \<and> sound_accounts b"

lemma sound_distinct: "sound b \<Longrightarrow> distinct (map tf_id (bk_transfers b))"
  by (simp add: sound_def sound_transfers_def)

lemma sound_idD: "sound b \<Longrightarrow> t \<in> set (bk_transfers b) \<Longrightarrow> tf_id t < bk_next b"
  by (simp add: sound_def sound_transfers_def)

lemma sound_validD: "sound b \<Longrightarrow> t \<in> set (bk_transfers b) \<Longrightarrow> valid_transfer b t"
  by (simp add: sound_def sound_transfers_def)

lemma sound_paidD:
  "sound b \<Longrightarrow> t \<in> set (bk_transfers b) \<Longrightarrow> tf_paid_in t = Some i \<Longrightarrow> i \<in> transfer_ids b"
  by (fastforce simp: sound_def sound_transfers_def)

lemma sound_same_id:
  "sound b \<Longrightarrow> t \<in> set (bk_transfers b) \<Longrightarrow> t' \<in> set (bk_transfers b) \<Longrightarrow> tf_id t = tf_id t' \<Longrightarrow> t = t'"
  using sound_distinct [of b] by (meson eq_key_imp_eq_value inj_on_def distinct_map)

lemma sound_fresh: "sound b \<Longrightarrow> bk_next b \<notin> transfer_ids b"
  by (auto simp: transfer_ids_def dest: sound_idD)

subsection \<open>Steps\<close>

definition enter :: "transfer \<Rightarrow> books \<Rightarrow> books" where
  "enter t b = b\<lparr>bk_transfers := bk_transfers b @ [t\<lparr>tf_id := bk_next b\<rparr>], bk_next := bk_next b + 1\<rparr>"

definition overwrite :: "transfer \<Rightarrow> books \<Rightarrow> books" where
  "overwrite t b = b\<lparr>bk_transfers := map (\<lambda>r. if tf_id r = tf_id t then t else r) (bk_transfers b)\<rparr>"

definition referenced :: "books \<Rightarrow> int set" where
  "referenced b = (\<Union>t\<in>set (bk_transfers b). set_option (tf_paid_in t))"

inductive ledger_step :: "int \<Rightarrow> books \<Rightarrow> books \<Rightarrow> bool" for user :: int where
  enter: "valid_transfer b t \<Longrightarrow> tf_user t = Some user \<Longrightarrow> tf_paid_in t = None \<Longrightarrow>
    ledger_step user b (enter t b)"
| amend: "t \<in> set (bk_transfers b) \<Longrightarrow> tf_user t = Some user \<Longrightarrow> tf_paid_in t = None \<Longrightarrow> fits c \<Longrightarrow>
    ledger_step user b (overwrite (t\<lparr>tf_amount := c\<rparr>) b)"
| link: "t \<in> set (bk_transfers b) \<Longrightarrow> tf_user t = Some user \<Longrightarrow> tf_paid_in t = None \<Longrightarrow> p \<in> transfer_ids b \<Longrightarrow>
    ledger_step user b (overwrite (t\<lparr>tf_paid_in := Some p\<rparr>) b)"
| remove: "(\<And>t. gone t \<Longrightarrow> tf_user t = Some user) \<Longrightarrow>
    (\<And>t. t \<in> set (bk_transfers b) \<Longrightarrow> gone t \<Longrightarrow> tf_id t \<notin> referenced b) \<Longrightarrow>
    ledger_step user b (b\<lparr>bk_transfers := filter (\<lambda>t. \<not> gone t) (bk_transfers b)\<rparr>)"
| new_item: "fits (lit_amount l) \<Longrightarrow> lit_id l = bk_next b \<Longrightarrow>
    ledger_step user b (b\<lparr>bk_items := bk_items b @ [l], bk_next := bk_next b + 1\<rparr>)"
| other: "bk_next b \<le> n \<Longrightarrow>
    ledger_step user b (b\<lparr>bk_next := n, bk_splash := ss, bk_requests := rs, bk_grants := gs\<rparr>)"

inductive_cases ledger_stepE: "ledger_step user b b'"

abbreviation ledger_steps :: "int \<Rightarrow> books \<Rightarrow> books \<Rightarrow> bool" where
  "ledger_steps user \<equiv> (ledger_step user)\<^sup>*\<^sup>*"

subsection \<open>What an overwritten row changes\<close>

lemma overwrite_map_ids: "map tf_id (bk_transfers (overwrite t b)) = map tf_id (bk_transfers b)"
  by (simp add: overwrite_def)

lemma overwrite_ids: "transfer_ids (overwrite t b) = transfer_ids b"
  by (simp only: transfer_ids_def overwrite_map_ids flip: set_map)

lemma overwrite_simps [simp]:
  "bk_next (overwrite t b) = bk_next b" "bk_items (overwrite t b) = bk_items b"
  "bk_accounts (overwrite t b) = bk_accounts b" "bk_options (overwrite t b) = bk_options b"
  "bk_programs (overwrite t b) = bk_programs b" "bk_users (overwrite t b) = bk_users b"
  "bk_grants (overwrite t b) = bk_grants b" "bk_requests (overwrite t b) = bk_requests b"
  "bk_splash (overwrite t b) = bk_splash b" "bk_collation (overwrite t b) = bk_collation b"
  by (simp_all add: overwrite_def)

lemma overwrite_in: "x \<in> set (bk_transfers (overwrite t b)) \<Longrightarrow> x = t \<or> x \<in> set (bk_transfers b) \<and> tf_id x \<noteq> tf_id t"
  by (auto simp: overwrite_def)

lemma overwrite_keeps:
  "x \<in> set (bk_transfers b) \<Longrightarrow> tf_id x \<noteq> tf_id t \<Longrightarrow> x \<in> set (bk_transfers (overwrite t b))"
  by (force simp: overwrite_def)

lemma overwrite_has:
  "t' \<in> set (bk_transfers b) \<Longrightarrow> tf_id t' = tf_id t \<Longrightarrow> t \<in> set (bk_transfers (overwrite t b))"
  by (force simp: overwrite_def)

lemma valid_transfer_cong:
  "bk_items b' = bk_items b \<Longrightarrow> bk_accounts b' = bk_accounts b \<Longrightarrow> bk_options b' = bk_options b \<Longrightarrow>
   valid_transfer b' t = valid_transfer b t"
  by (simp add: valid_transfer_def item_ids_def account_ids_def)

lemma sound_overwrite:
  assumes "sound b" and "valid_transfer b t" and "tf_id t \<in> transfer_ids b"
    and "set_option (tf_paid_in t) \<subseteq> transfer_ids b"
  shows "sound (overwrite t b)"
proof -
  have id: "tf_id t < bk_next b" using assms(1,3) by (auto simp: transfer_ids_def dest: sound_idD)
  have "sound_transfers (overwrite t b)"
    unfolding sound_transfers_def overwrite_map_ids overwrite_ids
  proof (intro conjI ballI)
    show "distinct (map tf_id (bk_transfers b))" by (rule sound_distinct [OF assms(1)])
    fix x assume "x \<in> set (bk_transfers (overwrite t b))"
    then consider "x = t" | "x \<in> set (bk_transfers b)" using overwrite_in by blast
    then show "tf_id x < bk_next (overwrite t b)" "valid_transfer (overwrite t b) x"
        "set_option (tf_paid_in x) \<subseteq> transfer_ids b"
      using assms id by (auto simp: valid_transfer_cong [of "overwrite t b" b] dest: sound_idD sound_validD sound_paidD)
  qed
  then show ?thesis using assms(1) by (simp add: sound_def sound_items_def sound_accounts_def)
qed

subsection \<open>Relations that the steps keep\<close>

locale kept_by_steps =
  fixes user :: int and kept :: "books \<Rightarrow> books \<Rightarrow> bool"
  assumes kept_refl: "kept b b"
    and kept_trans: "kept a b \<Longrightarrow> kept b c \<Longrightarrow> kept a c"
    and kept_step: "sound b \<Longrightarrow> ledger_step user b b' \<Longrightarrow> kept b b'"
begin

lemma kept_steps:
  assumes "ledger_steps user b b'" and sound: "\<And>c c'. sound c \<Longrightarrow> ledger_step user c c' \<Longrightarrow> sound c'" and "sound b"
  shows "kept b b' \<and> sound b'"
  using assms(1,3)
proof (induction rule: rtranclp_induct)
  case base
  then show ?case by (simp add: kept_refl)
next
  case (step c d)
  then show ?case using kept_trans kept_step sound by blast
qed

end

lemma valid_enter:
  "valid_transfer (enter t b) x = valid_transfer b x"
  by (simp add: enter_def valid_transfer_def item_ids_def account_ids_def)

lemma sound_remove:
  assumes "sound b" and "\<And>t. t \<in> set (bk_transfers b) \<Longrightarrow> gone t \<Longrightarrow> tf_id t \<notin> referenced b"
  shows "sound (b\<lparr>bk_transfers := filter (\<lambda>t. \<not> gone t) (bk_transfers b)\<rparr>)" (is "sound ?b")
proof -
  have "sound_transfers ?b"
    unfolding sound_transfers_def
  proof (intro conjI ballI)
    show "distinct (map tf_id (bk_transfers ?b))"
      using sound_distinct [OF assms(1)] by (simp add: distinct_map_filter)
    fix x assume x: "x \<in> set (bk_transfers ?b)"
    then have in_b: "x \<in> set (bk_transfers b)" by simp
    show "tf_id x < bk_next ?b" using sound_idD [OF assms(1) in_b] by simp
    show "valid_transfer ?b x"
      using sound_validD [OF assms(1) in_b] valid_transfer_cong [of ?b b] by simp
    show "set_option (tf_paid_in x) \<subseteq> transfer_ids ?b"
    proof
      fix i assume i: "i \<in> set_option (tf_paid_in x)"
      then have "i \<in> transfer_ids b" "i \<in> referenced b"
        using sound_paidD [OF assms(1) in_b] in_b by (auto simp: referenced_def)
      then show "i \<in> transfer_ids ?b" using assms(2) by (auto simp: transfer_ids_def)
    qed
  qed
  then show ?thesis using assms(1) by (simp add: sound_def sound_items_def sound_accounts_def)
qed

lemma step_sound:
  assumes "ledger_step user b b'" and "sound b"
  shows "sound b'"
  using assms(1)
proof cases
  case (enter t)
  have "sound_transfers b'"
    using assms(2) enter sound_fresh [OF assms(2)]
    by (auto simp: sound_def sound_transfers_def transfer_ids_def enter_def valid_transfer_def item_ids_def
        account_ids_def; fastforce)
  then show ?thesis using assms(2) enter(1)
    by (auto simp: sound_def sound_items_def sound_accounts_def enter_def; fastforce)
next
  case (amend t c)
  then show ?thesis using assms(2) sound_validD [OF assms(2) amend(2)]
    by (auto simp: transfer_ids_def valid_transfer_def intro!: sound_overwrite)
next
  case (link t p)
  then show ?thesis using assms(2) sound_validD [OF assms(2) link(2)]
    by (auto simp: transfer_ids_def valid_transfer_def intro!: sound_overwrite)
next
  case (remove gone)
  then show ?thesis using sound_remove [OF assms(2)] by blast
next
  case (new_item l)
  have "sound_transfers b'"
    using assms(2) by (auto simp: new_item(1) sound_def sound_transfers_def transfer_ids_def valid_transfer_def
        item_ids_def account_ids_def)
  moreover have "sound_items b'"
    using assms(2) new_item by (auto simp: sound_def sound_items_def)
  ultimately show ?thesis using assms(2) by (auto simp: new_item(1) sound_def sound_accounts_def)
next
  case (other n ss rs gs)
  then show ?thesis using assms(2)
    by (fastforce simp: sound_def sound_transfers_def sound_items_def sound_accounts_def transfer_ids_def
        valid_transfer_def item_ids_def account_ids_def)
qed

interpretation sound_kept: kept_by_steps user "\<lambda>b b'. sound b \<longrightarrow> sound b'" for user
  by unfold_locales (auto intro: step_sound)

lemma steps_sound: "ledger_steps user b b' \<Longrightarrow> sound b \<Longrightarrow> sound b'"
  using sound_kept.kept_steps step_sound by blast

subsection \<open>The transfers of other users\<close>

definition other_transfers :: "int \<Rightarrow> books \<Rightarrow> transfer list" where
  "other_transfers user b = filter (\<lambda>t. tf_user t \<noteq> Some user) (bk_transfers b)"

lemma other_transfers_overwrite:
  assumes "sound b" and "t \<in> set (bk_transfers b)" and "tf_user t = Some user"
    and "tf_id t' = tf_id t" and "tf_user t' = Some user"
  shows "other_transfers user (overwrite t' b) = other_transfers user b"
proof -
  have "filter (\<lambda>t. tf_user t \<noteq> Some user) (map (\<lambda>r. if tf_id r = tf_id t' then t' else r) xs) =
      filter (\<lambda>t. tf_user t \<noteq> Some user) xs"
    if "\<And>r. r \<in> set xs \<Longrightarrow> tf_id r = tf_id t' \<Longrightarrow> tf_user r = Some user" for xs
    using that assms(5) by (induction xs) auto
  moreover have "tf_user r = Some user" if "r \<in> set (bk_transfers b)" "tf_id r = tf_id t'" for r
    using sound_same_id [OF assms(1,2) that(1)] that(2) assms(3,4) by simp
  ultimately show ?thesis by (simp add: other_transfers_def overwrite_def)
qed

interpretation others_kept: kept_by_steps user "\<lambda>b b'. other_transfers user b' = other_transfers user b" for user
proof
  fix b b' assume "sound b" and "ledger_step user b b'"
  from this(2) show "other_transfers user b' = other_transfers user b"
  proof cases
    case (amend t c)
    then show ?thesis using \<open>sound b\<close> other_transfers_overwrite by simp
  next
    case (link t p)
    then show ?thesis using \<open>sound b\<close> other_transfers_overwrite by simp
  next
    case (remove gone)
    then have "filter (\<lambda>t. tf_user t \<noteq> Some user \<and> \<not> gone t) (bk_transfers b) =
        filter (\<lambda>t. tf_user t \<noteq> Some user) (bk_transfers b)"
      by (intro filter_cong) auto
    then show ?thesis by (simp add: remove(1) other_transfers_def conj_commute)
  qed (auto simp: other_transfers_def enter_def)
qed auto

lemma steps_others:
  "ledger_steps user b b' \<Longrightarrow> sound b \<Longrightarrow> other_transfers user b' = other_transfers user b"
  using others_kept.kept_steps step_sound by blast

subsection \<open>What has been paid\<close>

definition paid_kept :: "books \<Rightarrow> books \<Rightarrow> bool" where
  "paid_kept b b' \<longleftrightarrow>
     bk_next b \<le> bk_next b' \<and> (\<forall>i\<in>transfer_ids b'. i < bk_next b \<longrightarrow> i \<in> transfer_ids b) \<and>
     (\<forall>t\<in>set (bk_transfers b). tf_paid_in t \<noteq> None \<longrightarrow> t \<in> set (bk_transfers b') \<or> tf_id t \<notin> transfer_ids b')"

lemma paid_kept_trans:
  assumes "paid_kept a b" and "paid_kept b c" and "sound a"
  shows "paid_kept a c"
  using assms sound_idD [OF assms(3)] unfolding paid_kept_def by (smt (verit, best))

lemma paid_kept_overwrite:
  assumes "sound b" and "t \<in> set (bk_transfers b)" and "tf_paid_in t = None" and "tf_id t' = tf_id t"
  shows "paid_kept b (overwrite t' b)"
  unfolding paid_kept_def overwrite_ids
  using overwrite_keeps sound_same_id [OF assms(1,2)] assms(3,4) by fastforce

lemma paid_kept_remove:
  "sound b \<Longrightarrow> paid_kept b (b\<lparr>bk_transfers := filter (\<lambda>t. \<not> gone t) (bk_transfers b)\<rparr>)"
  using sound_same_id [of b] by (auto simp: paid_kept_def transfer_ids_def)

lemma paid_kept_same: "bk_transfers b' = bk_transfers b \<Longrightarrow> bk_next b \<le> bk_next b' \<Longrightarrow> paid_kept b b'"
  by (auto simp: paid_kept_def transfer_ids_def)

interpretation paid_kept: kept_by_steps user "\<lambda>b b'. sound b \<longrightarrow> sound b' \<and> paid_kept b b'" for user
proof
  fix b b' assume "sound b" and "ledger_step user b b'"
  from this(2) have "paid_kept b b'"
  proof cases
    case (enter t)
    then show ?thesis by (auto simp: paid_kept_def enter_def transfer_ids_def)
  next
    case (amend t c)
    then show ?thesis using \<open>sound b\<close> paid_kept_overwrite by simp
  next
    case (link t p)
    then show ?thesis using \<open>sound b\<close> paid_kept_overwrite by simp
  next
    case (remove gone)
    then show ?thesis using paid_kept_remove [OF \<open>sound b\<close>] by simp
  qed (auto intro: paid_kept_same)
  with step_sound \<open>sound b\<close> \<open>ledger_step user b b'\<close> show "sound b \<longrightarrow> sound b' \<and> paid_kept b b'" by blast
qed (auto intro: paid_kept_trans paid_kept_same)

lemma steps_paid: "ledger_steps user b b' \<Longrightarrow> sound b \<Longrightarrow> paid_kept b b'"
  using paid_kept.kept_steps step_sound by blast

subsection \<open>The other tables\<close>

definition tables_kept :: "books \<Rightarrow> books \<Rightarrow> bool" where
  "tables_kept b b' \<longleftrightarrow>
     bk_accounts b' = bk_accounts b \<and> bk_options b' = bk_options b \<and> bk_programs b' = bk_programs b \<and>
     bk_users b' = bk_users b \<and> bk_collation b' = bk_collation b \<and> (\<exists>ls. bk_items b' = bk_items b @ ls)"

interpretation tables_kept: kept_by_steps user tables_kept for user
proof
  fix b b' assume "ledger_step user b b'"
  then show "tables_kept b b'" by cases (auto simp: tables_kept_def enter_def)
qed (auto simp: tables_kept_def)

lemma steps_tables: "ledger_steps user b b' \<Longrightarrow> sound b \<Longrightarrow> tables_kept b b'"
  using tables_kept.kept_steps step_sound by blast

subsection \<open>Balances\<close>

text \<open>Every transfer takes from one account what it gives to another, or to or from the outside.\<close>

definition from_outside :: "books \<Rightarrow> int" where
  "from_outside b = sum_amounts (filter (\<lambda>t. tf_source t = None) (bk_transfers b))"

definition to_outside :: "books \<Rightarrow> int" where
  "to_outside b = sum_amounts (filter (\<lambda>t. tf_destination t = None) (bk_transfers b))"

lemma sum_amounts_simps [simp]:
  "sum_amounts [] = 0" "sum_amounts (t # ts) = tf_amount t + sum_amounts ts"
  "sum_amounts (ts @ us) = sum_amounts ts + sum_amounts us"
  by (simp_all add: sum_amounts_def)

lemma balance_sum:
  "balance a b = sum_amounts (filter (\<lambda>t. tf_destination t = Some (ac_id a)) (bk_transfers b)) -
     sum_amounts (filter (\<lambda>t. tf_source t = Some (ac_id a)) (bk_transfers b))"
  by (auto simp: balance_def Let_def)

lemma sum_over_accounts:
  fixes as :: "account list"
  assumes "distinct (map ac_id as)" and "\<And>t. t \<in> set ts \<Longrightarrow> set_option (side t) \<subseteq> ac_id ` set as"
  shows "(\<Sum>a\<leftarrow>as. sum_amounts (filter (\<lambda>t. side t = Some (ac_id a)) ts)) =
    sum_amounts ts - sum_amounts (filter (\<lambda>t. side t = None) ts)"
  using assms(2)
proof (induction ts)
  case (Cons t ts)
  have one: "(\<Sum>a\<leftarrow>as. if side t = Some (ac_id a) then c else 0) = (if side t = None then 0 else c)" for c :: int
  proof (cases "side t")
    case (Some i)
    then have "i \<in> ac_id ` set as" using Cons.prems [of t] by simp
    with assms(1) have "(\<Sum>a\<leftarrow>as. if i = ac_id a then c else 0) = c"
      by (induction as) (auto simp: sum_list_0 image_iff cong: map_cong)
    with Some show ?thesis by simp
  qed simp
  have "(\<Sum>a\<leftarrow>as. sum_amounts (filter (\<lambda>t. side t = Some (ac_id a)) (t # ts))) =
      (\<Sum>a\<leftarrow>as. if side t = Some (ac_id a) then tf_amount t else 0) +
      (\<Sum>a\<leftarrow>as. sum_amounts (filter (\<lambda>t. side t = Some (ac_id a)) ts))"
    by (simp flip: sum_list_addf) (rule arg_cong [where f = sum_list], rule map_cong, simp_all)
  with Cons one show ?case by simp
qed simp

lemma balances_add_up:
  assumes "sound b"
  shows "(\<Sum>a\<leftarrow>bk_accounts b. balance a b) = from_outside b - to_outside b"
proof -
  have "distinct (map ac_id (bk_accounts b))" using assms by (simp add: sound_def sound_accounts_def)
  moreover have "set_option (tf_source t) \<subseteq> account_ids b" "set_option (tf_destination t) \<subseteq> account_ids b"
    if "t \<in> set (bk_transfers b)" for t
    using sound_validD [OF assms that] by (simp_all add: valid_transfer_def)
  ultimately show ?thesis
    using sum_over_accounts [of "bk_accounts b" "bk_transfers b" tf_destination]
      sum_over_accounts [of "bk_accounts b" "bk_transfers b" tf_source]
    by (simp add: balance_sum sum_list_subtractf from_outside_def to_outside_def account_ids_def)
qed

end
