(* ===== verification/Ledger_Operations.thy ===== *)
theory Ledger_Operations
  imports Ledger
begin

section \<open>The operations of the accounting are sequences of ledger steps\<close>

text \<open>
  For every operation \<open>f\<close> of the controller of a user, \<open>f_steps\<close>: on sound books, a successful run of the operation
  is a sequence of steps of the ledger (refinement). What the steps keep (see \<open>Ledger\<close>) holds then of the
  operation; in particular its books stay sound.

  The rest says what the operations do: \<open>ensure_establishes\<close> and \<open>ensure_idle\<close> for the required transfers, the
  equations of the amounts, and which operations leave the transfers alone.
\<close>

subsection \<open>Queries\<close>

lemma filter_single: "filter p xs = [x] \<Longrightarrow> x \<in> set xs \<and> p x"
  by (metis list.set_intros(1) mem_Collect_eq set_filter)

lemma find_SomeD: "find p xs = Some x \<Longrightarrow> x \<in> set xs \<and> p x"
  by (induction xs) (auto split: if_splits)

lemma find_append: "find p (xs @ ys) = (case find p xs of None \<Rightarrow> find p ys | Some x \<Rightarrow> Some x)"
  by (induction xs) auto

lemma fetch_SomeD: "fetch p xs = Inr (Some x) \<Longrightarrow> filter p xs = [x]"
  by (auto simp: fetch_def split: list.splits)

lemma fetch_Some: "fetch p xs = Inr (Some x) \<Longrightarrow> x \<in> set xs \<and> p x"
  by (rule filter_single) (rule fetch_SomeD)

lemma fetch_None: "fetch p xs = Inr None \<longleftrightarrow> filter p xs = []"
  by (auto simp: fetch_def split: list.splits)

lemma get_row_Inr: "get_row p xs = Inr x \<longleftrightarrow> filter p xs = [x]"
  by (auto simp: get_row_def fetch_def rbind_def split: list.splits)

lemma get_row_in: "get_row p xs = Inr x \<Longrightarrow> x \<in> set xs \<and> p x"
  by (rule filter_single) (simp add: get_row_Inr)

lemma greatest_by_in: "greatest_by k xs = Some x \<Longrightarrow> x \<in> set xs"
  by (induction xs arbitrary: x) (auto split: option.splits if_splits)

lemma greatest_by_None [simp]: "greatest_by k xs = None \<longleftrightarrow> xs = []"
  by (cases xs) (auto split: option.splits)

lemma greatest_by_max: "greatest_by k xs = Some x \<Longrightarrow> y \<in> set xs \<Longrightarrow> k y \<le> k x"
proof (induction xs arbitrary: x y)
  case (Cons z zs)
  show ?case
  proof (cases "greatest_by k zs")
    case None
    then show ?thesis using Cons.prems by simp
  next
    case (Some a)
    then have "x = (if k a > k z then a else z)" using Cons.prems by simp
    then show ?thesis using Cons.IH [OF Some] Cons.prems(2) by (fastforce split: if_splits)
  qed
qed simp

lemma source_account_in: "default_source_account b = Inr a \<Longrightarrow> ac_id a \<in> account_ids b"
  by (auto simp: default_source_account_def account_ids_def dest: get_row_in)

lemma finaid_account_in: "default_finaid_account b = Inr a \<Longrightarrow> ac_id a \<in> account_ids b"
  by (auto simp: default_finaid_account_def account_ids_def dest: get_row_in)

lemma payable_account_in: "default_payable_account b = Inr a \<Longrightarrow> ac_id a \<in> account_ids b"
  by (auto simp: default_payable_account_def account_ids_def dest: get_row_in)

lemma program_account_in: "set_option (account_id (default_program_account program b)) \<subseteq> account_ids b"
  by (auto simp: account_id_def default_program_account_def account_ids_def dest: greatest_by_in)

lemma lineitemtypes_in: "l \<in> set (get_lineitemtypes program f b) \<Longrightarrow> l \<in> set (bk_items b)"
  by (auto simp: get_lineitemtypes_def)

lemma lineitemtypes_Q_in: "l \<in> set (get_lineitemtypes program f b) \<Longrightarrow> lineitemtypes_Q program f l"
  by (auto simp: get_lineitemtypes_def)

lemma lineitemtypes_distinct:
  "sound b \<Longrightarrow> distinct (map lit_id (get_lineitemtypes program f b))"
  by (simp add: get_lineitemtypes_def Let_def sound_def sound_items_def distinct_map inj_on_def)

lemma lineitemtypes_texts:
  assumes "sound b" and "l \<in> set (get_lineitemtypes program f b)" "l' \<in> set (get_lineitemtypes program f b)"
    and "lit_text l = lit_text l'"
  shows "l = l'"
proof -
  have "lit_id l \<le> lit_id l'" "lit_id l' \<le> lit_id l"
    using assms(2-4) by (auto simp: get_lineitemtypes_def Let_def list_all_iff)
  then show ?thesis
    using assms(1-3) by (auto simp: sound_def sound_items_def distinct_map inj_on_def dest!: lineitemtypes_in)
qed

lemma lineitemtypes_cong:
  "bk_items b' = bk_items b \<Longrightarrow> bk_collation b' = bk_collation b \<Longrightarrow>
   get_lineitemtypes program f b' = get_lineitemtypes program f b"
  by (simp add: get_lineitemtypes_def)

lemma latest_in: "latest_with_text text program b = Some l \<Longrightarrow> l \<in> set (bk_items b)"
  by (auto simp: latest_with_text_def dest!: greatest_by_in)

lemma payments_in: "default_payments_lineitemtype program b = Some l \<Longrightarrow> l \<in> set (bk_items b)"
  by (auto simp: default_payments_lineitemtype_def dest!: greatest_by_in)

subsection \<open>Changes of the tables\<close>

lemma create_transfer_Inr:
  "create_transfer t b = Inr (t', b') \<longleftrightarrow> fits (tf_amount t) \<and> t' = t\<lparr>tf_id := bk_next b\<rparr> \<and> b' = enter t b"
  by (auto simp: create_transfer_def enter_def Let_def)

lemma save_transfer_Inr: "save_transfer t b = Inr b' \<longleftrightarrow> fits (tf_amount t) \<and> b' = overwrite t b"
  by (auto simp: save_transfer_def overwrite_def)

lemma delete_transfers_Inr:
  "delete_transfers p b = Inr b' \<longleftrightarrow>
     (\<forall>t\<in>set (bk_transfers b). p t \<longrightarrow> tf_id t \<notin> referenced b) \<and>
     b' = b\<lparr>bk_transfers := filter (\<lambda>t. \<not> p t) (bk_transfers b)\<rparr>"
proof -
  have "list_ex (\<lambda>t. case tf_paid_in t of None \<Rightarrow> False | Some i \<Rightarrow> i \<in> set (map tf_id (filter p (bk_transfers b))))
      (bk_transfers b) \<longleftrightarrow> (\<exists>t\<in>set (bk_transfers b). p t \<and> tf_id t \<in> referenced b)"
    by (auto simp: list_ex_iff referenced_def split: option.splits) (metis imageI option.set_intros)+
  then show ?thesis by (auto simp: delete_transfers_def Let_def)
qed

lemma transfer_for_Inr:
  "transfer_for source destination user line_item amount = Inr t \<longleftrightarrow>
     (\<exists>l. line_item = Some l \<and> t = \<lparr>tf_id = 0, tf_source = source, tf_destination = destination, tf_user = Some user,
        tf_item = lit_id l, tf_option = None, tf_amount = amount, tf_transaction = [], tf_paid_in = None\<rparr>)"
  by (auto simp: transfer_for_def split: option.splits)

lemma enter_steps:
  "valid_transfer b t \<Longrightarrow> tf_user t = Some user \<Longrightarrow> tf_paid_in t = None \<Longrightarrow> ledger_steps user b (enter t b)"
  by (rule r_into_rtranclp) (rule ledger_step.enter)

lemma create_steps:
  assumes "create_transfer t b = Inr (t', b')" and "fits (tf_amount t) \<Longrightarrow> valid_transfer b t"
    and "tf_user t = Some user" and "tf_paid_in t = None"
  shows "ledger_steps user b b'"
  using assms enter_steps by (auto simp: create_transfer_Inr)

lemma delete_steps:
  assumes "delete_transfers p b = Inr b'" and "\<And>t. p t \<Longrightarrow> tf_user t = Some user"
  shows "ledger_steps user b b'"
  using assms by (auto simp: delete_transfers_Inr intro!: r_into_rtranclp ledger_step.remove)

lemma other_steps:
  "bk_next b \<le> n \<Longrightarrow> ledger_steps user b (b\<lparr>bk_next := n, bk_splash := ss, bk_requests := rs, bk_grants := gs\<rparr>)"
  by (rule r_into_rtranclp) (rule ledger_step.other)

lemma other_tables_steps:
  "ledger_steps user b (b\<lparr>bk_splash := ss\<rparr>)"
  "ledger_steps user b (b\<lparr>bk_grants := gs\<rparr>)"
  "ledger_steps user b (b\<lparr>bk_requests := rs\<rparr>)"
  "ledger_steps user b (b\<lparr>bk_splash := ss, bk_next := bk_next b + 1\<rparr>)"
  "ledger_steps user b (b\<lparr>bk_requests := rs, bk_next := bk_next b + 1\<rparr>)"
  "ledger_steps user b (b\<lparr>bk_grants := gs, bk_next := bk_next b + 1\<rparr>)"
  using other_steps [of b "bk_next b" user "bk_grants b" "bk_requests b" ss]
    other_steps [of b "bk_next b" user gs "bk_requests b" "bk_splash b"]
    other_steps [of b "bk_next b" user "bk_grants b" rs "bk_splash b"]
    other_steps [of b "bk_next b + 1" user "bk_grants b" "bk_requests b" ss]
    other_steps [of b "bk_next b + 1" user "bk_grants b" rs "bk_splash b"]
    other_steps [of b "bk_next b + 1" user gs "bk_requests b" "bk_splash b"]
  by (cases b; simp)+

lemma item_steps:
  assumes "get_or_create_item p l b = Inr (l', b')"
  shows "ledger_steps user b b'" and "l' \<in> set (bk_items b')" and "bk_transfers b' = bk_transfers b"
proof -
  let ?l = "l\<lparr>lit_id := bk_next b\<rparr>"
  from assms consider "b' = b" "l' \<in> set (bk_items b)"
    | "fits (lit_amount l)" "l' = ?l" "b' = b\<lparr>bk_items := bk_items b @ [?l], bk_next := bk_next b + 1\<rparr>"
  proof (cases "fetch p (bk_items b)")
    case (Inr found)
    show ?thesis
    proof (cases found)
      case None
      then show ?thesis using that(2) assms Inr by (auto simp: get_or_create_item_def Let_def split: if_splits)
    next
      case (Some r)
      then show ?thesis using that(1) assms Inr fetch_Some [of p "bk_items b" r] by (simp add: get_or_create_item_def)
    qed
  qed (use assms in \<open>simp add: get_or_create_item_def\<close>)
  then have "ledger_steps user b b' \<and> l' \<in> set (bk_items b') \<and> bk_transfers b' = bk_transfers b"
  proof cases
    case 2
    then have "ledger_step user b b'" using ledger_step.new_item [of ?l b user] by simp
    with 2 show ?thesis by auto
  qed simp
  then show "ledger_steps user b b'" and "l' \<in> set (bk_items b')" and "bk_transfers b' = bk_transfers b" by auto
qed

lemma refund_type_steps:
  assumes "default_refund_lineitemtype program b = Inr (l, b')"
  shows "ledger_steps user b b'" and "l \<in> set (bk_items b')" and "bk_transfers b' = bk_transfers b"
  using assms item_steps unfolding default_refund_lineitemtype_def item_with_text_def by blast+

subsection \<open>Required transfers\<close>

definition requirement_met :: "int \<Rightarrow> books \<Rightarrow> line_item_type \<Rightarrow> bool" where
  "requirement_met user b l =
     (case existing_transfer user l b of
        None \<Rightarrow> False
      | Some t \<Rightarrow> tf_paid_in t \<noteq> None \<or> tf_amount t = lit_amount l)"

lemma existing_transfer_SomeD:
  "existing_transfer user l b = Some t \<Longrightarrow> t \<in> set (bk_transfers b) \<and> tf_user t = Some user \<and> tf_item t = lit_id l"
  by (auto simp: existing_transfer_def transfers_of_def dest!: find_SomeD)

lemma existing_enter:
  "existing_transfer user l (enter t b) =
     (if tf_user t = Some user \<and> tf_item t = lit_id l then Some (t\<lparr>tf_id := bk_next b\<rparr>)
      else existing_transfer user l b)"
  by (auto simp: existing_transfer_def transfers_of_def enter_def)

lemma existing_overwrite_other:
  assumes "sound b" and "t \<in> set (bk_transfers b)" and "tf_id t' = tf_id t" "tf_item t' = tf_item t"
    and "tf_item t \<noteq> lit_id l"
  shows "existing_transfer user l (overwrite t' b) = existing_transfer user l b"
proof -
  have "find (\<lambda>t. tf_item t = lit_id l) (rev (filter (\<lambda>t. tf_user t = Some user)
        (map (\<lambda>r. if tf_id r = tf_id t' then t' else r) xs))) =
      find (\<lambda>t. tf_item t = lit_id l) (rev (filter (\<lambda>t. tf_user t = Some user) xs))"
    if "\<And>r. r \<in> set xs \<Longrightarrow> tf_id r = tf_id t' \<Longrightarrow> r = t" for xs
    using that assms(3-5) by (induction xs) (auto simp: find_append split: option.splits)
  moreover have "r = t" if "r \<in> set (bk_transfers b)" "tf_id r = tf_id t'" for r
    using sound_same_id [OF assms(1) that(1) assms(2)] that(2) assms(3) by simp
  ultimately show ?thesis by (simp add: existing_transfer_def transfers_of_def overwrite_def)
qed

lemma existing_overwrite_same:
  assumes "sound b" and "existing_transfer user l b = Some t" and "tf_id t' = tf_id t" "tf_item t' = tf_item t"
    "tf_user t' = tf_user t"
  shows "existing_transfer user l (overwrite t' b) = Some t'"
proof -
  let ?p = "\<lambda>t. tf_item t = lit_id l"
  have "find ?p (rev (filter (\<lambda>t. tf_user t = Some user) (map (\<lambda>r. if tf_id r = tf_id t' then t' else r) xs))) =
      map_option (\<lambda>_. t') (find ?p (rev (filter (\<lambda>t. tf_user t = Some user) xs)))"
    if "\<And>r. r \<in> set xs \<Longrightarrow> tf_id r = tf_id t' \<Longrightarrow> r = t"
      and "find ?p (rev (filter (\<lambda>t. tf_user t = Some user) xs)) = Some t \<or>
        find ?p (rev (filter (\<lambda>t. tf_user t = Some user) xs)) = None" for xs
    using that assms(3-5) existing_transfer_SomeD [OF assms(2)]
    by (induction xs) (auto simp: find_append split: option.splits if_splits)
  moreover have "r = t" if "r \<in> set (bk_transfers b)" "tf_id r = tf_id t'" for r
    using sound_same_id [OF assms(1) that(1)] existing_transfer_SomeD [OF assms(2)] that(2) assms(3) by simp
  ultimately show ?thesis
    using assms(2) by (simp add: existing_transfer_def transfers_of_def overwrite_def)
qed

text \<open>Only transfers change.\<close>

definition only_transfers :: "books \<Rightarrow> books \<Rightarrow> bool" where
  "only_transfers b c \<longleftrightarrow> c = b\<lparr>bk_transfers := bk_transfers c, bk_next := bk_next c\<rparr>"

lemma only_transfers_tables:
  assumes "only_transfers b c"
  shows "bk_items c = bk_items b" "bk_accounts c = bk_accounts b" "bk_options c = bk_options b"
    "bk_collation c = bk_collation b" "bk_grants c = bk_grants b" "bk_requests c = bk_requests b"
    "bk_splash c = bk_splash b" "bk_programs c = bk_programs b" "bk_users c = bk_users b"
  by (subst assms [unfolded only_transfers_def], simp)+

lemma only_transfers_refl [simp]: "only_transfers b b"
  by (simp add: only_transfers_def)

lemma only_transfers_trans: "only_transfers a b \<Longrightarrow> only_transfers b c \<Longrightarrow> only_transfers a c"
  unfolding only_transfers_def by (cases a; cases b; cases c) auto

lemma only_transfers_enter [simp]: "only_transfers b (enter t b)"
  by (simp add: only_transfers_def enter_def)

lemma only_transfers_overwrite [simp]: "only_transfers b (overwrite t b)"
  by (simp add: only_transfers_def overwrite_def)

lemma only_transfers_cong:
  assumes "only_transfers b c"
  shows "get_lineitemtypes program f c = get_lineitemtypes program f b"
    and "required_items program c = required_items program b"
    and "default_program_account program c = default_program_account program b"
    and "default_source_account c = default_source_account b"
    and "default_payments_lineitemtype program c = default_payments_lineitemtype program b"
    and "latest_with_text text program c = latest_with_text text program b"
    and "item_of c t = item_of b t" and "item_satisfies c p t = item_satisfies b p t"
    and "latest_finaid_grant program user c = latest_finaid_grant program user b"
  using only_transfers_tables [OF assms]
  by (simp_all add: required_items_def get_lineitemtypes_def default_program_account_def default_source_account_def
      default_payments_lineitemtype_def latest_with_text_def item_of_def item_satisfies_def
      latest_finaid_grant_def grants_for_def [abs_def])

lemma ensure_item_effect:
  assumes "ensure_item source destination user start b l = Inr c" and sound: "sound b"
    and same: "existing_transfer user l start = existing_transfer user l b"
    and l: "l \<in> set (bk_items b)" and source: "ac_id source \<in> account_ids b"
    and destination: "set_option (account_id destination) \<subseteq> account_ids b"
  shows "ledger_steps user b c" and "requirement_met user c l" and "only_transfers b c"
    and "\<And>l'. lit_id l' \<noteq> lit_id l \<Longrightarrow> existing_transfer user l' c = existing_transfer user l' b"
proof -
  have fits: "fits (lit_amount l)" and item: "lit_id l \<in> item_ids b"
    using sound l by (auto simp: sound_def sound_items_def item_ids_def)
  have "ledger_steps user b c \<and> requirement_met user c l \<and> only_transfers b c \<and>
    (\<forall>l'. lit_id l' \<noteq> lit_id l \<longrightarrow> existing_transfer user l' c = existing_transfer user l' b)"
  proof (cases "existing_transfer user l b")
    case None
    let ?t = "\<lparr>tf_id = 0, tf_source = Some (ac_id source), tf_destination = account_id destination,
      tf_user = Some user, tf_item = lit_id l, tf_option = None, tf_amount = lit_amount l, tf_transaction = [],
      tf_paid_in = None\<rparr>"
    have c: "c = enter ?t b"
      using assms(1) None same by (auto simp: ensure_item_def rbind_Inr_iff transfer_for_Inr create_transfer_Inr)
    have "valid_transfer b ?t" using fits item source destination by (simp add: valid_transfer_def)
    then have "ledger_steps user b c" unfolding c by (rule enter_steps) simp_all
    then show ?thesis by (simp add: c requirement_met_def existing_enter)
  next
    case (Some t)
    note t = existing_transfer_SomeD [OF Some]
    show ?thesis
    proof (cases "tf_paid_in t \<noteq> None \<or> tf_amount t = lit_amount l")
      case True
      then have "c = b" using assms(1) Some same by (auto simp: ensure_item_def split: if_splits)
      with True Some show ?thesis by (simp add: requirement_met_def)
    next
      case False
      let ?t = "t\<lparr>tf_amount := lit_amount l\<rparr>"
      have c: "c = overwrite ?t b"
        using assms(1) Some same False by (auto simp: ensure_item_def save_transfer_Inr)
      have "ledger_step user b c" unfolding c using t False fits by (intro ledger_step.amend) auto
      moreover have "existing_transfer user l c = Some ?t"
        unfolding c using existing_overwrite_same [OF sound Some] by simp
      moreover have "existing_transfer user l' c = existing_transfer user l' b" if "lit_id l' \<noteq> lit_id l" for l'
        unfolding c using t that by (intro existing_overwrite_other [OF sound]) auto
      ultimately show ?thesis by (auto simp: requirement_met_def c)
    qed
  qed
  then show "ledger_steps user b c" and "requirement_met user c l" and "only_transfers b c"
    and "\<And>l'. lit_id l' \<noteq> lit_id l \<Longrightarrow> existing_transfer user l' c = existing_transfer user l' b" by auto
qed

lemma ensure_fold:
  assumes "rfold (ensure_item source destination user start) b ls = Inr c" and "sound b"
    and "distinct (map lit_id ls)" and "set ls \<subseteq> set (bk_items b)"
    and "\<And>l. l \<in> set ls \<Longrightarrow> existing_transfer user l start = existing_transfer user l b"
    and "ac_id source \<in> account_ids b" and "set_option (account_id destination) \<subseteq> account_ids b"
  shows "ledger_steps user b c \<and> only_transfers b c \<and> (\<forall>l\<in>set ls. requirement_met user c l) \<and>
    (\<forall>l. lit_id l \<notin> lit_id ` set ls \<longrightarrow> existing_transfer user l c = existing_transfer user l b)"
  using assms
proof (induction ls arbitrary: b)
  case (Cons l ls)
  from Cons.prems(1) obtain b1 where step: "ensure_item source destination user start b l = Inr b1"
    and rest: "rfold (ensure_item source destination user start) b1 ls = Inr c"
    by (auto simp: rbind_Inr_iff)
  note effect = ensure_item_effect [OF step Cons.prems(2,5)]
  have 1: "ledger_steps user b b1" "requirement_met user b1 l" "only_transfers b b1"
    and other: "\<And>l'. lit_id l' \<noteq> lit_id l \<Longrightarrow> existing_transfer user l' b1 = existing_transfer user l' b"
    using effect Cons.prems(4,6,7) by auto
  have "existing_transfer user l' start = existing_transfer user l' b1" if "l' \<in> set ls" for l'
    using Cons.prems(3,5) other [of l'] that by (auto simp: image_iff)
  then have 2: "ledger_steps user b1 c \<and> only_transfers b1 c \<and> (\<forall>l\<in>set ls. requirement_met user c l) \<and>
      (\<forall>l. lit_id l \<notin> lit_id ` set ls \<longrightarrow> existing_transfer user l c = existing_transfer user l b1)"
    using Cons.prems steps_sound [OF 1(1)] only_transfers_tables [OF 1(3)]
    by (intro Cons.IH [OF rest]) (auto simp: account_ids_def)
  have "lit_id l \<notin> lit_id ` set ls" using Cons.prems(3) by auto
  with 2 1(2) have "requirement_met user c l" by (simp add: requirement_met_def)
  with 1 2 other show ?case using only_transfers_trans by (auto intro: rtranclp_trans)
qed simp

lemma ensure_effect:
  assumes "ensure_required_transfers program user b = Inr c" and "sound b"
  shows "ledger_steps user b c" and "only_transfers b c"
    and "\<And>l. l \<in> set (required_items program c) \<Longrightarrow> requirement_met user c l"
    and "\<And>l. l \<notin> set (required_items program b) \<Longrightarrow> l \<in> set (bk_items b) \<Longrightarrow>
      existing_transfer user l c = existing_transfer user l b"
proof -
  from assms(1) obtain source where source: "default_source_account b = Inr source"
    and fold: "rfold (ensure_item source (default_program_account program b) user b) b (required_items program b) = Inr c"
    by (auto simp: ensure_required_transfers_def rbind_Inr_iff)
  have items: "set (required_items program b) \<subseteq> set (bk_items b)"
    by (auto simp: required_items_def dest: lineitemtypes_in)
  have *: "ledger_steps user b c \<and> only_transfers b c \<and> (\<forall>l\<in>set (required_items program b). requirement_met user c l) \<and>
    (\<forall>l. lit_id l \<notin> lit_id ` set (required_items program b) \<longrightarrow> existing_transfer user l c = existing_transfer user l b)"
    using assms(2) lineitemtypes_distinct items source_account_in [OF source] program_account_in
    by (intro ensure_fold [OF fold]) (auto simp: required_items_def)
  then show "ledger_steps user b c" and "only_transfers b c" by auto
  then show "requirement_met user c l" if "l \<in> set (required_items program c)" for l
    using * that only_transfers_cong(2) [of b c program] by simp
  fix l assume l: "l \<notin> set (required_items program b)" "l \<in> set (bk_items b)"
  then have "lit_id l \<notin> lit_id ` set (required_items program b)"
    using assms(2) items by (auto simp: sound_def sound_items_def distinct_map inj_on_def)
  with * show "existing_transfer user l c = existing_transfer user l b" by blast
qed

text \<open>\<open>only_required user ls b c\<close>: of the transfers in \<open>b\<close>, those and only those that the user has for an item of \<open>ls\<close>
  without having paid may have another amount in \<open>c\<close>, which is that of the item; there are new ones only for items
  of \<open>ls\<close> the user had no transfer for, one for each at most, unpaid and of the amount of the item.\<close>

definition only_required :: "int \<Rightarrow> line_item_type list \<Rightarrow> books \<Rightarrow> books \<Rightarrow> bool" where
  "only_required user ls b c \<longleftrightarrow>
     (\<exists>f new. bk_transfers c = map f (bk_transfers b) @ new \<and>
        (\<forall>t\<in>set (bk_transfers b). f t = t \<or> (\<exists>l\<in>set ls. existing_transfer user l b = Some t \<and>
           tf_paid_in t = None \<and> f t = t\<lparr>tf_amount := lit_amount l\<rparr>)) \<and>
        (\<forall>t\<in>set new. tf_user t = Some user \<and> tf_paid_in t = None \<and>
           (\<exists>l\<in>set ls. existing_transfer user l b = None \<and> tf_item t = lit_id l \<and> tf_amount t = lit_amount l)) \<and>
        distinct (map tf_item new))"

lemma ensure_item_cases:
  assumes "ensure_item source destination user start b l = Inr c"
    and "existing_transfer user l start = existing_transfer user l b"
  obtains "c = b"
  | t where "existing_transfer user l b = None" "c = enter t b" "tf_user t = Some user" "tf_paid_in t = None"
      "tf_item t = lit_id l" "tf_amount t = lit_amount l"
  | t where "existing_transfer user l b = Some t" "tf_paid_in t = None" "c = overwrite (t\<lparr>tf_amount := lit_amount l\<rparr>) b"
  using assms
  by (auto simp: ensure_item_def rbind_Inr_iff transfer_for_Inr create_transfer_Inr save_transfer_Inr
      split: option.splits if_splits)

lemma ensure_fold_only:
  assumes "rfold (ensure_item source destination user start) b ls = Inr c" and "sound b"
    and "distinct (map lit_id ls)" and "set ls \<subseteq> set (bk_items b)"
    and "\<And>l. l \<in> set ls \<Longrightarrow> existing_transfer user l start = existing_transfer user l b"
    and "ac_id source \<in> account_ids b" and "set_option (account_id destination) \<subseteq> account_ids b"
  shows "only_required user ls b c"
  using assms
proof (induction ls arbitrary: b)
  case Nil
  then show ?case by (auto simp: only_required_def intro!: exI [of _ id])
next
  case (Cons l ls)
  from Cons.prems(1) obtain b1 where step: "ensure_item source destination user start b l = Inr b1"
    and rest: "rfold (ensure_item source destination user start) b1 ls = Inr c"
    by (auto simp: rbind_Inr_iff)
  note same = Cons.prems(5) [of l, simplified]
  have 1: "ledger_steps user b b1" "only_transfers b b1"
    and other: "\<And>l'. lit_id l' \<noteq> lit_id l \<Longrightarrow> existing_transfer user l' b1 = existing_transfer user l' b"
    using ensure_item_effect [OF step Cons.prems(2) same] Cons.prems(4,6,7) by auto
  have new: "lit_id l' \<noteq> lit_id l" if "l' \<in> set ls" for l' using Cons.prems(3) that by (auto simp: image_iff)
  have "existing_transfer user l' start = existing_transfer user l' b1" if "l' \<in> set ls" for l'
    using Cons.prems(5) other [OF new [OF that]] that by simp
  then have "only_required user ls b1 c"
    using Cons.prems steps_sound [OF 1(1)] only_transfers_tables [OF 1(2)]
    by (intro Cons.IH [OF rest]) (auto simp: account_ids_def)
  then obtain f ts where c: "bk_transfers c = map f (bk_transfers b1) @ ts"
    and f: "\<And>t. t \<in> set (bk_transfers b1) \<Longrightarrow> f t = t \<or> (\<exists>l\<in>set ls. existing_transfer user l b1 = Some t \<and>
       tf_paid_in t = None \<and> f t = t\<lparr>tf_amount := lit_amount l\<rparr>)"
    and ts: "\<And>t. t \<in> set ts \<Longrightarrow> tf_user t = Some user \<and> tf_paid_in t = None \<and>
       (\<exists>l\<in>set ls. existing_transfer user l b1 = None \<and> tf_item t = lit_id l \<and> tf_amount t = lit_amount l)"
    and dist: "distinct (map tf_item ts)"
    unfolding only_required_def by blast
  have ts': "tf_user t = Some user \<and> tf_paid_in t = None \<and> tf_item t \<noteq> lit_id l \<and>
       (\<exists>l'\<in>set ls. existing_transfer user l' b = None \<and> tf_item t = lit_id l' \<and> tf_amount t = lit_amount l')"
    if t: "t \<in> set ts" for t
  proof -
    from ts [OF t] obtain l' where "l' \<in> set ls" "existing_transfer user l' b1 = None" "tf_item t = lit_id l'"
      "tf_amount t = lit_amount l'" by blast
    with ts [OF t] new [of l'] other [of l'] show ?thesis by (intro conjI bexI [of _ l']) simp_all
  qed
  have f': "f t = t \<or> (\<exists>l'\<in>set (l # ls). existing_transfer user l' b = Some t \<and>
       tf_paid_in t = None \<and> f t = t\<lparr>tf_amount := lit_amount l'\<rparr>)" if t: "t \<in> set (bk_transfers b1)" for t
    using f [OF t] new other by fastforce
  have fl: "f t = t" if "t \<in> set (bk_transfers b1)" "tf_item t = lit_id l" for t
    using f [OF that(1)] new that(2) existing_transfer_SomeD by fastforce
  show ?case
  proof (cases rule: ensure_item_cases [OF step same])
    case 1
    with c f' ts' dist show ?thesis unfolding only_required_def by (intro exI [of _ f] exI [of _ ts]) auto
  next
    case (2 t)
    let ?t = "t\<lparr>tf_id := bk_next b\<rparr>"
    have "f ?t = ?t" by (rule fl) (simp_all add: 2 enter_def)
    with c have "bk_transfers c = map f (bk_transfers b) @ ?t # ts" by (simp add: 2(2) enter_def)
    moreover have "t' \<in> set (bk_transfers b1)" if "t' \<in> set (bk_transfers b)" for t'
      using that by (simp add: 2(2) enter_def)
    moreover have "tf_item ?t \<notin> tf_item ` set ts" using ts' 2(5) by force
    ultimately show ?thesis
      unfolding only_required_def using f' ts' dist 2
      by (intro exI [of _ f] exI [of _ "?t # ts"]) auto
  next
    case (3 t)
    let ?t = "t\<lparr>tf_amount := lit_amount l\<rparr>"
    let ?g = "\<lambda>r. f (if tf_id r = tf_id ?t then ?t else r)"
    note t = existing_transfer_SomeD [OF 3(1)]
    have "?t \<in> set (bk_transfers b1)" using overwrite_has [of t b ?t] t by (simp add: 3(3))
    then have ft: "f ?t = ?t" using t by (intro fl) simp_all
    have "bk_transfers c = map ?g (bk_transfers b) @ ts" by (simp add: c 3(3) overwrite_def comp_def)
    moreover have "?g r = r \<or> (\<exists>l'\<in>set (l # ls). existing_transfer user l' b = Some r \<and>
       tf_paid_in r = None \<and> ?g r = r\<lparr>tf_amount := lit_amount l'\<rparr>)" if r: "r \<in> set (bk_transfers b)" for r
    proof (cases "tf_id r = tf_id t")
      case True
      then have "r = t" using sound_same_id [OF Cons.prems(2) r] t by simp
      with 3 ft show ?thesis by simp
    next
      case False
      then have "r \<in> set (bk_transfers b1)" using r overwrite_keeps by (simp add: 3(3))
      from f' [OF this] False show ?thesis by simp
    qed
    ultimately show ?thesis
      unfolding only_required_def using ts' dist by (intro exI [of _ ?g] exI [of _ ts]) auto
  qed
qed

lemma ensure_only:
  assumes "ensure_required_transfers program user b = Inr c" and "sound b"
  shows "only_required user (required_items program b) b c"
proof -
  from assms(1) obtain source where source: "default_source_account b = Inr source"
    and fold: "rfold (ensure_item source (default_program_account program b) user b) b (required_items program b) = Inr c"
    by (auto simp: ensure_required_transfers_def rbind_Inr_iff)
  show ?thesis
    using assms(2) lineitemtypes_distinct source_account_in [OF source] program_account_in
    by (intro ensure_fold_only [OF fold]) (auto simp: required_items_def dest: lineitemtypes_in)
qed

lemma ensure_idle:
  assumes "default_source_account b = Inr source" and "\<And>l. l \<in> set (required_items program b) \<Longrightarrow> requirement_met user b l"
  shows "ensure_required_transfers program user b = Inr b"
proof -
  have "ensure_item source d user b b l = Inr b" if "requirement_met user b l" for d l
    using that by (auto simp: ensure_item_def requirement_met_def split: option.splits)
  then have "rfold (ensure_item source d user b) b ls = Inr b" if "\<And>l. l \<in> set ls \<Longrightarrow> requirement_met user b l" for d ls
    using that by (induction ls) simp_all
  then show ?thesis using assms by (simp add: ensure_required_transfers_def)
qed

lemma ensure_twice:
  assumes "ensure_required_transfers program user b = Inr c" and "sound b"
  shows "ensure_required_transfers program user c = Inr c"
proof -
  from assms(1) obtain source where "default_source_account b = Inr source"
    by (auto simp: ensure_required_transfers_def rbind_Inr_iff)
  then have "default_source_account c = Inr source"
    using only_transfers_cong(4) ensure_effect(2) [OF assms] by simp
  then show ?thesis using ensure_effect(3) [OF assms] by (rule ensure_idle)
qed

end
