(* ===== verification/Ledger_Refinement.thy ===== *)
theory Ledger_Refinement
  imports Ledger_Operations
begin

section \<open>The remaining operations refine the ledger\<close>

text \<open>
  Continues \<open>Ledger_Operations\<close> with preferences, discounts, amounts, payments, refunds, grants and reconciliation.
\<close>

lemma steps_trans: "ledger_steps u a b \<Longrightarrow> ledger_steps u b c \<Longrightarrow> ledger_steps u a c"
  by (rule rtranclp_trans)

subsection \<open>Preferences\<close>

lemma create_copies_steps:
  assumes "create_copies n t b = Inr (ts, c)" and "fits (tf_amount t) \<Longrightarrow> valid_transfer b t"
    and "tf_user t = Some user" and "tf_paid_in t = None"
  shows "ledger_steps user b c"
  using assms
proof (induction n arbitrary: ts b)
  case (Suc n)
  from Suc.prems(1) obtain t' b' ts' where 1: "create_transfer t b = Inr (t', b')"
    and 2: "create_copies n t b' = Inr (ts', c)"
    by (auto simp: rbind_Inr_iff)
  have "ledger_steps user b b'" using create_steps [OF 1] Suc.prems(2-4) by simp
  moreover have "ledger_steps user b' c"
    using Suc.IH [OF 2] Suc.prems(2-4) 1 by (auto simp: create_transfer_Inr valid_enter)
  ultimately show ?case by (rule steps_trans)
qed simp

lemma set_preference_steps:
  assumes "set_preference program user name quantity amount option_id b = Inr (ts, c)" and "sound b"
  shows "ledger_steps user b c"
proof -
  let ?t = "\<lambda>source line_item opt amount b'. \<lparr>tf_id = 0, tf_source = Some (ac_id source),
    tf_destination = account_id (default_program_account program b'), tf_user = Some user, tf_item = lit_id line_item,
    tf_option = map_option lio_id opt, tf_amount = amount, tf_transaction = [], tf_paid_in = None\<rparr>"
  from assms(1) obtain line_item source b' opt c' where
    item: "get_row (\<lambda>l. lit_text l = name) (get_lineitemtypes program every_item b) = Inr line_item" and
    source: "default_source_account b = Inr source" and
    del: "delete_transfers (matches_preference user line_item amount option_id) b = Inr b'" and
    opt: "(case option_id of None \<Rightarrow> Inr None
       | Some i \<Rightarrow> rbind (get_row (\<lambda>r. lio_id r = i) (bk_options b')) (\<lambda>r. Inr (Some r))) = Inr opt" and
    copies: "create_copies (nat quantity) (?t source line_item opt c' b') b' = Inr (ts, c)"
    by (auto simp: set_preference_def rbind_Inr_iff)
  have b': "bk_items b' = bk_items b" "bk_accounts b' = bk_accounts b" "bk_options b' = bk_options b"
    using del by (auto simp: delete_transfers_Inr)
  have "line_item \<in> set (bk_items b')" using get_row_in [OF item] b' by (auto dest: lineitemtypes_in)
  moreover have "ac_id source \<in> account_ids b'" using source_account_in [OF source] b' by (simp add: account_ids_def)
  moreover have "set_option (map_option lio_id opt) \<subseteq> lio_id ` set (bk_options b')"
    using opt by (auto simp: rbind_Inr_iff dest: get_row_in split: option.splits)
  ultimately have "ledger_steps user b' c"
    using program_account_in [of program b']
    by (intro create_copies_steps [OF copies]) (auto simp: valid_transfer_def item_ids_def)
  moreover have "ledger_steps user b b'" using delete_steps [OF del] by (simp add: matches_preference_def)
  ultimately show ?thesis by (rule steps_trans [rotated])
qed

lemma rfold_steps:
  assumes "rfold f s xs = Inr t" and "sound (books_of s)"
    and "\<And>s x t. f s x = Inr t \<Longrightarrow> sound (books_of s) \<Longrightarrow> ledger_steps user (books_of s) (books_of t)"
  shows "ledger_steps user (books_of s) (books_of t)"
  using assms(1,2)
proof (induction xs arbitrary: s)
  case (Cons x xs)
  from Cons.prems(1) obtain u where 1: "f s x = Inr u" and 2: "rfold f u xs = Inr t" by (auto simp: rbind_Inr_iff)
  note s = assms(3) [OF 1 Cons.prems(2)]
  show ?case using s Cons.IH [OF 2 steps_sound [OF s Cons.prems(2)]] by (rule steps_trans)
qed simp

lemma set_preferences_steps:
  assumes "set_preferences program user prefs b = Inr (ts, c)" and "sound b"
  shows "ledger_steps user b c"
proof -
  have "ledger_steps user (snd ([] :: transfer list, b)) (snd (ts, c))"
    by (rule rfold_steps [OF assms(1) [unfolded set_preferences_def]])
      (use assms(2) in \<open>auto simp: add_preference_def rbind_Inr_iff dest: set_preference_steps\<close>)
  then show ?thesis by simp
qed

lemma apply_preferences_steps:
  assumes "apply_preferences program user prefs b = Inr (ts, c)" and "sound b"
  shows "ledger_steps user b c"
proof -
  from assms(1) obtain b' where
    del: "delete_transfers (\<lambda>t. tf_user t = Some user \<and>
       tf_item t \<in> lit_id ` set (optional_line_items program b)) b = Inr b'"
    and rest: "set_preferences program user prefs b' = Inr (ts, c)"
    by (auto simp: apply_preferences_def rbind_Inr_iff)
  have 1: "ledger_steps user b b'" using delete_steps [OF del] by simp
  then show ?thesis
    using set_preferences_steps [OF rest] steps_sound assms(2) steps_trans by blast
qed

subsection \<open>Discount for siblings\<close>

lemma get_or_create_transfer_steps:
  assumes "get_or_create_transfer t b = Inr (t', c)" and "fits (tf_amount t) \<Longrightarrow> valid_transfer b t"
    and "tf_user t = Some user" and "tf_paid_in t = None"
  shows "ledger_steps user b c"
proof -
  from assms(1) obtain found where "(case found of Some r \<Rightarrow> Inr (r, b) | None \<Rightarrow> create_transfer t b) = Inr (t', c)"
    by (auto simp: get_or_create_transfer_def rbind_Inr_iff)
  then show ?thesis using create_steps [OF _ assms(2-4)] by (cases found) auto
qed

lemma execute_sibling_steps:
  assumes "execute_sibling_discount program s b = Inr (r, c)" and "spi_student s = user"
  shows "ledger_steps user b c"
proof (cases "spi_siblingdiscount s")
  case True
  from assms(1) True obtain source dest t r' where
    accounts: "default_finaid_account b = Inr source" "default_source_account b = Inr dest" and
    t: "transfer_for (Some (ac_id source)) (Some (ac_id dest)) (spi_student s)
      (default_siblingdiscount_lineitemtype program b) (pr_sibling_discount program) = Inr t" and
    found: "get_or_create_transfer t b = Inr (r', c)"
    by (auto simp: execute_sibling_discount_def Let_def rbind_Inr_iff)
  have "tf_item t \<in> item_ids b"
    using t by (auto simp: transfer_for_Inr item_ids_def dest: latest_in)
  then show ?thesis
    using t assms(2) finaid_account_in [OF accounts(1)] source_account_in [OF accounts(2)]
    by (intro get_or_create_transfer_steps [OF found]) (auto simp: valid_transfer_def transfer_for_Inr)
next
  case False
  from assms(1) False obtain p where del: "delete_transfers p b = Inr c"
    and "\<And>t. p t \<Longrightarrow> tf_user t = Some user"
    using assms(2) by (auto simp: execute_sibling_discount_def Let_def rbind_Inr_iff)
  then show ?thesis by (rule delete_steps)
qed

lemma save_splash_steps:
  "save_splash program s b = Inr c \<Longrightarrow> spi_student s = user \<Longrightarrow> ledger_steps user b c"
  by (auto simp: save_splash_def rbind_Inr_iff
      intro: steps_trans [OF other_tables_steps(1) execute_sibling_steps])

lemma splash_for_user_steps:
  assumes "splash_for_user program user b = Inr (s, c)"
  shows "ledger_steps user b c" and "spi_student s = user"
proof -
  have "ledger_steps user b c \<and> spi_student s = user"
  proof (cases "find (\<lambda>s. spi_student s = user \<and> spi_program s = pr_id program) (bk_splash b)")
    case None
    let ?n = "\<lparr>spi_id = bk_next b, spi_student = user, spi_program = pr_id program, spi_siblingdiscount = False\<rparr>"
    from assms None obtain r where s: "s = ?n" and
      "execute_sibling_discount program ?n (b\<lparr>bk_splash := bk_splash b @ [?n], bk_next := bk_next b + 1\<rparr>) = Inr (r, c)"
      by (auto simp: splash_for_user_def Let_def rbind_Inr_iff)
    then show ?thesis using steps_trans [OF other_tables_steps(4) execute_sibling_steps] by auto
  qed (use assms in \<open>auto simp: splash_for_user_def dest: find_SomeD\<close>)
  then show "ledger_steps user b c" and "spi_student s = user" by auto
qed

lemma siblingdiscount_steps:
  "amount_siblingdiscount program user b = Inr (a, c) \<Longrightarrow> ledger_steps user b c"
  by (auto simp: amount_siblingdiscount_def rbind_Inr_iff dest: splash_for_user_steps split: if_splits)

subsection \<open>Amounts\<close>

lemma requested_steps:
  "requested_transfers program user ensure_required finaid b = Inr (ts, c) \<Longrightarrow> sound b \<Longrightarrow> ledger_steps user b c"
  by (auto simp: requested_transfers_def rbind_Inr_iff dest: ensure_effect split: if_splits)

lemma amount_requested_steps:
  "amount_requested program user ensure_required finaid b = Inr (a, c) \<Longrightarrow> sound b \<Longrightarrow> ledger_steps user b c"
  by (auto simp: amount_requested_def rbind_Inr_iff dest: requested_steps)

lemma amount_finaid_steps:
  assumes "amount_finaid program user sibling b = Inr (a, c)" and "sound b"
  shows "ledger_steps user b c"
proof -
  from assms(1) obtain r b1 s where 1: "amount_requested program user True True b = Inr (r, b1)"
    and 2: "(case sibling of None \<Rightarrow> amount_siblingdiscount program user b1 | Some c \<Rightarrow> Inr (c, b1)) = Inr (s, c)"
    by (auto simp: amount_finaid_def rbind_Inr_iff)
  have "ledger_steps user b1 c" using 2 by (cases sibling) (auto dest: siblingdiscount_steps)
  with amount_requested_steps [OF 1 assms(2)] show ?thesis by (rule steps_trans)
qed

lemma amount_refunded_steps: "amount_refunded program user b = Inr (a, c) \<Longrightarrow> ledger_steps user b c"
  by (auto simp: amount_refunded_def rbind_Inr_iff dest: refund_type_steps)

lemma amount_donation_steps: "amount_donation program user b = Inr (a, c) \<Longrightarrow> ledger_steps user b c"
  by (auto simp: amount_donation_def donation_lineitemtype_def item_with_text_def rbind_Inr_iff dest: item_steps
      split: option.splits)

lemma amount_due_steps:
  assumes "amount_due program user b = Inr (a, c)" and "sound b"
  shows "ledger_steps user b c"
proof -
  from assms(1) obtain r b1 s b2 f b3 x where 1: "amount_requested program user True False b = Inr (r, b1)"
    and 2: "amount_siblingdiscount program user b1 = Inr (s, b2)"
    and 3: "amount_finaid program user (Some s) b2 = Inr (f, b3)" and 4: "amount_refunded program user b3 = Inr (x, c)"
    by (auto simp: amount_due_def rbind_Inr_iff)
  note s1 = amount_requested_steps [OF 1 assms(2)]
  note s2 = steps_trans [OF s1 siblingdiscount_steps [OF 2]]
  note s3 = steps_trans [OF s2 amount_finaid_steps [OF 3 steps_sound [OF s2 assms(2)]]]
  show ?thesis using s3 amount_refunded_steps [OF 4] by (rule steps_trans)
qed

lemma has_paid_steps:
  "has_paid program user in_full b = Inr (a, c) \<Longrightarrow> sound b \<Longrightarrow> ledger_steps user b c"
  by (auto simp: has_paid_def rbind_Inr_iff dest: amount_due_steps split: if_splits)

subsection \<open>Payments from outside survive the amounts\<close>

definition has_payment :: "int \<Rightarrow> books \<Rightarrow> bool" where
  "has_payment p b \<longleftrightarrow> (\<exists>t\<in>set (bk_transfers b). tf_id t = p \<and> tf_source t = None)"

lemma has_payment_id: "has_payment p b \<Longrightarrow> p \<in> transfer_ids b"
  by (auto simp: has_payment_def transfer_ids_def)

lemma has_payment_cong: "bk_transfers c = bk_transfers b \<Longrightarrow> has_payment p c = has_payment p b"
  by (simp add: has_payment_def)

lemma has_payment_enter: "has_payment p b \<Longrightarrow> has_payment p (enter t b)"
  by (auto simp: has_payment_def enter_def)

lemma has_payment_overwrite:
  assumes "has_payment p b" and "sound b" and "t \<in> set (bk_transfers b)" "tf_id t' = tf_id t" "tf_source t' = tf_source t"
  shows "has_payment p (overwrite t' b)"
proof -
  from assms(1) obtain x where x: "x \<in> set (bk_transfers b)" "tf_id x = p" "tf_source x = None"
    by (auto simp: has_payment_def)
  show ?thesis
  proof (cases "x = t")
    case True
    then have "t' \<in> set (bk_transfers (overwrite t' b))" using assms(4) x(1) overwrite_has by metis
    with True x assms(4,5) show ?thesis unfolding has_payment_def by (intro bexI [of _ t']) auto
  next
    case False
    then have "tf_id x \<noteq> tf_id t'" using sound_same_id [OF assms(2) x(1) assms(3)] assms(4) by auto
    then have "x \<in> set (bk_transfers (overwrite t' b))" using overwrite_keeps x(1) by metis
    with x show ?thesis unfolding has_payment_def by blast
  qed
qed

lemma ensure_item_payment:
  assumes "ensure_item source d user start b l = Inr c" and "has_payment p b" and "sound b"
    and "existing_transfer user l start = existing_transfer user l b"
  shows "has_payment p c"
  using assms
  by (auto simp: ensure_item_def rbind_Inr_iff create_transfer_Inr save_transfer_Inr split: option.splits if_splits
      dest: existing_transfer_SomeD intro: has_payment_enter has_payment_overwrite)

lemma ensure_fold_payment:
  assumes "rfold (ensure_item source d user start) b ls = Inr c" and "has_payment p b" and "sound b"
    and "distinct (map lit_id ls)" and "set ls \<subseteq> set (bk_items b)"
    and "\<And>l. l \<in> set ls \<Longrightarrow> existing_transfer user l start = existing_transfer user l b"
    and "ac_id source \<in> account_ids b" and "set_option (account_id d) \<subseteq> account_ids b"
  shows "has_payment p c"
  using assms
proof (induction ls arbitrary: b)
  case (Cons l ls)
  from Cons.prems(1) obtain b1 where 1: "ensure_item source d user start b l = Inr b1"
    and 2: "rfold (ensure_item source d user start) b1 ls = Inr c"
    by (auto simp: rbind_Inr_iff)
  have effect: "ledger_steps user b b1" "only_transfers b b1"
    "\<And>l'. lit_id l' \<noteq> lit_id l \<Longrightarrow> existing_transfer user l' b1 = existing_transfer user l' b"
    using ensure_item_effect [OF 1 Cons.prems(3,6)] Cons.prems(5,7,8) by auto
  have "has_payment p b1" using ensure_item_payment [OF 1 Cons.prems(2,3,6)] by simp
  moreover have "existing_transfer user l' start = existing_transfer user l' b1" if "l' \<in> set ls" for l'
    using Cons.prems(4,6) effect(3) [of l'] that by (auto simp: image_iff)
  ultimately show ?case
    using Cons.prems steps_sound [OF effect(1)] only_transfers_tables [OF effect(2)]
    by (intro Cons.IH [OF 2]) (auto simp: account_ids_def)
qed simp

lemma ensure_payment:
  assumes "ensure_required_transfers program user b = Inr c" and "has_payment p b" and "sound b"
  shows "has_payment p c"
proof -
  from assms(1) obtain source where source: "default_source_account b = Inr source"
    and fold: "rfold (ensure_item source (default_program_account program b) user b) b (required_items program b) = Inr c"
    by (auto simp: ensure_required_transfers_def rbind_Inr_iff)
  show ?thesis
    using assms(2,3) lineitemtypes_distinct source_account_in [OF source] program_account_in
    by (intro ensure_fold_payment [OF fold]) (auto simp: required_items_def dest: lineitemtypes_in)
qed

lemma requested_payment:
  "requested_transfers program user er fo b = Inr (ts, c) \<Longrightarrow> has_payment p b \<Longrightarrow> sound b \<Longrightarrow> has_payment p c"
  by (auto simp: requested_transfers_def rbind_Inr_iff intro: ensure_payment split: if_splits)

lemma execute_sibling_payment:
  assumes "execute_sibling_discount program s b = Inr (r, c)" and "has_payment p b"
  shows "has_payment p c"
proof (cases "spi_siblingdiscount s")
  case True
  with assms obtain t r' where "get_or_create_transfer t b = Inr (r', c)"
    by (auto simp: execute_sibling_discount_def Let_def rbind_Inr_iff)
  with assms(2) show ?thesis
    by (auto simp: get_or_create_transfer_def rbind_Inr_iff create_transfer_Inr intro: has_payment_enter
        split: option.splits)
next
  case False
  with assms show ?thesis
    by (fastforce simp: execute_sibling_discount_def Let_def rbind_Inr_iff delete_transfers_Inr has_payment_def)
qed

lemma siblingdiscount_payment:
  assumes "amount_siblingdiscount program user b = Inr (a, c)" and "has_payment p b"
  shows "has_payment p c"
  using assms
  by (auto simp: amount_siblingdiscount_def splash_for_user_def Let_def rbind_Inr_iff split: if_splits option.splits
      intro: execute_sibling_payment [OF _ iffD2 [OF has_payment_cong]])

lemma amount_finaid_payment:
  assumes "amount_finaid program user sibling b = Inr (a, c)" and "has_payment p b" and "sound b"
  shows "has_payment p c"
proof -
  from assms(1) obtain r b1 s where 1: "amount_requested program user True True b = Inr (r, b1)"
    and 2: "(case sibling of None \<Rightarrow> amount_siblingdiscount program user b1 | Some c \<Rightarrow> Inr (c, b1)) = Inr (s, c)"
    by (auto simp: amount_finaid_def rbind_Inr_iff)
  have "has_payment p b1"
    using 1 assms(2,3) requested_payment by (auto simp: amount_requested_def rbind_Inr_iff)
  with 2 show ?thesis by (cases sibling) (auto dest: siblingdiscount_payment)
qed

subsection \<open>Payments and refunds\<close>

text \<open>Rows that are read before others of them are overwritten are still there.\<close>

lemma overwrite_set_keeps:
  assumes "set (t # ts) \<subseteq> set (bk_transfers b)" and "distinct (map tf_id (t # ts))" and "tf_id t' = tf_id t"
  shows "set ts \<subseteq> set (bk_transfers (overwrite t' b))"
  using assms by (auto intro!: overwrite_keeps simp: image_iff)

lemma link_loop_steps:
  assumes "link_loop p target acc ts b = Inr (r, c)" and "sound b" and "p \<in> transfer_ids b"
    and "set ts \<subseteq> set (bk_transfers b)" and "distinct (map tf_id ts)" and "\<And>t. t \<in> set ts \<Longrightarrow> tf_user t = Some user"
  shows "ledger_steps user b c"
  using assms
proof (induction ts arbitrary: acc b)
  case (Cons t ts)
  let ?acc = "float_add acc (float_of (dollars (tf_amount t)))"
  let ?t = "t\<lparr>tf_paid_in := Some p\<rparr>"
  from Cons.prems(1) obtain b1 where
    b1: "b1 = (if tf_paid_in t = None then overwrite ?t b else b)" and
    rest: "b1 = c \<or> link_loop p target ?acc ts b1 = Inr (r, c)"
    by (auto simp: Let_def rbind_Inr_iff save_transfer_Inr split: if_splits)
  have s: "ledger_steps user b b1"
    using Cons.prems(3,4,6) by (auto simp: b1 intro!: r_into_rtranclp ledger_step.link)
  have "set ts \<subseteq> set (bk_transfers b1)"
    using overwrite_set_keeps [OF Cons.prems(4,5), of ?t] Cons.prems(4) by (simp add: b1)
  moreover have "p \<in> transfer_ids b1" using Cons.prems(3) by (simp add: b1 overwrite_ids)
  ultimately have "ledger_steps user b1 c"
    using rest Cons.IH [OF _ steps_sound [OF s Cons.prems(2)]] Cons.prems(5,6) by auto
  with s show ?case by (rule steps_trans)
qed simp

lemma linkable_props:
  assumes "sound b"
  shows "set (linkable program user b) \<subseteq> set (bk_transfers b)" and "distinct (map tf_id (linkable program user b))"
    and "\<And>t. t \<in> set (linkable program user b) \<Longrightarrow> tf_user t = Some user"
  using sound_distinct [OF assms]
  by (auto simp: linkable_def transfers_of_def distinct_map inj_on_def)

lemma link_paid_steps:
  assumes "link_paid_transfers program user payment b = Inr c" and "sound b" and "has_payment (tf_id payment) b"
  shows "ledger_steps user b c"
proof -
  from assms(1) obtain s b1 f b2 x b3 r target where 1: "amount_siblingdiscount program user b = Inr (s, b1)"
    and 2: "amount_finaid program user None b1 = Inr (f, b2)" and 3: "amount_refunded program user b2 = Inr (x, b3)"
    and 4: "link_loop (tf_id payment) target 0 (linkable program user b3) b3 = Inr (r, c)"
    by (auto simp: link_paid_transfers_def Let_def rbind_Inr_iff split: if_splits)
  have p1: "has_payment (tf_id payment) b1" by (rule siblingdiscount_payment [OF 1 assms(3)])
  note s1 = siblingdiscount_steps [OF 1]
  note sound1 = steps_sound [OF s1 assms(2)]
  note s2 = amount_finaid_steps [OF 2 sound1]
  note sound2 = steps_sound [OF s2 sound1]
  note s3 = amount_refunded_steps [OF 3]
  note sound3 = steps_sound [OF s3 sound2]
  have "bk_transfers b3 = bk_transfers b2"
    using 3 by (auto simp: amount_refunded_def rbind_Inr_iff dest: refund_type_steps(3))
  then have "has_payment (tf_id payment) b3"
    using amount_finaid_payment [OF 2 p1 sound1] has_payment_cong by blast
  then have "ledger_steps user b3 c"
    using link_loop_steps [OF 4 sound3] linkable_props [OF sound3] by (auto dest: has_payment_id)
  with s1 s2 s3 show ?thesis by (metis steps_trans)
qed

lemma create_payment_effect:
  assumes "create_payment program user amount tid b = Inr (p, c)"
  shows "ledger_steps user b c" and "has_payment (tf_id p) c" and "p \<in> set (bk_transfers c)"
    and "tf_amount p = as_cents amount" and "tf_user p = Some user" and "tf_id p = bk_next b"
    and "tf_transaction p = tid" and "tf_paid_in p = None" and "c = enter p b" and "p\<lparr>tf_id := bk_next b\<rparr> = p"
    and "has_item (default_payments_lineitemtype program b) p" and "tf_source p = None" and "tf_option p = None"
    and "fits (tf_amount p)"
proof -
  from assms obtain target l where target: "default_source_account b = Inr target"
    and l: "default_payments_lineitemtype program b = Some l"
    and p: "p = \<lparr>tf_id = bk_next b, tf_source = None, tf_destination = Some (ac_id target), tf_user = Some user,
      tf_item = lit_id l, tf_option = None, tf_amount = as_cents amount, tf_transaction = tid, tf_paid_in = None\<rparr>"
    and fits: "fits (as_cents amount)" and c: "c = enter p b"
    by (auto simp: create_payment_def rbind_Inr_iff transfer_for_Inr create_transfer_Inr enter_def)
  have "valid_transfer b p"
    using fits source_account_in [OF target] payments_in [OF l] by (simp add: p valid_transfer_def item_ids_def)
  then show "ledger_steps user b c" unfolding c by (rule enter_steps) (simp_all add: p)
  show "has_payment (tf_id p) c" and "p \<in> set (bk_transfers c)" by (auto simp: c enter_def has_payment_def p)
qed (use assms in \<open>auto simp: create_payment_def rbind_Inr_iff transfer_for_Inr create_transfer_Inr enter_def has_item_def\<close>)

lemma submit_payment_steps:
  assumes "submit_payment program user amount tid link b = Inr (p, c)" and "sound b"
  shows "ledger_steps user b c"
proof -
  from assms(1) obtain b' where 1: "create_payment program user amount tid b = Inr (p, b')"
    and 2: "if link then link_paid_transfers program user p b' = Inr c else c = b'"
    by (auto simp: submit_payment_def rbind_Inr_iff split: if_splits)
  note pay = create_payment_effect [OF 1]
  have "ledger_steps user b' c"
    using 2 link_paid_steps [OF _ steps_sound [OF pay(1) assms(2)] pay(2)] by (auto split: if_splits)
  with pay(1) show ?thesis by (rule steps_trans)
qed

lemma record_refund_effect:
  assumes "record_refund program user amount tid b = Inr ((outgoing, internal), c)"
  obtains l b0 payable where "default_refund_lineitemtype program b = Inr (l, b0)"
    and "default_payable_account b0 = Inr payable"
    and "outgoing = \<lparr>tf_id = bk_next b0, tf_source = Some (ac_id payable), tf_destination = None, tf_user = Some user,
      tf_item = lit_id l, tf_option = None, tf_amount = as_cents amount, tf_transaction = tid, tf_paid_in = None\<rparr>"
    and "internal = \<lparr>tf_id = bk_next b0 + 1, tf_source = account_id (default_program_account program b0),
      tf_destination = Some (ac_id payable), tf_user = Some user,
      tf_item = lit_id l, tf_option = None, tf_amount = as_cents amount, tf_transaction = tid, tf_paid_in = None\<rparr>"
    and "fits (as_cents amount)" and "c = enter internal (enter outgoing b0)"
  using assms that
  by (auto simp: record_refund_def rbind_Inr_iff transfer_for_Inr create_transfer_Inr enter_def)

lemma record_refund_steps:
  assumes "record_refund program user amount tid b = Inr (r, c)" and "sound b"
  shows "ledger_steps user b c"
proof -
  obtain outgoing internal where r: "r = (outgoing, internal)" by (cases r)
  from record_refund_effect [OF assms(1) [unfolded r]] obtain l b0 payable where
    l: "default_refund_lineitemtype program b = Inr (l, b0)" and payable: "default_payable_account b0 = Inr payable"
    and outgoing: "outgoing = \<lparr>tf_id = bk_next b0, tf_source = Some (ac_id payable), tf_destination = None, tf_user = Some user,
      tf_item = lit_id l, tf_option = None, tf_amount = as_cents amount, tf_transaction = tid, tf_paid_in = None\<rparr>"
    and internal: "internal = \<lparr>tf_id = bk_next b0 + 1, tf_source = account_id (default_program_account program b0),
      tf_destination = Some (ac_id payable), tf_user = Some user,
      tf_item = lit_id l, tf_option = None, tf_amount = as_cents amount, tf_transaction = tid, tf_paid_in = None\<rparr>"
    and fits: "fits (as_cents amount)" and c: "c = enter internal (enter outgoing b0)"
    by metis
  note item = refund_type_steps [OF l]
  have "valid_transfer b0 outgoing" "valid_transfer b0 internal"
    using fits item(2) payable_account_in [OF payable] program_account_in
    by (simp_all add: outgoing internal valid_transfer_def item_ids_def)
  then have "ledger_steps user b0 (enter outgoing b0)" "ledger_steps user (enter outgoing b0) c"
    unfolding c by (auto intro!: enter_steps simp: valid_enter) (simp_all add: outgoing internal)
  with item(1) show ?thesis by (metis steps_trans)
qed

lemma updatePaid_steps:
  assumes "updatePaid program user paid in_full b = Inr c" and "sound b"
  shows "ledger_steps user b c"
proof -
  from assms(1) obtain settled b1 where 1: "has_paid program user in_full b = Inr (settled, b1)"
    and rest: "if settled then c = b1 else \<exists>b2. ensure_required_transfers program user b1 = Inr b2 \<and>
      (if paid then \<exists>due b3 p. amount_due program user b2 = Inr (due, b3) \<and>
         submit_payment program user (dollars due) [] True b3 = Inr (p, c) else c = b2)"
    by (auto simp: updatePaid_def rbind_Inr_iff split: if_splits)
  note s1 = has_paid_steps [OF 1 assms(2)]
  note sound1 = steps_sound [OF s1 assms(2)]
  have "ledger_steps user b1 c"
  proof (cases settled)
    case False
    with rest obtain b2 where 2: "ensure_required_transfers program user b1 = Inr b2" and
      rest: "if paid then \<exists>due b3 p. amount_due program user b2 = Inr (due, b3) \<and>
         submit_payment program user (dollars due) [] True b3 = Inr (p, c) else c = b2"
      by auto
    note s2 = ensure_effect(1) [OF 2 sound1]
    note sound2 = steps_sound [OF s2 sound1]
    have "ledger_steps user b2 c"
    proof (cases paid)
      case True
      with rest obtain due b3 p where 3: "amount_due program user b2 = Inr (due, b3)" and
        4: "submit_payment program user (dollars due) [] True b3 = Inr (p, c)"
        by auto
      note s3 = amount_due_steps [OF 3 sound2]
      show ?thesis using s3 submit_payment_steps [OF 4 steps_sound [OF s3 sound2]] by (rule steps_trans)
    qed (use rest in auto)
    with s2 show ?thesis by (rule steps_trans)
  qed (use rest in auto)
  with s1 show ?thesis by (rule steps_trans)
qed

subsection \<open>Grants\<close>

lemma finalize_grant_steps:
  assumes "finalize_grant program user g b = Inr (r, c)" and "sound b"
  shows "ledger_steps user b c"
proof (cases "gr_finalized g")
  case False
  with assms(1) obtain source dest a b1 t t' b2 where
    accounts: "default_finaid_account b = Inr source" "default_source_account b = Inr dest" and
    1: "amount_finaid program user None b = Inr (a, b1)" and
    t: "transfer_for (Some (ac_id source)) (Some (ac_id dest)) user (default_finaid_lineitemtype program b) a = Inr t" and
    2: "get_or_create_transfer t b1 = Inr (t', b2)" and 3: "save_grant (g\<lparr>gr_finalized := True\<rparr>) b2 = Inr c"
    by (auto simp: finalize_grant_def Let_def rbind_Inr_iff)
  note s1 = amount_finaid_steps [OF 1 assms(2)]
  have tables: "account_ids b1 = account_ids b" "item_ids b \<subseteq> item_ids b1"
    using steps_tables [OF s1 assms(2)] by (auto simp: tables_kept_def account_ids_def item_ids_def)
  have "tf_item t \<in> item_ids b"
    using t by (auto simp: transfer_for_Inr item_ids_def dest: latest_in)
  then have "tf_item t \<in> item_ids b1" using tables(2) by blast
  moreover have "tf_user t = Some user" "tf_paid_in t = None" "tf_source t = Some (ac_id source)"
    "tf_destination t = Some (ac_id dest)" "tf_option t = None"
    using t by (auto simp: transfer_for_Inr)
  ultimately have s2: "ledger_steps user b1 b2"
    using finaid_account_in [OF accounts(1)] source_account_in [OF accounts(2)]
    by (intro get_or_create_transfer_steps [OF 2]) (simp_all add: valid_transfer_def tables(1))
  have "ledger_steps user b2 c"
    using 3 other_tables_steps(2,6) by (auto simp: save_grant_def split: if_splits)
  with s1 s2 show ?thesis by (metis steps_trans)
qed (use assms in \<open>auto simp: finalize_grant_def\<close>)

lemma approve_steps:
  assumes "approve program r dollar_amount percent b = Inr c" and "sound b"
  shows "ledger_steps (fr_user r) b c"
proof -
  from assms(1) consider "c = b" | t b1 g where "finalize_grant program (fr_user r) g b = Inr (t, b1)"
    and "c = b1\<lparr>bk_requests := map (\<lambda>q. if fr_id q = fr_id r then q\<lparr>fr_done := True\<rparr> else q) (bk_requests b1)\<rparr>"
    by (auto simp: approve_def rbind_Inr_iff split: if_splits)
  then show ?thesis
  proof cases
    case 2
    show ?thesis unfolding 2(2) by (rule steps_trans [OF finalize_grant_steps [OF 2(1) assms(2)] other_tables_steps(3)])
  qed simp
qed

lemma set_finaid_steps:
  assumes "set_finaid_params program user dollar_amount percent b = Inr c"
  shows "ledger_steps user b c"
proof -
  obtain r b1 where r: "request_for program user b = (r, b1)" by (cases "request_for program user b")
  from assms obtain g b2 g' where g: "grant_for_request r b1 = Inr (g, b2)" and save: "save_grant g' b2 = Inr c"
    by (auto simp: set_finaid_params_def r Let_def rbind_Inr_iff)
  have "ledger_steps user b b1"
    using r other_tables_steps(5) by (auto simp: request_for_def Let_def split: option.splits)
  moreover have "ledger_steps user b1 b2"
    using g other_tables_steps(6) by (auto simp: grant_for_request_def Let_def rbind_Inr_iff split: option.splits)
  moreover have "ledger_steps user b2 c"
    using save other_tables_steps(2,6) by (auto simp: save_grant_def split: if_splits)
  ultimately show ?thesis by (metis steps_trans)
qed

subsection \<open>Reconciliation\<close>

definition paid_by :: "int \<Rightarrow> books \<Rightarrow> transfer list" where
  "paid_by p b = filter (\<lambda>t. tf_paid_in t = Some p) (bk_transfers b)"

lemma paid_by_overwrite:
  assumes "distinct (map tf_id (bk_transfers b))" and "t \<in> set (bk_transfers b)" and "tf_paid_in t = None"
    and "tf_id t' = tf_id t" and "tf_paid_in t' = Some p"
  shows "sum_amounts (paid_by p (overwrite t' b)) = sum_amounts (paid_by p b) + tf_amount t'"
    and "length (paid_by p (overwrite t' b)) = length (paid_by p b) + 1"
proof -
  have "sum_amounts (filter (\<lambda>t. tf_paid_in t = Some p) (map (\<lambda>r. if tf_id r = tf_id t' then t' else r) xs)) =
      sum_amounts (filter (\<lambda>t. tf_paid_in t = Some p) xs) + (if t \<in> set xs then tf_amount t' else 0) \<and>
    length (filter (\<lambda>t. tf_paid_in t = Some p) (map (\<lambda>r. if tf_id r = tf_id t' then t' else r) xs)) =
      length (filter (\<lambda>t. tf_paid_in t = Some p) xs) + (if t \<in> set xs then 1 else 0)"
    if "distinct (map tf_id xs)" and "\<And>r. r \<in> set xs \<Longrightarrow> tf_id r = tf_id t \<Longrightarrow> r = t" for xs
    using that assms(3-5)
  proof (induction xs)
    case (Cons x xs)
    show ?case
    proof (cases "x = t")
      case True
      with Cons.prems(1) have "t \<notin> set xs" by auto
      with Cons True show ?thesis by auto
    next
      case False
      with Cons.prems(2) have "tf_id x \<noteq> tf_id t" by auto
      with Cons False show ?thesis by auto
    qed
  qed simp
  moreover have "r = t" if "r \<in> set (bk_transfers b)" "tf_id r = tf_id t" for r
    using assms(1,2) that by (meson distinct_map inj_on_def)
  ultimately show "sum_amounts (paid_by p (overwrite t' b)) = sum_amounts (paid_by p b) + tf_amount t'"
    and "length (paid_by p (overwrite t' b)) = length (paid_by p b) + 1"
    using assms(1,2) by (simp_all add: paid_by_def overwrite_def)
qed

lemma reconcile_entry_effect:
  assumes "reconcile_entry program payment trusted ids (unpaid, n, b) (i, saved) = Inr (unpaid', n', b')"
  obtains t c where "t \<in> set unpaid" and "unpaid' = remove1 t unpaid" and "fits c" and "n' = n + c"
    and "b' = overwrite (t\<lparr>tf_amount := c, tf_paid_in := Some (tf_id payment)\<rparr>) b"
    and "\<not> trusted \<Longrightarrow> c = tf_amount t" and "tf_item t = i"
    and "item_satisfies b (\<lambda>l. lit_program l = pr_id program) t"
proof -
  from assms obtain first rest where first: "filter (\<lambda>t. tf_item t = i) unpaid = first # rest"
    by (auto simp: reconcile_entry_def split: list.splits)
  define t where "t = (case find (\<lambda>t. tf_item t = i \<and> formatted_amount t = saved) unpaid of
      Some t \<Rightarrow> t | None \<Rightarrow> first)"
  have "first \<in> set (filter (\<lambda>t. tf_item t = i) unpaid)" using first by simp
  then have t: "t \<in> set unpaid" "tf_item t = i"
    by (auto simp: t_def split: option.splits dest: find_SomeD)
  have entry: "reconcile_entry program payment trusted ids (unpaid, n, b) (i, saved) =
      rbind (raise_if (\<not> item_satisfies b (\<lambda>l. lit_program l = pr_id program) t) reconciliation_error) (\<lambda>_.
      rbind (if formatted_amount t \<noteq> saved
          then if trusted then rbind (parse_float saved) (\<lambda>x. set_amount x t) else Inl reconciliation_error
          else Inr t) (\<lambda>t1.
      rbind (save_transfer (t1\<lparr>tf_paid_in := Some (tf_id payment)\<rparr>) b) (\<lambda>b'.
      Inr (remove1 t unpaid, n + tf_amount t1, b'))))"
    by (simp only: reconcile_entry_def prod.case first list.case Let_def t_def)
  from assms obtain t1 where
    program: "item_satisfies b (\<lambda>l. lit_program l = pr_id program) t" and
    t1: "(if formatted_amount t \<noteq> saved
       then if trusted then rbind (parse_float saved) (\<lambda>x. set_amount x t) else Inl reconciliation_error
       else Inr t) = Inr t1" and
    saved: "fits (tf_amount t1)" "b' = overwrite (t1\<lparr>tf_paid_in := Some (tf_id payment)\<rparr>) b" and
    rest: "unpaid' = remove1 t unpaid" "n' = n + tf_amount t1"
    unfolding entry rbind_Inr_iff raise_if_Inr_iff save_transfer_Inr by auto
  have "t1 = t\<lparr>tf_amount := tf_amount t1\<rparr>" "\<not> trusted \<Longrightarrow> tf_amount t1 = tf_amount t"
    using t1 by (auto simp: rbind_Inr_iff set_amount_def split: if_splits option.splits)
  then show ?thesis using that [OF t(1) rest(1) saved(1) rest(2)] saved(2) t(2) program
    by (metis transfer.update_convs(9) transfer.surjective transfer.update_convs(7))
qed

text \<open>What is left to take from: unpaid rows of the user that are in the books.\<close>

definition pool :: "int \<Rightarrow> transfer list \<Rightarrow> books \<Rightarrow> bool" where
  "pool user ts b \<longleftrightarrow>
     set ts \<subseteq> set (bk_transfers b) \<and> distinct (map tf_id ts) \<and>
     (\<forall>t\<in>set ts. tf_user t = Some user \<and> tf_paid_in t = None)"

lemma pool_overwrite:
  assumes "pool user ts b" and "t \<in> set ts" and "tf_id t' = tf_id t"
  shows "pool user (remove1 t ts) (overwrite t' b)"
proof -
  have "distinct ts" using assms(1) by (auto simp: pool_def distinct_map)
  have "x \<in> set (bk_transfers (overwrite t' b))" if x: "x \<in> set (remove1 t ts)" for x
  proof -
    have "x \<in> set ts" "x \<noteq> t" using x \<open>distinct ts\<close> by auto
    then have "tf_id x \<noteq> tf_id t'" using assms by (auto simp: pool_def distinct_map inj_on_def)
    then show ?thesis using assms(1) \<open>x \<in> set ts\<close> by (intro overwrite_keeps) (auto simp: pool_def)
  qed
  moreover have "distinct (map tf_id (remove1 t ts))"
    using assms(1) by (auto simp: pool_def distinct_map \<open>distinct ts\<close> inj_on_def)
  ultimately show ?thesis using assms(1) \<open>distinct ts\<close> by (auto simp: pool_def)
qed

lemma overwrite_twice: "tf_id t' = tf_id t \<Longrightarrow> overwrite t' (overwrite t b) = overwrite t' b"
  by (auto simp: overwrite_def)

lemma settle_steps:
  assumes "t \<in> set (bk_transfers b)" and "tf_user t = Some user" and "tf_paid_in t = None" and "fits c"
    and "p \<in> transfer_ids b"
  shows "ledger_steps user b (overwrite (t\<lparr>tf_amount := c, tf_paid_in := Some p\<rparr>) b)"
proof -
  let ?t = "t\<lparr>tf_amount := c\<rparr>"
  let ?b = "overwrite ?t b"
  have 1: "ledger_step user b ?b" using assms(1-4) by (rule ledger_step.amend)
  have "?t \<in> set (bk_transfers ?b)" using overwrite_has [OF assms(1)] by simp
  then have "ledger_step user ?b (overwrite (?t\<lparr>tf_paid_in := Some p\<rparr>) ?b)"
    using assms(2,3,5) by (intro ledger_step.link) (simp_all add: overwrite_ids)
  with 1 show ?thesis by (simp add: overwrite_twice)
qed

lemma reconcile_fold:
  assumes "rfold (reconcile_entry program payment trusted ids) (unpaid, n, b) items = Inr (unpaid', n', c)"
    and "sound b" and "tf_id payment \<in> transfer_ids b" and "pool user unpaid b"
    and "n = sum_amounts (paid_by (tf_id payment) b)"
  shows "ledger_steps user b c" and "n' = sum_amounts (paid_by (tf_id payment) c)" and "only_transfers b c"
    and "map tf_id (bk_transfers c) = map tf_id (bk_transfers b)"
    and "length (paid_by (tf_id payment) c) = length (paid_by (tf_id payment) b) + length items"
    and "\<And>x. x \<in> set (bk_transfers c) \<Longrightarrow> x \<in> set (bk_transfers b) \<or> (\<exists>t\<in>set unpaid. \<exists>a.
      x = t\<lparr>tf_amount := a, tf_paid_in := Some (tf_id payment)\<rparr> \<and> (trusted \<or> a = tf_amount t) \<and>
      item_satisfies b (\<lambda>l. lit_program l = pr_id program) t)"
proof -
  have "ledger_steps user b c \<and> n' = sum_amounts (paid_by (tf_id payment) c) \<and> only_transfers b c \<and>
    map tf_id (bk_transfers c) = map tf_id (bk_transfers b) \<and>
    length (paid_by (tf_id payment) c) = length (paid_by (tf_id payment) b) + length items \<and>
    (\<forall>x\<in>set (bk_transfers c). x \<in> set (bk_transfers b) \<or> (\<exists>t\<in>set unpaid. \<exists>a.
      x = t\<lparr>tf_amount := a, tf_paid_in := Some (tf_id payment)\<rparr> \<and> (trusted \<or> a = tf_amount t) \<and>
      item_satisfies b (\<lambda>l. lit_program l = pr_id program) t))"
    using assms
  proof (induction items arbitrary: unpaid n b)
    case (Cons e items)
    obtain i saved where e: "e = (i, saved)" by (cases e)
    from Cons.prems(1) obtain u1 n1 b1 where
      1: "reconcile_entry program payment trusted ids (unpaid, n, b) (i, saved) = Inr (u1, n1, b1)"
      and 2: "rfold (reconcile_entry program payment trusted ids) (u1, n1, b1) items = Inr (unpaid', n', c)"
      by (auto simp: e rbind_Inr_iff)
    obtain t a where t: "t \<in> set unpaid" "u1 = remove1 t unpaid" "fits a" "n1 = n + a"
      "\<not> trusted \<Longrightarrow> a = tf_amount t" "item_satisfies b (\<lambda>l. lit_program l = pr_id program) t"
      and b1: "b1 = overwrite (t\<lparr>tf_amount := a, tf_paid_in := Some (tf_id payment)\<rparr>) b"
      using reconcile_entry_effect [OF 1] by metis
    have t': "t \<in> set (bk_transfers b)" "tf_user t = Some user" "tf_paid_in t = None"
      using Cons.prems(4) t(1) by (auto simp: pool_def)
    have s1: "ledger_steps user b b1" unfolding b1 using t' t(3) Cons.prems(3) by (rule settle_steps)
    have count: "n1 = sum_amounts (paid_by (tf_id payment) b1)"
      "length (paid_by (tf_id payment) b1) = length (paid_by (tf_id payment) b) + 1"
      unfolding b1 using paid_by_overwrite [OF sound_distinct [OF Cons.prems(2)] t'(1,3)] t(4) Cons.prems(5) by simp_all
    have ot: "only_transfers b b1" by (simp add: b1)
    have IH: "ledger_steps user b1 c \<and> n' = sum_amounts (paid_by (tf_id payment) c) \<and> only_transfers b1 c \<and>
      map tf_id (bk_transfers c) = map tf_id (bk_transfers b1) \<and>
      length (paid_by (tf_id payment) c) = length (paid_by (tf_id payment) b1) + length items \<and>
      (\<forall>x\<in>set (bk_transfers c). x \<in> set (bk_transfers b1) \<or> (\<exists>t\<in>set u1. \<exists>a.
        x = t\<lparr>tf_amount := a, tf_paid_in := Some (tf_id payment)\<rparr> \<and> (trusted \<or> a = tf_amount t) \<and>
        item_satisfies b1 (\<lambda>l. lit_program l = pr_id program) t))"
      using Cons.prems(3,4) t(1,2) count(1) steps_sound [OF s1 Cons.prems(2)]
      by (intro Cons.IH [OF 2]) (simp_all add: b1 overwrite_ids pool_overwrite)
    show ?case
    proof (intro conjI ballI)
      show "ledger_steps user b c" using s1 IH by (auto intro: steps_trans)
      show "only_transfers b c" using ot IH only_transfers_trans by blast
      fix x assume "x \<in> set (bk_transfers c)"
      with IH consider "x \<in> set (bk_transfers b1)" | "\<exists>t\<in>set u1. \<exists>a.
        x = t\<lparr>tf_amount := a, tf_paid_in := Some (tf_id payment)\<rparr> \<and> (trusted \<or> a = tf_amount t) \<and>
        item_satisfies b1 (\<lambda>l. lit_program l = pr_id program) t" by blast
      then show "x \<in> set (bk_transfers b) \<or> (\<exists>t\<in>set unpaid. \<exists>a.
        x = t\<lparr>tf_amount := a, tf_paid_in := Some (tf_id payment)\<rparr> \<and> (trusted \<or> a = tf_amount t) \<and>
        item_satisfies b (\<lambda>l. lit_program l = pr_id program) t)"
      proof cases
        case 1
        then show ?thesis using overwrite_in [of x] t unfolding b1 by blast
      next
        case 2
        then obtain y a where "y \<in> set u1" and x: "x = y\<lparr>tf_amount := a, tf_paid_in := Some (tf_id payment)\<rparr>"
          "trusted \<or> a = tf_amount y" "item_satisfies b (\<lambda>l. lit_program l = pr_id program) y"
          using only_transfers_cong(8) [OF ot] by auto
        then have "y \<in> set unpaid" using t(2) set_remove1_subset by fast
        with x show ?thesis by blast
      qed
    qed (use IH count b1 overwrite_map_ids in auto)
  qed simp
  then show "ledger_steps user b c" and "n' = sum_amounts (paid_by (tf_id payment) c)" and "only_transfers b c"
    and "map tf_id (bk_transfers c) = map tf_id (bk_transfers b)"
    and "length (paid_by (tf_id payment) c) = length (paid_by (tf_id payment) b) + length items"
    and "\<And>x. x \<in> set (bk_transfers c) \<Longrightarrow> x \<in> set (bk_transfers b) \<or> (\<exists>t\<in>set unpaid. \<exists>a.
      x = t\<lparr>tf_amount := a, tf_paid_in := Some (tf_id payment)\<rparr> \<and> (trusted \<or> a = tf_amount t) \<and>
      item_satisfies b (\<lambda>l. lit_program l = pr_id program) t)"
    by blast+
qed

lemma candidates_props:
  "t \<in> set (candidates user ids payment b) \<longleftrightarrow>
     t \<in> set (bk_transfers b) \<and> tf_user t = Some user \<and> tf_item t \<in> set ids \<and> tf_id t \<noteq> tf_id payment"
  by (auto simp: candidates_def transfers_of_def)

lemma candidates_pool:
  assumes "sound b"
  shows "pool user (filter (\<lambda>t. tf_paid_in t = None) (candidates user ids payment b)) b"
proof -
  have "distinct (map tf_id (candidates user ids payment b))"
    using sound_distinct [OF assms] by (auto simp: candidates_def transfers_of_def distinct_map inj_on_def)
  then show ?thesis by (auto simp: pool_def candidates_props distinct_map inj_on_def)
qed

lemma reconcile_effect:
  assumes "reconcile program user payment trusted items b = Inr c" and "sound b"
    and "tf_id payment \<in> transfer_ids b" and "paid_by (tf_id payment) b = []"
  shows "ledger_steps user b c" and "sum_amounts (paid_by (tf_id payment) c) = tf_amount payment"
    and "only_transfers b c" and "map tf_id (bk_transfers c) = map tf_id (bk_transfers b)"
    and "length (paid_by (tf_id payment) c) = length items"
    and "\<And>x. x \<in> set (bk_transfers c) \<Longrightarrow> x \<in> set (bk_transfers b) \<or> (\<exists>t\<in>set (transfers_of user b). \<exists>a.
      tf_paid_in t = None \<and> tf_id t \<noteq> tf_id payment \<and>
      x = t\<lparr>tf_amount := a, tf_paid_in := Some (tf_id payment)\<rparr> \<and> (trusted \<or> a = tf_amount t) \<and>
      item_satisfies b (\<lambda>l. lit_program l = pr_id program) t)"
proof -
  let ?found = "candidates user (List.map fst items) payment b"
  let ?paid = "tf_item ` set (filter (\<lambda>t. tf_paid_in t \<noteq> None) ?found)"
  let ?unpaid = "filter (\<lambda>t. tf_paid_in t = None) ?found"
  from assms(1) obtain left total where
    fold: "rfold (reconcile_entry program payment trusted ?paid) (?unpaid, 0, b) items = Inr (left, total, c)"
    and total: "total = tf_amount payment"
    by (auto simp: reconcile_def Let_def rbind_Inr_iff split: if_splits)
  note effect = reconcile_fold [OF fold assms(2,3) candidates_pool [OF assms(2)]]
  show "ledger_steps user b c" and "sum_amounts (paid_by (tf_id payment) c) = tf_amount payment"
    and "only_transfers b c" and "map tf_id (bk_transfers c) = map tf_id (bk_transfers b)"
    and "length (paid_by (tf_id payment) c) = length items"
    using effect(1-5) assms(4) total by simp_all
  fix x assume "x \<in> set (bk_transfers c)"
  from effect(6) [OF _ this] assms(4) show "x \<in> set (bk_transfers b) \<or> (\<exists>t\<in>set (transfers_of user b). \<exists>a.
      tf_paid_in t = None \<and> tf_id t \<noteq> tf_id payment \<and>
      x = t\<lparr>tf_amount := a, tf_paid_in := Some (tf_id payment)\<rparr> \<and> (trusted \<or> a = tf_amount t) \<and>
      item_satisfies b (\<lambda>l. lit_program l = pr_id program) t)"
    by (fastforce simp: candidates_props transfers_of_def)
qed

text \<open>What a recorded payment has gone through.\<close>

lemma record_payment_split:
  assumes "record_payment_from_identifier identifier amount tid trusted b = Inr (payment, c)"
  obtains id_str entries program user items b' where
    "split_pair CHR '':'' identifier = Inr (id_str, entries)" and "from_id id_str b = Inr (program, user)"
    and "\<not> already_recorded program user tid b"
    and "create_payment program user amount tid b = Inr (payment, b')"
    and "rmap parse_entry (split_at CHR '';'' entries) = Inr items"
    and "reconcile program user payment trusted items b' = Inr c"
  using assms that
  by (auto simp: record_payment_from_identifier_def submit_payment_def rbind_Inr_iff raise_if_Inr_iff)

lemma record_payment_steps:
  assumes "record_payment_from_identifier identifier amount tid trusted b = Inr (payment, c)" and "sound b"
  shows "\<exists>user. ledger_steps user b c"
proof -
  obtain program user items b' where 1: "create_payment program user amount tid b = Inr (payment, b')"
    and 2: "reconcile program user payment trusted items b' = Inr c"
    using record_payment_split [OF assms(1)] by metis
  note pay = create_payment_effect [OF 1]
  have "paid_by (tf_id payment) b' = []"
    using sound_fresh [OF assms(2)] sound_paidD [OF assms(2)] pay(6,8,9)
    by (auto simp: paid_by_def enter_def filter_empty_conv)
  then have "ledger_steps user b' c"
    using reconcile_effect(1) [OF 2 steps_sound [OF pay(1) assms(2)]] has_payment_id [OF pay(2)] by simp
  with pay(1) show ?thesis by (metis steps_trans)
qed

end
