(* ===== verification/Amounts.thy ===== *)
theory Amounts
  imports Ledger_Refinement
begin

section \<open>What the amounts mean\<close>

text \<open>
  The amounts of a user are computed by operations that first enter what is missing: required transfers, the
  information about siblings, the line item of refunds. Books on which nothing is missing are \<open>settled\<close>: there the
  amounts are plain functions of the books (\<open>settled_amounts\<close>), and every successful \<open>amount_due\<close> ends in settled
  books with the amount of these (\<open>amount_due_settles\<close>).

  From this: what payments (\<open>payment_lowers_due\<close>) and refunds (\<open>refund_raises_due\<close>) do to the amount due, and the bounds
  of financial aid (\<open>aid_bounds\<close>). \<open>own_account\<close> says that the program has an account other than the default ones.
\<close>

subsection \<open>The amounts as functions\<close>

definition splash_of :: "program_row \<Rightarrow> int \<Rightarrow> books \<Rightarrow> splash_info option" where
  "splash_of program user b = find (\<lambda>s. spi_student s = user \<and> spi_program s = pr_id program) (bk_splash b)"

definition refund_item :: "program_row \<Rightarrow> books \<Rightarrow> line_item_type option result" where
  "refund_item program b =
     fetch (\<lambda>l. lit_program l = pr_id program \<and> lit_text l = ''Student refund'') (bk_items b)"

definition settled :: "program_row \<Rightarrow> int \<Rightarrow> books \<Rightarrow> bool" where
  "settled program user b \<longleftrightarrow>
     (\<exists>a. default_source_account b = Inr a) \<and> (\<exists>a. default_payable_account b = Inr a) \<and>
     (\<forall>l\<in>set (required_items program b). requirement_met user b l) \<and>
     (pr_sibling_discount program = 0 \<or> splash_of program user b \<noteq> None) \<and>
     (\<exists>l. refund_item program b = Inr (Some l))"

definition requested_now :: "program_row \<Rightarrow> int \<Rightarrow> bool \<Rightarrow> books \<Rightarrow> int" where
  "requested_now program user for_finaid b =
     sum_amounts (filter (\<lambda>t. tf_destination t = account_id (default_program_account program b) \<and>
       (for_finaid \<longrightarrow> item_satisfies b lit_for_finaid t)) (transfers_of user b))"

definition sibling_now :: "program_row \<Rightarrow> int \<Rightarrow> books \<Rightarrow> int" where
  "sibling_now program user b =
     (case splash_of program user b of
        None \<Rightarrow> 0
      | Some s \<Rightarrow> if spi_siblingdiscount s then pr_sibling_discount program else 0)"

definition aid_now :: "program_row \<Rightarrow> int \<Rightarrow> books \<Rightarrow> int" where
  "aid_now program user b =
     (case latest_finaid_grant program user b of
        None \<Rightarrow> 0
      | Some g \<Rightarrow> aid_amount g (requested_now program user True b - sibling_now program user b))"

definition refunded_now :: "program_row \<Rightarrow> int \<Rightarrow> books \<Rightarrow> int" where
  "refunded_now program user b =
     (case (refund_item program b, default_payable_account b) of
        (Inr (Some l), Inr a) \<Rightarrow>
          sum_amounts (filter (\<lambda>t. tf_item t = lit_id l \<and> tf_source t = Some (ac_id a) \<and> tf_destination t = None)
            (transfers_of user b))
      | _ \<Rightarrow> 0)"

definition due_now :: "program_row \<Rightarrow> int \<Rightarrow> books \<Rightarrow> int" where
  "due_now program user b =
     requested_now program user False b - aid_now program user b - sibling_now program user b -
     amount_paid program user b + refunded_now program user b"

lemma settled_ensure: "settled program user b \<Longrightarrow> ensure_required_transfers program user b = Inr b"
  by (auto simp: settled_def intro: ensure_idle)

lemma settled_amounts:
  assumes "settled program user b"
  shows "amount_requested program user er fo b = Inr (requested_now program user fo b, b)"
    and "amount_siblingdiscount program user b = Inr (sibling_now program user b, b)"
    and "amount_finaid program user None b = Inr (aid_now program user b, b)"
    and "amount_finaid program user (Some (sibling_now program user b)) b = Inr (aid_now program user b, b)"
    and "amount_refunded program user b = Inr (refunded_now program user b, b)"
    and "amount_due program user b = Inr (due_now program user b, b)"
proof -
  show req: "amount_requested program user er fo b = Inr (requested_now program user fo b, b)" for er fo
    using settled_ensure [OF assms] by (simp add: amount_requested_def requested_transfers_def requested_now_def)
  show sib: "amount_siblingdiscount program user b = Inr (sibling_now program user b, b)"
    using assms
    by (auto simp: settled_def amount_siblingdiscount_def splash_for_user_def splash_of_def sibling_now_def
        split: option.splits)
  show aid: "amount_finaid program user None b = Inr (aid_now program user b, b)"
    and aid': "amount_finaid program user (Some (sibling_now program user b)) b = Inr (aid_now program user b, b)"
    by (simp_all add: amount_finaid_def req sib aid_now_def)
  show ref: "amount_refunded program user b = Inr (refunded_now program user b, b)"
    using assms
    by (auto simp: settled_def amount_refunded_def default_refund_lineitemtype_def item_with_text_def
        get_or_create_item_def refund_item_def refunded_now_def)
  show "amount_due program user b = Inr (due_now program user b, b)"
    by (simp add: amount_due_def req sib aid' ref due_now_def)
qed

subsection \<open>Books that differ only in links\<close>

abbreviation relinked_row :: "transfer \<Rightarrow> transfer \<Rightarrow> bool" where
  "relinked_row \<equiv> \<lambda>t t'. \<exists>s i. t' = t\<lparr>tf_transaction := s, tf_paid_in := i\<rparr> \<and> (tf_paid_in t \<noteq> None \<longrightarrow> i \<noteq> None)"

definition relinked :: "books \<Rightarrow> books \<Rightarrow> bool" where
  "relinked b c \<longleftrightarrow> only_transfers b c \<and>
     list_all2 relinked_row (bk_transfers b) (bk_transfers c)"


lemma relinked_row_refl: "relinked_row t t"
  by (intro exI [of _ "tf_transaction t"] exI [of _ "tf_paid_in t"]) simp

lemma relinked_row_trans:
  assumes "relinked_row t u" and "relinked_row u v"
  shows "relinked_row t v"
proof -
  from assms obtain s i s' i' where "u = t\<lparr>tf_transaction := s, tf_paid_in := i\<rparr>" "tf_paid_in t \<noteq> None \<longrightarrow> i \<noteq> None"
    "v = u\<lparr>tf_transaction := s', tf_paid_in := i'\<rparr>" "tf_paid_in u \<noteq> None \<longrightarrow> i' \<noteq> None"
    by blast
  then show ?thesis by (intro exI [of _ s'] exI [of _ i']) simp
qed

lemma relinked_refl: "relinked b b"
  unfolding relinked_def list_all2_same using relinked_row_refl by simp

lemma relinked_trans:
  assumes "relinked a b" and "relinked b c"
  shows "relinked a c"
  unfolding relinked_def
proof
  show "only_transfers a c" using assms only_transfers_trans by (auto simp: relinked_def)
  show "list_all2 relinked_row (bk_transfers a) (bk_transfers c)"
  proof (rule list_all2_trans)
    show "list_all2 relinked_row (bk_transfers a) (bk_transfers b)" "list_all2 relinked_row (bk_transfers b) (bk_transfers c)"
      using assms by (simp_all add: relinked_def)
  qed (rule relinked_row_trans)
qed

lemma relinked_overwrite:
  assumes "sound b" and "t \<in> set (bk_transfers b)" and "tf_paid_in t \<noteq> None \<longrightarrow> i \<noteq> None"
  shows "relinked b (overwrite (t\<lparr>tf_transaction := s, tf_paid_in := i\<rparr>) b)"
proof -
  let ?t = "t\<lparr>tf_transaction := s, tf_paid_in := i\<rparr>"
  have "relinked_row r (if tf_id r = tf_id t then ?t else r)" if "r \<in> set (bk_transfers b)" for r
  proof (cases "tf_id r = tf_id t")
    case True
    then have "r = t" using sound_same_id [OF assms(1) that assms(2)] by simp
    then show ?thesis using assms(3) by auto
  next
    case False
    then show ?thesis using relinked_row_refl by simp
  qed
  then show ?thesis by (simp add: relinked_def overwrite_def only_transfers_def list.rel_map list_all2_same)
qed

lemma relinked_link:
  "sound b \<Longrightarrow> t \<in> set (bk_transfers b) \<Longrightarrow> relinked b (overwrite (t\<lparr>tf_paid_in := Some i\<rparr>) b)"
  using relinked_overwrite [of b t "Some i" "tf_transaction t"] by simp

lemma relinked_filter:
  assumes "list_all2 relinked_row ts us"
    and "\<And>t s i. P (t\<lparr>tf_transaction := s, tf_paid_in := i\<rparr>) = P t"
  shows "list_all2 relinked_row (filter P ts) (filter P us)"
  using assms(1) by (induction rule: list_all2_induct) (auto simp: assms(2))

lemma relinked_sum:
  assumes "relinked b c" and "\<And>t s i. P (t\<lparr>tf_transaction := s, tf_paid_in := i\<rparr>) = P t"
  shows "sum_amounts (filter P (bk_transfers c)) = sum_amounts (filter P (bk_transfers b))"
proof -
  have "sum_amounts us = sum_amounts ts"
    if "list_all2 relinked_row ts us" for ts us
    using that by (induction rule: list_all2_induct) auto
  then show ?thesis using relinked_filter [OF _ assms(2)] assms(1) by (simp add: relinked_def)
qed

lemma relinked_existing:
  assumes "relinked b c"
  shows "rel_option relinked_row
    (existing_transfer user l b) (existing_transfer user l c)"
proof -
  have "rel_option relinked_row (find (\<lambda>t. tf_item t = lit_id l) ts) (find (\<lambda>t. tf_item t = lit_id l) us)"
    if "list_all2 relinked_row ts us" for ts us
    using that by (induction rule: list_all2_induct) auto
  moreover have "list_all2 relinked_row (rev (transfers_of user b)) (rev (transfers_of user c))"
    using relinked_filter [of "bk_transfers b" "bk_transfers c" "\<lambda>t. tf_user t = Some user"] assms
    by (simp add: relinked_def transfers_of_def list_all2_rev)
  ultimately show ?thesis unfolding existing_transfer_def by blast
qed

lemma relinked_met: "relinked b c \<Longrightarrow> requirement_met user b l \<Longrightarrow> requirement_met user c l"
  using relinked_existing [of b c user l]
  by (auto simp: requirement_met_def option.rel_sel split: option.splits)

lemma filter_transfers_of: "filter P (transfers_of user b) = filter (\<lambda>t. tf_user t = Some user \<and> P t) (bk_transfers b)"
  by (simp add: transfers_of_def conj_commute)

lemma relinked_sum_of:
  assumes "relinked b c" and "\<And>t s i. P (t\<lparr>tf_transaction := s, tf_paid_in := i\<rparr>) = P t"
  shows "sum_amounts (filter P (transfers_of user c)) = sum_amounts (filter P (transfers_of user b))"
  unfolding filter_transfers_of by (rule relinked_sum [OF assms(1)]) (simp add: assms(2))

lemma only_transfers_settings:
  assumes "only_transfers b c"
  shows "splash_of program user c = splash_of program user b" "refund_item program c = refund_item program b"
    "default_payable_account c = default_payable_account b"
  using only_transfers_tables [OF assms] by (simp_all add: splash_of_def refund_item_def default_payable_account_def)

lemma relinked_amounts:
  assumes "relinked b c"
  shows "requested_now program user fo c = requested_now program user fo b"
    and "sibling_now program user c = sibling_now program user b"
    and "aid_now program user c = aid_now program user b"
    and "amount_paid program user c = amount_paid program user b"
    and "refunded_now program user c = refunded_now program user b"
    and "due_now program user c = due_now program user b"
proof -
  have ot: "only_transfers b c" using assms by (simp add: relinked_def)
  have "item_satisfies b p (t\<lparr>tf_transaction := s, tf_paid_in := i\<rparr>) = item_satisfies b p t" for p t s i
    by (simp add: item_satisfies_def item_of_def)
  then show 1: "requested_now program user fo c = requested_now program user fo b" for fo
    unfolding requested_now_def only_transfers_cong [OF ot] by (intro relinked_sum_of [OF assms]) simp
  show 2: "sibling_now program user c = sibling_now program user b"
    by (simp add: sibling_now_def only_transfers_settings [OF ot])
  show 3: "aid_now program user c = aid_now program user b"
    by (simp add: aid_now_def 1 2 only_transfers_cong [OF ot] split: option.split)
  show 4: "amount_paid program user c = amount_paid program user b"
    unfolding amount_paid_def only_transfers_cong [OF ot]
    by (intro relinked_sum_of [OF assms]) (simp add: has_item_def)
  show 5: "refunded_now program user c = refunded_now program user b"
    unfolding refunded_now_def only_transfers_settings [OF ot]
    by (auto intro!: relinked_sum_of [OF assms] split: sum.splits option.splits)
  show "due_now program user c = due_now program user b" by (simp add: due_now_def 1 2 3 4 5)
qed

lemma relinked_settled: "relinked b c \<Longrightarrow> settled program user b \<Longrightarrow> settled program user c"
  using relinked_met only_transfers_cong [of b c] only_transfers_settings [of b c]
  by (auto simp: settled_def relinked_def)

lemma link_loop_relinked:
  assumes "link_loop p target acc ts b = Inr (r, c)" and "sound b" and "set ts \<subseteq> set (bk_transfers b)"
    and "distinct (map tf_id ts)" and "p \<in> transfer_ids b"
  shows "relinked b c"
  using assms
proof (induction ts arbitrary: acc b)
  case (Cons t ts)
  let ?acc = "float_add acc (float_of (dollars (tf_amount t)))"
  let ?t = "t\<lparr>tf_paid_in := Some p\<rparr>"
  from Cons.prems(1) obtain b1 where
    b1: "b1 = (if tf_paid_in t = None then overwrite ?t b else b)" and
    rest: "b1 = c \<or> link_loop p target ?acc ts b1 = Inr (r, c)"
    by (auto simp: Let_def rbind_Inr_iff save_transfer_Inr split: if_splits)
  have s: "relinked b b1"
    using relinked_link [OF Cons.prems(2)] Cons.prems(3) relinked_refl by (simp add: b1)
  have "sound b1"
    using Cons.prems(2,3,5) sound_validD [OF Cons.prems(2), of t]
    by (auto simp: b1 valid_transfer_def transfer_ids_def intro!: sound_overwrite)
  moreover have "set ts \<subseteq> set (bk_transfers b1)"
    using overwrite_set_keeps [OF Cons.prems(3,4), of ?t] Cons.prems(3) by (simp add: b1)
  moreover have "p \<in> transfer_ids b1" using Cons.prems(5) by (simp add: b1 overwrite_ids)
  ultimately have "relinked b1 c" using rest Cons.IH [of ?acc b1] Cons.prems(4) relinked_refl by auto
  with s show ?case by (rule relinked_trans)
qed (simp add: relinked_refl)

subsection \<open>A new transfer\<close>

lemma transfers_of_enter:
  "transfers_of user (enter t b) =
     transfers_of user b @ (if tf_user t = Some user then [t\<lparr>tf_id := bk_next b\<rparr>] else [])"
  by (simp add: transfers_of_def enter_def)

lemma balance_enter:
  "balance a (enter t b) = balance a b + (if tf_destination t = Some (ac_id a) then tf_amount t else 0) -
     (if tf_source t = Some (ac_id a) then tf_amount t else 0)"
  by (simp add: balance_sum enter_def)

lemma item_satisfies_id [simp]: "item_satisfies b p (t\<lparr>tf_id := i\<rparr>) = item_satisfies b p t"
  by (simp add: item_satisfies_def item_of_def)

lemma amounts_enter:
  shows "requested_now program user fo (enter t b) = requested_now program user fo b +
      (if tf_user t = Some user \<and> tf_destination t = account_id (default_program_account program b) \<and>
         (fo \<longrightarrow> item_satisfies b lit_for_finaid t) then tf_amount t else 0)"
    and "amount_paid program user (enter t b) = amount_paid program user b +
      (if tf_user t = Some user \<and> has_item (default_payments_lineitemtype program b) t \<and> tf_source t = None
       then tf_amount t else 0)"
    and "sibling_now program user (enter t b) = sibling_now program user b"
    and "latest_finaid_grant program user (enter t b) = latest_finaid_grant program user b"
  unfolding requested_now_def amount_paid_def sibling_now_def only_transfers_cong [OF only_transfers_enter]
    only_transfers_settings [OF only_transfers_enter] transfers_of_enter
  by (auto simp: has_item_def)

lemma aid_enter:
  "requested_now program user True (enter t b) = requested_now program user True b \<Longrightarrow>
   aid_now program user (enter t b) = aid_now program user b"
  by (simp add: aid_now_def amounts_enter(3,4) split: option.split)

lemma refunded_enter:
  assumes "refund_item program b = Inr (Some l)" and "default_payable_account b = Inr a"
  shows "refunded_now program user (enter t b) = refunded_now program user b +
    (if tf_user t = Some user \<and> tf_item t = lit_id l \<and> tf_source t = Some (ac_id a) \<and> tf_destination t = None
     then tf_amount t else 0)"
  unfolding refunded_now_def only_transfers_settings [OF only_transfers_enter] transfers_of_enter
  using assms by auto

lemma settled_enter:
  assumes "settled program user b" and "tf_item t \<notin> lit_id ` set (required_items program b)"
  shows "settled program user (enter t b)"
proof -
  have "requirement_met user (enter t b) l" if "l \<in> set (required_items program b)" for l
    using assms that by (auto simp: settled_def requirement_met_def existing_enter)
  moreover have "default_payable_account (enter t b) = default_payable_account b"
    "required_items program (enter t b) = required_items program b"
    by (simp_all add: only_transfers_settings [OF only_transfers_enter] only_transfers_cong [OF only_transfers_enter])
  ultimately show ?thesis
    using assms(1) by (simp add: settled_def only_transfers_cong [OF only_transfers_enter]
      only_transfers_settings [OF only_transfers_enter])
qed

subsection \<open>The account of the program\<close>

definition own_account :: "program_row \<Rightarrow> books \<Rightarrow> bool" where
  "own_account program b \<longleftrightarrow>
     (case default_program_account program b of
        None \<Rightarrow> False
      | Some a \<Rightarrow> ac_name a \<notin> {''receivable'', ''payable'', ''grants''})"

lemma own_account_other:
  assumes "sound b" and "own_account program b"
  shows "default_source_account b = Inr a \<Longrightarrow> account_id (default_program_account program b) \<noteq> Some (ac_id a)"
    and "default_payable_account b = Inr a \<Longrightarrow> account_id (default_program_account program b) \<noteq> Some (ac_id a)"
    and "account_id (default_program_account program b) \<noteq> None"
proof -
  obtain p where p: "default_program_account program b = Some p" "ac_name p \<notin> {''receivable'', ''payable'', ''grants''}"
    using assms(2) by (auto simp: own_account_def split: option.splits)
  have "p \<in> set (bk_accounts b)" using p(1) by (auto simp: default_program_account_def dest: greatest_by_in)
  then have "a \<in> set (bk_accounts b) \<Longrightarrow> ac_name a \<noteq> ac_name p \<Longrightarrow> ac_id p \<noteq> ac_id a"
    using assms(1) by (auto simp: sound_def sound_accounts_def distinct_map inj_on_def)
  then show "default_source_account b = Inr a \<Longrightarrow> account_id (default_program_account program b) \<noteq> Some (ac_id a)"
    and "default_payable_account b = Inr a \<Longrightarrow> account_id (default_program_account program b) \<noteq> Some (ac_id a)"
    using p by (auto simp: account_id_def default_source_account_def default_payable_account_def dest!: get_row_in)
  show "account_id (default_program_account program b) \<noteq> None" using p by (simp add: account_id_def)
qed

lemma own_account_kept: "tables_kept b c \<Longrightarrow> own_account program c = own_account program b"
  by (simp add: own_account_def default_program_account_def tables_kept_def)

lemma own_account_only: "only_transfers b c \<Longrightarrow> own_account program c = own_account program b"
  by (simp add: own_account_def only_transfers_cong)

lemma same_item: "sound b \<Longrightarrow> l \<in> set (bk_items b) \<Longrightarrow> l' \<in> set (bk_items b) \<Longrightarrow> lit_id l = lit_id l' \<Longrightarrow> l = l'"
  by (auto simp: sound_def sound_items_def distinct_map inj_on_def)

lemma required_itemD:
  assumes "l \<in> set (required_items program b)"
  shows "l \<in> set (bk_items b)" "\<not> lit_for_payments l" "lit_text l \<notin> set finaid_items" "lit_text l \<notin> set refund_items"
    "lit_program l = pr_id program" "lit_required l"
  using lineitemtypes_in lineitemtypes_Q_in assms
  by (fastforce simp: required_items_def lineitemtypes_Q_def every_item_def)+

lemma not_required:
  assumes "sound b" and "l \<in> set (bk_items b)"
    and "lit_for_payments l \<or> lit_text l \<in> set finaid_items \<or> lit_text l \<in> set refund_items"
  shows "lit_id l \<notin> lit_id ` set (required_items program b)"
proof
  assume "lit_id l \<in> lit_id ` set (required_items program b)"
  then obtain l' where l': "l' \<in> set (required_items program b)" "lit_id l = lit_id l'" by auto
  then have "l = l'" using same_item [OF assms(1,2) required_itemD(1) [OF l'(1)]] by simp
  then show False using required_itemD(2-4) [OF l'(1)] assms(3) by blast
qed

lemma payments_for: "default_payments_lineitemtype program b = Some l \<Longrightarrow> lit_for_payments l"
  by (auto simp: default_payments_lineitemtype_def dest!: greatest_by_in)

subsection \<open>Payments and refunds\<close>

lemma payment_entered:
  assumes "create_payment program user amount tid b = Inr (p, c)" and "sound b" and "settled program user b"
    and "own_account program b"
  shows "settled program user c" and "due_now program user c = due_now program user b - as_cents amount"
    and "sound c" and "own_account program c"
proof -
  from assms(1) obtain target l where target: "default_source_account b = Inr target"
    and l: "default_payments_lineitemtype program b = Some l"
    and p: "p = \<lparr>tf_id = bk_next b, tf_source = None, tf_destination = Some (ac_id target), tf_user = Some user,
      tf_item = lit_id l, tf_option = None, tf_amount = as_cents amount, tf_transaction = tid, tf_paid_in = None\<rparr>"
    and c: "c = enter p b"
    by (auto simp: create_payment_def rbind_Inr_iff transfer_for_Inr create_transfer_Inr enter_def)
  have "lit_id l \<notin> lit_id ` set (required_items program b)"
    using payments_for [OF l] by (intro not_required assms(2) payments_in [OF l]) simp
  then show "settled program user c" unfolding c by (intro settled_enter assms(3)) (simp add: p)
  have other: "tf_destination p \<noteq> account_id (default_program_account program b)"
    using own_account_other(1) [OF assms(2,4) target] by (simp add: p)
  have requested: "requested_now program user fo c = requested_now program user fo b" for fo
    using other by (simp add: c amounts_enter)
  have paid: "amount_paid program user c = amount_paid program user b + as_cents amount"
    by (simp add: c amounts_enter p has_item_def l)
  obtain r a where "refund_item program b = Inr (Some r)" "default_payable_account b = Inr a"
    using assms(3) by (auto simp: settled_def)
  then have "refunded_now program user c = refunded_now program user b"
    using refunded_enter [of program b r a user p] by (simp add: c p)
  moreover have "aid_now program user c = aid_now program user b"
    using requested [of True] unfolding c by (rule aid_enter)
  moreover have "sibling_now program user c = sibling_now program user b" by (simp add: c amounts_enter(3))
  ultimately show "due_now program user c = due_now program user b - as_cents amount"
    using requested paid by (simp add: due_now_def)
  show "sound c" using create_payment_effect(1) [OF assms(1)] steps_sound assms(2) by blast
  show "own_account program c" using own_account_only [of b c] assms(4) by (simp add: c)
qed

lemma link_paid_settled:
  assumes "link_paid_transfers program user payment b = Inr c" and "sound b" and "has_payment (tf_id payment) b"
    and "settled program user b"
  shows "relinked b c"
proof -
  from assms(1) obtain target r where
    "link_loop (tf_id payment) target 0 (linkable program user b) b = Inr (r, c)"
    by (auto simp: link_paid_transfers_def Let_def rbind_Inr_iff settled_amounts [OF assms(4)] split: if_splits)
  then show ?thesis
    using link_loop_relinked linkable_props [OF assms(2)] assms(2) has_payment_id [OF assms(3)] by blast
qed

lemma payment_lowers_due:
  assumes "submit_payment program user amount tid link b = Inr (p, c)" and "sound b" and "settled program user b"
    and "own_account program b"
  shows "amount_due program user c = Inr (due_now program user b - as_cents amount, c)"
    and "settled program user c"
proof -
  from assms(1) obtain b' where 1: "create_payment program user amount tid b = Inr (p, b')"
    and 2: "if link then link_paid_transfers program user p b' = Inr c else c = b'"
    by (auto simp: submit_payment_def rbind_Inr_iff split: if_splits)
  note e = payment_entered [OF 1 assms(2-4)]
  have "relinked b' c"
    using 2 link_paid_settled [OF _ e(3) create_payment_effect(2) [OF 1] e(1)] relinked_refl by (auto split: if_splits)
  then have "settled program user c \<and> due_now program user c = due_now program user b - as_cents amount"
    using relinked_settled relinked_amounts(6) e(1,2) by simp
  then show "settled program user c" and "amount_due program user c = Inr (due_now program user b - as_cents amount, c)"
    using settled_amounts(6) by simp_all
qed

lemma refund_raises_due:
  assumes "record_refund program user amount tid b = Inr (r, c)" and "sound b" and "settled program user b"
    and "own_account program b"
  shows "amount_due program user c = Inr (due_now program user b + as_cents amount, c)"
    and "default_payable_account b = Inr a \<Longrightarrow> balance a c = balance a b"
    and "default_program_account program b = Some q \<Longrightarrow> balance q c = balance q b - as_cents amount"
    and "to_outside c = to_outside b + as_cents amount"
proof -
  obtain outgoing internal where r: "r = (outgoing, internal)" by (cases r)
  obtain l a0 where l: "refund_item program b = Inr (Some l)" and a0: "default_payable_account b = Inr a0"
    using assms(3) by (auto simp: settled_def)
  have "default_refund_lineitemtype program b = Inr (l, b)"
    using l by (simp add: default_refund_lineitemtype_def item_with_text_def get_or_create_item_def refund_item_def)
  with record_refund_effect [OF assms(1) [unfolded r]] a0 have
    out: "outgoing = \<lparr>tf_id = bk_next b, tf_source = Some (ac_id a0), tf_destination = None, tf_user = Some user,
      tf_item = lit_id l, tf_option = None, tf_amount = as_cents amount, tf_transaction = tid, tf_paid_in = None\<rparr>" and
    int: "internal = \<lparr>tf_id = bk_next b + 1, tf_source = account_id (default_program_account program b),
      tf_destination = Some (ac_id a0), tf_user = Some user,
      tf_item = lit_id l, tf_option = None, tf_amount = as_cents amount, tf_transaction = tid, tf_paid_in = None\<rparr>" and
    c: "c = enter internal (enter outgoing b)"
    by (metis Inr_inject prod.inject)+
  note own = own_account_other [OF assms(2,4)]
  have l_in: "l \<in> set (bk_items b)" "lit_text l = ''Student refund''"
    using l by (auto simp: refund_item_def dest!: fetch_Some)
  then have fresh: "lit_id l \<notin> lit_id ` set (required_items program b)"
    by (intro not_required assms(2)) simp_all
  let ?m = "enter outgoing b"
  have m: "only_transfers b ?m" by simp
  have settled1: "settled program user ?m" using settled_enter [OF assms(3)] fresh by (simp add: out)
  have settled2: "settled program user c"
    unfolding c using settled_enter [OF settled1, of internal] fresh
    by (simp add: only_transfers_cong [OF m]) (simp add: int)
  have "requested_now program user fo ?m = requested_now program user fo b" for fo
    using own(3) by (simp add: amounts_enter(1)) (auto simp: out)
  then have 1: "due_now program user ?m = due_now program user b + as_cents amount"
    using refunded_enter [OF l a0, of user outgoing] aid_enter [of program user outgoing b]
    by (simp add: due_now_def amounts_enter(2,3)) (simp add: out)
  have l': "refund_item program ?m = Inr (Some l)" "default_payable_account ?m = Inr a0"
    using l a0 by (simp_all add: only_transfers_settings [OF m])
  have "requested_now program user fo c = requested_now program user fo ?m" for fo
    using own(2) [OF a0] by (simp add: c amounts_enter(1) only_transfers_cong [OF m]) (simp add: int)
  then have 2: "due_now program user c = due_now program user ?m"
    using refunded_enter [OF l', of user internal] aid_enter [of program user internal ?m] own(3)
    by (simp add: c due_now_def amounts_enter(2,3)) (auto simp: int)
  show "amount_due program user c = Inr (due_now program user b + as_cents amount, c)"
    using settled_amounts(6) [OF settled2] 1 2 by simp
  show "balance a c = balance a b" if "default_payable_account b = Inr a"
    using a0 that own(2) [OF a0] by (simp add: c balance_enter) (auto simp: out int)
  show "balance q c = balance q b - as_cents amount" if "default_program_account program b = Some q"
    using own(2) [OF a0] that by (simp add: c balance_enter) (auto simp: out int account_id_def)
  show "to_outside c = to_outside b + as_cents amount"
    by (simp add: c to_outside_def enter_def) (simp add: out int)
qed

subsection \<open>Books become settled\<close>

lemma find_filter: "(\<And>x. p x \<Longrightarrow> q x) \<Longrightarrow> find p (filter q xs) = find p xs"
  by (induction xs) auto

lemma existing_filter:
  assumes "\<And>t. gone t \<Longrightarrow> tf_item t \<noteq> lit_id l"
  shows "existing_transfer user l (b\<lparr>bk_transfers := filter (\<lambda>t. \<not> gone t) (bk_transfers b)\<rparr>) = existing_transfer user l b"
proof -
  have "find (\<lambda>t. tf_item t = lit_id l) (rev (filter (\<lambda>t. tf_user t = Some user) (filter (\<lambda>t. \<not> gone t) ts))) =
      find (\<lambda>t. tf_item t = lit_id l) (rev (filter (\<lambda>t. tf_user t = Some user) ts))" for ts
    using assms find_filter [of "\<lambda>t. tf_item t = lit_id l" "\<lambda>t. \<not> gone t" "rev (filter (\<lambda>t. tf_user t = Some user) ts)"]
    by (simp add: rev_filter conj_commute) metis
  then show ?thesis by (simp add: existing_transfer_def transfers_of_def)
qed

definition discount_transfer :: "program_row \<Rightarrow> int \<Rightarrow> account \<Rightarrow> account \<Rightarrow> books \<Rightarrow> transfer \<Rightarrow> bool" where
  "discount_transfer program user source dest b t \<longleftrightarrow>
     tf_source t = Some (ac_id source) \<and> tf_destination t = Some (ac_id dest) \<and> tf_user t = Some user \<and>
     has_item (default_siblingdiscount_lineitemtype program b) t"

lemma execute_without_discount:
  assumes "execute_sibling_discount program s b = Inr (r, c)" and "\<not> spi_siblingdiscount s"
  shows "\<exists>source dest. default_finaid_account b = Inr source \<and> default_source_account b = Inr dest \<and>
    c = b\<lparr>bk_transfers :=
      filter (\<lambda>t. \<not> discount_transfer program (spi_student s) source dest b t) (bk_transfers b)\<rparr>"
  using assms
  by (auto simp: execute_sibling_discount_def Let_def rbind_Inr_iff delete_transfers_Inr discount_transfer_def)

text \<open>
  What the first look at the sibling information changes: a row for the user, and transfers of a discount that
  does not apply.
\<close>

lemma splash_effect:
  assumes "splash_for_user program user b = Inr (s, c)" and "sound b" and "own_account program b"
    and "\<forall>l\<in>set (required_items program b). requirement_met user b l"
  shows "splash_of program user c = Some s"
    and "\<forall>l\<in>set (required_items program c). requirement_met user c l"
    and "requested_now program user fo c = requested_now program user fo b"
proof -
  have "splash_of program user c = Some s \<and> (\<forall>l\<in>set (required_items program c). requirement_met user c l) \<and>
    requested_now program user fo c = requested_now program user fo b"
  proof (cases "splash_of program user b")
    case (Some s')
    then have "s' = s" "c = b" using assms(1) by (auto simp: splash_for_user_def splash_of_def)
    with Some assms(4) show ?thesis by simp
  next
    case None
    let ?n = "\<lparr>spi_id = bk_next b, spi_student = user, spi_program = pr_id program, spi_siblingdiscount = False\<rparr>"
    let ?b = "b\<lparr>bk_splash := bk_splash b @ [?n], bk_next := bk_next b + 1\<rparr>"
    let ?item = "default_siblingdiscount_lineitemtype program b"
    from assms(1) None obtain r where s: "s = ?n" and exec: "execute_sibling_discount program ?n ?b = Inr (r, c)"
      by (auto simp: splash_for_user_def splash_of_def Let_def rbind_Inr_iff)
    from execute_without_discount [OF exec] obtain source dest where dest: "default_source_account ?b = Inr dest" and
      c: "c = ?b\<lparr>bk_transfers := filter (\<lambda>t. \<not> discount_transfer program user source dest ?b t) (bk_transfers ?b)\<rparr>"
      by auto
    let ?gone = "discount_transfer program user source dest ?b"
    have dest': "default_source_account b = Inr dest" using dest by (simp add: default_source_account_def)
    have c': "bk_items c = bk_items b" "bk_accounts c = bk_accounts b" "bk_collation c = bk_collation b"
      "bk_transfers c = filter (\<lambda>t. \<not> ?gone t) (bk_transfers b)"
      by (simp_all add: c)
    have items: "required_items program c = required_items program b"
      "default_program_account program c = default_program_account program b"
      "item_satisfies c p t = item_satisfies b p t" for p t
      using c' by (simp_all add: required_items_def get_lineitemtypes_def default_program_account_def
        item_satisfies_def item_of_def)
    have not_required: "tf_item t \<noteq> lit_id l" if gone: "?gone t" and l: "l \<in> set (required_items program b)" for t l
    proof -
      obtain d where d: "?item = Some d" "tf_item t = lit_id d"
        using gone by (auto simp: discount_transfer_def has_item_def latest_with_text_def)
      have "d \<in> set (bk_items b)" "lit_text d = ''Sibling discount''"
        using d(1) by (auto simp: latest_with_text_def dest!: greatest_by_in)
      then show ?thesis using not_required [OF assms(2)] l d(2) by auto
    qed
    have "existing_transfer user l c = existing_transfer user l b" if "l \<in> set (required_items program b)" for l
      using existing_filter [of ?gone l user b] not_required [OF _ that]
      by (simp add: existing_transfer_def transfers_of_def c'(4))
    then have "\<forall>l\<in>set (required_items program c). requirement_met user c l"
      using assms(4) items(1) by (simp add: requirement_met_def)
    moreover have "requested_now program user fo c = requested_now program user fo b"
      using own_account_other(1) [OF assms(2,3) dest']
      by (auto simp: requested_now_def transfers_of_def c'(4) items discount_transfer_def
          intro!: arg_cong [where f = sum_amounts] filter_cong)
    moreover have "splash_of program user c = Some s" using None by (simp add: c s splash_of_def find_append)
    ultimately show ?thesis by blast
  qed
  then show "splash_of program user c = Some s"
    and "\<forall>l\<in>set (required_items program c). requirement_met user c l"
    and "requested_now program user fo c = requested_now program user fo b" by auto
qed

text \<open>The line item of refunds is no required item, and the default items stay the same.\<close>

lemma refund_item_effect:
  assumes "default_refund_lineitemtype program b = Inr (l, c)" and "sound b"
  shows "refund_item program c = Inr (Some l)" and "required_items program c = required_items program b"
    and "default_payments_lineitemtype program c = default_payments_lineitemtype program b"
    and "bk_accounts c = bk_accounts b" and "bk_grants c = bk_grants b" and "bk_requests c = bk_requests b"
    and "bk_splash c = bk_splash b" and "bk_transfers c = bk_transfers b"
    and "t \<in> set (bk_transfers b) \<Longrightarrow> item_satisfies c p t = item_satisfies b p t"
proof -
  let ?p = "\<lambda>l. lit_program l = pr_id program \<and> lit_text l = ''Student refund''"
  let ?l = "(new_item (pr_id program) ''Student refund'')\<lparr>lit_id := bk_next b\<rparr>"
  from assms(1) have "c = b \<and> fetch ?p (bk_items b) = Inr (Some l) \<or>
      c = b\<lparr>bk_items := bk_items b @ [?l], bk_next := bk_next b + 1\<rparr> \<and> l = ?l \<and> filter ?p (bk_items b) = []"
  proof (cases "fetch ?p (bk_items b)")
    case (Inr found)
    then show ?thesis
      using assms(1) fetch_None [of ?p "bk_items b"]
      by (cases found) (auto simp: default_refund_lineitemtype_def item_with_text_def get_or_create_item_def Let_def
        split: if_splits)
  qed (use assms in \<open>simp add: default_refund_lineitemtype_def item_with_text_def get_or_create_item_def\<close>)
  then have "refund_item program c = Inr (Some l) \<and> required_items program c = required_items program b \<and>
    default_payments_lineitemtype program c = default_payments_lineitemtype program b \<and>
    bk_accounts c = bk_accounts b \<and> bk_grants c = bk_grants b \<and> bk_requests c = bk_requests b \<and>
    bk_splash c = bk_splash b \<and> bk_transfers c = bk_transfers b \<and>
    (\<forall>p. \<forall>t\<in>set (bk_transfers b). item_satisfies c p t = item_satisfies b p t)"
  proof (elim disjE conjE)
    assume c: "c = b\<lparr>bk_items := bk_items b @ [?l], bk_next := bk_next b + 1\<rparr>" "l = ?l" "filter ?p (bk_items b) = []"
    have "item_satisfies c p t = item_satisfies b p t" if t: "t \<in> set (bk_transfers b)" for p t
    proof -
      have "tf_item t \<in> item_ids b" using sound_validD [OF assms(2) t] by (simp add: valid_transfer_def)
      then have "find (\<lambda>l. lit_id l = tf_item t) (bk_items b) \<noteq> None" by (auto simp: item_ids_def find_None_iff)
      then show ?thesis by (auto simp: c(1) item_satisfies_def item_of_def find_append split: option.splits)
    qed
    moreover have "refund_item program c = Inr (Some l)"
      using c(3) by (simp add: refund_item_def fetch_def c(1,2) new_item_def)
    moreover have "required_items program c = required_items program b"
      by (simp add: required_items_def get_lineitemtypes_def c(1) lineitemtypes_Q_def every_item_def new_item_def)
    ultimately show ?thesis
      by (simp add: c(1) default_payments_lineitemtype_def new_item_def)
  qed (simp add: refund_item_def)
  then show "refund_item program c = Inr (Some l)" and "required_items program c = required_items program b"
    and "default_payments_lineitemtype program c = default_payments_lineitemtype program b"
    and "bk_accounts c = bk_accounts b" and "bk_grants c = bk_grants b" and "bk_requests c = bk_requests b"
    and "bk_splash c = bk_splash b" and "bk_transfers c = bk_transfers b"
    and "t \<in> set (bk_transfers b) \<Longrightarrow> item_satisfies c p t = item_satisfies b p t" by auto
qed

lemma sibling_effect:
  assumes "amount_siblingdiscount program user b = Inr (s, c)" and "sound b" and "own_account program b"
    and "\<forall>l\<in>set (required_items program b). requirement_met user b l"
  shows "s = sibling_now program user c"
    and "pr_sibling_discount program = 0 \<or> splash_of program user c \<noteq> None"
    and "\<forall>l\<in>set (required_items program c). requirement_met user c l"
    and "requested_now program user fo c = requested_now program user fo b"
proof -
  have "s = sibling_now program user c \<and>
    (pr_sibling_discount program = 0 \<or> splash_of program user c \<noteq> None) \<and>
    (\<forall>l\<in>set (required_items program c). requirement_met user c l) \<and>
    requested_now program user fo c = requested_now program user fo b"
  proof (cases "pr_sibling_discount program = 0")
    case True
    then show ?thesis using assms(1,4) by (auto simp: amount_siblingdiscount_def sibling_now_def split: option.splits)
  next
    case False
    with assms(1) obtain sp where sp: "splash_for_user program user b = Inr (sp, c)"
      and s: "s = (if spi_siblingdiscount sp then pr_sibling_discount program else 0)"
      by (auto simp: amount_siblingdiscount_def rbind_Inr_iff)
    then show ?thesis using splash_effect [OF sp assms(2-4)] by (simp add: sibling_now_def)
  qed
  then show "s = sibling_now program user c"
    and "pr_sibling_discount program = 0 \<or> splash_of program user c \<noteq> None"
    and "\<forall>l\<in>set (required_items program c). requirement_met user c l"
    and "requested_now program user fo c = requested_now program user fo b" by auto
qed

lemma amount_requested_now:
  "ensure_required_transfers program user b = Inr c \<Longrightarrow>
   amount_requested program user True fo b = Inr (requested_now program user fo c, c)"
  by (simp add: amount_requested_def requested_transfers_def requested_now_def)

lemma amount_due_settles:
  assumes "amount_due program user b = Inr (d, c)" and "sound b" and "own_account program b"
  shows "settled program user c" and "d = due_now program user c"
proof -
  from assms(1) obtain b1 s b2 f b3 x where ensure: "ensure_required_transfers program user b = Inr b1"
    and sib: "amount_siblingdiscount program user b1 = Inr (s, b2)"
    and aid: "amount_finaid program user (Some s) b2 = Inr (f, b3)"
    and ref: "amount_refunded program user b3 = Inr (x, c)"
    and d: "d = requested_now program user False b1 - f - s - amount_paid program user b3 + x"
    by (auto simp: amount_due_def amount_requested_def requested_transfers_def requested_now_def rbind_Inr_iff)
  note s1 = ensure_effect [OF ensure assms(2)]
  have sound1: "sound b1" by (rule steps_sound [OF s1(1) assms(2)])
  have own1: "own_account program b1" using own_account_only [OF s1(2)] assms(3) by simp
  have met1: "\<forall>l\<in>set (required_items program b1). requirement_met user b1 l" using s1(3) by blast
  note s2 = sibling_effect [OF sib sound1 own1 met1]
  note steps2 = siblingdiscount_steps [OF sib]
  have sound2: "sound b2" by (rule steps_sound [OF steps2 sound1])
  obtain source where "default_source_account b = Inr source"
    using ensure by (auto simp: ensure_required_transfers_def rbind_Inr_iff)
  then have source: "default_source_account b2 = Inr source"
    using steps_tables [OF steps2 sound1] only_transfers_tables(2) [OF s1(2)]
    by (simp add: tables_kept_def default_source_account_def)
  have idle: "ensure_required_transfers program user b2 = Inr b2" using ensure_idle [OF source] s2(3) by blast
  have b3: "b3 = b2" "f = aid_now program user b2"
    using aid s2(1) by (auto simp: amount_finaid_def amount_requested_now [OF idle] aid_now_def)
  from ref obtain l a where l: "default_refund_lineitemtype program b2 = Inr (l, c)"
    and a: "default_payable_account c = Inr a"
    and x: "x = sum_amounts (filter (\<lambda>t. tf_item t = lit_id l \<and> tf_source t = Some (ac_id a) \<and> tf_destination t = None)
      (transfers_of user c))"
    by (auto simp: amount_refunded_def rbind_Inr_iff b3)
  note r = refund_item_effect [OF l sound2]
  have same: "existing_transfer user k c = existing_transfer user k b2" "transfers_of user c = transfers_of user b2" for k
    by (simp_all add: existing_transfer_def transfers_of_def r(8))
  have source_c: "default_source_account c = Inr source" using source by (simp add: default_source_account_def r(4))
  show "settled program user c"
    using s2(2,3) a r(1,2) source_c same(1)
    by (simp add: settled_def requirement_met_def splash_of_def r(7))
  have requested: "requested_now program user fo c = requested_now program user fo b2" for fo
    unfolding requested_now_def same(2) using r(9)
    by (auto simp: default_program_account_def r(4) transfers_of_def intro!: arg_cong [where f = sum_amounts] filter_cong)
  have sibling: "sibling_now program user c = s" using s2(1) by (simp add: sibling_now_def splash_of_def r(7))
  then have "aid_now program user c = f"
    using requested [of True] s2(1)
    by (simp add: b3(2) aid_now_def latest_finaid_grant_def grants_for_def [abs_def] r(5,6) split: option.split)
  moreover have "amount_paid program user c = amount_paid program user b2"
    by (simp add: amount_paid_def r(3) same(2))
  moreover have "refunded_now program user c = x" using r(1) a x by (simp add: refunded_now_def)
  ultimately show "d = due_now program user c"
    using requested [of False] sibling s2(4) [of False] by (simp add: due_now_def d b3(1))
qed

subsection \<open>Financial aid\<close>

lemma aid_bounds:
  assumes "0 \<le> cost" and "case gr_amount_max g of None \<Rightarrow> True | Some m \<Rightarrow> 0 \<le> m"
    and "case gr_percent g of None \<Rightarrow> True | Some p \<Rightarrow> 0 \<le> p \<and> p \<le> 100"
  shows "0 \<le> aid_amount g cost" and "aid_amount g cost \<le> cost"
proof -
  define aid where "aid = (case gr_amount_max g of None \<Rightarrow> 0 | Some m \<Rightarrow> if cost > m then m else cost)"
  define discount :: rat where
    "discount = (case gr_percent g of None \<Rightarrow> 0 | Some p \<Rightarrow> of_int p / 100 * of_int (cost - aid))"
  have aid: "0 \<le> aid" "aid \<le> cost" using assms(1,2) by (auto simp: aid_def split: option.splits)
  have "0 \<le> discount \<and> discount \<le> of_int (cost - aid)"
  proof (cases "gr_percent g")
    case (Some p)
    have "(of_int p / 100 :: rat) * of_int (cost - aid) \<le> 1 * of_int (cost - aid)"
      using assms(3) Some aid(2) by (intro mult_right_mono) simp_all
    then show ?thesis using assms(3) Some aid(2) by (simp add: discount_def)
  qed (use aid in \<open>simp add: discount_def\<close>)
  then have bounds: "(of_int 0 :: rat) \<le> of_int aid + discount" "of_int aid + discount \<le> of_int cost" using aid by simp_all
  have rounded: "aid_amount g cost = round_half_up (of_int aid + discount)"
    unfolding aid_amount_def Let_def aid_def discount_def by (rule refl)
  show "0 \<le> aid_amount g cost" using round_half_up_mono [OF bounds(1)] by (simp only: rounded round_half_up_int)
  show "aid_amount g cost \<le> cost" using round_half_up_mono [OF bounds(2)] by (simp only: rounded round_half_up_int)
qed

text \<open>A sibling discount above the cost that is covered makes the remaining cost negative, and the aid too.\<close>

lemma aid_bounds_negative:
  assumes "cost < 0" and "case gr_amount_max g of None \<Rightarrow> True | Some m \<Rightarrow> 0 \<le> m"
    and "case gr_percent g of None \<Rightarrow> True | Some p \<Rightarrow> 0 \<le> p \<and> p \<le> 100"
  shows "cost \<le> aid_amount g cost" and "aid_amount g cost \<le> 0"
proof -
  define aid where "aid = (case gr_amount_max g of None \<Rightarrow> 0 | Some m \<Rightarrow> if cost > m then m else cost)"
  define discount :: rat where
    "discount = (case gr_percent g of None \<Rightarrow> 0 | Some p \<Rightarrow> of_int p / 100 * of_int (cost - aid))"
  have aid: "aid \<le> 0" "cost \<le> aid" using assms(1,2) by (auto simp: aid_def split: option.splits)
  have "of_int (cost - aid) \<le> discount \<and> discount \<le> 0"
  proof (cases "gr_percent g")
    case (Some p)
    have "1 * of_int (cost - aid) \<le> (of_int p / 100 :: rat) * of_int (cost - aid)"
      using assms(3) Some aid(2) by (intro mult_right_mono_neg) simp_all
    moreover have "(of_int p / 100 :: rat) * of_int (cost - aid) \<le> 0"
      using assms(3) Some aid(2) by (intro mult_nonneg_nonpos) simp_all
    ultimately show ?thesis using Some by (simp add: discount_def)
  qed (use aid in \<open>simp add: discount_def\<close>)
  then have bounds: "(of_int cost :: rat) \<le> of_int aid + discount" "of_int aid + discount \<le> of_int 0" using aid by simp_all
  have rounded: "aid_amount g cost = round_half_up (of_int aid + discount)"
    unfolding aid_amount_def Let_def aid_def discount_def by (rule refl)
  show "cost \<le> aid_amount g cost" using round_half_up_mono [OF bounds(1)] by (simp only: rounded round_half_up_int)
  show "aid_amount g cost \<le> 0" using round_half_up_mono [OF bounds(2)] by (simp only: rounded round_half_up_int)
qed

lemma full_aid: "gr_percent g = Some 100 \<Longrightarrow> aid_amount g cost = cost"
proof -
  assume g: "gr_percent g = Some 100"
  define aid where "aid = (case gr_amount_max g of None \<Rightarrow> 0 | Some m \<Rightarrow> if cost > m then m else cost)"
  have "aid_amount g cost = round_half_up (of_int aid + of_int 100 / 100 * of_int (cost - aid))"
    by (simp add: aid_amount_def Let_def aid_def g)
  also have "(of_int aid + of_int 100 / 100 * of_int (cost - aid) :: rat) = of_int cost" by simp
  finally show ?thesis by (simp only: round_half_up_int)
qed


end
