(* ===== verification/Preferences.thy ===== *)
theory Preferences
  imports Amounts
begin

section \<open>Preferences for optional items\<close>

text \<open>
  What is left of a list of preferences is a plain function of it (\<open>asked\<close>): each preference removes every earlier one
  it matches, one without a cost or an option matching more, and asks for as many as its quantity, at the cost given or
  else that of its option or item. \<open>apply_preferences_result\<close>: after \<open>apply_preferences\<close> the optional transfers of the user
  are those, and all other transfers are as before; where nothing is removed (\<open>undisturbed\<close>) they are all that it
  entered. \<open>preferences_roundtrip\<close>: \<open>get_preferences\<close> reads them back, counted.
\<close>

subsection \<open>One preference\<close>

text \<open>What a preference asks for: the name, the cost and the option.\<close>

definition preference_key :: "books \<Rightarrow> transfer \<Rightarrow> string \<times> int \<times> int option" where
  "preference_key b t = (case item_of b t of None \<Rightarrow> [] | Some l \<Rightarrow> lit_text l, tf_amount t, tf_option t)"

lemma create_copies_effect:
  assumes "create_copies n t b = Inr (ts, c)"
  shows "bk_transfers c = bk_transfers b @ ts" and "length ts = n" and "only_transfers b c"
    and "\<And>x. x \<in> set ts \<Longrightarrow> x\<lparr>tf_id := 0\<rparr> = t\<lparr>tf_id := 0\<rparr> \<and> bk_next b \<le> tf_id x"
    and "sorted (map tf_id ts)" and "bk_next b \<le> bk_next c" and "\<And>x. x \<in> set ts \<Longrightarrow> tf_id x < bk_next c"
proof -
  have "bk_transfers c = bk_transfers b @ ts \<and> length ts = n \<and> only_transfers b c \<and>
    (\<forall>x\<in>set ts. x\<lparr>tf_id := 0\<rparr> = t\<lparr>tf_id := 0\<rparr> \<and> bk_next b \<le> tf_id x \<and> tf_id x < bk_next c) \<and> sorted (map tf_id ts) \<and>
    bk_next b \<le> bk_next c"
    using assms
  proof (induction n arbitrary: ts b)
    case (Suc n)
    from Suc.prems obtain ts' where ts: "ts = t\<lparr>tf_id := bk_next b\<rparr> # ts'"
      and rest: "create_copies n t (enter t b) = Inr (ts', c)"
      by (auto simp: rbind_Inr_iff create_transfer_Inr)
    have after: "bk_next (enter t b) = bk_next b + 1" "bk_transfers (enter t b) = bk_transfers b @ [t\<lparr>tf_id := bk_next b\<rparr>]"
      by (simp_all add: enter_def)
    show ?case using Suc.IH [OF rest] only_transfers_trans [OF only_transfers_enter, of t b c]
      by (auto simp: ts after)
  qed simp
  then show "bk_transfers c = bk_transfers b @ ts" and "length ts = n" and "only_transfers b c"
    and "\<And>x. x \<in> set ts \<Longrightarrow> x\<lparr>tf_id := 0\<rparr> = t\<lparr>tf_id := 0\<rparr> \<and> bk_next b \<le> tf_id x"
    and "sorted (map tf_id ts)" and "bk_next b \<le> bk_next c" and "\<And>x. x \<in> set ts \<Longrightarrow> tf_id x < bk_next c" by auto
qed

lemma item_of_found:
  assumes "sound b" and "l \<in> set (bk_items b)" and "tf_item t = lit_id l"
  shows "item_of b t = Some l"
proof (cases "item_of b t")
  case (Some k)
  then have "k \<in> set (bk_items b)" "lit_id k = lit_id l" using assms(3) by (auto simp: item_of_def dest: find_SomeD)
  then show ?thesis using Some same_item [OF assms(1) _ assms(2)] by blast
qed (use assms(2,3) in \<open>auto simp: item_of_def find_None_iff\<close>)

text \<open>The optional item with a name is the item that \<open>set_preference\<close> finds.\<close>

lemma optional_item:
  assumes "sound b" and "l \<in> set (get_lineitemtypes program every_item b)"
    and "lit_text l \<in> lit_text ` set (optional_line_items program b)"
  shows "l \<in> set (optional_line_items program b)"
proof -
  obtain k where k: "k \<in> set (optional_line_items program b)" "lit_text k = lit_text l" using assms(3) by auto
  let ?f = "every_item\<lparr>if_donations := False\<rparr>"
  have kf: "k \<in> set (get_lineitemtypes program ?f b)" "lit_text k \<notin> set admission_items"
    using k(1) by (auto simp: optional_line_items_def)
  have Q: "lineitemtypes_Q program ?f k" "lineitemtypes_Q program every_item l"
    using lineitemtypes_Q_in [OF kf(1)] lineitemtypes_Q_in [OF assms(2)] by auto
  then have "lineitemtypes_Q program ?f l" "lineitemtypes_Q program every_item k"
    using k(2) by (auto simp: lineitemtypes_Q_def every_item_def list_all_iff)
  then have "lit_id l \<le> lit_id k" "lit_id k \<le> lit_id l"
    using kf(1) assms(2) k(2) by (auto simp: get_lineitemtypes_def Let_def list_all_iff)
  then have "l = k" using same_item [OF assms(1) lineitemtypes_in [OF assms(2)] lineitemtypes_in [OF kf(1)]] by simp
  then show ?thesis using k(1) by simp
qed

definition optional_transfer :: "program_row \<Rightarrow> int \<Rightarrow> books \<Rightarrow> transfer \<Rightarrow> bool" where
  "optional_transfer program user b t \<longleftrightarrow>
     tf_user t = Some user \<and> tf_item t \<in> lit_id ` set (optional_line_items program b)"

lemma optional_transfer_cong:
  "only_transfers b c \<Longrightarrow> optional_transfer program user c t = optional_transfer program user b t"
  "only_transfers b c \<Longrightarrow> optional_line_items program c = optional_line_items program b"
  "only_transfers b c \<Longrightarrow> preference_key c t = preference_key b t"
  by (simp_all add: optional_transfer_def optional_line_items_def only_transfers_cong preference_key_def)

text \<open>Whether a preference removes a transfer with a key.\<close>

fun removes :: "preference \<Rightarrow> string \<times> int \<times> int option \<Rightarrow> bool" where
  "removes (name, quantity, cost, option_id) (name', amount, option_id') \<longleftrightarrow>
     name = name' \<and> (cost = None \<or> cost = Some amount) \<and> (option_id = None \<or> option_id = option_id')"

text \<open>What a preference asks for: the cost, if it is not given, is that of the option or of the item.\<close>

fun cost_asked :: "program_row \<Rightarrow> books \<Rightarrow> preference \<Rightarrow> int" where
  "cost_asked program b (name, quantity, cost, option_id) =
     (case cost of
        Some c \<Rightarrow> c
      | None \<Rightarrow> (case option_id of
          Some i \<Rightarrow> (case find (\<lambda>r. lio_id r = i) (bk_options b) of
              None \<Rightarrow> 0
            | Some r \<Rightarrow> (case amount_dec_inherited r b of Inl e \<Rightarrow> 0 | Inr a \<Rightarrow> a))
        | None \<Rightarrow> (case find (\<lambda>l. lit_text l = name) (get_lineitemtypes program every_item b) of
              None \<Rightarrow> 0
            | Some l \<Rightarrow> lit_amount l)))"

fun wanted :: "program_row \<Rightarrow> books \<Rightarrow> preference \<Rightarrow> (string \<times> int \<times> int option) list" where
  "wanted program b (name, quantity, cost, option_id) =
     replicate (nat (case quantity of None \<Rightarrow> 0 | Some q \<Rightarrow> q))
       (name, cost_asked program b (name, quantity, cost, option_id), option_id)"

lemma get_row_find: "get_row p xs = Inr x \<Longrightarrow> find p xs = Some x"
proof -
  have "filter p xs = [x] \<Longrightarrow> find p xs = Some x" by (induction xs) (auto split: if_splits)
  then show "get_row p xs = Inr x \<Longrightarrow> find p xs = Some x" by (simp add: get_row_Inr)
qed

lemma asked_cong:
  assumes "only_transfers b c"
  shows "cost_asked program c = cost_asked program b" and "wanted program c = wanted program b"
proof -
  have "amount_dec_inherited r c = amount_dec_inherited r b" for r
    using only_transfers_tables(1) [OF assms] by (simp add: amount_dec_inherited_def split: option.split)
  then show *: "cost_asked program c = cost_asked program b"
    by (auto simp: fun_eq_iff only_transfers_tables [OF assms] only_transfers_cong [OF assms] split: option.split)
  show "wanted program c = wanted program b" by (auto simp: fun_eq_iff *)
qed

lemma set_preference_effect:
  assumes "set_preference program user name (case quantity of None \<Rightarrow> 0 | Some q \<Rightarrow> q) cost option_id b = Inr (ts, c)"
    and "sound b" and "name \<in> lit_text ` set (optional_line_items program b)"
  defines "p \<equiv> (name, quantity, cost, option_id)"
  shows "bk_transfers c =
      filter (\<lambda>t. \<not> (optional_transfer program user b t \<and> removes p (preference_key b t))) (bk_transfers b) @ ts"
    and "only_transfers b c" and "map (preference_key b) ts = wanted program b p"
    and "\<And>t. t \<in> set ts \<Longrightarrow> optional_transfer program user b t \<and> bk_next b \<le> tf_id t"
    and "sorted (map tf_id ts)"
proof -
  let ?q = "case quantity of None \<Rightarrow> 0 | Some q \<Rightarrow> q"
  from assms(1) obtain l b' amount and source :: account and opt :: "line_item_option option" where
    l: "get_row (\<lambda>l. lit_text l = name) (get_lineitemtypes program every_item b) = Inr l" and
    del: "delete_transfers (matches_preference user l cost option_id) b = Inr b'" and
    opt: "(case option_id of None \<Rightarrow> Inr None
       | Some i \<Rightarrow> rbind (get_row (\<lambda>r. lio_id r = i) (bk_options b')) (\<lambda>r. Inr (Some r))) = Inr opt" and
    amount: "preference_amount l cost opt b' = Inr amount" and
    copies: "create_copies (nat ?q) \<lparr>tf_id = 0, tf_source = Some (ac_id source),
      tf_destination = account_id (default_program_account program b'), tf_user = Some user, tf_item = lit_id l,
      tf_option = map_option lio_id opt, tf_amount = amount, tf_transaction = [], tf_paid_in = None\<rparr> b' = Inr (ts, c)"
    by (auto simp: set_preference_def rbind_Inr_iff)
  have l_in: "l \<in> set (get_lineitemtypes program every_item b)" "lit_text l = name" using get_row_in [OF l] by auto
  then have l_opt: "l \<in> set (optional_line_items program b)" using optional_item [OF assms(2)] assms(3) by auto
  have match: "matches_preference user l cost option_id t \<longleftrightarrow>
      optional_transfer program user b t \<and> removes p (preference_key b t)" if t: "t \<in> set (bk_transfers b)" for t
  proof
    assume m: "matches_preference user l cost option_id t"
    moreover have "item_of b t = Some l"
      using item_of_found [OF assms(2) lineitemtypes_in [OF l_in(1)]] m by (simp add: matches_preference_def)
    ultimately show "optional_transfer program user b t \<and> removes p (preference_key b t)"
      using l_opt l_in(2)
      by (auto simp: p_def matches_preference_def optional_transfer_def preference_key_def split: option.splits)
  next
    assume r: "optional_transfer program user b t \<and> removes p (preference_key b t)"
    then obtain k where k: "k \<in> set (optional_line_items program b)" "tf_item t = lit_id k"
      by (auto simp: optional_transfer_def)
    have k_in: "k \<in> set (get_lineitemtypes program (every_item\<lparr>if_donations := False\<rparr>) b)"
      using k(1) by (simp add: optional_line_items_def)
    have "item_of b t = Some k" by (rule item_of_found [OF assms(2) lineitemtypes_in [OF k_in] k(2)])
    with r have "lit_text k = name" by (auto simp: p_def preference_key_def)
    then have "k = l"
      using lineitemtypes_texts [OF assms(2) k_in, of l] l_opt l_in(2) by (simp add: optional_line_items_def)
    with r k(2) show "matches_preference user l cost option_id t"
      by (auto simp: p_def matches_preference_def optional_transfer_def preference_key_def split: option.splits)
  qed
  have b': "b' = b\<lparr>bk_transfers := filter (\<lambda>t. \<not> matches_preference user l cost option_id t) (bk_transfers b)\<rparr>"
    using del by (simp add: delete_transfers_Inr)
  have left_over: "bk_transfers b' =
      filter (\<lambda>t. \<not> (optional_transfer program user b t \<and> removes p (preference_key b t))) (bk_transfers b)"
    unfolding b' using match by (auto intro: filter_cong)
  have ot: "only_transfers b b'" by (simp add: b' only_transfers_def)
  have same: "bk_options b' = bk_options b" "bk_next b' = bk_next b" by (simp_all add: b')
  have option: "map_option lio_id opt = option_id"
    using opt by (auto simp: rbind_Inr_iff dest: get_row_in split: option.splits)
  have inherited: "amount_dec_inherited r b' = amount_dec_inherited r b" for r
    by (simp add: amount_dec_inherited_def b' split: option.split)
  have cost: "amount = cost_asked program b p"
  proof (cases cost)
    case None
    show ?thesis
    proof (cases option_id)
      case (Some i)
      then obtain r where r: "get_row (\<lambda>r. lio_id r = i) (bk_options b) = Inr r" "opt = Some r"
        using opt by (auto simp: rbind_Inr_iff same)
      show ?thesis
        using amount None Some get_row_find [OF r(1)] by (simp add: p_def preference_amount_def r(2) inherited)
    next
      case None': None
      with opt have "opt = None" by simp
      then show ?thesis
        using amount None None' get_row_find [OF l] by (simp add: p_def preference_amount_def)
    qed
  qed (use amount in \<open>simp add: p_def preference_amount_def\<close>)
  note e = create_copies_effect [OF copies]
  show "bk_transfers c =
      filter (\<lambda>t. \<not> (optional_transfer program user b t \<and> removes p (preference_key b t))) (bk_transfers b) @ ts"
    using e(1) left_over by simp
  show "only_transfers b c" using only_transfers_trans [OF ot e(3)] .
  show "sorted (map tf_id ts)" by (rule e(5))
  have new: "tf_item t = lit_id l \<and> tf_user t = Some user \<and> tf_amount t = amount \<and> tf_option t = option_id \<and> bk_next b \<le> tf_id t"
    if t: "t \<in> set ts" for t
  proof -
    have eq: "t\<lparr>tf_id := 0\<rparr> = \<lparr>tf_id = 0, tf_source = Some (ac_id source),
      tf_destination = account_id (default_program_account program b'), tf_user = Some user, tf_item = lit_id l,
      tf_option = option_id, tf_amount = amount, tf_transaction = [], tf_paid_in = None\<rparr>"
      using e(4) [OF t] by (simp add: option)
    have "tf_item t = lit_id l" "tf_user t = Some user" "tf_amount t = amount" "tf_option t = option_id"
      using arg_cong [OF eq, of tf_item] arg_cong [OF eq, of tf_user] arg_cong [OF eq, of tf_amount]
        arg_cong [OF eq, of tf_option] by simp_all
    with e(4) [OF t] same(2) show ?thesis by simp
  qed
  then show "optional_transfer program user b t \<and> bk_next b \<le> tf_id t" if "t \<in> set ts" for t
    using l_opt that by (auto simp: optional_transfer_def)
  have "preference_key b t = (name, amount, option_id)" if "t \<in> set ts" for t
    using item_of_found [OF assms(2) lineitemtypes_in [OF l_in(1)]] new [OF that] l_in(2)
    by (simp add: preference_key_def)
  then have "map (preference_key b) ts = replicate (length ts) (name, amount, option_id)"
    by (metis (no_types, lifting) map_cong map_replicate_const)
  then show "map (preference_key b) ts = wanted program b p" using e(2) cost by (simp add: p_def)
qed

subsection \<open>All preferences\<close>

text \<open>What is asked for in the end: each preference removes what it matches of the earlier ones.\<close>

definition ask :: "program_row \<Rightarrow> books \<Rightarrow> (string \<times> int \<times> int option) list \<Rightarrow> preference \<Rightarrow>
   (string \<times> int \<times> int option) list" where
  "ask program b keys p = filter (\<lambda>k. \<not> removes p k) keys @ wanted program b p"

definition asked :: "program_row \<Rightarrow> books \<Rightarrow> preference list \<Rightarrow> (string \<times> int \<times> int option) list" where
  "asked program b ps = foldl (ask program b) [] ps"

fun undisturbed :: "program_row \<Rightarrow> books \<Rightarrow> preference list \<Rightarrow> bool" where
  "undisturbed program b [] \<longleftrightarrow> True"
| "undisturbed program b (p # ps) \<longleftrightarrow>
     (\<forall>k\<in>set (wanted program b p). \<forall>q\<in>set ps. \<not> removes q k) \<and> undisturbed program b ps"

definition preference_names :: "preference list \<Rightarrow> string set" where
  "preference_names ps = fst ` set ps"

lemma ask_undisturbed:
  assumes "undisturbed program b ps" and "\<And>k p. k \<in> set keys \<Longrightarrow> p \<in> set ps \<Longrightarrow> \<not> removes p k"
  shows "foldl (ask program b) keys ps = keys @ concat (map (wanted program b) ps)"
  using assms
proof (induction ps arbitrary: keys)
  case (Cons p ps)
  have "filter (\<lambda>k. \<not> removes p k) keys = keys" using Cons.prems(2) by (simp add: filter_id_conv)
  then have "foldl (ask program b) keys (p # ps) = foldl (ask program b) (keys @ wanted program b p) ps"
    by (simp add: ask_def)
  also have "\<dots> = (keys @ wanted program b p) @ concat (map (wanted program b) ps)"
  proof (rule Cons.IH)
    show "undisturbed program b ps" using Cons.prems(1) by simp
    show "\<not> removes q k" if "k \<in> set (keys @ wanted program b p)" "q \<in> set ps" for k q
      using that Cons.prems(1) Cons.prems(2) [of k q] by fastforce
  qed
  finally show ?case by simp
qed simp

lemma asked_undisturbed: "undisturbed program b ps \<Longrightarrow> asked program b ps = concat (map (wanted program b) ps)"
  using ask_undisturbed [of program b ps "[]"] by (simp add: asked_def)

lemma filter_map_key:
  "map f (filter (\<lambda>t. P t \<and> \<not> (P t \<and> Q (f t))) xs) = filter (\<lambda>k. \<not> Q k) (map f (filter P xs))"
  by (induction xs) auto

lemma set_preferences_effect:
  assumes "rfold (add_preference program user) (r, b) ps = Inr (ts, c)" and "sound b"
    and "preference_names ps \<subseteq> lit_text ` set (optional_line_items program b)"
    and "sorted (map tf_id (filter (optional_transfer program user b) (bk_transfers b)))"
  shows "only_transfers b c \<and>
    filter (\<lambda>t. \<not> optional_transfer program user b t) (bk_transfers c) =
      filter (\<lambda>t. \<not> optional_transfer program user b t) (bk_transfers b) \<and>
    map (preference_key b) (filter (optional_transfer program user b) (bk_transfers c)) =
      foldl (ask program b) (map (preference_key b) (filter (optional_transfer program user b) (bk_transfers b))) ps \<and>
    sorted (map tf_id (filter (optional_transfer program user b) (bk_transfers c))) \<and>
    (undisturbed program b ps \<longrightarrow> (\<forall>t\<in>set (bk_transfers b). optional_transfer program user b t \<longrightarrow>
        (\<forall>p\<in>set ps. \<not> removes p (preference_key b t))) \<longrightarrow>
      r = filter (optional_transfer program user b) (bk_transfers b) \<longrightarrow>
      filter (optional_transfer program user b) (bk_transfers c) = ts)"
  using assms
proof (induction ps arbitrary: r b)
  case (Cons p ps)
  obtain name quantity cost option_id where p: "p = (name, quantity, cost, option_id)" by (cases p) auto
  let ?opt = "optional_transfer program user b" and ?key = "preference_key b"
  from Cons.prems(1) obtain us b1 where
    1: "set_preference program user name (case quantity of None \<Rightarrow> 0 | Some q \<Rightarrow> q) cost option_id b = Inr (us, b1)"
    and 2: "rfold (add_preference program user) (r @ us, b1) ps = Inr (ts, c)"
    by (auto simp: p add_preference_def rbind_Inr_iff)
  have name: "name \<in> lit_text ` set (optional_line_items program b)"
    using Cons.prems(3) by (simp add: p preference_names_def)
  note e = set_preference_effect [OF 1 Cons.prems(2) name, folded p]
  note s1 = set_preference_steps [OF 1 Cons.prems(2)]
  have same: "optional_transfer program user b1 = ?opt" "preference_key b1 = ?key"
    "optional_line_items program b1 = optional_line_items program b" "ask program b1 = ask program b"
    "undisturbed program b1 = undisturbed program b"
  proof -
    show "undisturbed program b1 = undisturbed program b"
    proof
      show "undisturbed program b1 qs = undisturbed program b qs" for qs
        by (induction qs) (simp_all add: asked_cong(2) [OF e(2)])
    qed
  qed (use optional_transfer_cong [OF e(2)] asked_cong(2) [OF e(2)] in \<open>auto simp: fun_eq_iff ask_def\<close>)
  have opt_us: "filter ?opt us = us" using e(4) by (simp add: filter_id_conv)
  have left_over: "filter ?opt (bk_transfers b1) = filter (\<lambda>t. ?opt t \<and> \<not> (?opt t \<and> removes p (?key t))) (bk_transfers b) @ us"
    by (simp add: e(1) opt_us conj_commute)
  have keys: "map ?key (filter ?opt (bk_transfers b1)) = ask program b (map ?key (filter ?opt (bk_transfers b))) p"
    unfolding left_over ask_def by (simp only: map_append filter_map_key e(3))
  have "tf_id x \<le> tf_id y" if "x \<in> set (bk_transfers b)" "y \<in> set us" for x y
    using sound_idD [OF Cons.prems(2) that(1)] e(4) [OF that(2)] by linarith
  moreover have "sorted (map tf_id (filter (\<lambda>t. ?opt t \<and> \<not> (?opt t \<and> removes p (?key t))) (bk_transfers b)))"
  proof -
    have "filter (\<lambda>t. ?opt t \<and> \<not> (?opt t \<and> removes p (?key t))) (bk_transfers b) =
        filter (\<lambda>t. \<not> removes p (?key t)) (filter ?opt (bk_transfers b))"
      by (auto intro: filter_cong)
    with sorted_filter [OF Cons.prems(4)] show ?thesis by (simp only:)
  qed
  ultimately have sorted: "sorted (map tf_id (filter ?opt (bk_transfers b1)))"
    unfolding left_over using e(5) by (auto simp: sorted_append)
  have others: "filter (\<lambda>t. \<not> ?opt t) (bk_transfers b1) = filter (\<lambda>t. \<not> ?opt t) (bk_transfers b)"
    using e(4) by (auto simp: e(1) filter_empty_conv intro: filter_cong)
  have names: "preference_names ps \<subseteq> lit_text ` set (optional_line_items program b1)"
    using Cons.prems(3) by (auto simp: preference_names_def same)
  note IH = Cons.IH [OF 2 steps_sound [OF s1 Cons.prems(2)] names, unfolded same, OF sorted]
  have all: "filter ?opt (bk_transfers c) = ts"
    if u: "undisturbed program b (p # ps)"
      and d: "\<forall>t\<in>set (bk_transfers b). ?opt t \<longrightarrow> (\<forall>q\<in>set (p # ps). \<not> removes q (?key t))"
      and r: "r = filter ?opt (bk_transfers b)"
  proof -
    have "filter (\<lambda>t. ?opt t \<and> \<not> (?opt t \<and> removes p (?key t))) (bk_transfers b) = filter ?opt (bk_transfers b)"
      using d by (intro filter_cong) auto
    then have "r @ us = filter ?opt (bk_transfers b1)" using left_over r by simp
    moreover have "\<forall>q\<in>set ps. \<not> removes q (?key t)" if t: "t \<in> set (bk_transfers b1)" "?opt t" for t
    proof (cases "t \<in> set us")
      case True
      then have "?key t \<in> set (wanted program b p)" using e(3) by (metis image_eqI list.set_map)
      with u show ?thesis by auto
    next
      case False
      with t e(1) d show ?thesis by auto
    qed
    ultimately show ?thesis using IH u by auto
  qed
  show ?case
    using IH others keys only_transfers_trans [OF e(2)] all by auto
qed simp

lemma apply_preferences_result:
  assumes "apply_preferences program user ps b = Inr (ts, c)" and "sound b"
    and "preference_names ps \<subseteq> lit_text ` set (optional_line_items program b)"
  shows "map (preference_key b) (filter (optional_transfer program user b) (bk_transfers c)) = asked program b ps"
    and "filter (\<lambda>t. \<not> optional_transfer program user b t) (bk_transfers c) =
      filter (\<lambda>t. \<not> optional_transfer program user b t) (bk_transfers b)"
    and "only_transfers b c" and "sorted (map tf_id (filter (optional_transfer program user b) (bk_transfers c)))"
    and "undisturbed program b ps \<Longrightarrow> filter (optional_transfer program user b) (bk_transfers c) = ts"
proof -
  let ?b = "b\<lparr>bk_transfers := filter (\<lambda>t. \<not> optional_transfer program user b t) (bk_transfers b)\<rparr>"
  from assms(1) obtain b' where
    del: "delete_transfers (optional_transfer program user b) b = Inr b'" and
    rest: "rfold (add_preference program user) ([], b') ps = Inr (ts, c)"
    by (auto simp: apply_preferences_def set_preferences_def rbind_Inr_iff optional_transfer_def [abs_def])
  have b': "b' = ?b" using del by (simp add: delete_transfers_Inr)
  have ot: "only_transfers b b'" by (simp add: b' only_transfers_def)
  have same: "optional_transfer program user b' = optional_transfer program user b"
    "preference_key b' = preference_key b" "optional_line_items program b' = optional_line_items program b"
    "ask program b' = ask program b" "undisturbed program b' = undisturbed program b"
  proof -
    show "undisturbed program b' = undisturbed program b"
    proof
      show "undisturbed program b' qs = undisturbed program b qs" for qs
        by (induction qs) (simp_all add: asked_cong(2) [OF ot])
    qed
  qed (use optional_transfer_cong [OF ot] asked_cong(2) [OF ot] in \<open>auto simp: fun_eq_iff ask_def\<close>)
  have s: "sound b'" by (rule steps_sound [OF delete_steps [OF del, of user] assms(2)]) (simp add: optional_transfer_def)
  have none: "filter (optional_transfer program user b) (bk_transfers b') = []" by (simp add: b')
  have names: "preference_names ps \<subseteq> lit_text ` set (optional_line_items program b')"
    using assms(3) by (simp add: same)
  note r = set_preferences_effect [OF rest s names, unfolded same none, simplified]
  have none': "\<not> optional_transfer program user b t" if "t \<in> set (bk_transfers b')" for t
    using that by (simp add: b')
  show "map (preference_key b) (filter (optional_transfer program user b) (bk_transfers c)) = asked program b ps"
    and "filter (\<lambda>t. \<not> optional_transfer program user b t) (bk_transfers c) =
      filter (\<lambda>t. \<not> optional_transfer program user b t) (bk_transfers b)"
    and "only_transfers b c" and "sorted (map tf_id (filter (optional_transfer program user b) (bk_transfers c)))"
    using r only_transfers_trans [OF ot] by (simp_all add: asked_def b')
  show "filter (optional_transfer program user b) (bk_transfers c) = ts" if "undisturbed program b ps"
    using r that none' by blast
qed

subsection \<open>Reading preferences\<close>

definition count_key :: "('k, nat) dict \<Rightarrow> 'k \<Rightarrow> ('k, nat) dict" where
  "count_key counts key = AList.update key ((case map_of counts key of None \<Rightarrow> 0 | Some n \<Rightarrow> n) + 1) counts"

lemma count_preference_key:
  "foldl (count_preference b) counts ts = foldl count_key counts (map (preference_key b) ts)"
  by (induction ts arbitrary: counts) (simp_all add: count_preference_def count_key_def preference_key_def Let_def)

lemma update_last: "k \<notin> fst ` set xs \<Longrightarrow> AList.update k v (xs @ [(k, m)]) = xs @ [(k, v)]"
  by (induction xs) auto

lemma update_new: "k \<notin> fst ` set xs \<Longrightarrow> AList.update k v xs = xs @ [(k, v)]"
  by (induction xs) auto

lemma count_more: "k \<notin> fst ` set xs \<Longrightarrow> foldl count_key (xs @ [(k, m)]) (replicate n k) = xs @ [(k, m + n)]"
proof (induction n arbitrary: m)
  case (Suc n)
  then have "map_of xs k = None" by (simp add: map_of_eq_None_iff)
  with Suc show ?case by (simp add: count_key_def update_last map_add_def del: AList.update.simps)
qed simp

lemma count_copies:
  assumes "k \<notin> fst ` set xs"
  shows "foldl count_key xs (replicate n k) = (if n = 0 then xs else xs @ [(k, n)])"
proof (cases n)
  case (Suc m)
  have "map_of xs k = None" using assms by (simp add: map_of_eq_None_iff)
  then show ?thesis using count_more [OF assms, of 1 m] Suc assms by (simp add: count_key_def update_new)
qed simp

text \<open>The keys in the order of their first occurrence, each with the number of times it occurs.\<close>

definition tally :: "(string \<times> int \<times> int option) list \<Rightarrow> (string \<times> nat \<times> int \<times> int option) list" where
  "tally ks = map (\<lambda>k. as_preference (k, count_list ks k)) (rev (remdups (rev ks)))"

lemma update_counted:
  "k \<in> set xs \<Longrightarrow> distinct xs \<Longrightarrow>
   AList.update k (f k + 1) (map (\<lambda>x. (x, f x)) xs) = map (\<lambda>x. (x, if x = k then f x + 1 else f x)) xs"
  by (induction xs) auto

lemma count_keys: "foldl count_key [] ks = map (\<lambda>k. (k, count_list ks k)) (rev (remdups (rev ks)))"
proof (induction ks rule: rev_induct)
  case (snoc k ks)
  let ?xs = "rev (remdups (rev ks))"
  have found: "map_of (map (\<lambda>k. (k, count_list ks k)) ?xs) k = (if k \<in> set ks then Some (count_list ks k) else None)"
    by (simp add: map_of_map_restrict restrict_map_def)
  show ?case
  proof (cases "k \<in> set ks")
    case True
    then have "foldl count_key [] (ks @ [k]) =
        map (\<lambda>x. (x, if x = k then count_list ks x + 1 else count_list ks x)) ?xs"
      using found update_counted [of k ?xs "count_list ks"] by (simp add: snoc count_key_def)
    moreover have "map (\<lambda>x. (x, count_list (ks @ [k]) x)) ?xs =
        map (\<lambda>x. (x, if x = k then count_list ks x + 1 else count_list ks x)) ?xs"
      by (intro map_cong) auto
    ultimately show ?thesis using True by simp
  next
    case False
    then have "foldl count_key [] (ks @ [k]) = map (\<lambda>x. (x, count_list ks x)) ?xs @ [(k, 1)]"
      using found by (simp add: snoc count_key_def update_new image_iff)
    moreover have "map (\<lambda>x. (x, count_list (ks @ [k]) x)) ?xs = map (\<lambda>x. (x, count_list ks x)) ?xs"
      using False by (intro map_cong) auto
    ultimately show ?thesis using False by simp
  qed
qed simp

text \<open>What \<open>get_preferences\<close> returns for preferences none of which was removed.\<close>

fun as_read :: "program_row \<Rightarrow> books \<Rightarrow> preference \<Rightarrow> (string \<times> nat \<times> int \<times> int option) list" where
  "as_read program b (name, quantity, cost, option_id) =
     (case quantity of
        None \<Rightarrow> []
      | Some q \<Rightarrow> (if q > 0
          then [(name, nat q, cost_asked program b (name, quantity, cost, option_id), option_id)] else []))"

lemma count_wanted:
  assumes "undisturbed program b ps" and "\<And>p k. p \<in> set ps \<Longrightarrow> k \<in> fst ` set xs \<Longrightarrow> \<not> removes p k"
  shows "map as_preference (foldl count_key xs (concat (map (wanted program b) ps))) =
    map as_preference xs @ concat (map (as_read program b) ps)"
  using assms
proof (induction ps arbitrary: xs)
  case (Cons p ps)
  obtain name quantity cost option_id where p: "p = (name, quantity, cost, option_id)" by (cases p) auto
  let ?k = "(name, cost_asked program b p, option_id)"
  let ?n = "nat (case quantity of None \<Rightarrow> 0 | Some q \<Rightarrow> q)"
  let ?xs = "if ?n = 0 then xs else xs @ [(?k, ?n)]"
  have w: "wanted program b p = replicate ?n ?k" by (simp add: p del: cost_asked.simps)
  have "removes p ?k" by (cases cost) (auto simp: p)
  then have "?k \<notin> fst ` set xs" using Cons.prems(2) [of p ?k] by auto
  then have step: "foldl count_key xs (wanted program b p) = ?xs" by (simp add: w count_copies)
  have "\<not> removes q k" if "q \<in> set ps" "k \<in> fst ` set ?xs" for q k
    using Cons.prems(1) Cons.prems(2) [of q k] that by (auto simp: w split: if_splits)
  then have "map as_preference (foldl count_key ?xs (concat (map (wanted program b) ps))) =
    map as_preference ?xs @ concat (map (as_read program b) ps)"
    using Cons.prems(1) by (intro Cons.IH) auto
  moreover have "map as_preference ?xs = map as_preference xs @ as_read program b p"
    by (auto simp: p as_preference_def simp del: cost_asked.simps split: option.splits)
  ultimately show ?case using step by simp
qed simp

lemma tally_undisturbed:
  "undisturbed program b ps \<Longrightarrow> tally (asked program b ps) = concat (map (as_read program b) ps)"
  using count_wanted [of program b ps "[]"] by (simp add: tally_def count_keys asked_undisturbed comp_def)

lemma preferences_roundtrip:
  assumes "apply_preferences program user ps b = Inr (ts, c)" and "sound b"
    and "preference_names ps \<subseteq> lit_text ` set (optional_line_items program b)"
    and "default_source_account b = Inr source"
  shows "get_preferences program user (Some (optional_line_items program c)) c = Inr (tally (asked program b ps))"
proof -
  note r = apply_preferences_result [OF assms(1-3)]
  note same = optional_transfer_cong [OF r(3)]
  let ?ts = "filter (optional_transfer program user b) (bk_transfers c)"
  have "filter (\<lambda>t. tf_item t \<in> lit_id ` set (optional_line_items program c)) (transfers_of user c) = ?ts"
    by (simp add: same(2) transfers_of_def optional_transfer_def [abs_def] conj_commute)
  moreover have "default_source_account c = Inr source" using only_transfers_cong(4) [OF r(3)] assms(4) by simp
  ultimately have "get_transfers_in user (optional_line_items program c) c = Inr ?ts"
    using r(4) by (simp add: get_transfers_in_def sort_key_id_if_sorted)
  moreover have "preference_key c = preference_key b" using same(3) by auto
  then have "map (preference_key c) ?ts = asked program b ps" using r(1) by simp
  ultimately show ?thesis
    by (simp add: get_preferences_def preferences_of_def count_preference_key count_keys tally_def comp_def)
qed

end
