(* ===== verification/Payment_Records.thy ===== *)
theory Payment_Records
  imports Amounts "HOL-Library.Multiset"
begin

section \<open>Recorded payments\<close>

text \<open>
  \<open>record_payment_effect\<close>: what a successful \<open>record_payment_from_identifier\<close> has done. \<open>payment_replayed\<close>: the same
  transaction is refused. \<open>identifier_reconciles\<close>: an identifier of unpaid transfers is accepted
  when the amount is theirs; this rests on the way of numbers through text (\<open>parse_show_int\<close>,
  \<open>parse_entries\<close>).
\<close>

subsection \<open>What a recorded payment does\<close>

lemma reconcile_keeps:
  assumes "reconcile program user payment trusted items b = Inr c" and "sound b"
    and "tf_id payment \<in> transfer_ids b" and "paid_by (tf_id payment) b = []"
    and "t \<in> set (bk_transfers b)" and "tf_paid_in t \<noteq> None \<or> tf_id t = tf_id payment"
  shows "t \<in> set (bk_transfers c)"
proof -
  note effect = reconcile_effect [OF assms(1-4)]
  have "transfer_ids c = transfer_ids b" using effect(4) by (simp add: transfer_ids_def flip: set_map)
  then obtain x where x: "x \<in> set (bk_transfers c)" "tf_id x = tf_id t"
    using assms(5) by (auto simp: transfer_ids_def image_iff) (metis imageE imageI)
  from effect(6) [OF x(1)] show ?thesis
  proof
    assume "x \<in> set (bk_transfers b)"
    then show ?thesis using sound_same_id [OF assms(2) _ assms(5)] x by metis
  next
    assume "\<exists>u\<in>set (transfers_of user b). \<exists>a. tf_paid_in u = None \<and> tf_id u \<noteq> tf_id payment \<and>
      x = u\<lparr>tf_amount := a, tf_paid_in := Some (tf_id payment)\<rparr> \<and> (trusted \<or> a = tf_amount u) \<and>
      item_satisfies b (\<lambda>l. lit_program l = pr_id program) u"
    then obtain u where "u \<in> set (bk_transfers b)" "tf_paid_in u = None" "tf_id u \<noteq> tf_id payment" "tf_id u = tf_id t"
      using x(2) by (auto simp: transfers_of_def)
    then show ?thesis using sound_same_id [OF assms(2) _ assms(5)] assms(6) by metis
  qed
qed

text \<open>The program and the user that an identifier names.\<close>

definition payer :: "string \<Rightarrow> books \<Rightarrow> (program_row \<times> int) result" where
  "payer identifier b = rbind (split_pair CHR '':'' identifier) (\<lambda>(id_str, _). from_id id_str b)"

lemma record_payment_effect:
  assumes "record_payment_from_identifier identifier amount tid trusted b = Inr (payment, c)" and "sound b"
  obtains program user where "payer identifier b = Inr (program, user)" and "ledger_steps user b c"
    and "only_transfers b c" and "\<not> already_recorded program user tid b"
    and "tf_id payment = bk_next b" and "tf_amount payment = as_cents amount" and "tf_user payment = Some user"
    and "tf_transaction payment = tid" and "has_item (default_payments_lineitemtype program b) payment"
    and "payment \<in> set (bk_transfers c)" and "sum_amounts (paid_by (tf_id payment) c) = as_cents amount"
    and "\<And>x. x \<in> set (bk_transfers c) \<Longrightarrow> x = payment \<or> x \<in> set (bk_transfers b) \<or>
      (\<exists>t\<in>set (transfers_of user b). \<exists>a. tf_paid_in t = None \<and>
        x = t\<lparr>tf_amount := a, tf_paid_in := Some (tf_id payment)\<rparr> \<and> (trusted \<or> a = tf_amount t) \<and>
        item_satisfies b (\<lambda>l. lit_program l = pr_id program) t)"
    and "\<And>t. t \<in> set (bk_transfers b) \<Longrightarrow> tf_paid_in t \<noteq> None \<Longrightarrow> t \<in> set (bk_transfers c)"
proof -
  from record_payment_split [OF assms(1)] obtain id_str entries program user items b' where
    parts: "split_pair CHR '':'' identifier = Inr (id_str, entries)" "from_id id_str b = Inr (program, user)" and
    new: "\<not> already_recorded program user tid b" and
    create: "create_payment program user amount tid b = Inr (payment, b')" and
    rec: "reconcile program user payment trusted items b' = Inr c"
    by metis
  note pay = create_payment_effect [OF create]
  have none: "paid_by (tf_id payment) b' = []"
    using sound_fresh [OF assms(2)] sound_paidD [OF assms(2)] pay(6,8,9)
    by (auto simp: paid_by_def enter_def filter_empty_conv)
  have sound': "sound b'" by (rule steps_sound [OF pay(1) assms(2)])
  have id: "tf_id payment \<in> transfer_ids b'" by (rule has_payment_id [OF pay(2)])
  note effect = reconcile_effect [OF rec sound' id none] and keeps = reconcile_keeps [OF rec sound' id none]
  have ot: "only_transfers b b'" by (simp add: pay(9))
  have in_b': "bk_transfers b' = bk_transfers b @ [payment]" by (simp add: pay(9,10) enter_def)
  show thesis
  proof (rule that [of program user])
    show "payer identifier b = Inr (program, user)" by (simp add: payer_def parts)
    show "ledger_steps user b c" by (rule steps_trans [OF pay(1) effect(1)])
    show "only_transfers b c" by (rule only_transfers_trans [OF ot effect(3)])
    show "payment \<in> set (bk_transfers c)" by (rule keeps) (simp_all add: pay(3))
    show "sum_amounts (paid_by (tf_id payment) c) = as_cents amount" using effect(2) pay(4) by simp
    show "t \<in> set (bk_transfers c)" if "t \<in> set (bk_transfers b)" "tf_paid_in t \<noteq> None" for t
      using that by (intro keeps) (simp_all add: in_b')
    have old: "t \<in> set (transfers_of user b)" if "t \<in> set (transfers_of user b')" "tf_id t \<noteq> tf_id payment" for t
      using that by (auto simp: transfers_of_def in_b' split: if_splits)
    fix x assume "x \<in> set (bk_transfers c)"
    from effect(6) [OF this] show "x = payment \<or> x \<in> set (bk_transfers b) \<or>
      (\<exists>t\<in>set (transfers_of user b). \<exists>a. tf_paid_in t = None \<and>
        x = t\<lparr>tf_amount := a, tf_paid_in := Some (tf_id payment)\<rparr> \<and> (trusted \<or> a = tf_amount t) \<and>
        item_satisfies b (\<lambda>l. lit_program l = pr_id program) t)"
    proof
      assume "x \<in> set (bk_transfers b')"
      then show ?thesis by (auto simp: in_b')
    next
      assume "\<exists>t\<in>set (transfers_of user b'). \<exists>a. tf_paid_in t = None \<and> tf_id t \<noteq> tf_id payment \<and>
        x = t\<lparr>tf_amount := a, tf_paid_in := Some (tf_id payment)\<rparr> \<and> (trusted \<or> a = tf_amount t) \<and>
        item_satisfies b' (\<lambda>l. lit_program l = pr_id program) t"
      then show ?thesis using old only_transfers_cong(8) [OF ot] by metis
    qed
  qed (use pay new in simp_all)
qed

lemma payer_cong: "only_transfers b c \<Longrightarrow> payer identifier c = payer identifier b"
  by (simp add: payer_def from_id_def only_transfers_tables split_def)

lemma payment_replayed:
  assumes "record_payment_from_identifier identifier amount tid trusted b = Inr (payment, c)" and "sound b"
    and "tid \<noteq> []" and "payer identifier' b = payer identifier b"
  shows "record_payment_from_identifier identifier' amount' tid trusted' c = Inl duplicate_payment"
proof -
  from record_payment_effect [OF assms(1,2)] obtain program user where
    payer: "payer identifier b = Inr (program, user)" and ot: "only_transfers b c" and
    p: "payment \<in> set (bk_transfers c)" "tf_user payment = Some user" "tf_transaction payment = tid"
      "has_item (default_payments_lineitemtype program b) payment"
    and steps: "ledger_steps user b c"
    by metis
  obtain l where l: "default_payments_lineitemtype program b = Some l" "lit_id l = tf_item payment"
    using p(4) by (auto simp: has_item_def)
  have props: "l \<in> set (bk_items c)" "lit_program l = pr_id program" "lit_for_payments l"
    using l(1) only_transfers_tables(1) [OF ot] by (auto simp: default_payments_lineitemtype_def dest!: greatest_by_in)
  have "item_of c payment = Some l"
  proof (cases "item_of c payment")
    case (Some k)
    then have "k \<in> set (bk_items c)" "lit_id k = lit_id l" using l(2) by (auto simp: item_of_def dest: find_SomeD)
    then show ?thesis using Some same_item [OF steps_sound [OF steps assms(2)] _ props(1)] by blast
  qed (use l(2) props(1) in \<open>auto simp: item_of_def find_None_iff\<close>)
  then have "already_recorded program user tid c"
    using assms(3) p props by (auto simp: already_recorded_def list_ex_iff transfers_of_def item_satisfies_def)
  moreover have "payer identifier' c = Inr (program, user)" using payer_cong [OF ot] assms(4) payer by simp
  ultimately show ?thesis
    by (auto simp: record_payment_from_identifier_def payer_def rbind_Inr_iff)
qed

subsection \<open>Numbers as text\<close>

lemma digit_props:
  assumes "n < 10"
  shows "is_digit (digit n)" and "of_char (digit n) - 48 = int n" and "\<not> is_space (digit n)"
    and "digit n \<noteq> CHR ''_''" "digit n \<noteq> CHR ''-''" "digit n \<noteq> CHR ''+''"
proof -
  have "of_char (digit n) = 48 + n" using assms by (simp add: digit_def of_char_of)
  then have n: "(of_char (digit n) :: nat) = 48 + n" .
  have i: "(of_char (digit n) :: int) = 48 + int n"
    using n by (metis of_nat_of_char of_nat_add of_nat_numeral)
  show "is_digit (digit n)" using n assms by (simp add: is_digit_def)
  show "of_char (digit n) - 48 = int n" using i by simp
  show "\<not> is_space (digit n)" using n by (auto simp: is_space_def)
  show "digit n \<noteq> CHR ''_''" "digit n \<noteq> CHR ''-''" "digit n \<noteq> CHR ''+''" using n assms by auto
qed

lemma show_nat_digits: "list_all is_digit (show_nat n)" "show_nat n \<noteq> []"
proof -
  have "list_all is_digit (show_nat n) \<and> show_nat n \<noteq> []"
  proof (induction n rule: show_nat.induct)
    case (1 n)
    then show ?case by (cases "n < 10") (simp_all add: show_nat.simps [of n] digit_props)
  qed
  then show "list_all is_digit (show_nat n)" "show_nat n \<noteq> []" by auto
qed

lemma digits_True_append:
  "list_all is_digit xs \<Longrightarrow>
   digits True k (xs @ ys) = (case digits True k xs of None \<Rightarrow> None | Some m \<Rightarrow> digits True m ys)"
  by (induction xs arbitrary: k) simp_all

lemma digits_append:
  "list_all is_digit xs \<Longrightarrow> xs \<noteq> [] \<Longrightarrow>
   digits e k (xs @ ys) = (case digits e k xs of None \<Rightarrow> None | Some m \<Rightarrow> digits True m ys)"
  by (cases xs) (simp_all add: digits_True_append)

lemma digits_show_nat: "digits e 0 (show_nat n) = Some (int n)"
proof (induction n arbitrary: e rule: show_nat.induct)
  case (1 n)
  show ?case
  proof (cases "n < 10")
    case True
    then show ?thesis by (simp add: show_nat.simps [of n] digit_props)
  next
    case False
    have "int (n div 10) * 10 + int (n mod 10) = int n" by presburger
    with False show ?thesis
      using 1 show_nat_digits [of "n div 10"]
      by (simp add: show_nat.simps [of n] digits_append digit_props algebra_simps)
  qed
qed

text \<open>The characters of numbers.\<close>

definition number_chars :: "string \<Rightarrow> bool" where
  "number_chars s \<longleftrightarrow> (\<forall>c\<in>set s. is_digit c \<or> c = CHR ''-'' \<or> c = CHR ''.'')"

lemma number_chars_show: "number_chars (show_int i)" "number_chars (show_cents c)"
  using show_nat_digits(1)
  by (auto simp: number_chars_def show_int_def show_cents_def list_all_iff digit_props Let_def)

lemma not_spaceD: "is_digit c \<or> c = CHR ''-'' \<Longrightarrow> \<not> is_space c"
  by (auto simp: is_digit_def is_space_def)

lemma dropWhile_none: "(\<And>x. x \<in> set xs \<Longrightarrow> \<not> p x) \<Longrightarrow> dropWhile p xs = xs"
  by (cases xs) auto

lemma strip_none: "(\<And>x. x \<in> set xs \<Longrightarrow> \<not> is_space x) \<Longrightarrow> strip xs = xs"
  using dropWhile_none [of xs is_space] dropWhile_none [of "rev xs" is_space] by (simp add: strip_def)

lemma parse_show_int: "parse_int (show_int i) = Inr i"
proof -
  have digits: "is_digit c" if "c \<in> set (show_nat n)" for c n
    using show_nat_digits(1) [of n] that by (simp add: list_all_iff)
  have strip: "strip (show_int i) = show_int i"
    by (rule strip_none) (auto simp: show_int_def not_spaceD dest: digits split: if_splits)
  show ?thesis
  proof (cases "i < 0")
    case True
    then show ?thesis by (simp add: parse_int_def strip) (simp add: show_int_def digits_show_nat)
  next
    case False
    obtain c cs where c: "show_nat (nat i) = c # cs" using show_nat_digits(2) by (meson list.exhaust)
    have "is_digit c" using digits [of c "nat i"] c by simp
    then have "c \<noteq> CHR ''-''" "c \<noteq> CHR ''+''" by (auto simp: is_digit_def)
    then show ?thesis
      using False digits_show_nat [of False "nat i"] by (simp add: parse_int_def strip) (simp add: show_int_def c)
  qed
qed

subsection \<open>Splitting\<close>

lemma split_at_none: "d \<notin> set xs \<Longrightarrow> split_at d xs = [xs]"
  by (induction xs) auto

lemma split_at_append: "d \<notin> set xs \<Longrightarrow> split_at d (xs @ d # ys) = xs # split_at d ys"
  by (induction xs) (auto split: list.split)

lemma split_at_join:
  assumes "xs \<noteq> []" and "\<And>x. x \<in> set xs \<Longrightarrow> d \<notin> set x"
  shows "split_at d (join_with d xs) = xs"
  using assms by (induction d xs rule: join_with.induct) (simp_all add: split_at_none split_at_append)

lemma split_pair_append: "d \<notin> set xs \<Longrightarrow> d \<notin> set ys \<Longrightarrow> split_pair d (xs @ d # ys) = Inr (xs, ys)"
  by (simp add: split_pair_def split_at_append split_at_none)

lemma number_charsD: "number_chars s \<Longrightarrow> d \<in> {CHR ''/'', CHR '':'', CHR '';'', CHR '',''} \<Longrightarrow> d \<notin> set s"
  by (auto simp: number_chars_def is_digit_def)

lemmas show_chars = number_charsD [OF number_chars_show(1)] number_charsD [OF number_chars_show(2)]

lemma parse_entry_of: "parse_entry (entry_of t) = Inr (tf_item t, formatted_amount t)"
proof -
  have "split_pair CHR '','' (entry_of t) = Inr (show_int (tf_item t), formatted_amount t)"
    unfolding entry_of_def formatted_amount_def by (rule split_pair_append) (rule show_chars, simp)+
  then show ?thesis by (simp add: parse_entry_def parse_show_int)
qed

lemma entry_chars: "d \<in> {CHR ''/'', CHR '':'', CHR '';''} \<Longrightarrow> d \<notin> set (entry_of t)"
  using show_chars [of d] by (auto simp: entry_of_def formatted_amount_def)

lemma join_chars: "d \<noteq> e \<Longrightarrow> (\<And>x. x \<in> set xs \<Longrightarrow> d \<notin> set x) \<Longrightarrow> d \<notin> set (join_with e xs)"
  by (induction e xs rule: join_with.induct) auto

lemma parse_entries:
  assumes "ts \<noteq> []"
  shows "rmap parse_entry (split_at CHR '';'' (join_with CHR '';'' (List.map entry_of ts))) =
    Inr (List.map (\<lambda>t. (tf_item t, formatted_amount t)) ts)"
proof -
  have "split_at CHR '';'' (join_with CHR '';'' (List.map entry_of ts)) = List.map entry_of ts"
    using assms entry_chars by (intro split_at_join) auto
  moreover have "rmap parse_entry (List.map entry_of ts) = Inr (List.map (\<lambda>t. (tf_item t, formatted_amount t)) ts)"
    by (induction ts) (simp_all add: parse_entry_of)
  ultimately show ?thesis by simp
qed

subsection \<open>An identifier of unpaid transfers reconciles\<close>

text \<open>What an entry is matched by.\<close>

definition entry_key :: "transfer \<Rightarrow> int \<times> string" where
  "entry_key t = (tf_item t, formatted_amount t)"

lemma reconcile_matching:
  assumes "entry_key u = (i, s)" and "u \<in> set unpaid"
    and "\<And>t. t \<in> set unpaid \<Longrightarrow> item_satisfies b (\<lambda>l. lit_program l = pr_id program) t \<and> fits (tf_amount t)"
  obtains t where "t \<in> set unpaid" and "entry_key t = (i, s)" and
    "reconcile_entry program payment trusted ids (unpaid, n, b) (i, s) =
      Inr (remove1 t unpaid, n + tf_amount t, overwrite (t\<lparr>tf_paid_in := Some (tf_id payment)\<rparr>) b)"
proof -
  have "find (\<lambda>t. tf_item t = i \<and> formatted_amount t = s) unpaid \<noteq> None"
    using assms(1,2) by (auto simp: find_None_iff entry_key_def)
  then obtain t where t: "find (\<lambda>t. tf_item t = i \<and> formatted_amount t = s) unpaid = Some t" by auto
  note in_pool = find_SomeD [OF t]
  have "u \<in> set (filter (\<lambda>t. tf_item t = i) unpaid)" using assms(1,2) by (simp add: entry_key_def)
  then obtain first rest where "filter (\<lambda>t. tf_item t = i) unpaid = first # rest" by (cases "filter (\<lambda>t. tf_item t = i) unpaid") auto
  then have "reconcile_entry program payment trusted ids (unpaid, n, b) (i, s) =
      Inr (remove1 t unpaid, n + tf_amount t, overwrite (t\<lparr>tf_paid_in := Some (tf_id payment)\<rparr>) b)"
    using in_pool assms(3) [of t] by (simp add: reconcile_entry_def t save_transfer_def overwrite_def)
  then show ?thesis using that [of t] in_pool by (simp add: entry_key_def)
qed

lemma reconcile_all:
  assumes "image_mset entry_key (mset unpaid) = mset items"
    and "\<And>t. t \<in> set unpaid \<Longrightarrow> item_satisfies b (\<lambda>l. lit_program l = pr_id program) t \<and> fits (tf_amount t)"
  shows "\<exists>c. rfold (reconcile_entry program payment trusted ids) (unpaid, n, b) items =
    Inr ([], n + sum_amounts unpaid, c)"
  using assms
proof (induction items arbitrary: unpaid n b)
  case Nil
  then show ?case by simp
next
  case (Cons e items)
  obtain i s where e: "e = (i, s)" by (cases e)
  have "(i, s) \<in># image_mset entry_key (mset unpaid)" using Cons.prems(1) by (simp add: e)
  then obtain u where u: "u \<in> set unpaid" "entry_key u = (i, s)" by auto
  from reconcile_matching [OF u(2,1) Cons.prems(2)] obtain t where
    t: "t \<in> set unpaid" "entry_key t = (i, s)" and
    step: "reconcile_entry program payment trusted ids (unpaid, n, b) (i, s) =
      Inr (remove1 t unpaid, n + tf_amount t, overwrite (t\<lparr>tf_paid_in := Some (tf_id payment)\<rparr>) b)"
    by metis
  let ?b = "overwrite (t\<lparr>tf_paid_in := Some (tf_id payment)\<rparr>) b"
  have ms: "mset unpaid = add_mset t (mset (remove1 t unpaid))" using t(1) by simp
  have sum: "sum_amounts unpaid = tf_amount t + sum_amounts (remove1 t unpaid)"
    unfolding sum_amounts_def by (rule sum_list_map_remove1 [OF t(1)])
  have "add_mset (entry_key t) (image_mset entry_key (mset (remove1 t unpaid))) = image_mset entry_key (mset unpaid)"
    using arg_cong [OF ms, of "image_mset entry_key"] by (simp only: image_mset_add_mset)
  also have "\<dots> = add_mset (i, s) (mset items)" using Cons.prems(1) by (simp only: e mset.simps)
  finally have "image_mset entry_key (mset (remove1 t unpaid)) = mset items"
    by (simp only: t(2) add_mset_add_mset_same_iff)
  moreover have "item_satisfies ?b (\<lambda>l. lit_program l = pr_id program) x \<and> fits (tf_amount x)"
    if "x \<in> set (remove1 t unpaid)" for x
    using Cons.prems(2) [of x] notin_set_remove1 that only_transfers_cong(8) [of b ?b] by fastforce
  ultimately obtain c where "rfold (reconcile_entry program payment trusted ids) (remove1 t unpaid, n + tf_amount t, ?b) items =
      Inr ([], n + tf_amount t + sum_amounts (remove1 t unpaid), c)"
    using Cons.IH by blast
  then show ?case by (simp add: e step sum algebra_simps)
qed

lemma from_id_get_id:
  assumes "get_row (\<lambda>r. pr_id r = pr_id program) (bk_programs b) = Inr program"
    and "get_row (\<lambda>r. r = user) (bk_users b) = Inr user"
  shows "from_id (get_id program user) b = Inr (program, user)"
proof -
  have "split_at CHR ''/'' (get_id program user) = [show_int (pr_id program), show_int user]"
    using show_chars(1) [of "CHR ''/''"] by (simp add: get_id_def split_at_append split_at_none)
  then show ?thesis using assms by (simp add: from_id_def py_nth_def parse_show_int)
qed

lemma identifier_parts:
  assumes "ts \<noteq> []"
  shows "split_pair CHR '':'' (get_id program user @ CHR '':'' # join_with CHR '';'' (List.map entry_of ts)) =
    Inr (get_id program user, join_with CHR '';'' (List.map entry_of ts))"
proof (rule split_pair_append)
  show "CHR '':'' \<notin> set (get_id program user)" using show_chars(1) [of "CHR '':''"] by (simp add: get_id_def)
  show "CHR '':'' \<notin> set (join_with CHR '';'' (List.map entry_of ts))"
    using entry_chars [of "CHR '':''"] by (intro join_chars) auto
qed

lemma identifier_reconciles:
  assumes sound: "sound b"
    and program: "get_row (\<lambda>r. pr_id r = pr_id program) (bk_programs b) = Inr program"
    and user: "get_row (\<lambda>r. r = user) (bk_users b) = Inr user"
    and ts: "get_transfers program user every_item b = Inr ts" "ts \<noteq> []" "\<And>t. t \<in> set ts \<Longrightarrow> tf_paid_in t = None"
    and written: "get_identifier program user b = Inr identifier"
    and amount: "as_cents amount = sum_amounts ts" "fits (sum_amounts ts)"
    and new: "\<not> already_recorded program user tid b"
    and payments: "default_payments_lineitemtype program b \<noteq> None"
  shows "\<exists>p c. record_payment_from_identifier identifier amount tid trusted b = Inr (p, c)"
proof -
  obtain source where source: "default_source_account b = Inr source"
    and ts': "ts = sort_key tf_id (filter (\<lambda>t. tf_item t \<in> lit_id ` set (get_lineitemtypes program every_item b))
      (transfers_of user b))"
    using ts(1) by (auto simp: get_transfers_def get_transfers_in_def rbind_Inr_iff)
  obtain l where l: "default_payments_lineitemtype program b = Some l" using payments by auto
  have "\<exists>p b'. create_payment program user amount tid b = Inr (p, b')"
    using amount by (auto simp: create_payment_def source l transfer_for_def create_transfer_def Let_def)
  then obtain p b' where create: "create_payment program user amount tid b = Inr (p, b')" by blast
  note pay = create_payment_effect [OF create]
  have ot: "only_transfers b b'" by (simp add: pay(9))
  let ?items = "List.map entry_key ts"
  have "filter (\<lambda>t. tf_item t \<in> tf_item ` set ts \<and> tf_id t \<noteq> tf_id p) (transfers_of user b') =
      filter (\<lambda>t. tf_item t \<in> lit_id ` set (get_lineitemtypes program every_item b)) (transfers_of user b)"
  proof -
    have "tf_id t \<noteq> tf_id p" if "t \<in> set (transfers_of user b)" for t
      using that sound_idD [OF sound, of t] pay(6) by (auto simp: transfers_of_def)
    then have "filter (\<lambda>t. tf_item t \<in> tf_item ` set ts \<and> tf_id t \<noteq> tf_id p) (transfers_of user b) =
        filter (\<lambda>t. tf_item t \<in> lit_id ` set (get_lineitemtypes program every_item b)) (transfers_of user b)"
      by (intro filter_cong) (auto simp: ts')
    then show ?thesis by (simp add: pay(9) transfers_of_enter pay(6))
  qed
  then have cands: "candidates user (List.map fst ?items) p b' = ts"
    by (simp add: candidates_def ts' entry_key_def)
  have unpaid: "filter (\<lambda>t. tf_paid_in t = None) ts = ts" "filter (\<lambda>t. tf_paid_in t \<noteq> None) ts = []"
    using ts(3) by (auto simp: filter_empty_conv intro!: filter_True)
  have "item_satisfies b' (\<lambda>l. lit_program l = pr_id program) t \<and> fits (tf_amount t)" if t: "t \<in> set ts" for t
  proof -
    obtain k where k: "k \<in> set (get_lineitemtypes program every_item b)" "lit_id k = tf_item t" and
      t_in: "t \<in> set (bk_transfers b)"
      using t by (auto simp: ts' transfers_of_def)
    have "item_of b t = Some k"
    proof (cases "item_of b t")
      case (Some k')
      then have "k' \<in> set (bk_items b)" "lit_id k' = lit_id k" using k(2) by (auto simp: item_of_def dest: find_SomeD)
      then show ?thesis using Some same_item [OF sound _ lineitemtypes_in [OF k(1)]] by blast
    qed (use k lineitemtypes_in [OF k(1)] in \<open>auto simp: item_of_def find_None_iff\<close>)
    moreover have "lit_program k = pr_id program"
      using lineitemtypes_Q_in [OF k(1)] by (simp add: lineitemtypes_Q_def every_item_def)
    ultimately show ?thesis
      using sound_validD [OF sound t_in] only_transfers_cong(8) [OF ot]
      by (simp add: item_satisfies_def valid_transfer_def)
  qed
  then obtain c where "rfold (reconcile_entry program p trusted (tf_item ` set (filter (\<lambda>t. tf_paid_in t \<noteq> None) ts)))
      (ts, 0, b') ?items = Inr ([], 0 + sum_amounts ts, c)"
    using reconcile_all [of ts ?items b' program p trusted _ 0] by fastforce
  then have "reconcile program user p trusted ?items b' = Inr c"
    using pay(4) amount(1) unfolding reconcile_def Let_def cands unpaid(1) by simp
  moreover have "identifier = get_id program user @ CHR '':'' # join_with CHR '';'' (List.map entry_of ts)"
    using written ts(1) by (simp add: get_identifier_def)
  ultimately have "record_payment_from_identifier identifier amount tid trusted b = Inr (p, c)"
    using identifier_parts [OF ts(2)] from_id_get_id [OF program user] new create parse_entries [OF ts(2)]
    by (simp add: record_payment_from_identifier_def submit_payment_def entry_key_def [abs_def])
  then show ?thesis by blast
qed

end
