(* ===== verification/Card_Payments.thy ===== *)
theory Card_Payments
  imports Payment_Records
begin

section \<open>Linking a payment to what it pays\<close>

text \<open>
  \<open>submit_payment\<close> with \<open>link_transfers\<close> adds up the prices of the transfers of the user as floats and compares the
  total with the decimal amount that has been paid. A price is exact as a float just when it is a multiple of a
  quarter (\<open>exact_price\<close>). So payments of exact prices are accepted and link all transfers (\<open>exact_payment_links\<close>), and
  a user who owes one item of any other price cannot pay it (\<open>inexact_payment_fails\<close>).
\<close>

subsection \<open>Exact floats\<close>

lemma exponent_unique:
  assumes "pow2 e \<le> x" and "x < pow2 (e + 1)"
  shows "exponent_of x = e"
proof -
  have "x > 0" using assms(1) pow2_pos [of e] by linarith
  note bounds = exponent_bounds [OF this]
  have less: "pow2 a < pow2 b \<Longrightarrow> a < b" for a b using pow2_mono [of b a] by (meson not_less)
  have "pow2 e < pow2 (exponent_of x + 1)" using assms(1) bounds(2) by linarith
  then have "e < exponent_of x + 1" by (rule less)
  moreover have "pow2 (exponent_of x) < pow2 (e + 1)" using assms(2) bounds(1) by linarith
  then have "exponent_of x < e + 1" by (rule less)
  ultimately show ?thesis by linarith
qed

lemma float_of_multiple:
  assumes "exponent_of \<bar>x\<bar> = e" and "x = of_int n * pow2 (e - 52)" and "x \<noteq> 0"
  shows "float_of x = x"
proof -
  have "x / pow2 (e - 52) = of_int n" using assms(2) by simp
  then show ?thesis using assms by (simp add: float_of_def Let_def)
qed

lemma round_half_even_bounds:
  assumes "of_int a \<le> x" and "x \<le> of_int b"
  shows "a \<le> round_half_even x" and "round_half_even x \<le> b"
  using assms round_half_even_error [of x] by (auto simp: round_half_even_def Let_def; linarith)+

lemma round_half_even_minus: "round_half_even (- x) = - round_half_even x"
proof (cases "x = of_int \<lfloor>x\<rfloor>")
  case True
  then show ?thesis by (metis of_int_minus round_half_even_int)
next
  case False
  then have "\<lfloor>- x\<rfloor> = - \<lfloor>x\<rfloor> - 1" by linarith
  then show ?thesis by (auto simp: round_half_even_def Let_def)
qed

lemma float_of_minus: "float_of (- x) = - float_of x"
  by (auto simp: float_of_def Let_def round_half_even_minus simp flip: minus_divide_left)

lemma float_of_pos_idem: "x > 0 \<Longrightarrow> float_of (float_of x) = float_of x"
proof -
  assume x: "x > 0"
  define e where "e = exponent_of x"
  define u where "u = pow2 (e - 52)"
  define n where "n = round_half_even (x / u)"
  have fx: "float_of x = of_int n * u" using x by (simp add: float_of_def Let_def e_def u_def n_def)
  have u: "u > 0" by (simp add: u_def)
  have scale: "pow2 e = of_int (2 ^ 52) * u" "pow2 (e + 1) = of_int (2 ^ 53) * u" "pow2 (e + 1 - 52) = 2 * u"
    using pow2_add [of "e - 52" 52] pow2_add [of "e - 52" 53] pow2_add [of "e - 52" 1]
    by (simp_all add: u_def pow2_def [of 52] pow2_def [of 53] pow2_def [of 1] algebra_simps)
  have "of_int (2 ^ 52) \<le> x / u" "x / u \<le> of_int (2 ^ 53)"
    using exponent_bounds [OF x] u unfolding e_def [symmetric] scale
    by (simp_all add: pos_le_divide_eq pos_divide_le_eq)
  then have n: "2 ^ 52 \<le> n" "n \<le> 2 ^ 53" unfolding n_def by (rule round_half_even_bounds)+
  have pos: "float_of x > 0" using n(1) u by (simp add: fx)
  show ?thesis
  proof (cases "n = 2 ^ 53")
    case True
    have "exponent_of \<bar>float_of x\<bar> = e + 1"
    proof (rule exponent_unique)
      show "pow2 (e + 1) \<le> \<bar>float_of x\<bar>" "\<bar>float_of x\<bar> < pow2 (e + 1 + 1)"
        using True pos u pow2_add [of "e + 1" 1] by (simp_all add: fx scale pow2_def [of 1])
    qed
    moreover have "float_of x = of_int (2 ^ 52) * pow2 (e + 1 - 52)" by (simp only: fx True scale(3)) simp
    ultimately show ?thesis using float_of_multiple pos by (metis less_irrefl)
  next
    case False
    have "exponent_of \<bar>float_of x\<bar> = e"
    proof (rule exponent_unique)
      have "of_int (2 ^ 52) * u \<le> of_int n * u" using n(1) u by (simp only: mult_le_cancel_right_pos of_int_le_iff)
      then show "pow2 e \<le> \<bar>float_of x\<bar>" using pos by (simp add: fx scale)
      have "of_int n * u < of_int (2 ^ 53) * u"
        using n(2) False unfolding mult_less_cancel_right_pos [OF u] of_int_less_iff by simp
      then show "\<bar>float_of x\<bar> < pow2 (e + 1)" using pos by (simp add: fx scale)
    qed
    then show ?thesis by (metis float_of_multiple fx less_irrefl pos u_def)
  qed
qed

lemma float_of_idem: "float_of (float_of x) = float_of x"
proof -
  consider "x > 0" | "x = 0" | "- x > 0" by linarith
  then show ?thesis
  proof cases
    case 3
    then show ?thesis using float_of_pos_idem [of "- x"] by (simp add: float_of_minus)
  next
    case 1
    then show ?thesis by (rule float_of_pos_idem)
  qed (simp add: float_of_def)
qed

lemma exact_price:
  assumes "fits c"
  shows "float_of (dollars c) = dollars c \<longleftrightarrow> 25 dvd c"
proof
  assume "25 dvd c"
  then obtain k where k: "c = 25 * k" ..
  then have "\<bar>k\<bar> < 2 ^ 52" using assms by (simp add: fits_def)
  then show "float_of (dollars c) = dollars c" using float_exact [of k] by (simp add: dollars_def k)
next
  assume exact: "float_of (dollars c) = dollars c"
  obtain r e where "float_of (dollars c) = of_int r * pow2 e"
    by (cases "dollars c = 0") (auto simp: float_of_def Let_def intro: that [of 0 0])
  then have eq: "of_int c = 100 * (of_int r * pow2 e)" using exact by (simp add: dollars_def field_simps)
  show "25 dvd c"
  proof (cases "e \<ge> 0")
    case True
    then have "(of_int c :: rat) = of_int (25 * (4 * r * 2 ^ nat e))" using eq by (simp add: pow2_def)
    then have "c = 25 * (4 * r * 2 ^ nat e)" by (simp only: of_int_eq_iff)
    then show ?thesis by simp
  next
    case False
    then have "(of_int (c * 2 ^ nat (- e)) :: rat) = of_int (25 * (4 * r))" using eq by (simp add: pow2_def field_simps)
    then have "c * 2 ^ nat (- e) = 25 * (4 * r)" by (simp only: of_int_eq_iff)
    then have "25 dvd c * 2 ^ nat (- e)" by (metis dvd_triv_left)
    moreover have "coprime (25 :: int) 2" by (simp add: coprime_iff_gcd_eq_1 gcd_non_0_int)
    then have "coprime (25 :: int) (2 ^ nat (- e))" by (simp only: coprime_power_right_iff simp_thms)
    ultimately show ?thesis by (simp add: coprime_dvd_mult_left_iff)
  qed
qed

subsection \<open>The loop over exact prices\<close>

lemma dollars_add: "dollars (a + b) = dollars a + dollars b"
  by (simp add: dollars_def add_divide_distrib)

lemma dollars_le: "dollars a \<le> dollars b \<longleftrightarrow> a \<le> b"
  by (simp add: dollars_def divide_le_cancel)

lemma dollars_eq: "dollars a = dollars b \<longleftrightarrow> a = b"
  by (simp add: dollars_def)

lemma as_cents_dollars: "fits c \<Longrightarrow> as_cents (dollars c) = c"
  by (simp add: as_cents_def cents_roundtrip)

lemma fits_as_cents:
  assumes "fits (as_cents (dollars c))"
  shows "as_cents (dollars c) = c"
proof -
  let ?d = "of_int (as_cents (dollars c)) :: rat"
  have 1: "\<bar>?d - 100 * float_of (dollars c)\<bar> \<le> 1 / 2"
    using round_half_even_error [of "100 * float_of (dollars c)"] by (simp add: as_cents_def to_cents_def)
  have "\<bar>100 * float_of (dollars c) - of_int c\<bar> = 100 * \<bar>float_of (dollars c) - dollars c\<bar>"
    by (simp add: dollars_def abs_if field_simps)
  also have "\<dots> \<le> 100 * (\<bar>dollars c\<bar> / 2 ^ 53)" by (intro mult_left_mono float_error) simp
  also have "\<dots> = \<bar>of_int c\<bar> / 2 ^ 53" by (simp add: dollars_def)
  finally have 2: "\<bar>100 * float_of (dollars c) - of_int c\<bar> \<le> \<bar>of_int c :: rat\<bar> / 2 ^ 53" .
  have 3: "\<bar>?d\<bar> \<le> 1000000000 - 1" using assms unfolding fits_def by linarith
  have "\<bar>of_int c :: rat\<bar> - \<bar>of_int c\<bar> / 2 ^ 53 \<le> \<bar>?d\<bar> + 1 / 2" using 1 2 by linarith
  then have "\<bar>of_int c :: rat\<bar> < 1000000000" using 3 by simp
  then have "fits c" unfolding fits_def by linarith
  then show ?thesis by (rule as_cents_dollars)
qed

definition linked :: "books \<Rightarrow> int \<Rightarrow> bool" where
  "linked b i \<longleftrightarrow> (\<exists>t\<in>set (bk_transfers b). tf_id t = i \<and> tf_paid_in t \<noteq> None)"

lemma linked_overwrite:
  assumes "linked b i" and "tf_paid_in t \<noteq> None"
  shows "linked (overwrite t b) i"
proof -
  from assms(1) obtain x where x: "x \<in> set (bk_transfers b)" "tf_id x = i" "tf_paid_in x \<noteq> None"
    by (auto simp: linked_def)
  show ?thesis
  proof (cases "tf_id x = tf_id t")
    case True
    then show ?thesis using overwrite_has [OF x(1) True] x(2) assms(2) by (auto simp: linked_def)
  next
    case False
    then show ?thesis using overwrite_keeps [OF x(1) False] x by (auto simp: linked_def)
  qed
qed

lemma link_loop_exact:
  assumes "\<And>t. t \<in> set ts \<Longrightarrow> 0 < tf_amount t \<and> 25 dvd tf_amount t \<and> fits (tf_amount t)"
    and "0 \<le> n" and "25 dvd n" and "fits (n + sum_amounts ts)" and "set ts \<subseteq> set (bk_transfers b)"
    and "distinct (map tf_id ts)"
  shows "\<exists>c. link_loop p (dollars (n + sum_amounts ts)) (dollars n) ts b = Inr (dollars (n + sum_amounts ts), c) \<and>
    (\<forall>i. i \<in> tf_id ` set ts \<or> linked b i \<longrightarrow> linked c i)"
  using assms
proof (induction ts arbitrary: n b)
  case (Cons t ts)
  let ?m = "n + tf_amount t"
  let ?t = "t\<lparr>tf_paid_in := Some p\<rparr>"
  let ?b = "if tf_paid_in t = None then overwrite ?t b else b"
  have t: "0 < tf_amount t" "25 dvd tf_amount t" "fits (tf_amount t)" using Cons.prems(1) [of t] by auto
  have rest: "0 \<le> sum_amounts ts" unfolding sum_amounts_def using Cons.prems(1) by (intro sum_list_nonneg) force
  have m: "fits ?m" "25 dvd ?m" "0 \<le> ?m" using Cons.prems(2-4) t rest by (auto simp: fits_def)
  have acc: "float_add (dollars n) (float_of (dollars (tf_amount t))) = dollars ?m"
    using exact_price [OF t(3)] exact_price [OF m(1)] t(2) m(2) by (simp add: float_add_def flip: dollars_add)
  have save: "rbind (if tf_paid_in t = None then save_transfer ?t b else Inr b) f = f ?b" for f :: "books \<Rightarrow> 'a result"
    using t(3) by (simp add: save_transfer_def overwrite_def)
  have keep: "linked ?b i" if "i = tf_id t \<or> linked b i" for i
  proof (cases "tf_paid_in t = None")
    case True
    then have "linked ?b (tf_id t)" using overwrite_has [of t b ?t] Cons.prems(5) by (auto simp: linked_def intro!: bexI [of _ ?t])
    then show ?thesis using True that linked_overwrite [of b i ?t] by auto
  qed (use that Cons.prems(5) in \<open>auto simp: linked_def\<close>)
  show ?case
  proof (cases "ts = []")
    case True
    then show ?thesis using keep by (auto simp: acc save Let_def)
  next
    case False
    then obtain u us where "ts = u # us" by (cases ts) auto
    then have "0 < sum_amounts ts" using rest Cons.prems(1) [of u] Cons.prems(1)
      by (auto simp: sum_amounts_def intro!: add_pos_nonneg sum_list_nonneg) force
    then have go: "\<not> dollars ?m \<ge> dollars (n + sum_amounts (t # ts))" by (simp add: dollars_le)
    have "set ts \<subseteq> set (bk_transfers ?b)"
      using overwrite_set_keeps [OF Cons.prems(5,6), of ?t] Cons.prems(5) by simp
    then have "\<exists>c. link_loop p (dollars (?m + sum_amounts ts)) (dollars ?m) ts ?b = Inr (dollars (?m + sum_amounts ts), c) \<and>
        (\<forall>i. i \<in> tf_id ` set ts \<or> linked ?b i \<longrightarrow> linked c i)"
      using Cons.prems(1,4,6) m(2,3) by (intro Cons.IH) (simp_all add: add.assoc)
    then obtain c where c: "link_loop p (dollars (?m + sum_amounts ts)) (dollars ?m) ts ?b = Inr (dollars (?m + sum_amounts ts), c)"
      and linked: "\<And>i. i \<in> tf_id ` set ts \<or> linked ?b i \<Longrightarrow> linked c i"
      by blast
    have "link_loop p (dollars (n + sum_amounts (t # ts))) (dollars n) (t # ts) b =
        link_loop p (dollars (n + sum_amounts (t # ts))) (dollars ?m) ts ?b"
      using go by (simp only: link_loop.simps Let_def acc save if_False)
    also have "\<dots> = Inr (dollars (n + sum_amounts (t # ts)), c)" using c by (simp add: add.assoc)
    finally show ?thesis using linked keep by auto
  qed
qed simp

subsection \<open>The transfers that are linked\<close>

lemma linkable_enter:
  assumes "create_payment program user amount tid b = Inr (p, c)" and "sound b"
  shows "linkable program user c = linkable program user b"
proof -
  note pay = create_payment_effect [OF assms(1)]
  have ot: "only_transfers b c" by (simp add: pay(9))
  obtain l where l: "default_payments_lineitemtype program b = Some l" "lit_id l = tf_item p"
    using pay(11) by (auto simp: has_item_def)
  let ?q = "\<lambda>l. \<not> lit_for_payments l \<and> lit_text l \<notin> set finaid_items"
  have "\<not> item_satisfies b ?q p"
  proof (cases "item_of b p")
    case (Some k)
    then have "k \<in> set (bk_items b)" "lit_id k = lit_id l" using l(2) by (auto simp: item_of_def dest: find_SomeD)
    then have "k = l" using same_item [OF assms(2) _ payments_in [OF l(1)]] by blast
    then show ?thesis using Some payments_for [OF l(1)] by (simp add: item_satisfies_def)
  qed (simp add: item_satisfies_def)
  then show ?thesis
    by (simp add: linkable_def filter_sort only_transfers_cong [OF ot]) (simp add: pay(9,10) transfers_of_enter conj_commute)
qed

text \<open>The target of a payment of what is due is what was requested.\<close>

lemma target_of_due:
  assumes "create_payment program user (dollars (due_now program user b)) tid b = Inr (p, c)" and "sound b"
    and "settled program user b" and "own_account program b" and "fits (due_now program user b)"
  shows "amount_paid program user c + sibling_now program user c + aid_now program user c - refunded_now program user c =
    requested_now program user False b"
proof -
  note e = payment_entered [OF assms(1-4)]
  have "due_now program user c = 0" using e(2) as_cents_dollars [OF assms(5)] by simp
  moreover have "requested_now program user False c = requested_now program user False b"
  proof -
    from assms(1) obtain target where target: "default_source_account b = Inr target"
      and p: "tf_destination p = Some (ac_id target)"
      by (auto simp: create_payment_def rbind_Inr_iff transfer_for_Inr create_transfer_Inr enter_def)
    then show ?thesis
      using own_account_other(1) [OF assms(2,4) target] by (simp add: create_payment_effect(9) [OF assms(1)] amounts_enter(1))
  qed
  ultimately show ?thesis by (simp add: due_now_def)
qed

lemma link_paid_due:
  assumes "create_payment program user (dollars (due_now program user b)) tid b = Inr (p, c)" and "sound b"
    and "settled program user b" and "own_account program b" and "fits (due_now program user b)"
  shows "link_paid_transfers program user p c =
    rbind (link_loop (tf_id p) (dollars (requested_now program user False b)) 0 (linkable program user b) c) (\<lambda>(reached, c').
    if reached \<noteq> dollars (requested_now program user False b)
    then Inl (ValueError ''Transfers do not sum to target'') else Inr c')"
proof -
  note e = payment_entered [OF assms(1-4)]
  obtain source where "default_source_account c = Inr source" using e(1) by (auto simp: settled_def)
  then show ?thesis
    by (simp add: link_paid_transfers_def settled_amounts [OF e(1)] target_of_due [OF assms] Let_def
        linkable_enter [OF assms(1,2)])
qed

lemma exact_payment_links:
  assumes "sound b" and "settled program user b" and "own_account program b"
    and "default_payments_lineitemtype program b \<noteq> None"
    and "\<And>t. t \<in> set (linkable program user b) \<Longrightarrow> 0 < tf_amount t \<and> 25 dvd tf_amount t"
    and "sum_amounts (linkable program user b) = requested_now program user False b"
    and "fits (requested_now program user False b)" and "fits (due_now program user b)"
  shows "\<exists>p c. submit_payment program user (dollars (due_now program user b)) tid True b = Inr (p, c) \<and>
    amount_due program user c = Inr (0, c) \<and> (\<forall>t\<in>set (linkable program user b). linked c (tf_id t))"
proof -
  let ?due = "due_now program user b"
  let ?ts = "linkable program user b"
  obtain source l where source: "default_source_account b = Inr source"
    and l: "default_payments_lineitemtype program b = Some l"
    using assms(2,4) by (auto simp: settled_def)
  have "\<exists>p c. create_payment program user (dollars ?due) tid b = Inr (p, c)"
    using assms(8) by (auto simp: create_payment_def source l transfer_for_def create_transfer_def Let_def
        as_cents_dollars)
  then obtain p c where create: "create_payment program user (dollars ?due) tid b = Inr (p, c)" by blast
  note props = linkable_props(1,2) [OF assms(1), of program user]
  have "set ?ts \<subseteq> set (bk_transfers c)"
    using props(1) by (auto simp: create_payment_effect(9) [OF create] enter_def)
  moreover have "fits (tf_amount t)" if "t \<in> set ?ts" for t
    using sound_validD [OF assms(1)] props(1) that by (auto simp: valid_transfer_def)
  ultimately obtain c' where loop: "link_loop (tf_id p) (dollars (0 + sum_amounts ?ts)) (dollars 0) ?ts c =
      Inr (dollars (0 + sum_amounts ?ts), c')"
    and linked: "\<And>i. i \<in> tf_id ` set ?ts \<Longrightarrow> linked c' i"
    using link_loop_exact [of ?ts 0 c "tf_id p"] assms(5-7) props(2) by auto
  have "dollars 0 = 0" by (simp add: dollars_def)
  then have "submit_payment program user (dollars ?due) tid True b = Inr (p, c')"
    using loop assms(6) link_paid_due [OF create assms(1-3,8)] by (simp add: submit_payment_def create)
  moreover from payment_lowers_due(1) [OF this assms(1-3)] have "amount_due program user c' = Inr (0, c')"
    using as_cents_dollars [OF assms(8)] by simp
  ultimately show ?thesis using linked by blast
qed

lemma inexact_payment_fails:
  assumes "sound b" and "settled program user b" and "own_account program b"
    and "default_payments_lineitemtype program b \<noteq> None"
    and "linkable program user b = [t]" and "tf_amount t = requested_now program user False b"
    and "\<not> 25 dvd tf_amount t" and "fits (due_now program user b)"
  shows "submit_payment program user (dollars (due_now program user b)) tid True b =
    Inl (ValueError ''Transfers do not sum to target'')"
proof -
  let ?due = "due_now program user b"
  obtain source l where source: "default_source_account b = Inr source"
    and l: "default_payments_lineitemtype program b = Some l"
    using assms(2,4) by (auto simp: settled_def)
  have "\<exists>p c. create_payment program user (dollars ?due) tid b = Inr (p, c)"
    using assms(8) by (auto simp: create_payment_def source l transfer_for_def create_transfer_def Let_def
        as_cents_dollars)
  then obtain p c where create: "create_payment program user (dollars ?due) tid b = Inr (p, c)" by blast
  have t: "fits (tf_amount t)"
    using sound_validD [OF assms(1)] linkable_props(1) [OF assms(1), of program user] assms(5)
    by (auto simp: valid_transfer_def)
  have "float_of (dollars (tf_amount t)) \<noteq> dollars (tf_amount t)" using exact_price [OF t] assms(7) by simp
  then have "float_add 0 (float_of (dollars (tf_amount t))) \<noteq> dollars (requested_now program user False b)"
    using assms(6) by (simp add: float_add_def float_of_idem)
  then have "link_paid_transfers program user p c = Inl (ValueError ''Transfers do not sum to target'')"
    using t by (auto simp: link_paid_due [OF create assms(1-3,8)] assms(5) Let_def save_transfer_def rbind_def)
  then show ?thesis by (simp add: submit_payment_def create)
qed

end
