(* ===== verification/Stripe.thy ===== *)
theory Stripe
  imports Preferences Card_Payments
begin

section \<open>Card payments and refunds with Stripe\<close>

text \<open>
  The views that charge a card (\<open>charge\_payment\<close> of program/modules/handlers/creditcardmodule\_stripe.py) and refund
  one (\<open>process\_refund\<close> of accounting/refund\_views.py), with the texts of their forms as arguments. Stripe itself is an
  argument: \<open>charge\<close> and \<open>refunds\<close> give its answer to a request, the id of the charge or refund or an error. Mails
  and pages are left out.

  \<open>charge_payment_cases\<close> and \<open>pay_and_charge_settles\<close>: a charge that goes through is for the amount due, and leaves
  nothing due. \<open>refund_fold\<close>: what is recorded of refunds.
\<close>

subsection \<open>Charging a card\<close>

datatype charge_outcome =
    Charged transfer rat
  | Not_Charged string

text \<open>What \<open>check_setup\<close> adds to the books when donations are offered.\<close>

definition check_setup :: "program_row \<Rightarrow> bool \<Rightarrow> string \<Rightarrow> books \<Rightarrow> books result" where
  "check_setup program offer_donation donation_label b =
     (if offer_donation
      then rbind (get_or_create_item (\<lambda>l. lit_text l = donation_label \<and> lit_program l = pr_id program \<and> \<not> lit_required l)
        (new_item (pr_id program) donation_label) b) (\<lambda>(_, b'). Inr b')
      else Inr b)"

text \<open>The donation of a valid form that is posted is entered; its amount is a text or a decimal number other than zero, so true.\<close>

definition set_donation :: "program_row \<Rightarrow> int \<Rightarrow> string \<Rightarrow> int option \<Rightarrow> books \<Rightarrow> books result" where
  "set_donation program user donation_label donation b =
     rbind (item_with_text program donation_label b) (\<lambda>(l, b).
     rbind (get_preferences program user (Some [l]) b) (\<lambda>_.
     case donation of
       None \<Rightarrow> Inr b
     | Some amount \<Rightarrow>
         rbind (set_preference program user ''Donation to Learning Unlimited'' 0 None None b) (\<lambda>(_, b).
         rbind (set_preference program user ''Donation to Learning Unlimited'' 1 (Some amount) None b) (\<lambda>(_, b).
         Inr b))))"

text \<open>
  The payment is entered before the card is charged and taken back with all its links when Stripe refuses. The
  transaction id of the payment is that of the charge.
\<close>

definition pay_and_charge ::
  "program_row \<Rightarrow> int \<Rightarrow> rat \<Rightarrow> (rat \<Rightarrow> string + string) \<Rightarrow> books \<Rightarrow> (charge_outcome \<times> books) result" where
  "pay_and_charge program user cents charge b =
     rbind (submit_payment program user (cents / 100) ''TBD'' True b) (\<lambda>(payment, b').
     case charge cents of
       Inl e \<Rightarrow> Inr (Not_Charged e, b)
     | Inr i \<Rightarrow>
         let payment' = payment\<lparr>tf_transaction := i\<rparr> in
         rbind (save_transfer payment' b') (\<lambda>b''. Inr (Charged payment' cents, b'')))"

definition charge_payment ::
  "program_row \<Rightarrow> int \<Rightarrow> bool \<Rightarrow> bool \<Rightarrow> string \<Rightarrow> bool \<Rightarrow> int option \<Rightarrow> string \<Rightarrow> string \<Rightarrow> bool \<Rightarrow>
   (rat \<Rightarrow> string + string) \<Rightarrow> books \<Rightarrow> (charge_outcome \<times> books) result" where
  "charge_payment program user keys_valid offer_donation donation_label post donation ponumber totalcost_cents has_token charge b =
     rbind (check_setup program offer_donation donation_label b) (\<lambda>b.
     rbind (raise_if (\<not> keys_valid) (OtherError ''ESPError'')) (\<lambda>_.
     rbind (if post then set_donation program user donation_label donation b else Inr b) (\<lambda>b.
     if ponumber \<noteq> get_id program user then Inr (Not_Charged ''inconsistent_po'', b)
     else case parse_decimal totalcost_cents of
       None \<Rightarrow> Inr (Not_Charged ''missing_fields'', b)
     | Some posted \<Rightarrow>
         rbind (amount_due program user b) (\<lambda>(due, b).
         if posted \<noteq> Finite (of_int due) then Inr (Not_Charged ''inconsistent_amount'', b)
         else if \<not> has_token then Inr (Not_Charged ''missing_fields'', b)
         else pay_and_charge program user (of_int due) charge b))))"

subsection \<open>What a charge does\<close>

lemma check_setup_steps:
  "check_setup program offer donation_label b = Inr c \<Longrightarrow> ledger_steps user b c"
  by (auto simp: check_setup_def rbind_Inr_iff dest: item_steps split: if_splits)

lemma set_donation_steps:
  assumes "set_donation program user donation_label donation b = Inr c" and "sound b"
  shows "ledger_steps user b c"
proof -
  from assms(1) obtain l b1 where 1: "item_with_text program donation_label b = Inr (l, b1)"
    and rest: "(case donation of
       None \<Rightarrow> Inr b1
     | Some amount \<Rightarrow>
         rbind (set_preference program user ''Donation to Learning Unlimited'' 0 None None b1) (\<lambda>(_, b).
         rbind (set_preference program user ''Donation to Learning Unlimited'' 1 (Some amount) None b) (\<lambda>(_, b).
         Inr b))) = Inr c"
    by (auto simp: set_donation_def rbind_Inr_iff)
  have s1: "ledger_steps user b b1" using 1 item_steps(1) by (simp add: item_with_text_def)
  note sound1 = steps_sound [OF s1 assms(2)]
  have "ledger_steps user b1 c"
  proof (cases donation)
    case (Some amount)
    with rest obtain ts b2 us where
      2: "set_preference program user ''Donation to Learning Unlimited'' 0 None None b1 = Inr (ts, b2)" and
      3: "set_preference program user ''Donation to Learning Unlimited'' 1 (Some amount) None b2 = Inr (us, c)"
      by (auto simp: rbind_Inr_iff)
    note s2 = set_preference_steps [OF 2 sound1]
    show ?thesis using s2 set_preference_steps [OF 3 steps_sound [OF s2 sound1]] by (rule steps_trans)
  qed (use rest in simp)
  with s1 show ?thesis by (rule steps_trans)
qed

text \<open>The payment itself is not among the transfers that are linked to it.\<close>

lemma link_loop_keeps:
  assumes "link_loop p target acc ts b = Inr (r, c)" and "x \<in> set (bk_transfers b)" and "tf_id x \<notin> tf_id ` set ts"
  shows "x \<in> set (bk_transfers c)"
  using assms
proof (induction ts arbitrary: acc b)
  case (Cons t ts)
  let ?acc = "float_add acc (float_of (dollars (tf_amount t)))"
  from Cons.prems(1) obtain b1 where
    b1: "b1 = (if tf_paid_in t = None then overwrite (t\<lparr>tf_paid_in := Some p\<rparr>) b else b)" and
    rest: "b1 = c \<or> link_loop p target ?acc ts b1 = Inr (r, c)"
    by (auto simp: Let_def rbind_Inr_iff save_transfer_Inr split: if_splits)
  have "x \<in> set (bk_transfers b1)" using Cons.prems(2,3) by (auto simp: b1 intro!: overwrite_keeps)
  then show ?case using rest Cons.IH [of ?acc b1] Cons.prems(3) by auto
qed simp

lemma payment_unlinked:
  assumes "submit_payment program user amount tid True b = Inr (p, c)" and "sound b" and "settled program user b"
    and "own_account program b"
  shows "p \<in> set (bk_transfers c)" and "tf_paid_in p = None" and "tf_amount p = as_cents amount"
    and "fits (tf_amount p)"
proof -
  from assms(1) obtain b' where create: "create_payment program user amount tid b = Inr (p, b')"
    and link: "link_paid_transfers program user p b' = Inr c"
    by (auto simp: submit_payment_def rbind_Inr_iff)
  note pay = create_payment_effect [OF create]
  note e = payment_entered [OF create assms(2-4)]
  from link obtain target r where loop:
    "link_loop (tf_id p) target 0 (linkable program user b') b' = Inr (r, c)"
    by (auto simp: link_paid_transfers_def Let_def rbind_Inr_iff settled_amounts [OF e(1)] split: if_splits)
  have "tf_id p \<notin> tf_id ` set (linkable program user b')"
    unfolding linkable_enter [OF create assms(2)]
    using sound_idD [OF assms(2)] linkable_props(1) [OF assms(2), of program user] pay(6) by fastforce
  then show "p \<in> set (bk_transfers c)" by (rule link_loop_keeps [OF loop pay(3)])
  show "tf_paid_in p = None" "tf_amount p = as_cents amount" "fits (tf_amount p)" using pay by simp_all
qed

text \<open>A charge that goes through is for the amount due, which it settles.\<close>

lemma pay_and_charge_settles:
  assumes "pay_and_charge program user (of_int due) charge b = Inr (Charged payment cents, c)"
    and "sound b" and "settled program user b" and "own_account program b" and "due = due_now program user b"
  shows "amount_due program user c = Inr (0, c)" and "charge (of_int due) = Inr (tf_transaction payment)"
    and "tf_amount payment = due" and "payment \<in> set (bk_transfers c)" and "cents = of_int due"
proof -
  from assms(1) obtain p b' where submit: "submit_payment program user (of_int due / 100) ''TBD'' True b = Inr (p, b')"
    and rest: "(case charge (of_int due) of
       Inl e \<Rightarrow> Inr (Not_Charged e, b)
     | Inr i \<Rightarrow>
         rbind (save_transfer (p\<lparr>tf_transaction := i\<rparr>) b') (\<lambda>b''. Inr (Charged (p\<lparr>tf_transaction := i\<rparr>) (of_int due), b''))) =
      Inr (Charged payment cents, c)"
    unfolding pay_and_charge_def Let_def rbind_Inr_iff by auto
  then obtain i where i: "charge (of_int due) = Inr i" and payment: "payment = p\<lparr>tf_transaction := i\<rparr>" "cents = of_int due"
    and c: "c = overwrite payment b'"
    by (cases "charge (of_int due)") (auto simp: rbind_Inr_iff save_transfer_Inr)
  have dollars: "of_int due / 100 = dollars due" by (simp add: dollars_def)
  note p = payment_unlinked [OF submit assms(2-4)]
  have amount: "as_cents (of_int due / 100) = due" using fits_as_cents p(3,4) unfolding dollars by simp
  note lower = payment_lowers_due [OF submit assms(2-4)]
  have sound': "sound b'" using submit_payment_steps [OF submit assms(2)] steps_sound assms(2) by blast
  have "amount_due program user b' = Inr (due_now program user b', b')" by (rule settled_amounts [OF lower(2)])
  then have zero: "due_now program user b' = 0" using lower(1) amount assms(5) by simp
  have same: "p\<lparr>tf_transaction := i, tf_paid_in := None\<rparr> = p\<lparr>tf_transaction := i\<rparr>" using p(2) by (cases p) simp
  have re: "relinked b' c"
    using relinked_overwrite [OF sound' p(1), of None i] p(2) unfolding c payment same by simp
  then have "settled program user c" by (rule relinked_settled) (rule lower(2))
  moreover have "due_now program user c = 0" using relinked_amounts(6) [OF re] zero by simp
  ultimately show "amount_due program user c = Inr (0, c)" using settled_amounts(6) by simp
  show "charge (of_int due) = Inr (tf_transaction payment)" "cents = of_int due" using i payment by simp_all
  show "tf_amount payment = due" using amount p(3) by (simp add: payment)
  show "payment \<in> set (bk_transfers c)" unfolding c by (rule overwrite_has [OF p(1)]) (simp add: payment)
qed

lemma charge_payment_cases:
  assumes "charge_payment program user keys_valid offer donation_label post donation ponumber totalcost has_token charge b =
      Inr (r, c)" and "sound b" and "own_account program b"
  obtains (not_tried) e where "r = Not_Charged e"
  | (tried) b' where "ledger_steps user b b'" and "sound b'" and "own_account program b'" and "settled program user b'"
      and "parse_decimal totalcost = Some (Finite (of_int (due_now program user b')))"
      and "pay_and_charge program user (of_int (due_now program user b')) charge b' = Inr (r, c)"
proof -
  from assms(1) obtain b1 b2 where 1: "check_setup program offer donation_label b = Inr b1"
    and 2: "(if post then set_donation program user donation_label donation b1 else Inr b1) = Inr b2"
    and rest: "(if ponumber \<noteq> get_id program user then Inr (Not_Charged ''inconsistent_po'', b2)
     else case parse_decimal totalcost of
       None \<Rightarrow> Inr (Not_Charged ''missing_fields'', b2)
     | Some posted \<Rightarrow>
         rbind (amount_due program user b2) (\<lambda>(due, b).
         if posted \<noteq> Finite (of_int due) then Inr (Not_Charged ''inconsistent_amount'', b)
         else if \<not> has_token then Inr (Not_Charged ''missing_fields'', b)
         else pay_and_charge program user (of_int due) charge b)) = Inr (r, c)"
    by (auto simp: charge_payment_def rbind_Inr_iff)
  note s1 = check_setup_steps [OF 1, of user]
  have "ledger_steps user b1 b2"
    using 2 set_donation_steps [OF _ steps_sound [OF s1 assms(2)]] by (cases post) auto
  with s1 have s2: "ledger_steps user b b2" by (rule steps_trans)
  show thesis
  proof (cases "\<exists>e. r = Not_Charged e \<and> \<not> (\<exists>due b3. amount_due program user b2 = Inr (due, b3) \<and>
      parse_decimal totalcost = Some (Finite (of_int due)) \<and> pay_and_charge program user (of_int due) charge b3 = Inr (r, c))")
    case True
    then show ?thesis using not_tried by blast
  next
    case False
    with rest obtain due b3 where due: "amount_due program user b2 = Inr (due, b3)"
      and posted: "parse_decimal totalcost = Some (Finite (of_int due))"
      and pay: "pay_and_charge program user (of_int due) charge b3 = Inr (r, c)"
      by (auto simp: rbind_Inr_iff split: if_splits option.splits)
    note sound2 = steps_sound [OF s2 assms(2)]
    have own2: "own_account program b2" using own_account_kept [OF steps_tables [OF s2 assms(2)]] assms(3) by simp
    note s3 = amount_due_steps [OF due sound2]
    note settle = amount_due_settles [OF due sound2 own2]
    show ?thesis
    proof (rule tried)
      show "ledger_steps user b b3" by (rule steps_trans [OF s2 s3])
      show "sound b3" by (rule steps_sound [OF s3 sound2])
      show "own_account program b3" using own_account_kept [OF steps_tables [OF s3 sound2]] own2 by simp
      show "settled program user b3" by (rule settle(1))
      show "parse_decimal totalcost = Some (Finite (of_int (due_now program user b3)))" using posted settle(2) by simp
      show "pay_and_charge program user (of_int (due_now program user b3)) charge b3 = Inr (r, c)"
        using pay settle(2) by simp
    qed
  qed
qed

subsection \<open>Refunds\<close>

text \<open>
  The refunds that the form asks for: the ids of payments and the amounts, as texts. Entries that cannot be read,
  are not positive or are no payment to the program are skipped.
\<close>

definition requested_refund ::
  "program_row \<Rightarrow> string \<times> string \<Rightarrow> books \<Rightarrow> (transfer \<times> number) option result" where
  "requested_refund program = (\<lambda>(transfer_id, text) b.
     case parse_decimal text of
       None \<Rightarrow> Inr None
     | Some amount \<Rightarrow>
         if (case amount of Finite a \<Rightarrow> a > 0 | Infinite \<Rightarrow> True | _ \<Rightarrow> False)
         then case parse_int transfer_id of
             Inl _ \<Rightarrow> Inr None
           | Inr i \<Rightarrow>
               rbind (fetch (\<lambda>t. tf_id t = i \<and> has_item (default_payments_lineitemtype program b) t \<and> tf_source t = None)
                 (bk_transfers b)) (\<lambda>found.
               Inr (case found of None \<Rightarrow> None | Some t \<Rightarrow> Some (t, amount)))
         else Inr None)"

text \<open>Amounts are cut off at the cent for Stripe, and rounded for the books.\<close>

definition refund_one ::
  "program_row \<Rightarrow> (string \<Rightarrow> int \<Rightarrow> string option) \<Rightarrow> (transfer \<times> bool) list \<times> books \<Rightarrow> transfer \<times> number \<Rightarrow>
   ((transfer \<times> bool) list \<times> books) result" where
  "refund_one program refunds = (\<lambda>(results, b) (t, amount).
     case amount of
       Finite a \<Rightarrow>
         (case tf_user t of
            None \<Rightarrow> Inl AttributeError
          | Some user \<Rightarrow>
              (case refunds (tf_transaction t) \<lfloor>a * 100\<rfloor> of
                 None \<Rightarrow> Inr (results @ [(t, False)], b)
               | Some i \<Rightarrow> rbind (record_refund program user a i b) (\<lambda>(_, b'). Inr (results @ [(t, True)], b'))))
     | _ \<Rightarrow> Inl (OtherError ''OverflowError''))"

definition process_refund ::
  "program_row \<Rightarrow> (string \<Rightarrow> int \<Rightarrow> string option) \<Rightarrow> (string \<times> string) list \<Rightarrow> books \<Rightarrow>
   ((transfer \<times> bool) list \<times> books) result" where
  "process_refund program refunds form b =
     rbind (rmap (\<lambda>e. requested_refund program e b) form) (\<lambda>requests.
     rfold (refund_one program refunds) ([], b) (List.map_filter id requests))"

text \<open>What Stripe has paid back, and what is recorded, for the refunds that went through.\<close>

fun went_through :: "(string \<Rightarrow> int \<Rightarrow> string option) \<Rightarrow> (transfer \<times> number) list \<Rightarrow> rat list" where
  "went_through refunds [] = []"
| "went_through refunds ((t, Finite a) # requests) =
     (if refunds (tf_transaction t) \<lfloor>a * 100\<rfloor> = None then went_through refunds requests
      else a # went_through refunds requests)"
| "went_through refunds (_ # requests) = went_through refunds requests"

lemma record_refund_outside:
  assumes "record_refund program user amount tid b = Inr (r, c)"
  shows "to_outside c = to_outside b + as_cents amount" and "fits (as_cents amount)"
proof -
  obtain outgoing internal where r: "r = (outgoing, internal)" by (cases r)
  from record_refund_effect [OF assms [unfolded r]] obtain l b0 payable where
    l: "default_refund_lineitemtype program b = Inr (l, b0)" and "default_payable_account b0 = Inr payable"
    and outgoing: "outgoing = \<lparr>tf_id = bk_next b0, tf_source = Some (ac_id payable), tf_destination = None, tf_user = Some user,
      tf_item = lit_id l, tf_option = None, tf_amount = as_cents amount, tf_transaction = tid, tf_paid_in = None\<rparr>"
    and internal: "internal = \<lparr>tf_id = bk_next b0 + 1, tf_source = account_id (default_program_account program b0),
      tf_destination = Some (ac_id payable), tf_user = Some user,
      tf_item = lit_id l, tf_option = None, tf_amount = as_cents amount, tf_transaction = tid, tf_paid_in = None\<rparr>"
    and fits: "fits (as_cents amount)" and c: "c = enter internal (enter outgoing b0)"
    by metis
  show "to_outside c = to_outside b + as_cents amount"
    using refund_type_steps(3) [OF l] by (simp add: c to_outside_def enter_def outgoing internal)
  show "fits (as_cents amount)" by (rule fits)
qed

lemma refund_fold:
  assumes "rfold (refund_one program refunds) (rs, b) requests = Inr (rs', c)"
  shows "to_outside c = to_outside b + sum_list (map as_cents (went_through refunds requests)) \<and>
    (\<forall>a\<in>set (went_through refunds requests). fits (as_cents a))"
  using assms
proof (induction requests arbitrary: rs b)
  case (Cons x xs)
  obtain t amount where x: "x = (t, amount)" by (cases x)
  from Cons.prems obtain rs1 b1 where 1: "refund_one program refunds (rs, b) (t, amount) = Inr (rs1, b1)"
    and 2: "rfold (refund_one program refunds) (rs1, b1) xs = Inr (rs', c)"
    by (auto simp: x rbind_Inr_iff)
  from 1 obtain a user where a: "amount = Finite a" "tf_user t = Some user"
    by (auto simp: refund_one_def split: number.splits option.splits)
  show ?case
  proof (cases "refunds (tf_transaction t) \<lfloor>a * 100\<rfloor>")
    case None
    then have "went_through refunds (x # xs) = went_through refunds xs" and "b1 = b"
      using 1 by (simp_all add: x refund_one_def a)
    then show ?thesis using Cons.IH [OF 2] by simp
  next
    case (Some i)
    then obtain r where "record_refund program user a i b = Inr (r, b1)"
      using 1 by (auto simp: refund_one_def a rbind_Inr_iff)
    note r = record_refund_outside [OF this]
    have "went_through refunds (x # xs) = a # went_through refunds xs"
      using Some by (simp add: x a)
    then show ?thesis using r Cons.IH [OF 2] by simp
  qed
qed simp


end
