(* ===== verification/Accounting_Examples.thy ===== *)
theory Accounting_Examples
  imports Stripe
begin

text \<open>Settled books, to be evaluated.\<close>

definition is_value :: "'a result \<Rightarrow> bool" where
  "is_value r = (case r of Inl _ \<Rightarrow> False | Inr _ \<Rightarrow> True)"

lemma is_value_iff: "is_value r \<longleftrightarrow> (\<exists>x. r = Inr x)"
  by (auto simp: is_value_def split: sum.splits)

lemma settled_code [code]:
  "settled program user b \<longleftrightarrow>
     is_value (default_source_account b) \<and> is_value (default_payable_account b) \<and>
     (\<forall>l\<in>set (required_items program b). requirement_met user b l) \<and>
     (pr_sibling_discount program = 0 \<or> splash_of program user b \<noteq> None) \<and>
     (case refund_item program b of Inr (Some l) \<Rightarrow> True | _ \<Rightarrow> False)"
  by (auto simp: settled_def is_value_iff split: sum.splits option.splits)

section \<open>Sample books\<close>

text \<open>
  A program with a cost for admission and T-shirts for sale, set up by the operations of the controllers
  (\<open>fresh_books_set_up\<close>), and its books when the amount due of a student has been asked for
  (\<open>ready_books_settled\<close>). The concrete inputs of the accounting properties are taken from these.
\<close>

definition splash :: program_row where
  "splash = \<lparr>pr_id = 1, pr_name = ''Splash'', pr_sibling_discount = 0, pr_donations = []\<rparr>"

definition no_books :: books where
  "no_books = \<lparr>bk_next = 1, bk_collation = id, bk_users = [7, 8], bk_programs = [splash], bk_accounts = [], bk_items = [],
     bk_options = [], bk_transfers = [], bk_requests = [], bk_grants = [], bk_splash = []\<rparr>"

definition sample_accounts :: "account list" where
  "sample_accounts =
     (case setup_default_accounts no_books of Inl _ \<Rightarrow> [] | Inr (_, b) \<Rightarrow> bk_accounts b) @
     [\<lparr>ac_id = 4, ac_name = ''Splash'', ac_description = ''Main account'', ac_program = Some 1\<rparr>]"

definition admission_price :: "int \<Rightarrow> line_item_type" where
  "admission_price c = (new_item 1 ''Program admission'')\<lparr>lit_id := 5, lit_amount := c, lit_required := True, lit_for_finaid := True\<rparr>"

definition sample_items :: "int \<Rightarrow> line_item_type list" where
  "sample_items c =
     [admission_price c,
      (new_item 1 ''Student payment'')\<lparr>lit_id := 6, lit_for_payments := True\<rparr>,
      (new_item 1 ''Financial aid grant'')\<lparr>lit_id := 7\<rparr>,
      (new_item 1 ''T-shirt'')\<lparr>lit_id := 8, lit_amount := 1500, lit_max_quantity := 5\<rparr>]"

definition fresh_books :: "int \<Rightarrow> books" where
  "fresh_books c = no_books\<lparr>bk_next := 9, bk_accounts := sample_accounts, bk_items := sample_items c\<rparr>"

lemma fresh_books_set_up:
  "rbind (setup_default_accounts no_books) (\<lambda>(_, b).
   rbind (setup_accounts id splash b) (\<lambda>(_, b).
   rbind (setup_lineitemtypes splash 20 [(''T-shirt'', 15, 5)] [] b) (\<lambda>(_, b).
   Inr (bk_next b, bk_accounts b, bk_items b)))) = Inr (9, sample_accounts, sample_items 2000)"
  by code_simp

definition ready_books :: "int \<Rightarrow> books" where
  "ready_books c = (fresh_books c)\<lparr>bk_next := 11, bk_items := sample_items c @ [(new_item 1 ''Student refund'')\<lparr>lit_id := 10\<rparr>],
     bk_transfers := [\<lparr>tf_id = 9, tf_source = Some 1, tf_destination = Some 4, tf_user = Some 7, tf_item = 5,
       tf_option = None, tf_amount = c, tf_transaction = [], tf_paid_in = None\<rparr>]\<rparr>"

text \<open>The rows of all tables.\<close>

definition all_rows :: "books \<Rightarrow> int \<times> account list \<times> line_item_type list \<times> transfer list \<times> splash_info list" where
  "all_rows b = (bk_next b, bk_accounts b, bk_items b, bk_transfers b, bk_splash b)"

lemma ready_books_reached:
  "rbind (amount_due splash 7 (fresh_books 2000)) (\<lambda>(d, b). Inr (d, all_rows b)) = Inr (2000, all_rows (ready_books 2000))"
  by code_simp

lemma ready_books_sound: "sound (ready_books 2000)" "sound (ready_books 1999)"
  by code_simp+

lemma ready_books_settled: "settled splash 7 (ready_books 2000)" "settled splash 7 (ready_books 1999)"
  by code_simp+

lemma ready_books_own: "own_account splash (ready_books 2000)" "own_account splash (ready_books 1999)"
  by code_simp+

lemma ready_books_due: "due_now splash 7 (ready_books 2000) = 2000" "due_now splash 7 (ready_books 1999) = 1999"
  by code_simp+

lemmas ready_books = ready_books_sound ready_books_settled ready_books_own ready_books_due

text \<open>A payment of the admission is recorded.\<close>

lemma sample_recorded:
  "\<exists>p c. record_payment_from_identifier ''1/7:5,20.00'' 20 ''ch_1'' False (ready_books 2000) = Inr (p, c)"
proof -
  have parts: "split_pair CHR '':'' ''1/7:5,20.00'' = Inr (''1/7'', ''5,20.00'')"
    "from_id ''1/7'' (ready_books 2000) = Inr (splash, 7)" "\<not> already_recorded splash 7 ''ch_1'' (ready_books 2000)"
    "rmap parse_entry (split_at CHR '';'' ''5,20.00'') = Inr [(5, ''20.00'')]"
    by code_simp+
  have "case submit_payment splash 7 20 ''ch_1'' False (ready_books 2000) of
      Inl _ \<Rightarrow> False | Inr (p, b) \<Rightarrow> is_value (reconcile splash 7 p False [(5, ''20.00'')] b)"
    by code_simp
  then obtain p b c where "submit_payment splash 7 20 ''ch_1'' False (ready_books 2000) = Inr (p, b)"
    "reconcile splash 7 p False [(5, ''20.00'')] b = Inr c"
    by (auto simp: is_value_iff split: sum.splits)
  with parts have "record_payment_from_identifier ''1/7:5,20.00'' 20 ''ch_1'' False (ready_books 2000) = Inr (p, c)"
    by (simp add: record_payment_from_identifier_def)
  then show ?thesis by blast
qed

text \<open>The books after the payment of the admission by card.\<close>

definition paid_books :: books where
  "paid_books = (ready_books 2000)\<lparr>bk_next := 12, bk_transfers :=
     [\<lparr>tf_id = 9, tf_source = Some 1, tf_destination = Some 4, tf_user = Some 7, tf_item = 5, tf_option = None,
        tf_amount = 2000, tf_transaction = [], tf_paid_in = Some 11\<rparr>,
      \<lparr>tf_id = 11, tf_source = None, tf_destination = Some 1, tf_user = Some 7, tf_item = 6, tf_option = None,
        tf_amount = 2000, tf_transaction = ''ch_1'', tf_paid_in = None\<rparr>]\<rparr>"

lemma paid_books_reached:
  "case submit_payment splash 7 20 ''ch_1'' True (ready_books 2000) of
     Inl _ \<Rightarrow> False | Inr (_, b) \<Rightarrow> all_rows b = all_rows paid_books"
  by code_simp

end
