(* ===== verification/Ledger_Runs.thy ===== *)
theory Ledger_Runs
  imports Ledger_Refinement
begin

section \<open>Runs of operations\<close>

text \<open>
  The operations that set up the accounts and line items of a program, change its costs or clear its data are not
  steps of the ledger of a user: they keep the books sound (\<open>safe_change\<close>), and all but \<open>change_costs\<close> leave paid
  transfers as they are. \<open>change_costs\<close> gives new amounts to transfers whether they are paid for or not
  (\<open>payments_kept\<close>). A run is a list of requests for operations of all kinds (\<open>perform\<close>, \<open>perform_requests\<close>).
\<close>

subsection \<open>Changes of the accounts and items\<close>

definition safe_change :: "books \<Rightarrow> books \<Rightarrow> bool" where
  "safe_change b c \<longleftrightarrow> (sound b \<longrightarrow> sound c \<and> paid_kept b c)"

lemma safe_refl: "safe_change b b"
  by (simp add: safe_change_def paid_kept_same)

lemma safe_trans: "safe_change a b \<Longrightarrow> safe_change b c \<Longrightarrow> safe_change a c"
  unfolding safe_change_def using paid_kept_trans by blast

lemma safe_steps: "ledger_steps user b c \<Longrightarrow> safe_change b c"
  unfolding safe_change_def using steps_sound steps_paid by blast

lemma safe_rfold:
  assumes "rfold f s xs = Inr t" and "\<And>s x t. f s x = Inr t \<Longrightarrow> safe_change (books_of s) (books_of t)"
  shows "safe_change (books_of s) (books_of t)"
  using assms(1)
proof (induction xs arbitrary: s)
  case (Cons x xs)
  then obtain u where "f s x = Inr u" "rfold f u xs = Inr t" by (auto simp: rbind_Inr_iff)
  with assms(2) Cons.IH safe_trans show ?case by blast
qed (simp add: safe_refl)

lemma safe_item: "get_or_create_item p l b = Inr (r, c) \<Longrightarrow> safe_change b c"
  by (rule safe_steps [OF item_steps(1)])

lemma safe_account:
  assumes "get_or_create_account a b = Inr (r, c)"
  shows "safe_change b c"
proof -
  from assms consider "c = b" | "ac_name a \<notin> ac_name ` set (bk_accounts b)"
      "c = b\<lparr>bk_accounts := bk_accounts b @ [a\<lparr>ac_id := bk_next b\<rparr>], bk_next := bk_next b + 1\<rparr>"
    by (auto simp: get_or_create_account_def Let_def rbind_Inr_iff split: option.splits if_splits)
  then show ?thesis
  proof cases
    case 2
    have "sound c" if "sound b"
      using that unfolding 2(2)
      by (fastforce simp: sound_def sound_transfers_def sound_items_def sound_accounts_def transfer_ids_def
          valid_transfer_def item_ids_def account_ids_def 2(1))
    then show ?thesis by (simp add: safe_change_def paid_kept_same 2(2))
  qed (simp add: safe_refl)
qed

lemma safe_option:
  assumes "add_item_option l choice b = Inr c"
  shows "safe_change b c"
proof -
  from assms obtain r where "c = b \<or> c = b\<lparr>bk_options := bk_options b @ [r], bk_next := bk_next b + 1\<rparr>"
    by (cases choice) (fastforce simp: add_item_option_def rbind_Inr_iff split: option.splits if_splits)
  then show ?thesis
  proof
    assume c: "c = b\<lparr>bk_options := bk_options b @ [r], bk_next := bk_next b + 1\<rparr>"
    have "sound c" if "sound b"
      using that unfolding c
      by (fastforce simp: sound_def sound_transfers_def sound_items_def sound_accounts_def transfer_ids_def
          valid_transfer_def item_ids_def account_ids_def)
    then show ?thesis by (simp add: safe_change_def paid_kept_same c)
  qed (simp add: safe_refl)
qed

lemma safe_setup_default: "setup_default_accounts b = Inr (r, c) \<Longrightarrow> safe_change b c"
  unfolding setup_default_accounts_def
  by (drule safe_rfold [where books_of = snd]) (auto simp: rbind_Inr_iff dest: safe_account)

lemma safe_setup_accounts: "setup_accounts slugify program b = Inr (r, c) \<Longrightarrow> safe_change b c"
  by (simp add: setup_accounts_def safe_account)

lemma safe_optional: "add_optional_item program x b = Inr (r, c) \<Longrightarrow> safe_change b c"
  by (cases x) (simp add: add_optional_item_def safe_item)

lemma safe_select:
  assumes "add_select_item program x b = Inr (r, c)"
  shows "safe_change b c"
proof -
  obtain name choices where x: "x = (name, choices)" by (cases x)
  from assms obtain l b1 where
    1: "get_or_create_item (\<lambda>r. lit_text r = name \<and> \<not> lit_required r \<and> lit_max_quantity r = 1 \<and>
       lit_program r = pr_id program) (new_item (pr_id program) name) b = Inr (l, b1)"
    and 2: "rfold (\<lambda>b choice. add_item_option l choice b) b1 choices = Inr c"
    by (auto simp: x add_select_item_def rbind_Inr_iff)
  have "safe_change (id b1) (id c)" by (rule safe_rfold [OF 2]) (simp add: safe_option)
  with safe_trans [OF safe_item [OF 1]] show ?thesis by simp
qed

lemma safe_add_all:
  assumes "add_all f xs (ls, b) = Inr (ls', c)" and "\<And>x b r c. f x b = Inr (r, c) \<Longrightarrow> safe_change b c"
  shows "safe_change b c"
proof -
  have "safe_change (snd (ls, b)) (snd (ls', c))"
    by (rule safe_rfold [OF assms(1) [unfolded add_all_def]]) (auto simp: rbind_Inr_iff dest: assms(2))
  then show ?thesis by simp
qed

lemma safe_setup_items:
  assumes "setup_lineitemtypes program cost optional select_items b = Inr (ls, c)"
  shows "safe_change b c"
proof -
  from assms obtain l1 b1 l2 b2 l3 b3 ls4 b4 where
    1: "admission_item program cost b = Inr (l1, b1)" and 2: "payment_item program b1 = Inr (l2, b2)" and
    3: "item_with_text program ''Financial aid grant'' b2 = Inr (l3, b3)" and
    4: "add_all (add_optional_item program) optional ([l1, l2, l3], b3) = Inr (ls4, b4)" and
    5: "add_all (add_select_item program) select_items (ls4, b4) = Inr (ls, c)"
    by (auto simp: setup_lineitemtypes_def rbind_Inr_iff)
  have "safe_change b b1" using 1 by (simp add: admission_item_def Let_def safe_item)
  moreover have "safe_change b1 b2" using 2 by (simp add: payment_item_def safe_item)
  moreover have "safe_change b2 b3" using 3 by (simp add: item_with_text_def safe_item)
  moreover have "safe_change b3 b4" by (rule safe_add_all [OF 4 safe_optional])
  moreover have "safe_change b4 c" by (rule safe_add_all [OF 5 safe_select])
  ultimately show ?thesis using safe_trans by blast
qed

lemma sound_programs: "sound (b\<lparr>bk_programs := ps\<rparr>) = sound b"
  by (simp add: sound_def sound_transfers_def sound_items_def sound_accounts_def transfer_ids_def
      valid_transfer_def item_ids_def account_ids_def)

lemma safe_sibling_discount:
  assumes "set_sibling_discount amount program b = Inr (p, c)"
  shows "safe_change b c"
proof -
  from assms obtain ps q l r where "get_or_create_item q l (b\<lparr>bk_programs := ps\<rparr>) = Inr (r, c)"
    by (auto simp: set_sibling_discount_def Let_def rbind_Inr_iff)
  note item = safe_item [OF this]
  have "safe_change b (b\<lparr>bk_programs := ps\<rparr>)" by (simp add: safe_change_def sound_programs paid_kept_same)
  with item show ?thesis using safe_trans by blast
qed

subsection \<open>Clearing the data of a program\<close>

lemma safe_delete:
  assumes "delete_transfers p b = Inr c"
  shows "safe_change b c"
  using assms by (auto simp: delete_transfers_Inr safe_change_def paid_kept_remove intro!: sound_remove)

lemma safe_delete_items:
  assumes "delete_items ids b = Inr c"
  shows "safe_change b c"
proof -
  let ?options = "map lio_id (filter (\<lambda>r. lio_type r \<in> set ids) (bk_options b))"
  from assms obtain b1 where
    del: "delete_transfers (\<lambda>t. tf_item t \<in> set ids \<or> (\<exists>i\<in>set ?options. tf_option t = Some i)) b = Inr b1" and
    c: "c = b1\<lparr>bk_items := filter (\<lambda>l. lit_id l \<notin> set ids) (bk_items b1),
        bk_options := filter (\<lambda>r. lio_type r \<notin> set ids) (bk_options b1)\<rparr>"
    by (auto simp: delete_items_def Let_def rbind_Inr_iff)
  have rest: "tf_item t \<notin> set ids" "tf_option t \<noteq> Some (lio_id r)"
    if "t \<in> set (bk_transfers b1)" "r \<in> set (bk_options b1)" "lio_type r \<in> set ids" for t r
    using del that by (auto simp: delete_transfers_Inr)
  have item: "tf_item t \<notin> set ids" if "t \<in> set (bk_transfers b1)" for t
    using del that by (auto simp: delete_transfers_Inr)
  have valid: "valid_transfer c t" if "valid_transfer b1 t" "t \<in> set (bk_transfers b1)" for t
    using that(1) item [OF that(2)] rest [OF that(2)]
    by (fastforce simp: c valid_transfer_def item_ids_def account_ids_def)
  have "sound c" if s: "sound b1"
  proof -
    have "sound_transfers c"
      using s valid by (auto simp: sound_def sound_transfers_def c transfer_ids_def)
    moreover have "sound_items c" using s by (auto simp: sound_def sound_items_def c distinct_map_filter)
    ultimately show ?thesis using s by (simp add: sound_def sound_accounts_def c)
  qed
  then have "safe_change b1 c" by (simp add: safe_change_def paid_kept_same c)
  with safe_trans [OF safe_delete [OF del]] show ?thesis by blast
qed

lemma safe_delete_accounts:
  assumes "delete_accounts ids b = Inr c"
  shows "safe_change b c"
proof -
  from assms obtain b1 where
    del: "delete_transfers (\<lambda>t. \<exists>i\<in>set ids. tf_source t = Some i \<or> tf_destination t = Some i) b = Inr b1" and
    c: "c = b1\<lparr>bk_accounts := filter (\<lambda>a. ac_id a \<notin> set ids) (bk_accounts b1)\<rparr>"
    by (auto simp: delete_accounts_def rbind_Inr_iff)
  have rest: "set_option (tf_source t) \<inter> set ids = {}" "set_option (tf_destination t) \<inter> set ids = {}"
    if "t \<in> set (bk_transfers b1)" for t
    using del that by (auto simp: delete_transfers_Inr)
  have valid: "valid_transfer c t" if "valid_transfer b1 t" "t \<in> set (bk_transfers b1)" for t
    using that(1) rest [OF that(2)] by (fastforce simp: c valid_transfer_def item_ids_def account_ids_def)
  have "sound c" if s: "sound b1"
  proof -
    have "sound_transfers c"
      using s valid by (auto simp: sound_def sound_transfers_def c transfer_ids_def)
    moreover have "sound_accounts c" using s by (auto simp: sound_def sound_accounts_def c distinct_map_filter)
    ultimately show ?thesis using s by (simp add: sound_def sound_items_def c)
  qed
  then have "safe_change b1 c" by (simp add: safe_change_def paid_kept_same c)
  with safe_trans [OF safe_delete [OF del]] show ?thesis by blast
qed

lemma safe_clear:
  assumes "clear_all_data program b = Inr c"
  shows "safe_change b c"
proof -
  from assms obtain gs b2 b3 where
    del: "delete_transfers (item_satisfies b (lineitemtypes_Q program every_item)) (b\<lparr>bk_grants := gs\<rparr>) = Inr b2" and
    items: "delete_items (map lit_id (get_lineitemtypes program every_item b2)) b2 = Inr b3" and
    accounts: "delete_accounts (map ac_id (all_accounts program b3)) b3 = Inr c"
    by (auto simp: clear_all_data_def Let_def rbind_Inr_iff)
  have "safe_change b (b\<lparr>bk_grants := gs\<rparr>)" by (rule safe_steps [OF other_tables_steps(2) [of 0]])
  then show ?thesis
    using safe_delete [OF del] safe_delete_items [OF items] safe_delete_accounts [OF accounts] safe_trans by blast
qed

subsection \<open>Changing the costs\<close>

text \<open>Of a transfer that is paid for only the amount may have changed.\<close>

definition payments_kept :: "books \<Rightarrow> books \<Rightarrow> bool" where
  "payments_kept b b' \<longleftrightarrow>
     bk_next b \<le> bk_next b' \<and> (\<forall>i\<in>transfer_ids b'. i < bk_next b \<longrightarrow> i \<in> transfer_ids b) \<and>
     (\<forall>t\<in>set (bk_transfers b). tf_paid_in t \<noteq> None \<longrightarrow>
        (\<exists>a. t\<lparr>tf_amount := a\<rparr> \<in> set (bk_transfers b')) \<or> tf_id t \<notin> transfer_ids b')"

lemma payments_kept_paid: "paid_kept b c \<Longrightarrow> payments_kept b c"
  unfolding paid_kept_def payments_kept_def by (metis transfer.surjective transfer.update_convs(7))

lemma payments_kept_trans:
  assumes "payments_kept a b" and "payments_kept b c" and "sound a"
  shows "payments_kept a c"
proof -
  have "(\<exists>x. t\<lparr>tf_amount := x\<rparr> \<in> set (bk_transfers c)) \<or> tf_id t \<notin> transfer_ids c"
    if t: "t \<in> set (bk_transfers a)" "tf_paid_in t \<noteq> None" for t
  proof -
    from assms(1) t consider x where "t\<lparr>tf_amount := x\<rparr> \<in> set (bk_transfers b)" | "tf_id t \<notin> transfer_ids b"
      unfolding payments_kept_def by blast
    then show ?thesis
    proof cases
      case 1
      with assms(2) t(2) have "(\<exists>y. t\<lparr>tf_amount := x\<rparr>\<lparr>tf_amount := y\<rparr> \<in> set (bk_transfers c)) \<or> tf_id t \<notin> transfer_ids c"
        unfolding payments_kept_def by fastforce
      then show ?thesis by simp
    next
      case 2
      have "tf_id t < bk_next b" using sound_idD [OF assms(3) t(1)] assms(1) by (simp add: payments_kept_def)
      with 2 assms(2) show ?thesis unfolding payments_kept_def by blast
    qed
  qed
  moreover have "i \<in> transfer_ids a" if "i \<in> transfer_ids c" "i < bk_next a" for i
    using assms(1,2) that unfolding payments_kept_def by fastforce
  ultimately show ?thesis using assms(1,2) by (auto simp: payments_kept_def)
qed

lemma distinct_rename:
  assumes "distinct (map k xs)" and "distinct (map f xs)" and "\<And>x. x \<in> set xs \<Longrightarrow> k x \<noteq> i \<Longrightarrow> f x \<noteq> v"
  shows "distinct (map (\<lambda>x. if k x = i then v else f x) xs)"
  using assms by (induction xs) (auto simp: image_iff)

lemma change_costs_sound:
  assumes "change_costs slugify program cost discount b = Inr (p, c)" and "sound b"
  shows "sound c \<and> payments_kept b c"
proof -
  let ?c = "as_cents cost"
  from assms(1) obtain l where l: "default_admission_lineitemtype program b = Some l"
    by (auto simp: change_costs_def split: option.splits)
  define b0 where "b0 = b\<lparr>bk_items := map (\<lambda>r. if lit_id r = lit_id l then r\<lparr>lit_amount := ?c\<rparr> else r) (bk_items b),
        bk_transfers := map (\<lambda>t. if tf_item t = lit_id l then t\<lparr>tf_amount := ?c\<rparr> else t) (bk_transfers b)\<rparr>"
  from assms(1) obtain a where fits: "fits ?c" and a: "default_program_account program b0 = Some a"
    by (auto simp: change_costs_def l b0_def Let_def rbind_Inr_iff raise_if_Inr_iff split: option.splits)
  define b1 where "b1 = b0\<lparr>bk_accounts := map (\<lambda>r. if ac_id r = ac_id a then r\<lparr>ac_name := slugify (pr_name program)\<rparr> else r)
          (bk_accounts b0)\<rparr>"
  from assms(1) a have new: "slugify (pr_name program) \<notin> ac_name ` set (filter (\<lambda>r. ac_id r \<noteq> ac_id a) (bk_accounts b0))"
    and sib: "set_sibling_discount discount program b1 = Inr (p, c)"
    unfolding b1_def by (simp_all add: change_costs_def l b0_def [symmetric] Let_def rbind_Inr_iff raise_if_Inr_iff)
  have ids: "map tf_id (bk_transfers b1) = map tf_id (bk_transfers b)" "map lit_id (bk_items b1) = map lit_id (bk_items b)"
    "map ac_id (bk_accounts b1) = map ac_id (bk_accounts b)"
    by (simp_all add: b1_def b0_def)
  then have sets: "transfer_ids b1 = transfer_ids b" "item_ids b1 = item_ids b" "account_ids b1 = account_ids b"
    by (simp_all only: transfer_ids_def item_ids_def account_ids_def flip: set_map)
  have rest: "bk_next b1 = bk_next b" "bk_options b1 = bk_options b" by (simp_all add: b1_def b0_def)
  have "sound_transfers b1"
    unfolding sound_transfers_def ids sets rest valid_transfer_def
    using assms(2) fits by (auto simp: sound_def sound_transfers_def valid_transfer_def b1_def b0_def)
  moreover have "sound_items b1"
    unfolding sound_items_def ids rest using assms(2) fits by (auto simp: sound_def sound_items_def b1_def b0_def)
  moreover have "sound_accounts b1"
  proof -
    have "map ac_name (bk_accounts b1) =
        map (\<lambda>r. if ac_id r = ac_id a then slugify (pr_name program) else ac_name r) (bk_accounts b)"
      by (simp add: b1_def b0_def comp_def if_distrib [of ac_name] cong: if_cong)
    moreover have "distinct \<dots>"
      using assms(2) new by (intro distinct_rename) (auto simp: sound_def sound_accounts_def b0_def image_iff)
    ultimately have names: "distinct (map ac_name (bk_accounts b1))" by (simp only:)
    show ?thesis
      unfolding sound_accounts_def ids rest using names assms(2) by (auto simp: sound_def sound_accounts_def b1_def b0_def)
  qed
  ultimately have s: "sound b1" by (simp add: sound_def)
  have "payments_kept b b1"
    unfolding payments_kept_def sets rest
  proof (intro conjI ballI impI)
    fix t assume t: "t \<in> set (bk_transfers b)"
    then have "t\<lparr>tf_amount := if tf_item t = lit_id l then ?c else tf_amount t\<rparr> \<in> set (bk_transfers b1)"
      by (force simp: b1_def b0_def)
    then show "(\<exists>x. t\<lparr>tf_amount := x\<rparr> \<in> set (bk_transfers b1)) \<or> tf_id t \<notin> transfer_ids b" by blast
  qed auto
  moreover have "sound c \<and> paid_kept b1 c" using safe_sibling_discount [OF sib] s by (simp add: safe_change_def)
  ultimately show ?thesis using payments_kept_trans payments_kept_paid assms(2) by blast
qed

subsection \<open>Requests\<close>

datatype request =
    Ensure_Required
  | Apply_Preferences "preference list"
  | Set_Preference string int "int option" "int option"
  | Show_Amount_Due
  | Show_Donation
  | Submit_Payment rat string bool
  | Record_Payment string rat string bool
  | Record_Refund rat string
  | Update_Paid bool bool
  | Save_Splash splash_info
  | Set_Finaid_Params "rat option" "int option"
  | Revoke_Financial_Aid
  | Finalize_Grant aid_grant
  | Approve aid_request "int option" "int option"
  | Setup_Default_Accounts
  | Setup_Accounts "string \<Rightarrow> string"
  | Setup_Lineitemtypes rat "(string \<times> rat \<times> int) list" "(string \<times> (string \<times> int) list) list"
  | Set_Sibling_Discount "int option"
  | Clear_All_Data
  | Change_Costs "string \<Rightarrow> string" rat "int option"

text \<open>The value of an operation is dropped. The user of a request for a whole program is not used.\<close>

definition perform :: "books \<Rightarrow> program_row \<times> int \<times> request \<Rightarrow> books result" where
  "perform b = (\<lambda>(program, user, r).
     case r of
       Ensure_Required \<Rightarrow> ensure_required_transfers program user b
     | Apply_Preferences prefs \<Rightarrow> rbind (apply_preferences program user prefs b) (\<lambda>(_, c). Inr c)
     | Set_Preference name quantity amount option_id \<Rightarrow>
         rbind (set_preference program user name quantity amount option_id b) (\<lambda>(_, c). Inr c)
     | Show_Amount_Due \<Rightarrow> rbind (amount_due program user b) (\<lambda>(_, c). Inr c)
     | Show_Donation \<Rightarrow> rbind (amount_donation program user b) (\<lambda>(_, c). Inr c)
     | Submit_Payment amount tid link \<Rightarrow> rbind (submit_payment program user amount tid link b) (\<lambda>(_, c). Inr c)
     | Record_Payment identifier amount tid trusted \<Rightarrow>
         rbind (record_payment_from_identifier identifier amount tid trusted b) (\<lambda>(_, c). Inr c)
     | Record_Refund amount tid \<Rightarrow> rbind (record_refund program user amount tid b) (\<lambda>(_, c). Inr c)
     | Update_Paid paid in_full \<Rightarrow> updatePaid program user paid in_full b
     | Save_Splash s \<Rightarrow> save_splash program s b
     | Set_Finaid_Params amount percent \<Rightarrow> set_finaid_params program user amount percent b
     | Revoke_Financial_Aid \<Rightarrow> Inr (revoke_financial_aid program user b)
     | Finalize_Grant g \<Rightarrow> rbind (finalize_grant program user g b) (\<lambda>(_, c). Inr c)
     | Approve a amount percent \<Rightarrow> approve program a amount percent b
     | Setup_Default_Accounts \<Rightarrow> rbind (setup_default_accounts b) (\<lambda>(_, c). Inr c)
     | Setup_Accounts slugify \<Rightarrow> rbind (setup_accounts slugify program b) (\<lambda>(_, c). Inr c)
     | Setup_Lineitemtypes cost optional_items select_items \<Rightarrow>
         rbind (setup_lineitemtypes program cost optional_items select_items b) (\<lambda>(_, c). Inr c)
     | Set_Sibling_Discount amount \<Rightarrow> rbind (set_sibling_discount amount program b) (\<lambda>(_, c). Inr c)
     | Clear_All_Data \<Rightarrow> clear_all_data program b
     | Change_Costs slugify cost discount \<Rightarrow> rbind (change_costs slugify program cost discount b) (\<lambda>(_, c). Inr c))"

definition perform_requests :: "books \<Rightarrow> (program_row \<times> int \<times> request) list \<Rightarrow> books result" where
  "perform_requests b rs = rfold perform b rs"

fun changes_costs :: "request \<Rightarrow> bool" where
  "changes_costs (Change_Costs slugify cost discount) = True"
| "changes_costs r = False"

lemma safe_on_sound: "(sound b \<Longrightarrow> ledger_steps user b c) \<Longrightarrow> safe_change b c"
  unfolding safe_change_def using steps_sound steps_paid by blast

lemma perform_safe:
  assumes "perform b (program, user, r) = Inr c" and "\<not> changes_costs r"
  shows "safe_change b c"
proof -
  have "\<exists>u. ledger_steps u b c" if "r = Record_Payment i a t z" "sound b" for i a t z
    using assms(1) that record_payment_steps by (fastforce simp: perform_def rbind_Inr_iff)
  then show ?thesis
    using assms
    by (cases r) (auto simp: perform_def rbind_Inr_iff revoke_financial_aid_def
        dest: ensure_effect(1) apply_preferences_steps set_preference_steps amount_due_steps amount_donation_steps
          submit_payment_steps record_refund_steps updatePaid_steps save_splash_steps set_finaid_steps
          finalize_grant_steps approve_steps
        intro: safe_on_sound other_tables_steps safe_setup_default safe_setup_accounts safe_setup_items
          safe_sibling_discount safe_clear)
qed

lemma perform_keeps:
  assumes "perform b (program, user, r) = Inr c" and "sound b"
  shows "sound c" and "payments_kept b c"
proof -
  have "sound c \<and> payments_kept b c"
  proof (cases "changes_costs r")
    case True
    with assms change_costs_sound show ?thesis by (cases r) (auto simp: perform_def rbind_Inr_iff)
  next
    case False
    with perform_safe [OF assms(1)] assms(2) payments_kept_paid show ?thesis by (simp add: safe_change_def)
  qed
  then show "sound c" and "payments_kept b c" by simp_all
qed

lemma run_keeps:
  assumes "perform_requests b rs = Inr c" and "sound b"
  shows "sound c \<and> payments_kept b c"
proof (rule rfold_invariant [where P = "\<lambda>c. sound c \<and> payments_kept b c", OF assms(1) [unfolded perform_requests_def]])
  show "sound b \<and> payments_kept b b" using assms(2) by (auto intro: payments_kept_paid paid_kept_same)
  fix d r e assume d: "sound d \<and> payments_kept b d" and "perform d r = Inr e"
  then have "sound e \<and> payments_kept d e" using perform_keeps by (cases r) blast
  then show "sound e \<and> payments_kept b e" using d payments_kept_trans assms(2) by blast
qed

lemma run_safe:
  assumes "perform_requests b rs = Inr c" and "\<And>program user r. (program, user, r) \<in> set rs \<Longrightarrow> \<not> changes_costs r"
  shows "safe_change b c"
  using assms unfolding perform_requests_def
proof (induction rs arbitrary: b)
  case (Cons r rs)
  then obtain b1 where 1: "perform b r = Inr b1" "rfold perform b1 rs = Inr c" by (auto simp: rbind_Inr_iff)
  obtain program user q where r: "r = (program, user, q)" by (cases r)
  have "safe_change b b1" using perform_safe [of b program user q] 1(1) Cons.prems(2) [of program user q] by (simp add: r)
  moreover have "safe_change b1 c" by (rule Cons.IH [OF 1(2)]) (use Cons.prems(2) in auto)
  ultimately show ?case by (rule safe_trans)
qed (simp add: safe_refl)

end
