(* ===== verification/Accounting_Properties.thy ===== *)
theory Accounting_Properties
  imports Accounting_Examples Payment_Records Ledger_Runs
begin

section \<open>Properties of the accounting\<close>

text \<open>
  What the accounting of a program guarantees: for every run of its operations, for payments and their
  reconciliation, for refunds, financial aid and preferences, and for cards; each with a witness on sample books.
\<close>

subsection \<open>Runs of operations\<close>

text \<open>C3: Whatever operations are performed for whatever programs and users, in any order and number, those that set up
  a program, change its costs or clear its data included, and as long as none raises (a request that raises is rolled back),
  sound books stay sound, and the balances of the accounts add up to what came from outside less what went there. A
  transfer that is paid for keeps all but its amount, or is deleted (as \<open>apply_preferences\<close> and \<open>clear_all_data\<close> do), and
  its id is not used again; as long as nobody changes the costs of a program, its amount stays too.\<close>

theorem accounts_stay_balanced:
  assumes "perform_requests b requests = Inr c" and "sound b"
  shows "sound c \<and> (\<Sum>a\<leftarrow>bk_accounts c. balance a c) = from_outside c - to_outside c \<and> payments_kept b c \<and>
    ((\<forall>(program, user, r)\<in>set requests. \<not> changes_costs r) \<longrightarrow> paid_kept b c)"
  using run_keeps [OF assms] balances_add_up run_safe [OF assms(1)] assms(2)
  unfolding safe_change_def by blast

theorem accounts_stay_balanced_witness:
  "\<exists>c. perform_requests (ready_books 2000)
      [(splash, 8, Show_Amount_Due), (splash, 7, Apply_Preferences [(''T-shirt'', Some 2, None, None)]),
       (splash, 7, Update_Paid True True), (splash, 0, Change_Costs id 30 None)] = Inr c \<and>
     sound c \<and> (\<Sum>a\<leftarrow>bk_accounts c. balance a c) = from_outside c - to_outside c"
proof -
  let ?rs = "[(splash, 8, Show_Amount_Due), (splash, 7, Apply_Preferences [(''T-shirt'', Some 2, None, None)]),
       (splash, 7, Update_Paid True True), (splash, 0, Change_Costs id 30 None)]"
  have "is_value (rbind (amount_due splash 8 (ready_books 2000)) (\<lambda>(_, b).
      rbind (apply_preferences splash 7 [(''T-shirt'', Some 2, None, None)] b) (\<lambda>(_, b).
      rbind (updatePaid splash 7 True True b) (\<lambda>b. change_costs id splash 30 None b))))"
    by code_simp
  then obtain c where c: "perform_requests (ready_books 2000) ?rs = Inr c"
    unfolding is_value_iff by (auto simp: perform_requests_def perform_def rbind_Inr_iff)
  from accounts_stay_balanced [OF c ready_books(1)] c show ?thesis by blast
qed

text \<open>C34: After \<open>ensure_required_transfers\<close> every required item of the program has a transfer of the user that is paid
  for or has the amount of the item, and a second call changes nothing. Nothing else changes: of the transfers there were,
  only those the user has for a required item without having paid may have changed, in their amount, to that of the item;
  there are new ones only for required items the user had none for, one each, unpaid and of the amount of the item;
  transfers of other users and other tables are as they were.\<close>

theorem required_transfers_ensured:
  assumes "ensure_required_transfers program user b = Inr c" and "sound b"
  shows "(\<forall>l\<in>set (required_items program c). requirement_met user c l) \<and>
    ensure_required_transfers program user c = Inr c \<and>
    only_required user (required_items program b) b c \<and>
    only_transfers b c \<and> other_transfers user c = other_transfers user b"
  using ensure_effect(1-3) [OF assms] ensure_twice [OF assms] ensure_only [OF assms] steps_others assms(2) by blast

theorem required_transfers_ensured_witness:
  "\<exists>c. ensure_required_transfers splash 8 (ready_books 2000) = Inr c \<and>
     (\<forall>l\<in>set (required_items splash c). requirement_met 8 c l) \<and>
     other_transfers 8 c = other_transfers 8 (ready_books 2000)"
proof -
  have "is_value (ensure_required_transfers splash 8 (ready_books 2000))" by code_simp
  then obtain c where c: "ensure_required_transfers splash 8 (ready_books 2000) = Inr c"
    unfolding is_value_iff by blast
  from required_transfers_ensured [OF c ready_books(1)] c show ?thesis by blast
qed

subsection \<open>Payments\<close>

text \<open>C15: Paying the amount due leaves nothing due: once \<open>amount_due\<close> has returned an amount that fits its column,
  a payment of it that goes through makes the next \<open>amount_due\<close> return zero and change nothing. The books are sound, and the
  account of the program is none of those for payments from outside, payables and grants.\<close>

theorem payment_clears_due:
  assumes "amount_due program user b = Inr (d, b')" and "sound b" and "own_account program b" and "fits d"
    and "submit_payment program user (dollars d) tid link b' = Inr (p, c)"
  shows "amount_due program user c = Inr (0, c) \<and> tf_amount p = d \<and> sound c"
proof -
  have steps: "ledger_steps user b b'" by (rule amount_due_steps [OF assms(1,2)])
  have sound': "sound b'" by (rule steps_sound [OF steps assms(2)])
  have own: "own_account program b'"
    using own_account_kept [OF steps_tables [OF steps assms(2)]] assms(3) by simp
  note due = amount_due_settles [OF assms(1-3)]
  have "tf_amount p = d"
    using assms(5) as_cents_dollars [OF assms(4)]
    by (auto simp: submit_payment_def rbind_Inr_iff dest!: create_payment_effect(4) split: if_splits)
  then show ?thesis
    using payment_lowers_due(1) [OF assms(5) sound' due(1) own] due(2) as_cents_dollars [OF assms(4)]
      steps_sound [OF submit_payment_steps [OF assms(5) sound'] sound'] by simp
qed

theorem payment_clears_due_witness:
  "\<exists>d b' p c. amount_due splash 7 (fresh_books 2000) = Inr (d, b') \<and>
     submit_payment splash 7 (dollars d) ''ch_1'' True b' = Inr (p, c) \<and> amount_due splash 7 c = Inr (0, c)"
proof -
  have "case amount_due splash 7 (fresh_books 2000) of
      Inl _ \<Rightarrow> False
    | Inr (d, b') \<Rightarrow> fits d \<and> is_value (submit_payment splash 7 (dollars d) ''ch_1'' True b')"
    by code_simp
  then obtain d b' p c where r: "amount_due splash 7 (fresh_books 2000) = Inr (d, b')" "fits d"
    "submit_payment splash 7 (dollars d) ''ch_1'' True b' = Inr (p, c)"
    by (auto simp: is_value_iff split: sum.splits prod.splits)
  have "sound (fresh_books 2000)" "own_account splash (fresh_books 2000)" by code_simp+
  from payment_clears_due [OF r(1) this r(2,3)] r show ?thesis by blast
qed



text \<open>C21: A transaction is recorded at most once: when it has been recorded with an identifier, recording it again with any
  identifier of the same program and user, any amount and any trust is refused as a duplicate.\<close>

theorem payment_not_recorded_twice:
  assumes "record_payment_from_identifier identifier amount tid trusted b = Inr (payment, c)" and "sound b"
    and "tid \<noteq> []" and "payer identifier' b = payer identifier b"
  shows "record_payment_from_identifier identifier' amount' tid trusted' c = Inl duplicate_payment"
  by (rule payment_replayed [OF assms])

theorem payment_not_recorded_twice_witness:
  "\<exists>p c. record_payment_from_identifier ''1/7:5,20.00'' 20 ''ch_1'' False (ready_books 2000) = Inr (p, c) \<and>
     record_payment_from_identifier ''1/7:8,15.00'' 15 ''ch_1'' True c = Inl duplicate_payment"
proof -
  obtain p c where c: "record_payment_from_identifier ''1/7:5,20.00'' 20 ''ch_1'' False (ready_books 2000) = Inr (p, c)"
    using sample_recorded by blast
  have payer: "payer ''1/7:8,15.00'' (ready_books 2000) = payer ''1/7:5,20.00'' (ready_books 2000)" by code_simp
  from payment_not_recorded_twice [OF c ready_books(1) _ payer] c show ?thesis by blast
qed

text \<open>C16: The identifier that \<open>get_identifier\<close> writes is accepted back when it names at least one transfer and all transfers
  in it are unpaid: for a program and a user that exist, a transaction not recorded before, a sum that fits the column of
  amounts, and with a line item for payments, a payment of the sum is recorded, from a trusted source or not; in
  particular the numbers survive the way through text, and entries that look the same are told apart or
  interchangeable. (The identifier of a user who has paid names paid transfers too, and is not meant.)\<close>

theorem identifier_accepted:
  assumes "sound b"
    and "get_row (\<lambda>r. pr_id r = pr_id program) (bk_programs b) = Inr program" and "get_row (\<lambda>r. r = user) (bk_users b) = Inr user"
    and "get_transfers program user every_item b = Inr ts" and "ts \<noteq> []" and "\<And>t. t \<in> set ts \<Longrightarrow> tf_paid_in t = None"
    and "get_identifier program user b = Inr identifier"
    and "as_cents amount = sum_amounts ts" and "fits (sum_amounts ts)"
    and "\<not> already_recorded program user tid b" and "default_payments_lineitemtype program b \<noteq> None"
  shows "\<exists>p c. record_payment_from_identifier identifier amount tid trusted b = Inr (p, c)"
  by (rule identifier_reconciles [OF assms])

theorem identifier_accepted_witness:
  "\<exists>p c. record_payment_from_identifier ''1/7:5,19.99'' (1999 / 100) ''ch_1'' False (ready_books 1999) = Inr (p, c)"
proof -
  have "get_identifier splash 7 (ready_books 1999) = Inr ''1/7:5,19.99''" "\<not> already_recorded splash 7 ''ch_1'' (ready_books 1999)"
    "get_row (\<lambda>r. pr_id r = pr_id splash) (bk_programs (ready_books 1999)) = Inr splash"
    "get_row (\<lambda>r. r = 7) (bk_users (ready_books 1999)) = Inr 7"
    "default_payments_lineitemtype splash (ready_books 1999) \<noteq> None"
    "get_transfers splash 7 every_item (ready_books 1999) = Inr (bk_transfers (ready_books 1999))"
    "as_cents (1999 / 100) = sum_amounts (bk_transfers (ready_books 1999))" "fits (sum_amounts (bk_transfers (ready_books 1999)))"
    "bk_transfers (ready_books 1999) \<noteq> []" "\<forall>t\<in>set (bk_transfers (ready_books 1999)). tf_paid_in t = None"
    by code_simp+
  with identifier_accepted [OF ready_books(2), of splash 7 "bk_transfers (ready_books 1999)" "''1/7:5,19.99''" "1999 / 100" "''ch_1''" False]
  show ?thesis by blast
qed

text \<open>C36: When every price of a user is a positive multiple of a quarter, what \<open>submit_payment\<close> can link adds up to all that
  is requested (so nothing of it is linked yet), and the amounts fit their column, a payment of the amount due by
  \<open>submit_payment\<close> goes through, leaves nothing due and links every transfer. The books are sound and set up for the user
  (\<open>settled\<close>), and the account of the program is its own. (A transfer of nothing, as for a donation of 0, would not be linked.)\<close>

theorem exact_prices_paid:
  assumes "sound b" and "settled program user b" and "own_account program b"
    and "default_payments_lineitemtype program b \<noteq> None"
    and "\<And>t. t \<in> set (linkable program user b) \<Longrightarrow> 0 < tf_amount t \<and> 25 dvd tf_amount t"
    and "sum_amounts (linkable program user b) = requested_now program user False b"
    and "fits (requested_now program user False b)" and "fits (due_now program user b)"
  shows "\<exists>p c. submit_payment program user (dollars (due_now program user b)) tid True b = Inr (p, c) \<and>
    amount_due program user c = Inr (0, c) \<and> (\<forall>t\<in>set (linkable program user b). linked c (tf_id t))"
  by (rule exact_payment_links [OF assms])

theorem exact_prices_paid_witness:
  "\<exists>p c. submit_payment splash 7 20 ''ch_1'' True (ready_books 2000) = Inr (p, c) \<and> linked c 9"
proof -
  have *: "default_payments_lineitemtype splash (ready_books 2000) \<noteq> None"
    "\<forall>t\<in>set (linkable splash 7 (ready_books 2000)). 0 < tf_amount t \<and> 25 dvd tf_amount t"
    "sum_amounts (linkable splash 7 (ready_books 2000)) = requested_now splash 7 False (ready_books 2000)"
    "fits (requested_now splash 7 False (ready_books 2000))" "fits (due_now splash 7 (ready_books 2000))"
    "9 \<in> tf_id ` set (linkable splash 7 (ready_books 2000))" "dollars 2000 = 20"
    by code_simp+
  with exact_prices_paid [OF ready_books(1,3,5) *(1) _ *(3-5), of "''ch_1''"] ready_books(7) show ?thesis by auto
qed

text \<open>A user with one transfer that makes up all that is requested, at a price that is no multiple of a quarter, cannot pay
  it by \<open>submit_payment\<close>: the sum of floats never equals the target, and the payment is rolled back with an error.\<close>

theorem inexact_price_refused:
  assumes "sound b" and "settled program user b" and "own_account program b"
    and "default_payments_lineitemtype program b \<noteq> None"
    and "linkable program user b = [t]" and "tf_amount t = requested_now program user False b"
    and "\<not> 25 dvd tf_amount t" and "fits (due_now program user b)"
  shows "submit_payment program user (dollars (due_now program user b)) tid True b =
    Inl (ValueError ''Transfers do not sum to target'')"
  by (rule inexact_payment_fails [OF assms])

theorem inexact_price_refused_witness:
  "submit_payment splash 7 (1999 / 100) ''ch_1'' True (ready_books 1999) = Inl (ValueError ''Transfers do not sum to target'')"
proof -
  have *: "default_payments_lineitemtype splash (ready_books 1999) \<noteq> None"
    "linkable splash 7 (ready_books 1999) = [hd (bk_transfers (ready_books 1999))]"
    "tf_amount (hd (bk_transfers (ready_books 1999))) = requested_now splash 7 False (ready_books 1999)"
    "\<not> 25 dvd tf_amount (hd (bk_transfers (ready_books 1999)))" "fits (due_now splash 7 (ready_books 1999))"
    "dollars 1999 = 1999 / 100"
    by code_simp+
  from inexact_price_refused [OF ready_books(2,4,6) *(1-5), of "''ch_1''"] *(6) ready_books(8) show ?thesis by simp
qed

subsection \<open>Refunds and financial aid\<close>

text \<open>A recorded refund raises the amount due by its amount, takes the amount from the account of the program to the
  outside, and leaves the balance of the account for payables as it was.\<close>

theorem refund_accounted:
  assumes "record_refund program user amount tid b = Inr (r, c)" and "sound b" and "settled program user b"
    and "own_account program b"
  shows "amount_due program user c = Inr (due_now program user b + as_cents amount, c) \<and>
    to_outside c = to_outside b + as_cents amount \<and>
    (\<forall>a. default_payable_account b = Inr a \<longrightarrow> balance a c = balance a b) \<and>
    (\<forall>q. default_program_account program b = Some q \<longrightarrow> balance q c = balance q b - as_cents amount)"
  using refund_raises_due [OF assms] by blast

theorem refund_accounted_witness:
  "\<exists>r c. record_refund splash 7 5 ''re_1'' (ready_books 2000) = Inr (r, c) \<and> amount_due splash 7 c = Inr (2500, c)"
proof -
  have "is_value (record_refund splash 7 5 ''re_1'' (ready_books 2000))" and cents: "as_cents 5 = 500" by code_simp+
  then obtain r c where c: "record_refund splash 7 5 ''re_1'' (ready_books 2000) = Inr (r, c)"
    unfolding is_value_iff by auto
  from refund_accounted [OF c ready_books(1,3,5)] c cents ready_books(7) show ?thesis by auto
qed

text \<open>C40: For a grant whose maximum is not negative and whose percentage is between 0 and 100, where it has them,
  financial aid is between zero and the cost it is for. That cost is what is requested of the items that aid covers, less
  the sibling discount: where the discount is the greater the cost is negative, and the aid is between the cost and zero,
  so that it takes away from the discount. A grant of 100 percent covers all of the cost, rounding included.\<close>

theorem financial_aid_bounded:
  assumes "case gr_amount_max g of None \<Rightarrow> True | Some m \<Rightarrow> 0 \<le> m"
    and "case gr_percent g of None \<Rightarrow> True | Some p \<Rightarrow> 0 \<le> p \<and> p \<le> 100"
  shows "min 0 cost \<le> aid_amount g cost \<and> aid_amount g cost \<le> max 0 cost \<and>
    (gr_percent g = Some 100 \<longrightarrow> aid_amount g cost = cost)"
proof (cases "0 \<le> cost")
  case True
  with aid_bounds [OF True assms] full_aid show ?thesis by simp
next
  case False
  with aid_bounds_negative [OF _ assms, of cost] full_aid show ?thesis by simp
qed

theorem financial_aid_bounded_witness:
  "aid_amount \<lparr>gr_id = 1, gr_request = 2, gr_amount_max = Some 1001, gr_percent = Some 33, gr_finalized = False\<rparr> 1999 \<in> {0..1999}"
  using financial_aid_bounded [of "\<lparr>gr_id = 1, gr_request = 2, gr_amount_max = Some 1001, gr_percent = Some 33, gr_finalized = False\<rparr>" 1999]
  by simp

text \<open>\<open>FinancialAidRequest.approve\<close> books no aid: the grant is finalized before it is saved, so the transfer that is to
  book it is one of nothing; the grant is there, but no balance of any account has changed.\<close>

theorem approve_books_nothing:
  assumes "approve program r dollar_amount percent b = Inr c" and "settled program (fr_user r) b" and "sound b"
    and "latest_finaid_grant program (fr_user r) b = None"
    and "\<not> list_ex (\<lambda>g. gr_request g = fr_id r) (bk_grants b)"
  shows "balance a c = balance a b \<and>
    (\<exists>g\<in>set (bk_grants c). gr_request g = fr_id r \<and> gr_amount_max g = dollar_amount \<and> gr_percent g = percent \<and>
      gr_finalized g)"
proof -
  let ?g = "\<lparr>gr_id = 0, gr_request = fr_id r, gr_amount_max = dollar_amount, gr_percent = percent, gr_finalized = False\<rparr>"
  have aid: "amount_finaid program (fr_user r) None b = Inr (0, b)"
    using settled_amounts(3) [OF assms(2)] assms(4) by (simp add: aid_now_def)
  from assms(1,5) obtain t b1 where fin: "finalize_grant program (fr_user r) ?g b = Inr (t, b1)"
    and c: "c = b1\<lparr>bk_requests := map (\<lambda>q. if fr_id q = fr_id r then q\<lparr>fr_done := True\<rparr> else q) (bk_requests b1)\<rparr>"
    by (auto simp: approve_def rbind_Inr_iff split: if_splits)
  from fin have "\<exists>source dest t0 t1 b0.
    transfer_for (Some source) (Some dest) (fr_user r) (default_finaid_lineitemtype program b) 0 = Inr t0 \<and>
    get_or_create_transfer t0 b = Inr (t1, b0) \<and> save_grant (?g\<lparr>gr_finalized := True\<rparr>) b0 = Inr b1"
    by (auto simp: finalize_grant_def aid Let_def rbind_Inr_iff) blast
  then obtain source dest t0 t1 b0 where
    t0: "transfer_for (Some source) (Some dest) (fr_user r) (default_finaid_lineitemtype program b) 0 = Inr t0" and
    found: "get_or_create_transfer t0 b = Inr (t1, b0)" and
    save: "save_grant (?g\<lparr>gr_finalized := True\<rparr>) b0 = Inr b1" by blast
  have "tf_amount t0 = 0" using t0 by (auto simp: transfer_for_Inr)
  then have "balance a b0 = balance a b"
    using found by (auto simp: get_or_create_transfer_def rbind_Inr_iff create_transfer_Inr balance_enter split: option.splits)
  moreover have "bk_transfers b1 = bk_transfers b0" using save by (auto simp: save_grant_def split: if_splits)
  ultimately have "balance a c = balance a b" by (simp add: c balance_def)
  moreover have "\<exists>g\<in>set (bk_grants c). gr_request g = fr_id r \<and> gr_amount_max g = dollar_amount \<and> gr_percent g = percent \<and>
      gr_finalized g"
    using save by (auto simp: save_grant_def c split: if_splits)
  ultimately show ?thesis by blast
qed

theorem approve_books_nothing_witness:
  "\<exists>c. approve splash \<lparr>fr_id = 20, fr_user = 7, fr_program = 1, fr_explanation = None, fr_done = False\<rparr> None (Some 100)
      (ready_books 2000) = Inr c \<and> balance (hd (bk_accounts c)) c = balance (hd (bk_accounts c)) (ready_books 2000)"
proof -
  let ?r = "\<lparr>fr_id = 20, fr_user = 7, fr_program = 1, fr_explanation = None, fr_done = False\<rparr>"
  have *: "is_value (approve splash ?r None (Some 100) (ready_books 2000))" "latest_finaid_grant splash 7 (ready_books 2000) = None"
    "\<not> list_ex (\<lambda>g. gr_request g = 20) (bk_grants (ready_books 2000))"
    by code_simp+
  then obtain c where c: "approve splash ?r None (Some 100) (ready_books 2000) = Inr c"
    unfolding is_value_iff by auto
  from approve_books_nothing [OF c, of "hd (bk_accounts c)"] *(2,3) ready_books(1,3) c show ?thesis by simp
qed

text \<open>A new cost of the program changes paid transfers too: the payment no longer pays what it is linked to.\<close>

theorem change_costs_unbalances:
  assumes "change_costs slugify program cost discount b = Inr (program', c)"
    and "default_admission_lineitemtype program b = Some l"
    and "paid_by p b = us @ t # vs" and "tf_item t = lit_id l"
    and "\<And>u. u \<in> set (us @ vs) \<Longrightarrow> tf_item u \<noteq> lit_id l"
  shows "sum_amounts (paid_by p c) = sum_amounts (paid_by p b) + as_cents cost - tf_amount t"
proof -
  let ?f = "\<lambda>t. if tf_item t = lit_id l then t\<lparr>tf_amount := as_cents cost\<rparr> else t"
  have "bk_transfers c = map ?f (bk_transfers b)"
    using assms(1,2)
    by (auto simp: change_costs_def set_sibling_discount_def Let_def rbind_Inr_iff split: option.splits dest: item_steps(3))
  then have "paid_by p c = map ?f (paid_by p b)"
    by (simp add: paid_by_def filter_map comp_def if_distrib [of tf_paid_in] cong: if_cong)
  moreover have "map ?f us = us" "map ?f vs = vs" using assms(5) by (auto intro!: map_idI)
  ultimately have "paid_by p c = us @ t\<lparr>tf_amount := as_cents cost\<rparr> # vs" using assms(3,4) by simp
  then show ?thesis by (simp add: assms(3))
qed

subsection \<open>Preferences\<close>

text \<open>C29: After \<open>apply_preferences\<close>, for names of optional items of the program, the optional transfers of the user are
  of the kinds (name, cost and option) and in the numbers that \<open>asked\<close> says, and all other transfers are as they were. A
  preference removes what earlier ones asked for under the same name, with its cost and option where it gives them, and
  asks for as many transfers as its quantity, at its cost or else at that of its option or item. Where no preference
  removes anything of an earlier one (\<open>undisturbed\<close>), these are all that was asked for, and exactly the transfers that
  are returned; otherwise what is returned contains transfers that have been deleted.\<close>

theorem preferences_applied:
  assumes "apply_preferences program user ps b = Inr (ts, c)" and "sound b"
    and "preference_names ps \<subseteq> lit_text ` set (optional_line_items program b)"
  shows "map (preference_key b) (filter (optional_transfer program user b) (bk_transfers c)) = asked program b ps \<and>
    filter (\<lambda>t. \<not> optional_transfer program user b t) (bk_transfers c) =
      filter (\<lambda>t. \<not> optional_transfer program user b t) (bk_transfers b) \<and>
    (undisturbed program b ps \<longrightarrow> asked program b ps = concat (map (wanted program b) ps) \<and>
      filter (optional_transfer program user b) (bk_transfers c) = ts)"
  using apply_preferences_result [OF assms] asked_undisturbed by blast

theorem preferences_applied_witness:
  "\<exists>ts c. apply_preferences splash 7 [(''T-shirt'', Some 1, Some 1500, None), (''T-shirt'', Some 2, None, None)] (ready_books 2000) =
      Inr (ts, c) \<and>
     map (preference_key (ready_books 2000)) (filter (optional_transfer splash 7 (ready_books 2000)) (bk_transfers c)) =
       [(''T-shirt'', 1500, None), (''T-shirt'', 1500, None)]"
proof -
  let ?ps = "[(''T-shirt'', Some 1, Some 1500, None), (''T-shirt'', Some 2, None, None)]"
  have *: "is_value (apply_preferences splash 7 ?ps (ready_books 2000))"
    "preference_names ?ps \<subseteq> lit_text ` set (optional_line_items splash (ready_books 2000))"
    "asked splash (ready_books 2000) ?ps = [(''T-shirt'', 1500, None), (''T-shirt'', 1500, None)]"
    by code_simp+
  then obtain ts c where c: "apply_preferences splash 7 ?ps (ready_books 2000) = Inr (ts, c)"
    unfolding is_value_iff by auto
  from preferences_applied [OF c ready_books(1) *(2)] c *(3) show ?thesis by auto
qed

text \<open>C30: \<open>get_preferences\<close> of the optional items reads back what the preferences given to \<open>apply_preferences\<close>, for names
  of optional items, ask for in the end (\<open>asked\<close>), with the number of each kind (\<open>tally\<close>). Where no preference removes
  anything of an earlier one, these are the preferences themselves, in their order, those for none left out, each with its
  quantity, its cost (or else that of its option or item) and its option.\<close>

theorem preferences_read_back:
  assumes "apply_preferences program user ps b = Inr (ts, c)" and "sound b"
    and "preference_names ps \<subseteq> lit_text ` set (optional_line_items program b)"
    and "default_source_account b = Inr source"
  shows "get_preferences program user (Some (optional_line_items program c)) c = Inr (tally (asked program b ps)) \<and>
    (undisturbed program b ps \<longrightarrow> tally (asked program b ps) = concat (map (as_read program b) ps))"
  using preferences_roundtrip [OF assms] tally_undisturbed by blast

theorem preferences_read_back_witness:
  "\<exists>ts c. apply_preferences splash 7 [(''T-shirt'', Some 2, None, None)] (ready_books 2000) = Inr (ts, c) \<and>
     get_preferences splash 7 (Some (optional_line_items splash c)) c = Inr [(''T-shirt'', 2, 1500, None)]"
proof -
  let ?ps = "[(''T-shirt'', Some 2, None, None)]"
  have *: "is_value (apply_preferences splash 7 ?ps (ready_books 2000))" "is_value (default_source_account (ready_books 2000))"
    "preference_names ?ps \<subseteq> lit_text ` set (optional_line_items splash (ready_books 2000))"
    "undisturbed splash (ready_books 2000) ?ps"
    "concat (map (as_read splash (ready_books 2000)) ?ps) = [(''T-shirt'', 2, 1500, None)]"
    by code_simp+
  then obtain ts c source where c: "apply_preferences splash 7 ?ps (ready_books 2000) = Inr (ts, c)"
    and source: "default_source_account (ready_books 2000) = Inr source"
    unfolding is_value_iff by auto
  from preferences_read_back [OF c ready_books(1) *(3) source] c *(4,5) show ?thesis by auto
qed

subsection \<open>Cards\<close>

text \<open>C12: When \<open>charge_payment\<close> has charged a card, it was for the amount due, which the form has posted, and nothing is due
  any more; the payment carries the id of the charge. The books are sound, and the account of the program is none of those
  for payments from outside, payables and grants.\<close>

theorem charge_settles:
  assumes "charge_payment program user keys_valid offer donation_label post donation ponumber totalcost has_token charge b =
      Inr (Charged payment cents, c)"
    and "sound b" and "own_account program b"
  shows "amount_due program user c = Inr (0, c) \<and> charge cents = Inr (tf_transaction payment) \<and>
    of_int (tf_amount payment) = cents \<and> payment \<in> set (bk_transfers c) \<and>
    parse_decimal totalcost = Some (Finite cents)"
proof -
  obtain b' where b': "sound b'" "own_account program b'" "settled program user b'"
    and posted: "parse_decimal totalcost = Some (Finite (of_int (due_now program user b')))"
    and pay: "pay_and_charge program user (of_int (due_now program user b')) charge b' = Inr (Charged payment cents, c)"
    using charge_payment_cases [OF assms] by (metis charge_outcome.distinct(1))
  note r = pay_and_charge_settles [OF pay b'(1,3,2) refl]
  show ?thesis using r posted by simp
qed

theorem charge_settles_witness:
  "\<exists>p c. charge_payment splash 7 True False ''Donation'' True None ''1/7'' ''2000'' True (\<lambda>_. Inr ''ch_1'') (fresh_books 2000) =
      Inr (Charged p 2000, c) \<and> amount_due splash 7 c = Inr (0, c) \<and> tf_transaction p = ''ch_1''"
proof -
  have "case charge_payment splash 7 True False ''Donation'' True None ''1/7'' ''2000'' True (\<lambda>_. Inr ''ch_1'') (fresh_books 2000) of
      Inr (Charged p cents, c) \<Rightarrow> cents = 2000 | _ \<Rightarrow> False"
    by code_simp
  then obtain p c where c: "charge_payment splash 7 True False ''Donation'' True None ''1/7'' ''2000'' True (\<lambda>_. Inr ''ch_1'')
      (fresh_books 2000) = Inr (Charged p 2000, c)"
    by (auto split: sum.splits charge_outcome.splits prod.splits)
  have "sound (fresh_books 2000)" "own_account splash (fresh_books 2000)" by code_simp+
  from charge_settles [OF c this] c show ?thesis by auto
qed



end
