(* ===== verification/Permissions.thy ===== *)
theory Permissions
  imports Registrations "HOL-Library.Sublist"
begin

section \<open>Permissions (users/models/\_\_init\_\_.py, class Permission)\<close>

text \<open>
  A permission lets a user, the members of a role, or the users that a saved filter selects do something, in
  one program or in all of them, in an interval of time. \<open>user_has_perm\<close> decides whether a user has one. It
  remembers on the user object who is selected by which filter; \<open>user_has_perm_decides\<close> says that this makes no
  difference, and what the answer means (\<open>granted\<close>).

  A filter is a predicate on users, where it can be read at all. The queries of one call see the same tables and
  read the clock at the same time \<open>now\<close>. A program is its id. The functions are for users who are logged in; an
  anonymous one has no row.
\<close>

subsection \<open>Kinds of permissions\<close>

datatype choice =
    Choice string string
  | Choices string "choice list"

fun flatten :: "choice list \<Rightarrow> string list" where
  "flatten [] = []"
| "flatten (Choice name description # cs) = name # flatten cs"
| "flatten (Choices name inner # cs) = flatten inner @ flatten cs"

definition PERMISSION_CHOICES :: "choice list" where
  "PERMISSION_CHOICES =
    [Choice ''Administer'' ''Full administrative permissions'',
     Choice ''View'' ''Able to view a program'',
     Choice ''Onsite'' ''Access to onsite interfaces'',
     Choice ''GradeOverride'' ''Ignore grade ranges for studentreg'',
     Choice ''OverrideFull'' ''Register for a full program'',
     Choice ''OverridePhaseZero'' ''Bypass Phase Zero to proceed to other student reg modules'',
     Choices ''Student Deadlines''
       [Choice ''Student/All'' ''All student deadlines'',
        Choice ''Student'' ''Basic student access'',
        Choice ''Student/MainPage'' ''Registration mainpage'',
        Choice ''Student/Profile'' ''Set profile info'',
        Choice ''Student/Acknowledgement'' ''Student acknowledgement'',
        Choice ''Student/FormstackMedliab'' ''Access to Formstack medical and liability form'',
        Choice ''Student/PhaseZero'' ''Enter Phase Zero'',
        Choice ''Student/Applications'' ''Apply for classes'',
        Choice ''Student/Catalog'' ''View the catalog'',
        Choice ''Student/Classes'' ''Register for classes'',
        Choice ''Student/Classes/Lunch'' ''Register for lunch'',
        Choice ''Student/Classes/Lottery'' ''Enter the lottery'',
        Choice ''Student/Classes/Lottery/View'' ''View lottery results'',
        Choice ''Student/Confirm'' ''Confirm registration'',
        Choice ''Student/Cancel'' ''Cancel registration'',
        Choice ''Student/Removal'' ''Remove class registrations after registration closes'',
        Choice ''Student/Finaid'' ''Access to financial aid application'',
        Choice ''Student/ExtraCosts'' ''Extra costs page'',
        Choice ''Student/Payment'' ''Pay for a program'',
        Choice ''Student/Webapp'' ''Access to student onsite webapp'',
        Choice ''Student/Survey'' ''Access to survey''],
     Choices ''Teacher Deadlines''
       [Choice ''Teacher/All'' ''All teacher deadlines'',
        Choice ''Teacher'' ''Basic teacher access'',
        Choice ''Teacher/MainPage'' ''Registration mainpage'',
        Choice ''Teacher/Profile'' ''Set profile info'',
        Choice ''Teacher/Acknowledgement'' ''Teacher acknowledgement'',
        Choice ''Teacher/Availability'' ''Set availability'',
        Choice ''Teacher/Moderate'' ''Fill out the moderator form'',
        Choice ''Teacher/Events'' ''Teacher training signup'',
        Choice ''Teacher/Quiz'' ''Teacher quiz'',
        Choice ''Teacher/Catalog'' ''Catalog'',
        Choice ''Teacher/Classes/All'' ''All classes deadlines'',
        Choice ''Teacher/Classes/View'' ''View registered classes'',
        Choice ''Teacher/Classes/Edit'' ''Edit registered classes'',
        Choice ''Teacher/Classes/CancelReq'' ''Request class cancellation'',
        Choice ''Teacher/Classes/Schedule'' ''View class schedule (room/time assignments)'',
        Choice ''Teacher/Classes/Coteachers'' ''Add or remove coteachers'',
        Choice ''Teacher/Classes/Create'' ''Create classes of all types'',
        Choice ''Teacher/Classes/Create/Class'' ''Create standard classes'',
        Choice ''Teacher/Classes/Create/OpenClass'' ''Create open classes'',
        Choice ''Teacher/AppReview'' (''Review students'' @ CHR 0x27 # '' apps''),
        Choice ''Teacher/Webapp'' ''Access to teacher onsite webapp'',
        Choice ''Teacher/Survey'' ''Access to survey''],
     Choices ''Volunteer Deadlines''
       [Choice ''Volunteer'' ''Basic volunteer access'',
        Choice ''Volunteer/Signup'' ''Volunteer signup'']]"

definition PERMISSION_CHOICES_FLAT :: "string list" where
  "PERMISSION_CHOICES_FLAT = flatten PERMISSION_CHOICES"

definition implications :: "(string, string list) dict" where
  "implications =
     [(''Administer'', PERMISSION_CHOICES_FLAT),
      (''Student/All'', filter (prefix ''Student'') PERMISSION_CHOICES_FLAT),
      (''Teacher/All'', filter (prefix ''Teacher'') PERMISSION_CHOICES_FLAT),
      (''Teacher/Classes/All'', filter (prefix ''Teacher/Classes'') PERMISSION_CHOICES_FLAT),
      (''Teacher/Classes/Create'', filter (prefix ''Teacher/Classes/Create'') PERMISSION_CHOICES_FLAT)]"

definition deadline_types :: "string list" where
  "deadline_types =
     filter (\<lambda>x. prefix ''Teacher'' x \<or> prefix ''Student'' x \<or> prefix ''Volunteer'' x) PERMISSION_CHOICES_FLAT"

fun squash :: "choice list \<Rightarrow> (string \<times> string) list" where
  "squash [] = []"
| "squash (Choice name description # cs) = (name, description) # squash cs"
| "squash (Choices name inner # cs) = squash inner @ squash cs"

definition nice_name_lookup :: "string \<Rightarrow> string option" where
  "nice_name_lookup perm_type = map_of (squash PERMISSION_CHOICES) perm_type"

subsection \<open>Rows\<close>

record permission =
  pm_user :: "int option"
  pm_role :: "string option"
  pm_filter :: "int option"
  pm_type :: string
  pm_program :: "int option"
  pm_start :: "datetime option"
  pm_end :: "datetime option"

record site_user =
  su_id :: int
  su_groups :: "string list"
  su_active :: bool
  su_staff :: bool
  su_superuser :: bool

text \<open>The stored query: \<open>None\<close> if it cannot be unpickled, \<open>Some None\<close> if it is something else than a query.\<close>

record query_filter =
  qf_id :: int
  qf_model :: string
  qf_query :: "(site_user \<Rightarrow> bool) option option"

record class_info =
  ci_id :: int
  ci_symbol :: char
  ci_teachers :: "int list"

record site =
  st_users :: "site_user list"
  st_types :: "string list"
  st_groups :: "string list"
  st_filters :: "query_filter list"
  st_permissions :: "permission list"
  st_programs :: "(int \<times> string) list"
  st_classes :: "class_info list"

definition recursive :: "permission \<Rightarrow> bool" where
  "recursive p \<longleftrightarrow> (case map_of implications (pm_type p) of None \<Rightarrow> False | Some vs \<Rightarrow> vs \<noteq> [])"

definition deadlines :: "site \<Rightarrow> permission list" where
  "deadlines s = filter (\<lambda>p. pm_type p \<in> set deadline_types) (st_permissions s)"

text \<open>
  The methods \<open>isStudent\<close>, \<open>isTeacher\<close> and so on: one for each type of users that the site knows (\<open>st_types\<close>), and
  one for officers; those of the default types that the site does not know answer no.
\<close>

definition is_user_type :: "site \<Rightarrow> string \<Rightarrow> site_user \<Rightarrow> bool" where
  "is_user_type s user_class u \<longleftrightarrow>
     user_class \<in> set (st_types s @ [''Officer'']) \<and>
     (if user_class = ''Officer'' then ''Administrator'' else user_class) \<in> set (su_groups u)"

abbreviation valid_permission :: "datetime \<Rightarrow> permission \<Rightarrow> bool" where
  "valid_permission when p \<equiv> is_valid (pm_start p) (pm_end p) when"

subsection \<open>Who is selected by a filter (class PersistentQueryFilter)\<close>

abbreviation esp_error :: py_error where
  "esp_error \<equiv> OtherError ''ESPError''"

text \<open>Filters on users select active users only; what is no query selects none, or is an error for other models.\<close>

definition get_Q :: "query_filter \<Rightarrow> (site_user \<Rightarrow> bool) result" where
  "get_Q f =
     (case qf_query f of
        None \<Rightarrow> Inl esp_error
      | Some q \<Rightarrow>
          if sublist ''auth.models.User'' (qf_model f) \<or> sublist ''esp.users.models.ESPUser'' (qf_model f)
          then Inr (\<lambda>u. (case q of None \<Rightarrow> False | Some p \<Rightarrow> p u) \<and> su_active u)
          else (case q of None \<Rightarrow> Inl TypeError | Some p \<Rightarrow> Inr p))"

definition getList :: "site \<Rightarrow> query_filter \<Rightarrow> site_user list result" where
  "getList s f =
     (if qf_model f \<noteq> ''<class '' @ CHR 0x27 # ''esp.users.models.ESPUser'' @ [CHR 0x27] @ ''>'' then Inl esp_error
      else rbind (get_Q f) (\<lambda>q. Inr (filter q (st_users s))))"

text \<open>A filter in use cannot be deleted, so there is a row.\<close>

definition is_member :: "site \<Rightarrow> int \<Rightarrow> int \<Rightarrow> bool result" where
  "is_member s filter_id user_id =
     (case find (\<lambda>f. qf_id f = filter_id) (st_filters s) of
        None \<Rightarrow> Inl (OtherError ''DoesNotExist'')
      | Some f \<Rightarrow> rbind (getList s f) (\<lambda>us. Inr (user_id \<in> su_id ` set us)))"

subsection \<open>Checking a permission\<close>

definition held_by :: "site_user \<Rightarrow> permission \<Rightarrow> bool" where
  "held_by u p \<longleftrightarrow> pm_user p = Some (su_id u) \<or> pm_user p = None \<and> (case pm_role p of None \<Rightarrow> False | Some g \<Rightarrow> g \<in> set (su_groups u))"

definition isAdministrator :: "site \<Rightarrow> datetime \<Rightarrow> site_user \<Rightarrow> int option \<Rightarrow> bool" where
  "isAdministrator s now u program \<longleftrightarrow>
     ''Administrator'' \<in> set (su_groups u) \<or>
     list_ex (\<lambda>p. held_by u p \<and> (pm_program p = None \<or> pm_program p = program) \<and> valid_permission now p \<and>
       pm_type p = ''Administer'') (st_permissions s)"

text \<open>The kinds of permissions that include a kind.\<close>

definition implying :: "string \<Rightarrow> string list" where
  "implying name = name # map fst (filter (\<lambda>(k, v). name \<in> set v) implications)"

text \<open>\<open>valid\<close> is the time at which the permissions have to be valid, if any.\<close>

definition q_permissions_on_program ::
  "(permission \<Rightarrow> bool) \<Rightarrow> string \<Rightarrow> int option \<Rightarrow> datetime option \<Rightarrow> bool \<Rightarrow> site \<Rightarrow> permission list" where
  "q_permissions_on_program perm_q name program valid none_implies_all s =
     (let none_implies_all = none_implies_all \<and> name \<notin> set deadline_types in
      filter (\<lambda>p. perm_q p \<and> (pm_program p = program \<or> none_implies_all \<and> pm_program p = None) \<and>
          pm_type p \<in> set (implying name) \<and> (case valid of None \<Rightarrow> True | Some t \<Rightarrow> valid_permission t p))
        (st_permissions s))"

definition null_user_has_perm :: "site \<Rightarrow> datetime \<Rightarrow> string \<Rightarrow> int option \<Rightarrow> bool" where
  "null_user_has_perm s now name program \<longleftrightarrow>
     list_ex (\<lambda>p. valid_permission now p \<and> pm_type p = name \<and> pm_program p = program \<and> pm_user p = None)
       (st_permissions s)"

text \<open>What is remembered: whether a user is selected by a filter.\<close>

type_synonym memberships = "(int \<times> int, bool) dict"

fun member_of_any :: "site \<Rightarrow> int \<Rightarrow> permission list \<Rightarrow> memberships \<Rightarrow> (bool \<times> memberships) result" where
  "member_of_any s user [] cache = Inr (False, cache)"
| "member_of_any s user (p # ps) cache =
     (case pm_filter p of
        None \<Rightarrow> member_of_any s user ps cache
      | Some f \<Rightarrow>
          (case map_of cache (user, f) of
             Some m \<Rightarrow> if m then Inr (True, cache) else member_of_any s user ps cache
           | None \<Rightarrow>
               (case is_member s f user of
                  Inl e \<Rightarrow>
                    if e = esp_error then member_of_any s user ps (AList.update (user, f) False cache) else Inl e
                | Inr m \<Rightarrow>
                    let cache = AList.update (user, f) m cache in
                    if m then Inr (True, cache) else member_of_any s user ps cache)))"

definition user_has_perm ::
  "site \<Rightarrow> datetime \<Rightarrow> site_user \<Rightarrow> string \<Rightarrow> int option \<Rightarrow> datetime option \<Rightarrow> bool \<Rightarrow> memberships \<Rightarrow>
   (bool \<times> memberships) result" where
  "user_has_perm s now u name program when none_implies_all cache =
     (let valid = Some (case when of None \<Rightarrow> now | Some t \<Rightarrow> t) in
      if isAdministrator s now u program then Inr (True, cache)
      else if q_permissions_on_program (held_by u) name program valid none_implies_all s \<noteq> [] then Inr (True, cache)
      else member_of_any s (su_id u)
        (q_permissions_on_program (\<lambda>p. pm_filter p \<noteq> None) name program valid none_implies_all s) cache)"

subsection \<open>What the answer means\<close>

definition selected :: "site \<Rightarrow> int \<Rightarrow> permission \<Rightarrow> bool" where
  "selected s user p \<longleftrightarrow> (case pm_filter p of None \<Rightarrow> False | Some f \<Rightarrow> is_member s f user = Inr True)"

definition applies_to :: "site \<Rightarrow> site_user \<Rightarrow> permission \<Rightarrow> bool" where
  "applies_to s u p \<longleftrightarrow> held_by u p \<or> selected s (su_id u) p"

definition concerns :: "string \<Rightarrow> int option \<Rightarrow> bool \<Rightarrow> permission \<Rightarrow> bool" where
  "concerns name program none_implies_all p \<longleftrightarrow>
     pm_type p \<in> set (implying name) \<and>
     (pm_program p = program \<or> none_implies_all \<and> name \<notin> set deadline_types \<and> pm_program p = None)"

definition granted :: "site \<Rightarrow> datetime \<Rightarrow> site_user \<Rightarrow> string \<Rightarrow> int option \<Rightarrow> datetime \<Rightarrow> bool \<Rightarrow> bool" where
  "granted s now u name program when none_implies_all \<longleftrightarrow>
     isAdministrator s now u program \<or>
     list_ex (\<lambda>p. applies_to s u p \<and> concerns name program none_implies_all p \<and> valid_permission when p) (st_permissions s)"

text \<open>Every filter that a permission refers to is there.\<close>

definition filters_exist :: "site \<Rightarrow> bool" where
  "filters_exist s \<longleftrightarrow>
     list_all (\<lambda>p. case pm_filter p of None \<Rightarrow> True | Some f \<Rightarrow> f \<in> qf_id ` set (st_filters s)) (st_permissions s)"

definition coherent :: "site \<Rightarrow> memberships \<Rightarrow> bool" where
  "coherent s cache \<longleftrightarrow> (\<forall>u f m. map_of cache (u, f) = Some m \<longrightarrow> m = (is_member s f u = Inr True))"

lemma coherent_empty [simp]: "coherent s []"
  by (simp add: coherent_def)

lemma coherent_update: "coherent s cache \<Longrightarrow> m = (is_member s f u = Inr True) \<Longrightarrow> coherent s (AList.update (u, f) m cache)"
  by (auto simp: coherent_def update_conv)

lemma is_member_cases:
  assumes "filters_exist s" and "p \<in> set (st_permissions s)" and "pm_filter p = Some f"
  shows "(\<exists>m. is_member s f user = Inr m) \<or> is_member s f user = Inl esp_error"
proof -
  have "f \<in> qf_id ` set (st_filters s)" using assms by (auto simp: filters_exist_def list_all_iff split: option.splits)
  then have "find (\<lambda>g. qf_id g = f) (st_filters s) \<noteq> None" by (auto simp: find_None_iff)
  then obtain g where "find (\<lambda>g. qf_id g = f) (st_filters s) = Some g" by auto
  moreover have "(\<exists>us. getList s g = Inr us) \<or> getList s g = Inl esp_error"
  proof (cases "qf_model g = ''<class '' @ CHR 0x27 # ''esp.users.models.ESPUser'' @ [CHR 0x27] @ ''>''")
    case True
    have "sublist ''esp.users.models.ESPUser'' (qf_model g)"
      unfolding True sublist_def by (intro exI [of _ "''<class '' @ [CHR 0x27]"] exI [of _ "[CHR 0x27] @ ''>''"]) simp
    then show ?thesis using True by (simp add: getList_def get_Q_def split: option.split)
  qed (simp add: getList_def)
  ultimately show ?thesis by (auto simp: is_member_def)
qed

lemma member_of_any_decides:
  assumes "coherent s cache" and "filters_exist s" and "set ps \<subseteq> set (st_permissions s)"
  shows "\<exists>cache'. member_of_any s user ps cache = Inr (list_ex (selected s user) ps, cache') \<and> coherent s cache'"
  using assms
proof (induction ps arbitrary: cache)
  case (Cons p ps)
  show ?case
  proof (cases "pm_filter p")
    case None
    then show ?thesis using Cons by (simp add: selected_def)
  next
    case (Some f)
    show ?thesis
    proof (cases "map_of cache (user, f)")
      case m: (Some m)
      then have "m = (is_member s f user = Inr True)" using Cons.prems(1) by (simp add: coherent_def)
      then show ?thesis using Cons Some m by (auto simp: selected_def)
    next
      case unknown: None
      from is_member_cases [OF Cons.prems(2) _ Some] Cons.prems(3)
      consider m where "is_member s f user = Inr m" | "is_member s f user = Inl esp_error" by auto
      then show ?thesis
      proof cases
        case 1
        then show ?thesis
          using Cons.IH [of "AList.update (user, f) m cache"] Cons.prems Some unknown coherent_update [of s cache m f user]
          by (cases m) (auto simp: selected_def Let_def)
      next
        case 2
        then show ?thesis
          using Cons.IH [of "AList.update (user, f) False cache"] Cons.prems Some unknown coherent_update [of s cache False f user]
          by (auto simp: selected_def)
      qed
    qed
  qed
qed simp

lemma q_permissions_set:
  "set (q_permissions_on_program perm_q name program valid none_implies_all s) =
     {p \<in> set (st_permissions s). perm_q p \<and> concerns name program none_implies_all p \<and>
       (case valid of None \<Rightarrow> True | Some t \<Rightarrow> valid_permission t p)}"
  by (auto simp: q_permissions_on_program_def concerns_def Let_def)

lemma selected_filter: "selected s user p \<Longrightarrow> pm_filter p \<noteq> None"
  by (auto simp: selected_def split: option.splits)

lemma user_has_perm_decides:
  assumes "coherent s cache" and "filters_exist s"
  shows "\<exists>cache'. user_has_perm s now u name program when none_implies_all cache =
      Inr (granted s now u name program (case when of None \<Rightarrow> now | Some t \<Rightarrow> t) none_implies_all, cache') \<and>
    coherent s cache'"
proof -
  let ?t = "case when of None \<Rightarrow> now | Some t \<Rightarrow> t"
  let ?q = "\<lambda>c. q_permissions_on_program c name program (Some ?t) none_implies_all s"
  let ?c = "\<lambda>p. concerns name program none_implies_all p \<and> valid_permission ?t p"
  obtain cache' where any: "member_of_any s (su_id u) (?q (\<lambda>p. pm_filter p \<noteq> None)) cache =
      Inr (list_ex (selected s (su_id u)) (?q (\<lambda>p. pm_filter p \<noteq> None)), cache')" "coherent s cache'"
    using member_of_any_decides [OF assms, of "?q (\<lambda>p. pm_filter p \<noteq> None)"] by (auto simp: q_permissions_set)
  have direct: "?q (held_by u) \<noteq> [] \<longleftrightarrow> (\<exists>p\<in>set (st_permissions s). held_by u p \<and> ?c p)"
    by (simp add: q_permissions_set flip: set_empty2) blast
  have by_filter: "list_ex (selected s (su_id u)) (?q (\<lambda>p. pm_filter p \<noteq> None)) \<longleftrightarrow>
      (\<exists>p\<in>set (st_permissions s). selected s (su_id u) p \<and> ?c p)"
    by (auto simp: list_ex_iff q_permissions_set dest: selected_filter)
  have "granted s now u name program ?t none_implies_all \<longleftrightarrow> isAdministrator s now u program \<or>
      (\<exists>p\<in>set (st_permissions s). held_by u p \<and> ?c p) \<or> (\<exists>p\<in>set (st_permissions s). selected s (su_id u) p \<and> ?c p)"
    by (auto simp: granted_def applies_to_def list_ex_iff)
  then show ?thesis using any direct by_filter assms(1) by (auto simp: user_has_perm_def Let_def)
qed

end
