(* ===== verification/Deadlines.thy ===== *)
theory Deadlines
  imports Permissions
begin

section \<open>Deadlines, and the dates of program modules (users/models/\_\_init\_\_.py, program/modules/base.py)\<close>

text \<open>
  When a permission ends for a user (\<open>user_deadline_when\<close>, characterised by \<open>deadline_is_last\<close>), the roles and
  programs a permission is given to, who may edit a page, and how the dates of a program module become permissions
  (\<open>sync_permissions\<close>) and are read back for new modules (\<open>initial_defaults\<close>). The rows of a table are in
  the order of their ids.
\<close>

subsection \<open>When a deadline occurs\<close>

text \<open>A missing date is later than all others, in the order of the database and in the keys of the sort.\<close>

definition date_before :: "datetime option \<Rightarrow> datetime option \<Rightarrow> bool" where
  "date_before x y = (case (x, y) of (Some a, Some b) \<Rightarrow> a < b | (Some _, None) \<Rightarrow> True | _ \<Rightarrow> False)"

definition closes_before :: "permission \<Rightarrow> permission \<Rightarrow> bool" where
  "closes_before p q \<longleftrightarrow>
     date_before (pm_end p) (pm_end q) \<or> pm_end p = pm_end q \<and> date_before (pm_start p) (pm_start q)"

fun latest_closing :: "permission list \<Rightarrow> permission option" where
  "latest_closing [] = None"
| "latest_closing (p # ps) =
     (case latest_closing ps of None \<Rightarrow> Some p | Some q \<Rightarrow> Some (if closes_before p q then q else p))"

text \<open>The permissions whose filter selects the user, with a table of the filters already tried.\<close>

fun permissions_by_filter :: "site \<Rightarrow> int \<Rightarrow> permission list \<Rightarrow> (int, bool) dict \<Rightarrow> permission list result" where
  "permissions_by_filter s user [] cache = Inr []"
| "permissions_by_filter s user (p # ps) cache =
     (case pm_filter p of
        None \<Rightarrow> permissions_by_filter s user ps cache
      | Some f \<Rightarrow>
          rbind (case map_of cache f of
              Some m \<Rightarrow> Inr (m, cache)
            | None \<Rightarrow>
                (case is_member s f user of
                   Inl e \<Rightarrow> if e = esp_error then Inr (False, AList.update f False cache) else Inl e
                 | Inr m \<Rightarrow> Inr (m, AList.update f m cache))) (\<lambda>(m, cache).
          rbind (permissions_by_filter s user ps cache) (\<lambda>found.
          Inr (if m then p # found else found))))"

definition user_deadline_when ::
  "site \<Rightarrow> site_user \<Rightarrow> string \<Rightarrow> int option \<Rightarrow> bool \<Rightarrow> datetime option result" where
  "user_deadline_when s u name program none_implies_all =
     rbind (permissions_by_filter s (su_id u)
       (q_permissions_on_program (\<lambda>p. pm_filter p \<noteq> None) name program None none_implies_all s) []) (\<lambda>by_filter.
     let best_direct = latest_closing (q_permissions_on_program (held_by u) name program None none_implies_all s);
         perms = (case best_direct of None \<Rightarrow> [] | Some p \<Rightarrow> [p]) @ by_filter in
     Inr (case latest_closing perms of None \<Rightarrow> None | Some p \<Rightarrow> pm_end p))"

text \<open>The last of some ends: none if there are no permissions, or one does not end.\<close>

definition last_end :: "permission set \<Rightarrow> datetime option" where
  "last_end P = (if P = {} \<or> (\<exists>p\<in>P. pm_end p = None) then None else Some (Max ((the \<circ> pm_end) ` P)))"

lemma date_before_trans: "date_before x y \<Longrightarrow> date_before y z \<Longrightarrow> date_before x z"
  by (auto simp: date_before_def split: option.splits)

lemma date_before_irrefl [simp]: "\<not> date_before x x"
  by (auto simp: date_before_def split: option.splits)

lemma date_before_linear: "date_before x y \<or> x = y \<or> date_before y x"
  by (auto simp: date_before_def split: option.splits)

lemma latest_closing_None [simp]: "latest_closing ps = None \<longleftrightarrow> ps = []"
  by (cases ps) (simp_all split: option.split)

lemma latest_closing_last:
  "latest_closing ps = Some p \<Longrightarrow> p \<in> set ps \<and> (\<forall>q\<in>set ps. \<not> date_before (pm_end p) (pm_end q))"
proof (induction ps arbitrary: p)
  case (Cons x ps)
  show ?case
  proof (cases "latest_closing ps")
    case None
    then show ?thesis using Cons.prems by simp
  next
    case (Some y)
    note y = Cons.IH [OF Some]
    show ?thesis
    proof (cases "closes_before x y")
      case True
      then show ?thesis
        using Cons.prems Some y date_before_trans [of "pm_end y" "pm_end x" "pm_end y"]
        by (auto simp: closes_before_def)
    next
      case False
      then have "\<not> date_before (pm_end x) (pm_end y)" by (simp add: closes_before_def)
      then show ?thesis
        using Cons.prems Some y False date_before_trans date_before_linear by (auto; metis)
    qed
  qed
qed simp

lemma last_end_unique:
  assumes "finite P" and "p \<in> P" and "\<And>q. q \<in> P \<Longrightarrow> \<not> date_before (pm_end p) (pm_end q)"
  shows "last_end P = pm_end p"
proof (cases "pm_end p")
  case None
  then show ?thesis using assms(2) by (auto simp: last_end_def)
next
  case (Some e)
  have ends: "\<exists>d. pm_end q = Some d \<and> d \<le> e" if "q \<in> P" for q
    using assms(3) [OF that] Some by (auto simp: date_before_def not_less split: option.splits)
  then have "Max ((the \<circ> pm_end) ` P) = e"
    using assms(1,2) Some by (intro Max_eqI) force+
  then show ?thesis using ends assms(2) Some by (force simp: last_end_def)
qed

lemma permissions_by_filter_decides:
  assumes "filters_exist s" and "set ps \<subseteq> set (st_permissions s)"
    and "\<And>f m. map_of cache f = Some m \<Longrightarrow> m = (is_member s f user = Inr True)"
  shows "permissions_by_filter s user ps cache = Inr (filter (selected s user) ps)"
  using assms(2,3)
proof (induction ps arbitrary: cache)
  case (Cons p ps)
  have sub: "set ps \<subseteq> set (st_permissions s)" using Cons.prems(1) by simp
  show ?case
  proof (cases "pm_filter p")
    case None
    then have "\<not> selected s user p" by (simp add: selected_def)
    then show ?thesis using Cons.IH [OF sub Cons.prems(2)] None by simp
  next
    case (Some f)
    have sel: "selected s user p = (is_member s f user = Inr True)" by (simp add: selected_def Some)
    show ?thesis
    proof (cases "map_of cache f")
      case m: (Some m)
      then have "m = (is_member s f user = Inr True)" by (rule Cons.prems(2))
      then show ?thesis using Cons.IH [OF sub Cons.prems(2)] Some m by (simp add: sel)
    next
      case unknown: None
      have IH: "permissions_by_filter s user ps (AList.update f m cache) = Inr (filter (selected s user) ps)"
        if "m = (is_member s f user = Inr True)" for m
        using Cons.prems(2) that by (intro Cons.IH [OF sub]) (auto simp: update_conv split: if_splits)
      from is_member_cases [OF assms(1) _ Some, of user] Cons.prems(1)
      consider m where "is_member s f user = Inr m" | "is_member s f user = Inl esp_error" by auto
      then show ?thesis
      proof cases
        case 1
        then show ?thesis using IH [of m] Some unknown by (simp add: sel)
      next
        case 2
        then show ?thesis using IH [of False] Some unknown by (simp add: sel)
      qed
    qed
  qed
qed simp

lemma deadline_is_last:
  assumes "filters_exist s"
  shows "user_deadline_when s u name program none_implies_all =
    Inr (last_end {p \<in> set (st_permissions s). applies_to s u p \<and> concerns name program none_implies_all p})"
proof -
  let ?q = "\<lambda>c. q_permissions_on_program c name program None none_implies_all s"
  let ?P = "{p \<in> set (st_permissions s). applies_to s u p \<and> concerns name program none_implies_all p}"
  let ?by = "filter (selected s (su_id u)) (?q (\<lambda>p. pm_filter p \<noteq> None))"
  let ?perms = "(case latest_closing (?q (held_by u)) of None \<Rightarrow> [] | Some p \<Rightarrow> [p]) @ ?by"
  have result: "user_deadline_when s u name program none_implies_all =
      Inr (case latest_closing ?perms of None \<Rightarrow> None | Some p \<Rightarrow> pm_end p)"
    using permissions_by_filter_decides [OF assms, of "?q (\<lambda>p. pm_filter p \<noteq> None)" "[]" "su_id u"]
    by (simp add: user_deadline_when_def Let_def q_permissions_set)
  have split: "?P = set (?q (held_by u)) \<union> set ?by"
    by (auto simp: q_permissions_set applies_to_def dest: selected_filter)
  show ?thesis
  proof (cases "latest_closing ?perms")
    case None
    then have "?perms = []" by (simp only: latest_closing_None)
    then have "?q (held_by u) = []" "?by = []" by (auto split: option.splits)
    then have "?P = {}" using split by (metis Un_empty set_empty2)
    then show ?thesis using result None by (simp add: last_end_def)
  next
    case (Some p)
    note p = latest_closing_last [OF Some]
    have "set ?perms \<subseteq> ?P"
      unfolding split using latest_closing_last by (auto split: option.splits)
    moreover have "\<not> date_before (pm_end p) (pm_end q)" if "q \<in> ?P" for q
    proof (cases "q \<in> set ?by")
      case False
      then have q: "q \<in> set (?q (held_by u))" using that split by blast
      then obtain d where d: "latest_closing (?q (held_by u)) = Some d" by (cases "latest_closing (?q (held_by u))") auto
      then have "\<not> date_before (pm_end d) (pm_end q)" "\<not> date_before (pm_end p) (pm_end d)"
        using latest_closing_last [OF d] q p by auto
      then show ?thesis using date_before_trans date_before_linear by metis
    qed (use p in auto)
    ultimately have "last_end ?P = pm_end p" using p by (intro last_end_unique) auto
    then show ?thesis using result Some by simp
  qed
qed

subsection \<open>Roles, programs and pages\<close>

definition list_roles_with_perm :: "site \<Rightarrow> datetime \<Rightarrow> string \<Rightarrow> int option \<Rightarrow> string list" where
  "list_roles_with_perm s now name program =
     List.map_filter pm_role
       (q_permissions_on_program (\<lambda>p. pm_user p = None \<and> pm_role p \<noteq> None) name program (Some now) False s)"

text \<open>Whether the user has each of some permissions; all of them are tried.\<close>

fun has_each :: "site \<Rightarrow> datetime \<Rightarrow> site_user \<Rightarrow> string list \<Rightarrow> memberships \<Rightarrow> (bool list \<times> memberships) result" where
  "has_each s now u [] cache = Inr ([], cache)"
| "has_each s now u (name # names) cache =
     rbind (user_has_perm s now u name None None False cache) (\<lambda>(b, cache).
     rbind (has_each s now u names cache) (\<lambda>(bs, cache). Inr (b # bs, cache)))"

text \<open>The ids of programs, as a set.\<close>

definition program_by_perm :: "site \<Rightarrow> datetime \<Rightarrow> site_user \<Rightarrow> string \<Rightarrow> memberships \<Rightarrow> (int list \<times> memberships) result" where
  "program_by_perm s now u perm cache =
     rbind (has_each s now u (implying perm) cache) (\<lambda>(globally, cache).
     Inr (map fst (if True \<in> set globally then st_programs s
       else filter (\<lambda>(i, _). list_ex (\<lambda>p. pm_program p = Some i \<and> valid_permission now p \<and>
         pm_type p \<in> set (implying perm) \<and> held_by u p) (st_permissions s)) (st_programs s)), cache))"

text \<open>The text up to a character, and what follows it.\<close>

definition split_once :: "char \<Rightarrow> string \<Rightarrow> (string \<times> string) option" where
  "split_once d s =
     (case dropWhile (\<lambda>c. c \<noteq> d) s of [] \<Rightarrow> None | _ # rest \<Rightarrow> Some (takeWhile (\<lambda>c. c \<noteq> d) s, rest))"

definition without_html :: "string \<Rightarrow> string" where
  "without_html url = (if suffix ''.html'' url then take (length url - 5) url else url)"

text \<open>The code and the id of a class in the rest of a URL, a dot of the regular expression being no newline.\<close>

definition class_of_url :: "string \<Rightarrow> (char \<times> int) option" where
  "class_of_url rest =
     (let line = takeWhile (\<lambda>c. c \<noteq> CHR 0x0A) rest in
      if \<not> prefix ''Classes/'' line then None
      else case drop 8 line of
        [] \<Rightarrow> None
      | code # after \<Rightarrow>
          (case split_once CHR ''/'' after of
             None \<Rightarrow> None
           | Some (number, _) \<Rightarrow>
               if number \<noteq> [] \<and> list_all is_digit number
               then map_option (\<lambda>i. (code, i)) (digits False 0 number) else None))"

definition edits_class :: "site \<Rightarrow> site_user \<Rightarrow> char \<times> int \<Rightarrow> bool" where
  "edits_class s u = (\<lambda>(code, i).
     case find (\<lambda>c. ci_symbol c = code \<and> ci_id c = i) (st_classes s) of
       None \<Rightarrow> False
     | Some c \<Rightarrow> su_id u \<in> set (ci_teachers c))"

text \<open>The user is \<open>None\<close> when nobody is logged in. The URLs of programs are unique.\<close>

definition user_can_edit_qsd :: "site \<Rightarrow> datetime \<Rightarrow> site_user option \<Rightarrow> string \<Rightarrow> bool" where
  "user_can_edit_qsd s now user url =
     (case user of
        None \<Rightarrow> False
      | Some u \<Rightarrow>
          isAdministrator s now u None \<or>
          (case split_once CHR ''/'' (without_html url) of
             None \<Rightarrow> False
           | Some (_, r1) \<Rightarrow>
          (case split_once CHR ''/'' r1 of
             None \<Rightarrow> False
           | Some (prog1, r2) \<Rightarrow>
          (case split_once CHR ''/'' r2 of
             None \<Rightarrow> False
           | Some (prog2, rest) \<Rightarrow>
          (case find (\<lambda>(_, url). url = prog1 @ CHR ''/'' # prog2) (st_programs s) of
             None \<Rightarrow> False
           | Some (i, _) \<Rightarrow>
               isAdministrator s now u (Some i) \<or>
               (case class_of_url rest of None \<Rightarrow> False | Some c \<Rightarrow> edits_class s u c))))))"

subsection \<open>The dates of program modules\<close>

record module_object =
  mo_program :: int
  mo_handler :: int
  mo_type :: string
  mo_permission_types :: "string list"
  mo_seq :: int
  mo_required :: bool
  mo_required_label :: string
  mo_start :: "datetime option"
  mo_end :: "datetime option"

definition role_by_module_type :: "(string, string) dict" where
  "role_by_module_type = [(''learn'', ''Student''), (''teach'', ''Teacher''), (''volunteer'', ''Volunteer'')]"

definition role_for :: "module_object \<Rightarrow> string \<Rightarrow> string option" where
  "role_for m perm_type =
     (if prefix ''Student'' perm_type then Some ''Student''
      else if prefix ''Teacher'' perm_type then Some ''Teacher''
      else if prefix ''Volunteer'' perm_type then Some ''Volunteer''
      else map_of role_by_module_type (mo_type m))"

definition role_permission :: "int \<Rightarrow> string \<Rightarrow> string \<Rightarrow> permission \<Rightarrow> bool" where
  "role_permission program role perm_type p \<longleftrightarrow>
     pm_program p = Some program \<and> pm_role p = Some role \<and> pm_type p = perm_type \<and> pm_user p = None \<and> pm_filter p = None"

text \<open>The rows of one kind for one role get the dates of the module; if there are none, one is added.\<close>

definition redated :: "module_object \<Rightarrow> permission \<Rightarrow> permission" where
  "redated m p = p\<lparr>pm_start := mo_start m, pm_end := mo_end m\<rparr>"

definition sync_rows :: "module_object \<Rightarrow> string \<Rightarrow> string \<Rightarrow> permission list \<Rightarrow> permission list" where
  "sync_rows m role perm_type ps =
     (if list_ex (role_permission (mo_program m) role perm_type) ps
      then map (\<lambda>p. if role_permission (mo_program m) role perm_type p then redated m p else p) ps
      else ps @ [\<lparr>pm_user = None, pm_role = Some role, pm_filter = None, pm_type = perm_type,
        pm_program = Some (mo_program m), pm_start = mo_start m, pm_end = mo_end m\<rparr>])"

definition sync_permission :: "module_object \<Rightarrow> string \<Rightarrow> site \<Rightarrow> site" where
  "sync_permission m perm_type s =
     (case role_for m perm_type of
        None \<Rightarrow> s
      | Some role \<Rightarrow>
          if role \<in> set (st_groups s)
          then s\<lparr>st_permissions := sync_rows m role perm_type (st_permissions s)\<rparr> else s)"

definition sync_permissions :: "module_object \<Rightarrow> site \<Rightarrow> site" where
  "sync_permissions m s = fold (sync_permission m) (mo_permission_types m) s"

text \<open>
  The values for a new module object: \<open>None\<close> where the default of the field applies. \<open>m\<close> stands for the module, with
  the kinds of permissions of its handler; \<open>objects\<close> are the module objects there are.
\<close>

record module_defaults =
  df_seq :: int
  df_required :: bool
  df_required_label :: "string option"
  df_dates :: "(datetime option \<times> datetime option) option"

definition initial_defaults ::
  "site \<Rightarrow> module_object list \<Rightarrow> int \<Rightarrow> module_object \<Rightarrow> int option \<Rightarrow> module_defaults" where
  "initial_defaults s objects program m old_program =
     (case (case old_program of
          None \<Rightarrow> []
        | Some old \<Rightarrow> take 2 (filter (\<lambda>o'. mo_program o' = old \<and> mo_handler o' = mo_handler m) objects)) of
        [old] \<Rightarrow> \<lparr>df_seq = mo_seq old, df_required = mo_required old, df_required_label = Some (mo_required_label old),
          df_dates = Some (mo_start old, mo_end old)\<rparr>
      | _ \<Rightarrow>
          let role = map_of role_by_module_type (mo_type m);
              types = (case role of
                  None \<Rightarrow> mo_permission_types m
                | Some r \<Rightarrow> (let own = filter (prefix r) (mo_permission_types m) in
                    if own = [] then mo_permission_types m else own));
              role_there = (case role of None \<Rightarrow> None | Some r \<Rightarrow> if r \<in> set (st_groups s) then Some r else None);
              found = find (\<lambda>p. pm_program p = Some program \<and> pm_type p \<in> set types \<and> pm_user p = None \<and> pm_filter p = None \<and>
                (role_there = None \<or> pm_role p = role_there)) (st_permissions s) in
          \<lparr>df_seq = mo_seq m, df_required = mo_required m, df_required_label = None,
           df_dates = (if mo_permission_types m = [] then None
             else map_option (\<lambda>p. (pm_start p, pm_end p)) found)\<rparr>)"

subsection \<open>What synchronising does\<close>

definition module_permission :: "module_object \<Rightarrow> permission \<Rightarrow> bool" where
  "module_permission m p \<longleftrightarrow> (\<exists>t\<in>set (mo_permission_types m). \<exists>r. role_for m t = Some r \<and> role_permission (mo_program m) r t p)"

lemma role_permission_redated [simp]: "role_permission program role t (redated m p) = role_permission program role t p"
  by (simp add: role_permission_def redated_def)

lemma redated_dates [simp]: "pm_start (redated m p) = mo_start m" "pm_end (redated m p) = mo_end m"
  by (simp_all add: redated_def)

text \<open>The rows of a kind and a role are there and have the dates of the module.\<close>

definition dated :: "module_object \<Rightarrow> string \<Rightarrow> string \<Rightarrow> permission list \<Rightarrow> bool" where
  "dated m r t ps \<longleftrightarrow> list_ex (role_permission (mo_program m) r t) ps \<and>
     list_all (\<lambda>p. role_permission (mo_program m) r t p \<longrightarrow> pm_start p = mo_start m \<and> pm_end p = mo_end m) ps"

lemma new_role_permission: "role_permission (mo_program m) r t
  \<lparr>pm_user = None, pm_role = Some r', pm_filter = None, pm_type = t', pm_program = Some (mo_program m),
   pm_start = x, pm_end = y\<rparr> \<longleftrightarrow> r' = r \<and> t' = t"
  by (auto simp: role_permission_def)

lemma redated_ex [simp]:
  "list_ex (role_permission program r t) (map (\<lambda>p. if c p then redated m p else p) ps) = list_ex (role_permission program r t) ps"
  by (induction ps) simp_all

lemma sync_rows_dated: "dated m r t (sync_rows m r t ps)"
proof (cases "list_ex (role_permission (mo_program m) r t) ps")
  case True
  then show ?thesis by (auto simp: dated_def sync_rows_def list_all_iff)
next
  case False
  then show ?thesis by (auto simp: dated_def sync_rows_def list_ex_iff list_all_iff new_role_permission)
qed

lemma dated_keep: "dated m r t ps \<Longrightarrow> dated m r t (sync_rows m r' t' ps)"
proof (cases "list_ex (role_permission (mo_program m) r' t') ps")
  case True
  assume "dated m r t ps"
  then show ?thesis using True by (auto simp: dated_def sync_rows_def list_all_iff)
next
  case False
  assume "dated m r t ps"
  then show ?thesis using False by (auto simp: dated_def sync_rows_def list_ex_iff list_all_iff new_role_permission)
qed

text \<open>Other rows stay, as long as what is left out includes the changed ones.\<close>

lemma sync_rows_others:
  assumes "\<And>p. role_permission (mo_program m) r t p \<Longrightarrow> Q p" and "\<And>p. Q (redated m p) = Q p"
  shows "filter (\<lambda>p. \<not> Q p) (sync_rows m r t ps) = filter (\<lambda>p. \<not> Q p) ps"
proof -
  have "filter (\<lambda>p. \<not> Q p) (map (\<lambda>p. if role_permission (mo_program m) r t p then redated m p else p) ps) =
      filter (\<lambda>p. \<not> Q p) ps"
    using assms by (induction ps) auto
  moreover have "Q \<lparr>pm_user = None, pm_role = Some r, pm_filter = None, pm_type = t, pm_program = Some (mo_program m),
      pm_start = mo_start m, pm_end = mo_end m\<rparr>"
    by (rule assms(1)) (simp add: new_role_permission)
  ultimately show ?thesis by (simp add: sync_rows_def)
qed

lemma sync_permission_groups [simp]: "st_groups (sync_permission m t s) = st_groups s"
  by (simp add: sync_permission_def split: option.split)

lemma sync_groups [simp]: "st_groups (fold (sync_permission m) ts s) = st_groups s"
  by (induction ts arbitrary: s) simp_all

lemma dated_keep_permission:
  "dated m r t (st_permissions s) \<Longrightarrow> dated m r t (st_permissions (sync_permission m t' s))"
  by (simp add: sync_permission_def dated_keep split: option.split)

lemma dated_keep_all:
  "dated m r t (st_permissions s) \<Longrightarrow> dated m r t (st_permissions (fold (sync_permission m) ts s))"
  by (induction ts arbitrary: s) (simp_all add: dated_keep_permission)

lemma sync_permissions_dates:
  assumes "t \<in> set (mo_permission_types m)" and "role_for m t = Some r" and "r \<in> set (st_groups s)"
  shows "dated m r t (st_permissions (sync_permissions m s))"
proof -
  obtain us vs where ts: "mo_permission_types m = us @ t # vs" using split_list [OF assms(1)] by blast
  let ?s = "fold (sync_permission m) us s"
  have "dated m r t (st_permissions (sync_permission m t ?s))"
    using assms(2,3) sync_rows_dated by (simp add: sync_permission_def)
  then show ?thesis unfolding sync_permissions_def ts by (simp add: dated_keep_all)
qed

lemma sync_permissions_others:
  "filter (\<lambda>p. \<not> module_permission m p) (st_permissions (sync_permissions m s)) =
    filter (\<lambda>p. \<not> module_permission m p) (st_permissions s)"
proof -
  have dates: "module_permission m (redated m p) = module_permission m p" for p
    by (simp add: module_permission_def)
  have "filter (\<lambda>p. \<not> module_permission m p) (st_permissions (fold (sync_permission m) ts s)) =
      filter (\<lambda>p. \<not> module_permission m p) (st_permissions s)" if "set ts \<subseteq> set (mo_permission_types m)" for ts
    using that
  proof (induction ts arbitrary: s)
    case (Cons t ts)
    have "filter (\<lambda>p. \<not> module_permission m p) (st_permissions (sync_permission m t s)) =
        filter (\<lambda>p. \<not> module_permission m p) (st_permissions s)"
      using Cons.prems dates sync_rows_others [of m _ t "module_permission m"]
      by (auto simp: sync_permission_def module_permission_def split: option.split)
    then show ?case using Cons by simp
  qed simp
  then show ?thesis by (simp add: sync_permissions_def)
qed

text \<open>A new module object of the same module gets the dates back.\<close>

lemma dates_read_back:
  assumes "map_of role_by_module_type (mo_type m) = Some r" and "r \<in> set (st_groups s)"
    and "mo_permission_types m \<noteq> []" and "list_all (prefix r) (mo_permission_types m)"
    and "r \<in> {''Student'', ''Teacher'', ''Volunteer''}"
  shows "df_dates (initial_defaults (sync_permissions m s) objects (mo_program m) m None) = Some (mo_start m, mo_end m)"
proof -
  let ?s = "sync_permissions m s"
  have role: "role_for m t = Some r" if "t \<in> set (mo_permission_types m)" for t
  proof -
    have "prefix r t" using assms(4) that by (simp add: list_all_iff)
    moreover have "\<not> prefix ''Student'' t" if "prefix ''Teacher'' t \<or> prefix ''Volunteer'' t" for t
      using that by (auto simp: prefix_def)
    moreover have "\<not> prefix ''Teacher'' t" if "prefix ''Volunteer'' t" for t
      using that by (auto simp: prefix_def)
    ultimately show ?thesis using assms(5) by (auto simp: role_for_def)
  qed
  have dated: "dated m r t (st_permissions ?s)" if "t \<in> set (mo_permission_types m)" for t
    using sync_permissions_dates [OF that role [OF that] assms(2)] .
  have own: "filter (prefix r) (mo_permission_types m) = mo_permission_types m"
    using assms(4) by (simp add: list_all_iff)
  have groups: "st_groups ?s = st_groups s" by (simp add: sync_permissions_def)
  let ?p = "\<lambda>p. pm_program p = Some (mo_program m) \<and> pm_type p \<in> set (mo_permission_types m) \<and> pm_user p = None \<and>
    pm_filter p = None \<and> pm_role p = Some r"
  obtain t where t: "t \<in> set (mo_permission_types m)" using assms(3) by (cases "mo_permission_types m") auto
  obtain q where "q \<in> set (st_permissions ?s)" "?p q"
    using dated [OF t] t by (auto simp: dated_def role_permission_def list_ex_iff)
  then have "find ?p (st_permissions ?s) \<noteq> None" unfolding find_None_iff by blast
  then obtain p where p: "find ?p (st_permissions ?s) = Some p" by auto
  then have p': "p \<in> set (st_permissions ?s)" "?p p" by (auto simp: find_Some_iff)
  then have "role_permission (mo_program m) r (pm_type p) p" by (simp add: role_permission_def)
  then have "pm_start p = mo_start m \<and> pm_end p = mo_end m"
    using dated [of "pm_type p"] p' by (auto simp: dated_def list_all_iff)
  then show ?thesis
    using p assms(2,3) by (simp add: initial_defaults_def assms(1) own groups Let_def)
qed

end
