(* ===== verification/Profiles.thy ===== *)
theory Profiles
  imports Permissions
begin

section \<open>Profiles, graduation years and grades (program/models/\_\_init\_\_.py, users/models/\_\_init\_\_.py)\<close>

text \<open>
  The registration profiles of users with the graduation year of a student, the school year of a date or of a
  program, and the grade that follows from both.

  Profiles and the information about students are two tables (\<open>profiles\<close>). A profile that is not saved has no
  id. \<open>increment_date\<close> is the date that the tag of this name stands for, or \<open>None\<close> if its text is no date;
  \<open>options\<close> are the grades that the site offers. The clock is read as \<open>now\<close>, and dates are triples.
\<close>

type_synonym date = "int \<times> int \<times> int"

subsection \<open>School years\<close>

definition valid_date :: "date \<Rightarrow> bool" where
  "valid_date = (\<lambda>(y, m, d). 1 \<le> y \<and> y \<le> 9999 \<and> 1 \<le> m \<and> m \<le> 12 \<and> 1 \<le> d \<and> d \<le> days_in_month y m)"

text \<open>The date in another year; the 29th of February may not exist there.\<close>

definition replace_year :: "int \<Rightarrow> date \<Rightarrow> date option" where
  "replace_year year = (\<lambda>(_, m, d). if valid_date (year, m, d) then Some (year, m, d) else None)"

definition rollover :: "date option \<Rightarrow> int \<Rightarrow> date" where
  "rollover increment_date year =
     (case Option.bind increment_date (replace_year year) of None \<Rightarrow> (year, 7, 31) | Some d \<Rightarrow> d)"

definition current_schoolyear :: "date option \<Rightarrow> date \<Rightarrow> int" where
  "current_schoolyear increment_date now =
     (let curyear = fst now in if rollover increment_date curyear > now then curyear else curyear + 1)"

text \<open>The days of a program, in the order of its timeslots, each once.\<close>

definition program_dates :: "datetime list \<Rightarrow> date list" where
  "program_dates starts =
     foldl (\<lambda>result start. let day = date_of start in if day \<in> set result then result else result @ [day]) [] starts"

definition program_schoolyear :: "date option \<Rightarrow> date \<Rightarrow> datetime list \<Rightarrow> bool \<Rightarrow> int" where
  "program_schoolyear increment_date now starts incrementGrade =
     current_schoolyear increment_date (case program_dates starts of [] \<Rightarrow> now | d # _ \<Rightarrow> d) +
     (if incrementGrade then 1 else 0)"

definition gradeFromYOG :: "int \<Rightarrow> int \<Rightarrow> int" where
  "gradeFromYOG yog schoolyear = schoolyear + 12 - yog"

definition YOGFromGrade :: "int \<Rightarrow> int \<Rightarrow> int" where
  "YOGFromGrade grade schoolyear = schoolyear + 12 - grade"

definition graduation_year_choices :: "int list \<Rightarrow> bool \<Rightarrow> int \<Rightarrow> (string \<times> string) list" where
  "graduation_year_choices options include_blank schoolyear =
     (if include_blank then [([], [])] else []) @
     map (\<lambda>g. (show_int (YOGFromGrade g schoolyear), show_int g)) options"

definition valid_graduation_years :: "int list \<Rightarrow> int \<Rightarrow> int set" where
  "valid_graduation_years options schoolyear = (\<lambda>g. YOGFromGrade g schoolyear) ` set options"

subsection \<open>Profiles\<close>

record student_info =
  stu_id :: int
  stu_user :: int
  stu_graduation_year :: "int option"

record profile =
  rp_id :: "int option"
  rp_user :: int
  rp_program :: "int option"
  rp_student_info :: "int option"
  rp_teacher_info :: "int option"
  rp_last_ts :: datetime
  rp_most_recent :: bool

record profiles =
  pt_profiles :: "profile list"
  pt_infos :: "student_info list"
  pt_next :: int

text \<open>The latest profile, of those with the same time the first.\<close>

fun latest_profile :: "profile list \<Rightarrow> profile option" where
  "latest_profile [] = None"
| "latest_profile (p # ps) =
     (case latest_profile ps of None \<Rightarrow> Some p | Some q \<Rightarrow> Some (if rp_last_ts q > rp_last_ts p then q else p))"

definition empty_profile :: "datetime \<Rightarrow> int \<Rightarrow> profile" where
  "empty_profile now user =
     \<lparr>rp_id = None, rp_user = user, rp_program = None, rp_student_info = None, rp_teacher_info = None,
      rp_last_ts = now, rp_most_recent = False\<rparr>"

definition getLastProfile :: "datetime \<Rightarrow> int \<Rightarrow> profiles \<Rightarrow> profile" where
  "getLastProfile now user t =
     (case latest_profile (filter (\<lambda>p. rp_user p = user) (pt_profiles t)) of
        None \<Rightarrow> empty_profile now user | Some p \<Rightarrow> p)"

definition get_last_program_with_profile :: "int \<Rightarrow> profiles \<Rightarrow> int option" where
  "get_last_program_with_profile user t =
     Option.bind (latest_profile (filter (\<lambda>p. rp_user p = user \<and> rp_program p \<noteq> None) (pt_profiles t))) rp_program"

text \<open>The area of the site asks for the information that it is about.\<close>

definition fits_area :: "string option \<Rightarrow> profile \<Rightarrow> bool" where
  "fits_area area p \<longleftrightarrow>
     (area = Some ''learn'' \<longrightarrow> rp_student_info p \<noteq> None) \<and> (area = Some ''teach'' \<longrightarrow> rp_teacher_info p \<noteq> None)"

text \<open>The newest one, of those with the same time the one with the greatest id, which is the last.\<close>

fun newest_profile :: "profile list \<Rightarrow> profile option" where
  "newest_profile [] = None"
| "newest_profile (p # ps) =
     (case newest_profile ps of None \<Rightarrow> Some p | Some q \<Rightarrow> Some (if rp_last_ts q \<ge> rp_last_ts p then q else p))"

definition getLastForProgram :: "datetime \<Rightarrow> int \<Rightarrow> int \<Rightarrow> string option \<Rightarrow> profiles \<Rightarrow> profile" where
  "getLastForProgram now user program area t =
     (case newest_profile (filter (\<lambda>p. rp_user p = user \<and> rp_program p = Some program \<and> fits_area area p) (pt_profiles t)) of
        None \<Rightarrow> (getLastProfile now user t)\<lparr>rp_program := Some program, rp_id := None\<rparr>
      | Some p \<Rightarrow> p)"

text \<open>Saving a profile: of the profiles of its user it is the most recent one now.\<close>

definition save_profile :: "datetime \<Rightarrow> profile \<Rightarrow> profiles \<Rightarrow> profile \<times> profiles" where
  "save_profile now p t =
     (let rows = map (\<lambda>r. if rp_user r = rp_user p \<and> rp_most_recent r then r\<lparr>rp_most_recent := False\<rparr> else r) (pt_profiles t);
          p = p\<lparr>rp_last_ts := now, rp_most_recent := True\<rparr> in
      case rp_id p of
        None \<Rightarrow> (let p = p\<lparr>rp_id := Some (pt_next t)\<rparr> in
          (p, t\<lparr>pt_profiles := rows @ [p], pt_next := pt_next t + 1\<rparr>))
      | Some i \<Rightarrow> (p, t\<lparr>pt_profiles := map (\<lambda>r. if rp_id r = Some i then p else r) rows\<rparr>))"

definition student_info_of :: "profiles \<Rightarrow> profile \<Rightarrow> student_info option" where
  "student_info_of t p = Option.bind (rp_student_info p) (\<lambda>i. find (\<lambda>n. stu_id n = i) (pt_infos t))"

subsection \<open>Grades\<close>

text \<open>A graduation year of zero counts as none.\<close>

definition getYOG :: "site \<Rightarrow> datetime \<Rightarrow> profiles \<Rightarrow> site_user \<Rightarrow> int option \<Rightarrow> bool \<Rightarrow> int option" where
  "getYOG s now t u program assume_student =
     (if assume_student \<or> is_user_type s ''Student'' u
      then let p = (case program of
               None \<Rightarrow> getLastProfile now (su_id u) t | Some i \<Rightarrow> getLastForProgram now (su_id u) i None t) in
        (case Option.bind (student_info_of t p) stu_graduation_year of
           None \<Rightarrow> None | Some y \<Rightarrow> if y = 0 then None else Some y)
      else None)"

text \<open>\<open>year\<close> gives the school year of a program, and that of today for none.\<close>

definition getGrade ::
  "site \<Rightarrow> datetime \<Rightarrow> (int option \<Rightarrow> int) \<Rightarrow> profiles \<Rightarrow> site_user \<Rightarrow> int option \<Rightarrow> bool \<Rightarrow> int" where
  "getGrade s now year t u program assume_student =
     (case getYOG s now t u program assume_student of None \<Rightarrow> 0 | Some yog \<Rightarrow> gradeFromYOG yog (year program))"

text \<open>\<open>grad_year\<close> is \<open>None\<close> where the argument is no number.\<close>

definition set_student_grad_year ::
  "site \<Rightarrow> datetime \<Rightarrow> int list \<Rightarrow> int \<Rightarrow> site_user \<Rightarrow> int option \<Rightarrow> bool \<Rightarrow> profiles \<Rightarrow> profiles" where
  "set_student_grad_year s now options schoolyear u grad_year validate t =
     (if \<not> is_user_type s ''Student'' u then t
      else case grad_year of
        None \<Rightarrow> t
      | Some year \<Rightarrow>
          if validate \<and> year \<notin> valid_graduation_years options schoolyear then t
          else let p = getLastProfile now (su_id u) t in
            case student_info_of t p of
              Some i \<Rightarrow> t\<lparr>pt_infos := map (\<lambda>n. if stu_id n = stu_id i then n\<lparr>stu_graduation_year := Some year\<rparr> else n) (pt_infos t)\<rparr>
            | None \<Rightarrow>
                let i = \<lparr>stu_id = pt_next t, stu_user = su_id u, stu_graduation_year = Some year\<rparr>;
                    t = t\<lparr>pt_infos := pt_infos t @ [i], pt_next := pt_next t + 1\<rparr> in
                if rp_student_info p = None then snd (save_profile now (p\<lparr>rp_student_info := Some (stu_id i)\<rparr>) t) else t)"

definition set_grade :: "site \<Rightarrow> datetime \<Rightarrow> int \<Rightarrow> site_user \<Rightarrow> int \<Rightarrow> profiles \<Rightarrow> profiles" where
  "set_grade s now schoolyear u grade t =
     set_student_grad_year s now [] schoolyear u (Some (YOGFromGrade grade schoolyear)) False t"

subsection \<open>What the grade of a student is\<close>

lemma grade_YOG [simp]: "gradeFromYOG (YOGFromGrade g y) y = g" "YOGFromGrade (gradeFromYOG g y) y = g"
  by (simp_all add: gradeFromYOG_def YOGFromGrade_def)

text \<open>The tables are in order: ids are unique, and profiles refer to information that is there.\<close>

definition profiles_ok :: "profiles \<Rightarrow> bool" where
  "profiles_ok t \<longleftrightarrow>
     distinct (map rp_id (pt_profiles t)) \<and> distinct (map stu_id (pt_infos t)) \<and>
     list_all (\<lambda>p. rp_id p \<noteq> None \<and> the (rp_id p) < pt_next t \<and>
       (case rp_student_info p of None \<Rightarrow> True | Some i \<Rightarrow> i \<in> stu_id ` set (pt_infos t))) (pt_profiles t) \<and>
     list_all (\<lambda>n. stu_id n < pt_next t) (pt_infos t)"

text \<open>At most one profile of a user is the most recent one.\<close>

definition recent_unique :: "profiles \<Rightarrow> bool" where
  "recent_unique t \<longleftrightarrow> (\<forall>user. length (filter (\<lambda>p. rp_user p = user \<and> rp_most_recent p) (pt_profiles t)) \<le> 1)"

lemma latest_profile_None [simp]: "latest_profile ps = None \<longleftrightarrow> ps = []"
  by (cases ps) (simp_all split: option.split)

lemma latest_profile_in: "latest_profile ps = Some p \<Longrightarrow> p \<in> set ps"
  by (induction ps arbitrary: p) (auto split: option.splits if_splits)

lemma latest_profile_max: "latest_profile ps = Some p \<Longrightarrow> q \<in> set ps \<Longrightarrow> rp_last_ts q \<le> rp_last_ts p"
proof (induction ps arbitrary: p)
  case (Cons x ps)
  show ?case
  proof (cases "latest_profile ps")
    case (Some y)
    then show ?thesis using Cons.IH [OF Some] Cons.prems by (auto split: if_splits intro: order_trans)
  qed (use Cons.prems in auto)
qed simp

text \<open>A profile that is later than all others is the latest.\<close>

lemma latest_profile_unique:
  assumes "p \<in> set ps" and "\<And>q. q \<in> set ps \<Longrightarrow> q = p \<or> rp_last_ts q < rp_last_ts p"
  shows "latest_profile ps = Some p"
proof -
  obtain q where q: "latest_profile ps = Some q" using assms(1) by (cases "latest_profile ps") auto
  then show ?thesis using latest_profile_in [OF q] latest_profile_max [OF q assms(1)] assms(2) by force
qed

lemma save_profile_recent:
  assumes "recent_unique t" and "distinct (map rp_id (pt_profiles t))"
  shows "recent_unique (snd (save_profile now p t))"
proof -
  let ?clear = "\<lambda>r. if rp_user r = rp_user p \<and> rp_most_recent r then r\<lparr>rp_most_recent := False\<rparr> else r"
  obtain rows where rows: "rows = map ?clear (pt_profiles t)" by blast
  let ?p = "p\<lparr>rp_last_ts := now, rp_most_recent := True\<rparr>"
  let ?recent = "\<lambda>user r. rp_user r = user \<and> rp_most_recent r"
  have none: "filter (?recent (rp_user p)) rows = []" by (auto simp: rows filter_empty_conv)
  have same: "filter (?recent user) (map ?clear ps) = filter (?recent user) ps" if "user \<noteq> rp_user p" for user ps
    using that by (induction ps) auto
  have others: "length (filter (?recent user) rows) \<le> 1" if "user \<noteq> rp_user p" for user
    unfolding rows same [OF that] using assms(1) by (simp add: recent_unique_def)
  show ?thesis
  proof (cases "rp_id p")
    case None
    have "length (filter (?recent user) (rows @ [?p\<lparr>rp_id := Some (pt_next t)\<rparr>])) \<le> 1" for user
      using none others [of user] assms(1) by (cases "user = rp_user p") (simp_all add: recent_unique_def)
    then show ?thesis by (simp add: save_profile_def None Let_def recent_unique_def flip: rows)
  next
    case (Some i)
    have ids: "map rp_id rows = map rp_id (pt_profiles t)" by (simp add: rows)
    then have distinct: "distinct (map rp_id rows)" using assms(2) by (simp only:)
    have swap: "length (filter (?recent user) (map (\<lambda>r. if rp_id r = Some i then ?p else r) rows)) \<le>
        length (filter (?recent user) rows) + (if user = rp_user p then 1 else 0)"
      if "distinct (map rp_id rows)" for user and rows :: "profile list"
      using that
    proof (induction rows)
      case (Cons r rows)
      show ?case
      proof (cases "rp_id r = Some i")
        case True
        then have "map (\<lambda>r. if rp_id r = Some i then ?p else r) rows = rows"
          using Cons.prems by (intro map_idI) (auto simp: image_iff)
        then show ?thesis using True by simp
      next
        case False
        then show ?thesis using Cons.IH Cons.prems by auto
      qed
    qed simp
    have "length (filter (?recent user) (map (\<lambda>r. if rp_id r = Some i then ?p else r) rows)) \<le> 1" for user
      using swap [OF distinct, of user] none others [of user] by (cases "user = rp_user p") simp_all
    then show ?thesis by (simp add: save_profile_def Some Let_def recent_unique_def flip: rows)
  qed
qed

text \<open>A later date is in no earlier school year.\<close>

lemma schoolyear_mono: "d \<le> d' \<Longrightarrow> current_schoolyear increment_date d \<le> current_schoolyear increment_date d'"
proof -
  assume "d \<le> d'"
  then have "fst d < fst d' \<or> fst d = fst d'" by (cases d; cases d') auto
  then show ?thesis
  proof
    assume "fst d = fst d'"
    then show ?thesis using \<open>d \<le> d'\<close> by (auto simp: current_schoolyear_def Let_def)
  qed (auto simp: current_schoolyear_def Let_def)
qed

subsection \<open>Setting a grade and reading it\<close>

lemma getLastProfile_in:
  "getLastProfile now user t \<in> set (pt_profiles t) \<and> rp_user (getLastProfile now user t) = user \<or>
    getLastProfile now user t = empty_profile now user"
proof (cases "latest_profile (filter (\<lambda>p. rp_user p = user) (pt_profiles t))")
  case (Some p)
  then show ?thesis using latest_profile_in [OF Some] by (simp add: getLastProfile_def)
qed (simp add: getLastProfile_def)

lemma find_new [simp]: "\<forall>n\<in>set ns. stu_id n \<noteq> stu_id i \<Longrightarrow> find (\<lambda>n. stu_id n = stu_id i) (ns @ [i]) = Some i"
  by (induction ns) auto

lemma find_set_year:
  "find (\<lambda>n. stu_id n = j) ns = Some i \<Longrightarrow>
    find (\<lambda>n. stu_id n = j) (map (\<lambda>n. if stu_id n = k then n\<lparr>stu_graduation_year := y\<rparr> else n) ns) =
      Some (if j = k then i\<lparr>stu_graduation_year := y\<rparr> else i)"
  by (induction ns) (auto split: if_splits)

lemma latest_saved:
  assumes "\<forall>q\<in>set (pt_profiles t). rp_user q = rp_user p \<longrightarrow> rp_last_ts q < now"
    and "rp_id p = None \<or> (\<exists>q\<in>set (pt_profiles t). rp_id q = rp_id p)"
  shows "getLastProfile now' (rp_user p) (snd (save_profile now p t)) = fst (save_profile now p t)"
proof -
  obtain q t' where q: "save_profile now p t = (q, t')" by fastforce
  have q': "q \<in> set (pt_profiles t')" "rp_user q = rp_user p" "rp_last_ts q = now"
    using q assms(2) by (force simp: save_profile_def Let_def split: option.splits)+
  have older: "r = q \<or> rp_last_ts r < now" if "r \<in> set (pt_profiles t')" "rp_user r = rp_user p" for r
    using q assms(1) that by (auto simp: save_profile_def Let_def split: option.splits if_splits)
  have "latest_profile (filter (\<lambda>r. rp_user r = rp_user p) (pt_profiles t')) = Some q"
    using q' older by (intro latest_profile_unique) auto
  then show ?thesis using q by (simp add: getLastProfile_def)
qed

lemma set_year_read:
  assumes "is_user_type s ''Student'' u" and "profiles_ok t" and "y \<noteq> 0"
    and "\<forall>q\<in>set (pt_profiles t). rp_user q = su_id u \<longrightarrow> rp_last_ts q < now"
    and "validate \<longrightarrow> y \<in> valid_graduation_years options schoolyear"
  shows "getYOG s now' (set_student_grad_year s now options schoolyear u (Some y) validate t) u None a = Some y"
proof -
  let ?p = "getLastProfile now (su_id u) t"
  show ?thesis
  proof (cases "student_info_of t ?p")
    case (Some i)
    then obtain j where j: "rp_student_info ?p = Some j" "find (\<lambda>n. stu_id n = j) (pt_infos t) = Some i"
      by (auto simp: student_info_of_def bind_eq_Some_conv)
    then have "stu_id i = j" by (auto simp: find_Some_iff)
    moreover have "?p \<noteq> empty_profile now (su_id u)" using j by (auto simp: empty_profile_def)
    ultimately show ?thesis
      using assms Some j find_set_year [OF j(2), of j "Some y"] 
      by (auto simp: set_student_grad_year_def getYOG_def student_info_of_def Let_def getLastProfile_def split: option.splits)
  next
    case None
    have fresh: "\<forall>n\<in>set (pt_infos t). stu_id n \<noteq> pt_next t"
      using assms(2) by (auto simp: profiles_ok_def list_all_iff)
    have none: "rp_student_info ?p = None"
    proof (rule ccontr)
      assume "rp_student_info ?p \<noteq> None"
      then obtain j where j: "rp_student_info ?p = Some j" by auto
      then have "?p \<in> set (pt_profiles t)" using getLastProfile_in [of now "su_id u" t] by (auto simp: empty_profile_def)
      then have "j \<in> stu_id ` set (pt_infos t)" using assms(2) j by (auto simp: profiles_ok_def list_all_iff)
      then have "find (\<lambda>n. stu_id n = j) (pt_infos t) \<noteq> None" unfolding find_None_iff by blast
      then show False using None j by (simp add: student_info_of_def)
    qed
    let ?i = "\<lparr>stu_id = pt_next t, stu_user = su_id u, stu_graduation_year = Some y\<rparr>"
    let ?t = "t\<lparr>pt_infos := pt_infos t @ [?i], pt_next := pt_next t + 1\<rparr>"
    let ?q = "?p\<lparr>rp_student_info := Some (pt_next t)\<rparr>"
    have user: "rp_user ?p = su_id u" using getLastProfile_in [of now "su_id u" t] by (auto simp: empty_profile_def)
    have set: "set_student_grad_year s now options schoolyear u (Some y) validate t = snd (save_profile now ?q ?t)"
      using assms(1,5) None none by (auto simp: set_student_grad_year_def Let_def)
    have "getLastProfile now' (rp_user ?q) (snd (save_profile now ?q ?t)) = fst (save_profile now ?q ?t)"
      using assms(4) user getLastProfile_in [of now "su_id u" t] by (intro latest_saved) (auto simp: empty_profile_def)
    moreover have "rp_student_info (fst (save_profile now ?q ?t)) = Some (pt_next t)"
      "pt_infos (snd (save_profile now ?q ?t)) = pt_infos t @ [?i]"
      by (auto simp: save_profile_def Let_def split: option.split)
    moreover have "find (\<lambda>n. stu_id n = pt_next t) (pt_infos t @ [?i]) = Some ?i"
      using find_new [of "pt_infos t" ?i] fresh by simp
    ultimately show ?thesis using assms(1,3) user unfolding set by (simp add: getYOG_def student_info_of_def)
  qed
qed

end
