(* ===== verification/Access_Control.thy ===== *)
theory Access_Control
  imports Deadlines Profiles
begin

section \<open>Sessions and the guards of views (users/models/\_\_init\_\_.py, program/modules/base.py)\<close>

text \<open>
  Who the user of a session is, and which views a guard lets the session see. An administrator or somebody who
  works onsite can act as another user (\<open>switch_to_user\<close>); the session keeps the way back. A program
  administrator can also try a registration out as a test account (\<open>start_testing\<close>).

  A request carries the session and the user object; what methods remember on the user object
  (\<open>rq_onsite_local\<close>, \<open>rq_other_user\<close>, \<open>rq_cache\<close>) lasts for one request. Of Django, logging out empties the
  session, and logging in sets the user and empties a session of somebody else. A guard answers with a
  \<open>verdict\<close>; \<open>View\<close> means that the view is called with the request that the guard leaves.
\<close>

subsection \<open>Requests\<close>

record morph =
  sm_olduser_id :: int
  sm_retUrl :: string
  sm_retTitle :: string
  sm_onsite :: bool

record testing_mode =
  tm_admin_user_id :: int
  tm_program_url :: string
  tm_role :: string

record request =
  rq_user :: "site_user option"
  rq_onsite_local :: bool
  rq_other_user :: bool
  rq_cache :: memberships
  rq_morph :: "morph option"
  rq_testing :: "testing_mode option"
  rq_perm_names :: "string list option"
  rq_roles_with_perm :: "string list option"

datatype verdict =
    View
  | Login_Page
  | Error_Page string
  | Deadline_Page string string
  | Redirect string
  | Bad_Request

definition get_user :: "site \<Rightarrow> int \<Rightarrow> site_user option" where
  "get_user s i = find (\<lambda>u. su_id u = i) (st_users s)"

definition new_user_object :: "site_user option \<Rightarrow> request \<Rightarrow> request" where
  "new_user_object u r = r\<lparr>rq_user := u, rq_onsite_local := False, rq_other_user := False, rq_cache := []\<rparr>"

definition logout :: "request \<Rightarrow> request" where
  "logout r = (new_user_object None r)\<lparr>rq_morph := None, rq_testing := None\<rparr>"

definition login :: "site_user \<Rightarrow> request \<Rightarrow> request" where
  "login u r = new_user_object (Some u)
     (case rq_user r of None \<Rightarrow> r | Some v \<Rightarrow> if su_id v = su_id u then r else logout r)"

text \<open>The next request of a session: its user is read again.\<close>

definition next_request :: "site \<Rightarrow> request \<Rightarrow> request" where
  "next_request s r = (new_user_object (Option.bind (rq_user r) (\<lambda>u. get_user s (su_id u))) r)
     \<lparr>rq_perm_names := None, rq_roles_with_perm := None\<rparr>"

subsection \<open>Acting as another user\<close>

definition updateOnsite :: "request \<Rightarrow> bool \<times> request" where
  "updateOnsite r =
     (case rq_morph r of
        Some m \<Rightarrow> if sm_onsite m then (True, r\<lparr>rq_onsite_local := True, rq_other_user := True\<rparr>)
          else (False, r\<lparr>rq_other_user := True\<rparr>)
      | None \<Rightarrow> (False, r\<lparr>rq_onsite_local := False, rq_other_user := False\<rparr>))"

definition switch_to_user ::
  "site \<Rightarrow> datetime \<Rightarrow> site_user \<Rightarrow> request \<Rightarrow> site_user \<Rightarrow> string \<Rightarrow> string \<Rightarrow> bool \<Rightarrow> request result" where
  "switch_to_user s now self r user retUrl retTitle onsite =
     (if isAdministrator s now user None \<or> su_staff user \<or> su_superuser user then Inl esp_error
      else Inr ((login user (logout r))\<lparr>rq_morph := Some \<lparr>sm_olduser_id = su_id self, sm_retUrl = retUrl,
        sm_retTitle = retTitle, sm_onsite = onsite\<rparr>\<rparr>))"

definition is_morphed :: "request \<Rightarrow> bool" where
  "is_morphed r \<longleftrightarrow> rq_morph r \<noteq> None"

abbreviation user_does_not_exist :: py_error where
  "user_does_not_exist \<equiv> OtherError ''DoesNotExist''"

text \<open>\<open>None\<close> stands for \<open>False\<close>: the session is nobody else's.\<close>

definition get_old :: "site \<Rightarrow> request \<Rightarrow> site_user option result" where
  "get_old s r =
     (case rq_morph r of
        None \<Rightarrow> Inr None
      | Some m \<Rightarrow> (case get_user s (sm_olduser_id m) of None \<Rightarrow> Inl user_does_not_exist | Some u \<Rightarrow> Inr (Some u)))"

definition switch_back :: "site \<Rightarrow> request \<Rightarrow> (string \<times> request) result" where
  "switch_back s r =
     (case rq_morph r of
        None \<Rightarrow> Inl esp_error
      | Some m \<Rightarrow>
          rbind (get_old s r) (\<lambda>old.
          Inr (sm_retUrl m, case old of None \<Rightarrow> r | Some u \<Rightarrow> login u (logout (r\<lparr>rq_morph := None\<rparr>)))))"

definition myesp_switchback :: "site \<Rightarrow> request \<Rightarrow> (verdict \<times> request) result" where
  "myesp_switchback s r =
     (if rq_user r = None then Inr (Login_Page, r)
      else let r = snd (updateOnsite r) in
        if \<not> rq_other_user r then Inl esp_error
        else rbind (switch_back s r) (\<lambda>(url, r). Inr (Redirect url, r)))"

definition isOnsite ::
  "site \<Rightarrow> datetime \<Rightarrow> bool \<Rightarrow> site_user \<Rightarrow> int option \<Rightarrow> memberships \<Rightarrow> (bool \<times> memberships) result" where
  "isOnsite s now onsite_local u program cache =
     (if onsite_local then Inr (True, cache) else user_has_perm s now u ''Onsite'' program None True cache)"

subsection \<open>Guards\<close>

definition not_logged_in :: "request \<Rightarrow> bool" where
  "not_logged_in r \<longleftrightarrow> rq_user r = None"

definition isAdmin :: "site \<Rightarrow> datetime \<Rightarrow> request \<Rightarrow> int option \<Rightarrow> bool" where
  "isAdmin s now r program = (case rq_user r of None \<Rightarrow> False | Some u \<Rightarrow> isAdministrator s now u program)"

definition user_is :: "site \<Rightarrow> string \<Rightarrow> request \<Rightarrow> bool" where
  "user_is s user_class r = (case rq_user r of None \<Rightarrow> False | Some u \<Rightarrow> is_user_type s user_class u)"

text \<open>\<open>perm\<close> asks for a permission of the user of the request, and remembers what it finds on the user object.\<close>

definition perm :: "site \<Rightarrow> datetime \<Rightarrow> string \<Rightarrow> int option \<Rightarrow> request \<Rightarrow> (bool \<times> request) result" where
  "perm s now name program r =
     (case rq_user r of
        None \<Rightarrow> Inl TypeError
      | Some u \<Rightarrow>
          rbind (user_has_perm s now u name program None False (rq_cache r)) (\<lambda>(b, cache).
          Inr (b, r\<lparr>rq_cache := cache\<rparr>)))"

definition user_isOnsite :: "site \<Rightarrow> datetime \<Rightarrow> int option \<Rightarrow> request \<Rightarrow> (bool \<times> request) result" where
  "user_isOnsite s now program r =
     (case rq_user r of
        None \<Rightarrow> Inl TypeError
      | Some u \<Rightarrow>
          rbind (isOnsite s now (rq_onsite_local r) u program (rq_cache r)) (\<lambda>(b, cache).
          Inr (b, r\<lparr>rq_cache := cache\<rparr>)))"

definition admin_required :: "site \<Rightarrow> datetime \<Rightarrow> request \<Rightarrow> (verdict \<times> request) result" where
  "admin_required s now r =
     (if rq_user r = None then Inr (Login_Page, r)
      else if \<not> isAdmin s now r None then Inl (OtherError ''PermissionDenied'')
      else Inr (View, r))"

text \<open>The pages of errors of the areas; other areas have none.\<close>

definition error_map :: "(string, string) dict" where
  "error_map =
    [(''learn'', ''notastudent.html''), (''teach'', ''notateacher.html''), (''manage'', ''notanadmin.html''),
     (''onsite'', ''notonsite.html'')]"

definition usercheck_usetl ::
  "site \<Rightarrow> datetime \<Rightarrow> int \<Rightarrow> string \<Rightarrow> request \<Rightarrow> (verdict \<times> request) result" where
  "usercheck_usetl s now program area r =
     (case map_of error_map area of
        None \<Rightarrow> Inl KeyError
      | Some page \<Rightarrow>
          if not_logged_in r then Inr (Login_Page, r)
          else if isAdmin s now r (Some program) \<or> area = ''learn'' \<and> user_is s ''Student'' r \<or>
            area = ''teach'' \<and> user_is s ''Teacher'' r then Inr (View, r)
          else if area = ''onsite''
          then rbind (user_isOnsite s now None r) (\<lambda>(b, r). Inr (if b then View else Error_Page page, r))
          else Inr (Error_Page page, r))"

definition user_passes_test ::
  "(request \<Rightarrow> (bool \<times> request) result) \<Rightarrow> verdict \<Rightarrow> bool \<Rightarrow> request \<Rightarrow> (verdict \<times> request) result" where
  "user_passes_test test_func failure require_login r =
     (if require_login \<and> not_logged_in r then Inr (Login_Page, r)
      else rbind (test_func r) (\<lambda>(b, r). Inr (if b then View else failure, r)))"

definition then_guard ::
  "(request \<Rightarrow> (verdict \<times> request) result) \<Rightarrow> (request \<Rightarrow> (verdict \<times> request) result) \<Rightarrow> request \<Rightarrow> (verdict \<times> request) result"
where
  "then_guard outer inner r = rbind (outer r) (\<lambda>(v, r). if v = View then inner r else Inr (v, r))"

definition needs_student :: "site \<Rightarrow> datetime \<Rightarrow> int \<Rightarrow> request \<Rightarrow> (verdict \<times> request) result" where
  "needs_student s now program =
     user_passes_test (\<lambda>r. Inr (user_is s ''Student'' r \<or> isAdmin s now r (Some program), r))
       (Error_Page ''notastudent.html'') True"

definition needs_teacher :: "site \<Rightarrow> datetime \<Rightarrow> int \<Rightarrow> request \<Rightarrow> (verdict \<times> request) result" where
  "needs_teacher s now program =
     user_passes_test (\<lambda>r. Inr (user_is s ''Teacher'' r \<or> isAdmin s now r (Some program), r))
       (Error_Page ''notateacher.html'') True"

definition needs_account :: "request \<Rightarrow> (verdict \<times> request) result" where
  "needs_account = user_passes_test (\<lambda>r. Inr (True, r)) (Error_Page ''deadline.html'') True"

text \<open>The range of grades of a program, the tables of profiles and the school years are arguments.\<close>

definition meets_grade_test ::
  "site \<Rightarrow> datetime \<Rightarrow> profiles \<Rightarrow> (int option \<Rightarrow> int) \<Rightarrow> int \<Rightarrow> int \<Rightarrow> int \<Rightarrow> request \<Rightarrow> (bool \<times> request) result" where
  "meets_grade_test s now t year program grade_min grade_max r =
     rbind (perm s now ''GradeOverride'' (Some program) r) (\<lambda>(b, r).
     if b then Inr (True, r)
     else case rq_user r of
       None \<Rightarrow> Inl TypeError
     | Some u \<Rightarrow>
         let cur_grade = getGrade s now year t u (Some program) False in
         Inr (\<not> (cur_grade \<noteq> 0 \<and> (cur_grade < grade_min \<or> cur_grade > grade_max)), r))"

definition meets_grade ::
  "site \<Rightarrow> datetime \<Rightarrow> profiles \<Rightarrow> (int option \<Rightarrow> int) \<Rightarrow> int \<Rightarrow> int \<Rightarrow> int \<Rightarrow> request \<Rightarrow> (verdict \<times> request) result" where
  "meets_grade s now t year program grade_min grade_max =
     user_passes_test (meets_grade_test s now t year program grade_min grade_max) (Error_Page ''wronggrade.html'') False"

definition needs_student_in_grade ::
  "site \<Rightarrow> datetime \<Rightarrow> profiles \<Rightarrow> (int option \<Rightarrow> int) \<Rightarrow> int \<Rightarrow> int \<Rightarrow> int \<Rightarrow> request \<Rightarrow> (verdict \<times> request) result" where
  "needs_student_in_grade s now t year program grade_min grade_max =
     then_guard (needs_student s now program) (meets_grade s now t year program grade_min grade_max)"

text \<open>
  The guard for administrators also accepts those who act as somebody else. \<open>other_user\<close> is a truth value, which
  has no method \<open>isAdmin\<close>.
\<close>

definition needs_admin :: "site \<Rightarrow> datetime \<Rightarrow> int \<Rightarrow> request \<Rightarrow> (verdict \<times> request) result" where
  "needs_admin s now program r =
     rbind (get_old s r) (\<lambda>morpheduser.
     if not_logged_in r then Inr (Login_Page, r)
     else if isAdmin s now r (Some program) \<or>
       (case morpheduser of None \<Rightarrow> False | Some u \<Rightarrow> isAdministrator s now u (Some program)) then Inr (View, r)
     else if rq_other_user r then Inl AttributeError
     else Inr (Error_Page ''notanadmin.html'', r))"

text \<open>Somebody who works onsite and acts as a student becomes himself again.\<close>

definition onsite_guard :: "bool \<Rightarrow> site \<Rightarrow> datetime \<Rightarrow> int \<Rightarrow> request \<Rightarrow> (verdict \<times> request) result" where
  "onsite_guard back s now program r =
     (if not_logged_in r then Inr (Login_Page, r)
      else rbind (user_isOnsite s now (Some program) r) (\<lambda>(b, r).
        if b \<or> isAdmin s now r (Some program) then Inr (View, r)
        else let r = snd (updateOnsite r) in
          rbind (get_old s r) (\<lambda>ouser.
          if \<not> rq_other_user r then Inr (Error_Page ''notonsite.html'', r)
          else case ouser of
            None \<Rightarrow> Inl AttributeError
          | Some u \<Rightarrow>
              rbind (isOnsite s now False u (Some program) []) (\<lambda>(b, _).
              if \<not> b \<and> \<not> isAdministrator s now u (Some program) then Inr (Error_Page ''notonsite.html'', r)
              else if back then rbind (switch_back s r) (\<lambda>(_, r). Inr (View, r))
              else Inr (View, r)))))"

definition needs_onsite :: "site \<Rightarrow> datetime \<Rightarrow> int \<Rightarrow> request \<Rightarrow> (verdict \<times> request) result" where
  "needs_onsite = onsite_guard True"

definition needs_onsite_no_switchback :: "site \<Rightarrow> datetime \<Rightarrow> int \<Rightarrow> request \<Rightarrow> (verdict \<times> request) result" where
  "needs_onsite_no_switchback = onsite_guard False"

subsection \<open>Deadlines\<close>

definition perm_prefix :: "(string, string) dict" where
  "perm_prefix = [(''learn'', ''Student''), (''teach'', ''Teacher''), (''volunteer'', ''Volunteer'')]"

text \<open>
  Whether a request meets the deadline of an extension, and whether the answer to a failure is the page for logging
  in. The program of the request can be another one than that of the module.
\<close>

definition checkDeadline_helper ::
  "site \<Rightarrow> datetime \<Rightarrow> int \<Rightarrow> bool \<Rightarrow> string \<Rightarrow> string \<Rightarrow> request \<Rightarrow> ((bool \<times> bool) \<times> request) result" where
  "checkDeadline_helper s now program require_auth area extension r =
     (case map_of perm_prefix area of
        None \<Rightarrow> Inr ((True, False), r)
      | Some p \<Rightarrow>
          let perm_name = p @ extension in
          case rq_user r of
            None \<Rightarrow>
              if \<not> require_auth \<and> null_user_has_perm s now perm_name (Some program) then Inr ((True, False), r)
              else Inr ((False, True), r)
          | Some u \<Rightarrow>
              let (canView, r) = updateOnsite r in
              if canView then Inr ((True, False), r)
              else rbind (perm s now perm_name (Some program) r) (\<lambda>(canView, r).
                let canView = canView \<or> null_user_has_perm s now perm_name (Some program);
                    r = (if isAdministrator s now u (Some program)
                      then r\<lparr>rq_perm_names := Some ((case rq_perm_names r of None \<Rightarrow> [] | Some ns \<Rightarrow> ns) @ [perm_name]),
                        rq_roles_with_perm := Some ((case rq_roles_with_perm r of None \<Rightarrow> [] | Some ns \<Rightarrow> ns) @
                          list_roles_with_perm s now perm_name (Some program))\<rparr>
                      else r) in
                Inr ((canView, False), r)))"

definition list_extensions :: "string \<Rightarrow> string list \<Rightarrow> string \<Rightarrow> string result" where
  "list_extensions area extensions andor =
     (case map_of perm_prefix area of
        None \<Rightarrow> Inl KeyError
      | Some nice \<Rightarrow>
          Inr (case extensions of
            [] \<Rightarrow> ''no deadlines were''
          | [e] \<Rightarrow> ''the deadline '' @ nice @ e @ '' was''
          | [e, e'] \<Rightarrow> ''the deadlines '' @ nice @ e @ '' '' @ andor @ '' '' @ nice @ e' @ '' were''
          | _ \<Rightarrow> ''the deadlines '' @ concat (map (\<lambda>e. nice @ e @ '', '') (butlast extensions)) @ andor @ '' '' @
              nice @ last extensions @ '' were''))"

text \<open>The extensions in turn; \<open>response\<close> is that of the one before, and is not set before the first.\<close>

fun any_deadline ::
  "site \<Rightarrow> datetime \<Rightarrow> int \<Rightarrow> bool \<Rightarrow> string \<Rightarrow> string list \<Rightarrow> string list \<Rightarrow> bool option \<Rightarrow> request \<Rightarrow> (verdict \<times> request) result"
where
  "any_deadline s now program require_auth area extensions [] response r =
     (case response of
        None \<Rightarrow> Inl (OtherError ''UnboundLocalError'')
      | Some True \<Rightarrow> Inr (Login_Page, r)
      | Some False \<Rightarrow>
          rbind (list_extensions area extensions ''and'') (\<lambda>text.
          Inr (Deadline_Page (''errors/program/deadline-'' @ area @ ''.html'') text, r)))"
| "any_deadline s now program require_auth area extensions (ext # exts) response r =
     rbind (checkDeadline_helper s now program require_auth area ext r) (\<lambda>((canView, response), r).
     if canView then Inr (View, r)
     else any_deadline s now program require_auth area extensions exts (Some response) r)"

text \<open>The decorator refuses extensions that name no deadline.\<close>

definition valid_extension :: "string \<Rightarrow> bool" where
  "valid_extension ext \<longleftrightarrow> list_ex (\<lambda>p. p @ ext \<in> set deadline_types) [''Student'', ''Teacher'', ''Volunteer'']"

definition meets_any_deadline ::
  "string list \<Rightarrow> (site \<Rightarrow> datetime \<Rightarrow> int \<Rightarrow> bool \<Rightarrow> string \<Rightarrow> request \<Rightarrow> (verdict \<times> request) result) result" where
  "meets_any_deadline extensions =
     (if list_ex (\<lambda>e. \<not> valid_extension e) extensions then Inl (OtherError ''ImproperlyConfigured'')
      else Inr (\<lambda>s now program require_auth area.
        any_deadline s now program require_auth area extensions extensions None))"

definition meets_deadline ::
  "string \<Rightarrow> (site \<Rightarrow> datetime \<Rightarrow> int \<Rightarrow> bool \<Rightarrow> string \<Rightarrow> request \<Rightarrow> (verdict \<times> request) result) result" where
  "meets_deadline extension = meets_any_deadline [extension]"

subsection \<open>Views that change whose session it is\<close>

text \<open>
  The user asked for is \<open>None\<close> where the form has no number; the program of an onsite session likewise. The URL
  of the user's page and his name are arguments.
\<close>

definition morph_into_user ::
  "site \<Rightarrow> datetime \<Rightarrow> int option \<Rightarrow> int option \<Rightarrow> string \<Rightarrow> string \<Rightarrow> request \<Rightarrow> (verdict \<times> request) result" where
  "morph_into_user s now user_id onsite_id view_url name r =
     rbind (admin_required s now r) (\<lambda>(v, r).
     if v \<noteq> View then Inr (v, r)
     else case (rq_user r, Option.bind user_id (get_user s)) of
       (Some self, Some morph_user) \<Rightarrow>
         let onsite = Option.bind onsite_id (\<lambda>i. find (\<lambda>(j, _). j = i) (st_programs s)) in
         rbind (switch_to_user s now self r morph_user view_url (''User Search for '' @ name) (onsite \<noteq> None)) (\<lambda>r.
         Inr (Redirect (case onsite of None \<Rightarrow> ''/'' | Some (_, url) \<Rightarrow> ''/learn/'' @ url @ ''/studentreg''), r))
     | _ \<Rightarrow> Inr (Bad_Request, r))"

text \<open>\<open>student_selected\<close> is the number in the form, if there is one; the page is shown otherwise.\<close>

definition schedule_students ::
  "site \<Rightarrow> datetime \<Rightarrow> int \<Rightarrow> string \<Rightarrow> string \<Rightarrow> int option \<Rightarrow> request \<Rightarrow> (verdict \<times> request) result" where
  "schedule_students s now program url core_url student_selected r =
     rbind (needs_onsite s now program r) (\<lambda>(v, r).
     if v \<noteq> View then Inr (v, r)
     else case student_selected of
       None \<Rightarrow> Inr (View, r)
     | Some i \<Rightarrow>
         if ''Student'' \<notin> set (st_types s) then Inl esp_error
         else case (rq_user r, find (\<lambda>u. su_id u = i \<and> ''Student'' \<in> set (su_groups u)) (st_users s)) of
           (Some self, Some user) \<Rightarrow>
             rbind (switch_to_user s now self r user core_url ''OnSite Registration!'' True) (\<lambda>r.
             Inr (Redirect (''/learn/'' @ url @ ''/studentreg''), r))
         | _ \<Rightarrow> Inr (View, r))"

text \<open>The account for testing a role in the program is an argument; \<open>extra\<close> is in the URL.\<close>

definition start_testing ::
  "site \<Rightarrow> datetime \<Rightarrow> int \<Rightarrow> string \<Rightarrow> string \<Rightarrow> (string \<Rightarrow> site_user) \<Rightarrow> request \<Rightarrow> (verdict \<times> request) result" where
  "start_testing s now program url extra test_user r =
     rbind (needs_admin s now program r) (\<lambda>(v, r).
     if v \<noteq> View then Inr (v, r)
     else case (rq_user r, map_of [(''student'', ''Student''), (''teacher'', ''Teacher'')] extra) of
       (Some admin, Some role) \<Rightarrow>
         Inr (Redirect ''/'', (login (test_user role) (logout r))
           \<lparr>rq_testing := Some \<lparr>tm_admin_user_id = su_id admin, tm_program_url = url, tm_role = role\<rparr>\<rparr>)
     | _ \<Rightarrow> Inl esp_error)"

definition myesp_stop_testing :: "site \<Rightarrow> datetime \<Rightarrow> request \<Rightarrow> verdict \<times> request" where
  "myesp_stop_testing s now r =
     (case rq_testing r of
        None \<Rightarrow> (Redirect ''/'', r)
      | Some t \<Rightarrow>
          let r = logout r in
          case get_user s (tm_admin_user_id t) of
            None \<Rightarrow> (Redirect ''/'', r)
          | Some admin \<Rightarrow>
              if \<not> isAdministrator s now admin None then (Redirect ''/'', r)
              else (Redirect (''/manage/'' @ tm_program_url t @ ''/admin_testing/''), login admin r))"

end
