(* ===== verification/Sessions.thy ===== *)
theory Sessions
  imports Access_Control
begin

section \<open>What the guards let pass, and whose session it can become\<close>

text \<open>
  What it means that a guard calls its view (\<open>needs_onsite_view\<close>, \<open>deadline_view\<close>, \<open>needs_student_in_grade_view\<close>), the
  sessions as a transition system (\<open>session_step\<close>) with the invariant that acting as somebody else gives nobody the
  rights of an administrator of the site (\<open>own_session_steps\<close>), and the ways back.
\<close>

subsection \<open>Guards\<close>

lemma perm_decides:
  assumes "rq_user r = Some u" and "filters_exist s" and "coherent s (rq_cache r)"
  shows "\<exists>cache. perm s now name program r = Inr (granted s now u name program now False, r\<lparr>rq_cache := cache\<rparr>) \<and>
    coherent s cache"
  using user_has_perm_decides [OF assms(3,2), of now u name program None False] assms(1) by (auto simp: perm_def)

lemma isOnsite_decides:
  assumes "filters_exist s" and "coherent s cache"
  shows "\<exists>cache'. isOnsite s now False u program cache = Inr (granted s now u ''Onsite'' program now True, cache') \<and>
    coherent s cache'"
  using user_has_perm_decides [OF assms(2,1), of now u "''Onsite''" program None True] by (simp add: isOnsite_def)

lemma isAdministrator_granted: "isAdministrator s now u program \<Longrightarrow> granted s now u name program now b"
  by (simp add: granted_def)

text \<open>The user who acts in the session: the one who works onsite, if the session is his as well.\<close>

definition onsite_person :: "site \<Rightarrow> datetime \<Rightarrow> int \<Rightarrow> request \<Rightarrow> site_user option" where
  "onsite_person s now program r =
     (case rq_user r of
        None \<Rightarrow> None
      | Some u \<Rightarrow>
          if granted s now u ''Onsite'' (Some program) now True then Some u
          else case Option.bind (rq_morph r) (\<lambda>m. get_user s (sm_olduser_id m)) of
            None \<Rightarrow> None
          | Some w \<Rightarrow> if granted s now w ''Onsite'' (Some program) now True then Some w else None)"

lemma updateOnsite_keeps [simp]:
  "rq_user (snd (updateOnsite r)) = rq_user r" "rq_morph (snd (updateOnsite r)) = rq_morph r"
  "rq_testing (snd (updateOnsite r)) = rq_testing r" "rq_cache (snd (updateOnsite r)) = rq_cache r"
  "rq_other_user (snd (updateOnsite r)) = is_morphed r"
  by (auto simp: updateOnsite_def is_morphed_def split: option.split)

lemma login_simps [simp]:
  "rq_user (login u r) = Some u" "rq_morph (login u (logout r)) = None" "rq_testing (login u (logout r)) = None"
  "rq_user (logout r) = None" "rq_morph (logout r) = None" "rq_testing (logout r) = None"
  by (simp_all add: login_def logout_def new_user_object_def)

lemma needs_onsite_view:
  assumes "filters_exist s" and "coherent s (rq_cache r)" and "\<not> rq_onsite_local r"
    and "\<And>m. rq_morph r = Some m \<Longrightarrow> get_user s (sm_olduser_id m) \<noteq> None"
  shows "\<exists>v r'. needs_onsite s now program r = Inr (v, r') \<and> (v = View \<longleftrightarrow> onsite_person s now program r \<noteq> None) \<and>
    (v = View \<longrightarrow> rq_user r' = onsite_person s now program r)"
proof (cases "rq_user r")
  case None
  then show ?thesis by (simp add: needs_onsite_def onsite_guard_def not_logged_in_def onsite_person_def)
next
  case (Some u)
  obtain cache where u: "isOnsite s now False u (Some program) (rq_cache r) =
      Inr (granted s now u ''Onsite'' (Some program) now True, cache)"
    using isOnsite_decides [OF assms(1,2)] by blast
  show ?thesis
  proof (cases "granted s now u ''Onsite'' (Some program) now True")
    case True
    then show ?thesis using Some u assms(3)
      by (simp add: needs_onsite_def onsite_guard_def not_logged_in_def onsite_person_def user_isOnsite_def)
  next
    case no: False
    then have admin: "\<not> isAdministrator s now u (Some program)" using isAdministrator_granted by blast
    show ?thesis
    proof (cases "rq_morph r")
      case None
      then show ?thesis using Some u assms(3) no admin
        by (simp add: needs_onsite_def onsite_guard_def not_logged_in_def onsite_person_def user_isOnsite_def isAdmin_def
          get_old_def is_morphed_def Let_def)
    next
      case m: (Some m)
      then obtain w where w: "get_user s (sm_olduser_id m) = Some w" using assms(4) by auto
      obtain cache' where on: "isOnsite s now False w (Some program) [] =
          Inr (granted s now w ''Onsite'' (Some program) now True, cache')"
        using isOnsite_decides [OF assms(1) coherent_empty] by blast
      have "isAdministrator s now w (Some program) \<longrightarrow> granted s now w ''Onsite'' (Some program) now True"
        by (simp add: isAdministrator_granted)
      then show ?thesis using Some u assms(3) no admin m w on
        by (auto simp: needs_onsite_def onsite_guard_def not_logged_in_def onsite_person_def user_isOnsite_def isAdmin_def
          get_old_def is_morphed_def Let_def switch_back_def)
    qed
  qed
qed

lemma granted_student_or_admin:
  "rq_user r = Some u \<Longrightarrow> (\<exists>r'. needs_student s now program r = Inr (View, r')) \<longleftrightarrow>
    is_user_type s ''Student'' u \<or> isAdministrator s now u (Some program)"
  by (auto simp: needs_student_def user_passes_test_def not_logged_in_def user_is_def isAdmin_def)

lemma needs_student_in_grade_view:
  assumes "filters_exist s" and "coherent s (rq_cache r)" and "rq_user r = Some u"
  shows "(\<exists>r'. needs_student_in_grade s now t year program grade_min grade_max r = Inr (View, r')) \<longleftrightarrow>
    (is_user_type s ''Student'' u \<or> isAdministrator s now u (Some program)) \<and>
    (granted s now u ''GradeOverride'' (Some program) now False \<or> getGrade s now year t u (Some program) False = 0 \<or>
     getGrade s now year t u (Some program) False \<in> {grade_min..grade_max})"
proof -
  obtain cache where "perm s now ''GradeOverride'' (Some program) r =
      Inr (granted s now u ''GradeOverride'' (Some program) now False, r\<lparr>rq_cache := cache\<rparr>)"
    using perm_decides [OF assms(3,1,2)] by blast
  then show ?thesis using assms(3)
    by (auto simp: needs_student_in_grade_def then_guard_def needs_student_def user_passes_test_def not_logged_in_def
      user_is_def isAdmin_def meets_grade_def meets_grade_test_def Let_def)
qed

subsection \<open>Deadlines\<close>

lemma updateOnsite_false: "\<not> fst (updateOnsite r) \<longleftrightarrow> (\<forall>m. rq_morph r = Some m \<longrightarrow> \<not> sm_onsite m)"
  by (auto simp: updateOnsite_def split: option.split)

text \<open>A deadline that is met for one reason or the other.\<close>

definition deadline_open :: "site \<Rightarrow> datetime \<Rightarrow> site_user \<Rightarrow> string \<Rightarrow> int \<Rightarrow> bool" where
  "deadline_open s now u name program \<longleftrightarrow>
     granted s now u name (Some program) now False \<or> null_user_has_perm s now name (Some program)"

lemma checkDeadline_helper_decides:
  assumes "filters_exist s" and "coherent s (rq_cache r)" and "rq_user r = Some u" and "map_of perm_prefix area = Some p"
    and "\<not> fst (updateOnsite r)"
  shows "\<exists>r'. checkDeadline_helper s now program require_auth area ext r =
      Inr ((deadline_open s now u (p @ ext) program, False), r') \<and>
    rq_user r' = rq_user r \<and> rq_morph r' = rq_morph r \<and> coherent s (rq_cache r')"
proof -
  let ?r = "snd (updateOnsite r)"
  have "rq_user ?r = Some u" "coherent s (rq_cache ?r)" using assms by simp_all
  from perm_decides [OF this(1) assms(1) this(2)] obtain cache where
    "perm s now (p @ ext) (Some program) ?r =
       Inr (granted s now u (p @ ext) (Some program) now False, ?r\<lparr>rq_cache := cache\<rparr>)" "coherent s cache" by blast
  then show ?thesis using assms(3-5)
    by (cases "updateOnsite r") (auto simp: checkDeadline_helper_def deadline_open_def Let_def updateOnsite_def
      split: option.splits if_splits)
qed

lemma any_deadline_decides:
  assumes "filters_exist s" and "coherent s (rq_cache r)" and "rq_user r = Some u" and "map_of perm_prefix area = Some p"
    and "\<not> fst (updateOnsite r)" and "exts \<noteq> [] \<or> response = Some False"
  shows "\<exists>v r'. any_deadline s now program require_auth area extensions exts response r = Inr (v, r') \<and>
    (v = View \<longleftrightarrow> (\<exists>e\<in>set exts. deadline_open s now u (p @ e) program)) \<and> rq_user r' = Some u"
  using assms(2,3,5,6)
proof (induction exts arbitrary: response r)
  case Nil
  then show ?case using assms(4) by (simp add: list_extensions_def)
next
  case (Cons e exts)
  from checkDeadline_helper_decides [OF assms(1) Cons.prems(1,2) assms(4) Cons.prems(3)] obtain r' where
    r': "checkDeadline_helper s now program require_auth area e r =
        Inr ((deadline_open s now u (p @ e) program, False), r')"
      "rq_user r' = rq_user r" "rq_morph r' = rq_morph r" "coherent s (rq_cache r')" by blast
  show ?case
  proof (cases "deadline_open s now u (p @ e) program")
    case False
    have "\<not> fst (updateOnsite r')" using Cons.prems(3) r'(3) by (simp add: updateOnsite_false)
    then show ?thesis using Cons.IH [OF r'(4)] r' Cons.prems(2) False by simp
  qed (use r' Cons.prems(2) in simp)
qed

text \<open>
  A session of somebody who is logged in, and not one of an onsite registration, meets one of the deadlines if and
  only if the user is granted it, or there is a permission for it that names no user.
\<close>

lemma meets_any_deadline_view:
  assumes "filters_exist s" and "coherent s (rq_cache r)" and "rq_user r = Some u" and "map_of perm_prefix area = Some p"
    and "\<And>m. rq_morph r = Some m \<Longrightarrow> \<not> sm_onsite m" and "extensions \<noteq> []"
    and "meets_any_deadline extensions = Inr guard"
  shows "\<exists>v r'. guard s now program require_auth area r = Inr (v, r') \<and>
    (v = View \<longleftrightarrow> (\<exists>e\<in>set extensions. deadline_open s now u (p @ e) program))"
proof -
  have "\<not> fst (updateOnsite r)" using assms(5) by (simp add: updateOnsite_false)
  from any_deadline_decides [OF assms(1-4) this] assms(6,7) show ?thesis
    by (fastforce simp: meets_any_deadline_def split: if_splits)
qed

subsection \<open>Sessions as a transition system\<close>

text \<open>
  The requests that can change what is in a session, at times \<open>T\<close>. \<open>tests\<close> are the accounts that programs designate
  for testing, by a tag or by their name; whose they are is not checked when they are used.
\<close>

inductive session_step :: "site \<Rightarrow> datetime set \<Rightarrow> site_user set \<Rightarrow> request \<Rightarrow> request \<Rightarrow> bool" for s T tests where
  again: "session_step s T tests r (next_request s r)"
| leave: "session_step s T tests r (logout r)"
| morph: "now \<in> T \<Longrightarrow> morph_into_user s now user_id onsite_id view_url name r = Inr (v, r') \<Longrightarrow> session_step s T tests r r'"
| onsite: "now \<in> T \<Longrightarrow> schedule_students s now program url core_url chosen r = Inr (v, r') \<Longrightarrow> session_step s T tests r r'"
| guarded: "now \<in> T \<Longrightarrow> onsite_guard b s now program r = Inr (v, r') \<Longrightarrow> session_step s T tests r r'"
| deadline: "now \<in> T \<Longrightarrow> any_deadline s now program require_auth area extensions exts response r = Inr (v, r') \<Longrightarrow>
    session_step s T tests r r'"
| back_again: "myesp_switchback s r = Inr (v, r') \<Longrightarrow> session_step s T tests r r'"
| test: "now \<in> T \<Longrightarrow> start_testing s now program url extra account r = Inr (v, r') \<Longrightarrow>
    range account \<subseteq> tests \<inter> set (st_users s) \<Longrightarrow> session_step s T tests r r'"
| stop: "now \<in> T \<Longrightarrow> session_step s T tests r (snd (myesp_stop_testing s now r))"

inductive session_steps :: "site \<Rightarrow> datetime set \<Rightarrow> site_user set \<Rightarrow> request \<Rightarrow> request \<Rightarrow> bool" for s T tests where
  refl: "session_steps s T tests r r"
| step: "session_steps s T tests r r' \<Longrightarrow> session_step s T tests r' r'' \<Longrightarrow> session_steps s T tests r r''"

text \<open>The rights of an administrator of the site, at a time: the role, a permission to administer that is valid and
  for all programs, or the flags of Django.\<close>

definition site_rights :: "site \<Rightarrow> datetime \<Rightarrow> site_user \<Rightarrow> bool" where
  "site_rights s now u \<longleftrightarrow> isAdministrator s now u None \<or> su_staff u \<or> su_superuser u"

text \<open>
  The session belongs to a user: whoever it is at the moment, or can become again, is that user, an account for
  testing, or somebody who at some time of the session had no rights of an administrator.
\<close>

definition own_user :: "site \<Rightarrow> datetime set \<Rightarrow> site_user set \<Rightarrow> site_user \<Rightarrow> site_user \<Rightarrow> bool" where
  "own_user s T tests owner u \<longleftrightarrow>
     u \<in> set (st_users s) \<and> (u = owner \<or> u \<in> tests \<or> (\<exists>now\<in>T. \<not> site_rights s now u))"

definition own_id :: "site \<Rightarrow> datetime set \<Rightarrow> site_user set \<Rightarrow> site_user \<Rightarrow> int \<Rightarrow> bool" where
  "own_id s T tests owner i \<longleftrightarrow> (\<forall>u. get_user s i = Some u \<longrightarrow> own_user s T tests owner u)"

definition own_session :: "site \<Rightarrow> datetime set \<Rightarrow> site_user set \<Rightarrow> site_user \<Rightarrow> request \<Rightarrow> bool" where
  "own_session s T tests owner r \<longleftrightarrow>
     (\<forall>u. rq_user r = Some u \<longrightarrow> own_user s T tests owner u) \<and>
     (\<forall>m. rq_morph r = Some m \<longrightarrow> own_id s T tests owner (sm_olduser_id m)) \<and>
     (\<forall>t. rq_testing r = Some t \<longrightarrow> own_id s T tests owner (tm_admin_user_id t))"

lemma get_user_unique: "distinct (map su_id (st_users s)) \<Longrightarrow> u \<in> set (st_users s) \<Longrightarrow> get_user s (su_id u) = Some u"
proof (induction "st_users s" arbitrary: s)
  case (Cons v us)
  have "get_user (s\<lparr>st_users := us\<rparr>) (su_id u) = Some u" if "u \<in> set us"
    using Cons.hyps(1) [of "s\<lparr>st_users := us\<rparr>"] Cons.prems that by (simp flip: Cons.hyps(2))
  then show ?case using Cons.prems by (auto simp: get_user_def image_iff simp flip: Cons.hyps(2))
qed simp

lemma get_user_in: "get_user s i = Some u \<Longrightarrow> u \<in> set (st_users s) \<and> su_id u = i"
  by (auto simp: get_user_def find_Some_iff)

lemma find_in: "find P xs = Some x \<Longrightarrow> x \<in> set xs \<and> P x"
  by (auto simp: find_Some_iff)

lemma own_user_id: "distinct (map su_id (st_users s)) \<Longrightarrow> own_user s T tests owner u \<Longrightarrow> own_id s T tests owner (su_id u)"
  using get_user_unique [of s u] by (simp add: own_user_def own_id_def)

text \<open>What is remembered on the user object, and what is shown to administrators, does not matter.\<close>

lemma own_session_cong:
  "rq_user r' = rq_user r \<Longrightarrow> rq_morph r' = rq_morph r \<Longrightarrow> rq_testing r' = rq_testing r \<Longrightarrow>
    own_session s T tests owner r \<Longrightarrow> own_session s T tests owner r'"
  by (simp add: own_session_def)

lemma own_session_logout: "own_session s T tests owner (logout r)"
  by (simp add: own_session_def)

lemma own_session_login: "own_user s T tests owner u \<Longrightarrow> own_session s T tests owner (login u (logout r))"
  by (simp add: own_session_def)

lemma own_switch_to_user:
  assumes "switch_to_user s now self r user retUrl retTitle b = Inr r'" and "own_id s T tests owner (su_id self)"
    and "user \<in> set (st_users s)" and "now \<in> T"
  shows "own_session s T tests owner r'"
proof -
  have "\<not> site_rights s now user" using assms(1) by (auto simp: switch_to_user_def site_rights_def split: if_splits)
  then show ?thesis using assms by (auto simp: switch_to_user_def own_session_def own_user_def split: if_splits)
qed

lemma own_switch_back:
  assumes "switch_back s r = Inr (url, r')" and "own_session s T tests owner r"
  shows "own_session s T tests owner r'"
  using assms
  by (auto simp: switch_back_def get_old_def rbind_Inr_iff own_session_def own_id_def split: option.splits)

lemma user_isOnsite_keeps:
  "user_isOnsite s now program r = Inr (b, r') \<Longrightarrow> rq_user r' = rq_user r \<and> rq_morph r' = rq_morph r \<and> rq_testing r' = rq_testing r"
  by (auto simp: user_isOnsite_def rbind_Inr_iff split: option.splits)

lemma own_updateOnsite: "own_session s T tests owner r \<Longrightarrow> own_session s T tests owner (snd (updateOnsite r))"
  by (rule own_session_cong) simp_all

lemma own_onsite_guard:
  assumes "onsite_guard b s now program r = Inr (v, r')" and "own_session s T tests owner r"
  shows "own_session s T tests owner r'"
proof (cases "not_logged_in r")
  case False
  then obtain on r1 where r1: "user_isOnsite s now (Some program) r = Inr (on, r1)"
    using assms(1) by (auto simp: onsite_guard_def rbind_Inr_iff)
  have "own_session s T tests owner r1" using user_isOnsite_keeps [OF r1] assms(2) own_session_cong by blast
  then show ?thesis using assms(1) False r1 own_updateOnsite [of s T tests owner r1] own_switch_back
    by (fastforce simp: onsite_guard_def rbind_Inr_iff Let_def split: if_splits option.splits)
qed (use assms in \<open>simp add: onsite_guard_def\<close>)

lemma perm_keeps:
  "perm s now name program r = Inr (b, r') \<Longrightarrow> rq_user r' = rq_user r \<and> rq_morph r' = rq_morph r \<and> rq_testing r' = rq_testing r"
  by (auto simp: perm_def rbind_Inr_iff split: option.splits)

lemma checkDeadline_helper_keeps:
  assumes "checkDeadline_helper s now program require_auth area ext r = Inr (x, r')"
  shows "rq_user r' = rq_user r \<and> rq_morph r' = rq_morph r \<and> rq_testing r' = rq_testing r"
proof -
  obtain canView r1 where r1: "updateOnsite r = (canView, r1)" by fastforce
  then have "rq_user r1 = rq_user r \<and> rq_morph r1 = rq_morph r \<and> rq_testing r1 = rq_testing r"
    using updateOnsite_keeps(1-3) [of r] by simp
  then show ?thesis using assms r1
    by (auto simp: checkDeadline_helper_def Let_def rbind_Inr_iff dest!: perm_keeps split: option.splits if_splits)
qed

lemma own_any_deadline:
  "any_deadline s now program require_auth area extensions exts response r = Inr (v, r') \<Longrightarrow> own_session s T tests owner r \<Longrightarrow>
    own_session s T tests owner r'"
proof (induction exts arbitrary: response r)
  case (Cons e exts)
  obtain canView resp r1 where r1: "checkDeadline_helper s now program require_auth area e r = Inr ((canView, resp), r1)"
    using Cons.prems(1) by (auto simp: rbind_Inr_iff)
  have "own_session s T tests owner r1" using checkDeadline_helper_keeps [OF r1] Cons.prems(2) own_session_cong by blast
  then show ?case using Cons r1 by (auto split: if_splits)
qed (auto simp: rbind_Inr_iff split: option.splits bool.splits)

lemma own_morph_into_user:
  assumes "morph_into_user s now user_id onsite_id view_url name r = Inr (v, r')" and "own_session s T tests owner r"
    and "distinct (map su_id (st_users s))" and "now \<in> T"
  shows "own_session s T tests owner r'"
proof -
  from assms(1) consider "r' = r"
    | self user retUrl retTitle b where "rq_user r = Some self" "user \<in> set (st_users s)"
        "switch_to_user s now self r user retUrl retTitle b = Inr r'"
    by (force simp: morph_into_user_def admin_required_def rbind_Inr_iff Let_def bind_eq_Some_conv dest: get_user_in
      split: if_splits option.splits)
  then show ?thesis
  proof cases
    case 2
    then show ?thesis using assms(2) own_user_id [OF assms(3)] own_switch_to_user assms(4) by (auto simp: own_session_def)
  qed (use assms(2) in simp)
qed

lemma own_schedule_students:
  assumes "schedule_students s now program url core_url chosen r = Inr (v, r')" and "own_session s T tests owner r"
    and "distinct (map su_id (st_users s))" and "now \<in> T"
  shows "own_session s T tests owner r'"
proof -
  obtain w r1 where r1: "onsite_guard True s now program r = Inr (w, r1)"
    using assms(1) by (auto simp: schedule_students_def needs_onsite_def rbind_Inr_iff)
  have own: "own_session s T tests owner r1" by (rule own_onsite_guard [OF r1 assms(2)])
  from assms(1) r1 consider "r' = r1"
    | self user where "rq_user r1 = Some self" "user \<in> set (st_users s)"
        "switch_to_user s now self r1 user core_url ''OnSite Registration!'' True = Inr r'"
    by (auto simp: schedule_students_def needs_onsite_def rbind_Inr_iff dest!: find_in split: if_splits option.splits)
  then show ?thesis
  proof cases
    case 2
    then show ?thesis using own own_user_id [OF assms(3)] own_switch_to_user assms(4) by (auto simp: own_session_def)
  qed (use own in simp)
qed

lemma own_start_testing:
  assumes "start_testing s now program url extra account r = Inr (v, r')" and "own_session s T tests owner r"
    and "range account \<subseteq> tests \<inter> set (st_users s)"
    and "distinct (map su_id (st_users s))"
  shows "own_session s T tests owner r'"
proof -
  from assms(1) consider "r' = r"
    | admin role where "rq_user r = Some admin"
        "r' = (login (account role) (logout r))\<lparr>rq_testing := Some \<lparr>tm_admin_user_id = su_id admin, tm_program_url = url, tm_role = role\<rparr>\<rparr>"
    by (auto simp: start_testing_def needs_admin_def rbind_Inr_iff split: if_splits option.splits)
  then show ?thesis
  proof cases
    case 2
    moreover have "account role \<in> tests \<inter> set (st_users s)" using assms(3) by blast
    ultimately show ?thesis using assms(2) own_user_id [OF assms(4)] by (auto simp: own_session_def own_user_def)
  qed (use assms(2) in simp)
qed

lemma own_stop_testing:
  "own_session s T tests owner r \<Longrightarrow> own_session s T tests owner (snd (myesp_stop_testing s now r))"
  by (auto simp: myesp_stop_testing_def Let_def own_session_logout own_session_def own_id_def split: option.split)

lemma own_session_step:
  assumes "session_step s T tests r r'" and "own_session s T tests owner r" and "distinct (map su_id (st_users s))"
  shows "own_session s T tests owner r'"
  using assms(1)
proof cases
  case again
  have "own_user s T tests owner u" if u: "rq_user (next_request s r) = Some u" for u
  proof -
    obtain w where w: "rq_user r = Some w" "get_user s (su_id w) = Some u"
      using u by (auto simp: next_request_def new_user_object_def bind_eq_Some_conv)
    then have "own_user s T tests owner w" using assms(2) by (simp add: own_session_def)
    then have "u = w" using get_user_unique [OF assms(3), of w] w by (simp add: own_user_def)
    then show ?thesis using \<open>own_user s T tests owner w\<close> by simp
  qed
  then show ?thesis using assms(2) again by (simp add: own_session_def next_request_def new_user_object_def)
next
  case leave
  then show ?thesis by (simp add: own_session_logout)
next
  case back_again
  then show ?thesis using assms(2) own_updateOnsite own_switch_back
    by (fastforce simp: myesp_switchback_def Let_def rbind_Inr_iff split: if_splits)
qed (use assms own_morph_into_user own_schedule_students own_onsite_guard own_any_deadline own_start_testing
  own_stop_testing in metis)+

lemma own_session_steps:
  assumes "session_steps s T tests r r'" and "own_session s T tests owner r" and "distinct (map su_id (st_users s))"
  shows "own_session s T tests owner r'"
  using assms by induction (auto intro: own_session_step)

text \<open>A session in which somebody has just logged in.\<close>

definition fresh_session :: "site \<Rightarrow> site_user \<Rightarrow> request \<Rightarrow> bool" where
  "fresh_session s owner r \<longleftrightarrow>
     owner \<in> set (st_users s) \<and> rq_user r = Some owner \<and> rq_morph r = None \<and> rq_testing r = None"

lemma fresh_session_own: "fresh_session s owner r \<Longrightarrow> own_session s T tests owner r"
  by (simp add: fresh_session_def own_session_def own_user_def)

subsection \<open>The ways back\<close>

lemma switch_and_back:
  assumes "switch_to_user s now self r user retUrl retTitle b = Inr r'" and "distinct (map su_id (st_users s))"
    and "self \<in> set (st_users s)" and "user \<in> set (st_users s)"
  shows "\<exists>r''. myesp_switchback s (next_request s r') = Inr (Redirect retUrl, r'') \<and> rq_user r'' = Some self \<and>
    \<not> is_morphed r''"
proof -
  have r': "rq_user r' = Some user" "\<exists>m. rq_morph r' = Some m \<and> sm_olduser_id m = su_id self \<and> sm_retUrl m = retUrl"
    using assms(1) by (auto simp: switch_to_user_def split: if_splits)
  have "rq_user (next_request s r') = Some user" "rq_morph (next_request s r') = rq_morph r'"
    using r' get_user_unique [OF assms(2,4)] by (simp_all add: next_request_def new_user_object_def)
  then show ?thesis using r' get_user_unique [OF assms(2,3)]
    by (auto simp: myesp_switchback_def switch_back_def get_old_def Let_def is_morphed_def)
qed

lemma start_and_stop_testing:
  assumes "start_testing s now program url extra account r = Inr (Redirect ''/'', r')" and "rq_user r = Some admin"
    and "admin \<in> set (st_users s)" and "distinct (map su_id (st_users s))"
  shows "rq_user (snd (myesp_stop_testing s now' (next_request s r'))) =
    (if isAdministrator s now' admin None then Some admin else None)"
proof -
  obtain role where "r' = (login (account role) (logout r))
      \<lparr>rq_testing := Some \<lparr>tm_admin_user_id = su_id admin, tm_program_url = url, tm_role = role\<rparr>\<rparr>"
    using assms(1,2) by (auto simp: start_testing_def needs_admin_def rbind_Inr_iff split: if_splits option.splits)
  then show ?thesis using get_user_unique [OF assms(4,3)]
    by (simp add: myesp_stop_testing_def next_request_def new_user_object_def Let_def)
qed

end
