(* ===== verification/Access_Properties.thy ===== *)
theory Access_Properties
  imports Sessions
begin

section \<open>Properties of permissions, sessions and grades\<close>

text \<open>
  The properties of this part, each with a witness on a small site: an administrator, somebody who works onsite in
  program 7, a student and a teacher; a permission for all students of the program, one for the onsite interfaces,
  and one for those that a filter selects, beside a filter that cannot be read.
\<close>

subsection \<open>A small site\<close>

definition march :: "int \<Rightarrow> int \<Rightarrow> datetime" where
  "march d h = Datetime 2026 3 d h 0 0 0"

definition site_account :: "int \<Rightarrow> string list \<Rightarrow> site_user" where
  "site_account i groups = \<lparr>su_id = i, su_groups = groups, su_active = True, su_staff = False, su_superuser = False\<rparr>"

definition the_admin :: site_user where "the_admin = site_account 1 [''Administrator'']"
definition the_helper :: site_user where "the_helper = site_account 2 []"
definition the_student :: site_user where "the_student = site_account 3 [''Student'']"
definition the_teacher :: site_user where "the_teacher = site_account 4 [''Teacher'']"

definition user_model :: string where
  "user_model = ''<class '' @ CHR 0x27 # ''esp.users.models.ESPUser'' @ [CHR 0x27] @ ''>''"

definition small_site :: site where
  "small_site =
    \<lparr>st_users = [the_admin, the_helper, the_student, the_teacher],
     st_types = [''Student'', ''Teacher''], st_groups = [''Student'', ''Teacher'', ''Administrator''],
     st_filters = [\<lparr>qf_id = 20, qf_model = user_model, qf_query = None\<rparr>,
       \<lparr>qf_id = 21, qf_model = user_model, qf_query = Some (Some (\<lambda>u. su_id u = 4))\<rparr>],
     st_permissions =
       [\<lparr>pm_user = None, pm_role = Some ''Student'', pm_filter = None, pm_type = ''Student/Classes'',
         pm_program = Some 7, pm_start = Some (march 1 0), pm_end = Some (march 10 0)\<rparr>,
        \<lparr>pm_user = Some 2, pm_role = None, pm_filter = None, pm_type = ''Onsite'',
         pm_program = Some 7, pm_start = None, pm_end = None\<rparr>,
        \<lparr>pm_user = None, pm_role = None, pm_filter = Some 20, pm_type = ''Teacher/Survey'',
         pm_program = Some 7, pm_start = None, pm_end = None\<rparr>,
        \<lparr>pm_user = None, pm_role = None, pm_filter = Some 21, pm_type = ''Teacher/Survey'',
         pm_program = Some 7, pm_start = None, pm_end = Some (march 20 0)\<rparr>],
     st_programs = [(7, ''Splash/2026'')], st_classes = []\<rparr>"

definition request_of :: "site_user \<Rightarrow> request" where
  "request_of u = \<lparr>rq_user = Some u, rq_onsite_local = False, rq_other_user = False, rq_cache = [], rq_morph = None,
    rq_testing = None, rq_perm_names = None, rq_roles_with_perm = None\<rparr>"

lemma small_site_ok: "filters_exist small_site" "distinct (map su_id (st_users small_site))"
  by (simp_all add: filters_exist_def small_site_def the_admin_def the_helper_def the_student_def the_teacher_def site_account_def)


subsection \<open>Permissions and deadlines\<close>

text \<open>C11: \<open>user_has_perm\<close> always answers, and says yes exactly if the user is an administrator or some permission
  of the kind asked for, or of one that includes it, is valid at the time, concerns the program and applies to the
  user: by name, by role, or by a filter that selects the user. What it remembers about filters stays right.\<close>

theorem permission_decided:
  assumes "coherent s cache" and "filters_exist s"
  shows "\<exists>cache'. user_has_perm s now u name program when none_implies_all cache =
      Inr (isAdministrator s now u program \<or>
        (\<exists>p\<in>set (st_permissions s). (held_by u p \<or> selected s (su_id u) p) \<and>
          concerns name program none_implies_all p \<and>
          is_valid (pm_start p) (pm_end p) (case when of None \<Rightarrow> now | Some t \<Rightarrow> t)), cache') \<and>
    coherent s cache'"
  using user_has_perm_decides [OF assms, of now u name program "when" none_implies_all]
  by (simp add: granted_def applies_to_def list_ex_iff)

theorem permission_decided_witness:
  "(\<exists>cache. user_has_perm small_site (march 5 0) the_teacher ''Teacher/Survey'' (Some 7) None False [] = Inr (True, cache) \<and>
     coherent small_site cache) \<and>
   (case user_has_perm small_site (march 25 0) the_teacher ''Teacher/Survey'' (Some 7) None False [] of
      Inl _ \<Rightarrow> False | Inr (b, cache) \<Rightarrow> \<not> b \<and> cache = [((4, 20), False)])"
proof -
  have "case user_has_perm small_site (march 5 0) the_teacher ''Teacher/Survey'' (Some 7) None False [] of
      Inl _ \<Rightarrow> False | Inr (b, _) \<Rightarrow> b" by code_simp
  moreover have "case user_has_perm small_site (march 25 0) the_teacher ''Teacher/Survey'' (Some 7) None False [] of
      Inl _ \<Rightarrow> False | Inr (b, cache) \<Rightarrow> \<not> b \<and> cache = [((4, 20), False)]" by code_simp
  ultimately show ?thesis
    using permission_decided [OF coherent_empty small_site_ok(1), of "march 5 0" the_teacher "''Teacher/Survey''"
      "Some 7" None False] by auto
qed

text \<open>C19: The deadline of a user is the last end of the permissions that apply to the user and concern the program,
  valid or not; there is none if there are no such permissions, or one of them does not end.\<close>

theorem deadline_decided:
  assumes "filters_exist s"
  shows "user_deadline_when s u name program none_implies_all =
    (let P = {p \<in> set (st_permissions s). applies_to s u p \<and> concerns name program none_implies_all p} in
     Inr (if P = {} \<or> (\<exists>p\<in>P. pm_end p = None) then None else Some (Max ((the \<circ> pm_end) ` P))))"
  using deadline_is_last [OF assms] by (simp add: last_end_def Let_def)

theorem deadline_decided_witness:
  "(let P = {p \<in> set (st_permissions small_site). applies_to small_site the_teacher p \<and>
      concerns ''Teacher/Survey'' (Some 7) False p} in
    (if P = {} \<or> (\<exists>p\<in>P. pm_end p = None) then None else Some (Max ((the \<circ> pm_end) ` P))) = Some (march 20 0))"
proof -
  have "user_deadline_when small_site the_teacher ''Teacher/Survey'' (Some 7) False = Inr (Some (march 20 0))"
    by code_simp
  then show ?thesis
    using deadline_decided [OF small_site_ok(1), of the_teacher "''Teacher/Survey''" "Some 7" False] by (simp add: Let_def)
qed

text \<open>C18: In the areas for students, teachers and volunteers, for a request of somebody who is logged in and not in an
  onsite registration (which always passes), and for at least one extension, the guard of deadlines lets the request pass
  exactly if for one of the extensions the user has the permission, or a valid permission of that kind for the program
  names no user, whatever its role or filter: one that a filter restricts opens the deadline for everybody. It never raises.\<close>

theorem deadline_guarded:
  assumes "filters_exist s" and "coherent s (rq_cache r)" and "rq_user r = Some u" and "map_of perm_prefix area = Some p"
    and "\<forall>m. rq_morph r = Some m \<longrightarrow> \<not> sm_onsite m" and "extensions \<noteq> []"
    and "meets_any_deadline extensions = Inr guard"
  shows "\<exists>v r'. guard s now program require_auth area r = Inr (v, r') \<and>
    (v = View \<longleftrightarrow> (\<exists>e\<in>set extensions. granted s now u (p @ e) (Some program) now False \<or>
      (\<exists>q\<in>set (st_permissions s). pm_type q = p @ e \<and> pm_program q = Some program \<and> pm_user q = None \<and>
        is_valid (pm_start q) (pm_end q) now)))"
proof -
  from assms(5) have "\<And>m. rq_morph r = Some m \<Longrightarrow> \<not> sm_onsite m" by blast
  from meets_any_deadline_view [OF assms(1-4) this assms(6,7)] show ?thesis
    by (simp add: deadline_open_def null_user_has_perm_def list_ex_iff conj_ac)
qed

theorem deadline_guarded_witness:
  "\<exists>guard v r'. meets_any_deadline [''/Classes'', ''/Survey''] = Inr guard \<and>
     guard small_site (march 5 0) 7 True ''learn'' (request_of the_teacher) = Inr (v, r') \<and> v = View"
proof -
  have "list_all valid_extension [''/Classes'', ''/Survey'']" by code_simp
  then obtain guard where guard: "meets_any_deadline [''/Classes'', ''/Survey''] = Inr guard"
    by (auto simp: meets_any_deadline_def)
  have "map_of perm_prefix ''learn'' = Some ''Student''" by (simp add: perm_prefix_def)
  moreover have "list_ex (\<lambda>q. pm_type q = ''Student'' @ ''/Classes'' \<and> pm_program q = Some 7 \<and> pm_user q = None \<and>
      is_valid (pm_start q) (pm_end q) (march 5 0)) (st_permissions small_site)" by code_simp
  ultimately show ?thesis
    using deadline_guarded [OF small_site_ok(1), of "request_of the_teacher" the_teacher "''learn''" "''Student''"
      "[''/Classes'', ''/Survey'']" guard "march 5 0" 7 True] guard
    by (auto simp: request_of_def list_ex_iff)
qed

subsection \<open>Sessions\<close>



text \<open>C24: The guard for onsite views never raises as long as the account that a session can go back to exists. It lets
  a request pass exactly if its user, or whoever acts as its user, may work onsite in the program, and the view is
  then called as the session of that person.\<close>

theorem onsite_guarded:
  assumes "filters_exist s" and "coherent s (rq_cache r)" and "\<not> rq_onsite_local r"
    and "\<forall>m. rq_morph r = Some m \<longrightarrow> get_user s (sm_olduser_id m) \<noteq> None"
  shows "\<exists>v r'. needs_onsite s now program r = Inr (v, r') \<and> (v = View \<longleftrightarrow> onsite_person s now program r \<noteq> None) \<and>
    (v = View \<longrightarrow> rq_user r' = onsite_person s now program r)"
proof -
  from assms(4) have "\<And>m. rq_morph r = Some m \<Longrightarrow> get_user s (sm_olduser_id m) \<noteq> None" by blast
  from needs_onsite_view [OF assms(1-3) this] show ?thesis .
qed

theorem onsite_guarded_witness:
  "\<exists>r'. needs_onsite small_site (march 5 0) 7
      ((request_of the_student)\<lparr>rq_morph := Some \<lparr>sm_olduser_id = 2, sm_retUrl = ''/onsite'', sm_retTitle = [], sm_onsite = True\<rparr>\<rparr>) =
      Inr (View, r') \<and> rq_user r' = Some the_helper"
proof -
  let ?r = "(request_of the_student)\<lparr>rq_morph := Some \<lparr>sm_olduser_id = 2, sm_retUrl = ''/onsite'', sm_retTitle = [], sm_onsite = True\<rparr>\<rparr>"
  have old: "get_user small_site 2 = Some the_helper" by code_simp
  have no: "\<not> granted small_site (march 5 0) the_student ''Onsite'' (Some 7) (march 5 0) True" by code_simp
  have yes: "granted small_site (march 5 0) the_helper ''Onsite'' (Some 7) (march 5 0) True" by code_simp
  have "onsite_person small_site (march 5 0) 7 ?r = Some the_helper"
    using old no yes by (simp add: onsite_person_def request_of_def)
  then show ?thesis
    using onsite_guarded [OF small_site_ok(1), of ?r "march 5 0" 7] old by (auto simp: request_of_def)
qed

subsection \<open>Dates of modules, and grades\<close>

text \<open>C27: The dates of a program module that are written to the permissions of its role are read back for a new
  module object of the same kind, and all other permissions stay as they are.\<close>

theorem module_dates_kept:
  assumes "map_of role_by_module_type (mo_type m) = Some r" and "r \<in> set (st_groups s)"
    and "mo_permission_types m \<noteq> []" and "list_all (prefix r) (mo_permission_types m)"
  shows "df_dates (initial_defaults (sync_permissions m s) objects (mo_program m) m None) = Some (mo_start m, mo_end m) \<and>
    filter (\<lambda>p. \<not> module_permission m p) (st_permissions (sync_permissions m s)) =
      filter (\<lambda>p. \<not> module_permission m p) (st_permissions s)"
proof -
  have "r \<in> {''Student'', ''Teacher'', ''Volunteer''}" using map_of_SomeD [OF assms(1)] by (auto simp: role_by_module_type_def)
  from dates_read_back [OF assms this] show ?thesis by (simp add: sync_permissions_others)
qed

definition small_module :: module_object where
  "small_module = \<lparr>mo_program = 7, mo_handler = 1, mo_type = ''learn'', mo_permission_types = [''Student/Classes'', ''Student/Confirm''],
    mo_seq = 10, mo_required = True, mo_required_label = [], mo_start = Some (march 3 0), mo_end = None\<rparr>"

theorem module_dates_kept_witness:
  "df_dates (initial_defaults (sync_permissions small_module small_site) [] 7 small_module None) = Some (Some (march 3 0), None) \<and>
   map pm_type (st_permissions (sync_permissions small_module small_site)) =
     [''Student/Classes'', ''Onsite'', ''Teacher/Survey'', ''Teacher/Survey'', ''Student/Confirm'']"
proof -
  have "map pm_type (st_permissions (sync_permissions small_module small_site)) =
     [''Student/Classes'', ''Onsite'', ''Teacher/Survey'', ''Teacher/Survey'', ''Student/Confirm'']" by code_simp
  moreover have "df_dates (initial_defaults (sync_permissions small_module small_site) [] (mo_program small_module) small_module None) =
      Some (mo_start small_module, mo_end small_module)"
    using module_dates_kept [of small_module "''Student''" small_site "[]"]
    by (simp add: small_module_def small_site_def role_by_module_type_def)
  ultimately show ?thesis by (simp add: small_module_def)
qed

text \<open>C23: The grade that is set for a student is the grade the student has in that school year, whether or not there
  was a profile, or information about the student, before.\<close>

theorem grade_read_back:
  assumes "is_user_type s ''Student'' u" and "profiles_ok t" and "YOGFromGrade g schoolyear \<noteq> 0"
    and "\<forall>q\<in>set (pt_profiles t). rp_user q = su_id u \<longrightarrow> rp_last_ts q < now" and "year None = schoolyear"
  shows "getGrade s now' year (set_grade s now schoolyear u g t) u None a = g"
  using set_year_read [OF assms(1-4), of False "[]" schoolyear] assms(5) by (simp add: getGrade_def set_grade_def)

definition small_profiles :: profiles where
  "small_profiles =
    \<lparr>pt_profiles = [\<lparr>rp_id = Some 1, rp_user = 3, rp_program = Some 7, rp_student_info = None, rp_teacher_info = None,
       rp_last_ts = march 1 0, rp_most_recent = True\<rparr>],
     pt_infos = [], pt_next = 2\<rparr>"

theorem grade_read_back_witness:
  "getGrade small_site (march 5 0) (\<lambda>_. 2026) small_profiles the_student None False = 0 \<and>
   getGrade small_site (march 6 0) (\<lambda>_. 2026) (set_grade small_site (march 5 0) 2026 the_student 11 small_profiles)
     the_student None False = 11"
proof -
  have "getGrade small_site (march 5 0) (\<lambda>_. 2026) small_profiles the_student None False = 0" by code_simp
  moreover have "march 1 0 < march 5 0" by code_simp
  ultimately show ?thesis
    using grade_read_back [of small_site the_student small_profiles 11 2026 "march 5 0" "\<lambda>_. 2026" "march 6 0" False]
    by (simp add: is_user_type_def small_site_def the_student_def site_account_def profiles_ok_def small_profiles_def
      YOGFromGrade_def)
qed

end
