(* ===== verification/Spec2Isabelle.thy ===== *)
theory Spec2Isabelle
  imports Totality Controller_Saving Loading_Examples Error_Paths Site_Properties Accounting_Properties Access_Properties
begin

text \<open>
  A verification of the parts of the ESP website (src/esp/esp) that decide who is where, the autoscheduler,
  which places the sections of a program in rooms and timeslots; registration, which places students in
  sections; the class lottery, which does so for a whole program at once; and the lunch constraints,
  logical expressions over a student's schedule that registration has to respect; who owes what: the
  accounting of programs, with payments, refunds and financial aid; and who may do what: permissions, deadlines,
  sessions and the guards of views. They meet in the
  database: the autoscheduler loads it and saves to it, registration and the lottery add and end
  registrations in it, the accounting has tables of its own for the same programs and users, and the guards
  decide which requests reach the views that do all this.

  \<^bold>\<open>Conventions.\<close> A model instance is a record, and where code shares and mutates objects (the
  autoscheduler) an object is a reference into an explicit store (\<open>heap\<close>). An exception is the value
  \<open>Inl e\<close> of a result; a transaction is all or nothing, so that its failure leaves no state. A query is a filter over the rows of
  a record of tables. Dictionaries are association lists, in the order of insertion. Python's floats are
  exact rationals, in the accounting rounded ones. The clock is an argument. Caches are taken to return what a recomputation would.

  \<^bold>\<open>The autoscheduler\<close> (program/controllers/autoscheduler).
  \<^item> Prelude, Datetime (util.py), Data\_Model (data\_model.py): results, dictionaries, time, the store with
    timeslots, roomslots, sections, teachers and rooms; Placement: what changing a placement keeps.
  \<^item> Consistency (consistency\_checks.py): the twelve checks and the invariant \<open>consistent\<close> they decide.
  \<^item> Constraints, Resource\_Checker, Schedule: the constraints, resource criteria with the grammar of their
    specifications, the constructor of a schedule and \<open>legal\<close>, what the required constraints mean.
  \<^item> Scorer\_Contract and Scorers\_Sums, Scorers\_Counts, Scorers\_Distribution, Scorers\_Adjacent, Composite\_Scorer
    (scoring.py): the locale \<open>incremental_scorer\<close> says that an update equals a rescoring; each scorer
    interprets it. Totality: when scoring cannot raise.
  \<^item> Steps, Moves, Manipulator (manipulator.py): manipulations as a transition system on settled schedules;
    the operations refine it; undo, history and its JSON form. A manipulator is \<open>managed\<close> when its schedule is settled,
    whatever the scorers are; it is \<open>tracked\<close> when besides the scorer is the one computed from scratch and its choice of
    scorers leaves out \<open>TeachersWhoLikeRunningScorer\<close>, whose updates drift (\<open>running_scorer_drifts\<close>). The default weights of
    config.py include that scorer: what is said of \<open>managed\<close> manipulators holds for them, what needs \<open>tracked\<close> ones
    (exact scores, undo, replaying, export) holds with its weight set to 0, and up to rounding, as floats are exact here.
    \<open>accepted_run\<close> and \<open>reachable\<close> are the runs of operations that returned True, all constraints checked, with exact
    scorers and with any.
  \<^item> Search (search.py): the recursive search. Its depth bounds the recursion, and each loop runs over a finite list, so no
    fuel is needed. Its invariant is the locale \<open>search_invariant\<close>, interpreted for tracked and for managed manipulators.
  \<^item> Program\_Settings (config.py, tags), Loading (loading in db\_interface.py), History\_Summary and Controller
    (controller.py): from rows and options to a run of the search and its export and import.
  \<^item> Saving, Controller\_Saving (save in db\_interface.py, methods of class\_.py and resources/models.py,
    handlers/autoschedulerfrontendmodule.py): the database has what the schedule has, or an exception.
  \<^item> Examples, Loading\_Examples, Saving\_Examples: the inputs of the witnesses; Error\_Paths: what always fails.

  \<^bold>\<open>Registration\<close> (program/models, users/models, handlers/studentclassregmodule.py).
  \<^item> Boolean\_Expressions, Schedule\_Constraints (models/\_\_init\_\_.py): expressions in reverse Polish notation, the
    map from timeslots to sections, and constraints over it; Lunch\_Constraints: the generator of such
    constraints and of lunch classes (controllers/lunch\_constraints.py).
  \<^item> Section\_Capacity (class\_.py): capacity and fullness. Registrations (class\_.py, expirable\_model.py): registrations
    with their intervals of validity, adding and ending them. Class\_Registration: \<open>cannotAdd\<close>, \<open>cannotRemove\<close>, program
    caps and the handlers; the transition system \<open>registration_step\<close> and its invariant \<open>good_db\<close>.
    Freed\_Places: a place that is given up can be taken. Registration\_Examples: a small program.

  \<^bold>\<open>The lottery\<close> (controllers/lottery.py).
  \<^item> Lottery: the assignment of students to sections and lunches over matrices; numpy's random functions
    are a parameter with the laws \<open>random_laws\<close>. Lottery\_Correct: its invariant, and that it succeeds.
    Lottery\_Setup: the matrices from rows. Lottery\_Saving: statistics, and the registrations it writes.
    Lottery\_Examples: a small lottery.

  \<^bold>\<open>The accounting\<close> (accounting/models.py, accounting/controllers.py, accounting/refund\_views.py,
  handlers/creditcardmodule\_stripe.py).
  \<^item> Money: amounts as cents, and their way through Python's floats, which are rounded here as doubles are.
    Accounting: the tables (\<open>books\<close>), default accounts and line items, set-up, queries, summaries.
  \<^item> Payments: the controller of a user, with the discount for siblings and financial aid of program/models;
    Reconciliation: the identifiers of what is paid for, and the payments recorded from them.
  \<^item> Ledger: the transition system \<open>ledger_step\<close> that says which changes of transfers are allowed, with the invariant
    \<open>sound\<close>; the locale \<open>kept_by_steps\<close> is interpreted for what steps keep. Ledger\_Operations, Ledger\_Refinement: every
    operation of a user is a sequence of steps. Ledger\_Runs: set-up, changes of costs and clearing keep the books sound too,
    and so do runs of all these operations (\<open>perform_requests\<close>).
  \<^item> Amounts: on settled books the amounts are plain functions, and every \<open>amount_due\<close> settles. Payment\_Records:
    what recording does, replays, round trip of identifiers. Card\_Payments: linking through floats. Preferences:
    optional items, and what a list of preferences leaves of itself (\<open>asked\<close>). Stripe: cards and refunds, with the answers of Stripe as arguments.
  \<^item> Accounting\_Examples: sample books, set up by the operations. Accounting\_Properties: the properties.

  \<^bold>\<open>Permissions and sessions\<close> (users/models/\_\_init\_\_.py, program/models/\_\_init\_\_.py, program/modules/base.py,
  users/views, web/views/myesp.py, handlers/onsiteclassschedule.py, handlers/admintestingmodule.py).
  \<^item> Permissions: the kinds of permissions and what they include, who holds one, by name, role or filter, and the
    cache of memberships (\<open>coherent\<close>). Deadlines: when a permission ends, who may edit a page, and the dates of
    program modules as permissions.
  \<^item> Profiles: school years, grades and the profiles of users, where grades are kept.
  \<^item> Access\_Control: requests, acting as another user, and the decorators of views as functions to a \<open>verdict\<close>.
    Sessions: what a guard lets pass, and the transition system \<open>session_step\<close> with its invariant \<open>own_session\<close>; the accounts
    that programs designate for testing are a parameter of it (\<open>tests\<close>), as nothing checks their rights.
  \<^item> Access\_Properties: the properties, with a small site.

  Site\_Properties holds the properties of saving, registration and the lottery, this theory those of the autoscheduler.

  \<^bold>\<open>Parameters.\<close> The predicate that a saved filter is (\<open>qf_query\<close>); matching a user's regular expression (\<open>re_match\<close>); numpy.random (\<open>random_source\<close>);
  clocks; the loading function of a controller (\<open>pd_load\<close>); Stripe's answers (\<open>charge\<close>, \<open>refunds\<close>); Django's \<open>slugify\<close>;
  the order of texts in the database (\<open>bk_collation\<close>). The membership of Mailman's lists changes as its
  documentation of add\_members and remove\_members says.

  \<^bold>\<open>Not modelled.\<close> Pages, forms, templates, JSON responses and the texts of messages; accounts and contact
  data; the class change lottery; teacher registration; surveys, themes, mail, custom forms; of the lottery the filling of low priorities
  (off by default), the overall utility and CSV files; of the accounting the lists of times for charts, the
  joins with registrations (\<open>all_students\<close>), the options shown in forms and CyberSource; of the autoscheduler the HTML descriptions of sections
  and the creation of the change log.
\<close>

section \<open>The schedule manipulator\<close>

text \<open>C1: A manipulation that the manipulator accepts (without force) is a step of the transition relation and
  is recorded in the history, and afterwards the schedule is again settled (consistent, legal, linked), whatever
  the scorers are. Where the scorer is the one computed from scratch it is so again, for every choice of scorers
  but \<open>TeachersWhoLikeRunningScorer\<close> (which the default weights include, and which drifts) and in exact arithmetic.\<close>

theorem accepted_manipulation:
  assumes "managed m" and "in_range (mp_heap m) (mp_schedule m) mm"
    and "operation re_match m mm False = Inr (True, m')"
  shows "manip_step (mp_schedule m) (mp_heap m) mm (mp_heap m') \<and> managed m' \<and>
    mp_history m' = mp_history m @ [entry (mp_heap m) mm] \<and>
    (tracked re_match nws criteria m \<longrightarrow> tracked re_match nws criteria m')"
proof -
  note perf = operation_performed [OF assms]
  from performed_step [OF perf] moved_managed [OF assms(1) performed_moved [OF perf]] performed_sel(3) [OF perf]
    performed_tracked [OF _ perf] show ?thesis by blast
qed

theorem accepted_manipulation_witness:
  "\<exists>m'. operation ex_re ex_manipulator (Schedule 12 4) False = Inr (True, m') \<and>
     manip_step ex_sch ex_heap (Schedule 12 4) (mp_heap m')"
proof -
  obtain m' where m': "operation ex_re ex_manipulator (Schedule 12 4) False = Inr (True, m')" by (rule ex_accepted)
  from accepted_manipulation [OF tracked_managed [OF ex_tracked] ex_schedule_ok(3) m'] m' show ?thesis by auto
qed

text \<open>C7: \<open>undo\<close> after an accepted manipulation succeeds and restores the whole state of the
  manipulator: store, scorer and history are exactly what they were, for every choice of scorers but
  \<open>TeachersWhoLikeRunningScorer\<close> (which the default weights include), and in exact arithmetic.\<close>

theorem undo_restores:
  assumes "tracked re_match nws criteria m" and "in_range (mp_heap m) (mp_schedule m) mm"
    and "operation re_match m mm False = Inr (True, m')"
  shows "undo re_match m' = Inr (True, m)"
  by (rule undo_performed [OF assms(1) operation_performed [OF tracked_managed [OF assms(1)] assms(2,3)]])

theorem undo_restores_witness:
  "\<exists>m'. operation ex_re ex_manipulator (Schedule 12 4) False = Inr (True, m') \<and>
     undo ex_re m' = Inr (True, ex_manipulator)"
proof -
  obtain m' where m': "operation ex_re ex_manipulator (Schedule 12 4) False = Inr (True, m')" by (rule ex_accepted)
  from undo_restores [OF ex_tracked ex_schedule_ok(3) m'] m' show ?thesis by blast
qed

text \<open>C22: What an operation does, whatever the scorers are. It returns False and changes nothing when its guard
  fails or a constraint reports a violation. It raises what a constraint raises; else what updating the scorer
  raises, or what swapping a section with itself raises, which passes guard and checks. Otherwise it is carried out,
  with the scorer updated, and returns True. With scorers that are tracked (exact, without
  \<open>TeachersWhoLikeRunningScorer\<close>) only a constraint or a swap of a section with itself raises.\<close>

theorem operation_outcome:
  assumes "managed m" and "in_range (mp_heap m) (mp_schedule m) mm"
  shows "case operation re_match m mm False of
      Inl e \<Rightarrow> guard (mp_heap m) mm \<and>
        (checked re_match m mm = Inl e \<or> checked re_match m mm = ok \<and>
          (composite_step re_match (mp_heap m) (mp_scorer m) mm = Inl e \<or>
           (\<exists>s. mm = Swap s s) \<and> effect (mp_heap m) mm = Inl e)) \<and>
        (tracked re_match nws criteria m \<longrightarrow> (\<forall>s. mm \<noteq> Swap s s) \<longrightarrow> checked re_match m mm = Inl e)
    | Inr (False, m') \<Rightarrow> m' = m \<and> (guard (mp_heap m) mm \<longrightarrow> (\<exists>v. checked re_match m mm = Inr (Some v)))
    | Inr (True, m') \<Rightarrow> guard (mp_heap m) mm \<and> checked re_match m mm = ok \<and> (\<forall>s. mm \<noteq> Swap s s) \<and>
        performed re_match m mm m'"
proof (cases "operation re_match m mm False")
  case (Inl e)
  then show ?thesis
    using operation_error [OF assms Inl] operation_total [OF _ assms(2) Inl] by simp
next
  case (Inr bm)
  obtain b m' where bm: "bm = (b, m')" by (cases bm)
  show ?thesis
  proof (cases b)
    case True
    with Inr bm have op: "operation re_match m mm False = Inr (True, m')" by simp
    from operation_accepted [OF op] operation_performed [OF assms op] accepted_no_self [OF op] show ?thesis
      by (simp add: op)
  next
    case False
    with Inr bm have r: "operation re_match m mm False = Inr (False, m')" by simp
    have "guard (mp_heap m) mm \<longrightarrow> (\<exists>v. checked re_match m mm = Inr (Some v))"
    proof
      assume g: "guard (mp_heap m) mm"
      then show "\<exists>v. checked re_match m mm = Inr (Some v)"
        using r forced_true [of re_match m mm] by (auto simp: operation_unfold split: sum.splits option.splits)
    qed
    with operation_refused [OF r] show ?thesis using False Inr bm by simp
  qed
qed

theorem operation_outcome_witness:
  "\<exists>m'. operation ex_re ex_manipulator (Schedule 12 4) False = Inr (True, m') \<and>
     performed ex_re ex_manipulator (Schedule 12 4) m'"
proof -
  obtain m' where m': "operation ex_re ex_manipulator (Schedule 12 4) False = Inr (True, m')" by (rule ex_accepted)
  from operation_outcome [OF tracked_managed [OF ex_tracked] ex_schedule_ok(3), of ex_re ex_weights "[]"] m' show ?thesis by simp
qed

text \<open>C14: Dumping the history of a run of accepted manipulations to JSON and loading it into the
  state the run started from replays every action and ends in the same state, for timeslots without microseconds,
  for every choice of scorers but \<open>TeachersWhoLikeRunningScorer\<close> (which the default weights include), and in exact arithmetic.\<close>

theorem history_roundtrip:
  assumes "accepted_run re_match m0 m" and "tracked re_match nws criteria m0" and "mp_history m0 = []"
    and "whole_times (mp_heap m0) (mp_schedule m0)"
  shows "\<exists>js. jsonify_history m = Inr js \<and> load_history re_match m0 js = Inr (True, m)"
  by (rule history_replay [OF assms])

theorem history_roundtrip_witness:
  "\<exists>m js. mp_history m = [schedule_action 12 4] \<and> jsonify_history m = Inr js \<and>
     load_history ex_re ex_manipulator js = Inr (True, m)"
proof -
  obtain m' where m': "operation ex_re ex_manipulator (Schedule 12 4) False = Inr (True, m')"
    "performed ex_re ex_manipulator (Schedule 12 4) m'" by (rule ex_accepted)
  from history_roundtrip [OF ex_run [OF m'(1)] ex_tracked _ ex_whole] performed_sel(3) [OF m'(2)]
  show ?thesis by auto
qed

section \<open>Scores\<close>

text \<open>C6: Along every sequence of manipulations the composite scorer, updated manipulation by
  manipulation, is the one built from scratch for the schedule reached, for every choice of scorers but
  \<open>TeachersWhoLikeRunningScorer\<close> (which the default weights include, and which drifts) and in exact arithmetic.\<close>

theorem composite_scorer_exact:
  assumes "exact_names nws" and "CompositeScorer_init re_match nws criteria h sch = Inr cs"
    and "manip_steps sch h ms h'"
  shows "\<exists>cs'. CompositeScorer_init re_match nws criteria h' sch = Inr cs' \<and>
    run_scorer (composite_step re_match) h cs ms = Inr (cs', h')"
  by (rule incremental_scorer.run_fresh [OF composite_incremental [OF assms(1)] assms(3,2)])

theorem composite_scorer_exact_witness:
  "\<exists>h' cs'. CompositeScorer_init ex_re ex_weights [] h' ex_sch = Inr cs' \<and>
     run_scorer (composite_step ex_re) ex_heap ex_scorer [Schedule 12 4] = Inr (cs', h')"
proof -
  obtain m' where m': "operation ex_re ex_manipulator (Schedule 12 4) False = Inr (True, m')"
    "performed ex_re ex_manipulator (Schedule 12 4) m'" by (rule ex_accepted)
  have "manip_steps ex_sch ex_heap [Schedule 12 4] (mp_heap m')"
    using steps_step [OF _ steps_refl] performed_step [OF m'(2)] by simp
  from composite_scorer_exact [OF ex_exact ex_scorer_init this] show ?thesis by blast
qed

text \<open>\<open>TeachersWhoLikeRunningScorer\<close> does not keep its promise: updated for the placement of a
  two-timeslot section it counts no change of rooms, computed from scratch it counts one.\<close>

theorem running_scorer_drifts:
  "\<exists>st st' fresh. rn_update_schedule (running_heap []) ex_sch = Inr st \<and>
     rn_update_schedule_section (running_heap []) st 13 8 = Inr st' \<and>
     rn_update_schedule (running_heap [8, 9]) ex_sch = Inr fresh \<and> rn_count st' = 0 \<and> rn_count fresh = 1"
  using running_updated running_afresh by blast

section \<open>Search\<close>

text \<open>C10: Whatever the search does (evictions, reverts, timeouts, at any depth) and whatever the scorers are,
  when it returns, the state it ends in is one that accepted operations lead to, each with its guard and every
  constraint, optional ones included, passed; the schedule is settled. With tracked scorers (exact, without
  \<open>TeachersWhoLikeRunningScorer\<close>) it is the end of a run of accepted operations with the scorer they leave,
  which is the one computed from scratch.\<close>

theorem search_reachable:
  assumes "managed m0" and "mp_history m0 = []" and "s \<in> sections_of (mp_schedule m0)"
    and "optimize_section re_match now timeout (SearchOptimizer_init m0) depth (m0, k) s = Inr (acts, m', k')"
  shows "reachable re_match m0 m' \<and> managed m' \<and>
    (tracked re_match nws criteria m0 \<longrightarrow> accepted_run re_match m0 m' \<and> tracked re_match nws criteria m')"
  using optimize_reachable [OF assms] optimize_accepted [OF _ assms(2-4)] by blast

text \<open>C17: The search returns a result for every depth, deadline and clock when the composite scorer uses only
  scorers that divide by positive counts (\<open>HungryTeacherScorer\<close>, those that count sections, subjects and teachers, those of
  resources and of rooms), there are sections and teachers, and no day has an empty list of lunch timeslots.\<close>

theorem search_returns:
  assumes "tracked re_match nws criteria m0" and "mp_history m0 = []" and "s \<in> sections_of (mp_schedule m0)"
    and "safe_names nws" and "section_list (mp_schedule m0) \<noteq> []" and "sch_teachers (mp_schedule m0) \<noteq> []"
    and "lunch_filled (mp_schedule m0)"
  shows "\<exists>acts m' k'. optimize_section re_match now timeout (SearchOptimizer_init m0) depth (m0, k) s = Inr (acts, m', k')"
  by (rule optimize_total [OF assms(1-3) never_raises_composite [OF assms(1,4-7)]])

lemma ex_safe: "safe_names ex_weights" "section_list ex_sch \<noteq> []" "sch_teachers ex_sch \<noteq> []" "lunch_filled ex_sch"
    "12 \<in> sections_of ex_sch"
  by (simp_all add: safe_names_def active_def ex_weights_def section_list_def lunch_filled_def)

theorem search_returns_witness:
  "\<exists>acts m' k'. optimize_section ex_re (\<lambda>_. ex_day 9) (Some (ex_day 10)) (SearchOptimizer_init ex_manipulator) 2
     (ex_manipulator, 0) 12 = Inr (acts, m', k')"
  by (rule search_returns [OF ex_tracked]) (use ex_safe in simp_all)

theorem search_reachable_witness:
  "\<exists>acts m' k'. optimize_section ex_re (\<lambda>_. ex_day 9) None (SearchOptimizer_init ex_manipulator) 1
     (ex_manipulator, 0) 12 = Inr (acts, m', k') \<and> reachable ex_re ex_manipulator m' \<and> managed m'"
proof -
  have nr: "never_raises ex_re ex_manipulator"
    by (rule never_raises_composite [OF ex_tracked ex_safe(1)]) (use ex_safe in simp_all)
  have s: "12 \<in> sections_of (mp_schedule ex_manipulator)" using ex_safe(5) by simp
  from optimize_total [OF ex_tracked _ s nr] obtain acts m' k' where
    o: "optimize_section ex_re (\<lambda>_. ex_day 9) None (SearchOptimizer_init ex_manipulator) 1 (ex_manipulator, 0) 12
      = Inr (acts, m', k')" by fastforce
  from search_reachable [OF tracked_managed [OF ex_tracked] _ s o] o show ?thesis by auto
qed

text \<open>At depth 1 the search ends with the best score any roomslot offers: at least the score it
  started from and at least that of every placement of the section that evicts nobody, one of which it carries out unless none is better.\<close>

theorem search_depth_1_optimal:
  assumes "tracked re_match nws criteria m" and "s \<in> sections_of (mp_schedule m)"
    and "optimize_section re_match now None (SearchOptimizer_init m) 1 (m, k) s = Inr (acts, m', k')"
  shows "\<exists>base x. composite_score (mp_scorer m) = Inr base \<and> composite_score (mp_scorer m') = Inr x \<and>
    base \<le> x \<and> (m' = m \<or> (\<exists>r. candidate re_match m s r m')) \<and>
    (\<forall>r m1 y. r \<in> all_roomslots (mp_heap m) (mp_schedule m) \<longrightarrow> candidate re_match m s r m1 \<longrightarrow>
       composite_score (mp_scorer m1) = Inr y \<longrightarrow> y \<le> x)"
  by (rule optimize_depth_1 [OF assms]) blast

lemma ex_never_raises: "never_raises ex_re ex_manipulator"
  by (rule never_raises_composite [OF ex_tracked ex_safe(1)]) (use ex_safe in simp_all)

lemma ex_optimized:
  obtains acts m' k' where "optimize_section ex_re now timeout (SearchOptimizer_init ex_manipulator) depth
    (ex_manipulator, k) 12 = Inr (acts, m', k')"
proof -
  have s: "12 \<in> sections_of (mp_schedule ex_manipulator)" using ex_safe(5) by simp
  from optimize_total [OF ex_tracked _ s ex_never_raises] that show thesis by fastforce
qed

theorem search_depth_1_optimal_witness:
  "\<exists>(m' :: manipulator) base x. composite_score ex_scorer = Inr base \<and> composite_score (mp_scorer m') = Inr x \<and> base \<le> x"
proof -
  obtain acts m' k' where o: "optimize_section ex_re (\<lambda>_. ex_day 9) None (SearchOptimizer_init ex_manipulator) 1
    (ex_manipulator, 0) 12 = Inr (acts, m', k')" by (rule ex_optimized)
  have s: "12 \<in> sections_of (mp_schedule ex_manipulator)" using ex_safe(5) by simp
  from search_depth_1_optimal [OF ex_tracked s o] obtain base x where
    "composite_score (mp_scorer ex_manipulator) = Inr base" "composite_score (mp_scorer m') = Inr x" "base \<le> x"
    by blast
  then show ?thesis unfolding ex_selectors by blast
qed

section \<open>Schedules that are built and loaded\<close>

text \<open>C28: A schedule loaded from the database is consistent and satisfies every required constraint.\<close>

theorem loaded_schedule_valid:
  assumes "load_schedule_from_db db h flags = Inr (h', sch)"
  shows "consistent h' sch \<and> legal h' sch"
  using load_consistent [OF assms] by blast

theorem loaded_schedule_valid_witness:
  "\<exists>h' sch. load_schedule_from_db ex_database ex_heap ex_flags = Inr (h', sch) \<and> length (sch_timeslots sch) = 2 \<and>
     consistent h' sch \<and> legal h' sch"
  using loaded loaded_schedule_valid [OF loaded] by (simp add: loaded_schedule_def)

text \<open>The constructor of a schedule returns only consistent schedules in which every section is
  contiguous, of its duration, and its teachers available and in one place at a time; it changes no more than the caches of roomslots.\<close>

theorem new_schedule_valid:
  assumes "AS_Schedule_init h timeslots secs teachers rooms lunch None excl = Inr (sch, h')"
  shows "cache_equiv h h' \<and> consistent h' sch \<and> legal h' sch"
  using init_ok(1,2) [OF assms] init_legal [OF assms] by blast

theorem new_schedule_valid_witness:
  "\<exists>sch h'. AS_Schedule_init loaded_heap [15, 16] [] [] [] [(ex_day 11, ex_day 12)] None True = Inr (sch, h') \<and>
     consistent h' sch \<and> legal h' sch"
  using loaded_init new_schedule_valid [OF loaded_init] by blast

text \<open>C32: The consistency checks, run on a schedule, pass exactly when the schedule is consistent.\<close>

theorem consistency_checks_decide:
  "(\<exists>h'. run_all_consistency_checks h sch = Inr h') \<longleftrightarrow> consistent h sch"
  by (rule run_all_iff)

text \<open>C26: A schedule satisfies the required constraints exactly when each section occupies contiguous roomslots of one room
  for its duration and each teacher is available for, and not twice in, every timeslot taught.\<close>

theorem legal_meaning:
  "legal h sch \<longleftrightarrow>
     (\<forall>s\<in>sections_of sch. run_ok h (sec_roomslots (hp_sec h s)) \<and>
        span_ok h (sec_duration (hp_sec h s)) (sec_roomslots (hp_sec h s))) \<and>
     (\<forall>t\<in>teachers_of sch. (\<forall>s\<in>set (dict_values (t_taught (hp_teacher h t))).
        available_at h t (sec_roomslots (hp_sec h s))) \<and> one_place h t)"
  by (rule legal_iff)

theorem legal_meaning_witness:
  "run_ok ex_heap [8, 9] \<and> span_ok ex_heap 2 [8, 9] \<and> one_place ex_heap 11"
  using legal_meaning [of ex_heap ex_sch] ex_legal by simp

text \<open>\<open>get_roomslots_by_duration\<close> takes consecutive roomslots of the room from the given one on, stopping at the
  first that brings the time spanned to the duration (within the tolerance), or at the last.\<close>

theorem roomslots_by_duration:
  assumes "index_ok h r"
  shows "\<exists>i m. i \<le> m \<and> m < length (room_av h r) \<and> room_av h r ! i = r \<and>
     get_roomslots_by_duration h r d = map ((!) (room_av h r)) [i..<Suc m] \<and>
     (\<forall>j. i \<le> j \<longrightarrow> j < m \<longrightarrow>
        d - hours_difference (rs_start h r) (rs_end h (room_av h r ! j)) > DELTA_TIME) \<and>
     (d - hours_difference (rs_start h r) (rs_end h (room_av h r ! m)) \<le> DELTA_TIME \<or>
      Suc m = length (room_av h r))"
  by (rule grs_spec [OF assms])

theorem roomslots_by_duration_witness:
  "\<exists>i m. i \<le> m \<and> m < 3 \<and> get_roomslots_by_duration ex_heap 4 2 = map ((!) [4, 5, 6]) [i..<Suc m]"
proof -
  have av: "room_av ex_heap 4 = [4, 5, 6]" by (simp add: room_av_def)
  then have "index_ok ex_heap 4" unfolding index_ok_def by (intro exI [of _ 0]) simp
  from roomslots_by_duration [OF this, of 2] obtain i m where "i \<le> m" "m < length (room_av ex_heap 4)"
    "get_roomslots_by_duration ex_heap 4 2 = map ((!) (room_av ex_heap 4)) [i..<Suc m]" by blast
  moreover have "length (room_av ex_heap 4) = 3" by (simp add: av)
  ultimately show ?thesis unfolding av by metis
qed

section \<open>The controller\<close>

text \<open>C37: Importing what a controller exported, into a controller in the state the first one started
  from, succeeds and reproduces its manipulator, for histories without swaps, timeslots without microseconds,
  every choice of scorers but \<open>TeachersWhoLikeRunningScorer\<close> (which the default weights include), and in exact arithmetic.\<close>

theorem export_then_import:
  assumes "accepted_run re_match m0 m" and "tracked re_match nws criteria m0" and "mp_history m0 = []"
    and "whole_times (mp_heap m0) (mp_schedule m0)"
    and "\<And>a. a \<in> set (mp_history m) \<Longrightarrow> act_section a \<noteq> None"
    and "ctl_manipulator c = m" and "ctl_manipulator c0 = m0"
  shows "\<exists>data. export_assignments c = Inr (data, ctl_options c) \<and>
    import_assignments re_match c0 data = Inr (c0\<lparr>ctl_manipulator := m\<rparr>)"
  by (rule export_import [OF assms(1-4) _ assms(6,7)]) (use assms(5) in blast)

definition ex_controller :: "manipulator \<Rightarrow> controller" where
  "ex_controller m = \<lparr>ctl_options = [], ctl_manipulator = m, ctl_roomslots = SearchOptimizer_init m,
     ctl_depth = NumberOption 1, ctl_section = 12, ctl_timeout = NumberOption 5, ctl_initial_scores = [],
     ctl_initial_total = 0\<rparr>"

theorem export_then_import_witness:
  "\<exists>m' data. operation ex_re ex_manipulator (Schedule 12 4) False = Inr (True, m') \<and>
     export_assignments (ex_controller m') = Inr (data, []) \<and>
     import_assignments ex_re (ex_controller ex_manipulator) data =
       Inr ((ex_controller ex_manipulator)\<lparr>ctl_manipulator := m'\<rparr>)"
proof -
  obtain m' where m': "operation ex_re ex_manipulator (Schedule 12 4) False = Inr (True, m')"
    "performed ex_re ex_manipulator (Schedule 12 4) m'" by (rule ex_accepted)
  have "act_section a \<noteq> None" if "a \<in> set (mp_history m')" for a
    using performed_sel(3) [OF m'(2)] that by (simp add: schedule_action_def)
  from export_then_import [OF ex_run [OF m'(1)] ex_tracked _ ex_whole this,
      of "ex_controller m'" "ex_controller ex_manipulator"] m'(1)
  show ?thesis by (auto simp: ex_controller_def)
qed

text \<open>A controller refuses assignments recorded for a section whose meeting times or rooms have changed since.\<close>

theorem import_refuses_moved:
  assumes "(i, x) \<in> set hashes" and "map_of (sch_sections (mp_schedule (ctl_manipulator c))) i = Some s"
    and "sec_initial_state (hp_sec (mp_heap (ctl_manipulator c)) s) \<noteq> x"
  shows "import_assignments re_match c (history, hashes) \<in>
    {Inl (SchedulingError ''Section {emailcode} was moved.''), Inl KeyError}"
  by (rule import_moved [OF assms])

theorem import_refuses_moved_witness:
  "import_assignments ex_re (ex_controller ex_manipulator) ([], [(31, ([], [''B'']))]) \<in>
    {Inl (SchedulingError ''Section {emailcode} was moved.''), Inl KeyError}"
  by (rule import_refuses_moved [where s = 12 and i = 31 and x = "([], [''B''])"])
    (simp_all add: ex_controller_def ex_section_def)

text \<open>A history with a swap cannot be exported: the action has no entry for its section.\<close>

theorem export_of_swap_fails:
  assumes "a \<in> set (mp_history (ctl_manipulator c))" and "act_section a = None"
  shows "export_assignments c = Inl KeyError"
  by (rule export_swap [OF assms])

theorem export_of_swap_fails_witness:
  "export_assignments (ex_controller (ex_manipulator\<lparr>mp_history := [swap_action 13 14 8 6]\<rparr>)) = Inl KeyError"
  by (rule export_of_swap_fails [where a = "swap_action 13 14 8 6"]) (simp_all add: ex_controller_def swap_action_def)

text \<open>The search as the controller runs it, with its deadline and tracked scorers, leaves the end of a run of
  accepted operations, with a settled schedule and exact scores, and changes nothing else of the controller.\<close>

theorem controller_search:
  assumes "tracked re_match nws criteria (ctl_manipulator c)" and "mp_history (ctl_manipulator c) = []"
    and "ctl_roomslots c = SearchOptimizer_init (ctl_manipulator c)"
    and "ctl_section c \<in> sections_of (mp_schedule (ctl_manipulator c))"
    and "compute_assignments re_match now deadline depth c = Inr c'"
  shows "accepted_run re_match (ctl_manipulator c) (ctl_manipulator c') \<and>
    tracked re_match nws criteria (ctl_manipulator c') \<and> c' = c\<lparr>ctl_manipulator := ctl_manipulator c'\<rparr>"
  by (rule compute_assignments_reachable [OF assms])

theorem controller_search_witness:
  "\<exists>c'. compute_assignments ex_re (\<lambda>_. ex_day 9) (ex_day 10) 1 (ex_controller ex_manipulator) = Inr c' \<and>
     accepted_run ex_re ex_manipulator (ctl_manipulator c')"
proof -
  obtain acts m' k' where o: "optimize_section ex_re (\<lambda>_. ex_day 9) (Some (ex_day 10)) (SearchOptimizer_init ex_manipulator) 1
    (ex_manipulator, 0) 12 = Inr (acts, m', k')" by (rule ex_optimized)
  then have c: "compute_assignments ex_re (\<lambda>_. ex_day 9) (ex_day 10) 1 (ex_controller ex_manipulator) =
      Inr ((ex_controller ex_manipulator)\<lparr>ctl_manipulator := m'\<rparr>)"
    by (simp add: compute_assignments_def ex_controller_def)
  from controller_search [OF _ _ _ _ c, of ex_weights "[]"] c ex_tracked ex_safe(5) show ?thesis
    by (simp add: ex_controller_def)
qed

section \<open>What a history amounts to\<close>

text \<open>C38: \<open>simplify_history\<close> of the history of any run of accepted operations, with any scorers, lists, for each section it
  mentions, the one action that leads from where the section was at the start to where it is now; no other section has moved.
  Where a section was unscheduled at both times there is no such action, and it raises.\<close>

theorem history_summary:
  assumes "reachable re_match m0 m" and "mp_history m0 = []"
  shows "\<exists>touched. distinct touched \<and> set touched = \<Union> (mentions ` set (mp_history m)) \<and>
    (\<forall>s. s \<notin> set touched \<longrightarrow> roomslots_of (mp_heap m) s = roomslots_of (mp_heap m0) s) \<and>
    simplify_history (mp_history m) = rmap (net_change (mp_heap m0) (mp_heap m)) touched"
  by (rule simplify_history_reachable [OF assms])

theorem history_summary_witness:
  "\<exists>m :: manipulator. mp_history m = [schedule_action 12 4] \<and>
     simplify_history (mp_history m) = rmap (net_change ex_heap (mp_heap m)) [12]"
proof -
  obtain m' where m': "operation ex_re ex_manipulator (Schedule 12 4) False = Inr (True, m')"
    "performed ex_re ex_manipulator (Schedule 12 4) m'" by (rule ex_accepted)
  have h: "mp_history m' = [schedule_action 12 4]" using performed_sel(3) [OF m'(2)] by simp
  from history_summary [OF accepted_reachable [OF ex_run [OF m'(1)] tracked_managed [OF ex_tracked]]] obtain touched where
    t: "distinct touched" "set touched = mentions (schedule_action 12 4)"
      "simplify_history (mp_history m') = rmap (net_change ex_heap (mp_heap m')) touched" by (auto simp: h)
  then have "touched = [12]"
    by (cases touched rule: remdups_adj.cases) (auto simp: mentions_def schedule_action_def)
  with t(3) h show ?thesis by (metis (no_types))
qed

text \<open>\<open>simplify_history\<close> fails exactly when a section was scheduled and unscheduled again, so that
  nothing is left to tell of it.\<close>

theorem history_summary_fails:
  assumes "reachable re_match m0 m" and "mp_history m0 = []"
  shows "simplify_history (mp_history m) = Inl e \<longleftrightarrow>
    e = AssertionError ''Did nothing'' \<and>
    (\<exists>s\<in>\<Union> (mentions ` set (mp_history m)). \<not> is_scheduled (mp_heap m0) s \<and> \<not> is_scheduled (mp_heap m) s)"
  by (rule simplify_history_idle [OF assms])

theorem history_summary_fails_witness:
  "\<exists>m. reachable ex_re ex_manipulator m \<and> simplify_history (mp_history m) = Inl (AssertionError ''Did nothing'')"
proof -
  obtain m where m: "reachable ex_re ex_manipulator m" "mentions (schedule_action 12 4) \<subseteq> \<Union> (mentions ` set (mp_history m))"
    "mp_heap m = ex_heap" by (rule ex_idle)
  have "12 \<in> mentions (schedule_action 12 4)" by (simp add: mentions_def schedule_action_def)
  with m have "\<exists>s\<in>\<Union> (mentions ` set (mp_history m)). \<not> is_scheduled ex_heap s \<and> \<not> is_scheduled (mp_heap m) s"
    by (intro bexI [of _ 12]) (auto simp: is_scheduled_def)
  with history_summary_fails [OF m(1)] m(1) show ?thesis by auto
qed

section \<open>Settings and criteria\<close>

text \<open>A resource criterion printed as a specification is parsed back to the same criterion.\<close>

theorem specification_roundtrip:
  assumes "printable_section (crit_section c)" and "printable_classroom (crit_classroom c)"
    and "matcher_types (crit_section c) \<subseteq> set valid_res_types"
    and "\<not> sublist ''then '' (if crit_on_section c then classroom_matcher_str (crit_classroom c)
                          else section_matcher_str (crit_section c))"
  shows "create_from_specification (criterion_spec c) (crit_name c) valid_res_types = Inr c"
  by (rule criterion_roundtrip [OF assms])

definition ex_criterion :: criterion where
  "ex_criterion = \<lparr>crit_section = TrivialSectionMatcher,
     crit_classroom = NegatingClassroomMatcher (ClassroomNameMatcher ''B''), crit_on_section = True, crit_name = ''c''\<rparr>"

theorem specification_roundtrip_witness:
  "create_from_specification ''if any section then not classroom matches B'' ''c'' [] = Inr ex_criterion"
proof -
  have "criterion_spec ex_criterion = ''if any section then not classroom matches B''"
    by (simp add: criterion_spec_def ex_criterion_def)
  moreover have "create_from_specification (criterion_spec ex_criterion) (crit_name ex_criterion) [] = Inr ex_criterion"
    by (rule specification_roundtrip) (code_simp)+
  ultimately show ?thesis by (simp add: ex_criterion_def)
qed

text \<open>The criteria of a program: a constraint of the tag or of the defaults has weight -1 and takes precedence,
  a scoring entry keeps its weight, and an entry overridden with none is dropped.\<close>

theorem criteria_of_program:
  assumes "distinct (map fst ctag)" and "distinct (map fst stag)"
    and "load_all_resource_criteria (Some ctag) (Some stag) False = Inr d"
  shows "map_of d k =
    (if contains ''_comment'' k then None
     else case required_spec ctag k of
            Some spec \<Rightarrow> Some (Some spec, -1)
          | None \<Rightarrow> (case map_of stag k of
                Some (Weighted spec w) \<Rightarrow> if spec_dropped spec then None else Some (spec, w)
              | _ \<Rightarrow> None))"
  by (rule load_all_lookup [OF assms])

theorem criteria_of_program_witness:
  "\<exists>d. load_all_resource_criteria (Some [(''a'', Some ''s'')]) (Some [(''b'', Weighted (Some ''t'') 2)]) False = Inr d \<and>
     map_of d ''b'' = Some (Some ''t'', 2)"
proof -
  have "case load_all_resource_criteria (Some [(''a'', Some ''s'')]) (Some [(''b'', Weighted (Some ''t'') 2)]) False of
      Inl e \<Rightarrow> False | Inr d \<Rightarrow> True" by code_simp
  then have "\<exists>d. load_all_resource_criteria (Some [(''a'', Some ''s'')]) (Some [(''b'', Weighted (Some ''t'') 2)]) False = Inr d"
    by (simp split: sum.splits)
  then obtain d where d: "load_all_resource_criteria (Some [(''a'', Some ''s'')])
      (Some [(''b'', Weighted (Some ''t'') 2)]) False = Inr d" ..
  have "required_spec [(''a'', Some ''s'')] ''b'' = None" "\<not> contains ''_comment'' ''b''" by code_simp+
  with criteria_of_program [OF _ _ d, of "''b''"] d show ?thesis by (simp add: spec_dropped_def)
qed

text \<open>Parsing the required criteria of a program always fails, because one of the two defaults is a remark.\<close>

theorem default_criteria_fail:
  "\<exists>msg. load_resource_constraint_criteria (Some []) [] ignore_comments types = Inl (ValueError msg)"
  by (rule default_constraints_unparsable)

section \<open>Rows of the database\<close>

text \<open>A section converted from its row occupies roomslots at exactly the meeting times of the row, in order.\<close>

theorem section_meeting_times:
  assumes "convert_classection_obj h section tbs rooms rbs mbs qbs = Inr (Some s, h1)"
    and "map_of mbs (cs_id section) = Some meetings"
  shows "sec_id (hp_sec h1 s) = cs_id section \<and>
    mset (map (\<lambda>r. (dt_str (fst (rs_key h1 r)), dt_str (snd (rs_key h1 r)))) (sec_roomslots (hp_sec h1 s))) =
      mset (map (\<lambda>e. (dt_str (ev_start e), dt_str (ev_end e))) meetings) \<and>
    sorted (map (rs_key h1) (sec_roomslots (hp_sec h1 s)))"
  by (intro conjI converted_section [OF assms])

theorem section_meeting_times_witness:
  "\<exists>s h1. ex_converted 10 = Inr (Some s, h1) \<and> length (sec_roomslots (hp_sec h1 s)) = 1"
proof -
  obtain s h1 where s: "ex_converted 10 = Inr (Some s, h1)" by (rule ex_row_loads)
  from section_meeting_times [OF s [unfolded ex_converted_def], of "[ex_event 101 10]"]
  have "size (mset (map (\<lambda>r. (dt_str (fst (rs_key h1 r)), dt_str (snd (rs_key h1 r)))) (sec_roomslots (hp_sec h1 s)))) =
      size (mset (map (\<lambda>e. (dt_str (ev_start e), dt_str (ev_end e))) [ex_event 101 10]))" by simp
  then have "length (sec_roomslots (hp_sec h1 s)) = 1" unfolding size_mset by simp
  with s show ?thesis by blast
qed

text \<open>A section with one meeting time, whose room is booked for it at another time, is not skipped: loading it raises.\<close>

theorem mismatched_room_time:
  assumes "map_of mbs (cs_id section) = Some [e]" and "map_of rbs (cs_id section) = Some [c]"
    and "\<bar>hours_difference (ev_start e) (ev_end e) - cs_duration section\<bar> \<le> DELTA_TIME"
    and "map_of tbs (cs_id section) \<noteq> None" and "map_of qbs (cs_id section) \<noteq> None"
    and "map_of rooms (res_name c) = Some room"
    and "map_of (room_avail_dict (hp_room h room)) (ev_start (res_event c), ev_end (res_event c)) = Some r"
    and "rs_key h r = (ev_start (res_event c), ev_end (res_event c))"
    and "dt_str (ev_start (res_event c)) \<noteq> dt_str (ev_start e)"
  shows "convert_classection_obj h section tbs rooms rbs mbs qbs =
    Inl (AssertionError ''AS_ClassSection state doesn't match ClassSection state for section {section.emailcode()}'')"
  by (rule mismatch_asserts [OF assms])

theorem mismatched_room_time_witness:
  "ex_converted 11 =
    Inl (AssertionError ''AS_ClassSection state doesn't match ClassSection state for section {section.emailcode()}'')"
  unfolding ex_converted_def
  by (rule mismatched_room_time [where e = "ex_event 101 10" and c = "ex_booking 11" and room = 3 and r = 5])
    (use ex_row_fails in \<open>simp_all add: DELTA_TIME_def\<close>)

text \<open>That a room is booked twice at the same time is never reported when classrooms are converted,
  whatever the assignments in the database.\<close>

theorem double_booking_missed:
  "convert_classroom_resources db h classrooms timeslot_dict known rbs mbs \<noteq> Inl (SchedulingError double_booked)"
  by (rule double_booking_unnoticed)

section \<open>Requests that fail\<close>

text \<open>Swapping a scheduled section with itself never succeeds, forced or not: the second of the two assignments raises.\<close>

theorem swap_with_itself:
  assumes "is_scheduled (mp_heap m) s"
  shows "operation re_match m (Swap s s) force \<noteq> Inr (True, m') \<and>
    (\<exists>msg. swap_effect (mp_heap m) s s = Inl (AssertionError msg))"
  using swap_self [OF assms] swap_effect_self [OF assms] by blast

theorem swap_with_itself_witness:
  "(\<forall>m'. operation ex_re ex_manipulator (Swap 13 13) True \<noteq> Inr (True, m')) \<and>
    (\<exists>msg. swap_effect ex_heap 13 13 = Inl (AssertionError msg))"
  using swap_with_itself [of ex_manipulator 13] by (simp del: operation.simps add: is_scheduled_def)

text \<open>With a resource criterion among the constraints no swap is ever accepted: the check raises.\<close>

theorem swap_under_criteria:
  assumes "ResourceCriteriaConstraint cs \<in> set (mp_constraints m)"
  shows "operation re_match m (Swap s1 s2) False \<noteq> Inr (True, m')"
  by (rule swap_criteria [OF assms])

theorem swap_under_criteria_witness:
  "\<forall>m'. operation ex_re (ex_manipulator\<lparr>mp_constraints := [ResourceCriteriaConstraint []]\<rparr>) (Swap 13 14) False \<noteq>
     Inr (True, m')"
  by (intro allI swap_under_criteria) simp

text \<open>\<open>LunchConstraint.check_schedule\<close> raises on every schedule that has sections and lunch timeslots.\<close>

theorem lunch_constraint_raises:
  assumes "sch_sections sch \<noteq> []" and "sch_lunch sch \<noteq> []" and "\<forall>ts\<in>set (dict_values (sch_lunch sch)). ts \<noteq> []"
  shows "check_schedule LunchConstraint h sch = Inl AttributeError"
  by (rule lunch_attribute_error [OF assms])

theorem lunch_constraint_raises_witness: "check_schedule LunchConstraint ex_heap ex_sch = Inl AttributeError"
  by (rule lunch_constraint_raises) simp_all

section \<open>Times\<close>

text \<open>A datetime survives being dumped to JSON and loaded exactly when it has no microseconds.\<close>

theorem datetime_roundtrip:
  assumes "valid_datetime d"
  shows "datetimeloads (datetimedump d) = Inr d \<longleftrightarrow> dt_microsecond d = 0"
  by (rule datetimeloads_dump [OF assms])

theorem datetime_roundtrip_witness: "datetimeloads (datetimedump (ex_day 10)) = Inr (ex_day 10)"
  using datetime_roundtrip [of "ex_day 10"] by (simp add: ex_day_def valid_datetime_def days_in_month_def)

text \<open>In a schedule whose timeslots pass their check, all timeslots are disjoint and in order.\<close>

theorem timeslots_in_order:
  assumes "check_timeslot_consistency h sch = Inr ()"
    and "\<forall>t\<in>set (sch_timeslots sch). ts_start (hp_ts h t) < ts_end (hp_ts h t)"
  shows "sorted_wrt (\<lambda>a b. ts_end (hp_ts h a) \<le> ts_start (hp_ts h b)) (sch_timeslots sch)"
  by (rule timeslots_disjoint [OF assms])

theorem timeslots_in_order_witness:
  "sorted_wrt (\<lambda>a b. ts_end (hp_ts ex_heap a) \<le> ts_start (hp_ts ex_heap b)) [0, 1, 2]"
proof -
  have "check_timeslot_consistency ex_heap ex_sch = Inr ()"
    by (simp add: check_timeslot_consistency_def check_iff dict_get_def dict_of_def ts_eq_def ts_gt_def ts_lt_def)
  from timeslots_in_order [OF this] show ?thesis by simp
qed

text \<open>The lunch timeslots of a day are the program's timeslots among the given times of that day, in order of time.\<close>

theorem lunch_by_day:
  assumes "build_lunch_timeslots d lunch = Inr by_day"
  shows "map_of by_day day =
    (let ts = map (\<lambda>se. the (map_of d se))
        (filter (\<lambda>se. map_of d se \<noteq> None \<and> date_of (fst se) = day) (sort lunch))
     in if ts = [] then None else Some ts)"
  by (rule build_lunch_spec [OF assms])

theorem lunch_by_day_witness: "map_of [((2024, 1, 6), [16 :: nat])] (2024, 1, 7 :: int) = None"
  using lunch_by_day [OF ex_lunch, of "(2024, 1, 7)"] by simp

end
